(* ===== verification/Prelude.thy ===== *)
theory Prelude
  imports Main "HOL-Library.Word"
begin

text \<open>
  Shared vocabulary of the development: the widths of the C integer types that matter, the
  faults a C function can run into (the branches where the source has undefined behaviour are
  values of the model, never silently total), fixed-size arrays as lists, and the generic
  interface of a machine that is driven by events.
\<close>

unbundle bit_operations_syntax

section \<open>Machine types\<close>

type_synonym u8 = "8 word"
type_synonym u16 = "16 word"
type_synonym u32 = "32 word"

text \<open>
  What goes wrong where C leaves the behaviour undefined: a null pointer is dereferenced, an
  array is read or written outside its bounds, an object is used under the type of another one
  or after its end, a recursion does not end, a number is divided by zero, the code stops in an endless loop of its own.
\<close>

datatype fault = Null_Deref | Out_Of_Bounds | Wrong_Object | Stack_Overflow | Dangling | Division_By_Zero | Halted

text \<open>
  The result of an operation on a state \<open>'s\<close>: a fault, or the new state and the calls (of type
  \<open>'o\<close>) the operation has made to code outside of it, in order. \<open>and_then\<close> is the sequence of two
  statements and \<open>run_all\<close> a \<open>for\<close> loop over a list.
\<close>

type_synonym ('s, 'o) result = "fault + ('s \<times> 'o list)"

definition and_then :: "('s, 'o) result \<Rightarrow> ('s \<Rightarrow> ('t, 'o) result) \<Rightarrow> ('t, 'o) result" where
  "and_then r f = (case r of Inl e \<Rightarrow> Inl e
     | Inr (s, cs) \<Rightarrow> (case f s of Inl e \<Rightarrow> Inl e | Inr (s', cs') \<Rightarrow> Inr (s', cs @ cs')))"

fun run_all :: "('e \<Rightarrow> 's \<Rightarrow> ('s, 'o) result) \<Rightarrow> 'e list \<Rightarrow> 's \<Rightarrow> ('s, 'o) result" where
  "run_all f [] s = Inr (s, [])"
| "run_all f (e # es) s = and_then (f e s) (run_all f es)"

text \<open>What holds of the state an operation ends in, when it does not fault.\<close>

definition ends_in :: "('s \<Rightarrow> bool) \<Rightarrow> ('s, 'o) result \<Rightarrow> bool" where
  "ends_in P r = (case r of Inl _ \<Rightarrow> True | Inr (s, _) \<Rightarrow> P s)"

named_theorems result_simps "evaluation of sequences of operations"

lemma and_then_simps [simp, result_simps]:
  "and_then (Inl e) f = Inl e"
  "and_then (Inr (s, cs)) f = (case f s of Inl e \<Rightarrow> Inl e | Inr (s', cs') \<Rightarrow> Inr (s', cs @ cs'))"
  by (simp_all add: and_then_def)

lemma ends_in_simps [simp]:
  "ends_in P (Inl e)"
  "ends_in P (Inr (s, cs)) \<longleftrightarrow> P s"
  by (simp_all add: ends_in_def)

lemma ends_in_and_then:
  assumes "ends_in P r" "\<And>s. P s \<Longrightarrow> ends_in Q (f s)"
  shows "ends_in Q (and_then r f)"
proof (cases r)
  case (Inr p)
  then obtain s cs where r: "r = Inr (s, cs)" by (cases p) simp
  then have "ends_in Q (f s)" using assms by simp
  then show ?thesis using r by (cases "f s") auto
qed simp

lemma ends_in_run_all:
  "P s \<Longrightarrow> (\<And>e s. e \<in> set es \<Longrightarrow> P s \<Longrightarrow> ends_in P (f e s)) \<Longrightarrow> ends_in P (run_all f es s)"
  by (induction es arbitrary: s) (auto intro: ends_in_and_then)

lemma run_all_append: "run_all f (xs @ ys) s = and_then (run_all f xs s) (run_all f ys)"
  by (induction xs arbitrary: s) (auto simp: and_then_def split: sum.split prod.split)

lemma ends_in_D: "ends_in P r \<Longrightarrow> r = Inr (s, cs) \<Longrightarrow> P s"
  by (simp add: ends_in_def)

lemma ends_in_mono: "ends_in P r \<Longrightarrow> (\<And>s. P s \<Longrightarrow> Q s) \<Longrightarrow> ends_in Q r"
  by (auto simp: ends_in_def split: sum.splits prod.splits)

text \<open>The same without calls: an operation that may fault, and what follows it.\<close>

definition bind :: "fault + 'a \<Rightarrow> ('a \<Rightarrow> fault + 'b) \<Rightarrow> fault + 'b" where
  "bind r f = (case r of Inl e \<Rightarrow> Inl e | Inr a \<Rightarrow> f a)"

lemma bind_simps [simp]: "bind (Inl e) f = Inl e" "bind (Inr a) f = f a"
  by (simp_all add: bind_def)

section \<open>Arrays\<close>

text \<open>\<open>memcpy\<close> of the list \<open>xs\<close> to the start of an array.\<close>

definition overwrite :: "'a list \<Rightarrow> 'a list \<Rightarrow> 'a list" where
  "overwrite xs arr = xs @ drop (length xs) arr"

named_theorems arr_simps "lengths and reads of arrays after a write"

lemma length_overwrite [arr_simps]:
  "length xs \<le> length arr \<Longrightarrow> length (overwrite xs arr) = length arr"
  by (simp add: overwrite_def)

lemma take_overwrite [arr_simps]: "take (length xs) (overwrite xs arr) = xs"
  by (simp add: overwrite_def)

lemma nth_overwrite_ge [arr_simps]:
  "length xs \<le> i \<Longrightarrow> i < length arr \<Longrightarrow> overwrite xs arr ! i = arr ! i"
  by (simp add: overwrite_def nth_append)

lemma list_update_all:
  "list_all P xs \<Longrightarrow> P x \<Longrightarrow> list_all P (xs[i := x])"
  by (metis list_all_iff set_update_subset_insert insertE subsetD)

lemma list_all_nth_lt: "list_all P xs \<Longrightarrow> i < length xs \<Longrightarrow> P (xs ! i)"
  by (simp add: list_all_length)

section \<open>Machines driven by events\<close>

text \<open>
  The contract every stateful component of the development is held to: its operations are a
  step function over events, and its well-formedness is kept by each of them.
\<close>

locale event_machine =
  fixes step :: "'s \<Rightarrow> 'e \<Rightarrow> 's"
    and invar :: "'s \<Rightarrow> bool"
  assumes step_invar: "invar s \<Longrightarrow> invar (step s e)"
begin

lemma run_invar: "invar s \<Longrightarrow> invar (fold (\<lambda>e t. step t e) es s)"
  by (induction es arbitrary: s) (auto intro: step_invar)

lemma run_prefix_invar:
  assumes "invar s"
  shows "invar (fold (\<lambda>e t. step t e) (take n es) s)"
  using assms by (rule run_invar)

end

end
