(* ===== verification/Crc16.thy ===== *)
theory Crc16
  imports Prelude
begin

text \<open>
  \<^verbatim>\<open>utils/algorithms/sm_crc.c\<close>: the table-driven CRC-16 (polynomial \<open>0x1021\<close>, initial
  value \<open>0xFFFF\<close>) that protects host frames, firmware segments and stored parameters, the
  generator of its table, and the bit-by-bit CRC-8 of the same file. The interface that frame
  protocols rely on is the locale \<open>frame_check\<close>.
\<close>

section \<open>The lookup table and the routine that computes it\<close>

definition CRC_16_POLYNOMIAL :: u16 where "CRC_16_POLYNOMIAL = 0x1021"
definition CRC_16_INIT_VALUE :: u16 where "CRC_16_INIT_VALUE = 0xFFFF"
definition CRC_16_XOR_VALUE :: u16 where "CRC_16_XOR_VALUE = 0x0000"

definition crc_16_buypass_lut :: "u16 list" where
  "crc_16_buypass_lut =
   [0x0000, 0x1021, 0x2042, 0x3063, 0x4084, 0x50a5, 0x60c6, 0x70e7,
    0x8108, 0x9129, 0xa14a, 0xb16b, 0xc18c, 0xd1ad, 0xe1ce, 0xf1ef,
    0x1231, 0x0210, 0x3273, 0x2252, 0x52b5, 0x4294, 0x72f7, 0x62d6,
    0x9339, 0x8318, 0xb37b, 0xa35a, 0xd3bd, 0xc39c, 0xf3ff, 0xe3de,
    0x2462, 0x3443, 0x0420, 0x1401, 0x64e6, 0x74c7, 0x44a4, 0x5485,
    0xa56a, 0xb54b, 0x8528, 0x9509, 0xe5ee, 0xf5cf, 0xc5ac, 0xd58d,
    0x3653, 0x2672, 0x1611, 0x0630, 0x76d7, 0x66f6, 0x5695, 0x46b4,
    0xb75b, 0xa77a, 0x9719, 0x8738, 0xf7df, 0xe7fe, 0xd79d, 0xc7bc,
    0x48c4, 0x58e5, 0x6886, 0x78a7, 0x0840, 0x1861, 0x2802, 0x3823,
    0xc9cc, 0xd9ed, 0xe98e, 0xf9af, 0x8948, 0x9969, 0xa90a, 0xb92b,
    0x5af5, 0x4ad4, 0x7ab7, 0x6a96, 0x1a71, 0x0a50, 0x3a33, 0x2a12,
    0xdbfd, 0xcbdc, 0xfbbf, 0xeb9e, 0x9b79, 0x8b58, 0xbb3b, 0xab1a,
    0x6ca6, 0x7c87, 0x4ce4, 0x5cc5, 0x2c22, 0x3c03, 0x0c60, 0x1c41,
    0xedae, 0xfd8f, 0xcdec, 0xddcd, 0xad2a, 0xbd0b, 0x8d68, 0x9d49,
    0x7e97, 0x6eb6, 0x5ed5, 0x4ef4, 0x3e13, 0x2e32, 0x1e51, 0x0e70,
    0xff9f, 0xefbe, 0xdfdd, 0xcffc, 0xbf1b, 0xaf3a, 0x9f59, 0x8f78,
    0x9188, 0x81a9, 0xb1ca, 0xa1eb, 0xd10c, 0xc12d, 0xf14e, 0xe16f,
    0x1080, 0x00a1, 0x30c2, 0x20e3, 0x5004, 0x4025, 0x7046, 0x6067,
    0x83b9, 0x9398, 0xa3fb, 0xb3da, 0xc33d, 0xd31c, 0xe37f, 0xf35e,
    0x02b1, 0x1290, 0x22f3, 0x32d2, 0x4235, 0x5214, 0x6277, 0x7256,
    0xb5ea, 0xa5cb, 0x95a8, 0x8589, 0xf56e, 0xe54f, 0xd52c, 0xc50d,
    0x34e2, 0x24c3, 0x14a0, 0x0481, 0x7466, 0x6447, 0x5424, 0x4405,
    0xa7db, 0xb7fa, 0x8799, 0x97b8, 0xe75f, 0xf77e, 0xc71d, 0xd73c,
    0x26d3, 0x36f2, 0x0691, 0x16b0, 0x6657, 0x7676, 0x4615, 0x5634,
    0xd94c, 0xc96d, 0xf90e, 0xe92f, 0x99c8, 0x89e9, 0xb98a, 0xa9ab,
    0x5844, 0x4865, 0x7806, 0x6827, 0x18c0, 0x08e1, 0x3882, 0x28a3,
    0xcb7d, 0xdb5c, 0xeb3f, 0xfb1e, 0x8bf9, 0x9bd8, 0xabbb, 0xbb9a,
    0x4a75, 0x5a54, 0x6a37, 0x7a16, 0x0af1, 0x1ad0, 0x2ab3, 0x3a92,
    0xfd2e, 0xed0f, 0xdd6c, 0xcd4d, 0xbdaa, 0xad8b, 0x9de8, 0x8dc9,
    0x7c26, 0x6c07, 0x5c64, 0x4c45, 0x3ca2, 0x2c83, 0x1ce0, 0x0cc1,
    0xef1f, 0xff3e, 0xcf5d, 0xdf7c, 0xaf9b, 0xbfba, 0x8fd9, 0x9ff8,
    0x6e17, 0x7e36, 0x4e55, 0x5e74, 0x2e93, 0x3eb2, 0x0ed1, 0x1ef0]"

definition crc16_bit :: "u16 \<Rightarrow> u16" where
  "crc16_bit result =
     (let xor_flag = result AND 0x8000;
          result = push_bit 1 result
      in if xor_flag \<noteq> 0 then result XOR CRC_16_POLYNOMIAL else result)"

definition crc16_table_entry :: "nat \<Rightarrow> u16" where
  "crc16_table_entry i = (crc16_bit ^^ 8) (push_bit 8 (word_of_nat i))"

definition CRC_CalculateCRC16Table :: "u16 list" where
  "CRC_CalculateCRC16Table = map crc16_table_entry [0..<256]"

text \<open>
  The index \<^verbatim>\<open>(retVal >> 8) ^ Buffer[byteIndex]\<close> is below 256, so it always hits the table.
\<close>

definition crc16_step :: "u16 \<Rightarrow> u8 \<Rightarrow> u16" where
  "crc16_step retVal b =
     push_bit 8 retVal XOR crc_16_buypass_lut ! unat (drop_bit 8 retVal XOR ucast b)"

definition sm_CRC_CalculateCRC16_init_value :: "u16 \<Rightarrow> u8 list \<Rightarrow> u16" where
  "sm_CRC_CalculateCRC16_init_value crc_init buf = foldl crc16_step crc_init buf"

definition sm_CRC_CalculateCRC16 :: "u8 list \<Rightarrow> u16" where
  "sm_CRC_CalculateCRC16 buf =
     foldl crc16_step CRC_16_INIT_VALUE buf XOR CRC_16_XOR_VALUE"

text \<open>
  The \<^verbatim>\<open>RUNTTIME\<close> variant of the same routine (the other branch of its \<^verbatim>\<open>#if\<close>): bit by bit
  in a 32-bit accumulator that is cut to 16 bits only at the return.
\<close>

definition crc16_rt_bit :: "u32 \<Rightarrow> u32" where
  "crc16_rt_bit retVal =
     (if retVal AND 0x8000 \<noteq> 0 then push_bit 1 retVal XOR 0x1021 else push_bit 1 retVal)"

definition crc16_rt_byte :: "u32 \<Rightarrow> u8 \<Rightarrow> u32" where
  "crc16_rt_byte retVal b = (crc16_rt_bit ^^ 8) (retVal XOR push_bit 8 (ucast b))"

definition sm_CRC_CalculateCRC16_runtime :: "u8 list \<Rightarrow> u16" where
  "sm_CRC_CalculateCRC16_runtime buf =
     ucast (foldl crc16_rt_byte (ucast CRC_16_INIT_VALUE) buf XOR (ucast CRC_16_XOR_VALUE :: u32))"

section \<open>CRC-8 and CRC-32\<close>

definition crc8_bit :: "u8 \<Rightarrow> u8" where
  "crc8_bit r = (if r AND 0x80 \<noteq> 0 then push_bit 1 r XOR 0x1D else push_bit 1 r)"

definition sm_CRC_CalculateCRC8 :: "u8 list \<Rightarrow> u8" where
  "sm_CRC_CalculateCRC8 buf = foldl (\<lambda>r b. (crc8_bit ^^ 8) (r XOR b)) 0xFF buf XOR 0xFF"

definition CRC_ReverseBitOrder8 :: "u8 \<Rightarrow> u8" where
  "CRC_ReverseBitOrder8 value =
     (let value = drop_bit 4 (value AND 0xF0) OR push_bit 4 (value AND 0x0F);
          value = drop_bit 2 (value AND 0xCC) OR push_bit 2 (value AND 0x33)
      in drop_bit 1 (value AND 0xAA) OR push_bit 1 (value AND 0x55))"

text \<open>The loop \<^verbatim>\<open>for (i = 31; value; )\<close>; \<open>i\<close> is the shift of the next bit.\<close>

function rev32_loop :: "u8 \<Rightarrow> u32 \<Rightarrow> u32 \<Rightarrow> u32" where
  "rev32_loop i value reversed =
     (if value = 0 then reversed
      else rev32_loop (i - 1) (drop_bit 1 value) (reversed OR push_bit (unat i) (value AND 1)))"
  by pat_completeness auto
termination
proof (relation "measure (\<lambda>(i, value, r). unat value)")
  fix i :: u8 and v r :: u32
  assume "v \<noteq> 0"
  then have "0 < unat v" by (simp add: unat_gt_0)
  then have "unat v div 2 < unat v" by simp
  then show "((i - 1, drop_bit 1 v, r OR push_bit (unat i) (v AND 1)), i, v, r) \<in> measure (\<lambda>(i, value, r). unat value)"
    by (simp add: drop_bit_eq_div unat_div)
qed simp

declare rev32_loop.simps [simp del]

definition CRC_ReverseBitOrder32 :: "u32 \<Rightarrow> u32" where
  "CRC_ReverseBitOrder32 value = rev32_loop 31 value 0"

definition crc32_bit :: "u32 \<Rightarrow> u32" where
  "crc32_bit r = (if r AND 0x80000000 \<noteq> 0 then push_bit 1 r XOR 0x04C11DB7 else push_bit 1 r)"

definition sm_CRC_CalculateCRC32 :: "u8 list \<Rightarrow> u32" where
  "sm_CRC_CalculateCRC32 buf =
     CRC_ReverseBitOrder32
       (foldl (\<lambda>r b. (crc32_bit ^^ 8) (r XOR push_bit 24 (ucast (CRC_ReverseBitOrder8 b))))
          0xFFFFFFFF buf XOR 0xFFFFFFFF)"

section \<open>The table is the one its generator computes\<close>

lemma funpow_8: "(f ^^ 8) x = f (f (f (f (f (f (f (f x)))))))"
  by (simp add: eval_nat_numeral)

lemma crc16_entry_unfold:
  "crc16_table_entry i =
     crc16_bit (crc16_bit (crc16_bit (crc16_bit (crc16_bit (crc16_bit (crc16_bit (crc16_bit
       (push_bit 8 (word_of_nat i)))))))))"
  by (simp add: crc16_table_entry_def funpow_8)

lemma crc16_bit_numeral:
  "crc16_bit (numeral k) =
     (if (numeral k :: u16) AND 0x8000 \<noteq> 0 then push_bit 1 (numeral k) XOR 0x1021
      else push_bit 1 (numeral k))"
  "crc16_bit 0 = 0"
  "crc16_bit 1 = 2"
  by (simp_all add: crc16_bit_def CRC_16_POLYNOMIAL_def Let_def)

lemma crc16_table_is_lut: "CRC_CalculateCRC16Table = crc_16_buypass_lut"
  by (simp add: CRC_CalculateCRC16Table_def upt_conv_Cons crc16_entry_unfold crc16_bit_numeral
        crc_16_buypass_lut_def)

lemma lut_0: "crc_16_buypass_lut ! 0 = 0"
  by (simp add: crc_16_buypass_lut_def)

lemma lut_entry: "i < 256 \<Longrightarrow> crc_16_buypass_lut ! i = crc16_table_entry i"
  by (simp flip: crc16_table_is_lut add: CRC_CalculateCRC16Table_def)

lemma crc16_index_bound: "unat (drop_bit 8 r XOR ucast b :: u16) < 256" for r :: u16 and b :: u8
proof -
  have "drop_bit 8 r XOR ucast b = take_bit 8 (drop_bit 8 r XOR ucast b :: u16)"
    by (rule bit_word_eqI) (auto simp: bit_simps dest: bit_imp_le_length)
  then have "unat (drop_bit 8 r XOR ucast b :: u16)
      = take_bit 8 (unat (drop_bit 8 r XOR ucast b :: u16))"
    by (metis unsigned_take_bit_eq)
  also have "\<dots> < 2 ^ 8" by (rule take_bit_nat_less_exp)
  finally show ?thesis by simp
qed

section \<open>Table-driven equals bit by bit\<close>

lemma u16_top: "z AND 0x8000 = 0 \<longleftrightarrow> \<not> bit z 15" for z :: u16
proof -
  have "(0x8000 :: u16) = 2 ^ 15" by simp
  then show ?thesis by (simp only: and_exp_eq_0_iff_not_bit)
qed

lemma u32_bit15: "z AND 0x8000 = 0 \<longleftrightarrow> \<not> bit z 15" for z :: u32
proof -
  have "(0x8000 :: u32) = 2 ^ 15" by simp
  then show ?thesis by (simp only: and_exp_eq_0_iff_not_bit)
qed

lemma crc16_bit_alt:
  "crc16_bit x = push_bit 1 x XOR (if bit x 15 then CRC_16_POLYNOMIAL else 0)"
  by (simp add: crc16_bit_def Let_def u16_top)

lemma crc16_bit_clear: "\<not> bit x 15 \<Longrightarrow> crc16_bit x = push_bit 1 x"
  by (simp add: crc16_bit_alt)

lemma crc16_bit_xor: "crc16_bit (x XOR y) = crc16_bit x XOR crc16_bit y"
  by (cases "bit x 15"; cases "bit y 15")
     (simp_all add: crc16_bit_alt bit_xor_iff push_bit_xor ac_simps)

lemma crc16_bits_xor: "(crc16_bit ^^ n) (x XOR y) = (crc16_bit ^^ n) x XOR (crc16_bit ^^ n) y"
  by (induction n) (simp_all add: crc16_bit_xor)

text \<open>As long as no bit reaches the top, eight rounds are a plain shift.\<close>

lemma crc16_bits_shift:
  "(\<forall>i. bit x i \<longrightarrow> i + n \<le> 15) \<Longrightarrow> (crc16_bit ^^ n) x = push_bit n x"
proof (induction n)
  case (Suc n)
  have "\<forall>i. bit x i \<longrightarrow> i + n \<le> 15" using Suc.prems by fastforce
  then have IH: "(crc16_bit ^^ n) x = push_bit n x" by (rule Suc.IH)
  have b: "\<not> bit (push_bit n x) 15"
  proof
    assume "bit (push_bit n x) 15"
    then have "bit x (15 - n)" "n \<le> 15" by (auto simp: bit_simps)
    with Suc.prems show False by fastforce
  qed
  have "(crc16_bit ^^ Suc n) x = crc16_bit (push_bit n x)"
    by (simp only: funpow.simps o_apply IH)
  also have "\<dots> = push_bit 1 (push_bit n x)" by (rule crc16_bit_clear [OF b])
  also have "\<dots> = push_bit (Suc n) x" by (simp only: push_bit_push_bit plus_1_eq_Suc)
  finally show ?case .
qed simp

lemma crc16_step_bitwise: "crc16_step r b = (crc16_bit ^^ 8) (r XOR push_bit 8 (ucast b))"
proof -
  let ?h = "drop_bit 8 r XOR ucast b :: u16"
  have e: "r XOR push_bit 8 (ucast b) = push_bit 8 ?h XOR take_bit 8 r"
    by (rule bit_word_eqI) (auto simp: bit_simps)
  have "(crc16_bit ^^ 8) (take_bit 8 r) = push_bit 8 (take_bit 8 r)"
    by (rule crc16_bits_shift) (auto simp: bit_simps)
  moreover have "push_bit 8 (take_bit 8 r) = push_bit 8 r"
    by (rule bit_word_eqI) (auto simp: bit_simps)
  moreover have "crc_16_buypass_lut ! unat ?h = (crc16_bit ^^ 8) (push_bit 8 ?h)"
    using crc16_index_bound [of r b] by (simp only: lut_entry crc16_table_entry_def) simp
  ultimately show ?thesis
    by (simp add: e crc16_bits_xor crc16_step_def xor.commute)
qed

lemma ucast_push_bit: "(ucast (push_bit n x) :: u16) = push_bit n (ucast x)" for x :: u32
  by (rule bit_word_eqI) (auto simp: bit_simps)

lemma ucast_xor16: "(ucast (x XOR y) :: u16) = ucast x XOR ucast y" for x y :: u32
  by (rule bit_word_eqI) (auto simp: bit_simps)

lemma crc16_rt_bit_low: "ucast (crc16_rt_bit x) = crc16_bit (ucast x)"
  by (simp add: crc16_rt_bit_def crc16_bit_alt u32_bit15 ucast_push_bit [of 1, simplified]
        ucast_xor16 CRC_16_POLYNOMIAL_def bit_ucast_iff)

lemma crc16_rt_bits_low: "ucast ((crc16_rt_bit ^^ n) x) = (crc16_bit ^^ n) (ucast x)"
  by (induction n) (simp_all add: crc16_rt_bit_low)

lemma ucast_ucast_u8: "(ucast (ucast b :: u32) :: u16) = ucast b" for b :: u8
  by (rule bit_word_eqI) (auto simp: bit_simps)

lemma crc16_rt_byte_low: "ucast (crc16_rt_byte x b) = crc16_step (ucast x) b"
  by (simp add: crc16_rt_byte_def crc16_rt_bits_low crc16_step_bitwise ucast_xor16
        ucast_push_bit ucast_ucast_u8)

lemma crc16_rt_fold_low:
  "ucast (foldl crc16_rt_byte x buf) = foldl crc16_step (ucast x) buf"
  by (induction buf arbitrary: x) (simp_all add: crc16_rt_byte_low)

lemma crc16_runtime_eq: "sm_CRC_CalculateCRC16_runtime buf = sm_CRC_CalculateCRC16 buf"
  by (simp add: sm_CRC_CalculateCRC16_runtime_def sm_CRC_CalculateCRC16_def ucast_xor16
        crc16_rt_fold_low CRC_16_INIT_VALUE_def CRC_16_XOR_VALUE_def)

section \<open>A message followed by its CRC, and nothing else, has CRC zero\<close>

definition crc_hi :: "u16 \<Rightarrow> u8" where "crc_hi c = ucast (drop_bit 8 c)"
definition crc_lo :: "u16 \<Rightarrow> u8" where "crc_lo c = ucast c"

lemma crc16_bit_eq_0: "crc16_bit x = 0 \<longleftrightarrow> x = 0"
proof
  assume z: "crc16_bit x = 0"
  have n: "\<not> bit x 15"
  proof
    assume "bit x 15"
    then have "bit (crc16_bit x) 0"
      by (simp add: crc16_bit_alt CRC_16_POLYNOMIAL_def bit_simps bit_0 even_xor_iff)
    with z show False by simp
  qed
  have p: "push_bit 1 x = 0" using z unfolding crc16_bit_clear [OF n] .
  show "x = 0"
  proof (rule bit_word_eqI)
    fix k assume k: "k < LENGTH(16)"
    have "\<not> bit (push_bit 1 x) (Suc k)" unfolding p by simp
    then have "k = 15 \<or> \<not> bit x k"
      using k by (simp only: bit_push_bit_iff) auto
    with n show "bit x k = bit (0 :: u16) k" by auto
  qed
qed (simp add: crc16_bit_alt)

lemma crc16_bits_eq_0: "(crc16_bit ^^ n) x = 0 \<longleftrightarrow> x = 0"
  by (induction n) (simp_all add: crc16_bit_eq_0)

lemma crc16_two_bytes:
  "crc16_step (crc16_step c a) b
     = (crc16_bit ^^ 16) (c XOR push_bit 8 (ucast a) XOR ucast b)"
proof -
  have "(crc16_bit ^^ 8) (ucast b) = push_bit 8 (ucast b)"
    by (rule crc16_bits_shift) (auto simp: bit_simps dest: bit_imp_le_length)
  then have "crc16_step (crc16_step c a) b
      = (crc16_bit ^^ 8) ((crc16_bit ^^ 8) (c XOR push_bit 8 (ucast a) XOR ucast b))"
    by (simp only: crc16_step_bitwise crc16_bits_xor xor.assoc)
  also have "\<dots> = (crc16_bit ^^ (8 + 8)) (c XOR push_bit 8 (ucast a) XOR ucast b)"
    by (simp only: funpow_add o_apply)
  finally show ?thesis by simp
qed

lemma word_xor_eq_0: "x XOR y = 0 \<longleftrightarrow> x = y" for x y :: "'a::len word"
proof
  assume z: "x XOR y = 0"
  show "x = y"
  proof (rule bit_word_eqI)
    fix n
    from z have "bit (x XOR y) n = bit (0 :: 'a word) n" by (rule arg_cong)
    then show "bit x n = bit y n" by (simp add: bit_xor_iff)
  qed
qed simp

lemma check_bytes_eq: "c XOR push_bit 8 (ucast a) XOR ucast b = 0 \<longleftrightarrow> a = crc_hi c \<and> b = crc_lo c"
  for c :: u16 and a b :: u8
proof
  assume "c XOR push_bit 8 (ucast a) XOR ucast b = 0"
  then have c: "c = push_bit 8 (ucast a) XOR ucast b"
    by (simp only: xor.assoc word_xor_eq_0)
  have "a = crc_hi c"
    unfolding c crc_hi_def by (rule bit_word_eqI) (auto simp: bit_simps dest: bit_imp_le_length)
  moreover have "b = crc_lo c"
    unfolding c crc_lo_def by (rule bit_word_eqI) (auto simp: bit_simps)
  ultimately show "a = crc_hi c \<and> b = crc_lo c" by simp
next
  assume "a = crc_hi c \<and> b = crc_lo c"
  then show "c XOR push_bit 8 (ucast a) XOR ucast b = 0"
    by (auto intro!: bit_word_eqI simp: crc_hi_def crc_lo_def bit_simps)
qed

lemma crc16_accepts_iff:
  "sm_CRC_CalculateCRC16 (buf @ [a, b]) = 0
     \<longleftrightarrow> a = crc_hi (sm_CRC_CalculateCRC16 buf) \<and> b = crc_lo (sm_CRC_CalculateCRC16 buf)"
  by (simp add: sm_CRC_CalculateCRC16_def CRC_16_XOR_VALUE_def crc16_two_bytes crc16_bits_eq_0
        check_bytes_eq)

lemma frame_split_fold: "sm_CRC_CalculateCRC16_init_value c (a @ b)
    = sm_CRC_CalculateCRC16_init_value (sm_CRC_CalculateCRC16_init_value c a) b"
  by (simp add: sm_CRC_CalculateCRC16_init_value_def)

section \<open>The interface of a frame check\<close>

text \<open>
  What a framed protocol needs of its checksum: the checksum of a body, the two bytes sent for
  it, and that the receiver's check over body and check bytes succeeds on exactly these.
\<close>

locale frame_check =
  fixes csum :: "u8 list \<Rightarrow> u16"
    and hi lo :: "u16 \<Rightarrow> u8"
  assumes accepts_iff: "csum (body @ [a, b]) = 0 \<longleftrightarrow> a = hi (csum body) \<and> b = lo (csum body)"
begin

definition seal :: "u8 list \<Rightarrow> u8 list" where
  "seal body = body @ [hi (csum body), lo (csum body)]"

lemma seal_accepted: "csum (seal body) = 0"
  by (simp add: seal_def accepts_iff)

lemma length_seal: "length (seal body) = length body + 2"
  by (simp add: seal_def)

lemma nth_seal: "i < length body \<Longrightarrow> seal body ! i = body ! i"
  by (simp add: seal_def nth_append)

lemma accepted_is_seal: "csum (body @ [a, b]) = 0 \<Longrightarrow> body @ [a, b] = seal body"
  by (simp add: seal_def accepts_iff)

lemma take_seal: "n \<le> length body \<Longrightarrow> take n (seal body) = take n body"
  by (simp add: seal_def)

end

interpretation crc: frame_check sm_CRC_CalculateCRC16 crc_hi crc_lo
  by unfold_locales (rule crc16_accepts_iff)

text \<open> The checked-in table is the one the generator computes from the
  polynomial, and the table-driven CRC-16 agrees with the bitwise variant of the source on every
  buffer.\<close>

theorem crc16_implementations_agree:
  "CRC_CalculateCRC16Table = crc_16_buypass_lut
     \<and> sm_CRC_CalculateCRC16_runtime buf = sm_CRC_CalculateCRC16 buf"
  by (simp only: crc16_table_is_lut crc16_runtime_eq simp_thms)

text \<open> The residue test of the receivers is exact: the CRC-16 over a buffer and two
  trailing bytes is zero if and only if these bytes are the buffer's CRC-16, high byte first.\<close>

theorem crc16_residue:
  "sm_CRC_CalculateCRC16 (body @ [a, b]) = 0
     \<longleftrightarrow> a = ucast (drop_bit 8 (sm_CRC_CalculateCRC16 body)) \<and> b = ucast (sm_CRC_CalculateCRC16 body)"
  by (simp only: crc16_accepts_iff crc_hi_def crc_lo_def)

end
