(* ===== verification/Ring.thy ===== *)
theory Ring
  imports Prelude
begin

text \<open>
  Ring buffers. Three components keep one (the byte ring of the host protocol, the generic
  \<^verbatim>\<open>sm_fifo\<close>, the command queue of the battery-pack service), each with its own code. The
  index arithmetic is proved once here, over an array read through a function, and the contract
  their clients use is the locale \<open>bounded_queue\<close>.
\<close>

section \<open>The content of a ring\<close>

definition ring_len :: "nat \<Rightarrow> nat \<Rightarrow> nat \<Rightarrow> nat" where
  "ring_len cap tail head = (head + cap - tail) mod cap"

definition ring_items :: "nat \<Rightarrow> (nat \<Rightarrow> 'a) \<Rightarrow> nat \<Rightarrow> nat \<Rightarrow> 'a list" where
  "ring_items cap buf tail head =
     map (\<lambda>i. buf ((tail + i) mod cap)) [0..<ring_len cap tail head]"

lemma length_ring_items [simp]: "length (ring_items cap buf tail head) = ring_len cap tail head"
  by (simp add: ring_items_def)

lemma ring_len_lt: "0 < cap \<Longrightarrow> ring_len cap tail head < cap"
  by (simp add: ring_len_def)

lemma ring_len_cases:
  assumes "tail < cap" "head < cap"
  shows "ring_len cap tail head = (if tail \<le> head then head - tail else head + cap - tail)"
  using assms by (simp add: ring_len_def mod_if)

lemma ring_idx:
  "tail < cap \<Longrightarrow> i < cap \<Longrightarrow> (tail + i) mod cap = (if tail + i < cap then tail + i else tail + i - cap)"
  for tail i cap :: nat
  by (cases "tail + i < cap") (simp_all add: le_mod_geq)

lemma ring_empty_iff:
  assumes "tail < cap" "head < cap"
  shows "ring_items cap buf tail head = [] \<longleftrightarrow> head = tail"
  using assms by (auto simp: ring_items_def ring_len_cases split: if_splits)

lemma ring_Suc: "i < cap \<Longrightarrow> Suc i mod cap = (if Suc i = cap then 0 else Suc i)"
  by (cases "Suc i = cap") auto

lemma ring_suc: "i < cap \<Longrightarrow> (i + 1) mod cap = (if i + 1 \<ge> cap then 0 else i + 1)"
  for i cap :: nat
  by (auto simp: ring_Suc)

text \<open>Storing at the head and advancing it appends, unless the ring is full.\<close>

lemma ring_push:
  assumes t: "tail < cap" and h: "head < cap" and room: "ring_len cap tail head < cap - 1"
  shows "ring_items cap (buf(head := x)) tail ((head + 1) mod cap)
           = ring_items cap buf tail head @ [x]"
proof -
  let ?n = "ring_len cap tail head"
  have len: "ring_len cap tail (Suc head mod cap) = Suc ?n"
    using assms by (auto simp: ring_Suc ring_len_cases split: if_splits)
  have last: "(tail + ?n) mod cap = head"
    using t h by (auto simp: ring_len_cases)
  have same: "(tail + i) mod cap \<noteq> head" if "i < ?n" for i
  proof -
    have "i < cap" "?n < cap" using that room by auto
    then have "(tail + i) mod cap = (tail + ?n) mod cap \<Longrightarrow> i = ?n"
      using t that by (auto simp: ring_idx split: if_splits)
    with that last show ?thesis by auto
  qed
  show ?thesis
    by (simp add: ring_items_def len last same cong: map_cong)
qed

text \<open>Reading at the tail and advancing it removes the oldest.\<close>

lemma ring_pop:
  assumes t: "tail < cap" and h: "head < cap" and ne: "head \<noteq> tail"
  shows "ring_items cap buf tail head
           = buf tail # ring_items cap buf ((tail + 1) mod cap) head"
proof -
  let ?m = "ring_len cap ((tail + 1) mod cap) head"
  have len: "ring_len cap tail head = Suc ?m"
    using assms by (auto simp: ring_Suc ring_len_cases split: if_splits)
  have idx: "(tail + Suc i) mod cap = ((tail + 1) mod cap + i) mod cap" for i
    by (simp add: mod_simps)
  have "[0..<Suc ?m] = 0 # map Suc [0..<?m]"
    by (simp only: map_Suc_upt upt_rec [of 0 "Suc ?m"]) simp
  then show ?thesis
    using t by (simp only: ring_items_def len list.map map_map o_def idx) simp
qed

lemma ring_len_push:
  assumes "tail < cap" "head < cap" "ring_len cap tail head < cap - 1"
  shows "ring_len cap tail ((head + 1) mod cap) = Suc (ring_len cap tail head)"
  using assms by (auto simp: ring_Suc ring_len_cases split: if_splits)

section \<open>The contract of a bounded queue\<close>

text \<open>
  \<open>push\<close> and \<open>pop\<close> as a client sees them: below its capacity a queue takes an element at the
  end, and what leaves it is what entered first.
\<close>

locale bounded_queue =
  fixes push :: "'a \<Rightarrow> 'q \<Rightarrow> 'q"
    and pop :: "'q \<Rightarrow> ('a \<times> 'q) option"
    and items :: "'q \<Rightarrow> 'a list"
    and room :: "'q \<Rightarrow> nat"
    and invar :: "'q \<Rightarrow> bool"
  assumes items_push: "invar q \<Longrightarrow> length (items q) < room q \<Longrightarrow> items (push x q) = items q @ [x]"
    and invar_push: "invar q \<Longrightarrow> length (items q) < room q \<Longrightarrow> invar (push x q)"
    and room_push: "invar q \<Longrightarrow> room (push x q) = room q"
    and pop_none: "invar q \<Longrightarrow> pop q = None \<longleftrightarrow> items q = []"
    and pop_some: "invar q \<Longrightarrow> pop q = Some (x, q') \<Longrightarrow> items q = x # items q' \<and> invar q' \<and> room q' = room q"
begin

fun pops :: "nat \<Rightarrow> 'q \<Rightarrow> 'a list \<times> 'q" where
  "pops 0 q = ([], q)"
| "pops (Suc n) q =
     (case pop q of None \<Rightarrow> ([], q)
      | Some (x, q') \<Rightarrow> (case pops n q' of (xs, q'') \<Rightarrow> (x # xs, q'')))"

lemma push_all:
  "invar q \<Longrightarrow> length (items q) + length xs \<le> room q \<Longrightarrow>
     items (fold push xs q) = items q @ xs \<and> invar (fold push xs q) \<and> room (fold push xs q) = room q"
proof (induction xs arbitrary: q)
  case (Cons x xs)
  then have l: "length (items q) < room q" by simp
  have "items (push x q) = items q @ [x]" "invar (push x q)" "room (push x q) = room q"
    using Cons.prems l by (auto simp: items_push invar_push room_push)
  then show ?case using Cons.IH [of "push x q"] Cons.prems by simp
qed simp

lemma pops_prefix: "invar q \<Longrightarrow> n \<le> length (items q) \<Longrightarrow>
    fst (pops n q) = take n (items q) \<and> items (snd (pops n q)) = drop n (items q)
      \<and> invar (snd (pops n q))"
proof (induction n arbitrary: q)
  case (Suc n)
  then obtain x q' where p: "pop q = Some (x, q')"
    using pop_none [of q] by (cases "pop q") auto
  then have "items q = x # items q'" "invar q'" using pop_some [OF Suc.prems(1) p] by auto
  then show ?case using Suc.IH [of q'] Suc.prems p by (auto split: prod.splits)
qed simp

text \<open>First in, first out: what is pushed into an empty queue comes out in the same order.\<close>

lemma fifo_order:
  assumes "invar q" "items q = []" "length xs \<le> room q"
  shows "fst (pops (length xs) (fold push xs q)) = xs"
proof -
  from assms have "items (fold push xs q) = xs" "invar (fold push xs q)"
    using push_all [of q xs] by auto
  then show ?thesis using pops_prefix [of "fold push xs q" "length xs"] by simp
qed

end

end
