(* ===== verification/Host_Proto.thy ===== *)
theory Host_Proto
  imports Crc16 Ring
begin

text \<open>
  \<^verbatim>\<open>libs/host/sm_host.c\<close>: the framed byte protocol between the host tools and the boards. A
  frame is start byte, 16-bit length, device address, command, data, CRC-16 (high byte first) and
  stop byte. \<^verbatim>\<open>sm_host_asyn_feed\<close> puts received bytes into a ring buffer, and every call of
  \<^verbatim>\<open>sm_host_process\<close> takes one byte out of it and drives the packet parser.

  The two 4096-byte buffers are functions from the index; that every access stays below 4096 is
  the invariant \<open>host_ok\<close>. What the send interface returns, and the byte the receive interface
  delivers, are arguments. A registered callback with its argument is a value of the type \<open>'cb\<close>;
  an operation returns the calls it makes.
\<close>

section \<open>State\<close>

abbreviation SM_PROTO_START_BYTE :: u8 where "SM_PROTO_START_BYTE \<equiv> 0xAA"
abbreviation SM_PROTO_STOP_BYTE :: u8 where "SM_PROTO_STOP_BYTE \<equiv> 0x55"
abbreviation SM_HOST_MAX_BUFFER :: nat where "SM_HOST_MAX_BUFFER \<equiv> 4096"
abbreviation SM_HOST_MAX_COMMUNICATION_BUFFER_SIZE :: nat where
  "SM_HOST_MAX_COMMUNICATION_BUFFER_SIZE \<equiv> 256"
abbreviation SM_HOST_ASYNC_MODE :: u8 where "SM_HOST_ASYNC_MODE \<equiv> 0"
abbreviation SM_HOST_SYNC_MODE :: u8 where "SM_HOST_SYNC_MODE \<equiv> 1"

record 'cb sm_host =
  m_mode :: u8
  m_addr :: u8
  m_buffer :: "nat \<Rightarrow> u8"
  m_buffer_index :: nat
  m_process_index :: nat
  m_packet :: "nat \<Rightarrow> u8"
  m_packet_index :: nat
  m_host_recv_if :: bool
  m_cmd_callback :: "'cb option"

text \<open>A call of the registered callback: its identity, the command, the data.\<close>

type_synonym 'cb cmd_call = "'cb \<times> u8 \<times> u8 list"

definition sm_host_create_default :: "u8 \<Rightarrow> u8 \<Rightarrow> bool \<Rightarrow> 'cb sm_host" where
  "sm_host_create_default mode addr recv_if =
     \<lparr>m_mode = mode,
      m_addr = (if addr > 0x7F then 0x01 else addr),
      m_buffer = (\<lambda>_. 0), m_buffer_index = 0, m_process_index = 0,
      m_packet = (\<lambda>_. 0), m_packet_index = 0,
      m_host_recv_if = recv_if, m_cmd_callback = None\<rparr>"

definition sm_host_set_addr :: "u8 \<Rightarrow> 'cb sm_host \<Rightarrow> 'cb sm_host" where
  "sm_host_set_addr addr h = h\<lparr>m_addr := addr\<rparr>"

definition sm_host_set_mode :: "u8 \<Rightarrow> 'cb sm_host \<Rightarrow> 'cb sm_host" where
  "sm_host_set_mode mode h = h\<lparr>m_mode := mode\<rparr>"

definition sm_host_reg_handle :: "'cb option \<Rightarrow> 'cb sm_host \<Rightarrow> int \<times> 'cb sm_host" where
  "sm_host_reg_handle cb h =
     (case cb of None \<Rightarrow> (-1, h) | Some _ \<Rightarrow> (0, h\<lparr>m_cmd_callback := cb\<rparr>))"

definition sm_host_destroy :: "'cb sm_host \<Rightarrow> 'cb sm_host" where
  "sm_host_destroy h =
     h\<lparr>m_cmd_callback := None, m_buffer := (\<lambda>_. 0), m_packet := (\<lambda>_. 0),
       m_buffer_index := 0, m_packet_index := 0, m_process_index := 0,
       m_host_recv_if := False\<rparr>"

section \<open>Sending\<close>

definition WORD :: "u8 \<Rightarrow> u8 \<Rightarrow> nat" where
  "WORD msb lsb = unat msb * 256 + unat lsb"

definition byte_of :: "nat \<Rightarrow> u8" where "byte_of n = word_of_nat n"

text \<open>What both senders put on the wire: header, payload, CRC, stop byte.\<close>

definition host_header :: "u8 \<Rightarrow> u8 \<Rightarrow> nat \<Rightarrow> u8 list" where
  "host_header addr cmd data_len =
     [SM_PROTO_START_BYTE, byte_of (data_len div 256), byte_of data_len, addr, cmd]"

definition host_frame :: "u8 list \<Rightarrow> u8 list" where
  "host_frame body = crc.seal body @ [SM_PROTO_STOP_BYTE]"

text \<open>
  The frame is assembled in a local array of 4096 bytes without a length check, so a longer one
  is a write out of bounds. \<open>sent\<close> is what the send interface returns.
\<close>

definition sm_host_send_cmd ::
    "int \<Rightarrow> u8 \<Rightarrow> u8 list \<Rightarrow> 'cb sm_host \<Rightarrow> fault + (int \<times> u8 list)" where
  "sm_host_send_cmd sent cmd data h =
     (let data_len = length data + 1 + 2 + 1;
          packet = host_frame (host_header (m_addr h) cmd data_len @ data)
      in if length packet > SM_HOST_MAX_BUFFER then Inl Out_Of_Bounds
         else Inr (if sent \<le> 0 then -1 else int (length packet), packet))"

definition sm_host_send_response ::
    "int \<Rightarrow> u8 \<Rightarrow> u8 \<Rightarrow> u8 list \<Rightarrow> 'cb sm_host \<Rightarrow> fault + (int \<times> u8 list)" where
  "sm_host_send_response sent cmd ret data h =
     (let data_len = length data + 1 + 2 + 1 + 1;
          packet = host_frame (host_header (m_addr h) cmd data_len @ ret # data)
      in if length packet > SM_HOST_MAX_BUFFER then Inl Out_Of_Bounds
         else Inr (if sent \<le> 0 then -1 else int (length packet), packet))"

section \<open>Receiving\<close>

definition host_wrap :: "nat \<Rightarrow> nat" where
  "host_wrap i = (if i \<ge> SM_HOST_MAX_BUFFER then 0 else i)"

definition host_push :: "u8 \<Rightarrow> 'cb sm_host \<Rightarrow> 'cb sm_host" where
  "host_push b h =
     h\<lparr>m_buffer := (m_buffer h)(m_buffer_index h := b),
       m_buffer_index := host_wrap (m_buffer_index h + 1)\<rparr>"

definition sm_host_asyn_feed :: "u8 list \<Rightarrow> 'cb sm_host \<Rightarrow> 'cb sm_host" where
  "sm_host_asyn_feed data h = fold host_push data h"

definition host_reset_rx :: "'cb sm_host \<Rightarrow> 'cb sm_host" where
  "host_reset_rx h = h\<lparr>m_buffer_index := 0, m_process_index := 0, m_packet_index := 0\<rparr>"

text \<open>\<^verbatim>\<open>sm_host_process\<close> after the byte at \<open>m_packet_index\<close> has been stored.\<close>

definition host_parse :: "'cb sm_host \<Rightarrow> int \<times> 'cb sm_host \<times> 'cb cmd_call list" where
  "host_parse h =
     (let pi = m_packet_index h; p = m_packet h in
      if p pi = SM_PROTO_STOP_BYTE \<and> pi \<ge> 7 then
        (let buffer_len = WORD (p 1) (p 2) + 3 in
         if buffer_len \<ge> SM_HOST_MAX_COMMUNICATION_BUFFER_SIZE then (-1, host_reset_rx h, [])
         else if pi > buffer_len then (-1, host_reset_rx h, [])
         else if pi = buffer_len then
           (if p 3 \<noteq> m_addr h then (-1, h\<lparr>m_packet_index := 0\<rparr>, [])
            else
              (1, h\<lparr>m_packet_index := 0\<rparr>,
               if sm_CRC_CalculateCRC16 (map p [0..<pi]) = 0 then
                 (case m_cmd_callback h of None \<Rightarrow> []
                  | Some cb \<Rightarrow> [(cb, p 4, map p [5..<5 + (pi - 7)])])
               else []))
         else (0, h\<lparr>m_packet_index := host_wrap (pi + 1)\<rparr>, []))
      else if p pi = SM_PROTO_START_BYTE \<and> pi = 0 \<or> pi > 0 then
        (0, h\<lparr>m_packet_index := host_wrap (pi + 1)\<rparr>, [])
      else (0, h, []))"

text \<open>One byte leaves the ring and enters the packet; \<open>None\<close> when the ring is empty.\<close>

definition host_take :: "'cb sm_host \<Rightarrow> 'cb sm_host option" where
  "host_take h =
     (if m_buffer_index h \<noteq> m_process_index h then
        Some (h\<lparr>m_packet := (m_packet h)(m_packet_index h := m_buffer h (m_process_index h)),
                m_process_index := host_wrap (m_process_index h + 1)\<rparr>)
      else None)"

definition sm_host_process ::
    "u8 option \<Rightarrow> 'cb sm_host \<Rightarrow> int \<times> 'cb sm_host \<times> 'cb cmd_call list" where
  "sm_host_process rx h =
     (let h = (if m_mode h = SM_HOST_SYNC_MODE \<and> m_host_recv_if h
               then (case rx of None \<Rightarrow> h | Some b \<Rightarrow> host_push b h) else h)
      in case host_take h of None \<Rightarrow> (0, h, []) | Some h' \<Rightarrow> host_parse h')"

text \<open>\<open>n\<close> polls in asynchronous mode: the calls they make, in order.\<close>

fun host_polls :: "nat \<Rightarrow> 'cb sm_host \<Rightarrow> 'cb sm_host \<times> 'cb cmd_call list" where
  "host_polls 0 h = (h, [])"
| "host_polls (Suc n) h =
     (case sm_host_process None h of (_, h', cs) \<Rightarrow>
        (case host_polls n h' of (h'', cs') \<Rightarrow> (h'', cs @ cs')))"

section \<open>The synchronous request\<close>

text \<open>
  \<^verbatim>\<open>sm_host_send_cmd_sync\<close> polls until a frame is complete or the time is over; \<open>rxs\<close> holds
  what the receive interface delivers in each round that the timeout allows.
\<close>

fun host_sync_loop ::
    "u8 option list \<Rightarrow> int \<Rightarrow> 'cb sm_host \<Rightarrow> int \<times> 'cb sm_host \<times> 'cb cmd_call list" where
  "host_sync_loop [] ret h = (ret, h, [])"
| "host_sync_loop (rx # rxs) ret h =
     (case sm_host_process rx h of (ret', h', cs) \<Rightarrow>
        if ret' = 1 then (1, h', cs)
        else (case host_sync_loop rxs ret' h' of (r, h'', cs') \<Rightarrow> (r, h'', cs @ cs')))"

definition sm_host_send_cmd_sync ::
    "int \<Rightarrow> u8 option list \<Rightarrow> u8 \<Rightarrow> u8 list \<Rightarrow> 'cb option \<Rightarrow> 'cb sm_host
       \<Rightarrow> fault + (int \<times> 'cb sm_host \<times> 'cb cmd_call list)" where
  "sm_host_send_cmd_sync sent rxs cmd data cb h =
     (if \<not> m_host_recv_if h then Inr (-1, h, [])
      else
        (let h1 = h\<lparr>m_mode := SM_HOST_SYNC_MODE, m_cmd_callback := cb\<rparr> in
         case sm_host_send_cmd sent cmd data h1 of
           Inl f \<Rightarrow> Inl f
         | Inr (n, _) \<Rightarrow>
             if n \<le> 0 then Inr (-1, h1, [])
             else
               (case host_sync_loop rxs (-1) h1 of (ret, h2, cs) \<Rightarrow>
                  Inr (ret,
                       (host_reset_rx h2)\<lparr>m_cmd_callback := m_cmd_callback h, m_mode := m_mode h\<rparr>,
                       cs))))"

section \<open>Indices stay inside the buffers\<close>

definition host_ok :: "'cb sm_host \<Rightarrow> bool" where
  "host_ok h \<longleftrightarrow> m_buffer_index h < SM_HOST_MAX_BUFFER \<and> m_process_index h < SM_HOST_MAX_BUFFER
     \<and> m_packet_index h < SM_HOST_MAX_BUFFER"

lemma host_wrap_lt [simp]: "i \<le> SM_HOST_MAX_BUFFER \<Longrightarrow> host_wrap i < SM_HOST_MAX_BUFFER"
  by (simp add: host_wrap_def)

lemma host_wrap_mod: "i < SM_HOST_MAX_BUFFER \<Longrightarrow> host_wrap (i + 1) = (i + 1) mod SM_HOST_MAX_BUFFER"
  by (simp only: host_wrap_def ring_suc)

lemma host_wrap_Suc: "i < SM_HOST_MAX_BUFFER \<Longrightarrow> host_wrap (Suc i) = Suc i mod SM_HOST_MAX_BUFFER"
  using host_wrap_mod [of i] by simp

lemma host_push_ok: "host_ok h \<Longrightarrow> host_ok (host_push b h)"
  by (simp add: host_ok_def host_push_def)

lemma host_take_ok: "host_ok h \<Longrightarrow> host_take h = Some h' \<Longrightarrow> host_ok h'"
  by (auto simp: host_ok_def host_take_def split: if_splits)

lemma host_parse_ok: "host_ok h \<Longrightarrow> host_ok (fst (snd (host_parse h)))"
  by (simp add: host_ok_def host_parse_def host_reset_rx_def Let_def)

lemma host_process_ok: "host_ok h \<Longrightarrow> host_ok (fst (snd (sm_host_process rx h)))"
  by (auto simp: sm_host_process_def Let_def host_push_ok
      dest: host_take_ok host_parse_ok [OF host_take_ok] host_parse_ok [OF host_take_ok [OF host_push_ok]]
      split: option.splits)

datatype host_event = Feed "u8 list" | Poll "u8 option" | Set_Addr u8 | Set_Mode u8

fun host_step :: "'cb sm_host \<Rightarrow> host_event \<Rightarrow> 'cb sm_host" where
  "host_step h (Feed bs) = sm_host_asyn_feed bs h"
| "host_step h (Poll rx) = fst (snd (sm_host_process rx h))"
| "host_step h (Set_Addr a) = sm_host_set_addr a h"
| "host_step h (Set_Mode m) = sm_host_set_mode m h"

lemma host_feed_ok: "host_ok h \<Longrightarrow> host_ok (sm_host_asyn_feed bs h)"
  by (induction bs arbitrary: h) (simp_all add: sm_host_asyn_feed_def host_push_ok)

lemma host_set_ok:
  "host_ok h \<Longrightarrow> host_ok (sm_host_set_addr a h)"
  "host_ok h \<Longrightarrow> host_ok (sm_host_set_mode m h)"
  by (simp_all add: sm_host_set_addr_def sm_host_set_mode_def host_ok_def)

interpretation host: event_machine host_step host_ok
proof (unfold_locales, goal_cases)
  case (1 h e)
  then show ?case
    by (cases e) (simp_all add: host_feed_ok host_process_ok host_set_ok)
qed

section \<open>The receive ring is a queue\<close>

definition host_pending :: "'cb sm_host \<Rightarrow> u8 list" where
  "host_pending h = ring_items SM_HOST_MAX_BUFFER (m_buffer h) (m_process_index h) (m_buffer_index h)"

definition host_pop :: "'cb sm_host \<Rightarrow> (u8 \<times> 'cb sm_host) option" where
  "host_pop h = map_option (\<lambda>h'. (m_packet h' (m_packet_index h'), h')) (host_take h)"

lemma host_pending_push:
  "host_ok h \<Longrightarrow> length (host_pending h) < SM_HOST_MAX_BUFFER - 1
     \<Longrightarrow> host_pending (host_push b h) = host_pending h @ [b]"
  using ring_push [of "m_process_index h" SM_HOST_MAX_BUFFER "m_buffer_index h" "m_buffer h" b]
  by (simp add: host_pending_def host_push_def host_ok_def host_wrap_Suc)

lemma host_take_none: "host_ok h \<Longrightarrow> host_take h = None \<longleftrightarrow> host_pending h = []"
  by (auto simp: host_take_def host_pending_def host_ok_def ring_empty_iff)

lemma host_take_some:
  assumes "host_ok h" "host_take h = Some h'"
  shows "host_pending h = m_packet h' (m_packet_index h') # host_pending h'"
proof -
  have ne: "m_buffer_index h \<noteq> m_process_index h"
    and h': "h' = h\<lparr>m_packet := (m_packet h)(m_packet_index h := m_buffer h (m_process_index h)),
                m_process_index := host_wrap (m_process_index h + 1)\<rparr>"
    using assms(2) by (auto simp: host_take_def split: if_splits)
  have "host_wrap (m_process_index h + 1) = (m_process_index h + 1) mod SM_HOST_MAX_BUFFER"
    using assms(1) by (simp only: host_ok_def host_wrap_mod)
  then show ?thesis
    using assms(1) ne ring_pop [of "m_process_index h" SM_HOST_MAX_BUFFER "m_buffer_index h" "m_buffer h"]
    by (simp add: host_pending_def h' host_ok_def)
qed

interpretation host_q: bounded_queue host_push host_pop host_pending "\<lambda>_. SM_HOST_MAX_BUFFER - 1" host_ok
proof (unfold_locales, goal_cases)
  case (5 q x q')
  then have "host_take q = Some q'" "x = m_packet q' (m_packet_index q')"
    by (auto simp: host_pop_def)
  with 5 show ?case by (simp add: host_take_some host_take_ok)
qed (simp_all add: host_pending_push host_push_ok host_pop_def host_take_none)

section \<open>A frame on its way through the parser\<close>

lemma length_host_header [simp]: "length (host_header a c n) = 5"
  by (simp add: host_header_def)

lemma length_host_frame [simp]: "length (host_frame body) = length body + 3"
  by (simp add: host_frame_def crc.length_seal)

lemma WORD_bytes: "n < 65536 \<Longrightarrow> WORD (byte_of (n div 256)) (byte_of n) = n"
  by (simp add: WORD_def byte_of_def unat_of_nat)

lemma bytes_WORD: "byte_of (WORD a b div 256) = a" "byte_of (WORD a b) = b"
proof -
  have "unat b < 256" using unsigned_less [of b] by simp
  then show "byte_of (WORD a b div 256) = a" by (simp add: WORD_def byte_of_def)
  have z: "(256 :: u8) = 0" by simp
  have "byte_of (WORD a b) = a * 256 + b" by (simp add: WORD_def byte_of_def)
  then show "byte_of (WORD a b) = b" by (simp only: z mult_zero_right add_0)
qed

definition cmd_frame :: "u8 \<Rightarrow> u8 \<Rightarrow> u8 list \<Rightarrow> u8 list" where
  "cmd_frame a c d = host_frame (host_header a c (length d + 4) @ d)"

lemma cmd_frame_nth:
  "cmd_frame a c d ! 0 = SM_PROTO_START_BYTE"
  "cmd_frame a c d ! Suc 0 = byte_of ((length d + 4) div 256)"
  "cmd_frame a c d ! 2 = byte_of (length d + 4)"
  "cmd_frame a c d ! 3 = a"
  "cmd_frame a c d ! 4 = c"
  by (simp_all add: cmd_frame_def host_frame_def crc.seal_def host_header_def nth_append)

lemma length_cmd_frame [simp]: "length (cmd_frame a c d) = length d + 8"
  by (simp add: cmd_frame_def)

lemma cmd_frame_stop: "cmd_frame a c d ! (length d + 7) = SM_PROTO_STOP_BYTE"
  by (simp add: cmd_frame_def host_frame_def nth_append crc.length_seal)

lemma cmd_frame_data: "map ((!) (cmd_frame a c d)) [5..<5 + length d] = d"
  by (rule nth_equalityI)
     (simp_all add: cmd_frame_def host_frame_def crc.seal_def host_header_def nth_append)

lemma cmd_frame_crc: "sm_CRC_CalculateCRC16 (map ((!) (cmd_frame a c d)) [0..<length d + 7]) = 0"
proof -
  let ?s = "crc.seal (host_header a c (length d + 4) @ d)"
  have "map ((!) (cmd_frame a c d)) [0..<length d + 7] = ?s"
    by (rule nth_equalityI)
       (simp_all add: cmd_frame_def host_frame_def nth_append crc.length_seal)
  then show ?thesis by (simp only: crc.seal_accepted)
qed

text \<open>Every byte but the last leaves the parser waiting, whatever its value.\<close>

lemma host_parse_mid:
  assumes k: "m_packet_index h = k" "k < length d + 7"
    and p: "\<And>i. i \<le> k \<Longrightarrow> m_packet h i = cmd_frame a c d ! i"
    and len: "length d \<le> 248"
  shows "host_parse h = (0, h\<lparr>m_packet_index := k + 1\<rparr>, [])"
proof (cases "k \<ge> 7")
  case True
  have "WORD (m_packet h 1) (m_packet h 2) = length d + 4"
    using p [of 1] p [of 2] True len WORD_bytes [of "length d + 4"] by (simp add: cmd_frame_nth)
  then show ?thesis using k len True by (auto simp: host_parse_def Let_def host_wrap_def)
next
  case False
  then show ?thesis
    using k p [of 0] by (auto simp: host_parse_def Let_def host_wrap_def cmd_frame_nth)
qed

lemma host_parse_last:
  assumes k: "m_packet_index h = length d + 7"
    and p: "\<And>i. i \<le> length d + 7 \<Longrightarrow> m_packet h i = cmd_frame (m_addr h) c d ! i"
    and len: "length d \<le> 248"
  shows "host_parse h = (1, h\<lparr>m_packet_index := 0\<rparr>,
           case m_cmd_callback h of None \<Rightarrow> [] | Some cb \<Rightarrow> [(cb, c, d)])"
proof -
  have w: "WORD (m_packet h (Suc 0)) (m_packet h 2) = length d + 4"
    using p [of 1] p [of 2] len WORD_bytes [of "length d + 4"] by (simp add: cmd_frame_nth)
  have m: "map (m_packet h) [0..<length d + 7] = map ((!) (cmd_frame (m_addr h) c d)) [0..<length d + 7]"
    "map (m_packet h) [5..<5 + length d] = map ((!) (cmd_frame (m_addr h) c d)) [5..<5 + length d]"
    using p by simp_all
  show ?thesis
    using p [of 3] p [of 4] p [of "length d + 7"] len
    by (simp add: host_parse_def Let_def k w m cmd_frame_crc cmd_frame_data cmd_frame_nth
        cmd_frame_stop split: option.splits)
qed

section \<open>Delivery\<close>

definition host_idle :: "'cb sm_host \<Rightarrow> bool" where
  "host_idle h \<longleftrightarrow> host_ok h \<and> m_packet_index h = 0 \<and> m_mode h \<noteq> SM_HOST_SYNC_MODE"

lemma host_process_async:
  "m_mode h \<noteq> SM_HOST_SYNC_MODE \<Longrightarrow> host_take h = Some h' \<Longrightarrow> sm_host_process None h = host_parse h'"
  by (simp add: sm_host_process_def)

lemma host_take_frame:
  assumes "host_take h = Some h'"
  shows "m_packet_index h' = m_packet_index h" "m_addr h' = m_addr h" "m_mode h' = m_mode h"
    "m_cmd_callback h' = m_cmd_callback h"
    "i \<noteq> m_packet_index h \<Longrightarrow> m_packet h' i = m_packet h i"
  using assms by (auto simp: host_take_def split: if_splits)

lemma host_polls_frame:
  assumes "host_ok h" "m_mode h \<noteq> SM_HOST_SYNC_MODE" "m_cmd_callback h = Some cb"
    and "length d \<le> 248" "n + m_packet_index h = length d + 8" "0 < n"
    and "host_pending h = drop (m_packet_index h) (cmd_frame (m_addr h) c d) @ rest"
    and "\<And>i. i < m_packet_index h \<Longrightarrow> m_packet h i = cmd_frame (m_addr h) c d ! i"
  shows "\<exists>h'. host_polls n h = (h', [(cb, c, d)]) \<and> host_pending h' = rest \<and> host_idle h'
           \<and> m_addr h' = m_addr h \<and> m_cmd_callback h' = Some cb"
  using assms
proof (induction n arbitrary: h)
  case (Suc n)
  let ?k = "m_packet_index h" and ?F = "cmd_frame (m_addr h) c d"
  have k: "?k < length ?F" using Suc.prems(5) by simp
  have pend: "host_pending h = ?F ! ?k # drop (Suc ?k) ?F @ rest"
    using Suc.prems(7) k by (simp add: Cons_nth_drop_Suc [symmetric] del: length_cmd_frame)
  then obtain h' where t: "host_take h = Some h'"
    using Suc.prems(1) host_take_none [of h] by (cases "host_take h") auto
  have ok': "host_ok h'" using t Suc.prems(1) by (rule host_take_ok [rotated])
  have h': "m_packet h' ?k = ?F ! ?k" "host_pending h' = drop (Suc ?k) ?F @ rest"
    using host_take_some [OF Suc.prems(1) t] pend host_take_frame(1) [OF t] by auto
  have pk: "m_packet h' i = ?F ! i" if "i \<le> ?k" for i
    using that h'(1) Suc.prems(8) host_take_frame(5) [OF t, of i] by (cases "i = ?k") auto
  note fr = host_take_frame(1-4) [OF t]
  note run = host_process_async [OF Suc.prems(2) t]
  show ?case
  proof (cases "n = 0")
    case True
    then have e: "m_packet_index h' = length d + 7" using Suc.prems(5) fr by simp
    have "host_parse h' = (1, h'\<lparr>m_packet_index := 0\<rparr>, [(cb, c, d)])"
      using host_parse_last [OF e, of c] pk e fr Suc.prems(3,4) by simp
    moreover have "host_pending (h'\<lparr>m_packet_index := 0\<rparr>) = rest"
      using h'(2) e fr by (simp add: host_pending_def)
    ultimately show ?thesis
      using True run ok' fr Suc.prems by (simp add: host_idle_def host_ok_def)
  next
    case False
    let ?h2 = "h'\<lparr>m_packet_index := ?k + 1\<rparr>"
    have lt: "?k < length d + 7" using False Suc.prems(5) by simp
    have p: "host_parse h' = (0, ?h2, [])"
      by (rule host_parse_mid [OF fr(1) lt, of "m_addr h" c]) (use pk Suc.prems(4) in auto)
    have "\<exists>h''. host_polls n ?h2 = (h'', [(cb, c, d)]) \<and> host_pending h'' = rest \<and> host_idle h''
        \<and> m_addr h'' = m_addr ?h2 \<and> m_cmd_callback h'' = Some cb"
    proof (rule Suc.IH)
      show "host_ok ?h2" using ok' lt Suc.prems(4) by (simp add: host_ok_def)
      show "host_pending ?h2 = drop (m_packet_index ?h2) (cmd_frame (m_addr ?h2) c d) @ rest"
        using h'(2) fr by (simp add: host_pending_def)
      show "m_packet ?h2 i = cmd_frame (m_addr ?h2) c d ! i" if "i < m_packet_index ?h2" for i
        using that pk fr by simp
    qed (use False Suc.prems fr in auto)
    then show ?thesis using run p fr by auto
  qed
qed simp

lemma host_pending_feed:
  assumes "host_ok h" "host_pending h = []" "length xs < SM_HOST_MAX_BUFFER"
  shows "host_pending (sm_host_asyn_feed xs h) = xs \<and> host_ok (sm_host_asyn_feed xs h)"
  using host_q.push_all [OF assms(1), of xs] assms(2,3) by (simp add: sm_host_asyn_feed_def)

lemma host_feed_frame:
  "m_packet_index (sm_host_asyn_feed xs h) = m_packet_index h"
  "m_addr (sm_host_asyn_feed xs h) = m_addr h"
  "m_mode (sm_host_asyn_feed xs h) = m_mode h"
  "m_cmd_callback (sm_host_asyn_feed xs h) = m_cmd_callback h"
  unfolding sm_host_asyn_feed_def
  by (induction xs arbitrary: h) (simp_all add: host_push_def)

lemma send_cmd_frame:
  "length d \<le> 4088 \<Longrightarrow> sm_host_send_cmd sent c d h
     = Inr (if sent \<le> 0 then -1 else int (length d + 8), cmd_frame (m_addr h) c d)"
proof -
  have e: "length d + 1 + 2 + 1 = length d + 4" by simp
  show "length d \<le> 4088 \<Longrightarrow> ?thesis"
    unfolding sm_host_send_cmd_def Let_def e cmd_frame_def [symmetric] by simp
qed

text \<open>C36. A command of at most 248 bytes that one end sends with \<^verbatim>\<open>sm_host_send_cmd\<close> and the
  other end, idle and under the same device address, receives with \<^verbatim>\<open>sm_host_asyn_feed\<close> is
  delivered exactly once, with its command and its data unchanged, by as many polls of
  \<^verbatim>\<open>sm_host_process\<close> as the frame has bytes; the receiver is idle with an empty ring again.\<close>

theorem host_delivery:
  assumes "host_idle h" "host_pending h = []" "m_cmd_callback h = Some cb"
    and "m_addr tx = m_addr h" "length d \<le> 248"
    and "sm_host_send_cmd sent c d tx = Inr (n, packet)"
  shows "\<exists>h'. host_polls (length packet) (sm_host_asyn_feed packet h) = (h', [(cb, c, d)])
           \<and> host_idle h' \<and> host_pending h' = []"
proof -
  have packet: "packet = cmd_frame (m_addr h) c d"
    using assms(4-6) by (simp add: send_cmd_frame)
  let ?h = "sm_host_asyn_feed packet h"
  have f: "host_pending ?h = packet" "host_ok ?h"
    using host_pending_feed [of h packet] assms(1,2,5) by (simp_all add: packet host_idle_def)
  have "\<exists>h'. host_polls (length packet) ?h = (h', [(cb, c, d)]) \<and> host_pending h' = [] \<and> host_idle h'
      \<and> m_addr h' = m_addr ?h \<and> m_cmd_callback h' = Some cb"
    by (rule host_polls_frame) (use f assms packet in \<open>auto simp: host_feed_frame host_idle_def\<close>)
  then show ?thesis by blast
qed

lemma host_delivery_witness:
  "\<exists>h'. host_polls 9
        (sm_host_asyn_feed (cmd_frame 1 0x10 [0x55])
          ((sm_host_create_default SM_HOST_ASYNC_MODE 1 False)\<lparr>m_cmd_callback := Some ''app''\<rparr>))
      = (h', [(''app'', 0x10, [0x55])]) \<and> host_idle h' \<and> host_pending h' = []"
proof -
  let ?h = "(sm_host_create_default SM_HOST_ASYNC_MODE 1 False)\<lparr>m_cmd_callback := Some ''app''\<rparr>"
  have "host_idle ?h" "host_pending ?h = []" "m_cmd_callback ?h = Some ''app''" "m_addr ?h = 1"
    by (simp_all add: sm_host_create_default_def host_idle_def host_ok_def host_pending_def
        ring_items_def ring_len_def)
  then show ?thesis
    using host_delivery [of ?h "''app''" ?h "[0x55]" 1 "0x10" 9 "cmd_frame 1 0x10 [0x55]"]
    by (simp add: send_cmd_frame)
qed

section \<open>Nothing but a well-formed frame is delivered\<close>

text \<open>A packet under construction starts with the start byte.\<close>

definition host_started :: "'cb sm_host \<Rightarrow> bool" where
  "host_started h \<longleftrightarrow> (0 < m_packet_index h \<longrightarrow> m_packet h 0 = SM_PROTO_START_BYTE)"

lemma host_started_push: "host_started h \<Longrightarrow> host_started (host_push b h)"
  by (simp add: host_started_def host_push_def)

lemma host_started_take: "host_started h \<Longrightarrow> host_take h = Some h' \<Longrightarrow> host_started h'"
  by (auto simp: host_started_def host_take_def split: if_splits)

lemma host_started_parse: "host_started h \<Longrightarrow> host_started (fst (snd (host_parse h)))"
  by (auto simp: host_started_def host_parse_def host_reset_rx_def Let_def)

lemma host_started_process: "host_started h \<Longrightarrow> host_started (fst (snd (sm_host_process rx h)))"
  by (auto simp: sm_host_process_def Let_def host_started_push
      intro: host_started_parse host_started_take host_started_take [OF host_started_push]
      split: option.splits)

definition host_accepts :: "'cb sm_host \<Rightarrow> bool" where
  "host_accepts h \<longleftrightarrow>
     (let p = m_packet h; k = m_packet_index h in
      p k = SM_PROTO_STOP_BYTE \<and> 7 \<le> k \<and> WORD (p 1) (p 2) + 3 < 256 \<and> k = WORD (p 1) (p 2) + 3
      \<and> p 3 = m_addr h \<and> sm_CRC_CalculateCRC16 (map p [0..<k]) = 0)"

lemma host_parse_calls:
  "snd (snd (host_parse h)) =
     (if host_accepts h
      then (case m_cmd_callback h of None \<Rightarrow> []
            | Some cb \<Rightarrow> [(cb, m_packet h 4, map (m_packet h) [5..<5 + (m_packet_index h - 7)])])
      else [])"
  by (simp add: host_accepts_def host_parse_def Let_def)

lemma map_upt_two: "map f [0..<Suc (Suc n)] = map f [0..<n] @ [f n, f (Suc n)]"
  by simp

lemma host_parse_sound:
  assumes "host_started h" "(cb, c, d) \<in> set (snd (snd (host_parse h)))"
  shows "m_cmd_callback h = Some cb \<and> length d \<le> 248
           \<and> map (m_packet h) [0..<length d + 8] = cmd_frame (m_addr h) c d"
proof -
  let ?p = "m_packet h" and ?k = "m_packet_index h"
  have acc: "host_accepts h" by (rule ccontr) (use assms(2) in \<open>simp add: host_parse_calls\<close>)
  have "(cb, c, d) \<in> set (case m_cmd_callback h of None \<Rightarrow> []
      | Some cb \<Rightarrow> [(cb, ?p 4, map ?p [5..<5 + (?k - 7)])])"
    using assms(2) acc by (simp only: host_parse_calls if_True)
  then have cb: "m_cmd_callback h = Some cb" and c: "c = ?p 4" and d: "d = map ?p [5..<5 + (?k - 7)]"
    by (auto split: option.splits)
  have all: "?p ?k = SM_PROTO_STOP_BYTE \<and> 7 \<le> ?k \<and> WORD (?p 1) (?p 2) + 3 < 256
      \<and> ?k = WORD (?p 1) (?p 2) + 3 \<and> ?p 3 = m_addr h
      \<and> sm_CRC_CalculateCRC16 (map ?p [0..<?k]) = 0"
    using acc unfolding host_accepts_def Let_def .
  have stop: "?p ?k = SM_PROTO_STOP_BYTE" by (rule conjunct1 [OF all])
  have k7: "7 \<le> ?k" using all by (elim conjE)
  have len: "WORD (?p 1) (?p 2) + 3 < 256" using all by (elim conjE)
  have klen: "?k = WORD (?p 1) (?p 2) + 3" using all by (elim conjE)
  have addr: "?p 3 = m_addr h" using all by (elim conjE)
  have crc: "sm_CRC_CalculateCRC16 (map ?p [0..<?k]) = 0" using all by (elim conjE)
  have ld: "length d = ?k - 7" using d by simp
  have w: "WORD (?p 1) (?p 2) = length d + 4" using klen k7 ld by linarith
  have hdr: "host_header (m_addr h) c (length d + 4) = map ?p [0..<5]"
  proof -
    have "map ?p [0..<5] = [?p 0, ?p 1, ?p 2, ?p 3, ?p 4]" by (simp add: eval_nat_numeral)
    moreover have "?p 0 = SM_PROTO_START_BYTE" using assms(1) k7 by (simp add: host_started_def)
    moreover have "byte_of ((length d + 4) div 256) = ?p 1" "byte_of (length d + 4) = ?p 2"
      using bytes_WORD [of "?p 1" "?p 2"] unfolding w by simp_all
    ultimately show ?thesis using addr c by (simp only: host_header_def)
  qed
  have body: "host_header (m_addr h) c (length d + 4) @ d = map ?p [0..<length d + 5]"
  proof -
    have e: "5 + (?k - 7) = length d + 5" using ld by simp
    have "d = map ?p [5..<length d + 5]" using d unfolding e .
    moreover have "[0..<length d + 5] = [0..<5] @ [5..<length d + 5]"
      using upt_add_eq_append [of 0 5 "length d"] by (simp add: add.commute)
    ultimately show ?thesis unfolding hdr using map_append [of ?p "[0..<5]" "[5..<length d + 5]"] by simp
  qed
  have k: "?k = Suc (Suc (length d + 5))" using ld k7 by simp
  have "map ?p [0..<?k] = (host_header (m_addr h) c (length d + 4) @ d)
      @ [?p (length d + 5), ?p (Suc (length d + 5))]"
    unfolding k body map_upt_two ..
  then have "map ?p [0..<?k] = crc.seal (host_header (m_addr h) c (length d + 4) @ d)"
    using crc crc.accepted_is_seal by metis
  then have "map ?p [0..<Suc ?k] = cmd_frame (m_addr h) c d"
    using stop by (simp add: cmd_frame_def host_frame_def)
  moreover have "Suc ?k = length d + 8" using k by simp
  moreover have "length d \<le> 248" using klen len ld by linarith
  ultimately show ?thesis using cb by simp
qed

text \<open> Whatever bytes arrive, the only calls \<^verbatim>\<open>sm_host_process\<close> ever makes are to the
  registered callback, with the command and data of a complete frame in the packet buffer: start
  byte, a length field that matches, this device's address, at most 248 data bytes, the CRC of
  the bytes before it and the stop byte.\<close>

theorem host_only_frames:
  assumes "host_started h" "(cb, c, d) \<in> set (snd (snd (sm_host_process rx h)))"
  shows "m_cmd_callback h = Some cb \<and> length d \<le> 248
           \<and> map (m_packet (fst (snd (sm_host_process rx h)))) [0..<length d + 8]
               = cmd_frame (m_addr h) c d"
proof -
  have pk: "m_packet (fst (snd (host_parse g))) = m_packet g" for g :: "'a sm_host"
    by (simp add: host_parse_def host_reset_rx_def Let_def)
  define g where "g = (if m_mode h = SM_HOST_SYNC_MODE \<and> m_host_recv_if h
      then (case rx of None \<Rightarrow> h | Some b \<Rightarrow> host_push b h) else h)"
  have g: "host_started g"
    using assms(1) by (simp add: g_def host_started_push split: option.split)
  have ga: "m_cmd_callback g = m_cmd_callback h" "m_addr g = m_addr h"
    by (simp_all add: g_def host_push_def split: option.split)
  obtain g' where t: "host_take g = Some g'" and call: "(cb, c, d) \<in> set (snd (snd (host_parse g')))"
    and r: "sm_host_process rx h = host_parse g'"
    using assms(2) by (auto simp: sm_host_process_def Let_def g_def [symmetric] split: option.splits)
  show ?thesis
    using host_parse_sound [OF host_started_take [OF g t] call] host_take_frame [OF t] ga
    by (simp add: r pk)
qed

lemma host_only_frames_witness:
  "\<exists>h. host_started h \<and> (''app'', 0x10, []) \<in> set (snd (snd (sm_host_process None h)))
     \<and> map (m_packet (fst (snd (sm_host_process None h)))) [0..<8] = cmd_frame 1 0x10 []"
proof -
  let ?h = "\<lparr>m_mode = 0, m_addr = 1, m_buffer = (\<lambda>_. 0x55), m_buffer_index = 1, m_process_index = 0,
    m_packet = (!) (cmd_frame 1 0x10 []), m_packet_index = 7, m_host_recv_if = False,
    m_cmd_callback = Some ''app''\<rparr>"
  let ?h' = "?h\<lparr>m_packet := ((!) (cmd_frame 1 0x10 []))(7 := 0x55), m_process_index := 1\<rparr>"
  have "host_take ?h = Some ?h'" by (simp add: host_take_def host_wrap_def)
  then have "sm_host_process None ?h = host_parse ?h'" by (simp add: host_process_async)
  moreover have "host_parse ?h' = (1, ?h'\<lparr>m_packet_index := 0\<rparr>, [(''app'', 0x10, [])])"
    using host_parse_last [of ?h' "[]" "0x10"] cmd_frame_stop [of 1 "0x10" "[]"] by simp
  ultimately have c: "(''app'', 0x10, []) \<in> set (snd (snd (sm_host_process None ?h)))" by simp
  moreover have s: "host_started ?h" by (simp add: host_started_def cmd_frame_nth)
  ultimately show ?thesis
    using host_only_frames [OF s c] by (intro exI [of _ ?h]) simp
qed

section \<open>Limits of the protocol\<close>

text \<open>
  The receiver's bound on the length field is 255, so a frame with more than 248 data bytes is
  thrown away at its first stop byte past the header, together with the whole ring.
\<close>

definition host_long :: "u8 list \<Rightarrow> 'cb sm_host \<Rightarrow> bool" where
  "host_long F h \<longleftrightarrow> host_ok h \<and> m_mode h \<noteq> SM_HOST_SYNC_MODE
     \<and> (host_pending h = [] \<or> (m_packet_index h < length F \<and> host_pending h = drop (m_packet_index h) F
          \<and> (\<forall>i < m_packet_index h. m_packet h i = F ! i)))"

lemma host_pending_reset [simp]: "host_pending (host_reset_rx h) = []"
  by (simp add: host_pending_def host_reset_rx_def ring_items_def ring_len_def)

lemma host_parse_long:
  assumes F: "F = cmd_frame a c d" and d: "248 < length d" "length d \<le> 4080"
    and k: "m_packet_index h = k" "k < length F" and p: "\<And>i. i \<le> k \<Longrightarrow> m_packet h i = F ! i"
  shows "snd (snd (host_parse h)) = [] \<and>
    (fst (snd (host_parse h)) = host_reset_rx h
      \<or> Suc k < length F \<and> fst (snd (host_parse h)) = h\<lparr>m_packet_index := Suc k\<rparr>)"
proof -
  have last: "Suc k < length F \<or> k = length d + 7" using k F by auto
  have w: "WORD (m_packet h 1) (m_packet h 2) = length d + 4" if "k \<ge> 7"
    using p [of 1] p [of 2] that d WORD_bytes [of "length d + 4"] by (simp add: F cmd_frame_nth)
  have s: "m_packet h k = SM_PROTO_STOP_BYTE" if "k = length d + 7"
    using that p [of k] by (simp add: F cmd_frame_stop)
  have z: "m_packet h 0 = SM_PROTO_START_BYTE" using p [of 0] by (simp add: F cmd_frame_nth)
  have wr: "host_wrap (Suc k) = Suc k" if "Suc k < length F" using that d by (simp add: F host_wrap_def)
  consider (stop) "k \<ge> 7" "m_packet h k = SM_PROTO_STOP_BYTE"
    | (go) "Suc k < length F" "k \<ge> 7 \<longrightarrow> m_packet h k \<noteq> SM_PROTO_STOP_BYTE"
    using last s by fastforce
  then show ?thesis
  proof cases
    case stop
    then show ?thesis using w d by (simp add: host_parse_def Let_def k)
  next
    case go
    then show ?thesis using wr z by (cases "k = 0") (auto simp: host_parse_def Let_def k)
  qed
qed

lemma host_long_process:
  assumes F: "F = cmd_frame a c d" "248 < length d" "length d \<le> 4080" and h: "host_long F h"
  shows "host_long F (fst (snd (sm_host_process None h))) \<and> snd (snd (sm_host_process None h)) = []"
proof (cases "host_pending h = []")
  case True
  then have "host_take h = None" using h host_take_none [of h] by (simp add: host_long_def)
  then have "sm_host_process None h = (0, h, [])" by (simp add: sm_host_process_def)
  then show ?thesis using h by simp
next
  case False
  let ?k = "m_packet_index h"
  have ok: "host_ok h" and md: "m_mode h \<noteq> SM_HOST_SYNC_MODE" and lt: "?k < length F"
    and pend: "host_pending h = drop ?k F" and pre: "\<forall>i < ?k. m_packet h i = F ! i"
    using h False by (auto simp: host_long_def)
  obtain h' where t: "host_take h = Some h'"
    using False ok host_take_none [of h] by (cases "host_take h") auto
  note fr = host_take_frame [OF t]
  have "F ! ?k # drop (Suc ?k) F = m_packet h' ?k # host_pending h'"
    using host_take_some [OF ok t] pend lt fr(1) by (simp add: Cons_nth_drop_Suc)
  then have hd: "m_packet h' ?k = F ! ?k" and tl: "host_pending h' = drop (Suc ?k) F" by auto
  have pk: "m_packet h' i = F ! i" if "i \<le> ?k" for i
    using that pre hd fr(5) [of i] by (cases "i = ?k") auto
  have step: "sm_host_process None h = host_parse h'" by (rule host_process_async [OF md t])
  have ok': "host_ok h'" by (rule host_take_ok [OF ok t])
  note res = host_parse_long [OF F fr(1) lt pk]
  have "host_long F (host_reset_rx h')"
    using md fr(3) by (simp add: host_long_def) (simp add: host_ok_def host_reset_rx_def)
  moreover have "host_long F (h'\<lparr>m_packet_index := Suc ?k\<rparr>)" if "Suc ?k < length F"
    using that ok' md fr(3) tl pk F by (simp add: host_long_def host_ok_def host_pending_def)
  ultimately show ?thesis unfolding step using res by fastforce
qed

lemma host_long_polls:
  assumes "F = cmd_frame a c d" "248 < length d" "length d \<le> 4080" "host_long F h"
  shows "snd (host_polls n h) = []"
  using assms(4)
proof (induction n arbitrary: h)
  case (Suc n)
  then show ?case
    using host_long_process [OF assms(1-3) Suc.prems] Suc.IH
    by (auto split: prod.splits) (metis fst_conv snd_conv)
qed simp

text \<open> A command with 249 to 4080 data bytes, which \<^verbatim>\<open>sm_host_send_cmd\<close>
  sends without complaint, is never delivered: no number of polls of an idle receiver that was fed
  the whole frame calls its callback.\<close>

theorem host_long_frame_lost:
  assumes "host_idle h" "host_pending h = []" "248 < length d" "length d \<le> 4080"
    and "sm_host_send_cmd sent c d tx = Inr (n, packet)"
  shows "snd (host_polls k (sm_host_asyn_feed packet h)) = []"
proof -
  have packet: "packet = cmd_frame (m_addr tx) c d"
    using assms(4,5) by (simp add: send_cmd_frame)
  have "host_pending (sm_host_asyn_feed packet h) = packet \<and> host_ok (sm_host_asyn_feed packet h)"
    using assms(1,2,4) by (intro host_pending_feed) (simp_all add: packet host_idle_def)
  then have "host_long packet (sm_host_asyn_feed packet h)"
    using assms(1) by (simp add: host_long_def host_feed_frame host_idle_def packet)
  then show ?thesis by (rule host_long_polls [OF packet assms(3,4)])
qed

lemma host_long_frame_lost_witness:
  "snd (host_polls 257
        (sm_host_asyn_feed (cmd_frame 1 0x10 (replicate 249 0))
          ((sm_host_create_default SM_HOST_ASYNC_MODE 1 False)\<lparr>m_cmd_callback := Some ''app''\<rparr>))) = []"
proof -
  let ?h = "(sm_host_create_default SM_HOST_ASYNC_MODE 1 False)\<lparr>m_cmd_callback := Some ''app''\<rparr>"
  have "host_idle ?h" "host_pending ?h = []" "m_addr ?h = 1"
    by (simp_all add: sm_host_create_default_def host_idle_def host_ok_def host_pending_def
        ring_items_def ring_len_def)
  moreover have "sm_host_send_cmd 257 0x10 (replicate 249 0) ?h = Inr (257, cmd_frame 1 0x10 (replicate 249 0))"
    using \<open>m_addr ?h = 1\<close> by (simp add: send_cmd_frame)
  ultimately show ?thesis
    by (intro host_long_frame_lost [of ?h "replicate 249 0" 257 "0x10" ?h 257]) auto
qed

text \<open>A response is a command whose data starts with the return code.\<close>

lemma response_is_command: "sm_host_send_response sent c r d h = sm_host_send_cmd sent c (r # d) h"
  by (simp add: sm_host_send_response_def sm_host_send_cmd_def add.commute)

text \<open> \<^verbatim>\<open>sm_host_send_cmd_sync\<close> puts the caller's mode and callback back and
  clears the receive state after a request that was sent, answered or not; when the send interface
  fails it returns -1 with the object left in synchronous mode and with the request's callback.\<close>

theorem host_sync_restores:
  assumes "m_host_recv_if h" "length d \<le> 4088"
  shows "\<exists>r h' cs. sm_host_send_cmd_sync sent rxs c d cb h = Inr (r, h', cs)
     \<and> (if 0 < sent
        then m_mode h' = m_mode h \<and> m_cmd_callback h' = m_cmd_callback h
             \<and> host_pending h' = [] \<and> m_packet_index h' = 0
        else r = -1 \<and> cs = [] \<and> h' = h\<lparr>m_mode := SM_HOST_SYNC_MODE, m_cmd_callback := cb\<rparr>)"
proof -
  let ?h1 = "h\<lparr>m_mode := SM_HOST_SYNC_MODE, m_cmd_callback := cb\<rparr>"
  have s: "sm_host_send_cmd sent c d ?h1
      = Inr (if sent \<le> 0 then -1 else int (length d + 8), cmd_frame (m_addr h) c d)"
    using assms(2) by (simp add: send_cmd_frame)
  obtain r h2 cs where l: "host_sync_loop rxs (-1) ?h1 = (r, h2, cs)"
    by (cases "host_sync_loop rxs (-1) ?h1") auto
  have q: "host_pending ((host_reset_rx h2)\<lparr>m_cmd_callback := x, m_mode := y\<rparr>) = []" for x y
    by (simp add: host_pending_def host_reset_rx_def ring_items_def ring_len_def)
  show ?thesis
    using assms(1) l q by (simp add: sm_host_send_cmd_sync_def s) (simp add: host_reset_rx_def)
qed

lemma host_sync_restores_witness:
  "\<exists>h' cs. sm_host_send_cmd_sync (-1) [] 0x10 [] (Some ''once'')
      (sm_host_create_default SM_HOST_ASYNC_MODE 1 True) = Inr (-1, h', cs)
    \<and> m_mode h' = SM_HOST_SYNC_MODE \<and> m_cmd_callback h' = Some ''once''"
  using host_sync_restores [of "sm_host_create_default SM_HOST_ASYNC_MODE 1 True" "[]" "-1" "[]" "0x10" "Some ''once''"]
  by (auto simp: sm_host_create_default_def)

end
