(* ===== verification/Elapsed_Timer.thy ===== *)
theory Elapsed_Timer
  imports Prelude
begin

text \<open>
  \<^verbatim>\<open>utils/timing/sm_elapsed_timer.h\<close>: the software timers every service polls. A timer is a
  start tick and a duration in milliseconds; the tick count is the argument \<open>now\<close> of every
  operation that calls \<^verbatim>\<open>get_tick_count\<close>. The 64-bit signed ticks are integers here: a
  millisecond count reaches \<open>2 ^ 63\<close> after 292 million years.
\<close>

record elapsed_timer =
  m_duration :: int
  m_start_time :: int

definition elapsed_timer_reset :: "int \<Rightarrow> elapsed_timer \<Rightarrow> elapsed_timer" where
  "elapsed_timer_reset now t = t\<lparr>m_start_time := now\<rparr>"

definition elapsed_timer_resetz :: "int \<Rightarrow> int \<Rightarrow> elapsed_timer \<Rightarrow> elapsed_timer" where
  "elapsed_timer_resetz now dur t = t\<lparr>m_duration := dur, m_start_time := now\<rparr>"

definition elapsed_timer_pass :: "elapsed_timer \<Rightarrow> elapsed_timer" where
  "elapsed_timer_pass t = t\<lparr>m_duration := 0\<rparr>"

definition elapsed_timer_get_remain :: "int \<Rightarrow> elapsed_timer \<Rightarrow> int" where
  "elapsed_timer_get_remain now t =
     (let remain_time = now - m_start_time t
      in if remain_time \<ge> m_duration t then 0 else m_duration t - remain_time)"

text \<open>The test \<^verbatim>\<open>!elapsed_timer_get_remain(t)\<close> that all the callers use.\<close>

definition timed_out :: "int \<Rightarrow> elapsed_timer \<Rightarrow> bool" where
  "timed_out now t \<longleftrightarrow> elapsed_timer_get_remain now t = 0"

named_theorems timer_simps "when a timer is over, after each operation on it"

lemma timed_out_iff: "timed_out now t \<longleftrightarrow> m_start_time t + m_duration t \<le> now"
  by (auto simp: timed_out_def elapsed_timer_get_remain_def Let_def)

lemma timed_out_reset [timer_simps]:
  "timed_out now (elapsed_timer_reset t0 t) \<longleftrightarrow> t0 + m_duration t \<le> now"
  by (simp add: timed_out_iff elapsed_timer_reset_def)

lemma timed_out_resetz [timer_simps]:
  "timed_out now (elapsed_timer_resetz t0 d t) \<longleftrightarrow> t0 + d \<le> now"
  by (simp add: timed_out_iff elapsed_timer_resetz_def)

lemma duration_reset [timer_simps, simp]:
  "m_duration (elapsed_timer_reset t0 t) = m_duration t"
  by (simp add: elapsed_timer_reset_def)

lemma duration_resetz [timer_simps, simp]:
  "m_duration (elapsed_timer_resetz t0 d t) = d"
  by (simp add: elapsed_timer_resetz_def)

lemma start_reset [simp]: "m_start_time (elapsed_timer_reset t0 t) = t0"
  by (simp add: elapsed_timer_reset_def)

lemma start_resetz [simp]: "m_start_time (elapsed_timer_resetz t0 d t) = t0"
  by (simp add: elapsed_timer_resetz_def)

lemma timed_out_mono: "timed_out now t \<Longrightarrow> now \<le> now' \<Longrightarrow> timed_out now' t"
  by (simp add: timed_out_iff)

lemma get_remain_nonneg: "0 \<le> elapsed_timer_get_remain now t"
  by (simp add: elapsed_timer_get_remain_def Let_def)

section \<open>The interface the clients rely on\<close>

text \<open>
  A deadline: once armed for \<open>d\<close> it is over exactly from \<open>t0 + d\<close> on, and stays over.
  The state machines of the services use their timers only through these laws.
\<close>

locale deadline =
  fixes arm :: "int \<Rightarrow> int \<Rightarrow> 't \<Rightarrow> 't"
    and restart :: "int \<Rightarrow> 't \<Rightarrow> 't"
    and over :: "int \<Rightarrow> 't \<Rightarrow> bool"
    and dur :: "'t \<Rightarrow> int"
  assumes over_arm: "over now (arm t0 d t) \<longleftrightarrow> t0 + d \<le> now"
    and over_restart: "over now (restart t0 t) \<longleftrightarrow> t0 + dur t \<le> now"
    and dur_arm: "dur (arm t0 d t) = d"
    and dur_restart: "dur (restart t0 t) = dur t"
    and over_stable: "over now t \<Longrightarrow> now \<le> now' \<Longrightarrow> over now' t"
begin

lemma fires_once_due: "over (t0 + d) (arm t0 d t)"
  by (simp add: over_arm)

lemma quiet_before_due: "now < t0 + d \<Longrightarrow> \<not> over now (arm t0 d t)"
  by (simp add: over_arm)

lemma restart_delays: "0 < dur t \<Longrightarrow> \<not> over now (restart now t)"
  by (simp add: over_restart)

lemma restart_after_arm: "over now (restart t1 (arm t0 d t)) \<longleftrightarrow> t1 + d \<le> now"
  by (simp add: over_restart dur_arm)

lemma due_after_restart: "t0 + dur t \<le> now \<Longrightarrow> now \<le> now' \<Longrightarrow> over now' (restart t0 t)"
  by (rule over_stable [of now]) (simp_all add: over_restart)

end

interpretation et: deadline elapsed_timer_resetz elapsed_timer_reset timed_out m_duration
  by unfold_locales (simp_all add: timer_simps timed_out_iff)

end
