(* ===== verification/Bp_Types.thy ===== *)
theory Bp_Types
  imports Elapsed_Timer
begin

text \<open>
  The data of a battery pack and the small routines on it: \<^verbatim>\<open>common/ev_data/sm_bp_data.h\<close>,
  \<^verbatim>\<open>services/bp_management/sm_bp.h\<close> and the commands of \<^verbatim>\<open>sm_sv_bp_event.h\<close>.

  The state a pack reports is stored as the raw byte of its PDO, so \<open>bp_state\<close> is an integer and
  the constants of \<^verbatim>\<open>BP_STATE\<close> are abbreviations. Character arrays are lists of bytes of the
  array's length; reading or writing past them is the fault \<open>Out_Of_Bounds\<close>.
\<close>

section \<open>Pack data\<close>

abbreviation (input) SM_BP_NUMBER_DEFAULT :: nat where "SM_BP_NUMBER_DEFAULT \<equiv> 3"
abbreviation (input) BP_CELL_TEMP_SIZE :: nat where "BP_CELL_TEMP_SIZE \<equiv> 6"
abbreviation (input) BP_CELL_VOL_SIZE :: nat where "BP_CELL_VOL_SIZE \<equiv> 16"
abbreviation (input) BP_VERSION_SIZE :: nat where "BP_VERSION_SIZE \<equiv> 32"
abbreviation (input) BP_DEVICE_SN_SIZE :: nat where "BP_DEVICE_SN_SIZE \<equiv> 32"

abbreviation (input) BP_STATE_INIT :: int where "BP_STATE_INIT \<equiv> 0"
abbreviation (input) BP_STATE_IDLE :: int where "BP_STATE_IDLE \<equiv> 1"
abbreviation (input) BP_STATE_DISCHARGING :: int where "BP_STATE_DISCHARGING \<equiv> 3"
abbreviation (input) BP_STATE_CHARGING :: int where "BP_STATE_CHARGING \<equiv> 4"
abbreviation (input) BP_STATE_FAULT :: int where "BP_STATE_FAULT \<equiv> 5"
abbreviation (input) BP_STATE_STANDBY :: int where "BP_STATE_STANDBY \<equiv> 14"
abbreviation (input) BP_STATE_SHUTDOWN :: int where "BP_STATE_SHUTDOWN \<equiv> 15"
abbreviation (input) BP_STATE_ONLY_DISCHARGING :: int where "BP_STATE_ONLY_DISCHARGING \<equiv> 16"
abbreviation (input) BP_ST_RETAIN_DISCHARGE :: int where "BP_ST_RETAIN_DISCHARGE \<equiv> 21"

record sm_bp_data =
  bp_sn :: "u8 list"
  bp_vol :: int
  bp_cur :: int
  bp_state :: int
  bp_status :: int
  bp_soc :: int
  bp_soh :: int
  bp_cycle :: int
  bp_temps :: "u8 list"
  bp_cellVols :: "u16 list"
  bp_nfc_state :: u8
  bp_active_mode :: u8
  bp_block_mode :: u8
  bp_cycle_decimal :: u16
  bp_version :: "u8 list"
  bp_assignedSn :: "u8 list"

definition sm_bp_reset_data :: "sm_bp_data \<Rightarrow> sm_bp_data" where
  "sm_bp_reset_data d =
     \<lparr>bp_sn = replicate BP_DEVICE_SN_SIZE 0, bp_vol = 0, bp_cur = 0, bp_state = 0, bp_status = 0,
      bp_soc = -1, bp_soh = -1, bp_cycle = -1,
      bp_temps = replicate BP_CELL_TEMP_SIZE 0, bp_cellVols = replicate BP_CELL_VOL_SIZE 0,
      bp_nfc_state = 0, bp_active_mode = 0, bp_block_mode = 0, bp_cycle_decimal = 0,
      bp_version = replicate BP_VERSION_SIZE 0, bp_assignedSn = replicate BP_DEVICE_SN_SIZE 0\<rparr>"

text \<open>
  \<^verbatim>\<open>memcpy(m_cellVols, ..., BP_CELL_VOL_SIZE)\<close> counts bytes, not cells: half of the array.
\<close>

definition sm_bp_clone_data :: "sm_bp_data \<Rightarrow> sm_bp_data \<Rightarrow> sm_bp_data" where
  "sm_bp_clone_data this other =
     this\<lparr>bp_sn := take BP_DEVICE_SN_SIZE (bp_sn other),
          bp_vol := bp_vol other, bp_cur := bp_cur other, bp_state := bp_state other,
          bp_status := bp_status other, bp_soc := bp_soc other, bp_soh := bp_soh other,
          bp_cycle := bp_cycle other, bp_nfc_state := bp_nfc_state other,
          bp_block_mode := bp_block_mode other, bp_active_mode := bp_active_mode other,
          bp_cycle_decimal := bp_cycle_decimal other,
          bp_temps := take BP_CELL_TEMP_SIZE (bp_temps other),
          bp_cellVols := overwrite (take (BP_CELL_VOL_SIZE div 2) (bp_cellVols other)) (bp_cellVols this),
          bp_version := take BP_VERSION_SIZE (bp_version other),
          bp_assignedSn := take BP_DEVICE_SN_SIZE (bp_assignedSn other)\<rparr>"

section \<open>Packs and commands\<close>

datatype retain_st = BP_NO_SUPPORT_RETAIN | BP_SUPPORT_RETAIN | BP_ENABLE_RETAIN
  | BP_DISABLE_RETAIN | BP_ACTIVE_RETAIN | BP_DEACTIVE_RETAIN

datatype SM_BP_CMD = BP_CMD_REBOOT | BP_CMD_CHARGE | BP_CMD_ONLY_DISCHARGE | BP_CMD_DISCHARGE
  | BP_CMD_RETAIN_DISCHARGE | BP_CMD_STANDBY | BP_CMD_READ_SN | BP_CMD_READ_ASSIGNED_DEV
  | BP_CMD_WRITE_ASSIGNED_DEV | BP_CMD_READ_VERSION | BP_CMD_RECONFIG_ID | BP_CMD_FORCE_DISCHARGE
  | BP_CMD_SET_BLOCK | BP_CMD_SET_ACTIVE | BP_CMD_SET_CYCLE | BP_CMD_NUMBER

abbreviation (input) BP_CONNECTION_TIMEOUT :: int where "BP_CONNECTION_TIMEOUT \<equiv> 3000"

record sm_bp =
  m_id :: int
  m_data :: sm_bp_data
  m_is_connected :: bool
  m_timeout :: elapsed_timer
  m_data_count :: u8
  m_retain_st :: retain_st

definition sm_bp_reset :: "int \<Rightarrow> sm_bp \<Rightarrow> sm_bp" where
  "sm_bp_reset now bp =
     bp\<lparr>m_data := sm_bp_reset_data (m_data bp), m_is_connected := False,
        m_timeout := elapsed_timer_resetz now BP_CONNECTION_TIMEOUT (m_timeout bp),
        m_data_count := 0\<rparr>"

text \<open>
  The data pointer of a command points to one of a few buffers; \<open>'c\<close> names the callback with its
  argument, of which \<open>Sync_Info\<close> and \<open>On_Auth_Cmd\<close> belong to the service itself.
\<close>

datatype buf = Null_Buf | Sv_Temp | Auth_Buf | Co_Temp | Client_Buf nat

datatype 'c on_cmd = No_Callback | Sync_Info | On_Auth_Cmd | Client 'c

record 'c sm_bp_cmd =
  cmd_id :: int
  cmd_cmd :: SM_BP_CMD
  cmd_data :: buf
  cmd_cb :: "'c on_cmd"

definition sm_bp_cmd_reset :: "'c sm_bp_cmd" where
  "sm_bp_cmd_reset = \<lparr>cmd_id = -1, cmd_cmd = BP_CMD_NUMBER, cmd_data = Null_Buf, cmd_cb = No_Callback\<rparr>"

section \<open>Serial numbers\<close>

definition sn_char :: "u8 \<Rightarrow> bool" where
  "sn_char v \<longleftrightarrow> 0x30 \<le> v \<and> v \<le> 0x39 \<or> 0x41 \<le> v \<and> v \<le> 0x5A \<or> 0x61 \<le> v \<and> v \<le> 0x7A
     \<or> v = 0x2E \<or> v = 0x5F"

text \<open>
  The loop of \<^verbatim>\<open>sm_bp_verify_sn\<close> over the rest of the source array; \<open>acc\<close> is what has been
  written to \<^verbatim>\<open>_dest\<close>. The loop condition tests the character of the previous round, so a
  round that reads the terminator still runs and returns 0.
\<close>

fun verify_sn_loop :: "nat \<Rightarrow> u8 list \<Rightarrow> u8 list \<Rightarrow> fault + (u8 \<times> u8 list)" where
  "verify_sn_loop room [] acc = Inl Out_Of_Bounds"
| "verify_sn_loop room (v # rest) acc =
     (if sn_char v then
        (if length acc < room then verify_sn_loop room rest (acc @ [v]) else Inl Out_Of_Bounds)
      else Inr (0, acc))"

definition sm_bp_verify_sn :: "u8 list \<Rightarrow> u8 list \<Rightarrow> fault + (u8 \<times> u8 list)" where
  "sm_bp_verify_sn src dest =
     (case src of [] \<Rightarrow> Inl Out_Of_Bounds
      | v # _ \<Rightarrow>
        if v = 0 then Inr (1, dest)
        else (case verify_sn_loop (length dest) src [] of
                Inl f \<Rightarrow> Inl f
              | Inr (r, written) \<Rightarrow> Inr (r, overwrite written dest)))"

text \<open>\<^verbatim>\<open>strlen\<close>: \<open>None\<close> when the array holds no terminator.\<close>

fun strlen :: "u8 list \<Rightarrow> nat option" where
  "strlen [] = None"
| "strlen (v # rest) = (if v = 0 then Some 0 else map_option Suc (strlen rest))"

definition sm_bp_reverse_sn :: "u8 list \<Rightarrow> u8 list \<Rightarrow> fault + (int \<times> u8 list)" where
  "sm_bp_reverse_sn src dest =
     (case strlen src of None \<Rightarrow> Inl Out_Of_Bounds
      | Some len \<Rightarrow>
        if len = 0 then Inr (-1, dest)
        else if length dest < len + 1 then Inl Out_Of_Bounds
        else Inr (int len, overwrite (map (\<lambda>i. src ! (len - i - 1)) [0..<len] @ [0]) dest))"

text \<open>
  What both clients do with the bytes of a serial number: verify into a cleared 32-byte array,
  the return code ignored, and reverse that into the pack's field.
\<close>

definition store_sn :: "u8 list \<Rightarrow> u8 list \<Rightarrow> fault + u8 list" where
  "store_sn raw sn =
     (case sm_bp_verify_sn raw (replicate BP_DEVICE_SN_SIZE 0) of
        Inl f \<Rightarrow> Inl f
      | Inr (_, temp) \<Rightarrow> map_sum id snd (sm_bp_reverse_sn temp sn))"

section \<open>The ordered list of packs\<close>

definition move_step :: "nat \<Rightarrow> nat option list \<Rightarrow> nat option list" where
  "move_step i list = (if list ! (i - 1) = None then list else list[i := list ! (i - 1)])"

definition sm_bp_move_bp_to_list :: "nat option list \<Rightarrow> nat option \<Rightarrow> int \<times> nat option list" where
  "sm_bp_move_bp_to_list list bp =
     (case bp of None \<Rightarrow> (-1, list)
      | Some _ \<Rightarrow> (0, (fold move_step (rev [1..<SM_BP_NUMBER_DEFAULT]) list)[0 := bp]))"

text \<open>The search loop from index \<open>i\<close>; the tail moves down one place over the first match.\<close>

definition remove_at :: "nat \<Rightarrow> 'a \<Rightarrow> 'a list \<Rightarrow> 'a list" where
  "remove_at i x list =
     (fold (\<lambda>j l. l[j := l ! (j + 1)]) [i..<SM_BP_NUMBER_DEFAULT - 1] list)[SM_BP_NUMBER_DEFAULT - 1 := x]"

definition sm_bp_remove_bp_from_list :: "nat option list \<Rightarrow> nat option \<Rightarrow> int \<times> nat option list" where
  "sm_bp_remove_bp_from_list list bp =
     (case bp of None \<Rightarrow> (-1, list)
      | Some _ \<Rightarrow>
        (case find (\<lambda>i. list ! i = bp) [0..<SM_BP_NUMBER_DEFAULT] of
           None \<Rightarrow> (-2, list)
         | Some i \<Rightarrow> (0, remove_at i None list)))"

section \<open>Well-formed packs\<close>

text \<open>The limits of what the service ever believes about a pack.\<close>

definition bp_measured :: "sm_bp_data \<Rightarrow> bool" where
  "bp_measured d \<longleftrightarrow> (bp_vol d = 0 \<or> 40000 < bp_vol d \<and> bp_vol d < 70000)
     \<and> -20000 < bp_cur d \<and> bp_cur d < 20000
     \<and> -1 \<le> bp_soc d \<and> bp_soc d < 256 \<and> 0 \<le> bp_state d \<and> bp_state d < 256
     \<and> -1 \<le> bp_soh d \<and> bp_soh d < 256 \<and> -1 \<le> bp_cycle d \<and> bp_cycle d < 65536"

definition bp_data_ok :: "sm_bp_data \<Rightarrow> bool" where
  "bp_data_ok d \<longleftrightarrow> length (bp_sn d) = BP_DEVICE_SN_SIZE \<and> length (bp_temps d) = BP_CELL_TEMP_SIZE
     \<and> length (bp_cellVols d) = BP_CELL_VOL_SIZE \<and> length (bp_version d) = BP_VERSION_SIZE
     \<and> length (bp_assignedSn d) = BP_DEVICE_SN_SIZE \<and> bp_measured d"

text \<open>The pack at index \<open>i\<close> of the pack array.\<close>

definition bp_ok :: "nat \<Rightarrow> sm_bp \<Rightarrow> bool" where
  "bp_ok i bp \<longleftrightarrow> m_id bp = int i \<and> bp_data_ok (m_data bp) \<and> m_duration (m_timeout bp) = BP_CONNECTION_TIMEOUT"

definition bps_ok :: "sm_bp list \<Rightarrow> bool" where
  "bps_ok bps \<longleftrightarrow> length bps = SM_BP_NUMBER_DEFAULT \<and> (\<forall>i < length bps. bp_ok i (bps ! i))"

lemma bps_ok_length: "bps_ok bps \<Longrightarrow> length bps = SM_BP_NUMBER_DEFAULT"
  by (simp add: bps_ok_def)

lemma bps_ok_nth: "bps_ok bps \<Longrightarrow> i < SM_BP_NUMBER_DEFAULT \<Longrightarrow> bp_ok i (bps ! i)"
  by (simp add: bps_ok_def)

lemma bps_ok_id: "bps_ok bps \<Longrightarrow> i < SM_BP_NUMBER_DEFAULT \<Longrightarrow> m_id (bps ! i) = int i"
  by (simp add: bps_ok_def bp_ok_def)

lemma bps_ok_update: "bps_ok bps \<Longrightarrow> bp_ok i bp \<Longrightarrow> bps_ok (bps[i := bp])"
  by (cases "i < length bps") (auto simp: bps_ok_def nth_list_update list_update_beyond)

named_theorems bp_ok_intros "operations that keep a pack well-formed"

lemma measured_reset [simp]: "bp_measured (sm_bp_reset_data d)"
  by (simp add: bp_measured_def sm_bp_reset_data_def)

lemma measured_rest [simp]:
  "bp_measured (d\<lparr>bp_cellVols := c\<rparr>) = bp_measured d"
  "bp_measured (d\<lparr>bp_temps := x\<rparr>) = bp_measured d"
  "bp_measured (d\<lparr>bp_sn := s\<rparr>) = bp_measured d"
  "bp_measured (d\<lparr>bp_version := s\<rparr>) = bp_measured d"
  "bp_measured (d\<lparr>bp_assignedSn := s\<rparr>) = bp_measured d"
  by (simp_all add: bp_measured_def)

lemma bp_data_ok_reset [simp]: "bp_data_ok (sm_bp_reset_data d)"
  using measured_reset [of d] by (simp add: bp_data_ok_def) (simp add: sm_bp_reset_data_def)

lemma bp_ok_reset [bp_ok_intros]: "m_id bp = int i \<Longrightarrow> bp_ok i (sm_bp_reset now bp)"
  by (simp add: bp_ok_def sm_bp_reset_def)

lemma bp_ok_flags [bp_ok_intros]:
  "bp_ok i bp \<Longrightarrow> bp_ok i (bp\<lparr>m_is_connected := c\<rparr>)"
  "bp_ok i bp \<Longrightarrow> bp_ok i (bp\<lparr>m_data_count := n\<rparr>)"
  "bp_ok i bp \<Longrightarrow> bp_ok i (bp\<lparr>m_retain_st := r\<rparr>)"
  "bp_ok i bp \<Longrightarrow> bp_ok i (bp\<lparr>m_timeout := elapsed_timer_reset now (m_timeout bp)\<rparr>)"
  "bp_ok i bp \<Longrightarrow> bp_data_ok d \<Longrightarrow> bp_ok i (bp\<lparr>m_data := d\<rparr>)"
  by (simp_all add: bp_ok_def)

lemma bp_ok_data: "bp_ok i bp \<Longrightarrow> bp_data_ok (m_data bp)"
  by (simp add: bp_ok_def)

text \<open>A pack array as it is after power-up, for the examples.\<close>

definition bp_data_zero :: sm_bp_data where
  "bp_data_zero =
     \<lparr>bp_sn = replicate 32 0, bp_vol = 0, bp_cur = 0, bp_state = 0, bp_status = 0, bp_soc = -1, bp_soh = -1,
      bp_cycle = -1, bp_temps = replicate 6 0, bp_cellVols = replicate 16 0, bp_nfc_state = 0,
      bp_active_mode = 0, bp_block_mode = 0, bp_cycle_decimal = 0, bp_version = replicate 32 0,
      bp_assignedSn = replicate 32 0\<rparr>"

definition bp_default :: "nat \<Rightarrow> sm_bp" where
  "bp_default i =
     \<lparr>m_id = int i, m_data = bp_data_zero, m_is_connected = False,
      m_timeout = \<lparr>m_duration = BP_CONNECTION_TIMEOUT, m_start_time = 0\<rparr>, m_data_count = 0,
      m_retain_st = BP_NO_SUPPORT_RETAIN\<rparr>"

lemma bps_default_ok: "bps_ok (map bp_default [0..<3])"
  by (simp add: bps_ok_def bp_ok_def bp_default_def bp_data_ok_def bp_data_zero_def bp_measured_def)

section \<open>Serial numbers: what is stored\<close>

lemma verify_sn_loop_ok:
  assumes "list_all sn_char s" "\<not> sn_char v" "length acc + length s \<le> room"
  shows "verify_sn_loop room (s @ v # rest) acc = Inr (0, acc @ s)"
  using assms by (induction s arbitrary: acc) auto

lemma verify_sn_loop_fault:
  "list_all sn_char s \<Longrightarrow> verify_sn_loop room s acc = Inl Out_Of_Bounds"
  by (induction s arbitrary: acc) auto

lemma sn_char_0 [simp]: "\<not> sn_char 0"
  by (simp add: sn_char_def)

lemma sn_char_nz: "sn_char v \<Longrightarrow> v \<noteq> 0"
  by auto

lemma strlen_terminated: "list_all sn_char s \<Longrightarrow> strlen (s @ 0 # rest) = Some (length s)"
  by (induction s) (auto dest: sn_char_nz)

lemma rev_map_nth: "map (\<lambda>i. (s @ rest) ! (length s - i - 1)) [0..<length s] = rev s"
  by (rule nth_equalityI) (auto simp: rev_nth nth_append)

lemma reverse_sn_terminated:
  assumes "list_all sn_char s" "s \<noteq> []" "length s < length dest"
  shows "sm_bp_reverse_sn (s @ 0 # rest) dest = Inr (int (length s), overwrite (rev s @ [0]) dest)"
proof -
  have "strlen (s @ 0 # rest) = Some (length s)" using assms(1) by (rule strlen_terminated)
  then show ?thesis
    using assms(2,3) rev_map_nth [of s "0 # rest"] by (simp add: sm_bp_reverse_sn_def)
qed

lemma sn_first: "list_all sn_char s \<Longrightarrow> s \<noteq> [] \<Longrightarrow> \<exists>c s'. s = c # s' \<and> c \<noteq> 0"
  by (cases s) (auto dest: sn_char_nz)

lemma store_sn_ok:
  assumes "list_all sn_char s" "length sn = BP_DEVICE_SN_SIZE"
    and a: "s \<noteq> []" "length s < BP_DEVICE_SN_SIZE" "\<not> sn_char v"
  shows "store_sn (s @ v # rest) sn = Inr (overwrite (rev s @ [0]) sn)"
proof -
  obtain c s' where s: "s = c # s'" "c \<noteq> 0" using sn_first [OF assms(1) a(1)] by auto
  have "32 - length s = Suc (31 - length s)" using a(2) by simp
  then have z: "overwrite s (replicate 32 0) = s @ 0 # replicate (31 - length s) 0"
    by (simp add: overwrite_def)
  have "verify_sn_loop 32 (s @ v # rest) [] = Inr (0, s)"
    using verify_sn_loop_ok [of s v "[]" 32 rest] assms by simp
  then have "sm_bp_verify_sn (s @ v # rest) (replicate 32 0) = Inr (0, s @ 0 # replicate (31 - length s) 0)"
    using s z by (simp add: sm_bp_verify_sn_def del: verify_sn_loop.simps)
  then show ?thesis
    using assms reverse_sn_terminated [of s sn] by (simp add: store_sn_def)
qed

lemma store_sn_fault:
  assumes "list_all sn_char s" "length s = BP_DEVICE_SN_SIZE"
  shows "store_sn s sn = Inl Out_Of_Bounds"
proof -
  obtain c s' where s: "s = c # s'" "c \<noteq> 0" using sn_first [OF assms(1)] assms(2) by force
  show ?thesis
    using s verify_sn_loop_fault [OF assms(1), of 32 "[]"]
    by (simp add: store_sn_def sm_bp_verify_sn_def del: verify_sn_loop.simps)
qed

text \<open> A serial number of at most 31 letters, digits, dots and underscores,
  ended by any other byte, is stored reversed and zero-terminated; one that fills the whole
  32-byte read buffer is read past its end.\<close>

theorem serial_number_stored:
  assumes "list_all sn_char s" "length sn = BP_DEVICE_SN_SIZE"
  shows "(s \<noteq> [] \<and> length s < BP_DEVICE_SN_SIZE \<and> \<not> sn_char v
            \<longrightarrow> store_sn (s @ v # rest) sn = Inr (overwrite (rev s @ [0]) sn))
    \<and> (length s = BP_DEVICE_SN_SIZE \<longrightarrow> store_sn s sn = Inl Out_Of_Bounds)"
  using store_sn_ok [OF assms] store_sn_fault [OF assms(1)] by simp

lemma serial_number_stored_witness:
  "store_sn [0x41, 0x42, 0x31, 0] (replicate 32 0xFF)
     = Inr ([0x31, 0x42, 0x41, 0] @ replicate 28 0xFF)
   \<and> store_sn (replicate 32 0x41) (replicate 32 0) = Inl Out_Of_Bounds"
proof -
  have c: "list_all sn_char [0x41, 0x42, 0x31]" "list_all sn_char (replicate 32 0x41)"
    by (simp_all add: sn_char_def list_all_iff)
  show ?thesis
    using serial_number_stored [OF c(1), of "replicate 32 0xFF" 0 "[]"]
      serial_number_stored [OF c(2), of "replicate 32 0" 0 "[]"]
    by (simp add: overwrite_def)
qed

end
