(* ===== verification/Bp_Co.thy ===== *)
theory Bp_Co
  imports Bp_Types
begin

text \<open>
  \<^verbatim>\<open>services/bp_management/sm_bp_co.c\<close>: the CANopen side of a battery pack. The PDOs a pack
  broadcasts are decoded into its data; commands become SDO transfers to its node, one at a
  time. An SDO transfer is handed to \<^verbatim>\<open>sm_core_co\<close> with pointers to its buffer, so a request names
  its buffer; the current command is a pointer too, either into the command ring of the service
  or to the command of the authentication.
\<close>

section \<open>State\<close>

abbreviation (input) BP_NODE_ID_OFFSET :: nat where "BP_NODE_ID_OFFSET \<equiv> 5"
abbreviation (input) BP_NODE_ID_DEFAULT :: int where "BP_NODE_ID_DEFAULT \<equiv> 4"
abbreviation (input) BP_DATA_FIELD_NUMBER :: u8 where "BP_DATA_FIELD_NUMBER \<equiv> 6"

datatype cmd_ref = Sv_Slot nat | Auth_Slot

record sm_bp_co =
  co_sync :: bool
  co_bp_numb :: u8
  co_update_data_cb :: bool
  co_finish_cmd_cb :: bool
  co_cmd :: "cmd_ref option"
  co_cmd_temp :: "u8 list"

record sdo_req =
  sdo_write :: bool
  sdo_index :: nat
  sdo_sub_index :: nat
  sdo_node_id :: int
  sdo_buf :: buf
  sdo_len :: nat
  sdo_timeout :: int

definition sm_bp_co_create :: "u8 \<Rightarrow> sm_bp_co option" where
  "sm_bp_co_create bp_num =
     (if bp_num = 0 then None
      else Some \<lparr>co_sync = True, co_bp_numb = bp_num, co_update_data_cb = True,
                 co_finish_cmd_cb = True, co_cmd = None, co_cmd_temp = replicate 8 0\<rparr>)"

section \<open>Decoding the PDOs of a pack\<close>

abbreviation (input) BP_VOL_CUR_TPDO_COBID :: u32 where "BP_VOL_CUR_TPDO_COBID \<equiv> 0x180"
abbreviation (input) BP_CELLS_VOL_1_TO_4 :: u32 where "BP_CELLS_VOL_1_TO_4 \<equiv> 0x280"
abbreviation (input) BP_CELLS_VOL_5_TO_8 :: u32 where "BP_CELLS_VOL_5_TO_8 \<equiv> 0x380"
abbreviation (input) BP_CELLS_VOL_9_TO_12 :: u32 where "BP_CELLS_VOL_9_TO_12 \<equiv> 0x200"
abbreviation (input) BP_CELLS_VOL_13_TO_16 :: u32 where "BP_CELLS_VOL_13_TO_16 \<equiv> 0x300"
abbreviation (input) BP_TEMP_TPDO_COBID :: u32 where "BP_TEMP_TPDO_COBID \<equiv> 0x480"
abbreviation (input) BP_SOH_CYCLE_COBID :: u32 where "BP_SOH_CYCLE_COBID \<equiv> 0x400"

text \<open>The payload is the driver's 8-byte buffer, read by index; the target is little-endian.\<close>

definition CO_getUint16 :: "u8 \<Rightarrow> u8 \<Rightarrow> u16" where
  "CO_getUint16 b0 b1 = ucast b0 OR push_bit 8 (ucast b1)"

definition store_cells :: "nat \<Rightarrow> (nat \<Rightarrow> u8) \<Rightarrow> u16 list \<Rightarrow> u16 list" where
  "store_cells k d cells =
     take k cells @ map (\<lambda>i. CO_getUint16 (d (2 * i)) (d (2 * i + 1))) [0..<4] @ drop (k + 4) cells"

definition store_vol_cur :: "(nat \<Rightarrow> u8) \<Rightarrow> sm_bp_data \<Rightarrow> sm_bp_data" where
  "store_vol_cur d bd =
     (let vol = CO_getUint16 (d 0) (d 1);
          cur = CO_getUint16 (d 2) (d 3);
          bd = (if uint vol < 7000 \<and> uint vol > 4000 then bd\<lparr>bp_vol := 10 * uint vol\<rparr> else bd);
          bd = (if sint cur > -2000 \<and> sint cur < 2000
                then bd\<lparr>bp_cur := sint (word_of_int (10 * uint cur) :: u16)\<rparr> else bd)
      in bd\<lparr>bp_soc := uint (d 4), bp_state := uint (d 5),
            bp_status := uint (CO_getUint16 (d 6) (d 7))\<rparr>)"

definition retain_of_state :: "u8 \<Rightarrow> retain_st \<Rightarrow> retain_st" where
  "retain_of_state b st =
     (if st \<noteq> BP_ACTIVE_RETAIN then
        (if b = 0 then BP_NO_SUPPORT_RETAIN
         else if uint b = BP_ST_RETAIN_DISCHARGE then BP_ENABLE_RETAIN
         else BP_SUPPORT_RETAIN)
      else st)"

definition store_soh_cycle :: "(nat \<Rightarrow> u8) \<Rightarrow> sm_bp_data \<Rightarrow> sm_bp_data" where
  "store_soh_cycle d bd =
     bd\<lparr>bp_soh := uint (d 2), bp_cycle := uint (CO_getUint16 (d 0) (d 1)), bp_nfc_state := d 3,
        bp_active_mode := d 4, bp_block_mode := d 5, bp_cycle_decimal := ucast (d 6)\<rparr>"

definition bp_count :: "sm_bp \<Rightarrow> sm_bp" where
  "bp_count bp = bp\<lparr>m_data_count := m_data_count bp + 1\<rparr>"

definition bp_map_data :: "(sm_bp_data \<Rightarrow> sm_bp_data) \<Rightarrow> sm_bp \<Rightarrow> sm_bp" where
  "bp_map_data f bp = bp\<lparr>m_data := f (m_data bp)\<rparr>"

definition bp_map_cells :: "nat \<Rightarrow> (nat \<Rightarrow> u8) \<Rightarrow> sm_bp \<Rightarrow> sm_bp" where
  "bp_map_cells k d = bp_map_data (\<lambda>bd. bd\<lparr>bp_cellVols := store_cells k d (bp_cellVols bd)\<rparr>)"

text \<open>\<^verbatim>\<open>sm_bp_co_extract_pdo\<close> on the pack it has found, up to the report to the service.\<close>

definition bp_store_pdo :: "int \<Rightarrow> u32 \<Rightarrow> (nat \<Rightarrow> u8) \<Rightarrow> sm_bp \<Rightarrow> sm_bp" where
  "bp_store_pdo now cob_id d bp =
     (let bp = bp\<lparr>m_timeout := elapsed_timer_reset now (m_timeout bp)\<rparr> in
      if cob_id = BP_VOL_CUR_TPDO_COBID then bp_count (bp_map_data (store_vol_cur d) bp)
      else if cob_id = BP_CELLS_VOL_1_TO_4 then bp_count (bp_map_cells 0 d bp)
      else if cob_id = BP_CELLS_VOL_5_TO_8 then bp_count (bp_map_cells 4 d bp)
      else if cob_id = BP_CELLS_VOL_9_TO_12 then bp_count (bp_map_cells 8 d bp)
      else if cob_id = BP_CELLS_VOL_13_TO_16 then bp_count (bp_map_cells 12 d bp)
      else if cob_id = BP_TEMP_TPDO_COBID then
        bp_count (bp_map_data (\<lambda>bd. bd\<lparr>bp_temps := map d [0..<6]\<rparr>) bp)
      else if cob_id = BP_SOH_CYCLE_COBID then
        (bp_count (bp_map_data (store_soh_cycle d) bp))
          \<lparr>m_retain_st := retain_of_state (d 7) (m_retain_st bp)\<rparr>
      else bp)"

text \<open>
  The two parts of a COB-ID, and the pack index as the source computes it: the subtraction is
  done in an int and cut to a byte, so a node id below the offset becomes a large index.
\<close>

definition pdo_cob :: "u32 \<Rightarrow> u32" where
  "pdo_cob cob_id = cob_id AND 0xFFFFFF80"

definition pdo_bp_id :: "u32 \<Rightarrow> u8" where
  "pdo_bp_id cob_id = ucast (cob_id AND 0x7F) - of_nat BP_NODE_ID_OFFSET"

definition is_bp_pdo :: "u32 \<Rightarrow> bool" where
  "is_bp_pdo can_id \<longleftrightarrow>
     pdo_cob can_id \<in> {0x180, 0x280, 0x380, 0x480, 0x200, 0x300, 0x400}"

section \<open>Commands\<close>

abbreviation (input) BMS_INDEX :: nat where "BMS_INDEX \<equiv> 0x2003"
abbreviation (input) BMS_MAIN_SWITCH_SUB_INDEX :: nat where "BMS_MAIN_SWITCH_SUB_INDEX \<equiv> 1"
abbreviation (input) SDO_OBJ_TIMEOUT_MS :: int where "SDO_OBJ_TIMEOUT_MS \<equiv> 1000"

definition sdo_client_send ::
    "nat \<Rightarrow> nat \<Rightarrow> int \<Rightarrow> buf \<Rightarrow> nat \<Rightarrow> int \<Rightarrow> sdo_req" where
  "sdo_client_send index sub node b len timeout =
     \<lparr>sdo_write = True, sdo_index = index, sdo_sub_index = sub, sdo_node_id = node,
      sdo_buf = b, sdo_len = len, sdo_timeout = timeout\<rparr>"

definition sdo_client_receive ::
    "nat \<Rightarrow> nat \<Rightarrow> int \<Rightarrow> buf \<Rightarrow> nat \<Rightarrow> int \<Rightarrow> sdo_req" where
  "sdo_client_receive index sub node b len timeout =
     \<lparr>sdo_write = False, sdo_index = index, sdo_sub_index = sub, sdo_node_id = node,
      sdo_buf = b, sdo_len = len, sdo_timeout = timeout\<rparr>"

definition bp_node :: "'c sm_bp_cmd \<Rightarrow> int" where
  "bp_node cmd = cmd_id cmd + int BP_NODE_ID_OFFSET"

definition co_set_temp :: "u8 list \<Rightarrow> sm_bp_co \<Rightarrow> sm_bp_co" where
  "co_set_temp bs co = co\<lparr>co_cmd_temp := overwrite bs (co_cmd_temp co)\<rparr>"

definition sm_bp_co_reboot :: "'c sm_bp_cmd \<Rightarrow> sm_bp_co \<Rightarrow> sm_bp_co \<times> sdo_req" where
  "sm_bp_co_reboot cmd co =
     (co_set_temp [1] co, sdo_client_send 0x2001 0x07 (bp_node cmd) Co_Temp 1 100)"

text \<open>The commands that write a mode to the main switch object.\<close>

definition co_main_switch :: "u8 \<Rightarrow> 'c sm_bp_cmd \<Rightarrow> sm_bp_co \<Rightarrow> sm_bp_co \<times> sdo_req" where
  "co_main_switch mode cmd co =
     (co_set_temp [mode] co,
      sdo_client_send BMS_INDEX BMS_MAIN_SWITCH_SUB_INDEX (bp_node cmd) Co_Temp 1 SDO_OBJ_TIMEOUT_MS)"

definition sm_bp_co_charge :: "'c sm_bp_cmd \<Rightarrow> sm_bp_co \<Rightarrow> sm_bp_co \<times> sdo_req" where
  "sm_bp_co_charge = co_main_switch 3"
definition sm_bp_co_only_discharge :: "'c sm_bp_cmd \<Rightarrow> sm_bp_co \<Rightarrow> sm_bp_co \<times> sdo_req" where
  "sm_bp_co_only_discharge = co_main_switch 4"
definition sm_bp_co_discharge :: "'c sm_bp_cmd \<Rightarrow> sm_bp_co \<Rightarrow> sm_bp_co \<times> sdo_req" where
  "sm_bp_co_discharge = co_main_switch 3"
definition sm_bp_co_retain_discharge :: "'c sm_bp_cmd \<Rightarrow> sm_bp_co \<Rightarrow> sm_bp_co \<times> sdo_req" where
  "sm_bp_co_retain_discharge = co_main_switch 6"
definition sm_bp_co_standby :: "'c sm_bp_cmd \<Rightarrow> sm_bp_co \<Rightarrow> sm_bp_co \<times> sdo_req" where
  "sm_bp_co_standby = co_main_switch 0"

definition sm_bp_co_read_sn :: "'c sm_bp_cmd \<Rightarrow> sdo_req" where
  "sm_bp_co_read_sn cmd =
     sdo_client_receive BMS_INDEX 0 (bp_node cmd) (cmd_data cmd) BP_DEVICE_SN_SIZE SDO_OBJ_TIMEOUT_MS"
definition sm_bp_co_read_version :: "'c sm_bp_cmd \<Rightarrow> sdo_req" where
  "sm_bp_co_read_version cmd =
     sdo_client_receive 0x100A 0 (bp_node cmd) (cmd_data cmd) BP_VERSION_SIZE SDO_OBJ_TIMEOUT_MS"
definition sm_bp_co_read_dev :: "'c sm_bp_cmd \<Rightarrow> sdo_req" where
  "sm_bp_co_read_dev cmd =
     sdo_client_receive 0x2004 1 (bp_node cmd) (cmd_data cmd) BP_DEVICE_SN_SIZE SDO_OBJ_TIMEOUT_MS"
definition sm_bp_co_write_dev :: "'c sm_bp_cmd \<Rightarrow> sdo_req" where
  "sm_bp_co_write_dev cmd =
     sdo_client_send 0x2004 1 (bp_node cmd) (cmd_data cmd) BP_DEVICE_SN_SIZE SDO_OBJ_TIMEOUT_MS"
definition sm_bp_co_write_node_id :: "'c sm_bp_cmd \<Rightarrow> sdo_req" where
  "sm_bp_co_write_node_id cmd =
     sdo_client_send BMS_INDEX 2 BP_NODE_ID_DEFAULT (cmd_data cmd) 1 SDO_OBJ_TIMEOUT_MS"
definition sm_bp_co_force_discharge :: "'c sm_bp_cmd \<Rightarrow> sm_bp_co \<Rightarrow> sm_bp_co \<times> sdo_req" where
  "sm_bp_co_force_discharge cmd co =
     (co_set_temp [5, 0xFF, 0xFF] co,
      sdo_client_send BMS_INDEX 5 (bp_node cmd) Co_Temp 3 SDO_OBJ_TIMEOUT_MS)"
definition sm_bp_co_block :: "'c sm_bp_cmd \<Rightarrow> sdo_req" where
  "sm_bp_co_block cmd =
     sdo_client_send BMS_INDEX 6 (bp_node cmd) (cmd_data cmd) 1 SDO_OBJ_TIMEOUT_MS"
definition sm_bp_co_active :: "'c sm_bp_cmd \<Rightarrow> sdo_req" where
  "sm_bp_co_active cmd =
     sdo_client_send BMS_INDEX 6 (bp_node cmd) (cmd_data cmd) 1 SDO_OBJ_TIMEOUT_MS"
definition sm_bp_co_cycle :: "'c sm_bp_cmd \<Rightarrow> sdo_req" where
  "sm_bp_co_cycle cmd =
     sdo_client_send 0x2005 1 (bp_node cmd) (cmd_data cmd) 2 SDO_OBJ_TIMEOUT_MS"

text \<open>\<open>cmd\<close> is the content of what \<open>ref\<close> points to.\<close>

definition co_request :: "'c sm_bp_cmd \<Rightarrow> sm_bp_co \<Rightarrow> (sm_bp_co \<times> sdo_req) option" where
  "co_request cmd co =
     (case cmd_cmd cmd of
        BP_CMD_REBOOT \<Rightarrow> Some (sm_bp_co_reboot cmd co)
      | BP_CMD_CHARGE \<Rightarrow> Some (sm_bp_co_charge cmd co)
      | BP_CMD_ONLY_DISCHARGE \<Rightarrow> Some (sm_bp_co_only_discharge cmd co)
      | BP_CMD_DISCHARGE \<Rightarrow> Some (sm_bp_co_discharge cmd co)
      | BP_CMD_RETAIN_DISCHARGE \<Rightarrow> Some (sm_bp_co_retain_discharge cmd co)
      | BP_CMD_STANDBY \<Rightarrow> Some (sm_bp_co_standby cmd co)
      | BP_CMD_READ_SN \<Rightarrow> Some (co, sm_bp_co_read_sn cmd)
      | BP_CMD_READ_VERSION \<Rightarrow> Some (co, sm_bp_co_read_version cmd)
      | BP_CMD_READ_ASSIGNED_DEV \<Rightarrow> Some (co, sm_bp_co_read_dev cmd)
      | BP_CMD_WRITE_ASSIGNED_DEV \<Rightarrow> Some (co, sm_bp_co_write_dev cmd)
      | BP_CMD_RECONFIG_ID \<Rightarrow> Some (co, sm_bp_co_write_node_id cmd)
      | BP_CMD_FORCE_DISCHARGE \<Rightarrow> Some (sm_bp_co_force_discharge cmd co)
      | BP_CMD_SET_BLOCK \<Rightarrow> Some (co, sm_bp_co_block cmd)
      | BP_CMD_SET_ACTIVE \<Rightarrow> Some (co, sm_bp_co_active cmd)
      | BP_CMD_SET_CYCLE \<Rightarrow> Some (co, sm_bp_co_cycle cmd)
      | BP_CMD_NUMBER \<Rightarrow> None)"

definition sm_bp_co_set_cmd ::
    "cmd_ref \<Rightarrow> 'c sm_bp_cmd \<Rightarrow> sm_bp_co \<Rightarrow> int \<times> sm_bp_co \<times> sdo_req list" where
  "sm_bp_co_set_cmd ref cmd co =
     (let co = co\<lparr>co_cmd := Some ref\<rparr> in
      case co_request cmd co of None \<Rightarrow> (-1, co, []) | Some (co', r) \<Rightarrow> (0, co', [r]))"

definition sm_bp_co_reset_cmd :: "sm_bp_co \<Rightarrow> sm_bp_co" where
  "sm_bp_co_reset_cmd co = co\<lparr>co_cmd := None\<rparr>"

text \<open>\<open>busy\<close> is the answer of \<^verbatim>\<open>sm_co_sdo_is_busy\<close>.\<close>

definition sm_bp_co_is_busy :: "bool \<Rightarrow> sm_bp_co \<Rightarrow> bool" where
  "sm_bp_co_is_busy busy co = (if \<not> co_sync co then False else busy \<and> co_cmd co = None)"

definition sm_bp_co_destroy :: "sm_bp_co \<Rightarrow> sm_bp_co" where
  "sm_bp_co_destroy co = co\<lparr>co_update_data_cb := False, co_finish_cmd_cb := False\<rparr>"

section \<open>What a PDO leaves in the pack\<close>

lemma ten_times_cur:
  fixes c :: u16
  assumes "-2000 < sint c" "sint c < 2000"
  shows "sint (10 * c) = 10 * sint c"
proof -
  have "10 * c = word_of_int (10 * sint c)" by simp
  then have "sint (10 * c) = signed_take_bit 15 (10 * sint c)"
    by (simp only: sint_sbintrunc') simp
  also have "\<dots> = 10 * sint c"
    by (rule signed_take_bit_int_eq_self) (use assms in simp_all)
  finally show ?thesis .
qed

lemma uint_u8_lt [simp]: "uint b < 256" for b :: u8
  using uint_lt2p [of b] by simp

lemma uint_u16_lt [simp]: "uint b < 65536" for b :: u16
  using uint_lt2p [of b] by simp

lemma uint_ge_m1 [simp]: "- 1 \<le> uint b"
  using uint_ge_0 [of b] by linarith

lemma measured_vol_cur: "bp_measured d \<Longrightarrow> bp_measured (store_vol_cur p d)"
  by (simp add: bp_measured_def store_vol_cur_def Let_def ten_times_cur)

lemma measured_soh_cycle: "bp_measured d \<Longrightarrow> bp_measured (store_soh_cycle p d)"
  by (simp add: bp_measured_def store_soh_cycle_def)

lemmas pdo_defs = bp_store_pdo_def bp_count_def bp_map_data_def bp_map_cells_def

lemma bp_store_measured: "bp_measured (m_data bp) \<Longrightarrow> bp_measured (m_data (bp_store_pdo now cob p bp))"
  by (simp add: pdo_defs Let_def measured_vol_cur measured_soh_cycle)

lemma length_store_cells: "length cells = 16 \<Longrightarrow> k \<le> 12 \<Longrightarrow> length (store_cells k p cells) = 16"
  by (simp add: store_cells_def)

lemma data_ok_vol_cur: "bp_data_ok d \<Longrightarrow> bp_data_ok (store_vol_cur p d)"
  using measured_vol_cur [of d p] by (simp add: bp_data_ok_def) (simp add: store_vol_cur_def Let_def)

lemma data_ok_soh_cycle: "bp_data_ok d \<Longrightarrow> bp_data_ok (store_soh_cycle p d)"
  using measured_soh_cycle [of d p] by (simp add: bp_data_ok_def) (simp add: store_soh_cycle_def)

lemma data_ok_arrays:
  "bp_data_ok d \<Longrightarrow> k \<le> 12 \<Longrightarrow> bp_data_ok (d\<lparr>bp_cellVols := store_cells k p (bp_cellVols d)\<rparr>)"
  "bp_data_ok d \<Longrightarrow> bp_data_ok (d\<lparr>bp_temps := map p [0..<6]\<rparr>)"
  by (simp_all add: bp_data_ok_def length_store_cells)

lemma bp_store_ok [bp_ok_intros]: "bp_ok i bp \<Longrightarrow> bp_ok i (bp_store_pdo now cob p bp)"
  by (simp add: bp_ok_def pdo_defs Let_def data_ok_vol_cur data_ok_soh_cycle data_ok_arrays)

lemma bp_store_frame:
  "m_id (bp_store_pdo now cob p bp) = m_id bp"
  "m_is_connected (bp_store_pdo now cob p bp) = m_is_connected bp"
  "m_timeout (bp_store_pdo now cob p bp) = elapsed_timer_reset now (m_timeout bp)"
  by (simp_all add: pdo_defs Let_def)

lemma nth_store_cells:
  assumes "k + 4 \<le> length cells" "i < length cells"
  shows "store_cells k p cells ! i =
     (if k \<le> i \<and> i < k + 4 then CO_getUint16 (p (2 * (i - k))) (p (2 * (i - k) + 1)) else cells ! i)"
  using assms by (auto simp: store_cells_def nth_append)

lemma pdo_bp_id_nat:
  "unat (pdo_bp_id cob) = (if 5 \<le> unat (cob AND 0x7F) then unat (cob AND 0x7F) - 5
                           else unat (cob AND 0x7F) + 251)"
proof -
  have "unat (cob AND 0x7F) < 128"
    using word_and_le1 [of cob "0x7F"] by (simp add: word_le_nat_alt)
  then have u: "unat (ucast (cob AND 0x7F) :: u8) = unat (cob AND 0x7F)" "unat (cob AND 0x7F) < 128"
    by (simp_all add: unsigned_ucast_eq take_bit_nat_eq_self_iff)
  show ?thesis
    using u by (simp add: pdo_bp_id_def unat_sub_if_size word_size word_le_nat_alt)
qed

section \<open>Only one transfer is wanted at a time\<close>

lemma co_request_frame:
  assumes "co_request cmd co = Some (co', r)"
  shows "co_cmd co' = co_cmd co" "co_sync co' = co_sync co" "co_bp_numb co' = co_bp_numb co"
    "co_update_data_cb co' = co_update_data_cb co" "co_finish_cmd_cb co' = co_finish_cmd_cb co"
  using assms
  by (auto simp: co_request_def co_set_temp_def sm_bp_co_reboot_def sm_bp_co_charge_def
      sm_bp_co_only_discharge_def sm_bp_co_discharge_def sm_bp_co_retain_discharge_def
      sm_bp_co_standby_def sm_bp_co_force_discharge_def co_main_switch_def split: SM_BP_CMD.splits)

lemma co_set_cmd_frame:
  "co_cmd (fst (snd (sm_bp_co_set_cmd ref cmd co))) = Some ref"
  "co_sync (fst (snd (sm_bp_co_set_cmd ref cmd co))) = co_sync co"
  "co_bp_numb (fst (snd (sm_bp_co_set_cmd ref cmd co))) = co_bp_numb co"
  "co_update_data_cb (fst (snd (sm_bp_co_set_cmd ref cmd co))) = co_update_data_cb co"
  "co_finish_cmd_cb (fst (snd (sm_bp_co_set_cmd ref cmd co))) = co_finish_cmd_cb co"
  by (auto simp: sm_bp_co_set_cmd_def Let_def co_request_frame split: option.splits prod.splits)

end
