(* ===== verification/Bp_Auth.thy ===== *)
theory Bp_Auth
  imports Bp_Co
begin

text \<open>
  \<^verbatim>\<open>services/bp_management/sm_bp_auth.c\<close>: a pack that is plugged in gets its node id and is
  authenticated by its serial number. The master selects the pack's id line, answers its requests on
  the id-assignment COB-ID, answer_for the serial number over SDO and reports the outcome.

  The pack under assignment is a pointer into the pack array, here its index. The two functions
  of the node-id controller are outside the module: their return codes are an argument
  (\<open>node_id_ctl\<close>). What the module calls is returned as a list of \<open>auth_call\<close>, in order.
\<close>

section \<open>State\<close>

abbreviation (input) BP_ASSIGNING_TIMEOUT :: int where "BP_ASSIGNING_TIMEOUT \<equiv> 500"
abbreviation (input) BP_ASSIGNING_WAIT_SLAVE_DESELECT_TIMEOUT :: int where
  "BP_ASSIGNING_WAIT_SLAVE_DESELECT_TIMEOUT \<equiv> 3000"
abbreviation (input) BP_ASSIGNING_AUTH_TIMEOUT :: int where "BP_ASSIGNING_AUTH_TIMEOUT \<equiv> 3000"
abbreviation (input) BP_ASSIGNING_WAIT_NODEID :: int where "BP_ASSIGNING_WAIT_NODEID \<equiv> 50"
abbreviation (input) CAN_NODE_ID_ASSIGN_COBID :: u32 where "CAN_NODE_ID_ASSIGN_COBID \<equiv> 0x70"
abbreviation (input) CAN_NODE_ID_OFFSET :: int where "CAN_NODE_ID_OFFSET \<equiv> 5"

datatype BP_ASSIGN_STATE = BP_ASSIGN_IDLE | BP_ASSIGN_WAIT_REQUEST | BP_ASSIGN_START
  | BP_ASSIGN_SLAVE_SELECT | BP_ASSIGN_SLAVE_SELECT_CONFIRM | BP_ASSIGN_WAIT_CONFIRM
  | BP_ASSIGN_AUTHORIZING_START | BP_ASSIGN_AUTHORIZING | BP_ASSIGN_VERIFY_AUTH | BP_ASSIGNED
  | BP_ASSIGN_FAILURE | BP_ASSIGN_WAIT_SLAVE_DESELECT

datatype SM_BP_AUTH_EVENT = BP_AUTH_FAILURE | BP_AUTH_SUCCESS

record sm_bp_auth =
  au_bp :: "nat option"
  au_state :: BP_ASSIGN_STATE
  au_timeout :: elapsed_timer
  au_retry :: u8
  au_assign_numbs :: int
  au_cmd_id :: int
  au_data :: "u8 list"
  au_cb :: bool

record node_id_ctl =
  node_id_select :: "int \<Rightarrow> int"
  node_id_deselect :: "int \<Rightarrow> int"

datatype auth_call = Node_Select int | Node_Deselect int | Assign_Frame "u8 list"
  | Sdo_Request sdo_req | Auth_Event int SM_BP_AUTH_EVENT "u8 list option" int

text \<open>The members of the auth command other than the id are set once, at creation.\<close>

definition auth_cmd :: "sm_bp_auth \<Rightarrow> 'c sm_bp_cmd" where
  "auth_cmd a =
     \<lparr>cmd_id = au_cmd_id a, cmd_cmd = BP_CMD_READ_SN, cmd_data = Auth_Buf, cmd_cb = On_Auth_Cmd\<rparr>"

definition sm_bp_auth_create :: "sm_bp_auth \<Rightarrow> sm_bp_auth" where
  "sm_bp_auth_create a =
     a\<lparr>au_bp := None, au_state := BP_ASSIGN_IDLE, au_cb := True, au_cmd_id := -1,
       au_retry := 0, au_assign_numbs := 0\<rparr>"

definition sm_bp_auth_destroy :: "sm_bp_auth \<Rightarrow> sm_bp_auth" where
  "sm_bp_auth_destroy a = a\<lparr>au_cb := False, au_bp := None, au_state := BP_ASSIGN_IDLE\<rparr>"

definition sm_bp_auth_reset :: "int \<Rightarrow> sm_bp_auth \<Rightarrow> sm_bp_auth" where
  "sm_bp_auth_reset now a =
     a\<lparr>au_bp := None, au_state := BP_ASSIGN_IDLE, au_cmd_id := -1,
       au_timeout := elapsed_timer_resetz now BP_ASSIGNING_TIMEOUT (au_timeout a)\<rparr>"

definition auth_arm :: "int \<Rightarrow> int \<Rightarrow> sm_bp_auth \<Rightarrow> sm_bp_auth" where
  "auth_arm now d a = a\<lparr>au_timeout := elapsed_timer_resetz now d (au_timeout a)\<rparr>"

section \<open>Callbacks\<close>

text \<open>\<open>ok\<close> is \<^verbatim>\<open>_success == SM_BP_CMD_SUCCESS\<close>.\<close>

definition sm_bp_on_auth_cmd ::
    "int \<Rightarrow> int \<Rightarrow> SM_BP_CMD \<Rightarrow> bool \<Rightarrow> sm_bp list \<Rightarrow> sm_bp_auth \<Rightarrow> sm_bp_auth" where
  "sm_bp_on_auth_cmd now k cmd ok bps a =
     (case au_bp a of None \<Rightarrow> a
      | Some i \<Rightarrow>
        if (k = m_id (bps ! i) \<or> k = -1) \<and> cmd = BP_CMD_READ_SN then
          (if ok then auth_arm now BP_ASSIGNING_AUTH_TIMEOUT (a\<lparr>au_state := BP_ASSIGN_VERIFY_AUTH\<rparr>)
           else a\<lparr>au_state := BP_ASSIGN_FAILURE\<rparr>)
        else a)"

definition sm_bp_auth_recv_data ::
    "int \<Rightarrow> u32 \<Rightarrow> (nat \<Rightarrow> u8) \<Rightarrow> sm_bp list \<Rightarrow> sm_bp_auth \<Rightarrow> sm_bp_auth" where
  "sm_bp_auth_recv_data now can_id d bps a =
     (if can_id = CAN_NODE_ID_ASSIGN_COBID then
        (case au_bp a of None \<Rightarrow> a
         | Some i \<Rightarrow>
           if au_state a = BP_ASSIGN_WAIT_REQUEST then
             auth_arm now BP_ASSIGNING_WAIT_NODEID (a\<lparr>au_state := BP_ASSIGN_START\<rparr>)
           else if au_state a = BP_ASSIGN_SLAVE_SELECT then
             a\<lparr>au_state := BP_ASSIGN_SLAVE_SELECT_CONFIRM\<rparr>
           else if au_state a = BP_ASSIGN_WAIT_CONFIRM then
             (if uint (d 0) \<noteq> m_id (bps ! i) + CAN_NODE_ID_OFFSET then a
              else auth_arm now BP_ASSIGNING_WAIT_NODEID (a\<lparr>au_state := BP_ASSIGN_AUTHORIZING_START\<rparr>))
           else a)
      else a)"

section \<open>Starting\<close>

text \<open>Both starts give up the pack that is still under assignment.\<close>

definition auth_give_up :: "int \<Rightarrow> sm_bp_auth \<Rightarrow> sm_bp list \<Rightarrow> sm_bp list \<times> auth_call list" where
  "auth_give_up now a bps =
     (case au_bp a of None \<Rightarrow> (bps, [])
      | Some i \<Rightarrow> (bps[i := sm_bp_reset now (bps ! i)], [Node_Deselect (m_id (bps ! i))]))"

definition sm_bp_auth_start_auth ::
    "int \<Rightarrow> node_id_ctl \<Rightarrow> nat \<Rightarrow> sm_bp_auth \<Rightarrow> sm_bp list
       \<Rightarrow> int \<times> sm_bp_auth \<times> sm_bp list \<times> auth_call list" where
  "sm_bp_auth_start_auth now ctl k a bps =
     (let (bps, calls) = auth_give_up now a bps;
          a = (sm_bp_auth_reset now a)\<lparr>au_bp := Some k, au_cmd_id := m_id (bps ! k)\<rparr>;
          a = auth_arm now BP_ASSIGNING_TIMEOUT a;
          calls = calls @ [Node_Select (au_cmd_id a)]
      in if node_id_select ctl (au_cmd_id a) < 0 then
           (-1, sm_bp_auth_reset now a, bps,
            calls @ (if au_cb a then [Auth_Event (m_id (bps ! k)) BP_AUTH_FAILURE None (-1)] else []))
         else (0, a\<lparr>au_state := BP_ASSIGN_WAIT_REQUEST\<rparr>, bps, calls))"

definition sm_bp_auth_first_bp_auth ::
    "int \<Rightarrow> nat \<Rightarrow> sm_bp_auth \<Rightarrow> sm_bp list \<Rightarrow> int \<times> sm_bp_auth \<times> sm_bp list \<times> auth_call list" where
  "sm_bp_auth_first_bp_auth now k a bps =
     (let (bps, calls) = auth_give_up now a bps;
          a = (sm_bp_auth_reset now a)\<lparr>au_bp := Some k, au_cmd_id := -1\<rparr>;
          a = auth_arm now BP_ASSIGNING_TIMEOUT a
      in (0, a\<lparr>au_state := BP_ASSIGN_AUTHORIZING_START\<rparr>, bps, calls))"

definition sm_bp_auth_get_bp_authenticating :: "sm_bp_auth \<Rightarrow> sm_bp list \<Rightarrow> int" where
  "sm_bp_auth_get_bp_authenticating a bps =
     (case au_bp a of None \<Rightarrow> -1 | Some i \<Rightarrow> m_id (bps ! i))"

section \<open>The periodic step\<close>

type_synonym auth_result =
  "fault + (int \<times> sm_bp_auth \<times> sm_bp list \<times> sm_bp_co \<times> auth_call list)"

definition auth_verify :: "int \<Rightarrow> nat \<Rightarrow> sm_bp_auth \<Rightarrow> sm_bp list \<Rightarrow> sm_bp_co \<Rightarrow> auth_result" where
  "auth_verify now i a bps co =
     (if timed_out now (au_timeout a) then
        Inr (-1, a\<lparr>au_state := BP_ASSIGN_FAILURE\<rparr>, bps, co, [])
      else if au_cmd_id a \<noteq> -1 \<and> bp_soc (m_data (bps ! i)) < 0 then Inr (0, a, bps, co, [])
      else
        (case store_sn (au_data a) (bp_sn (m_data (bps ! i))) of
           Inl f \<Rightarrow> Inl f
         | Inr sn \<Rightarrow>
             Inr (0, a\<lparr>au_state := BP_ASSIGNED\<rparr>,
                  bps[i := (bps ! i)\<lparr>m_data := (m_data (bps ! i))\<lparr>bp_sn := sn\<rparr>,
                                     m_timeout := elapsed_timer_reset now (m_timeout (bps ! i))\<rparr>],
                  co, [])))"

definition sm_bp_auth_process ::
    "int \<Rightarrow> node_id_ctl \<Rightarrow> sm_bp_auth \<Rightarrow> sm_bp list \<Rightarrow> sm_bp_co \<Rightarrow> auth_result" where
  "sm_bp_auth_process now ctl a bps co =
     (case au_bp a of None \<Rightarrow> Inr (-1, a, bps, co, [])
      | Some i \<Rightarrow>
        (let bp = bps ! i; fail = a\<lparr>au_state := BP_ASSIGN_FAILURE\<rparr> in
         case au_state a of
           BP_ASSIGN_WAIT_REQUEST \<Rightarrow>
             Inr (0, if timed_out now (au_timeout a) then fail else a, bps, co, [])
         | BP_ASSIGN_SLAVE_SELECT \<Rightarrow>
             Inr (0, if timed_out now (au_timeout a) then fail else a, bps, co, [])
         | BP_ASSIGN_WAIT_CONFIRM \<Rightarrow>
             Inr (0, if timed_out now (au_timeout a) then fail else a, bps, co, [])
         | BP_ASSIGN_START \<Rightarrow>
             if node_id_deselect ctl (m_id bp) < 0 then Inr (0, fail, bps, co, [Node_Deselect (m_id bp)])
             else if \<not> timed_out now (au_timeout a) then Inr (0, a, bps, co, [Node_Deselect (m_id bp)])
             else Inr (0, auth_arm now BP_ASSIGNING_TIMEOUT (a\<lparr>au_state := BP_ASSIGN_SLAVE_SELECT\<rparr>),
                       bps, co, [Node_Deselect (m_id bp), Assign_Frame []])
         | BP_ASSIGN_SLAVE_SELECT_CONFIRM \<Rightarrow>
             Inr (0, a\<lparr>au_timeout := elapsed_timer_reset now (au_timeout a),
                       au_state := BP_ASSIGN_WAIT_CONFIRM\<rparr>, bps, co,
                  [Assign_Frame [word_of_int (m_id bp + CAN_NODE_ID_OFFSET)]])
         | BP_ASSIGN_AUTHORIZING_START \<Rightarrow>
             if node_id_select ctl (m_id bp) < 0 then Inr (0, fail, bps, co, [Node_Select (m_id bp)])
             else if \<not> timed_out now (au_timeout a) then Inr (0, a, bps, co, [Node_Select (m_id bp)])
             else (case sm_bp_co_set_cmd Auth_Slot (auth_cmd a :: unit sm_bp_cmd) co of (_, co', reqs) \<Rightarrow>
                     Inr (0, auth_arm now BP_ASSIGNING_AUTH_TIMEOUT (a\<lparr>au_state := BP_ASSIGN_AUTHORIZING\<rparr>),
                          bps, co', Node_Select (m_id bp) # map Sdo_Request reqs))
         | BP_ASSIGN_AUTHORIZING \<Rightarrow>
             if timed_out now (au_timeout a) then Inr (-1, fail, bps, co, []) else Inr (0, a, bps, co, [])
         | BP_ASSIGN_VERIFY_AUTH \<Rightarrow> auth_verify now i a bps co
         | BP_ASSIGNED \<Rightarrow>
             Inr (0, sm_bp_auth_reset now a, bps, co,
                  if au_cb a then
                    [Auth_Event (m_id bp) BP_AUTH_SUCCESS (Some (bp_sn (m_data bp))) (bp_soc (m_data bp))]
                  else [])
         | BP_ASSIGN_FAILURE \<Rightarrow>
             if node_id_deselect ctl (m_id bp) < 0 then Inr (0, a, bps, co, [Node_Deselect (m_id bp)])
             else Inr (0, (auth_arm now (if au_cmd_id a = -1 then BP_ASSIGNING_WAIT_NODEID
                                         else BP_ASSIGNING_WAIT_SLAVE_DESELECT_TIMEOUT) a)
                            \<lparr>au_state := BP_ASSIGN_WAIT_SLAVE_DESELECT\<rparr>,
                       bps, co, [Node_Deselect (m_id bp)])
         | BP_ASSIGN_WAIT_SLAVE_DESELECT \<Rightarrow>
             if timed_out now (au_timeout a) then
               (if au_cb a then Inl Null_Deref
                else Inr (0, sm_bp_auth_reset now a, bps, co, []))
             else Inr (0, a, bps, co, [])
         | BP_ASSIGN_IDLE \<Rightarrow> Inr (0, a, bps, co, [])))"

text \<open>
  The last branch is the order of the source: \<^verbatim>\<open>sm_bp_auth_reset\<close> clears \<^verbatim>\<open>m_assigning_bp\<close>
  and the arguments of the callback are then read through it.
\<close>

section \<open>The module as a machine\<close>

text \<open>
  What can happen to the module: its periodic step, a CAN frame, the end of the serial-number
  read (the bytes are in the buffer before the callback runs), the two starts, and a PDO that
  changes a pack under its hands.
\<close>

datatype auth_event = Tick int node_id_ctl | Frame int u32 "nat \<Rightarrow> u8" | Sn_Done int int bool "u8 list"
  | Start int node_id_ctl nat | Start_First int nat | Pdo int nat u32 "nat \<Rightarrow> u8"

type_synonym auth_sys = "sm_bp_auth \<times> sm_bp list \<times> sm_bp_co"

fun auth_step :: "auth_sys \<Rightarrow> auth_event \<Rightarrow> fault + (auth_sys \<times> auth_call list)" where
  "auth_step (a, bps, co) (Tick now ctl) =
     map_sum id (\<lambda>(_, a, bps, co, cs). ((a, bps, co), cs)) (sm_bp_auth_process now ctl a bps co)"
| "auth_step (a, bps, co) (Frame now can_id d) = Inr ((sm_bp_auth_recv_data now can_id d bps a, bps, co), [])"
| "auth_step (a, bps, co) (Sn_Done now k ok raw) =
     Inr ((sm_bp_on_auth_cmd now k BP_CMD_READ_SN ok bps (a\<lparr>au_data := overwrite raw (au_data a)\<rparr>), bps, co), [])"
| "auth_step (a, bps, co) (Start now ctl k) =
     (if length bps \<le> k then Inl Out_Of_Bounds
      else case sm_bp_auth_start_auth now ctl k a bps of (_, a, bps, cs) \<Rightarrow> Inr ((a, bps, co), cs))"
| "auth_step (a, bps, co) (Start_First now k) =
     (if length bps \<le> k then Inl Out_Of_Bounds
      else case sm_bp_auth_first_bp_auth now k a bps of (_, a, bps, cs) \<Rightarrow> Inr ((a, bps, co), cs))"
| "auth_step (a, bps, co) (Pdo now i cob d) = Inr ((a, bps[i := bp_store_pdo now cob d (bps ! i)], co), [])"

fun auth_run :: "auth_sys \<Rightarrow> auth_event list \<Rightarrow> fault + (auth_sys \<times> auth_call list)" where
  "auth_run s [] = Inr (s, [])"
| "auth_run s (e # es) =
     (case auth_step s e of Inl f \<Rightarrow> Inl f
      | Inr (s', cs) \<Rightarrow> map_sum id (\<lambda>(s'', cs'). (s'', cs @ cs')) (auth_run s' es))"

lemma auth_run_snoc:
  "auth_run s (es @ [e]) =
     (case auth_run s es of Inl f \<Rightarrow> Inl f
      | Inr (s', cs) \<Rightarrow> map_sum id (\<lambda>(s'', cs'). (s'', cs @ cs')) (auth_step s' e))"
  by (induction es arbitrary: s)
     (auto split: sum.splits prod.splits simp: map_sum_def)

lemma auth_run_snoc_Inr:
  assumes "auth_run s (es @ [e]) = Inr (s', cs)"
  obtains s1 cs1 cs2 where "auth_run s es = Inr (s1, cs1)" "auth_step s1 e = Inr (s', cs2)" "cs = cs1 @ cs2"
proof (cases "auth_run s es")
  case (Inl f)
  then show ?thesis using assms by (simp add: auth_run_snoc)
next
  case (Inr p)
  then obtain s1 cs1 where r: "auth_run s es = Inr (s1, cs1)" by (cases p) simp
  obtain s2 cs2 where e: "auth_step s1 e = Inr (s2, cs2)"
    using assms r by (cases "auth_step s1 e") (auto simp: auth_run_snoc)
  then have "s' = s2" "cs = cs1 @ cs2" using assms r by (simp_all add: auth_run_snoc)
  then show ?thesis using that [OF r] e by simp
qed

section \<open>Well-formedness\<close>

definition auth_ok :: "auth_sys \<Rightarrow> bool" where
  "auth_ok = (\<lambda>(a, bps, co). bps_ok bps \<and> length (au_data a) = BP_DEVICE_SN_SIZE
     \<and> (case au_bp a of None \<Rightarrow> au_state a = BP_ASSIGN_IDLE
        | Some i \<Rightarrow> i < SM_BP_NUMBER_DEFAULT \<and> au_state a \<noteq> BP_ASSIGN_IDLE
                    \<and> (au_cmd_id a = -1 \<or> au_cmd_id a = int i)))"

lemma store_sn_length:
  assumes "store_sn raw sn = Inr sn'"
  shows "length sn' = length sn"
proof -
  obtain r temp where "sm_bp_verify_sn raw (replicate 32 0) = Inr (r, temp)"
    using assms by (auto simp: store_sn_def split: sum.splits)
  then show ?thesis
    using assms by (auto simp: store_sn_def sm_bp_reverse_sn_def arr_simps
        split: option.splits if_splits)
qed

lemma bps_reset_ok: "bps_ok bps \<Longrightarrow> i < SM_BP_NUMBER_DEFAULT \<Longrightarrow> bps_ok (bps[i := sm_bp_reset now (bps ! i)])"
  by (intro bps_ok_update bp_ok_reset bps_ok_id)

lemma auth_give_up_ok:
  assumes "auth_ok (a, bps, co)" "auth_give_up now a bps = (bps', cs)"
  shows "bps_ok bps'"
  using assms by (auto simp: auth_ok_def auth_give_up_def bps_reset_ok split: option.splits)

lemma auth_start_ok:
  assumes "auth_ok (a, bps, co)" "k < SM_BP_NUMBER_DEFAULT"
    and "sm_bp_auth_start_auth now ctl k a bps = (r, a', bps', cs)"
  shows "auth_ok (a', bps', co)"
proof -
  obtain bps1 cs1 where g: "auth_give_up now a bps = (bps1, cs1)" by fastforce
  have ok: "bps_ok bps1" by (rule auth_give_up_ok [OF assms(1) g])
  show ?thesis
    using assms ok bps_ok_id [OF ok assms(2)]
    by (auto simp: sm_bp_auth_start_auth_def g auth_ok_def auth_arm_def sm_bp_auth_reset_def Let_def
        split: if_splits)
qed

lemma auth_first_ok:
  assumes "auth_ok (a, bps, co)" "k < SM_BP_NUMBER_DEFAULT"
    and "sm_bp_auth_first_bp_auth now k a bps = (r, a', bps', cs)"
  shows "auth_ok (a', bps', co)"
proof -
  obtain bps1 cs1 where g: "auth_give_up now a bps = (bps1, cs1)" by fastforce
  have ok: "bps_ok bps1" by (rule auth_give_up_ok [OF assms(1) g])
  show ?thesis
    using assms ok
    by (auto simp: sm_bp_auth_first_bp_auth_def g auth_ok_def auth_arm_def sm_bp_auth_reset_def Let_def)
qed

lemma auth_verify_ok:
  assumes "auth_ok (a, bps, co)" "au_bp a = Some i" "auth_verify now i a bps co = Inr (r, a', bps', co', cs)"
  shows "auth_ok (a', bps', co')"
proof -
  have i: "bps_ok bps" "i < 3" using assms(1,2) by (simp_all add: auth_ok_def)
  have bp: "bp_ok i (bps ! i)" by (rule bps_ok_nth [OF i])
  have upd: "bps_ok (bps[i := (bps ! i)\<lparr>m_data := (m_data (bps ! i))\<lparr>bp_sn := sn\<rparr>,
      m_timeout := elapsed_timer_reset now (m_timeout (bps ! i))\<rparr>])"
    if "store_sn (au_data a) (bp_sn (m_data (bps ! i))) = Inr sn" for sn
    using bp store_sn_length [OF that] i by (intro bps_ok_update) (simp_all add: bp_ok_def bp_data_ok_def)
  show ?thesis
    using assms upd by (auto simp: auth_verify_def auth_ok_def split: if_splits sum.splits)
qed

lemma auth_process_ok:
  assumes "auth_ok (a, bps, co)" "sm_bp_auth_process now ctl a bps co = Inr (r, a', bps', co', cs)"
  shows "auth_ok (a', bps', co')"
proof (cases "au_bp a")
  case None
  then show ?thesis using assms by (simp add: sm_bp_auth_process_def)
next
  case (Some i)
  show ?thesis
  proof (cases "au_state a = BP_ASSIGN_VERIFY_AUTH")
    case True
    then show ?thesis
      using assms Some by (simp add: sm_bp_auth_process_def auth_verify_ok [OF assms(1) Some])
  next
    case False
    then show ?thesis
      using assms Some
      by (auto simp: sm_bp_auth_process_def auth_ok_def auth_arm_def sm_bp_auth_reset_def Let_def
          split: BP_ASSIGN_STATE.splits if_splits prod.splits)
  qed
qed

lemma auth_recv_ok:
  "auth_ok (a, bps, co) \<Longrightarrow> auth_ok (sm_bp_auth_recv_data now can_id d bps a, bps, co)"
  by (auto simp: auth_ok_def sm_bp_auth_recv_data_def auth_arm_def split: option.splits)

lemma auth_on_cmd_ok:
  "auth_ok (a, bps, co) \<Longrightarrow> auth_ok (sm_bp_on_auth_cmd now k cmd ok bps a, bps, co)"
  by (auto simp: auth_ok_def sm_bp_on_auth_cmd_def auth_arm_def split: option.splits)

lemma auth_pdo_ok:
  "auth_ok (a, bps, co) \<Longrightarrow> auth_ok (a, bps[i := bp_store_pdo now cob d (bps ! i)], co)"
proof -
  have "bps_ok bps \<Longrightarrow> bps_ok (bps[i := bp_store_pdo now cob d (bps ! i)])"
    by (cases "i < length bps")
       (simp_all add: bps_ok_update bp_store_ok bps_ok_nth bps_ok_length list_update_beyond)
  then show "auth_ok (a, bps, co) \<Longrightarrow> ?thesis" by (simp add: auth_ok_def)
qed

text \<open>The serial number that arrives fits the 32-byte buffer.\<close>

definition fits :: "auth_event \<Rightarrow> bool" where
  "fits e = (case e of Sn_Done _ _ _ raw \<Rightarrow> length raw \<le> BP_DEVICE_SN_SIZE | _ \<Rightarrow> True)"

lemma auth_step_ok:
  assumes "auth_ok s" "fits e" "auth_step s e = Inr (s', cs)"
  shows "auth_ok s'"
proof -
  obtain a bps co where s: "s = (a, bps, co)" by (cases s)
  have len: "length bps = 3" using assms(1) by (simp add: s auth_ok_def bps_ok_length)
  show ?thesis
  proof (cases e)
    case (Tick now ctl)
    then show ?thesis
      using assms auth_process_ok by (cases "sm_bp_auth_process now ctl a bps co") (auto simp: s)
  next
    case (Sn_Done now k ok raw)
    have "auth_ok (a\<lparr>au_data := overwrite raw (au_data a)\<rparr>, bps, co)"
      using assms(1,2) by (simp add: s Sn_Done fits_def auth_ok_def arr_simps split: option.splits)
    from auth_on_cmd_ok [OF this] show ?thesis using assms(3) by (auto simp: s Sn_Done)
  next
    case (Start now ctl k)
    then show ?thesis
      using assms len auth_start_ok by (auto simp: s not_le split: if_splits prod.splits)
  next
    case (Start_First now k)
    then show ?thesis
      using assms len auth_first_ok by (auto simp: s not_le split: if_splits prod.splits)
  qed (use assms in \<open>auto simp: s auth_recv_ok auth_pdo_ok\<close>)
qed

definition auth_sstep :: "fault + auth_sys \<Rightarrow> auth_event \<Rightarrow> fault + auth_sys" where
  "auth_sstep st e = (case st of Inl f \<Rightarrow> Inl f
     | Inr s \<Rightarrow> if fits e then map_sum id fst (auth_step s e) else Inl Out_Of_Bounds)"

interpretation auth: event_machine auth_sstep "\<lambda>st. case st of Inl _ \<Rightarrow> True | Inr s \<Rightarrow> auth_ok s"
proof (unfold_locales, goal_cases)
  case (1 st e)
  then show ?case
    by (auto simp: auth_sstep_def map_sum_def split: sum.splits prod.splits dest: auth_step_ok)
qed

section \<open>The assignment protocol\<close>

text \<open>
  The transitions of the assignment, by the event that takes them. \<open>V\<close> stands for the end of the
  serial-number read: it is accepted in every state of an assignment.
\<close>

inductive assign_next :: "BP_ASSIGN_STATE \<Rightarrow> BP_ASSIGN_STATE \<Rightarrow> bool" where
  request: "assign_next BP_ASSIGN_WAIT_REQUEST BP_ASSIGN_START"
| select: "assign_next BP_ASSIGN_START BP_ASSIGN_SLAVE_SELECT"
| selected: "assign_next BP_ASSIGN_SLAVE_SELECT BP_ASSIGN_SLAVE_SELECT_CONFIRM"
| send_id: "assign_next BP_ASSIGN_SLAVE_SELECT_CONFIRM BP_ASSIGN_WAIT_CONFIRM"
| confirmed: "assign_next BP_ASSIGN_WAIT_CONFIRM BP_ASSIGN_AUTHORIZING_START"
| read_sn: "assign_next BP_ASSIGN_AUTHORIZING_START BP_ASSIGN_AUTHORIZING"
| verified: "assign_next BP_ASSIGN_VERIFY_AUTH BP_ASSIGNED"
| reported: "assign_next BP_ASSIGNED BP_ASSIGN_IDLE"
| failed: "s \<notin> {BP_ASSIGN_IDLE, BP_ASSIGNED, BP_ASSIGN_SLAVE_SELECT_CONFIRM, BP_ASSIGN_WAIT_SLAVE_DESELECT}
    \<Longrightarrow> assign_next s BP_ASSIGN_FAILURE"
| deselect: "assign_next BP_ASSIGN_FAILURE BP_ASSIGN_WAIT_SLAVE_DESELECT"
| given_up: "assign_next BP_ASSIGN_WAIT_SLAVE_DESELECT BP_ASSIGN_IDLE"

inductive_simps assign_next_to_assigned: "assign_next s BP_ASSIGNED"
inductive_simps assign_next_to_verify: "assign_next s BP_ASSIGN_VERIFY_AUTH"

lemma recv_follows:
  assumes "au_state (sm_bp_auth_recv_data now can_id d bps a) \<noteq> au_state a"
  shows "assign_next (au_state a) (au_state (sm_bp_auth_recv_data now can_id d bps a))"
  using assms by (auto simp: sm_bp_auth_recv_data_def auth_arm_def split: option.splits if_splits
      intro: assign_next.intros)

lemma process_follows:
  assumes "sm_bp_auth_process now ctl a bps co = Inr (r, a', bps', co', cs)" "au_state a' \<noteq> au_state a"
  shows "assign_next (au_state a) (au_state a')"
  using assms
  by (auto simp: sm_bp_auth_process_def auth_verify_def auth_arm_def sm_bp_auth_reset_def Let_def
      split: option.splits BP_ASSIGN_STATE.splits if_splits prod.splits sum.splits
      intro: assign_next.intros)

lemma process_success:
  assumes "sm_bp_auth_process now ctl a bps co = Inr (r, a', bps', co', cs)"
    and "Auth_Event k BP_AUTH_SUCCESS sn soc \<in> set cs"
  shows "au_state a = BP_ASSIGNED \<and> (\<exists>i. au_bp a = Some i \<and> k = m_id (bps ! i))"
  using assms
  by (auto simp: sm_bp_auth_process_def auth_verify_def Let_def
      split: option.splits BP_ASSIGN_STATE.splits if_splits prod.splits sum.splits)

lemma process_bp:
  assumes "sm_bp_auth_process now ctl a bps co = Inr (r, a', bps', co', cs)" "au_state a' \<noteq> BP_ASSIGN_IDLE"
    and "au_bp a \<noteq> None"
  shows "au_bp a' = au_bp a"
  using assms
  by (auto simp: sm_bp_auth_process_def auth_verify_def auth_arm_def sm_bp_auth_reset_def Let_def
      split: option.splits BP_ASSIGN_STATE.splits if_splits prod.splits sum.splits)

lemma sm_bp_auth_process_none: "au_bp a = None \<Longrightarrow> sm_bp_auth_process now ctl a bps co = Inr (-1, a, bps, co, [])"
  by (simp add: sm_bp_auth_process_def)

lemma recv_bp: "au_bp (sm_bp_auth_recv_data now can_id d bps a) = au_bp a"
  by (auto simp: sm_bp_auth_recv_data_def auth_arm_def split: option.splits)

lemma on_cmd_bp: "au_bp (sm_bp_on_auth_cmd now k cmd ok bps a) = au_bp a"
  by (auto simp: sm_bp_on_auth_cmd_def auth_arm_def split: option.splits)

text \<open>
  Pack \<open>i\<close> is verified or about to be reported; a read has ended with a callback that carries the id of pack \<open>i\<close>. This id is the one in
  the command of the module when the read ends, which need not be that of the pack that was read
  (see \<^verbatim>\<open>restart_authenticates_another_pack\<close>).
\<close>

definition read_done :: "nat \<Rightarrow> auth_sys \<Rightarrow> bool" where
  "read_done i = (\<lambda>(a, bps, co). au_bp a = Some i \<and> au_state a \<in> {BP_ASSIGN_VERIFY_AUTH, BP_ASSIGNED})"

definition answer_for :: "nat \<Rightarrow> auth_event \<Rightarrow> bool" where
  "answer_for i e = (case e of Sn_Done _ k ok _ \<Rightarrow> ok \<and> (k = int i \<or> k = -1) | _ \<Rightarrow> False)"

definition starts :: "auth_event \<Rightarrow> bool" where
  "starts e = (case e of Start _ _ _ \<Rightarrow> True | Start_First _ _ \<Rightarrow> True | _ \<Rightarrow> False)"

lemma start_not_done:
  "sm_bp_auth_start_auth now ctl k a bps = (r, a', bps', cs) \<Longrightarrow> \<not> read_done i (a', bps', co)"
  "sm_bp_auth_first_bp_auth now k a bps = (r, a', bps', cs) \<Longrightarrow> \<not> read_done i (a', bps', co)"
  by (auto simp: read_done_def sm_bp_auth_start_auth_def sm_bp_auth_first_bp_auth_def Let_def
      sm_bp_auth_reset_def auth_arm_def split: prod.splits if_splits)

lemma auth_step_reads:
  assumes ok: "auth_ok s" and step: "auth_step s e = Inr (s', cs)" and dn: "read_done i s'"
  shows "answer_for i e \<or> \<not> starts e \<and> read_done i s"
proof -
  obtain a bps co where s: "s = (a, bps, co)" by (cases s)
  obtain a' bps' co' where s': "s' = (a', bps', co')" by (cases s')
  have bp': "au_bp a' = Some i" and st': "au_state a' \<in> {BP_ASSIGN_VERIFY_AUTH, BP_ASSIGNED}"
    using dn by (simp_all add: read_done_def s')
  show ?thesis
  proof (cases e)
    case (Tick now ctl)
    then obtain r where p: "sm_bp_auth_process now ctl a bps co = Inr (r, a', bps', co', cs)"
      using step by (cases "sm_bp_auth_process now ctl a bps co") (auto simp: s s')
    have "au_bp a \<noteq> None" using p bp' by (cases "au_bp a") (simp_all add: sm_bp_auth_process_none)
    then have "au_bp a = Some i" using process_bp [OF p] st' bp' by auto
    moreover have "au_state a \<in> {BP_ASSIGN_VERIFY_AUTH, BP_ASSIGNED}"
      using process_follows [OF p] st'
      by (cases "au_state a' = au_state a") (auto simp: assign_next_to_assigned assign_next_to_verify)
    ultimately show ?thesis by (simp add: Tick starts_def read_done_def s)
  next
    case (Frame now can_id d)
    then have a': "a' = sm_bp_auth_recv_data now can_id d bps a" using step by (auto simp: s s')
    have "au_state a \<in> {BP_ASSIGN_VERIFY_AUTH, BP_ASSIGNED}"
      using recv_follows [of now can_id d bps a] st'
      by (cases "au_state a' = au_state a") (auto simp: a' assign_next_to_assigned assign_next_to_verify)
    then show ?thesis using bp' by (simp add: Frame starts_def read_done_def s a' recv_bp)
  next
    case (Sn_Done now k ok raw)
    then have a': "a' = sm_bp_on_auth_cmd now k BP_CMD_READ_SN ok bps (a\<lparr>au_data := overwrite raw (au_data a)\<rparr>)"
      using step by (auto simp: s s')
    have bp: "au_bp a = Some i" using bp' by (simp add: a' on_cmd_bp)
    then have "m_id (bps ! i) = int i" using ok by (auto simp: s auth_ok_def bps_ok_id)
    then show ?thesis
      using bp st' by (auto simp: Sn_Done a' answer_for_def starts_def read_done_def s sm_bp_on_auth_cmd_def
          split: if_splits)
  next
    case (Start now ctl k)
    then show ?thesis using step dn start_not_done(1)
      by (fastforce simp: s split: if_splits prod.splits)
  next
    case (Start_First now k)
    then show ?thesis using step dn start_not_done(2)
      by (fastforce simp: s split: if_splits prod.splits)
  next
    case (Pdo now j cob d)
    then show ?thesis using step dn by (auto simp: s starts_def read_done_def)
  qed
qed

lemma auth_run_ok:
  "auth_run s es = Inr (s', cs) \<Longrightarrow> auth_ok s \<Longrightarrow> list_all fits es \<Longrightarrow> auth_ok s'"
proof (induction es arbitrary: s' cs rule: rev_induct)
  case (snoc e es)
  from auth_run_snoc_Inr [OF snoc.prems(1)] obtain s1 cs1 cs2
    where r: "auth_run s es = Inr (s1, cs1)" and st: "auth_step s1 e = Inr (s', cs2)" .
  show ?case using auth_step_ok [OF snoc.IH [OF r] _ st] snoc.prems by simp
qed simp

lemma auth_run_reads:
  assumes "auth_run s es = Inr (s', cs)" "auth_ok s" "list_all fits es" "read_done i s'" "\<not> read_done i s"
  shows "\<exists>es1 e es2. es = es1 @ e # es2 \<and> answer_for i e \<and> (\<forall>x \<in> set es2. \<not> starts x)"
  using assms
proof (induction es arbitrary: s' cs rule: rev_induct)
  case (snoc e es)
  from auth_run_snoc_Inr [OF snoc.prems(1)] obtain s1 cs1 cs2
    where r: "auth_run s es = Inr (s1, cs1)" and st: "auth_step s1 e = Inr (s', cs2)" .
  have ok: "auth_ok s1" using auth_run_ok [OF r] snoc.prems by simp
  from auth_step_reads [OF ok st snoc.prems(4)] show ?case
  proof
    assume "answer_for i e" then show ?thesis by fastforce
  next
    assume e: "\<not> starts e \<and> read_done i s1"
    obtain es1 x es2 where "es = es1 @ x # es2" "answer_for i x" "\<forall>y \<in> set es2. \<not> starts y"
      using snoc.IH [OF r] snoc.prems e by auto
    then have "es @ [e] = es1 @ x # (es2 @ [e])" "\<forall>y \<in> set (es2 @ [e]). \<not> starts y" using e by auto
    then show ?thesis using \<open>answer_for i x\<close> by blast
  qed
qed simp

lemma auth_step_success:
  assumes "auth_ok s" "auth_step s e = Inr (s', cs)" "Auth_Event k BP_AUTH_SUCCESS sn soc \<in> set cs"
  shows "\<exists>i now ctl. e = Tick now ctl \<and> k = int i \<and> read_done i s"
proof -
  obtain a bps co where s: "s = (a, bps, co)" by (cases s)
  have start: "Auth_Event k BP_AUTH_SUCCESS sn soc \<notin> set c" if "auth_give_up now a bps = (b, c)" for now b c
    using that by (auto simp: auth_give_up_def split: option.splits)
  show ?thesis
  proof (cases e)
    case (Tick now ctl)
    then obtain r a' bps' co' where p: "sm_bp_auth_process now ctl a bps co = Inr (r, a', bps', co', cs)"
      using assms(2) by (cases "sm_bp_auth_process now ctl a bps co") (auto simp: s)
    from process_success [OF p assms(3)] obtain i where
      i: "au_state a = BP_ASSIGNED" "au_bp a = Some i" "k = m_id (bps ! i)" by blast
    moreover have "m_id (bps ! i) = int i" using assms(1) i by (auto simp: s auth_ok_def bps_ok_id)
    ultimately show ?thesis by (simp add: Tick read_done_def s)
  qed (use assms(2,3) in \<open>auto simp: s sm_bp_auth_start_auth_def sm_bp_auth_first_bp_auth_def
      Let_def split: if_splits prod.splits dest: start\<close>)
qed

lemma auth_run_success:
  assumes "auth_run s es = Inr (s', cs)" "auth_ok s" "list_all fits es" "\<And>i. \<not> read_done i s"
    and "Auth_Event k BP_AUTH_SUCCESS sn soc \<in> set cs"
  shows "\<exists>i es1 e es2 now ctl es3. k = int i \<and> es = es1 @ e # es2 @ Tick now ctl # es3
           \<and> answer_for i e \<and> (\<forall>x \<in> set es2. \<not> starts x)"
  using assms
proof (induction es arbitrary: s' cs rule: rev_induct)
  case (snoc e es)
  from auth_run_snoc_Inr [OF snoc.prems(1)] obtain s1 cs1 cs2
    where r: "auth_run s es = Inr (s1, cs1)" and st: "auth_step s1 e = Inr (s', cs2)" and cs: "cs = cs1 @ cs2" .
  have fit: "list_all fits es" using snoc.prems(3) by simp
  have ok: "auth_ok s1" by (rule auth_run_ok [OF r snoc.prems(2) fit])
  show ?case
  proof (cases "Auth_Event k BP_AUTH_SUCCESS sn soc \<in> set cs1")
    case True
    then obtain i es1 x es2 now ctl es3 where "k = int i" "es = es1 @ x # es2 @ Tick now ctl # es3"
      "answer_for i x" "\<forall>y \<in> set es2. \<not> starts y"
      using snoc.IH [OF r snoc.prems(2) fit snoc.prems(4)] by blast
    moreover from this have "es @ [e] = es1 @ x # es2 @ Tick now ctl # (es3 @ [e])" by simp
    ultimately show ?thesis by blast
  next
    case False
    then have "Auth_Event k BP_AUTH_SUCCESS sn soc \<in> set cs2" using snoc.prems(5) cs by simp
    from auth_step_success [OF ok st this] obtain i now ctl
      where i: "e = Tick now ctl" "k = int i" "read_done i s1" by blast
    from auth_run_reads [OF r snoc.prems(2) fit i(3) snoc.prems(4)]
    obtain es1 x es2 where "es = es1 @ x # es2" "answer_for i x" "\<forall>y \<in> set es2. \<not> starts y" by blast
    moreover from this have "es @ [e] = es1 @ x # es2 @ Tick now ctl # []" using i(1) by simp
    ultimately show ?thesis using i(2) by blast
  qed
qed simp

text \<open>A pack is reported as authenticated only in a periodic step that comes after the successful end of some serial-number read
  whose callback carries the id of this pack, with no new assignment started in between.\<close>

lemma auth_needs_serial:
  assumes "auth_ok (a, bps, co)" "au_bp a = None" "list_all fits es"
    and "auth_run (a, bps, co) es = Inr (s', cs)" "Auth_Event k BP_AUTH_SUCCESS sn soc \<in> set cs"
  shows "\<exists>i es1 e es2 now ctl es3. k = int i \<and> es = es1 @ e # es2 @ Tick now ctl # es3
           \<and> answer_for i e \<and> (\<forall>x \<in> set es2. \<not> starts x)"
  using assms by (intro auth_run_success [of "(a, bps, co)"]) (simp_all add: read_done_def)

section \<open>The handshake succeeds\<close>

definition ctl_ok :: "node_id_ctl \<Rightarrow> bool" where
  "ctl_ok c \<longleftrightarrow> (\<forall>k. 0 \<le> node_id_select c k \<and> 0 \<le> node_id_deselect c k)"

text \<open>The events of one undisturbed assignment of pack \<open>k\<close>, at the times \<open>t0\<close> to \<open>t9\<close>.\<close>

definition handshake :: "node_id_ctl \<Rightarrow> nat \<Rightarrow> (nat \<Rightarrow> u8) \<Rightarrow> u8 list
    \<Rightarrow> int \<Rightarrow> int \<Rightarrow> int \<Rightarrow> int \<Rightarrow> int \<Rightarrow> int \<Rightarrow> int \<Rightarrow> int \<Rightarrow> int \<Rightarrow> int \<Rightarrow> auth_event list" where
  "handshake c k d raw t0 t1 t2 t3 t4 t5 t6 t7 t8 t9 =
     [Start t0 c k, Frame t1 0x70 d, Tick t2 c, Frame t3 0x70 d, Tick t4 c, Frame t5 0x70 d,
      Tick t6 c, Sn_Done t7 (int k) True raw, Tick t8 c, Tick t9 c]"

lemma ctl_okD: "ctl_ok c \<Longrightarrow> \<not> node_id_select c k < 0" "ctl_ok c \<Longrightarrow> \<not> node_id_deselect c k < 0"
  by (simp_all add: ctl_ok_def not_less)

lemma co_set_cmd_auth:
  "sm_bp_co_set_cmd Auth_Slot (auth_cmd a :: unit sm_bp_cmd) co =
     (0, co\<lparr>co_cmd := Some Auth_Slot\<rparr>,
      [sdo_client_receive BMS_INDEX 0 (au_cmd_id a + 5) Auth_Buf BP_DEVICE_SN_SIZE SDO_OBJ_TIMEOUT_MS])"
  by (simp add: sm_bp_co_set_cmd_def co_request_def auth_cmd_def sm_bp_co_read_sn_def bp_node_def)

lemma auth_create_none: "au_bp (sm_bp_auth_create a) = None" "au_state (sm_bp_auth_create a) = BP_ASSIGN_IDLE"
  by (simp_all add: sm_bp_auth_create_def)

lemma auth_handshake_run:
  assumes bps: "bps_ok bps" "k < SM_BP_NUMBER_DEFAULT" and a: "au_bp a = None" "au_cb a"
    and c: "ctl_ok c" and d: "uint (d 0) = int k + 5"
    and t: "t1 + 50 \<le> t2" "t5 + 50 \<le> t6" "t8 < t7 + 3000"
    and sn: "store_sn (overwrite raw (au_data a)) (bp_sn (m_data (bps ! k))) = Inr sn"
    and soc: "0 \<le> bp_soc (m_data (bps ! k))"
  shows "\<exists>a' bps' co' cs. auth_run (a, bps, co) (handshake c k d raw t0 t1 t2 t3 t4 t5 t6 t7 t8 t9)
        = Inr ((a', bps', co'), cs)
      \<and> au_bp a' = None \<and> au_state a' = BP_ASSIGN_IDLE \<and> bp_sn (m_data (bps' ! k)) = sn
      \<and> cs = [Node_Select (int k), Node_Deselect (int k), Assign_Frame [], Assign_Frame [d 0], Node_Select (int k),
          Sdo_Request (sdo_client_receive BMS_INDEX 0 (int k + 5) Auth_Buf BP_DEVICE_SN_SIZE SDO_OBJ_TIMEOUT_MS),
          Auth_Event (int k) BP_AUTH_SUCCESS (Some sn) (bp_soc (m_data (bps ! k)))]"
proof -
  have id: "m_id (bps ! k) = int k" using bps by (rule bps_ok_id)
  have len: "length bps = 3" using bps(1) by (rule bps_ok_length)
  have d0: "word_of_nat k + 5 = d 0" using word_of_int_uint [of "d 0"] unfolding d by simp
  show ?thesis
    using assms(2,3,4) t sn soc d ctl_okD [OF c]
    by (simp add: handshake_def sm_bp_auth_start_auth_def auth_give_up_def sm_bp_auth_reset_def auth_arm_def
        Let_def id len sm_bp_auth_recv_data_def sm_bp_auth_process_def timed_out_resetz co_set_cmd_auth
        sm_bp_on_auth_cmd_def auth_verify_def d0)
qed

text \<open>C19. An undisturbed assignment succeeds: the pack's request frame, the master's two
  answers, the confirmation with the node id and the serial-number read, within their deadlines,
  end with exactly one success report, which carries the reversed serial number that is now stored
  in the pack, and with an idle module; the frames, id-line operations and the SDO read are
  exactly those listed.\<close>

theorem auth_handshake:
  assumes "bps_ok bps" "k < SM_BP_NUMBER_DEFAULT" "au_bp a = None" "au_cb a" "ctl_ok c"
    and "uint (d 0) = int k + 5" "t1 + 50 \<le> t2" "t5 + 50 \<le> t6" "t8 < t7 + 3000"
    and "list_all sn_char s" "s \<noteq> []" "length s < BP_DEVICE_SN_SIZE" "0 \<le> bp_soc (m_data (bps ! k))"
  shows "\<exists>a' bps' co' cs sn.
        auth_run (a, bps, co) (handshake c k d (s @ [0]) t0 t1 t2 t3 t4 t5 t6 t7 t8 t9) = Inr ((a', bps', co'), cs)
      \<and> au_bp a' = None \<and> au_state a' = BP_ASSIGN_IDLE
      \<and> sn = overwrite (rev s @ [0]) (bp_sn (m_data (bps ! k))) \<and> bp_sn (m_data (bps' ! k)) = sn
      \<and> cs = [Node_Select (int k), Node_Deselect (int k), Assign_Frame [], Assign_Frame [d 0], Node_Select (int k),
          Sdo_Request (sdo_client_receive BMS_INDEX 0 (int k + 5) Auth_Buf BP_DEVICE_SN_SIZE SDO_OBJ_TIMEOUT_MS),
          Auth_Event (int k) BP_AUTH_SUCCESS (Some sn) (bp_soc (m_data (bps ! k)))]"
proof -
  have "length (bp_sn (m_data (bps ! k))) = 32"
    using bps_ok_nth [OF assms(1,2)] by (simp add: bp_ok_def bp_data_ok_def)
  from store_sn_ok [OF assms(10) this assms(11,12) sn_char_0]
  have "store_sn (overwrite (s @ [0]) (au_data a)) (bp_sn (m_data (bps ! k)))
      = Inr (overwrite (rev s @ [0]) (bp_sn (m_data (bps ! k))))"
    by (simp add: overwrite_def)
  from auth_handshake_run [where d = d, OF assms(1-9) this assms(13)] show ?thesis by blast
qed

definition auth_default :: sm_bp_auth where
  "auth_default = sm_bp_auth_create
     \<lparr>au_bp = None, au_state = BP_ASSIGN_IDLE, au_timeout = \<lparr>m_duration = 0, m_start_time = 0\<rparr>,
      au_retry = 0, au_assign_numbs = 0, au_cmd_id = -1, au_data = replicate 32 0, au_cb = True\<rparr>"

definition co_default :: sm_bp_co where
  "co_default = \<lparr>co_sync = True, co_bp_numb = 3, co_update_data_cb = True, co_finish_cmd_cb = True,
     co_cmd = None, co_cmd_temp = replicate 8 0\<rparr>"

definition ctl_default :: node_id_ctl where
  "ctl_default = \<lparr>node_id_select = (\<lambda>_. 0), node_id_deselect = (\<lambda>_. 0)\<rparr>"

definition bps_soc :: "sm_bp list" where
  "bps_soc = map (\<lambda>i. (bp_default i)\<lparr>m_data := (m_data (bp_default i))\<lparr>bp_soc := 80\<rparr>\<rparr>) [0..<3]"

lemma bps_soc_ok: "bps_ok bps_soc"
  by (simp add: bps_soc_def bps_ok_def bp_ok_def bp_default_def bp_data_ok_def bp_data_zero_def bp_measured_def)

lemma auth_default_ok: "auth_ok (auth_default, bps_soc, co_default)"
  by (simp add: auth_ok_def bps_soc_ok auth_default_def sm_bp_auth_create_def)

lemma auth_handshake_witness:
  "\<exists>a' bps' co' cs. auth_run (auth_default, bps_soc, co_default)
      (handshake ctl_default 1 (\<lambda>_. 6) [0x41, 0x42, 0] 0 10 60 70 80 90 140 150 200 210) = Inr ((a', bps', co'), cs)
    \<and> last cs = Auth_Event 1 BP_AUTH_SUCCESS (Some (0x42 # 0x41 # 0 # replicate 29 0)) 80"
proof -
  have "\<exists>a' bps' co' cs sn. auth_run (auth_default, bps_soc, co_default)
      (handshake ctl_default 1 (\<lambda>_. 6) ([0x41, 0x42] @ [0]) 0 10 60 70 80 90 140 150 200 210) = Inr ((a', bps', co'), cs)
    \<and> au_bp a' = None \<and> au_state a' = BP_ASSIGN_IDLE
    \<and> sn = overwrite (rev [0x41, 0x42] @ [0]) (bp_sn (m_data (bps_soc ! 1))) \<and> bp_sn (m_data (bps' ! 1)) = sn
    \<and> cs = [Node_Select (int 1), Node_Deselect (int 1), Assign_Frame [], Assign_Frame [6], Node_Select (int 1),
          Sdo_Request (sdo_client_receive BMS_INDEX 0 (int 1 + 5) Auth_Buf BP_DEVICE_SN_SIZE SDO_OBJ_TIMEOUT_MS),
          Auth_Event (int 1) BP_AUTH_SUCCESS (Some sn) (bp_soc (m_data (bps_soc ! 1)))]"
    by (rule auth_handshake)
       (simp_all add: bps_soc_ok auth_default_def sm_bp_auth_create_def ctl_ok_def ctl_default_def
          sn_char_def, simp add: bps_soc_def)
  moreover have "bp_soc (m_data (bps_soc ! 1)) = 80" "bp_sn (m_data (bps_soc ! 1)) = replicate 32 0"
    by (simp_all add: bps_soc_def bp_default_def bp_data_zero_def)
  ultimately show ?thesis by (auto simp: overwrite_def)
qed

section \<open>A restart during the read\<close>

lemma handshake_to_read:
  assumes bps: "bps_ok bps" "j < SM_BP_NUMBER_DEFAULT" and a: "au_bp a = None" and c: "ctl_ok c" and d: "uint (d 0) = int j + 5"
    and t: "t1 + 50 \<le> t2" "t5 + 50 \<le> t6"
  shows "\<exists>a1 co1. auth_run (a, bps, co) (take 7 (handshake c j d raw t0 t1 t2 t3 t4 t5 t6 t7 t8 t9)) = Inr ((a1, bps, co1),
        [Node_Select (int j), Node_Deselect (int j), Assign_Frame [], Assign_Frame [d 0], Node_Select (int j),
          Sdo_Request (sdo_client_receive BMS_INDEX 0 (int j + 5) Auth_Buf BP_DEVICE_SN_SIZE SDO_OBJ_TIMEOUT_MS)])
      \<and> au_bp a1 = Some j \<and> au_state a1 = BP_ASSIGN_AUTHORIZING \<and> co_cmd co1 = Some Auth_Slot \<and> au_cb a1 = au_cb a \<and> au_data a1 = au_data a"
proof -
  have id: "m_id (bps ! j) = int j" using bps by (rule bps_ok_id)
  have len: "length bps = 3" using bps(1) by (rule bps_ok_length)
  have d0: "word_of_nat j + 5 = d 0" using word_of_int_uint [of "d 0"] unfolding d by simp
  show ?thesis
    using assms(2,3) t d ctl_okD [OF c]
    by (simp add: handshake_def sm_bp_auth_start_auth_def auth_give_up_def sm_bp_auth_reset_def auth_arm_def
        Let_def id len sm_bp_auth_recv_data_def sm_bp_auth_process_def timed_out_resetz co_set_cmd_auth d0)
qed

lemma restart_and_answer:
  assumes bps: "bps_ok bps" "j < SM_BP_NUMBER_DEFAULT" "k < SM_BP_NUMBER_DEFAULT" "j \<noteq> k" and a: "au_bp a = Some j" "au_cb a" and c: "ctl_ok c"
    and t: "t9 < t8 + 3000"
    and sn: "store_sn (overwrite raw (au_data a)) (bp_sn (m_data (bps ! k))) = Inr sn" and soc: "0 \<le> bp_soc (m_data (bps ! k))"
  shows "\<exists>a2 bps2 s3. auth_step (a, bps, co) (Start t7 c k) = Inr ((a2, bps2, co), [Node_Deselect (int j), Node_Select (int k)])
    \<and> au_bp a2 = Some k \<and> auth_run (a2, bps2, co) [Sn_Done t8 (cmd_id (auth_cmd a2 :: unit sm_bp_cmd)) True raw, Tick t9 c, Tick t10 c]
      = Inr (s3, [Auth_Event (int k) BP_AUTH_SUCCESS (Some sn) (bp_soc (m_data (bps ! k)))])"
proof -
  have id: "m_id (bps ! j) = int j" "m_id (bps ! k) = int k" using bps bps_ok_id by blast+
  have len: "length bps = 3" using bps(1) by (rule bps_ok_length)
  show ?thesis
    using bps(2-4) a t sn soc ctl_okD [OF c]
    by (simp add: sm_bp_auth_start_auth_def auth_give_up_def sm_bp_auth_reset_def auth_arm_def auth_cmd_def
        Let_def id len sm_bp_auth_process_def timed_out_resetz sm_bp_on_auth_cmd_def auth_verify_def)
qed

text \<open>C30. A pack whose serial number was never read is authenticated with the serial number of
  another one. Pack \<open>j\<close> is assigned as far as the read of its serial number from node \<open>j + 5\<close>; before the answer comes, the assignment of
  pack \<open>k\<close> is started. The read is not cancelled, and its command is the one that now has the id of pack \<open>k\<close>: the callback is called with
  that id and accepted, whatever the state of the assignment is, and two steps later pack \<open>k\<close> is reported as authenticated, under the
  serial number that pack \<open>j\<close> has sent. No request to pack \<open>k\<close> was made. (The charge of pack \<open>k\<close> must be known.)\<close>

theorem restart_authenticates_another_pack:
  assumes "bps_ok bps" "j < SM_BP_NUMBER_DEFAULT" "k < SM_BP_NUMBER_DEFAULT" "j \<noteq> k" "au_bp a = None" "au_cb a" "ctl_ok c"
    and "uint (d 0) = int j + 5" "t1 + 50 \<le> t2" "t5 + 50 \<le> t6" "t9 < t8 + 3000"
    and "list_all sn_char s" "s \<noteq> []" "length s < BP_DEVICE_SN_SIZE" "0 \<le> bp_soc (m_data (bps ! k))"
  shows "\<exists>a1 co1 a2 bps2 s3.
      auth_run (a, bps, co) [Start t0 c j, Frame t1 0x70 d, Tick t2 c, Frame t3 0x70 d, Tick t4 c, Frame t5 0x70 d, Tick t6 c] = Inr ((a1, bps, co1),
        [Node_Select (int j), Node_Deselect (int j), Assign_Frame [], Assign_Frame [d 0], Node_Select (int j),
          Sdo_Request (sdo_client_receive BMS_INDEX 0 (int j + 5) Auth_Buf BP_DEVICE_SN_SIZE SDO_OBJ_TIMEOUT_MS)])
    \<and> auth_step (a1, bps, co1) (Start t7 c k) = Inr ((a2, bps2, co1), [Node_Deselect (int j), Node_Select (int k)])
    \<and> co_cmd co1 = Some Auth_Slot
    \<and> auth_run (a2, bps2, co1) [Sn_Done t8 (cmd_id (auth_cmd a2 :: unit sm_bp_cmd)) True (s @ [0]), Tick t9 c, Tick t10 c]
      = Inr (s3, [Auth_Event (int k) BP_AUTH_SUCCESS (Some (overwrite (rev s @ [0]) (bp_sn (m_data (bps ! k))))) (bp_soc (m_data (bps ! k)))])"
proof -
  obtain a1 co1 where r: "auth_run (a, bps, co) (take 7 (handshake c j d [] t0 t1 t2 t3 t4 t5 t6 0 0 0)) = Inr ((a1, bps, co1),
        [Node_Select (int j), Node_Deselect (int j), Assign_Frame [], Assign_Frame [d 0], Node_Select (int j),
          Sdo_Request (sdo_client_receive BMS_INDEX 0 (int j + 5) Auth_Buf BP_DEVICE_SN_SIZE SDO_OBJ_TIMEOUT_MS)])"
      "au_bp a1 = Some j" "co_cmd co1 = Some Auth_Slot" "au_cb a1" "au_data a1 = au_data a"
    using handshake_to_read [where d = d, OF assms(1,2,5,7,8,9,10)] assms(6) by blast
  have "take 7 (handshake c j d [] t0 t1 t2 t3 t4 t5 t6 0 0 0) =
      [Start t0 c j, Frame t1 0x70 d, Tick t2 c, Frame t3 0x70 d, Tick t4 c, Frame t5 0x70 d, Tick t6 c]"
    by (simp add: handshake_def)
  note r1 = r(1) [unfolded this]
  have "length (bp_sn (m_data (bps ! k))) = 32"
    using bps_ok_nth [OF assms(1,3)] by (simp add: bp_ok_def bp_data_ok_def)
  from store_sn_ok [OF assms(12) this assms(13,14) sn_char_0]
  have "store_sn (overwrite (s @ [0]) (au_data a1)) (bp_sn (m_data (bps ! k)))
      = Inr (overwrite (rev s @ [0]) (bp_sn (m_data (bps ! k))))"
    by (simp add: overwrite_def)
  from restart_and_answer [OF assms(1-4) r(2,4) assms(7,11) this assms(15), of co1 t7 t10] r1 r(3) show ?thesis by blast
qed

lemma restart_authenticates_another_pack_witness:
  "\<exists>a1 co1 a2 bps2 s3 cs1.
      auth_run (auth_default, bps_soc, co_default) [Start 0 ctl_default 0, Frame 10 0x70 (\<lambda>_. 5), Tick 60 ctl_default,
        Frame 70 0x70 (\<lambda>_. 5), Tick 80 ctl_default, Frame 90 0x70 (\<lambda>_. 5), Tick 140 ctl_default] = Inr ((a1, bps_soc, co1), cs1)
    \<and> auth_step (a1, bps_soc, co1) (Start 145 ctl_default 1) = Inr ((a2, bps2, co1), [Node_Deselect 0, Node_Select 1])
    \<and> auth_run (a2, bps2, co1) [Sn_Done 150 (cmd_id (auth_cmd a2 :: unit sm_bp_cmd)) True [0x41, 0x42, 0], Tick 200 ctl_default,
        Tick 210 ctl_default] = Inr (s3, [Auth_Event 1 BP_AUTH_SUCCESS (Some (0x42 # 0x41 # 0 # replicate 29 0)) 80])"
proof -
  have d: "au_bp auth_default = None" "au_cb auth_default" by (simp_all add: auth_default_def sm_bp_auth_create_def)
  have b: "bp_soc (m_data (bps_soc ! 1)) = 80" "bp_sn (m_data (bps_soc ! 1)) = replicate 32 0"
    by (simp_all add: bps_soc_def bp_default_def bp_data_zero_def)
  have c: "ctl_ok ctl_default" by (simp add: ctl_ok_def ctl_default_def)
  have s: "list_all sn_char [0x41, 0x42]" by (simp add: sn_char_def)
  show ?thesis
    using restart_authenticates_another_pack [of bps_soc 0 1 auth_default ctl_default "\<lambda>_. 5" 10 60 90 140 200 150 "[0x41, 0x42]"
        co_default 0 70 80 145 210] bps_soc_ok d c s b
    by (auto simp: overwrite_def)
qed

section \<open>A failed assignment\<close>

text \<open>The states in which the module waits for the pack.\<close>

definition waiting :: "BP_ASSIGN_STATE \<Rightarrow> bool" where
  "waiting s \<longleftrightarrow> s \<in> {BP_ASSIGN_WAIT_REQUEST, BP_ASSIGN_SLAVE_SELECT, BP_ASSIGN_WAIT_CONFIRM,
     BP_ASSIGN_AUTHORIZING, BP_ASSIGN_VERIFY_AUTH}"

text \<open> A pack that does not answer is given up at the first step after its
  deadline; the step after the three-second wait for its id line then dereferences the pointer that
  \<^verbatim>\<open>sm_bp_auth_reset\<close> has just cleared, so no failure is ever reported.\<close>

theorem auth_failure_faults:
  assumes "au_bp a = Some i" "waiting (au_state a)" "au_cb a" "ctl_ok c"
    and "timed_out t1 (au_timeout a)" "t2 + 3000 \<le> t3"
  shows "auth_run (a, bps, co) [Tick t1 c, Tick t2 c, Tick t3 c] = Inl Null_Deref"
  using assms ctl_okD [OF assms(4)]
  by (auto simp: waiting_def sm_bp_auth_process_def auth_verify_def auth_arm_def Let_def timed_out_resetz)

lemma auth_failure_faults_witness:
  "auth_run (auth_default\<lparr>au_bp := Some 0, au_state := BP_ASSIGN_WAIT_REQUEST\<rparr>, bps_soc, co_default)
     [Tick 500 ctl_default, Tick 510 ctl_default, Tick 3510 ctl_default] = Inl Null_Deref"
  by (rule auth_failure_faults)
     (simp_all add: auth_default_def sm_bp_auth_create_def waiting_def ctl_ok_def ctl_default_def timed_out_iff)

lemma auth_needs_serial_witness:
  "\<exists>s' cs. auth_run (auth_default, bps_soc, co_default)
      (handshake ctl_default 1 (\<lambda>_. 6) [0x41, 0x42, 0] 0 10 60 70 80 90 140 150 200 210) = Inr (s', cs)
    \<and> (\<exists>i es1 e es2 now ctl es3. (1 :: int) = int i
        \<and> handshake ctl_default 1 (\<lambda>_. 6) [0x41, 0x42, 0] 0 10 60 70 80 90 140 150 200 210
            = es1 @ e # es2 @ Tick now ctl # es3 \<and> answer_for i e \<and> (\<forall>x \<in> set es2. \<not> starts x))"
proof -
  have "\<exists>a' bps' co' cs. auth_run (auth_default, bps_soc, co_default)
      (handshake ctl_default 1 (\<lambda>_. 6) ([0x41, 0x42, 0]) 0 10 60 70 80 90 140 150 200 210) = Inr ((a', bps', co'), cs)
    \<and> (\<exists>sn soc. Auth_Event 1 BP_AUTH_SUCCESS sn soc \<in> set cs)"
  proof -
    have "store_sn (overwrite [0x41, 0x42, 0] (au_data auth_default)) (bp_sn (m_data (bps_soc ! 1)))
        = Inr (overwrite (rev [0x41, 0x42] @ [0]) (bp_sn (m_data (bps_soc ! 1))))"
      using store_sn_ok [of "[0x41, 0x42]" "bp_sn (m_data (bps_soc ! 1))" 0 "replicate 29 0"]
      by (simp add: sn_char_def bps_soc_def bp_default_def bp_data_zero_def auth_default_def
          sm_bp_auth_create_def overwrite_def)
    from auth_handshake_run [where d = "\<lambda>_. 6" and c = ctl_default and ?t1.0 = 10 and ?t2.0 = 60
        and ?t5.0 = 90 and ?t6.0 = 140 and ?t7.0 = 150 and ?t8.0 = 200 and ?t0.0 = 0 and ?t3.0 = 70 and ?t4.0 = 80
        and ?t9.0 = 210 and co = co_default, OF bps_soc_ok _ _ _ _ _ _ _ _ this]
    show ?thesis
      by (auto simp: auth_default_def sm_bp_auth_create_def ctl_ok_def ctl_default_def bps_soc_def)
  qed
  then obtain a' bps' co' cs sn soc where r: "auth_run (auth_default, bps_soc, co_default)
      (handshake ctl_default 1 (\<lambda>_. 6) ([0x41, 0x42, 0]) 0 10 60 70 80 90 140 150 200 210) = Inr ((a', bps', co'), cs)"
    and e: "Auth_Event 1 BP_AUTH_SUCCESS sn soc \<in> set cs" by blast
  have n: "au_bp auth_default = None" by (simp add: auth_default_def sm_bp_auth_create_def)
  show ?thesis
    using r auth_needs_serial [OF auth_default_ok n _ r e] by (simp add: handshake_def fits_def)
qed

end
