(* ===== verification/Bp_Retain.thy ===== *)
theory Bp_Retain
  imports Bp_Types
begin

text \<open>
  \<^verbatim>\<open>services/bp_management/sm_bp_retain.c\<close>: which packs discharge in retain mode, and for how
  long. The object shares the pack array with the service, so its operations take the array and
  return it. The commands it puts into the service's queue through its two callbacks are
  returned as a list of pack index and command, in the order of the calls.
\<close>

section \<open>State\<close>

abbreviation (input) BP_RETAIN_DISCHAR_TIME_MS :: int where "BP_RETAIN_DISCHAR_TIME_MS \<equiv> 600000"

record bp_retain_list =
  rl_timeout :: elapsed_timer
  rl_index :: int

record sm_bp_retain =
  rt_paused :: bool
  rt_numbs :: u8
  rt_list :: "bp_retain_list list"

definition sm_bp_retain_create :: "int \<Rightarrow> sm_bp_retain" where
  "sm_bp_retain_create now =
     \<lparr>rt_paused = False, rt_numbs = 0,
      rt_list = replicate SM_BP_NUMBER_DEFAULT
        \<lparr>rl_timeout = \<lparr>m_duration = BP_RETAIN_DISCHAR_TIME_MS, m_start_time = now\<rparr>, rl_index = -1\<rparr>\<rparr>"

definition sm_bp_retain_pause :: "sm_bp_retain \<Rightarrow> int \<times> sm_bp_retain" where
  "sm_bp_retain_pause r = (1, r\<lparr>rt_paused := True\<rparr>)"

definition sm_bp_retain_resume :: "sm_bp_retain \<Rightarrow> int \<times> sm_bp_retain" where
  "sm_bp_retain_resume r = (0, r\<lparr>rt_paused := False\<rparr>)"

section \<open>The list of active packs\<close>

text \<open>The search of \<^verbatim>\<open>sm_bp_retain_move_bp_to_list\<close> ends one slot before the end of the array.\<close>

definition sm_bp_retain_move_bp_to_list :: "nat \<Rightarrow> bp_retain_list list \<Rightarrow> bp_retain_list list" where
  "sm_bp_retain_move_bp_to_list bp_id l =
     (case find (\<lambda>i. rl_index (l ! i) = -1) [0..<SM_BP_NUMBER_DEFAULT - 1] of
        None \<Rightarrow> l
      | Some i \<Rightarrow> l[i := (l ! i)\<lparr>rl_index := int bp_id\<rparr>])"

definition sm_bp_retain_remove_bp_from_list :: "nat \<Rightarrow> bp_retain_list list \<Rightarrow> bp_retain_list list" where
  "sm_bp_retain_remove_bp_from_list bp_id l =
     (case find (\<lambda>i. rl_index (l ! i) = int bp_id) [0..<SM_BP_NUMBER_DEFAULT] of
        None \<Rightarrow> l
      | Some i \<Rightarrow>
          (let l = l[i := (l ! i)\<lparr>rl_index := -1\<rparr>];
               l = fold (\<lambda>j l. l[j := l ! (j + 1)]) [i..<SM_BP_NUMBER_DEFAULT - 1] l
           in l[SM_BP_NUMBER_DEFAULT - 1 := (l ! (SM_BP_NUMBER_DEFAULT - 1))\<lparr>rl_index := -1\<rparr>]))"

definition sm_bp_retain_get_list_id :: "nat \<Rightarrow> bp_retain_list list \<Rightarrow> nat" where
  "sm_bp_retain_get_list_id bp_id l =
     (case find (\<lambda>i. rl_index (l ! i) = int bp_id) [0..<SM_BP_NUMBER_DEFAULT] of
        None \<Rightarrow> 0 | Some i \<Rightarrow> i)"

section \<open>Counting and expiry\<close>

text \<open>One round of the loop of \<^verbatim>\<open>sm_bp_get_active_retain_numbs\<close>.\<close>

definition retain_round ::
    "int \<Rightarrow> nat \<Rightarrow> bp_retain_list list \<times> sm_bp list \<times> u8 \<Rightarrow> bp_retain_list list \<times> sm_bp list \<times> u8" where
  "retain_round now i = (\<lambda>(l, bps, n).
     (let index = sm_bp_retain_get_list_id i l;
          (l, bps) =
            (if timed_out now (rl_timeout (l ! index)) \<and> m_retain_st (bps ! i) = BP_ACTIVE_RETAIN
             then (sm_bp_retain_remove_bp_from_list i l,
                   bps[i := (bps ! i)\<lparr>m_retain_st := BP_DEACTIVE_RETAIN\<rparr>])
             else (l, bps))
      in (l, bps, if m_retain_st (bps ! i) = BP_ACTIVE_RETAIN then n + 1 else n)))"

definition sm_bp_get_active_retain_numbs ::
    "int \<Rightarrow> sm_bp_retain \<Rightarrow> sm_bp list \<Rightarrow> u8 \<times> sm_bp_retain \<times> sm_bp list" where
  "sm_bp_get_active_retain_numbs now r bps =
     (case fold (retain_round now) [0..<SM_BP_NUMBER_DEFAULT] (rt_list r, bps, 0) of
        (l, bps, n) \<Rightarrow> (n, r\<lparr>rt_list := l, rt_numbs := n\<rparr>, bps))"

definition sm_bp_active_retain ::
    "int \<Rightarrow> sm_bp_retain \<Rightarrow> sm_bp list \<Rightarrow> nat \<Rightarrow> fault + (u8 \<times> sm_bp_retain \<times> sm_bp list)" where
  "sm_bp_active_retain now r bps bp_id =
     (if bp_id \<ge> length bps then Inl Out_Of_Bounds
      else
        (let (r, bps) =
           (if m_retain_st (bps ! bp_id) = BP_ENABLE_RETAIN
            then (r\<lparr>rt_list := sm_bp_retain_move_bp_to_list bp_id (rt_list r)\<rparr>,
                  bps[bp_id := (bps ! bp_id)\<lparr>m_retain_st := BP_ACTIVE_RETAIN,
                       m_data := (m_data (bps ! bp_id))\<lparr>bp_state := BP_ST_RETAIN_DISCHARGE\<rparr>\<rparr>])
            else (r, bps))
         in Inr (sm_bp_get_active_retain_numbs now r bps)))"

definition sm_bp_deactive_retain ::
    "int \<Rightarrow> sm_bp_retain \<Rightarrow> sm_bp list \<Rightarrow> nat \<Rightarrow> fault + (u8 \<times> sm_bp_retain \<times> sm_bp list)" where
  "sm_bp_deactive_retain now r bps bp_id =
     (if bp_id \<ge> length bps then Inl Out_Of_Bounds
      else
        (let (r, bps) =
           (if m_retain_st (bps ! bp_id) = BP_ACTIVE_RETAIN
            then (r\<lparr>rt_list := sm_bp_retain_remove_bp_from_list bp_id (rt_list r)\<rparr>,
                  bps[bp_id := (bps ! bp_id)\<lparr>m_retain_st := BP_NO_SUPPORT_RETAIN\<rparr>])
            else (r, bps))
         in Inr (sm_bp_get_active_retain_numbs now r bps)))"

section \<open>The periodic commands\<close>

definition retain_ids :: "retain_st \<Rightarrow> sm_bp list \<Rightarrow> nat list" where
  "retain_ids st bps =
     filter (\<lambda>bp_id. m_retain_st (bps ! bp_id) = st \<and> bp_state (m_data (bps ! bp_id)) = BP_STATE_DISCHARGING
               \<and> m_is_connected (bps ! bp_id)) [0..<SM_BP_NUMBER_DEFAULT]"

definition sm_bp_enable_retain :: "sm_bp list \<Rightarrow> (nat \<times> SM_BP_CMD) list" where
  "sm_bp_enable_retain bps = map (\<lambda>bp_id. (bp_id, BP_CMD_RETAIN_DISCHARGE)) (retain_ids BP_SUPPORT_RETAIN bps)"

definition sm_bp_disable_retain :: "sm_bp list \<Rightarrow> (nat \<times> SM_BP_CMD) list" where
  "sm_bp_disable_retain bps = map (\<lambda>bp_id. (bp_id, BP_CMD_DISCHARGE)) (retain_ids BP_ENABLE_RETAIN bps)"

definition sm_bp_retain_process ::
    "int \<Rightarrow> sm_bp_retain \<Rightarrow> sm_bp list \<Rightarrow> (nat \<times> SM_BP_CMD) list \<times> u8 \<times> sm_bp_retain \<times> sm_bp list" where
  "sm_bp_retain_process now r bps =
     ((if rt_paused r then sm_bp_disable_retain bps else sm_bp_enable_retain bps),
      sm_bp_get_active_retain_numbs now r bps)"

section \<open>Well-formed lists, and frames\<close>

definition retain_ok :: "sm_bp_retain \<Rightarrow> bool" where
  "retain_ok r \<longleftrightarrow> length (rt_list r) = SM_BP_NUMBER_DEFAULT
     \<and> list_all (\<lambda>e. m_duration (rl_timeout e) = BP_RETAIN_DISCHAR_TIME_MS) (rt_list r)"

lemma retain_create_ok: "retain_ok (sm_bp_retain_create now)"
  by (simp add: retain_ok_def sm_bp_retain_create_def numeral_3_eq_3)

lemma length_3: "length l = 3 \<Longrightarrow> (\<exists>a b c. l = [a, b, c])"
  by (auto simp: numeral_3_eq_3 length_Suc_conv)

lemma upt_0_3: "[0..<3] = [0, 1, 2]"
  by (simp add: upt_rec_numeral upt_rec)

text \<open>The removal, written out for the three slots.\<close>

lemma retain_remove_cases:
  "sm_bp_retain_remove_bp_from_list bp_id [a, b, c] =
     (if rl_index a = int bp_id then [b, c, c\<lparr>rl_index := -1\<rparr>]
      else if rl_index b = int bp_id then [a, c, c\<lparr>rl_index := -1\<rparr>]
      else if rl_index c = int bp_id then [a, b, c\<lparr>rl_index := -1\<rparr>]
      else [a, b, c])"
  by (simp add: sm_bp_retain_remove_bp_from_list_def upt_0_3 upt_rec numeral_2_eq_2 Let_def)

lemma retain_move_cases:
  "sm_bp_retain_move_bp_to_list bp_id [a, b, c] =
     (if rl_index a = -1 then [a\<lparr>rl_index := int bp_id\<rparr>, b, c]
      else if rl_index b = -1 then [a, b\<lparr>rl_index := int bp_id\<rparr>, c]
      else [a, b, c])"
  by (simp add: sm_bp_retain_move_bp_to_list_def upt_rec numeral_2_eq_2)

lemma retain_id_cases:
  "sm_bp_retain_get_list_id bp_id [a, b, c] =
     (if rl_index a = int bp_id then 0 else if rl_index b = int bp_id then 1
      else if rl_index c = int bp_id then 2 else 0)"
  by (simp add: sm_bp_retain_get_list_id_def upt_0_3)

text \<open>What the expiry keeps of a pack: everything but the retain state.\<close>

definition same_but_retain :: "sm_bp \<Rightarrow> sm_bp \<Rightarrow> bool" where
  "same_but_retain bp bp' \<longleftrightarrow>
     m_id bp' = m_id bp \<and> m_data bp' = m_data bp \<and> m_is_connected bp' = m_is_connected bp
     \<and> m_timeout bp' = m_timeout bp \<and> m_data_count bp' = m_data_count bp"

definition bps_same_but_retain :: "sm_bp list \<Rightarrow> sm_bp list \<Rightarrow> bool" where
  "bps_same_but_retain bps bps' \<longleftrightarrow> list_all2 same_but_retain bps bps'"

lemma same_but_retain_refl [simp]: "same_but_retain bp bp"
  by (simp add: same_but_retain_def)

lemma bps_same_refl [simp]: "bps_same_but_retain bps bps"
  by (simp add: bps_same_but_retain_def list_all2_refl)

lemma same_but_retain_trans: "same_but_retain a b \<Longrightarrow> same_but_retain b c \<Longrightarrow> same_but_retain a c"
  by (simp add: same_but_retain_def)

lemma bps_same_trans:
  "bps_same_but_retain a b \<Longrightarrow> bps_same_but_retain b c \<Longrightarrow> bps_same_but_retain a c"
  unfolding bps_same_but_retain_def by (rule list_all2_trans [of same_but_retain same_but_retain])
    (auto intro: same_but_retain_trans)

lemma bps_same_update: "bps_same_but_retain bps (bps[i := (bps ! i)\<lparr>m_retain_st := st\<rparr>])"
proof -
  have "same_but_retain (bps ! j) (bps[i := (bps ! i)\<lparr>m_retain_st := st\<rparr>] ! j)" if "j < length bps" for j
    using that by (cases "j = i") (simp_all add: same_but_retain_def)
  then show ?thesis by (simp add: bps_same_but_retain_def list_all2_conv_all_nth)
qed

lemma retain_round_same:
  "retain_round now i (l, bps, n) = (l', bps', n') \<Longrightarrow> bps_same_but_retain bps bps'"
  by (auto simp: retain_round_def Let_def bps_same_update split: if_splits)

lemma retain_fold_same:
  "fold (retain_round now) is (l, bps, n) = (l', bps', n') \<Longrightarrow> bps_same_but_retain bps bps'"
proof (induction "is" arbitrary: l bps n)
  case (Cons i "is")
  obtain l1 bps1 n1 where r: "retain_round now i (l, bps, n) = (l1, bps1, n1)" by (metis prod_cases3)
  then show ?case using Cons retain_round_same [OF r] by (auto intro: bps_same_trans)
qed simp

lemma retain_numbs_same:
  "sm_bp_get_active_retain_numbs now r bps = (n, r', bps') \<Longrightarrow> bps_same_but_retain bps bps'"
  by (auto simp: sm_bp_get_active_retain_numbs_def split: prod.splits intro: retain_fold_same)

lemma bps_same_ok: "bps_same_but_retain bps bps' \<Longrightarrow> bps_ok bps \<Longrightarrow> bps_ok bps'"
  by (auto simp: bps_same_but_retain_def bps_ok_def list_all2_conv_all_nth bp_ok_def same_but_retain_def)

lemma retain_round_list:
  assumes "length l = 3" "list_all P l" "\<And>e k. P e \<Longrightarrow> P (e\<lparr>rl_index := k\<rparr>)"
    and "retain_round now i (l, bps, n) = (l', bps', n')"
  shows "length l' = 3 \<and> list_all P l'"
proof -
  from length_3 [OF assms(1)] obtain a b c where l: "l = [a, b, c]" by blast
  then have "length (sm_bp_retain_remove_bp_from_list i l) = 3 \<and> list_all P (sm_bp_retain_remove_bp_from_list i l)"
    using assms(2,3) by (simp add: retain_remove_cases)
  then show ?thesis
    using assms by (simp only: retain_round_def Let_def prod.case) (auto split: if_splits)
qed

lemma retain_fold_list:
  assumes "\<And>e k. P e \<Longrightarrow> P (e\<lparr>rl_index := k\<rparr>)"
  shows "length l = 3 \<Longrightarrow> list_all P l \<Longrightarrow> fold (retain_round now) is (l, bps, n) = (l', bps', n')
    \<Longrightarrow> length l' = 3 \<and> list_all P l'"
proof (induction "is" arbitrary: l bps n)
  case (Cons i "is")
  obtain l1 bps1 n1 where r: "retain_round now i (l, bps, n) = (l1, bps1, n1)" by (metis prod_cases3)
  from retain_round_list [OF Cons.prems(1,2) assms r] show ?case
    using Cons.IH [of l1 bps1 n1] Cons.prems(3) r by simp
qed simp

lemma retain_numbs_ok:
  assumes "retain_ok r" "sm_bp_get_active_retain_numbs now r bps = (n, r', bps')"
  shows "retain_ok r'"
proof -
  obtain l b m where f: "fold (retain_round now) [0..<3] (rt_list r, bps, 0) = (l, b, m)" by (metis prod_cases3)
  let ?P = "\<lambda>e. m_duration (rl_timeout e) = 600000"
  have "length l = 3 \<and> list_all ?P l"
    by (rule retain_fold_list [OF _ _ _ f]) (use assms(1) in \<open>simp_all add: retain_ok_def\<close>)
  then show ?thesis using assms(2) f by (auto simp: retain_ok_def sm_bp_get_active_retain_numbs_def)
qed

lemma bps_ok_change:
  assumes "bps_ok bps" "bp_ok k (bps ! k) \<Longrightarrow> bp_ok k bp"
  shows "bps_ok (bps[k := bp])"
proof (cases "k < length bps")
  case True
  then have "bp_ok k (bps ! k)" using assms(1) by (simp add: bps_ok_def)
  then show ?thesis by (intro bps_ok_update assms)
qed (use assms(1) in \<open>simp add: list_update_beyond\<close>)

lemma retain_calls_ok:
  assumes "retain_ok r" "bps_ok bps"
    and "sm_bp_active_retain now r bps k = Inr (n, r', bps') \<or> sm_bp_deactive_retain now r bps k = Inr (n, r', bps')"
  shows "retain_ok r' \<and> bps_ok bps'"
proof -
  obtain a b c where l: "rt_list r = [a, b, c]" using length_3 [of "rt_list r"] assms(1) by (auto simp: retain_ok_def)
  have lists: "retain_ok (r\<lparr>rt_list := sm_bp_retain_move_bp_to_list k (rt_list r)\<rparr>)"
      "retain_ok (r\<lparr>rt_list := sm_bp_retain_remove_bp_from_list k (rt_list r)\<rparr>)"
    using assms(1) by (auto simp: retain_ok_def l retain_move_cases retain_remove_cases)
  have "bp_ok i (bp\<lparr>m_retain_st := st, m_data := (m_data bp)\<lparr>bp_state := BP_ST_RETAIN_DISCHARGE\<rparr>\<rparr>)" "bp_ok i (bp\<lparr>m_retain_st := st\<rparr>)"
    if "bp_ok i bp" for i bp st
    using that by (simp_all add: bp_ok_def bp_data_ok_def bp_measured_def)
  then have packs: "bps_ok (bps[k := (bps ! k)\<lparr>m_retain_st := st, m_data := (m_data (bps ! k))\<lparr>bp_state := BP_ST_RETAIN_DISCHARGE\<rparr>\<rparr>])"
      "bps_ok (bps[k := (bps ! k)\<lparr>m_retain_st := st\<rparr>])" for st
    by (intro bps_ok_change [OF assms(2)]; simp)+
  obtain r1 bps1 where "retain_ok r1" "bps_ok bps1" "sm_bp_get_active_retain_numbs now r1 bps1 = (n, r', bps')"
    using assms lists packs by (auto simp: sm_bp_active_retain_def sm_bp_deactive_retain_def Let_def split: if_splits)
  then show ?thesis using retain_numbs_ok bps_same_ok [OF retain_numbs_same] by blast
qed

section \<open>Counting is exact, expiry is not armed\<close>

definition active :: "sm_bp \<Rightarrow> bool" where
  "active bp \<longleftrightarrow> m_retain_st bp = BP_ACTIVE_RETAIN"

definition of_active :: "sm_bp \<Rightarrow> u8" where
  "of_active bp = (if active bp then 1 else 0)"

lemma retain_round_spec:
  assumes "retain_round now i (l, bps, n) = (l', bps', n')" "i < length bps"
  shows "n' = n + of_active (bps' ! i)" "length bps' = length bps"
    "j \<noteq> i \<Longrightarrow> bps' ! j = bps ! j" "active (bps' ! i) \<Longrightarrow> active (bps ! i)"
  using assms by (auto simp: retain_round_def Let_def of_active_def active_def split: if_splits)

lemma retain_numbs_rounds:
  assumes "sm_bp_get_active_retain_numbs now r bps = (n, r', bps')" "length bps = 3"
  shows "n = of_active (bps' ! 0) + of_active (bps' ! 1) + of_active (bps' ! 2) \<and> length bps' = 3
    \<and> (\<forall>i < 3. active (bps' ! i) \<longrightarrow> active (bps ! i))"
proof -
  obtain l1 b1 n1 where r1: "retain_round now 0 (rt_list r, bps, 0) = (l1, b1, n1)" by (metis prod_cases3)
  obtain l2 b2 n2 where r2: "retain_round now 1 (l1, b1, n1) = (l2, b2, n2)" by (metis prod_cases3)
  obtain l3 b3 n3 where r3: "retain_round now 2 (l2, b2, n2) = (l3, b3, n3)" by (metis prod_cases3)
  have e: "n = n3" "bps' = b3"
    using assms(1) r1 r2 r3 by (simp_all add: sm_bp_get_active_retain_numbs_def upt_0_3)
  note s1 = retain_round_spec [OF r1] and s2 = retain_round_spec [OF r2] and s3 = retain_round_spec [OF r3]
  have len: "length b1 = 3" "length b2 = 3" "length b3 = 3" using assms(2) s1 s2 s3 by simp_all
  have v: "b3 ! 0 = b1 ! 0" "b3 ! 1 = b2 ! 1" "b2 ! 2 = bps ! 2" "b1 ! 1 = bps ! 1"
    using s1(3) s2(3) s3(3) assms(2) len by simp_all
  have "n3 = of_active (b3 ! 0) + of_active (b3 ! 1) + of_active (b3 ! 2)"
    using s1(1) s2(1) s3(1) v len assms(2) by simp
  moreover have "active (b3 ! 0) \<longrightarrow> active (bps ! 0)" "active (b3 ! 1) \<longrightarrow> active (bps ! 1)"
    "active (b3 ! 2) \<longrightarrow> active (bps ! 2)"
    using s1(4) s2(4) s3(4) v len assms(2) by simp_all
  ultimately show ?thesis
    using e len by (auto simp: less_Suc_eq numeral_3_eq_3 numeral_2_eq_2)
qed

lemma unat_of_active: "unat (of_active a + of_active b + of_active c)
    = (if active a then 1 else 0) + (if active b then 1 else 0) + (if active c then 1 else 0)"
  by (simp add: of_active_def)

text \<open> The number \<^verbatim>\<open>sm_bp_get_active_retain_numbs\<close> returns is the number of
  packs that are in active retain afterwards, no pack becomes active by it, and it changes nothing
  of a pack but its retain state.\<close>

theorem retain_count_exact:
  assumes "sm_bp_get_active_retain_numbs now r bps = (n, r', bps')" "length bps = SM_BP_NUMBER_DEFAULT"
  shows "unat n = length (filter (\<lambda>bp. m_retain_st bp = BP_ACTIVE_RETAIN) bps')
     \<and> (\<forall>i < SM_BP_NUMBER_DEFAULT. m_retain_st (bps' ! i) = BP_ACTIVE_RETAIN
           \<longrightarrow> m_retain_st (bps ! i) = BP_ACTIVE_RETAIN)
     \<and> list_all2 same_but_retain bps bps'"
proof -
  note s = retain_numbs_rounds [OF assms]
  then have "length bps' = 3" by blast
  from length_3 [OF this] obtain a b c where b: "bps' = [a, b, c]" by blast
  have "n = of_active a + of_active b + of_active c" using s by (simp add: b numeral_2_eq_2)
  then have "unat n = length (filter (\<lambda>bp. m_retain_st bp = BP_ACTIVE_RETAIN) bps')"
    by (simp only: unat_of_active) (simp add: b active_def)
  moreover have "\<forall>i < 3. active (bps' ! i) \<longrightarrow> active (bps ! i)" using s by blast
  moreover have "list_all2 same_but_retain bps bps'"
    using retain_numbs_same [OF assms(1)] by (simp only: bps_same_but_retain_def)
  ultimately show ?thesis unfolding active_def by blast
qed

lemma retain_count_exact_witness:
  "\<exists>n r' bps'. sm_bp_get_active_retain_numbs 5 (sm_bp_retain_create 0)
      [(bp_default 0)\<lparr>m_retain_st := BP_ACTIVE_RETAIN\<rparr>, bp_default 1, bp_default 2] = (n, r', bps')
    \<and> unat n = length (filter (\<lambda>bp. m_retain_st bp = BP_ACTIVE_RETAIN) bps')"
proof -
  obtain n r' bps' where "sm_bp_get_active_retain_numbs 5 (sm_bp_retain_create 0)
      [(bp_default 0)\<lparr>m_retain_st := BP_ACTIVE_RETAIN\<rparr>, bp_default 1, bp_default 2] = (n, r', bps')"
    by (metis prod_cases3)
  from retain_count_exact [OF this] this show ?thesis by auto
qed

text \<open> The ten minutes of retain discharge run from the creation of the object,
  not from the activation of a pack: once they are over, a pack that
  \<^verbatim>\<open>sm_bp_active_retain\<close> activates is deactivated again before the call returns.\<close>

theorem retain_never_armed:
  assumes "length bps = SM_BP_NUMBER_DEFAULT" "k < SM_BP_NUMBER_DEFAULT"
    and "m_retain_st (bps ! k) = BP_ENABLE_RETAIN" "t0 + BP_RETAIN_DISCHAR_TIME_MS \<le> now"
  shows "\<exists>n r' bps'. sm_bp_active_retain now (sm_bp_retain_create t0) bps k = Inr (n, r', bps')
           \<and> m_retain_st (bps' ! k) = BP_DEACTIVE_RETAIN"
proof -
  from length_3 [OF assms(1)] obtain a b c where b: "bps = [a, b, c]" by blast
  define e where "e = \<lparr>rl_timeout = \<lparr>m_duration = 600000, m_start_time = t0\<rparr>, rl_index = -1\<rparr>"
  have over: "timed_out now (rl_timeout e)" and ix: "rl_index e = -1"
    using assms(4) by (simp_all add: timed_out_iff e_def)
  have new: "rt_list (sm_bp_retain_create t0) = [e, e, e]"
    by (simp add: sm_bp_retain_create_def numeral_3_eq_3 e_def)
  note rules = sm_bp_active_retain_def sm_bp_get_active_retain_numbs_def upt_0_3 new over ix
    retain_move_cases retain_round_def retain_id_cases retain_remove_cases
  have k: "k = 0 \<or> k = 1 \<or> k = 2" using assms(2) by auto
  then consider "k = 0" | "k = 1" | "k = 2" by blast
  then show ?thesis
  proof cases
    case 1 then show ?thesis using assms(3) by (simp add: b rules)
  next
    case 2 then show ?thesis using assms(3) by (simp add: b rules)
  next
    case 3 then show ?thesis using assms(3) by (simp add: b rules)
  qed
qed

lemma retain_never_armed_witness:
  "\<exists>n r' bps'. sm_bp_active_retain 600000 (sm_bp_retain_create 0)
      [(bp_default 0)\<lparr>m_retain_st := BP_ENABLE_RETAIN\<rparr>, bp_default 1, bp_default 2] 0 = Inr (n, r', bps')
    \<and> m_retain_st (bps' ! 0) = BP_DEACTIVE_RETAIN"
  by (rule retain_never_armed) simp_all

end
