(* ===== verification/Sv_Bp.thy ===== *)
theory Sv_Bp
  imports Bp_Auth Bp_Retain Ring
begin

text \<open>
  \<^verbatim>\<open>services/bp_management/sm_sv_bp.c\<close>: the service that owns the battery packs. It holds the
  pack array, the ring of pending commands with the current command, the CANopen, authentication
  and retain modules, and up to ten registered event handlers.

  \<open>'c\<close> identifies a callback of a client with its argument. The calls the service makes to its
  clients, to the CAN bus and to the id lines are returned as a list of \<open>sv_call\<close>; the callbacks of
  its own modules (\<^verbatim>\<open>sm_bp_on_sync_info\<close>, \<^verbatim>\<open>sm_bp_on_auth_cmd\<close>, \<^verbatim>\<open>sm_bp_auth_event_handle\<close>,
  \<^verbatim>\<open>sm_bp_co_update_data_callback\<close>, the two retain callbacks) are run where the source calls them.
\<close>

section \<open>State\<close>

abbreviation (input) BP_CMD_QUEUE_SIZE :: nat where "BP_CMD_QUEUE_SIZE \<equiv> 16"
abbreviation (input) SM_SV_BP_EVENT_CB_MAX :: nat where "SM_SV_BP_EVENT_CB_MAX \<equiv> 10"

text \<open>Which of the four function pointers of a registered handler are set.\<close>

record sm_sv_bp_event_cb =
  on_bp_connected :: bool
  on_bp_disconnected :: bool
  on_bp_update_data :: bool
  bp_assgin_fail :: bool

record 'c sm_sv_bp =
  sv_numb :: int
  sv_bps :: "sm_bp list"
  sv_co :: sm_bp_co
  sv_auth :: "sm_bp_auth option"
  sv_retain :: sm_bp_retain
  sv_cmds :: "'c sm_bp_cmd list"
  sv_head :: nat
  sv_tail :: nat
  sv_current :: "nat option"
  sv_low_data :: bool
  sv_force_event :: "'c option"
  sv_force_id :: int
  sv_handlers :: "sm_sv_bp_event_cb option list"
  sv_temp :: "u8 list"

datatype 'c sv_call =
    Connected nat int "u8 list option" int
  | Disconnected nat int "u8 list"
  | Update_Data nat int sm_bp_data
  | Assign_Fail nat int
  | Force_Auth 'c int SM_BP_AUTH_EVENT "u8 list option" int
  | Cmd_Done 'c int SM_BP_CMD bool buf
  | Auth_Io auth_call
  | Sdo sdo_req

type_synonym 'c sv_result = "('c sm_sv_bp, 'c sv_call) result"

text \<open>An access \<^verbatim>\<open>m_bps[_id]\<close>.\<close>

definition with_pack :: "int \<Rightarrow> 'c sm_sv_bp \<Rightarrow> (nat \<Rightarrow> fault + 'b) \<Rightarrow> fault + 'b" where
  "with_pack k sv f = (if k < 0 \<or> length (sv_bps sv) \<le> nat k then Inl Out_Of_Bounds else f (nat k))"

definition sv_set_bp :: "nat \<Rightarrow> (sm_bp \<Rightarrow> sm_bp) \<Rightarrow> 'c sm_sv_bp \<Rightarrow> 'c sm_sv_bp" where
  "sv_set_bp i f sv = sv\<lparr>sv_bps := (sv_bps sv)[i := f (sv_bps sv ! i)]\<rparr>"

section \<open>Calls to the registered handlers\<close>

definition sv_slots :: "(sm_sv_bp_event_cb \<Rightarrow> bool) \<Rightarrow> 'c sm_sv_bp \<Rightarrow> nat list" where
  "sv_slots p sv =
     filter (\<lambda>i. case sv_handlers sv ! i of None \<Rightarrow> False | Some h \<Rightarrow> p h) [0..<length (sv_handlers sv)]"

definition call_connected :: "int \<Rightarrow> u8 list option \<Rightarrow> int \<Rightarrow> 'c sm_sv_bp \<Rightarrow> 'c sv_call list" where
  "call_connected k sn soc sv = map (\<lambda>i. Connected i k sn soc) (sv_slots on_bp_connected sv)"

text \<open>The loop of the failure branch tests \<^verbatim>\<open>on_bp_connected\<close> and calls \<^verbatim>\<open>bp_assgin_fail\<close>.\<close>

definition call_assign_fail :: "int \<Rightarrow> 'c sm_sv_bp \<Rightarrow> 'c sv_result" where
  "call_assign_fail k sv =
     (let is = sv_slots on_bp_connected sv in
      if list_all (\<lambda>i. case sv_handlers sv ! i of None \<Rightarrow> False | Some h \<Rightarrow> bp_assgin_fail h) is
      then Inr (sv, map (\<lambda>i. Assign_Fail i k) is) else Inl Null_Deref)"

section \<open>The command queue\<close>

definition sv_push :: "'c sm_bp_cmd \<Rightarrow> 'c sm_sv_bp \<Rightarrow> 'c sm_sv_bp" where
  "sv_push c sv =
     sv\<lparr>sv_cmds := (sv_cmds sv)[sv_head sv := c],
        sv_head := (if sv_head sv + 1 \<ge> BP_CMD_QUEUE_SIZE then 0 else sv_head sv + 1)\<rparr>"

definition sm_sv_bp_reset_current_cmd :: "'c sm_sv_bp \<Rightarrow> 'c sm_sv_bp" where
  "sm_sv_bp_reset_current_cmd sv = sv\<lparr>sv_current := None\<rparr>"

text \<open>
  \<^verbatim>\<open>sm_sv_bp_set_cmd\<close>. A command for a pack that is not connected fails at once, with the callback
  called from within. For \<^verbatim>\<open>sm_bp_on_sync_info\<close> this means: the current command is reset and nothing
  else happens, unless the pack is connected (its index is beyond \<^verbatim>\<open>m_numb\<close>), when the two functions
  would call each other for ever.
\<close>

definition set_cmd_fails :: "int \<Rightarrow> int \<Rightarrow> SM_BP_CMD \<Rightarrow> buf \<Rightarrow> 'c on_cmd \<Rightarrow> 'c sm_sv_bp \<Rightarrow> 'c sv_result" where
  "set_cmd_fails now k cmd data cb sv =
     (case cb of
        No_Callback \<Rightarrow> Inr (sv, [])
      | Client c \<Rightarrow> Inr (sv, [Cmd_Done c k cmd False data])
      | On_Auth_Cmd \<Rightarrow>
          Inr (sv\<lparr>sv_auth := map_option (sm_bp_on_auth_cmd now k cmd False (sv_bps sv)) (sv_auth sv)\<rparr>, [])
      | Sync_Info \<Rightarrow>
          with_pack k sv (\<lambda>i. if m_is_connected (sv_bps sv ! i)
             then (if cmd \<in> {BP_CMD_READ_SN, BP_CMD_READ_VERSION, BP_CMD_READ_ASSIGNED_DEV}
                   then Inl Stack_Overflow else Inr (sm_sv_bp_reset_current_cmd sv, []))
             else Inr (sm_sv_bp_reset_current_cmd sv, [])))"

definition sm_sv_bp_set_cmd ::
    "int \<Rightarrow> int \<Rightarrow> SM_BP_CMD \<Rightarrow> buf \<Rightarrow> 'c on_cmd \<Rightarrow> 'c sm_sv_bp \<Rightarrow> fault + (int \<times> 'c sm_sv_bp \<times> 'c sv_call list)" where
  "sm_sv_bp_set_cmd now k cmd data cb sv =
     (if k \<ge> sv_numb sv then map_sum id (\<lambda>(sv, cs). (-1, sv, cs)) (set_cmd_fails now k cmd data cb sv)
      else with_pack k sv (\<lambda>i.
        if \<not> m_is_connected (sv_bps sv ! i) then
          map_sum id (\<lambda>(sv, cs). (-1, sv, cs)) (set_cmd_fails now k cmd data cb sv)
        else Inr (0, sv_push \<lparr>cmd_id = k, cmd_cmd = cmd, cmd_data = data, cmd_cb = cb\<rparr> sv, [])))"

text \<open>The many calls that ignore the return code.\<close>

definition set_cmd :: "int \<Rightarrow> int \<Rightarrow> SM_BP_CMD \<Rightarrow> buf \<Rightarrow> 'c on_cmd \<Rightarrow> 'c sm_sv_bp \<Rightarrow> 'c sv_result" where
  "set_cmd now k cmd data cb sv = map_sum id snd (sm_sv_bp_set_cmd now k cmd data cb sv)"

definition sm_sv_bp_set_off_all :: "'c sm_sv_bp \<Rightarrow> 'c sv_result" where
  "sm_sv_bp_set_off_all =
     (\<lambda>sv. run_all (\<lambda>k sv. with_pack k sv (\<lambda>i.
        if \<not> m_is_connected (sv_bps sv ! i) then Inr (sv, [])
        else Inr (sv_push \<lparr>cmd_id = k, cmd_cmd = BP_CMD_STANDBY, cmd_data = Null_Buf, cmd_cb = No_Callback\<rparr> sv, [])))
        (map int [0..<nat (sv_numb sv)]) sv)"

definition sm_sv_bp_remove_all_cmd :: "'c sm_sv_bp \<Rightarrow> 'c sm_sv_bp" where
  "sm_sv_bp_remove_all_cmd sv = sm_sv_bp_reset_current_cmd (sv\<lparr>sv_head := 0, sv_tail := 0\<rparr>)"

definition sm_sv_bp_enter_low_data_mode :: "'c sm_sv_bp \<Rightarrow> 'c sm_sv_bp" where
  "sm_sv_bp_enter_low_data_mode sv = sm_sv_bp_remove_all_cmd (sv\<lparr>sv_low_data := True\<rparr>)"

definition sm_sv_bp_exit_low_data_mode :: "'c sm_sv_bp \<Rightarrow> 'c sm_sv_bp" where
  "sm_sv_bp_exit_low_data_mode sv = sm_sv_bp_remove_all_cmd (sv\<lparr>sv_low_data := False\<rparr>)"

section \<open>Reading the information of a new pack\<close>

definition read_cmd :: "SM_BP_CMD \<Rightarrow> bool" where
  "read_cmd cmd \<longleftrightarrow> cmd = BP_CMD_READ_SN \<or> cmd = BP_CMD_READ_VERSION \<or> cmd = BP_CMD_READ_ASSIGNED_DEV"

definition sm_bp_on_sync_info :: "int \<Rightarrow> int \<Rightarrow> SM_BP_CMD \<Rightarrow> bool \<Rightarrow> 'c sm_sv_bp \<Rightarrow> 'c sv_result" where
  "sm_bp_on_sync_info now k cmd ok sv =
     (if \<not> ok then
        with_pack k sv (\<lambda>i.
          if \<not> m_is_connected (sv_bps sv ! i) then Inr (sm_sv_bp_reset_current_cmd sv, [])
          else and_then (if read_cmd cmd then set_cmd now k cmd Sv_Temp Sync_Info sv else Inr (sv, []))
                 (\<lambda>sv. Inr (sm_sv_bp_reset_current_cmd sv, [])))
      else if cmd = BP_CMD_READ_SN then
        with_pack k sv (\<lambda>i.
          case store_sn (sv_temp sv) (bp_sn (m_data (sv_bps sv ! i))) of
            Inl f \<Rightarrow> Inl f
          | Inr sn \<Rightarrow>
              (let sv = sv_set_bp i (bp_map_data (\<lambda>d. d\<lparr>bp_sn := sn\<rparr>)) sv
               in Inr (sm_sv_bp_reset_current_cmd sv,
                       call_connected k (Some sn) (bp_soc (m_data (sv_bps sv ! i))) sv)))
      else if cmd = BP_CMD_READ_VERSION then
        with_pack k sv (\<lambda>i.
          Inr (sm_sv_bp_reset_current_cmd (sv_set_bp i (bp_map_data (\<lambda>d. d\<lparr>bp_version := sv_temp sv\<rparr>)) sv), []))
      else if cmd = BP_CMD_READ_ASSIGNED_DEV then
        with_pack k sv (\<lambda>i.
          Inr (sm_sv_bp_reset_current_cmd (sv_set_bp i (bp_map_data (\<lambda>d. d\<lparr>bp_assignedSn := sv_temp sv\<rparr>)) sv), []))
      else Inr (sm_sv_bp_reset_current_cmd sv, []))"

definition sm_bp_sync_info :: "int \<Rightarrow> int \<Rightarrow> 'c sm_sv_bp \<Rightarrow> 'c sv_result" where
  "sm_bp_sync_info now k =
     run_all (\<lambda>cmd. set_cmd now k cmd Sv_Temp Sync_Info)
       [BP_CMD_READ_SN, BP_CMD_READ_VERSION, BP_CMD_READ_ASSIGNED_DEV]"

definition sm_sv_bp_force_get_assigned_dev ::
    "int \<Rightarrow> int \<Rightarrow> 'c sm_sv_bp \<Rightarrow> fault + (int \<times> 'c sm_sv_bp \<times> 'c sv_call list)" where
  "sm_sv_bp_force_get_assigned_dev now k = sm_sv_bp_set_cmd now k BP_CMD_READ_ASSIGNED_DEV Sv_Temp Sync_Info"

section \<open>Callbacks of the modules\<close>

definition sm_bp_reset_force_assigning :: "'c sm_sv_bp \<Rightarrow> 'c sm_sv_bp" where
  "sm_bp_reset_force_assigning sv = sv\<lparr>sv_force_id := -1, sv_force_event := None\<rparr>"

definition bp_connect :: "int \<Rightarrow> sm_bp \<Rightarrow> sm_bp" where
  "bp_connect now bp = bp\<lparr>m_is_connected := True, m_timeout := elapsed_timer_reset now (m_timeout bp)\<rparr>"

definition sm_bp_auth_event_handle ::
    "int \<Rightarrow> int \<Rightarrow> SM_BP_AUTH_EVENT \<Rightarrow> u8 list option \<Rightarrow> int \<Rightarrow> 'c sm_sv_bp \<Rightarrow> 'c sv_result" where
  "sm_bp_auth_event_handle now k ev sn soc sv =
     and_then
       (case ev of
          BP_AUTH_SUCCESS \<Rightarrow>
            with_pack k sv (\<lambda>i.
              let sv = sv_set_bp i (bp_connect now) sv in
              and_then (Inr (sv, call_connected k sn soc sv))
                (run_all (\<lambda>cmd. set_cmd now k cmd Sv_Temp Sync_Info)
                   [BP_CMD_READ_VERSION, BP_CMD_READ_ASSIGNED_DEV]))
        | BP_AUTH_FAILURE \<Rightarrow> call_assign_fail k sv)
       (\<lambda>sv. if k = sv_force_id sv then
               (case sv_force_event sv of None \<Rightarrow> Inr (sv, [])
                | Some c \<Rightarrow> Inr (sm_bp_reset_force_assigning sv, [Force_Auth c k ev sn soc]))
             else Inr (sv, []))"

definition sm_bp_co_finish_cmd_callback :: "'c sm_sv_bp \<Rightarrow> 'c sm_sv_bp" where
  "sm_bp_co_finish_cmd_callback = sm_sv_bp_reset_current_cmd"

text \<open>\<open>i\<close> is the index of the pack whose data the callback gets a pointer to.\<close>

definition sm_bp_co_update_data_callback :: "int \<Rightarrow> nat \<Rightarrow> 'c sm_sv_bp \<Rightarrow> 'c sv_result" where
  "sm_bp_co_update_data_callback now i sv =
     (let k = m_id (sv_bps sv ! i) in
      and_then
        (if sv_auth sv = None \<and> \<not> m_is_connected (sv_bps sv ! i) \<and> bp_soc (m_data (sv_bps sv ! i)) \<ge> 0 then
           (let sv = sv_set_bp i (bp_connect now) sv in
            and_then (Inr (sv, call_connected k None (bp_soc (m_data (sv_bps sv ! i))) sv))
              (\<lambda>sv. if \<not> sv_low_data sv then sm_bp_sync_info now k sv else Inr (sv, [])))
         else Inr (sv, []))
        (\<lambda>sv. if \<not> m_is_connected (sv_bps sv ! i) \<and> bp_soc (m_data (sv_bps sv ! i)) \<ge> 0 then
                (let sv = sv_set_bp i (bp_connect now) sv
                 in Inr (sv, map (\<lambda>s. Update_Data s k (m_data (sv_bps sv ! i))) (sv_slots on_bp_update_data sv)))
              else Inr (sv, [])))"

definition sm_sv_bp_update_connect_state :: "int \<Rightarrow> 'c sm_sv_bp \<Rightarrow> 'c sv_result" where
  "sm_sv_bp_update_connect_state k sv =
     with_pack k sv (\<lambda>i. Inr (sv_set_bp i (\<lambda>bp. bp\<lparr>m_is_connected := True\<rparr>) sv, []))"

section \<open>What arrives from the bus\<close>

definition sm_bp_co_extract_pdo :: "int \<Rightarrow> u32 \<Rightarrow> (nat \<Rightarrow> u8) \<Rightarrow> 'c sm_sv_bp \<Rightarrow> 'c sv_result" where
  "sm_bp_co_extract_pdo now can_id d sv =
     (if pdo_bp_id can_id \<ge> co_bp_numb (sv_co sv) then Inr (sv, [])
      else with_pack (uint (pdo_bp_id can_id)) sv (\<lambda>i.
        let sv = sv_set_bp i (bp_store_pdo now (pdo_cob can_id) d) sv in
        if co_update_data_cb (sv_co sv) \<and> m_data_count (sv_bps sv ! i) \<ge> BP_DATA_FIELD_NUMBER then
          and_then (sm_bp_co_update_data_callback now i sv)
            (\<lambda>sv. Inr (sv_set_bp i (\<lambda>bp. bp\<lparr>m_data_count := 0\<rparr>) sv, []))
        else Inr (sv, [])))"

definition sm_bp_co_received_data :: "int \<Rightarrow> u32 \<Rightarrow> (nat \<Rightarrow> u8) \<Rightarrow> 'c sm_sv_bp \<Rightarrow> 'c sv_result" where
  "sm_bp_co_received_data now can_id d sv =
     (if is_bp_pdo can_id then sm_bp_co_extract_pdo now can_id d sv else Inr (sv, []))"

datatype SM_SDO_STATUS = SM_SDO_ST_IDLE | SM_SDO_ST_BUSY | SM_SDO_ST_SUCCESS | SM_SDO_ST_ABORT

text \<open>The command a pointer leads to, at the moment it is read.\<close>

definition sv_deref :: "cmd_ref \<Rightarrow> 'c sm_sv_bp \<Rightarrow> 'c sm_bp_cmd" where
  "sv_deref ref sv =
     (case ref of Sv_Slot i \<Rightarrow> sv_cmds sv ! i
      | Auth_Slot \<Rightarrow> (case sv_auth sv of None \<Rightarrow> sm_bp_cmd_reset | Some a \<Rightarrow> auth_cmd a))"

definition call_cmd_cb :: "int \<Rightarrow> 'c sm_bp_cmd \<Rightarrow> bool \<Rightarrow> 'c sm_sv_bp \<Rightarrow> 'c sv_result" where
  "call_cmd_cb now c ok sv =
     (case cmd_cb c of
        No_Callback \<Rightarrow> Inr (sv, [])
      | Client cb \<Rightarrow> Inr (sv, [Cmd_Done cb (cmd_id c) (cmd_cmd c) ok (cmd_data c)])
      | On_Auth_Cmd \<Rightarrow>
          Inr (sv\<lparr>sv_auth := map_option (sm_bp_on_auth_cmd now (cmd_id c) (cmd_cmd c) ok (sv_bps sv)) (sv_auth sv)\<rparr>, [])
      | Sync_Info \<Rightarrow> sm_bp_on_sync_info now (cmd_id c) (cmd_cmd c) ok sv)"

definition sm_co_bp_sdo_cb :: "int \<Rightarrow> SM_SDO_STATUS \<Rightarrow> 'c sm_sv_bp \<Rightarrow> 'c sv_result" where
  "sm_co_bp_sdo_cb now status sv =
     (case co_cmd (sv_co sv) of None \<Rightarrow> Inr (sv, [])
      | Some ref \<Rightarrow>
          and_then
            (if status = SM_SDO_ST_SUCCESS then call_cmd_cb now (sv_deref ref sv) True sv
             else if status = SM_SDO_ST_ABORT then call_cmd_cb now (sv_deref ref sv) False sv
             else Inr (sv, []))
            (\<lambda>sv. let sv = (if co_finish_cmd_cb (sv_co sv) then sm_bp_co_finish_cmd_callback sv else sv)
                  in Inr (sv\<lparr>sv_co := sm_bp_co_reset_cmd (sv_co sv)\<rparr>, [])))"

text \<open>
  \<^verbatim>\<open>sm_bp_co_set_cmd_force\<close>: the current command is failed and replaced; the client reset of the
  SDO layer is not part of this state.
\<close>

definition sm_bp_co_set_cmd_force :: "int \<Rightarrow> cmd_ref \<Rightarrow> 'c sm_sv_bp \<Rightarrow> 'c sv_result" where
  "sm_bp_co_set_cmd_force now ref sv =
     and_then
       (case co_cmd (sv_co sv) of None \<Rightarrow> Inr (sv, [])
        | Some cur \<Rightarrow> call_cmd_cb now (sv_deref cur sv) False sv)
       (\<lambda>sv. case sm_bp_co_set_cmd ref (sv_deref ref sv) (sv_co sv) of
               (_, co, reqs) \<Rightarrow> Inr (sv\<lparr>sv_co := co\<rparr>, map Sdo reqs))"

section \<open>Creation and queries\<close>

text \<open>
  The service is a static object: \<open>g\<close> is its content before, of which the registered handlers and
  the retain states survive.
\<close>

definition sm_sv_bp_create :: "int \<Rightarrow> int \<Rightarrow> bool \<Rightarrow> sm_bp_auth \<Rightarrow> 'c sm_sv_bp \<Rightarrow> 'c sm_sv_bp option" where
  "sm_sv_bp_create now bp_num auth_master auth0 g =
     (if bp_num < 0 then None
      else
        (case sm_bp_co_create (word_of_int bp_num) of None \<Rightarrow> None
         | Some co \<Rightarrow>
             Some (g\<lparr>sv_numb := bp_num, sv_low_data := False,
                sv_bps := map (\<lambda>i. sm_bp_reset now ((sv_bps g ! i)\<lparr>m_id := int i\<rparr>)) [0..<SM_BP_NUMBER_DEFAULT],
                sv_temp := replicate BP_DEVICE_SN_SIZE 0,
                sv_head := 0, sv_tail := 0, sv_current := None,
                sv_cmds := replicate BP_CMD_QUEUE_SIZE sm_bp_cmd_reset,
                sv_co := co,
                sv_auth := (if auth_master then Some (sm_bp_auth_create auth0) else sv_auth g),
                sv_retain := sm_bp_retain_create now\<rparr>)))"

definition sm_sv_bp_reg_event :: "sm_sv_bp_event_cb \<Rightarrow> 'c sm_sv_bp \<Rightarrow> int \<times> 'c sm_sv_bp" where
  "sm_sv_bp_reg_event cb sv =
     (case find (\<lambda>i. sv_handlers sv ! i = None) [0..<length (sv_handlers sv)] of
        None \<Rightarrow> (-1, sv)
      | Some i \<Rightarrow> (0, sv\<lparr>sv_handlers := (sv_handlers sv)[i := Some cb]\<rparr>))"

definition sm_sv_bp_get_number :: "'c sm_sv_bp \<Rightarrow> int" where
  "sm_sv_bp_get_number sv = sv_numb sv"

text \<open>A pointer to the data, or \<open>None\<close> for the null pointer.\<close>

definition sm_sv_bp_get_data :: "int \<Rightarrow> 'c sm_sv_bp \<Rightarrow> fault + sm_bp_data option" where
  "sm_sv_bp_get_data k sv =
     (if sv_numb sv \<le> k then Inr None else with_pack k sv (\<lambda>i. Inr (Some (m_data (sv_bps sv ! i)))))"

definition sm_sv_bp_get_obj :: "int \<Rightarrow> 'c sm_sv_bp \<Rightarrow> fault + nat option" where
  "sm_sv_bp_get_obj k sv = (if sv_numb sv \<le> k then Inr None else with_pack k sv (\<lambda>i. Inr (Some i)))"

definition sm_sv_bp_reset :: "int \<Rightarrow> int \<Rightarrow> 'c sm_sv_bp \<Rightarrow> fault + (int \<times> 'c sm_sv_bp)" where
  "sm_sv_bp_reset now k sv =
     (if sv_numb sv \<le> k then Inr (-1, sv)
      else with_pack k sv (\<lambda>i. Inr (0, sv_set_bp i (sm_bp_reset now) sv)))"

definition sm_sv_bp_is_connected :: "int \<Rightarrow> 'c sm_sv_bp \<Rightarrow> fault + bool" where
  "sm_sv_bp_is_connected k sv =
     (if k \<ge> sv_numb sv then Inr False else with_pack k sv (\<lambda>i. Inr (m_is_connected (sv_bps sv ! i))))"

definition sm_sv_bp_get_bp_numbs_assign :: "'c sm_sv_bp \<Rightarrow> int" where
  "sm_sv_bp_get_bp_numbs_assign sv =
     int (length (filter (\<lambda>i. m_is_connected (sv_bps sv ! i)) [0..<nat (sv_numb sv)]))"

text \<open>The version byte is a \<^verbatim>\<open>char\<close>, unsigned on the target.\<close>

definition sm_sv_bp_check_pre_force_discharging_condition :: "int \<Rightarrow> 'c sm_sv_bp \<Rightarrow> fault + int" where
  "sm_sv_bp_check_pre_force_discharging_condition k sv =
     with_pack k sv (\<lambda>i.
       let bp = sv_bps sv ! i; build_ver = uint (bp_version (m_data bp) ! 0) in
       if \<not> m_is_connected bp then Inr (-1)
       else if build_ver < 18 then Inr (-1)
       else if bp_state (m_data bp) \<noteq> BP_STATE_DISCHARGING then Inr (-1)
       else Inr 0)"

section \<open>Authentication requests\<close>

text \<open>The calls of the authentication module are dispatched in order: its events to the service.\<close>

definition auth_dispatch :: "int \<Rightarrow> auth_call list \<Rightarrow> 'c sm_sv_bp \<Rightarrow> 'c sv_result" where
  "auth_dispatch now =
     run_all (\<lambda>c sv. case c of
        Auth_Event k ev sn soc \<Rightarrow> sm_bp_auth_event_handle now k ev sn soc sv
      | _ \<Rightarrow> Inr (sv, [Auth_Io c]))"

definition set_force_auth :: "int \<Rightarrow> 'c option \<Rightarrow> 'c sm_sv_bp \<Rightarrow> 'c sm_sv_bp" where
  "set_force_auth k cb sv = sv\<lparr>sv_force_id := sint (word_of_int k :: u8), sv_force_event := cb\<rparr>"

definition sm_sv_bp_auth ::
    "int \<Rightarrow> node_id_ctl \<Rightarrow> int \<Rightarrow> 'c option \<Rightarrow> 'c sm_sv_bp \<Rightarrow> fault + (int \<times> 'c sm_sv_bp \<times> 'c sv_call list)" where
  "sm_sv_bp_auth now ctl k cb sv =
     (case sv_auth sv of None \<Rightarrow> Inr (-1, sv, [])
      | Some a \<Rightarrow>
          (let sv = set_force_auth k cb sv in
           with_pack k sv (\<lambda>i.
             case sm_bp_auth_start_auth now ctl i a (sv_bps sv) of (r, a, bps, cs) \<Rightarrow>
               map_sum id (\<lambda>(sv, cs). (r, sv, cs)) (auth_dispatch now cs (sv\<lparr>sv_auth := Some a, sv_bps := bps\<rparr>)))))"

definition sm_sv_first_bp_auth ::
    "int \<Rightarrow> int \<Rightarrow> 'c option \<Rightarrow> 'c sm_sv_bp \<Rightarrow> fault + (int \<times> 'c sm_sv_bp \<times> 'c sv_call list)" where
  "sm_sv_first_bp_auth now k cb sv =
     (case sv_auth sv of None \<Rightarrow> Inr (-1, sv, [])
      | Some a \<Rightarrow>
          (let sv = set_force_auth k cb sv in
           with_pack k sv (\<lambda>i.
             case sm_bp_auth_first_bp_auth now i a (sv_bps sv) of (r, a, bps, cs) \<Rightarrow>
               map_sum id (\<lambda>(sv, cs). (r, sv, cs)) (auth_dispatch now cs (sv\<lparr>sv_auth := Some a, sv_bps := bps\<rparr>)))))"

definition sm_sv_bp_is_authenticating :: "int \<Rightarrow> 'c sm_sv_bp \<Rightarrow> fault + bool" where
  "sm_sv_bp_is_authenticating k sv =
     (case sv_auth sv of None \<Rightarrow> Inr False
      | Some a \<Rightarrow>
          with_pack k sv (\<lambda>i. if m_is_connected (sv_bps sv ! i) then Inr False
            else Inr (k = sm_bp_auth_get_bp_authenticating a (sv_bps sv))))"

section \<open>The periodic step\<close>

definition sv_auth_process :: "int \<Rightarrow> node_id_ctl \<Rightarrow> 'c sm_sv_bp \<Rightarrow> 'c sv_result" where
  "sv_auth_process now ctl sv =
     (case sv_auth sv of None \<Rightarrow> Inr (sv, [])
      | Some a \<Rightarrow>
          (case sm_bp_auth_process now ctl a (sv_bps sv) (sv_co sv) of
             Inl f \<Rightarrow> Inl f
           | Inr (_, a, bps, co, cs) \<Rightarrow>
               auth_dispatch now cs (sv\<lparr>sv_auth := Some a, sv_bps := bps, sv_co := co\<rparr>)))"

text \<open>The retain callbacks queue commands without a callback, then the retain module counts.\<close>

definition sv_retain_process :: "int \<Rightarrow> 'c sm_sv_bp \<Rightarrow> 'c sv_result" where
  "sv_retain_process now sv =
     (case sm_bp_retain_process now (sv_retain sv) (sv_bps sv) of (reqs, _, r, bps) \<Rightarrow>
        and_then (run_all (\<lambda>(i, cmd). set_cmd now (int i) cmd Null_Buf No_Callback) reqs sv)
          (\<lambda>sv. Inr (sv\<lparr>sv_retain := r, sv_bps := bps\<rparr>, [])))"

definition sv_check_pack :: "int \<Rightarrow> int \<Rightarrow> 'c sm_sv_bp \<Rightarrow> 'c sv_result" where
  "sv_check_pack now k sv =
     with_pack k sv (\<lambda>i.
       let bp = sv_bps sv ! i in
       if \<not> m_is_connected bp then Inr (sv, [])
       else if timed_out now (m_timeout bp) \<and> \<not> sv_low_data sv then
         (let sv' = sv_set_bp i (sm_bp_reset now) sv in
          Inr (sv', map (\<lambda>s. Disconnected s (m_id bp) (bp_sn (m_data bp))) (sv_slots on_bp_disconnected sv)
                    @ map (\<lambda>s. Update_Data s (m_id bp) (m_data (sv_bps sv' ! i))) (sv_slots on_bp_update_data sv')))
       else Inr (sv, []))"

definition sv_next_cmd :: "bool \<Rightarrow> 'c sm_sv_bp \<Rightarrow> 'c sv_result" where
  "sv_next_cmd busy sv =
     (if \<not> sm_bp_co_is_busy busy (sv_co sv) \<and> sv_current sv = None \<and> sv_head sv \<noteq> sv_tail sv then
        (let slot = sv_tail sv;
             sv = sv\<lparr>sv_current := Some slot,
                     sv_tail := (if slot + 1 \<ge> BP_CMD_QUEUE_SIZE then 0 else slot + 1)\<rparr>
         in case sm_bp_co_set_cmd (Sv_Slot slot) (sv_cmds sv ! slot) (sv_co sv) of
              (_, co, reqs) \<Rightarrow> Inr (sv\<lparr>sv_co := co\<rparr>, map Sdo reqs))
      else Inr (sv, []))"

definition sm_sv_bp_check_err :: "int \<Rightarrow> 'c sm_sv_bp \<Rightarrow> int \<times> 'c sm_sv_bp" where
  "sm_sv_bp_check_err now sv =
     (case sm_bp_get_active_retain_numbs now (sv_retain sv) (sv_bps sv) of (n, r, bps) \<Rightarrow>
        (let dischar = filter (\<lambda>i. m_is_connected (bps ! i) \<and> bp_state (m_data (bps ! i)) = BP_STATE_DISCHARGING)
                         [0..<nat (sv_numb sv)]
         in (if n \<noteq> 0 \<and> dischar \<noteq> [] then -1 else if n \<noteq> 0 then -2 else 0,
             sv\<lparr>sv_retain := r, sv_bps := bps\<rparr>)))"

text \<open>\<open>busy\<close> is the state of the SDO client; the return code is that of \<^verbatim>\<open>sm_sv_bp_check_err\<close>.\<close>

definition sv_process_body :: "int \<Rightarrow> node_id_ctl \<Rightarrow> bool \<Rightarrow> 'c sm_sv_bp \<Rightarrow> 'c sv_result" where
  "sv_process_body now ctl busy sv =
     and_then (sv_auth_process now ctl sv)
       (\<lambda>sv. and_then (sv_retain_process now sv)
         (\<lambda>sv. and_then (run_all (sv_check_pack now) (map int [0..<nat (sv_numb sv)]) sv)
           (sv_next_cmd busy)))"

definition sm_sv_bp_process ::
    "int \<Rightarrow> node_id_ctl \<Rightarrow> bool \<Rightarrow> 'c sm_sv_bp \<Rightarrow> fault + (int \<times> 'c sm_sv_bp \<times> 'c sv_call list)" where
  "sm_sv_bp_process now ctl busy sv =
     map_sum id (\<lambda>(sv, cs). case sm_sv_bp_check_err now sv of (r, sv) \<Rightarrow> (r, sv, cs))
       (sv_process_body now ctl busy sv)"

section \<open>The invariant of the service\<close>

definition opt_auth_ok :: "sm_bp_auth option \<Rightarrow> sm_bp list \<Rightarrow> sm_bp_co \<Rightarrow> bool" where
  "opt_auth_ok oa bps co = (case oa of None \<Rightarrow> True | Some a \<Rightarrow> auth_ok (a, bps, co))"

definition sv_ok :: "'c sm_sv_bp \<Rightarrow> bool" where
  "sv_ok sv \<longleftrightarrow> bps_ok (sv_bps sv) \<and> 0 < sv_numb sv \<and> sv_numb sv \<le> int SM_BP_NUMBER_DEFAULT
     \<and> uint (co_bp_numb (sv_co sv)) = sv_numb sv
     \<and> length (sv_cmds sv) = BP_CMD_QUEUE_SIZE \<and> sv_head sv < BP_CMD_QUEUE_SIZE \<and> sv_tail sv < BP_CMD_QUEUE_SIZE
     \<and> length (sv_temp sv) = BP_DEVICE_SN_SIZE \<and> retain_ok (sv_retain sv)
     \<and> opt_auth_ok (sv_auth sv) (sv_bps sv) (sv_co sv)"

text \<open>The invariant without the CANopen state, which the authentication does not look at.\<close>

lemma opt_auth_ok_bps: "opt_auth_ok oa bps co \<Longrightarrow> bps_ok bps' \<Longrightarrow> opt_auth_ok oa bps' co'"
  by (auto simp: opt_auth_ok_def auth_ok_def split: option.splits)

lemma opt_auth_ok_co: "opt_auth_ok oa bps co \<Longrightarrow> opt_auth_ok oa bps co'"
  by (auto simp: opt_auth_ok_def auth_ok_def split: option.splits)

lemma opt_auth_ok_simps [simp]:
  "opt_auth_ok None bps co" "opt_auth_ok (Some a) bps co \<longleftrightarrow> auth_ok (a, bps, co)"
  by (simp_all add: opt_auth_ok_def)

lemma opt_auth_ok_cmd:
  "opt_auth_ok oa bps co \<Longrightarrow> opt_auth_ok (map_option (sm_bp_on_auth_cmd now k cmd ok bps) oa) bps co"
  by (cases oa) (simp_all add: auth_on_cmd_ok)

named_theorems sv_ok_intros "operations that keep the invariant of the service"

lemma sv_ok_reset_current [sv_ok_intros]: "sv_ok sv \<Longrightarrow> sv_ok (sm_sv_bp_reset_current_cmd sv)"
  by (simp add: sv_ok_def sm_sv_bp_reset_current_cmd_def)

lemma sv_ok_push [sv_ok_intros]: "sv_ok sv \<Longrightarrow> sv_ok (sv_push c sv)"
  by (simp add: sv_ok_def sv_push_def)

lemma sv_ok_force [sv_ok_intros]:
  "sv_ok sv \<Longrightarrow> sv_ok (sm_bp_reset_force_assigning sv)" "sv_ok sv \<Longrightarrow> sv_ok (set_force_auth k cb sv)"
  by (simp_all add: sv_ok_def sm_bp_reset_force_assigning_def set_force_auth_def)

lemma sv_ok_bps: "sv_ok sv \<Longrightarrow> bps_ok bps \<Longrightarrow> sv_ok (sv\<lparr>sv_bps := bps\<rparr>)"
  by (auto simp: sv_ok_def intro: opt_auth_ok_bps)

lemma sv_ok_set_bp:
  assumes "sv_ok sv" "\<And>bp. bp_ok i bp \<Longrightarrow> bp_ok i (f bp)"
  shows "sv_ok (sv_set_bp i f sv)"
proof (cases "i < 3")
  case True
  have ok: "bps_ok (sv_bps sv)" using assms(1) by (simp add: sv_ok_def)
  have "bp_ok i (f (sv_bps sv ! i))" by (rule assms(2) [OF bps_ok_nth [OF ok True]])
  then show ?thesis
    unfolding sv_set_bp_def by (intro sv_ok_bps assms(1) bps_ok_update ok)
next
  case False
  then have "length (sv_bps sv) \<le> i" using assms(1) by (simp add: sv_ok_def bps_ok_length)
  then show ?thesis using assms(1) by (simp add: sv_set_bp_def list_update_beyond)
qed

lemma sv_ok_co:
  "sv_ok sv \<Longrightarrow> co_bp_numb co = co_bp_numb (sv_co sv) \<Longrightarrow> sv_ok (sv\<lparr>sv_co := co\<rparr>)"
  by (auto simp: sv_ok_def intro: opt_auth_ok_co)

lemma sv_ok_auth:
  "sv_ok sv \<Longrightarrow> auth_ok (a, sv_bps sv, sv_co sv) \<Longrightarrow> sv_ok (sv\<lparr>sv_auth := Some a\<rparr>)"
  by (simp add: sv_ok_def)

lemma with_pack_ok [sv_ok_intros]:
  "(\<And>i. int i = k \<Longrightarrow> ends_in P (f i)) \<Longrightarrow> ends_in P (with_pack k sv f)"
  by (simp add: with_pack_def)

lemma bp_ok_map_data: "(bp_data_ok (m_data bp) \<Longrightarrow> bp_data_ok (f (m_data bp))) \<Longrightarrow> bp_ok i bp \<Longrightarrow> bp_ok i (bp_map_data f bp)"
  by (simp add: bp_ok_def bp_map_data_def)

lemma bp_ok_connect: "bp_ok i bp \<Longrightarrow> bp_ok i (bp_connect now bp)"
  by (simp add: bp_connect_def bp_ok_def)

lemma sv_ok_on_auth_cmd:
  "sv_ok sv \<Longrightarrow> sv_ok (sv\<lparr>sv_auth := map_option (sm_bp_on_auth_cmd now k cmd ok (sv_bps sv)) (sv_auth sv)\<rparr>)"
  by (simp add: sv_ok_def opt_auth_ok_cmd)

lemma set_cmd_fails_ok: "sv_ok sv \<Longrightarrow> ends_in sv_ok (set_cmd_fails now k cmd data cb sv)"
  by (auto simp: set_cmd_fails_def sv_ok_on_auth_cmd sv_ok_reset_current split: on_cmd.splits
      intro!: with_pack_ok)

lemma set_cmd_ok [sv_ok_intros]: "sv_ok sv \<Longrightarrow> ends_in sv_ok (set_cmd now k cmd data cb sv)"
  using set_cmd_fails_ok [of sv now k cmd data cb]
  by (auto simp: set_cmd_def sm_sv_bp_set_cmd_def with_pack_def sv_ok_push ends_in_def
      split: sum.splits prod.splits)

lemma sync_info_ok [sv_ok_intros]: "sv_ok sv \<Longrightarrow> ends_in sv_ok (sm_bp_sync_info now k sv)"
  unfolding sm_bp_sync_info_def by (rule ends_in_run_all) (auto intro: set_cmd_ok)

lemma on_sync_info_ok:
  assumes "sv_ok sv"
  shows "ends_in sv_ok (sm_bp_on_sync_info now k cmd ok sv)"
proof -
  have temp: "length (sv_temp sv) = 32" using assms by (simp add: sv_ok_def)
  have retry: "ends_in sv_ok (and_then (if read_cmd cmd then set_cmd now k cmd Sv_Temp Sync_Info sv else Inr (sv, []))
      (\<lambda>sv. Inr (sm_sv_bp_reset_current_cmd sv, [])))"
    by (rule ends_in_and_then [of sv_ok]) (simp_all add: assms set_cmd_ok sv_ok_reset_current)
  have data: "sv_ok (sv_set_bp i (bp_map_data (\<lambda>d. d\<lparr>bp_version := sv_temp sv\<rparr>)) sv)"
    "sv_ok (sv_set_bp i (bp_map_data (\<lambda>d. d\<lparr>bp_assignedSn := sv_temp sv\<rparr>)) sv)" for i
    by (rule sv_ok_set_bp [OF assms bp_ok_map_data]; simp add: bp_data_ok_def temp)+
  have sn: "sv_ok (sv_set_bp i (bp_map_data (\<lambda>d. d\<lparr>bp_sn := sn\<rparr>)) sv)"
    if "i < length (sv_bps sv)" "store_sn (sv_temp sv) (bp_sn (m_data (sv_bps sv ! i))) = Inr sn" for i sn
  proof -
    have "length sn = 32"
      using store_sn_length [OF that(2)] assms bps_ok_nth [of "sv_bps sv" i] that(1)
      by (simp add: sv_ok_def bps_ok_length bp_ok_def bp_data_ok_def)
    then show ?thesis by (intro sv_ok_set_bp [OF assms bp_ok_map_data]) (simp_all add: bp_data_ok_def)
  qed
  show ?thesis
    using assms retry
    by (auto simp: sm_bp_on_sync_info_def Let_def with_pack_def sv_ok_reset_current data sn
        split: sum.splits)
qed

lemma on_sync_ok_any: "sv_ok sv \<Longrightarrow> ends_in sv_ok (call_cmd_cb now c ok sv)"
  by (auto simp: call_cmd_cb_def sv_ok_on_auth_cmd on_sync_info_ok split: on_cmd.splits)

lemma event_handle_ok [sv_ok_intros]:
  assumes "sv_ok sv"
  shows "ends_in sv_ok (sm_bp_auth_event_handle now k ev sn soc sv)"
proof -
  have con: "sv_ok (sv_set_bp i (bp_connect now) sv)" for i
    by (rule sv_ok_set_bp [OF assms bp_ok_connect])
  have sync: "ends_in sv_ok (and_then (Inr (sv', cs)) (run_all (\<lambda>cmd. set_cmd now k cmd Sv_Temp Sync_Info) cmds))"
    if "sv_ok sv'" for sv' cs cmds
    by (rule ends_in_and_then [of sv_ok]) (auto intro: that ends_in_run_all set_cmd_ok)
  show ?thesis
    unfolding sm_bp_auth_event_handle_def
  proof (rule ends_in_and_then [of sv_ok], goal_cases)
    case 1
    then show ?case
      using con assms sync by (auto simp: with_pack_def Let_def call_assign_fail_def simp del: and_then_simps
          split: SM_BP_AUTH_EVENT.splits)
  qed (auto simp: sv_ok_force split: option.splits)
qed

lemma update_data_ok:
  assumes "sv_ok sv"
  shows "ends_in sv_ok (sm_bp_co_update_data_callback now i sv)"
proof -
  have con: "sv_ok (sv_set_bp i (bp_connect now) s)" if "sv_ok s" for s :: "'a sm_sv_bp"
    by (rule sv_ok_set_bp [OF that bp_ok_connect])
  have sync: "ends_in sv_ok (and_then (Inr (s, cs)) (\<lambda>sv. if \<not> sv_low_data sv then sm_bp_sync_info now k sv else Inr (sv, [])))"
    if "sv_ok s" for s :: "'a sm_sv_bp" and cs k
    by (rule ends_in_and_then [of sv_ok]) (auto intro: that sync_info_ok)
  show ?thesis
    unfolding sm_bp_co_update_data_callback_def Let_def
    by (rule ends_in_and_then [of sv_ok]) (use assms con sync in \<open>auto simp del: and_then_simps\<close>)
qed

lemma extract_pdo_ok:
  assumes "sv_ok sv"
  shows "ends_in sv_ok (sm_bp_co_extract_pdo now can_id d sv)"
proof -
  have st: "sv_ok (sv_set_bp i (bp_store_pdo now c d) sv)" for i c
    by (rule sv_ok_set_bp [OF assms bp_store_ok])
  have "ends_in sv_ok (and_then (sm_bp_co_update_data_callback now i s)
      (\<lambda>sv. Inr (sv_set_bp i (\<lambda>bp. bp\<lparr>m_data_count := 0\<rparr>) sv, [])))" if "sv_ok s" for i and s :: "'a sm_sv_bp"
    by (rule ends_in_and_then [OF update_data_ok [OF that]]) (simp add: sv_ok_set_bp bp_ok_flags)
  then show ?thesis using assms st by (auto simp: sm_bp_co_extract_pdo_def with_pack_def Let_def)
qed

lemma received_data_ok: "sv_ok sv \<Longrightarrow> ends_in sv_ok (sm_bp_co_received_data now can_id d sv)"
  by (simp add: sm_bp_co_received_data_def extract_pdo_ok)

lemma sdo_cb_ok:
  assumes "sv_ok sv"
  shows "ends_in sv_ok (sm_co_bp_sdo_cb now status sv)"
proof (cases "co_cmd (sv_co sv)")
  case (Some ref)
  have fin: "sv_ok (s\<lparr>sv_co := sm_bp_co_reset_cmd (sv_co s)\<rparr>)" if "sv_ok s" for s :: "'a sm_sv_bp"
    by (rule sv_ok_co [OF that]) (simp add: sm_bp_co_reset_cmd_def)
  show ?thesis
    unfolding sm_co_bp_sdo_cb_def Some option.case
    by (rule ends_in_and_then [of sv_ok])
       (auto simp: assms on_sync_ok_any Let_def sm_bp_co_finish_cmd_callback_def fin sv_ok_reset_current)
qed (simp add: sm_co_bp_sdo_cb_def assms)

lemma auth_dispatch_ok: "sv_ok sv \<Longrightarrow> ends_in sv_ok (auth_dispatch now cs sv)"
  unfolding auth_dispatch_def
  by (rule ends_in_run_all) (auto split: auth_call.splits intro: event_handle_ok)

lemma process_co_numb:
  "sm_bp_auth_process now ctl a bps co = Inr (r, a', bps', co', cs) \<Longrightarrow> co_bp_numb co' = co_bp_numb co"
  by (auto simp: sm_bp_auth_process_def auth_verify_def co_set_cmd_auth Let_def
      split: option.splits BP_ASSIGN_STATE.splits if_splits sum.splits)

lemma sv_ok_auth_update:
  assumes "sv_ok sv" "auth_ok (a, bps, co)" "co_bp_numb co = co_bp_numb (sv_co sv)"
  shows "sv_ok (sv\<lparr>sv_auth := Some a, sv_bps := bps, sv_co := co\<rparr>)"
  using assms by (simp add: sv_ok_def auth_ok_def)

lemma sv_auth_process_ok: "sv_ok sv \<Longrightarrow> ends_in sv_ok (sv_auth_process now ctl sv)"
proof (cases "sv_auth sv")
  case (Some a)
  assume ok: "sv_ok sv"
  then have a: "auth_ok (a, sv_bps sv, sv_co sv)" by (simp add: sv_ok_def Some)
  show ?thesis
  proof (cases "sm_bp_auth_process now ctl a (sv_bps sv) (sv_co sv)")
    case (Inr p)
    then obtain r a' bps co cs where p: "sm_bp_auth_process now ctl a (sv_bps sv) (sv_co sv) = Inr (r, a', bps, co, cs)"
      by (cases p) auto
    have "sv_ok (sv\<lparr>sv_auth := Some a', sv_bps := bps, sv_co := co\<rparr>)"
      by (rule sv_ok_auth_update [OF ok auth_process_ok [OF a p] process_co_numb [OF p]])
    then show ?thesis by (simp add: sv_auth_process_def Some p auth_dispatch_ok)
  qed (simp add: sv_auth_process_def Some)
qed (simp add: sv_auth_process_def)

lemma set_cmd_quiet:
  assumes "set_cmd now k cmd Null_Buf No_Callback sv = Inr (sv', cs)"
  shows "sv_bps sv' = sv_bps sv \<and> sv_retain sv' = sv_retain sv \<and> cs = []"
  using assms by (auto simp: set_cmd_def sm_sv_bp_set_cmd_def set_cmd_fails_def with_pack_def sv_push_def split: if_splits)

lemma sv_retain_process_ok:
  assumes "sv_ok sv"
  shows "ends_in sv_ok (sv_retain_process now sv)"
proof -
  obtain reqs n r bps where p: "sm_bp_retain_process now (sv_retain sv) (sv_bps sv) = (reqs, n, r, bps)"
    by (metis prod_cases4)
  have c: "sm_bp_get_active_retain_numbs now (sv_retain sv) (sv_bps sv) = (n, r, bps)"
    using p by (simp add: sm_bp_retain_process_def)
  have r: "retain_ok r" using retain_numbs_ok [OF _ c] assms by (simp add: sv_ok_def)
  have b: "bps_ok bps" using bps_same_ok [OF retain_numbs_same [OF c]] assms by (simp add: sv_ok_def)
  have fin: "sv_ok (s\<lparr>sv_retain := r, sv_bps := bps\<rparr>)" if "sv_ok s" for s :: "'a sm_sv_bp"
    using that r b by (auto simp: sv_ok_def intro: opt_auth_ok_bps)
  show ?thesis
    unfolding sv_retain_process_def p prod.case
    by (rule ends_in_and_then [of sv_ok])
       (auto intro: ends_in_run_all assms set_cmd_ok simp: fin split: prod.splits)
qed

lemma sv_check_pack_ok: "sv_ok sv \<Longrightarrow> ends_in sv_ok (sv_check_pack now k sv)"
  unfolding sv_check_pack_def
proof (rule with_pack_ok)
  fix i assume ok: "sv_ok sv"
  have "sv_ok (sv_set_bp i (sm_bp_reset now) sv)"
    by (rule sv_ok_set_bp [OF ok bp_ok_reset]) (simp add: bp_ok_def)
  then show "ends_in sv_ok (let bp = sv_bps sv ! i in
       if \<not> m_is_connected bp then Inr (sv, [])
       else if timed_out now (m_timeout bp) \<and> \<not> sv_low_data sv then
         (let sv' = sv_set_bp i (sm_bp_reset now) sv in
          Inr (sv', map (\<lambda>s. Disconnected s (m_id bp) (bp_sn (m_data bp))) (sv_slots on_bp_disconnected sv)
                    @ map (\<lambda>s. Update_Data s (m_id bp) (m_data (sv_bps sv' ! i))) (sv_slots on_bp_update_data sv')))
       else Inr (sv, []))"
    using ok by (simp add: Let_def)
qed

lemma sv_next_cmd_ok: "sv_ok sv \<Longrightarrow> ends_in sv_ok (sv_next_cmd busy sv)"
  by (auto simp: sv_next_cmd_def Let_def sv_ok_def split: prod.splits
      dest!: arg_cong [where f = "\<lambda>x. co_bp_numb (fst (snd x))"] simp: co_set_cmd_frame intro: opt_auth_ok_co)

lemma sv_body_ok: "sv_ok sv \<Longrightarrow> ends_in sv_ok (sv_process_body now ctl busy sv)"
  unfolding sv_process_body_def
  by (intro ends_in_and_then [of sv_ok]) (auto intro: sv_auth_process_ok sv_retain_process_ok
      ends_in_run_all sv_check_pack_ok sv_next_cmd_ok)

lemma check_err_ok: "sv_ok sv \<Longrightarrow> sv_ok (snd (sm_sv_bp_check_err now sv))"
  by (auto simp: sm_sv_bp_check_err_def Let_def sv_ok_def split: prod.splits
      intro: retain_numbs_ok opt_auth_ok_bps bps_same_ok [OF retain_numbs_same])

lemma check_err_ok': "sv_ok sv \<Longrightarrow> sm_sv_bp_check_err now sv = (r, sv') \<Longrightarrow> sv_ok sv'"
  using check_err_ok [of sv now] by simp

lemma sv_process_ok:
  assumes "sv_ok sv" "sm_sv_bp_process now ctl busy sv = Inr (r, sv', cs)"
  shows "sv_ok sv'"
proof (cases "sv_process_body now ctl busy sv")
  case (Inr p)
  then obtain s c where p: "sv_process_body now ctl busy sv = Inr (s, c)" by (cases p) simp
  have "sv_ok s" by (rule ends_in_D [OF sv_body_ok [OF assms(1)] p])
  from check_err_ok' [OF this] show ?thesis
    using assms(2) p by (auto simp: sm_sv_bp_process_def split: prod.splits)
qed (use assms in \<open>simp add: sm_sv_bp_process_def\<close>)

lemma start_dispatch_ok:
  assumes "sv_ok sv" "auth_ok (a, bps, sv_co sv)"
  shows "ends_in sv_ok (auth_dispatch now cs ((set_force_auth k cb sv)\<lparr>sv_auth := Some a, sv_bps := bps\<rparr>))"
proof (rule auth_dispatch_ok)
  have "sv_ok ((set_force_auth k cb sv)\<lparr>sv_auth := Some a, sv_bps := bps, sv_co := sv_co sv\<rparr>)"
    by (rule sv_ok_auth_update [OF sv_ok_force(2) [OF assms(1)] assms(2)]) (simp add: set_force_auth_def)
  then show "sv_ok ((set_force_auth k cb sv)\<lparr>sv_auth := Some a, sv_bps := bps\<rparr>)"
    by (simp add: set_force_auth_def)
qed

lemma map_ret_ok: "ends_in P r \<Longrightarrow> map_sum id (Pair x) r = Inr (y, s', cs') \<Longrightarrow> P s'"
  by (cases r) auto

lemma sv_auth_ok:
  assumes ok: "sv_ok sv"
  shows "sm_sv_bp_auth now ctl k cb sv = Inr (r, sv', cs) \<Longrightarrow> sv_ok sv'"
    and "sm_sv_first_bp_auth now k cb sv = Inr (r, sv', cs) \<Longrightarrow> sv_ok sv'"
proof -
  have b: "sv_bps (set_force_auth k cb sv) = sv_bps sv" by (simp add: set_force_auth_def)
  have len: "length (sv_bps sv) = 3" using ok by (simp add: sv_ok_def bps_ok_length)
  have a: "auth_ok (a, sv_bps sv, sv_co sv)" if "sv_auth sv = Some a" for a
    using ok that by (simp add: sv_ok_def)
  have gen: "sv_ok sv'"
    if "map_sum id (Pair x) (auth_dispatch now c ((set_force_auth k cb sv)\<lparr>sv_auth := Some a1, sv_bps := b1\<rparr>))
          = Inr (r, sv', cs)" "auth_ok (a1, b1, sv_co sv)" for x c a1 b1
    by (rule map_ret_ok [OF start_dispatch_ok [OF ok that(2)] that(1)])
  have k: "\<not> 3 \<le> nat k \<Longrightarrow> nat k < 3" by simp
  show "sv_ok sv'" if "sm_sv_bp_auth now ctl k cb sv = Inr (r, sv', cs)"
    using that ok gen auth_start_ok [OF a k]
    by (auto simp: sm_sv_bp_auth_def with_pack_def b len Let_def split: option.splits if_splits prod.splits)
  show "sv_ok sv'" if "sm_sv_first_bp_auth now k cb sv = Inr (r, sv', cs)"
    using that ok gen auth_first_ok [OF a k]
    by (auto simp: sm_sv_first_bp_auth_def with_pack_def b len Let_def split: option.splits if_splits prod.splits)
qed

section \<open>The service as a machine\<close>

text \<open>
  What can happen to the service: the calls of the application and of the CAN driver, the SDO client writing its buffer
  (\<open>Received\<close>), and the calls of \<^verbatim>\<open>sm_bp_retain.c\<close> that other parts of the application make on the retain discharge of the
  service (\<open>Retain_Call\<close>).
\<close>

datatype retain_call = Retain_Pause | Retain_Resume | Retain_Activate int nat | Retain_Deactivate int nat | Retain_Count int

definition sv_with_retain :: "fault + (u8 \<times> sm_bp_retain \<times> sm_bp list) \<Rightarrow> 'c sm_sv_bp \<Rightarrow> 'c sv_result" where
  "sv_with_retain x sv = (case x of Inl f \<Rightarrow> Inl f | Inr (_, r, bps) \<Rightarrow> Inr (sv\<lparr>sv_retain := r, sv_bps := bps\<rparr>, []))"

fun sv_retain_call :: "retain_call \<Rightarrow> 'c sm_sv_bp \<Rightarrow> 'c sv_result" where
  "sv_retain_call Retain_Pause sv = Inr (sv\<lparr>sv_retain := snd (sm_bp_retain_pause (sv_retain sv))\<rparr>, [])"
| "sv_retain_call Retain_Resume sv = Inr (sv\<lparr>sv_retain := snd (sm_bp_retain_resume (sv_retain sv))\<rparr>, [])"
| "sv_retain_call (Retain_Activate now k) sv = sv_with_retain (sm_bp_active_retain now (sv_retain sv) (sv_bps sv) k) sv"
| "sv_retain_call (Retain_Deactivate now k) sv = sv_with_retain (sm_bp_deactive_retain now (sv_retain sv) (sv_bps sv) k) sv"
| "sv_retain_call (Retain_Count now) sv = sv_with_retain (Inr (sm_bp_get_active_retain_numbs now (sv_retain sv) (sv_bps sv))) sv"

datatype 'c sv_event =
    Process int node_id_ctl bool
  | Pdo_Frame int u32 "nat \<Rightarrow> u8"
  | Assign_Frame_In int u32 "nat \<Rightarrow> u8"
  | Received buf "u8 list"
  | Sdo_End int SM_SDO_STATUS
  | Set_Cmd int int SM_BP_CMD buf "'c on_cmd"
  | Set_Off_All
  | Do_Auth int node_id_ctl int "'c option"
  | Do_First_Auth int int "'c option"
  | Do_Reset int int
  | Low_Data bool
  | Update_Connect int
  | Reg_Event sm_sv_bp_event_cb
  | Retain_Call retain_call

definition sv_received :: "buf \<Rightarrow> u8 list \<Rightarrow> 'c sm_sv_bp \<Rightarrow> 'c sm_sv_bp" where
  "sv_received b bytes sv =
     (if BP_DEVICE_SN_SIZE < length bytes then sv
      else if b = Sv_Temp then sv\<lparr>sv_temp := overwrite bytes (sv_temp sv)\<rparr>
      else if b = Auth_Buf then
        sv\<lparr>sv_auth := map_option (\<lambda>a. a\<lparr>au_data := overwrite bytes (au_data a)\<rparr>) (sv_auth sv)\<rparr>
      else sv)"

fun sv_step :: "'c sm_sv_bp \<Rightarrow> 'c sv_event \<Rightarrow> 'c sv_result" where
  "sv_step sv (Process now ctl busy) = map_sum id snd (sm_sv_bp_process now ctl busy sv)"
| "sv_step sv (Pdo_Frame now can_id d) = sm_bp_co_received_data now can_id d sv"
| "sv_step sv (Assign_Frame_In now can_id d) =
     Inr (sv\<lparr>sv_auth := map_option (sm_bp_auth_recv_data now can_id d (sv_bps sv)) (sv_auth sv)\<rparr>, [])"
| "sv_step sv (Received b bytes) = Inr (sv_received b bytes sv, [])"
| "sv_step sv (Sdo_End now status) = sm_co_bp_sdo_cb now status sv"
| "sv_step sv (Set_Cmd now k cmd data cb) = set_cmd now k cmd data cb sv"
| "sv_step sv Set_Off_All = sm_sv_bp_set_off_all sv"
| "sv_step sv (Do_Auth now ctl k cb) = map_sum id snd (sm_sv_bp_auth now ctl k cb sv)"
| "sv_step sv (Do_First_Auth now k cb) = map_sum id snd (sm_sv_first_bp_auth now k cb sv)"
| "sv_step sv (Do_Reset now k) = map_sum id (\<lambda>(_, sv). (sv, [])) (sm_sv_bp_reset now k sv)"
| "sv_step sv (Low_Data on) =
     Inr (if on then sm_sv_bp_enter_low_data_mode sv else sm_sv_bp_exit_low_data_mode sv, [])"
| "sv_step sv (Update_Connect k) = sm_sv_bp_update_connect_state k sv"
| "sv_step sv (Reg_Event cb) = Inr (snd (sm_sv_bp_reg_event cb sv), [])"
| "sv_step sv (Retain_Call c) = sv_retain_call c sv"

lemma map_snd_ok: "(\<And>r s cs. x = Inr (r, s, cs) \<Longrightarrow> P s) \<Longrightarrow> ends_in P (map_sum id snd x)"
  by (cases x) auto

lemma set_off_all_ok: "sv_ok sv \<Longrightarrow> ends_in sv_ok (sm_sv_bp_set_off_all sv)"
  unfolding sm_sv_bp_set_off_all_def
  by (rule ends_in_run_all) (auto simp: sv_ok_push intro!: with_pack_ok)

lemma sv_received_ok: "sv_ok sv \<Longrightarrow> sv_ok (sv_received b bytes sv)"
proof -
  have "opt_auth_ok (map_option (\<lambda>a. a\<lparr>au_data := overwrite bytes (au_data a)\<rparr>) oa) bps co"
    if "opt_auth_ok oa bps co" "length bytes \<le> 32" for oa bps co
    using that by (cases oa) (auto simp: auth_ok_def arr_simps split: option.splits)
  then show "sv_ok sv \<Longrightarrow> ?thesis" by (simp add: sv_received_def sv_ok_def arr_simps)
qed

lemma opt_auth_ok_recv:
  "opt_auth_ok oa bps co \<Longrightarrow> opt_auth_ok (map_option (sm_bp_auth_recv_data now can_id d bps) oa) bps co"
  by (cases oa) (simp_all add: auth_recv_ok)

lemma retain_call_ok:
  assumes "sv_ok sv"
  shows "ends_in sv_ok (sv_retain_call c sv)"
proof -
  have ok: "retain_ok (sv_retain sv)" "bps_ok (sv_bps sv)" using assms by (simp_all add: sv_ok_def)
  have set: "sv_ok (sv\<lparr>sv_retain := r, sv_bps := bps\<rparr>)" if "retain_ok r" "bps_ok bps" for r bps
    using that assms by (auto simp: sv_ok_def intro: opt_auth_ok_bps)
  have wr: "ends_in sv_ok (sv_with_retain x sv)" if "\<And>n r bps. x = Inr (n, r, bps) \<Longrightarrow> retain_ok r \<and> bps_ok bps" for x
    using that set by (auto simp: sv_with_retain_def split: sum.split)
  show ?thesis
  proof (cases c)
    case (Retain_Activate now k)
    show ?thesis unfolding Retain_Activate sv_retain_call.simps by (rule wr, rule retain_calls_ok [OF ok]) (erule disjI1)
  next
    case (Retain_Deactivate now k)
    show ?thesis unfolding Retain_Deactivate sv_retain_call.simps by (rule wr, rule retain_calls_ok [OF ok]) (erule disjI2)
  next
    case (Retain_Count now)
    show ?thesis unfolding Retain_Count sv_retain_call.simps
      by (rule wr) (use retain_numbs_ok [OF ok(1)] bps_same_ok [OF retain_numbs_same ok(2)] in blast)
  qed (use ok assms in \<open>simp_all add: sm_bp_retain_pause_def sm_bp_retain_resume_def sv_ok_def retain_ok_def\<close>)
qed

lemma sv_step_ok: "sv_ok sv \<Longrightarrow> ends_in sv_ok (sv_step sv e)"
proof (cases e)
  case (Do_Reset now k)
  assume ok: "sv_ok sv"
  have "sv_ok (sv_set_bp i (sm_bp_reset now) sv)" for i
    by (rule sv_ok_set_bp [OF ok bp_ok_reset]) (simp add: bp_ok_def)
  then show ?thesis using ok by (simp add: Do_Reset sm_sv_bp_reset_def with_pack_def)
next
  case (Low_Data on)
  assume "sv_ok sv"
  then show ?thesis
    by (simp add: Low_Data sm_sv_bp_enter_low_data_mode_def sm_sv_bp_exit_low_data_mode_def
        sm_sv_bp_remove_all_cmd_def sm_sv_bp_reset_current_cmd_def sv_ok_def)
next
  case (Update_Connect k)
  assume "sv_ok sv"
  then show ?thesis
    by (simp add: Update_Connect sm_sv_bp_update_connect_state_def with_pack_def sv_ok_set_bp bp_ok_flags)
next
  case (Reg_Event cb)
  assume "sv_ok sv"
  then show ?thesis by (simp add: Reg_Event sm_sv_bp_reg_event_def sv_ok_def split: option.split)
next
  case (Assign_Frame_In now can_id d)
  assume "sv_ok sv"
  then show ?thesis by (simp add: Assign_Frame_In sv_ok_def opt_auth_ok_recv)
qed (auto intro!: map_snd_ok dest: sv_process_ok sv_auth_ok simp: received_data_ok sdo_cb_ok
       set_cmd_ok set_off_all_ok sv_received_ok retain_call_ok)

definition sv_sstep :: "fault + 'c sm_sv_bp \<Rightarrow> 'c sv_event \<Rightarrow> fault + 'c sm_sv_bp" where
  "sv_sstep st e = (case st of Inl f \<Rightarrow> Inl f | Inr sv \<Rightarrow> map_sum id fst (sv_step sv e))"

interpretation sv: event_machine sv_sstep "\<lambda>st. case st of Inl _ \<Rightarrow> True | Inr sv \<Rightarrow> sv_ok sv"
proof (unfold_locales, goal_cases)
  case (1 st e)
  show ?case
  proof (cases st)
    case (Inr sv)
    then have "ends_in sv_ok (sv_step sv e)" using 1 sv_step_ok by auto
    then show ?thesis by (cases "sv_step sv e") (auto simp: Inr sv_sstep_def)
  qed (simp add: sv_sstep_def)
qed

end
