(* ===== verification/Pms_Ctl.thy ===== *)
theory Pms_Ctl
  imports Sv_Bp
begin

text \<open>
  \<^verbatim>\<open>services/pms/sm_pms_controller.c\<close>: the controller that moves the load (or the charger) from one
  pack to another. It owns no pack; it reads them through the battery service and puts commands
  into that service's queue. The state of the model is therefore the controller beside the
  service, and an operation returns both.

  The callbacks the service knows of are the controller's own (\<open>Pms_On_Cmd\<close>) and those of its users
  (type \<open>'d\<close>); \<open>'u\<close> names the callback, with its argument, of a switch or merge request. A callback
  of the service that belongs to the controller is run on the result of the service's operation:
  the only thing it reads of the service, the pack data, is not changed by the operation after it.
\<close>

section \<open>State\<close>

datatype SM_PMS_ST = SM_PMS_ST_IDLE | SM_PMS_ST_PRE_SWITCH | SM_PMS_ST_MAIN_SWITCH | SM_PMS_ST_FIN_SWITCH
  | SM_PMS_ST_MERGE | SM_PMS_ST_RECOVERY | SM_PMS_ST_FAIL

record 'u sm_pms_ctl =
  ctl_state :: SM_PMS_ST
  ctl_timeout :: elapsed_timer
  ctl_shadow :: "int list"
  ctl_cmd :: SM_BP_CMD
  ctl_in_process :: bool
  ctl_current_bp :: int
  ctl_next_bp :: int
  ctl_cb :: "'u option"

datatype 'd bp_client = Pms_On_Cmd | Bp_Client 'd

text \<open>What leaves the two components; the codes are \<open>0\<close> (success) and \<open>-1\<close>.\<close>

datatype ('d, 'u) pms_call = Bp_Call "'d bp_client sv_call" | Switch_Done 'u int u8

type_synonym ('d, 'u) pms_sys = "'u sm_pms_ctl \<times> 'd bp_client sm_sv_bp"
type_synonym ('d, 'u) pms_result = "(('d, 'u) pms_sys, ('d, 'u) pms_call) result"
type_synonym ('d, 'u) pms_return = "fault + (int \<times> ('d, 'u) pms_sys \<times> ('d, 'u) pms_call list)"

text \<open>The controller is a static object; creation leaves its command as it is.\<close>

definition g_pms_ctl_default :: "'u sm_pms_ctl" where
  "g_pms_ctl_default =
     \<lparr>ctl_state = SM_PMS_ST_IDLE, ctl_timeout = \<lparr>m_duration = 0, m_start_time = 0\<rparr>,
      ctl_shadow = replicate SM_BP_NUMBER_DEFAULT BP_STATE_IDLE, ctl_cmd = BP_CMD_NUMBER, ctl_in_process = False,
      ctl_current_bp = -1, ctl_next_bp = -1, ctl_cb = None\<rparr>"

definition sm_pms_ctl_create :: "int \<Rightarrow> 'u sm_pms_ctl \<Rightarrow> 'u sm_pms_ctl" where
  "sm_pms_ctl_create now ctl =
     ctl\<lparr>ctl_state := SM_PMS_ST_IDLE, ctl_shadow := replicate SM_BP_NUMBER_DEFAULT BP_STATE_IDLE,
         ctl_timeout := elapsed_timer_resetz now 5000 (ctl_timeout ctl)\<rparr>"

definition sm_pms_ctl_destroy :: "'u sm_pms_ctl \<Rightarrow> 'u sm_pms_ctl" where
  "sm_pms_ctl_destroy ctl =
     ctl\<lparr>ctl_cmd := BP_CMD_NUMBER, ctl_cb := None, ctl_next_bp := -1, ctl_current_bp := -1,
         ctl_state := SM_PMS_ST_IDLE\<rparr>"

definition pms_reset_cmd :: "'u sm_pms_ctl \<Rightarrow> 'u sm_pms_ctl" where
  "pms_reset_cmd ctl =
     ctl\<lparr>ctl_cmd := BP_CMD_NUMBER, ctl_next_bp := -1, ctl_current_bp := -1, ctl_cb := None,
         ctl_in_process := False\<rparr>"

section \<open>Reading the packs\<close>

text \<open>\<^verbatim>\<open>sm_sv_bp_get_data(...)->m_state\<close> without a test for the null pointer.\<close>

definition bp_state_at :: "int \<Rightarrow> 'c sm_sv_bp \<Rightarrow> fault + int" where
  "bp_state_at k sv =
     (case sm_sv_bp_get_data k sv of Inl f \<Rightarrow> Inl f | Inr None \<Rightarrow> Inl Null_Deref | Inr (Some d) \<Rightarrow> Inr (bp_state d))"

definition pms_shadow_of :: "int \<Rightarrow> 'c sm_sv_bp \<Rightarrow> fault + int" where
  "pms_shadow_of k sv =
     (case sm_sv_bp_get_data k sv of Inl f \<Rightarrow> Inl f | Inr None \<Rightarrow> Inr BP_STATE_IDLE
      | Inr (Some d) \<Rightarrow> Inr (bp_state d mod 256))"

fun collect :: "(fault + 'a) list \<Rightarrow> fault + 'a list" where
  "collect [] = Inr []"
| "collect (x # xs) = (case x of Inl f \<Rightarrow> Inl f | Inr a \<Rightarrow> map_sum id ((#) a) (collect xs))"

abbreviation (input) pack_indices :: "int list" where "pack_indices \<equiv> [0, 1, 2]"

definition pms_set_state :: "int \<Rightarrow> SM_PMS_ST \<Rightarrow> ('d, 'u) pms_sys \<Rightarrow> ('d, 'u) pms_result" where
  "pms_set_state now st = (\<lambda>(ctl, sv).
     let ctl = ctl\<lparr>ctl_state := st, ctl_timeout := elapsed_timer_reset now (ctl_timeout ctl)\<rparr> in
     if st = SM_PMS_ST_IDLE then
       (case collect (map (\<lambda>k. pms_shadow_of k sv) pack_indices) of Inl f \<Rightarrow> Inl f
        | Inr sh \<Rightarrow> Inr ((ctl\<lparr>ctl_shadow := sh\<rparr>, sv), []))
     else Inr ((ctl, sv), []))"

section \<open>Commands to the packs\<close>

definition set_shadow :: "int \<Rightarrow> int \<Rightarrow> ('d, 'u) pms_sys \<Rightarrow> ('d, 'u) pms_result" where
  "set_shadow k st = (\<lambda>(ctl, sv).
     if k < 0 \<or> length (ctl_shadow ctl) \<le> nat k then Inl Out_Of_Bounds
     else Inr ((ctl\<lparr>ctl_shadow := (ctl_shadow ctl)[nat k := st]\<rparr>, sv), []))"

text \<open>\<open>ok\<close> is \<^verbatim>\<open>_err == SM_BP_CMD_SUCCESS\<close>.\<close>

definition pms_on_cmd_bp :: "int \<Rightarrow> int \<Rightarrow> SM_BP_CMD \<Rightarrow> bool \<Rightarrow> ('d, 'u) pms_sys \<Rightarrow> ('d, 'u) pms_result" where
  "pms_on_cmd_bp now k cmd ok sys =
     (if cmd \<notin> {BP_CMD_ONLY_DISCHARGE, BP_CMD_DISCHARGE, BP_CMD_CHARGE, BP_CMD_STANDBY} then Inr (sys, [])
      else and_then
        (if \<not> ok then Inr (sys, [])
         else (case ctl_state (fst sys) of
                 SM_PMS_ST_PRE_SWITCH \<Rightarrow>
                   if cmd = BP_CMD_ONLY_DISCHARGE then set_shadow k BP_STATE_ONLY_DISCHARGING sys else Inr (sys, [])
               | SM_PMS_ST_RECOVERY \<Rightarrow> pms_set_state now SM_PMS_ST_IDLE sys
               | SM_PMS_ST_MAIN_SWITCH \<Rightarrow> set_shadow k BP_STATE_DISCHARGING sys
               | SM_PMS_ST_MERGE \<Rightarrow> set_shadow k BP_STATE_DISCHARGING sys
               | SM_PMS_ST_FIN_SWITCH \<Rightarrow> set_shadow k BP_STATE_STANDBY sys
               | _ \<Rightarrow> Inr (sys, [])))
        (\<lambda>(ctl, sv). Inr ((ctl\<lparr>ctl_in_process := False\<rparr>, sv), [])))"

text \<open>The calls of the service, in order: those to the controller are run, the others go on.\<close>

definition pms_dispatch :: "int \<Rightarrow> 'd bp_client sv_call list \<Rightarrow> ('d, 'u) pms_sys \<Rightarrow> ('d, 'u) pms_result" where
  "pms_dispatch now =
     run_all (\<lambda>c sys. case c of Cmd_Done Pms_On_Cmd k cmd ok _ \<Rightarrow> pms_on_cmd_bp now k cmd ok sys
                      | c \<Rightarrow> Inr (sys, [Bp_Call c]))"

text \<open>A failing \<^verbatim>\<open>sm_sv_bp_set_cmd\<close> calls back at once, before the command is marked as in process.\<close>

definition pms_set_cmd :: "int \<Rightarrow> SM_BP_CMD \<Rightarrow> int \<Rightarrow> ('d, 'u) pms_sys \<Rightarrow> ('d, 'u) pms_result" where
  "pms_set_cmd now cmd k = (\<lambda>(ctl, sv).
     case sm_sv_bp_set_cmd now k cmd Null_Buf (Client Pms_On_Cmd) sv of Inl f \<Rightarrow> Inl f
     | Inr (_, sv, cs) \<Rightarrow>
         and_then (pms_dispatch now cs (ctl, sv)) (\<lambda>(ctl, sv). Inr ((ctl\<lparr>ctl_in_process := True\<rparr>, sv), [])))"

section \<open>The states\<close>

definition pms_expired :: "int \<Rightarrow> ('d, 'u) pms_sys \<Rightarrow> bool" where
  "pms_expired now sys \<longleftrightarrow> timed_out now (ctl_timeout (fst sys))"

definition pms_recovery :: "int \<Rightarrow> ('d, 'u) pms_sys \<Rightarrow> ('d, 'u) pms_result" where
  "pms_recovery now sys =
     (if pms_expired now sys then pms_set_state now SM_PMS_ST_FAIL sys
      else if ctl_in_process (fst sys) then Inr (sys, [])
      else if ctl_current_bp (fst sys) \<noteq> -1 \<and> ctl_current_bp (fst sys) < int SM_BP_NUMBER_DEFAULT
      then pms_set_cmd now (ctl_cmd (fst sys)) (ctl_current_bp (fst sys)) sys
      else Inr (sys, []))"

definition shadow_at :: "int \<Rightarrow> ('d, 'u) pms_sys \<Rightarrow> int" where
  "shadow_at k sys = ctl_shadow (fst sys) ! nat k"

abbreviation (input) running :: "int \<Rightarrow> bool" where
  "running st \<equiv> st = BP_STATE_DISCHARGING \<or> st = BP_STATE_CHARGING"

text \<open>The loop of \<^verbatim>\<open>pms_pre_switch\<close>: the first command it has to send.\<close>

fun pms_pre_scan :: "int list \<Rightarrow> ('d, 'u) pms_sys \<Rightarrow> fault + (SM_BP_CMD \<times> int) option" where
  "pms_pre_scan [] sys = Inr None"
| "pms_pre_scan (k # ks) sys =
     (if k = ctl_next_bp (fst sys) \<or> shadow_at k sys = BP_STATE_ONLY_DISCHARGING then pms_pre_scan ks sys
      else (case bp_state_at k (snd sys) of Inl f \<Rightarrow> Inl f
            | Inr st \<Rightarrow>
                if ctl_cmd (fst sys) = BP_CMD_DISCHARGE \<and> running st then Inr (Some (BP_CMD_ONLY_DISCHARGE, k))
                else if ctl_cmd (fst sys) = BP_CMD_CHARGE \<and> running st then Inr (Some (BP_CMD_STANDBY, k))
                else pms_pre_scan ks sys))"

definition pms_pre_switch :: "int \<Rightarrow> ('d, 'u) pms_sys \<Rightarrow> ('d, 'u) pms_result" where
  "pms_pre_switch now sys =
     (if pms_expired now sys then pms_set_state now SM_PMS_ST_FAIL sys
      else if ctl_in_process (fst sys) then Inr (sys, [])
      else (case pms_pre_scan pack_indices sys of Inl f \<Rightarrow> Inl f
            | Inr (Some (cmd, k)) \<Rightarrow> pms_set_cmd now cmd k sys
            | Inr None \<Rightarrow> pms_set_state now SM_PMS_ST_MAIN_SWITCH sys))"

definition switch_done :: "'u option \<Rightarrow> int \<Rightarrow> u8 \<Rightarrow> ('d, 'u) pms_call list" where
  "switch_done cb r port = (case cb of None \<Rightarrow> [] | Some u \<Rightarrow> [Switch_Done u r port])"

text \<open>The end of a request: its callback, \<^verbatim>\<open>pms_reset_cmd\<close>, back to the idle state.\<close>

definition pms_answer :: "int \<Rightarrow> int \<Rightarrow> ('d, 'u) pms_sys \<Rightarrow> ('d, 'u) pms_result" where
  "pms_answer now r = (\<lambda>(ctl, sv).
     and_then (Inr ((pms_reset_cmd ctl, sv), switch_done (ctl_cb ctl) r (word_of_int (ctl_next_bp ctl))))
       (pms_set_state now SM_PMS_ST_IDLE))"

definition pms_main_switch :: "int \<Rightarrow> ('d, 'u) pms_sys \<Rightarrow> ('d, 'u) pms_result" where
  "pms_main_switch now sys =
     (let next = ctl_next_bp (fst sys) in
      if pms_expired now sys then pms_set_state now SM_PMS_ST_FAIL sys
      else if ctl_in_process (fst sys) then Inr (sys, [])
      else if next < 0 \<or> length (ctl_shadow (fst sys)) \<le> nat next then Inl Out_Of_Bounds
      else (case bp_state_at next (snd sys) of Inl f \<Rightarrow> Inl f
            | Inr st \<Rightarrow>
                if shadow_at next sys \<noteq> BP_STATE_DISCHARGING \<and> st = BP_STATE_STANDBY
                then pms_set_cmd now (ctl_cmd (fst sys)) next sys
                else if running st then
                  (if ctl_state (fst sys) = SM_PMS_ST_MERGE then pms_answer now 0 sys
                   else if ctl_state (fst sys) = SM_PMS_ST_MAIN_SWITCH then pms_set_state now SM_PMS_ST_FIN_SWITCH sys
                   else Inr (sys, []))
                else Inr (sys, [])))"

text \<open>
  The loop of \<^verbatim>\<open>pms_finish_switch\<close>: a pack to send to standby (\<open>Inl\<close>), or the number of packs
  that are off.
\<close>

fun pms_fin_scan :: "int list \<Rightarrow> nat \<Rightarrow> ('d, 'u) pms_sys \<Rightarrow> fault + (int + nat)" where
  "pms_fin_scan [] n sys = Inr (Inr n)"
| "pms_fin_scan (k # ks) n sys =
     (if k = ctl_next_bp (fst sys) then pms_fin_scan ks n sys
      else if shadow_at k sys = BP_STATE_ONLY_DISCHARGING then Inr (Inl k)
      else (case bp_state_at k (snd sys) of Inl f \<Rightarrow> Inl f
            | Inr st \<Rightarrow> pms_fin_scan ks (if st \<le> BP_STATE_IDLE \<or> st = BP_STATE_STANDBY then n + 1 else n) sys))"

definition pms_finish_switch :: "int \<Rightarrow> ('d, 'u) pms_sys \<Rightarrow> ('d, 'u) pms_result" where
  "pms_finish_switch now sys =
     (if pms_expired now sys then pms_set_state now SM_PMS_ST_RECOVERY sys
      else if ctl_in_process (fst sys) then Inr (sys, [])
      else (case pms_fin_scan pack_indices 0 sys of Inl f \<Rightarrow> Inl f
            | Inr (Inl k) \<Rightarrow> pms_set_cmd now BP_CMD_STANDBY k sys
            | Inr (Inr n) \<Rightarrow> if n < 2 then Inr (sys, []) else pms_answer now 0 sys))"

section \<open>Requests\<close>

definition sm_pms_ctl_check_cmd :: "u8 \<Rightarrow> SM_BP_CMD \<Rightarrow> ('d, 'u) pms_sys \<Rightarrow> fault + int" where
  "sm_pms_ctl_check_cmd port cmd = (\<lambda>(ctl, sv).
     if uint port \<ge> int SM_BP_NUMBER_DEFAULT then Inr (-1)
     else if cmd \<noteq> BP_CMD_DISCHARGE \<and> cmd \<noteq> BP_CMD_CHARGE then Inr (-1)
     else (case sm_sv_bp_is_connected (uint port) sv of Inl f \<Rightarrow> Inl f
           | Inr connected \<Rightarrow>
               if \<not> connected then Inr (-1)
               else if ctl_cmd ctl \<noteq> BP_CMD_NUMBER then Inr (-2)
               else Inr 0))"

definition reached :: "SM_BP_CMD \<Rightarrow> int \<Rightarrow> bool" where
  "reached cmd st \<longleftrightarrow> st = BP_STATE_DISCHARGING \<and> cmd = BP_CMD_DISCHARGE \<or> st = BP_STATE_CHARGING \<and> cmd = BP_CMD_CHARGE"

text \<open>The pack that is in the wanted state now, other than the one to switch to.\<close>

fun pms_find_current :: "int \<Rightarrow> SM_BP_CMD \<Rightarrow> 'c sm_sv_bp \<Rightarrow> int list \<Rightarrow> fault + int option" where
  "pms_find_current port cmd sv [] = Inr None"
| "pms_find_current port cmd sv (k # ks) =
     (if k = port then pms_find_current port cmd sv ks
      else (case bp_state_at k sv of Inl f \<Rightarrow> Inl f
            | Inr st \<Rightarrow> if reached cmd st then Inr (Some k) else pms_find_current port cmd sv ks))"

text \<open>\<^verbatim>\<open>sm_pms_ctl_switch\<close> and \<^verbatim>\<open>sm_pms_ctl_merge\<close> are the same text but for the state they go to.\<close>

definition pms_start :: "SM_PMS_ST \<Rightarrow> int \<Rightarrow> u8 \<Rightarrow> SM_BP_CMD \<Rightarrow> 'u option \<Rightarrow> ('d, 'u) pms_sys \<Rightarrow> ('d, 'u) pms_return" where
  "pms_start target now port cmd cb = (\<lambda>(ctl, sv).
     case sm_pms_ctl_check_cmd port cmd (ctl, sv) of Inl f \<Rightarrow> Inl f
     | Inr r \<Rightarrow>
         if r < 0 then Inr (-1, (ctl, sv), switch_done cb (-1) port)
         else (case bp_state_at (uint port) sv of Inl f \<Rightarrow> Inl f
           | Inr st \<Rightarrow>
               if reached cmd st then Inr (0, (ctl, sv), switch_done cb 0 port)
               else (case pms_find_current (uint port) cmd sv pack_indices of Inl f \<Rightarrow> Inl f
                 | Inr cur \<Rightarrow>
                     (let ctl = ctl\<lparr>ctl_cmd := cmd, ctl_in_process := False, ctl_next_bp := uint port, ctl_cb := cb,
                          ctl_current_bp := (case cur of None \<Rightarrow> ctl_current_bp ctl | Some k \<Rightarrow> k)\<rparr>
                      in map_sum id (Pair 0) (pms_set_state now target (ctl, sv))))))"

definition sm_pms_ctl_switch :: "int \<Rightarrow> u8 \<Rightarrow> SM_BP_CMD \<Rightarrow> 'u option \<Rightarrow> ('d, 'u) pms_sys \<Rightarrow> ('d, 'u) pms_return" where
  "sm_pms_ctl_switch = pms_start SM_PMS_ST_PRE_SWITCH"

definition sm_pms_ctl_merge :: "int \<Rightarrow> u8 \<Rightarrow> SM_BP_CMD \<Rightarrow> 'u option \<Rightarrow> ('d, 'u) pms_sys \<Rightarrow> ('d, 'u) pms_return" where
  "sm_pms_ctl_merge = pms_start SM_PMS_ST_MERGE"

definition sm_pms_ctl_release :: "int \<Rightarrow> ('d, 'u) pms_sys \<Rightarrow> ('d, 'u) pms_result" where
  "sm_pms_ctl_release now sys = (if ctl_cmd (fst sys) = BP_CMD_NUMBER then Inr (sys, []) else pms_answer now (-1) sys)"

definition sm_pms_ctl_power_off :: "int \<Rightarrow> u8 \<Rightarrow> 'd option \<Rightarrow> ('d, 'u) pms_sys \<Rightarrow> ('d, 'u) pms_return" where
  "sm_pms_ctl_power_off now port cb = (\<lambda>(ctl, sv).
     if uint port \<ge> int SM_BP_NUMBER_DEFAULT then Inr (-1, (ctl, sv), [])
     else (case sm_sv_bp_set_cmd now (uint port) BP_CMD_STANDBY Null_Buf
                  (case cb of None \<Rightarrow> No_Callback | Some d \<Rightarrow> Client (Bp_Client d)) sv of
             Inl f \<Rightarrow> Inl f
           | Inr (r, sv, cs) \<Rightarrow> Inr (r, (ctl, sv), map Bp_Call cs)))"

definition sm_pms_ctl_process :: "int \<Rightarrow> ('d, 'u) pms_sys \<Rightarrow> ('d, 'u) pms_result" where
  "sm_pms_ctl_process now sys =
     (case ctl_state (fst sys) of
        SM_PMS_ST_IDLE \<Rightarrow> Inr (sys, [])
      | SM_PMS_ST_RECOVERY \<Rightarrow> pms_recovery now sys
      | SM_PMS_ST_PRE_SWITCH \<Rightarrow> pms_pre_switch now sys
      | SM_PMS_ST_MAIN_SWITCH \<Rightarrow> pms_main_switch now sys
      | SM_PMS_ST_MERGE \<Rightarrow> pms_main_switch now sys
      | SM_PMS_ST_FIN_SWITCH \<Rightarrow> pms_finish_switch now sys
      | SM_PMS_ST_FAIL \<Rightarrow> pms_answer now (-1) sys)"

section \<open>The controller with its service, as a machine\<close>

datatype ('d, 'u) pms_event = Switch int u8 SM_BP_CMD "'u option" | Merge int u8 SM_BP_CMD "'u option"
  | Release int | Power_Off int u8 "'d option" | Ctl_Process int | Service int "'d bp_client sv_event"

text \<open>An event of the service may end in calls to the controller, at the time given.\<close>

fun pms_step :: "('d, 'u) pms_sys \<Rightarrow> ('d, 'u) pms_event \<Rightarrow> ('d, 'u) pms_result" where
  "pms_step sys (Switch now port cmd cb) = map_sum id snd (sm_pms_ctl_switch now port cmd cb sys)"
| "pms_step sys (Merge now port cmd cb) = map_sum id snd (sm_pms_ctl_merge now port cmd cb sys)"
| "pms_step sys (Release now) = sm_pms_ctl_release now sys"
| "pms_step sys (Power_Off now port cb) = map_sum id snd (sm_pms_ctl_power_off now port cb sys)"
| "pms_step sys (Ctl_Process now) = sm_pms_ctl_process now sys"
| "pms_step sys (Service now e) =
     (case sv_step (snd sys) e of Inl f \<Rightarrow> Inl f | Inr (sv, cs) \<Rightarrow> pms_dispatch now cs (fst sys, sv))"

definition pms_run :: "('d, 'u) pms_event list \<Rightarrow> ('d, 'u) pms_sys \<Rightarrow> ('d, 'u) pms_result" where
  "pms_run = run_all (\<lambda>e sys. pms_step sys e)"

end
