(* ===== verification/Sv_Bp_Frame.thy ===== *)
theory Sv_Bp_Frame
  imports Sv_Bp
begin

text \<open>
  The number of packs is set at creation and never again: every operation of the battery service
  keeps \<^verbatim>\<open>m_numb\<close>. The clients of the service rely on it when they read a pack.
\<close>

definition numb_is :: "int \<Rightarrow> 'c sm_sv_bp \<Rightarrow> bool" where
  "numb_is n sv \<longleftrightarrow> sv_numb sv = n"

abbreviation keeps_numb :: "int \<Rightarrow> 'c sv_result \<Rightarrow> bool" where
  "keeps_numb n \<equiv> ends_in (numb_is n)"

lemma numb_simps [simp]:
  "numb_is n (sv_set_bp i f sv) = numb_is n sv" "numb_is n (sv_push c sv) = numb_is n sv"
  "numb_is n (sm_sv_bp_reset_current_cmd sv) = numb_is n sv"
  "numb_is n (sm_bp_reset_force_assigning sv) = numb_is n sv"
  "numb_is n (set_force_auth k cb sv) = numb_is n sv" "numb_is n (sv_received b bytes sv) = numb_is n sv"
  "numb_is n (sv\<lparr>sv_auth := au\<rparr>) = numb_is n sv" "numb_is n (sv\<lparr>sv_co := co\<rparr>) = numb_is n sv"
  "numb_is n (sv\<lparr>sv_bps := bps\<rparr>) = numb_is n sv" "numb_is n (sv\<lparr>sv_retain := rt\<rparr>) = numb_is n sv"
  "numb_is n (sv\<lparr>sv_current := cur\<rparr>) = numb_is n sv" "numb_is n (sv\<lparr>sv_tail := j\<rparr>) = numb_is n sv"
  "numb_is n (sv\<lparr>sv_handlers := hs\<rparr>) = numb_is n sv"
  "numb_is n (sm_sv_bp_enter_low_data_mode sv) = numb_is n sv"
  "numb_is n (sm_sv_bp_exit_low_data_mode sv) = numb_is n sv"
  by (simp_all add: numb_is_def sv_set_bp_def sv_push_def sm_sv_bp_reset_current_cmd_def sm_bp_reset_force_assigning_def
      set_force_auth_def sv_received_def sm_sv_bp_enter_low_data_mode_def sm_sv_bp_exit_low_data_mode_def
      sm_sv_bp_remove_all_cmd_def)

lemma numb_with_pack: "(\<And>i. keeps_numb n (f i)) \<Longrightarrow> keeps_numb n (with_pack k sv f)"
  by (simp add: with_pack_def)

lemma numb_set_cmd_fails: "numb_is n sv \<Longrightarrow> keeps_numb n (set_cmd_fails now k cmd data cb sv)"
  by (auto simp: set_cmd_fails_def with_pack_def split: on_cmd.splits)

lemma numb_sv_set_cmd:
  assumes "sm_sv_bp_set_cmd now k cmd data cb sv = Inr (r, sv', cs)" "numb_is n sv"
  shows "numb_is n sv'"
  using assms numb_set_cmd_fails [of n sv now k cmd data cb]
  by (cases "set_cmd_fails now k cmd data cb sv")
     (auto simp: sm_sv_bp_set_cmd_def with_pack_def split: if_splits)

lemma numb_set_cmd: "numb_is n sv \<Longrightarrow> keeps_numb n (set_cmd now k cmd data cb sv)"
  by (cases "sm_sv_bp_set_cmd now k cmd data cb sv") (auto simp: set_cmd_def dest: numb_sv_set_cmd)

lemma numb_run_cmds: "numb_is n sv \<Longrightarrow> keeps_numb n (run_all (\<lambda>c. set_cmd now k c Sv_Temp Sync_Info) cmds sv)"
  by (rule ends_in_run_all) (auto intro: numb_set_cmd)

lemma numb_sync_info: "numb_is n sv \<Longrightarrow> keeps_numb n (sm_bp_sync_info now k sv)"
  unfolding sm_bp_sync_info_def by (rule numb_run_cmds)

lemma numb_on_sync_info: "numb_is n sv \<Longrightarrow> keeps_numb n (sm_bp_on_sync_info now k cmd ok sv)"
proof -
  assume n: "numb_is n sv"
  have "keeps_numb n (and_then (if read_cmd cmd then set_cmd now k cmd Sv_Temp Sync_Info sv else Inr (sv, []))
      (\<lambda>sv. Inr (sm_sv_bp_reset_current_cmd sv, [])))"
    by (rule ends_in_and_then [of "numb_is n"]) (simp_all add: n numb_set_cmd)
  then show ?thesis
    using n by (auto simp: sm_bp_on_sync_info_def with_pack_def Let_def split: sum.splits)
qed

lemma numb_call_cb: "numb_is n sv \<Longrightarrow> keeps_numb n (call_cmd_cb now c ok sv)"
  by (auto simp: call_cmd_cb_def numb_on_sync_info split: on_cmd.splits)

lemma numb_event_handle: "numb_is n sv \<Longrightarrow> keeps_numb n (sm_bp_auth_event_handle now k ev sn soc sv)"
proof -
  assume n: "numb_is n sv"
  have sync: "keeps_numb n (and_then (Inr (sv', cs)) (run_all (\<lambda>c. set_cmd now k c Sv_Temp Sync_Info) cmds))"
    if "numb_is n sv'" for sv' :: "'a sm_sv_bp" and cs cmds
    by (rule ends_in_and_then [of "numb_is n"]) (auto intro: that numb_run_cmds)
  show ?thesis
    unfolding sm_bp_auth_event_handle_def
  proof (rule ends_in_and_then [of "numb_is n"], goal_cases)
    case 1
    then show ?case
      using n sync by (auto simp: with_pack_def Let_def call_assign_fail_def simp del: and_then_simps
          split: SM_BP_AUTH_EVENT.splits)
  qed (auto split: option.splits)
qed

lemma numb_update_data: "numb_is n sv \<Longrightarrow> keeps_numb n (sm_bp_co_update_data_callback now i sv)"
proof -
  assume n: "numb_is n sv"
  have sync: "keeps_numb n (and_then (Inr (s, cs)) (\<lambda>sv. if \<not> sv_low_data sv then sm_bp_sync_info now k sv else Inr (sv, [])))"
    if "numb_is n s" for s :: "'a sm_sv_bp" and cs k
    by (rule ends_in_and_then [of "numb_is n"]) (auto intro: that numb_sync_info)
  show ?thesis
    unfolding sm_bp_co_update_data_callback_def Let_def
    by (rule ends_in_and_then [of "numb_is n"]) (use n sync in \<open>auto simp del: and_then_simps\<close>)
qed

lemma numb_received: "numb_is n sv \<Longrightarrow> keeps_numb n (sm_bp_co_received_data now can_id d sv)"
proof -
  assume n: "numb_is n sv"
  have "keeps_numb n (and_then (sm_bp_co_update_data_callback now i s)
      (\<lambda>sv. Inr (sv_set_bp i (\<lambda>bp. bp\<lparr>m_data_count := 0\<rparr>) sv, [])))" if "numb_is n s" for i and s :: "'a sm_sv_bp"
    by (rule ends_in_and_then [OF numb_update_data [OF that]]) simp
  then show ?thesis
    using n by (auto simp: sm_bp_co_received_data_def sm_bp_co_extract_pdo_def with_pack_def Let_def)
qed

lemma numb_sdo_cb: "numb_is n sv \<Longrightarrow> keeps_numb n (sm_co_bp_sdo_cb now status sv)"
proof (cases "co_cmd (sv_co sv)")
  case (Some ref)
  assume n: "numb_is n sv"
  show ?thesis
    unfolding sm_co_bp_sdo_cb_def Some option.case
    by (rule ends_in_and_then [of "numb_is n"])
       (auto simp: n numb_call_cb Let_def sm_bp_co_finish_cmd_callback_def)
qed (simp add: sm_co_bp_sdo_cb_def)

lemma numb_auth_dispatch: "numb_is n sv \<Longrightarrow> keeps_numb n (auth_dispatch now cs sv)"
  unfolding auth_dispatch_def
  by (rule ends_in_run_all) (auto split: auth_call.splits intro: numb_event_handle)

lemma numb_auth_process: "numb_is n sv \<Longrightarrow> keeps_numb n (sv_auth_process now ctl sv)"
  by (auto simp: sv_auth_process_def numb_auth_dispatch split: option.splits sum.splits prod.splits)

lemma numb_retain_process: "numb_is n sv \<Longrightarrow> keeps_numb n (sv_retain_process now sv)"
proof -
  assume n: "numb_is n sv"
  obtain reqs m r bps where p: "sm_bp_retain_process now (sv_retain sv) (sv_bps sv) = (reqs, m, r, bps)"
    by (metis prod_cases4)
  show ?thesis
    unfolding sv_retain_process_def p prod.case
    by (rule ends_in_and_then [of "numb_is n"]) (auto intro: ends_in_run_all n numb_set_cmd split: prod.splits)
qed

lemma numb_check_pack: "numb_is n sv \<Longrightarrow> keeps_numb n (sv_check_pack now k sv)"
  by (simp add: sv_check_pack_def with_pack_def Let_def)

lemma numb_next_cmd: "numb_is n sv \<Longrightarrow> keeps_numb n (sv_next_cmd busy sv)"
  by (auto simp: sv_next_cmd_def Let_def split: prod.splits)

lemma numb_process:
  assumes "sm_sv_bp_process now ctl busy sv = Inr (r, sv', cs)" "numb_is n sv"
  shows "numb_is n sv'"
proof -
  have "keeps_numb n (sv_process_body now ctl busy sv)"
    unfolding sv_process_body_def
    by (intro ends_in_and_then [of "numb_is n"])
       (auto intro: assms(2) numb_auth_process numb_retain_process ends_in_run_all numb_check_pack numb_next_cmd)
  then show ?thesis
    using assms by (cases "sv_process_body now ctl busy sv")
      (auto simp: sm_sv_bp_process_def sm_sv_bp_check_err_def Let_def split: prod.splits)
qed

lemma numb_auth:
  assumes "numb_is n sv"
  shows "sm_sv_bp_auth now ctl k cb sv = Inr (r, sv', cs) \<Longrightarrow> numb_is n sv'"
    and "sm_sv_first_bp_auth now k cb sv = Inr (r, sv', cs) \<Longrightarrow> numb_is n sv'"
proof -
  have gen: "numb_is n sv'"
    if "map_sum id (Pair x) (auth_dispatch now c ((set_force_auth k cb sv)\<lparr>sv_auth := Some a1, sv_bps := b1\<rparr>))
          = Inr (r, sv', cs)" for x c a1 b1
    by (rule map_ret_ok [OF numb_auth_dispatch that]) (simp add: assms)
  show "sm_sv_bp_auth now ctl k cb sv = Inr (r, sv', cs) \<Longrightarrow> numb_is n sv'"
    using gen assms by (auto simp: sm_sv_bp_auth_def with_pack_def Let_def split: option.splits if_splits prod.splits)
  show "sm_sv_first_bp_auth now k cb sv = Inr (r, sv', cs) \<Longrightarrow> numb_is n sv'"
    using gen assms by (auto simp: sm_sv_first_bp_auth_def with_pack_def Let_def split: option.splits if_splits prod.splits)
qed

lemma numb_set_off_all: "numb_is n sv \<Longrightarrow> keeps_numb n (sm_sv_bp_set_off_all sv)"
  unfolding sm_sv_bp_set_off_all_def by (rule ends_in_run_all) (auto simp: with_pack_def)

lemma numb_reset: "sm_sv_bp_reset now k sv = Inr (r, sv') \<Longrightarrow> numb_is n sv \<Longrightarrow> numb_is n sv'"
  by (auto simp: sm_sv_bp_reset_def with_pack_def split: if_splits)

lemma numb_reg_event: "numb_is n (snd (sm_sv_bp_reg_event cb sv)) = numb_is n sv"
  by (simp add: sm_sv_bp_reg_event_def split: option.split)

lemma numb_retain_call: "numb_is n sv \<Longrightarrow> keeps_numb n (sv_retain_call c sv)"
  by (cases c) (auto simp: sv_with_retain_def split: sum.split prod.split)

lemma numb_step: "numb_is n sv \<Longrightarrow> keeps_numb n (sv_step sv e)"
proof (cases e)
  case (Do_Reset now k)
  assume "numb_is n sv"
  then show ?thesis
    by (cases "sm_sv_bp_reset now k sv") (auto simp: Do_Reset dest: numb_reset)
next
  case (Update_Connect k)
  assume "numb_is n sv"
  then show ?thesis by (simp add: Update_Connect sm_sv_bp_update_connect_state_def with_pack_def)
qed (auto intro!: map_snd_ok dest: numb_process numb_auth simp: numb_received numb_sdo_cb numb_set_cmd
       numb_set_off_all numb_reg_event numb_retain_call)

end
