(* ===== verification/Sv_Bp_Laws.thy ===== *)
theory Sv_Bp_Laws
  imports Sv_Bp
begin

text \<open>
  What the battery-pack service promises: its command queue is first in, first out and runs one
  command at a time; packs that fall silent are disconnected; and the limits of both.
\<close>

section \<open>The command ring is a queue\<close>

definition sv_pending :: "'c sm_sv_bp \<Rightarrow> 'c sm_bp_cmd list" where
  "sv_pending sv = ring_items BP_CMD_QUEUE_SIZE ((!) (sv_cmds sv)) (sv_tail sv) (sv_head sv)"

definition sv_advance :: "'c sm_sv_bp \<Rightarrow> 'c sm_sv_bp" where
  "sv_advance sv = sv\<lparr>sv_tail := (if sv_tail sv + 1 \<ge> BP_CMD_QUEUE_SIZE then 0 else sv_tail sv + 1)\<rparr>"

definition sv_pop :: "'c sm_sv_bp \<Rightarrow> ('c sm_bp_cmd \<times> 'c sm_sv_bp) option" where
  "sv_pop sv = (if sv_head sv \<noteq> sv_tail sv then Some (sv_cmds sv ! sv_tail sv, sv_advance sv) else None)"

lemma nth_update_fun: "i < length xs \<Longrightarrow> (!) (xs[i := x]) = ((!) xs)(i := x)"
  by (auto simp: fun_eq_iff)

lemma sv_ok_ring:
  assumes "sv_ok sv"
  shows "sv_head sv < 16" "sv_tail sv < 16" "length (sv_cmds sv) = 16"
  using assms by (simp_all add: sv_ok_def)

lemma sv_ok_advance: "sv_ok sv \<Longrightarrow> sv_ok (sv_advance sv)"
  by (simp add: sv_ok_def sv_advance_def)

lemma sv_head_push: "sv_ok sv \<Longrightarrow> sv_head (sv_push c sv) = (sv_head sv + 1) mod 16"
  by (simp only: sv_ok_ring ring_suc sv_push_def sm_sv_bp.simps) simp

lemma sv_tail_advance: "sv_ok sv \<Longrightarrow> sv_tail (sv_advance sv) = (sv_tail sv + 1) mod 16"
  by (simp only: sv_ok_ring ring_suc sv_advance_def sm_sv_bp.simps) simp

lemma sv_pending_push:
  assumes "sv_ok sv" "length (sv_pending sv) < 15"
  shows "sv_pending (sv_push c sv) = sv_pending sv @ [c]"
proof -
  have r: "ring_len 16 (sv_tail sv) (sv_head sv) < 16 - 1" using assms(2) by (simp add: sv_pending_def)
  have "sv_pending (sv_push c sv)
      = ring_items 16 (((!) (sv_cmds sv))(sv_head sv := c)) (sv_tail sv) ((sv_head sv + 1) mod 16)"
    by (simp add: sv_pending_def sv_head_push [OF assms(1)]) (simp add: sv_push_def nth_update_fun sv_ok_ring [OF assms(1)])
  then show ?thesis
    using ring_push [OF sv_ok_ring(2,1) [OF assms(1)] r] by (simp add: sv_pending_def)
qed

lemma sv_pending_nil: "sv_ok sv \<Longrightarrow> sv_pending sv = [] \<longleftrightarrow> sv_head sv = sv_tail sv"
  by (simp only: sv_pending_def ring_empty_iff sv_ok_ring)

lemma sv_pending_advance:
  assumes "sv_ok sv" "sv_head sv \<noteq> sv_tail sv"
  shows "sv_pending sv = sv_cmds sv ! sv_tail sv # sv_pending (sv_advance sv)"
proof -
  have "sv_pending (sv_advance sv) = ring_items 16 ((!) (sv_cmds sv)) ((sv_tail sv + 1) mod 16) (sv_head sv)"
    by (simp add: sv_pending_def sv_tail_advance [OF assms(1)]) (simp add: sv_advance_def)
  then show ?thesis
    using ring_pop [OF sv_ok_ring(2,1) [OF assms(1)] assms(2)] by (simp add: sv_pending_def)
qed

interpretation sv_q: bounded_queue sv_push sv_pop sv_pending "\<lambda>_. 15" sv_ok
proof (unfold_locales, goal_cases)
  case (5 q x q')
  then show ?case by (auto simp: sv_pop_def sv_pending_advance sv_ok_advance split: if_splits)
qed (auto simp: sv_pending_push sv_ok_push sv_pop_def sv_pending_nil)

text \<open>The ring has no test for being full: the sixteenth command hides all of them.\<close>

lemma sv_push_overflow:
  assumes "sv_ok sv" "length (sv_pending sv) = 15"
  shows "sv_pending (sv_push c sv) = []"
proof -
  have "ring_len 16 (sv_tail sv) (sv_head sv) = 15" using assms(2) by (simp add: sv_pending_def)
  then have "(sv_head sv + 1) mod 16 = sv_tail sv"
    using sv_ok_ring [OF assms(1)] by (auto simp: ring_len_cases ring_Suc split: if_splits)
  then have "sv_head (sv_push c sv) = sv_tail (sv_push c sv)"
    by (simp add: sv_head_push [OF assms(1)]) (simp add: sv_push_def)
  then show ?thesis using sv_pending_nil [OF sv_ok_push [OF assms(1)]] by simp
qed

section \<open>The abstract command service\<close>

text \<open>A queue of commands and the command in execution.\<close>

type_synonym 'c cmd_service = "'c sm_bp_cmd list \<times> 'c sm_bp_cmd option"

fun cs_enqueue :: "'c sm_bp_cmd \<Rightarrow> 'c cmd_service \<Rightarrow> 'c cmd_service" where
  "cs_enqueue c (q, cur) = (q @ [c], cur)"

fun cs_dispatch :: "'c cmd_service \<Rightarrow> 'c cmd_service" where
  "cs_dispatch (c # q, None) = (q, Some c)"
| "cs_dispatch s = s"

fun cs_finish :: "'c cmd_service \<Rightarrow> 'c cmd_service" where
  "cs_finish (q, cur) = (q, None)"

definition cs_abs :: "'c sm_sv_bp \<Rightarrow> 'c cmd_service" where
  "cs_abs sv = (sv_pending sv, map_option ((!) (sv_cmds sv)) (sv_current sv))"

text \<open>The current command is the slot before the tail, which a push never overwrites below the limit.\<close>

definition cur_ok :: "'c sm_sv_bp \<Rightarrow> bool" where
  "cur_ok sv \<longleftrightarrow> (case sv_current sv of None \<Rightarrow> True | Some i \<Rightarrow> i < 16 \<and> (i + 1) mod 16 = sv_tail sv)"

lemma cs_abs_push:
  assumes "sv_ok sv" "cur_ok sv" "length (sv_pending sv) < 15"
  shows "cs_abs (sv_push c sv) = cs_enqueue c (cs_abs sv) \<and> cur_ok (sv_push c sv)"
proof -
  have "i \<noteq> sv_head sv" if "sv_current sv = Some i" for i
  proof
    assume "i = sv_head sv"
    then have "ring_len 16 (sv_tail sv) (sv_head sv) = 15"
      using that assms(2) sv_ok_ring [OF assms(1)]
      by (auto simp: cur_ok_def ring_len_cases ring_Suc split: if_splits)
    then show False using assms(3) by (simp add: sv_pending_def)
  qed
  then have "map_option ((!) (sv_cmds (sv_push c sv))) (sv_current (sv_push c sv))
      = map_option ((!) (sv_cmds sv)) (sv_current sv)"
    by (cases "sv_current sv") (auto simp: sv_push_def)
  moreover have "cur_ok (sv_push c sv)" using assms(2) by (simp add: cur_ok_def sv_push_def split: option.splits)
  ultimately show ?thesis using sv_pending_push [OF assms(1,3)] by (simp add: cs_abs_def)
qed

lemma cs_abs_next:
  assumes "sv_ok sv" "cur_ok sv" "\<not> sm_bp_co_is_busy busy (sv_co sv)"
  shows "\<exists>sv' cs. sv_next_cmd busy sv = Inr (sv', cs) \<and> cs_abs sv' = cs_dispatch (cs_abs sv) \<and> cur_ok sv'"
proof (cases "sv_current sv = None \<and> sv_head sv \<noteq> sv_tail sv")
  case True
  let ?sv = "(sv_advance sv)\<lparr>sv_current := Some (sv_tail sv)\<rparr>"
  obtain r co reqs where c: "sm_bp_co_set_cmd (Sv_Slot (sv_tail sv)) (sv_cmds sv ! sv_tail sv) (sv_co sv) = (r, co, reqs)"
    by (metis prod_cases3)
  have n: "sv_next_cmd busy sv = Inr (?sv\<lparr>sv_co := co\<rparr>, map Sdo reqs)"
    using True assms(3) c by (simp add: sv_next_cmd_def Let_def sv_advance_def)
  have "cs_abs (?sv\<lparr>sv_co := co\<rparr>) = (sv_pending (sv_advance sv), Some (sv_cmds sv ! sv_tail sv))"
    by (simp add: cs_abs_def sv_pending_def sv_advance_def)
  moreover have "cs_abs sv = (sv_cmds sv ! sv_tail sv # sv_pending (sv_advance sv), None)"
    using True sv_pending_advance [OF assms(1)] by (simp add: cs_abs_def)
  moreover have "cur_ok (?sv\<lparr>sv_co := co\<rparr>)"
    using sv_tail_advance [OF assms(1)] sv_ok_ring [OF assms(1)] by (simp add: cur_ok_def)
  ultimately show ?thesis using n by auto
next
  case False
  then have "sv_next_cmd busy sv = Inr (sv, [])" by (auto simp: sv_next_cmd_def)
  moreover have "cs_dispatch (cs_abs sv) = cs_abs sv"
    using False sv_pending_nil [OF assms(1)] by (cases "sv_current sv"; cases "sv_pending sv") (auto simp: cs_abs_def)
  ultimately show ?thesis using assms(2) by auto
qed

lemma set_cmd_connected:
  assumes "sv_ok sv" "0 \<le> k" "k < sv_numb sv" "m_is_connected (sv_bps sv ! nat k)"
  shows "sm_sv_bp_set_cmd now k cmd data cb sv
     = Inr (0, sv_push \<lparr>cmd_id = k, cmd_cmd = cmd, cmd_data = data, cmd_cb = cb\<rparr> sv, [])"
proof -
  have "k < 3" "length (sv_bps sv) = 3" using assms(1,3) by (simp_all add: sv_ok_def bps_ok_length)
  then have "\<not> length (sv_bps sv) \<le> nat k" using assms(2) by (simp add: nat_le_iff)
  then show ?thesis using assms(2-4) by (simp add: sm_sv_bp_set_cmd_def with_pack_def)
qed

text \<open>C3. Below its capacity of fifteen pending commands, the command ring with its
  current-command pointer implements a first-in first-out queue with one command in execution:
  \<^verbatim>\<open>sm_sv_bp_set_cmd\<close> on a connected pack enqueues, the periodic step dispatches the oldest command
  when nothing is in execution, and the end of a command frees the place.\<close>

theorem command_queue_refines:
  assumes "sv_ok sv" "cur_ok sv"
  shows "(0 \<le> k \<and> k < sv_numb sv \<and> m_is_connected (sv_bps sv ! nat k) \<and> length (sv_pending sv) < 15 \<longrightarrow>
      (\<exists>sv'. sm_sv_bp_set_cmd now k cmd data cb sv = Inr (0, sv', [])
         \<and> cs_abs sv' = cs_enqueue \<lparr>cmd_id = k, cmd_cmd = cmd, cmd_data = data, cmd_cb = cb\<rparr> (cs_abs sv) \<and> cur_ok sv'))
    \<and> (\<not> sm_bp_co_is_busy busy (sv_co sv) \<longrightarrow>
      (\<exists>sv' cs. sv_next_cmd busy sv = Inr (sv', cs) \<and> cs_abs sv' = cs_dispatch (cs_abs sv) \<and> cur_ok sv'))
    \<and> cs_abs (sm_bp_co_finish_cmd_callback sv) = cs_finish (cs_abs sv)
    \<and> cur_ok (sm_bp_co_finish_cmd_callback sv)"
proof (intro conjI impI)
  assume a: "0 \<le> k \<and> k < sv_numb sv \<and> m_is_connected (sv_bps sv ! nat k) \<and> length (sv_pending sv) < 15"
  then show "\<exists>sv'. sm_sv_bp_set_cmd now k cmd data cb sv = Inr (0, sv', [])
      \<and> cs_abs sv' = cs_enqueue \<lparr>cmd_id = k, cmd_cmd = cmd, cmd_data = data, cmd_cb = cb\<rparr> (cs_abs sv) \<and> cur_ok sv'"
    using cs_abs_push [OF assms] set_cmd_connected [OF assms(1)] by simp
next
  assume "\<not> sm_bp_co_is_busy busy (sv_co sv)"
  then show "\<exists>sv' cs. sv_next_cmd busy sv = Inr (sv', cs) \<and> cs_abs sv' = cs_dispatch (cs_abs sv) \<and> cur_ok sv'"
    by (rule cs_abs_next [OF assms])
next
  show "cs_abs (sm_bp_co_finish_cmd_callback sv) = cs_finish (cs_abs sv)"
    by (simp add: cs_abs_def sm_bp_co_finish_cmd_callback_def sm_sv_bp_reset_current_cmd_def sv_pending_def)
  show "cur_ok (sm_bp_co_finish_cmd_callback sv)"
    by (simp add: cur_ok_def sm_bp_co_finish_cmd_callback_def sm_sv_bp_reset_current_cmd_def)
qed

text \<open>A service for the examples: pack 0 connected, no command pending.\<close>

definition sv_sample :: "'c sm_sv_bp" where
  "sv_sample =
     \<lparr>sv_numb = 3, sv_bps = (map bp_default [0..<3])[0 := (bp_default 0)\<lparr>m_is_connected := True\<rparr>],
      sv_co = co_default, sv_auth = Some auth_default, sv_retain = sm_bp_retain_create 0,
      sv_cmds = replicate 16 sm_bp_cmd_reset, sv_head = 0, sv_tail = 0, sv_current = None,
      sv_low_data = False, sv_force_event = None, sv_force_id = -1,
      sv_handlers = replicate 10 None, sv_temp = replicate 32 0\<rparr>"

abbreviation sv_example :: "string sm_sv_bp" where "sv_example \<equiv> sv_sample"

lemma sv_sample_ok: "sv_ok sv_sample"
proof -
  have b: "bps_ok (sv_bps sv_sample)"
    using bps_ok_update [OF bps_default_ok, of 0 "(bp_default 0)\<lparr>m_is_connected := True\<rparr>"]
    by (simp add: sv_sample_def bp_ok_def bp_default_def bp_data_ok_def bp_data_zero_def bp_measured_def)
  then show ?thesis
    using retain_create_ok [of 0]
    by (simp add: sv_ok_def sv_sample_def co_default_def auth_ok_def auth_default_def sm_bp_auth_create_def)
qed

lemma sv_example_idle: "cur_ok sv_example" "sv_pending sv_example = []" "m_is_connected (sv_bps sv_example ! 0)"
  by (simp_all add: cur_ok_def sv_sample_def sv_pending_def ring_items_def ring_len_def)

lemma command_queue_refines_witness:
  "\<exists>sv'. sm_sv_bp_set_cmd 0 0 BP_CMD_CHARGE Null_Buf (Client ''app'') sv_example = Inr (0, sv', [])
     \<and> fst (cs_abs sv') = [\<lparr>cmd_id = 0, cmd_cmd = BP_CMD_CHARGE, cmd_data = Null_Buf, cmd_cb = Client ''app''\<rparr>]"
proof -
  have "0 < sv_numb sv_example" "cs_abs sv_example = ([], None)"
    using sv_example_idle by (simp_all add: cs_abs_def sv_sample_def)
  then show ?thesis
    using command_queue_refines [OF sv_sample_ok sv_example_idle(1), of 0 0 BP_CMD_CHARGE Null_Buf "Client ''app''" False]
      sv_example_idle by auto
qed

text \<open> There is no test for a full ring: with fifteen commands pending, the
  next accepted command makes the ring look empty, and none of the sixteen is executed by the
  periodic step.\<close>

theorem command_queue_overflow:
  assumes "sv_ok sv" "length (sv_pending sv) = 15"
    and "0 \<le> k" "k < sv_numb sv" "m_is_connected (sv_bps sv ! nat k)"
  shows "\<exists>sv'. sm_sv_bp_set_cmd now k cmd data cb sv = Inr (0, sv', []) \<and> sv_pending sv' = []
           \<and> sv_next_cmd busy sv' = Inr (sv', [])"
proof -
  let ?c = "\<lparr>cmd_id = k, cmd_cmd = cmd, cmd_data = data, cmd_cb = cb\<rparr>"
  have e: "sv_pending (sv_push ?c sv) = []" by (rule sv_push_overflow [OF assms(1,2)])
  then have "sv_head (sv_push ?c sv) = sv_tail (sv_push ?c sv)"
    using sv_pending_nil [OF sv_ok_push [OF assms(1)]] by simp
  then show ?thesis
    using set_cmd_connected [OF assms(1,3-5)] e by (auto simp: sv_next_cmd_def)
qed

lemma fold_push_frame:
  "sv_numb (fold sv_push cs sv) = sv_numb sv" "sv_bps (fold sv_push cs sv) = sv_bps sv"
  by (induction cs arbitrary: sv) (simp_all add: sv_push_def)

lemma command_queue_overflow_witness:
  "\<exists>sv sv'. length (sv_pending sv) = 15
     \<and> sm_sv_bp_set_cmd 0 0 BP_CMD_CHARGE Null_Buf (Client ''app'') sv = Inr (0, sv', []) \<and> sv_pending sv' = []"
proof -
  let ?cs = "replicate 15 (sm_bp_cmd_reset :: string sm_bp_cmd)"
  let ?sv = "fold sv_push ?cs sv_example"
  have p: "sv_pending ?sv = ?cs" "sv_ok ?sv"
    using sv_q.push_all [OF sv_sample_ok, of ?cs] sv_example_idle by simp_all
  have "sv_numb ?sv = 3" "sv_bps ?sv = sv_bps sv_example"
    using fold_push_frame [of ?cs sv_example] by (simp_all only:) (simp add: sv_sample_def)
  then obtain sv' where
    "sm_sv_bp_set_cmd 0 0 BP_CMD_CHARGE Null_Buf (Client ''app'') ?sv = Inr (0, sv', [])" "sv_pending sv' = []"
    using command_queue_overflow [OF p(2), of 0 0 BP_CMD_CHARGE Null_Buf "Client ''app''" False]
      p sv_example_idle by auto
  moreover have "length (sv_pending ?sv) = 15" using p(1) by simp
  ultimately show ?thesis by blast
qed

section \<open>Two users of one SDO client\<close>

text \<open> \<^verbatim>\<open>sm_bp_co_is_busy\<close> answers no whenever a command is in transfer, so
  the periodic step replaces the serial-number read of an authentication that is in flight by the
  next queued command; the end of the read is then reported to the client of that command.\<close>

theorem busy_never_with_command:
  assumes "sv_ok sv" "co_cmd (sv_co sv) = Some Auth_Slot" "sv_current sv = None" "sv_pending sv = c # rest"
    and "cmd_cb c = Client cb"
  shows "\<exists>sv' cs sv''. sv_next_cmd True sv = Inr (sv', cs) \<and> co_cmd (sv_co sv') = Some (Sv_Slot (sv_tail sv))
     \<and> sm_co_bp_sdo_cb now SM_SDO_ST_SUCCESS sv' = Inr (sv'', [Cmd_Done cb (cmd_id c) (cmd_cmd c) True (cmd_data c)])
     \<and> sv_auth sv'' = sv_auth sv"
proof -
  have ne: "sv_head sv \<noteq> sv_tail sv" using assms(1,4) sv_pending_nil by force
  then have c: "sv_cmds sv ! sv_tail sv = c" using sv_pending_advance [OF assms(1)] assms(4) by simp
  obtain r co reqs where s: "sm_bp_co_set_cmd (Sv_Slot (sv_tail sv)) c (sv_co sv) = (r, co, reqs)"
    by (metis prod_cases3)
  then have co: "co_cmd co = Some (Sv_Slot (sv_tail sv))"
    using co_set_cmd_frame(1) [of "Sv_Slot (sv_tail sv)" c "sv_co sv"] by simp
  let ?sv = "(sv_advance sv)\<lparr>sv_current := Some (sv_tail sv), sv_co := co\<rparr>"
  have n: "sv_next_cmd True sv = Inr (?sv, map Sdo reqs)"
    using ne assms(2,3) s c by (simp add: sv_next_cmd_def Let_def sm_bp_co_is_busy_def sv_advance_def)
  have d: "sv_deref (Sv_Slot (sv_tail sv)) ?sv = c" using c by (simp add: sv_deref_def sv_advance_def)
  have "\<exists>sv''. sm_co_bp_sdo_cb now SM_SDO_ST_SUCCESS ?sv
      = Inr (sv'', [Cmd_Done cb (cmd_id c) (cmd_cmd c) True (cmd_data c)]) \<and> sv_auth sv'' = sv_auth sv"
    using co d assms(5)
    by (simp add: sm_co_bp_sdo_cb_def call_cmd_cb_def Let_def)
       (simp add: sm_bp_co_finish_cmd_callback_def sm_sv_bp_reset_current_cmd_def sv_advance_def)
  then show ?thesis using n co by auto
qed

lemma busy_never_with_command_witness:
  "\<exists>(sv :: string sm_sv_bp) sv' cs. co_cmd (sv_co sv) = Some Auth_Slot \<and> sv_next_cmd True sv = Inr (sv', cs)
     \<and> co_cmd (sv_co sv') = Some (Sv_Slot 0)"
proof -
  let ?c = "\<lparr>cmd_id = 0, cmd_cmd = BP_CMD_CHARGE, cmd_data = Null_Buf, cmd_cb = Client ''app''\<rparr>"
  let ?base = "sv_example\<lparr>sv_co := co_default\<lparr>co_cmd := Some Auth_Slot\<rparr>\<rparr>"
  let ?sv = "sv_push ?c ?base"
  have ok0: "sv_ok ?base" by (rule sv_ok_co [OF sv_sample_ok]) (simp add: sv_sample_def co_default_def)
  have "sv_pending ?base = []" using sv_example_idle(2) by (simp add: sv_pending_def)
  then have p: "sv_pending ?sv = [?c]" using sv_pending_push [OF ok0] by simp
  have f: "co_cmd (sv_co ?sv) = Some Auth_Slot" "sv_current ?sv = None" "sv_tail ?sv = 0"
    by (simp_all add: sv_push_def co_default_def) (simp_all add: sv_sample_def)
  from busy_never_with_command [OF sv_ok_push [OF ok0] f(1,2) p, of "''app''" 0] obtain sv' cs
    where "sv_next_cmd True ?sv = Inr (sv', cs)" "co_cmd (sv_co sv') = Some (Sv_Slot 0)"
    using f(3) by auto
  then show ?thesis using f(1) by blast
qed

section \<open>Packs that fall silent\<close>

definition silent :: "int \<Rightarrow> 'c sm_sv_bp \<Rightarrow> nat \<Rightarrow> bool" where
  "silent now sv i \<longleftrightarrow> m_is_connected (sv_bps sv ! i) \<and> timed_out now (m_timeout (sv_bps sv ! i)) \<and> \<not> sv_low_data sv"

lemma check_pack_cases:
  assumes "i < length (sv_bps sv)"
  shows "sv_check_pack now (int i) sv =
     (if silent now sv i then
        (let sv' = sv_set_bp i (sm_bp_reset now) sv; bp = sv_bps sv ! i in
         Inr (sv', map (\<lambda>s. Disconnected s (m_id bp) (bp_sn (m_data bp))) (sv_slots on_bp_disconnected sv)
                   @ map (\<lambda>s. Update_Data s (m_id bp) (m_data (sv_bps sv' ! i))) (sv_slots on_bp_update_data sv')))
      else Inr (sv, []))"
  using assms by (simp add: sv_check_pack_def with_pack_def silent_def Let_def)

lemma set_bp_frame:
  "sv_handlers (sv_set_bp i f sv) = sv_handlers sv" "sv_low_data (sv_set_bp i f sv) = sv_low_data sv"
  "length (sv_bps (sv_set_bp i f sv)) = length (sv_bps sv)"
  "j \<noteq> i \<Longrightarrow> sv_bps (sv_set_bp i f sv) ! j = sv_bps sv ! j"
  "i < length (sv_bps sv) \<Longrightarrow> sv_bps (sv_set_bp i f sv) ! i = f (sv_bps sv ! i)"
  by (simp_all add: sv_set_bp_def)

lemma slots_set_bp: "sv_slots p (sv_set_bp i f sv) = sv_slots p sv"
  by (simp add: sv_slots_def set_bp_frame)

text \<open>One round of the loop touches its own pack only.\<close>

lemma check_pack_frame:
  assumes "i < length (sv_bps sv)"
  obtains sv' cs where "sv_check_pack now (int i) sv = Inr (sv', cs)" "length (sv_bps sv') = length (sv_bps sv)"
    "\<And>p. sv_slots p sv' = sv_slots p sv" "sv_low_data sv' = sv_low_data sv"
    "\<And>j. j \<noteq> i \<Longrightarrow> sv_bps sv' ! j = sv_bps sv ! j"
    "sv_bps sv' ! i = (if silent now sv i then sm_bp_reset now (sv_bps sv ! i) else sv_bps sv ! i)"
    "\<And>s k sn. Disconnected s k sn \<in> set cs \<longleftrightarrow> silent now sv i \<and> s \<in> set (sv_slots on_bp_disconnected sv)
        \<and> k = m_id (sv_bps sv ! i) \<and> sn = bp_sn (m_data (sv_bps sv ! i))"
proof (cases "silent now sv i")
  case True
  let ?sv = "sv_set_bp i (sm_bp_reset now) sv" and ?bp = "sv_bps sv ! i"
  let ?cs = "map (\<lambda>s. Disconnected s (m_id ?bp) (bp_sn (m_data ?bp))) (sv_slots on_bp_disconnected sv)
      @ map (\<lambda>s. Update_Data s (m_id ?bp) (m_data (sv_bps ?sv ! i))) (sv_slots on_bp_update_data ?sv)"
  have e: "sv_check_pack now (int i) sv = Inr (?sv, ?cs)"
    using True by (simp add: check_pack_cases [OF assms] Let_def)
  have mem: "Disconnected s k sn \<in> set ?cs \<longleftrightarrow> silent now sv i \<and> s \<in> set (sv_slots on_bp_disconnected sv)
        \<and> k = m_id (sv_bps sv ! i) \<and> sn = bp_sn (m_data (sv_bps sv ! i))" for s k sn
    using True by auto
  have nth: "sv_bps ?sv ! i = (if silent now sv i then sm_bp_reset now ?bp else ?bp)"
    using True assms by (simp only: set_bp_frame if_True)
  show ?thesis by (rule that [OF e set_bp_frame(3) slots_set_bp set_bp_frame(2) set_bp_frame(4) nth mem])
next
  case False
  show ?thesis
    by (rule that [of sv "[]"]) (use False in \<open>simp_all add: check_pack_cases [OF assms]\<close>)
qed

lemma check_packs_run:
  assumes "distinct is" "\<forall>i \<in> set is. i < length (sv_bps sv)"
  shows "\<exists>sv' cs. run_all (sv_check_pack now) (map int is) sv = Inr (sv', cs) \<and> length (sv_bps sv') = length (sv_bps sv)
     \<and> (\<forall>j. sv_bps sv' ! j = (if j \<in> set is \<and> silent now sv j then sm_bp_reset now (sv_bps sv ! j) else sv_bps sv ! j))
     \<and> (\<forall>s k sn. Disconnected s k sn \<in> set cs \<longleftrightarrow> s \<in> set (sv_slots on_bp_disconnected sv)
          \<and> (\<exists>i \<in> set is. silent now sv i \<and> k = m_id (sv_bps sv ! i) \<and> sn = bp_sn (m_data (sv_bps sv ! i))))"
  using assms
proof (induction "is" arbitrary: sv)
  case (Cons i "is")
  have lt: "i < length (sv_bps sv)" using Cons.prems by simp
  obtain s1 c1 where step: "sv_check_pack now (int i) sv = Inr (s1, c1)" "length (sv_bps s1) = length (sv_bps sv)"
    "\<And>p. sv_slots p s1 = sv_slots p sv" "sv_low_data s1 = sv_low_data sv"
    "\<And>j. j \<noteq> i \<Longrightarrow> sv_bps s1 ! j = sv_bps sv ! j"
    "sv_bps s1 ! i = (if silent now sv i then sm_bp_reset now (sv_bps sv ! i) else sv_bps sv ! i)"
    "\<And>s k sn. Disconnected s k sn \<in> set c1 \<longleftrightarrow> silent now sv i \<and> s \<in> set (sv_slots on_bp_disconnected sv)
        \<and> k = m_id (sv_bps sv ! i) \<and> sn = bp_sn (m_data (sv_bps sv ! i))"
    by (rule check_pack_frame [OF lt, of now]) (rule that)
  have oth: "silent now s1 j = silent now sv j" if "j \<noteq> i" for j
    using step(4) step(5) [OF that] by (simp add: silent_def)
  have p1: "distinct is" and ni: "i \<notin> set is" and p2: "\<forall>i \<in> set is. i < length (sv_bps s1)"
    using Cons.prems step(2) by auto
  from Cons.IH [OF p1 p2] obtain s2 c2 where
    r: "run_all (sv_check_pack now) (map int is) s1 = Inr (s2, c2)" "length (sv_bps s2) = length (sv_bps s1)"
      "\<forall>j. sv_bps s2 ! j = (if j \<in> set is \<and> silent now s1 j then sm_bp_reset now (sv_bps s1 ! j) else sv_bps s1 ! j)"
      "\<forall>s k sn. Disconnected s k sn \<in> set c2 \<longleftrightarrow> s \<in> set (sv_slots on_bp_disconnected s1)
          \<and> (\<exists>i \<in> set is. silent now s1 i \<and> k = m_id (sv_bps s1 ! i) \<and> sn = bp_sn (m_data (sv_bps s1 ! i)))"
    by blast
  have a: "run_all (sv_check_pack now) (map int (i # is)) sv = Inr (s2, c1 @ c2)"
    using step(1) r(1) by simp
  have b: "sv_bps s2 ! j = (if j \<in> set (i # is) \<and> silent now sv j then sm_bp_reset now (sv_bps sv ! j) else sv_bps sv ! j)" for j
    using r(3) step(5,6) ni oth by (cases "j = i") auto
  have same: "silent now s1 j = silent now sv j \<and> sv_bps s1 ! j = sv_bps sv ! j" if "j \<in> set is" for j
    using that ni oth [of j] step(5) [of j] by blast
  have "(\<exists>j \<in> set is. silent now s1 j \<and> k = m_id (sv_bps s1 ! j) \<and> sn = bp_sn (m_data (sv_bps s1 ! j)))
      \<longleftrightarrow> (\<exists>j \<in> set is. silent now sv j \<and> k = m_id (sv_bps sv ! j) \<and> sn = bp_sn (m_data (sv_bps sv ! j)))" for k sn
    using same by (simp cong: bex_cong)
  then have c: "Disconnected s k sn \<in> set (c1 @ c2) \<longleftrightarrow> s \<in> set (sv_slots on_bp_disconnected sv)
      \<and> (\<exists>i \<in> set (i # is). silent now sv i \<and> k = m_id (sv_bps sv ! i) \<and> sn = bp_sn (m_data (sv_bps sv ! i)))" for s k sn
    using r(4) step(3,7) by auto
  show ?case using a b c r(2) step(2) by auto
qed simp

text \<open>C20. The loop of the periodic step disconnects exactly the connected packs
  that have sent no PDO for three seconds, unless low-data mode is active: their data are reset,
  every registered handler is told with the pack's id and serial number, and the other packs are
  left as they are.\<close>

theorem silent_packs_disconnected:
  assumes "sv_ok sv"
  shows "\<exists>sv' cs. run_all (sv_check_pack now) (map int [0..<nat (sv_numb sv)]) sv = Inr (sv', cs)
     \<and> (\<forall>i < nat (sv_numb sv). let bp = sv_bps sv ! i in sv_bps sv' ! i =
          (if m_is_connected bp \<and> m_start_time (m_timeout bp) + BP_CONNECTION_TIMEOUT \<le> now \<and> \<not> sv_low_data sv
           then sm_bp_reset now bp else bp))
     \<and> (\<forall>s k sn. Disconnected s k sn \<in> set cs \<longleftrightarrow> s \<in> set (sv_slots on_bp_disconnected sv)
          \<and> (\<exists>i < nat (sv_numb sv). let bp = sv_bps sv ! i in k = int i \<and> sn = bp_sn (m_data bp)
               \<and> m_is_connected bp \<and> m_start_time (m_timeout bp) + BP_CONNECTION_TIMEOUT \<le> now \<and> \<not> sv_low_data sv))"
proof -
  have ok: "bps_ok (sv_bps sv)" "nat (sv_numb sv) \<le> 3" using assms by (auto simp: sv_ok_def nat_le_iff)
  have sil: "silent now sv i \<longleftrightarrow> m_is_connected (sv_bps sv ! i)
      \<and> m_start_time (m_timeout (sv_bps sv ! i)) + 3000 \<le> now \<and> \<not> sv_low_data sv"
    and id: "m_id (sv_bps sv ! i) = int i" if "i < nat (sv_numb sv)" for i
    using bps_ok_nth [OF ok(1), of i] that ok(2) by (auto simp: silent_def timed_out_iff bp_ok_def)
  have "\<forall>i \<in> set [0..<nat (sv_numb sv)]. i < length (sv_bps sv)"
    using ok by (auto simp: bps_ok_length)
  from check_packs_run [OF distinct_upt this, of now] show ?thesis
    using sil id by (auto simp: Let_def)
qed

lemma silent_packs_disconnected_witness:
  "\<exists>sv' cs. run_all (sv_check_pack 3000) (map int [0..<3]) sv_example = Inr (sv', cs)
     \<and> \<not> m_is_connected (sv_bps sv' ! 0)"
proof -
  have n: "sv_numb sv_example = 3" by (simp add: sv_sample_def)
  have t: "m_start_time (m_timeout (sv_bps sv_example ! 0)) = 0" "\<not> sv_low_data sv_example"
    by (simp_all add: sv_sample_def bp_default_def)
  from silent_packs_disconnected [OF sv_sample_ok, of 3000] obtain sv' cs where
    r: "run_all (sv_check_pack 3000) (map int [0..<nat (sv_numb sv_example)]) sv_example = Inr (sv', cs)"
    and b: "\<forall>i < nat (sv_numb sv_example). let bp = sv_bps sv_example ! i in sv_bps sv' ! i =
          (if m_is_connected bp \<and> m_start_time (m_timeout bp) + 3000 \<le> 3000 \<and> \<not> sv_low_data sv_example
           then sm_bp_reset 3000 bp else bp)" by blast
  have "sv_bps sv' ! 0 = sm_bp_reset 3000 (sv_bps sv_example ! 0)"
    using b [rule_format, of 0] n t sv_example_idle(3) by (simp add: Let_def)
  then show ?thesis using r n by (simp add: sm_bp_reset_def)
qed

section \<open>What holds in every run\<close>

lemma create_ok:
  assumes "sm_sv_bp_create now n master a g = Some sv" "n \<le> 3" "length (au_data a) = 32"
    and "length (sv_bps g) = 3" "sv_auth g = None"
  shows "sv_ok sv"
proof -
  have n: "0 \<le> n" "word_of_int n \<noteq> (0 :: u8)"
    using assms(1) by (auto simp: sm_sv_bp_create_def sm_bp_co_create_def split: if_splits)
  then have "n \<noteq> 0" by auto
  then have "0 < n" "uint (word_of_int n :: u8) = n"
    using n(1) assms(2) by (simp_all add: unsigned_of_int take_bit_int_eq_self)
  moreover have "bps_ok (map (\<lambda>i. sm_bp_reset now ((sv_bps g ! i)\<lparr>m_id := int i\<rparr>)) [0..<3])"
    by (simp add: bps_ok_def bp_ok_reset)
  ultimately show ?thesis
    using assms n retain_create_ok [of now]
    by (auto simp: sm_sv_bp_create_def sm_bp_co_create_def sv_ok_def auth_ok_def sm_bp_auth_create_def split: if_splits)
qed

lemma sv_run_ok:
  assumes "sv_ok sv" "fold (\<lambda>e st. sv_sstep st e) es (Inr sv) = Inr sv'"
  shows "sv_ok sv'"
  using sv.run_invar [of "Inr sv" es] assms by simp

text \<open>C22. From creation with one to three packs, whatever sequence of periodic steps,
  CAN frames, SDO answers, commands, authentications, resets, mode changes and calls on the retain discharge (activation,
  deactivation, pause, resumption, count) follows: as long as
  no step faults, the ring indices stay inside the ring, every pack keeps its id and the sizes of its
  arrays, and what is believed about a pack stays within the limits of the decoder.\<close>

theorem service_always_ok:
  assumes "sm_sv_bp_create now n master a g = Some sv" "n \<le> 3" "length (au_data a) = BP_DEVICE_SN_SIZE"
    and "length (sv_bps g) = SM_BP_NUMBER_DEFAULT" "sv_auth g = None"
    and "fold (\<lambda>e st. sv_sstep st e) es (Inr sv) = Inr sv'"
  shows "sv_head sv' < BP_CMD_QUEUE_SIZE \<and> sv_tail sv' < BP_CMD_QUEUE_SIZE
    \<and> length (sv_cmds sv') = BP_CMD_QUEUE_SIZE \<and> length (sv_bps sv') = SM_BP_NUMBER_DEFAULT
    \<and> (\<forall>i < SM_BP_NUMBER_DEFAULT. let bp = sv_bps sv' ! i; d = m_data bp in
         m_id bp = int i \<and> length (bp_sn d) = BP_DEVICE_SN_SIZE \<and> length (bp_cellVols d) = BP_CELL_VOL_SIZE
         \<and> (bp_vol d = 0 \<or> 40000 < bp_vol d \<and> bp_vol d < 70000) \<and> -20000 < bp_cur d \<and> bp_cur d < 20000
         \<and> -1 \<le> bp_soc d \<and> bp_soc d \<le> 255)"
proof -
  have ok: "sv_ok sv'" by (rule sv_run_ok [OF create_ok [OF assms(1-5)] assms(6)])
  then have b: "bp_ok i (sv_bps sv' ! i)" if "i < 3" for i using that by (simp add: sv_ok_def bps_ok_nth)
  show ?thesis
    using ok b by (auto simp: sv_ok_def bps_ok_length Let_def bp_ok_def bp_data_ok_def bp_measured_def)
       (fastforce simp: bp_ok_def bp_data_ok_def bp_measured_def)+
qed

lemma service_always_ok_witness:
  "\<exists>sv sv'. sm_sv_bp_create 0 3 True auth_default (sv_example\<lparr>sv_auth := None\<rparr>) = Some sv
     \<and> fold (\<lambda>e st. sv_sstep st e) [Set_Off_All, Low_Data True] (Inr sv) = Inr sv' \<and> sv_head sv' < 16"
proof -
  obtain sv where c: "sm_sv_bp_create 0 3 True auth_default (sv_example\<lparr>sv_auth := None\<rparr>) = Some sv"
    by (simp add: sm_sv_bp_create_def sm_bp_co_create_def)
  have a: "length (au_data auth_default) = 32" "length (sv_bps (sv_example\<lparr>sv_auth := None\<rparr>)) = 3"
    by (simp_all add: auth_default_def sm_bp_auth_create_def sv_sample_def)
  have "sv_numb sv = 3" "\<forall>i < 3. \<not> m_is_connected (sv_bps sv ! i)" "length (sv_bps sv) = 3"
    using c by (auto simp: sm_sv_bp_create_def sm_bp_co_create_def sm_bp_reset_def)
  then have "sv_numb sv = 3" "\<not> m_is_connected (sv_bps sv ! 0)" "\<not> m_is_connected (sv_bps sv ! 1)"
    "\<not> m_is_connected (sv_bps sv ! 2)" "length (sv_bps sv) = 3" "sv_bps sv \<noteq> []" by auto
  moreover have "[0..<3] = [0, 1, 2::nat]" by (simp add: upt_rec)
  ultimately have "sm_sv_bp_set_off_all sv = Inr (sv, [])"
    by (simp add: sm_sv_bp_set_off_all_def with_pack_def)
  then have r: "fold (\<lambda>e st. sv_sstep st e) [Set_Off_All, Low_Data True] (Inr sv) = Inr (sm_sv_bp_enter_low_data_mode sv)"
    by (simp add: sv_sstep_def)
  from service_always_ok [OF c _ a _ r] c r show ?thesis by auto
qed

section \<open>Connection through PDOs\<close>

text \<open> With an authentication master, a pack that was never authenticated
  is nevertheless connected by the sixth PDO it sends, when its state of charge is known: the
  second half of \<^verbatim>\<open>sm_bp_co_update_data_callback\<close> does not ask for the master. The pack then accepts
  commands.\<close>

theorem master_connects_unauthenticated:
  assumes "sv_ok sv" "sv_auth sv = Some a" "co_update_data_cb (sv_co sv)"
    and "int i < sv_numb sv" "\<not> m_is_connected (sv_bps sv ! i)" "m_data_count (sv_bps sv ! i) = 5"
  shows "\<exists>sv' cs. sm_bp_co_received_data now (0x185 + of_nat i) d sv = Inr (sv', cs)
     \<and> m_is_connected (sv_bps sv' ! i) \<and> sv_auth sv' = Some a
     \<and> (\<exists>sv''. sm_sv_bp_set_cmd now (int i) BP_CMD_DISCHARGE Null_Buf (Client cb) sv' = Inr (0, sv'', []))"
proof -
  have i: "i < 3" and len: "length (sv_bps sv) = 3" and nb: "uint (co_bp_numb (sv_co sv)) = sv_numb sv"
    using assms(1,4) by (auto simp: sv_ok_def bps_ok_length)
  then have cases: "i = 0 \<or> i = 1 \<or> i = 2" by auto
  have cob: "is_bp_pdo (0x185 + of_nat i)" "pdo_cob (0x185 + of_nat i) = 0x180" "pdo_bp_id (0x185 + of_nat i) = of_nat i"
    using cases by (auto simp: is_bp_pdo_def pdo_cob_def pdo_bp_id_def)
  have lt: "\<not> co_bp_numb (sv_co sv) \<le> (of_nat i :: u8)" "uint (of_nat i :: u8) = int i"
    using assms(4) nb cases by (auto simp: word_le_def)
  let ?bp = "bp_store_pdo now 0x180 d (sv_bps sv ! i)"
  have bp: "m_data_count ?bp = 6" "0 \<le> bp_soc (m_data ?bp)" "\<not> m_is_connected ?bp"
    using assms(5,6) by (simp_all add: bp_store_frame) (simp_all add: pdo_defs store_vol_cur_def Let_def)
  have "\<exists>sv' cs. sm_bp_co_received_data now (0x185 + of_nat i) d sv = Inr (sv', cs)
     \<and> m_is_connected (sv_bps sv' ! i) \<and> sv_auth sv' = Some a \<and> sv_numb sv' = sv_numb sv"
    using cob lt i len assms(2,3) bp
    by (simp add: sm_bp_co_received_data_def sm_bp_co_extract_pdo_def with_pack_def Let_def
        sm_bp_co_update_data_callback_def sv_set_bp_def bp_connect_def)
  then obtain sv' cs where r: "sm_bp_co_received_data now (0x185 + of_nat i) d sv = Inr (sv', cs)"
    "m_is_connected (sv_bps sv' ! i)" "sv_auth sv' = Some a" "sv_numb sv' = sv_numb sv" by blast
  have "sv_ok sv'" by (rule ends_in_D [OF received_data_ok [OF assms(1)] r(1)])
  from set_cmd_connected [OF this, of "int i"] r assms(4) show ?thesis by auto
qed

lemma master_connects_unauthenticated_witness:
  "\<exists>(sv :: string sm_sv_bp) sv' cs. sm_bp_co_received_data 7 0x186 (\<lambda>_. 0) sv = Inr (sv', cs)
     \<and> \<not> m_is_connected (sv_bps sv ! 1) \<and> sv_auth sv \<noteq> None \<and> m_is_connected (sv_bps sv' ! 1)"
proof -
  let ?sv = "sv_set_bp 1 (\<lambda>bp. bp\<lparr>m_data_count := 5\<rparr>) sv_example"
  have b: "sv_bps ?sv = [(bp_default 0)\<lparr>m_is_connected := True\<rparr>, (bp_default 1)\<lparr>m_data_count := 5\<rparr>, bp_default 2]"
    "sv_numb ?sv = 3" "sv_auth ?sv = Some auth_default" "co_update_data_cb (sv_co ?sv)"
    by (simp_all add: sv_sample_def sv_set_bp_def upt_rec numeral_2_eq_2 co_default_def)
  have "sv_ok ?sv"
    by (rule sv_ok_set_bp [OF sv_sample_ok]) (simp add: bp_ok_def)
  moreover have "\<not> m_is_connected (sv_bps ?sv ! 1)" "m_data_count (sv_bps ?sv ! 1) = 5"
    by (simp_all add: sv_set_bp_def sv_sample_def bp_default_def upt_rec numeral_2_eq_2)
  ultimately show ?thesis
    using master_connects_unauthenticated [of ?sv auth_default 1 7 "\<lambda>_. 0" "''app''"] b(2-4) by fastforce
qed

section \<open>What a PDO changes\<close>

abbreviation pack_data :: "'c sm_sv_bp \<Rightarrow> sm_bp_data list" where
  "pack_data sv \<equiv> map m_data (sv_bps sv)"

lemma set_cmd_keeps_packs: "ends_in (\<lambda>sv'. sv_bps sv' = sv_bps sv) (set_cmd now k cmd data Sync_Info sv)"
  by (auto simp: set_cmd_def sm_sv_bp_set_cmd_def set_cmd_fails_def with_pack_def sm_sv_bp_reset_current_cmd_def
      sv_push_def)

lemma sync_info_keeps_packs: "ends_in (\<lambda>sv'. sv_bps sv' = sv_bps sv) (sm_bp_sync_info now k sv)"
  unfolding sm_bp_sync_info_def
  by (rule ends_in_run_all) (auto intro: ends_in_mono [OF set_cmd_keeps_packs])

lemma pack_data_set: "(\<And>bp. m_data (f bp) = m_data bp) \<Longrightarrow> pack_data (sv_set_bp i f sv) = pack_data sv"
  by (simp add: sv_set_bp_def map_update list_update_same_conv)
     (metis (no_types) length_map list_update_beyond list_update_id not_le nth_map)

lemma update_data_keeps_data: "ends_in (\<lambda>sv'. pack_data sv' = pack_data sv) (sm_bp_co_update_data_callback now i sv)"
proof -
  have c: "pack_data (sv_set_bp i (bp_connect now) sv') = pack_data sv'" for sv' :: "'a sm_sv_bp"
    by (rule pack_data_set) (simp add: bp_connect_def)
  have s: "ends_in (\<lambda>sv''. pack_data sv'' = pack_data sv) (sm_bp_sync_info now k sv')"
    if "pack_data sv' = pack_data sv" for k sv'
    by (rule ends_in_mono [OF sync_info_keeps_packs]) (simp add: that)
  show ?thesis
    unfolding sm_bp_co_update_data_callback_def Let_def
    by (rule ends_in_and_then [where P = "\<lambda>sv'. pack_data sv' = pack_data sv"])
       (auto simp: c simp del: and_then_simps intro!: s ends_in_and_then [where P = "\<lambda>sv'. pack_data sv' = pack_data sv"])
qed

text \<open>C24. A voltage/current PDO of the pack with node id \<open>5 + i\<close> changes the data of pack
  \<open>i\<close> alone: the voltage becomes ten times the raw value when that lies strictly between 4000 and
  7000, the current ten times the raw signed value when that is below 2000 in size (no wrap-around
  of the product), both keep their old value otherwise, and state of charge and state are taken over as sent.\<close>

theorem pdo_decoded:
  fixes d :: "nat \<Rightarrow> u8" and sv :: "'c sm_sv_bp"
  defines "raw_vol \<equiv> uint (CO_getUint16 (d 0) (d 1))" and "raw_cur \<equiv> sint (CO_getUint16 (d 2) (d 3))"
  assumes "sv_ok sv" "int i < sv_numb sv"
    and "sm_bp_co_received_data now (0x185 + of_nat i) d sv = Inr (sv', cs)"
  shows "\<exists>new old. pack_data sv' = (pack_data sv)[i := new] \<and> old = pack_data sv ! i
     \<and> bp_vol new = (if 4000 < raw_vol \<and> raw_vol < 7000 then 10 * raw_vol else bp_vol old)
     \<and> bp_cur new = (if -2000 < raw_cur \<and> raw_cur < 2000 then 10 * raw_cur else bp_cur old)
     \<and> bp_soc new = uint (d 4) \<and> bp_state new = uint (d 5) \<and> bp_cellVols new = bp_cellVols old"
proof -
  have i: "i < 3" and len: "length (sv_bps sv) = 3" and nb: "uint (co_bp_numb (sv_co sv)) = sv_numb sv"
    using assms(3,4) by (auto simp: sv_ok_def bps_ok_length)
  then have cases: "i = 0 \<or> i = 1 \<or> i = 2" by auto
  have cob: "is_bp_pdo (0x185 + of_nat i)" "pdo_cob (0x185 + of_nat i) = 0x180" "pdo_bp_id (0x185 + of_nat i) = of_nat i"
    using cases by (auto simp: is_bp_pdo_def pdo_cob_def pdo_bp_id_def)
  have lt: "\<not> co_bp_numb (sv_co sv) \<le> (of_nat i :: u8)" "uint (of_nat i :: u8) = int i"
    using assms(4) nb cases by (auto simp: word_le_def)
  let ?sv = "sv_set_bp i (bp_store_pdo now 0x180 d) sv"
  have data: "pack_data ?sv = (pack_data sv)[i := store_vol_cur d (m_data (sv_bps sv ! i))]"
    by (simp add: sv_set_bp_def map_update pdo_defs)
  have "ends_in (\<lambda>s. pack_data s = pack_data ?sv) (sm_bp_co_received_data now (0x185 + of_nat i) d sv)"
    using cob lt i len
    by (auto simp: sm_bp_co_received_data_def sm_bp_co_extract_pdo_def with_pack_def Let_def pack_data_set
        intro!: ends_in_and_then [OF update_data_keeps_data])
  from ends_in_D [OF this assms(5)] data
  have "pack_data sv' = (pack_data sv)[i := store_vol_cur d (m_data (sv_bps sv ! i))]" by simp
  moreover have "sint (word_of_int (10 * uint (CO_getUint16 (d 2) (d 3))) :: u16) = 10 * raw_cur"
    if "-2000 < raw_cur" "raw_cur < 2000"
    using ten_times_cur [of "CO_getUint16 (d 2) (d 3)"] that by (simp add: raw_cur_def)
  ultimately show ?thesis
    using i len by (intro exI [of _ "store_vol_cur d (m_data (sv_bps sv ! i))"] exI [of _ "pack_data sv ! i"])
      (auto simp: store_vol_cur_def Let_def raw_vol_def raw_cur_def)
qed

lemma pdo_decoded_witness:
  "\<exists>(sv' :: string sm_sv_bp) cs new. sm_bp_co_received_data 7 0x185 (\<lambda>i. [0x88, 0x13, 0xF6, 0xFF, 80, 1, 0, 0] ! i) sv_example = Inr (sv', cs)
     \<and> pack_data sv' = (pack_data sv_example)[0 := new] \<and> bp_vol new = 50000 \<and> bp_cur new = -100 \<and> bp_soc new = 80"
proof -
  let ?d = "\<lambda>i. [0x88, 0x13, 0xF6, 0xFF, 80, 1, 0, 0 :: u8] ! i"
  have raw: "uint (CO_getUint16 (?d 0) (?d 1)) = 5000" "sint (CO_getUint16 (?d 2) (?d 3)) = -10"
    by (simp_all add: CO_getUint16_def)
  have "\<exists>sv' cs. sm_bp_co_received_data 7 0x185 ?d sv_example = Inr (sv', cs)"
    by (simp add: sm_bp_co_received_data_def sm_bp_co_extract_pdo_def is_bp_pdo_def pdo_cob_def pdo_bp_id_def
        with_pack_def sv_sample_def co_default_def Let_def sv_set_bp_def bp_default_def pdo_defs word_le_def)
  then obtain sv' cs where r: "sm_bp_co_received_data 7 (0x185 + of_nat 0) ?d sv_example = Inr (sv', cs)" by auto
  have "int 0 < sv_numb sv_example" by (simp add: sv_sample_def)
  from pdo_decoded [OF sv_sample_ok this r] r raw show ?thesis by auto
qed

end
