(* ===== verification/Pms_Ctl_Laws.thy ===== *)
theory Pms_Ctl_Laws
  imports Pms_Ctl Sv_Bp_Frame Sv_Bp_Laws
begin

text \<open>
  What the PMS controller promises. On a service with all three packs its operations never fault
  (with fewer, the loops over the packs read through null pointers); every request is answered
  exactly once, except when the recovery of a failed switch succeeds; a pack is only switched in
  when the others have stopped.
\<close>

section \<open>The invariant\<close>

definition pctl_ok :: "'u sm_pms_ctl \<Rightarrow> bool" where
  "pctl_ok ctl \<longleftrightarrow> length (ctl_shadow ctl) = 3 \<and> -1 \<le> ctl_current_bp ctl \<and> ctl_current_bp ctl < 3
     \<and> (if ctl_cmd ctl = BP_CMD_NUMBER then ctl_cb ctl = None \<and> ctl_state ctl = SM_PMS_ST_IDLE
        else ctl_cmd ctl \<in> {BP_CMD_DISCHARGE, BP_CMD_CHARGE} \<and> 0 \<le> ctl_next_bp ctl \<and> ctl_next_bp ctl < 3)"

definition sv3 :: "'c sm_sv_bp \<Rightarrow> bool" where
  "sv3 sv \<longleftrightarrow> sv_ok sv \<and> numb_is 3 sv"

definition pms_ok :: "('d, 'u) pms_sys \<Rightarrow> bool" where
  "pms_ok sys \<longleftrightarrow> pctl_ok (fst sys) \<and> sv3 (snd sys)"

definition pack_state :: "int \<Rightarrow> 'c sm_sv_bp \<Rightarrow> int" where
  "pack_state k sv = bp_state (m_data (sv_bps sv ! nat k))"

definition pack_connected :: "int \<Rightarrow> 'c sm_sv_bp \<Rightarrow> bool" where
  "pack_connected k sv = m_is_connected (sv_bps sv ! nat k)"

named_theorems pms_simps "operations of the controller on a service with all its packs"

lemma sv3_get_data:
  "sv3 sv \<Longrightarrow> 0 \<le> k \<Longrightarrow> k < 3 \<Longrightarrow> sm_sv_bp_get_data k sv = Inr (Some (m_data (sv_bps sv ! nat k)))"
  by (auto simp: sv3_def numb_is_def sm_sv_bp_get_data_def with_pack_def sv_ok_def bps_ok_length)

lemma sv3_state [pms_simps]: "sv3 sv \<Longrightarrow> 0 \<le> k \<Longrightarrow> k < 3 \<Longrightarrow> bp_state_at k sv = Inr (pack_state k sv)"
  by (simp add: bp_state_at_def sv3_get_data pack_state_def)

lemma sv3_shadow: "sv3 sv \<Longrightarrow> 0 \<le> k \<Longrightarrow> k < 3 \<Longrightarrow> pms_shadow_of k sv = Inr (pack_state k sv mod 256)"
  by (simp add: pms_shadow_of_def sv3_get_data pack_state_def)

lemma sv3_connected [pms_simps]:
  "sv3 sv \<Longrightarrow> 0 \<le> k \<Longrightarrow> k < 3 \<Longrightarrow> sm_sv_bp_is_connected k sv = Inr (pack_connected k sv)"
  by (auto simp: sv3_def numb_is_def sm_sv_bp_is_connected_def with_pack_def sv_ok_def bps_ok_length pack_connected_def)

lemma set_state_simps [pms_simps]:
  "st \<noteq> SM_PMS_ST_IDLE \<Longrightarrow> pms_set_state now st (ctl, sv) =
     Inr ((ctl\<lparr>ctl_state := st, ctl_timeout := elapsed_timer_reset now (ctl_timeout ctl)\<rparr>, sv), [])"
  "sv3 sv \<Longrightarrow> pms_set_state now SM_PMS_ST_IDLE (ctl, sv) =
     Inr ((ctl\<lparr>ctl_state := SM_PMS_ST_IDLE, ctl_timeout := elapsed_timer_reset now (ctl_timeout ctl),
               ctl_shadow := map (\<lambda>k. pack_state k sv mod 256) pack_indices\<rparr>, sv), [])"
  by (simp_all add: pms_set_state_def sv3_shadow)

section \<open>Commands\<close>

text \<open>A command reaches the queue when its pack is connected; it is in process either way.\<close>

definition pms_queue :: "SM_BP_CMD \<Rightarrow> int \<Rightarrow> 'd bp_client sm_sv_bp \<Rightarrow> 'd bp_client sm_sv_bp" where
  "pms_queue cmd k sv =
     (if pack_connected k sv
      then sv_push \<lparr>cmd_id = k, cmd_cmd = cmd, cmd_data = Null_Buf, cmd_cb = Client Pms_On_Cmd\<rparr> sv else sv)"

lemma set_cmd_spec [pms_simps]:
  assumes "sv3 sv" "0 \<le> k" "k < 3"
  shows "pms_set_cmd now cmd k (ctl, sv) = Inr ((ctl\<lparr>ctl_in_process := True\<rparr>, pms_queue cmd k sv), [])"
  using assms
  by (auto simp: pms_set_cmd_def sm_sv_bp_set_cmd_def sv3_def numb_is_def sv_ok_def bps_ok_length with_pack_def
      pms_queue_def pack_connected_def set_cmd_fails_def pms_dispatch_def pms_on_cmd_bp_def)

lemma sv3_queue [simp]: "sv3 sv \<Longrightarrow> sv3 (pms_queue cmd k sv)"
  by (simp add: sv3_def pms_queue_def sv_ok_push)

lemma answer_spec [pms_simps]:
  "sv3 sv \<Longrightarrow> pms_answer now r (ctl, sv) =
     Inr ((pms_reset_cmd ctl\<lparr>ctl_state := SM_PMS_ST_IDLE, ctl_timeout := elapsed_timer_reset now (ctl_timeout ctl),
             ctl_shadow := map (\<lambda>k. pack_state k sv mod 256) pack_indices\<rparr>, sv),
          switch_done (ctl_cb ctl) r (word_of_int (ctl_next_bp ctl)))"
  by (simp add: pms_answer_def pms_simps) (simp add: pms_reset_cmd_def)

section \<open>The scans\<close>

definition pre_busy :: "int \<Rightarrow> ('d, 'u) pms_sys \<Rightarrow> bool" where
  "pre_busy k sys \<longleftrightarrow> k \<noteq> ctl_next_bp (fst sys) \<and> shadow_at k sys \<noteq> BP_STATE_ONLY_DISCHARGING
     \<and> running (pack_state k (snd sys))"

lemma pre_scan_spec:
  assumes "sv3 (snd sys)" "ctl_cmd (fst sys) \<in> {BP_CMD_DISCHARGE, BP_CMD_CHARGE}" "\<forall>k \<in> set ks. 0 \<le> k \<and> k < 3"
  shows "pms_pre_scan ks sys =
    (case find (\<lambda>k. pre_busy k sys) ks of None \<Rightarrow> Inr None
     | Some k \<Rightarrow> Inr (Some (if ctl_cmd (fst sys) = BP_CMD_DISCHARGE then BP_CMD_ONLY_DISCHARGE else BP_CMD_STANDBY, k)))"
  using assms(3)
proof (induction ks)
  case (Cons k ks)
  then show ?case
    using assms(1,2) by (auto simp: pms_simps pre_busy_def)
qed simp

definition pack_off :: "int \<Rightarrow> 'c sm_sv_bp \<Rightarrow> bool" where
  "pack_off k sv \<longleftrightarrow> pack_state k sv \<le> BP_STATE_IDLE \<or> pack_state k sv = BP_STATE_STANDBY"

lemma fin_scan_spec:
  assumes "sv3 (snd sys)" "\<forall>k \<in> set ks. 0 \<le> k \<and> k < 3"
  shows "pms_fin_scan ks n sys =
    (case find (\<lambda>k. k \<noteq> ctl_next_bp (fst sys) \<and> shadow_at k sys = BP_STATE_ONLY_DISCHARGING) ks of
       Some k \<Rightarrow> Inr (Inl k)
     | None \<Rightarrow> Inr (Inr (n + length (filter (\<lambda>k. k \<noteq> ctl_next_bp (fst sys) \<and> pack_off k (snd sys)) ks))))"
  using assms(2)
proof (induction ks arbitrary: n)
  case (Cons k ks)
  then show ?case using assms(1) by (auto simp: pms_simps pack_off_def split: option.split)
qed simp

lemma find_current_spec:
  assumes "sv3 sv" "\<forall>k \<in> set ks. 0 \<le> k \<and> k < 3"
  shows "pms_find_current port cmd sv ks = Inr (find (\<lambda>k. k \<noteq> port \<and> reached cmd (pack_state k sv)) ks)"
  using assms(2) by (induction ks) (auto simp: assms(1) pms_simps)

section \<open>The operations on a service with all its packs\<close>

lemma pctl_ok_simps [simp]:
  "pctl_ok (ctl\<lparr>ctl_in_process := b\<rparr>) = pctl_ok ctl" "pctl_ok (ctl\<lparr>ctl_timeout := x\<rparr>) = pctl_ok ctl"
  by (simp_all add: pctl_ok_def)

lemma pctl_ok_state: "pctl_ok ctl \<Longrightarrow> ctl_cmd ctl \<noteq> BP_CMD_NUMBER \<Longrightarrow> pctl_ok (ctl\<lparr>ctl_state := st, ctl_timeout := x\<rparr>)"
  by (simp add: pctl_ok_def)

lemma pctl_ok_idle: "pctl_ok ctl \<Longrightarrow> length sh = 3 \<Longrightarrow>
    pctl_ok (ctl\<lparr>ctl_state := SM_PMS_ST_IDLE, ctl_timeout := x, ctl_shadow := sh\<rparr>)"
  by (auto simp: pctl_ok_def split: if_splits)

lemma pctl_ok_reset: "pctl_ok ctl \<Longrightarrow> length sh = 3 \<Longrightarrow>
    pctl_ok (pms_reset_cmd ctl\<lparr>ctl_state := SM_PMS_ST_IDLE, ctl_timeout := x, ctl_shadow := sh\<rparr>)"
  by (simp add: pctl_ok_def pms_reset_cmd_def)

lemma pctl_okD:
  assumes "pctl_ok ctl" "ctl_state ctl \<noteq> SM_PMS_ST_IDLE \<or> ctl_cmd ctl \<noteq> BP_CMD_NUMBER"
  shows "ctl_cmd ctl \<in> {BP_CMD_DISCHARGE, BP_CMD_CHARGE}" "0 \<le> ctl_next_bp ctl" "ctl_next_bp ctl < 3"
    "ctl_cmd ctl \<noteq> BP_CMD_NUMBER" "length (ctl_shadow ctl) = 3" "-1 \<le> ctl_current_bp ctl" "ctl_current_bp ctl < 3"
  using assms by (auto simp: pctl_ok_def split: if_splits)

text \<open>The step of each state, with its branches made explicit.\<close>

lemma pre_switch_spec:
  assumes "sv3 sv" "pctl_ok ctl" "ctl_state ctl = SM_PMS_ST_PRE_SWITCH"
  shows "pms_pre_switch now (ctl, sv) =
    (if timed_out now (ctl_timeout ctl)
     then Inr ((ctl\<lparr>ctl_state := SM_PMS_ST_FAIL, ctl_timeout := elapsed_timer_reset now (ctl_timeout ctl)\<rparr>, sv), [])
     else if ctl_in_process ctl then Inr ((ctl, sv), [])
     else (case find (\<lambda>k. pre_busy k (ctl, sv)) pack_indices of
        None \<Rightarrow> Inr ((ctl\<lparr>ctl_state := SM_PMS_ST_MAIN_SWITCH, ctl_timeout := elapsed_timer_reset now (ctl_timeout ctl)\<rparr>, sv), [])
      | Some k \<Rightarrow> Inr ((ctl\<lparr>ctl_in_process := True\<rparr>,
          pms_queue (if ctl_cmd ctl = BP_CMD_DISCHARGE then BP_CMD_ONLY_DISCHARGE else BP_CMD_STANDBY) k sv), [])))"
proof -
  have s: "pms_pre_scan pack_indices (ctl, sv) =
    (case find (\<lambda>k. pre_busy k (ctl, sv)) pack_indices of None \<Rightarrow> Inr None
     | Some k \<Rightarrow> Inr (Some (if ctl_cmd ctl = BP_CMD_DISCHARGE then BP_CMD_ONLY_DISCHARGE else BP_CMD_STANDBY, k)))"
    using pre_scan_spec [of "(ctl, sv)" pack_indices] assms pctl_okD [OF assms(2)] by simp
  have k: "0 \<le> k \<and> k < 3" if "find (\<lambda>k. pre_busy k (ctl, sv)) pack_indices = Some k" for k
    using that by (auto split: if_splits)
  show ?thesis
    using k assms(1) unfolding pms_pre_switch_def s
    by (auto simp: pms_expired_def pms_simps simp del: find.simps split: option.split)
qed

lemma main_switch_spec:
  assumes "sv3 sv" "pctl_ok ctl" "ctl_state ctl = SM_PMS_ST_MAIN_SWITCH \<or> ctl_state ctl = SM_PMS_ST_MERGE"
  defines "nxt \<equiv> ctl_next_bp ctl"
  shows "pms_main_switch now (ctl, sv) =
    (if timed_out now (ctl_timeout ctl)
     then Inr ((ctl\<lparr>ctl_state := SM_PMS_ST_FAIL, ctl_timeout := elapsed_timer_reset now (ctl_timeout ctl)\<rparr>, sv), [])
     else if ctl_in_process ctl then Inr ((ctl, sv), [])
     else if shadow_at nxt (ctl, sv) \<noteq> BP_STATE_DISCHARGING \<and> pack_state nxt sv = BP_STATE_STANDBY
     then Inr ((ctl\<lparr>ctl_in_process := True\<rparr>, pms_queue (ctl_cmd ctl) nxt sv), [])
     else if running (pack_state nxt sv)
     then (if ctl_state ctl = SM_PMS_ST_MERGE then pms_answer now 0 (ctl, sv)
           else Inr ((ctl\<lparr>ctl_state := SM_PMS_ST_FIN_SWITCH, ctl_timeout := elapsed_timer_reset now (ctl_timeout ctl)\<rparr>, sv), []))
     else Inr ((ctl, sv), []))"
  using assms pctl_okD [OF assms(2)]
  by (auto simp: pms_main_switch_def Let_def pms_expired_def pms_simps)

lemma finish_switch_spec:
  assumes "sv3 sv" "pctl_ok ctl" "ctl_state ctl = SM_PMS_ST_FIN_SWITCH"
  defines "others \<equiv> filter (\<lambda>k. k \<noteq> ctl_next_bp ctl) pack_indices"
  shows "pms_finish_switch now (ctl, sv) =
    (if timed_out now (ctl_timeout ctl)
     then Inr ((ctl\<lparr>ctl_state := SM_PMS_ST_RECOVERY, ctl_timeout := elapsed_timer_reset now (ctl_timeout ctl)\<rparr>, sv), [])
     else if ctl_in_process ctl then Inr ((ctl, sv), [])
     else (case find (\<lambda>k. shadow_at k (ctl, sv) = BP_STATE_ONLY_DISCHARGING) others of
        Some k \<Rightarrow> Inr ((ctl\<lparr>ctl_in_process := True\<rparr>, pms_queue BP_CMD_STANDBY k sv), [])
      | None \<Rightarrow> if list_all (\<lambda>k. pack_off k sv) others then pms_answer now 0 (ctl, sv) else Inr ((ctl, sv), [])))"
proof -
  have f: "find (\<lambda>k. k \<noteq> ctl_next_bp ctl \<and> shadow_at k (ctl, sv) = BP_STATE_ONLY_DISCHARGING) pack_indices =
      find (\<lambda>k. shadow_at k (ctl, sv) = BP_STATE_ONLY_DISCHARGING) others"
    by (simp add: others_def)
  have nxt: "ctl_next_bp ctl = 0 \<or> ctl_next_bp ctl = 1 \<or> ctl_next_bp ctl = 2"
    using pctl_okD(2,3) [OF assms(2)] assms(3) by auto
  have n: "length (filter (\<lambda>k. k \<noteq> ctl_next_bp ctl \<and> pack_off k sv) pack_indices) < 2
      \<longleftrightarrow> \<not> list_all (\<lambda>k. pack_off k sv) others"
    using nxt by (auto simp: others_def)
  have s: "pms_fin_scan pack_indices 0 (ctl, sv) =
    (case find (\<lambda>k. shadow_at k (ctl, sv) = BP_STATE_ONLY_DISCHARGING) others of
       Some k \<Rightarrow> Inr (Inl k)
     | None \<Rightarrow> Inr (Inr (length (filter (\<lambda>k. k \<noteq> ctl_next_bp ctl \<and> pack_off k sv) pack_indices))))"
    using fin_scan_spec [of "(ctl, sv)" pack_indices 0] assms(1) unfolding f by (simp add: f [symmetric])
  have k: "0 \<le> k \<and> k < 3" if "find (\<lambda>k. shadow_at k (ctl, sv) = BP_STATE_ONLY_DISCHARGING) others = Some k" for k
    using that by (auto simp: others_def split: if_splits)
  show ?thesis
    using k n assms(1) unfolding pms_finish_switch_def s
    by (auto simp: pms_expired_def pms_simps simp del: find.simps split: option.split)
qed

lemma recovery_spec:
  assumes "sv3 sv" "pctl_ok ctl" "ctl_state ctl = SM_PMS_ST_RECOVERY"
  shows "pms_recovery now (ctl, sv) =
    (if timed_out now (ctl_timeout ctl)
     then Inr ((ctl\<lparr>ctl_state := SM_PMS_ST_FAIL, ctl_timeout := elapsed_timer_reset now (ctl_timeout ctl)\<rparr>, sv), [])
     else if ctl_in_process ctl \<or> ctl_current_bp ctl = -1 then Inr ((ctl, sv), [])
     else Inr ((ctl\<lparr>ctl_in_process := True\<rparr>, pms_queue (ctl_cmd ctl) (ctl_current_bp ctl) sv), []))"
  using assms pctl_okD [OF assms(2)]
  by (auto simp: pms_recovery_def pms_expired_def pms_simps)

lemma check_cmd_spec:
  assumes "sv3 sv"
  shows "sm_pms_ctl_check_cmd port cmd (ctl, sv) =
    Inr (if uint port < 3 \<and> cmd \<in> {BP_CMD_DISCHARGE, BP_CMD_CHARGE} \<and> pack_connected (uint port) sv
         then (if ctl_cmd ctl = BP_CMD_NUMBER then 0 else -2) else -1)"
  by (simp add: sm_pms_ctl_check_cmd_def sv3_connected [OF assms])

lemma start_spec:
  assumes "sv3 sv" "target = SM_PMS_ST_PRE_SWITCH \<or> target = SM_PMS_ST_MERGE"
  shows "pms_start target now port cmd cb (ctl, sv) =
    (if uint port < 3 \<and> cmd \<in> {BP_CMD_DISCHARGE, BP_CMD_CHARGE} \<and> pack_connected (uint port) sv \<and> ctl_cmd ctl = BP_CMD_NUMBER
     then (if reached cmd (pack_state (uint port) sv) then Inr (0, (ctl, sv), switch_done cb 0 port)
           else Inr (0, (ctl\<lparr>ctl_cmd := cmd, ctl_in_process := False, ctl_next_bp := uint port, ctl_cb := cb,
                  ctl_current_bp := (case find (\<lambda>k. k \<noteq> uint port \<and> reached cmd (pack_state k sv)) pack_indices of
                                       None \<Rightarrow> ctl_current_bp ctl | Some k \<Rightarrow> k),
                  ctl_state := target, ctl_timeout := elapsed_timer_reset now (ctl_timeout ctl)\<rparr>, sv), []))
     else Inr (-1, (ctl, sv), switch_done cb (-1) port))"
proof (cases "uint port < 3 \<and> cmd \<in> {BP_CMD_DISCHARGE, BP_CMD_CHARGE} \<and> pack_connected (uint port) sv \<and> ctl_cmd ctl = BP_CMD_NUMBER")
  case True
  then have c: "sm_pms_ctl_check_cmd port cmd (ctl, sv) = Inr 0" "bp_state_at (uint port) sv = Inr (pack_state (uint port) sv)"
    by (simp_all add: check_cmd_spec [OF assms(1)] sv3_state [OF assms(1)])
  have f: "pms_find_current (uint port) cmd sv pack_indices =
      Inr (find (\<lambda>k. k \<noteq> uint port \<and> reached cmd (pack_state k sv)) pack_indices)"
    by (rule find_current_spec [OF assms(1)]) simp
  have st: "target \<noteq> SM_PMS_ST_IDLE" using assms(2) by auto
  show ?thesis
    unfolding pms_start_def prod.case c f sum.case using True
    by (simp add: Let_def set_state_simps(1) [OF st] del: find.simps)
next
  case False
  let ?r = "if uint port < 3 \<and> cmd \<in> {BP_CMD_DISCHARGE, BP_CMD_CHARGE} \<and> pack_connected (uint port) sv
         then (if ctl_cmd ctl = BP_CMD_NUMBER then 0 else -2) else - 1 :: int"
  have "sm_pms_ctl_check_cmd port cmd (ctl, sv) = Inr ?r" by (rule check_cmd_spec [OF assms(1)])
  moreover have "?r < 0" using False by auto
  ultimately show ?thesis using False by (simp only: pms_start_def prod.case sum.case if_True if_False)
qed

section \<open>The invariant is kept\<close>

lemma process_ok:
  assumes "pms_ok sys"
  shows "\<exists>sys' cs. sm_pms_ctl_process now sys = Inr (sys', cs) \<and> pms_ok sys'"
proof -
  obtain ctl sv where s: "sys = (ctl, sv)" by fastforce
  have ok: "pctl_ok ctl" "sv3 sv" using assms by (simp_all add: s pms_ok_def)
  note D = pctl_okD [OF ok(1)]
  show ?thesis
    using ok pctl_ok_state [OF ok(1)] D
    by (cases "ctl_state ctl")
      (auto simp: s sm_pms_ctl_process_def pms_ok_def pre_switch_spec main_switch_spec finish_switch_spec recovery_spec
        answer_spec pctl_ok_reset simp del: find.simps split: option.split)
qed

lemma start_ok:
  assumes "pms_ok sys" "target = SM_PMS_ST_PRE_SWITCH \<or> target = SM_PMS_ST_MERGE"
  shows "\<exists>r sys' cs. pms_start target now port cmd cb sys = Inr (r, sys', cs) \<and> pms_ok sys'"
proof -
  obtain ctl sv where s: "sys = (ctl, sv)" by fastforce
  have ok: "pctl_ok ctl" "sv3 sv" using assms(1) by (simp_all add: s pms_ok_def)
  have "-1 \<le> k \<and> k < 3" if "find P pack_indices = Some k" for P k
    using that by (auto split: if_splits)
  then show ?thesis
    using ok by (auto simp: s start_spec [OF ok(2) assms(2)] pms_ok_def pctl_ok_def simp del: find.simps split: option.split)
qed

lemma release_ok: "pms_ok sys \<Longrightarrow> \<exists>sys' cs. sm_pms_ctl_release now sys = Inr (sys', cs) \<and> pms_ok sys'"
  by (cases sys) (auto simp: sm_pms_ctl_release_def pms_ok_def answer_spec pctl_ok_reset)

lemma power_off_ok: "pms_ok sys \<Longrightarrow> \<exists>r sys' cs. sm_pms_ctl_power_off now port cb sys = Inr (r, sys', cs) \<and> pms_ok sys'
    \<and> fst sys' = fst sys"
proof -
  assume ok: "pms_ok sys"
  obtain ctl sv where s: "sys = (ctl, sv)" by fastforce
  have l: "length (sv_bps sv) = 3" "sv_numb sv = 3"
    using ok by (simp_all add: s pms_ok_def sv3_def sv_ok_def numb_is_def bps_ok_length)
  moreover have "int (unat port) = uint port" by simp
  then have "3 \<le> unat port \<longleftrightarrow> 3 \<le> uint port" by linarith
  ultimately show ?thesis
    using ok by (auto simp: s sm_pms_ctl_power_off_def sm_sv_bp_set_cmd_def with_pack_def set_cmd_fails_def pms_ok_def
        sv3_def sv_ok_push split: option.split)
qed

lemma on_cmd_ok:
  assumes "pms_ok sys"
  shows "ends_in pms_ok (pms_on_cmd_bp now k cmd ok sys)"
proof -
  obtain ctl sv where s: "sys = (ctl, sv)" by fastforce
  have o: "pctl_ok ctl" "sv3 sv" using assms by (simp_all add: s pms_ok_def)
  have sh: "pctl_ok (ctl\<lparr>ctl_shadow := (ctl_shadow ctl)[i := x]\<rparr>)" for i x using o(1) by (auto simp: pctl_ok_def split: if_splits)
  have "ends_in pms_ok (and_then (Inr (sys', cs)) (\<lambda>(ctl, sv). Inr ((ctl\<lparr>ctl_in_process := False\<rparr>, sv), [])))"
    if "pms_ok sys'" for sys' :: "('a, 'b) pms_sys" and cs
    using that by (cases sys') (simp add: pms_ok_def)
  then show ?thesis
    using o by (auto simp: s pms_on_cmd_bp_def set_shadow_def pms_ok_def set_state_simps(2) sh pctl_ok_idle
        split: SM_PMS_ST.split)
qed

lemma dispatch_ok: "pms_ok sys \<Longrightarrow> ends_in pms_ok (pms_dispatch now cs sys)"
  unfolding pms_dispatch_def
  by (rule ends_in_run_all) (auto simp: on_cmd_ok split: sv_call.split bp_client.split)

lemma service_ok: "sv3 sv \<Longrightarrow> sv_step sv e = Inr (sv', cs) \<Longrightarrow> sv3 sv'"
  using sv_step_ok [of sv e] numb_step [of 3 sv e] by (simp add: sv3_def)

lemma pms_step_ok: "pms_ok sys \<Longrightarrow> ends_in pms_ok (pms_step sys e)"
proof (cases e)
  case (Switch now port cmd cb)
  assume "pms_ok sys"
  from start_ok [OF this, of SM_PMS_ST_PRE_SWITCH now port cmd cb] show ?thesis
    by (auto simp: Switch sm_pms_ctl_switch_def)
next
  case (Merge now port cmd cb)
  assume "pms_ok sys"
  from start_ok [OF this, of SM_PMS_ST_MERGE now port cmd cb] show ?thesis
    by (auto simp: Merge sm_pms_ctl_merge_def)
next
  case (Service now x)
  assume ok: "pms_ok sys"
  show ?thesis
  proof (cases "sv_step (snd sys) x")
    case (Inr p)
    then obtain sv cs where p: "sv_step (snd sys) x = Inr (sv, cs)" by (cases p) simp
    have "pms_ok (fst sys, sv)" using ok service_ok [OF _ p] by (simp add: pms_ok_def)
    then show ?thesis by (simp add: Service p dispatch_ok)
  qed (simp add: Service)
next
  case (Release now)
  assume "pms_ok sys"
  from release_ok [OF this, of now] show ?thesis by (auto simp: Release)
next
  case (Power_Off now port cb)
  assume "pms_ok sys"
  from power_off_ok [OF this, of now port cb] show ?thesis by (auto simp: Power_Off)
next
  case (Ctl_Process now)
  assume "pms_ok sys"
  from process_ok [OF this, of now] show ?thesis by (auto simp: Ctl_Process)
qed

definition pms_sstep :: "fault + ('d, 'u) pms_sys \<Rightarrow> ('d, 'u) pms_event \<Rightarrow> fault + ('d, 'u) pms_sys" where
  "pms_sstep st e = (case st of Inl f \<Rightarrow> Inl f | Inr sys \<Rightarrow> map_sum id fst (pms_step sys e))"

interpretation pms: event_machine pms_sstep "\<lambda>st. case st of Inl _ \<Rightarrow> True | Inr sys \<Rightarrow> pms_ok sys"
proof (unfold_locales, goal_cases)
  case (1 st e)
  show ?case
  proof (cases st)
    case (Inr sys)
    then have "ends_in pms_ok (pms_step sys e)" using 1 pms_step_ok [of sys e] by auto
    then show ?thesis by (cases "pms_step sys e") (auto simp: Inr pms_sstep_def)
  qed (simp add: pms_sstep_def)
qed

text \<open>Runs, one event at a time.\<close>

lemma pms_run_simps [simp]:
  "pms_run [] sys = Inr (sys, [])"
  "pms_run (e # es) sys = and_then (pms_step sys e) (pms_run es)"
  by (simp_all add: pms_run_def)

lemma pms_run_cons:
  assumes "pms_run (e # es) sys = Inr (sys', cs)"
  obtains s1 c1 c2 where "pms_step sys e = Inr (s1, c1)" "pms_run es s1 = Inr (sys', c2)" "cs = c1 @ c2"
proof (cases "pms_step sys e")
  case (Inr p)
  then obtain s1 c1 where p: "pms_step sys e = Inr (s1, c1)" by (cases p) simp
  show ?thesis
  proof (cases "pms_run es s1")
    case (Inr q)
    then obtain s2 c2 where q: "pms_run es s1 = Inr (s2, c2)" by (cases q) simp
    then show ?thesis using assms p that [OF p] by simp
  qed (use assms p in simp)
qed (use assms in simp)

section \<open>One answer for each request\<close>

definition done_of :: "'u \<Rightarrow> ('d, 'u) pms_call \<Rightarrow> bool" where
  "done_of u c = (case c of Switch_Done u' _ _ \<Rightarrow> u' = u | _ \<Rightarrow> False)"

definition answers :: "'u \<Rightarrow> ('d, 'u) pms_call list \<Rightarrow> nat" where
  "answers u cs = length (filter (done_of u) cs)"

fun asked :: "'u \<Rightarrow> ('d, 'u) pms_event \<Rightarrow> nat" where
  "asked u (Switch _ _ _ cb) = (if cb = Some u then 1 else 0)"
| "asked u (Merge _ _ _ cb) = (if cb = Some u then 1 else 0)"
| "asked u _ = 0"

definition pending :: "'u \<Rightarrow> ('d, 'u) pms_sys \<Rightarrow> nat" where
  "pending u sys = (if ctl_cb (fst sys) = Some u then 1 else 0)"

lemma answers_simps [simp]:
  "answers u [] = 0" "answers u (c # cs) = (if done_of u c then 1 else 0) + answers u cs"
  "answers u (cs @ ds) = answers u cs + answers u ds" "answers u (map Bp_Call xs) = 0"
  by (simp_all add: answers_def) (simp add: filter_empty_conv done_of_def)

lemma answers_done: "answers u (switch_done cb r p) = (if cb = Some u then 1 else 0)"
  by (auto simp: switch_done_def done_of_def split: option.split)

text \<open>A callback of the service never answers a request, nor changes which one is pending.\<close>

lemma on_cmd_cb:
  assumes "sv3 (snd sys)" "pms_on_cmd_bp now k cmd ok sys = Inr (sys', cs)"
  shows "cs = [] \<and> ctl_cb (fst sys') = ctl_cb (fst sys) \<and> ctl_cmd (fst sys') = ctl_cmd (fst sys)
    \<and> ctl_next_bp (fst sys') = ctl_next_bp (fst sys) \<and> snd sys' = snd sys"
proof -
  obtain ctl sv where s: "sys = (ctl, sv)" by fastforce
  show ?thesis
    using assms by (cases "ctl_state ctl")
      (auto simp: s pms_on_cmd_bp_def set_shadow_def set_state_simps(2) split: if_splits)
qed

lemma dispatch_cb:
  "sv3 (snd sys) \<Longrightarrow> pms_dispatch now cs sys = Inr (sys', cs') \<Longrightarrow>
     answers u cs' = 0 \<and> ctl_cb (fst sys') = ctl_cb (fst sys) \<and> ctl_cmd (fst sys') = ctl_cmd (fst sys)
     \<and> ctl_next_bp (fst sys') = ctl_next_bp (fst sys) \<and> snd sys' = snd sys"
proof (induction cs arbitrary: sys cs')
  case (Cons c cs)
  let ?f = "\<lambda>c sys. case c of Cmd_Done Pms_On_Cmd k cmd ok _ \<Rightarrow> pms_on_cmd_bp now k cmd ok sys
                      | c \<Rightarrow> Inr (sys, [Bp_Call c])"
  have r: "and_then (?f c sys) (pms_dispatch now cs) = Inr (sys', cs')"
    using Cons.prems(2) by (simp add: pms_dispatch_def)
  then obtain s1 c1 where f: "?f c sys = Inr (s1, c1)" by (cases "?f c sys") auto
  then obtain c2 where d: "pms_dispatch now cs s1 = Inr (sys', c2)" "cs' = c1 @ c2"
    using r by (cases "pms_dispatch now cs s1") auto
  have s1: "answers u c1 = 0 \<and> ctl_cb (fst s1) = ctl_cb (fst sys) \<and> ctl_cmd (fst s1) = ctl_cmd (fst sys)
      \<and> ctl_next_bp (fst s1) = ctl_next_bp (fst sys) \<and> snd s1 = snd sys"
    using f by (auto simp: done_of_def split: sv_call.splits bp_client.splits dest!: on_cmd_cb [OF Cons.prems(1)])
  show ?case using Cons.IH [OF _ d(1)] Cons.prems(1) s1 d(2) by simp
qed (simp add: pms_dispatch_def)

lemma process_answers:
  assumes "pms_ok sys" "sm_pms_ctl_process now sys = Inr (sys', cs)"
  shows "answers u cs + pending u sys' = pending u sys"
proof -
  obtain ctl sv where s: "sys = (ctl, sv)" by fastforce
  have ok: "pctl_ok ctl" "sv3 sv" using assms(1) by (simp_all add: s pms_ok_def)
  show ?thesis
    using assms(2) ok
    by (cases "ctl_state ctl")
      (auto simp: s sm_pms_ctl_process_def pre_switch_spec main_switch_spec finish_switch_spec recovery_spec
        answer_spec answers_done pending_def pms_reset_cmd_def simp del: find.simps split: option.splits if_splits)
qed

lemma start_answers:
  assumes "pms_ok sys" "target = SM_PMS_ST_PRE_SWITCH \<or> target = SM_PMS_ST_MERGE"
    and "pms_start target now port cmd cb sys = Inr (r, sys', cs)"
  shows "answers u cs + pending u sys' = (if cb = Some u then 1 else 0) + pending u sys"
proof -
  obtain ctl sv where s: "sys = (ctl, sv)" by fastforce
  have ok: "pctl_ok ctl" "sv3 sv" using assms(1) by (simp_all add: s pms_ok_def)
  have "ctl_cmd ctl = BP_CMD_NUMBER \<Longrightarrow> ctl_cb ctl = None" using ok(1) by (simp add: pctl_ok_def)
  then show ?thesis
    using assms(3) by (auto simp: s start_spec [OF ok(2) assms(2)] answers_done pending_def simp del: find.simps split: if_splits)
qed

lemma step_answers:
  assumes "pms_ok sys" "pms_step sys e = Inr (sys', cs)"
  shows "answers u cs + pending u sys' = asked u e + pending u sys"
proof (cases e)
  case (Switch now port cmd cb)
  then obtain r where "sm_pms_ctl_switch now port cmd cb sys = Inr (r, sys', cs)"
    using assms(2) by (cases "sm_pms_ctl_switch now port cmd cb sys") auto
  then show ?thesis using start_answers [OF assms(1), of SM_PMS_ST_PRE_SWITCH now port cmd cb r sys' cs u]
    by (simp add: Switch sm_pms_ctl_switch_def)
next
  case (Merge now port cmd cb)
  then obtain r where "sm_pms_ctl_merge now port cmd cb sys = Inr (r, sys', cs)"
    using assms(2) by (cases "sm_pms_ctl_merge now port cmd cb sys") auto
  then show ?thesis using start_answers [OF assms(1), of SM_PMS_ST_MERGE now port cmd cb r sys' cs u]
    by (simp add: Merge sm_pms_ctl_merge_def)
next
  case (Release now)
  then show ?thesis
    using assms by (cases sys) (auto simp: sm_pms_ctl_release_def pms_ok_def answer_spec answers_done pending_def
        pms_reset_cmd_def split: if_splits)
next
  case (Power_Off now port cb)
  then show ?thesis
    using assms(2) by (cases sys) (auto simp: sm_pms_ctl_power_off_def pending_def split: if_splits sum.splits)
next
  case (Ctl_Process now)
  then show ?thesis using process_answers [OF assms(1)] assms(2) by simp
next
  case (Service now x)
  then obtain sv c where "sv_step (snd sys) x = Inr (sv, c)" "pms_dispatch now c (fst sys, sv) = Inr (sys', cs)"
    using assms(2) by (auto split: sum.splits)
  then show ?thesis
    using dispatch_cb [of "(fst sys, sv)" now c sys' cs u] service_ok [of "snd sys" x sv c] assms(1)
    by (simp add: Service pending_def pms_ok_def)
qed

text \<open>C21. Whatever happens to the controller and its service, a callback is called exactly
  as often as requests were made with it, less one if such a request is still pending.\<close>

theorem pms_one_answer:
  assumes "pms_ok sys" "pms_run es sys = Inr (sys', cs)"
  shows "answers u cs + pending u sys' = sum_list (map (asked u) es) + pending u sys"
  using assms
proof (induction es arbitrary: sys cs)
  case (Cons e es)
  from pms_run_cons [OF Cons.prems(2)] obtain s1 c1 c2
    where r: "pms_step sys e = Inr (s1, c1)" "pms_run es s1 = Inr (sys', c2)" "cs = c1 @ c2" by blast
  have "pms_ok s1" by (rule ends_in_D [OF pms_step_ok [OF Cons.prems(1)] r(1)])
  from Cons.IH [OF this r(2)] step_answers [OF Cons.prems(1) r(1), of u] r(3) show ?case by simp
qed simp

section \<open>The state diagram\<close>

text \<open>
  The changes of state the controller may make, with what must hold when it makes them. \<open>stopped\<close>:
  the pack has acknowledged only-discharge or is neither discharging nor charging.
\<close>

definition stopped :: "int \<Rightarrow> ('d, 'u) pms_sys \<Rightarrow> bool" where
  "stopped k sys \<longleftrightarrow> shadow_at k sys = BP_STATE_ONLY_DISCHARGING \<or> \<not> running (pack_state k (snd sys))"

definition others :: "('d, 'u) pms_sys \<Rightarrow> int list" where
  "others sys = filter (\<lambda>k. k \<noteq> ctl_next_bp (fst sys)) pack_indices"

definition startable :: "u8 \<Rightarrow> SM_BP_CMD \<Rightarrow> ('d, 'u) pms_sys \<Rightarrow> bool" where
  "startable port cmd sys \<longleftrightarrow> uint port < 3 \<and> cmd \<in> {BP_CMD_DISCHARGE, BP_CMD_CHARGE}
     \<and> pack_connected (uint port) (snd sys) \<and> ctl_cmd (fst sys) = BP_CMD_NUMBER
     \<and> \<not> reached cmd (pack_state (uint port) (snd sys))"

inductive pms_diagram :: "('d, 'u) pms_sys \<Rightarrow> ('d, 'u) pms_event \<Rightarrow> SM_PMS_ST \<Rightarrow> SM_PMS_ST \<Rightarrow> bool" where
  to_pre: "startable port cmd sys \<Longrightarrow> pms_diagram sys (Switch now port cmd cb) SM_PMS_ST_IDLE SM_PMS_ST_PRE_SWITCH"
| to_merge: "startable port cmd sys \<Longrightarrow> pms_diagram sys (Merge now port cmd cb) SM_PMS_ST_IDLE SM_PMS_ST_MERGE"
| pre_main: "list_all (\<lambda>k. stopped k sys) (others sys) \<Longrightarrow>
     pms_diagram sys (Ctl_Process now) SM_PMS_ST_PRE_SWITCH SM_PMS_ST_MAIN_SWITCH"
| main_fin: "running (pack_state (ctl_next_bp (fst sys)) (snd sys)) \<Longrightarrow>
     pms_diagram sys (Ctl_Process now) SM_PMS_ST_MAIN_SWITCH SM_PMS_ST_FIN_SWITCH"
| merge_idle: "running (pack_state (ctl_next_bp (fst sys)) (snd sys)) \<Longrightarrow>
     pms_diagram sys (Ctl_Process now) SM_PMS_ST_MERGE SM_PMS_ST_IDLE"
| fin_idle: "list_all (\<lambda>k. pack_off k (snd sys) \<and> shadow_at k sys \<noteq> BP_STATE_ONLY_DISCHARGING) (others sys) \<Longrightarrow>
     pms_diagram sys (Ctl_Process now) SM_PMS_ST_FIN_SWITCH SM_PMS_ST_IDLE"
| fin_recovery: "pms_expired now sys \<Longrightarrow>
     pms_diagram sys (Ctl_Process now) SM_PMS_ST_FIN_SWITCH SM_PMS_ST_RECOVERY"
| to_fail: "pms_expired now sys \<Longrightarrow>
     st \<in> {SM_PMS_ST_PRE_SWITCH, SM_PMS_ST_MAIN_SWITCH, SM_PMS_ST_MERGE, SM_PMS_ST_RECOVERY} \<Longrightarrow>
     pms_diagram sys (Ctl_Process now) st SM_PMS_ST_FAIL"
| fail_idle: "pms_diagram sys (Ctl_Process now) SM_PMS_ST_FAIL SM_PMS_ST_IDLE"
| recovered: "pms_diagram sys (Service now e) SM_PMS_ST_RECOVERY SM_PMS_ST_IDLE"
| released: "ctl_cmd (fst sys) \<noteq> BP_CMD_NUMBER \<Longrightarrow> pms_diagram sys (Release now) st SM_PMS_ST_IDLE"

inductive_cases to_main_cases: "pms_diagram sys e st SM_PMS_ST_MAIN_SWITCH"
inductive_cases to_fin_cases: "pms_diagram sys e st SM_PMS_ST_FIN_SWITCH"

lemma none_pre_busy:
  assumes "find (\<lambda>k. pre_busy k sys) pack_indices = None"
  shows "list_all (\<lambda>k. stopped k sys) (others sys)"
  unfolding list_all_iff
proof
  fix k assume "k \<in> set (others sys)"
  then have k: "k \<in> set pack_indices" "k \<noteq> ctl_next_bp (fst sys)" unfolding others_def set_filter by blast+
  then have "\<not> pre_busy k sys" using assms by (simp only: find_None_iff) blast
  then show "stopped k sys" using k(2) by (simp add: pre_busy_def stopped_def)
qed

lemma process_diagram:
  assumes "pms_ok sys" "sm_pms_ctl_process now sys = Inr (sys', cs)" "ctl_state (fst sys') \<noteq> ctl_state (fst sys)"
  shows "pms_diagram sys (Ctl_Process now) (ctl_state (fst sys)) (ctl_state (fst sys'))"
proof -
  obtain ctl sv where s: "sys = (ctl, sv)" by fastforce
  have ok: "pctl_ok ctl" "sv3 sv" using assms(1) by (simp_all add: s pms_ok_def)
  note d = pms_diagram.intros
  have fin: "list_all (\<lambda>k. pack_off k sv \<and> shadow_at k (ctl, sv) \<noteq> BP_STATE_ONLY_DISCHARGING) (others (ctl, sv))"
    if "list_all (\<lambda>k. pack_off k sv) (others (ctl, sv))"
      "find (\<lambda>k. shadow_at k (ctl, sv) = BP_STATE_ONLY_DISCHARGING) (others (ctl, sv)) = None"
    using that by (auto simp: find_None_iff list_all_iff)
  show ?thesis
  proof (cases "ctl_state ctl")
    case SM_PMS_ST_PRE_SWITCH
    then show ?thesis
      using assms(2,3) ok by (auto simp: s sm_pms_ctl_process_def pre_switch_spec pms_expired_def
          simp del: find.simps split: option.splits if_splits intro!: d dest: none_pre_busy)
  next
    case SM_PMS_ST_FIN_SWITCH
    then show ?thesis
      using assms(2,3) ok fin
      by (auto simp: s sm_pms_ctl_process_def finish_switch_spec answer_spec pms_expired_def others_def
          simp del: find.simps filter.simps split: option.splits if_splits intro!: d)
  qed (use assms(2,3) ok in \<open>auto simp: s sm_pms_ctl_process_def main_switch_spec recovery_spec answer_spec
          pms_expired_def split: if_splits intro!: d\<close>)
qed

lemma start_diagram:
  assumes "pms_ok sys" "target = SM_PMS_ST_PRE_SWITCH \<or> target = SM_PMS_ST_MERGE"
    and "pms_start target now port cmd cb sys = Inr (r, sys', cs)" "ctl_state (fst sys') \<noteq> ctl_state (fst sys)"
  shows "startable port cmd sys \<and> ctl_state (fst sys) = SM_PMS_ST_IDLE \<and> ctl_state (fst sys') = target"
proof -
  obtain ctl sv where s: "sys = (ctl, sv)" by fastforce
  have ok: "pctl_ok ctl" "sv3 sv" using assms(1) by (simp_all add: s pms_ok_def)
  have "ctl_cmd ctl = BP_CMD_NUMBER \<Longrightarrow> ctl_state ctl = SM_PMS_ST_IDLE" using ok(1) by (simp add: pctl_ok_def)
  then show ?thesis
    using assms(3,4) by (auto simp: s start_spec [OF ok(2) assms(2)] startable_def simp del: find.simps split: if_splits)
qed

lemma dispatch_diagram:
  "sv3 (snd sys) \<Longrightarrow> pms_dispatch now cs sys = Inr (sys', cs') \<Longrightarrow> ctl_state (fst sys') \<noteq> ctl_state (fst sys) \<Longrightarrow>
     ctl_state (fst sys) = SM_PMS_ST_RECOVERY \<and> ctl_state (fst sys') = SM_PMS_ST_IDLE"
proof (induction cs arbitrary: sys cs')
  case (Cons c cs)
  let ?f = "\<lambda>c sys. case c of Cmd_Done Pms_On_Cmd k cmd ok _ \<Rightarrow> pms_on_cmd_bp now k cmd ok sys
                      | c \<Rightarrow> Inr (sys, [Bp_Call c])"
  have r: "and_then (?f c sys) (pms_dispatch now cs) = Inr (sys', cs')"
    using Cons.prems(2) by (simp add: pms_dispatch_def)
  then obtain s1 c1 where f: "?f c sys = Inr (s1, c1)" by (cases "?f c sys") auto
  then obtain c2 where d: "pms_dispatch now cs s1 = Inr (sys', c2)"
    using r by (cases "pms_dispatch now cs s1") auto
  obtain ctl sv where s: "sys = (ctl, sv)" by fastforce
  have "ctl_state (fst s1) = ctl_state (fst sys)
      \<or> ctl_state (fst sys) = SM_PMS_ST_RECOVERY \<and> ctl_state (fst s1) = SM_PMS_ST_IDLE"
  proof (cases "\<exists>k cmd ok b. c = Cmd_Done Pms_On_Cmd k cmd ok b")
    case True
    then obtain k cmd ok where "pms_on_cmd_bp now k cmd ok sys = Inr (s1, c1)" using f by auto
    then show ?thesis
      using Cons.prems(1) by (cases "ctl_state ctl")
        (auto simp: s pms_on_cmd_bp_def set_shadow_def set_state_simps(2) split: if_splits)
  next
    case False
    then show ?thesis using f by (auto split: sv_call.splits bp_client.splits)
  qed
  moreover have "snd s1 = snd sys"
    using f by (auto split: sv_call.splits bp_client.splits dest!: on_cmd_cb [OF Cons.prems(1)])
  ultimately show ?case
    using Cons.IH [OF _ d] Cons.prems(1,3) by (cases "ctl_state (fst sys') = ctl_state (fst s1)") auto
qed (simp add: pms_dispatch_def)

lemma step_diagram:
  assumes "pms_ok sys" "pms_step sys e = Inr (sys', cs)" "ctl_state (fst sys') \<noteq> ctl_state (fst sys)"
  shows "pms_diagram sys e (ctl_state (fst sys)) (ctl_state (fst sys'))"
proof (cases e)
  case (Switch now port cmd cb)
  then obtain r where "sm_pms_ctl_switch now port cmd cb sys = Inr (r, sys', cs)"
    using assms(2) by (cases "sm_pms_ctl_switch now port cmd cb sys") auto
  from start_diagram [OF assms(1) _ this [unfolded sm_pms_ctl_switch_def] assms(3)] show ?thesis
    by (auto simp: Switch intro: to_pre)
next
  case (Merge now port cmd cb)
  then obtain r where "sm_pms_ctl_merge now port cmd cb sys = Inr (r, sys', cs)"
    using assms(2) by (cases "sm_pms_ctl_merge now port cmd cb sys") auto
  from start_diagram [OF assms(1) _ this [unfolded sm_pms_ctl_merge_def] assms(3)] show ?thesis
    by (auto simp: Merge intro: to_merge)
next
  case (Release now)
  then show ?thesis
    using assms by (cases sys) (auto simp: sm_pms_ctl_release_def pms_ok_def answer_spec intro!: released split: if_splits)
next
  case (Power_Off now port cb)
  then show ?thesis
    using assms(2,3) by (cases sys) (auto simp: sm_pms_ctl_power_off_def split: if_splits sum.splits)
next
  case (Ctl_Process now)
  then show ?thesis using process_diagram [OF assms(1) _ assms(3), of now cs] assms(2) by simp
next
  case (Service now x)
  then obtain sv c where p: "sv_step (snd sys) x = Inr (sv, c)" "pms_dispatch now c (fst sys, sv) = Inr (sys', cs)"
    using assms(2) by (auto split: sum.splits)
  then show ?thesis
    using dispatch_diagram [of "(fst sys, sv)" now c sys' cs] service_ok [OF _ p(1)] assms(1,3)
    by (simp add: Service pms_ok_def recovered)
qed

text \<open>C23. Every event leaves the state of the controller as it is or takes one of the
  transitions of the diagram with its guard: the pack to switch to is started only after the other
  packs have stopped, the switch ends only when the others are off, a failure needs an expired timer.\<close>

theorem pms_follows_diagram:
  assumes "pms_ok sys" "pms_step sys e = Inr (sys', cs)" "ctl_state (fst sys') \<noteq> ctl_state (fst sys)"
  shows "pms_diagram sys e (ctl_state (fst sys)) (ctl_state (fst sys'))"
  by (rule step_diagram [OF assms])

section \<open>What success means\<close>

lemma ctl_process_success:
  assumes "pms_ok sys" "sm_pms_ctl_process now sys = Inr (sys', cs)" "Switch_Done u 0 p \<in> set cs"
  shows "p = word_of_int (ctl_next_bp (fst sys)) \<and>
    (ctl_state (fst sys) = SM_PMS_ST_FIN_SWITCH \<and> list_all (\<lambda>k. pack_off k (snd sys)) (others sys)
     \<or> ctl_state (fst sys) = SM_PMS_ST_MERGE \<and> running (pack_state (ctl_next_bp (fst sys)) (snd sys)))"
proof -
  obtain ctl sv where s: "sys = (ctl, sv)" by fastforce
  have ok: "pctl_ok ctl" "sv3 sv" using assms(1) by (simp_all add: s pms_ok_def)
  show ?thesis
    using assms(2,3) ok
    by (cases "ctl_state ctl")
      (auto simp: s sm_pms_ctl_process_def pre_switch_spec main_switch_spec finish_switch_spec recovery_spec answer_spec
        switch_done_def others_def simp del: find.simps filter.simps split: option.splits if_splits)
qed

lemma start_success:
  assumes "pms_ok sys" "target = SM_PMS_ST_PRE_SWITCH \<or> target = SM_PMS_ST_MERGE"
    and "pms_start target now port cmd cb sys = Inr (r, sys', cs)" "Switch_Done u 0 p \<in> set cs"
  shows "p = port \<and> cb = Some u \<and> reached cmd (pack_state (uint port) (snd sys))"
proof -
  obtain ctl sv where s: "sys = (ctl, sv)" by fastforce
  have ok: "sv3 sv" using assms(1) by (simp_all add: s pms_ok_def)
  show ?thesis
    using assms(3,4) by (auto simp: s start_spec [OF ok assms(2)] switch_done_def simp del: find.simps
        split: if_splits option.splits)
qed

lemma answers_member: "Switch_Done u r p \<in> set cs \<Longrightarrow> 0 < answers u cs"
  by (induction cs) (auto simp: done_of_def)

lemma success_step:
  assumes "pms_ok sys" "pms_step sys e = Inr (sys', cs)" "Switch_Done u 0 p \<in> set cs"
  shows "(\<exists>now cmd. (e = Switch now p cmd (Some u) \<or> e = Merge now p cmd (Some u))
            \<and> reached cmd (pack_state (uint p) (snd sys)))
    \<or> (p = word_of_int (ctl_next_bp (fst sys)) \<and>
       (ctl_state (fst sys) = SM_PMS_ST_FIN_SWITCH \<and> list_all (\<lambda>k. pack_off k (snd sys)) (others sys)
        \<or> ctl_state (fst sys) = SM_PMS_ST_MERGE \<and> running (pack_state (ctl_next_bp (fst sys)) (snd sys))))"
proof (cases e)
  case (Switch now port cmd cb)
  then obtain r where "sm_pms_ctl_switch now port cmd cb sys = Inr (r, sys', cs)"
    using assms(2) by (cases "sm_pms_ctl_switch now port cmd cb sys") auto
  from start_success [OF assms(1) _ this [unfolded sm_pms_ctl_switch_def] assms(3)] show ?thesis
    by (auto simp: Switch)
next
  case (Merge now port cmd cb)
  then obtain r where "sm_pms_ctl_merge now port cmd cb sys = Inr (r, sys', cs)"
    using assms(2) by (cases "sm_pms_ctl_merge now port cmd cb sys") auto
  from start_success [OF assms(1) _ this [unfolded sm_pms_ctl_merge_def] assms(3)] show ?thesis
    by (auto simp: Merge)
next
  case (Release now)
  then show ?thesis
    using assms by (cases sys) (auto simp: sm_pms_ctl_release_def pms_ok_def answer_spec switch_done_def
        split: if_splits option.splits)
next
  case (Power_Off now port cb)
  then show ?thesis
    using assms(2,3) by (cases sys) (auto simp: sm_pms_ctl_power_off_def split: if_splits sum.splits)
next
  case (Ctl_Process now)
  then show ?thesis using ctl_process_success [OF assms(1) _ assms(3), of now] assms(2) by simp
next
  case (Service now x)
  then obtain sv c where p: "sv_step (snd sys) x = Inr (sv, c)" "pms_dispatch now c (fst sys, sv) = Inr (sys', cs)"
    using assms(2) by (auto split: sum.splits)
  then have "answers u cs = 0"
    using dispatch_cb [of "(fst sys, sv)" now c sys' cs u] service_ok [OF _ p(1)] assms(1) by (simp add: pms_ok_def)
  then show ?thesis using answers_member [OF assms(3)] by simp
qed

text \<open>While a request is under way, the pack it asks for stays the same.\<close>

lemma next_kept:
  assumes "pms_ok sys" "pms_step sys e = Inr (sys', cs)" "ctl_state (fst sys) \<noteq> SM_PMS_ST_IDLE" "ctl_state (fst sys') \<noteq> SM_PMS_ST_IDLE"
  shows "ctl_next_bp (fst sys') = ctl_next_bp (fst sys)"
proof -
  obtain ctl sv where s: "sys = (ctl, sv)" by fastforce
  have ok: "pctl_ok ctl" "sv3 sv" using assms(1) by (simp_all add: s pms_ok_def)
  have cmd: "ctl_cmd ctl \<noteq> BP_CMD_NUMBER" using pctl_okD(4) [OF ok(1)] assms(3) by (simp add: s)
  show ?thesis
  proof (cases e)
    case (Switch now port cmd cb)
    then show ?thesis using assms(2) cmd start_spec [OF ok(2), of SM_PMS_ST_PRE_SWITCH now port _ cb ctl]
      by (auto simp: s sm_pms_ctl_switch_def)
  next
    case (Merge now port cmd cb)
    then show ?thesis using assms(2) cmd start_spec [OF ok(2), of SM_PMS_ST_MERGE now port _ cb ctl]
      by (auto simp: s sm_pms_ctl_merge_def)
  next
    case (Release now)
    then show ?thesis using assms(2,4) ok by (auto simp: s sm_pms_ctl_release_def answer_spec split: if_splits)
  next
    case (Power_Off now port cb)
    then show ?thesis using assms(2) by (auto simp: s sm_pms_ctl_power_off_def split: if_splits sum.splits)
  next
    case (Ctl_Process now)
    then show ?thesis using assms(2-4) ok
      by (cases "ctl_state ctl") (auto simp: s sm_pms_ctl_process_def pre_switch_spec main_switch_spec finish_switch_spec recovery_spec
          answer_spec simp del: find.simps split: option.splits if_splits)
  next
    case (Service now x)
    then obtain sv' c where p: "sv_step sv x = Inr (sv', c)" "pms_dispatch now c (ctl, sv') = Inr (sys', cs)"
      using assms(2) by (auto simp: s split: sum.splits)
    then show ?thesis using dispatch_cb [of "(ctl, sv')" now c sys' cs] service_ok [OF ok(2) p(1)] by (simp add: s)
  qed
qed

text \<open>The last phase of a switch begins when the pack that was asked for has been seen running.\<close>

definition ran_before :: "('d, 'u) pms_event list \<Rightarrow> ('d, 'u) pms_sys \<Rightarrow> int \<Rightarrow> bool" where
  "ran_before es sys0 k \<longleftrightarrow> (\<exists>es1 e es2 sys1 cs1. es = es1 @ e # es2 \<and> pms_run es1 sys0 = Inr (sys1, cs1)
     \<and> ctl_state (fst sys1) = SM_PMS_ST_MAIN_SWITCH \<and> ctl_next_bp (fst sys1) = k \<and> running (pack_state k (snd sys1))
     \<and> (\<forall>ys zs. es2 = ys @ zs \<longrightarrow> (\<exists>s c. pms_run (es1 @ e # ys) sys0 = Inr (s, c) \<and> ctl_state (fst s) = SM_PMS_ST_FIN_SWITCH)))"

lemma pms_run_ok: "pms_ok sys \<Longrightarrow> pms_run es sys = Inr (sys', cs) \<Longrightarrow> pms_ok sys'"
  using ends_in_run_all [of pms_ok sys es "\<lambda>e sys. pms_step sys e"] pms_step_ok by (auto simp: pms_run_def ends_in_def)

lemma ran_before_more:
  assumes "ran_before es sys0 k" "pms_run (es @ [e]) sys0 = Inr (sys, cs)" "ctl_state (fst sys) = SM_PMS_ST_FIN_SWITCH"
  shows "ran_before (es @ [e]) sys0 k"
proof -
  obtain es1 e1 es2 sys1 cs1 where h: "es = es1 @ e1 # es2" "pms_run es1 sys0 = Inr (sys1, cs1)"
     "ctl_state (fst sys1) = SM_PMS_ST_MAIN_SWITCH" "ctl_next_bp (fst sys1) = k" "running (pack_state k (snd sys1))"
     "\<forall>ys zs. es2 = ys @ zs \<longrightarrow> (\<exists>s c. pms_run (es1 @ e1 # ys) sys0 = Inr (s, c) \<and> ctl_state (fst s) = SM_PMS_ST_FIN_SWITCH)"
    using assms(1) unfolding ran_before_def by blast
  have "\<exists>s c. pms_run (es1 @ e1 # ys) sys0 = Inr (s, c) \<and> ctl_state (fst s) = SM_PMS_ST_FIN_SWITCH" if "es2 @ [e] = ys @ zs" for ys zs
  proof (cases zs rule: rev_cases)
    case Nil
    then show ?thesis using that assms(2,3) h(1) by auto
  next
    case (snoc zs' z)
    then show ?thesis using that h(6) by auto
  qed
  then show ?thesis using h(1-5) unfolding ran_before_def
    by (intro exI [of _ es1] exI [of _ e1] exI [of _ "es2 @ [e]"] exI [of _ sys1] exI [of _ cs1]) simp
qed

lemma fin_switch_history:
  assumes "pms_ok sys0" "ctl_state (fst sys0) \<noteq> SM_PMS_ST_FIN_SWITCH"
  shows "pms_run es sys0 = Inr (sys, cs) \<Longrightarrow> ctl_state (fst sys) = SM_PMS_ST_FIN_SWITCH \<Longrightarrow> ran_before es sys0 (ctl_next_bp (fst sys))"
proof (induction es arbitrary: sys cs rule: rev_induct)
  case Nil
  then show ?case using assms(2) by simp
next
  case (snoc e es)
  obtain s1 c1 c2 where r: "pms_run es sys0 = Inr (s1, c1)" "pms_step s1 e = Inr (sys, c2)"
    using snoc.prems(1) by (auto simp: pms_run_def run_all_append and_then_def split: sum.splits prod.splits)
  have ok: "pms_ok s1" by (rule pms_run_ok [OF assms(1) r(1)])
  show ?case
  proof (cases "ctl_state (fst s1) = SM_PMS_ST_FIN_SWITCH")
    case True
    have "ctl_next_bp (fst sys) = ctl_next_bp (fst s1)" using next_kept [OF ok r(2)] True snoc.prems(2) by simp
    then show ?thesis using ran_before_more [OF snoc.IH [OF r(1) True] snoc.prems] by simp
  next
    case False
    then have "pms_diagram s1 e (ctl_state (fst s1)) SM_PMS_ST_FIN_SWITCH"
      using step_diagram [OF ok r(2)] snoc.prems(2) by simp
    then have m: "ctl_state (fst s1) = SM_PMS_ST_MAIN_SWITCH" "running (pack_state (ctl_next_bp (fst s1)) (snd s1))"
      by (auto elim: to_fin_cases)
    have "ctl_next_bp (fst sys) = ctl_next_bp (fst s1)" using next_kept [OF ok r(2)] m(1) snoc.prems(2) by simp
    then show ?thesis using r m snoc.prems unfolding ran_before_def
      by (intro exI [of _ es] exI [of _ e] exI [of _ "[]"] exI [of _ s1] exI [of _ c1]) auto
  qed
qed

text \<open>C25. What a success means. Either the pack was in the wanted state when it was asked for, or the answer is about
  the pack asked for, and: a merge has found that pack running; a switch has found it running when its last phase began, has been in that
  phase since then, and finds every other pack off now. Running is charging or discharging: the controller does not look whether it is
  the one that was asked for.\<close>

theorem pms_success_sound:
  assumes "pms_ok sys0" "ctl_state (fst sys0) \<noteq> SM_PMS_ST_FIN_SWITCH" "pms_run es sys0 = Inr (sys, cs0)"
    and "pms_step sys e = Inr (sys', cs)" "Switch_Done u 0 p \<in> set cs"
  shows "(\<exists>now cmd. (e = Switch now p cmd (Some u) \<or> e = Merge now p cmd (Some u))
            \<and> reached cmd (pack_state (uint p) (snd sys)))
    \<or> (p = word_of_int (ctl_next_bp (fst sys)) \<and>
       (ctl_state (fst sys) = SM_PMS_ST_FIN_SWITCH \<and> list_all (\<lambda>k. pack_off k (snd sys)) (others sys)
          \<and> ran_before es sys0 (ctl_next_bp (fst sys))
        \<or> ctl_state (fst sys) = SM_PMS_ST_MERGE \<and> running (pack_state (ctl_next_bp (fst sys)) (snd sys))))"
  using success_step [OF pms_run_ok [OF assms(1,3)] assms(4,5)] fin_switch_history [OF assms(1-3)] by blast

section \<open>No faults, and failure after a timeout\<close>

text \<open>C27. With all three packs present, no request and no periodic step of the controller
  reads through a null pointer or outside an array, whatever the packs report.\<close>

theorem pms_never_faults:
  assumes "pms_ok sys" "\<And>now x. e \<noteq> Service now x"
  shows "\<exists>sys' cs. pms_step sys e = Inr (sys', cs) \<and> pms_ok sys'"
proof (cases e)
  case (Switch now port cmd cb)
  from start_ok [OF assms(1), of SM_PMS_ST_PRE_SWITCH now port cmd cb] show ?thesis
    by (auto simp: Switch sm_pms_ctl_switch_def)
next
  case (Merge now port cmd cb)
  from start_ok [OF assms(1), of SM_PMS_ST_MERGE now port cmd cb] show ?thesis
    by (auto simp: Merge sm_pms_ctl_merge_def)
next
  case (Release now)
  from release_ok [OF assms(1), of now] show ?thesis by (simp add: Release)
next
  case (Power_Off now port cb)
  from power_off_ok [OF assms(1), of now port cb] show ?thesis by (auto simp: Power_Off)
next
  case (Ctl_Process now)
  from process_ok [OF assms(1), of now] show ?thesis by (simp add: Ctl_Process)
qed (use assms(2) in auto)

lemma expired_fails:
  assumes "pms_ok sys" "timed_out t1 (ctl_timeout (fst sys))"
    and "ctl_state (fst sys) \<in> {SM_PMS_ST_PRE_SWITCH, SM_PMS_ST_MAIN_SWITCH, SM_PMS_ST_MERGE, SM_PMS_ST_RECOVERY}"
  shows "\<exists>sys'. pms_run [Ctl_Process t1, Ctl_Process t2] sys =
           Inr (sys', switch_done (ctl_cb (fst sys)) (-1) (word_of_int (ctl_next_bp (fst sys))))
         \<and> ctl_state (fst sys') = SM_PMS_ST_IDLE \<and> ctl_cmd (fst sys') = BP_CMD_NUMBER \<and> snd sys' = snd sys"
proof -
  obtain ctl sv where s: "sys = (ctl, sv)" by fastforce
  have ok: "pctl_ok ctl" "sv3 sv" using assms(1) by (simp_all add: s pms_ok_def)
  have "sm_pms_ctl_process t1 (ctl, sv) =
      Inr ((ctl\<lparr>ctl_state := SM_PMS_ST_FAIL, ctl_timeout := elapsed_timer_reset t1 (ctl_timeout ctl)\<rparr>, sv), [])"
    using assms(2,3) ok by (auto simp: s sm_pms_ctl_process_def pre_switch_spec main_switch_spec recovery_spec)
  then show ?thesis
    using ok by (simp add: s sm_pms_ctl_process_def answer_spec pms_reset_cmd_def)
qed

text \<open>C29. What happens to a request whose timer expires. Before its last phase it is answered with failure by the
  second periodic step after that, and the controller is idle and free again; the same holds in the recovery. In the last phase of a switch
  it is not answered: the controller goes to the recovery and restarts the timer; if that expires too, the request is answered with
  failure by the second step. (A recovery that succeeds never answers, see \<^verbatim>\<open>pms_recovery_never_answers\<close>.)\<close>

theorem pms_timeout_fails:
  assumes "pms_ok sys" "timed_out t1 (ctl_timeout (fst sys))" "ctl_state (fst sys) \<notin> {SM_PMS_ST_IDLE, SM_PMS_ST_FAIL}"
  shows "if ctl_state (fst sys) \<noteq> SM_PMS_ST_FIN_SWITCH then
       (\<exists>sys'. pms_run [Ctl_Process t1, Ctl_Process t2] sys =
           Inr (sys', switch_done (ctl_cb (fst sys)) (-1) (word_of_int (ctl_next_bp (fst sys))))
         \<and> ctl_state (fst sys') = SM_PMS_ST_IDLE \<and> ctl_cmd (fst sys') = BP_CMD_NUMBER \<and> snd sys' = snd sys)
     else
       (\<exists>sys1. pms_run [Ctl_Process t1] sys = Inr (sys1, []) \<and> ctl_state (fst sys1) = SM_PMS_ST_RECOVERY
         \<and> ctl_timeout (fst sys1) = elapsed_timer_reset t1 (ctl_timeout (fst sys)) \<and> ctl_cb (fst sys1) = ctl_cb (fst sys)
         \<and> (timed_out t2 (ctl_timeout (fst sys1)) \<longrightarrow>
             (\<exists>sys'. pms_run [Ctl_Process t2, Ctl_Process t3] sys1 =
                 Inr (sys', switch_done (ctl_cb (fst sys)) (-1) (word_of_int (ctl_next_bp (fst sys))))
               \<and> ctl_state (fst sys') = SM_PMS_ST_IDLE \<and> ctl_cmd (fst sys') = BP_CMD_NUMBER \<and> snd sys' = snd sys)))"
proof (cases "ctl_state (fst sys) = SM_PMS_ST_FIN_SWITCH")
  case False
  then have "ctl_state (fst sys) \<in> {SM_PMS_ST_PRE_SWITCH, SM_PMS_ST_MAIN_SWITCH, SM_PMS_ST_MERGE, SM_PMS_ST_RECOVERY}"
    using assms(3) by (cases "ctl_state (fst sys)") simp_all
  from expired_fails [OF assms(1,2) this, of t2] show ?thesis using False by simp
next
  case True
  obtain ctl sv where s: "sys = (ctl, sv)" by fastforce
  have ok: "pctl_ok ctl" "sv3 sv" using assms(1) by (simp_all add: s pms_ok_def)
  let ?c = "ctl\<lparr>ctl_state := SM_PMS_ST_RECOVERY, ctl_timeout := elapsed_timer_reset t1 (ctl_timeout ctl)\<rparr>"
  have f: "sm_pms_ctl_process t1 (ctl, sv) = Inr ((?c, sv), [])"
    using assms(2) True ok by (simp add: s sm_pms_ctl_process_def finish_switch_spec)
  have "ctl_cmd ctl \<noteq> BP_CMD_NUMBER" using pctl_okD(4) [OF ok(1)] True by (simp add: s)
  then have "pms_ok (?c, sv)" using ok pctl_ok_state [OF ok(1)] by (simp add: pms_ok_def)
  from expired_fails [OF this, of t2 t3] show ?thesis using f True by (simp add: s)
qed

section \<open>A recovery that succeeds\<close>

definition stuck :: "('d, 'u) pms_sys \<Rightarrow> bool" where
  "stuck sys \<longleftrightarrow> pms_ok sys \<and> ctl_state (fst sys) = SM_PMS_ST_IDLE \<and> ctl_cmd (fst sys) \<noteq> BP_CMD_NUMBER"

lemma stuck_start:
  assumes "stuck sys" "target = SM_PMS_ST_PRE_SWITCH \<or> target = SM_PMS_ST_MERGE"
  shows "pms_start target now port cmd cb sys = Inr (-1, sys, switch_done cb (-1) port)"
  using assms by (cases sys) (auto simp: stuck_def pms_ok_def start_spec)

lemma stuck_step:
  assumes "stuck sys" "\<And>t. e \<noteq> Release t" "pms_step sys e = Inr (sys', cs)"
  shows "stuck sys' \<and> ctl_cb (fst sys') = ctl_cb (fst sys)"
proof (cases e)
  case (Switch now port cmd cb)
  then show ?thesis using assms stuck_start [OF assms(1), of SM_PMS_ST_PRE_SWITCH now port cmd cb]
    by (simp add: sm_pms_ctl_switch_def)
next
  case (Merge now port cmd cb)
  then show ?thesis using assms stuck_start [OF assms(1), of SM_PMS_ST_MERGE now port cmd cb]
    by (simp add: sm_pms_ctl_merge_def)
next
  case (Power_Off now port cb)
  have "pms_ok sys" using assms(1) by (simp add: stuck_def)
  from power_off_ok [OF this, of now port cb] show ?thesis using assms by (auto simp: Power_Off stuck_def)
next
  case (Ctl_Process now)
  then show ?thesis using assms by (simp add: stuck_def sm_pms_ctl_process_def)
next
  case (Service now x)
  then obtain sv c where p: "sv_step (snd sys) x = Inr (sv, c)" "pms_dispatch now c (fst sys, sv) = Inr (sys', cs)"
    using assms(3) by (auto split: sum.splits)
  have ok: "pms_ok (fst sys, sv)" using assms(1) service_ok [OF _ p(1)] by (simp add: stuck_def pms_ok_def)
  have "pms_ok sys'" by (rule ends_in_D [OF dispatch_ok [OF ok] p(2)])
  moreover have "ctl_state (fst sys') = SM_PMS_ST_IDLE"
    using dispatch_diagram [OF _ p(2)] ok assms(1) by (auto simp: pms_ok_def stuck_def)
  ultimately show ?thesis
    using dispatch_cb [OF _ p(2)] ok assms(1) by (simp add: pms_ok_def stuck_def)
qed (use assms(2) in auto)

lemma stuck_run:
  assumes "stuck sys" "list_all (\<lambda>e. \<forall>t. e \<noteq> Release t) es" "pms_run es sys = Inr (sys', cs)"
  shows "stuck sys' \<and> ctl_cb (fst sys') = ctl_cb (fst sys)"
  using assms
proof (induction es arbitrary: sys cs)
  case (Cons e es)
  obtain s1 c1 c2 where r: "pms_step sys e = Inr (s1, c1)" "pms_run es s1 = Inr (sys', c2)" "cs = c1 @ c2"
    by (rule pms_run_cons [OF Cons.prems(3)])
  have es: "\<And>t. e \<noteq> Release t" "list_all (\<lambda>e. \<forall>t. e \<noteq> Release t) es" using Cons.prems(2) by simp_all
  have s: "stuck s1" "ctl_cb (fst s1) = ctl_cb (fst sys)"
    using stuck_step [OF Cons.prems(1) es(1) r(1)] by simp_all
  from Cons.IH [OF s(1) es(2) r(2)] s(2) show ?case by simp
qed simp

text \<open> When the command of the recovery succeeds, the controller goes to the
  idle state without a reset of its command: from then on, until someone calls the release, it
  neither answers the request nor accepts another one, whatever happens.\<close>

theorem pms_recovery_never_answers:
  assumes "pms_ok sys" "ctl_state (fst sys) = SM_PMS_ST_RECOVERY"
    and "pms_on_cmd_bp t k (ctl_cmd (fst sys)) True sys = Inr (sys1, cs1)"
    and "list_all (\<lambda>e. \<forall>t. e \<noteq> Release t) es" "pms_run es sys1 = Inr (sys2, cs)"
  shows "ctl_state (fst sys2) = SM_PMS_ST_IDLE \<and> ctl_cb (fst sys2) = ctl_cb (fst sys)
     \<and> (\<forall>now port cmd cb. sm_pms_ctl_switch now port cmd cb sys2 = Inr (-1, sys2, switch_done cb (-1) port)
                        \<and> sm_pms_ctl_merge now port cmd cb sys2 = Inr (-1, sys2, switch_done cb (-1) port))"
proof -
  obtain ctl sv where s: "sys = (ctl, sv)" by fastforce
  have ok: "pctl_ok ctl" "sv3 sv" using assms(1) by (simp_all add: s pms_ok_def)
  have "ctl_cmd ctl \<in> {BP_CMD_DISCHARGE, BP_CMD_CHARGE}" using pctl_okD(1) [OF ok(1)] assms(2) by (simp add: s)
  then have "stuck sys1 \<and> ctl_cb (fst sys1) = ctl_cb ctl"
    using assms(2,3) ok
    by (auto simp: s pms_on_cmd_bp_def set_state_simps(2) stuck_def pms_ok_def pctl_ok_idle)
  with stuck_run [OF _ assms(4,5)] have "stuck sys2" "ctl_cb (fst sys2) = ctl_cb (fst sys)" by (simp_all add: s)
  then show ?thesis by (simp add: stuck_start sm_pms_ctl_switch_def sm_pms_ctl_merge_def stuck_def)
qed

section \<open>Examples\<close>

text \<open>A switch of the load from pack 0 to pack 1, in each of the states.\<close>

definition pms_sample :: "SM_PMS_ST \<Rightarrow> string sm_pms_ctl" where
  "pms_sample st =
     \<lparr>ctl_state = st, ctl_timeout = \<lparr>m_duration = 5000, m_start_time = 0\<rparr>, ctl_shadow = [1, 1, 1],
      ctl_cmd = BP_CMD_DISCHARGE, ctl_in_process = False, ctl_current_bp = 0, ctl_next_bp = 1, ctl_cb = Some ''app''\<rparr>"

abbreviation pms_sample_sys :: "SM_PMS_ST \<Rightarrow> (string, string) pms_sys" where
  "pms_sample_sys st \<equiv> (pms_sample st, sv_sample)"

lemma sample_sv3: "sv3 sv_sample"
  by (simp add: sv3_def sv_sample_ok numb_is_def) (simp add: sv_sample_def)

lemma sample_ctl: "pctl_ok (pms_sample st)"
  by (simp add: pctl_ok_def pms_sample_def)

lemma sample_ok: "pms_ok (pms_sample_sys st)"
  by (simp add: pms_ok_def sample_ctl sample_sv3)

lemma sample_states: "pack_state 0 sv_sample = 0" "pack_state 1 sv_sample = 0" "pack_state 2 sv_sample = 0"
  by (simp_all add: pack_state_def sv_sample_def upt_rec numeral_2_eq_2 bp_default_def bp_data_zero_def)

lemma sample_release:
  "\<exists>sys'. pms_step (pms_sample_sys st) (Release 1) = Inr (sys', [Switch_Done ''app'' (-1) 1])
     \<and> ctl_cb (fst sys') = None"
  by (simp add: sm_pms_ctl_release_def answer_spec sample_sv3 switch_done_def) (simp add: pms_sample_def pms_reset_cmd_def)

lemma sample_finish:
  "\<exists>sys'. pms_step (pms_sample_sys SM_PMS_ST_FIN_SWITCH) (Ctl_Process 1) = Inr (sys', [Switch_Done ''app'' 0 1])"
proof -
  have f: "ctl_state (pms_sample SM_PMS_ST_FIN_SWITCH) = SM_PMS_ST_FIN_SWITCH" "ctl_next_bp (pms_sample st) = 1"
    "\<not> timed_out 1 (ctl_timeout (pms_sample st))" "\<not> ctl_in_process (pms_sample st)" "ctl_cb (pms_sample st) = Some ''app''"
    "shadow_at k (pms_sample st, sv) = [1, 1, 1] ! nat k" for st k and sv :: "string bp_client sm_sv_bp"
    by (simp_all add: pms_sample_def timed_out_iff shadow_at_def)
  show ?thesis
    by (simp add: sm_pms_ctl_process_def f finish_switch_spec [OF sample_sv3 sample_ctl f(1)] pack_off_def sample_states answer_spec [OF sample_sv3] switch_done_def)
qed

lemma sample_pre:
  "\<exists>sys'. pms_step (pms_sample_sys SM_PMS_ST_PRE_SWITCH) (Ctl_Process 1) = Inr (sys', [])
     \<and> ctl_state (fst sys') = SM_PMS_ST_MAIN_SWITCH"
proof -
  have f: "ctl_state (pms_sample SM_PMS_ST_PRE_SWITCH) = SM_PMS_ST_PRE_SWITCH"
    "\<not> timed_out 1 (ctl_timeout (pms_sample st))" "\<not> ctl_in_process (pms_sample st)" for st
    by (simp_all add: pms_sample_def timed_out_iff)
  show ?thesis
    by (simp add: sm_pms_ctl_process_def f pre_switch_spec [OF sample_sv3 sample_ctl f(1)] pre_busy_def sample_states)
qed

lemma pms_one_answer_witness:
  "\<exists>sys' cs. pms_run [Release 1] (pms_sample_sys SM_PMS_ST_MAIN_SWITCH) = Inr (sys', cs)
     \<and> answers ''app'' cs + pending ''app'' sys' = 1"
proof -
  obtain sys' where r: "pms_step (pms_sample_sys SM_PMS_ST_MAIN_SWITCH) (Release 1) = Inr (sys', [Switch_Done ''app'' (-1) 1])"
    using sample_release by blast
  then have run: "pms_run [Release 1] (pms_sample_sys SM_PMS_ST_MAIN_SWITCH) = Inr (sys', [Switch_Done ''app'' (-1) 1])" by simp
  moreover have "pending ''app'' (pms_sample_sys SM_PMS_ST_MAIN_SWITCH) = 1" by (simp add: pending_def pms_sample_def)
  ultimately show ?thesis using pms_one_answer [OF sample_ok run, of "''app''"] by simp
qed

lemma pms_follows_diagram_witness:
  "pms_diagram (pms_sample_sys SM_PMS_ST_PRE_SWITCH) (Ctl_Process 1) SM_PMS_ST_PRE_SWITCH SM_PMS_ST_MAIN_SWITCH"
proof -
  obtain sys' where r: "pms_step (pms_sample_sys SM_PMS_ST_PRE_SWITCH) (Ctl_Process 1) = Inr (sys', [])"
    "ctl_state (fst sys') = SM_PMS_ST_MAIN_SWITCH"
    using sample_pre by blast
  have "ctl_state (pms_sample SM_PMS_ST_PRE_SWITCH) = SM_PMS_ST_PRE_SWITCH" by (simp add: pms_sample_def)
  with pms_follows_diagram [OF sample_ok r(1)] r(2) show ?thesis by simp
qed

lemma sample_with_packs:
  assumes "bps_ok bps"
  shows "sv3 ((sv_sample :: 'c sm_sv_bp)\<lparr>sv_bps := bps\<rparr>)"
proof -
  let ?sv = "sv_sample :: 'c sm_sv_bp"
  have "sv3 ?sv" by (rule sample_sv3)
  then show ?thesis using assms opt_auth_ok_bps [of "sv_auth ?sv" "sv_bps ?sv" "sv_co ?sv" bps] by (simp add: sv3_def sv_ok_def numb_is_def)
qed

text \<open>Pack 1 has begun to discharge, the others are off.\<close>

definition switched_bps :: "sm_bp list" where
  "switched_bps = map (\<lambda>i. (bp_default i)\<lparr>m_data := bp_data_zero\<lparr>bp_state := [0, BP_STATE_DISCHARGING, 0] ! i\<rparr>\<rparr>) [0, 1, 2]"

definition switched_sv :: "string bp_client sm_sv_bp" where "switched_sv = sv_sample\<lparr>sv_bps := switched_bps\<rparr>"

lemma switched_ok: "sv3 switched_sv"
proof -
  have all: "P 0 \<Longrightarrow> P 1 \<Longrightarrow> P 2 \<Longrightarrow> i < 3 \<Longrightarrow> P i" for P and i :: nat
    by (auto simp: less_Suc_eq numeral_3_eq_3 numeral_2_eq_2)
  have "bps_ok switched_bps"
    unfolding bps_ok_def by (intro conjI allI impI, simp add: switched_bps_def, rule all)
      (simp_all add: switched_bps_def bp_ok_def bp_default_def bp_data_ok_def bp_data_zero_def bp_measured_def)
  then show ?thesis unfolding switched_sv_def by (rule sample_with_packs)
qed

lemma switched_states: "pack_state 0 switched_sv = 0" "pack_state 1 switched_sv = BP_STATE_DISCHARGING" "pack_state 2 switched_sv = 0"
  by (simp_all add: pack_state_def switched_sv_def switched_bps_def bp_data_zero_def)

lemma pms_success_sound_witness:
  "\<exists>sys cs sys'. pms_run [Ctl_Process 1] (pms_sample SM_PMS_ST_MAIN_SWITCH, switched_sv) = Inr (sys, cs)
     \<and> pms_step sys (Ctl_Process 2) = Inr (sys', [Switch_Done ''app'' 0 1])
     \<and> ran_before [Ctl_Process 1] (pms_sample SM_PMS_ST_MAIN_SWITCH, switched_sv) 1"
proof -
  let ?m = "pms_sample SM_PMS_ST_MAIN_SWITCH"
  let ?c = "?m\<lparr>ctl_state := SM_PMS_ST_FIN_SWITCH, ctl_timeout := elapsed_timer_reset 1 (ctl_timeout ?m)\<rparr>"
  have ok: "pms_ok (?m, switched_sv)" "pctl_ok ?c" by (simp_all add: pms_ok_def sample_ctl switched_ok) (simp add: pctl_ok_def pms_sample_def)
  have f: "ctl_state ?m = SM_PMS_ST_MAIN_SWITCH" "ctl_next_bp (pms_sample st) = 1" "\<not> ctl_in_process (pms_sample st)"
    "\<not> timed_out 1 (ctl_timeout ?m)" "\<not> timed_out 2 (elapsed_timer_reset 1 (ctl_timeout ?m))" "ctl_cb (pms_sample st) = Some ''app''"
    "shadow_at k (?m, sv) = [1, 1, 1] ! nat k" "shadow_at k (?c, sv) = [1, 1, 1] ! nat k" for st k and sv :: "string bp_client sm_sv_bp"
    by (simp_all add: pms_sample_def timed_out_iff shadow_at_def elapsed_timer_reset_def)
  have r: "pms_run [Ctl_Process 1] (?m, switched_sv) = Inr ((?c, switched_sv), [])"
    by (simp add: sm_pms_ctl_process_def f main_switch_spec [OF switched_ok sample_ctl] switched_states)
  obtain sys' where s: "pms_step (?c, switched_sv) (Ctl_Process 2) = Inr (sys', [Switch_Done ''app'' 0 1])"
    by (simp add: sm_pms_ctl_process_def f finish_switch_spec [OF switched_ok ok(2)] pack_off_def switched_states
        answer_spec [OF switched_ok] switch_done_def)
  show ?thesis using pms_success_sound [OF ok(1) _ r s, of "''app''" 1] f r s by simp
qed

lemma pms_never_faults_witness:
  "\<exists>sys' cs. pms_step (pms_sample_sys SM_PMS_ST_MERGE) (Ctl_Process 1) = Inr (sys', cs) \<and> pms_ok sys'"
  by (rule pms_never_faults [OF sample_ok]) simp

lemma pms_timeout_fails_witness:
  "\<exists>sys'. pms_run [Ctl_Process 5000, Ctl_Process 5001] (pms_sample_sys SM_PMS_ST_MAIN_SWITCH) =
       Inr (sys', [Switch_Done ''app'' (-1) 1])"
proof -
  have f: "timed_out 5000 (ctl_timeout (fst (pms_sample_sys SM_PMS_ST_MAIN_SWITCH)))"
    "ctl_state (fst (pms_sample_sys SM_PMS_ST_MAIN_SWITCH)) = SM_PMS_ST_MAIN_SWITCH"
    "switch_done (ctl_cb (pms_sample st)) (-1) (word_of_int (ctl_next_bp (pms_sample st))) = [Switch_Done ''app'' (-1) 1]" for st
    by (simp_all add: pms_sample_def timed_out_iff switch_done_def)
  from pms_timeout_fails [OF sample_ok f(1), of 5001] show ?thesis unfolding f(2) by (auto simp: f(3))
qed

lemma pms_recovery_never_answers_witness:
  "\<exists>sys1 cs1 sys2 cs. pms_on_cmd_bp 1 0 BP_CMD_DISCHARGE True (pms_sample_sys SM_PMS_ST_RECOVERY) = Inr (sys1, cs1)
     \<and> pms_run [Ctl_Process 9, Ctl_Process 10] sys1 = Inr (sys2, cs) \<and> cs = []
     \<and> sm_pms_ctl_switch 11 2 BP_CMD_DISCHARGE (Some ''b'') sys2 = Inr (-1, sys2, [Switch_Done ''b'' (-1) 2])"
proof -
  let ?s = "pms_sample_sys SM_PMS_ST_RECOVERY"
  have s: "ctl_state (fst ?s) = SM_PMS_ST_RECOVERY" "ctl_cmd (fst ?s) = BP_CMD_DISCHARGE" by (simp_all add: pms_sample_def)
  obtain sys1 cs1 where r: "pms_on_cmd_bp 1 0 (ctl_cmd (fst ?s)) True ?s = Inr (sys1, cs1)" "ctl_state (fst sys1) = SM_PMS_ST_IDLE"
    using s by (simp add: pms_on_cmd_bp_def set_state_simps(2) sample_sv3)
  have run: "pms_run [Ctl_Process 9, Ctl_Process 10] sys1 = Inr (sys1, [])"
    using r(2) by (simp add: sm_pms_ctl_process_def)
  have "sm_pms_ctl_switch 11 2 BP_CMD_DISCHARGE (Some ''b'') sys1 = Inr (-1, sys1, [Switch_Done ''b'' (-1) 2])"
    using pms_recovery_never_answers [OF sample_ok s(1) r(1) _ run] by (simp add: switch_done_def)
  then show ?thesis using r run s(2) by metis
qed

end
