(* ===== verification/Charger.thy ===== *)
theory Charger
  imports Pms_Ctl_Laws
begin

text \<open>
  \<^verbatim>\<open>services/charger/sm_sv_charger.c\<close>: detects the charger by its voltage, picks the pack to charge
  next and asks the PMS controller for it, watches the charging current. Its state is modelled beside
  the controller and the battery service it works on.

  Callbacks given to the controller and to the service are named by \<open>sw_cb\<close> and \<open>off_cb\<close>; the charger's own are run
  on the result of the call (they only touch the charger), the others go on to the caller.
\<close>

section \<open>State\<close>

datatype sw_cb = Charger_Switched | Discharger_Switched | Other_Switched nat
datatype off_cb = Charger_Off | Discharger_Off | Other_Off nat

type_synonym ctl_sys = "(off_cb, sw_cb) pms_sys"
type_synonym ctl_call = "(off_cb, sw_cb) pms_call"

record sm_sv_charger_prof =
  prof_max_volt :: int
  prof_min_volt :: int
  prof_max_cur :: int
  prof_min_cur :: int
  prof_max_temp :: int

record sm_sv_charger_config =
  cfg_min_volt_diff :: int
  cfg_min_cur_cutoff :: int
  cfg_detect_plug_time :: int
  cfg_detect_cutoff_time :: int

text \<open>Which members of the registered event structure are set.\<close>

record sm_sv_charger_event_cb =
  on_charger_is_plugged :: bool
  on_stop_charging :: bool
  on_charger_err :: bool
  on_forced_charging :: bool
  on_released_charging :: bool

record charger =
  chg_prof :: sm_sv_charger_prof
  chg_config :: sm_sv_charger_config
  chg_port_enable :: "int list"
  chg_numb :: u8
  chg_timeout :: elapsed_timer
  chg_volt :: int
  chg_plugged :: bool
  chg_instant_plug :: bool
  chg_cutoff :: bool
  chg_instant_cutoff :: bool
  chg_forced_bp :: int
  chg_in_process :: bool
  chg_err :: int
  chg_paused :: bool
  chg_event_cb :: "sm_sv_charger_event_cb option"
  chg_force_cb :: "nat option"

text \<open>The argument an event is called with: the one registered, or that of the force request.\<close>

datatype cb_arg = Event_Arg | Force_Arg

datatype charger_event = Charger_Is_Plugged bool | Stop_Charging | Charger_Err int
  | Forced_Charging int u8 cb_arg | Released_Charging int u8 cb_arg | Force_Cb nat int u8

datatype charger_out = Chg_Event charger_event | Chg_Pms ctl_call

type_synonym charger_sys = "charger \<times> ctl_sys"
type_synonym charger_result = "(charger_sys, charger_out) result"
type_synonym charger_return = "fault + (int \<times> charger_sys \<times> charger_out list)"

definition g_charger_prof_default :: sm_sv_charger_prof where
  "g_charger_prof_default = \<lparr>prof_max_volt = 70000, prof_min_volt = 45000, prof_max_cur = 12000,
     prof_min_cur = 500, prof_max_temp = 70\<rparr>"

definition g_charger_config_default :: sm_sv_charger_config where
  "g_charger_config_default = \<lparr>cfg_min_volt_diff = 2000, cfg_min_cur_cutoff = 500,
     cfg_detect_plug_time = 2000, cfg_detect_cutoff_time = 20000\<rparr>"

definition g_charger_default :: charger where
  "g_charger_default =
     \<lparr>chg_prof = g_charger_prof_default, chg_config = g_charger_config_default, chg_port_enable = [1, 1, 1],
      chg_numb = 0, chg_timeout = \<lparr>m_duration = 0, m_start_time = 0\<rparr>, chg_volt = 0, chg_plugged = False,
      chg_instant_plug = False, chg_cutoff = False, chg_instant_cutoff = False, chg_forced_bp = -1,
      chg_in_process = False, chg_err = 0, chg_paused = False, chg_event_cb = None, chg_force_cb = None\<rparr>"

definition sm_sv_charger_create :: "sm_sv_charger_config option \<Rightarrow> charger \<Rightarrow> charger" where
  "sm_sv_charger_create config chg =
     chg\<lparr>chg_config := (case config of None \<Rightarrow> g_charger_config_default | Some c \<Rightarrow> c),
         chg_prof := g_charger_prof_default\<rparr>"

section \<open>Flags and registration\<close>

definition sm_sv_charger_is_charging :: "charger \<Rightarrow> bool" where
  "sm_sv_charger_is_charging chg = chg_plugged chg"

text \<open>
  \<^verbatim>\<open>sm_sv_charger_pause\<close> hands the charger object itself to \<^verbatim>\<open>sm_pms_ctl_release\<close>, which takes it for a
  controller.
\<close>

definition sm_sv_charger_pause :: "charger_sys \<Rightarrow> charger_return" where
  "sm_sv_charger_pause sys = Inl Wrong_Object"

definition sm_sv_charger_is_paused :: "charger \<Rightarrow> bool" where
  "sm_sv_charger_is_paused chg = chg_paused chg"

definition sm_sv_charger_resume :: "charger \<Rightarrow> charger" where
  "sm_sv_charger_resume chg = chg\<lparr>chg_paused := False\<rparr>"

definition sm_sv_charger_reg_event :: "sm_sv_charger_event_cb \<Rightarrow> charger \<Rightarrow> charger" where
  "sm_sv_charger_reg_event cb chg = chg\<lparr>chg_event_cb := Some cb\<rparr>"

definition sm_sv_charger_set_profile :: "sm_sv_charger_prof \<Rightarrow> charger \<Rightarrow> charger" where
  "sm_sv_charger_set_profile p chg = chg\<lparr>chg_prof := p\<rparr>"

definition sm_sv_charger_set_volt :: "int \<Rightarrow> charger \<Rightarrow> charger" where
  "sm_sv_charger_set_volt vol chg = chg\<lparr>chg_volt := vol\<rparr>"

definition sm_sv_charger_is_err :: "charger \<Rightarrow> int" where
  "sm_sv_charger_is_err chg = (if chg_err chg \<noteq> 0 then -1 else 0)"

definition chg_emit :: "(sm_sv_charger_event_cb \<Rightarrow> bool) \<Rightarrow> charger_event \<Rightarrow> charger \<Rightarrow> charger_out list" where
  "chg_emit p e chg = (case chg_event_cb chg of None \<Rightarrow> [] | Some h \<Rightarrow> if p h then [Chg_Event e] else [])"

section \<open>Sums over the connected packs\<close>

text \<open>\<open>None\<close> for a pack that is not connected.\<close>

definition connected_data :: "int \<Rightarrow> 'c sm_sv_bp \<Rightarrow> fault + sm_bp_data option" where
  "connected_data k sv =
     (case sm_sv_bp_is_connected k sv of Inl f \<Rightarrow> Inl f
      | Inr c \<Rightarrow> if \<not> c then Inr None
          else (case sm_sv_bp_get_data k sv of Inl f \<Rightarrow> Inl f | Inr None \<Rightarrow> Inl Null_Deref | Inr (Some d) \<Rightarrow> Inr (Some d)))"

fun sum_packs :: "(sm_bp_data \<Rightarrow> int) \<Rightarrow> 'c sm_sv_bp \<Rightarrow> int list \<Rightarrow> int \<Rightarrow> fault + int" where
  "sum_packs f sv [] n = Inr n"
| "sum_packs f sv (k # ks) n =
     (case connected_data k sv of Inl e \<Rightarrow> Inl e
      | Inr None \<Rightarrow> sum_packs f sv ks n
      | Inr (Some d) \<Rightarrow> sum_packs f sv ks (n + f d))"

definition sm_sv_charger_get_bp_num :: "charger_sys \<Rightarrow> fault + (int \<times> charger_sys)" where
  "sm_sv_charger_get_bp_num = (\<lambda>(chg, sys).
     case sum_packs (\<lambda>d. if bp_state d = BP_STATE_CHARGING then 1 else 0) (snd sys) pack_indices 0 of
       Inl f \<Rightarrow> Inl f | Inr n \<Rightarrow> Inr (n, (chg\<lparr>chg_numb := word_of_int n\<rparr>, sys)))"

definition sm_sv_charger_get_cur :: "charger_sys \<Rightarrow> fault + int" where
  "sm_sv_charger_get_cur = (\<lambda>(chg, sys). sum_packs bp_cur (snd sys) pack_indices 0)"

section \<open>Callbacks from the controller and the service\<close>

definition charger_reset_force_bp :: "charger \<Rightarrow> charger" where
  "charger_reset_force_bp chg = chg\<lparr>chg_forced_bp := -1, chg_force_cb := None\<rparr>"

definition charger_ctl_on_power_off :: "charger \<Rightarrow> charger" where
  "charger_ctl_on_power_off chg = chg\<lparr>chg_in_process := False\<rparr>"

definition charger_ctl_on_switched_merged_cb :: "int \<Rightarrow> charger \<Rightarrow> charger \<times> charger_out list" where
  "charger_ctl_on_switched_merged_cb success chg =
     (let chg = chg\<lparr>chg_in_process := False\<rparr>; forced = word_of_int (chg_forced_bp chg) in
      (chg, if success = 0 \<and> chg_forced_bp chg \<ge> 0
            then chg_emit on_forced_charging (Forced_Charging 0 forced Force_Arg) chg
                 @ (case chg_force_cb chg of None \<Rightarrow> [] | Some f \<Rightarrow> [Chg_Event (Force_Cb f 0 forced)])
            else []))"

fun chg_dispatch :: "ctl_call list \<Rightarrow> charger \<Rightarrow> charger \<times> charger_out list" where
  "chg_dispatch [] chg = (chg, [])"
| "chg_dispatch (c # cs) chg =
     (case (case c of Switch_Done Charger_Switched r _ \<Rightarrow> charger_ctl_on_switched_merged_cb r chg
            | Bp_Call (Cmd_Done (Bp_Client Charger_Off) _ _ _ _) \<Rightarrow> (charger_ctl_on_power_off chg, [])
            | c \<Rightarrow> (chg, [Chg_Pms c])) of
        (chg, out) \<Rightarrow> (case chg_dispatch cs chg of (chg, out') \<Rightarrow> (chg, out @ out')))"

text \<open>A call of the controller, made with \<^verbatim>\<open>m_in_process\<close> set or not.\<close>

definition chg_call :: "(ctl_sys \<Rightarrow> (off_cb, sw_cb) pms_return) \<Rightarrow> charger_sys \<Rightarrow> charger_return" where
  "chg_call f = (\<lambda>(chg, sys).
     case f sys of Inl e \<Rightarrow> Inl e
     | Inr (r, sys, cs) \<Rightarrow> (case chg_dispatch cs chg of (chg, out) \<Rightarrow> Inr (r, (chg, sys), out)))"

definition chg_request :: "(ctl_sys \<Rightarrow> (off_cb, sw_cb) pms_return) \<Rightarrow> charger_sys \<Rightarrow> charger_return" where
  "chg_request f = (\<lambda>(chg, sys). chg_call f (chg\<lparr>chg_in_process := True\<rparr>, sys))"

section \<open>Ports and forced charging\<close>

definition sm_sv_charger_force_bp :: "u8 \<Rightarrow> nat option \<Rightarrow> charger_sys \<Rightarrow> charger_return" where
  "sm_sv_charger_force_bp bp_id cb = (\<lambda>(chg, sys).
     if chg_paused chg then Inr (-2, (chg, sys), [])
     else if length (chg_port_enable chg) \<le> unat bp_id then Inl Out_Of_Bounds
     else if chg_port_enable chg ! unat bp_id = 0 then Inr (-2, (chg, sys), [])
     else (case connected_data (uint bp_id) (snd sys) of Inl f \<Rightarrow> Inl f
       | Inr None \<Rightarrow> Inr (-2, (chg, sys), [])
       | Inr (Some d) \<Rightarrow>
           if uint bp_id = chg_forced_bp chg \<and> bp_state d = BP_STATE_DISCHARGING
           then Inr (0, (chg, sys),
                  (case cb of None \<Rightarrow> [] | Some f \<Rightarrow> [Chg_Event (Force_Cb f 0 bp_id)])
                  @ chg_emit on_forced_charging (Forced_Charging 0 bp_id Event_Arg) chg)
           else Inr (0, (chg\<lparr>chg_forced_bp := uint bp_id, chg_force_cb := cb\<rparr>, sys), [])))"

definition sm_sv_charger_release_bp :: "charger \<Rightarrow> int \<times> charger" where
  "sm_sv_charger_release_bp chg = (if chg_paused chg then (-1, chg) else (0, chg\<lparr>chg_forced_bp := -1\<rparr>))"

definition sm_sv_charger_enable_port :: "int \<Rightarrow> u8 \<Rightarrow> u8 \<Rightarrow> charger_sys \<Rightarrow> charger_return" where
  "sm_sv_charger_enable_port now port enable = (\<lambda>(chg, sys).
     if uint port \<ge> int SM_BP_NUMBER_DEFAULT then Inr (-1, (chg, sys), [])
     else
       (case
         (if enable = 0 then
            (case bp_state_at (uint port) (snd sys) of Inl f \<Rightarrow> Inl f
             | Inr st \<Rightarrow>
                 and_then (if running st then map_sum id snd (chg_call (sm_pms_ctl_power_off now port None) (chg, sys))
                           else Inr ((chg, sys), []))
                   (\<lambda>(chg, sys). if chg_forced_bp chg = uint port
                      then Inr ((charger_reset_force_bp chg, sys),
                             chg_emit on_released_charging (Released_Charging 0 (word_of_int (chg_forced_bp chg)) Event_Arg) chg)
                      else Inr ((chg, sys), [])))
          else Inr ((chg, sys), []) :: charger_result) of
         Inl f \<Rightarrow> Inl f
       | Inr ((chg, sys), out) \<Rightarrow>
           Inr (0, (chg\<lparr>chg_port_enable := (chg_port_enable chg)[unat port := uint enable]\<rparr>, sys), out)))"

section \<open>The charger is plugged\<close>

definition charger_check_plugging_status :: "int \<Rightarrow> charger \<Rightarrow> fault + (charger \<times> charger_out list)" where
  "charger_check_plugging_status now chg =
     (let vol = chg_volt chg in
      if vol > prof_min_volt (chg_prof chg) \<and> vol < prof_max_volt (chg_prof chg) then
        (let chg = (if \<not> chg_instant_plug chg
                    then chg\<lparr>chg_instant_plug := True, chg_timeout := elapsed_timer_reset now (chg_timeout chg)\<rparr> else chg)
         in if timed_out now (chg_timeout chg) \<and> chg_instant_plug chg \<and> \<not> chg_plugged chg
            then Inr (chg\<lparr>chg_plugged := True\<rparr>, chg_emit on_charger_is_plugged (Charger_Is_Plugged True) chg)
            else Inr (chg, []))
      else if vol \<le> prof_min_volt (chg_prof chg) then
        (let chg = (if chg_instant_plug chg
                    then chg\<lparr>chg_instant_plug := False, chg_timeout := elapsed_timer_reset now (chg_timeout chg)\<rparr> else chg)
         in if timed_out now (chg_timeout chg) \<and> \<not> chg_instant_plug chg \<and> chg_plugged chg
            then Inr (chg\<lparr>chg_plugged := False\<rparr>, chg_emit on_charger_is_plugged (Charger_Is_Plugged False) chg)
            else Inr (chg, []))
      else
        (let chg = (if chg_err chg = 0
                    then chg\<lparr>chg_err := 1, chg_timeout := elapsed_timer_reset now (chg_timeout chg)\<rparr> else chg)
         in if timed_out now (chg_timeout chg) \<and> chg_err chg = 1 then Inl Wrong_Object else Inr (chg, [])))"

text \<open>The last branch calls \<^verbatim>\<open>sm_sv_charger_pause\<close>, and never gets to its error event.\<close>

section \<open>Choosing the next pack\<close>

text \<open>
  The loop of \<^verbatim>\<open>charger_check_switch_merge_condition\<close>: the voltage of the first pack that runs
  (\<open>vc\<close>), the lowest voltage of a pack in standby (\<open>vol\<close>) and its index (\<open>nx\<close>, \<open>-1\<close> for none).
\<close>

fun charger_scan :: "charger \<Rightarrow> 'c sm_sv_bp \<Rightarrow> int list \<Rightarrow> int \<times> int \<times> int \<Rightarrow> fault + (int \<times> int \<times> int)" where
  "charger_scan chg sv [] acc = Inr acc"
| "charger_scan chg sv (k # ks) (vc, vol, nx) =
     (if chg_port_enable chg ! nat k = 0 then charger_scan chg sv ks (vc, vol, nx)
      else (case connected_data k sv of Inl f \<Rightarrow> Inl f
        | Inr None \<Rightarrow> charger_scan chg sv ks (vc, vol, nx)
        | Inr (Some d) \<Rightarrow>
            (let vc = (if running (bp_state d) \<and> vc \<le> 0 then bp_vol d else vc);
                 better = bp_state d = BP_STATE_STANDBY \<and> (vol \<le> 0 \<or> vol > bp_vol d)
             in charger_scan chg sv ks (vc, if better then bp_vol d else vol, if better then k else nx))))"

definition charger_check_switch_merge_condition :: "int \<Rightarrow> charger_sys \<Rightarrow> charger_return" where
  "charger_check_switch_merge_condition now = (\<lambda>(chg, sys).
     if chg_in_process chg then Inr (0, (chg, sys), [])
     else (case charger_scan chg (snd sys) pack_indices (0, 0, -1) of Inl f \<Rightarrow> Inl f
       | Inr (vc, vol, nx) \<Rightarrow>
           if nx = -1 then Inr (-1, (chg, sys), [])
           else if vc \<le> 0 then
             chg_request (sm_pms_ctl_merge now (word_of_int nx) BP_CMD_CHARGE (Some Charger_Switched)) (chg, sys)
           else if \<bar>vc - vol\<bar> < cfg_min_volt_diff (chg_config chg) then
             chg_request (sm_pms_ctl_merge now (word_of_int nx) BP_CMD_CHARGE (Some Charger_Switched)) (chg, sys)
           else if vc - vol > cfg_min_volt_diff (chg_config chg) then
             chg_request (sm_pms_ctl_switch now (word_of_int nx) BP_CMD_CHARGE (Some Charger_Switched)) (chg, sys)
           else Inr (-1, (chg, sys), [])))"

section \<open>Forced charging\<close>

text \<open>The first other pack that runs.\<close>

fun find_running :: "int \<Rightarrow> (int \<Rightarrow> bool) \<Rightarrow> 'c sm_sv_bp \<Rightarrow> int list \<Rightarrow> fault + int option" where
  "find_running forced p sv [] = Inr None"
| "find_running forced p sv (k # ks) =
     (if k = forced then find_running forced p sv ks
      else (case bp_state_at k sv of Inl f \<Rightarrow> Inl f
            | Inr st \<Rightarrow> if p st then Inr (Some k) else find_running forced p sv ks))"

definition charger_forcing_handled :: "int \<Rightarrow> charger_sys \<Rightarrow> charger_result" where
  "charger_forcing_handled now = (\<lambda>(chg, sys).
     if chg_in_process chg then Inr ((chg, sys), [])
     else (case sm_sv_bp_is_connected (chg_forced_bp chg) (snd sys) of Inl f \<Rightarrow> Inl f
       | Inr False \<Rightarrow>
           Inr ((charger_reset_force_bp chg, sys),
             chg_emit on_released_charging (Released_Charging (-1) (word_of_int (chg_forced_bp chg)) Force_Arg) chg)
       | Inr True \<Rightarrow>
           and_then
             (case find_running (chg_forced_bp chg) (\<lambda>st. running st) (snd sys) pack_indices of Inl f \<Rightarrow> Inl f
              | Inr None \<Rightarrow> Inr ((chg, sys), [])
              | Inr (Some k) \<Rightarrow>
                  map_sum id snd (chg_request (sm_pms_ctl_power_off now (word_of_int k) (Some Charger_Off)) (chg, sys)))
             (\<lambda>(chg, sys). case bp_state_at (chg_forced_bp chg) (snd sys) of Inl f \<Rightarrow> Inl f
                | Inr st \<Rightarrow>
                    if st \<noteq> BP_STATE_DISCHARGING then
                      map_sum id snd (chg_request (sm_pms_ctl_switch now (word_of_int (chg_forced_bp chg)) BP_CMD_CHARGE
                        (Some Charger_Switched)) (chg, sys))
                    else Inr ((chg, sys), []))))"

section \<open>The current\<close>

definition charger_current_monitor :: "int \<Rightarrow> charger_sys \<Rightarrow> charger_return" where
  "charger_current_monitor now = (\<lambda>(chg, sys).
     case sm_sv_charger_get_cur (chg, sys) of Inl f \<Rightarrow> Inl f
     | Inr c \<Rightarrow>
         (let cur = \<bar>c\<bar>;
              over = (if cur > prof_max_cur (chg_prof chg) then chg_emit on_charger_err (Charger_Err 0) chg else [])
          in if cur < cfg_min_cur_cutoff (chg_config chg) then
               (let chg = (if \<not> chg_instant_cutoff chg
                           then chg\<lparr>chg_timeout := elapsed_timer_resetz now (cfg_detect_cutoff_time (chg_config chg)) (chg_timeout chg),
                                    chg_instant_cutoff := True\<rparr> else chg)
                in if timed_out now (chg_timeout chg) \<and> chg_instant_plug chg \<and> \<not> chg_cutoff chg
                   then Inr (cur, (chg\<lparr>chg_cutoff := True\<rparr>, sys), over @ chg_emit on_stop_charging Stop_Charging chg)
                   else Inr (cur, (chg, sys), over))
             else if chg_instant_cutoff chg
               then Inr (cur, (chg\<lparr>chg_instant_cutoff := False, chg_cutoff := False\<rparr>, sys), over)
             else Inr (cur, (chg, sys), over)))"

section \<open>The periodic step\<close>

definition sm_sv_charger_process :: "int \<Rightarrow> charger_sys \<Rightarrow> charger_return" where
  "sm_sv_charger_process now = (\<lambda>(chg, sys).
     if chg_paused chg then Inr (-2, (chg, sys), [])
     else (case charger_check_plugging_status now chg of Inl f \<Rightarrow> Inl f
       | Inr (chg, out) \<Rightarrow>
           if \<not> chg_plugged chg then Inr (-3, (chg, sys), out)
           else (case
               (if chg_forced_bp chg \<ge> 0 then charger_forcing_handled now (chg, sys)
                else map_sum id snd (charger_check_switch_merge_condition now (chg, sys))) of
               Inl f \<Rightarrow> Inl f
             | Inr (s, out') \<Rightarrow>
                 (case charger_current_monitor now s of Inl f \<Rightarrow> Inl f
                  | Inr (cur, s, out'') \<Rightarrow> Inr (cur, s, out @ out' @ out'')))))"

end
