(* ===== verification/Discharger.thy ===== *)
theory Discharger
  imports Charger
begin

text \<open>
  \<^verbatim>\<open>services/charger/sm_sv_discharger.c\<close>: keeps the fullest pack in the discharge, merges packs of
  about the same voltage, obeys a request to force one pack. Like the charger it works on the PMS
  controller and the battery service, which are part of the state here.
\<close>

section \<open>State\<close>

record sm_sv_discharger_prof =
  dprof_max_cur :: "int list"
  dprof_min_cur :: int
  dprof_temp_active_limit :: int
  dprof_temp_deactive_limit :: int

record sm_sv_discharger_event_cb =
  on_switch_forced :: bool
  on_switch_released :: bool
  on_forced_discharging :: bool

record discharger =
  dis_prof :: sm_sv_discharger_prof
  dis_min_volt_diff :: int
  dis_min_dischar_cur :: int
  dis_port_enable :: "int list"
  dis_numb :: u8
  dis_forced_bp :: int
  dis_in_process :: bool
  dis_paused :: bool
  dis_paused_sw :: bool
  dis_event_cb :: "sm_sv_discharger_event_cb option"
  dis_force_cb :: "nat option"

datatype discharger_event = Switch_Forced int u8 cb_arg | Switch_Released int u8 cb_arg
  | Forced_Discharging int u8 cb_arg | Dis_Force_Cb nat int u8

datatype discharger_out = Dis_Event discharger_event | Dis_Pms ctl_call

type_synonym discharger_sys = "discharger \<times> ctl_sys"
type_synonym discharger_result = "(discharger_sys, discharger_out) result"
type_synonym discharger_return = "fault + (int \<times> discharger_sys \<times> discharger_out list)"

definition g_discharger_prof_default :: sm_sv_discharger_prof where
  "g_discharger_prof_default = \<lparr>dprof_max_cur = [50000, 45000, 35000], dprof_min_cur = 5000,
     dprof_temp_active_limit = 50, dprof_temp_deactive_limit = 45\<rparr>"

definition g_discharger :: discharger where
  "g_discharger =
     \<lparr>dis_prof = g_discharger_prof_default, dis_min_volt_diff = 2000, dis_min_dischar_cur = 5000,
      dis_port_enable = [1, 1, 1], dis_numb = 0, dis_forced_bp = -1, dis_in_process = False, dis_paused = False,
      dis_paused_sw = False, dis_event_cb = None, dis_force_cb = None\<rparr>"

definition sm_sv_discharger_create :: "discharger \<Rightarrow> discharger" where
  "sm_sv_discharger_create dis =
     dis\<lparr>dis_min_volt_diff := 2000, dis_min_dischar_cur := 5000, dis_prof := g_discharger_prof_default\<rparr>"

section \<open>Flags\<close>

definition sm_sv_discharger_is_paused :: "discharger \<Rightarrow> bool" where
  "sm_sv_discharger_is_paused dis = dis_paused dis"

definition sm_sv_discharger_resume :: "discharger \<Rightarrow> discharger" where
  "sm_sv_discharger_resume dis = dis\<lparr>dis_paused := False\<rparr>"

definition sm_sv_discharger_set_sw_state :: "bool \<Rightarrow> discharger \<Rightarrow> discharger" where
  "sm_sv_discharger_set_sw_state st dis = dis\<lparr>dis_paused_sw := \<not> st\<rparr>"

definition sm_sv_discharger_set_profile :: "sm_sv_discharger_prof \<Rightarrow> discharger \<Rightarrow> discharger" where
  "sm_sv_discharger_set_profile p dis = dis\<lparr>dis_prof := p\<rparr>"

definition dis_emit :: "(sm_sv_discharger_event_cb \<Rightarrow> bool) \<Rightarrow> discharger_event \<Rightarrow> discharger \<Rightarrow> discharger_out list" where
  "dis_emit p e dis = (case dis_event_cb dis of None \<Rightarrow> [] | Some h \<Rightarrow> if p h then [Dis_Event e] else [])"

definition sm_sv_get_discharger_bp_num :: "discharger_sys \<Rightarrow> fault + (int \<times> discharger_sys)" where
  "sm_sv_get_discharger_bp_num = (\<lambda>(dis, sys).
     case sum_packs (\<lambda>d. if bp_state d = BP_STATE_DISCHARGING then 1 else 0) (snd sys) pack_indices 0 of
       Inl f \<Rightarrow> Inl f | Inr n \<Rightarrow> Inr (n, (dis\<lparr>dis_numb := word_of_int n\<rparr>, sys)))"

section \<open>Callbacks\<close>

definition discharger_reset_force_bp :: "discharger \<Rightarrow> discharger" where
  "discharger_reset_force_bp dis = dis\<lparr>dis_forced_bp := -1, dis_force_cb := None\<rparr>"

definition discharger_ctl_on_power_off :: "discharger \<Rightarrow> discharger" where
  "discharger_ctl_on_power_off dis = dis\<lparr>dis_in_process := False\<rparr>"

definition discharger_ctl_on_switched_merged_cb :: "int \<Rightarrow> discharger \<Rightarrow> discharger \<times> discharger_out list" where
  "discharger_ctl_on_switched_merged_cb success dis =
     (let dis = dis\<lparr>dis_in_process := False\<rparr>; forced = word_of_int (dis_forced_bp dis) in
      (dis, if success = 0 \<and> dis_forced_bp dis \<ge> 0
            then dis_emit on_switch_forced (Switch_Forced 0 forced Force_Arg) dis
                 @ (case dis_force_cb dis of None \<Rightarrow> [] | Some f \<Rightarrow> [Dis_Event (Dis_Force_Cb f 0 forced)])
            else []))"

fun dis_dispatch :: "ctl_call list \<Rightarrow> discharger \<Rightarrow> discharger \<times> discharger_out list" where
  "dis_dispatch [] dis = (dis, [])"
| "dis_dispatch (c # cs) dis =
     (case (case c of Switch_Done Discharger_Switched r _ \<Rightarrow> discharger_ctl_on_switched_merged_cb r dis
            | Bp_Call (Cmd_Done (Bp_Client Discharger_Off) _ _ _ _) \<Rightarrow> (discharger_ctl_on_power_off dis, [])
            | c \<Rightarrow> (dis, [Dis_Pms c])) of
        (dis, out) \<Rightarrow> (case dis_dispatch cs dis of (dis, out') \<Rightarrow> (dis, out @ out')))"

definition dis_call :: "(ctl_sys \<Rightarrow> (off_cb, sw_cb) pms_return) \<Rightarrow> discharger_sys \<Rightarrow> discharger_return" where
  "dis_call f = (\<lambda>(dis, sys).
     case f sys of Inl e \<Rightarrow> Inl e
     | Inr (r, sys, cs) \<Rightarrow> (case dis_dispatch cs dis of (dis, out) \<Rightarrow> Inr (r, (dis, sys), out)))"

definition dis_request :: "(ctl_sys \<Rightarrow> (off_cb, sw_cb) pms_return) \<Rightarrow> discharger_sys \<Rightarrow> discharger_return" where
  "dis_request f = (\<lambda>(dis, sys). dis_call f (dis\<lparr>dis_in_process := True\<rparr>, sys))"

definition sm_sv_discharger_pause :: "int \<Rightarrow> discharger_sys \<Rightarrow> discharger_result" where
  "sm_sv_discharger_pause now sys =
     and_then (map_sum id snd (dis_call (\<lambda>s. map_sum id (Pair 0) (sm_pms_ctl_release now s)) sys))
       (\<lambda>(dis, s). Inr ((dis\<lparr>dis_in_process := False, dis_paused := True\<rparr>, s), []))"

section \<open>Forced discharge\<close>

definition sm_sv_discharger_force_bp :: "u8 \<Rightarrow> nat option \<Rightarrow> discharger_sys \<Rightarrow> discharger_return" where
  "sm_sv_discharger_force_bp bp_id cb = (\<lambda>(dis, sys).
     if dis_paused dis then Inr (-2, (dis, sys), [])
     else if length (dis_port_enable dis) \<le> unat bp_id then Inl Out_Of_Bounds
     else if dis_port_enable dis ! unat bp_id = 0 then Inr (-2, (dis, sys), [])
     else (case connected_data (uint bp_id) (snd sys) of Inl f \<Rightarrow> Inl f
       | Inr None \<Rightarrow> Inr (-2, (dis, sys), [])
       | Inr (Some d) \<Rightarrow>
           if uint bp_id = dis_forced_bp dis \<and> bp_state d = BP_STATE_DISCHARGING
           then Inr (0, (dis, sys),
                  (case cb of None \<Rightarrow> [] | Some f \<Rightarrow> [Dis_Event (Dis_Force_Cb f 0 bp_id)])
                  @ dis_emit on_forced_discharging (Forced_Discharging 0 bp_id Event_Arg) dis)
           else Inr (0, (dis\<lparr>dis_forced_bp := uint bp_id, dis_force_cb := cb\<rparr>, sys), [])))"

definition sm_sv_discharger_release_bp :: "discharger \<Rightarrow> int \<times> discharger" where
  "sm_sv_discharger_release_bp dis = (if dis_paused dis then (-1, dis) else (0, dis\<lparr>dis_forced_bp := -1\<rparr>))"

definition discharger_force_switch_handle :: "int \<Rightarrow> discharger_sys \<Rightarrow> discharger_result" where
  "discharger_force_switch_handle now = (\<lambda>(dis, sys).
     if dis_in_process dis then Inr ((dis, sys), [])
     else (case sm_sv_bp_is_connected (dis_forced_bp dis) (snd sys) of Inl f \<Rightarrow> Inl f
       | Inr False \<Rightarrow>
           Inr ((discharger_reset_force_bp dis, sys),
             dis_emit on_switch_released (Switch_Released (-1) (word_of_int (dis_forced_bp dis)) Force_Arg) dis)
       | Inr True \<Rightarrow>
           (case bp_state_at (dis_forced_bp dis) (snd sys) of Inl f \<Rightarrow> Inl f
            | Inr st \<Rightarrow>
                if st \<noteq> BP_STATE_DISCHARGING then
                  map_sum id snd (dis_request (sm_pms_ctl_switch now (word_of_int (dis_forced_bp dis)) BP_CMD_DISCHARGE
                    (Some Discharger_Switched)) (dis, sys))
                else (case find_running (dis_forced_bp dis) (\<lambda>st. st = BP_STATE_DISCHARGING) (snd sys) pack_indices of
                    Inl f \<Rightarrow> Inl f
                  | Inr None \<Rightarrow> Inr ((dis, sys), [])
                  | Inr (Some k) \<Rightarrow>
                      map_sum id snd (dis_request (sm_pms_ctl_power_off now (word_of_int k) (Some Discharger_Off)) (dis, sys))))))"

section \<open>Choosing the next pack\<close>

text \<open>
  The loop of \<^verbatim>\<open>discharger_check_switch_merge_condition\<close>: the highest voltage of a pack in standby and
  its index, the voltage of the last pack that runs, the sum of the currents. The port enables are
  not looked at.
\<close>

fun discharger_scan :: "'c sm_sv_bp \<Rightarrow> int list \<Rightarrow> int \<times> int \<times> int \<times> int \<Rightarrow> fault + (int \<times> int \<times> int \<times> int)" where
  "discharger_scan sv [] acc = Inr acc"
| "discharger_scan sv (k # ks) (vol, nx, vd, cur) =
     (case connected_data k sv of Inl f \<Rightarrow> Inl f
      | Inr None \<Rightarrow> discharger_scan sv ks (vol, nx, vd, cur)
      | Inr (Some d) \<Rightarrow>
          (let better = bp_state d = BP_STATE_STANDBY \<and> vol < bp_vol d
           in discharger_scan sv ks (if better then bp_vol d else vol, if better then k else nx,
                if running (bp_state d) then bp_vol d else vd, cur + bp_cur d)))"

definition discharger_check_switch_merge_condition :: "int \<Rightarrow> discharger_sys \<Rightarrow> discharger_return" where
  "discharger_check_switch_merge_condition now = (\<lambda>(dis, sys).
     if dis_in_process dis then Inr (0, (dis, sys), [])
     else (case discharger_scan (snd sys) pack_indices (0, -1, 0, 0) of Inl f \<Rightarrow> Inl f
       | Inr (vol, nx, vd, cur) \<Rightarrow>
           if nx = -1 then Inr (-1, (dis, sys), [])
           else if \<bar>vol - vd\<bar> < dis_min_volt_diff dis then
             dis_request (sm_pms_ctl_merge now (word_of_int nx) BP_CMD_DISCHARGE (Some Discharger_Switched)) (dis, sys)
           else if vol - vd > dis_min_volt_diff dis then
             (if \<bar>cur\<bar> \<ge> dis_min_dischar_cur dis then Inr (-1, (dis, sys), [])
              else if dis_paused_sw dis then Inr (-1, (dis, sys), [])
              else dis_request (sm_pms_ctl_switch now (word_of_int nx) BP_CMD_DISCHARGE (Some Discharger_Switched)) (dis, sys))
           else Inr (-1, (dis, sys), [])))"

section \<open>The periodic step\<close>

definition sm_sv_discharger_process :: "int \<Rightarrow> discharger_sys \<Rightarrow> discharger_return" where
  "sm_sv_discharger_process now = (\<lambda>(dis, sys).
     if dis_paused dis then Inr (-2, (dis, sys), [])
     else if dis_forced_bp dis > 0 then map_sum id (Pair 0) (discharger_force_switch_handle now (dis, sys))
     else (case discharger_check_switch_merge_condition now (dis, sys) of Inl f \<Rightarrow> Inl f
       | Inr (_, s, out) \<Rightarrow>
           (case sm_sv_get_discharger_bp_num s of Inl f \<Rightarrow> Inl f | Inr (n, s) \<Rightarrow> Inr (n, s, out))))"

end
