(* ===== verification/Pms_Est.thy ===== *)
theory Pms_Est
  imports Pms_Ctl Complex_Main "HOL-Library.Log_Nat"
begin

text \<open>
  \<^verbatim>\<open>services/pms/sm_pms_est.c\<close>: the estimation that runs before the controller. It adds up energies, limits the current from
  the charge of the packs, estimates the range and writes all this to the data of the unit. It reads the packs through the battery
  service, and when no pack discharges it asks the retain module for the number of active packs, which ends the retain of packs
  whose time is over: an operation therefore returns the service too. The service and the retain object handed to
  \<^verbatim>\<open>sm_pms_est_create\<close> are those of the application.

  Single-precision operations are rounded, to the nearest and to even (\<open>f32\<close>). A number that does not fit the unsigned
  integer it is converted to, undefined in C, becomes the nearest that does, as on the target.
\<close>

section \<open>Numbers\<close>

definition pow2 :: "int \<Rightarrow> rat" where
  "pow2 k = (if 0 \<le> k then 2 ^ nat k else 1 / 2 ^ nat (- k))"

definition f32_exponent :: "rat \<Rightarrow> int" where
  "f32_exponent x = (case quotient_of \<bar>x\<bar> of (p, q) \<Rightarrow>
     let e = int (floorlog 2 (nat p)) - int (floorlog 2 (nat q)) in if pow2 e \<le> \<bar>x\<bar> then e else e - 1)"

definition round_even :: "rat \<Rightarrow> int" where
  "round_even x = (let n = \<lfloor>x\<rfloor>; r = x - of_int n in if r < 1 / 2 \<or> r = 1 / 2 \<and> even n then n else n + 1)"

definition f32 :: "rat \<Rightarrow> rat" where
  "f32 x = (if x = 0 then 0
     else let k = max (f32_exponent x) (-126) - 23 in of_int (round_even (x / pow2 k)) * pow2 k)"

definition float_to_u32 :: "rat \<Rightarrow> u32" where
  "float_to_u32 x = word_of_int (max 0 (min (2 ^ 32 - 1) \<lfloor>x\<rfloor>))"

section \<open>State\<close>

datatype PMS_MODE = PMS_DISCHARGER | PMS_CHARGER

text \<open>The data of the motor controller and of the unit, as far as they are used here.\<close>

record mc_data =
  mc_speed_rpm :: u16
  mc_est_tor :: u8
  mc_cur_mode :: u8

record pmu_data =
  pd_parking :: u8
  pd_range :: u16
  pd_energy_in :: u32
  pd_energy_out :: u32
  pd_discharge_cur_lim :: u32

text \<open>A module is a pointer; \<open>est_over_heat\<close> and \<open>est_cur_max_pre\<close> are static variables of the file.\<close>

record est_data =
  est_mc :: "mc_data option"
  est_pmu :: "pmu_data option"
  est_mechanical_energy :: u32
  est_elec_energydischarge :: u32
  est_elec_energycharge :: u32
  est_cur_dischar_limit :: u32
  est_distance :: u16
  est_over_heat :: bool
  est_cur_max_pre :: u32

text \<open>The other fields of the static object are left as they are.\<close>

definition sm_pms_est_create :: "mc_data option \<Rightarrow> pmu_data option \<Rightarrow> u32 \<Rightarrow> u32 \<Rightarrow> est_data \<Rightarrow> est_data" where
  "sm_pms_est_create mc pmu charge discharge g =
     g\<lparr>est_mc := mc, est_pmu := pmu, est_elec_energycharge := charge, est_elec_energydischarge := discharge\<rparr>"

text \<open>\<^verbatim>\<open>sm_sv_bp_get_data\<close>, with the result used without a test.\<close>

definition data_at :: "int \<Rightarrow> 'c sm_sv_bp \<Rightarrow> fault + sm_bp_data" where
  "data_at k sv = bind (sm_sv_bp_get_data k sv) (\<lambda>d. case d of None \<Rightarrow> Inl Null_Deref | Some d \<Rightarrow> Inr d)"

definition get :: "'a option \<Rightarrow> fault + 'a" where
  "get p = (case p of None \<Rightarrow> Inl Null_Deref | Some a \<Rightarrow> Inr a)"

section \<open>Energy\<close>

definition RPM_TO_RADS_RATIO :: rat where "RPM_TO_RADS_RATIO = f32 (10472 / 100000)"

text \<open>\<open>vol * cur / q\<close>, where \<open>q\<close> is \<open>1000000\<close> or \<open>-1000000\<close>.\<close>

definition mili_power :: "rat \<Rightarrow> sm_bp_data \<Rightarrow> rat" where
  "mili_power q d = f32 (f32 (f32 (of_int (bp_vol d)) * f32 (of_int (bp_cur d))) / q)"

fun add_energy :: "rat \<Rightarrow> int list \<Rightarrow> 'c sm_sv_bp \<Rightarrow> u32 \<Rightarrow> fault + u32" where
  "add_energy q [] sv e = Inr e"
| "add_energy q (k # ks) sv e =
     bind (sm_sv_bp_is_connected k sv) (\<lambda>c.
       if c then bind (data_at k sv) (\<lambda>d. add_energy q ks sv (e + float_to_u32 (f32 (mili_power q d / 7200))))
       else add_energy q ks sv e)"

definition pms_est_energy :: "PMS_MODE \<Rightarrow> 'c sm_sv_bp \<Rightarrow> est_data \<Rightarrow> fault + est_data" where
  "pms_est_energy mode sv est =
     bind (case mode of
         PMS_DISCHARGER \<Rightarrow> bind (add_energy 1000000 pack_indices sv (est_elec_energydischarge est))
           (\<lambda>e. Inr (est\<lparr>est_elec_energydischarge := e\<rparr>))
       | PMS_CHARGER \<Rightarrow> bind (add_energy (-1000000) pack_indices sv (est_elec_energycharge est))
           (\<lambda>e. Inr (est\<lparr>est_elec_energycharge := e\<rparr>)))
     (\<lambda>est. bind (get (est_mc est)) (\<lambda>mc.
       let mechanical_power = f32 (f32 (of_int (uint (mc_est_tor mc) * uint (mc_speed_rpm mc))) * RPM_TO_RADS_RATIO)
       in Inr (est\<lparr>est_mechanical_energy := est_mechanical_energy est + float_to_u32 (f32 (mechanical_power / 7200))\<rparr>)))"

section \<open>Limit of the current\<close>

definition OCV_table :: "u32 list" where
  "OCV_table = [
     53000, 53000, 53000, 53000, 53000, 53000, 55114, 55203, 55291, 55371,
     55440, 55520, 55619, 55763, 55962, 56146, 56512, 56656, 56774, 56890,
     57003, 57112, 57206, 57301, 57381, 57445, 57525, 57589, 57658, 57723,
     57778, 57827, 57877, 57915, 57960, 58005, 58050, 58090, 58139, 58179,
     58224, 58278, 58323, 58373, 58422, 58472, 58531, 58590, 58650, 58715,
     58784, 58858, 58942, 59037, 59155, 59299, 59469, 59662, 59845, 60010,
     60142, 60272, 60402, 60530, 60659, 60794, 60931, 61070, 61210, 61349,
     61493, 61642, 61790, 62093, 62246, 62405, 62563, 62723, 62882, 63050,
     63213, 63378, 63546, 63715, 63883, 64067, 64245, 64429, 64608, 64800,
     64984, 65173, 65366, 65565, 65763, 65971, 66179, 66394, 66621, 66854, 67117]"

definition bp_vals :: "u32 list" where "bp_vals = [150, 90, 60]"

definition CLAMP :: "u32 \<Rightarrow> u32 \<Rightarrow> u32 \<Rightarrow> u32" where
  "CLAMP x low high = (if x < low then low else if high < x then high else x)"

text \<open>The loop over the packs: how many discharge, a charge and the highest first temperature.\<close>

fun limit_scan :: "int list \<Rightarrow> 'c sm_sv_bp \<Rightarrow> nat \<times> u32 \<times> u8 \<Rightarrow> fault + nat \<times> u32 \<times> u8" where
  "limit_scan [] sv acc = Inr acc"
| "limit_scan (k # ks) sv (num, soc, max_temp) =
     bind (data_at k sv) (\<lambda>d.
       if bp_state d = BP_STATE_DISCHARGING then
         (let soc_old = soc; soc = soc + word_of_int (bp_soc d);
              max_temp = (if bp_temps d ! 0 > max_temp then bp_temps d ! 0 else max_temp);
              soc = (if soc < 1 then 1 else soc);
              soc = (if soc > soc_old \<and> soc_old \<noteq> 0 then soc_old else soc)
          in limit_scan ks sv (num + 1, soc, max_temp))
       else limit_scan ks sv (num, soc, max_temp))"

definition sm_bp_retain_get_elapsed_ratio :: "int \<Rightarrow> sm_bp_retain \<Rightarrow> rat" where
  "sm_bp_retain_get_elapsed_ratio now r =
     (if rl_index (rt_list r ! 0) = -1 then 0
      else f32 (f32 (1 / of_int BP_RETAIN_DISCHAR_TIME_MS) * f32 (of_int (elapsed_timer_get_remain now (rl_timeout (rt_list r ! 0))))))"

text \<open>No pack discharges.\<close>

definition limit_idle :: "int \<Rightarrow> est_data \<Rightarrow> 'c sm_sv_bp \<Rightarrow> u32 \<times> 'c sm_sv_bp" where
  "limit_idle now est sv =
     (case sm_bp_get_active_retain_numbs now (sv_retain sv) (sv_bps sv) of (n, r, bps) \<Rightarrow>
        (if 0 < n then float_to_u32 (f32 (3000 + f32 (sm_bp_retain_get_elapsed_ratio now r * f32 (of_nat (unat (est_cur_max_pre est))))))
         else 3000, sv\<lparr>sv_retain := r, sv_bps := bps\<rparr>))"

text \<open>One pack: the limit, and whether it is too hot.\<close>

definition limit_one :: "u32 \<Rightarrow> u32 \<Rightarrow> u8 \<Rightarrow> bool \<Rightarrow> u32 \<times> bool" where
  "limit_one soc cur_max max_temp over_heat =
     (let cur_max = (if soc \<le> 20 then cur_max - 2000 else cur_max);
          cur_max = CLAMP cur_max 5000 35000;
          (cur_max, over_heat) = (if max_temp > 55 \<and> cur_max > 20000 then (20000, True) else (cur_max, over_heat))
      in if over_heat \<and> max_temp > 54 \<and> cur_max > 20000 then (20000, over_heat) else (cur_max, False))"

definition limit_more :: "u32 \<Rightarrow> u32 \<Rightarrow> u32 \<Rightarrow> u32" where
  "limit_more soc cur_max high = CLAMP (if soc \<le> 20 then cur_max - 2000 else cur_max) 15000 high"

definition pms_est_cur_dischar_limit :: "int \<Rightarrow> est_data \<times> 'c sm_sv_bp \<Rightarrow> fault + est_data \<times> 'c sm_sv_bp" where
  "pms_est_cur_dischar_limit now = (\<lambda>(est, sv).
     bind (limit_scan pack_indices sv (0, 0, 0)) (\<lambda>(num, soc, max_temp).
       let soc = CLAMP soc 1 99; ocv = OCV_table ! unat soc;
           cur_max = (if 1 \<le> num \<and> num \<le> 3 then 1000 * (ocv - 53000) div (bp_vals ! (num - 1)) else 0)
       in if num = 0 then (case limit_idle now est sv of (cur_max, sv) \<Rightarrow> Inr (est\<lparr>est_cur_dischar_limit := cur_max\<rparr>, sv))
          else if num = 1 then
            (case limit_one soc cur_max max_temp (est_over_heat est) of (cur_max, over_heat) \<Rightarrow>
               Inr (est\<lparr>est_over_heat := over_heat, est_cur_max_pre := est_cur_dischar_limit est, est_cur_dischar_limit := cur_max\<rparr>, sv))
          else Inr (est\<lparr>est_cur_max_pre := est_cur_dischar_limit est,
                        est_cur_dischar_limit := limit_more soc cur_max (if num = 2 then 45000 else 65000)\<rparr>, sv)))"

section \<open>Range\<close>

fun soc_total :: "int list \<Rightarrow> 'c sm_sv_bp \<Rightarrow> int \<Rightarrow> fault + int" where
  "soc_total [] sv n = Inr n"
| "soc_total (k # ks) sv n =
     bind (sm_sv_bp_get_data k sv) (\<lambda>d. bind (sm_sv_bp_is_connected k sv) (\<lambda>c.
       if c then bind (get d) (\<lambda>d. soc_total ks sv (n + bp_soc d)) else soc_total ks sv n))"

definition pms_est_cur_distance :: "'c sm_sv_bp \<Rightarrow> est_data \<Rightarrow> fault + est_data" where
  "pms_est_cur_distance sv est =
     bind (get (est_mc est)) (\<lambda>mc. bind (get (est_pmu est)) (\<lambda>pmu. bind (soc_total pack_indices sv 0) (\<lambda>soc.
       let power_km_f = (if mc_cur_mode mc = 0 \<or> mc_cur_mode mc = 1 then 22 else 28);
           power_km_f = (if pd_parking pmu = 1 then 22 else power_km_f);
           distance_t = (if soc < 5 then 0 else (soc - 5) * 11 div power_km_f)
       in Inr (est\<lparr>est_distance := word_of_int (if 150 < distance_t then 150 else if distance_t < 0 then 0 else distance_t)\<rparr>))))"

definition pms_est_update_data :: "est_data \<Rightarrow> fault + est_data" where
  "pms_est_update_data est = bind (get (est_pmu est)) (\<lambda>pmu.
     Inr (est\<lparr>est_pmu := Some (pmu\<lparr>pd_energy_in := est_elec_energycharge est, pd_energy_out := est_elec_energydischarge est,
       pd_range := est_distance est, pd_discharge_cur_lim := est_cur_dischar_limit est\<rparr>)\<rparr>))"

definition pms_est_process :: "int \<Rightarrow> PMS_MODE \<Rightarrow> est_data option \<times> 'c sm_sv_bp \<Rightarrow> fault + int \<times> est_data option \<times> 'c sm_sv_bp" where
  "pms_est_process now mode = (\<lambda>(est, sv).
     case est of None \<Rightarrow> Inr (-1, None, sv)
     | Some est \<Rightarrow>
         bind (pms_est_energy mode sv est) (\<lambda>est.
         bind (pms_est_cur_dischar_limit now (est, sv)) (\<lambda>(est, sv).
         bind (pms_est_cur_distance sv est) (\<lambda>est.
         bind (pms_est_update_data est) (\<lambda>est. Inr (0, Some est, sv))))))"

text \<open>The copies of the header file.\<close>

definition sm_est_data_cpy :: "est_data \<Rightarrow> est_data option \<Rightarrow> int \<times> est_data" where
  "sm_est_data_cpy des src =
     (case src of None \<Rightarrow> (0, des)
      | Some src \<Rightarrow> (1, des\<lparr>est_mechanical_energy := est_mechanical_energy src, est_elec_energydischarge := est_elec_energydischarge src,
          est_elec_energycharge := est_elec_energycharge src, est_distance := est_distance src,
          est_cur_dischar_limit := est_cur_dischar_limit src\<rparr>))"

definition sm_est_reset_data :: "est_data \<Rightarrow> int \<times> est_data" where
  "sm_est_reset_data est = (0, est\<lparr>est_mechanical_energy := 0, est_elec_energydischarge := 0, est_elec_energycharge := 0,
     est_distance := 0, est_cur_dischar_limit := 0\<rparr>)"

end
