(* ===== verification/Sv_Pms.thy ===== *)
theory Sv_Pms
  imports Discharger Pms_Est
begin

text \<open>
  \<^verbatim>\<open>services/pms/sm_sv_pms.c\<close>: the service that runs the controller, the charger and the
  discharger in turn, after the estimation.
\<close>

record sm_sv_pms =
  pms_charger :: charger
  pms_discharger :: discharger
  pms_sys :: ctl_sys
  pms_mode :: PMS_MODE
  pms_est :: "est_data option"

datatype sv_pms_out = Out_Charger charger_event | Out_Discharger discharger_event | Out_Call ctl_call

type_synonym sv_pms_result = "(sm_sv_pms, sv_pms_out) result"

text \<open>Calls of the controller or the service that the charger or the discharger registered for.\<close>

definition dispatch_charger :: "ctl_call list \<Rightarrow> sm_sv_pms \<Rightarrow> sm_sv_pms \<times> charger_out list" where
  "dispatch_charger cs st = (case chg_dispatch cs (pms_charger st) of (c, out) \<Rightarrow> (st\<lparr>pms_charger := c\<rparr>, out))"

definition dispatch_discharger :: "ctl_call list \<Rightarrow> sm_sv_pms \<Rightarrow> sm_sv_pms \<times> discharger_out list" where
  "dispatch_discharger cs st = (case dis_dispatch cs (pms_discharger st) of (d, out) \<Rightarrow> (st\<lparr>pms_discharger := d\<rparr>, out))"

fun pass_discharger :: "discharger_out list \<Rightarrow> sv_pms_out list" where
  "pass_discharger [] = []"
| "pass_discharger (Dis_Event e # os) = Out_Discharger e # pass_discharger os"
| "pass_discharger (Dis_Pms c # os) = Out_Call c # pass_discharger os"

text \<open>What the charger leaves over is for the discharger, and the other way round.\<close>

fun pass_charger :: "charger_out list \<Rightarrow> sm_sv_pms \<Rightarrow> sm_sv_pms \<times> sv_pms_out list" where
  "pass_charger [] st = (st, [])"
| "pass_charger (Chg_Event e # os) st = (case pass_charger os st of (st, out) \<Rightarrow> (st, Out_Charger e # out))"
| "pass_charger (Chg_Pms c # os) st =
     (case dispatch_discharger [c] st of (st, o1) \<Rightarrow>
        (case pass_charger os st of (st, out) \<Rightarrow> (st, pass_discharger o1 @ out)))"

definition dispatch_calls :: "ctl_call list \<Rightarrow> sm_sv_pms \<Rightarrow> sm_sv_pms \<times> sv_pms_out list" where
  "dispatch_calls cs st = (case dispatch_charger cs st of (st, out) \<Rightarrow> pass_charger out st)"

fun calls_of :: "discharger_out list \<Rightarrow> ctl_call list" where
  "calls_of [] = []"
| "calls_of (Dis_Event e # os) = calls_of os"
| "calls_of (Dis_Pms c # os) = c # calls_of os"

fun events_of :: "discharger_out list \<Rightarrow> sv_pms_out list" where
  "events_of [] = []"
| "events_of (Dis_Event e # os) = Out_Discharger e # events_of os"
| "events_of (Dis_Pms c # os) = events_of os"

section \<open>Operations\<close>

definition sm_sv_pms_create :: "charger \<Rightarrow> discharger \<Rightarrow> ctl_sys \<Rightarrow> est_data option \<Rightarrow> sm_sv_pms" where
  "sm_sv_pms_create chg dis sys est =
     \<lparr>pms_charger = chg, pms_discharger = dis, pms_sys = sys, pms_mode = PMS_DISCHARGER, pms_est = est\<rparr>"

definition sm_sv_pms_get_mode :: "sm_sv_pms \<Rightarrow> PMS_MODE" where
  "sm_sv_pms_get_mode st = pms_mode st"

definition run_est :: "int \<Rightarrow> sm_sv_pms \<Rightarrow> sv_pms_result" where
  "run_est now st =
     (case pms_est_process now (pms_mode st) (pms_est st, snd (pms_sys st)) of Inl f \<Rightarrow> Inl f
      | Inr (_, est, sv) \<Rightarrow> Inr (st\<lparr>pms_est := est, pms_sys := (fst (pms_sys st), sv)\<rparr>, []))"

definition run_ctl :: "int \<Rightarrow> sm_sv_pms \<Rightarrow> sv_pms_result" where
  "run_ctl now st =
     (case sm_pms_ctl_process now (pms_sys st) of Inl f \<Rightarrow> Inl f
      | Inr (sys, cs) \<Rightarrow> Inr (dispatch_calls cs (st\<lparr>pms_sys := sys\<rparr>)))"

definition run_charger :: "int \<Rightarrow> sm_sv_pms \<Rightarrow> sv_pms_result" where
  "run_charger now st =
     (case sm_sv_charger_process now (pms_charger st, pms_sys st) of Inl f \<Rightarrow> Inl f
      | Inr (r, (chg, sys), out) \<Rightarrow>
          Inr (pass_charger out (st\<lparr>pms_charger := chg, pms_sys := sys,
                 pms_mode := (if r < 0 then PMS_DISCHARGER else PMS_CHARGER)\<rparr>)))"

definition run_discharger :: "int \<Rightarrow> sm_sv_pms \<Rightarrow> sv_pms_result" where
  "run_discharger now st =
     (case sm_sv_discharger_process now (pms_discharger st, pms_sys st) of Inl f \<Rightarrow> Inl f
      | Inr (r, (dis, sys), out) \<Rightarrow>
          (case dispatch_calls (calls_of out) (st\<lparr>pms_discharger := dis, pms_sys := sys\<rparr>) of
             (st, out') \<Rightarrow> Inr (st, events_of out @ out')))"

definition sm_sv_pms_process :: "int \<Rightarrow> sm_sv_pms \<Rightarrow> fault + (int \<times> sm_sv_pms \<times> sv_pms_out list)" where
  "sm_sv_pms_process now st =
     map_sum id (\<lambda>(st, out). (sm_sv_charger_is_err (pms_charger st), st, out))
       (and_then (run_est now st) (\<lambda>st. and_then (run_ctl now st)
         (\<lambda>st. and_then (run_charger now st)
           (\<lambda>st. if pms_mode st = PMS_DISCHARGER then run_discharger now st else Inr (st, [])))))"

section \<open>The service as a machine\<close>

text \<open>
  Its own step, everything the controller's clients and the battery service can do, and the
  operations of charger and discharger that others call.
\<close>

datatype sv_pms_event = Pms_Process int | Ctl_Event "(off_cb, sw_cb) pms_event" | Set_Volt int
  | Force_Charge u8 "nat option" | Release_Charge | Enable_Port int u8 u8
  | Force_Discharge u8 "nat option" | Release_Discharge | Pause_Discharge int | Resume_Discharge | Sw_State bool

fun sv_pms_step :: "sm_sv_pms \<Rightarrow> sv_pms_event \<Rightarrow> sv_pms_result" where
  "sv_pms_step st (Pms_Process now) = map_sum id snd (sm_sv_pms_process now st)"
| "sv_pms_step st (Ctl_Event e) =
     (case pms_step (pms_sys st) e of Inl f \<Rightarrow> Inl f | Inr (sys, cs) \<Rightarrow> Inr (dispatch_calls cs (st\<lparr>pms_sys := sys\<rparr>)))"
| "sv_pms_step st (Set_Volt v) = Inr (st\<lparr>pms_charger := sm_sv_charger_set_volt v (pms_charger st)\<rparr>, [])"
| "sv_pms_step st (Force_Charge bp cb) =
     (case sm_sv_charger_force_bp bp cb (pms_charger st, pms_sys st) of Inl f \<Rightarrow> Inl f
      | Inr (r, (chg, sys), out) \<Rightarrow> Inr (pass_charger out (st\<lparr>pms_charger := chg, pms_sys := sys\<rparr>)))"
| "sv_pms_step st Release_Charge = Inr (st\<lparr>pms_charger := snd (sm_sv_charger_release_bp (pms_charger st))\<rparr>, [])"
| "sv_pms_step st (Enable_Port now port en) =
     (case sm_sv_charger_enable_port now port en (pms_charger st, pms_sys st) of Inl f \<Rightarrow> Inl f
      | Inr (r, (chg, sys), out) \<Rightarrow> Inr (pass_charger out (st\<lparr>pms_charger := chg, pms_sys := sys\<rparr>)))"
| "sv_pms_step st (Force_Discharge bp cb) =
     (case sm_sv_discharger_force_bp bp cb (pms_discharger st, pms_sys st) of Inl f \<Rightarrow> Inl f
      | Inr (r, (dis, sys), out) \<Rightarrow> Inr (st\<lparr>pms_discharger := dis, pms_sys := sys\<rparr>, pass_discharger out))"
| "sv_pms_step st Release_Discharge =
     Inr (st\<lparr>pms_discharger := snd (sm_sv_discharger_release_bp (pms_discharger st))\<rparr>, [])"
| "sv_pms_step st (Pause_Discharge now) =
     (case sm_sv_discharger_pause now (pms_discharger st, pms_sys st) of Inl f \<Rightarrow> Inl f
      | Inr ((dis, sys), out) \<Rightarrow>
          (case dispatch_calls (calls_of out) (st\<lparr>pms_discharger := dis, pms_sys := sys\<rparr>) of
             (st, out') \<Rightarrow> Inr (st, events_of out @ out')))"
| "sv_pms_step st Resume_Discharge = Inr (st\<lparr>pms_discharger := sm_sv_discharger_resume (pms_discharger st)\<rparr>, [])"
| "sv_pms_step st (Sw_State b) = Inr (st\<lparr>pms_discharger := sm_sv_discharger_set_sw_state b (pms_discharger st)\<rparr>, [])"

definition sv_pms_run :: "sv_pms_event list \<Rightarrow> sm_sv_pms \<Rightarrow> sv_pms_result" where
  "sv_pms_run = run_all (\<lambda>e st. sv_pms_step st e)"

end
