(* ===== verification/Charger_Laws.thy ===== *)
theory Charger_Laws
  imports Sv_Pms
begin

text \<open>
  What charger and discharger promise: which pack they ask the controller for, what they report,
  and when they fault.
\<close>

section \<open>The packs as the two see them\<close>

definition pack_vol :: "int \<Rightarrow> 'c sm_sv_bp \<Rightarrow> int" where
  "pack_vol k sv = bp_vol (m_data (sv_bps sv ! nat k))"

definition pack_cur :: "int \<Rightarrow> 'c sm_sv_bp \<Rightarrow> int" where
  "pack_cur k sv = bp_cur (m_data (sv_bps sv ! nat k))"

lemma sv3_connected_data [pms_simps]:
  "sv3 sv \<Longrightarrow> 0 \<le> k \<Longrightarrow> k < 3 \<Longrightarrow>
     connected_data k sv = Inr (if pack_connected k sv then Some (m_data (sv_bps sv ! nat k)) else None)"
  by (simp add: connected_data_def sv3_connected sv3_get_data)

lemma sv3_vol:
  assumes "sv3 sv" "0 \<le> k" "k < 3"
  shows "0 \<le> pack_vol k sv"
proof -
  have "bp_ok (nat k) (sv_bps sv ! nat k)"
    using assms by (intro bps_ok_nth) (simp_all add: sv3_def sv_ok_def)
  then show ?thesis by (auto simp: pack_vol_def bp_ok_def bp_data_ok_def bp_measured_def)
qed

lemma sum_packs_spec:
  assumes "sv3 sv" "\<forall>k \<in> set ks. 0 \<le> k \<and> k < 3"
  shows "sum_packs f sv ks n =
    Inr (n + sum_list (map (\<lambda>k. if pack_connected k sv then f (m_data (sv_bps sv ! nat k)) else 0) ks))"
  using assms(2) by (induction ks arbitrary: n) (auto simp: pms_simps assms(1))

section \<open>Which pack the charger picks\<close>

definition chargeable :: "charger \<Rightarrow> 'c sm_sv_bp \<Rightarrow> int \<Rightarrow> bool" where
  "chargeable chg sv k \<longleftrightarrow> chg_port_enable chg ! nat k \<noteq> 0 \<and> pack_connected k sv \<and> pack_state k sv = BP_STATE_STANDBY"

definition charging_ref :: "charger \<Rightarrow> 'c sm_sv_bp \<Rightarrow> int \<Rightarrow> bool" where
  "charging_ref chg sv k \<longleftrightarrow> chg_port_enable chg ! nat k \<noteq> 0 \<and> pack_connected k sv \<and> running (pack_state k sv)
     \<and> 0 < pack_vol k sv"

fun scan_step :: "charger \<Rightarrow> 'c sm_sv_bp \<Rightarrow> int \<Rightarrow> int \<times> int \<times> int \<Rightarrow> int \<times> int \<times> int" where
  "scan_step chg sv k (vc, vol, nx) =
     (if vc \<le> 0 \<and> charging_ref chg sv k then pack_vol k sv else vc,
      if chargeable chg sv k \<and> (vol \<le> 0 \<or> vol > pack_vol k sv) then pack_vol k sv else vol,
      if chargeable chg sv k \<and> (vol \<le> 0 \<or> vol > pack_vol k sv) then k else nx)"

lemma charger_scan_fold:
  assumes "sv3 sv" "\<forall>k \<in> set ks. 0 \<le> k \<and> k < 3" "0 \<le> fst acc"
  shows "charger_scan chg sv ks acc = Inr (fold (scan_step chg sv) ks acc)"
  using assms(2,3)
proof (induction ks arbitrary: acc)
  case (Cons k ks)
  obtain vc vol nx where a: "acc = (vc, vol, nx)" by (cases acc) auto
  have k: "0 \<le> k" "k < 3" "0 \<le> pack_vol k sv" using Cons.prems sv3_vol [OF assms(1)] by auto
  have "0 \<le> fst (scan_step chg sv k acc)" using Cons.prems(2) k(3) by (simp add: a)
  with Cons.IH [OF _ this] Cons.prems(1)
  have "charger_scan chg sv ks (scan_step chg sv k acc) = Inr (fold (scan_step chg sv) (k # ks) acc)" by simp
  moreover have "charger_scan chg sv (k # ks) acc = charger_scan chg sv ks (scan_step chg sv k acc)"
    using k Cons.prems(2)
    by (auto simp: a pms_simps assms(1) chargeable_def charging_ref_def pack_state_def pack_vol_def Let_def)
  ultimately show ?case by simp
qed simp

lemma charger_fold_spec:
  assumes "\<forall>k \<in> set ks. chargeable chg sv k \<longrightarrow> 0 < pack_vol k sv"
    and "fold (scan_step chg sv) ks (0, 0, -1) = (vc, vol, nx)"
  shows "vc = (case find (charging_ref chg sv) ks of None \<Rightarrow> 0 | Some k \<Rightarrow> pack_vol k sv)"
    and "if filter (chargeable chg sv) ks = [] then nx = -1 \<and> vol = 0
         else nx \<in> set (filter (chargeable chg sv) ks) \<and> vol = pack_vol nx sv
              \<and> (\<forall>j \<in> set (filter (chargeable chg sv) ks). vol \<le> pack_vol j sv)"
proof -
  have "vc = (case find (charging_ref chg sv) ks of None \<Rightarrow> 0 | Some k \<Rightarrow> pack_vol k sv)
    \<and> (if filter (chargeable chg sv) ks = [] then nx = -1 \<and> vol = 0
         else nx \<in> set (filter (chargeable chg sv) ks) \<and> vol = pack_vol nx sv
              \<and> (\<forall>j \<in> set (filter (chargeable chg sv) ks). vol \<le> pack_vol j sv))"
    using assms
  proof (induction ks arbitrary: vc vol nx rule: rev_induct)
    case (snoc k ks)
    obtain vc0 vol0 nx0 where f: "fold (scan_step chg sv) ks (0, 0, -1) = (vc0, vol0, nx0)" by (metis prod_cases3)
    have ih: "vc0 = (case find (charging_ref chg sv) ks of None \<Rightarrow> 0 | Some k \<Rightarrow> pack_vol k sv)"
      "if filter (chargeable chg sv) ks = [] then nx0 = -1 \<and> vol0 = 0
         else nx0 \<in> set (filter (chargeable chg sv) ks) \<and> vol0 = pack_vol nx0 sv
              \<and> (\<forall>j \<in> set (filter (chargeable chg sv) ks). vol0 \<le> pack_vol j sv)"
      using snoc.IH [OF _ f] snoc.prems(1) by auto
    have "0 < pack_vol j sv" if "find (charging_ref chg sv) ks = Some j" for j
      using that by (auto simp: find_Some_iff charging_ref_def)
    then have pos: "vc0 \<le> 0 \<longleftrightarrow> find (charging_ref chg sv) ks = None"
      unfolding ih(1) by (cases "find (charging_ref chg sv) ks") (simp_all add: not_le)
    have step: "scan_step chg sv k (vc0, vol0, nx0) = (vc, vol, nx)" using snoc.prems(2) f by simp
    have find: "find (charging_ref chg sv) (ks @ [k]) =
        (case find (charging_ref chg sv) ks of None \<Rightarrow> if charging_ref chg sv k then Some k else None | Some j \<Rightarrow> Some j)"
      by (induction ks) auto
    have "vc = (case find (charging_ref chg sv) (ks @ [k]) of None \<Rightarrow> 0 | Some k \<Rightarrow> pack_vol k sv)"
      using step pos ih(1) by (auto simp: find split: option.splits if_splits)
    moreover have "if filter (chargeable chg sv) (ks @ [k]) = [] then nx = -1 \<and> vol = 0
         else nx \<in> set (filter (chargeable chg sv) (ks @ [k])) \<and> vol = pack_vol nx sv
              \<and> (\<forall>j \<in> set (filter (chargeable chg sv) (ks @ [k])). vol \<le> pack_vol j sv)"
      using step ih(2) snoc.prems(1) by (auto simp: filter_empty_conv split: if_splits)
    ultimately show ?case by blast
  qed simp
  then show "vc = (case find (charging_ref chg sv) ks of None \<Rightarrow> 0 | Some k \<Rightarrow> pack_vol k sv)"
    "if filter (chargeable chg sv) ks = [] then nx = -1 \<and> vol = 0
         else nx \<in> set (filter (chargeable chg sv) ks) \<and> vol = pack_vol nx sv
              \<and> (\<forall>j \<in> set (filter (chargeable chg sv) ks). vol \<le> pack_vol j sv)" by blast+
qed

text \<open>The controller has taken over the request: target state, command, pack and callback.\<close>

definition ctl_asked :: "SM_PMS_ST \<Rightarrow> SM_BP_CMD \<Rightarrow> int \<Rightarrow> sw_cb \<Rightarrow> ctl_sys \<Rightarrow> ctl_sys \<Rightarrow> bool" where
  "ctl_asked st cmd k cb sys sys' \<longleftrightarrow> ctl_state (fst sys') = st \<and> ctl_cmd (fst sys') = cmd \<and> ctl_next_bp (fst sys') = k
     \<and> ctl_cb (fst sys') = Some cb \<and> snd sys' = snd sys"

lemma start_asked:
  assumes "pms_ok sys" "target = SM_PMS_ST_PRE_SWITCH \<or> target = SM_PMS_ST_MERGE" "0 \<le> k" "k < 3"
    and "startable (word_of_int k) cmd sys"
  shows "\<exists>sys'. pms_start target now (word_of_int k) cmd (Some cb) sys = Inr (0, sys', [])
     \<and> ctl_asked target cmd k cb sys sys'"
proof -
  obtain ctl sv where s: "sys = (ctl, sv)" by fastforce
  have ok: "sv3 sv" using assms(1) by (simp add: s pms_ok_def)
  have u: "uint (word_of_int k :: u8) = k" using assms(3,4) by (simp add: uint_word_of_int)
  show ?thesis
    using assms(5) by (simp add: s start_spec [OF ok assms(2)] startable_def u ctl_asked_def del: find.simps)
qed

lemma startable_standby:
  assumes "0 \<le> k" "k < 3" "pack_connected k (snd sys)" "pack_state k (snd sys) = BP_STATE_STANDBY"
    and "ctl_cmd (fst sys) = BP_CMD_NUMBER" "cmd \<in> {BP_CMD_DISCHARGE, BP_CMD_CHARGE}"
  shows "startable (word_of_int k) cmd sys"
proof -
  have u: "uint (word_of_int k :: u8) = k" using assms(1,2) by (simp add: uint_word_of_int)
  then show ?thesis using assms by (auto simp: startable_def reached_def)
qed

lemma chg_request_asked:
  assumes "f sys = Inr (0, sys', [])"
  shows "chg_request f (chg, sys) = Inr (0, (chg\<lparr>chg_in_process := True\<rparr>, sys'), [])"
  using assms by (simp add: chg_request_def chg_call_def)

text \<open>C26. With a free controller, the charger asks for the enabled, connected pack in
  standby with the lowest voltage, and waits: a merge when no enabled pack runs or the first running one
  is within the voltage difference, a switch when that one is higher by more, nothing else.\<close>

theorem charger_picks_lowest:
  assumes "pms_ok sys" "\<not> chg_in_process chg" "ctl_cmd (fst sys) = BP_CMD_NUMBER"
    and "\<forall>k \<in> {0, 1, 2}. chargeable chg (snd sys) k \<longrightarrow> 0 < pack_vol k (snd sys)"
  defines "E \<equiv> set (filter (chargeable chg (snd sys)) pack_indices)"
    and "vol \<equiv> \<lambda>k. pack_vol k (snd sys)" and "diff \<equiv> cfg_min_volt_diff (chg_config chg)"
    and "busy \<equiv> chg\<lparr>chg_in_process := True\<rparr>"
  shows "\<exists>r chg' sys'. charger_check_switch_merge_condition now (chg, sys) = Inr (r, (chg', sys'), [])
    \<and> (if E = {} then r = -1 \<and> sys' = sys \<and> chg' = chg
       else \<exists>k \<in> E. (\<forall>j \<in> E. vol k \<le> vol j) \<and>
         (case find (charging_ref chg (snd sys)) pack_indices of
            None \<Rightarrow> chg' = busy \<and> ctl_asked SM_PMS_ST_MERGE BP_CMD_CHARGE k Charger_Switched sys sys'
          | Some c \<Rightarrow>
              if \<bar>vol c - vol k\<bar> < diff
              then chg' = busy \<and> ctl_asked SM_PMS_ST_MERGE BP_CMD_CHARGE k Charger_Switched sys sys'
              else if vol c - vol k > diff
              then chg' = busy \<and> ctl_asked SM_PMS_ST_PRE_SWITCH BP_CMD_CHARGE k Charger_Switched sys sys'
              else r = -1 \<and> sys' = sys \<and> chg' = chg))"
proof -
  have sv: "sv3 (snd sys)" using assms(1) by (simp add: pms_ok_def)
  obtain vc v nx where f: "fold (scan_step chg (snd sys)) pack_indices (0, 0, -1) = (vc, v, nx)" by (metis prod_cases3)
  have scan: "charger_scan chg (snd sys) pack_indices (0, 0, -1) = Inr (vc, v, nx)"
    using charger_scan_fold [OF sv, of pack_indices "(0, 0, -1)" chg] unfolding f by simp
  have "\<forall>k \<in> set pack_indices. chargeable chg (snd sys) k \<longrightarrow> 0 < pack_vol k (snd sys)" using assms(4) by simp
  note spec = charger_fold_spec [OF this f]
  have idx: "0 \<le> k \<and> k < 3" if "k \<in> E" for k using that unfolding E_def set_filter by auto
  show ?thesis
  proof (cases "E = {}")
    case True
    then have "nx = -1" using spec(2) unfolding E_def by (simp only: set_empty if_True)
    then show ?thesis
      using assms(2) True by (simp add: charger_check_switch_merge_condition_def scan del: charger_scan.simps)
  next
    case False
    then have F: "filter (chargeable chg (snd sys)) pack_indices \<noteq> []" by (simp only: E_def set_empty) simp
    from spec(2) have "nx \<in> E \<and> v = vol nx \<and> (\<forall>j \<in> E. v \<le> vol j)"
      unfolding if_not_P [OF F] E_def vol_def .
    then have nx: "nx \<in> E" "v = vol nx" "\<forall>j \<in> E. vol nx \<le> vol j" by auto
    have st: "startable (word_of_int nx) BP_CMD_CHARGE sys"
      using nx(1) idx [OF nx(1)] assms(3) unfolding E_def set_filter by (intro startable_standby) (auto simp: chargeable_def)
    have nn: "nx \<noteq> -1" using idx [OF nx(1)] by auto
    obtain s1 where m: "sm_pms_ctl_merge now (word_of_int nx) BP_CMD_CHARGE (Some Charger_Switched) sys = Inr (0, s1, [])"
      "ctl_asked SM_PMS_ST_MERGE BP_CMD_CHARGE nx Charger_Switched sys s1"
      using start_asked [OF assms(1) _ _ _ st] idx [OF nx(1)] unfolding sm_pms_ctl_merge_def by blast
    obtain s2 where w: "sm_pms_ctl_switch now (word_of_int nx) BP_CMD_CHARGE (Some Charger_Switched) sys = Inr (0, s2, [])"
      "ctl_asked SM_PMS_ST_PRE_SWITCH BP_CMD_CHARGE nx Charger_Switched sys s2"
      using start_asked [OF assms(1) _ _ _ st] idx [OF nx(1)] unfolding sm_pms_ctl_switch_def by blast
    have pos: "0 < vol c" if "find (charging_ref chg (snd sys)) pack_indices = Some c" for c
      using that unfolding find_Some_iff vol_def charging_ref_def by blast
    note eval = charger_check_switch_merge_condition_def scan
      chg_request_asked [of "sm_pms_ctl_merge now (word_of_int nx) BP_CMD_CHARGE (Some Charger_Switched)", OF m(1)]
      chg_request_asked [of "sm_pms_ctl_switch now (word_of_int nx) BP_CMD_CHARGE (Some Charger_Switched)", OF w(1)]
    show ?thesis
    proof (cases "find (charging_ref chg (snd sys)) pack_indices")
      case None
      then have "vc = 0" using spec(1) by simp
      then show ?thesis
        using assms(2) nn nx m(2) False None unfolding busy_def
        by (intro exI [of _ 0] exI [of _ busy] exI [of _ s1]) (auto simp: eval busy_def simp del: charger_scan.simps find.simps)
    next
      case (Some c)
      then have vc: "vc = vol c" "0 < vc" using spec(1) pos by (simp_all add: vol_def)
      have ne: "\<not> vc \<le> 0" using vc(2) by simp
      have best: "nx \<in> E \<and> (\<forall>j \<in> E. vol nx \<le> vol j)" using nx by blast
      note run = eval assms(2) nn ne vc(1) [symmetric] nx(2) [symmetric] diff_def [symmetric]
      consider (near) "\<bar>vol c - vol nx\<bar> < diff" | (far) "\<not> \<bar>vol c - vol nx\<bar> < diff" "diff < vol c - vol nx"
        | (none) "\<not> \<bar>vol c - vol nx\<bar> < diff" "\<not> diff < vol c - vol nx" by blast
      then have "\<exists>r chg' sys'. charger_check_switch_merge_condition now (chg, sys) = Inr (r, (chg', sys'), []) \<and>
          (if \<bar>vol c - vol nx\<bar> < diff then chg' = busy \<and> ctl_asked SM_PMS_ST_MERGE BP_CMD_CHARGE nx Charger_Switched sys sys'
           else if vol c - vol nx > diff then chg' = busy \<and> ctl_asked SM_PMS_ST_PRE_SWITCH BP_CMD_CHARGE nx Charger_Switched sys sys'
           else r = -1 \<and> sys' = sys \<and> chg' = chg)"
        using m(2) w(2) by cases (simp_all add: run busy_def del: charger_scan.simps)
      then show ?thesis using False best unfolding Some option.case if_not_P [OF False] by blast
    qed
  qed
qed

section \<open>Which pack the discharger picks\<close>

definition dischargeable :: "'c sm_sv_bp \<Rightarrow> int \<Rightarrow> bool" where
  "dischargeable sv k \<longleftrightarrow> pack_connected k sv \<and> pack_state k sv = BP_STATE_STANDBY \<and> 0 < pack_vol k sv"

definition discharging_ref :: "'c sm_sv_bp \<Rightarrow> int \<Rightarrow> bool" where
  "discharging_ref sv k \<longleftrightarrow> pack_connected k sv \<and> running (pack_state k sv)"

definition load_cur :: "int list \<Rightarrow> 'c sm_sv_bp \<Rightarrow> int" where
  "load_cur ks sv = sum_list (map (\<lambda>k. if pack_connected k sv then pack_cur k sv else 0) ks)"

lemma load_cur_simps [simp]:
  "load_cur [] sv = 0" "load_cur (ks @ [k]) sv = load_cur ks sv + (if pack_connected k sv then pack_cur k sv else 0)"
  by (simp_all add: load_cur_def)

fun dscan_step :: "'c sm_sv_bp \<Rightarrow> int \<Rightarrow> int \<times> int \<times> int \<times> int \<Rightarrow> int \<times> int \<times> int \<times> int" where
  "dscan_step sv k (vol, nx, vd, cur) =
     (if dischargeable sv k \<and> vol < pack_vol k sv then pack_vol k sv else vol,
      if dischargeable sv k \<and> vol < pack_vol k sv then k else nx,
      if discharging_ref sv k then pack_vol k sv else vd,
      cur + (if pack_connected k sv then pack_cur k sv else 0))"

lemma discharger_scan_fold:
  assumes "sv3 sv" "\<forall>k \<in> set ks. 0 \<le> k \<and> k < 3" "0 \<le> fst acc"
  shows "discharger_scan sv ks acc = Inr (fold (dscan_step sv) ks acc)"
  using assms(2,3)
proof (induction ks arbitrary: acc)
  case (Cons k ks)
  obtain vol nx vd cur where a: "acc = (vol, nx, vd, cur)" by (cases acc) auto
  have k: "0 \<le> k" "k < 3" using Cons.prems by auto
  have "0 \<le> fst (dscan_step sv k acc)" using Cons.prems(2) by (simp add: a dischargeable_def)
  with Cons.IH [OF _ this] Cons.prems(1)
  have "discharger_scan sv ks (dscan_step sv k acc) = Inr (fold (dscan_step sv) (k # ks) acc)" by simp
  moreover have "discharger_scan sv (k # ks) acc = discharger_scan sv ks (dscan_step sv k acc)"
    using k Cons.prems(2)
    by (auto simp: a pms_simps assms(1) dischargeable_def discharging_ref_def pack_state_def pack_vol_def pack_cur_def Let_def)
  ultimately show ?case by simp
qed simp

lemma discharger_fold_spec:
  assumes "fold (dscan_step sv) ks (0, -1, 0, 0) = (vol, nx, vd, cur)"
  shows "if filter (dischargeable sv) ks = [] then nx = -1 \<and> vol = 0
         else nx \<in> set (filter (dischargeable sv) ks) \<and> vol = pack_vol nx sv
              \<and> (\<forall>j \<in> set (filter (dischargeable sv) ks). pack_vol j sv \<le> vol)" (is "?A ks nx vol")
    and "vd = (case find (discharging_ref sv) (rev ks) of None \<Rightarrow> 0 | Some k \<Rightarrow> pack_vol k sv)" (is "?B ks vd")
    and "cur = load_cur ks sv"
proof -
  have "?A ks nx vol \<and> ?B ks vd \<and> cur = load_cur ks sv"
    using assms
  proof (induction ks arbitrary: vol nx vd cur rule: rev_induct)
    case (snoc k ks)
    obtain vol0 nx0 vd0 cur0 where f: "fold (dscan_step sv) ks (0, -1, 0, 0) = (vol0, nx0, vd0, cur0)"
      by (metis prod_cases4)
    have ih: "?A ks nx0 vol0" "?B ks vd0" "cur0 = load_cur ks sv" using snoc.IH [OF f] by blast+
    have step: "dscan_step sv k (vol0, nx0, vd0, cur0) = (vol, nx, vd, cur)" using snoc.prems f by simp
    have pos: "0 < pack_vol j sv" if "dischargeable sv j" for j using that by (simp add: dischargeable_def)
    have "?A (ks @ [k]) nx vol" using step ih(1) pos by (auto simp: filter_empty_conv split: if_splits)
    moreover have "?B (ks @ [k]) vd" using step ih(2) by (auto split: if_splits)
    moreover have "cur = load_cur (ks @ [k]) sv" using step ih(3) by auto
    ultimately show ?case by blast
  qed simp
  then show "?A ks nx vol" "?B ks vd" "cur = load_cur ks sv" by blast+
qed

lemma dis_request_asked:
  assumes "f sys = Inr (0, sys', [])"
  shows "dis_request f (dis, sys) = Inr (0, (dis\<lparr>dis_in_process := True\<rparr>, sys'), [])"
  using assms by (simp add: dis_request_def dis_call_def)

text \<open> With a free controller, the discharger asks for the connected pack in
  standby with the highest voltage: a merge when that is within the voltage difference of the last
  pack that runs, a switch when it is higher by more, the load is small and switching is not paused, nothing else.\<close>

theorem discharger_picks_highest:
  assumes "pms_ok sys" "\<not> dis_in_process dis" "ctl_cmd (fst sys) = BP_CMD_NUMBER"
  defines "E \<equiv> set (filter (dischargeable (snd sys)) pack_indices)"
    and "vol \<equiv> \<lambda>k. pack_vol k (snd sys)"
    and "vd \<equiv> (case find (discharging_ref (snd sys)) (rev pack_indices) of None \<Rightarrow> 0 | Some k \<Rightarrow> pack_vol k (snd sys))"
    and "busy \<equiv> dis\<lparr>dis_in_process := True\<rparr>"
  shows "\<exists>r dis' sys'. discharger_check_switch_merge_condition now (dis, sys) = Inr (r, (dis', sys'), [])
    \<and> (if E = {} then r = -1 \<and> sys' = sys \<and> dis' = dis
       else \<exists>k \<in> E. (\<forall>j \<in> E. vol j \<le> vol k) \<and>
         (if \<bar>vol k - vd\<bar> < dis_min_volt_diff dis
          then dis' = busy \<and> ctl_asked SM_PMS_ST_MERGE BP_CMD_DISCHARGE k Discharger_Switched sys sys'
          else if vol k - vd > dis_min_volt_diff dis \<and> \<bar>load_cur pack_indices (snd sys)\<bar> < dis_min_dischar_cur dis
                  \<and> \<not> dis_paused_sw dis
          then dis' = busy \<and> ctl_asked SM_PMS_ST_PRE_SWITCH BP_CMD_DISCHARGE k Discharger_Switched sys sys'
          else r = -1 \<and> sys' = sys \<and> dis' = dis))"
proof -
  have sv: "sv3 (snd sys)" using assms(1) by (simp add: pms_ok_def)
  obtain v nx vr cur where f: "fold (dscan_step (snd sys)) pack_indices (0, -1, 0, 0) = (v, nx, vr, cur)"
    by (metis prod_cases4)
  have scan: "discharger_scan (snd sys) pack_indices (0, -1, 0, 0) = Inr (v, nx, vr, cur)"
    using discharger_scan_fold [OF sv, of pack_indices "(0, -1, 0, 0)"] unfolding f by simp
  note spec = discharger_fold_spec [OF f]
  have vr: "vr = vd" using spec(2) by (simp only: vd_def)
  have idx: "0 \<le> k \<and> k < 3" if "k \<in> E" for k using that unfolding E_def set_filter by auto
  show ?thesis
  proof (cases "E = {}")
    case True
    then have "nx = -1" using spec(1) unfolding E_def by (simp only: set_empty if_True)
    then show ?thesis
      using assms(2) True by (simp add: discharger_check_switch_merge_condition_def scan del: discharger_scan.simps)
  next
    case False
    then have F: "filter (dischargeable (snd sys)) pack_indices \<noteq> []" by (simp only: E_def set_empty) simp
    from spec(1) have "nx \<in> E \<and> v = vol nx \<and> (\<forall>j \<in> E. vol j \<le> v)"
      unfolding if_not_P [OF F] E_def vol_def .
    then have nx: "nx \<in> E" "v = vol nx" and best: "nx \<in> E \<and> (\<forall>j \<in> E. vol j \<le> vol nx)" by auto
    have st: "startable (word_of_int nx) BP_CMD_DISCHARGE sys"
      using nx(1) idx [OF nx(1)] assms(3) unfolding E_def set_filter by (intro startable_standby) (auto simp: dischargeable_def)
    have nn: "nx \<noteq> -1" using idx [OF nx(1)] by auto
    obtain s1 where m: "sm_pms_ctl_merge now (word_of_int nx) BP_CMD_DISCHARGE (Some Discharger_Switched) sys = Inr (0, s1, [])"
      "ctl_asked SM_PMS_ST_MERGE BP_CMD_DISCHARGE nx Discharger_Switched sys s1"
      using start_asked [OF assms(1) _ _ _ st] idx [OF nx(1)] unfolding sm_pms_ctl_merge_def by blast
    obtain s2 where w: "sm_pms_ctl_switch now (word_of_int nx) BP_CMD_DISCHARGE (Some Discharger_Switched) sys = Inr (0, s2, [])"
      "ctl_asked SM_PMS_ST_PRE_SWITCH BP_CMD_DISCHARGE nx Discharger_Switched sys s2"
      using start_asked [OF assms(1) _ _ _ st] idx [OF nx(1)] unfolding sm_pms_ctl_switch_def by blast
    note eval = discharger_check_switch_merge_condition_def scan
      dis_request_asked [of "sm_pms_ctl_merge now (word_of_int nx) BP_CMD_DISCHARGE (Some Discharger_Switched)", OF m(1)]
      dis_request_asked [of "sm_pms_ctl_switch now (word_of_int nx) BP_CMD_DISCHARGE (Some Discharger_Switched)", OF w(1)]
    have "\<exists>r dis' sys'. discharger_check_switch_merge_condition now (dis, sys) = Inr (r, (dis', sys'), []) \<and>
        (if \<bar>vol nx - vd\<bar> < dis_min_volt_diff dis
         then dis' = busy \<and> ctl_asked SM_PMS_ST_MERGE BP_CMD_DISCHARGE nx Discharger_Switched sys sys'
         else if vol nx - vd > dis_min_volt_diff dis \<and> \<bar>load_cur pack_indices (snd sys)\<bar> < dis_min_dischar_cur dis
                  \<and> \<not> dis_paused_sw dis
         then dis' = busy \<and> ctl_asked SM_PMS_ST_PRE_SWITCH BP_CMD_DISCHARGE nx Discharger_Switched sys sys'
         else r = -1 \<and> sys' = sys \<and> dis' = dis)"
      using m(2) w(2) assms(2) nn by (auto simp: eval busy_def nx(2) vr spec(3) simp del: discharger_scan.simps split_paired_Ex)
    then show ?thesis using best unfolding if_not_P [OF False] by blast
  qed
qed

text \<open> A forced discharge of pack 0 is accepted, but the periodic step tests
  the forced index with \<open>>\<close> instead of \<open>\<ge>\<close>: it goes on choosing packs as if nothing was forced.\<close>

theorem discharger_ignores_pack_0:
  assumes "sm_sv_discharger_force_bp 0 cb (dis, sys) = Inr (0, (dis', sys'), out)"
  shows "dis_forced_bp dis' = 0 \<and>
    sm_sv_discharger_process now (dis', sys') =
      (case discharger_check_switch_merge_condition now (dis', sys') of Inl f \<Rightarrow> Inl f
       | Inr (_, s, out) \<Rightarrow> (case sm_sv_get_discharger_bp_num s of Inl f \<Rightarrow> Inl f | Inr (n, s) \<Rightarrow> Inr (n, s, out)))"
proof -
  have "dis_forced_bp dis' = 0 \<and> \<not> dis_paused dis'"
    using assms by (auto simp: sm_sv_discharger_force_bp_def split: if_splits sum.splits option.splits)
  then show ?thesis by (simp add: sm_sv_discharger_process_def)
qed

section \<open>Examples\<close>

text \<open>Three connected packs in standby, at 52, 48 and 50 volts, and a free controller.\<close>

definition pick_bps :: "sm_bp list" where
  "pick_bps = map (\<lambda>i. (bp_default i)\<lparr>m_is_connected := True,
     m_data := bp_data_zero\<lparr>bp_vol := [52000, 48000, 50000] ! i, bp_state := BP_STATE_STANDBY\<rparr>\<rparr>) [0, 1, 2]"

definition pick_sys :: ctl_sys where
  "pick_sys = (g_pms_ctl_default, sv_sample\<lparr>sv_bps := pick_bps\<rparr>)"

lemma pick_ok: "pms_ok pick_sys"
proof -
  let ?sv = "sv_sample :: off_cb bp_client sm_sv_bp"
  have all: "P 0 \<Longrightarrow> P 1 \<Longrightarrow> P 2 \<Longrightarrow> i < 3 \<Longrightarrow> P i" for P and i :: nat
    by (auto simp: less_Suc_eq numeral_3_eq_3 numeral_2_eq_2)
  have "bps_ok pick_bps"
    unfolding bps_ok_def by (intro conjI allI impI, simp add: pick_bps_def, rule all)
      (simp_all add: pick_bps_def bp_ok_def bp_default_def bp_data_ok_def bp_data_zero_def bp_measured_def)
  moreover have "sv_ok ?sv" by (rule sv_sample_ok)
  ultimately have "sv_ok (?sv\<lparr>sv_bps := pick_bps\<rparr>)"
    using opt_auth_ok_bps [of "sv_auth ?sv" "sv_bps ?sv" "sv_co ?sv" pick_bps] by (simp add: sv_ok_def)
  then show ?thesis
    by (simp add: pick_sys_def pms_ok_def sv3_def numb_is_def pctl_ok_def g_pms_ctl_default_def) (simp add: sv_sample_def)
qed

lemma pick_values:
  "ctl_cmd (fst pick_sys) = BP_CMD_NUMBER"
  "pack_vol 0 (snd pick_sys) = 52000" "pack_vol 1 (snd pick_sys) = 48000" "pack_vol 2 (snd pick_sys) = 50000"
  "pack_cur 0 (snd pick_sys) = 0" "pack_cur 1 (snd pick_sys) = 0" "pack_cur 2 (snd pick_sys) = 0"
  "pack_connected 0 (snd pick_sys)" "pack_connected 1 (snd pick_sys)" "pack_connected 2 (snd pick_sys)"
  "pack_state 0 (snd pick_sys) = BP_STATE_STANDBY" "pack_state 1 (snd pick_sys) = BP_STATE_STANDBY"
  "pack_state 2 (snd pick_sys) = BP_STATE_STANDBY"
  by (simp_all add: pick_sys_def pick_bps_def pack_vol_def pack_cur_def pack_connected_def pack_state_def g_pms_ctl_default_def
      bp_default_def bp_data_zero_def)

lemma charger_picks_lowest_witness:
  "\<exists>r chg' sys'. charger_check_switch_merge_condition 7 (g_charger_default, pick_sys) = Inr (r, (chg', sys'), [])
     \<and> ctl_asked SM_PMS_ST_MERGE BP_CMD_CHARGE 1 Charger_Switched pick_sys sys'"
proof -
  have c: "chargeable g_charger_default (snd pick_sys) k" "\<not> charging_ref g_charger_default (snd pick_sys) k"
    if "k \<in> {0, 1, 2}" for k
    using that by (auto simp: chargeable_def charging_ref_def pick_values g_charger_default_def)
  have p: "\<not> chg_in_process g_charger_default" by (simp add: g_charger_default_def)
  have a: "\<forall>k \<in> {0, 1, 2}. chargeable g_charger_default (snd pick_sys) k \<longrightarrow> 0 < pack_vol k (snd pick_sys)"
    by (simp add: pick_values)
  show ?thesis
    using charger_picks_lowest [OF pick_ok p pick_values(1) a, of 7] by (auto simp: c pick_values)
qed

lemma discharger_picks_highest_witness:
  "\<exists>r dis' sys'. discharger_check_switch_merge_condition 7 (g_discharger, pick_sys) = Inr (r, (dis', sys'), [])
     \<and> ctl_asked SM_PMS_ST_PRE_SWITCH BP_CMD_DISCHARGE 0 Discharger_Switched pick_sys sys'"
proof -
  have c: "dischargeable (snd pick_sys) k" "\<not> discharging_ref (snd pick_sys) k" if "k \<in> {0, 1, 2}" for k
    using that by (auto simp: dischargeable_def discharging_ref_def pick_values)
  have p: "\<not> dis_in_process g_discharger" "dis_min_volt_diff g_discharger = 2000" "dis_min_dischar_cur g_discharger = 5000"
    "\<not> dis_paused_sw g_discharger" by (simp_all add: g_discharger_def)
  show ?thesis
    using discharger_picks_highest [OF pick_ok p(1) pick_values(1), of 7]
    by (auto simp: c p pick_values load_cur_def)
qed

lemma discharger_ignores_pack_0_witness:
  "\<exists>dis'. sm_sv_discharger_force_bp 0 None (g_discharger, pick_sys) = Inr (0, (dis', pick_sys), [])
     \<and> dis_forced_bp dis' = 0
     \<and> sm_sv_discharger_process 7 (dis', pick_sys) =
       (case discharger_check_switch_merge_condition 7 (dis', pick_sys) of Inl f \<Rightarrow> Inl f
        | Inr (_, s, out) \<Rightarrow> (case sm_sv_get_discharger_bp_num s of Inl f \<Rightarrow> Inl f | Inr (n, s) \<Rightarrow> Inr (n, s, out)))"
proof -
  let ?d = "g_discharger\<lparr>dis_forced_bp := 0, dis_force_cb := None\<rparr>"
  have "sv3 (snd pick_sys)" using pick_ok by (simp add: pms_ok_def)
  then have r: "sm_sv_discharger_force_bp 0 None (g_discharger, pick_sys) = Inr (0, (?d, pick_sys), [])"
    by (simp add: sm_sv_discharger_force_bp_def sv3_connected_data pick_values g_discharger_def)
  from discharger_ignores_pack_0 [OF r, of 7] r show ?thesis by blast
qed

end
