(* ===== verification/Sv_Pms_Laws.thy ===== *)
theory Sv_Pms_Laws
  imports Charger_Laws Pms_Est_Laws
begin

text \<open>
  Charger, discharger and controller together: neither of the two clients waits for an answer the
  controller does not owe it, they never wait both, and the periodic step does not fault while the
  charger voltage is below its maximum.
\<close>

section \<open>Dispatching the calls\<close>

fun chg_calls :: "charger_out list \<Rightarrow> ctl_call list" where
  "chg_calls [] = []"
| "chg_calls (Chg_Event e # os) = chg_calls os"
| "chg_calls (Chg_Pms c # os) = c # chg_calls os"

lemma chg_calls_append [simp]: "chg_calls (xs @ ys) = chg_calls xs @ chg_calls ys"
  by (induction xs rule: chg_calls.induct) simp_all

lemma chg_calls_emit [simp]: "chg_calls (chg_emit p e chg) = []"
  by (simp add: chg_emit_def split: option.split)

lemma switched_cb_spec:
  "charger_ctl_on_switched_merged_cb r chg = (chg', out) \<Longrightarrow> chg' = chg\<lparr>chg_in_process := False\<rparr> \<and> chg_calls out = []"
  by (auto simp: charger_ctl_on_switched_merged_cb_def Let_def split: if_splits option.splits)

text \<open>The part of the charger that callbacks and requests leave alone.\<close>

definition same_charger :: "charger \<Rightarrow> charger \<Rightarrow> bool" where
  "same_charger chg chg' \<longleftrightarrow> chg' = chg\<lparr>chg_in_process := chg_in_process chg'\<rparr>"

lemma same_charger_refl [simp]: "same_charger chg chg"
  by (simp add: same_charger_def)

lemma same_charger_set [simp]: "same_charger chg (chg\<lparr>chg_in_process := b\<rparr>)"
  by (simp add: same_charger_def)

lemma same_charger_trans: "same_charger a b \<Longrightarrow> same_charger b c \<Longrightarrow> same_charger a c"
  by (cases a; cases b; cases c) (simp add: same_charger_def)

lemma chg_dispatch_spec:
  "chg_dispatch cs chg = (chg', out) \<Longrightarrow>
     same_charger chg chg' \<and> (chg_in_process chg' \<longrightarrow> chg_in_process chg \<and> answers Charger_Switched cs = 0)
     \<and> answers Discharger_Switched (chg_calls out) = answers Discharger_Switched cs
     \<and> answers Charger_Switched (chg_calls out) = 0"
proof (induction cs arbitrary: chg chg' out)
  case (Cons c cs)
  let ?f = "case c of Switch_Done Charger_Switched r _ \<Rightarrow> charger_ctl_on_switched_merged_cb r chg
            | Bp_Call (Cmd_Done (Bp_Client Charger_Off) _ _ _ _) \<Rightarrow> (charger_ctl_on_power_off chg, [])
            | c \<Rightarrow> (chg, [Chg_Pms c])"
  obtain c1 o1 where f: "?f = (c1, o1)" by fastforce
  obtain c2 o2 where r: "chg_dispatch cs c1 = (c2, o2)" by fastforce
  have e: "chg' = c2" "out = o1 @ o2" using Cons.prems f r by simp_all
  have one: "same_charger chg c1 \<and> (chg_in_process c1 \<longrightarrow> chg_in_process chg \<and> \<not> done_of Charger_Switched c)
      \<and> answers Discharger_Switched (chg_calls o1) = (if done_of Discharger_Switched c then 1 else 0)
      \<and> answers Charger_Switched (chg_calls o1) = 0"
    using f by (auto simp: done_of_def charger_ctl_on_power_off_def dest: switched_cb_spec
        split: pms_call.splits sw_cb.splits sv_call.splits bp_client.splits off_cb.splits)
  show ?case using Cons.IH [OF r] one by (auto simp: e intro: same_charger_trans)
qed simp

lemma dis_calls_emit [simp]: "calls_of (dis_emit p e dis) = []"
  by (simp add: dis_emit_def split: option.split)

lemma calls_of_append [simp]: "calls_of (xs @ ys) = calls_of xs @ calls_of ys"
  by (induction xs rule: calls_of.induct) simp_all

lemma dis_switched_cb_spec:
  "discharger_ctl_on_switched_merged_cb r dis = (dis', out) \<Longrightarrow> dis' = dis\<lparr>dis_in_process := False\<rparr> \<and> calls_of out = []"
  by (auto simp: discharger_ctl_on_switched_merged_cb_def Let_def split: if_splits option.splits)

definition same_discharger :: "discharger \<Rightarrow> discharger \<Rightarrow> bool" where
  "same_discharger dis dis' \<longleftrightarrow> dis' = dis\<lparr>dis_in_process := dis_in_process dis'\<rparr>"

lemma same_discharger_simps [simp]:
  "same_discharger dis dis" "same_discharger dis (dis\<lparr>dis_in_process := b\<rparr>)"
  by (simp_all add: same_discharger_def)

lemma same_discharger_trans: "same_discharger a b \<Longrightarrow> same_discharger b c \<Longrightarrow> same_discharger a c"
  by (cases a; cases b; cases c) (simp add: same_discharger_def)

lemma dis_dispatch_spec:
  "dis_dispatch cs dis = (dis', out) \<Longrightarrow>
     same_discharger dis dis' \<and> (dis_in_process dis' \<longrightarrow> dis_in_process dis \<and> answers Discharger_Switched cs = 0)
     \<and> answers Charger_Switched (calls_of out) = answers Charger_Switched cs
     \<and> answers Discharger_Switched (calls_of out) = 0"
proof (induction cs arbitrary: dis dis' out)
  case (Cons c cs)
  let ?f = "case c of Switch_Done Discharger_Switched r _ \<Rightarrow> discharger_ctl_on_switched_merged_cb r dis
            | Bp_Call (Cmd_Done (Bp_Client Discharger_Off) _ _ _ _) \<Rightarrow> (discharger_ctl_on_power_off dis, [])
            | c \<Rightarrow> (dis, [Dis_Pms c])"
  obtain c1 o1 where f: "?f = (c1, o1)" by fastforce
  obtain c2 o2 where r: "dis_dispatch cs c1 = (c2, o2)" by fastforce
  have e: "dis' = c2" "out = o1 @ o2" using Cons.prems f r by simp_all
  have one: "same_discharger dis c1 \<and> (dis_in_process c1 \<longrightarrow> dis_in_process dis \<and> \<not> done_of Discharger_Switched c)
      \<and> answers Charger_Switched (calls_of o1) = (if done_of Charger_Switched c then 1 else 0)
      \<and> answers Discharger_Switched (calls_of o1) = 0"
    using f by (auto simp: done_of_def discharger_ctl_on_power_off_def dest: dis_switched_cb_spec
        split: pms_call.splits sw_cb.splits sv_call.splits bp_client.splits off_cb.splits)
  show ?case using Cons.IH [OF r] one by (auto simp: e intro: same_discharger_trans)
qed simp

lemma pass_charger_spec:
  "pass_charger out st = (st', o') \<Longrightarrow>
     pms_charger st' = pms_charger st \<and> pms_sys st' = pms_sys st \<and> pms_mode st' = pms_mode st \<and> pms_est st' = pms_est st
     \<and> same_discharger (pms_discharger st) (pms_discharger st')
     \<and> (dis_in_process (pms_discharger st') \<longrightarrow>
          dis_in_process (pms_discharger st) \<and> answers Discharger_Switched (chg_calls out) = 0)"
proof (induction out arbitrary: st st' o')
  case (Cons x out)
  show ?case
  proof (cases x)
    case (Chg_Event e)
    then obtain o1 where "pass_charger out st = (st', o1)" using Cons.prems by (auto split: prod.splits)
    from Cons.IH [OF this] show ?thesis by (simp add: Chg_Event)
  next
    case (Chg_Pms c)
    obtain d o1 where d: "dis_dispatch [c] (pms_discharger st) = (d, o1)" by fastforce
    obtain s2 o2 where r: "pass_charger out (st\<lparr>pms_discharger := d\<rparr>) = (s2, o2)" by fastforce
    have "st' = s2" using Cons.prems d r by (simp add: Chg_Pms dispatch_discharger_def)
    with Cons.IH [OF r] dis_dispatch_spec [OF d] show ?thesis
      by (auto simp: Chg_Pms intro: same_discharger_trans)
  qed
qed simp

lemma dispatch_calls_spec:
  assumes "dispatch_calls cs st = (st', out)"
  shows "pms_sys st' = pms_sys st \<and> pms_mode st' = pms_mode st \<and> pms_est st' = pms_est st
     \<and> same_charger (pms_charger st) (pms_charger st') \<and> same_discharger (pms_discharger st) (pms_discharger st')
     \<and> (chg_in_process (pms_charger st') \<longrightarrow> chg_in_process (pms_charger st) \<and> answers Charger_Switched cs = 0)
     \<and> (dis_in_process (pms_discharger st') \<longrightarrow> dis_in_process (pms_discharger st) \<and> answers Discharger_Switched cs = 0)"
proof -
  obtain c o1 where c: "chg_dispatch cs (pms_charger st) = (c, o1)" by fastforce
  then have p: "pass_charger o1 (st\<lparr>pms_charger := c\<rparr>) = (st', out)"
    using assms by (simp add: dispatch_calls_def dispatch_charger_def)
  show ?thesis using pass_charger_spec [OF p] chg_dispatch_spec [OF c] by simp
qed

section \<open>A client of the controller\<close>

text \<open>
  Charger and discharger use the controller in the same way: they set a flag before they make a
  request with their own callback (\<open>mine\<close>) and clear it when the callback is called; what is not
  for them is passed on. From that alone, a client whose flag is set waits for an answer the
  controller owes it (\<open>ready\<close>), and one of its steps leaves that so (\<open>good\<close>).
\<close>

definition waits :: "bool \<Rightarrow> sw_cb \<Rightarrow> ctl_sys \<Rightarrow> bool" where
  "waits b u sys \<longleftrightarrow> (b \<longrightarrow> ctl_cb (fst sys) = Some u)"

lemma waits_pending: "waits b u sys \<longleftrightarrow> (b \<longrightarrow> pending u sys = 1)"
  by (simp add: waits_def pending_def)

lemma pending_le: "pending u sys \<le> 1"
  by (simp add: pending_def)

locale ctl_client =
  fixes dispatch :: "ctl_call list \<Rightarrow> 'c \<Rightarrow> 'c \<times> 'o list"
    and passed :: "'o list \<Rightarrow> ctl_call list"
    and flag :: "'c \<Rightarrow> bool" and set_flag :: "bool \<Rightarrow> 'c \<Rightarrow> 'c" and invar :: "'c \<Rightarrow> bool"
    and mine :: sw_cb and other :: sw_cb
  assumes passed_simps [simp]: "passed [] = []" "passed (xs @ ys) = passed xs @ passed ys"
    and invar_set [simp]: "invar (set_flag b c) = invar c" and flag_set [simp]: "flag (set_flag b c) = b"
    and dispatch_client: "dispatch cs c = (c', out) \<Longrightarrow>
      (\<exists>b. c' = set_flag b c) \<and> (flag c' \<longrightarrow> flag c \<and> answers mine cs = 0)
      \<and> answers other (passed out) = answers other cs \<and> answers mine (passed out) = 0"
begin

definition ready :: "'c \<times> ctl_sys \<Rightarrow> bool" where
  "ready = (\<lambda>(c, sys). pms_ok sys \<and> invar c \<and> waits (flag c) mine sys)"

definition good :: "ctl_sys \<Rightarrow> ('c \<times> ctl_sys) \<times> 'o list \<Rightarrow> bool" where
  "good sys = (\<lambda>(s, out). ready s \<and> answers mine (passed out) = 0
     \<and> answers other (passed out) + pending other (snd s) = pending other sys)"

lemma good_refl [simp]: "good sys ((c, sys), []) = ready (c, sys)"
  by (simp add: good_def)

lemma good_add: "good sys (s, out) \<Longrightarrow> passed o1 = [] \<Longrightarrow> passed o2 = [] \<Longrightarrow> good sys (s, o1 @ out @ o2)"
  by (cases s) (simp add: good_def)

lemma ready_ok: "ready (c, sys) \<Longrightarrow> pms_ok sys \<and> sv3 (snd sys) \<and> invar c"
  by (simp add: ready_def pms_ok_def)

text \<open>A call answers what it answers: any operation of the controller, with the flag as it is.\<close>

lemma call_good:
  assumes "waits (flag c) mine sys \<or> b" "invar c" "pms_ok sys'" "dispatch cs c = (c', out)"
    and "answers mine cs + pending mine sys' = (if b then 1 else 0) + pending mine sys"
    and "answers other cs + pending other sys' = pending other sys"
  shows "good sys ((c', sys'), out)"
proof -
  note D = dispatch_client [OF assms(4)]
  have "flag c' \<longrightarrow> pending mine sys' = 1"
    using D assms(1,5) pending_le [of mine sys'] by (auto simp: waits_pending split: if_splits)
  moreover have "invar c'" using D assms(2) by auto
  ultimately show ?thesis using D assms(3,6) by (simp add: good_def ready_def waits_pending)
qed

lemma start_good:
  assumes "ready (c, sys)" "target = SM_PMS_ST_PRE_SWITCH \<or> target = SM_PMS_ST_MERGE" "mine \<noteq> other"
  shows "\<exists>r sys' cs c' out. pms_start target now port cmd (Some mine) sys = Inr (r, sys', cs)
    \<and> dispatch cs (set_flag True c) = (c', out) \<and> good sys ((c', sys'), out)"
proof -
  have ok: "pms_ok sys" "invar c" using assms(1) by (simp_all add: ready_def)
  obtain r sys' cs where p: "pms_start target now port cmd (Some mine) sys = Inr (r, sys', cs)" "pms_ok sys'"
    using start_ok [OF ok(1) assms(2)] by blast
  obtain c' out where d: "dispatch cs (set_flag True c) = (c', out)" by fastforce
  note a = start_answers [OF ok(1) assms(2) p(1)]
  have "good sys ((c', sys'), out)"
    by (rule call_good [where b = True, OF _ _ p(2) d]) (use a [of mine] a [of other] ok(2) assms(3) in simp_all)
  with p(1) d show ?thesis by blast
qed

end

definition chg_inv :: "charger \<Rightarrow> bool" where
  "chg_inv chg \<longleftrightarrow> chg_forced_bp chg = -1 \<and> length (chg_port_enable chg) = 3"

definition dis_inv :: "discharger \<Rightarrow> bool" where
  "dis_inv dis \<longleftrightarrow> dis_forced_bp dis = -1"

interpretation cc: ctl_client chg_dispatch chg_calls chg_in_process "\<lambda>b. chg_in_process_update (\<lambda>_. b)" chg_inv
  Charger_Switched Discharger_Switched
  by unfold_locales (auto simp: chg_inv_def same_charger_def dest!: chg_dispatch_spec)

interpretation dc: ctl_client dis_dispatch calls_of dis_in_process "\<lambda>b. dis_in_process_update (\<lambda>_. b)" dis_inv
  Discharger_Switched Charger_Switched
  by unfold_locales (auto simp: dis_inv_def same_discharger_def dest!: dis_dispatch_spec)

lemma chg_request_good:
  assumes "cc.ready (chg, sys)" "target = SM_PMS_ST_PRE_SWITCH \<or> target = SM_PMS_ST_MERGE"
  shows "\<exists>r chg' sys' out. chg_request (pms_start target now port cmd (Some Charger_Switched)) (chg, sys)
           = Inr (r, (chg', sys'), out) \<and> cc.good sys ((chg', sys'), out)"
  using cc.start_good [OF assms, of now port cmd] by (auto simp: chg_request_def chg_call_def)

lemma dis_request_good:
  assumes "dc.ready (dis, sys)" "target = SM_PMS_ST_PRE_SWITCH \<or> target = SM_PMS_ST_MERGE"
  shows "\<exists>r dis' sys' out. dis_request (pms_start target now port cmd (Some Discharger_Switched)) (dis, sys)
           = Inr (r, (dis', sys'), out) \<and> dc.good sys ((dis', sys'), out)"
  using dc.start_good [OF assms, of now port cmd] by (auto simp: dis_request_def dis_call_def)

lemmas chg_merge_good = chg_request_good [OF _ disjI2 [OF refl], folded sm_pms_ctl_merge_def]
  and chg_switch_good = chg_request_good [OF _ disjI1 [OF refl], folded sm_pms_ctl_switch_def]
  and dis_merge_good = dis_request_good [OF _ disjI2 [OF refl], folded sm_pms_ctl_merge_def]
  and dis_switch_good = dis_request_good [OF _ disjI1 [OF refl], folded sm_pms_ctl_switch_def]

section \<open>The charger's step\<close>

lemma charger_check_good:
  assumes "cc.ready (chg, sys)"
  shows "\<exists>r chg' sys' out. charger_check_switch_merge_condition now (chg, sys) = Inr (r, (chg', sys'), out)
     \<and> cc.good sys ((chg', sys'), out)"
proof -
  have sv: "sv3 (snd sys)" using assms by (simp add: cc.ready_def pms_ok_def)
  obtain vc vol nx where "fold (scan_step chg (snd sys)) pack_indices (0, 0, -1) = (vc, vol, nx)" by (metis prod_cases3)
  then have scan: "charger_scan chg (snd sys) pack_indices (0, 0, -1) = Inr (vc, vol, nx)"
    using charger_scan_fold [OF sv, of pack_indices "(0, 0, -1)" chg] by simp
  show ?thesis
    using assms chg_merge_good [OF assms, of now "word_of_int nx" BP_CMD_CHARGE]
      chg_switch_good [OF assms, of now "word_of_int nx" BP_CMD_CHARGE]
    by (simp add: charger_check_switch_merge_condition_def scan del: charger_scan.simps split_paired_Ex)
qed

definition chg_untouched :: "charger \<Rightarrow> charger \<Rightarrow> bool" where
  "chg_untouched chg chg' \<longleftrightarrow> chg_in_process chg' = chg_in_process chg \<and> chg_forced_bp chg' = chg_forced_bp chg
     \<and> chg_port_enable chg' = chg_port_enable chg \<and> chg_volt chg' = chg_volt chg \<and> chg_prof chg' = chg_prof chg"

lemma ready_untouched: "cc.ready (chg, sys) \<Longrightarrow> chg_untouched chg chg' \<Longrightarrow> cc.ready (chg', sys)"
  by (simp add: cc.ready_def chg_untouched_def chg_inv_def)

lemma plugging_spec:
  "charger_check_plugging_status now chg = Inr (chg', out) \<Longrightarrow> chg_untouched chg chg' \<and> chg_calls out = []"
  by (auto simp: charger_check_plugging_status_def Let_def chg_untouched_def split: if_splits)

lemma plugging_total:
  "chg_volt chg < prof_max_volt (chg_prof chg) \<Longrightarrow> \<exists>chg' out. charger_check_plugging_status now chg = Inr (chg', out)"
  by (auto simp: charger_check_plugging_status_def Let_def)

lemma monitor_spec:
  assumes "sv3 (snd sys)"
  shows "\<exists>cur chg' out. charger_current_monitor now (chg, sys) = Inr (cur, (chg', sys), out)
     \<and> chg_untouched chg chg' \<and> chg_calls out = [] \<and> 0 \<le> cur"
proof -
  obtain c where "sm_sv_charger_get_cur (chg, sys) = Inr c"
    using sum_packs_spec [OF assms, of pack_indices bp_cur 0] by (simp add: sm_sv_charger_get_cur_def del: sum_packs.simps)
  then show ?thesis by (auto simp: charger_current_monitor_def Let_def chg_untouched_def)
qed

lemma charger_process_good:
  assumes "cc.ready (chg, sys)" "charger_check_plugging_status now chg = Inr (c1, o1)"
  shows "\<exists>r chg' sys' out. sm_sv_charger_process now (chg, sys) = Inr (r, (chg', sys'), out)
     \<and> cc.good sys ((chg', sys'), out)"
proof (cases "chg_paused chg")
  case True
  then show ?thesis using assms(1) by (simp add: sm_sv_charger_process_def)
next
  case False
  have p: "chg_untouched chg c1" "chg_calls o1 = []" using plugging_spec [OF assms(2)] by blast+
  have c1: "cc.ready (c1, sys)" by (rule ready_untouched [OF assms(1) p(1)])
  show ?thesis
  proof (cases "chg_plugged c1")
    case plugged: True
    obtain r c2 s2 o2 where q: "charger_check_switch_merge_condition now (c1, sys) = Inr (r, (c2, s2), o2)"
      "cc.good sys ((c2, s2), o2)"
      using charger_check_good [OF c1] by blast
    have "sv3 (snd s2)" using q(2) by (simp add: cc.good_def cc.ready_def pms_ok_def)
    then obtain cur c3 o3 where m: "charger_current_monitor now (c2, s2) = Inr (cur, (c3, s2), o3)"
      "chg_untouched c2 c3" "chg_calls o3 = []"
      using monitor_spec by blast
    have "cc.good sys ((c3, s2), o2)" using q(2) m(2) by (simp add: cc.good_def cc.ready_def chg_untouched_def chg_inv_def)
    then have "cc.good sys ((c3, s2), o1 @ o2 @ o3)" by (rule cc.good_add [OF _ p(2) m(3)])
    moreover have "\<not> 0 \<le> chg_forced_bp c1" using c1 by (simp add: cc.ready_def chg_inv_def)
    ultimately show ?thesis using False plugged assms(2) q(1) m(1) by (simp add: sm_sv_charger_process_def)
  next
    case unplugged: False
    then show ?thesis using False assms(2) p c1 cc.good_add [of sys "(c1, sys)" "[]" o1 "[]"]
      by (simp add: sm_sv_charger_process_def)
  qed
qed

lemma charger_process_fault:
  "charger_check_plugging_status now chg = Inl f \<Longrightarrow> \<not> chg_paused chg \<Longrightarrow> sm_sv_charger_process now (chg, sys) = Inl f"
  by (simp add: sm_sv_charger_process_def)

lemma charger_process_kept:
  assumes "cc.ready (chg, sys)" "sm_sv_charger_process now (chg, sys) = Inr (r, s, out)"
  shows "cc.good sys (s, out)"
proof (cases "charger_check_plugging_status now chg")
  case (Inl f)
  then have "chg_paused chg" using charger_process_fault [OF Inl, of sys] assms(2) by auto
  then show ?thesis using assms by (auto simp: sm_sv_charger_process_def)
next
  case (Inr p)
  then show ?thesis using charger_process_good [OF assms(1), of now "fst p" "snd p"] assms(2) by auto
qed

section \<open>The discharger's step\<close>

lemma discharger_check_good:
  assumes "dc.ready (dis, sys)"
  shows "\<exists>r dis' sys' out. discharger_check_switch_merge_condition now (dis, sys) = Inr (r, (dis', sys'), out)
     \<and> dc.good sys ((dis', sys'), out)"
proof -
  have sv: "sv3 (snd sys)" using assms dc.ready_ok by blast
  obtain vol nx vd cur where "fold (dscan_step (snd sys)) pack_indices (0, -1, 0, 0) = (vol, nx, vd, cur)"
    by (metis prod_cases4)
  then have scan: "discharger_scan (snd sys) pack_indices (0, -1, 0, 0) = Inr (vol, nx, vd, cur)"
    using discharger_scan_fold [OF sv, of pack_indices "(0, -1, 0, 0)"] by simp
  show ?thesis
    using assms dis_merge_good [OF assms, of now "word_of_int nx" BP_CMD_DISCHARGE]
      dis_switch_good [OF assms, of now "word_of_int nx" BP_CMD_DISCHARGE]
    by (simp add: discharger_check_switch_merge_condition_def scan del: discharger_scan.simps split_paired_Ex)
qed

lemma discharger_process_good:
  assumes "dc.ready (dis, sys)"
  shows "\<exists>r dis' sys' out. sm_sv_discharger_process now (dis, sys) = Inr (r, (dis', sys'), out)
     \<and> dc.good sys ((dis', sys'), out)"
proof (cases "dis_paused dis")
  case True
  then show ?thesis using assms by (simp add: sm_sv_discharger_process_def)
next
  case False
  obtain r d1 s1 o1 where q: "discharger_check_switch_merge_condition now (dis, sys) = Inr (r, (d1, s1), o1)"
    "dc.good sys ((d1, s1), o1)"
    using discharger_check_good [OF assms] by blast
  have "sv3 (snd s1)" using q(2) by (simp add: dc.good_def dc.ready_def pms_ok_def)
  then obtain n where n: "sm_sv_get_discharger_bp_num (d1, s1) = Inr (n, (d1\<lparr>dis_numb := word_of_int n\<rparr>, s1))"
    using sum_packs_spec [of "snd s1" pack_indices "\<lambda>d. if bp_state d = BP_STATE_DISCHARGING then 1 else 0" 0]
    by (simp add: sm_sv_get_discharger_bp_num_def del: sum_packs.simps)
  have "dc.good sys ((d1\<lparr>dis_numb := word_of_int n\<rparr>, s1), o1)"
    using q(2) by (simp add: dc.good_def dc.ready_def dis_inv_def)
  moreover have "\<not> 0 < dis_forced_bp dis" using assms by (simp add: dc.ready_def dis_inv_def)
  ultimately show ?thesis using False q(1) n by (simp add: sm_sv_discharger_process_def)
qed

section \<open>The service\<close>

definition sv_pms_ok :: "sm_sv_pms \<Rightarrow> bool" where
  "sv_pms_ok st \<longleftrightarrow> cc.ready (pms_charger st, pms_sys st) \<and> dc.ready (pms_discharger st, pms_sys st) \<and> est_ok (pms_est st)"

lemma ready_same_charger:
  assumes "cc.ready (c, sys)" "same_charger c c'" "chg_in_process c' \<longrightarrow> pending Charger_Switched sys' = 1" "pms_ok sys'"
  shows "cc.ready (c', sys')"
proof -
  have "chg_inv c'" using assms(1,2) by (cases c; cases c') (simp add: same_charger_def chg_inv_def cc.ready_def)
  then show ?thesis using assms(3,4) by (simp add: cc.ready_def waits_pending)
qed

lemma ready_same_discharger:
  assumes "dc.ready (d, sys)" "same_discharger d d'" "dis_in_process d' \<longrightarrow> pending Discharger_Switched sys' = 1" "pms_ok sys'"
  shows "dc.ready (d', sys')"
proof -
  have "dis_inv d'" using assms(1,2) by (cases d; cases d') (simp add: same_discharger_def dis_inv_def dc.ready_def)
  then show ?thesis using assms(3,4) by (simp add: dc.ready_def waits_pending)
qed

lemma still_pending: "a + pending u sys' = b + pending u sys \<Longrightarrow> a = 0 \<Longrightarrow> pending u sys = 1 \<Longrightarrow> pending u sys' = 1"
  using pending_le [of u sys'] by linarith

text \<open>Whatever the controller has done, the calls it made bring both clients up to date.\<close>

lemma after_ctl:
  assumes "sv_pms_ok st" "pms_ok sys'" "\<And>u. answers u cs + pending u sys' = n u + pending u (pms_sys st)"
    and "dispatch_calls cs (st\<lparr>pms_sys := sys'\<rparr>) = (st', out)"
  shows "sv_pms_ok st'"
proof -
  note D = dispatch_calls_spec [OF assms(4)]
  have r: "cc.ready (pms_charger st, pms_sys st)" "dc.ready (pms_discharger st, pms_sys st)" "est_ok (pms_est st)"
    using assms(1) by (simp_all add: sv_pms_ok_def)
  then have "chg_in_process (pms_charger st') \<longrightarrow> pending Charger_Switched sys' = 1"
    using D still_pending [OF assms(3) [of Charger_Switched]] by (auto simp: cc.ready_def waits_pending)
  moreover have "dis_in_process (pms_discharger st') \<longrightarrow> pending Discharger_Switched sys' = 1"
    using D r still_pending [OF assms(3) [of Discharger_Switched]] by (auto simp: dc.ready_def waits_pending)
  ultimately show ?thesis
    using D r(3) ready_same_charger [OF r(1)] ready_same_discharger [OF r(2)] assms(2) by (auto simp: sv_pms_ok_def)
qed

lemma after_charger:
  assumes "sv_pms_ok st" "cc.good (pms_sys st) ((chg', sys'), out)"
    and "pass_charger out (st\<lparr>pms_charger := chg', pms_sys := sys', pms_mode := m\<rparr>) = (st', out')"
  shows "sv_pms_ok st'"
proof -
  note D = pass_charger_spec [OF assms(3)]
  have g: "cc.ready (chg', sys')" "pms_ok sys'"
    "answers Discharger_Switched (chg_calls out) + pending Discharger_Switched sys' = 0 + pending Discharger_Switched (pms_sys st)"
    using assms(2) by (simp_all add: cc.good_def cc.ready_def)
  have r: "dc.ready (pms_discharger st, pms_sys st)" "est_ok (pms_est st)" using assms(1) by (simp_all add: sv_pms_ok_def)
  then have "dis_in_process (pms_discharger st') \<longrightarrow> pending Discharger_Switched sys' = 1"
    using D still_pending [OF g(3)] by (auto simp: dc.ready_def waits_pending)
  then show ?thesis using D g r(2) ready_same_discharger [OF r(1)] by (auto simp: sv_pms_ok_def)
qed

lemma after_discharger:
  assumes "sv_pms_ok st" "dc.good (pms_sys st) ((dis', sys'), out)"
    and "dispatch_calls (calls_of out) (st\<lparr>pms_discharger := dis', pms_sys := sys'\<rparr>) = (st', out')"
  shows "sv_pms_ok st'"
proof -
  note D = dispatch_calls_spec [OF assms(3)]
  have g: "dc.ready (dis', sys')" "pms_ok sys'"
    "answers Charger_Switched (calls_of out) + pending Charger_Switched sys' = 0 + pending Charger_Switched (pms_sys st)"
    using assms(2) by (simp_all add: dc.good_def dc.ready_def)
  have r: "cc.ready (pms_charger st, pms_sys st)" "est_ok (pms_est st)" using assms(1) by (simp_all add: sv_pms_ok_def)
  then have "chg_in_process (pms_charger st') \<longrightarrow> pending Charger_Switched sys' = 1"
    using D still_pending [OF g(3)] by (auto simp: cc.ready_def waits_pending)
  moreover have "dc.ready (pms_discharger st', sys')"
    using D g(1,2) by (intro ready_same_discharger [OF g(1)]) (auto simp: dc.ready_def waits_pending)
  ultimately show ?thesis using D g(2) r(2) ready_same_charger [OF r(1)] by (auto simp: sv_pms_ok_def)
qed

lemma run_ctl_ok:
  assumes "sv_pms_ok st"
  shows "\<exists>st' out. run_ctl now st = Inr (st', out) \<and> sv_pms_ok st' \<and> same_charger (pms_charger st) (pms_charger st')"
proof -
  have ok: "pms_ok (pms_sys st)" using assms by (simp add: sv_pms_ok_def cc.ready_def)
  obtain sys' cs where p: "sm_pms_ctl_process now (pms_sys st) = Inr (sys', cs)" "pms_ok sys'"
    using process_ok [OF ok] by blast
  obtain st' out where d: "dispatch_calls cs (st\<lparr>pms_sys := sys'\<rparr>) = (st', out)" by fastforce
  have "sv_pms_ok st'"
    by (rule after_ctl [where n = "\<lambda>_. 0", OF assms p(2) _ d]) (simp add: process_answers [OF ok p(1)])
  then show ?thesis using p(1) d dispatch_calls_spec [OF d] by (simp add: run_ctl_def)
qed

lemma run_est_ok:
  assumes "sv_pms_ok st"
  shows "\<exists>est' sv'. run_est now st = Inr (st\<lparr>pms_est := est', pms_sys := (fst (pms_sys st), sv')\<rparr>, [])
    \<and> sv_pms_ok (st\<lparr>pms_est := est', pms_sys := (fst (pms_sys st), sv')\<rparr>)"
proof -
  have ok: "pms_ok (pms_sys st)" "est_ok (pms_est st)" using assms by (simp_all add: sv_pms_ok_def cc.ready_def)
  then have "sv3 (snd (pms_sys st))" by (simp add: pms_ok_def)
  then obtain r est' sv' where p: "pms_est_process now (pms_mode st) (pms_est st, snd (pms_sys st)) = Inr (r, est', sv')" "est_ok est'" "sv3 sv'"
    using est_total [OF _ ok(2), of "snd (pms_sys st)" now "pms_mode st"] by blast
  have "pms_ok (fst (pms_sys st), sv')" using ok(1) p(3) by (simp add: pms_ok_def)
  then show ?thesis using assms p
    by (intro exI [of _ est'] exI [of _ sv']) (simp add: run_est_def sv_pms_ok_def cc.ready_def dc.ready_def waits_def)
qed

lemma run_charger_kept:
  assumes "sv_pms_ok st"
  shows "ends_in sv_pms_ok (run_charger now st)"
proof (cases "sm_sv_charger_process now (pms_charger st, pms_sys st)")
  case (Inr p)
  then obtain r chg sys out where p: "sm_sv_charger_process now (pms_charger st, pms_sys st) = Inr (r, (chg, sys), out)"
    by (cases p) auto
  have "cc.good (pms_sys st) ((chg, sys), out)"
    using charger_process_kept [OF _ p] assms by (simp add: sv_pms_ok_def)
  from after_charger [OF assms this] p show ?thesis
    by (auto simp: run_charger_def ends_in_def split: prod.split)
qed (simp add: run_charger_def)

lemma run_charger_total:
  assumes "sv_pms_ok st" "chg_volt (pms_charger st) < prof_max_volt (chg_prof (pms_charger st))"
  shows "\<exists>st' out. run_charger now st = Inr (st', out)"
  using plugging_total [OF assms(2), of now] charger_process_good [of "pms_charger st" "pms_sys st" now] assms(1)
  by (fastforce simp: run_charger_def sv_pms_ok_def)

lemma run_discharger_ok:
  assumes "sv_pms_ok st"
  shows "\<exists>st' out. run_discharger now st = Inr (st', out) \<and> sv_pms_ok st'"
proof -
  obtain r dis sys out where p: "sm_sv_discharger_process now (pms_discharger st, pms_sys st) = Inr (r, (dis, sys), out)"
    "dc.good (pms_sys st) ((dis, sys), out)"
    using discharger_process_good assms unfolding sv_pms_ok_def by blast
  obtain st' out' where d: "dispatch_calls (calls_of out) (st\<lparr>pms_discharger := dis, pms_sys := sys\<rparr>) = (st', out')" by fastforce
  show ?thesis using after_discharger [OF assms p(2) d] p(1) d by (simp add: run_discharger_def)
qed

lemma sv_pms_process_ok:
  assumes "sv_pms_ok st"
  shows "case sm_sv_pms_process now st of Inl _ \<Rightarrow> True | Inr (r, st', out) \<Rightarrow> sv_pms_ok st'"
proof -
  let ?r = "and_then (run_est now st) (\<lambda>st. and_then (run_ctl now st)
         (\<lambda>st. and_then (run_charger now st)
           (\<lambda>st. if pms_mode st = PMS_DISCHARGER then run_discharger now st else Inr (st, []))))"
  have "ends_in sv_pms_ok (run_est now st)" using run_est_ok [OF assms, of now] by (auto simp: ends_in_def)
  moreover have "ends_in sv_pms_ok (run_ctl now s)" if "sv_pms_ok s" for s
    using run_ctl_ok [OF that, of now] by (auto simp: ends_in_def)
  moreover have "ends_in sv_pms_ok (run_discharger now s)" if "sv_pms_ok s" for s
    using run_discharger_ok [OF that, of now] by (auto simp: ends_in_def)
  ultimately have "ends_in sv_pms_ok ?r" by (auto intro!: ends_in_and_then run_charger_kept)
  then show ?thesis by (cases ?r) (auto simp: sm_sv_pms_process_def ends_in_def)
qed

text \<open>Every event but a request to force a pack keeps the clients in step with the controller.\<close>

fun forces :: "sv_pms_event \<Rightarrow> bool" where
  "forces (Force_Charge _ _) = True"
| "forces (Force_Discharge _ _) = True"
| "forces _ = False"

lemma power_off_good:
  assumes "cc.ready (chg, sys)" "chg_call (sm_pms_ctl_power_off now port None) (chg, sys) = Inr (r, (chg', sys'), out)"
  shows "cc.good sys ((chg', sys'), out)"
proof -
  have ok: "pms_ok sys" "chg_inv chg" "waits (chg_in_process chg) Charger_Switched sys"
    using assms(1) by (simp_all add: cc.ready_def)
  obtain r1 s1 cs where p: "sm_pms_ctl_power_off now port None sys = Inr (r1, s1, cs)" "pms_ok s1"
    using power_off_ok [OF ok(1)] by blast
  have e: "answers u cs + pending u s1 = 0 + pending u sys" for u
    using step_answers [OF ok(1), of "Power_Off now port None" s1 cs u] p(1) by simp
  obtain c1 o1 where d: "chg_dispatch cs chg = (c1, o1)" by fastforce
  have "cc.good sys ((c1, s1), o1)"
    by (rule cc.call_good [where b = False, OF _ ok(2) p(2) d]) (use ok(3) e in simp_all)
  then show ?thesis using assms(2) p(1) d by (simp add: chg_call_def)
qed

lemma enable_port_good:
  assumes "cc.ready (chg, sys)" "sm_sv_charger_enable_port now port en (chg, sys) = Inr (r, s, out)"
  shows "cc.good sys (s, out)"
proof (cases "uint port < 3 \<and> en = 0")
  case False
  then show ?thesis
    using assms by (auto simp: sm_sv_charger_enable_port_def cc.ready_def chg_inv_def split: if_splits)
next
  case True
  obtain st where st: "bp_state_at (uint port) (snd sys) = Inr st"
    using sv3_state [of "snd sys" "uint port"] cc.ready_ok [OF assms(1)] True by simp
  let ?f = "if running st then map_sum id snd (chg_call (sm_pms_ctl_power_off now port None) (chg, sys))
            else Inr ((chg, sys), [])"
  obtain c1 s1 o1 where f: "?f = Inr ((c1, s1), o1)"
    using assms(2) True st by (cases ?f) (auto simp: sm_sv_charger_enable_port_def)
  have g: "cc.good sys ((c1, s1), o1)"
    using f assms(1) power_off_good [OF assms(1), of now port]
    by (cases "chg_call (sm_pms_ctl_power_off now port None) (chg, sys)") (auto split: if_splits)
  then have inv: "chg_forced_bp c1 = -1" by (simp add: cc.good_def cc.ready_def chg_inv_def)
  have np: "-1 \<noteq> uint port" using uint_ge_0 [of port] by linarith
  have "s = (c1\<lparr>chg_port_enable := (chg_port_enable c1)[unat port := uint en]\<rparr>, s1) \<and> out = o1"
    using assms(2) True st f inv np by (simp add: sm_sv_charger_enable_port_def)
  then show ?thesis using g by (simp add: cc.good_def cc.ready_def chg_inv_def)
qed

lemma pause_good:
  assumes "dc.ready (dis, sys)" "sm_sv_discharger_pause now (dis, sys) = Inr ((dis', sys'), out)"
  shows "dc.good sys ((dis', sys'), out)"
proof -
  have ok: "pms_ok sys" "dis_inv dis" "waits (dis_in_process dis) Discharger_Switched sys"
    using assms(1) by (simp_all add: dc.ready_def)
  obtain s1 cs where p: "sm_pms_ctl_release now sys = Inr (s1, cs)" "pms_ok s1"
    using release_ok [OF ok(1)] by blast
  have e: "answers u cs + pending u s1 = 0 + pending u sys" for u
    using step_answers [OF ok(1), of "Release now" s1 cs u] p(1) by simp
  obtain d1 o1 where d: "dis_dispatch cs dis = (d1, o1)" by fastforce
  have "dc.good sys ((d1, s1), o1)"
    by (rule dc.call_good [where b = False, OF _ ok(2) p(2) d]) (use ok(3) e in simp_all)
  then show ?thesis
    using assms(2) p(1) d by (auto simp: sm_sv_discharger_pause_def dis_call_def dc.good_def dc.ready_def dis_inv_def waits_def)
qed

lemma sv_pms_step_ok:
  assumes "sv_pms_ok st" "\<not> forces e" "sv_pms_step st e = Inr (st', out)"
  shows "sv_pms_ok st'"
proof (cases e)
  case (Pms_Process now)
  then show ?thesis using assms(3) sv_pms_process_ok [OF assms(1), of now] by (auto split: sum.splits)
next
  case (Ctl_Event x)
  have ok: "pms_ok (pms_sys st)" using assms(1) by (simp add: sv_pms_ok_def cc.ready_def)
  obtain sys cs where p: "pms_step (pms_sys st) x = Inr (sys, cs)" "dispatch_calls cs (st\<lparr>pms_sys := sys\<rparr>) = (st', out)"
    using assms(3) by (auto simp: Ctl_Event split: sum.splits)
  show ?thesis
    by (rule after_ctl [where n = "\<lambda>u. asked u x", OF assms(1) ends_in_D [OF pms_step_ok [OF ok] p(1)] _ p(2)])
      (rule step_answers [OF ok p(1)])
next
  case (Enable_Port now port en)
  then obtain r chg sys out' where p: "sm_sv_charger_enable_port now port en (pms_charger st, pms_sys st) = Inr (r, (chg, sys), out')"
    "pass_charger out' (st\<lparr>pms_charger := chg, pms_sys := sys\<rparr>) = (st', out)"
    using assms(3) by (auto split: sum.splits)
  have g: "cc.good (pms_sys st) ((chg, sys), out')"
    using enable_port_good [OF _ p(1)] assms(1) by (simp add: sv_pms_ok_def)
  show ?thesis using after_charger [OF assms(1) g, of "pms_mode st"] p(2) by simp
next
  case (Pause_Discharge now)
  then obtain dis sys out' where p: "sm_sv_discharger_pause now (pms_discharger st, pms_sys st) = Inr ((dis, sys), out')"
    "fst (dispatch_calls (calls_of out') (st\<lparr>pms_discharger := dis, pms_sys := sys\<rparr>)) = st'"
    using assms(3) by (auto split: sum.splits prod.splits)
  have g: "dc.good (pms_sys st) ((dis, sys), out')"
    using pause_good [OF _ p(1)] assms(1) by (simp add: sv_pms_ok_def)
  show ?thesis using after_discharger [OF assms(1) g] p(2) by (metis prod.collapse)
qed (use assms in \<open>auto simp: sv_pms_ok_def cc.ready_def dc.ready_def chg_inv_def dis_inv_def sm_sv_charger_set_volt_def
    sm_sv_charger_release_bp_def sm_sv_discharger_release_bp_def sm_sv_discharger_resume_def sm_sv_discharger_set_sw_state_def\<close>)

lemma sv_pms_run_ok:
  assumes "sv_pms_ok st" "list_all (\<lambda>e. \<not> forces e) es"
  shows "ends_in sv_pms_ok (sv_pms_run es st)"
  unfolding sv_pms_run_def
proof (rule ends_in_run_all [where P = sv_pms_ok, OF assms(1)])
  show "ends_in sv_pms_ok (sv_pms_step s e)" if "e \<in> set es" "sv_pms_ok s" for e s
    using that assms(2) sv_pms_step_ok [OF that(2), of e]
    by (auto simp: list_all_iff ends_in_def split: sum.split)
qed

section \<open>Properties of the service\<close>

text \<open>C28. The periodic step of the service - estimation, controller, charger, discharger - does not fault, whatever
  the packs report. The state the service started from has three packs, has the data of the motor controller and of the unit in place if it
  has an estimation, and nobody is forcing a pack in it; whatever the service was asked to do since then, if no request was one to force
  a pack and none faulted, the next step does not fault. One more condition is on the moment of that step: the voltage at the charger
  port is below its maximum (above it the step does fault, see \<^verbatim>\<open>charger_overvoltage_faults\<close>).\<close>

theorem sv_pms_never_faults:
  assumes "sv_pms_ok st" "list_all (\<lambda>e. \<not> forces e) es" "sv_pms_run es st = Inr (st', out)"
    and "chg_volt (pms_charger st') < prof_max_volt (chg_prof (pms_charger st'))"
  shows "\<exists>r st2 out2. sm_sv_pms_process now st' = Inr (r, st2, out2) \<and> sv_pms_ok st2"
proof -
  have ok: "sv_pms_ok st'" by (rule ends_in_D [OF sv_pms_run_ok [OF assms(1,2)] assms(3)])
  obtain s0 where z: "run_est now st' = Inr (s0, [])" "sv_pms_ok s0" "pms_charger s0 = pms_charger st'"
    using run_est_ok [OF ok, of now] by auto
  obtain s1 o1 where a: "run_ctl now s0 = Inr (s1, o1)" "sv_pms_ok s1" "same_charger (pms_charger s0) (pms_charger s1)"
    using run_ctl_ok [OF z(2)] by blast
  have "chg_volt (pms_charger s1) < prof_max_volt (chg_prof (pms_charger s1))"
    using a(3) z(3) assms(4) by (cases "pms_charger st'"; cases "pms_charger s1") (simp add: same_charger_def)
  then obtain s2 o2 where b: "run_charger now s1 = Inr (s2, o2)" using run_charger_total [OF a(2)] by blast
  have "sv_pms_ok s2" by (rule ends_in_D [OF run_charger_kept [OF a(2)] b])
  then obtain s3 o3 where "run_discharger now s2 = Inr (s3, o3)" using run_discharger_ok by blast
  then have "\<exists>r st2 out2. sm_sv_pms_process now st' = Inr (r, st2, out2)"
    using z(1) a(1) b by (simp add: sm_sv_pms_process_def)
  then show ?thesis using sv_pms_process_ok [OF ok, of now] by auto
qed

text \<open> When the voltage stays above the maximum until the timer of the charger
  has expired, the step that should report the error hands the charger object to the controller's
  release instead: the object is used under the wrong type.\<close>

theorem charger_overvoltage_faults:
  assumes "\<not> chg_paused chg" "chg_err chg \<in> {0, 1}" "prof_max_volt (chg_prof chg) \<le> chg_volt chg"
    and "prof_min_volt (chg_prof chg) < prof_max_volt (chg_prof chg)"
    and "timed_out now (if chg_err chg = 0 then elapsed_timer_reset now (chg_timeout chg) else chg_timeout chg)"
  shows "sm_sv_charger_process now (chg, sys) = Inl Wrong_Object"
  using assms by (auto simp: sm_sv_charger_process_def charger_check_plugging_status_def Let_def split: if_splits)

section \<open>Examples\<close>

definition pms_start_st :: sm_sv_pms where
  "pms_start_st = sm_sv_pms_create (sm_sv_charger_create None g_charger_default) (sm_sv_discharger_create g_discharger) pick_sys (Some est_sample)"

lemma pms_start_ok: "sv_pms_ok pms_start_st"
  by (simp add: sv_pms_ok_def cc.ready_def dc.ready_def pms_start_st_def sm_sv_pms_create_def pick_ok chg_inv_def dis_inv_def
      waits_def est_ok_def est_sample_def sm_sv_charger_create_def sm_sv_discharger_create_def g_charger_default_def g_discharger_def)

lemma pms_start_volt:
  "chg_volt (pms_charger pms_start_st) < prof_max_volt (chg_prof (pms_charger pms_start_st))"
  by (simp add: pms_start_st_def sm_sv_pms_create_def sm_sv_charger_create_def g_charger_default_def g_charger_prof_default_def)

lemma sv_pms_never_faults_witness:
  "\<exists>st' out r st2 out2. sv_pms_run [Set_Volt 54000, Resume_Discharge, Sw_State False] pms_start_st = Inr (st', out)
    \<and> sm_sv_pms_process 100 st' = Inr (r, st2, out2) \<and> sv_pms_ok st2"
proof -
  obtain st' where r: "sv_pms_run [Set_Volt 54000, Resume_Discharge, Sw_State False] pms_start_st = Inr (st', [])"
      "pms_charger st' = sm_sv_charger_set_volt 54000 (pms_charger pms_start_st)"
    by (simp add: sv_pms_run_def)
  then have v: "chg_volt (pms_charger st') < prof_max_volt (chg_prof (pms_charger st'))"
    using pms_start_volt by (simp add: sm_sv_charger_set_volt_def pms_start_st_def sm_sv_pms_create_def sm_sv_charger_create_def
        g_charger_default_def g_charger_prof_default_def)
  show ?thesis using sv_pms_never_faults [OF pms_start_ok _ r(1) v, of 100] r(1) by auto
qed

lemma charger_overvoltage_faults_witness:
  "sm_sv_charger_process 7 (sm_sv_charger_set_volt 71000 g_charger_default, pick_sys) = Inl Wrong_Object"
  by (rule charger_overvoltage_faults)
    (simp_all add: sm_sv_charger_set_volt_def g_charger_default_def g_charger_prof_default_def timed_out_iff elapsed_timer_reset_def)

end
