(* ===== verification/Co_Sdo.thy ===== *)
theory Co_Sdo
  imports Prelude
begin

text \<open>
  What the SDO client and the SDO server of \<^verbatim>\<open>libs/canopen\<close> share: the structure \<^verbatim>\<open>CO_SDO\<close>, aborts, the
  timer, the memory functions of \<^verbatim>\<open>CO_utils.h\<close>, and the SYNC object whose counter the client follows.
\<close>

section \<open>Memory\<close>

text \<open>
  \<^verbatim>\<open>CO_memcpy(dst + i, src + j, n)\<close>. A pointer is \<open>None\<close> when it is null, and otherwise the array it points
  to in its full length. Nothing is read or written when \<open>n\<close> is 0.
\<close>

definition mem_read :: "u8 list option \<Rightarrow> nat \<Rightarrow> nat \<Rightarrow> fault + u8 list" where
  "mem_read p j n =
     (if n = 0 then Inr []
      else (case p of None \<Rightarrow> Inl Null_Deref
            | Some xs \<Rightarrow> if length xs < j + n then Inl Out_Of_Bounds else Inr (take n (drop j xs))))"

definition mem_write :: "u8 list option \<Rightarrow> nat \<Rightarrow> u8 list \<Rightarrow> fault + u8 list option" where
  "mem_write p i ys =
     (if ys = [] then Inr p
      else (case p of None \<Rightarrow> Inl Null_Deref
            | Some xs \<Rightarrow> if length xs < i + length ys then Inl Out_Of_Bounds
                        else Inr (Some (take i xs @ ys @ drop (i + length ys) xs))))"

definition CO_memcpy :: "u8 list option \<Rightarrow> nat \<Rightarrow> u8 list option \<Rightarrow> nat \<Rightarrow> nat \<Rightarrow> fault + u8 list option" where
  "CO_memcpy dst i src j n = (case mem_read src j n of Inl f \<Rightarrow> Inl f | Inr ys \<Rightarrow> mem_write dst i ys)"

definition CO_getUint16 :: "nat \<Rightarrow> u8 list \<Rightarrow> nat" where
  "CO_getUint16 i xs = unat (xs ! i) + 256 * unat (xs ! (i + 1))"

definition CO_getUint32 :: "nat \<Rightarrow> u8 list \<Rightarrow> nat" where
  "CO_getUint32 i xs =
     unat (xs ! i) + 256 * unat (xs ! (i + 1)) + 65536 * unat (xs ! (i + 2)) + 16777216 * unat (xs ! (i + 3))"

definition CO_setUint16 :: "nat \<Rightarrow> nat \<Rightarrow> u8 list \<Rightarrow> u8 list" where
  "CO_setUint16 i v xs = xs[i := of_nat v, i + 1 := of_nat (v div 256)]"

definition CO_setUint32 :: "nat \<Rightarrow> nat \<Rightarrow> u8 list \<Rightarrow> u8 list" where
  "CO_setUint32 i v xs =
     xs[i := of_nat v, i + 1 := of_nat (v div 256), i + 2 := of_nat (v div 65536), i + 3 := of_nat (v div 16777216)]"

text \<open>Additions of a 16-bit field.\<close>

abbreviation (input) u16_add :: "nat \<Rightarrow> nat \<Rightarrow> nat" where "u16_add a b \<equiv> (a + b) mod 65536"

section \<open>Sub-objects of the object dictionary\<close>

datatype CO_Sub_Object_Ext_Confirm_Func_t = CO_EXT_CONFIRM_processing | CO_EXT_CONFIRM_abort | CO_EXT_CONFIRM_success
  | CO_EXT_CONFIRM_copy_and_success

text \<open>
  A buffer is \<open>None\<close> for a null pointer. The extension is its shadow buffer; what its confirmation
  function answers is an input of the server. The buffers of one sub-object are taken to be distinct.
\<close>

record CO_Sub_Object =
  p_data :: "u8 list option"
  so_attr :: nat
  so_len :: nat
  p_ext :: "u8 list option option"
  p_temp_data :: "u8 list option"

abbreviation (input) "ODA_SDO_R \<equiv> 1 :: nat"
abbreviation (input) "ODA_SDO_W \<equiv> 2 :: nat"
abbreviation (input) "ODA_SDO_RW \<equiv> 3 :: nat"
abbreviation (input) "ODA_VWTE_after_reset \<equiv> 256 :: nat"

section \<open>The SDO structure\<close>

datatype CO_SDO_state_t = CO_SDO_ST_IDLE | CO_SDO_ST_DOWNLOAD_INITIATE_REQ | CO_SDO_ST_DOWNLOAD_INITIATE_RSP
  | CO_SDO_ST_DOWNLOAD_SEGMENTED | CO_SDO_ST_UPLOAD_INITIATE_REQ | CO_SDO_ST_UPLOAD_INITIATE_RSP
  | CO_SDO_ST_UPLOAD_SEGMENTED

datatype CO_SDO_return_t = CO_SDO_RT_idle | CO_SDO_RT_busy | CO_SDO_RT_success | CO_SDO_RT_abort

text \<open>Abort codes are numbers; the ones the code sends:\<close>

abbreviation (input) "CO_SDO_AB_NONE \<equiv> 0x00000000 :: nat"
abbreviation (input) "CO_SDO_AB_TOGGLE_BIT \<equiv> 0x05030000 :: nat"
abbreviation (input) "CO_SDO_AB_TIMEOUT \<equiv> 0x05040000 :: nat"
abbreviation (input) "CO_SDO_AB_CMD \<equiv> 0x05040001 :: nat"
abbreviation (input) "CO_SDO_AB_OUT_OF_MEM \<equiv> 0x05040005 :: nat"
abbreviation (input) "CO_SDO_AB_UNSUPPORTED_ACCESS \<equiv> 0x06010000 :: nat"
abbreviation (input) "CO_SDO_AB_PRAM_INCOMPAT \<equiv> 0x06040043 :: nat"
abbreviation (input) "CO_SDO_AB_TYPE_MISMATCH \<equiv> 0x06070010 :: nat"
abbreviation (input) "CO_SDO_AB_SUB_UNKNOWN \<equiv> 0x06090011 :: nat"
abbreviation (input) "CO_SDO_AB_NO_RESOURCE \<equiv> 0x060A0023 :: nat"
abbreviation (input) "CO_SDO_AB_GENERAL \<equiv> 0x08000000 :: nat"
abbreviation (input) "CO_SDO_AB_DATA_LOC_CTRL \<equiv> 0x08000021 :: nat"

text \<open>
  \<open>tx_node\<close> and \<open>rx_node\<close> are the node bits of the two message identifiers. Sixteen-bit fields are
  numbers below \<open>2 ^ 16\<close>, with the wrap-around written out.
\<close>

record CO_SDO =
  sdo_valid :: bool
  rx_new :: bool
  rx_data :: "u8 list"
  tx_data :: "u8 list"
  tx_node :: nat
  rx_node :: nat
  buffer_offset :: nat
  trans_data_len :: nat
  sdo_toggle :: u8
  trans_type :: nat
  sync_mask_reg :: u32
  sdo_index :: nat
  sdo_sub_index :: nat
  timeout_cter_ms :: nat
  allowed_timeout_ms :: nat
  is_internal_processing :: bool
  tx_abort_code :: nat
  rx_abort_code :: nat
  sdo_state :: CO_SDO_state_t
  sdo_status :: CO_SDO_return_t

text \<open>A frame on the bus: identifier and eight data bytes.\<close>

type_synonym can_frame = "nat \<times> u8 list"
type_synonym 's sdo_result = "fault + (CO_SDO_return_t \<times> 's \<times> can_frame list)"

abbreviation (input) "CO_CAN_ID_SDO_SRV \<equiv> 0x580 :: nat"
abbreviation (input) "CO_CAN_ID_SDO_CLI \<equiv> 0x600 :: nat"

text \<open>Command specifiers and the masks of the command byte.\<close>

abbreviation (input) "CCS_DOWNLOAD_INITIATE \<equiv> 1 :: u8"
abbreviation (input) "CCS_DOWNLOAD_SEGMENT \<equiv> 0 :: u8"
abbreviation (input) "CCS_UPLOAD_INITIATE \<equiv> 2 :: u8"
abbreviation (input) "CCS_UPLOAD_SEGMENT \<equiv> 3 :: u8"
abbreviation (input) "CCS_ABORT \<equiv> 4 :: u8"
abbreviation (input) "SCS_DOWNLOAD_INITIATED \<equiv> 3 :: u8"
abbreviation (input) "SCS_DOWNLOAD_SEGMENT \<equiv> 1 :: u8"
abbreviation (input) "SCS_UPLOAD_INITIATE \<equiv> 2 :: u8"
abbreviation (input) "SCS_UPLOAD_SEGMENT \<equiv> 0 :: u8"
abbreviation (input) "SCS_ABORT \<equiv> 4 :: u8"

definition cs_of :: "u8 \<Rightarrow> u8" where
  "cs_of c = push_bit 5 c"

definition spec_of :: "u8 \<Rightarrow> u8" where
  "spec_of c = drop_bit 5 c"

definition rx_cs :: "'a CO_SDO_scheme \<Rightarrow> u8" where
  "rx_cs s = rx_data s ! 0"

text \<open>The command byte of an expedited transfer and of a segment with \<open>n\<close> bytes of data.\<close>

definition init_cs :: "u8 \<Rightarrow> nat \<Rightarrow> u8" where
  "init_cs c n = cs_of c OR (push_bit 2 (of_nat (4 - n)) AND 0x0C) OR 2 OR 1"

definition init_n :: "u8 \<Rightarrow> nat" where
  "init_n cs = 4 - unat (drop_bit 2 (cs AND 0x0C))"

definition last_cs :: "u8 \<Rightarrow> u8 \<Rightarrow> nat \<Rightarrow> u8" where
  "last_cs c tog n = cs_of c OR tog OR push_bit 1 (of_nat (7 - n)) OR 1"

section \<open>Timer and aborts\<close>

definition CO_SDOtimeout_reset_and_activate :: "'a CO_SDO_scheme \<Rightarrow> 'a CO_SDO_scheme" where
  "CO_SDOtimeout_reset_and_activate s = s\<lparr>timeout_cter_ms := 1\<rparr>"

definition CO_SDOtimeout_reset_and_inactivate :: "'a CO_SDO_scheme \<Rightarrow> 'a CO_SDO_scheme" where
  "CO_SDOtimeout_reset_and_inactivate s = s\<lparr>timeout_cter_ms := 0\<rparr>"

definition CO_SDOtimeout_increase :: "nat \<Rightarrow> 'a CO_SDO_scheme \<Rightarrow> 'a CO_SDO_scheme" where
  "CO_SDOtimeout_increase dt s = s\<lparr>timeout_cter_ms := u16_add (timeout_cter_ms s) dt\<rparr>"

definition CO_SDOtimeout_is_timeout :: "'a CO_SDO_scheme \<Rightarrow> bool" where
  "CO_SDOtimeout_is_timeout s \<longleftrightarrow> allowed_timeout_ms s < timeout_cter_ms s"

definition CO_SDOtimeout_is_activated :: "'a CO_SDO_scheme \<Rightarrow> bool" where
  "CO_SDOtimeout_is_activated s \<longleftrightarrow> 0 < timeout_cter_ms s"

definition CO_SDO_abort :: "nat \<Rightarrow> 'a CO_SDO_scheme \<Rightarrow> 'a CO_SDO_scheme" where
  "CO_SDO_abort code s = (CO_SDOtimeout_reset_and_inactivate (s\<lparr>tx_abort_code := code\<rparr>))
     \<lparr>rx_new := False, is_internal_processing := False, sdo_state := CO_SDO_ST_IDLE, sdo_status := CO_SDO_RT_abort\<rparr>"

text \<open>\<open>base\<close> is the function code of the sender: \<^verbatim>\<open>CO_CAN_ID_SDO_CLI\<close> or \<^verbatim>\<open>CO_CAN_ID_SDO_SRV\<close>.\<close>

definition CO_CAN_send :: "nat \<Rightarrow> 'a CO_SDO_scheme \<Rightarrow> can_frame list" where
  "CO_CAN_send base s = [(base + tx_node s, tx_data s)]"

definition CO_SDO_abort_and_response :: "nat \<Rightarrow> nat \<Rightarrow> 'a CO_SDO_scheme \<Rightarrow> 'a CO_SDO_scheme sdo_result" where
  "CO_SDO_abort_and_response base code s =
     (let s = s\<lparr>tx_data := CO_setUint32 4 code ((tx_data s)[0 := cs_of CCS_ABORT])\<rparr>
      in Inr (CO_SDO_RT_abort, CO_SDO_abort code s, CO_CAN_send base s))"

text \<open>Copying \<open>n\<close> bytes of an object into the message, and of the message into an object.\<close>

definition to_msg :: "nat \<Rightarrow> u8 list option \<Rightarrow> nat \<Rightarrow> nat \<Rightarrow> 'a CO_SDO_scheme \<Rightarrow> fault + 'a CO_SDO_scheme" where
  "to_msg i src j n s =
     (case CO_memcpy (Some (tx_data s)) i src j n of Inl f \<Rightarrow> Inl f
      | Inr None \<Rightarrow> Inl Null_Deref | Inr (Some xs) \<Rightarrow> Inr (s\<lparr>tx_data := xs\<rparr>))"

definition of_msg :: "u8 list option \<Rightarrow> nat \<Rightarrow> nat \<Rightarrow> nat \<Rightarrow> 'a CO_SDO_scheme \<Rightarrow> fault + u8 list option" where
  "of_msg dst i j n s = CO_memcpy dst i (Some (rx_data s)) j n"

section \<open>SYNC\<close>

record CO_SYNC =
  sync_id_valid :: bool
  sync_gen :: bool
  sync_can_id :: nat
  sync_new :: bool
  sync_msg :: "u8 list"
  cycle_period_ms :: nat
  window_length_ms :: nat
  max_sync_counter :: nat
  max_aux_sync_counter :: nat
  index_in_cycle :: nat
  time_in_cycle_ms :: nat
  sync_counter :: nat
  aux_sync_counter :: nat
  aux_sync_reg :: u32
  is_inside_window :: bool

definition CO_SYNC_update_aux_sync_reg :: "CO_SYNC \<Rightarrow> CO_SYNC" where
  "CO_SYNC_update_aux_sync_reg y = y\<lparr>aux_sync_reg := push_bit (aux_sync_counter y) 1\<rparr>"

text \<open>
  The identifier a message is sent with is the whole \<^verbatim>\<open>cob_id\<close>: bit 30 is set in the SYNC object of a
  producer, bit 31 in one that is not valid. Received identifiers are compared with the lower 29 bits.
\<close>

definition sync_cob_id :: "CO_SYNC \<Rightarrow> nat" where
  "sync_cob_id y = sync_can_id y + (if sync_gen y then 2 ^ 30 else 0) + (if sync_id_valid y then 0 else 2 ^ 31)"

definition CO_SYNC_send :: "CO_SYNC \<Rightarrow> CO_SYNC \<times> can_frame list" where
  "CO_SYNC_send y =
     (let y = y\<lparr>sync_msg := (CO_setUint16 0 (sync_counter y) (sync_msg y))[2 := of_nat (aux_sync_counter y)]\<rparr>
      in (y, [(sync_cob_id y, sync_msg y)]))"

definition sync_tick :: "nat \<Rightarrow> CO_SYNC \<Rightarrow> CO_SYNC" where
  "sync_tick dt y =
     (let t = u16_add (time_in_cycle_ms y) dt; i = u16_add (index_in_cycle y) 1
      in y\<lparr>time_in_cycle_ms := (if t > time_in_cycle_ms y then t else time_in_cycle_ms y),
           index_in_cycle := (if i > index_in_cycle y then i else index_in_cycle y)\<rparr>)"

definition sync_count :: "CO_SYNC \<Rightarrow> CO_SYNC" where
  "sync_count y =
     (let c = u16_add (sync_counter y) 1 in
      if c > max_sync_counter y then
        (let a = (aux_sync_counter y + 1) mod 256
         in CO_SYNC_update_aux_sync_reg
              (y\<lparr>sync_counter := 1, aux_sync_counter := (if a > max_aux_sync_counter y then 0 else a)\<rparr>))
      else y\<lparr>sync_counter := c\<rparr>)"

definition CO_SYNC_process :: "nat \<Rightarrow> CO_SYNC \<Rightarrow> CO_SYNC \<times> can_frame list" where
  "CO_SYNC_process dt y =
     (if \<not> sync_id_valid y then (y, [])
      else let y = sync_tick dt y;
               (y, out) =
                 (if sync_gen y then
                    (if time_in_cycle_ms y \<ge> cycle_period_ms y then
                       (case CO_SYNC_send (sync_count y) of (y, out) \<Rightarrow>
                          (y\<lparr>time_in_cycle_ms := 0, index_in_cycle := 0\<rparr>, out))
                     else (y, []))
                  else if sync_new y then
                    ((CO_SYNC_update_aux_sync_reg
                        (y\<lparr>sync_counter := CO_getUint16 0 (sync_msg y), aux_sync_counter := unat (sync_msg y ! 2)\<rparr>))
                       \<lparr>time_in_cycle_ms := 0, index_in_cycle := 0, sync_new := False\<rparr>, [])
                  else (y, []))
           in (y\<lparr>is_inside_window := (time_in_cycle_ms y \<le> window_length_ms y)\<rparr>, out))"

definition CO_SYNC_is_match_sync_mask_reg :: "CO_SYNC \<Rightarrow> u32 \<Rightarrow> bool" where
  "CO_SYNC_is_match_sync_mask_reg y m \<longleftrightarrow> aux_sync_reg y AND m \<noteq> 0"

end
