(* ===== verification/Sdo_Client.thy ===== *)
theory Sdo_Client
  imports Co_Sdo
begin

text \<open>
  \<^verbatim>\<open>libs/canopen/CO_SDOclient.c\<close>: download (write) and upload (read) of an object of a server, in one message when
  there are at most four bytes and in segments of seven bytes otherwise.
\<close>

record sdo_client = CO_SDO +
  cli_sub_obj :: "CO_Sub_Object option"

type_synonym client_result = "sdo_client sdo_result"

definition CO_SDOclient_init :: "nat \<Rightarrow> u32 \<Rightarrow> sdo_client \<Rightarrow> sdo_client" where
  "CO_SDOclient_init tt m s =
     s\<lparr>sdo_valid := True, tx_node := 0, rx_node := 0, rx_new := False, buffer_offset := 0, trans_data_len := 0,
       sdo_toggle := 0, trans_type := tt, sync_mask_reg := m, sdo_index := 0, sdo_sub_index := 0,
       cli_sub_obj := None, timeout_cter_ms := 0, allowed_timeout_ms := 0, is_internal_processing := False,
       tx_abort_code := CO_SDO_AB_NONE, rx_abort_code := CO_SDO_AB_NONE, sdo_state := CO_SDO_ST_IDLE,
       sdo_status := CO_SDO_RT_idle\<rparr>"

text \<open>The two start functions differ in the state they go to; the node identifier has seven bits.\<close>

definition client_start :: "CO_SDO_state_t \<Rightarrow> nat \<Rightarrow> nat \<Rightarrow> nat \<Rightarrow> CO_Sub_Object \<Rightarrow> nat \<Rightarrow> sdo_client \<Rightarrow> sdo_client" where
  "client_start st node idx sub obj timeout s =
     s\<lparr>sdo_status := CO_SDO_RT_busy, tx_node := node mod 128, rx_node := node mod 128, sdo_index := idx,
       sdo_sub_index := sub, allowed_timeout_ms := timeout, cli_sub_obj := Some obj,
       is_internal_processing := True, sdo_state := st\<rparr>"

definition CO_SDOclient_start_download :: "nat \<Rightarrow> nat \<Rightarrow> nat \<Rightarrow> CO_Sub_Object \<Rightarrow> nat \<Rightarrow> sdo_client \<Rightarrow> sdo_client" where
  "CO_SDOclient_start_download = client_start CO_SDO_ST_DOWNLOAD_INITIATE_REQ"

definition CO_SDOclient_start_upload :: "nat \<Rightarrow> nat \<Rightarrow> nat \<Rightarrow> CO_Sub_Object \<Rightarrow> nat \<Rightarrow> sdo_client \<Rightarrow> sdo_client" where
  "CO_SDOclient_start_upload = client_start CO_SDO_ST_UPLOAD_INITIATE_REQ"

definition client_send :: "sdo_client \<Rightarrow> can_frame list" where
  "client_send = CO_CAN_send CO_CAN_ID_SDO_CLI"

definition client_abort :: "nat \<Rightarrow> sdo_client \<Rightarrow> client_result" where
  "client_abort = CO_SDO_abort_and_response CO_CAN_ID_SDO_CLI"

definition CO_SDOclient_process_init_transfer_msg :: "sdo_client \<Rightarrow> sdo_client" where
  "CO_SDOclient_process_init_transfer_msg s =
     s\<lparr>sdo_toggle := 0, buffer_offset := 0,
       tx_data := (tx_data s)[1 := of_nat (sdo_index s), 2 := of_nat (sdo_index s div 256), 3 := of_nat (sdo_sub_index s)]\<rparr>"

definition CO_SDOclient_is_in_sync_window_len :: "CO_SYNC \<Rightarrow> sdo_client \<Rightarrow> bool" where
  "CO_SDOclient_is_in_sync_window_len y s \<longleftrightarrow>
     trans_type s = 0 \<or> sync_counter y = trans_type s \<and> CO_SYNC_is_match_sync_mask_reg y (sync_mask_reg s)"

text \<open>Reading through \<^verbatim>\<open>p_sub_obj\<close>.\<close>

definition with_obj :: "sdo_client \<Rightarrow> (CO_Sub_Object \<Rightarrow> fault + 'r) \<Rightarrow> fault + 'r" where
  "with_obj s f = (case cli_sub_obj s of None \<Rightarrow> Inl Null_Deref | Some obj \<Rightarrow> f obj)"

definition and_msg :: "fault + sdo_client \<Rightarrow> (sdo_client \<Rightarrow> client_result) \<Rightarrow> client_result" where
  "and_msg r f = (case r of Inl e \<Rightarrow> Inl e | Inr s \<Rightarrow> f s)"

section \<open>Download\<close>

definition CO_SDOclient_download_initiate_request_handle :: "sdo_client \<Rightarrow> client_result" where
  "CO_SDOclient_download_initiate_request_handle s = with_obj s (\<lambda>obj.
     let s = (CO_SDOclient_process_init_transfer_msg s)\<lparr>trans_data_len := so_len obj\<rparr>; n = so_len obj in
     and_msg
       (if n \<le> 4 then to_msg 4 (p_data obj) 0 n (s\<lparr>tx_data := (tx_data s)[0 := init_cs CCS_DOWNLOAD_INITIATE n]\<rparr>)
        else Inr (s\<lparr>tx_data := CO_setUint32 4 n ((tx_data s)[0 := cs_of CCS_DOWNLOAD_INITIATE OR 1])\<rparr>))
       (\<lambda>s. Inr (CO_SDO_RT_busy,
          (CO_SDOtimeout_reset_and_activate s)\<lparr>is_internal_processing := False, sdo_state := CO_SDO_ST_DOWNLOAD_INITIATE_RSP\<rparr>,
          client_send s)))"

text \<open>
  The next segment of the data, from the offset on: what \<^verbatim>\<open>download_initiate_response_handle\<close> does for the first
  segment and \<^verbatim>\<open>download_segment_handle\<close> for the others. \<open>off\<close> is the offset it reads from.
\<close>

definition client_segment :: "nat \<Rightarrow> sdo_client \<Rightarrow> client_result" where
  "client_segment off s = with_obj s (\<lambda>obj.
     and_msg
       (if trans_data_len s \<le> buffer_offset s + 7 then
          (let n = (trans_data_len s - off) mod 256 in
           case to_msg 1 (p_data obj) off n s of Inl f \<Rightarrow> Inl f
           | Inr s \<Rightarrow> Inr (s\<lparr>buffer_offset := trans_data_len s,
                          tx_data := (tx_data s)[0 := last_cs CCS_DOWNLOAD_SEGMENT (sdo_toggle s) n]\<rparr>))
        else
          (case to_msg 1 (p_data obj) off 7 s of Inl f \<Rightarrow> Inl f
           | Inr s \<Rightarrow> Inr (s\<lparr>buffer_offset := u16_add off 7,
                          tx_data := (tx_data s)[0 := cs_of CCS_DOWNLOAD_SEGMENT OR sdo_toggle s]\<rparr>)))
       (\<lambda>s. Inr (CO_SDO_RT_busy,
          (CO_SDOtimeout_reset_and_activate s)\<lparr>sdo_state := CO_SDO_ST_DOWNLOAD_SEGMENTED\<rparr>, client_send s)))"

text \<open>The multiplexor of an answer: index and sub-index.\<close>

definition mux_ok :: "sdo_client \<Rightarrow> bool" where
  "mux_ok s \<longleftrightarrow> CO_getUint16 1 (rx_data s) = sdo_index s \<and> unat (rx_data s ! 3) = sdo_sub_index s"

definition CO_SDOclient_download_initiate_response_handle :: "sdo_client \<Rightarrow> client_result" where
  "CO_SDOclient_download_initiate_response_handle s =
     (if spec_of (rx_cs s) \<noteq> SCS_DOWNLOAD_INITIATED then client_abort CO_SDO_AB_NO_RESOURCE s
      else if \<not> mux_ok s then client_abort CO_SDO_AB_PRAM_INCOMPAT s
      else if trans_data_len s \<le> 4 then Inr (CO_SDO_RT_success, s\<lparr>sdo_state := CO_SDO_ST_IDLE\<rparr>, [])
      else client_segment 0 s)"

definition CO_SDOclient_download_segment_handle :: "sdo_client \<Rightarrow> client_result" where
  "CO_SDOclient_download_segment_handle s =
     (if spec_of (rx_cs s) \<noteq> SCS_DOWNLOAD_SEGMENT then client_abort CO_SDO_AB_NO_RESOURCE s
      else if rx_cs s AND 0x10 \<noteq> sdo_toggle s then client_abort CO_SDO_AB_TOGGLE_BIT s
      else let s = s\<lparr>sdo_toggle := sdo_toggle s XOR 0x10\<rparr> in
        if trans_data_len s \<le> buffer_offset s then Inr (CO_SDO_RT_success, s\<lparr>sdo_state := CO_SDO_ST_IDLE\<rparr>, [])
        else client_segment (buffer_offset s) s)"

section \<open>Upload\<close>

definition CO_SDOclient_upload_initiate_request_handle :: "sdo_client \<Rightarrow> client_result" where
  "CO_SDOclient_upload_initiate_request_handle s =
     (let s = CO_SDOclient_process_init_transfer_msg s;
          s = s\<lparr>tx_data := (tx_data s)[0 := cs_of CCS_UPLOAD_INITIATE]\<rparr>
      in Inr (CO_SDO_RT_busy,
           (CO_SDOtimeout_reset_and_activate s)\<lparr>is_internal_processing := False, sdo_state := CO_SDO_ST_UPLOAD_INITIATE_RSP\<rparr>,
           client_send s))"

text \<open>Storing received bytes in the object of the caller.\<close>

definition client_store :: "nat \<Rightarrow> nat \<Rightarrow> nat \<Rightarrow> sdo_client \<Rightarrow> fault + sdo_client" where
  "client_store i j n s = with_obj s (\<lambda>obj.
     case of_msg (p_data obj) i j n s of Inl f \<Rightarrow> Inl f
     | Inr xs \<Rightarrow> Inr (s\<lparr>cli_sub_obj := Some (obj\<lparr>p_data := xs\<rparr>)\<rparr>))"

definition CO_SDOclient_upload_initiate_response_handle :: "sdo_client \<Rightarrow> client_result" where
  "CO_SDOclient_upload_initiate_response_handle s =
     (if spec_of (rx_cs s) \<noteq> SCS_UPLOAD_INITIATE then client_abort CO_SDO_AB_NO_RESOURCE s
      else if \<not> mux_ok s then client_abort CO_SDO_AB_PRAM_INCOMPAT s
      else if rx_cs s AND 3 = 3 then
        (let s = s\<lparr>trans_data_len := init_n (rx_cs s)\<rparr> in with_obj s (\<lambda>obj.
           if so_len obj < trans_data_len s then Inr (CO_SDO_RT_abort, CO_SDO_abort CO_SDO_AB_OUT_OF_MEM s, [])
           else and_msg (client_store 0 4 (trans_data_len s) s)
             (\<lambda>s. Inr (CO_SDO_RT_success, s\<lparr>buffer_offset := trans_data_len s, sdo_state := CO_SDO_ST_IDLE\<rparr>, []))))
      else if rx_cs s AND 3 = 1 then
        (let s = s\<lparr>trans_data_len := CO_getUint32 4 (rx_data s) mod 65536\<rparr> in with_obj s (\<lambda>obj.
           if so_len obj < trans_data_len s then client_abort CO_SDO_AB_OUT_OF_MEM s
           else let s = s\<lparr>buffer_offset := 0, tx_data := (tx_data s)[0 := cs_of CCS_UPLOAD_SEGMENT]\<rparr>
                in Inr (CO_SDO_RT_busy, (CO_SDOtimeout_reset_and_activate s)\<lparr>sdo_state := CO_SDO_ST_UPLOAD_SEGMENTED\<rparr>,
                     client_send s)))
      else client_abort CO_SDO_AB_TYPE_MISMATCH s)"

definition CO_SDOclient_upload_segment_handle :: "sdo_client \<Rightarrow> client_result" where
  "CO_SDOclient_upload_segment_handle s =
     (if spec_of (rx_cs s) \<noteq> SCS_UPLOAD_SEGMENT then client_abort CO_SDO_AB_NO_RESOURCE s
      else if rx_cs s AND 0x10 \<noteq> sdo_toggle s then client_abort CO_SDO_AB_TOGGLE_BIT s
      else let s = s\<lparr>sdo_toggle := sdo_toggle s XOR 0x10\<rparr> in
        if trans_data_len s \<le> buffer_offset s + 7 then
          (if rx_cs s AND 1 \<noteq> 1 then client_abort CO_SDO_AB_GENERAL s
           else and_msg (client_store (buffer_offset s) 1 ((trans_data_len s + 65536 - buffer_offset s) mod 65536) s)
             (\<lambda>s. Inr (CO_SDO_RT_success, s\<lparr>buffer_offset := trans_data_len s, sdo_state := CO_SDO_ST_IDLE\<rparr>, [])))
        else if rx_cs s AND 1 = 1 then client_abort CO_SDO_AB_GENERAL s
        else and_msg (client_store (buffer_offset s) 1 7 s)
          (\<lambda>s. let s = s\<lparr>buffer_offset := u16_add (buffer_offset s) 7,
                        tx_data := (tx_data s)[0 := cs_of CCS_UPLOAD_SEGMENT OR sdo_toggle s]\<rparr>
               in Inr (CO_SDO_RT_busy, CO_SDOtimeout_reset_and_activate s, client_send s)))"

section \<open>The periodic step\<close>

definition client_handle :: "sdo_client \<Rightarrow> client_result" where
  "client_handle s =
     (case sdo_state s of
        CO_SDO_ST_DOWNLOAD_INITIATE_REQ \<Rightarrow> CO_SDOclient_download_initiate_request_handle s
      | CO_SDO_ST_DOWNLOAD_INITIATE_RSP \<Rightarrow> CO_SDOclient_download_initiate_response_handle s
      | CO_SDO_ST_DOWNLOAD_SEGMENTED \<Rightarrow> CO_SDOclient_download_segment_handle s
      | CO_SDO_ST_UPLOAD_INITIATE_REQ \<Rightarrow> CO_SDOclient_upload_initiate_request_handle s
      | CO_SDO_ST_UPLOAD_INITIATE_RSP \<Rightarrow> CO_SDOclient_upload_initiate_response_handle s
      | CO_SDO_ST_UPLOAD_SEGMENTED \<Rightarrow> CO_SDOclient_upload_segment_handle s
      | CO_SDO_ST_IDLE \<Rightarrow> Inr (CO_SDO_RT_busy, s, []))"

definition CO_SDOclient_step :: "CO_SYNC \<Rightarrow> nat \<Rightarrow> sdo_client \<Rightarrow> client_result" where
  "CO_SDOclient_step y dt s =
     (if \<not> sdo_valid s then Inr (CO_SDO_RT_busy, s, [])
      else if sdo_state s = CO_SDO_ST_IDLE then Inr (CO_SDO_RT_idle, s, [])
      else
        let active = CO_SDOtimeout_is_activated s;
            s = (if active then CO_SDOtimeout_increase dt s else s) in
        if active \<and> CO_SDOtimeout_is_timeout s then Inr (CO_SDO_RT_abort, CO_SDO_abort CO_SDO_AB_TIMEOUT s, [])
        else if \<not> CO_SDOclient_is_in_sync_window_len y s then Inr (CO_SDO_RT_busy, s, [])
        else if \<not> rx_new s \<and> \<not> is_internal_processing s then Inr (CO_SDO_RT_busy, s, [])
        else
          let new = rx_new s;
              s = (if new then CO_SDOtimeout_reset_and_inactivate s else s) in
          if new \<and> spec_of (rx_cs s) = SCS_ABORT
          then Inr (CO_SDO_RT_abort,
                 s\<lparr>rx_abort_code := CO_getUint32 4 (rx_data s), rx_new := False, sdo_state := CO_SDO_ST_IDLE\<rparr>, [])
          else (case client_handle s of Inl f \<Rightarrow> Inl f
                | Inr (ret, s, out) \<Rightarrow> Inr (ret, s\<lparr>rx_new := False\<rparr>, out)))"

definition CO_SDOclient_process :: "CO_SYNC \<Rightarrow> nat \<Rightarrow> sdo_client \<Rightarrow> fault + (sdo_client \<times> can_frame list)" where
  "CO_SDOclient_process y dt s =
     (case CO_SDOclient_step y dt s of Inl f \<Rightarrow> Inl f
      | Inr (ret, s, out) \<Rightarrow> Inr (if ret = CO_SDO_RT_idle then s else s\<lparr>sdo_status := ret\<rparr>, out))"

text \<open>A message on the bus for the client: \<^verbatim>\<open>CO_can_receive_basic_handle\<close>, as far as the client is concerned.\<close>

definition client_receive :: "can_frame \<Rightarrow> sdo_client \<Rightarrow> sdo_client" where
  "client_receive = (\<lambda>(id, d) s.
     if id = CO_CAN_ID_SDO_SRV + rx_node s \<and> sdo_state s \<noteq> CO_SDO_ST_IDLE then s\<lparr>rx_data := d, rx_new := True\<rparr> else s)"

end
