(* ===== verification/Object_Dict.thy ===== *)
theory Object_Dict
  imports Co_Sdo
begin

text \<open>
  \<^verbatim>\<open>libs/canopen/CO_OD.c\<close>, \<^verbatim>\<open>CO_OD.h\<close>: the object dictionary, an array of objects ordered by index, and
  the search in it.
\<close>

record CO_Object =
  obj_index :: nat
  sub_number :: nat
  obj_subs :: "CO_Sub_Object list"

record CO_OD =
  od_number :: nat
  od_list :: "CO_Object list"

abbreviation (input) "OD_UNSUPPORT_ENTRY \<equiv> 0xFFFF :: nat"

text \<open>The loop of \<^verbatim>\<open>CO_OD_get_no\<close> and what follows it.\<close>

function od_search :: "CO_Object list \<Rightarrow> nat \<Rightarrow> nat \<Rightarrow> nat \<Rightarrow> fault + nat" where
  "od_search l i mn mx =
     (if mn < mx then
        (let cur = (mn + mx) div 2 in
         if length l \<le> cur then Inl Out_Of_Bounds
         else if i = obj_index (l ! cur) then Inr cur
         else if i < obj_index (l ! cur) then od_search l i mn (cur - 1)
         else od_search l i (cur + 1) mx)
      else if mn = mx then
        (if length l \<le> mn then Inl Out_Of_Bounds
         else if i = obj_index (l ! mn) then Inr mn else Inr OD_UNSUPPORT_ENTRY)
      else Inr OD_UNSUPPORT_ENTRY)"
  by pat_completeness auto

termination by (relation "measure (\<lambda>(l, i, mn, mx). mx - mn)") auto

declare od_search.simps [simp del]

definition CO_OD_get_no :: "CO_OD \<Rightarrow> nat \<Rightarrow> fault + nat" where
  "CO_OD_get_no od i = od_search (od_list od) i 0 (od_number od)"

definition CO_OD_get_sub_object_pointer :: "CO_OD \<Rightarrow> nat \<Rightarrow> nat \<Rightarrow> (nat \<times> nat) option" where
  "CO_OD_get_sub_object_pointer od no sub =
     (if od_number od \<le> no \<or> no = OD_UNSUPPORT_ENTRY \<or> sub_number (od_list od ! no) \<le> sub then None else Some (no, sub))"

section \<open>The search is a search\<close>

definition od_ok :: "CO_OD \<Rightarrow> bool" where
  "od_ok od \<longleftrightarrow> od_number od = length (od_list od) \<and> od_number od < OD_UNSUPPORT_ENTRY
     \<and> sorted_wrt (<) (map obj_index (od_list od))
     \<and> (\<forall>obj \<in> set (od_list od). sub_number obj \<le> length (obj_subs obj))"

text \<open>The reference: a linear search.\<close>

fun position :: "('a \<Rightarrow> bool) \<Rightarrow> 'a list \<Rightarrow> nat option" where
  "position p [] = None"
| "position p (x # xs) = (if p x then Some 0 else map_option Suc (position p xs))"

lemma position_None: "position p xs = None \<longleftrightarrow> (\<forall>x \<in> set xs. \<not> p x)"
  by (induction xs) auto

lemma position_Some: "position p xs = Some k \<Longrightarrow> k < length xs \<and> p (xs ! k)"
  by (induction xs arbitrary: k) (auto split: if_splits)

lemma position_eqI:
  assumes "k < length xs" "p (xs ! k)" "\<And>j. j < k \<Longrightarrow> \<not> p (xs ! j)"
  shows "position p xs = Some k"
  using assms
proof (induction xs arbitrary: k)
  case (Cons x xs)
  show ?case
  proof (cases k)
    case (Suc m)
    have "\<not> p x" using Cons.prems(3) [of 0] Suc by simp
    moreover have "position p xs = Some m"
    proof (rule Cons.IH)
      show "\<not> p (xs ! j)" if "j < m" for j using Cons.prems(3) [of "Suc j"] that Suc by simp
    qed (use Cons.prems Suc in auto)
    ultimately show ?thesis using Suc by simp
  qed (use Cons.prems in simp)
qed simp

text \<open>The specification: the position of the index; past the last entry the array is read outside its bounds.\<close>

definition od_find :: "CO_Object list \<Rightarrow> nat \<Rightarrow> fault + nat" where
  "od_find l i =
    (case position (\<lambda>obj. obj_index obj = i) l of Some k \<Rightarrow> Inr k
     | None \<Rightarrow> if \<forall>obj \<in> set l. obj_index obj < i then Inl Out_Of_Bounds else Inr OD_UNSUPPORT_ENTRY)"

lemma strictly_sorted_nth:
  "sorted_wrt (<) (map obj_index l) \<Longrightarrow> j < k \<Longrightarrow> k < length l \<Longrightarrow> obj_index (l ! j) < obj_index (l ! k)"
  by (simp add: sorted_wrt_iff_nth_less)

lemma od_find_hit:
  assumes "sorted_wrt (<) (map obj_index l)" "k < length l" "obj_index (l ! k) = i"
  shows "od_find l i = Inr k"
proof -
  have "position (\<lambda>obj. obj_index obj = i) l = Some k"
    using assms strictly_sorted_nth [OF assms(1) _ assms(2)] by (intro position_eqI) fastforce+
  then show ?thesis by (simp add: od_find_def)
qed

lemma od_find_miss:
  assumes "\<forall>k < length l. obj_index (l ! k) \<noteq> i" "k < length l" "i < obj_index (l ! k)"
  shows "od_find l i = Inr OD_UNSUPPORT_ENTRY"
proof -
  have "position (\<lambda>obj. obj_index obj = i) l = None"
    using assms(1) by (auto simp: position_None in_set_conv_nth)
  moreover have "\<not> (\<forall>obj \<in> set l. obj_index obj < i)" using assms(2,3) by (meson nth_mem not_less_iff_gr_or_eq)
  ultimately show ?thesis by (simp only: od_find_def option.case if_False)
qed

lemma od_find_beyond:
  assumes "\<forall>k < length l. obj_index (l ! k) < i"
  shows "od_find l i = Inl Out_Of_Bounds"
proof -
  have *: "\<forall>obj \<in> set l. obj_index obj < i" using assms by (metis in_set_conv_nth)
  then have "position (\<lambda>obj. obj_index obj = i) l = None" by (auto simp: position_None)
  with * show ?thesis by (simp add: od_find_def)
qed

lemma od_search_spec:
  assumes "sorted_wrt (<) (map obj_index l)" "mx \<le> length l"
    and "\<forall>k < mn. obj_index (l ! k) < i" "\<forall>k < length l. mx < k \<longrightarrow> i < obj_index (l ! k)"
    and "mn \<le> mx \<or> mn = Suc mx" "mx = length l \<and> mn \<le> mx \<or> (\<exists>k < length l. i < obj_index (l ! k))"
  shows "od_search l i mn mx = od_find l i"
  using assms
proof (induction l i mn mx rule: od_search.induct)
  case (1 l i mn mx)
  let ?c = "(mn + mx) div 2"
  consider (loop) "mn < mx" | (one) "mn = mx" | (cross) "mx < mn" by linarith
  then show ?case
  proof cases
    case loop
    then have c: "?c < length l" "mn \<le> ?c" "?c < mx" using "1.prems"(2) by auto
    consider "i = obj_index (l ! ?c)" | "i < obj_index (l ! ?c)" | "obj_index (l ! ?c) < i" by linarith
    then show ?thesis
    proof cases
      assume "i = obj_index (l ! ?c)"
      then show ?thesis using loop c od_find_hit [OF "1.prems"(1) c(1)] by (subst od_search.simps) (simp add: Let_def)
    next
      assume i: "i < obj_index (l ! ?c)"
      have above: "\<forall>k < length l. ?c - 1 < k \<longrightarrow> i < obj_index (l ! k)"
      proof (intro allI impI)
        fix k assume k: "k < length l" "?c - 1 < k"
        show "i < obj_index (l ! k)"
        proof (cases "k = ?c")
          case False
          then have "?c < k" using k by linarith
          then show ?thesis using strictly_sorted_nth [OF "1.prems"(1) _ k(1)] i by (meson less_trans)
        qed (use i in simp)
      qed
      have "od_search l i mn (?c - 1) = od_find l i"
        by (rule "1.IH"(1) [OF loop refl _ _ i]) (use "1.prems" above c i in \<open>auto\<close>)
      then show ?thesis using loop c i by (subst od_search.simps) (simp add: Let_def)
    next
      assume i: "obj_index (l ! ?c) < i"
      have below: "\<forall>k < ?c + 1. obj_index (l ! k) < i"
        using strictly_sorted_nth [OF "1.prems"(1) _ c(1)] i by (metis less_Suc_eq less_trans Suc_eq_plus1)
      have "od_search l i (?c + 1) mx = od_find l i"
        by (rule "1.IH"(2) [OF loop refl]) (use "1.prems" below c i in \<open>auto\<close>)
      then show ?thesis using loop c i by (subst od_search.simps) (simp add: Let_def)
    qed
  next
    case one
    show ?thesis
    proof (cases "mx < length l")
      case True
      show ?thesis
      proof (cases "i = obj_index (l ! mn)")
        case False
        have "\<forall>k < length l. obj_index (l ! k) \<noteq> i"
          using "1.prems"(3,4) one False by (metis less_not_refl linorder_neqE_nat)
        moreover obtain k where "k < length l" "i < obj_index (l ! k)" using "1.prems"(6) True by auto
        ultimately show ?thesis using od_find_miss one True False by (subst od_search.simps) simp
      qed (use one True od_find_hit [OF "1.prems"(1)] in \<open>simp add: od_search.simps [of l _ mx mx]\<close>)
    next
      case False
      then show ?thesis using one "1.prems"(2,3) od_find_beyond [of l i] by (subst od_search.simps) simp
    qed
  next
    case cross
    then have "mn = Suc mx" using "1.prems"(5) by auto
    moreover have "\<forall>k < length l. obj_index (l ! k) \<noteq> i"
      using "1.prems"(3,4) \<open>mn = Suc mx\<close> by (metis less_not_refl linorder_neqE_nat less_Suc_eq)
    moreover obtain k where "k < length l" "i < obj_index (l ! k)" using "1.prems"(6) cross by auto
    ultimately show ?thesis using od_find_miss by (subst od_search.simps) simp
  qed
qed

lemma CO_OD_get_no_find: "od_ok od \<Longrightarrow> CO_OD_get_no od i = od_find (od_list od) i"
  unfolding CO_OD_get_no_def od_ok_def by (intro od_search_spec) auto

text \<open>C31.
  On a dictionary ordered by index the binary search returns the position a search from the first entry on would
  find, for every index that is in it, and the code for an unknown object when an index is missing and some entry
  has a larger one. When the index is larger than all entries, the last comparison is made with the entry
  after the end of the array.\<close>

theorem CO_OD_get_no_is_linear_search:
  assumes "od_number od = length (od_list od)" "sorted_wrt (<) (map obj_index (od_list od))"
  shows "CO_OD_get_no od i =
    (case position (\<lambda>obj. obj_index obj = i) (od_list od) of Some k \<Rightarrow> Inr k
     | None \<Rightarrow> if \<forall>obj \<in> set (od_list od). obj_index obj < i then Inl Out_Of_Bounds else Inr OD_UNSUPPORT_ENTRY)"
  unfolding CO_OD_get_no_def od_find_def [symmetric] by (intro od_search_spec) (use assms in auto)

theorem CO_OD_get_no_is_linear_search_witness:
  "(let od = \<lparr>od_number = 3, od_list = map (\<lambda>i. \<lparr>obj_index = i, sub_number = 0, obj_subs = []\<rparr>) [0x1000, 0x2005, 0x2180]\<rparr>
    in CO_OD_get_no od 0x2180 = Inr 2 \<and> CO_OD_get_no od 0x2000 = Inr 0xFFFF \<and> CO_OD_get_no od 0x3000 = Inl Out_Of_Bounds)"
  unfolding Let_def
  by (subst (1 2 3) CO_OD_get_no_is_linear_search) simp_all

section \<open>The number of passes\<close>

text \<open>The same loop with a bound on the number of its passes; \<open>None\<close> is a search that needs more.\<close>

fun od_search_in :: "nat \<Rightarrow> CO_Object list \<Rightarrow> nat \<Rightarrow> nat \<Rightarrow> nat \<Rightarrow> (fault + nat) option" where
  "od_search_in n l i mn mx =
     (if mn < mx then
        (case n of 0 \<Rightarrow> None
         | Suc n \<Rightarrow>
             let cur = (mn + mx) div 2 in
             if length l \<le> cur then Some (Inl Out_Of_Bounds)
             else if i = obj_index (l ! cur) then Some (Inr cur)
             else if i < obj_index (l ! cur) then od_search_in n l i mn (cur - 1)
             else od_search_in n l i (cur + 1) mx)
      else Some (od_search l i mn mx))"

declare od_search_in.simps [simp del]

lemma od_search_in_enough: "mx - mn + 2 \<le> 2 * 2 ^ n \<Longrightarrow> od_search_in n l i mn mx = Some (od_search l i mn mx)"
proof (induction n arbitrary: mn mx)
  case 0
  then show ?case by (subst od_search_in.simps) simp
next
  case (Suc n)
  let ?c = "(mn + mx) div 2"
  show ?case
  proof (cases "mn < mx")
    case True
    have "?c - 1 - mn + 2 \<le> 2 * 2 ^ n" "mx - (?c + 1) + 2 \<le> 2 * 2 ^ n" using Suc.prems True by auto
    then have "od_search_in n l i mn (?c - 1) = Some (od_search l i mn (?c - 1))"
      "od_search_in n l i (?c + 1) mx = Some (od_search l i (?c + 1) mx)" using Suc.IH by blast+
    then show ?thesis using True
      by (subst od_search_in.simps, subst od_search.simps) (simp add: Let_def)
  qed (subst od_search_in.simps, simp)
qed

text \<open>
  The comment over \<^verbatim>\<open>CO_OD_get_no\<close>: with up to \<open>2 ^ N\<close> entries the search ends after at most \<open>N\<close> passes of its loop,
  whatever the order of the entries. It is true from \<open>N = 1\<close> on: a dictionary of one entry takes one pass too.\<close>

theorem CO_OD_get_no_passes:
  assumes "od_number od \<le> 2 ^ N" "0 < N"
  shows "od_search_in N (od_list od) i 0 (od_number od) = Some (CO_OD_get_no od i)"
proof -
  have "2 \<le> (2::nat) ^ N" using assms(2) by (cases N) simp_all
  then show ?thesis using assms(1) unfolding CO_OD_get_no_def by (intro od_search_in_enough) simp
qed

theorem CO_OD_get_no_passes_witness:
  "od_search_in 2 (map (\<lambda>k. \<lparr>obj_index = k, sub_number = 0, obj_subs = []\<rparr>) [1, 3, 5, 7]) 5 0 4 = Some (Inr 2)
   \<and> od_search_in 0 [\<lparr>obj_index = 1, sub_number = 0, obj_subs = []\<rparr>] 1 0 1 = None"
proof -
  define od where "od = \<lparr>od_number = 4, od_list = map (\<lambda>k. \<lparr>obj_index = k, sub_number = 0, obj_subs = []\<rparr>) [1, 3, 5, 7]\<rparr>"
  have "CO_OD_get_no od 5 = Inr 2"
    by (simp add: od_def CO_OD_get_no_def od_search.simps)
  then show ?thesis using CO_OD_get_no_passes [of od 2 5] by (simp add: od_def od_search_in.simps)
qed

end
