(* ===== verification/Sdo_Server.thy ===== *)
theory Sdo_Server
  imports Object_Dict
begin

text \<open>
  \<^verbatim>\<open>libs/canopen/CO_SDOserver.c\<close>: answers downloads and uploads on the objects of the dictionary. A
  sub-object may have an extension: its data then go to a shadow buffer, and a function of the
  application confirms the write, at once or after a while.
\<close>

datatype data_itf = Itf_None | Itf_Data | Itf_Temp | Itf_Shadow

record sdo_server = CO_SDO +
  srv_od :: CO_OD
  object_no :: nat
  srv_sub_obj :: "(nat \<times> nat) option"
  p_data_itf :: data_itf

type_synonym server_result = "sdo_server sdo_result"

text \<open>What a confirmation function does: its answer, and the abort code it may set (0 for none).\<close>

type_synonym confirm = "CO_Sub_Object_Ext_Confirm_Func_t \<times> nat"

definition CO_SDOserver_init :: "nat \<Rightarrow> nat \<Rightarrow> nat \<Rightarrow> CO_OD \<Rightarrow> sdo_server \<Rightarrow> sdo_server" where
  "CO_SDOserver_init node tt timeout od s =
     s\<lparr>sdo_valid := True, tx_node := node, rx_node := node, rx_new := False, buffer_offset := 0, trans_data_len := 0,
       sdo_toggle := 0, trans_type := tt, object_no := 0, srv_od := od, sdo_index := 0, sdo_sub_index := 0,
       srv_sub_obj := None, p_data_itf := Itf_None, timeout_cter_ms := 0, allowed_timeout_ms := timeout,
       is_internal_processing := False, tx_abort_code := CO_SDO_AB_NONE, rx_abort_code := CO_SDO_AB_NONE,
       sdo_state := CO_SDO_ST_IDLE, sdo_status := CO_SDO_RT_idle\<rparr>"

definition CO_SDOserver_set_node_id :: "nat \<Rightarrow> sdo_server \<Rightarrow> sdo_server" where
  "CO_SDOserver_set_node_id node s = s\<lparr>tx_node := node mod 128, rx_node := node mod 128\<rparr>"

definition server_send :: "sdo_server \<Rightarrow> can_frame list" where
  "server_send = CO_CAN_send CO_CAN_ID_SDO_SRV"

definition server_abort :: "nat \<Rightarrow> sdo_server \<Rightarrow> server_result" where
  "server_abort = CO_SDO_abort_and_response CO_CAN_ID_SDO_SRV"

section \<open>The sub-object in use\<close>

definition sub_at :: "CO_OD \<Rightarrow> nat \<times> nat \<Rightarrow> CO_Sub_Object" where
  "sub_at od = (\<lambda>(i, j). obj_subs (od_list od ! i) ! j)"

definition set_sub :: "nat \<times> nat \<Rightarrow> CO_Sub_Object \<Rightarrow> CO_OD \<Rightarrow> CO_OD" where
  "set_sub = (\<lambda>(i, j) obj od.
     od\<lparr>od_list := (od_list od)[i := (od_list od ! i)\<lparr>obj_subs := (obj_subs (od_list od ! i))[j := obj]\<rparr>]\<rparr>)"

definition on_obj :: "sdo_server \<Rightarrow> (nat \<times> nat \<Rightarrow> CO_Sub_Object \<Rightarrow> fault + 'r) \<Rightarrow> fault + 'r" where
  "on_obj s f = (case srv_sub_obj s of None \<Rightarrow> Inl Null_Deref | Some k \<Rightarrow> f k (sub_at (srv_od s) k))"

definition put_obj :: "nat \<times> nat \<Rightarrow> CO_Sub_Object \<Rightarrow> sdo_server \<Rightarrow> sdo_server" where
  "put_obj k obj s = s\<lparr>srv_od := set_sub k obj (srv_od s)\<rparr>"

text \<open>A write through \<^verbatim>\<open>p_data_itf\<close>: \<open>n\<close> bytes of the message from \<open>j\<close> on, to offset \<open>i\<close>.\<close>

definition server_store :: "nat \<Rightarrow> nat \<Rightarrow> nat \<Rightarrow> sdo_server \<Rightarrow> fault + sdo_server" where
  "server_store i j n s = on_obj s (\<lambda>k obj.
     case p_data_itf s of
       Itf_None \<Rightarrow> if n = 0 then Inr s else Inl Null_Deref
     | Itf_Data \<Rightarrow> (case of_msg (p_data obj) i j n s of Inl f \<Rightarrow> Inl f | Inr xs \<Rightarrow> Inr (put_obj k (obj\<lparr>p_data := xs\<rparr>) s))
     | Itf_Temp \<Rightarrow> (case of_msg (p_temp_data obj) i j n s of Inl f \<Rightarrow> Inl f
                   | Inr xs \<Rightarrow> Inr (put_obj k (obj\<lparr>p_temp_data := xs\<rparr>) s))
     | Itf_Shadow \<Rightarrow>
         (case p_ext obj of None \<Rightarrow> Inl Null_Deref
          | Some sh \<Rightarrow> (case of_msg sh i j n s of Inl f \<Rightarrow> Inl f
                       | Inr xs \<Rightarrow> Inr (put_obj k (obj\<lparr>p_ext := Some xs\<rparr>) s))))"

definition co_sdoserver_copy_shadow_data_to_operating_data :: "sdo_server \<Rightarrow> fault + sdo_server" where
  "co_sdoserver_copy_shadow_data_to_operating_data s = on_obj s (\<lambda>k obj.
     case p_ext obj of None \<Rightarrow> Inl Null_Deref
     | Some sh \<Rightarrow>
         let to_data = (\<lambda>obj. case CO_memcpy (p_data obj) 0 sh 0 (so_len obj) of Inl f \<Rightarrow> Inl f
                              | Inr xs \<Rightarrow> Inr (put_obj k (obj\<lparr>p_data := xs\<rparr>) s)) in
         if p_temp_data obj = None then to_data obj
         else (case CO_memcpy (p_temp_data obj) 0 sh 0 (so_len obj) of Inl f \<Rightarrow> Inl f
               | Inr ts \<Rightarrow>
                   let obj = obj\<lparr>p_temp_data := ts\<rparr> in
                   if so_attr obj AND ODA_VWTE_after_reset = 0 then to_data obj else Inr (put_obj k obj s)))"

text \<open>The end of a download without extension: the temporary data become the data, unless they wait for a reset.\<close>

definition server_commit :: "sdo_server \<Rightarrow> fault + sdo_server" where
  "server_commit s = on_obj s (\<lambda>k obj.
     if p_temp_data obj \<noteq> None \<and> so_attr obj AND ODA_VWTE_after_reset = 0
     then (case CO_memcpy (p_data obj) 0 (p_temp_data obj) 0 (so_len obj) of Inl f \<Rightarrow> Inl f
           | Inr xs \<Rightarrow> Inr (put_obj k (obj\<lparr>p_data := xs\<rparr>) s))
     else Inr s)"

definition and_srv :: "fault + sdo_server \<Rightarrow> (sdo_server \<Rightarrow> server_result) \<Rightarrow> server_result" where
  "and_srv r f = (case r of Inl e \<Rightarrow> Inl e | Inr s \<Rightarrow> f s)"

section \<open>The first message\<close>

definition CO_SDOserver_get_sub_object_pointer :: "sdo_server \<Rightarrow> fault + (sdo_server \<times> (nat \<times> nat) option)" where
  "CO_SDOserver_get_sub_object_pointer s =
     (let s = s\<lparr>sdo_index := CO_getUint16 1 (rx_data s), sdo_sub_index := unat (rx_data s ! 3)\<rparr> in
      case CO_OD_get_no (srv_od s) (sdo_index s) of Inl f \<Rightarrow> Inl f
      | Inr no \<Rightarrow>
          let s = s\<lparr>object_no := no\<rparr> in
          if no = OD_UNSUPPORT_ENTRY then Inr (s, None)
          else Inr (s, CO_OD_get_sub_object_pointer (srv_od s) no (sdo_sub_index s)))"

definition CO_SDOserver_process_first_msg_and_set_state :: "sdo_server \<Rightarrow> server_result" where
  "CO_SDOserver_process_first_msg_and_set_state s =
     (let ccs = spec_of (rx_cs s) in
      if ccs \<noteq> CCS_DOWNLOAD_INITIATE \<and> ccs \<noteq> CCS_UPLOAD_INITIATE then server_abort CO_SDO_AB_CMD s
      else (case CO_SDOserver_get_sub_object_pointer s of Inl f \<Rightarrow> Inl f
        | Inr (s, None) \<Rightarrow> server_abort CO_SDO_AB_SUB_UNKNOWN (s\<lparr>srv_sub_obj := None\<rparr>)
        | Inr (s, Some k) \<Rightarrow>
            let s = s\<lparr>srv_sub_obj := Some k\<rparr>; obj = sub_at (srv_od s) k in
            if ccs = CCS_DOWNLOAD_INITIATE then
              (if so_attr obj AND ODA_SDO_W = 0 then server_abort CO_SDO_AB_UNSUPPORTED_ACCESS s
               else Inr (CO_SDO_RT_busy,
                 s\<lparr>p_data_itf := (if p_ext obj \<noteq> None then Itf_Shadow
                                 else if p_temp_data obj \<noteq> None then Itf_Temp else Itf_Data),
                   sdo_state := CO_SDO_ST_DOWNLOAD_INITIATE_RSP\<rparr>, []))
            else
              (if so_attr obj AND ODA_SDO_R = 0 then server_abort CO_SDO_AB_UNSUPPORTED_ACCESS s
               else Inr (CO_SDO_RT_busy, s\<lparr>sdo_state := CO_SDO_ST_UPLOAD_INITIATE_RSP\<rparr>, []))))"

section \<open>Download\<close>

definition CO_SDOserver_process_init_transfer_msg :: "sdo_server \<Rightarrow> sdo_server" where
  "CO_SDOserver_process_init_transfer_msg s =
     s\<lparr>sdo_toggle := 0, buffer_offset := 0,
       tx_data := (tx_data s)[1 := rx_data s ! 1, 2 := rx_data s ! 2, 3 := rx_data s ! 3]\<rparr>"

text \<open>The extension is asked: the same text in both download handlers.\<close>

definition server_confirm :: "confirm \<Rightarrow> sdo_server \<Rightarrow> server_result" where
  "server_confirm cf s = on_obj s (\<lambda>k obj.
     if p_ext obj = None then Inl Null_Deref
     else
       let s = s\<lparr>tx_abort_code := snd cf\<rparr>;
           done' = (\<lambda>s. Inr (CO_SDO_RT_success,
              (CO_SDOtimeout_reset_and_inactivate (s\<lparr>is_internal_processing := False\<rparr>))\<lparr>sdo_state := CO_SDO_ST_IDLE\<rparr>,
              server_send s)) in
       case fst cf of
         CO_EXT_CONFIRM_copy_and_success \<Rightarrow> and_srv (co_sdoserver_copy_shadow_data_to_operating_data s) done'
       | CO_EXT_CONFIRM_success \<Rightarrow> done' s
       | CO_EXT_CONFIRM_abort \<Rightarrow>
           (let s = CO_SDOtimeout_reset_and_inactivate (s\<lparr>is_internal_processing := False\<rparr>)
            in server_abort (if tx_abort_code s = CO_SDO_AB_NONE then CO_SDO_AB_DATA_LOC_CTRL else tx_abort_code s) s)
       | CO_EXT_CONFIRM_processing \<Rightarrow> Inr (CO_SDO_RT_busy, s, []))"

text \<open>The data are complete: answer, or wait for the extension.\<close>

definition server_finish :: "sdo_server \<Rightarrow> server_result" where
  "server_finish s = on_obj s (\<lambda>k obj.
     if p_ext obj = None
     then and_srv (server_commit s) (\<lambda>s. Inr (CO_SDO_RT_success, s\<lparr>sdo_state := CO_SDO_ST_IDLE\<rparr>, server_send s))
     else Inr (CO_SDO_RT_busy, (CO_SDOtimeout_reset_and_activate s)\<lparr>is_internal_processing := True\<rparr>, []))"

definition CO_SDOserver_download_initiate_response_handle :: "confirm \<Rightarrow> sdo_server \<Rightarrow> server_result" where
  "CO_SDOserver_download_initiate_response_handle cf s =
     (if is_internal_processing s then server_confirm cf s
      else let s = CO_SDOserver_process_init_transfer_msg s in
        if rx_cs s AND 3 = 3 then
          (let s = s\<lparr>trans_data_len := init_n (rx_cs s)\<rparr> in on_obj s (\<lambda>k obj.
             if so_len obj < trans_data_len s then server_abort CO_SDO_AB_OUT_OF_MEM s
             else and_srv (server_store 0 4 (trans_data_len s) s)
               (\<lambda>s. server_finish (s\<lparr>buffer_offset := trans_data_len s,
                      tx_data := (tx_data s)[0 := cs_of SCS_DOWNLOAD_INITIATED]\<rparr>))))
        else if rx_cs s AND 3 = 1 then
          (let s = s\<lparr>trans_data_len := CO_getUint32 4 (rx_data s) mod 65536\<rparr> in on_obj s (\<lambda>k obj.
             if so_len obj < trans_data_len s then server_abort CO_SDO_AB_OUT_OF_MEM s
             else let s = s\<lparr>buffer_offset := 0, tx_data := (tx_data s)[0 := cs_of SCS_DOWNLOAD_INITIATED]\<rparr>
                  in Inr (CO_SDO_RT_busy,
                       (CO_SDOtimeout_reset_and_activate s)\<lparr>sdo_state := CO_SDO_ST_DOWNLOAD_SEGMENTED\<rparr>, server_send s)))
        else server_abort CO_SDO_AB_TYPE_MISMATCH s)"

definition CO_SDOserver_download_segment_handle :: "confirm \<Rightarrow> sdo_server \<Rightarrow> server_result" where
  "CO_SDOserver_download_segment_handle cf s =
     (if is_internal_processing s then server_confirm cf s
      else if spec_of (rx_cs s) \<noteq> CCS_DOWNLOAD_SEGMENT then server_abort CO_SDO_AB_NO_RESOURCE s
      else if rx_cs s AND 0x10 \<noteq> sdo_toggle s then server_abort CO_SDO_AB_TOGGLE_BIT s
      else if trans_data_len s \<le> buffer_offset s + 7 then
        (if rx_cs s AND 1 \<noteq> 1 then server_abort CO_SDO_AB_GENERAL s
         else and_srv (server_store (buffer_offset s) 1 ((trans_data_len s + 65536 - buffer_offset s) mod 65536) s)
           (\<lambda>s. server_finish (s\<lparr>buffer_offset := trans_data_len s,
                  tx_data := (tx_data s)[0 := cs_of SCS_DOWNLOAD_SEGMENT OR sdo_toggle s]\<rparr>)))
      else if rx_cs s AND 1 = 1 then server_abort CO_SDO_AB_GENERAL s
      else and_srv (server_store (buffer_offset s) 1 7 s)
        (\<lambda>s. let s = s\<lparr>buffer_offset := u16_add (buffer_offset s) 7,
                      tx_data := (tx_data s)[0 := cs_of SCS_DOWNLOAD_SEGMENT OR sdo_toggle s]\<rparr>
             in Inr (CO_SDO_RT_busy, (CO_SDOtimeout_reset_and_activate s)\<lparr>sdo_toggle := sdo_toggle s XOR 0x10\<rparr>,
                  server_send s)))"

section \<open>Upload\<close>

definition CO_SDOserver_upload_initiate_response_handle :: "sdo_server \<Rightarrow> server_result" where
  "CO_SDOserver_upload_initiate_response_handle s = on_obj s (\<lambda>k obj.
     let s = (CO_SDOserver_process_init_transfer_msg s)\<lparr>trans_data_len := so_len obj\<rparr>; n = so_len obj in
     if n \<le> 4 then
       and_srv (to_msg 4 (p_data obj) 0 n (s\<lparr>tx_data := (tx_data s)[0 := init_cs SCS_UPLOAD_INITIATE n]\<rparr>))
         (\<lambda>s. Inr (CO_SDO_RT_success, s\<lparr>buffer_offset := trans_data_len s, sdo_state := CO_SDO_ST_IDLE\<rparr>, server_send s))
     else let s = s\<lparr>tx_data := CO_setUint32 4 n ((tx_data s)[0 := cs_of SCS_UPLOAD_INITIATE OR 1])\<rparr>
       in Inr (CO_SDO_RT_busy, (CO_SDOtimeout_reset_and_activate s)\<lparr>sdo_state := CO_SDO_ST_UPLOAD_SEGMENTED\<rparr>, server_send s))"

definition CO_SDOserver_upload_segment_handle :: "sdo_server \<Rightarrow> server_result" where
  "CO_SDOserver_upload_segment_handle s =
     (if spec_of (rx_cs s) \<noteq> CCS_UPLOAD_SEGMENT then server_abort CO_SDO_AB_NO_RESOURCE s
      else if rx_cs s AND 0x10 \<noteq> sdo_toggle s then server_abort CO_SDO_AB_TOGGLE_BIT s
      else on_obj s (\<lambda>k obj.
        if trans_data_len s \<le> buffer_offset s + 7 then
          (let n = (trans_data_len s + 65536 - buffer_offset s) mod 256 in
           and_srv (to_msg 1 (p_data obj) (buffer_offset s) n s)
             (\<lambda>s. let s = s\<lparr>buffer_offset := trans_data_len s,
                           tx_data := (tx_data s)[0 := last_cs SCS_UPLOAD_SEGMENT (sdo_toggle s) n]\<rparr>
                  in Inr (CO_SDO_RT_success, s\<lparr>sdo_toggle := sdo_toggle s XOR 0x10, sdo_state := CO_SDO_ST_IDLE\<rparr>,
                       server_send s)))
        else
          and_srv (to_msg 1 (p_data obj) (buffer_offset s) 7 s)
            (\<lambda>s. let s = s\<lparr>buffer_offset := u16_add (buffer_offset s) 7,
                          tx_data := (tx_data s)[0 := cs_of SCS_UPLOAD_SEGMENT OR sdo_toggle s]\<rparr>
                 in Inr (CO_SDO_RT_busy, (CO_SDOtimeout_reset_and_activate s)\<lparr>sdo_toggle := sdo_toggle s XOR 0x10\<rparr>,
                      server_send s))))"

section \<open>The periodic step\<close>

definition server_handle :: "confirm \<Rightarrow> sdo_server \<Rightarrow> server_result" where
  "server_handle cf s =
     (case sdo_state s of
        CO_SDO_ST_DOWNLOAD_INITIATE_RSP \<Rightarrow> CO_SDOserver_download_initiate_response_handle cf s
      | CO_SDO_ST_DOWNLOAD_SEGMENTED \<Rightarrow> CO_SDOserver_download_segment_handle cf s
      | CO_SDO_ST_UPLOAD_INITIATE_RSP \<Rightarrow> CO_SDOserver_upload_initiate_response_handle s
      | CO_SDO_ST_UPLOAD_SEGMENTED \<Rightarrow> CO_SDOserver_upload_segment_handle s
      | _ \<Rightarrow> Inr (CO_SDO_RT_busy, s, []))"

definition CO_SDOserver_step :: "nat \<Rightarrow> confirm \<Rightarrow> sdo_server \<Rightarrow> server_result" where
  "CO_SDOserver_step dt cf s =
     (if \<not> sdo_valid s then Inr (CO_SDO_RT_busy, s, [])
      else
        let active = CO_SDOtimeout_is_activated s;
            s = (if active then CO_SDOtimeout_increase dt s else s) in
        if active \<and> CO_SDOtimeout_is_timeout s then Inr (CO_SDO_RT_abort, CO_SDO_abort CO_SDO_AB_TIMEOUT s, [])
        else if \<not> rx_new s \<and> \<not> is_internal_processing s
        then Inr (if sdo_state s = CO_SDO_ST_IDLE then CO_SDO_RT_idle else CO_SDO_RT_busy, s, [])
        else
          let new = rx_new s;
              s = (if new then CO_SDOtimeout_reset_and_inactivate s else s) in
          if new \<and> spec_of (rx_cs s) = CCS_ABORT
          then Inr (CO_SDO_RT_abort,
                 s\<lparr>rx_abort_code := CO_getUint32 4 (rx_data s), rx_new := False, sdo_state := CO_SDO_ST_IDLE\<rparr>, [])
          else
            (case (if new \<and> sdo_state s = CO_SDO_ST_IDLE then CO_SDOserver_process_first_msg_and_set_state s
                   else Inr (CO_SDO_RT_busy, s, [])) of Inl f \<Rightarrow> Inl f
             | Inr (ret, s, out) \<Rightarrow>
                 if ret = CO_SDO_RT_abort then Inr (CO_SDO_RT_abort, s, out)
                 else (case server_handle cf s of Inl f \<Rightarrow> Inl f
                   | Inr (ret, s, out') \<Rightarrow>
                       Inr (if sdo_state s = CO_SDO_ST_IDLE then CO_SDO_RT_idle else ret, s\<lparr>rx_new := False\<rparr>, out @ out'))))"

definition CO_SDOserver_process :: "nat \<Rightarrow> confirm \<Rightarrow> sdo_server \<Rightarrow> fault + (sdo_server \<times> can_frame list)" where
  "CO_SDOserver_process dt cf s =
     (case CO_SDOserver_step dt cf s of Inl f \<Rightarrow> Inl f | Inr (ret, s, out) \<Rightarrow> Inr (s\<lparr>sdo_status := ret\<rparr>, out))"

text \<open>A message on the bus for the server: \<^verbatim>\<open>CO_can_receive_basic_handle\<close>, as far as the server is concerned.\<close>

definition server_receive :: "can_frame \<Rightarrow> sdo_server \<Rightarrow> sdo_server" where
  "server_receive = (\<lambda>(id, d) s. if id = CO_CAN_ID_SDO_CLI + rx_node s then s\<lparr>rx_data := d, rx_new := True\<rparr> else s)"

end
