(* ===== verification/Sdo_Laws.thy ===== *)
theory Sdo_Laws
  imports Sdo_Client Sdo_Server
begin

text \<open>
  A client and a server on one bus: what a client writes arrives in the object of the server, and
  what it reads is what the object holds.
\<close>

section \<open>Command bytes\<close>

named_theorems cs_simps "what is read back from the command bytes that are sent"

lemma one_to_seven: "(0::nat) < n \<Longrightarrow> n \<le> 7 \<Longrightarrow> n = 1 \<or> n = 2 \<or> n = 3 \<or> n = 4 \<or> n = 5 \<or> n = 6 \<or> n = 7"
  by linarith

lemma init_cs_reads [cs_simps]:
  assumes "0 < n" "n \<le> 4"
  shows "spec_of (init_cs 1 n) = 1" "init_cs 1 n AND 3 = 3" "init_n (init_cs 1 n) = n"
    "spec_of (init_cs 2 n) = 2" "init_cs 2 n AND 3 = 3" "init_n (init_cs 2 n) = n"
  using one_to_seven [of n] assms by (auto simp: init_cs_def spec_of_def cs_of_def init_n_def)

lemma long_cs_reads [cs_simps]:
  "spec_of (cs_of 1 OR 1) = 1" "(cs_of 1 OR 1) AND 3 = 1"
  "spec_of (cs_of 2 OR 1) = 2" "(cs_of 2 OR 1) AND 3 = 1"
  "spec_of (cs_of 3) = 3" "spec_of (cs_of 2) = 2" "cs_of 3 AND 0x10 = 0"
  by (simp_all add: spec_of_def cs_of_def)

lemma seg_cs_reads [cs_simps]:
  assumes "t = 0 \<or> t = 0x10"
  shows "spec_of (cs_of 0 OR t) = 0" "(cs_of 0 OR t) AND 0x10 = t" "(cs_of 0 OR t) AND 1 = 0"
    "spec_of (cs_of 1 OR t) = 1" "(cs_of 1 OR t) AND 0x10 = t"
    "spec_of (cs_of 3 OR t) = 3" "(cs_of 3 OR t) AND 0x10 = t"
  using assms by (auto simp: spec_of_def cs_of_def)

lemma last_cs_reads [cs_simps]:
  assumes "t = 0 \<or> t = 0x10" "0 < n" "n \<le> 7"
  shows "spec_of (last_cs 0 t n) = 0" "last_cs 0 t n AND 0x10 = t" "last_cs 0 t n AND 1 = 1"
  using one_to_seven [OF assms(2,3)] assms(1) by (auto simp: spec_of_def cs_of_def last_cs_def)

lemma toggle_flip: "t = 0 \<or> t = (0x10::u8) \<Longrightarrow> t XOR 0x10 = 0 \<or> t XOR 0x10 = 0x10"
  by auto

section \<open>Bytes of the messages\<close>

lemma getUint16_parts: "i < 65536 \<Longrightarrow> unat (of_nat i :: u8) + 256 * unat (of_nat (i div 256) :: u8) = i"
  by (simp add: unat_of_nat)

lemma getUint32_parts:
  "i < 65536 \<Longrightarrow> unat (of_nat i :: u8) + 256 * unat (of_nat (i div 256) :: u8)
     + 65536 * unat (of_nat (i div 65536) :: u8) + 16777216 * unat (of_nat (i div 16777216) :: u8) = i"
  by (simp add: unat_of_nat)

lemma sub_u16: "off \<le> n \<Longrightarrow> n < 65536 \<Longrightarrow> (n + 65536 - off) mod 65536 = (n - off :: nat)"
proof -
  assume a: "off \<le> n" "n < 65536"
  then have "n + 65536 - off = (n - off) + 65536" by linarith
  then show ?thesis using a by (simp only: mod_add_self2) simp
qed

lemma mem_read_ok: "j + n \<le> length xs \<Longrightarrow> mem_read (Some xs) j n = Inr (take n (drop j xs))"
  by (simp add: mem_read_def)

lemma mem_write_ok:
  "i + length ys \<le> length xs \<Longrightarrow> mem_write (Some xs) i ys = Inr (Some (take i xs @ ys @ drop (i + length ys) xs))"
  by (simp add: mem_write_def)

lemma CO_memcpy_ok:
  "i + n \<le> length xs \<Longrightarrow> j + n \<le> length ys \<Longrightarrow>
   CO_memcpy (Some xs) i (Some ys) j n = Inr (Some (take i xs @ take n (drop j ys) @ drop (i + n) xs))"
  by (simp add: CO_memcpy_def mem_read_ok mem_write_ok)

text \<open>Chunk by chunk the destination becomes a prefix of the source.\<close>

lemma chunk_step:
  assumes "off + m \<le> length d" "off + m \<le> length old"
  shows "take off (take off d @ drop off old) @ take m (drop off d) @ drop (off + m) (take off d @ drop off old)
    = take (off + m) d @ drop (off + m) old"
proof -
  have "drop (off + m) (take off d @ drop off old) = drop (off + m) old"
    using assms by (cases "length d = off") (simp_all add: min_def add.commute)
  moreover have "take off (take off d @ drop off old) = take off d" using assms by simp
  ultimately show ?thesis by (simp add: take_add)
qed

section \<open>The link\<close>

text \<open>
  One turn of the link: the client runs, its message reaches the server, the server runs, its answer reaches the
  client. The schedule gives the SYNC object and the elapsed times of each turn.
\<close>

type_synonym sdo_turn_in = "CO_SYNC \<times> nat \<times> nat"

definition sdo_turn :: "confirm \<Rightarrow> sdo_turn_in \<Rightarrow> sdo_client \<times> sdo_server \<Rightarrow> fault + (sdo_client \<times> sdo_server)" where
  "sdo_turn cf = (\<lambda>(y, dc, ds) (c, s).
     case CO_SDOclient_process y dc c of Inl f \<Rightarrow> Inl f
     | Inr (c, out) \<Rightarrow> (case CO_SDOserver_process ds cf (fold server_receive out s) of Inl f \<Rightarrow> Inl f
         | Inr (s, out) \<Rightarrow> Inr (fold client_receive out c, s)))"

fun sdo_run :: "confirm \<Rightarrow> sdo_turn_in list \<Rightarrow> sdo_client \<times> sdo_server \<Rightarrow> fault + (sdo_client \<times> sdo_server)" where
  "sdo_run cf [] cs = Inr cs"
| "sdo_run cf (t # ts) cs = (case sdo_turn cf t cs of Inl f \<Rightarrow> Inl f | Inr cs \<Rightarrow> sdo_run cf ts cs)"

text \<open>A turn in time: neither side times out, and the client may send.\<close>

definition in_time :: "sdo_client \<Rightarrow> sdo_server \<Rightarrow> sdo_turn_in \<Rightarrow> bool" where
  "in_time c s = (\<lambda>(y, dc, ds). CO_SDOclient_is_in_sync_window_len y c
     \<and> dc < allowed_timeout_ms c \<and> ds < allowed_timeout_ms s)"

text \<open>What does not change on either side during a transfer.\<close>

definition client_const :: "sdo_client \<Rightarrow> sdo_client \<Rightarrow> bool" where
  "client_const c0 c \<longleftrightarrow> sdo_valid c \<and> tx_node c = tx_node c0 \<and> rx_node c = rx_node c0 \<and> sdo_index c = sdo_index c0
     \<and> sdo_sub_index c = sdo_sub_index c0 \<and> trans_type c = trans_type c0 \<and> sync_mask_reg c = sync_mask_reg c0
     \<and> allowed_timeout_ms c = allowed_timeout_ms c0 \<and> length (tx_data c) = 8"

definition server_const :: "sdo_server \<Rightarrow> sdo_server \<Rightarrow> bool" where
  "server_const s0 s \<longleftrightarrow> sdo_valid s \<and> tx_node s = tx_node s0 \<and> rx_node s = rx_node s0
     \<and> allowed_timeout_ms s = allowed_timeout_ms s0 \<and> length (tx_data s) = 8"

lemma client_process_msg:
  assumes "client_const c0 c" "rx_new c" "timeout_cter_ms c = 1" "spec_of (rx_cs c) \<noteq> 4" "sdo_state c \<noteq> CO_SDO_ST_IDLE"
    and "CO_SDOclient_is_in_sync_window_len y c0" "dt < allowed_timeout_ms c0" "allowed_timeout_ms c0 < 65536"
    and "client_handle (c\<lparr>timeout_cter_ms := 0\<rparr>) = Inr (ret, c', out)" "ret \<noteq> CO_SDO_RT_idle"
  shows "CO_SDOclient_process y dt c = Inr (c'\<lparr>rx_new := False, sdo_status := ret\<rparr>, out)"
  using assms
  by (simp add: CO_SDOclient_process_def CO_SDOclient_step_def Let_def client_const_def
      CO_SDOtimeout_is_activated_def CO_SDOtimeout_is_timeout_def CO_SDOtimeout_increase_def
      CO_SDOtimeout_reset_and_inactivate_def CO_SDOclient_is_in_sync_window_len_def rx_cs_def)

lemma server_process_msg:
  assumes "server_const s0 s" "rx_new s" "timeout_cter_ms s = 1" "spec_of (rx_cs s) \<noteq> 4" "sdo_state s \<noteq> CO_SDO_ST_IDLE"
    and "dt < allowed_timeout_ms s0" "allowed_timeout_ms s0 < 65536"
    and "server_handle cf (s\<lparr>timeout_cter_ms := 0\<rparr>) = Inr (ret, s', out)"
  shows "CO_SDOserver_process dt cf s =
    Inr (s'\<lparr>rx_new := False, sdo_status := (if sdo_state s' = CO_SDO_ST_IDLE then CO_SDO_RT_idle else ret)\<rparr>, out)"
  using assms
  by (simp add: CO_SDOserver_process_def CO_SDOserver_step_def Let_def server_const_def
      CO_SDOtimeout_is_activated_def CO_SDOtimeout_is_timeout_def CO_SDOtimeout_increase_def
      CO_SDOtimeout_reset_and_inactivate_def rx_cs_def)

lemma server_process_first:
  assumes "server_const s0 s" "rx_new s" "timeout_cter_ms s = 0" "spec_of (rx_cs s) \<noteq> 4" "sdo_state s = CO_SDO_ST_IDLE"
    and "CO_SDOserver_process_first_msg_and_set_state (s\<lparr>timeout_cter_ms := 0\<rparr>) = Inr (CO_SDO_RT_busy, s', [])"
    and "server_handle cf s' = Inr (ret, s'', out)"
  shows "CO_SDOserver_process dt cf s =
    Inr (s''\<lparr>rx_new := False, sdo_status := (if sdo_state s'' = CO_SDO_ST_IDLE then CO_SDO_RT_idle else ret)\<rparr>, out)"
  using assms
  by (simp add: CO_SDOserver_process_def CO_SDOserver_step_def Let_def server_const_def
      CO_SDOtimeout_is_activated_def CO_SDOtimeout_is_timeout_def CO_SDOtimeout_increase_def
      CO_SDOtimeout_reset_and_inactivate_def rx_cs_def)

section \<open>The object in the dictionary\<close>

definition sub_ok :: "CO_OD \<Rightarrow> nat \<times> nat \<Rightarrow> bool" where
  "sub_ok od = (\<lambda>(i, j). i < length (od_list od) \<and> j < length (obj_subs (od_list od ! i)))"

lemma sub_at_set_sub: "sub_ok od k \<Longrightarrow> sub_at (set_sub k x od) k = x"
  by (auto simp: sub_ok_def sub_at_def set_sub_def)

lemma set_sub_set_sub: "sub_ok od k \<Longrightarrow> set_sub k y (set_sub k x od) = set_sub k y od"
  by (auto simp: sub_ok_def set_sub_def)

lemma set_sub_sub_at: "sub_ok od k \<Longrightarrow> set_sub k (sub_at od k) od = od"
  by (auto simp: sub_ok_def set_sub_def sub_at_def)

section \<open>Segmented download\<close>

text \<open>
  The client holds an answer that lets it send the data from \<open>off\<close> on with toggle bit \<open>tog\<close>.
\<close>

definition client_next :: "sdo_client \<Rightarrow> CO_Sub_Object \<Rightarrow> nat \<Rightarrow> nat \<Rightarrow> u8 \<Rightarrow> sdo_client \<Rightarrow> bool" where
  "client_next c0 obj n off tog c \<longleftrightarrow> client_const c0 c \<and> rx_new c \<and> timeout_cter_ms c = 1 \<and> spec_of (rx_cs c) \<noteq> 4
     \<and> sdo_state c \<noteq> CO_SDO_ST_IDLE \<and> cli_sub_obj c = Some obj \<and> trans_data_len c = n \<and> buffer_offset c = off
     \<and> (\<exists>c'. client_const c0 c' \<and> cli_sub_obj c' = Some obj \<and> trans_data_len c' = n \<and> buffer_offset c' = off
          \<and> sdo_toggle c' = tog \<and> \<not> is_internal_processing c' \<and> timeout_cter_ms c' = 0
          \<and> client_handle (c\<lparr>timeout_cter_ms := 0\<rparr>) =
              (if n \<le> off then Inr (CO_SDO_RT_success, c'\<lparr>sdo_state := CO_SDO_ST_IDLE\<rparr>, []) else client_segment off c'))"

definition server_next :: "sdo_server \<Rightarrow> nat \<times> nat \<Rightarrow> u8 list \<Rightarrow> nat \<Rightarrow> nat \<Rightarrow> u8 \<Rightarrow> sdo_server \<Rightarrow> bool" where
  "server_next s0 k xs n off tog s \<longleftrightarrow> server_const s0 s \<and> timeout_cter_ms s = 1 \<and> \<not> rx_new s
     \<and> \<not> is_internal_processing s \<and> sdo_state s = CO_SDO_ST_DOWNLOAD_SEGMENTED \<and> srv_sub_obj s = Some k
     \<and> p_data_itf s = Itf_Data \<and> trans_data_len s = n \<and> buffer_offset s = off \<and> sdo_toggle s = tog
     \<and> srv_od s = set_sub k ((sub_at (srv_od s0) k)\<lparr>p_data := Some xs\<rparr>) (srv_od s0)"

lemma client_sends_segment:
  assumes "client_const c0 c" "cli_sub_obj c = Some obj" "p_data obj = Some d" "trans_data_len c = n"
    and "off < n" "n \<le> length d" "n < 65536" "buffer_offset c = off" "sdo_toggle c = tog" "tog = 0 \<or> tog = 0x10"
    and "\<not> is_internal_processing c" "m = min 7 (n - off)"
  shows "\<exists>c' msg. client_segment off c = Inr (CO_SDO_RT_busy, c', [(0x600 + tx_node c0, msg)])
    \<and> length msg = 8 \<and> spec_of (msg ! 0) = 0 \<and> msg ! 0 AND 0x10 = tog
    \<and> msg ! 0 AND 1 = (if n \<le> off + 7 then 1 else 0) \<and> take m (drop 1 msg) = take m (drop off d)
    \<and> client_const c0 c' \<and> cli_sub_obj c' = Some obj \<and> trans_data_len c' = n \<and> buffer_offset c' = off + m
    \<and> sdo_toggle c' = tog \<and> timeout_cter_ms c' = 1 \<and> \<not> is_internal_processing c'
    \<and> sdo_state c' = CO_SDO_ST_DOWNLOAD_SEGMENTED"
proof (cases "n \<le> off + 7")
  case True
  then have m: "m = n - off" "0 < m" "m \<le> 7" using assms(5,12) by auto
  have len: "length (tx_data c) = 8" using assms(1) by (simp add: client_const_def)
  have "CO_memcpy (Some (tx_data c)) 1 (Some d) off m
      = Inr (Some (take 1 (tx_data c) @ take m (drop off d) @ drop (1 + m) (tx_data c)))"
    by (rule CO_memcpy_ok) (use m len assms(6) in auto)
  moreover have "(trans_data_len c - off) mod 256 = m" using m assms(4) by simp
  moreover have "length (tx_data c) \<noteq> 0" using len by simp
  moreover have "\<exists>b bs. tx_data c = b # bs" using len by (cases "tx_data c") auto
  ultimately show ?thesis
    using assms True m len
    by (auto simp: client_segment_def with_obj_def and_msg_def to_msg_def Let_def client_const_def client_send_def
        CO_CAN_send_def CO_SDOtimeout_reset_and_activate_def cs_simps min_def)
next
  case False
  then have m: "m = 7" using assms(12) by auto
  have len: "length (tx_data c) = 8" using assms(1) by (simp add: client_const_def)
  have "CO_memcpy (Some (tx_data c)) 1 (Some d) off 7
      = Inr (Some (take 1 (tx_data c) @ take 7 (drop off d) @ drop (1 + 7) (tx_data c)))"
    by (rule CO_memcpy_ok) (use m len assms(6) False in auto)
  moreover have "\<exists>b bs. tx_data c = b # bs" using len by (cases "tx_data c") auto
  ultimately show ?thesis
    using assms False m len
    by (auto simp: client_segment_def with_obj_def and_msg_def to_msg_def Let_def client_const_def client_send_def
        CO_CAN_send_def CO_SDOtimeout_reset_and_activate_def cs_simps min_def)
qed

definition server_done :: "sdo_server \<Rightarrow> nat \<times> nat \<Rightarrow> u8 list \<Rightarrow> sdo_server \<Rightarrow> bool" where
  "server_done s0 k xs s \<longleftrightarrow> server_const s0 s \<and> timeout_cter_ms s = 0 \<and> \<not> rx_new s \<and> \<not> is_internal_processing s
     \<and> sdo_state s = CO_SDO_ST_IDLE \<and> srv_od s = set_sub k ((sub_at (srv_od s0) k)\<lparr>p_data := Some xs\<rparr>) (srv_od s0)"

lemma server_takes_segment:
  assumes nx: "server_next s0 k (take off d @ drop off old) n off tog s"
    and k: "sub_ok (srv_od s0) k" "p_ext (sub_at (srv_od s0) k) = None" "p_temp_data (sub_at (srv_od s0) k) = None"
    and msg: "length msg = 8" "spec_of (msg ! 0) = 0" "msg ! 0 AND 0x10 = tog" "msg ! 0 AND 1 = (if n \<le> off + 7 then 1 else 0)"
      "take m (drop 1 msg) = take m (drop off d)" "m = min 7 (n - off)"
    and n: "off < n" "n \<le> length d" "n \<le> length old" "n < 65536" and tog: "tog = 0 \<or> tog = 0x10"
    and time: "dt < allowed_timeout_ms s0" "allowed_timeout_ms s0 < 65536"
  shows "\<exists>s' rsp. CO_SDOserver_process dt cf (server_receive (0x600 + rx_node s0, msg) s)
        = Inr (s', [(0x580 + tx_node s0, rsp)])
      \<and> rsp ! 0 = cs_of 1 OR tog \<and> length rsp = 8
      \<and> (if n \<le> off + 7 then server_done s0 k (take n d @ drop n old) s'
         else server_next s0 k (take (off + 7) d @ drop (off + 7) old) n (off + 7) (tog XOR 0x10) s')"
proof -
  let ?o = "sub_at (srv_od s0) k" and ?xs = "take off d @ drop off old"
  let ?s = "(server_receive (0x600 + rx_node s0, msg) s)\<lparr>timeout_cter_ms := 0\<rparr>"
  let ?s' = "server_receive (0x600 + rx_node s0, msg) s"
  have s: "server_const s0 s" "timeout_cter_ms s = 1" "\<not> is_internal_processing s"
    "sdo_state s = CO_SDO_ST_DOWNLOAD_SEGMENTED" "srv_sub_obj s = Some k" "p_data_itf s = Itf_Data"
    "trans_data_len s = n" "buffer_offset s = off" "sdo_toggle s = tog"
    "srv_od s = set_sub k (?o\<lparr>p_data := Some ?xs\<rparr>) (srv_od s0)"
    using nx by (simp_all add: server_next_def)
  have rx: "server_receive (0x600 + rx_node s0, msg) s = s\<lparr>rx_data := msg, rx_new := True\<rparr>"
    using s(1) by (simp add: server_receive_def server_const_def)
  have at: "sub_at (set_sub k x (srv_od s0)) k = x" for x by (rule sub_at_set_sub [OF k(1)])
  have m: "off + m \<le> length d" "off + m \<le> length old" "1 + m \<le> length msg" using msg(1,6) n by auto
  have cp: "CO_memcpy (Some ?xs) off (Some msg) 1 m = Inr (Some (take (off + m) d @ drop (off + m) old))"
  proof -
    have "length ?xs = length old" using m by simp
    then have "CO_memcpy (Some ?xs) off (Some msg) 1 m = Inr (Some (take off ?xs @ take m (drop 1 msg) @ drop (off + m) ?xs))"
      by (intro CO_memcpy_ok) (use m in linarith)+
    then show ?thesis by (simp only: msg(5) chunk_step [OF m(1,2)])
  qed
  have pm: "CO_SDOserver_process dt cf ?s' =
      Inr (t\<lparr>rx_new := False, sdo_status := (if sdo_state t = CO_SDO_ST_IDLE then CO_SDO_RT_idle else ret)\<rparr>, out)"
    if "server_handle cf ?s = Inr (ret, t, out)" for ret t out
  proof -
    have "server_const s0 ?s'" "rx_new ?s'" "timeout_cter_ms ?s' = 1" "spec_of (rx_cs ?s') \<noteq> 4" "sdo_state ?s' \<noteq> CO_SDO_ST_IDLE"
      using s msg(2) rx by (simp_all add: server_const_def rx_cs_def)
    then show ?thesis using that time server_process_msg by blast
  qed
  have tx: "\<exists>b bs. tx_data s = b # bs" "length (tx_data s) = 8"
    using s(1) by (auto simp: server_const_def length_Suc_conv numeral_eq_Suc)
  show ?thesis
  proof (cases "n \<le> off + 7")
    case True
    then have mn: "m = n - off" "(n + 65536 - off) mod 65536 = m" "off + m = n" using msg(6) n sub_u16 [of off n] by auto
    have "\<exists>t. server_handle cf ?s = Inr (CO_SDO_RT_success, t, [(0x580 + tx_node s0, (tx_data s)[0 := cs_of 1 OR tog])])
       \<and> server_done s0 k (take n d @ drop n old) (t\<lparr>rx_new := False\<rparr>)"
      using s rx True msg(2-4) cp mn k at tx n
      by (simp add: server_handle_def CO_SDOserver_download_segment_handle_def rx_cs_def server_store_def on_obj_def
          of_msg_def put_obj_def server_finish_def server_commit_def and_srv_def server_send_def CO_CAN_send_def
          set_sub_set_sub [OF k(1)] server_done_def server_const_def)
    then show ?thesis using pm True tx by (fastforce simp: server_done_def server_const_def)
  next
    case False
    then have m7: "m = 7" "(off + 7) mod 65536 = off + 7" using msg(6) n by auto
    have "\<exists>t. server_handle cf ?s = Inr (CO_SDO_RT_busy, t, [(0x580 + tx_node s0, (tx_data s)[0 := cs_of 1 OR tog])])
       \<and> server_next s0 k (take (off + 7) d @ drop (off + 7) old) n (off + 7) (tog XOR 0x10) (t\<lparr>rx_new := False\<rparr>)"
      using s rx False msg(2-4) cp m7 k at tx n
      by (simp add: server_handle_def CO_SDOserver_download_segment_handle_def rx_cs_def server_store_def on_obj_def
          of_msg_def put_obj_def and_srv_def server_send_def CO_CAN_send_def Let_def CO_SDOtimeout_reset_and_activate_def
          set_sub_set_sub [OF k(1)] server_next_def server_const_def)
    then show ?thesis using pm False tx by (fastforce simp: server_next_def server_const_def)
  qed
qed

text \<open>What both sides need of each other.\<close>

definition linked :: "sdo_client \<Rightarrow> sdo_server \<Rightarrow> bool" where
  "linked c0 s0 \<longleftrightarrow> tx_node c0 = rx_node s0 \<and> rx_node c0 = tx_node s0
     \<and> allowed_timeout_ms c0 < 65536 \<and> allowed_timeout_ms s0 < 65536"

lemma in_timeD:
  "in_time c s (y, dc, ds) \<Longrightarrow> CO_SDOclient_is_in_sync_window_len y c"
  "in_time c s (y, dc, ds) \<Longrightarrow> dc < allowed_timeout_ms c"
  "in_time c s (y, dc, ds) \<Longrightarrow> ds < allowed_timeout_ms s"
  by (simp_all add: in_time_def)

text \<open>The answer to a segment lets the client go on.\<close>

lemma client_gets_answer:
  assumes "client_const c0 c" "cli_sub_obj c = Some obj" "trans_data_len c = n" "buffer_offset c = off" "sdo_toggle c = tog"
    and "timeout_cter_ms c = 1" "\<not> is_internal_processing c" "sdo_state c = CO_SDO_ST_DOWNLOAD_SEGMENTED"
    and "rsp ! 0 = cs_of 1 OR tog" "tog = 0 \<or> tog = 0x10"
  shows "client_next c0 obj n off (tog XOR 0x10) (client_receive (0x580 + rx_node c0, rsp) c)"
proof -
  have rx: "client_receive (0x580 + rx_node c0, rsp) c = c\<lparr>rx_data := rsp, rx_new := True\<rparr>"
    using assms(1,8) by (simp add: client_receive_def client_const_def)
  show ?thesis
    unfolding client_next_def rx
    by (intro conjI exI [of _ "c\<lparr>rx_data := rsp, rx_new := True, timeout_cter_ms := 0, sdo_toggle := tog XOR 0x10\<rparr>"])
      (use assms in \<open>simp_all add: client_const_def rx_cs_def cs_simps client_handle_def Let_def
        CO_SDOclient_download_segment_handle_def\<close>)
qed

lemma download_turn:
  assumes c: "client_next c0 obj n off tog c" and s: "server_next s0 k (take off d @ drop off old) n off tog s"
    and k: "sub_ok (srv_od s0) k" "p_ext (sub_at (srv_od s0) k) = None" "p_temp_data (sub_at (srv_od s0) k) = None"
    and obj: "p_data obj = Some d" and n: "off < n" "n \<le> length d" "n \<le> length old" "n < 65536"
    and tog: "tog = 0 \<or> tog = 0x10" and link: "linked c0 s0" and time: "in_time c0 s0 t"
  shows "\<exists>c' s'. sdo_turn cf t (c, s) = Inr (c', s')
     \<and> client_next c0 obj n (off + min 7 (n - off)) (tog XOR 0x10) c'
     \<and> (if n \<le> off + 7 then server_done s0 k (take n d @ drop n old) s'
        else server_next s0 k (take (off + 7) d @ drop (off + 7) old) n (off + 7) (tog XOR 0x10) s')"
proof -
  obtain y dc ds where t: "t = (y, dc, ds)" by (cases t)
  note time = in_timeD [OF time [unfolded t]]
  note link = link [unfolded linked_def]
  let ?m = "min 7 (n - off)"
  obtain c1 where c1: "client_const c0 c1" "cli_sub_obj c1 = Some obj" "trans_data_len c1 = n" "buffer_offset c1 = off"
      "sdo_toggle c1 = tog" "\<not> is_internal_processing c1" "client_handle (c\<lparr>timeout_cter_ms := 0\<rparr>) = client_segment off c1"
    using c n(1) by (auto simp: client_next_def)
  obtain c2 msg where c2: "client_segment off c1 = Inr (CO_SDO_RT_busy, c2, [(0x600 + tx_node c0, msg)])"
      "length msg = 8" "spec_of (msg ! 0) = 0" "msg ! 0 AND 0x10 = tog"
      "msg ! 0 AND 1 = (if n \<le> off + 7 then 1 else 0)" "take ?m (drop 1 msg) = take ?m (drop off d)"
      "client_const c0 c2" "cli_sub_obj c2 = Some obj" "trans_data_len c2 = n" "buffer_offset c2 = off + ?m"
      "sdo_toggle c2 = tog" "timeout_cter_ms c2 = 1" "\<not> is_internal_processing c2"
      "sdo_state c2 = CO_SDO_ST_DOWNLOAD_SEGMENTED"
    using client_sends_segment [OF c1(1,2) obj c1(3) n(1,2,4) c1(4,5) tog c1(6) refl] by auto
  let ?c = "c2\<lparr>rx_new := False, sdo_status := CO_SDO_RT_busy\<rparr>"
  have pc: "CO_SDOclient_process y dc c = Inr (?c, [(0x600 + tx_node c0, msg)])"
    by (rule client_process_msg [of c0]) (use c c1(7) c2(1) time link in \<open>simp_all add: client_next_def\<close>)
  obtain s' rsp where s': "CO_SDOserver_process ds cf (server_receive (0x600 + rx_node s0, msg) s)
        = Inr (s', [(0x580 + tx_node s0, rsp)])" "rsp ! 0 = cs_of 1 OR tog"
      "if n \<le> off + 7 then server_done s0 k (take n d @ drop n old) s'
       else server_next s0 k (take (off + 7) d @ drop (off + 7) old) n (off + 7) (tog XOR 0x10) s'"
    using server_takes_segment [OF s k c2(2-6) refl n tog time(3)] link by blast
  have "client_next c0 obj n (off + ?m) (tog XOR 0x10) (client_receive (0x580 + rx_node c0, rsp) ?c)"
    by (rule client_gets_answer) (use c2 s'(2) tog in \<open>simp_all add: client_const_def\<close>)
  then show ?thesis using pc s' link by (simp add: t sdo_turn_def)
qed

text \<open>The last answer: the client is done, and the server has nothing to do.\<close>

definition client_last :: "sdo_client \<Rightarrow> CO_Sub_Object \<Rightarrow> sdo_client \<Rightarrow> bool" where
  "client_last c0 obj c \<longleftrightarrow> client_const c0 c \<and> rx_new c \<and> timeout_cter_ms c = 1 \<and> spec_of (rx_cs c) \<noteq> 4
     \<and> sdo_state c \<noteq> CO_SDO_ST_IDLE
     \<and> (\<exists>c'. client_const c0 c' \<and> timeout_cter_ms c' = 0 \<and> cli_sub_obj c' = Some obj
          \<and> client_handle (c\<lparr>timeout_cter_ms := 0\<rparr>) = Inr (CO_SDO_RT_success, c'\<lparr>sdo_state := CO_SDO_ST_IDLE\<rparr>, []))"

lemma client_next_last: "client_next c0 obj n off tog c \<Longrightarrow> n \<le> off \<Longrightarrow> client_last c0 obj c"
  by (auto simp: client_next_def client_last_def)

definition client_idle :: "sdo_client \<Rightarrow> bool" where
  "client_idle c \<longleftrightarrow> sdo_valid c \<and> \<not> rx_new c \<and> timeout_cter_ms c = 0 \<and> length (tx_data c) = 8"

definition server_idle :: "sdo_server \<Rightarrow> bool" where
  "server_idle s \<longleftrightarrow> sdo_valid s \<and> \<not> rx_new s \<and> \<not> is_internal_processing s \<and> timeout_cter_ms s = 0
     \<and> sdo_state s = CO_SDO_ST_IDLE \<and> length (tx_data s) = 8"

lemma server_process_idle:
  "server_idle s \<Longrightarrow> CO_SDOserver_process dt cf s = Inr (s\<lparr>sdo_status := CO_SDO_RT_idle\<rparr>, [])"
  by (simp add: server_idle_def CO_SDOserver_process_def CO_SDOserver_step_def CO_SDOtimeout_is_activated_def)

lemma last_turn:
  assumes c: "client_last c0 obj c" and s: "server_idle s" and link: "linked c0 s0" and time: "in_time c0 s0 t"
  shows "\<exists>c'. sdo_turn cf t (c, s) = Inr (c', s\<lparr>sdo_status := CO_SDO_RT_idle\<rparr>) \<and> client_idle c'
     \<and> sdo_status c' = CO_SDO_RT_success \<and> sdo_state c' = CO_SDO_ST_IDLE \<and> cli_sub_obj c' = Some obj \<and> client_const c0 c'"
proof -
  obtain y dc ds where t: "t = (y, dc, ds)" by (cases t)
  note time = in_timeD [OF time [unfolded t]]
  obtain c1 where c1: "client_const c0 c1" "timeout_cter_ms c1 = 0" "cli_sub_obj c1 = Some obj"
      "client_handle (c\<lparr>timeout_cter_ms := 0\<rparr>) = Inr (CO_SDO_RT_success, c1\<lparr>sdo_state := CO_SDO_ST_IDLE\<rparr>, [])"
    using c by (auto simp: client_last_def)
  have "CO_SDOclient_process y dc c =
      Inr (c1\<lparr>sdo_state := CO_SDO_ST_IDLE, rx_new := False, sdo_status := CO_SDO_RT_success\<rparr>, [])"
    by (rule client_process_msg [of c0]) (use c c1 time link in \<open>simp_all add: client_last_def linked_def\<close>)
  then show ?thesis
    using server_process_idle [OF s] c1
    by (simp add: t sdo_turn_def client_idle_def client_const_def)
qed

lemma server_done_idle: "server_done s0 k xs s \<Longrightarrow> server_idle s"
  by (simp add: server_done_def server_idle_def server_const_def)

lemma download_run:
  assumes "client_next c0 obj n off tog c" "server_next s0 k (take off d @ drop off old) n off tog s"
    and k: "sub_ok (srv_od s0) k" "p_ext (sub_at (srv_od s0) k) = None" "p_temp_data (sub_at (srv_od s0) k) = None"
    and obj: "p_data obj = Some d" and "off < n" and n: "n \<le> length d" "n \<le> length old" "n < 65536"
    and "tog = 0 \<or> tog = 0x10" and link: "linked c0 s0" and "list_all (in_time c0 s0) ts"
    and "length ts = Suc (Suc ((n - off - 1) div 7))"
  shows "\<exists>c' s' c1 s1. sdo_run cf ts (c, s) = Inr (c', s') \<and> client_idle c' \<and> sdo_status c' = CO_SDO_RT_success
     \<and> sdo_state c' = CO_SDO_ST_IDLE \<and> server_done s0 k (take n d @ drop n old) s'
     \<and> sdo_run cf (butlast ts) (c, s) = Inr (c1, s1) \<and> sdo_state c1 \<noteq> CO_SDO_ST_IDLE \<and> client_const c0 c'"
  using assms(1,2,7,11,13,14)
proof (induction ts arbitrary: c s off tog)
  case (Cons t ts)
  have t: "in_time c0 s0 t" "list_all (in_time c0 s0) ts" using Cons.prems by simp_all
  obtain c' s' where turn: "sdo_turn cf t (c, s) = Inr (c', s')"
      "client_next c0 obj n (off + min 7 (n - off)) (tog XOR 0x10) c'"
      "if n \<le> off + 7 then server_done s0 k (take n d @ drop n old) s'
       else server_next s0 k (take (off + 7) d @ drop (off + 7) old) n (off + 7) (tog XOR 0x10) s'"
    using download_turn [OF Cons.prems(1,2) k obj Cons.prems(3) n Cons.prems(4) link t(1)] by blast
  show ?case
  proof (cases "n \<le> off + 7")
    case True
    then have d: "server_done s0 k (take n d @ drop n old) s'" and "(n - off - 1) div 7 = 0" using turn(3) Cons.prems(3) by simp_all
    then obtain t' where ts: "ts = [t']" using Cons.prems(6) by (auto simp: length_Suc_conv)
    have last: "client_last c0 obj c'" by (rule client_next_last [OF turn(2)]) (use True in simp)
    moreover have "in_time c0 s0 t'" using t(2) ts by simp
    ultimately obtain c'' where "sdo_turn cf t' (c', s') = Inr (c'', s'\<lparr>sdo_status := CO_SDO_RT_idle\<rparr>)" "client_idle c''"
      "sdo_status c'' = CO_SDO_RT_success" "sdo_state c'' = CO_SDO_ST_IDLE" "client_const c0 c''"
      using last_turn [OF _ server_done_idle [OF d] link, of obj c' t' cf] by blast
    moreover have "server_done s0 k (take n d @ drop n old) (s'\<lparr>sdo_status := CO_SDO_RT_idle\<rparr>)"
      using d by (simp add: server_done_def server_const_def)
    ultimately show ?thesis using turn(1) ts last by (simp add: client_last_def)
  next
    case False
    then have "min 7 (n - off) = 7" by simp
    moreover have "length ts = Suc (Suc ((n - (off + 7) - 1) div 7))"
    proof -
      have "(n - off - 1) div 7 = Suc ((n - off - 1 - 7) div 7)" by (rule le_div_geq) (use False in linarith)+
      then show ?thesis using Cons.prems(6) by simp
    qed
    moreover have "ts \<noteq> []" using \<open>length ts = Suc (Suc ((n - (off + 7) - 1) div 7))\<close> by auto
    ultimately show ?thesis
      using Cons.IH [OF _ _ _ toggle_flip [OF Cons.prems(4)] t(2), of "off + 7" c' s'] turn False by simp
  qed
qed simp

section \<open>The first exchange\<close>

lemma get_sub_object:
  assumes "od_ok (srv_od s)" "position (\<lambda>obj. obj_index obj = idx) (od_list (srv_od s)) = Some no"
    and "sub < sub_number (od_list (srv_od s) ! no)"
    and "CO_getUint16 1 (rx_data s) = idx" "unat (rx_data s ! 3) = sub"
  shows "CO_SDOserver_get_sub_object_pointer s = Inr (s\<lparr>sdo_index := idx, sdo_sub_index := sub, object_no := no\<rparr>, Some (no, sub))"
    "sub_ok (srv_od s) (no, sub)"
proof -
  have no: "no < length (od_list (srv_od s))" using position_Some [OF assms(2)] by simp
  have "CO_OD_get_no (srv_od s) idx = Inr no" using CO_OD_get_no_find [OF assms(1)] assms(2) by (simp add: od_find_def)
  then show "CO_SDOserver_get_sub_object_pointer s = Inr (s\<lparr>sdo_index := idx, sdo_sub_index := sub, object_no := no\<rparr>, Some (no, sub))"
    using assms no
    by (simp add: CO_SDOserver_get_sub_object_pointer_def Let_def CO_OD_get_sub_object_pointer_def od_ok_def)
  have "sub_number (od_list (srv_od s) ! no) \<le> length (obj_subs (od_list (srv_od s) ! no))"
    using assms(1) no by (simp add: od_ok_def)
  then show "sub_ok (srv_od s) (no, sub)" using no assms(3) by (simp add: sub_ok_def)
qed

text \<open>The request of a client that has been started: a message that names the object.\<close>

definition mux_msg :: "nat \<Rightarrow> nat \<Rightarrow> u8 list \<Rightarrow> bool" where
  "mux_msg idx sub m \<longleftrightarrow> length m = 8 \<and> m ! 1 = of_nat idx \<and> m ! 2 = of_nat (idx div 256) \<and> m ! 3 = of_nat sub"

lemma mux_msg_reads:
  "mux_msg idx sub m \<Longrightarrow> idx < 65536 \<Longrightarrow> CO_getUint16 1 m = idx"
  "mux_msg idx sub m \<Longrightarrow> sub < 256 \<Longrightarrow> unat (m ! 3) = sub"
  by (simp_all add: mux_msg_def CO_getUint16_def getUint16_parts unat_of_nat flip: numeral_2_eq_2)

lemma length_8: "length xs = 8 \<Longrightarrow> \<exists>a b c d e f g h. xs = [a, b, c, d, e, f, g, h]"
  by (auto simp: length_Suc_conv numeral_eq_Suc)

text \<open>The client's first message and the state it waits in.\<close>

definition client_waits :: "sdo_client \<Rightarrow> CO_SDO_state_t \<Rightarrow> CO_Sub_Object \<Rightarrow> sdo_client \<Rightarrow> bool" where
  "client_waits c0 st obj c \<longleftrightarrow> client_const c0 c \<and> \<not> rx_new c \<and> timeout_cter_ms c = 1 \<and> \<not> is_internal_processing c
     \<and> sdo_state c = st \<and> cli_sub_obj c = Some obj \<and> buffer_offset c = 0 \<and> sdo_toggle c = 0"

lemma client_first:
  assumes "client_idle c" "CO_SDOclient_is_in_sync_window_len y c0" "c0 = CO_SDOclient_start_download node idx sub obj tmo c"
    and "p_data obj = Some d" "so_len obj = n" "0 < n" "n \<le> length d" "n < 65536"
  shows "\<exists>c' m. CO_SDOclient_process y dt c0 = Inr (c', [(0x600 + tx_node c0, m)]) \<and> mux_msg idx sub m
     \<and> client_waits c0 CO_SDO_ST_DOWNLOAD_INITIATE_RSP obj c' \<and> trans_data_len c' = n
     \<and> (if n \<le> 4 then m ! 0 = init_cs 1 n \<and> take n (drop 4 m) = take n d
        else m ! 0 = cs_of 1 OR 1 \<and> CO_getUint32 4 m = n)"
proof -
  obtain a0 a1 a2 a3 a4 a5 a6 a7 where tx: "tx_data c = [a0, a1, a2, a3, a4, a5, a6, a7]"
    using assms(1) length_8 by (fastforce simp: client_idle_def)
  have cp: "CO_memcpy (Some xs) 4 (Some d) 0 n = Inr (Some (take 4 xs @ take n d @ drop (4 + n) xs))"
    if "n \<le> 4" "length xs = 8" for xs using CO_memcpy_ok [of 4 n xs 0 d] that assms(7) by simp
  show ?thesis
    using assms tx cp getUint32_parts [OF assms(8)]
    by (cases "n \<le> 4")
      (simp_all add: CO_SDOclient_process_def CO_SDOclient_step_def CO_SDOclient_start_download_def client_start_def
        client_idle_def Let_def CO_SDOtimeout_is_activated_def CO_SDOclient_is_in_sync_window_len_def client_handle_def
        CO_SDOclient_download_initiate_request_handle_def CO_SDOclient_process_init_transfer_msg_def with_obj_def
        and_msg_def to_msg_def client_send_def CO_CAN_send_def CO_SDOtimeout_reset_and_activate_def client_waits_def
        client_const_def mux_msg_def CO_setUint32_def CO_getUint32_def)
qed

text \<open>The object a request names.\<close>

definition names_obj :: "sdo_server \<Rightarrow> nat \<Rightarrow> nat \<Rightarrow> nat \<Rightarrow> bool" where
  "names_obj s idx sub no \<longleftrightarrow> od_ok (srv_od s) \<and> position (\<lambda>obj. obj_index obj = idx) (od_list (srv_od s)) = Some no
     \<and> sub < sub_number (od_list (srv_od s) ! no) \<and> idx < 65536 \<and> sub < 256"

lemma names_obj_sub_ok: "names_obj s idx sub no \<Longrightarrow> sub_ok (srv_od s) (no, sub)"
  using position_Some [of "\<lambda>obj. obj_index obj = idx" "od_list (srv_od s)" no] nth_mem [of no "od_list (srv_od s)"]
  by (auto simp: names_obj_def sub_ok_def od_ok_def intro: less_le_trans)

lemma server_first_msg:
  assumes idle: "server_idle s" and obj: "names_obj s idx sub no" and m: "mux_msg idx sub m"
    and cs: "spec_of (m ! 0) = 1 \<and> so_attr (sub_at (srv_od s) (no, sub)) AND ODA_SDO_W \<noteq> 0
      \<or> spec_of (m ! 0) = 2 \<and> so_attr (sub_at (srv_od s) (no, sub)) AND ODA_SDO_R \<noteq> 0"
    and s1: "s1 = s\<lparr>rx_data := m, rx_new := True, timeout_cter_ms := 0, sdo_index := idx, sdo_sub_index := sub, object_no := no,
       srv_sub_obj := Some (no, sub)\<rparr>"
    and hd: "server_handle cf (if spec_of (m ! 0) = 1
        then s1\<lparr>p_data_itf := (if p_ext (sub_at (srv_od s) (no, sub)) \<noteq> None then Itf_Shadow
                  else if p_temp_data (sub_at (srv_od s) (no, sub)) \<noteq> None then Itf_Temp else Itf_Data),
                sdo_state := CO_SDO_ST_DOWNLOAD_INITIATE_RSP\<rparr>
        else s1\<lparr>sdo_state := CO_SDO_ST_UPLOAD_INITIATE_RSP\<rparr>) = Inr (ret, s', out)"
  shows "CO_SDOserver_process dt cf (server_receive (0x600 + rx_node s, m) s) =
    Inr (s'\<lparr>rx_new := False, sdo_status := (if sdo_state s' = CO_SDO_ST_IDLE then CO_SDO_RT_idle else ret)\<rparr>, out)"
proof -
  let ?s = "(s\<lparr>rx_data := m, rx_new := True\<rparr>)\<lparr>timeout_cter_ms := 0\<rparr>"
  have rx: "server_receive (0x600 + rx_node s, m) s = s\<lparr>rx_data := m, rx_new := True\<rparr>" by (simp add: server_receive_def)
  have "CO_SDOserver_get_sub_object_pointer ?s = Inr (?s\<lparr>sdo_index := idx, sdo_sub_index := sub, object_no := no\<rparr>, Some (no, sub))"
    by (rule get_sub_object) (use obj mux_msg_reads [OF m] in \<open>simp_all add: names_obj_def\<close>)
  then have "CO_SDOserver_process_first_msg_and_set_state ?s = Inr (CO_SDO_RT_busy,
     (if spec_of (m ! 0) = 1
        then s1\<lparr>p_data_itf := (if p_ext (sub_at (srv_od s) (no, sub)) \<noteq> None then Itf_Shadow
                  else if p_temp_data (sub_at (srv_od s) (no, sub)) \<noteq> None then Itf_Temp else Itf_Data),
                sdo_state := CO_SDO_ST_DOWNLOAD_INITIATE_RSP\<rparr>
        else s1\<lparr>sdo_state := CO_SDO_ST_UPLOAD_INITIATE_RSP\<rparr>), [])"
    using cs by (auto simp: CO_SDOserver_process_first_msg_and_set_state_def rx_cs_def s1)
  from server_process_first [OF _ _ _ _ _ this hd, of s dt] show ?thesis
    using idle cs rx by (auto simp: server_idle_def server_const_def rx_cs_def)
qed

lemma server_first_download:
  assumes idle: "server_idle s" and obj: "names_obj s idx sub no" and m: "mux_msg idx sub m"
    and tgt: "tgt = sub_at (srv_od s) (no, sub)" "so_attr tgt AND ODA_SDO_W \<noteq> 0" "p_ext tgt = None" "p_temp_data tgt = None"
      "p_data tgt = Some old" "n \<le> so_len tgt" "n \<le> length old" "n < 65536" "0 < n" "n \<le> length d"
    and cs: "if n \<le> 4 then m ! 0 = init_cs 1 n \<and> take n (drop 4 m) = take n d
       else m ! 0 = cs_of 1 OR 1 \<and> CO_getUint32 4 m = n"
  shows "\<exists>s' rsp. CO_SDOserver_process dt cf (server_receive (0x600 + rx_node s, m) s) = Inr (s', [(0x580 + tx_node s, rsp)])
     \<and> mux_msg idx sub rsp \<and> rsp ! 0 = cs_of 3
     \<and> (if n \<le> 4 then server_done s (no, sub) (take n d @ drop n old) s' else server_next s (no, sub) old n 0 0 s')"
proof -
  let ?k = "(no, sub)"
  let ?s = "s\<lparr>rx_data := m, rx_new := True, timeout_cter_ms := 0, sdo_index := idx, sdo_sub_index := sub, object_no := no,
       srv_sub_obj := Some ?k, p_data_itf := Itf_Data, sdo_state := CO_SDO_ST_DOWNLOAD_INITIATE_RSP\<rparr>"
  have k: "sub_ok (srv_od s) ?k" by (rule names_obj_sub_ok [OF obj])
  have same: "set_sub ?k (tgt\<lparr>p_data := Some old\<rparr>) (srv_od s) = srv_od s"
  proof -
    have "tgt\<lparr>p_data := Some old\<rparr> = tgt" using tgt(5) by (cases tgt) simp
    then show ?thesis using set_sub_sub_at [OF k] tgt(1) by simp
  qed
  obtain a0 a1 a2 a3 a4 a5 a6 a7 where tx: "tx_data s = [a0, a1, a2, a3, a4, a5, a6, a7]"
    using idle length_8 by (fastforce simp: server_idle_def)
  let ?rsp = "[cs_of 3, m ! 1, m ! 2, m ! 3, a4, a5, a6, a7]"
  have "\<exists>ret s'. server_handle cf ?s = Inr (ret, s', [(0x580 + tx_node s, ?rsp)])
     \<and> (if n \<le> 4 then server_done s ?k (take n d @ drop n old) (s'\<lparr>rx_new := False\<rparr>)
        else server_next s ?k old n 0 0 (s'\<lparr>rx_new := False\<rparr>))"
  proof (cases "n \<le> 4")
    case True
    have "CO_memcpy (Some old) 0 (Some m) 4 n = Inr (Some (take n d @ drop n old))"
      using CO_memcpy_ok [of 0 n old 4 m] True cs tgt(7) m by (simp add: mux_msg_def)
    then show ?thesis
      using True cs idle tgt k tx sub_at_set_sub [OF k] init_cs_reads [OF tgt(9) True]
      by (simp add: server_handle_def CO_SDOserver_download_initiate_response_handle_def server_idle_def Let_def
          CO_SDOserver_process_init_transfer_msg_def rx_cs_def on_obj_def server_store_def of_msg_def and_srv_def
          put_obj_def server_finish_def server_commit_def server_send_def CO_CAN_send_def server_done_def server_const_def)
  next
    case False
    then show ?thesis
      using cs idle tgt k tx same
      by (simp add: server_handle_def CO_SDOserver_download_initiate_response_handle_def server_idle_def Let_def
          CO_SDOserver_process_init_transfer_msg_def rx_cs_def on_obj_def cs_simps CO_SDOtimeout_reset_and_activate_def
          server_send_def CO_CAN_send_def server_next_def server_const_def)
  qed
  then obtain ret s' where hd: "server_handle cf ?s = Inr (ret, s', [(0x580 + tx_node s, ?rsp)])"
    and s': "if n \<le> 4 then server_done s ?k (take n d @ drop n old) (s'\<lparr>rx_new := False\<rparr>)
        else server_next s ?k old n 0 0 (s'\<lparr>rx_new := False\<rparr>)" by blast
  have w: "spec_of (m ! 0) = 1" using cs init_cs_reads(1) [OF tgt(9)] by (auto simp: cs_simps split: if_splits)
  have "CO_SDOserver_process dt cf (server_receive (0x600 + rx_node s, m) s) =
    Inr (s'\<lparr>rx_new := False, sdo_status := (if sdo_state s' = CO_SDO_ST_IDLE then CO_SDO_RT_idle else ret)\<rparr>,
         [(0x580 + tx_node s, ?rsp)])"
    by (rule server_first_msg [OF idle obj m _ refl]) (use w tgt hd in simp_all)
  moreover have "mux_msg idx sub ?rsp" using m by (simp add: mux_msg_def)
  ultimately show ?thesis using s'
    by (cases "n \<le> 4") (simp_all add: server_done_def server_next_def server_const_def)
qed

lemma client_first_answer:
  assumes c: "client_waits c0 CO_SDO_ST_DOWNLOAD_INITIATE_RSP obj c" "trans_data_len c = n"
    and m: "mux_msg (sdo_index c0) (sdo_sub_index c0) rsp" "rsp ! 0 = cs_of 3"
    and ix: "sdo_index c0 < 65536" "sdo_sub_index c0 < 256"
  shows "if n \<le> 4 then client_last c0 obj (client_receive (0x580 + rx_node c0, rsp) c)
    else client_next c0 obj n 0 0 (client_receive (0x580 + rx_node c0, rsp) c)"
proof -
  have rx: "client_receive (0x580 + rx_node c0, rsp) c = c\<lparr>rx_data := rsp, rx_new := True\<rparr>"
    using c by (simp add: client_receive_def client_const_def client_waits_def)
  note mux = mux_msg_reads(1) [OF m(1) ix(1)] mux_msg_reads(2) [OF m(1) ix(2)]
  show ?thesis
  proof (cases "n \<le> 4")
    case True
    then show ?thesis
      unfolding client_last_def rx if_P [OF True]
      by (intro conjI exI [of _ "c\<lparr>rx_data := rsp, rx_new := True, timeout_cter_ms := 0\<rparr>"])
        (use c mux m in \<open>simp_all add: client_waits_def client_const_def rx_cs_def cs_simps client_handle_def mux_ok_def
          CO_SDOclient_download_initiate_response_handle_def\<close>)
  next
    case False
    then show ?thesis
      unfolding client_next_def rx if_not_P [OF False]
      by (intro conjI exI [of _ "c\<lparr>rx_data := rsp, rx_new := True, timeout_cter_ms := 0\<rparr>"])
        (use c mux m in \<open>simp_all add: client_waits_def client_const_def rx_cs_def cs_simps client_handle_def mux_ok_def
          CO_SDOclient_download_initiate_response_handle_def\<close>)
  qed
qed

text \<open>The number of turns of a transfer of \<open>n\<close> bytes: one to open it, one for each segment, one for the last answer.\<close>

definition transfer_turns :: "nat \<Rightarrow> nat" where
  "transfer_turns n = (if n \<le> 4 then 2 else 2 + (n + 6) div 7)"

lemma download_arrives:
  assumes "client_idle c" "server_idle s" "names_obj s idx sub no"
    and "c0 = CO_SDOclient_start_download node idx sub obj tmo c" "node < 128" "tx_node s = node" "rx_node s = node"
    and "tmo < 65536" "allowed_timeout_ms s < 65536" "list_all (in_time c0 s) ts" "length ts = transfer_turns n"
    and "so_len obj = n" "0 < n" "p_data obj = Some d" "n \<le> length d"
    and "tgt = sub_at (srv_od s) (no, sub)" "so_attr tgt AND ODA_SDO_W \<noteq> 0" "p_ext tgt = None" "p_temp_data tgt = None"
    and "p_data tgt = Some old" "n \<le> so_len tgt" "so_len tgt \<le> length old" "so_len tgt < 65536"
  shows "\<exists>c' s' c1 s1. sdo_run cf ts (c0, s) = Inr (c', s') \<and> sdo_status c' = CO_SDO_RT_success
    \<and> client_idle c' \<and> sdo_state c' = CO_SDO_ST_IDLE \<and> server_idle s'
    \<and> srv_od s' = set_sub (no, sub) (tgt\<lparr>p_data := Some (take n d @ drop n old)\<rparr>) (srv_od s)
    \<and> sdo_run cf (butlast ts) (c0, s) = Inr (c1, s1) \<and> sdo_state c1 \<noteq> CO_SDO_ST_IDLE \<and> client_const c0 c' \<and> server_const s s'"
proof -
  let ?k = "(no, sub)"
  have n: "n \<le> length old" "n < 65536" using assms by simp_all
  have k: "sub_ok (srv_od s) ?k" by (rule names_obj_sub_ok [OF assms(3)])
  have c0: "sdo_index c0 = idx" "sdo_sub_index c0 = sub" "tx_node c0 = node" "rx_node c0 = node" "allowed_timeout_ms c0 = tmo"
    using assms(4,5) by (simp_all add: CO_SDOclient_start_download_def client_start_def)
  have link: "linked c0 s" using assms(6-9) c0 by (simp add: linked_def)
  have ix: "idx < 65536" "sub < 256" using assms(3) by (simp_all add: names_obj_def)
  obtain t ts' where ts: "ts = t # ts'" using assms(11) by (cases ts) (auto simp: transfer_turns_def split: if_splits)
  obtain y dc ds where t: "t = (y, dc, ds)" by (cases t)
  have time: "in_time c0 s (y, dc, ds)" "list_all (in_time c0 s) ts'" using assms(10) ts t by simp_all
  obtain c1 m where c1: "CO_SDOclient_process y dc c0 = Inr (c1, [(0x600 + tx_node c0, m)])" "mux_msg idx sub m"
      "client_waits c0 CO_SDO_ST_DOWNLOAD_INITIATE_RSP obj c1" "trans_data_len c1 = n"
      "if n \<le> 4 then m ! 0 = init_cs 1 n \<and> take n (drop 4 m) = take n d else m ! 0 = cs_of 1 OR 1 \<and> CO_getUint32 4 m = n"
    using client_first [OF assms(1) in_timeD(1) [OF time(1)] assms(4,14,12,13,15) n(2)] by blast
  obtain s1 rsp where s1: "CO_SDOserver_process ds cf (server_receive (0x600 + rx_node s, m) s) = Inr (s1, [(0x580 + tx_node s, rsp)])"
      "mux_msg idx sub rsp" "rsp ! 0 = cs_of 3"
      "if n \<le> 4 then server_done s ?k (take n d @ drop n old) s1 else server_next s ?k old n 0 0 s1"
    using server_first_download [OF assms(2,3) c1(2) assms(16-21) n assms(13,15) c1(5)] by blast
  let ?c1 = "client_receive (0x580 + rx_node c0, rsp) c1"
  have turn: "sdo_turn cf t (c0, s) = Inr (?c1, s1)" using c1(1) s1(1) c0 assms(6,7) by (simp add: sdo_turn_def t)
  have c2: "if n \<le> 4 then client_last c0 obj ?c1 else client_next c0 obj n 0 0 ?c1"
    by (rule client_first_answer [OF c1(3,4)]) (use s1(2,3) c0 ix in simp_all)
  show ?thesis
  proof (cases "n \<le> 4")
    case True
    then obtain t' where ts': "ts' = [t']" using assms(11) ts by (auto simp: transfer_turns_def length_Suc_conv)
    have d: "server_done s ?k (take n d @ drop n old) s1" using s1(4) True by simp
    obtain c' where "sdo_turn cf t' (?c1, s1) = Inr (c', s1\<lparr>sdo_status := CO_SDO_RT_idle\<rparr>)" "client_idle c'"
        "sdo_status c' = CO_SDO_RT_success" "sdo_state c' = CO_SDO_ST_IDLE" "client_const c0 c'"
      using last_turn [OF _ server_done_idle [OF d] link, of obj ?c1 t' cf] c2 True time(2) ts' by auto
    moreover have "sdo_state ?c1 \<noteq> CO_SDO_ST_IDLE" using c2 True by (simp add: client_last_def)
    ultimately show ?thesis using ts ts' turn d server_done_idle [OF d] assms(16)
      by (simp add: server_done_def server_idle_def server_const_def)
  next
    case False
    have "length ts' = Suc (Suc ((n - 0 - 1) div 7))"
    proof -
      have "n + 6 = (n - 1) + 7" using False by simp
      then have "(n + 6) div 7 = Suc ((n - 1) div 7)" by (simp only: div_add_self2)
      then show ?thesis using assms(11) ts False by (simp add: transfer_turns_def)
    qed
    moreover have s2: "server_next s ?k (take 0 d @ drop 0 old) n 0 0 s1" using s1(4) False by simp
    moreover have "client_next c0 obj n 0 0 ?c1" "0 < n" using c2 False by simp_all
    moreover have "p_ext (sub_at (srv_od s) ?k) = None" "p_temp_data (sub_at (srv_od s) ?k) = None" using assms(16,18,19) by simp_all
    ultimately obtain c' s' c3 s3 where r: "sdo_run cf ts' (?c1, s1) = Inr (c', s')" "client_idle c'"
        "sdo_status c' = CO_SDO_RT_success" "sdo_state c' = CO_SDO_ST_IDLE" "server_done s ?k (take n d @ drop n old) s'"
        "sdo_run cf (butlast ts') (?c1, s1) = Inr (c3, s3)" "sdo_state c3 \<noteq> CO_SDO_ST_IDLE" "client_const c0 c'"
      using download_run [OF _ s2 k _ _ assms(14) _ assms(15) n disjI1 [OF refl] link time(2)] by blast
    moreover have "ts' \<noteq> []" using \<open>length ts' = Suc (Suc ((n - 0 - 1) div 7))\<close> by auto
    ultimately show ?thesis using ts turn server_done_idle [OF r(5)] assms(16) by (simp add: server_done_def)
  qed
qed

text \<open>C10.
  Writing an object. An idle client that is started on \<open>n\<close> bytes, against an idle server whose dictionary has the object
  writable, without extension and large enough, ends with the status success after \<open>transfer_turns n\<close> turns, both sides
  are idle again, and the dictionary of the server differs from the old one exactly in the first \<open>n\<close> bytes of
  that object, which are the data of the client. Every turn has to be in time: the client's transmission window is open and
  neither timeout is reached within it.\<close>

theorem sdo_download_arrives:
  assumes "client_idle c" "server_idle s" "names_obj s idx sub no"
    and "c0 = CO_SDOclient_start_download node idx sub obj tmo c" "node < 128" "tx_node s = node" "rx_node s = node"
    and "tmo < 65536" "allowed_timeout_ms s < 65536" "list_all (in_time c0 s) ts" "length ts = transfer_turns n"
    and "so_len obj = n" "0 < n" "p_data obj = Some d" "n \<le> length d"
    and "tgt = sub_at (srv_od s) (no, sub)" "so_attr tgt AND ODA_SDO_W \<noteq> 0" "p_ext tgt = None" "p_temp_data tgt = None"
    and "p_data tgt = Some old" "n \<le> so_len tgt" "so_len tgt \<le> length old" "so_len tgt < 65536"
  shows "\<exists>c' s'. sdo_run cf ts (c0, s) = Inr (c', s') \<and> sdo_status c' = CO_SDO_RT_success
    \<and> client_idle c' \<and> sdo_state c' = CO_SDO_ST_IDLE \<and> server_idle s'
    \<and> srv_od s' = set_sub (no, sub) (tgt\<lparr>p_data := Some (take n d @ drop n old)\<rparr>) (srv_od s)"
  using download_arrives [OF assms] by blast

text \<open>A concrete pair: a server with one object of ten bytes at 0x2180.2, and a client.\<close>

definition example_od :: "CO_OD" where
  "example_od = \<lparr>od_number = 1, od_list = [\<lparr>obj_index = 0x2180, sub_number = 3, obj_subs =
     replicate 3 \<lparr>p_data = Some (replicate 10 0), so_attr = ODA_SDO_RW, so_len = 10, p_ext = None, p_temp_data = None\<rparr>\<rparr>]\<rparr>"

definition example_server :: "sdo_server" where
  "example_server =
     \<lparr>sdo_valid = True, rx_new = False, rx_data = replicate 8 0, tx_data = replicate 8 0, tx_node = 5, rx_node = 5,
      buffer_offset = 0, trans_data_len = 0, sdo_toggle = 0, trans_type = 0, sync_mask_reg = 0, sdo_index = 0, sdo_sub_index = 0,
      timeout_cter_ms = 0, allowed_timeout_ms = 100, is_internal_processing = False, tx_abort_code = 0, rx_abort_code = 0,
      sdo_state = CO_SDO_ST_IDLE, sdo_status = CO_SDO_RT_idle, srv_od = example_od, object_no = 0, srv_sub_obj = None,
      p_data_itf = Itf_None\<rparr>"

definition example_client :: "sdo_client" where
  "example_client =
     \<lparr>sdo_valid = True, rx_new = False, rx_data = replicate 8 0, tx_data = replicate 8 0, tx_node = 0, rx_node = 0,
      buffer_offset = 0, trans_data_len = 0, sdo_toggle = 0, trans_type = 0, sync_mask_reg = 0, sdo_index = 0, sdo_sub_index = 0,
      timeout_cter_ms = 0, allowed_timeout_ms = 0, is_internal_processing = False, tx_abort_code = 0, rx_abort_code = 0,
      sdo_state = CO_SDO_ST_IDLE, sdo_status = CO_SDO_RT_idle, cli_sub_obj = None\<rparr>"

definition example_sync :: "CO_SYNC" where
  "example_sync = \<lparr>sync_id_valid = True, sync_gen = True, sync_can_id = 0x80, sync_new = False, sync_msg = replicate 8 0,
     cycle_period_ms = 50, window_length_ms = 20, max_sync_counter = 10, max_aux_sync_counter = 3, index_in_cycle = 0,
     time_in_cycle_ms = 0, sync_counter = 1, aux_sync_counter = 0, aux_sync_reg = 1, is_inside_window = True\<rparr>"

definition example_obj :: "u8 list \<Rightarrow> CO_Sub_Object" where
  "example_obj d = \<lparr>p_data = Some d, so_attr = 0, so_len = length d, p_ext = None, p_temp_data = None\<rparr>"

lemmas example_defs = example_od_def example_server_def example_client_def example_sync_def example_obj_def

lemma example_idle: "client_idle example_client" "server_idle example_server"
  by (simp_all add: client_idle_def server_idle_def example_defs)

lemma example_names: "names_obj example_server 0x2180 2 0"
  by (simp add: names_obj_def od_ok_def example_defs)

theorem sdo_download_arrives_witness:
  "\<exists>c' s'. sdo_run (CO_EXT_CONFIRM_success, 0) (replicate 4 (example_sync, 10, 10))
        (CO_SDOclient_start_download 5 0x2180 2 (example_obj [1, 2, 3, 4, 5, 6, 7, 8]) 50 example_client, example_server) = Inr (c', s')
    \<and> sdo_status c' = CO_SDO_RT_success \<and> client_idle c' \<and> sdo_state c' = CO_SDO_ST_IDLE \<and> server_idle s'
    \<and> srv_od s' = set_sub (0, 2) ((sub_at (srv_od example_server) (0, 2))\<lparr>p_data := Some [1, 2, 3, 4, 5, 6, 7, 8, 0, 0]\<rparr>)
        (srv_od example_server)"
proof -
  let ?old = "replicate 10 (0::u8)"
  have "[1, 2, 3, 4, 5, 6, 7, 8, 0, 0] = take 8 [1, 2, 3, 4, 5, 6, 7, 8] @ drop 8 ?old" by (simp add: eval_nat_numeral)
  then show ?thesis
    by (simp only:) (rule sdo_download_arrives [where ts = "replicate 4 (example_sync, 10, 10)" and tgt = "sub_at (srv_od example_server) (0, 2)",
        OF example_idle example_names refl]; simp add: example_defs sub_at_def in_time_def transfer_turns_def
          CO_SDOclient_start_download_def client_start_def CO_SDOclient_is_in_sync_window_len_def list_all_iff)
qed

end
