(* ===== verification/Sdo_Safety.thy ===== *)
theory Sdo_Safety
  imports Sdo_Laws
begin

text \<open>
  Memory safety of the SDO server: whatever a client sends, the server reads and writes inside the buffers of
  its objects, except in two situations, which are stated at the end.
\<close>

section \<open>The shape of the dictionary\<close>

text \<open>Everything but the contents of the buffers.\<close>

type_synonym sub_shape = "nat \<times> nat \<times> nat option \<times> nat option option \<times> nat option"

definition sub_shape :: "CO_Sub_Object \<Rightarrow> sub_shape" where
  "sub_shape x = (so_attr x, so_len x, map_option length (p_data x), map_option (map_option length) (p_ext x),
     map_option length (p_temp_data x))"

definition od_shape :: "CO_OD \<Rightarrow> nat \<times> (nat \<times> nat \<times> sub_shape list) list" where
  "od_shape od = (od_number od, map (\<lambda>obj. (obj_index obj, sub_number obj, map sub_shape (obj_subs obj))) (od_list od))"

text \<open>Each buffer is as long as the object says.\<close>

definition shape_mem :: "sub_shape \<Rightarrow> bool" where
  "shape_mem = (\<lambda>(attr, len, data, ext, tmp). len < 65536 \<and> (case data of None \<Rightarrow> False | Some l \<Rightarrow> len \<le> l)
     \<and> (case ext of None \<Rightarrow> True | Some None \<Rightarrow> False | Some (Some l) \<Rightarrow> len \<le> l)
     \<and> (case tmp of None \<Rightarrow> True | Some l \<Rightarrow> len \<le> l))"

definition od_mem :: "CO_OD \<Rightarrow> bool" where
  "od_mem od \<longleftrightarrow> od_ok od \<and> (\<forall>obj \<in> set (od_list od). \<forall>x \<in> set (obj_subs obj). shape_mem (sub_shape x))"

lemma map_eq_nth: "map f xs = map f ys \<Longrightarrow> i < length ys \<Longrightarrow> f (xs ! i) = f (ys ! i)"
  by (metis length_map nth_map)

lemma map_update_same: "i < length xs \<Longrightarrow> f x = f (xs ! i) \<Longrightarrow> map f (xs[i := x]) = map f xs"
  by (simp add: list_eq_iff_nth_eq nth_list_update)

lemma od_shapeD:
  assumes "od_shape od' = od_shape od"
  shows "od_number od' = od_number od" "length (od_list od') = length (od_list od)"
    "\<And>i. i < length (od_list od) \<Longrightarrow> obj_index (od_list od' ! i) = obj_index (od_list od ! i)
       \<and> sub_number (od_list od' ! i) = sub_number (od_list od ! i)
       \<and> map sub_shape (obj_subs (od_list od' ! i)) = map sub_shape (obj_subs (od_list od ! i))"
proof -
  let ?f = "\<lambda>obj. (obj_index obj, sub_number obj, map sub_shape (obj_subs obj))"
  have m: "map ?f (od_list od') = map ?f (od_list od)" and n: "od_number od' = od_number od"
    using assms by (simp_all only: od_shape_def prod.inject)
  show "od_number od' = od_number od" by (rule n)
  show "length (od_list od') = length (od_list od)" using arg_cong [OF m, of length] by (simp only: length_map)
  show "obj_index (od_list od' ! i) = obj_index (od_list od ! i)
       \<and> sub_number (od_list od' ! i) = sub_number (od_list od ! i)
       \<and> map sub_shape (obj_subs (od_list od' ! i)) = map sub_shape (obj_subs (od_list od ! i))"
    if "i < length (od_list od)" for i
    using map_eq_nth [OF m that] by (simp only: prod.inject)
qed

lemma od_shape_subs_length:
  "od_shape od' = od_shape od \<Longrightarrow> i < length (od_list od) \<Longrightarrow>
   length (obj_subs (od_list od' ! i)) = length (obj_subs (od_list od ! i))"
  using od_shapeD(3) [of od' od i] by (metis length_map)

lemma od_shape_index: "od_shape od' = od_shape od \<Longrightarrow> map obj_index (od_list od') = map obj_index (od_list od)"
  using od_shapeD(2,3) [of od' od] by (simp add: list_eq_iff_nth_eq)

lemma od_mem_shape:
  assumes "od_shape od' = od_shape od" "od_mem od"
  shows "od_mem od'"
proof -
  have "sub_number obj \<le> length (obj_subs obj) \<and> (\<forall>x \<in> set (obj_subs obj). shape_mem (sub_shape x))" if o: "obj \<in> set (od_list od')" for obj
  proof -
    obtain i where i: "obj = od_list od' ! i" "i < length (od_list od)" using o od_shapeD(2) [OF assms(1)] by (auto simp: in_set_conv_nth)
    have m: "od_list od ! i \<in> set (od_list od)" using i(2) by simp
    have "sub_number obj \<le> length (obj_subs obj)"
    proof -
      have "sub_number (od_list od ! i) \<le> length (obj_subs (od_list od ! i))"
        using assms(2) m unfolding od_mem_def od_ok_def by blast
      then show ?thesis using od_shapeD(3) [OF assms(1) i(2)] od_shape_subs_length [OF assms(1) i(2)] i(1) by simp
    qed
    moreover have "shape_mem (sub_shape x)" if "x \<in> set (obj_subs obj)" for x
    proof -
      have "sub_shape x \<in> set (map sub_shape (obj_subs obj))" using that by simp
      then have "sub_shape x \<in> set (map sub_shape (obj_subs (od_list od ! i)))"
        using od_shapeD(3) [OF assms(1) i(2)] i(1) by simp
      then show ?thesis using assms(2) m by (auto simp: od_mem_def)
    qed
    ultimately show ?thesis by blast
  qed
  then show ?thesis
    using assms(2) od_shapeD(1,2) [OF assms(1)] od_shape_index [OF assms(1)] by (simp add: od_mem_def od_ok_def)
qed

lemma od_shape_set_sub:
  assumes "sub_ok od k" "sub_shape x = sub_shape (sub_at od k)"
  shows "od_shape (set_sub k x od) = od_shape od"
proof -
  obtain i j where k: "k = (i, j)" by (cases k)
  have "map sub_shape ((obj_subs (od_list od ! i))[j := x]) = map sub_shape (obj_subs (od_list od ! i))"
    by (rule map_update_same) (use assms k in \<open>simp_all add: sub_at_def sub_ok_def\<close>)
  then have "map (\<lambda>obj. (obj_index obj, sub_number obj, map sub_shape (obj_subs obj)))
        ((od_list od)[i := (od_list od ! i)\<lparr>obj_subs := (obj_subs (od_list od ! i))[j := x]\<rparr>])
     = map (\<lambda>obj. (obj_index obj, sub_number obj, map sub_shape (obj_subs obj))) (od_list od)"
    by (intro map_update_same) (use assms(1) k in \<open>simp_all add: sub_ok_def\<close>)
  then show ?thesis by (simp add: od_shape_def set_sub_def k)
qed

lemma sub_ok_shape: "od_shape od' = od_shape od \<Longrightarrow> sub_ok od' k = sub_ok od k"
  using od_shapeD(2) [of od' od] od_shape_subs_length [of od' od] by (cases k) (auto simp: sub_ok_def)

lemma od_mem_at:
  assumes "od_mem od" "sub_ok od k"
  shows "shape_mem (sub_shape (sub_at od k))"
proof -
  obtain i j where "k = (i, j)" by (cases k)
  then have "od_list od ! i \<in> set (od_list od)" "sub_at od k \<in> set (obj_subs (od_list od ! i))"
    using assms(2) by (simp_all add: sub_ok_def sub_at_def)
  then show ?thesis using assms(1) by (auto simp: od_mem_def)
qed

text \<open>The buffers of a sub-object, from its shape.\<close>

lemma shape_memD:
  assumes "shape_mem (sub_shape x)"
  shows "so_len x < 65536" "\<exists>xs. p_data x = Some xs \<and> so_len x \<le> length xs"
    "\<And>ts. p_temp_data x = Some ts \<Longrightarrow> so_len x \<le> length ts"
    "\<And>sh. p_ext x = Some sh \<Longrightarrow> \<exists>ys. sh = Some ys \<and> so_len x \<le> length ys"
  using assms by (auto simp: shape_mem_def sub_shape_def split: option.splits)

section \<open>The invariant\<close>

declare split_paired_Ex [simp del] split_paired_All [simp del]

definition itf_ok :: "data_itf \<Rightarrow> CO_Sub_Object \<Rightarrow> bool" where
  "itf_ok p x = (case p of Itf_None \<Rightarrow> False | Itf_Data \<Rightarrow> True | Itf_Temp \<Rightarrow> p_temp_data x \<noteq> None | Itf_Shadow \<Rightarrow> p_ext x \<noteq> None)"

definition in_download :: "sdo_server \<Rightarrow> bool" where
  "in_download s \<longleftrightarrow> sdo_state s = CO_SDO_ST_DOWNLOAD_INITIATE_RSP \<or> sdo_state s = CO_SDO_ST_DOWNLOAD_SEGMENTED"

definition server_inv :: "sdo_server \<Rightarrow> bool" where
  "server_inv s \<longleftrightarrow> sdo_valid s \<and> length (rx_data s) = 8 \<and> length (tx_data s) = 8 \<and> od_mem (srv_od s)
     \<and> (is_internal_processing s \<longrightarrow> in_download s)
     \<and> (sdo_state s = CO_SDO_ST_IDLE \<or>
        (\<exists>k. srv_sub_obj s = Some k \<and> sub_ok (srv_od s) k
           \<and> (in_download s \<longrightarrow> itf_ok (p_data_itf s) (sub_at (srv_od s) k))
           \<and> (is_internal_processing s \<longrightarrow> p_ext (sub_at (srv_od s) k) \<noteq> None)
           \<and> (sdo_state s = CO_SDO_ST_DOWNLOAD_SEGMENTED \<or> sdo_state s = CO_SDO_ST_UPLOAD_SEGMENTED
                \<or> sdo_state s = CO_SDO_ST_DOWNLOAD_INITIATE_RSP \<and> is_internal_processing s)
           \<and> (is_internal_processing s \<or> trans_data_len s \<le> so_len (sub_at (srv_od s) k) \<and> buffer_offset s \<le> trans_data_len s)))"

definition keeps :: "sdo_server \<Rightarrow> server_result \<Rightarrow> bool" where
  "keeps s r \<longleftrightarrow> (\<exists>ret s' out. r = Inr (ret, s', out) \<and> server_inv s' \<and> od_shape (srv_od s') = od_shape (srv_od s))"

lemma length_CO_setUint32: "length (CO_setUint32 i v xs) = length xs"
  by (simp add: CO_setUint32_def)

lemma keeps_abort:
  assumes "sdo_valid s" "length (rx_data s) = 8" "length (tx_data s) = 8" "od_mem (srv_od s)"
    "od_shape (srv_od s) = od_shape (srv_od s0)"
  shows "keeps s0 (server_abort code s)"
  using assms
  by (simp add: keeps_def server_abort_def CO_SDO_abort_and_response_def Let_def CO_SDO_abort_def server_inv_def
      CO_SDOtimeout_reset_and_inactivate_def length_CO_setUint32)

lemma sub_at_shape: "od_shape od' = od_shape od \<Longrightarrow> sub_ok od k \<Longrightarrow> sub_shape (sub_at od' k) = sub_shape (sub_at od k)"
proof (cases k)
  case (Pair i j)
  assume s: "od_shape od' = od_shape od" "sub_ok od k"
  then have "i < length (od_list od)" "j < length (obj_subs (od_list od ! i))" using Pair by (simp_all add: sub_ok_def)
  then show ?thesis
    using map_eq_nth [of sub_shape "obj_subs (od_list od' ! i)" "obj_subs (od_list od ! i)" j] od_shapeD(3) [OF s(1)] Pair
    by (simp add: sub_at_def)
qed

lemma sub_shapeD:
  assumes "sub_shape x = sub_shape y"
  shows "so_attr x = so_attr y" "so_len x = so_len y" "p_ext x = None \<longleftrightarrow> p_ext y = None"
    "p_temp_data x = None \<longleftrightarrow> p_temp_data y = None"
  using assms by (auto simp: sub_shape_def)

lemma itf_ok_shape: "sub_shape x = sub_shape y \<Longrightarrow> itf_ok p x = itf_ok p y"
  using sub_shapeD [of x y] by (auto simp: itf_ok_def split: data_itf.splits)

section \<open>Reads and writes inside the buffers\<close>

lemma memcpy_inside:
  assumes "i + n \<le> length xs" "j + n \<le> length ys"
  shows "\<exists>zs. CO_memcpy (Some xs) i (Some ys) j n = Inr (Some zs) \<and> length zs = length xs"
  using CO_memcpy_ok [OF assms] assms by (intro exI [of _ "take i xs @ take n (drop j ys) @ drop (i + n) xs"]) simp

lemma to_msg_inside:
  assumes "i + n \<le> 8" "length (tx_data s) = 8" "p = Some xs" "j + n \<le> length xs"
  shows "\<exists>zs. to_msg i p j n s = Inr (s\<lparr>tx_data := zs\<rparr>) \<and> length zs = 8"
  using memcpy_inside [of i n "tx_data s" j xs] assms by (auto simp: to_msg_def)

lemma put_obj_keeps:
  assumes "sub_ok (srv_od s) k" "sub_shape x = sub_shape (sub_at (srv_od s) k)"
  shows "\<exists>od'. put_obj k x s = s\<lparr>srv_od := od'\<rparr> \<and> od_shape od' = od_shape (srv_od s)"
  using od_shape_set_sub [OF assms] by (intro exI [of _ "set_sub k x (srv_od s)"]) (simp add: put_obj_def)

lemma server_store_inside:
  assumes s: "srv_sub_obj s = Some k" "sub_ok (srv_od s) k" "od_mem (srv_od s)" "itf_ok (p_data_itf s) (sub_at (srv_od s) k)"
    "length (rx_data s) = 8" and n: "i + n \<le> so_len (sub_at (srv_od s) k)" "j + n \<le> 8"
  shows "\<exists>od'. server_store i j n s = Inr (s\<lparr>srv_od := od'\<rparr>) \<and> od_shape od' = od_shape (srv_od s)"
proof -
  let ?x = "sub_at (srv_od s) k"
  note mem = shape_memD [OF od_mem_at [OF s(3,2)]]
  have cp: "\<exists>zs. of_msg (Some xs) i j n s = Inr (Some zs) \<and> length zs = length xs" if "so_len ?x \<le> length xs" for xs
    unfolding of_msg_def by (rule memcpy_inside) (use that n s(5) in simp_all)
  show ?thesis
  proof (cases "p_data_itf s")
    case Itf_Data
    obtain xs where "p_data ?x = Some xs" "so_len ?x \<le> length xs" using mem(2) by blast
    with cp [of xs] Itf_Data show ?thesis
      using put_obj_keeps [OF s(2)] s(1) by (fastforce simp: server_store_def on_obj_def sub_shape_def)
  next
    case Itf_Temp
    then obtain ts where "p_temp_data ?x = Some ts" "so_len ?x \<le> length ts" using mem(3) s(4) by (auto simp: itf_ok_def)
    with cp [of ts] Itf_Temp show ?thesis
      using put_obj_keeps [OF s(2)] s(1) by (fastforce simp: server_store_def on_obj_def sub_shape_def)
  next
    case Itf_Shadow
    then obtain ys where "p_ext ?x = Some (Some ys)" "so_len ?x \<le> length ys" using mem(4) s(4) by (fastforce simp: itf_ok_def)
    with cp [of ys] Itf_Shadow show ?thesis
      using put_obj_keeps [OF s(2)] s(1) by (fastforce simp: server_store_def on_obj_def sub_shape_def)
  qed (use s(4) in \<open>simp add: itf_ok_def\<close>)
qed

lemma server_commit_inside:
  assumes s: "srv_sub_obj s = Some k" "sub_ok (srv_od s) k" "od_mem (srv_od s)"
  shows "\<exists>od'. server_commit s = Inr (s\<lparr>srv_od := od'\<rparr>) \<and> od_shape od' = od_shape (srv_od s)"
proof -
  let ?x = "sub_at (srv_od s) k"
  note mem = shape_memD [OF od_mem_at [OF s(3,2)]]
  obtain xs where xs: "p_data ?x = Some xs" "so_len ?x \<le> length xs" using mem(2) by blast
  show ?thesis
  proof (cases "p_temp_data ?x")
    case None
    then show ?thesis using s by (auto simp: server_commit_def on_obj_def intro: exI [of _ "srv_od s"])
  next
    case (Some ts)
    then obtain zs where zs: "CO_memcpy (Some xs) 0 (Some ts) 0 (so_len ?x) = Inr (Some zs)" "length zs = length xs"
      using memcpy_inside [of 0 "so_len ?x" xs 0 ts] mem(3) xs by auto
    show ?thesis
    proof (cases "so_attr ?x AND ODA_VWTE_after_reset = 0")
      case True
      have "sub_shape (?x\<lparr>p_data := Some zs\<rparr>) = sub_shape ?x" using zs xs by (simp add: sub_shape_def)
      from put_obj_keeps [OF s(2) this] True show ?thesis
        using s(1) xs(1) Some zs(1) by (auto simp: server_commit_def on_obj_def)
    qed (use s(1) in \<open>auto simp: server_commit_def on_obj_def intro: exI [of _ "srv_od s"]\<close>)
  qed
qed

lemma copy_shadow_inside:
  assumes s: "srv_sub_obj s = Some k" "sub_ok (srv_od s) k" "od_mem (srv_od s)" "p_ext (sub_at (srv_od s) k) \<noteq> None"
  shows "\<exists>od'. co_sdoserver_copy_shadow_data_to_operating_data s = Inr (s\<lparr>srv_od := od'\<rparr>) \<and> od_shape od' = od_shape (srv_od s)"
proof -
  let ?x = "sub_at (srv_od s) k"
  note mem = shape_memD [OF od_mem_at [OF s(3,2)]]
  obtain xs where xs: "p_data ?x = Some xs" "so_len ?x \<le> length xs" using mem(2) by blast
  obtain ys where ys: "p_ext ?x = Some (Some ys)" "so_len ?x \<le> length ys" using mem(4) s(4) by fastforce
  obtain zs where zs: "CO_memcpy (Some xs) 0 (Some ys) 0 (so_len ?x) = Inr (Some zs)" "length zs = length xs"
    using memcpy_inside [of 0 "so_len ?x" xs 0 ys] xs ys by auto
  show ?thesis
  proof (cases "p_temp_data ?x")
    case None
    have "sub_shape (?x\<lparr>p_data := Some zs\<rparr>) = sub_shape ?x" using zs xs by (simp add: sub_shape_def)
    from put_obj_keeps [OF s(2) this] show ?thesis
      using s(1) xs(1) ys(1) None zs(1)
      by (auto simp: co_sdoserver_copy_shadow_data_to_operating_data_def on_obj_def Let_def)
  next
    case (Some ts)
    then obtain us where us: "CO_memcpy (Some ts) 0 (Some ys) 0 (so_len ?x) = Inr (Some us)" "length us = length ts"
      using memcpy_inside [of 0 "so_len ?x" ts 0 ys] mem(3) ys by auto
    have sh: "sub_shape (?x\<lparr>p_temp_data := Some us, p_data := Some zs\<rparr>) = sub_shape ?x"
      "sub_shape (?x\<lparr>p_temp_data := Some us\<rparr>) = sub_shape ?x"
      using zs xs us Some by (simp_all add: sub_shape_def)
    show ?thesis
      using put_obj_keeps [OF s(2) sh(1)] put_obj_keeps [OF s(2) sh(2)] s(1) xs(1) ys(1) Some zs(1) us(1)
      by (cases "so_attr ?x AND ODA_VWTE_after_reset = 0")
        (auto simp: co_sdoserver_copy_shadow_data_to_operating_data_def on_obj_def Let_def)
  qed
qed

section \<open>Each handler keeps the invariant\<close>

text \<open>A transfer is at work on a sub-object.\<close>

definition at_work :: "sdo_server \<Rightarrow> nat \<times> nat \<Rightarrow> bool" where
  "at_work s k \<longleftrightarrow> sdo_valid s \<and> length (rx_data s) = 8 \<and> length (tx_data s) = 8 \<and> od_mem (srv_od s)
     \<and> srv_sub_obj s = Some k \<and> sub_ok (srv_od s) k"

lemma at_work_od:
  "at_work s k \<Longrightarrow> od_shape od' = od_shape (srv_od s) \<Longrightarrow> at_work (s\<lparr>srv_od := od'\<rparr>) k"
  using od_mem_shape [of od' "srv_od s"] sub_ok_shape [of od' "srv_od s" k] by (simp add: at_work_def)

lemma keeps_idle:
  assumes "at_work s k" "\<not> is_internal_processing s" "sdo_state s = CO_SDO_ST_IDLE" "od_shape (srv_od s) = od_shape (srv_od s0)"
  shows "keeps s0 (Inr (ret, s, out))"
  using assms by (simp add: keeps_def server_inv_def at_work_def)

lemma server_finish_keeps:
  assumes w: "at_work s k" "\<not> is_internal_processing s" "in_download s" "itf_ok (p_data_itf s) (sub_at (srv_od s) k)"
    and sh: "od_shape (srv_od s) = od_shape (srv_od s0)"
  shows "keeps s0 (server_finish s)"
proof (cases "p_ext (sub_at (srv_od s) k) = None")
  case True
  obtain od' where od': "server_commit s = Inr (s\<lparr>srv_od := od'\<rparr>)" "od_shape od' = od_shape (srv_od s)"
    using server_commit_inside w(1) unfolding at_work_def by blast
  have "keeps s0 (Inr (CO_SDO_RT_success, s\<lparr>srv_od := od', sdo_state := CO_SDO_ST_IDLE\<rparr>, out))" for out
    by (rule keeps_idle [of _ k]) (use at_work_od [OF w(1) od'(2)] w(2) od'(2) sh in \<open>simp_all add: at_work_def\<close>)
  moreover have "srv_sub_obj s = Some k" using w(1) by (simp add: at_work_def)
  ultimately show ?thesis using True od'(1) by (simp add: server_finish_def on_obj_def and_srv_def server_send_def CO_CAN_send_def)
next
  case False
  then show ?thesis
    using w sh
    by (simp add: server_finish_def on_obj_def at_work_def keeps_def server_inv_def CO_SDOtimeout_reset_and_activate_def in_download_def)
      auto
qed

lemma server_confirm_keeps:
  assumes inv: "server_inv s" "is_internal_processing s" and sh: "od_shape (srv_od s) = od_shape (srv_od s0)"
  shows "keeps s0 (server_confirm cf s)"
proof -
  obtain k where k: "at_work s k" "p_ext (sub_at (srv_od s) k) \<noteq> None"
    using inv by (auto simp: server_inv_def at_work_def in_download_def)
  obtain y where y: "p_ext (sub_at (srv_od s) k) = Some y" using k(2) by auto
  have k': "srv_sub_obj s = Some k" using k(1) by (simp add: at_work_def)
  let ?s = "s\<lparr>tx_abort_code := snd cf\<rparr>"
  have w: "at_work ?s k" using k(1) by (simp add: at_work_def)
  let ?d = "\<lambda>s. (CO_SDOtimeout_reset_and_inactivate (s\<lparr>is_internal_processing := False\<rparr>))\<lparr>sdo_state := CO_SDO_ST_IDLE\<rparr>"
  show ?thesis
  proof (cases "fst cf")
    case CO_EXT_CONFIRM_processing
    then show ?thesis using inv k sh k'
      by (simp add: server_confirm_def on_obj_def keeps_def Let_def server_inv_def in_download_def)
  next
    case CO_EXT_CONFIRM_abort
    have "keeps s0 (server_abort c (CO_SDOtimeout_reset_and_inactivate (?s\<lparr>is_internal_processing := False\<rparr>)))" for c
      by (rule keeps_abort) (use w sh in \<open>simp_all add: at_work_def CO_SDOtimeout_reset_and_inactivate_def\<close>)
    then show ?thesis using CO_EXT_CONFIRM_abort y k'
      by (simp add: server_confirm_def on_obj_def Let_def)
  next
    case CO_EXT_CONFIRM_success
    have "keeps s0 (Inr (CO_SDO_RT_success, ?d ?s, out))" for out
      by (rule keeps_idle [of _ k]) (use w sh in \<open>simp_all add: at_work_def CO_SDOtimeout_reset_and_inactivate_def\<close>)
    then show ?thesis using CO_EXT_CONFIRM_success y k'
      by (simp add: server_confirm_def on_obj_def Let_def server_send_def CO_CAN_send_def)
  next
    case CO_EXT_CONFIRM_copy_and_success
    obtain od' where od': "co_sdoserver_copy_shadow_data_to_operating_data ?s = Inr (?s\<lparr>srv_od := od'\<rparr>)"
        "od_shape od' = od_shape (srv_od s)"
      using copy_shadow_inside [of ?s k] w k(2) by (auto simp: at_work_def)
    have "keeps s0 (Inr (CO_SDO_RT_success, ?d (?s\<lparr>srv_od := od'\<rparr>), out))" for out
      by (rule keeps_idle [of _ k])
        (use at_work_od [OF w, of od'] od'(2) sh in \<open>simp_all add: at_work_def CO_SDOtimeout_reset_and_inactivate_def\<close>)
    then show ?thesis using CO_EXT_CONFIRM_copy_and_success y k' od'(1)
      by (simp add: server_confirm_def on_obj_def Let_def server_send_def CO_CAN_send_def and_srv_def)
  qed
qed

text \<open>The message is a segment or the first of a transfer.\<close>

lemma download_segment_keeps:
  assumes w: "at_work s k" "\<not> is_internal_processing s" "sdo_state s = CO_SDO_ST_DOWNLOAD_SEGMENTED"
      "itf_ok (p_data_itf s) (sub_at (srv_od s) k)" "trans_data_len s \<le> so_len (sub_at (srv_od s) k)"
      "buffer_offset s \<le> trans_data_len s"
    and sh: "od_shape (srv_od s) = od_shape (srv_od s0)"
  shows "keeps s0 (CO_SDOserver_download_segment_handle cf s)"
proof -
  have ab: "keeps s0 (server_abort code s)" for code
    by (rule keeps_abort) (use w(1) sh in \<open>simp_all add: at_work_def\<close>)
  have so: "so_len (sub_at (srv_od s) k) < 65536" using w(1) shape_memD(1) od_mem_at by (auto simp: at_work_def)
  have st: "\<exists>od'. server_store (buffer_offset s) 1 n s = Inr (s\<lparr>srv_od := od'\<rparr>) \<and> od_shape od' = od_shape (srv_od s)"
    if "buffer_offset s + n \<le> trans_data_len s" "n \<le> 7" for n
    by (rule server_store_inside [of _ k]) (use that w in \<open>simp_all add: at_work_def\<close>)
  show ?thesis
  proof (cases "trans_data_len s \<le> buffer_offset s + 7")
    case True
    let ?n = "(trans_data_len s + 65536 - buffer_offset s) mod 65536"
    have n: "?n = trans_data_len s - buffer_offset s" by (rule sub_u16) (use w(5,6) so in simp_all)
    have "buffer_offset s + (trans_data_len s - buffer_offset s) \<le> trans_data_len s" "trans_data_len s - buffer_offset s \<le> 7"
      using True w(6) by simp_all
    from st [OF this] obtain od' where od': "server_store (buffer_offset s) 1 ?n s = Inr (s\<lparr>srv_od := od'\<rparr>)" "od_shape od' = od_shape (srv_od s)"
      unfolding n by blast
    let ?t = "s\<lparr>srv_od := od', buffer_offset := trans_data_len s, tx_data := (tx_data s)[0 := cs_of SCS_DOWNLOAD_SEGMENT OR sdo_toggle s]\<rparr>"
    have k: "sub_ok (srv_od s) k" using w(1) by (simp add: at_work_def)
    have "keeps s0 (server_finish ?t)"
      by (rule server_finish_keeps [of _ k])
        (use at_work_od [OF w(1) od'(2)] w od'(2) sh itf_ok_shape [OF sub_at_shape [OF od'(2) k]] in
          \<open>simp_all add: at_work_def in_download_def\<close>)
    then show ?thesis using ab True od'(1) w(2)
      by (simp add: CO_SDOserver_download_segment_handle_def and_srv_def)
  next
    case False
    then obtain od' where od': "server_store (buffer_offset s) 1 7 s = Inr (s\<lparr>srv_od := od'\<rparr>)" "od_shape od' = od_shape (srv_od s)"
      using st [of 7] by auto
    have k: "sub_ok (srv_od s) k" using w(1) by (simp add: at_work_def)
    have m: "(buffer_offset s + 7) mod 65536 = buffer_offset s + 7" using False w(5) so by simp
    show ?thesis
      using ab False od' w m sh at_work_od [OF w(1) od'(2)] itf_ok_shape [OF sub_at_shape [OF od'(2) k]] sub_shapeD(2) [OF sub_at_shape [OF od'(2) k]]
      by (simp add: CO_SDOserver_download_segment_handle_def and_srv_def keeps_def server_inv_def at_work_def in_download_def Let_def
          CO_SDOtimeout_reset_and_activate_def)
  qed
qed

lemma download_first_keeps:
  assumes w: "at_work s k" "\<not> is_internal_processing s" "sdo_state s = CO_SDO_ST_DOWNLOAD_INITIATE_RSP"
      "itf_ok (p_data_itf s) (sub_at (srv_od s) k)"
    and sh: "od_shape (srv_od s) = od_shape (srv_od s0)"
  shows "keeps s0 (CO_SDOserver_download_initiate_response_handle cf s)"
proof -
  let ?s = "CO_SDOserver_process_init_transfer_msg s"
  have w': "at_work ?s k" using w(1) by (simp add: at_work_def CO_SDOserver_process_init_transfer_msg_def)
  have od: "srv_od ?s = srv_od s" "p_data_itf ?s = p_data_itf s" "is_internal_processing ?s = is_internal_processing s"
      "sdo_state ?s = sdo_state s" "srv_sub_obj ?s = srv_sub_obj s" "rx_data ?s = rx_data s"
    by (simp_all add: CO_SDOserver_process_init_transfer_msg_def)
  have ab: "keeps s0 (server_abort code (?s\<lparr>trans_data_len := n\<rparr>))" "keeps s0 (server_abort code ?s)" for code n
    by (rule keeps_abort; use w' od sh in \<open>simp add: at_work_def\<close>)+
  have k: "sub_ok (srv_od s) k" "srv_sub_obj s = Some k" using w(1) by (simp_all add: at_work_def)
  consider (short) "rx_cs ?s AND 3 = 3" | (long) "rx_cs ?s AND 3 = 1" | (other) "rx_cs ?s AND 3 \<noteq> 3" "rx_cs ?s AND 3 \<noteq> 1" by blast
  then show ?thesis
  proof cases
    case short
    define n where "n = init_n (rx_cs ?s)"
    have n4: "n \<le> 4" by (simp add: n_def init_n_def)
    show ?thesis
    proof (cases "so_len (sub_at (srv_od s) k) < n")
      case True
      then show ?thesis using short ab w(2) od k
        by (simp add: CO_SDOserver_download_initiate_response_handle_def Let_def on_obj_def n_def)
    next
      case False
      let ?t = "?s\<lparr>trans_data_len := n\<rparr>"
      have "\<exists>od'. server_store 0 4 n ?t = Inr (?t\<lparr>srv_od := od'\<rparr>) \<and> od_shape od' = od_shape (srv_od ?t)"
        by (rule server_store_inside [of _ k]) (use w' w(4) n4 False od in \<open>simp_all add: at_work_def\<close>)
      then obtain od' where od': "server_store 0 4 n ?t = Inr (?t\<lparr>srv_od := od'\<rparr>)" "od_shape od' = od_shape (srv_od s)"
        using od by auto
      have "keeps s0 (server_finish (?t\<lparr>srv_od := od', buffer_offset := n, tx_data := (tx_data ?s)[0 := cs_of SCS_DOWNLOAD_INITIATED]\<rparr>))"
        by (rule server_finish_keeps [of _ k])
          (use at_work_od [OF w', of od'] w od od'(2) sh itf_ok_shape [OF sub_at_shape [OF od'(2) k(1)]] in
            \<open>simp_all add: at_work_def in_download_def\<close>)
      then show ?thesis using short False w(2) od k od'(1)
        by (simp add: CO_SDOserver_download_initiate_response_handle_def Let_def on_obj_def n_def and_srv_def)
    qed
  next
    case long
    then show ?thesis using ab w w' od k sh
      by (simp add: CO_SDOserver_download_initiate_response_handle_def Let_def on_obj_def keeps_def server_inv_def at_work_def
          in_download_def CO_SDOtimeout_reset_and_activate_def not_less)
  next
    case other
    then show ?thesis using ab w(2)
      by (simp add: CO_SDOserver_download_initiate_response_handle_def Let_def)
  qed
qed

lemma upload_first_keeps:
  assumes w: "at_work s k" "\<not> is_internal_processing s" and sh: "od_shape (srv_od s) = od_shape (srv_od s0)"
  shows "keeps s0 (CO_SDOserver_upload_initiate_response_handle s)"
proof -
  let ?x = "sub_at (srv_od s) k"
  let ?s = "(CO_SDOserver_process_init_transfer_msg s)\<lparr>trans_data_len := so_len ?x\<rparr>"
  have k: "sub_ok (srv_od s) k" "srv_sub_obj s = Some k" "od_mem (srv_od s)" using w(1) by (simp_all add: at_work_def)
  obtain xs where xs: "p_data ?x = Some xs" "so_len ?x \<le> length xs" using shape_memD(2) [OF od_mem_at [OF k(3,1)]] by blast
  have len: "length (tx_data ?s) = 8" using w(1) by (simp add: at_work_def CO_SDOserver_process_init_transfer_msg_def)
  show ?thesis
  proof (cases "so_len ?x \<le> 4")
    case True
    let ?t = "?s\<lparr>tx_data := (tx_data ?s)[0 := init_cs SCS_UPLOAD_INITIATE (so_len ?x)]\<rparr>"
    obtain zs where zs: "to_msg 4 (p_data ?x) 0 (so_len ?x) ?t = Inr (?t\<lparr>tx_data := zs\<rparr>)" "length zs = 8"
      using to_msg_inside [of 4 "so_len ?x" ?t "p_data ?x" xs 0] True xs len by auto
    have "keeps s0 (Inr (CO_SDO_RT_success, ?t\<lparr>tx_data := zs, buffer_offset := so_len ?x, sdo_state := CO_SDO_ST_IDLE\<rparr>, out))" for out
      by (rule keeps_idle [of _ k])
        (use w zs(2) sh in \<open>simp_all add: at_work_def CO_SDOserver_process_init_transfer_msg_def\<close>)
    then show ?thesis using True k(2) zs(1)
      by (simp add: CO_SDOserver_upload_initiate_response_handle_def on_obj_def Let_def and_srv_def server_send_def CO_CAN_send_def)
  next
    case False
    then show ?thesis using w sh len
      by (simp add: CO_SDOserver_upload_initiate_response_handle_def on_obj_def Let_def at_work_def keeps_def server_inv_def
          in_download_def CO_SDOtimeout_reset_and_activate_def CO_SDOserver_process_init_transfer_msg_def length_CO_setUint32)
  qed
qed

lemma upload_segment_keeps:
  assumes w: "at_work s k" "\<not> is_internal_processing s" "sdo_state s = CO_SDO_ST_UPLOAD_SEGMENTED"
      "trans_data_len s \<le> so_len (sub_at (srv_od s) k)" "buffer_offset s \<le> trans_data_len s"
    and sh: "od_shape (srv_od s) = od_shape (srv_od s0)"
  shows "keeps s0 (CO_SDOserver_upload_segment_handle s)"
proof -
  let ?x = "sub_at (srv_od s) k"
  have ab: "keeps s0 (server_abort code s)" for code
    by (rule keeps_abort) (use w(1) sh in \<open>simp_all add: at_work_def\<close>)
  have k: "sub_ok (srv_od s) k" "srv_sub_obj s = Some k" "od_mem (srv_od s)" "length (tx_data s) = 8"
    using w(1) by (simp_all add: at_work_def)
  have so: "so_len ?x < 65536" by (rule shape_memD(1) [OF od_mem_at [OF k(3,1)]])
  obtain xs where xs: "p_data ?x = Some xs" "so_len ?x \<le> length xs" using shape_memD(2) [OF od_mem_at [OF k(3,1)]] by blast
  show ?thesis
  proof (cases "trans_data_len s \<le> buffer_offset s + 7")
    case True
    define n where "n = (trans_data_len s + 65536 - buffer_offset s) mod 256"
    have "trans_data_len s + 65536 - buffer_offset s = (trans_data_len s - buffer_offset s) + 256 * 256" using w(5) by simp
    then have "n = trans_data_len s - buffer_offset s" unfolding n_def using True by (simp only: mod_mult_self2) simp
    then have n: "buffer_offset s + n \<le> length xs" "n \<le> 7" using True w xs(2) by simp_all
    obtain zs where zs: "to_msg 1 (p_data ?x) (buffer_offset s) n s = Inr (s\<lparr>tx_data := zs\<rparr>)" "length zs = 8"
      using to_msg_inside [of 1 n s "p_data ?x" xs "buffer_offset s"] n xs(1) k(4) by auto
    have "keeps s0 (Inr (CO_SDO_RT_success, s\<lparr>buffer_offset := trans_data_len s, tx_data := zs', sdo_toggle := t,
        sdo_state := CO_SDO_ST_IDLE\<rparr>, out))" if "length zs' = 8" for zs' t out
      by (rule keeps_idle [of _ k]) (use w that sh in \<open>simp_all add: at_work_def\<close>)
    then show ?thesis using True k(2) zs ab n_def
      by (simp add: CO_SDOserver_upload_segment_handle_def on_obj_def Let_def and_srv_def server_send_def CO_CAN_send_def)
  next
    case False
    then obtain zs where zs: "to_msg 1 (p_data ?x) (buffer_offset s) 7 s = Inr (s\<lparr>tx_data := zs\<rparr>)" "length zs = 8"
      using to_msg_inside [of 1 7 s "p_data ?x" xs "buffer_offset s"] w(4,5) xs k(4) by auto
    have m: "(buffer_offset s + 7) mod 65536 = buffer_offset s + 7" using False w(4) so by simp
    show ?thesis using False w sh zs ab m
      by (simp add: CO_SDOserver_upload_segment_handle_def on_obj_def Let_def and_srv_def at_work_def keeps_def server_inv_def
          in_download_def CO_SDOtimeout_reset_and_activate_def)
  qed
qed

lemma keeps_idle_state:
  "server_inv s \<Longrightarrow> keeps s (Inr (ret, s, out))"
  by (simp add: keeps_def)

lemma server_handle_keeps:
  assumes "server_inv s"
  shows "keeps s (server_handle cf s)"
proof (cases "sdo_state s = CO_SDO_ST_IDLE")
  case True
  then show ?thesis using keeps_idle_state [OF assms] by (simp add: server_handle_def)
next
  case False
  then obtain k where k: "at_work s k" "in_download s \<longrightarrow> itf_ok (p_data_itf s) (sub_at (srv_od s) k)"
      "sdo_state s = CO_SDO_ST_DOWNLOAD_SEGMENTED \<or> sdo_state s = CO_SDO_ST_UPLOAD_SEGMENTED
        \<or> sdo_state s = CO_SDO_ST_DOWNLOAD_INITIATE_RSP \<and> is_internal_processing s"
      "is_internal_processing s \<or> trans_data_len s \<le> so_len (sub_at (srv_od s) k) \<and> buffer_offset s \<le> trans_data_len s"
    using assms by (auto simp: server_inv_def at_work_def)
  show ?thesis
  proof (cases "is_internal_processing s")
    case True
    then have "keeps s (server_confirm cf s)" by (intro server_confirm_keeps assms refl)
    moreover have "in_download s" using assms True by (simp add: server_inv_def)
    ultimately show ?thesis using True
      by (auto simp: server_handle_def in_download_def CO_SDOserver_download_initiate_response_handle_def
          CO_SDOserver_download_segment_handle_def)
  next
    case False
    then show ?thesis
      using k download_segment_keeps [OF k(1) False _ _ _ _ refl, of cf] upload_segment_keeps [OF k(1) False _ _ _ refl]
      by (auto simp: server_handle_def in_download_def)
  qed
qed

section \<open>The frames the server can take\<close>

definition frame_ok :: "CO_OD \<Rightarrow> u8 list \<Rightarrow> bool" where
  "frame_ok od d \<longleftrightarrow> length d = 8 \<and> (spec_of (d ! 0) = 4 \<or> (\<exists>obj \<in> set (od_list od). CO_getUint16 1 d \<le> obj_index obj))"

definition abort_in_confirmation :: "u8 list \<Rightarrow> sdo_server \<Rightarrow> bool" where
  "abort_in_confirmation d s \<longleftrightarrow> spec_of (d ! 0) = 4 \<and> is_internal_processing s"

lemma frame_ok_shape:
  assumes "od_shape od' = od_shape od" "frame_ok od d"
  shows "frame_ok od' d"
proof (cases "spec_of (d ! 0) = 4")
  case True
  then show ?thesis using assms(2) by (simp add: frame_ok_def)
next
  case False
  then obtain obj where "obj \<in> set (od_list od)" "CO_getUint16 1 d \<le> obj_index obj" using assms(2) by (auto simp: frame_ok_def)
  then have "obj_index obj \<in> obj_index ` set (od_list od')"
    using od_shape_index [OF assms(1)] by (metis image_eqI set_map)
  then show ?thesis using False assms(2) \<open>CO_getUint16 1 d \<le> obj_index obj\<close> by (auto simp: frame_ok_def)
qed

lemma first_msg_keeps:
  assumes inv: "server_inv s" "sdo_state s = CO_SDO_ST_IDLE"
    and fr: "\<exists>obj \<in> set (od_list (srv_od s)). CO_getUint16 1 (rx_data s) \<le> obj_index obj"
  shows "(\<exists>s' out. CO_SDOserver_process_first_msg_and_set_state s = Inr (CO_SDO_RT_abort, s', out)
        \<and> server_inv s' \<and> \<not> rx_new s' \<and> od_shape (srv_od s') = od_shape (srv_od s))
    \<or> (\<exists>s' k. CO_SDOserver_process_first_msg_and_set_state s = Inr (CO_SDO_RT_busy, s', []) \<and> at_work s' k
        \<and> \<not> is_internal_processing s' \<and> srv_od s' = srv_od s
        \<and> (sdo_state s' = CO_SDO_ST_DOWNLOAD_INITIATE_RSP \<and> itf_ok (p_data_itf s') (sub_at (srv_od s') k)
            \<or> sdo_state s' = CO_SDO_ST_UPLOAD_INITIATE_RSP))"
proof -
  let ?i = "CO_getUint16 1 (rx_data s)" and ?sub = "unat (rx_data s ! 3)"
  have ni: "\<not> is_internal_processing s" using inv by (auto simp: server_inv_def in_download_def)
  have ab: "\<exists>s' out. server_abort c t = Inr (CO_SDO_RT_abort, s', out) \<and> server_inv s' \<and> \<not> rx_new s'
        \<and> od_shape (srv_od s') = od_shape (srv_od s)"
    if "sdo_valid t" "length (rx_data t) = 8" "length (tx_data t) = 8" "srv_od t = srv_od s" for c t
    using that inv(1)
    by (simp add: server_inv_def server_abort_def CO_SDO_abort_and_response_def Let_def CO_SDO_abort_def
        CO_SDOtimeout_reset_and_inactivate_def length_CO_setUint32)
  have "od_ok (srv_od s)" using inv(1) by (simp add: server_inv_def od_mem_def)
  then have "CO_OD_get_no (srv_od s) ?i = od_find (od_list (srv_od s)) ?i" by (rule CO_OD_get_no_find)
  moreover have "\<not> (\<forall>obj \<in> set (od_list (srv_od s)). obj_index obj < ?i)" using fr by (meson leD)
  ultimately obtain no where no: "CO_OD_get_no (srv_od s) ?i = Inr no" by (auto simp: od_find_def split: option.splits)
  let ?t = "s\<lparr>sdo_index := ?i, sdo_sub_index := ?sub, object_no := no\<rparr>"
  show ?thesis
  proof (cases "no = OD_UNSUPPORT_ENTRY \<or> CO_OD_get_sub_object_pointer (srv_od s) no ?sub = None")
    case True
    then have "CO_SDOserver_get_sub_object_pointer s = Inr (?t, None)"
      using no by (auto simp: CO_SDOserver_get_sub_object_pointer_def Let_def)
    then show ?thesis
      using ab [of s] ab [of "?t\<lparr>srv_sub_obj := None\<rparr>"] inv(1)
      by (simp add: CO_SDOserver_process_first_msg_and_set_state_def Let_def server_inv_def)
  next
    case False
    then have k: "CO_SDOserver_get_sub_object_pointer s = Inr (?t, Some (no, ?sub))" "no < od_number (srv_od s)"
        "?sub < sub_number (od_list (srv_od s) ! no)"
      using no by (auto simp: CO_SDOserver_get_sub_object_pointer_def CO_OD_get_sub_object_pointer_def Let_def split: if_splits)
    have sk: "sub_ok (srv_od s) (no, ?sub)"
    proof -
      have *: "no < length (od_list (srv_od s))" using k(2) \<open>od_ok (srv_od s)\<close> by (simp add: od_ok_def)
      then have "od_list (srv_od s) ! no \<in> set (od_list (srv_od s))" by simp
      then have "sub_number (od_list (srv_od s) ! no) \<le> length (obj_subs (od_list (srv_od s) ! no))"
        using \<open>od_ok (srv_od s)\<close> unfolding od_ok_def by blast
      then show ?thesis using * k(3) by (simp add: sub_ok_def)
    qed
    show ?thesis
      using k(1) sk ab [of s] ab [of "?t\<lparr>srv_sub_obj := Some (no, ?sub)\<rparr>"] inv ni
      by (auto simp: CO_SDOserver_process_first_msg_and_set_state_def Let_def server_inv_def at_work_def itf_ok_def)
  qed
qed

text \<open>The invariant with the message that waits.\<close>

definition server_safe :: "sdo_server \<Rightarrow> bool" where
  "server_safe s \<longleftrightarrow> server_inv s \<and> (rx_new s \<longrightarrow> frame_ok (srv_od s) (rx_data s) \<and> \<not> abort_in_confirmation (rx_data s) s)"

lemma server_inv_field:
  "server_inv (s\<lparr>timeout_cter_ms := n\<rparr>) = server_inv s" "server_inv (s\<lparr>rx_new := b\<rparr>) = server_inv s"
  "server_inv (s\<lparr>sdo_status := st\<rparr>) = server_inv s" "server_inv (s\<lparr>rx_abort_code := n\<rparr>) = server_inv s"
  by (simp_all add: server_inv_def in_download_def)

text \<open>What remains after the timer: the message is handled.\<close>

lemma server_run_keeps:
  assumes s: "server_safe s"
  shows "\<exists>s' out. CO_SDOserver_process dt cf s = Inr (s', out) \<and> server_safe s' \<and> od_shape (srv_od s') = od_shape (srv_od s)"
proof -
  let ?act = "CO_SDOtimeout_is_activated s"
  define s1 where "s1 = (if ?act then CO_SDOtimeout_increase dt s else s)"
  have inv: "server_inv s" and fr: "rx_new s \<Longrightarrow> frame_ok (srv_od s) (rx_data s)"
    and na: "rx_new s \<Longrightarrow> \<not> abort_in_confirmation (rx_data s) s" using s by (simp_all add: server_safe_def)
  have s1: "server_inv s1" "rx_new s1 = rx_new s" "srv_od s1 = srv_od s" "rx_data s1 = rx_data s" "sdo_valid s1"
      "is_internal_processing s1 = is_internal_processing s" "sdo_state s1 = sdo_state s"
    using inv by (simp_all add: s1_def CO_SDOtimeout_increase_def server_inv_field) (simp_all add: server_inv_def)
  define s2 where "s2 = (if rx_new s then CO_SDOtimeout_reset_and_inactivate s1 else s1)"
  have s2: "server_inv s2" "srv_od s2 = srv_od s" "rx_data s2 = rx_data s" "sdo_state s2 = sdo_state s"
      "is_internal_processing s2 = is_internal_processing s"
    using s1 by (simp_all add: s2_def CO_SDOtimeout_reset_and_inactivate_def server_inv_field)
  have pr: "CO_SDOserver_step dt cf s =
      (if ?act \<and> CO_SDOtimeout_is_timeout s1 then Inr (CO_SDO_RT_abort, CO_SDO_abort CO_SDO_AB_TIMEOUT s1, [])
       else if \<not> rx_new s \<and> \<not> is_internal_processing s
       then Inr (if sdo_state s = CO_SDO_ST_IDLE then CO_SDO_RT_idle else CO_SDO_RT_busy, s1, [])
       else if rx_new s \<and> spec_of (rx_data s ! 0) = 4
       then Inr (CO_SDO_RT_abort, s2\<lparr>rx_abort_code := CO_getUint32 4 (rx_data s), rx_new := False, sdo_state := CO_SDO_ST_IDLE\<rparr>, [])
       else (case (if rx_new s \<and> sdo_state s = CO_SDO_ST_IDLE then CO_SDOserver_process_first_msg_and_set_state s2
                   else Inr (CO_SDO_RT_busy, s2, [])) of Inl f \<Rightarrow> Inl f
             | Inr (ret, t, out) \<Rightarrow>
                 if ret = CO_SDO_RT_abort then Inr (CO_SDO_RT_abort, t, out)
                 else (case server_handle cf t of Inl f \<Rightarrow> Inl f
                   | Inr (ret, t, out') \<Rightarrow>
                       Inr (if sdo_state t = CO_SDO_ST_IDLE then CO_SDO_RT_idle else ret, t\<lparr>rx_new := False\<rparr>, out @ out'))))"
  proof -
    have "sdo_valid s" using inv by (simp add: server_inv_def)
    moreover have "CO_SDOtimeout_increase dt s = s1" if ?act using that by (simp add: s1_def)
    ultimately show ?thesis using s1(2-)
      by (cases "rx_new s")
        (simp_all add: CO_SDOserver_step_def Let_def rx_cs_def s2_def CO_SDOtimeout_reset_and_inactivate_def flip: s1_def)
  qed
  have fin: ?thesis if "CO_SDOserver_step dt cf s = Inr (ret, t, out)" "server_safe t" "od_shape (srv_od t) = od_shape (srv_od s)" for ret t out
    using that by (simp add: CO_SDOserver_process_def server_safe_def server_inv_field abort_in_confirmation_def)
  have done': ?thesis if "CO_SDOserver_step dt cf s = (case server_handle cf t of Inl f \<Rightarrow> Inl f
        | Inr (ret, t, out') \<Rightarrow> Inr (if sdo_state t = CO_SDO_ST_IDLE then CO_SDO_RT_idle else ret, t\<lparr>rx_new := False\<rparr>, [] @ out'))"
      "keeps t (server_handle cf t)" "od_shape (srv_od t) = od_shape (srv_od s)" for t
    using that fin by (fastforce simp: keeps_def server_safe_def server_inv_field)
  consider (late) "?act" "CO_SDOtimeout_is_timeout s1" | (quiet) "\<not> (?act \<and> CO_SDOtimeout_is_timeout s1)" "\<not> rx_new s" "\<not> is_internal_processing s"
    | (abort) "\<not> (?act \<and> CO_SDOtimeout_is_timeout s1)" "rx_new s" "spec_of (rx_data s ! 0) = 4"
    | (first) "\<not> (?act \<and> CO_SDOtimeout_is_timeout s1)" "rx_new s" "spec_of (rx_data s ! 0) \<noteq> 4" "sdo_state s = CO_SDO_ST_IDLE"
    | (more) "\<not> (?act \<and> CO_SDOtimeout_is_timeout s1)" "rx_new s \<or> is_internal_processing s" "rx_new s \<longrightarrow> spec_of (rx_data s ! 0) \<noteq> 4"
        "\<not> (rx_new s \<and> sdo_state s = CO_SDO_ST_IDLE)" by blast
  then show ?thesis
  proof cases
    case late
    have "server_safe (CO_SDO_abort CO_SDO_AB_TIMEOUT s1)" "srv_od (CO_SDO_abort CO_SDO_AB_TIMEOUT s1) = srv_od s"
      using s1 by (simp_all add: server_safe_def CO_SDO_abort_def CO_SDOtimeout_reset_and_inactivate_def server_inv_def)
    then show ?thesis using late fin pr by simp
  next
    case quiet
    have "server_safe s1" using s1 quiet by (simp add: server_safe_def)
    moreover have "CO_SDOserver_step dt cf s = Inr (if sdo_state s = CO_SDO_ST_IDLE then CO_SDO_RT_idle else CO_SDO_RT_busy, s1, [])"
      unfolding pr if_not_P [OF quiet(1)] using quiet by simp
    ultimately show ?thesis using fin s1(3) by simp
  next
    case abort
    have "\<not> is_internal_processing s" using na [OF abort(2)] abort(3) by (simp add: abort_in_confirmation_def)
    then have "server_safe (s2\<lparr>rx_abort_code := c, rx_new := False, sdo_state := CO_SDO_ST_IDLE\<rparr>)" for c
      using s2 by (simp add: server_safe_def server_inv_def)
    moreover have "CO_SDOserver_step dt cf s = Inr (CO_SDO_RT_abort,
        s2\<lparr>rx_abort_code := CO_getUint32 4 (rx_data s), rx_new := False, sdo_state := CO_SDO_ST_IDLE\<rparr>, [])"
      unfolding pr if_not_P [OF abort(1)] using abort by simp
    ultimately show ?thesis using fin s2(2) by simp
  next
    case first
    have f: "\<exists>obj \<in> set (od_list (srv_od s2)). CO_getUint16 1 (rx_data s2) \<le> obj_index obj"
      using fr [OF first(2)] first(3) s2(2,3) by (simp add: frame_ok_def)
    from first_msg_keeps [OF s2(1) _ f] first(4) s2(4)
    consider (a) t out where "CO_SDOserver_process_first_msg_and_set_state s2 = Inr (CO_SDO_RT_abort, t, out)" "server_inv t"
        "\<not> rx_new t" "od_shape (srv_od t) = od_shape (srv_od s2)"
      | (b) t k where "CO_SDOserver_process_first_msg_and_set_state s2 = Inr (CO_SDO_RT_busy, t, [])" "at_work t k"
        "\<not> is_internal_processing t" "srv_od t = srv_od s2"
        "sdo_state t = CO_SDO_ST_DOWNLOAD_INITIATE_RSP \<and> itf_ok (p_data_itf t) (sub_at (srv_od t) k)
          \<or> sdo_state t = CO_SDO_ST_UPLOAD_INITIATE_RSP" by auto
    then show ?thesis
    proof cases
      case a
      have "CO_SDOserver_step dt cf s = Inr (CO_SDO_RT_abort, t, out)" unfolding pr if_not_P [OF first(1)] using first a(1) by simp
      then show ?thesis by (rule fin) (use a s2(2) in \<open>simp_all add: server_safe_def\<close>)
    next
      case b
      have "keeps t (server_handle cf t)"
        using b(5) download_first_keeps [OF b(2,3) _ _ refl, of cf] upload_first_keeps [OF b(2,3) refl]
        by (auto simp: server_handle_def)
      then show ?thesis by (intro done' [of t]) (use first(2-) pr [unfolded if_not_P [OF first(1)]] b(1,4) s2(2) in simp_all)
    qed
  next
    case more
    have "keeps s2 (server_handle cf s2)" by (rule server_handle_keeps [OF s2(1)])
    then show ?thesis by (intro done' [of s2]) (use more(2-) pr [unfolded if_not_P [OF more(1)]] s2(2) in auto)
  qed
qed

section \<open>Runs of the server\<close>

datatype server_event = Rx can_frame | Run nat confirm

fun server_step :: "server_event \<Rightarrow> sdo_server \<Rightarrow> (sdo_server, can_frame) result" where
  "server_step (Rx f) s = Inr (server_receive f s, [])"
| "server_step (Run dt cf) s = CO_SDOserver_process dt cf s"

lemma server_receive_keeps:
  assumes "server_safe s" "frame_ok (srv_od s) (snd f)" "\<not> abort_in_confirmation (snd f) s"
  shows "server_safe (server_receive f s)" "srv_od (server_receive f s) = srv_od s"
proof -
  have "server_inv (s\<lparr>rx_data := snd f, rx_new := True\<rparr>)" if "server_inv s"
    using that assms(2) by (simp add: server_inv_def in_download_def frame_ok_def)
  then show "server_safe (server_receive f s)" "srv_od (server_receive f s) = srv_od s"
    using assms by (cases f; simp add: server_safe_def server_receive_def abort_in_confirmation_def)+
qed

text \<open>C12.
  A server whose objects all have their data (and their shadow and temporary copies, where they have them) in memory runs on,
  whatever sequence of frames and calls it gets and whatever the extensions answer: it never reads or writes outside a buffer and
  never through a null pointer, and no buffer changes its length. What is asked of the frames: they have eight bytes; a frame
  that is not an abort names no index beyond the last entry of the dictionary (the search would read past its end,
  \<^verbatim>\<open>CO_OD_get_no_is_linear_search\<close>); and an abort does not arrive at a moment when the server waits for an extension to
  confirm a write (\<^verbatim>\<open>abort_during_confirmation_breaks_next_write\<close> shows what happens then). At any other moment an abort,
  a frame of another transfer, a wrong toggle bit or a wrong length is taken.\<close>

theorem server_stays_in_bounds:
  assumes "server_inv s" "\<not> rx_new s" "\<forall>f. Rx f \<in> set es \<longrightarrow> frame_ok (srv_od s) (snd f)"
    and "\<forall>es1 f es2 t out. es = es1 @ Rx f # es2 \<longrightarrow> run_all server_step es1 s = Inr (t, out) \<longrightarrow> \<not> abort_in_confirmation (snd f) t"
  shows "\<exists>s' out. run_all server_step es s = Inr (s', out) \<and> server_inv s' \<and> od_shape (srv_od s') = od_shape (srv_od s)"
proof -
  have "\<exists>s' out. run_all server_step es t = Inr (s', out) \<and> server_safe s' \<and> od_shape (srv_od s') = od_shape (srv_od s)"
    if "server_safe t" "od_shape (srv_od t) = od_shape (srv_od s)"
      "\<And>es1 f es2 u out. es = es1 @ Rx f # es2 \<Longrightarrow> run_all server_step es1 t = Inr (u, out) \<Longrightarrow> \<not> abort_in_confirmation (snd f) u" for t
    using assms(3) that
  proof (induction es arbitrary: t)
    case (Cons e es)
    have "\<exists>t' o1. server_step e t = Inr (t', o1) \<and> server_safe t' \<and> od_shape (srv_od t') = od_shape (srv_od s)"
    proof (cases e)
      case (Rx f)
      have "frame_ok (srv_od t) (snd f)" by (rule frame_ok_shape [OF Cons.prems(3)]) (use Cons.prems(1) Rx in simp)
      moreover have "\<not> abort_in_confirmation (snd f) t" by (rule Cons.prems(4) [of "[]" f es t "[]"]) (simp_all add: Rx)
      ultimately show ?thesis using server_receive_keeps [OF Cons.prems(2)] Rx Cons.prems(3) by simp
    next
      case (Run dt cf)
      then show ?thesis using server_run_keeps [OF Cons.prems(2), of dt cf] Cons.prems(3) by fastforce
    qed
    then obtain t' o1 where t': "server_step e t = Inr (t', o1)" "server_safe t'" "od_shape (srv_od t') = od_shape (srv_od s)"
      by blast
    have "\<forall>f. Rx f \<in> set es \<longrightarrow> frame_ok (srv_od s) (snd f)" using Cons.prems(1) by (meson list.set_intros(2))
    moreover have "\<not> abort_in_confirmation (snd f) u"
      if "es = es1 @ Rx f # es2" "run_all server_step es1 t' = Inr (u, out)" for es1 f es2 u out
      by (rule Cons.prems(4) [of "e # es1" f es2 u "o1 @ out"]) (simp_all add: that t'(1))
    ultimately show ?case using Cons.IH [OF _ t'(2,3)] t'(1) by fastforce
  qed simp
  from this [of s] show ?thesis using assms(1,2,4) by (auto simp: server_safe_def)
qed

lemma example_server_inv: "server_inv example_server"
proof -
  have "sub_shape x = (ODA_SDO_RW, 10, Some 10, None, None)" if "x \<in> set (obj_subs (od_list example_od ! 0))" for x
    using that by (simp add: example_od_def sub_shape_def)
  then have "od_mem example_od" by (auto simp: od_mem_def od_ok_def example_od_def shape_mem_def)
  then show ?thesis by (simp add: server_inv_def example_server_def)
qed

text \<open>A segmented write that the client aborts after its first segment, and a write with a wrong length.\<close>

theorem server_stays_in_bounds_witness:
  "\<exists>s' out. run_all server_step [Rx (0x605, [0x21, 0x80, 0x21, 2, 10, 0, 0, 0]), Run 1 (CO_EXT_CONFIRM_success, 0),
       Rx (0x605, [0x80, 0x80, 0x21, 2, 0, 0, 0, 0]), Run 1 (CO_EXT_CONFIRM_success, 0),
       Rx (0x605, [0x21, 0x80, 0x21, 2, 200, 0, 0, 0]), Run 1 (CO_EXT_CONFIRM_success, 0)] example_server = Inr (s', out)
     \<and> server_inv s' \<and> od_shape (srv_od s') = od_shape (srv_od example_server)"
proof -
  let ?es = "[Rx (0x605, [0x21, 0x80, 0x21, 2, 10, 0, 0, 0]), Run 1 (CO_EXT_CONFIRM_success, 0)]"
  have quiet: "\<not> abort_in_confirmation d t" if run: "run_all server_step ?es example_server = Inr (t, out)" for d t out
  proof
    assume "abort_in_confirmation d t"
    then have i: "is_internal_processing t" by (simp add: abort_in_confirmation_def)
    have t: "server_inv t" "od_shape (srv_od t) = od_shape example_od"
      using server_stays_in_bounds [OF example_server_inv, of ?es] run
      by (auto simp: example_server_def example_od_def frame_ok_def abort_in_confirmation_def spec_of_def CO_getUint16_def
          Cons_eq_append_conv simp del: run_all.simps)
    then obtain k where k: "sub_ok (srv_od t) k" "p_ext (sub_at (srv_od t) k) \<noteq> None"
      using i by (auto simp: server_inv_def in_download_def)
    then have "p_ext (sub_at example_od k) \<noteq> None" "sub_ok example_od k"
      using sub_shapeD(3) [OF sub_at_shape [OF t(2)]] sub_ok_shape [OF t(2)] by auto
    then show False by (cases k) (auto simp: example_od_def sub_ok_def sub_at_def)
  qed
  show ?thesis
    by (rule server_stays_in_bounds [OF example_server_inv])
      (use quiet in \<open>auto simp: example_server_def example_od_def frame_ok_def spec_of_def CO_getUint16_def Cons_eq_append_conv
        simp del: run_all.simps\<close>, simp_all add: abort_in_confirmation_def spec_of_def)
qed

text \<open>
  When the client aborts while the server waits for an extension to confirm a write, the server goes back to the idle state but
  keeps \<^verbatim>\<open>is_internal_processing\<close> set. The next write, to an object without extension, is then taken for one that
  waits for its confirmation, and the null extension of the new object is called.\<close>

theorem abort_during_confirmation_breaks_next_write:
  assumes "server_inv s" "is_internal_processing s" "timeout_cter_ms s = 0 \<or> dt + timeout_cter_ms s \<le> allowed_timeout_ms s"
      "allowed_timeout_ms s < 65536"
    and "length ab = 8" "spec_of (ab ! 0) = 4"
    and "names_obj s idx sub no" "so_attr (sub_at (srv_od s) (no, sub)) AND ODA_SDO_W \<noteq> 0" "p_ext (sub_at (srv_od s) (no, sub)) = None"
    and "mux_msg idx sub m" "spec_of (m ! 0) = 1"
  shows "run_all server_step [Rx (0x600 + rx_node s, ab), Run dt cf, Rx (0x600 + rx_node s, m), Run dt' cf'] s = Inl Null_Deref"
proof -
  let ?s = "server_receive (0x600 + rx_node s, ab) s"
  have rx: "?s = s\<lparr>rx_data := ab, rx_new := True\<rparr>" by (simp add: server_receive_def)
  define u where "u = s\<lparr>rx_data := ab, timeout_cter_ms := 0, rx_abort_code := CO_getUint32 4 ab, rx_new := False,
     sdo_state := CO_SDO_ST_IDLE, sdo_status := CO_SDO_RT_abort\<rparr>"
  have v: "sdo_valid s" using assms(1) by (simp add: server_inv_def)
  have ok: "\<not> CO_SDOtimeout_is_timeout (CO_SDOtimeout_increase dt (s\<lparr>rx_data := ab, rx_new := True\<rparr>))" if "0 < timeout_cter_ms s"
    using that assms(3,4) by (simp add: CO_SDOtimeout_is_timeout_def CO_SDOtimeout_increase_def add.commute)
  have p: "CO_SDOserver_process dt cf ?s = Inr (u, [])"
  proof (cases "0 < timeout_cter_ms s")
    case True
    then show ?thesis using ok [OF True] v assms(2,6) unfolding rx
      by (simp add: CO_SDOserver_process_def CO_SDOserver_step_def Let_def CO_SDOtimeout_is_activated_def u_def
          CO_SDOtimeout_reset_and_inactivate_def rx_cs_def) (simp add: CO_SDOtimeout_increase_def)
  next
    case False
    then show ?thesis using v assms(2,6) unfolding rx
      by (simp add: CO_SDOserver_process_def CO_SDOserver_step_def Let_def CO_SDOtimeout_is_activated_def u_def
          CO_SDOtimeout_reset_and_inactivate_def rx_cs_def)
  qed
  have u: "sdo_valid u" "is_internal_processing u" "sdo_state u = CO_SDO_ST_IDLE" "timeout_cter_ms u = 0" "srv_od u = srv_od s"
      "rx_node u = rx_node s"
    using v assms(2) by (simp_all add: u_def)
  let ?u = "(u\<lparr>rx_data := m, rx_new := True\<rparr>)\<lparr>timeout_cter_ms := 0\<rparr>"
  have g: "CO_SDOserver_get_sub_object_pointer ?u = Inr (?u\<lparr>sdo_index := idx, sdo_sub_index := sub, object_no := no\<rparr>, Some (no, sub))"
    by (rule get_sub_object) (use assms(7) mux_msg_reads [OF assms(10)] u(5) in \<open>simp_all add: names_obj_def\<close>)
  have "CO_SDOserver_process dt' cf' (server_receive (0x600 + rx_node s, m) u) = Inl Null_Deref"
    using u g assms(8,9,11)
    by (simp add: CO_SDOserver_process_def CO_SDOserver_step_def Let_def CO_SDOtimeout_is_activated_def
        CO_SDOtimeout_reset_and_inactivate_def rx_cs_def server_receive_def CO_SDOserver_process_first_msg_and_set_state_def
        server_handle_def CO_SDOserver_download_initiate_response_handle_def server_confirm_def on_obj_def)
  then show ?thesis using p by simp
qed

text \<open>A server that waits for the extension of its first sub-object.\<close>

definition example_waiting :: "sdo_server" where
  "example_waiting = example_server\<lparr>srv_od := set_sub (0, 0) ((sub_at example_od (0, 0))\<lparr>p_ext := Some (Some (replicate 10 0))\<rparr>) example_od,
     is_internal_processing := True, sdo_state := CO_SDO_ST_DOWNLOAD_INITIATE_RSP, srv_sub_obj := Some (0, 0),
     p_data_itf := Itf_Shadow, timeout_cter_ms := 1\<rparr>"

theorem abort_during_confirmation_breaks_next_write_witness:
  "run_all server_step [Rx (0x605, [0x80, 0, 0, 0, 0, 0, 0, 0]), Run 1 (CO_EXT_CONFIRM_processing, 0),
     Rx (0x605, [0x2F, 0x80, 0x21, 2, 7, 0, 0, 0]), Run 1 (CO_EXT_CONFIRM_processing, 0)] example_waiting = Inl Null_Deref"
proof -
  have ok: "sub_ok example_od (0, 0)" by (simp add: sub_ok_def example_od_def)
  have od: "srv_od example_waiting = \<lparr>od_number = 1, od_list = [\<lparr>obj_index = 0x2180, sub_number = 3, obj_subs =
     (replicate 3 \<lparr>p_data = Some (replicate 10 0), so_attr = ODA_SDO_RW, so_len = 10, p_ext = None, p_temp_data = None\<rparr>)
       [0 := \<lparr>p_data = Some (replicate 10 0), so_attr = ODA_SDO_RW, so_len = 10, p_ext = Some (Some (replicate 10 0)), p_temp_data = None\<rparr>]\<rparr>]\<rparr>"
    by (simp add: example_waiting_def set_sub_def example_od_def sub_at_def)
  have "shape_mem (sub_shape x)" if "x \<in> set (obj_subs (od_list (srv_od example_waiting) ! 0))" for x
    using that by (auto simp: od sub_shape_def shape_mem_def numeral_3_eq_3)
  then have "od_mem (srv_od example_waiting)" by (simp add: od_mem_def od_ok_def od)
  then have inv: "server_inv example_waiting"
    unfolding server_inv_def od by (auto simp: example_waiting_def example_server_def in_download_def sub_ok_def sub_at_def itf_ok_def)
  have nm: "names_obj example_waiting 0x2180 2 0" by (simp add: names_obj_def od_ok_def od)
  have m: "mux_msg 0x2180 2 [0x2F, 0x80, 0x21, 2, 7, 0, 0, 0]" by (simp add: mux_msg_def)
  have at: "sub_at (srv_od example_waiting) (0, 2) =
      \<lparr>p_data = Some (replicate 10 0), so_attr = ODA_SDO_RW, so_len = 10, p_ext = None, p_temp_data = None\<rparr>"
    by (simp add: od sub_at_def)
  have w: "is_internal_processing example_waiting" "timeout_cter_ms example_waiting = 1" "allowed_timeout_ms example_waiting = 100"
      "rx_node example_waiting = 5"
    by (simp_all add: example_waiting_def example_server_def)
  have node: "0x605 = 0x600 + rx_node example_waiting" by (simp add: w)
  show ?thesis
    unfolding node
    by (rule abort_during_confirmation_breaks_next_write [OF inv w(1) _ _ _ _ nm _ _ m]) (simp_all add: w at spec_of_def)
qed

text \<open>
  Why the objects must have their data in memory: when the client reads an object of one to four bytes whose data pointer is
  null, the server copies from the null pointer. The dictionary of the unit declares such an object
  (\<^verbatim>\<open>g_fw_name\<close> of \<^verbatim>\<open>apps/pmu/canopen/od.c\<close>, readable, one byte), and nothing in the repository gives it data.\<close>

theorem read_of_object_without_data_faults:
  assumes "sdo_valid s" "\<not> is_internal_processing s" "sdo_state s = CO_SDO_ST_IDLE" "timeout_cter_ms s = 0" "length (tx_data s) = 8"
    and "names_obj s idx sub no" "so_attr (sub_at (srv_od s) (no, sub)) AND ODA_SDO_R \<noteq> 0" "p_data (sub_at (srv_od s) (no, sub)) = None"
      "0 < so_len (sub_at (srv_od s) (no, sub))" "so_len (sub_at (srv_od s) (no, sub)) \<le> 4"
    and "mux_msg idx sub m" "spec_of (m ! 0) = 2"
  shows "run_all server_step [Rx (0x600 + rx_node s, m), Run dt cf] s = Inl Null_Deref"
proof -
  let ?s = "s\<lparr>rx_data := m, rx_new := True\<rparr>"
  let ?u = "?s\<lparr>timeout_cter_ms := 0\<rparr>"
  have g: "CO_SDOserver_get_sub_object_pointer ?u = Inr (?u\<lparr>sdo_index := idx, sdo_sub_index := sub, object_no := no\<rparr>, Some (no, sub))"
    by (rule get_sub_object) (use assms(6) mux_msg_reads [OF assms(11)] in \<open>simp_all add: names_obj_def\<close>)
  show ?thesis
    using assms(1-5,7-10,12) g
    by (simp add: CO_SDOserver_process_def CO_SDOserver_step_def Let_def CO_SDOtimeout_is_activated_def
        CO_SDOtimeout_reset_and_inactivate_def rx_cs_def server_receive_def CO_SDOserver_process_first_msg_and_set_state_def
        server_handle_def CO_SDOserver_upload_initiate_response_handle_def on_obj_def CO_SDOserver_process_init_transfer_msg_def
        to_msg_def CO_memcpy_def mem_read_def and_srv_def)
qed

text \<open>The object of the unit's dictionary, at its index.\<close>

definition example_nameless :: "sdo_server" where
  "example_nameless = example_server\<lparr>srv_od := \<lparr>od_number = 1, od_list = [\<lparr>obj_index = 0x5000, sub_number = 1, obj_subs =
     [\<lparr>p_data = None, so_attr = ODA_SDO_RW, so_len = 1, p_ext = None, p_temp_data = None\<rparr>]\<rparr>]\<rparr>\<rparr>"

theorem read_of_object_without_data_faults_witness:
  "run_all server_step [Rx (0x605, [0x40, 0x00, 0x50, 0, 0, 0, 0, 0]), Run 1 (CO_EXT_CONFIRM_success, 0)] example_nameless = Inl Null_Deref"
proof -
  have nm: "names_obj example_nameless 0x5000 0 0" by (simp add: names_obj_def od_ok_def example_nameless_def)
  have m: "mux_msg 0x5000 0 [0x40, 0x00, 0x50, 0, 0, 0, 0, 0]" by (simp add: mux_msg_def)
  have node: "0x605 = 0x600 + rx_node example_nameless" by (simp add: example_nameless_def example_server_def)
  show ?thesis
    unfolding node
    by (rule read_of_object_without_data_faults [OF _ _ _ _ _ nm _ _ _ _ m])
      (simp_all add: example_nameless_def example_server_def sub_at_def spec_of_def)
qed

end
