(* ===== verification/Tpdo.thy ===== *)
theory Tpdo
  imports Object_Dict
begin

text \<open>
  \<^verbatim>\<open>libs/canopen/CO_PDO.c\<close> and \<^verbatim>\<open>CO_TPDO.c\<close>: process data messages, whose eight bytes are read through pointers into
  the objects of the dictionary, and the conditions under which they are sent.
\<close>

section \<open>Mapping\<close>

text \<open>Where one of the eight pointers goes: a byte of the data of a sub-object, a zero, the text of a failed mapping.\<close>

datatype pdo_byte = Map_None | Map_Obj "nat \<times> nat" nat | Map_Zero | Map_Fail nat

record pdo_map =
  map_index :: nat
  map_sub :: nat
  map_len :: nat

record CO_TPDO =
  tpdo_valid :: bool
  tpdo_func :: nat
  tpdo_node :: nat
  tpdo_data :: "u8 list"
  p_mapping_data :: "pdo_byte list"
  mapping_parameter :: "pdo_map list"
  transmission_type :: nat
  tpdo_sync_mask :: u32
  build_manually :: bool
  send_request :: bool

definition mapping_fail_data :: "u8 list" where
  "mapping_fail_data = [0x6D, 0x61, 0x70, 0x5F, 0x66, 0x61, 0x69, 0x6C]"

definition CO_PDO_mapping_fail_handle :: "CO_TPDO \<Rightarrow> CO_TPDO" where
  "CO_PDO_mapping_fail_handle p = p\<lparr>p_mapping_data := map Map_Fail [0..<8]\<rparr>"

text \<open>\<^verbatim>\<open>CO_detect_error\<close> stops in an endless loop.\<close>

definition CO_PDO_set_mapping_parameter :: "pdo_map list \<Rightarrow> CO_TPDO \<Rightarrow> fault + CO_TPDO" where
  "CO_PDO_set_mapping_parameter ms p = (if 8 \<le> length ms then Inl Halted else Inr (p\<lparr>mapping_parameter := ms\<rparr>))"

text \<open>
  The bytes of one mapped object, from byte \<open>i\<close> of \<open>n\<close> on, to the pointers from \<open>k\<close> on. \<open>Inr None\<close> is the failure of a
  mapping with more than eight bytes; it is noticed after the write.
\<close>

function map_bytes :: "nat \<times> nat \<Rightarrow> nat \<Rightarrow> nat \<Rightarrow> nat \<Rightarrow> nat \<Rightarrow> CO_TPDO \<Rightarrow> fault + (nat \<times> CO_TPDO) option" where
  "map_bytes so len i n k p =
     (if n \<le> i then Inr (Some (k, p))
      else if 8 \<le> k then Inl Out_Of_Bounds
      else map_bytes so len (i + 1) n (k + 1)
             (p\<lparr>p_mapping_data := (p_mapping_data p)[k := (if i < len then Map_Obj so i else Map_Zero)]\<rparr>))"
  by pat_completeness auto

termination by (relation "measure (\<lambda>(so, len, i, n, k, p). n - i)") auto

declare map_bytes.simps [simp del]

fun map_objects :: "CO_OD \<Rightarrow> pdo_map list \<Rightarrow> nat \<Rightarrow> CO_TPDO \<Rightarrow> fault + CO_TPDO" where
  "map_objects od [] k p = Inr p"
| "map_objects od (m # ms) k p =
     (case CO_OD_get_no od (map_index m) of Inl f \<Rightarrow> Inl f
      | Inr no \<Rightarrow>
          if no = OD_UNSUPPORT_ENTRY then Inr (CO_PDO_mapping_fail_handle p)
          else (case CO_OD_get_sub_object_pointer od no (map_sub m) of
              None \<Rightarrow> Inr (CO_PDO_mapping_fail_handle p)
            | Some (i, j) \<Rightarrow>
                (case map_bytes (i, j) (so_len (obj_subs (od_list od ! i) ! j)) 0 (map_len m) k p of Inl f \<Rightarrow> Inl f
                 | Inr None \<Rightarrow> Inr (CO_PDO_mapping_fail_handle p)
                 | Inr (Some (k, p)) \<Rightarrow> map_objects od ms k (p\<lparr>tpdo_valid := True\<rparr>))))"

definition CO_PDO_mapping :: "CO_OD \<Rightarrow> CO_TPDO \<Rightarrow> fault + CO_TPDO" where
  "CO_PDO_mapping od p = map_objects od (mapping_parameter p) 0 (p\<lparr>tpdo_valid := False\<rparr>)"

definition CO_PDO_init :: "pdo_map list \<Rightarrow> CO_OD \<Rightarrow> CO_TPDO \<Rightarrow> fault + CO_TPDO" where
  "CO_PDO_init ms od p =
     (case CO_PDO_set_mapping_parameter ms p of Inl f \<Rightarrow> Inl f | Inr p \<Rightarrow> CO_PDO_mapping od p)"

text \<open>
  The identifier of the communication parameters replaces the one the mapping has enabled or disabled. \<open>manual\<close> says
  whether the data are built by a function of the application, \<open>given\<close> whether there is one.
\<close>

definition CO_TPDO_init :: "pdo_map list \<Rightarrow> CO_OD \<Rightarrow> bool \<times> nat \<times> nat \<Rightarrow> nat \<Rightarrow> u32 \<Rightarrow> bool \<Rightarrow> bool \<Rightarrow> CO_TPDO \<Rightarrow> fault + CO_TPDO" where
  "CO_TPDO_init ms od cob tt msk manual given p =
     (case CO_PDO_init ms od p of Inl f \<Rightarrow> Inl f
      | Inr p \<Rightarrow> (case cob of (valid, func, node) \<Rightarrow>
          if manual \<and> \<not> given then Inl Halted
          else Inr (p\<lparr>transmission_type := tt, tpdo_sync_mask := msk, build_manually := manual, tpdo_valid := valid, tpdo_func := func,
                 tpdo_node := node, send_request := False\<rparr>)))"

section \<open>Sending\<close>

text \<open>A byte of the message, read through its pointer.\<close>

definition pdo_read :: "CO_OD \<Rightarrow> pdo_byte \<Rightarrow> fault + u8" where
  "pdo_read od b = (case b of Map_None \<Rightarrow> Inl Null_Deref | Map_Zero \<Rightarrow> Inr 0 | Map_Fail i \<Rightarrow> Inr (mapping_fail_data ! i)
     | Map_Obj so i \<Rightarrow> (case so of (no, sub) \<Rightarrow>
         case p_data (obj_subs (od_list od ! no) ! sub) of None \<Rightarrow> Inl Null_Deref
         | Some xs \<Rightarrow> if length xs \<le> i then Inl Out_Of_Bounds else Inr (xs ! i)))"

fun pdo_read_all :: "CO_OD \<Rightarrow> pdo_byte list \<Rightarrow> fault + u8 list" where
  "pdo_read_all od [] = Inr []"
| "pdo_read_all od (b # bs) =
     (case pdo_read od b of Inl f \<Rightarrow> Inl f
      | Inr x \<Rightarrow> (case pdo_read_all od bs of Inl f \<Rightarrow> Inl f | Inr xs \<Rightarrow> Inr (x # xs)))"

text \<open>\<open>build\<close> is the function of the application that fills the buffer of a message.\<close>

definition CO_TPDO_send :: "(u8 list \<Rightarrow> u8 list) \<Rightarrow> CO_OD \<Rightarrow> CO_TPDO \<Rightarrow> fault + (CO_TPDO \<times> can_frame list)" where
  "CO_TPDO_send build od p =
     (case (if build_manually p then Inr (build (tpdo_data p)) else pdo_read_all od (p_mapping_data p)) of Inl f \<Rightarrow> Inl f
      | Inr xs \<Rightarrow> Inr (p\<lparr>tpdo_data := xs, send_request := False\<rparr>, [(tpdo_func p + tpdo_node p, xs)]))"

abbreviation (input) "CO_TPDO_TRANSM_TYPE_SYNC_ACYCLIC \<equiv> 0 :: nat"
abbreviation (input) "CO_TPDO_TRANSM_TYPE_EVENT_LO \<equiv> 0xFFFF :: nat"

definition CO_TPDO_process :: "(u8 list \<Rightarrow> u8 list) \<Rightarrow> CO_OD \<Rightarrow> CO_SYNC \<Rightarrow> bool \<Rightarrow> CO_TPDO \<Rightarrow> fault + (CO_TPDO \<times> can_frame list)" where
  "CO_TPDO_process build od y sync_was p =
     (if \<not> tpdo_valid p then Inr (p, [])
      else if transmission_type p = CO_TPDO_TRANSM_TYPE_EVENT_LO then
        (if send_request p then CO_TPDO_send build od p else Inr (p, []))
      else if sync_was then
        (if sync_counter y = transmission_type p \<and> CO_SYNC_is_match_sync_mask_reg y (tpdo_sync_mask p) then CO_TPDO_send build od p
         else if transmission_type p = CO_TPDO_TRANSM_TYPE_SYNC_ACYCLIC \<and> send_request p then CO_TPDO_send build od p
         else Inr (p, []))
      else Inr (p, []))"

definition CO_TPDO_set_node_id :: "nat \<Rightarrow> CO_TPDO \<Rightarrow> CO_TPDO" where
  "CO_TPDO_set_node_id node p = p\<lparr>tpdo_node := node mod 128\<rparr>"

definition CO_TPDO_set_transmission_type :: "nat \<Rightarrow> CO_TPDO \<Rightarrow> CO_TPDO" where
  "CO_TPDO_set_transmission_type t p = p\<lparr>transmission_type := t\<rparr>"

definition CO_TPDO_set_sync_mask_reg :: "u32 \<Rightarrow> CO_TPDO \<Rightarrow> CO_TPDO" where
  "CO_TPDO_set_sync_mask_reg m p = p\<lparr>tpdo_sync_mask := m\<rparr>"

definition CO_TPDO_send_request :: "CO_TPDO \<Rightarrow> CO_TPDO" where
  "CO_TPDO_send_request p = p\<lparr>send_request := True\<rparr>"

definition tpdo_build_data_impl_default :: "u8 list \<Rightarrow> u8 list" where
  "tpdo_build_data_impl_default buf = replicate 8 0 @ drop 8 buf"

end
