(* ===== verification/Co_Node.thy ===== *)
theory Co_Node
  imports Sdo_Client Sdo_Server Tpdo
begin

text \<open>
  \<^verbatim>\<open>libs/canopen/CO.c\<close> and \<^verbatim>\<open>CO.h\<close>: the node, which runs its SYNC object, its SDO server and client and its process data
  messages, and shares out the frames it receives.
\<close>

record CO =
  co_sync :: CO_SYNC
  co_server :: sdo_server
  co_client :: sdo_client
  co_tpdos :: "CO_TPDO list"

text \<open>\<open>build i\<close> fills the data of message \<open>i\<close>, \<open>cf\<close> is what the confirmation function of an extension answers.\<close>

type_synonym builders = "nat \<Rightarrow> u8 list \<Rightarrow> u8 list"

fun process_tpdos :: "builders \<Rightarrow> CO_OD \<Rightarrow> CO_SYNC \<Rightarrow> nat \<Rightarrow> CO_TPDO list \<Rightarrow> fault + (CO_TPDO list \<times> can_frame list)" where
  "process_tpdos build od y i [] = Inr ([], [])"
| "process_tpdos build od y i (p # ps) =
     (case CO_TPDO_process (build i) od y True p of Inl f \<Rightarrow> Inl f
      | Inr (p, out) \<Rightarrow> (case process_tpdos build od y (i + 1) ps of Inl f \<Rightarrow> Inl f
          | Inr (ps, out') \<Rightarrow> Inr (p # ps, out @ out')))"

definition CO_process_tpdo :: "builders \<Rightarrow> CO \<Rightarrow> (CO, can_frame) result" where
  "CO_process_tpdo build n =
     (case process_tpdos build (srv_od (co_server n)) (co_sync n) 0 (co_tpdos n) of Inl f \<Rightarrow> Inl f
      | Inr (ps, out) \<Rightarrow> Inr (n\<lparr>co_tpdos := ps\<rparr>, out))"

definition co_sync_step :: "nat \<Rightarrow> CO \<Rightarrow> (CO, can_frame) result" where
  "co_sync_step dt n = (case CO_SYNC_process dt (co_sync n) of (y, out) \<Rightarrow> Inr (n\<lparr>co_sync := y\<rparr>, out))"

definition co_server_step :: "nat \<Rightarrow> confirm \<Rightarrow> CO \<Rightarrow> (CO, can_frame) result" where
  "co_server_step dt cf n = (case CO_SDOserver_process dt cf (co_server n) of Inl f \<Rightarrow> Inl f
     | Inr (s, out) \<Rightarrow> Inr (n\<lparr>co_server := s\<rparr>, out))"

definition co_client_step :: "nat \<Rightarrow> CO \<Rightarrow> (CO, can_frame) result" where
  "co_client_step dt n = (case CO_SDOclient_process (co_sync n) dt (co_client n) of Inl f \<Rightarrow> Inl f
     | Inr (c, out) \<Rightarrow> Inr (n\<lparr>co_client := c\<rparr>, out))"

text \<open>With a valid SYNC object the data messages have the first call of a cycle and the SDO objects the later ones.\<close>

definition CO_process :: "builders \<Rightarrow> nat \<Rightarrow> confirm \<Rightarrow> CO \<Rightarrow> (CO, can_frame) result" where
  "CO_process build dt cf n =
     (if sync_id_valid (co_sync n) then
        and_then (co_sync_step dt n) (\<lambda>n.
          if 2 \<le> index_in_cycle (co_sync n) then and_then (co_server_step dt cf n) (co_client_step dt)
          else if index_in_cycle (co_sync n) = 1 then CO_process_tpdo build n
          else Inr (n, []))
      else and_then (co_sync_step dt n) (\<lambda>n.
             and_then (co_server_step dt cf n) (\<lambda>n. and_then (co_client_step dt n) (CO_process_tpdo build))))"

text \<open>A received frame goes to the first object whose identifier it has; the client takes it only during a transfer.\<close>

definition CO_can_receive_basic_handle :: "can_frame \<Rightarrow> CO \<Rightarrow> CO \<times> bool" where
  "CO_can_receive_basic_handle = (\<lambda>(id, d) n.
     if id = sync_can_id (co_sync n) then
       (if sync_gen (co_sync n) then n
        else n\<lparr>co_sync := (co_sync n)\<lparr>sync_msg := take 3 d @ drop 3 (sync_msg (co_sync n)), sync_new := True\<rparr>\<rparr>, True)
     else if id = CO_CAN_ID_SDO_SRV + rx_node (co_client n) \<and> sdo_state (co_client n) \<noteq> CO_SDO_ST_IDLE
     then (n\<lparr>co_client := client_receive (id, d) (co_client n)\<rparr>, True)
     else if id = CO_CAN_ID_SDO_CLI + rx_node (co_server n)
     then (n\<lparr>co_server := server_receive (id, d) (co_server n)\<rparr>, True)
     else (n, False))"

definition CO_set_node_id :: "nat \<Rightarrow> CO \<Rightarrow> CO" where
  "CO_set_node_id node n =
     n\<lparr>co_server := CO_SDOserver_set_node_id node (co_server n), co_tpdos := map (CO_TPDO_set_node_id node) (co_tpdos n)\<rparr>"

text \<open>\<^verbatim>\<open>CO_disable_sync_mode\<close> restores the valid bit of each data message it has cleared.\<close>

definition CO_disable_sync_mode :: "CO \<Rightarrow> CO" where
  "CO_disable_sync_mode n =
     n\<lparr>co_sync := (co_sync n)\<lparr>sync_id_valid := False\<rparr>,
       co_client := (co_client n)\<lparr>trans_type := 0, sdo_valid := True\<rparr>,
       co_server := (co_server n)\<lparr>trans_type := 0, sdo_valid := True\<rparr>\<rparr>"

text \<open>The initial values of the profile: SYNC, client and server, and type and valid bit of each message.\<close>

record co_profile =
  prof_sync_valid :: bool
  prof_client_tt :: nat
  prof_server_tt :: nat
  prof_tpdos :: "(nat \<times> bool) list"

definition CO_recover_sync_mode :: "co_profile \<Rightarrow> CO \<Rightarrow> CO" where
  "CO_recover_sync_mode pr n =
     n\<lparr>co_sync := (co_sync n)\<lparr>sync_id_valid := prof_sync_valid pr\<rparr>,
       co_client := (co_client n)\<lparr>trans_type := prof_client_tt pr, sdo_valid := True\<rparr>,
       co_server := (co_server n)\<lparr>trans_type := prof_server_tt pr, sdo_valid := True\<rparr>,
       co_tpdos := map (\<lambda>((t, v), p). p\<lparr>transmission_type := t, tpdo_valid := v\<rparr>) (zip (prof_tpdos pr) (co_tpdos n))\<rparr>"

end
