(* ===== verification/Fifo.thy ===== *)
theory Fifo
  imports Ring
begin

text \<open>
  \<^verbatim>\<open>utils/containers/sm_fifo.c\<close>: the queue of fixed-size items over a ring of one slot more than its
  capacity, as it is built without an operating system. An item is one value here: the code copies
  \<^verbatim>\<open>size\<close> bytes for it. The slot of an index is computed from its low byte.
\<close>

datatype 'a fifo_mem = Mem_Null | Mem_Freed | Mem (mem_items: "'a list")

record 'a sm_fifo =
  fifo_buff :: "'a fifo_mem"
  fifo_length :: nat
  fifo_size :: nat
  fifo_head :: nat
  fifo_tail :: nat
  fifo_count :: nat

text \<open>
  \<^verbatim>\<open>calloc\<close> may fail (\<open>ok\<close> is false); the ring is zeroed otherwise, \<open>z\<close> being an item of zero bytes.
\<close>

definition sm_fifo_init :: "bool \<Rightarrow> 'a \<Rightarrow> nat \<Rightarrow> nat \<Rightarrow> 'a sm_fifo" where
  "sm_fifo_init ok z n sz =
     \<lparr>fifo_buff = (if ok then Mem (replicate (n + 1) z) else Mem_Null), fifo_length = n + 1, fifo_size = sz,
      fifo_head = 0, fifo_tail = 0, fifo_count = 0\<rparr>"

definition sm_fifo_deinit :: "'a sm_fifo \<Rightarrow> 'a sm_fifo" where
  "sm_fifo_deinit f =
     f\<lparr>fifo_count := 0, fifo_head := 0, fifo_tail := 0, fifo_length := 0,
       fifo_buff := (if fifo_buff f = Mem_Null then Mem_Null else Mem_Freed)\<rparr>"

definition fifo_write :: "nat \<Rightarrow> 'a \<Rightarrow> 'a sm_fifo \<Rightarrow> fault + 'a sm_fifo" where
  "fifo_write i x f =
     (case fifo_buff f of Mem_Null \<Rightarrow> Inl Null_Deref | Mem_Freed \<Rightarrow> Inl Dangling
      | Mem b \<Rightarrow> if length b \<le> i mod 256 then Inl Out_Of_Bounds
                  else Inr (f\<lparr>fifo_buff := Mem (b[i mod 256 := x])\<rparr>))"

definition fifo_read :: "nat \<Rightarrow> 'a sm_fifo \<Rightarrow> fault + 'a" where
  "fifo_read i f =
     (case fifo_buff f of Mem_Null \<Rightarrow> Inl Null_Deref | Mem_Freed \<Rightarrow> Inl Dangling
      | Mem b \<Rightarrow> if length b \<le> i mod 256 then Inl Out_Of_Bounds else Inr (b ! (i mod 256)))"

definition sm_fifo_push :: "'a \<Rightarrow> 'a sm_fifo \<Rightarrow> fault + (bool \<times> 'a sm_fifo)" where
  "sm_fifo_push x f =
     (if fifo_length f = 0 then Inl Division_By_Zero
      else let nxt = (fifo_head f + 1) mod fifo_length f in
        if nxt = fifo_tail f then Inr (False, f)
        else (case fifo_write (fifo_head f) x f of Inl e \<Rightarrow> Inl e
              | Inr f \<Rightarrow> Inr (True, f\<lparr>fifo_head := nxt, fifo_count := fifo_count f + 1\<rparr>)))"

definition fifo_take :: "'a sm_fifo \<Rightarrow> fault + ('a option \<times> 'a sm_fifo)" where
  "fifo_take f =
     (if fifo_head f = fifo_tail f then Inr (None, f)
      else (case fifo_read (fifo_tail f) f of Inl e \<Rightarrow> Inl e
            | Inr x \<Rightarrow>
                if fifo_length f = 0 then Inl Division_By_Zero
                else Inr (Some x, f\<lparr>fifo_tail := (fifo_tail f + 1) mod fifo_length f, fifo_count := fifo_count f - 1\<rparr>)))"

text \<open>The variants for interrupts are the same text, but \<^verbatim>\<open>sm_fifo_pop\<close> also copies five bytes of the ring.\<close>

definition sm_fifo_push_irq :: "'a \<Rightarrow> 'a sm_fifo \<Rightarrow> fault + (bool \<times> 'a sm_fifo)" where
  "sm_fifo_push_irq = sm_fifo_push"

definition sm_fifo_pop_irq :: "'a sm_fifo \<Rightarrow> fault + ('a option \<times> 'a sm_fifo)" where
  "sm_fifo_pop_irq = fifo_take"

definition sm_fifo_pop :: "'a sm_fifo \<Rightarrow> fault + ('a option \<times> 'a sm_fifo)" where
  "sm_fifo_pop f =
     (case fifo_buff f of Mem_Null \<Rightarrow> Inl Null_Deref | Mem_Freed \<Rightarrow> Inl Dangling
      | Mem b \<Rightarrow> if length b * fifo_size f < 5 then Inl Out_Of_Bounds else fifo_take f)"

definition sm_fifo_get_num_item :: "'a sm_fifo \<Rightarrow> nat" where
  "sm_fifo_get_num_item f = fifo_count f"

section \<open>The content\<close>

definition fifo_items :: "'a sm_fifo \<Rightarrow> 'a list" where
  "fifo_items f = ring_items (fifo_length f) (\<lambda>i. mem_items (fifo_buff f) ! i) (fifo_tail f) (fifo_head f)"

text \<open>A ring whose indices fit in a byte and that is long enough for the copy of the five bytes.\<close>

definition fifo_ok :: "'a sm_fifo \<Rightarrow> bool" where
  "fifo_ok f \<longleftrightarrow> (case fifo_buff f of Mem b \<Rightarrow> length b = fifo_length f | _ \<Rightarrow> False)
     \<and> 0 < fifo_length f \<and> fifo_length f \<le> 256 \<and> 5 \<le> fifo_length f * fifo_size f
     \<and> fifo_head f < fifo_length f \<and> fifo_tail f < fifo_length f
     \<and> fifo_count f = ring_len (fifo_length f) (fifo_tail f) (fifo_head f)"

lemma fifo_okE:
  assumes "fifo_ok f"
  obtains b where "fifo_buff f = Mem b" "length b = fifo_length f" "0 < fifo_length f" "fifo_length f \<le> 256"
    "5 \<le> fifo_length f * fifo_size f" "fifo_head f < fifo_length f" "fifo_tail f < fifo_length f"
    "fifo_count f = ring_len (fifo_length f) (fifo_tail f) (fifo_head f)"
  using assms by (auto simp: fifo_ok_def split: fifo_mem.splits)

lemma fifo_count_items: "fifo_ok f \<Longrightarrow> sm_fifo_get_num_item f = length (fifo_items f)"
  by (simp add: fifo_ok_def fifo_items_def sm_fifo_get_num_item_def)

lemma fifo_init_ok:
  assumes "n < 256" "5 \<le> (n + 1) * sz"
  shows "fifo_ok (sm_fifo_init True z n sz)" "fifo_items (sm_fifo_init True z n sz) = []"
  using assms by (simp_all add: fifo_ok_def sm_fifo_init_def fifo_items_def ring_items_def ring_len_def)

lemma fifo_full_iff:
  assumes "tail < cap" "head < cap"
  shows "(head + 1) mod cap = tail \<longleftrightarrow> ring_len cap tail head = cap - 1"
  using assms by (auto simp: ring_Suc ring_len_cases split: if_splits)

lemma push_spec:
  assumes "fifo_ok f"
  shows "if length (fifo_items f) < fifo_length f - 1
         then \<exists>f'. sm_fifo_push x f = Inr (True, f') \<and> fifo_ok f' \<and> fifo_items f' = fifo_items f @ [x]
                  \<and> fifo_length f' = fifo_length f
         else sm_fifo_push x f = Inr (False, f)"
proof -
  obtain b where b: "fifo_buff f = Mem b" "length b = fifo_length f" "0 < fifo_length f" "fifo_length f \<le> 256"
    "5 \<le> fifo_length f * fifo_size f" "fifo_head f < fifo_length f" "fifo_tail f < fifo_length f"
    "fifo_count f = ring_len (fifo_length f) (fifo_tail f) (fifo_head f)"
    using assms by (rule fifo_okE)
  let ?n = "ring_len (fifo_length f) (fifo_tail f) (fifo_head f)"
  have n: "length (fifo_items f) = ?n" by (simp add: fifo_items_def)
  have full: "(fifo_head f + 1) mod fifo_length f = fifo_tail f \<longleftrightarrow> ?n = fifo_length f - 1"
    by (rule fifo_full_iff [OF b(7,6)])
  have w: "fifo_write (fifo_head f) x f = Inr (f\<lparr>fifo_buff := Mem (b[fifo_head f := x])\<rparr>)"
    using b by (simp add: fifo_write_def)
  show ?thesis
  proof (cases "?n < fifo_length f - 1")
    case True
    let ?f = "f\<lparr>fifo_buff := Mem (b[fifo_head f := x]), fifo_head := (fifo_head f + 1) mod fifo_length f,
      fifo_count := fifo_count f + 1\<rparr>"
    have p: "sm_fifo_push x f = Inr (True, ?f)" using True full b(3) w by (simp add: sm_fifo_push_def)
    have upd: "(\<lambda>i. b[fifo_head f := x] ! i) = (\<lambda>i. b ! i)(fifo_head f := x)"
      using b(2,6) by (auto simp: nth_list_update)
    have "fifo_items ?f = fifo_items f @ [x]"
      using ring_push [OF b(7,6) True, of "\<lambda>i. b ! i" x] b(1) upd by (simp add: fifo_items_def del: fun_upd_apply)
    moreover have "fifo_ok ?f"
      using b ring_len_push [OF b(7,6) True] by (simp add: fifo_ok_def)
    ultimately show ?thesis using p True n by auto
  next
    case False
    then have "?n = fifo_length f - 1" using ring_len_lt [OF b(3), of "fifo_tail f" "fifo_head f"] by simp
    then have "sm_fifo_push x f = Inr (False, f)" using full b(3) by (simp add: sm_fifo_push_def)
    then show ?thesis using False n by simp
  qed
qed

lemma take_spec:
  assumes "fifo_ok f"
  shows "case fifo_items f of [] \<Rightarrow> fifo_take f = Inr (None, f)
         | x # xs \<Rightarrow> \<exists>f'. fifo_take f = Inr (Some x, f') \<and> fifo_ok f' \<and> fifo_items f' = xs \<and> fifo_length f' = fifo_length f"
proof -
  obtain b where b: "fifo_buff f = Mem b" "length b = fifo_length f" "0 < fifo_length f" "fifo_length f \<le> 256"
    "5 \<le> fifo_length f * fifo_size f" "fifo_head f < fifo_length f" "fifo_tail f < fifo_length f"
    "fifo_count f = ring_len (fifo_length f) (fifo_tail f) (fifo_head f)"
    using assms by (rule fifo_okE)
  have e: "fifo_items f = [] \<longleftrightarrow> fifo_head f = fifo_tail f"
    unfolding fifo_items_def by (rule ring_empty_iff [OF b(7,6)])
  show ?thesis
  proof (cases "fifo_head f = fifo_tail f")
    case True
    then show ?thesis using e by (simp add: fifo_take_def)
  next
    case False
    let ?f = "f\<lparr>fifo_tail := (fifo_tail f + 1) mod fifo_length f, fifo_count := fifo_count f - 1\<rparr>"
    have r: "fifo_read (fifo_tail f) f = Inr (b ! fifo_tail f)" using b by (simp add: fifo_read_def)
    have i: "fifo_items f = b ! fifo_tail f # fifo_items ?f"
      using ring_pop [OF b(7,6) False, of "\<lambda>i. b ! i"] b(1) by (simp add: fifo_items_def)
    have "ring_len (fifo_length f) (fifo_tail f) (fifo_head f) = Suc (ring_len (fifo_length f) ((fifo_tail f + 1) mod fifo_length f) (fifo_head f))"
      using arg_cong [OF i, of length] by (simp add: fifo_items_def)
    then have "fifo_ok ?f" using b by (simp add: fifo_ok_def)
    then show ?thesis using i r False b(3) by (simp add: fifo_take_def)
  qed
qed

lemma pop_spec: "fifo_ok f \<Longrightarrow> sm_fifo_pop f = fifo_take f"
  by (auto simp: sm_fifo_pop_def elim!: fifo_okE)

text \<open>The contract of a bounded queue, which the other rings of the program also meet.\<close>

definition fifo_put :: "'a \<Rightarrow> 'a sm_fifo \<Rightarrow> 'a sm_fifo" where
  "fifo_put x f = (case sm_fifo_push x f of Inl _ \<Rightarrow> f | Inr (_, f') \<Rightarrow> f')"

definition fifo_get :: "'a sm_fifo \<Rightarrow> ('a \<times> 'a sm_fifo) option" where
  "fifo_get f = (case sm_fifo_pop f of Inr (Some x, f') \<Rightarrow> Some (x, f') | _ \<Rightarrow> None)"

lemma put_spec:
  assumes "fifo_ok f" "length (fifo_items f) < fifo_length f - 1"
  shows "fifo_ok (fifo_put x f) \<and> fifo_items (fifo_put x f) = fifo_items f @ [x]"
  using push_spec [OF assms(1), of x] assms(2) by (auto simp: fifo_put_def)

lemma put_length: "fifo_ok f \<Longrightarrow> fifo_length (fifo_put x f) = fifo_length f"
  using push_spec [of f x] by (auto simp: fifo_put_def split: if_splits)

lemma get_spec:
  assumes "fifo_ok f"
  shows "case fifo_items f of [] \<Rightarrow> fifo_get f = None
         | x # xs \<Rightarrow> \<exists>f'. fifo_get f = Some (x, f') \<and> fifo_ok f' \<and> fifo_items f' = xs \<and> fifo_length f' = fifo_length f"
  using take_spec [OF assms] by (cases "fifo_items f") (auto simp: fifo_get_def pop_spec [OF assms])

interpretation fifo_q: bounded_queue fifo_put fifo_get fifo_items "\<lambda>f. fifo_length f - 1" fifo_ok
proof (unfold_locales, goal_cases)
  case (4 q)
  then show ?case using get_spec [OF 4] by (cases "fifo_items q") auto
next
  case (5 q x q')
  then show ?case using get_spec [OF 5(1)] by (cases "fifo_items q") auto
qed (auto simp: put_spec put_length)

section \<open>Refinement of a bounded list\<close>

datatype 'a fifo_op = Fifo_Push 'a | Fifo_Pop | Fifo_Push_Irq 'a | Fifo_Pop_Irq | Fifo_Num

datatype 'a fifo_ret = Pushed bool | Popped "'a option" | Num nat

fun fifo_exec :: "'a fifo_op \<Rightarrow> 'a sm_fifo \<Rightarrow> fault + ('a fifo_ret \<times> 'a sm_fifo)" where
  "fifo_exec (Fifo_Push x) f = map_sum id (map_prod Pushed id) (sm_fifo_push x f)"
| "fifo_exec (Fifo_Push_Irq x) f = map_sum id (map_prod Pushed id) (sm_fifo_push_irq x f)"
| "fifo_exec Fifo_Pop f = map_sum id (map_prod Popped id) (sm_fifo_pop f)"
| "fifo_exec Fifo_Pop_Irq f = map_sum id (map_prod Popped id) (sm_fifo_pop_irq f)"
| "fifo_exec Fifo_Num f = Inr (Num (sm_fifo_get_num_item f), f)"

fun fifo_run :: "'a fifo_op list \<Rightarrow> 'a sm_fifo \<Rightarrow> fault + ('a fifo_ret list \<times> 'a sm_fifo)" where
  "fifo_run [] f = Inr ([], f)"
| "fifo_run (op # ops) f =
     (case fifo_exec op f of Inl e \<Rightarrow> Inl e
      | Inr (r, f) \<Rightarrow> (case fifo_run ops f of Inl e \<Rightarrow> Inl e | Inr (rs, f) \<Rightarrow> Inr (r # rs, f)))"

fun list_push :: "nat \<Rightarrow> 'a \<Rightarrow> 'a list \<Rightarrow> 'a fifo_ret \<times> 'a list" where
  "list_push n x xs = (if length xs < n then (Pushed True, xs @ [x]) else (Pushed False, xs))"

fun list_pop :: "'a list \<Rightarrow> 'a fifo_ret \<times> 'a list" where
  "list_pop [] = (Popped None, [])"
| "list_pop (x # xs) = (Popped (Some x), xs)"

fun list_op :: "nat \<Rightarrow> 'a fifo_op \<Rightarrow> 'a list \<Rightarrow> 'a fifo_ret \<times> 'a list" where
  "list_op n (Fifo_Push x) xs = list_push n x xs"
| "list_op n (Fifo_Push_Irq x) xs = list_push n x xs"
| "list_op n Fifo_Pop xs = list_pop xs"
| "list_op n Fifo_Pop_Irq xs = list_pop xs"
| "list_op n Fifo_Num xs = (Num (length xs), xs)"

fun list_run :: "nat \<Rightarrow> 'a fifo_op list \<Rightarrow> 'a list \<Rightarrow> 'a fifo_ret list \<times> 'a list" where
  "list_run n [] xs = ([], xs)"
| "list_run n (op # ops) xs = (case list_op n op xs of (r, xs) \<Rightarrow> map_prod ((#) r) id (list_run n ops xs))"

lemma op_refines:
  assumes "fifo_ok f"
  shows "\<exists>f'. fifo_exec op f = Inr (fst (list_op (fifo_length f - 1) op (fifo_items f)), f') \<and> fifo_ok f'
    \<and> fifo_items f' = snd (list_op (fifo_length f - 1) op (fifo_items f)) \<and> fifo_length f' = fifo_length f"
proof -
  have push: "\<exists>f'. sm_fifo_push x f = Inr (length (fifo_items f) < fifo_length f - 1, f') \<and> fifo_ok f'
    \<and> fifo_items f' = snd (list_push (fifo_length f - 1) x (fifo_items f)) \<and> fifo_length f' = fifo_length f" for x
    using push_spec [OF assms, of x] assms by (auto split: if_splits)
  have pop: "\<exists>f'. map_sum id (map_prod Popped id) (fifo_take f) = Inr (fst (list_pop (fifo_items f)), f') \<and> fifo_ok f'
    \<and> fifo_items f' = snd (list_pop (fifo_items f)) \<and> fifo_length f' = fifo_length f"
    using take_spec [OF assms] assms by (cases "fifo_items f") auto
  show ?thesis
  proof (cases op)
    case (Fifo_Push x)
    then show ?thesis using push [of x] by (auto split: if_splits)
  next
    case (Fifo_Push_Irq x)
    then show ?thesis using push [of x] by (auto simp: sm_fifo_push_irq_def split: if_splits)
  qed (use pop assms fifo_count_items [OF assms] in \<open>auto simp: pop_spec sm_fifo_pop_irq_def\<close>)
qed

text \<open>C33. A ring of at most 256 slots behaves like a list bounded by its number of slots
  less one, whatever is called: no fault, pushes appended until it is full and refused then, pops from the
  front, and the count is the length.\<close>

theorem fifo_refines_list:
  assumes "fifo_ok f"
  shows "\<exists>f'. fifo_run ops f = Inr (fst (list_run (fifo_length f - 1) ops (fifo_items f)), f') \<and> fifo_ok f'
    \<and> fifo_items f' = snd (list_run (fifo_length f - 1) ops (fifo_items f))"
  using assms
proof (induction ops arbitrary: f)
  case (Cons op ops)
  obtain f1 where f1: "fifo_exec op f = Inr (fst (list_op (fifo_length f - 1) op (fifo_items f)), f1)" "fifo_ok f1"
    "fifo_items f1 = snd (list_op (fifo_length f - 1) op (fifo_items f))" "fifo_length f1 = fifo_length f"
    using op_refines [OF Cons.prems] by blast
  from Cons.IH [OF f1(2)] show ?case using f1 by (auto split: prod.split)
qed simp

lemma fifo_refines_list_witness:
  "\<exists>f'. fifo_run [Fifo_Push ''a'', Fifo_Push ''b'', Fifo_Push ''c'', Fifo_Pop, Fifo_Num] (sm_fifo_init True [] 2 4)
     = Inr ([Pushed True, Pushed True, Pushed False, Popped (Some ''a''), Num 1], f')"
proof -
  let ?f = "sm_fifo_init True [] 2 4 :: string sm_fifo"
  have ok: "fifo_ok ?f" "fifo_items ?f = []" by (rule fifo_init_ok; simp)+
  moreover have "fifo_length ?f = 3" by (simp add: sm_fifo_init_def)
  ultimately show ?thesis
    using fifo_refines_list [OF ok(1), of "[Fifo_Push ''a'', Fifo_Push ''b'', Fifo_Push ''c'', Fifo_Pop, Fifo_Num]"]
    by auto
qed

section \<open>Longer rings\<close>

text \<open>
  A ring of more than 256 slots writes the item at index 256 into slot 0, where it overwrites the
  oldest item: the index is truncated to a byte.
\<close>

lemma fifo_long_overwrites:
  assumes "fifo_buff f = Mem b" "length b = fifo_length f" "257 < fifo_length f" "fifo_head f = 256" "fifo_tail f = 0"
  shows "\<exists>f'. sm_fifo_push x f = Inr (True, f') \<and> mem_items (fifo_buff f') ! 0 = x
           \<and> (\<exists>f''. fifo_take f' = Inr (Some x, f''))"
  using assms by (auto simp: sm_fifo_push_def fifo_write_def fifo_take_def fifo_read_def)

end
