(* ===== verification/Core_Co.thy ===== *)
theory Core_Co
  imports Co_Node Fifo
begin

text \<open>
  \<^verbatim>\<open>cores/inc/sm_core_co.c\<close>: requests to read and write objects of other nodes wait in a queue of ten and are run one after the
  other by the SDO client of the node; the answer goes to the callback of the request. A request may also be made to be
  run at once, in a slot of its own.
\<close>

datatype SDO_PROCESS_STATE = SDO_SEND_REQUEST | SDO_WAIT_RESULT | SDO_END_REQUEST

datatype SM_SDO_READ_WRITE = SM_SDO_R | SM_SDO_W

text \<open>Callbacks and their arguments are numbers; \<open>None\<close> is a null callback.\<close>

record sdo_request =
  rq_rw :: SM_SDO_READ_WRITE
  rq_node :: nat
  rq_index :: nat
  rq_sub :: nat
  rq_timeout :: nat
  rq_obj :: CO_Sub_Object
  rq_cb :: "nat option"
  rq_arg :: nat

record sm_co =
  parent :: CO
  sdo_queue :: "sdo_request sm_fifo"
  sub_obj :: sdo_request
  sdo_now :: sdo_request
  is_sdo_now :: bool
  sdo_process :: bool
  sdo_st :: SDO_PROCESS_STATE

text \<open>What the component does to its surroundings: a frame is sent, a callback is called with status and abort codes.\<close>

datatype co_out = Can_Frame can_frame | Answer nat CO_SDO_return_t nat nat nat

type_synonym co_result = "(sm_co, co_out) result"

definition sm_sdo_push :: "sdo_request \<Rightarrow> sm_co \<Rightarrow> fault + (bool \<times> sm_co)" where
  "sm_sdo_push r s = (case sm_fifo_push r (sdo_queue s) of Inl f \<Rightarrow> Inl f | Inr (ok, q) \<Rightarrow> Inr (ok, s\<lparr>sdo_queue := q\<rparr>))"

definition sm_sdo_pop :: "sm_co \<Rightarrow> fault + (bool \<times> sm_co)" where
  "sm_sdo_pop s = (case sm_fifo_pop (sdo_queue s) of Inl f \<Rightarrow> Inl f
     | Inr (None, q) \<Rightarrow> Inr (False, s\<lparr>sdo_queue := q\<rparr>) | Inr (Some r, q) \<Rightarrow> Inr (True, s\<lparr>sdo_queue := q, sub_obj := r\<rparr>))"

text \<open>\<open>z\<close> is a request of zero bytes, \<open>size_of\<close> the size of a request in bytes (44 on the target).\<close>

definition sm_co_sdo_queue_init :: "sdo_request \<Rightarrow> nat \<Rightarrow> sm_co \<Rightarrow> sm_co" where
  "sm_co_sdo_queue_init z size_of s = s\<lparr>sdo_queue := sm_fifo_init True z 10 size_of\<rparr>"

definition sm_co_set_node_id :: "nat \<Rightarrow> sm_co \<Rightarrow> sm_co" where
  "sm_co_set_node_id node s = s\<lparr>parent := CO_set_node_id node (parent s)\<rparr>"

definition sm_co_enable_sync_mode :: "co_profile \<Rightarrow> sm_co \<Rightarrow> sm_co" where
  "sm_co_enable_sync_mode pr s = s\<lparr>parent := CO_recover_sync_mode pr (parent s)\<rparr>"

definition sm_co_disable_sync_mode :: "sm_co \<Rightarrow> sm_co" where
  "sm_co_disable_sync_mode s = s\<lparr>parent := CO_disable_sync_mode (parent s)\<rparr>"

definition sm_co_sdo_is_busy :: "sm_co \<Rightarrow> bool" where
  "sm_co_sdo_is_busy s \<longleftrightarrow> sdo_status (co_client (parent s)) \<noteq> CO_SDO_RT_idle"

definition sm_co_sdo_reset :: "sm_co \<Rightarrow> sm_co" where
  "sm_co_sdo_reset s = s\<lparr>parent := (parent s)\<lparr>co_client := (co_client (parent s))\<lparr>sdo_status := CO_SDO_RT_idle\<rparr>\<rparr>\<rparr>"

text \<open>
  Linear searches over the dictionary: the version number, and the handler of an object. \<open>sub_fn\<close> changes the sub-object.
\<close>

definition od_update :: "nat \<Rightarrow> nat \<Rightarrow> (CO_Sub_Object \<Rightarrow> CO_Sub_Object) \<Rightarrow> CO_OD \<Rightarrow> CO_OD" where
  "od_update idx sub g od = od\<lparr>od_list := map (\<lambda>obj. if obj_index obj = idx
     then obj\<lparr>obj_subs := (obj_subs obj)[sub := g (obj_subs obj ! sub)]\<rparr> else obj) (od_list od)\<rparr>"

abbreviation (input) "SDO_VERSION_INDEX \<equiv> 0x100A :: nat"

definition sm_co_set_self_version :: "u8 list \<Rightarrow> sm_co \<Rightarrow> sm_co" where
  "sm_co_set_self_version v s =
     (let srv = co_server (parent s)
      in s\<lparr>parent := (parent s)\<lparr>co_server := srv\<lparr>srv_od := od_update SDO_VERSION_INDEX 0 (\<lambda>x. x\<lparr>p_data := Some v\<rparr>) (srv_od srv)\<rparr>\<rparr>\<rparr>)"

text \<open>The length of a request has sixteen bits, its timeout too; the length is a \<^verbatim>\<open>int32_t\<close>.\<close>

definition u16_of_int :: "int \<Rightarrow> nat" where
  "u16_of_int i = nat (i mod 65536)"

definition mk_request ::
  "SM_SDO_READ_WRITE \<Rightarrow> nat \<Rightarrow> nat \<Rightarrow> nat \<Rightarrow> nat \<Rightarrow> u8 list option \<Rightarrow> int \<Rightarrow> int \<Rightarrow> nat option \<Rightarrow> nat \<Rightarrow> sdo_request" where
  "mk_request rw attr idx sub node buf len tmo cb arg =
     \<lparr>rq_rw = rw, rq_node = node, rq_index = idx, rq_sub = sub, rq_timeout = u16_of_int tmo,
      rq_obj = \<lparr>p_data = buf, so_attr = attr, so_len = u16_of_int len, p_ext = None, p_temp_data = None\<rparr>,
      rq_cb = cb, rq_arg = arg\<rparr>"

definition sm_co_sdo_client_send ::
  "nat \<Rightarrow> nat \<Rightarrow> nat \<Rightarrow> u8 list option \<Rightarrow> int \<Rightarrow> int \<Rightarrow> nat option \<Rightarrow> nat \<Rightarrow> sm_co \<Rightarrow> fault + (bool \<times> sm_co)" where
  "sm_co_sdo_client_send idx sub node buf len tmo cb arg s =
     sm_sdo_push (mk_request SM_SDO_W ODA_SDO_W idx sub node buf len tmo cb arg) s"

definition sm_co_sdo_client_receive ::
  "nat \<Rightarrow> nat \<Rightarrow> nat \<Rightarrow> u8 list option \<Rightarrow> int \<Rightarrow> int \<Rightarrow> nat option \<Rightarrow> nat \<Rightarrow> sm_co \<Rightarrow> fault + (bool \<times> sm_co)" where
  "sm_co_sdo_client_receive idx sub node buf len tmo cb arg s =
     sm_sdo_push (mk_request SM_SDO_R ODA_SDO_R idx sub node buf len tmo cb arg) s"

text \<open>The two requests to be run at once keep the temporary data pointer of the slot, which is null from the start.\<close>

definition request_now ::
  "SM_SDO_READ_WRITE \<Rightarrow> nat \<Rightarrow> nat \<Rightarrow> nat \<Rightarrow> u8 list option \<Rightarrow> int \<Rightarrow> int \<Rightarrow> nat option \<Rightarrow> nat \<Rightarrow> sm_co \<Rightarrow> bool \<times> sm_co" where
  "request_now rw idx sub node buf len tmo cb arg s =
     (if is_sdo_now s then (False, s)
      else (True, s\<lparr>sdo_now := mk_request rw ODA_SDO_RW idx sub node buf len tmo cb arg, is_sdo_now := True\<rparr>))"

definition sm_co_sdo_client_send_now ::
  "nat \<Rightarrow> nat \<Rightarrow> nat \<Rightarrow> u8 list option \<Rightarrow> int \<Rightarrow> int \<Rightarrow> nat option \<Rightarrow> nat \<Rightarrow> sm_co \<Rightarrow> bool \<times> sm_co" where
  "sm_co_sdo_client_send_now = request_now SM_SDO_W"

definition sm_co_sdo_client_receive_now ::
  "nat \<Rightarrow> nat \<Rightarrow> nat \<Rightarrow> u8 list option \<Rightarrow> int \<Rightarrow> int \<Rightarrow> nat option \<Rightarrow> nat \<Rightarrow> sm_co \<Rightarrow> bool \<times> sm_co" where
  "sm_co_sdo_client_receive_now = request_now SM_SDO_R"

section \<open>The state machine\<close>

definition on_client :: "(sdo_client \<Rightarrow> sdo_client) \<Rightarrow> sm_co \<Rightarrow> sm_co" where
  "on_client g s = s\<lparr>parent := (parent s)\<lparr>co_client := g (co_client (parent s))\<rparr>\<rparr>"

definition CO_SDO_reset_status :: "'a CO_SDO_scheme \<Rightarrow> 'a CO_SDO_scheme" where
  "CO_SDO_reset_status c = c\<lparr>sdo_status := CO_SDO_RT_idle\<rparr>"

definition p_sdo :: "sm_co \<Rightarrow> sdo_request" where
  "p_sdo s = (if is_sdo_now s then sdo_now s else sub_obj s)"

definition start_request :: "sdo_request \<Rightarrow> sdo_client \<Rightarrow> sdo_client" where
  "start_request r =
     (if rq_rw r = SM_SDO_R then CO_SDOclient_start_upload else CO_SDOclient_start_download)
       (rq_node r) (rq_index r mod 65536) (rq_sub r) (rq_obj r) (rq_timeout r)"

definition answer_of :: "sdo_request \<Rightarrow> sdo_client \<Rightarrow> co_out list" where
  "answer_of r c = (case rq_cb r of None \<Rightarrow> []
     | Some cb \<Rightarrow> [Answer cb (sdo_status c) (tx_abort_code c) (rx_abort_code c) (rq_arg r)])"

definition sm_co_SDO_process :: "sm_co \<Rightarrow> co_result" where
  "sm_co_SDO_process s =
     (if sdo_process s then
        (case sdo_st s of
           SDO_SEND_REQUEST \<Rightarrow>
             Inr ((on_client (\<lambda>c. start_request (p_sdo s) (CO_SDO_reset_status c)) s)\<lparr>sdo_st := SDO_WAIT_RESULT\<rparr>, [])
         | SDO_WAIT_RESULT \<Rightarrow>
             Inr (if sdo_status (co_client (parent s)) = CO_SDO_RT_success \<or> sdo_status (co_client (parent s)) = CO_SDO_RT_abort
                  then s\<lparr>sdo_st := SDO_END_REQUEST\<rparr> else s, [])
         | SDO_END_REQUEST \<Rightarrow>
             Inr ((on_client CO_SDO_reset_status s)\<lparr>sdo_process := False, is_sdo_now := False\<rparr>,
                  answer_of (p_sdo s) (co_client (parent s))))
      else if is_sdo_now s then Inr (s\<lparr>sdo_process := True, sdo_st := SDO_SEND_REQUEST\<rparr>, [])
      else (case sm_sdo_pop s of Inl f \<Rightarrow> Inl f
            | Inr (ok, s) \<Rightarrow> Inr (if ok then s\<lparr>sdo_process := True, sdo_st := SDO_SEND_REQUEST\<rparr> else s, [])))"

text \<open>A call of \<^verbatim>\<open>sm_co_process\<close>: the frames that have arrived, the node, the requests.\<close>

definition sm_co_can_if_recv_impl :: "can_frame \<Rightarrow> sm_co \<Rightarrow> sm_co" where
  "sm_co_can_if_recv_impl f s = s\<lparr>parent := fst (CO_can_receive_basic_handle f (parent s))\<rparr>"

definition co_node_step :: "builders \<Rightarrow> nat \<Rightarrow> confirm \<Rightarrow> sm_co \<Rightarrow> co_result" where
  "co_node_step build dt cf s = (case CO_process build (dt mod 65536) cf (parent s) of Inl f \<Rightarrow> Inl f
     | Inr (n, out) \<Rightarrow> Inr (s\<lparr>parent := n\<rparr>, map Can_Frame out))"

definition sm_co_process :: "builders \<Rightarrow> can_frame list \<Rightarrow> nat \<Rightarrow> confirm \<Rightarrow> sm_co \<Rightarrow> co_result" where
  "sm_co_process build fs dt cf s =
     and_then (co_node_step build dt cf (fold sm_co_can_if_recv_impl fs s)) sm_co_SDO_process"

end
