(* ===== verification/Config_Co.thy ===== *)
theory Config_Co
  imports Core_Co
begin

text \<open>
  \<^verbatim>\<open>apps/pmu/sm_ev_config_co.c\<close>: the parameters of the motor controller (node 2, object 0x2180), written and read by
  requests to the CANopen core. A \<^verbatim>\<open>float\<close> is its four bytes. Callbacks of the application are values of a type \<open>'cb\<close>.
  A request carries the bytes its buffer has when it is made; the code reads them when the transfer starts.
\<close>

datatype EV_CFG_CMD = EV_CFG_UV_PROTECT | EV_CFG_IBAT_LIMIT | EV_CFG_ECO_SPEED | EV_CFG_SPORT_SPEED | EV_CFG_READ | EV_CFG_NUMBER

record InspectionConfig_t =
  ibat_limit :: "u8 list"
  uv_protect :: "u8 list"
  sport_speed :: u8
  eco_speed :: u8

record sm_purpose_cf_t =
  purpose :: nat
  switch_config :: nat
  inspection_config :: InspectionConfig_t

text \<open>The data of a command: a null pointer, an object that exists, a variable of a function that has returned.\<close>

datatype data_ptr = Ptr_Null | Ptr_Live "u8 list" | Ptr_Dead

record 'cb sm_ev_config_cmd =
  cc_cmd :: EV_CFG_CMD
  cc_cb :: "'cb option"
  cc_data :: data_ptr

record 'cb ev_config =
  m_data_write :: InspectionConfig_t
  m_data_config :: sm_purpose_cf_t
  m_cmd :: "'cb sm_ev_config_cmd"

abbreviation (input) "SDO_EV_CONFIG_PARA_INDEX \<equiv> 0x2180 :: nat"
abbreviation (input) "MC_NODE_ID_DEFAULT \<equiv> 2 :: nat"

text \<open>The number of \<^verbatim>\<open>sm_bp_co_wrirte_sdo_cb\<close>, the callback of all requests made here.\<close>

abbreviation (input) "CFG_SDO_CB \<equiv> 1 :: nat"

definition sm_ev_config_get_para :: "'cb ev_config \<Rightarrow> InspectionConfig_t" where
  "sm_ev_config_get_para c = inspection_config (m_data_config c)"

definition sm_ev_set_uv_protect :: "u8 list \<Rightarrow> 'cb ev_config \<Rightarrow> 'cb ev_config" where
  "sm_ev_set_uv_protect v c = c\<lparr>m_data_write := (m_data_write c)\<lparr>uv_protect := v\<rparr>\<rparr>"

definition sm_ev_set_ibat_limit :: "u8 list \<Rightarrow> 'cb ev_config \<Rightarrow> 'cb ev_config" where
  "sm_ev_set_ibat_limit v c = c\<lparr>m_data_write := (m_data_write c)\<lparr>ibat_limit := v\<rparr>\<rparr>"

definition sm_ev_set_eco_speed :: "u8 \<Rightarrow> 'cb ev_config \<Rightarrow> 'cb ev_config" where
  "sm_ev_set_eco_speed v c = c\<lparr>m_data_write := (m_data_write c)\<lparr>eco_speed := v\<rparr>\<rparr>"

definition sm_ev_set_sport_speed :: "u8 \<Rightarrow> 'cb ev_config \<Rightarrow> 'cb ev_config" where
  "sm_ev_set_sport_speed v c = c\<lparr>m_data_write := (m_data_write c)\<lparr>sport_speed := v\<rparr>\<rparr>"

text \<open>
  What the callback of a request does: it calls the callback of the command that is stored now, with 0 for success and -1
  for an abort.
\<close>

definition sm_bp_co_wrirte_sdo_cb :: "CO_SDO_return_t \<Rightarrow> 'cb ev_config \<Rightarrow> ('cb \<times> data_ptr \<times> int) option" where
  "sm_bp_co_wrirte_sdo_cb st c =
     (case cc_cb (m_cmd c) of None \<Rightarrow> None
      | Some cb \<Rightarrow> if st = CO_SDO_RT_success then Some (cb, cc_data (m_cmd c), 0)
                   else if st = CO_SDO_RT_abort then Some (cb, cc_data (m_cmd c), - 1) else None)"

section \<open>Requests\<close>

definition cfg_send :: "nat \<Rightarrow> u8 list \<Rightarrow> sm_co \<Rightarrow> fault + (bool \<times> sm_co)" where
  "cfg_send sub xs = sm_co_sdo_client_send SDO_EV_CONFIG_PARA_INDEX sub MC_NODE_ID_DEFAULT (Some xs) (int (length xs)) 1000
     (Some CFG_SDO_CB) 0"

definition sm_ev_co_wrirte_uv_protect :: "'cb ev_config \<Rightarrow> sm_co \<Rightarrow> fault + (bool \<times> sm_co)" where
  "sm_ev_co_wrirte_uv_protect c = cfg_send 5 (uv_protect (m_data_write c))"

definition sm_ev_co_wrirte_ibat_limit :: "'cb ev_config \<Rightarrow> sm_co \<Rightarrow> fault + (bool \<times> sm_co)" where
  "sm_ev_co_wrirte_ibat_limit c = cfg_send 4 (ibat_limit (m_data_write c))"

definition sm_ev_co_wrirte_eco_speed :: "'cb ev_config \<Rightarrow> sm_co \<Rightarrow> fault + (bool \<times> sm_co)" where
  "sm_ev_co_wrirte_eco_speed c = cfg_send 3 [eco_speed (m_data_write c)]"

definition sm_ev_co_wrirte_sport_speed :: "'cb ev_config \<Rightarrow> sm_co \<Rightarrow> fault + (bool \<times> sm_co)" where
  "sm_ev_co_wrirte_sport_speed c = cfg_send 2 [sport_speed (m_data_write c)]"

text \<open>\<open>img\<close> is the memory of the configuration, whose layout is the compiler's.\<close>

definition sm_ev_co_read_ev_config :: "(sm_purpose_cf_t \<Rightarrow> u8 list) \<Rightarrow> 'cb ev_config \<Rightarrow> sm_co \<Rightarrow> fault + (bool \<times> sm_co)" where
  "sm_ev_co_read_ev_config img c =
     (let xs = img (m_data_config c)
      in sm_co_sdo_client_receive SDO_EV_CONFIG_PARA_INDEX 6 MC_NODE_ID_DEFAULT (Some xs) (int (length xs)) 1000
           (Some CFG_SDO_CB) 0)"

text \<open>The command is stored first; whether the request has found room in the queue is not looked at.\<close>

definition sm_ev_config_co_set_cmd ::
  "(sm_purpose_cf_t \<Rightarrow> u8 list) \<Rightarrow> 'cb sm_ev_config_cmd \<Rightarrow> 'cb ev_config \<times> sm_co \<Rightarrow> fault + (int \<times> 'cb ev_config \<times> sm_co)" where
  "sm_ev_config_co_set_cmd img cmd = (\<lambda>(c, co).
     let c = c\<lparr>m_cmd := cmd\<rparr>;
         after = (\<lambda>r. case r of Inl f \<Rightarrow> Inl f | Inr (_, co) \<Rightarrow> Inr (0, c, co)) in
     case cc_cmd cmd of
       EV_CFG_UV_PROTECT \<Rightarrow> after (sm_ev_co_wrirte_uv_protect c co)
     | EV_CFG_IBAT_LIMIT \<Rightarrow> after (sm_ev_co_wrirte_ibat_limit c co)
     | EV_CFG_ECO_SPEED \<Rightarrow> after (sm_ev_co_wrirte_eco_speed c co)
     | EV_CFG_SPORT_SPEED \<Rightarrow> after (sm_ev_co_wrirte_sport_speed c co)
     | EV_CFG_READ \<Rightarrow> after (sm_ev_co_read_ev_config img c co)
     | EV_CFG_NUMBER \<Rightarrow> Inr (- 1, c, co))"

section \<open>What a command does\<close>

definition cfg_request :: "nat \<Rightarrow> u8 list \<Rightarrow> sdo_request" where
  "cfg_request sub xs = mk_request SM_SDO_W ODA_SDO_W SDO_EV_CONFIG_PARA_INDEX sub MC_NODE_ID_DEFAULT (Some xs) (int (length xs)) 1000
     (Some CFG_SDO_CB) 0"

lemma cfg_send_push: "cfg_send sub xs co = sm_sdo_push (cfg_request sub xs) co"
  by (simp add: cfg_send_def sm_co_sdo_client_send_def cfg_request_def)

text \<open>The number of a sub-index and its bytes, for the commands that write.\<close>

fun cfg_target :: "EV_CFG_CMD \<Rightarrow> 'cb ev_config \<Rightarrow> (nat \<times> u8 list) option" where
  "cfg_target EV_CFG_UV_PROTECT c = Some (5, uv_protect (m_data_write c))"
| "cfg_target EV_CFG_IBAT_LIMIT c = Some (4, ibat_limit (m_data_write c))"
| "cfg_target EV_CFG_ECO_SPEED c = Some (3, [eco_speed (m_data_write c)])"
| "cfg_target EV_CFG_SPORT_SPEED c = Some (2, [sport_speed (m_data_write c)])"
| "cfg_target EV_CFG_READ c = None"
| "cfg_target EV_CFG_NUMBER c = None"

lemma set_cmd_push:
  assumes "cfg_target (cc_cmd cmd) c = Some (sub, xs)" "sm_sdo_push (cfg_request sub xs) co = Inr (ok, co')"
  shows "sm_ev_config_co_set_cmd img cmd (c, co) = Inr (0, c\<lparr>m_cmd := cmd\<rparr>, co')"
  using assms
  by (cases "cc_cmd cmd")
    (auto simp: sm_ev_config_co_set_cmd_def cfg_send_push sm_ev_co_wrirte_uv_protect_def sm_ev_co_wrirte_ibat_limit_def
      sm_ev_co_wrirte_eco_speed_def sm_ev_co_wrirte_sport_speed_def)

end
