(* ===== verification/Uart_Module.thy ===== *)
theory Uart_Module
  imports Prelude
begin

text \<open>
  \<^verbatim>\<open>common/uart_module/uart_module.c\<close>: lines of text on a serial port. A byte arrives in an interrupt and is put in the
  buffer of the module; a line ends with the two characters backslash and \<open>n\<close>. Characters are bytes; a buffer is \<open>None\<close>
  when its allocation failed. What is written to the port is a list of outputs \<open>'o\<close>.
\<close>

abbreviation (input) "NUL \<equiv> CHR 0x00"
abbreviation (input) "BACKSLASH \<equiv> CHR 0x5C"

record uart_module =
  m_buff :: "char list option"
  buff_index :: nat
  buff_size :: nat
  is_new_data :: bool
  rx_flag :: bool
  uart_lock :: bool

text \<open>\<open>junk\<close> is what \<^verbatim>\<open>malloc\<close> returns: bytes of any value, or nothing.\<close>

definition uart_module_init :: "char list option \<Rightarrow> nat \<Rightarrow> uart_module" where
  "uart_module_init junk n =
     \<lparr>m_buff = junk, buff_index = 0, buff_size = n, is_new_data = False, rx_flag = False, uart_lock = False\<rparr>"

definition uart_module_recv_data_callback :: "char \<Rightarrow> uart_module \<Rightarrow> fault + uart_module" where
  "uart_module_recv_data_callback d m =
     (if buff_index m < (buff_size m + 2 ^ 32 - 1) mod 2 ^ 32 then
        (case m_buff m of None \<Rightarrow> Inl Null_Deref
         | Some b \<Rightarrow>
             if length b \<le> buff_index m then Inl Out_Of_Bounds
             else let i = buff_index m; b = b[i := d] in
               if 0 < i \<and> d = CHR ''n'' \<and> b ! (i - 1) = BACKSLASH
               then Inr (m\<lparr>m_buff := Some (b[i - 1 := NUL]), is_new_data := True\<rparr>)
               else Inr (m\<lparr>m_buff := Some b, buff_index := i + 1\<rparr>))
      else Inr (m\<lparr>buff_index := 0\<rparr>))"

text \<open>The bytes of a transmission, each in its interrupt.\<close>

fun uart_recv_all :: "char list \<Rightarrow> uart_module \<Rightarrow> fault + uart_module" where
  "uart_recv_all [] m = Inr m"
| "uart_recv_all (d # ds) m = (case uart_module_recv_data_callback d m of Inl f \<Rightarrow> Inl f | Inr m \<Rightarrow> uart_recv_all ds m)"

text \<open>The string at the start of an array, with at most \<open>n\<close> characters.\<close>

definition c_str :: "nat \<Rightarrow> char list \<Rightarrow> string" where
  "c_str n b = takeWhile (\<lambda>c. c \<noteq> NUL) (take n b)"

text \<open>
  \<^verbatim>\<open>strncpy\<close> to an array of \<open>n\<close> bytes and the zero after it. It reads to the first zero or to the index, and writes all
  bytes up to the index.
\<close>

definition copy_line :: "nat \<Rightarrow> uart_module \<Rightarrow> fault + string" where
  "copy_line n m = (case m_buff m of None \<Rightarrow> Inl Null_Deref
     | Some b \<Rightarrow> if n \<le> buff_index m \<or> length b < buff_index m \<and> NUL \<notin> set b then Inl Out_Of_Bounds
                 else Inr (c_str (buff_index m) b))"

definition uart_module_get_data :: "nat \<Rightarrow> uart_module \<Rightarrow> fault + (string option \<times> uart_module)" where
  "uart_module_get_data n m =
     (if \<not> is_new_data m then Inr (None, m)
      else (case copy_line n m of Inl f \<Rightarrow> Inl f
            | Inr s \<Rightarrow> Inr (Some s, m\<lparr>is_new_data := False, buff_index := 0\<rparr>)))"

definition uart_module_clear_data :: "uart_module \<Rightarrow> uart_module" where
  "uart_module_clear_data m = m\<lparr>buff_index := 0\<rparr>"

text \<open>
  Who finds the lock taken waits for it in a loop; nobody releases it while an interrupt waits, nor while the program
  itself does. The lock is free again at the end of each function that takes it.
\<close>

definition uart_module_write :: "'o \<Rightarrow> uart_module \<Rightarrow> (uart_module, 'o) result" where
  "uart_module_write msg m = (if uart_lock m then Inl Halted else Inr (m, [msg]))"

text \<open>
  A command and the wait for its answer: \<open>rx\<close> are the bytes that arrive during the wait. The flag the loop waits for is
  set by nobody, so that the wait ends with the time, unless the flag was set before. A timeout of 0 is over at once.
\<close>

definition clear_buffer :: "uart_module \<Rightarrow> uart_module" where
  "clear_buffer m = m\<lparr>m_buff := map_option (map (\<lambda>_. NUL)) (m_buff m), buff_index := 0\<rparr>"

definition uart_command :: "'o \<Rightarrow> nat \<Rightarrow> char list \<Rightarrow> uart_module \<Rightarrow> fault + (int \<times> uart_module \<times> 'o list)" where
  "uart_command cmd timeout rx m =
     (if uart_lock m then Inl Halted
      else if m_buff m = None then Inl Null_Deref
      else let m = clear_buffer m in
        if timeout = 0 then Inr (- 1, m, [cmd])
        else if rx_flag m then Inr (0, m\<lparr>rx_flag := False\<rparr>, [cmd])
        else (case uart_recv_all rx m of Inl f \<Rightarrow> Inl f | Inr m \<Rightarrow> Inr (- 1, m, [cmd])))"

definition uart_module_set_cmd :: "'o \<Rightarrow> nat \<Rightarrow> char list \<Rightarrow> uart_module \<Rightarrow> fault + (int \<times> uart_module \<times> 'o list)" where
  "uart_module_set_cmd = uart_command"

definition uart_module_send_recv ::
  "nat \<Rightarrow> 'o \<Rightarrow> nat \<Rightarrow> char list \<Rightarrow> uart_module \<Rightarrow> fault + (int \<times> string \<times> uart_module \<times> 'o list)" where
  "uart_module_send_recv n cmd timeout rx m =
     (case uart_command cmd timeout rx m of Inl f \<Rightarrow> Inl f
      | Inr (rc, m, out) \<Rightarrow> (case copy_line n m of Inl f \<Rightarrow> Inl f | Inr s \<Rightarrow> Inr (rc, s, m, out)))"

definition uart_module_read :: "nat \<Rightarrow> uart_module \<Rightarrow> fault + (char list \<times> uart_module)" where
  "uart_module_read len m =
     (if uart_lock m then Inl Halted
      else if len \<le> buff_size m \<and> buff_index m \<noteq> 0 then
        (let k = (if len \<le> buff_index m + 1 then len else buff_index m + 1) in
         case m_buff m of None \<Rightarrow> Inl Null_Deref
         | Some b \<Rightarrow> if length b < k then Inl Out_Of_Bounds else Inr (take k b, clear_buffer m))
      else Inr ([], m))"

definition uart_module_is_busy :: "uart_module \<Rightarrow> int" where
  "uart_module_is_busy m = (if uart_lock m then 0 else 1)"

section \<open>The buffer\<close>

text \<open>A module whose buffer has the size it was asked for, of two bytes or more.\<close>

definition uart_ok :: "uart_module \<Rightarrow> bool" where
  "uart_ok m \<longleftrightarrow> (\<exists>b. m_buff m = Some b \<and> length b = buff_size m) \<and> 1 < buff_size m \<and> buff_size m < 2 ^ 32
     \<and> buff_index m < buff_size m"

lemma uart_okE:
  assumes "uart_ok m"
  obtains b where "m_buff m = Some b" "length b = buff_size m" "buff_index m < length b" "1 < length b"
    "(buff_size m + 2 ^ 32 - 1) mod 2 ^ 32 = length b - 1"
proof -
  obtain b where b: "m_buff m = Some b" "length b = buff_size m" "1 < buff_size m" "buff_size m < 2 ^ 32" "buff_index m < buff_size m"
    using assms by (auto simp: uart_ok_def)
  have "(buff_size m + 2 ^ 32 - 1) mod 2 ^ 32 = ((buff_size m - 1) + 2 ^ 32) mod 2 ^ 32" using b(3) by simp
  also have "\<dots> = buff_size m - 1" unfolding mod_add_self2 by (rule mod_less) (use b(4) in simp)
  finally show thesis using b that by simp
qed

lemma recv_ok:
  assumes "uart_ok m"
  shows "\<exists>m'. uart_module_recv_data_callback d m = Inr m' \<and> uart_ok m'"
proof -
  obtain b where b: "m_buff m = Some b" "length b = buff_size m" "buff_index m < length b" "1 < length b"
      "(buff_size m + 2 ^ 32 - 1) mod 2 ^ 32 = length b - 1" using assms by (rule uart_okE)
  have sz: "buff_size m < 2 ^ 32" using assms by (simp add: uart_ok_def)
  show ?thesis
    using b(1-4) sz unfolding uart_module_recv_data_callback_def b(5) by (auto simp: Let_def uart_ok_def)
qed

lemma recv_all_ok: "uart_ok m \<Longrightarrow> \<exists>m'. uart_recv_all ds m = Inr m' \<and> uart_ok m'"
proof (induction ds arbitrary: m)
  case (Cons d ds)
  then show ?case using recv_ok [of m d] by (cases "uart_module_recv_data_callback d m") auto
qed simp

section \<open>A line\<close>

text \<open>Characters that do not end the line fill the buffer from the index on.\<close>

definition line_text :: "char list \<Rightarrow> bool" where
  "line_text xs \<longleftrightarrow> BACKSLASH \<notin> set xs \<and> NUL \<notin> set xs"

lemma recv_text:
  assumes "uart_ok m" "m_buff m = Some b" "buff_index m + length xs < length b" "BACKSLASH \<notin> set xs"
    and "buff_index m = 0 \<or> b ! (buff_index m - 1) \<noteq> BACKSLASH"
  shows "\<exists>b'. uart_recv_all xs m = Inr (m\<lparr>m_buff := Some b', buff_index := buff_index m + length xs\<rparr>)
    \<and> length b' = length b \<and> take (buff_index m + length xs) b' = take (buff_index m) b @ xs"
  using assms
proof (induction xs arbitrary: m b)
  case (Cons x xs)
  obtain b1 where b1: "m_buff m = Some b1" "length b1 = buff_size m" "buff_index m < length b1" "1 < length b1"
      "(buff_size m + 2 ^ 32 - 1) mod 2 ^ 32 = length b1 - 1" using Cons.prems(1) by (rule uart_okE)
  let ?i = "buff_index m" and ?b = "b[buff_index m := x]"
  let ?m = "m\<lparr>m_buff := Some ?b, buff_index := ?i + 1\<rparr>"
  have i: "?i < length b - 1" using Cons.prems(3) by simp
  have x: "x \<noteq> BACKSLASH" using Cons.prems(4) by auto
  have nb: "\<not> (0 < ?i \<and> x = CHR ''n'' \<and> ?b ! (?i - 1) = BACKSLASH)" using Cons.prems(5) by auto
  have step: "uart_module_recv_data_callback x m = Inr ?m"
    unfolding uart_module_recv_data_callback_def b1(5) using Cons.prems(2) b1(1) i nb by (auto simp: Let_def)
  have "uart_ok ?m" using recv_ok [OF Cons.prems(1), of x] step by simp
  moreover have "?b ! (buff_index ?m - 1) \<noteq> BACKSLASH" using x i by simp
  ultimately obtain b' where b': "uart_recv_all xs ?m = Inr (?m\<lparr>m_buff := Some b', buff_index := buff_index ?m + length xs\<rparr>)"
      "length b' = length b" "take (buff_index ?m + length xs) b' = take (buff_index ?m) ?b @ xs"
    using Cons.IH [of ?m ?b] Cons.prems(3,4) by auto
  have "take (?i + 1) ?b = take ?i b @ [x]" using i by (simp add: take_Suc_conv_app_nth)
  then show ?case using b' step by (intro exI [of _ b']) simp
next
  case Nil
  have "m = m\<lparr>m_buff := Some b, buff_index := buff_index m + length []\<rparr>" using Nil.prems(2) by (cases m) simp
  then show ?case by (intro exI [of _ b]) simp
qed

lemma recv_line:
  assumes "uart_ok m" "buff_index m = 0" "length xs + 2 < buff_size m" "line_text xs"
  shows "\<exists>m'. uart_recv_all (xs @ [BACKSLASH, CHR ''n'']) m = Inr m' \<and> uart_ok m' \<and> is_new_data m'
    \<and> uart_lock m' = uart_lock m \<and> buff_index m' = length xs + 1 \<and> buff_size m' = buff_size m
    \<and> copy_line (buff_size m) m' = Inr xs"
proof -
  obtain b where b: "m_buff m = Some b" "length b = buff_size m" "buff_index m < length b" "1 < length b"
      "(buff_size m + 2 ^ 32 - 1) mod 2 ^ 32 = length b - 1" using assms(1) by (rule uart_okE)
  obtain b' where b': "uart_recv_all xs m = Inr (m\<lparr>m_buff := Some b', buff_index := length xs\<rparr>)" "length b' = length b"
      "take (length xs) b' = xs"
    using recv_text [OF assms(1) b(1), of xs] assms(2,3,4) b(2) by (auto simp: line_text_def)
  let ?n = "length xs" and ?e = "(b'[length xs := BACKSLASH, length xs + 1 := CHR ''n''])[length xs := NUL]"
  let ?m = "m\<lparr>m_buff := Some ?e, buff_index := ?n + 1, is_new_data := True\<rparr>"
  have app: "uart_recv_all (ys @ zs) m0 = (case uart_recv_all ys m0 of Inl f \<Rightarrow> Inl f | Inr m \<Rightarrow> uart_recv_all zs m)" for ys zs m0
    by (induction ys arbitrary: m0) (auto split: sum.split)
  have n: "?n + 2 < length b'" using assms(3) b(2) b'(2) by simp
  have 1: "uart_module_recv_data_callback BACKSLASH (m\<lparr>m_buff := Some b', buff_index := ?n\<rparr>)
      = Inr (m\<lparr>m_buff := Some (b'[?n := BACKSLASH]), buff_index := ?n + 1\<rparr>)"
    unfolding uart_module_recv_data_callback_def using n b(5) b'(2) by (simp add: Let_def)
  have 2: "uart_module_recv_data_callback CHR ''n'' (m\<lparr>m_buff := Some (b'[?n := BACKSLASH]), buff_index := ?n + 1\<rparr>) = Inr ?m"
    unfolding uart_module_recv_data_callback_def using n b(5) b'(2) by (simp add: Let_def)
  have all: "uart_recv_all (xs @ [BACKSLASH, CHR ''n'']) m = Inr ?m" using b'(1) 1 2 by (simp add: app)
  then have ok: "uart_ok ?m" using recv_all_ok [OF assms(1), of "xs @ [BACKSLASH, CHR ''n'']"] by simp
  have "take (?n + 1) ?e = xs @ [NUL]"
  proof (rule nth_equalityI)
    show "take (?n + 1) ?e ! i = (xs @ [NUL]) ! i" if "i < length (take (?n + 1) ?e)" for i
      using that n b'(3) nth_take [of i ?n b'] by (cases "i < ?n") (auto simp: nth_append nth_list_update less_Suc_eq)
  qed (use n in simp)
  then have "c_str (?n + 1) ?e = xs" using assms(4) by (auto simp: c_str_def line_text_def takeWhile_append)
  then have "copy_line (buff_size m) ?m = Inr xs" using n b(2) b'(2) by (simp add: copy_line_def)
  then show ?thesis using all ok by simp
qed

end
