(* ===== verification/Pmu_Uart.thy ===== *)
theory Pmu_Uart
  imports Config_Co Uart_Module
begin

text \<open>
  \<^verbatim>\<open>apps/pmu/sm_pmu_uart.c\<close>: the console of the unit. A line \<^verbatim>\<open>NAME=VALUE\<close> writes a parameter of the motor controller;
  lines without a value are meant to open menus. The texts that are printed are values of \<open>uart_msg\<close>; the conversion of a
  decimal to a \<^verbatim>\<open>float\<close>, \<^verbatim>\<open>atof\<close>, is a parameter that gives its four bytes, and so is the layout of a structure in memory.
\<close>

record platform =
  pf_atof :: "string \<Rightarrow> u8 list"
  pf_image :: "sm_purpose_cf_t \<Rightarrow> u8 list"

section \<open>Strings\<close>

text \<open>\<^verbatim>\<open>isspace\<close> in the C locale.\<close>

definition isspace :: "char \<Rightarrow> bool" where
  "isspace c \<longleftrightarrow> c \<in> set [CHR '' '', CHR 0x09, CHR 0x0A, CHR 0x0B, CHR 0x0C, CHR 0x0D]"

text \<open>\<^verbatim>\<open>trim_string\<close>; \<open>None\<close> is a null pointer.\<close>

definition trim_string :: "string option \<Rightarrow> fault + string" where
  "trim_string p = (case p of None \<Rightarrow> Inl Null_Deref
     | Some s \<Rightarrow> Inr (rev (dropWhile isspace (rev (dropWhile isspace s)))))"

text \<open>\<^verbatim>\<open>strtok\<close> with the delimiter \<open>=\<close>: the token, and what is left for the next call.\<close>

definition strtok :: "string \<Rightarrow> string option \<times> string" where
  "strtok s = (let s = dropWhile (\<lambda>c. c = CHR ''='') s; t = takeWhile (\<lambda>c. c \<noteq> CHR ''='') s
     in if s = [] then (None, []) else (Some t, drop (length t + 1) s))"

text \<open>\<^verbatim>\<open>strcpy\<close> into an array of \<open>n\<close> bytes.\<close>

definition strcpy :: "nat \<Rightarrow> fault + string \<Rightarrow> fault + string" where
  "strcpy n r = (case r of Inl f \<Rightarrow> Inl f | Inr s \<Rightarrow> if n \<le> length s then Inl Out_Of_Bounds else Inr s)"

text \<open>The result is \<open>None\<close> when the buffers are left as they are, which the caller does not look at.\<close>

definition parse_command :: "string \<Rightarrow> fault + (string \<times> string) option" where
  "parse_command s =
     (case strtok s of (cmd, rest) \<Rightarrow> (case strtok rest of (dat, _) \<Rightarrow>
        if cmd = None \<and> dat = None then Inr None
        else (case strcpy 10 (trim_string cmd) of Inl f \<Rightarrow> Inl f
          | Inr c \<Rightarrow> (case strcpy 10 (trim_string dat) of Inl f \<Rightarrow> Inl f | Inr d \<Rightarrow> Inr (Some (c, d))))))"

text \<open>\<^verbatim>\<open>atoi\<close>, for the values an \<^verbatim>\<open>int\<close> holds; at most nine characters arrive here.\<close>

definition is_digit :: "char \<Rightarrow> bool" where
  "is_digit c \<longleftrightarrow> 48 \<le> (of_char c :: nat) \<and> (of_char c :: nat) \<le> 57"

definition digits :: "string \<Rightarrow> int" where
  "digits s = foldl (\<lambda>n c. 10 * n + (int (of_char c) - 48)) 0 (takeWhile is_digit s)"

definition atoi :: "string \<Rightarrow> int" where
  "atoi s = (case dropWhile isspace s of [] \<Rightarrow> 0
     | c # t \<Rightarrow> if c = CHR ''-'' then - digits t else if c = CHR ''+'' then digits t else digits (c # t))"

section \<open>The console\<close>

datatype cfg_cb = msg_cmd_write_uv_res_cb | msg_cmd_write_ibat_limit_res_cb | msg_cmd_write_eco_sport_res_cb
  | msg_cmd_write_speed_sport_res_cb

datatype UART_CFG_STATE = UART_CFG_IDLE | UART_CFG_READ | UART_CFG_WRITE

text \<open>Menus, the fixed values of the read command, and results: which value, whether it was written, its bytes.\<close>

datatype uart_msg = Msg_Idle | Msg_Write | Msg_Read | Msg_Result cfg_cb bool "u8 list" | Msg_Empty

record sm_uart =
  m_base :: uart_module
  m_ev_config :: "cfg_cb ev_config"
  m_co :: sm_co
  uart_cmds :: "string sm_fifo"
  m_cmd_current :: "uart_msg option"
  m_pause_poll :: bool
  m_force :: bool
  m_state :: UART_CFG_STATE

type_synonym uart_result = "(sm_uart, uart_msg) result"

definition UART_CMD :: "string list" where
  "UART_CMD = [''READ'', ''WRITE'', ''UV'', ''I_BAT'', ''ECO'', ''SPORT'', ''EXIT'']"

abbreviation (input) "MAX_ASCII_MSG_SIZE \<equiv> 100 :: nat"

definition sm_cmd_push :: "string \<Rightarrow> sm_uart \<Rightarrow> fault + (bool \<times> sm_uart)" where
  "sm_cmd_push s u = (case sm_fifo_push s (uart_cmds u) of Inl f \<Rightarrow> Inl f | Inr (ok, q) \<Rightarrow> Inr (ok, u\<lparr>uart_cmds := q\<rparr>))"

definition sm_cmd_pop :: "sm_uart \<Rightarrow> fault + (string option \<times> sm_uart)" where
  "sm_cmd_pop u = (case sm_fifo_pop (uart_cmds u) of Inl f \<Rightarrow> Inl f | Inr (r, q) \<Rightarrow> Inr (r, u\<lparr>uart_cmds := q\<rparr>))"

definition sm_pmu_uart_create_default :: "char list option \<Rightarrow> bool \<Rightarrow> cfg_cb ev_config \<Rightarrow> sm_co \<Rightarrow> sm_uart" where
  "sm_pmu_uart_create_default junk ok cfg co =
     \<lparr>m_base = uart_module_init junk MAX_ASCII_MSG_SIZE, m_ev_config = cfg, m_co = co,
      uart_cmds = sm_fifo_init ok [] 4 MAX_ASCII_MSG_SIZE, m_cmd_current = None, m_pause_poll = False, m_force = False,
      m_state = UART_CFG_IDLE\<rparr>"

definition uart_print :: "uart_msg \<Rightarrow> sm_uart \<Rightarrow> uart_result" where
  "uart_print msg u = (case uart_module_write msg (m_base u) of Inl f \<Rightarrow> Inl f | Inr (m, out) \<Rightarrow> Inr (u\<lparr>m_base := m\<rparr>, out))"

definition sm_pmu_uart_polling_msg :: "sm_uart \<Rightarrow> uart_result" where
  "sm_pmu_uart_polling_msg u =
     (if m_pause_poll u \<and> \<not> m_force u then Inr (u, []) else uart_print Msg_Idle (u\<lparr>m_force := False\<rparr>))"

section \<open>Commands\<close>

definition msg_cmd_write :: "sm_uart \<Rightarrow> uart_result" where
  "msg_cmd_write u = uart_print Msg_Write (u\<lparr>m_pause_poll := True, m_state := UART_CFG_WRITE\<rparr>)"

definition msg_cmd_read :: "sm_uart \<Rightarrow> uart_result" where
  "msg_cmd_read u = uart_print Msg_Read (u\<lparr>m_pause_poll := True, m_state := UART_CFG_READ\<rparr>)"

definition msg_cmd_exit :: "sm_uart \<Rightarrow> uart_result" where
  "msg_cmd_exit u = sm_pmu_uart_polling_msg (u\<lparr>m_force := True\<rparr>)"

text \<open>
  The four commands with a value store it and pass on a command whose data are a variable of their own; the variable
  ends with them.
\<close>

definition issue_cmd :: "platform \<Rightarrow> EV_CFG_CMD \<Rightarrow> cfg_cb \<Rightarrow> u8 list \<Rightarrow> (cfg_cb ev_config \<Rightarrow> cfg_cb ev_config) \<Rightarrow> sm_uart \<Rightarrow> uart_result" where
  "issue_cmd pf c cb v store u =
     (case sm_ev_config_co_set_cmd (pf_image pf) \<lparr>cc_cmd = c, cc_cb = Some cb, cc_data = Ptr_Live v\<rparr> (store (m_ev_config u), m_co u) of
        Inl f \<Rightarrow> Inl f
      | Inr (_, cfg, co) \<Rightarrow> Inr (u\<lparr>m_ev_config := cfg\<lparr>m_cmd := (m_cmd cfg)\<lparr>cc_data := Ptr_Dead\<rparr>\<rparr>, m_co := co\<rparr>, []))"

definition msg_cmd_write_uv :: "platform \<Rightarrow> string \<Rightarrow> sm_uart \<Rightarrow> uart_result" where
  "msg_cmd_write_uv pf s =
     (let v = pf_atof pf s in issue_cmd pf EV_CFG_UV_PROTECT msg_cmd_write_uv_res_cb v (sm_ev_set_uv_protect v))"

definition msg_cmd_write_ibat :: "platform \<Rightarrow> string \<Rightarrow> sm_uart \<Rightarrow> uart_result" where
  "msg_cmd_write_ibat pf s =
     (let v = pf_atof pf s in issue_cmd pf EV_CFG_IBAT_LIMIT msg_cmd_write_ibat_limit_res_cb v (sm_ev_set_ibat_limit v))"

definition msg_cmd_write_eco_sport :: "platform \<Rightarrow> string \<Rightarrow> sm_uart \<Rightarrow> uart_result" where
  "msg_cmd_write_eco_sport pf s =
     (let v = of_int (atoi s) in issue_cmd pf EV_CFG_ECO_SPEED msg_cmd_write_eco_sport_res_cb [v] (sm_ev_set_eco_speed v))"

definition msg_cmd_write_speed_sport :: "platform \<Rightarrow> string \<Rightarrow> sm_uart \<Rightarrow> uart_result" where
  "msg_cmd_write_speed_sport pf s =
     (let v = of_int (atoi s) in issue_cmd pf EV_CFG_SPORT_SPEED msg_cmd_write_speed_sport_res_cb [v] (sm_ev_set_sport_speed v))"

definition msg_idle_state_handler :: "platform \<Rightarrow> string \<Rightarrow> (sm_uart \<Rightarrow> uart_result) list" where
  "msg_idle_state_handler pf s =
     [msg_cmd_read, msg_cmd_write, msg_cmd_write_uv pf s, msg_cmd_write_ibat pf s, msg_cmd_write_eco_sport pf s,
      msg_cmd_write_speed_sport pf s, msg_cmd_exit]"

text \<open>The first name that is equal to the command.\<close>

definition run_command :: "platform \<Rightarrow> string \<times> string \<Rightarrow> sm_uart \<Rightarrow> uart_result" where
  "run_command pf = (\<lambda>(cmd, dat) u.
     case find (\<lambda>(name, _). cmd = name) (zip UART_CMD (msg_idle_state_handler pf dat)) of
       None \<Rightarrow> Inr (u, []) | Some (_, handler) \<Rightarrow> handler u)"

section \<open>Answers\<close>

text \<open>The four callbacks read the value of the command, and write a message or, for the voltage, leave it for the next poll.\<close>

definition read_ptr :: "data_ptr \<Rightarrow> fault + u8 list" where
  "read_ptr p = (case p of Ptr_Null \<Rightarrow> Inl Null_Deref | Ptr_Live v \<Rightarrow> Inr v | Ptr_Dead \<Rightarrow> Inl Dangling)"

definition result_msg :: "cfg_cb \<Rightarrow> int \<Rightarrow> u8 list \<Rightarrow> u8 list \<Rightarrow> uart_msg" where
  "result_msg cb res v w = (if res = 0 then Msg_Result cb True v else if res = - 1 then Msg_Result cb False w else Msg_Empty)"

definition console_answer :: "cfg_cb \<Rightarrow> data_ptr \<Rightarrow> int \<Rightarrow> sm_uart \<Rightarrow> uart_result" where
  "console_answer cb p res u = (case read_ptr p of Inl f \<Rightarrow> Inl f
     | Inr v \<Rightarrow>
         if cb = msg_cmd_write_uv_res_cb
         then let w = result_msg cb res v (uv_protect (sm_ev_config_get_para (m_ev_config u)))
              in Inr (u\<lparr>m_cmd_current := (if w = Msg_Empty then None else Some w)\<rparr>, [])
         else uart_print (result_msg cb res v v) u)"

text \<open>An answer of the CANopen core to a request of the configuration.\<close>

definition on_sdo_answer :: "co_out \<Rightarrow> sm_uart \<Rightarrow> uart_result" where
  "on_sdo_answer a u = (case a of Can_Frame _ \<Rightarrow> Inr (u, [])
     | Answer n st _ _ _ \<Rightarrow>
         if n = CFG_SDO_CB then
           (case sm_bp_co_wrirte_sdo_cb st (m_ev_config u) of None \<Rightarrow> Inr (u, [])
            | Some (cb, p, res) \<Rightarrow> console_answer cb p res u)
         else Inr (u, []))"

section \<open>The periodic step\<close>

definition sm_uart_process :: "platform \<Rightarrow> sm_uart \<Rightarrow> uart_result" where
  "sm_uart_process pf u =
     and_then (case m_cmd_current u of None \<Rightarrow> Inr (u, []) | Some w \<Rightarrow> uart_print w (u\<lparr>m_cmd_current := None\<rparr>)) (\<lambda>u.
       case uart_module_get_data 100 (m_base u) of Inl f \<Rightarrow> Inl f
       | Inr (None, m) \<Rightarrow> Inr (u\<lparr>m_base := m\<rparr>, [])
       | Inr (Some s, m) \<Rightarrow>
           let u = u\<lparr>m_base := m, m_pause_poll := True\<rparr> in
           (case parse_command s of Inl f \<Rightarrow> Inl f
            | Inr r \<Rightarrow> run_command pf (case r of None \<Rightarrow> ([], []) | Some cd \<Rightarrow> cd) u))"

text \<open>\<^verbatim>\<open>apps/pmu/sm_pmu_app.c\<close>: the poll of the main loop, with the counter of the idle message.\<close>

definition sm_pmu_uart_process :: "platform \<Rightarrow> u32 \<times> sm_uart \<Rightarrow> (u32 \<times> sm_uart, uart_msg) result" where
  "sm_pmu_uart_process pf = (\<lambda>(ctr, u).
     let ctr = ctr + 1;
         r = (if 10000 < ctr then sm_pmu_uart_polling_msg u else Inr (u, []));
         ctr = (if 10000 < ctr then 0 else ctr) in
     and_then (and_then r (sm_uart_process pf)) (\<lambda>u. Inr ((ctr, u), [])))"

text \<open>The timer interrupt: a call of \<^verbatim>\<open>sm_co_process\<close> and the answers it gives.\<close>

definition co_tick :: "builders \<Rightarrow> can_frame list \<Rightarrow> confirm \<Rightarrow> sm_uart \<Rightarrow> fault + (sm_uart \<times> uart_msg list \<times> can_frame list)" where
  "co_tick build fs cf u = (case sm_co_process build fs 1 cf (m_co u) of Inl f \<Rightarrow> Inl f
     | Inr (co, out) \<Rightarrow> (case run_all on_sdo_answer out (u\<lparr>m_co := co\<rparr>) of Inl f \<Rightarrow> Inl f
         | Inr (u, msgs) \<Rightarrow> Inr (u, msgs, concat (map (\<lambda>o1. case o1 of Can_Frame f \<Rightarrow> [f] | Answer _ _ _ _ _ \<Rightarrow> []) out))))"

end
