(* ===== verification/Core_Co_Laws.thy ===== *)
theory Core_Co_Laws
  imports Core_Co Sdo_Laws
begin

text \<open>
  The requests to the SDO client are answered in order, each once; and what a request to be run at once does to
  the one that is under way.
\<close>

section \<open>The client reports the end of a transfer from the idle state\<close>

definition ended :: "CO_SDO_return_t \<Rightarrow> bool" where
  "ended st \<longleftrightarrow> st = CO_SDO_RT_success \<or> st = CO_SDO_RT_abort"

lemma ended_simps [simp]:
  "ended CO_SDO_RT_success" "ended CO_SDO_RT_abort" "\<not> ended CO_SDO_RT_busy" "\<not> ended CO_SDO_RT_idle"
  by (simp_all add: ended_def)

text \<open>A handler that ends the transfer has gone to the idle state.\<close>

definition ends_idle :: "client_result \<Rightarrow> bool" where
  "ends_idle r = (case r of Inl _ \<Rightarrow> True
     | Inr (ret, c, _) \<Rightarrow> sdo_valid c \<and> (ended ret \<longrightarrow> sdo_state c = CO_SDO_ST_IDLE) \<and> ret \<noteq> CO_SDO_RT_idle)"

lemma ends_idle_simps [simp]:
  "ends_idle (Inl f)"
  "ends_idle (Inr (ret, c, out)) \<longleftrightarrow> sdo_valid c \<and> (ended ret \<longrightarrow> sdo_state c = CO_SDO_ST_IDLE) \<and> ret \<noteq> CO_SDO_RT_idle"
  by (simp_all add: ends_idle_def)

lemma ends_idle_with_obj: "(\<And>obj. ends_idle (f obj)) \<Longrightarrow> ends_idle (with_obj c f)"
  by (simp add: with_obj_def split: option.split)

lemma ends_idle_abort: "sdo_valid c \<Longrightarrow> ends_idle (client_abort code c)"
  by (simp add: client_abort_def CO_SDO_abort_and_response_def Let_def CO_SDO_abort_def CO_SDOtimeout_reset_and_inactivate_def)

lemma ends_idle_and_msg: "(\<And>c. r = Inr c \<Longrightarrow> ends_idle (f c)) \<Longrightarrow> ends_idle (and_msg r f)"
  by (cases r) (simp_all add: and_msg_def)

lemma to_msg_valid: "to_msg i p j n c = Inr c' \<Longrightarrow> sdo_valid c' = sdo_valid c"
  by (auto simp: to_msg_def split: sum.splits option.splits)

lemma client_store_valid: "client_store i j n c = Inr c' \<Longrightarrow> sdo_valid c' = sdo_valid c"
  by (auto simp: client_store_def with_obj_def split: sum.splits option.splits)

lemmas ends_idle_intros = ends_idle_with_obj ends_idle_abort ends_idle_and_msg

lemma segment_ends_idle: "sdo_valid c \<Longrightarrow> ends_idle (client_segment off c)"
  unfolding client_segment_def
  by (intro ends_idle_with_obj ends_idle_and_msg)
    (auto simp: Let_def CO_SDOtimeout_reset_and_activate_def dest!: to_msg_valid split: if_splits sum.splits)

lemma handle_ends_idle:
  assumes "sdo_valid c" "sdo_state c \<noteq> CO_SDO_ST_IDLE"
  shows "ends_idle (client_handle c)"
proof -
  let ?i = "CO_SDOclient_process_init_transfer_msg c"
  have v: "sdo_valid ?i" using assms(1) by (simp add: CO_SDOclient_process_init_transfer_msg_def)
  have 1: "ends_idle (CO_SDOclient_download_initiate_request_handle c)"
    unfolding CO_SDOclient_download_initiate_request_handle_def Let_def
    by (intro ends_idle_with_obj ends_idle_and_msg)
      (auto simp: v CO_SDOtimeout_reset_and_activate_def dest!: to_msg_valid split: if_splits)
  have 2: "ends_idle (CO_SDOclient_download_initiate_response_handle c)"
    using assms(1) by (simp add: CO_SDOclient_download_initiate_response_handle_def ends_idle_abort segment_ends_idle)
  have 3: "ends_idle (CO_SDOclient_download_segment_handle c)"
    using assms(1) by (simp add: CO_SDOclient_download_segment_handle_def ends_idle_abort segment_ends_idle Let_def)
  have 4: "ends_idle (CO_SDOclient_upload_initiate_request_handle c)"
    using v by (simp add: CO_SDOclient_upload_initiate_request_handle_def Let_def CO_SDOtimeout_reset_and_activate_def)
  have 5: "ends_idle (CO_SDOclient_upload_initiate_response_handle c)"
    using assms(1)
    by (auto simp: CO_SDOclient_upload_initiate_response_handle_def Let_def CO_SDO_abort_def CO_SDOtimeout_reset_and_activate_def
        CO_SDOtimeout_reset_and_inactivate_def dest!: client_store_valid intro!: ends_idle_intros)
  have 6: "ends_idle (CO_SDOclient_upload_segment_handle c)"
    using assms(1)
    by (auto simp: CO_SDOclient_upload_segment_handle_def Let_def CO_SDOtimeout_reset_and_activate_def
        dest!: client_store_valid intro!: ends_idle_intros)
  show ?thesis using assms(2) 1 2 3 4 5 6 by (cases "sdo_state c") (simp_all add: client_handle_def)
qed

text \<open>The client of a node between two calls.\<close>

definition fin_ok :: "sdo_client \<Rightarrow> bool" where
  "fin_ok c \<longleftrightarrow> sdo_valid c \<and> (ended (sdo_status c) \<longrightarrow> sdo_state c = CO_SDO_ST_IDLE)"

lemma client_process_idle:
  "sdo_valid c \<Longrightarrow> sdo_state c = CO_SDO_ST_IDLE \<Longrightarrow> CO_SDOclient_process y dt c = Inr (c, [])"
  by (simp add: CO_SDOclient_process_def CO_SDOclient_step_def)

lemma client_process_fin:
  assumes "fin_ok c" "CO_SDOclient_process y dt c = Inr (c', out)"
  shows "fin_ok c'"
proof (cases "sdo_state c = CO_SDO_ST_IDLE")
  case True
  then show ?thesis using assms client_process_idle [of c y dt] by (simp add: fin_ok_def)
next
  case False
  have v: "sdo_valid c" using assms(1) by (simp add: fin_ok_def)
  have "ends_idle (CO_SDOclient_step y dt c)"
  proof -
    define s where "s = (if CO_SDOtimeout_is_activated c then CO_SDOtimeout_increase dt c else c)"
    have s: "sdo_valid s" "sdo_state s \<noteq> CO_SDO_ST_IDLE" using v False by (simp_all add: s_def CO_SDOtimeout_increase_def)
    define t where "t = (if rx_new s then CO_SDOtimeout_reset_and_inactivate s else s)"
    have "sdo_valid t" "sdo_state t \<noteq> CO_SDO_ST_IDLE" using s by (simp_all add: t_def CO_SDOtimeout_reset_and_inactivate_def)
    then have h: "ends_idle (client_handle t)" "sdo_valid t" by (simp_all add: handle_ends_idle)
    then have "ends_idle (case client_handle t of Inl f \<Rightarrow> Inl f | Inr (ret, s, out) \<Rightarrow> Inr (ret, s\<lparr>rx_new := False\<rparr>, out))"
      by (auto simp: ends_idle_def split: sum.splits)
    moreover have "sdo_valid (CO_SDOtimeout_increase dt c)" "sdo_valid (CO_SDO_abort a u) = sdo_valid u"
        "sdo_state (CO_SDO_abort a u) = CO_SDO_ST_IDLE" for a and u :: sdo_client
      using v by (simp_all add: CO_SDOtimeout_increase_def CO_SDO_abort_def CO_SDOtimeout_reset_and_inactivate_def)
    moreover have "sdo_valid (CO_SDOtimeout_reset_and_inactivate s)"
      using s by (simp add: CO_SDOtimeout_reset_and_inactivate_def)
    ultimately show ?thesis
      using v False s(1)
      by (cases "rx_new s") (simp_all add: CO_SDOclient_step_def Let_def t_def flip: s_def)
  qed
  then show ?thesis using assms(2)
    by (auto simp: CO_SDOclient_process_def ends_idle_def fin_ok_def split: sum.splits if_splits)
qed

lemma CO_process_client:
  assumes "CO_process build dt cf n = Inr (n', out)"
  shows "co_client n' = co_client n \<or> (\<exists>y o1. CO_SDOclient_process y dt (co_client n) = Inr (co_client n', o1))"
  using assms
  by (auto simp: CO_process_def and_then_def co_sync_step_def co_server_step_def co_client_step_def CO_process_tpdo_def
      split: if_splits sum.splits prod.splits)

lemma CO_process_fin:
  assumes "CO_process build dt cf n = Inr (n', out)" "fin_ok (co_client n)"
  shows "fin_ok (co_client n')" "sdo_state (co_client n) = CO_SDO_ST_IDLE \<Longrightarrow> co_client n' = co_client n"
proof -
  from CO_process_client [OF assms(1)]
  consider "co_client n' = co_client n" | y o1 where "CO_SDOclient_process y dt (co_client n) = Inr (co_client n', o1)" by blast
  then show "fin_ok (co_client n')" by cases (use assms(2) client_process_fin in simp_all)
  from CO_process_client [OF assms(1)]
  consider "co_client n' = co_client n" | y o1 where "CO_SDOclient_process y dt (co_client n) = Inr (co_client n', o1)" by blast
  then show "co_client n' = co_client n" if "sdo_state (co_client n) = CO_SDO_ST_IDLE"
  proof cases
    case 2
    then show ?thesis using client_process_idle [of "co_client n" y dt] assms(2) that by (simp add: fin_ok_def)
  qed simp
qed

lemma receive_client:
  "co_client (fst (CO_can_receive_basic_handle f n)) = co_client n
   \<or> co_client (fst (CO_can_receive_basic_handle f n)) = client_receive f (co_client n)"
  by (cases f) (simp add: CO_can_receive_basic_handle_def)

lemma client_receive_fields:
  "sdo_valid (client_receive g c) = sdo_valid c" "sdo_state (client_receive g c) = sdo_state c"
  "sdo_status (client_receive g c) = sdo_status c"
  by (simp_all add: client_receive_def split: prod.splits)

section \<open>Runs of the component\<close>

text \<open>The requests that are under way and that wait, in the order in which they will be answered.\<close>

definition in_flight :: "sm_co \<Rightarrow> sdo_request list" where
  "in_flight s = (if sdo_process s then [sub_obj s] else [])"

definition pending :: "sm_co \<Rightarrow> sdo_request list" where
  "pending s = in_flight s @ fifo_items (sdo_queue s)"

definition co_inv :: "sm_co \<Rightarrow> bool" where
  "co_inv s \<longleftrightarrow> fifo_ok (sdo_queue s) \<and> \<not> is_sdo_now s \<and> fin_ok (co_client (parent s))
     \<and> (sdo_process s \<and> sdo_st s = SDO_END_REQUEST \<longrightarrow>
          ended (sdo_status (co_client (parent s))) \<and> sdo_state (co_client (parent s)) = CO_SDO_ST_IDLE)"

text \<open>What a callback is told apart by, and the answers among the outputs.\<close>

definition req_key :: "sdo_request \<Rightarrow> (nat \<times> nat) list" where
  "req_key r = (case rq_cb r of None \<Rightarrow> [] | Some cb \<Rightarrow> [(cb, rq_arg r)])"

definition keys :: "sdo_request list \<Rightarrow> (nat \<times> nat) list" where
  "keys rs = concat (map req_key rs)"

definition answers :: "co_out list \<Rightarrow> (nat \<times> nat) list" where
  "answers os = concat (map (\<lambda>o1. case o1 of Can_Frame _ \<Rightarrow> [] | Answer cb _ _ _ arg \<Rightarrow> [(cb, arg)]) os)"

definition answers_ended :: "co_out list \<Rightarrow> bool" where
  "answers_ended os \<longleftrightarrow> list_all (\<lambda>o1. case o1 of Can_Frame _ \<Rightarrow> True | Answer _ st _ _ _ \<Rightarrow> ended st) os"

lemma keys_append [simp]: "keys (xs @ ys) = keys xs @ keys ys" "keys [] = []" "keys (r # rs) = req_key r @ keys rs"
  by (simp_all add: keys_def)

lemma answers_append [simp]: "answers (xs @ ys) = answers xs @ answers ys" "answers [] = []" "answers (map Can_Frame fs) = []"
  by (simp_all add: answers_def comp_def)

lemma answers_ended_append [simp]:
  "answers_ended (xs @ ys) \<longleftrightarrow> answers_ended xs \<and> answers_ended ys" "answers_ended []" "answers_ended (map Can_Frame fs)"
  by (simp_all add: answers_ended_def list.pred_map comp_def list.pred_True)

lemma answer_of_key: "answers (answer_of r c) = req_key r" "ended (sdo_status c) \<Longrightarrow> answers_ended (answer_of r c)"
  by (simp_all add: answer_of_def answers_def req_key_def answers_ended_def split: option.split)

lemma start_request_fields:
  "sdo_valid (start_request r c) = sdo_valid c" "sdo_status (start_request r c) = CO_SDO_RT_busy"
  by (simp_all add: start_request_def CO_SDOclient_start_upload_def CO_SDOclient_start_download_def client_start_def)

lemma SDO_process_keeps:
  assumes "co_inv s" "sm_co_SDO_process s = Inr (s', out)"
  shows "co_inv s' \<and> answers_ended out \<and> answers out @ keys (pending s') = keys (pending s)"
proof (cases "sdo_process s")
  case False
  have q: "fifo_ok (sdo_queue s)" "\<not> is_sdo_now s" using assms(1) by (simp_all add: co_inv_def)
  note t = take_spec [OF q(1)]
  show ?thesis
  proof (cases "fifo_items (sdo_queue s)")
    case Nil
    then have "sm_fifo_pop (sdo_queue s) = Inr (None, sdo_queue s)" using t pop_spec [OF q(1)] by simp
    then show ?thesis using assms False q by (simp add: sm_co_SDO_process_def sm_sdo_pop_def)
  next
    case (Cons r rs)
    then obtain f' where f': "sm_fifo_pop (sdo_queue s) = Inr (Some r, f')" "fifo_ok f'" "fifo_items f' = rs"
      using t pop_spec [OF q(1)] by auto
    have "s' = s\<lparr>sdo_queue := f', sub_obj := r, sdo_process := True, sdo_st := SDO_SEND_REQUEST\<rparr>" "out = []"
      using assms(2) False q(2) f'(1) by (simp_all add: sm_co_SDO_process_def sm_sdo_pop_def)
    then show ?thesis using assms(1) f' Cons False by (simp add: co_inv_def pending_def in_flight_def)
  qed
next
  case True
  show ?thesis
  proof (cases "sdo_st s")
    case SDO_SEND_REQUEST
    then show ?thesis using assms True
      by (auto simp: sm_co_SDO_process_def co_inv_def pending_def in_flight_def on_client_def start_request_fields fin_ok_def
          CO_SDO_reset_status_def)
  next
    case SDO_WAIT_RESULT
    then show ?thesis using assms True
      by (auto simp: sm_co_SDO_process_def co_inv_def pending_def in_flight_def fin_ok_def split: if_splits)
  next
    case SDO_END_REQUEST
    have e: "ended (sdo_status (co_client (parent s)))" "\<not> is_sdo_now s" using assms(1) True SDO_END_REQUEST by (simp_all add: co_inv_def)
    have out: "out = answer_of (sub_obj s) (co_client (parent s))"
      "s' = (on_client CO_SDO_reset_status s)\<lparr>sdo_process := False, is_sdo_now := False\<rparr>"
      using assms(2) True SDO_END_REQUEST e(2) by (simp_all add: sm_co_SDO_process_def p_sdo_def)
    have "keys (pending s) = req_key (sub_obj s) @ keys (pending s')"
      using True by (simp add: out(2) pending_def in_flight_def on_client_def)
    moreover have "co_inv s'" using assms(1) by (simp add: out(2) co_inv_def on_client_def CO_SDO_reset_status_def fin_ok_def)
    ultimately show ?thesis using e(1) by (simp add: out(1) answer_of_key)
  qed
qed

text \<open>The frames that arrive and the run of the node do not touch the requests.\<close>

lemma recv_keeps:
  assumes "co_inv s"
  shows "co_inv (sm_co_can_if_recv_impl f s)" "pending (sm_co_can_if_recv_impl f s) = pending s"
  using assms receive_client [of f "parent s"]
  by (auto simp: sm_co_can_if_recv_impl_def co_inv_def pending_def in_flight_def fin_ok_def client_receive_fields)

lemma recv_all_keeps:
  "co_inv s \<Longrightarrow> co_inv (fold sm_co_can_if_recv_impl fs s) \<and> pending (fold sm_co_can_if_recv_impl fs s) = pending s"
  by (induction fs arbitrary: s) (auto simp: recv_keeps)

lemma node_step_keeps:
  assumes "co_inv s" "co_node_step build dt cf s = Inr (s', out)"
  shows "co_inv s' \<and> pending s' = pending s \<and> answers out = [] \<and> answers_ended out"
proof -
  obtain n' fs where n': "CO_process build (dt mod 65536) cf (parent s) = Inr (n', fs)" "s' = s\<lparr>parent := n'\<rparr>" "out = map Can_Frame fs"
    using assms(2) by (auto simp: co_node_step_def split: sum.splits prod.splits)
  have "fin_ok (co_client (parent s))" using assms(1) by (simp add: co_inv_def)
  note f = CO_process_fin [OF n'(1) this]
  show ?thesis using assms(1) f n'(2,3) by (auto simp: co_inv_def pending_def in_flight_def)
qed

lemma process_keeps:
  assumes "co_inv s" "sm_co_process build fs dt cf s = Inr (s', out)"
  shows "co_inv s' \<and> answers_ended out \<and> answers out @ keys (pending s') = keys (pending s)"
proof -
  let ?s = "fold sm_co_can_if_recv_impl fs s"
  have r: "co_inv ?s" "pending ?s = pending s" using recv_all_keeps [OF assms(1)] by simp_all
  obtain s1 o1 o2 where s1: "co_node_step build dt cf ?s = Inr (s1, o1)" "sm_co_SDO_process s1 = Inr (s', o2)" "out = o1 @ o2"
    using assms(2) by (auto simp: sm_co_process_def and_then_def split: sum.splits prod.splits)
  show ?thesis using node_step_keeps [OF r(1) s1(1)] SDO_process_keeps [of s1, OF _ s1(2)] r(2) s1(3) by simp
qed

text \<open>
  The events: a request is offered to the queue, or the periodic function is called. A run returns the outputs and the
  requests that were accepted, both in order.
\<close>

datatype co_event = Offer sdo_request | Call "can_frame list" nat confirm

fun co_run :: "builders \<Rightarrow> co_event list \<Rightarrow> sm_co \<Rightarrow> fault + (sm_co \<times> co_out list \<times> sdo_request list)" where
  "co_run build [] s = Inr (s, [], [])"
| "co_run build (Offer r # es) s =
     (case sm_sdo_push r s of Inl f \<Rightarrow> Inl f
      | Inr (ok, s) \<Rightarrow> (case co_run build es s of Inl f \<Rightarrow> Inl f
          | Inr (s, out, acc) \<Rightarrow> Inr (s, out, if ok then r # acc else acc)))"
| "co_run build (Call fs dt cf # es) s =
     (case sm_co_process build fs dt cf s of Inl f \<Rightarrow> Inl f
      | Inr (s, o1) \<Rightarrow> (case co_run build es s of Inl f \<Rightarrow> Inl f | Inr (s, out, acc) \<Rightarrow> Inr (s, o1 @ out, acc)))"

lemma push_keeps:
  assumes "co_inv s" "sm_sdo_push r s = Inr (ok, s')"
  shows "co_inv s' \<and> pending s' = pending s @ (if ok then [r] else [])"
  using push_spec [of "sdo_queue s" r] assms
  by (auto simp: sm_sdo_push_def co_inv_def pending_def in_flight_def split: if_splits sum.splits)

text \<open>C4.
  Whatever frames arrive, however the node runs and whatever requests are offered to the queue (but none to be run
  at once), the answers given so far followed by the requests under way and waiting are exactly the requests that were
  under way, waiting or accepted, in that order: none is lost, none answered twice, none overtakes another. An answer
  always reports success or abort.\<close>

theorem requests_answered_in_order:
  assumes "co_inv s" "co_run build es s = Inr (s', out, acc)"
  shows "answers out @ keys (pending s') = keys (pending s) @ keys acc \<and> answers_ended out \<and> co_inv s'"
  using assms
proof (induction es arbitrary: s out acc)
  case (Cons e es)
  show ?case
  proof (cases e)
    case (Offer r)
    then obtain ok s1 acc1 where s1: "sm_sdo_push r s = Inr (ok, s1)" "co_run build es s1 = Inr (s', out, acc1)"
        "acc = (if ok then r # acc1 else acc1)"
      using Cons.prems(2) by (auto split: sum.splits prod.splits)
    have p: "co_inv s1" "pending s1 = pending s @ (if ok then [r] else [])" using push_keeps [OF Cons.prems(1) s1(1)] by simp_all
    show ?thesis using Cons.IH [OF p(1) s1(2)] p(2) s1(3) by (cases ok) simp_all
  next
    case (Call fs dt cf)
    then obtain s1 o1 o2 where s1: "sm_co_process build fs dt cf s = Inr (s1, o1)" "co_run build es s1 = Inr (s', o2, acc)" "out = o1 @ o2"
      using Cons.prems(2) by (auto split: sum.splits prod.splits)
    have p: "co_inv s1" "answers_ended o1" "answers o1 @ keys (pending s1) = keys (pending s)"
      using process_keeps [OF Cons.prems(1) s1(1)] by simp_all
    show ?thesis using Cons.IH [OF p(1) s1(2)] p(2,3) s1(3)
      by (metis answers_append(1) answers_ended_append(1) append.assoc append_same_eq)
  qed
qed simp

text \<open>
  A request to be run at once that is made while a queued transfer waits for its result takes the place of the queued
  request: when the transfer ends, its status and abort codes go to the callback of the new request, the new request is
  dropped without ever having been started, and the callback of the queued one is never called.\<close>

theorem request_now_takes_the_answer:
  assumes "sdo_process s" "sdo_st s = SDO_WAIT_RESULT" "\<not> is_sdo_now s" "ended (sdo_status (co_client (parent s)))"
    and "sm_co_sdo_client_send_now idx sub node buf len tmo (Some cb) arg s = (True, s1)"
  shows "\<exists>s2 s3. sm_co_SDO_process s1 = Inr (s2, [])
    \<and> sm_co_SDO_process s2 = Inr (s3, [Answer cb (sdo_status (co_client (parent s))) (tx_abort_code (co_client (parent s)))
         (rx_abort_code (co_client (parent s))) arg])
    \<and> \<not> sdo_process s3 \<and> \<not> is_sdo_now s3 \<and> sdo_queue s3 = sdo_queue s
    \<and> co_client (parent s3) = (co_client (parent s))\<lparr>sdo_status := CO_SDO_RT_idle\<rparr>"
proof -
  have s1: "s1 = s\<lparr>sdo_now := mk_request SM_SDO_W ODA_SDO_RW idx sub node buf len tmo (Some cb) arg, is_sdo_now := True\<rparr>"
    using assms(3,5) by (simp add: sm_co_sdo_client_send_now_def request_now_def)
  have 2: "sm_co_SDO_process s1 = Inr (s1\<lparr>sdo_st := SDO_END_REQUEST\<rparr>, [])"
    using assms(1,2,4) by (simp add: sm_co_SDO_process_def s1 ended_def)
  let ?s3 = "(on_client CO_SDO_reset_status (s1\<lparr>sdo_st := SDO_END_REQUEST\<rparr>))\<lparr>sdo_process := False, is_sdo_now := False\<rparr>"
  have 3: "sm_co_SDO_process (s1\<lparr>sdo_st := SDO_END_REQUEST\<rparr>) = Inr (?s3, [Answer cb (sdo_status (co_client (parent s)))
      (tx_abort_code (co_client (parent s))) (rx_abort_code (co_client (parent s))) arg])"
    using assms(1) by (simp add: sm_co_SDO_process_def s1 p_sdo_def answer_of_def mk_request_def)
  have "sdo_queue ?s3 = sdo_queue s" "co_client (parent ?s3) = (co_client (parent s))\<lparr>sdo_status := CO_SDO_RT_idle\<rparr>"
    by (simp_all add: s1 on_client_def CO_SDO_reset_status_def)
  then show ?thesis using 2 3 by (intro exI [of _ "s1\<lparr>sdo_st := SDO_END_REQUEST\<rparr>"] exI [of _ ?s3]) simp
qed

text \<open>An instance: one request queued, and the same one sent at once while the first is under way.\<close>

definition example_request :: "nat \<Rightarrow> sdo_request" where
  "example_request cb = mk_request SM_SDO_W ODA_SDO_W 0x2180 3 2 (Some [30]) 1 1000 (Some cb) 0"

definition example_node :: "CO" where
  "example_node = \<lparr>co_sync = example_sync\<lparr>sync_id_valid := False\<rparr>, co_server = example_server, co_client = example_client, co_tpdos = []\<rparr>"

definition example_co :: "sm_co" where
  "example_co = \<lparr>parent = example_node, sdo_queue = sm_fifo_init True (example_request 0) 10 44, sub_obj = example_request 0,
     sdo_now = example_request 0, is_sdo_now = False, sdo_process = False, sdo_st = SDO_SEND_REQUEST\<rparr>"

lemma example_co_inv: "co_inv example_co" "pending example_co = []"
  using fifo_init_ok [of 10 44 "example_request 0"]
  by (simp_all add: co_inv_def example_co_def fin_ok_def example_node_def example_client_def pending_def in_flight_def)

theorem requests_answered_in_order_witness:
  "\<exists>s' out acc. co_run (\<lambda>_ d. d) [Offer (example_request 7), Call [] 1 (CO_EXT_CONFIRM_success, 0), Offer (example_request 8)] example_co
      = Inr (s', out, acc)
    \<and> answers out @ keys (pending s') = [(7, 0), (8, 0)]"
proof -
  have q: "sm_fifo_push r (sm_fifo_init True z 10 44) = Inr (True, (sm_fifo_init True z 10 44)
      \<lparr>fifo_buff := Mem ((replicate 11 z)[0 := r]), fifo_head := 1, fifo_count := 1\<rparr>)" for r z :: sdo_request
    by (simp add: sm_fifo_push_def sm_fifo_init_def fifo_write_def)
  have "\<exists>s' out. co_run (\<lambda>_ d. d) [Offer (example_request 7), Call [] 1 (CO_EXT_CONFIRM_success, 0), Offer (example_request 8)] example_co
      = Inr (s', out, [example_request 7, example_request 8])"
    by (simp add: example_co_def sm_sdo_push_def q sm_co_process_def co_node_step_def CO_process_def example_node_def example_sync_def
        co_sync_step_def CO_SYNC_process_def co_server_step_def CO_SDOserver_process_def CO_SDOserver_step_def example_server_def
        CO_SDOtimeout_is_activated_def co_client_step_def client_process_idle example_client_def CO_process_tpdo_def
        sm_co_SDO_process_def sm_sdo_pop_def sm_fifo_pop_def fifo_take_def fifo_read_def sm_fifo_init_def sm_fifo_push_def fifo_write_def)
  then obtain s' out where r: "co_run (\<lambda>_ d. d) [Offer (example_request 7), Call [] 1 (CO_EXT_CONFIRM_success, 0), Offer (example_request 8)] example_co
      = Inr (s', out, [example_request 7, example_request 8])" by blast
  have "answers out @ keys (pending s') = keys (pending example_co) @ keys [example_request 7, example_request 8]"
    using requests_answered_in_order [OF example_co_inv(1) r] by simp
  then show ?thesis using r example_co_inv(2) by (simp add: req_key_def example_request_def mk_request_def)
qed

theorem request_now_takes_the_answer_witness:
  "\<exists>s1 s2 s3. sm_co_sdo_client_send_now 0x2180 5 2 (Some [1]) 1 1000 (Some 9) 0
       (example_co\<lparr>sub_obj := example_request 7, sdo_process := True, sdo_st := SDO_WAIT_RESULT,
          parent := example_node\<lparr>co_client := example_client\<lparr>sdo_status := CO_SDO_RT_abort, tx_abort_code := CO_SDO_AB_TIMEOUT\<rparr>\<rparr>\<rparr>) = (True, s1)
     \<and> sm_co_SDO_process s1 = Inr (s2, []) \<and> sm_co_SDO_process s2 = Inr (s3, [Answer 9 CO_SDO_RT_abort CO_SDO_AB_TIMEOUT 0 0])"
proof -
  let ?s = "example_co\<lparr>sub_obj := example_request 7, sdo_process := True, sdo_st := SDO_WAIT_RESULT,
          parent := example_node\<lparr>co_client := example_client\<lparr>sdo_status := CO_SDO_RT_abort, tx_abort_code := CO_SDO_AB_TIMEOUT\<rparr>\<rparr>\<rparr>"
  obtain s1 where s1: "sm_co_sdo_client_send_now 0x2180 5 2 (Some [1]) 1 1000 (Some 9) 0 ?s = (True, s1)"
    by (simp add: sm_co_sdo_client_send_now_def request_now_def example_co_def)
  from request_now_takes_the_answer [OF _ _ _ _ s1] show ?thesis using s1
    by (fastforce simp: example_co_def example_node_def example_client_def)
qed

end
