(* ===== verification/Sdo_Upload_Laws.thy ===== *)
theory Sdo_Upload_Laws
  imports Sdo_Laws
begin

text \<open>
  Reading an object: the buffer of the client becomes what the object of the server holds.
\<close>

section \<open>The states of a segmented upload\<close>

definition server_up :: "sdo_server \<Rightarrow> nat \<times> nat \<Rightarrow> nat \<Rightarrow> nat \<Rightarrow> u8 \<Rightarrow> sdo_server \<Rightarrow> bool" where
  "server_up s0 k n off tog s \<longleftrightarrow> server_const s0 s \<and> timeout_cter_ms s = 1 \<and> \<not> rx_new s
     \<and> \<not> is_internal_processing s \<and> sdo_state s = CO_SDO_ST_UPLOAD_SEGMENTED \<and> srv_sub_obj s = Some k
     \<and> trans_data_len s = n \<and> buffer_offset s = off \<and> sdo_toggle s = tog \<and> srv_od s = srv_od s0"

definition server_fin :: "sdo_server \<Rightarrow> sdo_server \<Rightarrow> bool" where
  "server_fin s0 s \<longleftrightarrow> server_const s0 s \<and> timeout_cter_ms s = 0 \<and> \<not> rx_new s \<and> \<not> is_internal_processing s
     \<and> sdo_state s = CO_SDO_ST_IDLE \<and> srv_od s = srv_od s0"

lemma server_fin_idle: "server_fin s0 s \<Longrightarrow> server_idle s"
  by (simp add: server_fin_def server_idle_def server_const_def)

text \<open>A message with the bytes of the data from \<open>off\<close> on.\<close>

definition seg_msg :: "u8 list \<Rightarrow> nat \<Rightarrow> nat \<Rightarrow> u8 \<Rightarrow> u8 list \<Rightarrow> bool" where
  "seg_msg d n off tog m \<longleftrightarrow> length m = 8 \<and> spec_of (m ! 0) = 0 \<and> m ! 0 AND 0x10 = tog
     \<and> m ! 0 AND 1 = (if n \<le> off + 7 then 1 else 0)
     \<and> take (min 7 (n - off)) (drop 1 m) = take (min 7 (n - off)) (drop off d)"

text \<open>The client holds the segment at \<open>off\<close> and has stored the ones before.\<close>

definition client_got :: "sdo_client \<Rightarrow> CO_Sub_Object \<Rightarrow> u8 list \<Rightarrow> u8 list \<Rightarrow> nat \<Rightarrow> nat \<Rightarrow> u8 \<Rightarrow> sdo_client \<Rightarrow> bool" where
  "client_got c0 obj d buf n off tog c \<longleftrightarrow> client_const c0 c \<and> rx_new c \<and> timeout_cter_ms c = 1
     \<and> \<not> is_internal_processing c \<and> sdo_state c = CO_SDO_ST_UPLOAD_SEGMENTED
     \<and> cli_sub_obj c = Some (obj\<lparr>p_data := Some (take off d @ drop off buf)\<rparr>) \<and> trans_data_len c = n
     \<and> buffer_offset c = off \<and> sdo_toggle c = tog \<and> seg_msg d n off tog (rx_data c)"

lemma server_gives_segment:
  assumes s: "server_up s0 k n off tog s" and obj: "p_data (sub_at (srv_od s0) k) = Some d"
    and msg: "spec_of (msg ! 0) = 3" "msg ! 0 AND 0x10 = tog"
    and n: "off < n" "n \<le> length d" "n < 65536" and tog: "tog = 0 \<or> tog = 0x10"
    and time: "dt < allowed_timeout_ms s0" "allowed_timeout_ms s0 < 65536"
  shows "\<exists>s' rsp. CO_SDOserver_process dt cf (server_receive (0x600 + rx_node s0, msg) s)
        = Inr (s', [(0x580 + tx_node s0, rsp)]) \<and> seg_msg d n off tog rsp
      \<and> (if n \<le> off + 7 then server_fin s0 s' else server_up s0 k n (off + 7) (tog XOR 0x10) s')"
proof -
  let ?s' = "server_receive (0x600 + rx_node s0, msg) s"
  have rx: "?s' = s\<lparr>rx_data := msg, rx_new := True\<rparr>"
    using s by (simp add: server_receive_def server_const_def server_up_def)
  have len: "length (tx_data s) = 8" using s by (simp add: server_up_def server_const_def)
  obtain b bs where tx: "tx_data s = b # bs" "length bs = 7" using len by (cases "tx_data s") auto
  have pm: "CO_SDOserver_process dt cf ?s' =
      Inr (t\<lparr>rx_new := False, sdo_status := (if sdo_state t = CO_SDO_ST_IDLE then CO_SDO_RT_idle else ret)\<rparr>, out)"
    if "server_handle cf (?s'\<lparr>timeout_cter_ms := 0\<rparr>) = Inr (ret, t, out)" for ret t out
  proof -
    have "server_const s0 ?s'" "rx_new ?s'" "timeout_cter_ms ?s' = 1" "spec_of (rx_cs ?s') \<noteq> 4" "sdo_state ?s' \<noteq> CO_SDO_ST_IDLE"
      using s msg(1) rx by (simp_all add: server_const_def rx_cs_def server_up_def)
    then show ?thesis using that time server_process_msg by blast
  qed
  show ?thesis
  proof (cases "n \<le> off + 7")
    case True
    define m where "m = n - off"
    have m: "0 < m" "m \<le> 7" "(n + 65536 - off) mod 256 = m" "min 7 (n - off) = m"
    proof -
      show "0 < m" "m \<le> 7" "min 7 (n - off) = m" using n True by (simp_all add: m_def)
      have "n + 65536 - off = m + 256 * 256" using n by (simp add: m_def)
      then show "(n + 65536 - off) mod 256 = m" using \<open>m \<le> 7\<close> by (simp only: mod_mult_self2) simp
    qed
    let ?rsp = "last_cs 0 tog m # take m (drop off d) @ drop m bs"
    have cp: "CO_memcpy (Some (b # bs)) 1 (Some d) off m = Inr (Some (b # take m (drop off d) @ drop m bs))"
      using CO_memcpy_ok [of 1 m "b # bs" off d] m n tx(2) by (simp add: m_def)
    have "\<exists>t. server_handle cf (?s'\<lparr>timeout_cter_ms := 0\<rparr>) = Inr (CO_SDO_RT_success, t, [(0x580 + tx_node s0, ?rsp)])
       \<and> server_fin s0 (t\<lparr>rx_new := False\<rparr>)"
      using s rx True msg cp m obj tx n
      by (simp add: server_up_def server_handle_def CO_SDOserver_upload_segment_handle_def rx_cs_def on_obj_def to_msg_def
          and_srv_def server_send_def CO_CAN_send_def Let_def server_fin_def server_const_def)
    moreover have "seg_msg d n off tog ?rsp"
      using True m tog tx(2) n by (simp add: seg_msg_def cs_simps m_def)
    ultimately show ?thesis using pm True by (fastforce simp: server_fin_def server_const_def)
  next
    case False
    then have m: "(off + 7) mod 65536 = off + 7" "min 7 (n - off) = 7" using n by simp_all
    let ?rsp = "(cs_of 0 OR tog) # take 7 (drop off d) @ drop 7 bs"
    have cp: "CO_memcpy (Some (b # bs)) 1 (Some d) off 7 = Inr (Some (b # take 7 (drop off d) @ drop 7 bs))"
      using CO_memcpy_ok [of 1 7 "b # bs" off d] False n tx(2) by simp
    have "\<exists>t. server_handle cf (?s'\<lparr>timeout_cter_ms := 0\<rparr>) = Inr (CO_SDO_RT_busy, t, [(0x580 + tx_node s0, ?rsp)])
       \<and> server_up s0 k n (off + 7) (tog XOR 0x10) (t\<lparr>rx_new := False\<rparr>)"
      using s rx False msg cp m obj tx n
      by (simp add: server_up_def server_handle_def CO_SDOserver_upload_segment_handle_def rx_cs_def on_obj_def to_msg_def
          and_srv_def server_send_def CO_CAN_send_def Let_def server_const_def CO_SDOtimeout_reset_and_activate_def)
    moreover have "seg_msg d n off tog ?rsp" using False m tog tx(2) n by (simp add: seg_msg_def cs_simps)
    ultimately show ?thesis using pm False by (fastforce simp: server_up_def server_const_def)
  qed
qed

section \<open>The client stores a segment\<close>

lemma store_chunk:
  assumes "length m = 8" "take j (drop 1 m) = take j (drop off d)" "j \<le> 7" "off + j \<le> length d" "off + j \<le> length buf"
  shows "CO_memcpy (Some (take off d @ drop off buf)) off (Some m) 1 j = Inr (Some (take (off + j) d @ drop (off + j) buf))"
proof -
  let ?xs = "take off d @ drop off buf"
  have "length ?xs = length buf" using assms by simp
  then have "CO_memcpy (Some ?xs) off (Some m) 1 j = Inr (Some (take off ?xs @ take j (drop 1 m) @ drop (off + j) ?xs))"
    by (intro CO_memcpy_ok) (use assms in linarith)+
  then show ?thesis by (simp only: assms(2) chunk_step [OF assms(4,5)])
qed

lemma client_got_last:
  assumes "client_got c0 obj d buf n off tog c" "n \<le> off + 7" "off < n" "n \<le> length d" "n \<le> length buf" "n < 65536"
  shows "client_last c0 (obj\<lparr>p_data := Some (take n d @ drop n buf)\<rparr>) c"
proof -
  have c: "client_const c0 c" "rx_new c" "timeout_cter_ms c = 1" "sdo_state c = CO_SDO_ST_UPLOAD_SEGMENTED"
      "cli_sub_obj c = Some (obj\<lparr>p_data := Some (take off d @ drop off buf)\<rparr>)" "trans_data_len c = n"
      "buffer_offset c = off" "sdo_toggle c = tog" "seg_msg d n off tog (rx_data c)"
    using assms(1) by (simp_all add: client_got_def)
  have n: "min 7 (n - off) = n - off" "off + (n - off) = n" "(n + 65536 - off) mod 65536 = n - off"
    using assms sub_u16 [of off n] by simp_all
  have cp: "CO_memcpy (Some (take off d @ drop off buf)) off (Some (rx_data c)) 1 (n - off) = Inr (Some (take n d @ drop n buf))"
    using store_chunk [of "rx_data c" "n - off" off d buf] c(9) assms n by (simp add: seg_msg_def)
  show ?thesis
    unfolding client_last_def
    by (intro conjI exI [of _ "c\<lparr>timeout_cter_ms := 0, sdo_toggle := tog XOR 0x10, buffer_offset := n,
          cli_sub_obj := Some (obj\<lparr>p_data := Some (take n d @ drop n buf)\<rparr>)\<rparr>"])
      (use c cp n assms(2) in \<open>simp_all add: seg_msg_def rx_cs_def client_const_def client_handle_def Let_def
        CO_SDOclient_upload_segment_handle_def client_store_def with_obj_def of_msg_def and_msg_def\<close>)
qed

lemma client_asks_next:
  assumes "client_got c0 obj d buf n off tog c" "off + 7 < n" "n \<le> length d" "n \<le> length buf" "n < 65536" "tog = 0 \<or> tog = 0x10"
    and time: "CO_SDOclient_is_in_sync_window_len y c0" "dt < allowed_timeout_ms c0" "allowed_timeout_ms c0 < 65536"
  shows "\<exists>c' m. CO_SDOclient_process y dt c = Inr (c', [(0x600 + tx_node c0, m)])
    \<and> spec_of (m ! 0) = 3 \<and> m ! 0 AND 0x10 = tog XOR 0x10
    \<and> (\<forall>rsp. seg_msg d n (off + 7) (tog XOR 0x10) rsp \<longrightarrow>
         client_got c0 obj d buf n (off + 7) (tog XOR 0x10) (client_receive (0x580 + rx_node c0, rsp) c'))"
proof -
  have c: "client_const c0 c" "rx_new c" "timeout_cter_ms c = 1" "sdo_state c = CO_SDO_ST_UPLOAD_SEGMENTED"
      "cli_sub_obj c = Some (obj\<lparr>p_data := Some (take off d @ drop off buf)\<rparr>)" "trans_data_len c = n"
      "buffer_offset c = off" "sdo_toggle c = tog" "seg_msg d n off tog (rx_data c)" "\<not> is_internal_processing c"
    using assms(1) by (simp_all add: client_got_def)
  have n: "min 7 (n - off) = 7" "(off + 7) mod 65536 = off + 7" using assms by simp_all
  have cp: "CO_memcpy (Some (take off d @ drop off buf)) off (Some (rx_data c)) 1 7 = Inr (Some (take (off + 7) d @ drop (off + 7) buf))"
    by (rule store_chunk) (use c(9) assms(2,3,4) n in \<open>simp_all add: seg_msg_def\<close>)
  let ?t = "tog XOR 0x10"
  let ?c = "c\<lparr>timeout_cter_ms := 1, sdo_toggle := ?t, buffer_offset := off + 7,
      cli_sub_obj := Some (obj\<lparr>p_data := Some (take (off + 7) d @ drop (off + 7) buf)\<rparr>),
      tx_data := (tx_data c)[0 := cs_of 3 OR ?t]\<rparr>"
  have "client_handle (c\<lparr>timeout_cter_ms := 0\<rparr>) = Inr (CO_SDO_RT_busy, ?c, [(0x600 + tx_node c0, tx_data ?c)])"
    using c cp n assms(2)
    by (simp add: seg_msg_def rx_cs_def client_const_def client_handle_def Let_def
        CO_SDOclient_upload_segment_handle_def client_store_def with_obj_def of_msg_def and_msg_def
        CO_SDOtimeout_reset_and_activate_def client_send_def CO_CAN_send_def)
  then have p: "CO_SDOclient_process y dt c =
      Inr (?c\<lparr>rx_new := False, sdo_status := CO_SDO_RT_busy\<rparr>, [(0x600 + tx_node c0, tx_data ?c)])"
    by (intro client_process_msg [OF c(1,2,3) _ _ time]) (use c in \<open>simp_all add: seg_msg_def rx_cs_def\<close>)
  have "length (tx_data c) = 8" using c(1) by (simp add: client_const_def)
  then have "tx_data ?c ! 0 = cs_of 3 OR ?t" by simp
  then have m: "spec_of (tx_data ?c ! 0) = 3" "tx_data ?c ! 0 AND 0x10 = ?t"
    using seg_cs_reads(6,7) [OF toggle_flip [OF assms(6)]] by simp_all
  have r: "client_got c0 obj d buf n (off + 7) ?t (client_receive (0x580 + rx_node c0, rsp) (?c\<lparr>rx_new := False, sdo_status := CO_SDO_RT_busy\<rparr>))"
    if "seg_msg d n (off + 7) ?t rsp" for rsp
    using that c by (simp add: client_receive_def client_got_def client_const_def)
  show ?thesis using p m r by (intro exI [of _ "?c\<lparr>rx_new := False, sdo_status := CO_SDO_RT_busy\<rparr>"] exI [of _ "tx_data ?c"]) blast
qed

section \<open>Turns\<close>

lemma upload_turn:
  assumes c: "client_got c0 obj d buf n off tog c" and s: "server_up s0 k n (off + 7) (tog XOR 0x10) s"
    and obj: "p_data (sub_at (srv_od s0) k) = Some d" and n: "off + 7 < n" "n \<le> length d" "n \<le> length buf" "n < 65536"
    and tog: "tog = 0 \<or> tog = 0x10" and link: "linked c0 s0" and time: "in_time c0 s0 t"
  shows "\<exists>c' s'. sdo_turn cf t (c, s) = Inr (c', s') \<and> client_got c0 obj d buf n (off + 7) (tog XOR 0x10) c'
     \<and> (if n \<le> off + 14 then server_fin s0 s' else server_up s0 k n (off + 14) tog s')"
proof -
  obtain y dc ds where t: "t = (y, dc, ds)" by (cases t)
  note time = in_timeD [OF time [unfolded t]]
  note link = link [unfolded linked_def]
  have tt: "(tog XOR 0x10) XOR 0x10 = tog" using tog by auto
  obtain c' m where c': "CO_SDOclient_process y dc c = Inr (c', [(0x600 + tx_node c0, m)])"
      "spec_of (m ! 0) = 3" "m ! 0 AND 0x10 = tog XOR 0x10"
      "\<forall>rsp. seg_msg d n (off + 7) (tog XOR 0x10) rsp \<longrightarrow>
         client_got c0 obj d buf n (off + 7) (tog XOR 0x10) (client_receive (0x580 + rx_node c0, rsp) c')"
    using client_asks_next [OF c n tog time(1,2)] link by blast
  obtain s' rsp where s': "CO_SDOserver_process ds cf (server_receive (0x600 + rx_node s0, m) s)
        = Inr (s', [(0x580 + tx_node s0, rsp)])" "seg_msg d n (off + 7) (tog XOR 0x10) rsp"
      "if n \<le> off + 7 + 7 then server_fin s0 s' else server_up s0 k n (off + 7 + 7) tog s'"
    using server_gives_segment [OF s obj c'(2,3) n(1,2,4) toggle_flip [OF tog] time(3)] link unfolding tt by blast
  have "off + 7 + 7 = off + 14" by simp
  note s'(3) [unfolded this]
  then show ?thesis using c' s'(1,2) link by (simp add: t sdo_turn_def)
qed

lemma upload_run:
  assumes "client_got c0 obj d buf n off tog c"
    and "if n \<le> off + 7 then server_fin s0 s else server_up s0 k n (off + 7) (tog XOR 0x10) s"
    and obj: "p_data (sub_at (srv_od s0) k) = Some d" and "off < n" and n: "n \<le> length d" "n \<le> length buf" "n < 65536"
    and "tog = 0 \<or> tog = 0x10" and link: "linked c0 s0" and "list_all (in_time c0 s0) ts"
    and "length ts = Suc ((n - off - 1) div 7)"
  shows "\<exists>c' s'. sdo_run cf ts (c, s) = Inr (c', s') \<and> client_idle c' \<and> sdo_status c' = CO_SDO_RT_success
     \<and> sdo_state c' = CO_SDO_ST_IDLE \<and> cli_sub_obj c' = Some (obj\<lparr>p_data := Some (take n d @ drop n buf)\<rparr>)
     \<and> server_fin s0 s'"
  using assms(1,2,4,8,10,11)
proof (induction ts arbitrary: c s off tog)
  case (Cons t ts)
  have t: "in_time c0 s0 t" "list_all (in_time c0 s0) ts" using Cons.prems by simp_all
  show ?case
  proof (cases "n \<le> off + 7")
    case True
    then have ts: "ts = []" using Cons.prems(6) by simp
    have s: "server_fin s0 s" using Cons.prems(2) True by simp
    have "client_last c0 (obj\<lparr>p_data := Some (take n d @ drop n buf)\<rparr>) c"
      by (rule client_got_last [OF Cons.prems(1) True Cons.prems(3) n])
    from last_turn [OF this server_fin_idle [OF s] link t(1), of cf] show ?thesis
      using ts s by (auto simp: server_fin_def server_const_def)
  next
    case False
    then have s: "server_up s0 k n (off + 7) (tog XOR 0x10) s" and lt: "off + 7 < n" using Cons.prems(2) by simp_all
    obtain c' s' where turn: "sdo_turn cf t (c, s) = Inr (c', s')" "client_got c0 obj d buf n (off + 7) (tog XOR 0x10) c'"
        "if n \<le> off + 14 then server_fin s0 s' else server_up s0 k n (off + 14) tog s'"
      using upload_turn [OF Cons.prems(1) s obj lt n Cons.prems(4) link t(1)] by blast
    have tt: "(tog XOR 0x10) XOR 0x10 = tog" "off + 7 + 7 = off + 14" using Cons.prems(4) by auto
    have "(n - off - 1) div 7 = Suc ((n - off - 1 - 7) div 7)" by (rule le_div_geq) (use lt in linarith)+
    then have "length ts = Suc ((n - (off + 7) - 1) div 7)" using Cons.prems(6) by simp
    from Cons.IH [OF turn(2) _ lt toggle_flip [OF Cons.prems(4)] t(2) this, unfolded tt, OF turn(3)]
    show ?thesis using turn(1) by simp
  qed
qed simp

section \<open>The first two turns\<close>

lemma client_first_upload:
  assumes "client_idle c" "CO_SDOclient_is_in_sync_window_len y c0" "c0 = CO_SDOclient_start_upload node idx sub obj tmo c"
  shows "\<exists>c' m. CO_SDOclient_process y dt c0 = Inr (c', [(0x600 + tx_node c0, m)]) \<and> mux_msg idx sub m \<and> m ! 0 = cs_of 2
     \<and> client_waits c0 CO_SDO_ST_UPLOAD_INITIATE_RSP obj c'"
proof -
  obtain a0 a1 a2 a3 a4 a5 a6 a7 where tx: "tx_data c = [a0, a1, a2, a3, a4, a5, a6, a7]"
    using assms(1) length_8 by (fastforce simp: client_idle_def)
  then show ?thesis
    using assms
    by (simp add: CO_SDOclient_process_def CO_SDOclient_step_def CO_SDOclient_start_upload_def client_start_def
        client_idle_def Let_def CO_SDOtimeout_is_activated_def CO_SDOclient_is_in_sync_window_len_def client_handle_def
        CO_SDOclient_upload_initiate_request_handle_def CO_SDOclient_process_init_transfer_msg_def
        client_send_def CO_CAN_send_def CO_SDOtimeout_reset_and_activate_def client_waits_def client_const_def mux_msg_def)
qed

text \<open>The answer to the request: all the data, or their number.\<close>

definition upload_answer :: "u8 list \<Rightarrow> nat \<Rightarrow> u8 list \<Rightarrow> bool" where
  "upload_answer d n m \<longleftrightarrow> (if n \<le> 4 then m ! 0 = init_cs 2 n \<and> take n (drop 4 m) = take n d
     else m ! 0 = cs_of 2 OR 1 \<and> CO_getUint32 4 m = n)"

lemma server_first_upload:
  assumes idle: "server_idle s" and obj: "names_obj s idx sub no" and m: "mux_msg idx sub m" "m ! 0 = cs_of 2"
    and tgt: "tgt = sub_at (srv_od s) (no, sub)" "so_attr tgt AND ODA_SDO_R \<noteq> 0" "p_data tgt = Some d" "so_len tgt = n"
      "n \<le> length d" "n < 65536"
  shows "\<exists>s' rsp. CO_SDOserver_process dt cf (server_receive (0x600 + rx_node s, m) s) = Inr (s', [(0x580 + tx_node s, rsp)])
     \<and> mux_msg idx sub rsp \<and> upload_answer d n rsp
     \<and> (if n \<le> 4 then server_fin s s' else server_up s (no, sub) n 0 0 s')"
proof -
  let ?k = "(no, sub)"
  let ?s = "s\<lparr>rx_data := m, rx_new := True, timeout_cter_ms := 0, sdo_index := idx, sdo_sub_index := sub, object_no := no,
       srv_sub_obj := Some ?k, sdo_state := CO_SDO_ST_UPLOAD_INITIATE_RSP\<rparr>"
  obtain a0 a1 a2 a3 a4 a5 a6 a7 where tx: "tx_data s = [a0, a1, a2, a3, a4, a5, a6, a7]"
    using idle length_8 by (fastforce simp: server_idle_def)
  have cp: "CO_memcpy (Some xs) 4 (Some d) 0 n = Inr (Some (take 4 xs @ take n d @ drop (4 + n) xs))"
    if "n \<le> 4" "length xs = 8" for xs using CO_memcpy_ok [of 4 n xs 0 d] that tgt(5) by simp
  have "\<exists>ret s' rsp. server_handle cf ?s = Inr (ret, s', [(0x580 + tx_node s, rsp)]) \<and> mux_msg idx sub rsp \<and> upload_answer d n rsp
     \<and> (if n \<le> 4 then server_fin s (s'\<lparr>rx_new := False\<rparr>) else server_up s ?k n 0 0 (s'\<lparr>rx_new := False\<rparr>))"
    using idle tgt m(1) tx cp getUint32_parts [OF tgt(6)]
    by (cases "n \<le> 4")
      (simp_all add: server_handle_def CO_SDOserver_upload_initiate_response_handle_def server_idle_def Let_def
        CO_SDOserver_process_init_transfer_msg_def on_obj_def to_msg_def and_srv_def server_send_def CO_CAN_send_def
        CO_SDOtimeout_reset_and_activate_def server_fin_def server_up_def server_const_def mux_msg_def upload_answer_def
        CO_setUint32_def CO_getUint32_def)
  then obtain ret s' rsp where hd: "server_handle cf ?s = Inr (ret, s', [(0x580 + tx_node s, rsp)])"
    and s': "mux_msg idx sub rsp" "upload_answer d n rsp"
      "if n \<le> 4 then server_fin s (s'\<lparr>rx_new := False\<rparr>) else server_up s ?k n 0 0 (s'\<lparr>rx_new := False\<rparr>)" by blast
  have "CO_SDOserver_process dt cf (server_receive (0x600 + rx_node s, m) s) =
    Inr (s'\<lparr>rx_new := False, sdo_status := (if sdo_state s' = CO_SDO_ST_IDLE then CO_SDO_RT_idle else ret)\<rparr>,
         [(0x580 + tx_node s, rsp)])"
    by (rule server_first_msg [OF idle obj m(1) _ refl]) (use m(2) tgt hd in \<open>simp_all add: cs_simps\<close>)
  then show ?thesis using s'
    by (cases "n \<le> 4") (simp_all add: server_fin_def server_up_def server_const_def)
qed

text \<open>A short object is stored at once; for a long one the client asks for the first segment.\<close>

lemma client_short_answer:
  assumes c: "client_waits c0 CO_SDO_ST_UPLOAD_INITIATE_RSP obj c"
    and m: "mux_msg (sdo_index c0) (sdo_sub_index c0) rsp" "upload_answer d n rsp" "0 < n" "n \<le> 4"
    and ix: "sdo_index c0 < 65536" "sdo_sub_index c0 < 256"
    and buf: "p_data obj = Some buf" "n \<le> so_len obj" "n \<le> length buf"
  shows "client_last c0 (obj\<lparr>p_data := Some (take n d @ drop n buf)\<rparr>) (client_receive (0x580 + rx_node c0, rsp) c)"
proof -
  have rx: "client_receive (0x580 + rx_node c0, rsp) c = c\<lparr>rx_data := rsp, rx_new := True\<rparr>"
    using c by (simp add: client_receive_def client_const_def client_waits_def)
  note mux = mux_msg_reads(1) [OF m(1) ix(1)] mux_msg_reads(2) [OF m(1) ix(2)]
  have cp: "CO_memcpy (Some buf) 0 (Some rsp) 4 n = Inr (Some (take n d @ drop n buf))"
    using CO_memcpy_ok [of 0 n buf 4 rsp] m buf(3) by (simp add: mux_msg_def upload_answer_def)
  have cs: "rsp ! 0 = init_cs 2 n" using m by (simp add: upload_answer_def)
  show ?thesis
    unfolding client_last_def rx
    by (intro conjI exI [of _ "c\<lparr>rx_data := rsp, rx_new := True, timeout_cter_ms := 0, trans_data_len := n,
          cli_sub_obj := Some (obj\<lparr>p_data := Some (take n d @ drop n buf)\<rparr>), buffer_offset := n\<rparr>"])
      (use c mux m cs cp buf in \<open>simp_all add: client_waits_def client_const_def rx_cs_def cs_simps client_handle_def mux_ok_def
        CO_SDOclient_upload_initiate_response_handle_def Let_def with_obj_def client_store_def of_msg_def and_msg_def\<close>)
qed

lemma client_long_answer:
  assumes c: "client_waits c0 CO_SDO_ST_UPLOAD_INITIATE_RSP obj c"
    and m: "mux_msg (sdo_index c0) (sdo_sub_index c0) rsp" "upload_answer d n rsp" "4 < n" "n < 65536"
    and ix: "sdo_index c0 < 65536" "sdo_sub_index c0 < 256"
    and buf: "p_data obj = Some buf" "n \<le> so_len obj"
    and time: "CO_SDOclient_is_in_sync_window_len y c0" "dt < allowed_timeout_ms c0" "allowed_timeout_ms c0 < 65536"
  shows "\<exists>c' m. CO_SDOclient_process y dt (client_receive (0x580 + rx_node c0, rsp) c) = Inr (c', [(0x600 + tx_node c0, m)])
    \<and> spec_of (m ! 0) = 3 \<and> m ! 0 AND 0x10 = 0
    \<and> (\<forall>r. seg_msg d n 0 0 r \<longrightarrow> client_got c0 obj d buf n 0 0 (client_receive (0x580 + rx_node c0, r) c'))"
proof -
  have rx: "client_receive (0x580 + rx_node c0, rsp) c = c\<lparr>rx_data := rsp, rx_new := True\<rparr>"
    using c by (simp add: client_receive_def client_const_def client_waits_def)
  note mux = mux_msg_reads(1) [OF m(1) ix(1)] mux_msg_reads(2) [OF m(1) ix(2)]
  have cs: "rsp ! 0 = cs_of 2 OR 1" "CO_getUint32 4 rsp = n" using m by (simp_all add: upload_answer_def)
  let ?c = "c\<lparr>rx_data := rsp, rx_new := True, timeout_cter_ms := 1, trans_data_len := n, buffer_offset := 0,
      tx_data := (tx_data c)[0 := cs_of 3], sdo_state := CO_SDO_ST_UPLOAD_SEGMENTED\<rparr>"
  let ?r = "?c\<lparr>rx_new := False, sdo_status := CO_SDO_RT_busy\<rparr>"
  have hd: "client_handle ((c\<lparr>rx_data := rsp, rx_new := True\<rparr>)\<lparr>timeout_cter_ms := 0\<rparr>)
      = Inr (CO_SDO_RT_busy, ?c, [(0x600 + tx_node c0, tx_data ?c)])"
    using c mux m cs buf
    by (simp add: client_waits_def client_const_def rx_cs_def cs_simps client_handle_def mux_ok_def
        CO_SDOclient_upload_initiate_response_handle_def Let_def with_obj_def CO_SDOtimeout_reset_and_activate_def
        client_send_def CO_CAN_send_def)
  have p: "CO_SDOclient_process y dt (c\<lparr>rx_data := rsp, rx_new := True\<rparr>) = Inr (?r, [(0x600 + tx_node c0, tx_data ?c)])"
    by (rule client_process_msg [OF _ _ _ _ _ time hd])
      (use c cs in \<open>simp_all add: client_waits_def client_const_def rx_cs_def cs_simps\<close>)
  have "length (tx_data c) = 8" using c by (simp add: client_waits_def client_const_def)
  then have "tx_data ?c ! 0 = cs_of 3" by simp
  moreover have "obj\<lparr>p_data := Some buf\<rparr> = obj" using buf(1) by (cases obj) simp
  then have "client_got c0 obj d buf n 0 0 (client_receive (0x580 + rx_node c0, r) ?r)" if "seg_msg d n 0 0 r" for r
    using that c by (simp add: client_receive_def client_got_def client_const_def client_waits_def)
  ultimately show ?thesis using p unfolding rx by (intro exI [of _ ?r] exI [of _ "tx_data ?c"]) (simp add: cs_simps)
qed

section \<open>The whole upload\<close>

lemma upload_second_turn:
  assumes c: "client_waits c0 CO_SDO_ST_UPLOAD_INITIATE_RSP obj c"
    and m: "mux_msg (sdo_index c0) (sdo_sub_index c0) rsp" "upload_answer d n rsp" "4 < n" "n < 65536" "n \<le> length d"
    and ix: "sdo_index c0 < 65536" "sdo_sub_index c0 < 256"
    and buf: "p_data obj = Some buf" "n \<le> so_len obj"
    and s: "server_up s0 k n 0 0 s" "p_data (sub_at (srv_od s0) k) = Some d"
    and link: "linked c0 s0" and time: "in_time c0 s0 t"
  shows "\<exists>c' s'. sdo_turn cf t (client_receive (0x580 + rx_node c0, rsp) c, s) = Inr (c', s')
     \<and> client_got c0 obj d buf n 0 0 c' \<and> (if n \<le> 7 then server_fin s0 s' else server_up s0 k n 7 0x10 s')"
proof -
  obtain y dc ds where t: "t = (y, dc, ds)" by (cases t)
  note time = in_timeD [OF time [unfolded t]]
  note link = link [unfolded linked_def]
  have al: "allowed_timeout_ms c0 < 65536" "allowed_timeout_ms s0 < 65536" "0 < n" using link m(3) by simp_all
  obtain c' q where c': "CO_SDOclient_process y dc (client_receive (0x580 + rx_node c0, rsp) c) = Inr (c', [(0x600 + tx_node c0, q)])"
      "spec_of (q ! 0) = 3" "q ! 0 AND 0x10 = 0"
      "\<forall>r. seg_msg d n 0 0 r \<longrightarrow> client_got c0 obj d buf n 0 0 (client_receive (0x580 + rx_node c0, r) c')"
    using client_long_answer [OF c m(1-4) ix buf time(1,2) al(1)] by blast
  obtain s' r where s': "CO_SDOserver_process ds cf (server_receive (0x600 + rx_node s0, q) s) = Inr (s', [(0x580 + tx_node s0, r)])"
      "seg_msg d n 0 0 r" "if n \<le> 0 + 7 then server_fin s0 s' else server_up s0 k n (0 + 7) (0 XOR 0x10) s'"
    using server_gives_segment [OF s c'(2,3) al(3) m(5,4) disjI1 [OF refl] time(3) al(2)] by blast
  have "(0::nat) + 7 = 7" "(0::u8) XOR 0x10 = 0x10" by simp_all
  note s'(3) [unfolded this]
  then show ?thesis using c' s'(1,2) link by (simp add: t sdo_turn_def)
qed

lemma upload_arrives:
  assumes "client_idle c" "server_idle s" "names_obj s idx sub no"
    and "c0 = CO_SDOclient_start_upload node idx sub obj tmo c" "node < 128" "tx_node s = node" "rx_node s = node"
    and "tmo < 65536" "allowed_timeout_ms s < 65536" "list_all (in_time c0 s) ts" "length ts = transfer_turns n"
    and "tgt = sub_at (srv_od s) (no, sub)" "so_attr tgt AND ODA_SDO_R \<noteq> 0" "p_data tgt = Some d" "so_len tgt = n"
    and "n \<le> length d" "0 < n" "n < 65536" "p_data obj = Some buf" "n \<le> so_len obj" "so_len obj \<le> length buf"
  shows "\<exists>c' s'. sdo_run cf ts (c0, s) = Inr (c', s') \<and> sdo_status c' = CO_SDO_RT_success
    \<and> client_idle c' \<and> sdo_state c' = CO_SDO_ST_IDLE \<and> server_idle s'
    \<and> cli_sub_obj c' = Some (obj\<lparr>p_data := Some (take n d @ drop n buf)\<rparr>) \<and> srv_od s' = srv_od s"
proof -
  let ?k = "(no, sub)"
  have n: "n \<le> length buf" using assms by simp
  have c0: "sdo_index c0 = idx" "sdo_sub_index c0 = sub" "tx_node c0 = node" "rx_node c0 = node" "allowed_timeout_ms c0 = tmo"
    using assms(4,5) by (simp_all add: CO_SDOclient_start_upload_def client_start_def)
  have link: "linked c0 s" using assms(6-9) c0 by (simp add: linked_def)
  have ix: "sdo_index c0 < 65536" "sdo_sub_index c0 < 256" using assms(3) c0 by (simp_all add: names_obj_def)
  obtain t t' ts' where ts: "ts = t # t' # ts'"
    using assms(11) by (cases ts; cases "tl ts") (auto simp: transfer_turns_def split: if_splits)
  obtain y dc ds where t: "t = (y, dc, ds)" by (cases t)
  have time: "in_time c0 s (y, dc, ds)" "in_time c0 s t'" "list_all (in_time c0 s) ts'" using assms(10) ts t by simp_all
  obtain c1 m where c1: "CO_SDOclient_process y dc c0 = Inr (c1, [(0x600 + tx_node c0, m)])" "mux_msg idx sub m" "m ! 0 = cs_of 2"
      "client_waits c0 CO_SDO_ST_UPLOAD_INITIATE_RSP obj c1"
    using client_first_upload [OF assms(1) in_timeD(1) [OF time(1)] assms(4)] by blast
  obtain s1 rsp where s1: "CO_SDOserver_process ds cf (server_receive (0x600 + rx_node s, m) s) = Inr (s1, [(0x580 + tx_node s, rsp)])"
      "mux_msg idx sub rsp" "upload_answer d n rsp" "if n \<le> 4 then server_fin s s1 else server_up s ?k n 0 0 s1"
    using server_first_upload [OF assms(2,3) c1(2,3) assms(12-16,18)] by blast
  let ?c1 = "client_receive (0x580 + rx_node c0, rsp) c1"
  have turn: "sdo_turn cf t (c0, s) = Inr (?c1, s1)" using c1(1) s1(1) c0 assms(6,7) by (simp add: sdo_turn_def t)
  have mux: "mux_msg (sdo_index c0) (sdo_sub_index c0) rsp" using s1(2) c0 by simp
  show ?thesis
  proof (cases "n \<le> 4")
    case True
    then have ts': "ts' = []" using assms(11) ts by (simp add: transfer_turns_def)
    have d: "server_fin s s1" using s1(4) True by simp
    have "client_last c0 (obj\<lparr>p_data := Some (take n d @ drop n buf)\<rparr>) ?c1"
      by (rule client_short_answer [OF c1(4) mux s1(3) assms(17) True ix assms(19,20) n])
    from last_turn [OF this server_fin_idle [OF d] link time(2), of cf] show ?thesis
      using ts ts' turn d server_fin_idle [OF d] by (auto simp: server_fin_def server_idle_def)
  next
    case False
    then have n4: "4 < n" "\<not> n \<le> 4" by simp_all
    have up: "server_up s ?k n 0 0 s1" using s1(4) n4 by simp
    have d: "p_data (sub_at (srv_od s) ?k) = Some d" using assms(12,14) by simp
    obtain c2 s2 where 2: "sdo_turn cf t' (?c1, s1) = Inr (c2, s2)" "client_got c0 obj d buf n 0 0 c2"
        "if n \<le> 7 then server_fin s s2 else server_up s ?k n 7 0x10 s2"
      using upload_second_turn [OF c1(4) mux s1(3) n4(1) assms(18,16) ix assms(19,20) up d link time(2)] by blast
    have "length ts' = Suc ((n - 0 - 1) div 7)"
    proof -
      have "n + 6 = (n - 1) + 7" using n4 by simp
      then have "(n + 6) div 7 = Suc ((n - 1) div 7)" by (simp only: div_add_self2)
      then show ?thesis using assms(11) ts n4 by (simp add: transfer_turns_def)
    qed
    moreover have "if n \<le> 0 + 7 then server_fin s s2 else server_up s ?k n (0 + 7) (0 XOR 0x10) s2" using 2(3) by simp
    ultimately obtain c' s' where r: "sdo_run cf ts' (c2, s2) = Inr (c', s')" "client_idle c'" "sdo_status c' = CO_SDO_RT_success"
        "sdo_state c' = CO_SDO_ST_IDLE" "cli_sub_obj c' = Some (obj\<lparr>p_data := Some (take n d @ drop n buf)\<rparr>)" "server_fin s s'"
      using upload_run [OF 2(2) _ d assms(17,16) n assms(18) disjI1 [OF refl] link time(3)] by blast
    then show ?thesis using ts turn 2(1) server_fin_idle [OF r(6)] by (simp add: server_fin_def)
  qed
qed

text \<open>C11.
  Reading an object. An idle client that is started on a buffer of at least \<open>n\<close> bytes, against an idle server whose
  object is readable and has \<open>n\<close> bytes, ends with the status success after \<open>transfer_turns n\<close> turns, both sides are idle again,
  the first \<open>n\<close> bytes of the buffer are those of the object and the rest of it is unchanged, and so is the dictionary.\<close>

theorem sdo_upload_arrives:
  assumes "client_idle c" "server_idle s" "names_obj s idx sub no"
    and "c0 = CO_SDOclient_start_upload node idx sub obj tmo c" "node < 128" "tx_node s = node" "rx_node s = node"
    and "tmo < 65536" "allowed_timeout_ms s < 65536" "list_all (in_time c0 s) ts" "length ts = transfer_turns n"
    and "tgt = sub_at (srv_od s) (no, sub)" "so_attr tgt AND ODA_SDO_R \<noteq> 0" "p_data tgt = Some d" "so_len tgt = n"
    and "n \<le> length d" "0 < n" "n < 65536" "p_data obj = Some buf" "n \<le> so_len obj" "so_len obj \<le> length buf"
  shows "\<exists>c' s'. sdo_run cf ts (c0, s) = Inr (c', s') \<and> sdo_status c' = CO_SDO_RT_success
    \<and> client_idle c' \<and> sdo_state c' = CO_SDO_ST_IDLE \<and> server_idle s'
    \<and> cli_sub_obj c' = Some (obj\<lparr>p_data := Some (take n d @ drop n buf)\<rparr>) \<and> srv_od s' = srv_od s"
  by (rule upload_arrives [OF assms])

theorem sdo_upload_arrives_witness:
  "\<exists>c' s'. sdo_run (CO_EXT_CONFIRM_success, 0) (replicate 4 (example_sync, 10, 10))
        (CO_SDOclient_start_upload 5 0x2180 2 (example_obj [1, 2, 3, 4, 5, 6, 7, 8, 9, 10, 11, 12]) 50 example_client, example_server)
        = Inr (c', s')
    \<and> sdo_status c' = CO_SDO_RT_success \<and> client_idle c' \<and> sdo_state c' = CO_SDO_ST_IDLE \<and> server_idle s'
    \<and> cli_sub_obj c' = Some ((example_obj [1, 2, 3, 4, 5, 6, 7, 8, 9, 10, 11, 12])
         \<lparr>p_data := Some (take 10 (replicate 10 0) @ drop 10 [1, 2, 3, 4, 5, 6, 7, 8, 9, 10, 11, 12])\<rparr>)
    \<and> srv_od s' = srv_od example_server"
  by (rule sdo_upload_arrives [where ts = "replicate 4 (example_sync, 10, 10)" and tgt = "sub_at (srv_od example_server) (0, 2)",
        OF example_idle example_names refl]; simp add: example_defs sub_at_def in_time_def transfer_turns_def
          CO_SDOclient_start_upload_def client_start_def CO_SDOclient_is_in_sync_window_len_def list_all_iff)

end
