(* ===== verification/Co_Net.thy ===== *)
theory Co_Net
  imports Core_Co_Laws Sdo_Upload_Laws
begin

text \<open>
  A node with its queue of requests and a remote node on one bus: a queued request is carried out by the remote node
  and answered.
\<close>

section \<open>The frames a server sends\<close>

definition own_frames :: "nat \<Rightarrow> server_result \<Rightarrow> bool" where
  "own_frames nd r = (case r of Inl _ \<Rightarrow> True
     | Inr (_, s, out) \<Rightarrow> tx_node s = nd \<and> (\<forall>f \<in> set out. fst f = CO_CAN_ID_SDO_SRV + nd))"

lemma own_frames_simps [simp]:
  "own_frames nd (Inl f)"
  "own_frames nd (Inr (ret, s, out)) \<longleftrightarrow> tx_node s = nd \<and> (\<forall>f \<in> set out. fst f = CO_CAN_ID_SDO_SRV + nd)"
  by (simp_all add: own_frames_def)

lemma server_send_own: "f \<in> set (server_send s) \<Longrightarrow> fst f = CO_CAN_ID_SDO_SRV + tx_node s"
  by (simp add: server_send_def CO_CAN_send_def)

lemma own_abort: "tx_node s = nd \<Longrightarrow> own_frames nd (server_abort code s)"
  by (simp add: server_abort_def CO_SDO_abort_and_response_def Let_def CO_SDO_abort_def CO_SDOtimeout_reset_and_inactivate_def
      CO_CAN_send_def)

lemma own_on_obj: "(\<And>k x. own_frames nd (g k x)) \<Longrightarrow> own_frames nd (on_obj s g)"
  by (simp add: on_obj_def split: option.split)

lemma own_and_srv: "(\<And>t. r = Inr t \<Longrightarrow> own_frames nd (g t)) \<Longrightarrow> own_frames nd (and_srv r g)"
  by (cases r) (simp_all add: and_srv_def)

lemma store_node: "server_store i j n s = Inr t \<Longrightarrow> tx_node t = tx_node s"
  by (auto simp: server_store_def on_obj_def put_obj_def split: option.splits data_itf.splits sum.splits if_splits)

lemma commit_node: "server_commit s = Inr t \<Longrightarrow> tx_node t = tx_node s"
  by (auto simp: server_commit_def on_obj_def put_obj_def split: option.splits sum.splits if_splits)

lemma copy_node: "co_sdoserver_copy_shadow_data_to_operating_data s = Inr t \<Longrightarrow> tx_node t = tx_node s"
  by (auto simp: co_sdoserver_copy_shadow_data_to_operating_data_def on_obj_def put_obj_def Let_def
      split: option.splits sum.splits if_splits)

lemma to_msg_node: "to_msg i p j n s = Inr t \<Longrightarrow> tx_node t = tx_node s"
  by (auto simp: to_msg_def split: sum.splits option.splits)

lemmas own_defs = CO_SDOtimeout_reset_and_activate_def CO_SDOtimeout_reset_and_inactivate_def

lemma own_finish: "tx_node s = nd \<Longrightarrow> own_frames nd (server_finish s)"
  unfolding server_finish_def
  by (intro own_on_obj) (auto simp: own_defs intro!: own_and_srv dest!: commit_node server_send_own)

lemma own_confirm: "tx_node s = nd \<Longrightarrow> own_frames nd (server_confirm cf s)"
  unfolding server_confirm_def Let_def
  by (intro own_on_obj)
    (auto simp: own_defs intro!: own_and_srv own_abort dest!: copy_node server_send_own
      split: CO_Sub_Object_Ext_Confirm_Func_t.split)

lemma own_handle:
  assumes "tx_node s = nd"
  shows "own_frames nd (server_handle cf s)"
proof -
  let ?i = "CO_SDOserver_process_init_transfer_msg s"
  have i: "tx_node ?i = nd" using assms by (simp add: CO_SDOserver_process_init_transfer_msg_def)
  have 1: "own_frames nd (CO_SDOserver_download_initiate_response_handle cf s)"
    unfolding CO_SDOserver_download_initiate_response_handle_def Let_def
    using assms i by (auto simp: own_confirm own_defs intro!: own_on_obj own_and_srv own_abort own_finish dest!: store_node server_send_own)
  have 2: "own_frames nd (CO_SDOserver_download_segment_handle cf s)"
    unfolding CO_SDOserver_download_segment_handle_def Let_def
    using assms by (auto simp: own_confirm own_defs intro!: own_and_srv own_abort own_finish dest!: store_node server_send_own)
  have 3: "own_frames nd (CO_SDOserver_upload_initiate_response_handle s)"
    unfolding CO_SDOserver_upload_initiate_response_handle_def Let_def
    using i by (auto simp: own_defs intro!: own_on_obj own_and_srv dest!: to_msg_node server_send_own)
  have 4: "own_frames nd (CO_SDOserver_upload_segment_handle s)"
    unfolding CO_SDOserver_upload_segment_handle_def Let_def
    using assms by (auto simp: own_defs intro!: own_on_obj own_and_srv own_abort dest!: to_msg_node server_send_own)
  show ?thesis using assms 1 2 3 4 by (cases "sdo_state s") (simp_all add: server_handle_def)
qed

lemma own_first: "tx_node s = nd \<Longrightarrow> own_frames nd (CO_SDOserver_process_first_msg_and_set_state s)"
  unfolding CO_SDOserver_process_first_msg_and_set_state_def Let_def
  by (auto simp: CO_SDOserver_get_sub_object_pointer_def Let_def intro!: own_abort split: sum.splits option.splits if_splits)

lemma own_rest:
  assumes "own_frames nd r"
  shows "own_frames nd (case r of Inl f \<Rightarrow> Inl f | Inr (ret, t, out) \<Rightarrow>
     if ret = CO_SDO_RT_abort then Inr (CO_SDO_RT_abort, t, out)
     else (case server_handle cf t of Inl f \<Rightarrow> Inl f
       | Inr (ret, t, out') \<Rightarrow> Inr (if sdo_state t = CO_SDO_ST_IDLE then CO_SDO_RT_idle else ret, t\<lparr>rx_new := False\<rparr>, out @ out')))"
proof (cases r)
  case (Inr q)
  then obtain ret t out where r: "r = Inr (ret, t, out)" by (cases q) simp
  then have "own_frames nd (server_handle cf t)" using assms own_handle by simp
  then show ?thesis using assms r by (cases "server_handle cf t") (auto simp: ball_Un)
qed simp

lemma server_process_own:
  assumes "CO_SDOserver_process dt cf s = Inr (s', out)"
  shows "tx_node s' = tx_node s \<and> (\<forall>f \<in> set out. fst f = CO_CAN_ID_SDO_SRV + tx_node s)"
proof -
  let ?nd = "tx_node s"
  have "own_frames ?nd (CO_SDOserver_step dt cf s)"
  proof -
    define s1 where "s1 = (if CO_SDOtimeout_is_activated s then CO_SDOtimeout_increase dt s else s)"
    have s1: "tx_node s1 = ?nd" by (simp add: s1_def CO_SDOtimeout_increase_def)
    define s2 where "s2 = (if rx_new s1 then CO_SDOtimeout_reset_and_inactivate s1 else s1)"
    have s2: "tx_node s2 = ?nd" using s1 by (simp add: s2_def CO_SDOtimeout_reset_and_inactivate_def)
    define r where "r = (if rx_new s1 \<and> sdo_state s2 = CO_SDO_ST_IDLE then CO_SDOserver_process_first_msg_and_set_state s2
       else Inr (CO_SDO_RT_busy, s2, []))"
    have r: "own_frames ?nd r" using own_first [OF s2] s2 by (simp add: r_def)
    have "own_frames ?nd (if \<not> sdo_valid s then Inr (CO_SDO_RT_busy, s, [])
      else if CO_SDOtimeout_is_activated s \<and> CO_SDOtimeout_is_timeout s1 then Inr (CO_SDO_RT_abort, CO_SDO_abort CO_SDO_AB_TIMEOUT s1, [])
      else if \<not> rx_new s1 \<and> \<not> is_internal_processing s1
      then Inr (if sdo_state s1 = CO_SDO_ST_IDLE then CO_SDO_RT_idle else CO_SDO_RT_busy, s1, [])
      else if rx_new s1 \<and> spec_of (rx_cs s2) = CCS_ABORT
      then Inr (CO_SDO_RT_abort, s2\<lparr>rx_abort_code := CO_getUint32 4 (rx_data s2), rx_new := False, sdo_state := CO_SDO_ST_IDLE\<rparr>, [])
      else (case r of Inl f \<Rightarrow> Inl f | Inr (ret, t, out) \<Rightarrow>
         if ret = CO_SDO_RT_abort then Inr (CO_SDO_RT_abort, t, out)
         else (case server_handle cf t of Inl f \<Rightarrow> Inl f
           | Inr (ret, t, out') \<Rightarrow> Inr (if sdo_state t = CO_SDO_ST_IDLE then CO_SDO_RT_idle else ret, t\<lparr>rx_new := False\<rparr>, out @ out'))))"
      using own_rest [OF r, of cf] s1 s2
      by (simp add: CO_SDO_abort_def CO_SDOtimeout_reset_and_inactivate_def)
    then show ?thesis
      unfolding CO_SDOserver_step_def Let_def s1_def [symmetric] s2_def [symmetric] r_def [symmetric] .
  qed
  moreover obtain ret u where "CO_SDOserver_step dt cf s = Inr (ret, u, out)" "s' = u\<lparr>sdo_status := ret\<rparr>"
    using assms by (auto simp: CO_SDOserver_process_def split: sum.splits)
  ultimately show ?thesis by simp
qed

section \<open>A node that only runs its client\<close>

text \<open>SYNC is off, no data message is valid and the server of the node is not used.\<close>

definition quiet_node :: "CO \<Rightarrow> bool" where
  "quiet_node n \<longleftrightarrow> \<not> sync_id_valid (co_sync n) \<and> server_idle (co_server n) \<and> list_all (\<lambda>p. \<not> tpdo_valid p) (co_tpdos n)"

lemma process_tpdos_off: "list_all (\<lambda>p. \<not> tpdo_valid p) ps \<Longrightarrow> process_tpdos build od y i ps = Inr (ps, [])"
  by (induction ps arbitrary: i) (simp_all add: CO_TPDO_process_def)

lemma quiet_process:
  assumes "quiet_node n" "CO_SDOclient_process (co_sync n) dt (co_client n) = Inr (c, out)"
  shows "\<exists>n'. CO_process build dt cf n = Inr (n', out) \<and> co_client n' = c \<and> quiet_node n' \<and> co_sync n' = co_sync n"
proof -
  have "quiet_node (n\<lparr>co_server := (co_server n)\<lparr>sdo_status := CO_SDO_RT_idle\<rparr>, co_client := c\<rparr>)"
    using assms(1) by (simp add: quiet_node_def server_idle_def)
  then show ?thesis
    using assms server_process_idle [of "co_server n" dt cf] process_tpdos_off [of "co_tpdos n"]
    by (simp add: quiet_node_def CO_process_def co_sync_step_def CO_SYNC_process_def co_server_step_def co_client_step_def
        CO_process_tpdo_def)
qed

lemma quiet_receive:
  assumes "fst f = CO_CAN_ID_SDO_SRV + k" "k < 128" "sync_can_id (co_sync (parent s)) \<noteq> CO_CAN_ID_SDO_SRV + k"
  shows "sm_co_can_if_recv_impl f s = s\<lparr>parent := (parent s)\<lparr>co_client := client_receive f (co_client (parent s))\<rparr>\<rparr>"
proof -
  obtain d where f: "f = (CO_CAN_ID_SDO_SRV + k, d)" using assms(1) by (cases f) simp
  have "CO_CAN_ID_SDO_SRV + k \<noteq> CO_CAN_ID_SDO_CLI + j" for j using assms(2) by simp
  then show ?thesis using assms(3) f
    by (auto simp: sm_co_can_if_recv_impl_def CO_can_receive_basic_handle_def client_receive_def)
qed

lemma quiet_receive_all:
  assumes "\<forall>f \<in> set fs. fst f = CO_CAN_ID_SDO_SRV + k" "k < 128" "sync_can_id (co_sync (parent s)) \<noteq> CO_CAN_ID_SDO_SRV + k"
  shows "fold sm_co_can_if_recv_impl fs s
    = s\<lparr>parent := (parent s)\<lparr>co_client := fold client_receive fs (co_client (parent s))\<rparr>\<rparr>"
  using assms
proof (induction fs arbitrary: s)
  case (Cons f fs)
  then show ?case using quiet_receive [of f k s] by simp
qed simp

section \<open>Node and remote server\<close>

type_synonym net = "sm_co \<times> sdo_server \<times> can_frame list"

definition frames_of :: "co_out list \<Rightarrow> can_frame list" where
  "frames_of os = concat (map (\<lambda>o1. case o1 of Can_Frame f \<Rightarrow> [f] | Answer _ _ _ _ _ \<Rightarrow> []) os)"

text \<open>
  A turn: the node takes the frames on their way to it and runs, the remote server takes what the node has sent and runs;
  its answers are on their way then.
\<close>

definition net_turn :: "builders \<Rightarrow> confirm \<Rightarrow> nat \<times> nat \<Rightarrow> net \<Rightarrow> (net, co_out) result" where
  "net_turn build cf = (\<lambda>(dt, ds) (s, srv, fs).
     case sm_co_process build fs dt cf s of Inl f \<Rightarrow> Inl f
     | Inr (s, out) \<Rightarrow> (case CO_SDOserver_process ds cf (fold server_receive (frames_of out) srv) of Inl f \<Rightarrow> Inl f
         | Inr (srv, back) \<Rightarrow> Inr ((s, srv, back), out)))"

definition net_run :: "builders \<Rightarrow> confirm \<Rightarrow> (nat \<times> nat) list \<Rightarrow> net \<Rightarrow> (net, co_out) result" where
  "net_run build cf = run_all (net_turn build cf)"

section \<open>The transfer of the client seen from the node\<close>

definition answer_list :: "co_out list \<Rightarrow> co_out list" where
  "answer_list os = filter (\<lambda>o1. case o1 of Can_Frame _ \<Rightarrow> False | Answer _ _ _ _ _ \<Rightarrow> True) os"

lemma out_lists [simp]:
  "answer_list (xs @ ys) = answer_list xs @ answer_list ys" "answer_list [] = []"
  "frames_of (xs @ ys) = frames_of xs @ frames_of ys" "frames_of [] = []"
  by (simp_all add: answer_list_def frames_of_def)

lemma out_lists_frames [simp]: "answer_list (map Can_Frame fs) = []" "frames_of (map Can_Frame fs) = fs"
  by (induction fs) (simp_all add: answer_list_def frames_of_def)

lemma out_lists_answer [simp]: "answer_list (answer_of r c) = answer_of r c" "frames_of (answer_of r c) = []"
  by (cases "rq_cb r"; simp add: answer_list_def frames_of_def answer_of_def)+

text \<open>
  The node while it carries out request \<open>r\<close>, the client being in state \<open>c\<close> with the frames \<open>fs\<close> received: the client is at
  work, or it has ended and the answer is due, or the answer has been given.
\<close>

definition carries_out :: "sdo_request \<Rightarrow> CO_SYNC \<Rightarrow> nat \<Rightarrow> sdo_client \<Rightarrow> sm_co \<Rightarrow> can_frame list \<Rightarrow> co_out list \<Rightarrow> bool" where
  "carries_out r y k c s fs os \<longleftrightarrow>
     quiet_node (parent s) \<and> co_sync (parent s) = y \<and> fifo_ok (sdo_queue s) \<and> fifo_items (sdo_queue s) = []
     \<and> \<not> is_sdo_now s \<and> sub_obj s = r \<and> fin_ok c \<and> (\<forall>f \<in> set fs. fst f = CO_CAN_ID_SDO_SRV + k)
     \<and> (if ended (sdo_status c)
        then if sdo_process s
             then sdo_st s = SDO_END_REQUEST \<and> co_client (parent s) = c \<and> answer_list os = []
             else co_client (parent s) = c\<lparr>sdo_status := CO_SDO_RT_idle\<rparr> \<and> answer_list os = answer_of r c
        else sdo_process s \<and> sdo_st s = SDO_WAIT_RESULT \<and> fold client_receive fs (co_client (parent s)) = c
             \<and> answer_list os = [])"

lemma client_receive_idle: "sdo_state c = CO_SDO_ST_IDLE \<Longrightarrow> fold client_receive fs c = c"
  by (induction fs) (simp_all add: client_receive_def split: prod.splits)

lemma client_receive_all_fields:
  "sdo_valid (fold client_receive fs c) = sdo_valid c" "sdo_state (fold client_receive fs c) = sdo_state c"
  "sdo_status (fold client_receive fs c) = sdo_status c"
  by (induction fs arbitrary: c) (simp_all add: client_receive_fields)

lemma node_turn:
  assumes c: "carries_out r y k c s fs os" and k: "k < 128" "sync_can_id y \<noteq> CO_CAN_ID_SDO_SRV + k" and dt: "dt < 65536"
    and turn: "CO_SDOclient_process y dt c = Inr (c1, out)"
    and ret_own: "\<forall>f \<in> set back. fst f = CO_CAN_ID_SDO_SRV + k"
  shows "\<exists>s' os'. sm_co_process build fs dt cf s = Inr (s', os') \<and> frames_of os' = out
     \<and> carries_out r y k (fold client_receive back c1) s' back (os @ os')
     \<and> (sdo_process s' \<longleftrightarrow> \<not> ended (sdo_status c))"
proof -
  let ?u = "fold client_receive fs (co_client (parent s))"
  have b: "quiet_node (parent s)" "co_sync (parent s) = y" "fifo_ok (sdo_queue s)" "fifo_items (sdo_queue s) = []"
      "\<not> is_sdo_now s" "sub_obj s = r" "fin_ok c" "\<forall>f \<in> set fs. fst f = CO_CAN_ID_SDO_SRV + k"
    using c by (simp_all add: carries_out_def)
  have recv: "fold sm_co_can_if_recv_impl fs s = s\<lparr>parent := (parent s)\<lparr>co_client := ?u\<rparr>\<rparr>"
    by (rule quiet_receive_all [OF b(8) k(1)]) (use k(2) b(2) in simp)
  have q: "quiet_node ((parent s)\<lparr>co_client := v\<rparr>)" for v using b(1) by (simp add: quiet_node_def)
  have node: "\<exists>n'. co_node_step build dt cf (fold sm_co_can_if_recv_impl fs s) = Inr (s\<lparr>parent := n'\<rparr>, map Can_Frame o1)
      \<and> co_client n' = v \<and> quiet_node n' \<and> co_sync n' = y" if "CO_SDOclient_process y dt ?u = Inr (v, o1)" for v o1
    using quiet_process [OF q [of ?u], of dt v o1 build cf] that b(2) dt by (auto simp: co_node_step_def recv)
  have fin1: "fin_ok c1" by (rule client_process_fin [OF b(7) turn])
  have finb: "fin_ok (fold client_receive back c1)" using fin1 by (simp add: fin_ok_def client_receive_all_fields)
  show ?thesis
  proof (cases "ended (sdo_status c)")
    case False
    then have w: "sdo_process s" "sdo_st s = SDO_WAIT_RESULT" "?u = c" "answer_list os = []"
      using c by (simp_all add: carries_out_def)
    obtain n' where n': "co_node_step build dt cf (fold sm_co_can_if_recv_impl fs s) = Inr (s\<lparr>parent := n'\<rparr>, map Can_Frame out)"
        "co_client n' = c1" "quiet_node n'" "co_sync n' = y" using node [of c1 out] turn w(3) by auto
    let ?s = "s\<lparr>parent := n'\<rparr>"
    have sm: "sm_co_SDO_process ?s = Inr (if ended (sdo_status c1) then ?s\<lparr>sdo_st := SDO_END_REQUEST\<rparr> else ?s, [])"
      using w(1,2) n'(2) by (simp add: sm_co_SDO_process_def ended_def)
    have i: "fold client_receive back c1 = c1" if "ended (sdo_status c1)"
      using fin1 that client_receive_idle by (simp add: fin_ok_def)
    show ?thesis
      using n' sm w(1,2,4) b ret_own finb i False
      by (auto simp: sm_co_process_def carries_out_def client_receive_all_fields)
  next
    case True
    then have idle: "sdo_state c = CO_SDO_ST_IDLE" "sdo_valid c" using b(7) by (simp_all add: fin_ok_def)
    then have c1: "c1 = c" "out = []" using client_process_idle [of c y dt] turn by simp_all
    have i: "fold client_receive back c1 = c" using c1(1) idle client_receive_idle by simp
    show ?thesis
    proof (cases "sdo_process s")
      case p: True
      have w: "sdo_st s = SDO_END_REQUEST" "co_client (parent s) = c" "answer_list os = []"
        using c True p by (simp_all add: carries_out_def)
      have u: "?u = c" using w(2) idle client_receive_idle by simp
      obtain n' where n': "co_node_step build dt cf (fold sm_co_can_if_recv_impl fs s) = Inr (s\<lparr>parent := n'\<rparr>, [])"
          "co_client n' = c" "quiet_node n'" "co_sync n' = y"
        using node [of c "[]"] client_process_idle [of c y dt] idle u by auto
      let ?s = "(on_client CO_SDO_reset_status (s\<lparr>parent := n'\<rparr>))\<lparr>sdo_process := False, is_sdo_now := False\<rparr>"
      have "sm_co_SDO_process (s\<lparr>parent := n'\<rparr>) = Inr (?s, answer_of r c)"
        using p w(1) b(5,6) n'(2) by (simp add: sm_co_SDO_process_def p_sdo_def)
      moreover have "quiet_node (parent ?s)" using n'(3) by (simp add: on_client_def quiet_node_def)
      ultimately show ?thesis
        using n' w(3) b ret_own True i c1(2) by (auto simp: sm_co_process_def carries_out_def on_client_def CO_SDO_reset_status_def)
    next
      case p: False
      have w: "co_client (parent s) = c\<lparr>sdo_status := CO_SDO_RT_idle\<rparr>" "answer_list os = answer_of r c"
        using c True p by (simp_all add: carries_out_def)
      have u: "?u = c\<lparr>sdo_status := CO_SDO_RT_idle\<rparr>" using w(1) idle client_receive_idle by simp
      obtain n' where n': "co_node_step build dt cf (fold sm_co_can_if_recv_impl fs s) = Inr (s\<lparr>parent := n'\<rparr>, [])"
          "co_client n' = c\<lparr>sdo_status := CO_SDO_RT_idle\<rparr>" "quiet_node n'" "co_sync n' = y"
        using node [of "c\<lparr>sdo_status := CO_SDO_RT_idle\<rparr>" "[]"] client_process_idle [of "c\<lparr>sdo_status := CO_SDO_RT_idle\<rparr>" y dt] idle u
        by auto
      have "sm_fifo_pop (sdo_queue s) = Inr (None, sdo_queue s)" using take_spec [OF b(3)] b(4) pop_spec [OF b(3)] by simp
      then have "sm_co_SDO_process (s\<lparr>parent := n'\<rparr>) = Inr (s\<lparr>parent := n'\<rparr>, [])"
        using p b(5) by (simp add: sm_co_SDO_process_def sm_sdo_pop_def)
      then show ?thesis
        using n' w(2) b ret_own True i c1(2) p by (auto simp: sm_co_process_def carries_out_def)
    qed
  qed
qed

lemma net_turn_sim:
  assumes c: "carries_out r y k c s fs os" and k: "k < 128" "sync_can_id y \<noteq> CO_CAN_ID_SDO_SRV + k" and dt: "dt < 65536"
    and srv: "tx_node srv = k" and turn: "sdo_turn cf (y, dt, ds) (c, srv) = Inr (c', srv')"
  shows "\<exists>s' fs' os'. net_turn build cf (dt, ds) (s, srv, fs) = Inr ((s', srv', fs'), os')
     \<and> carries_out r y k c' s' fs' (os @ os') \<and> tx_node srv' = k \<and> (sdo_process s' \<longleftrightarrow> \<not> ended (sdo_status c))"
proof -
  obtain c1 out bk where t: "CO_SDOclient_process y dt c = Inr (c1, out)"
      "CO_SDOserver_process ds cf (fold server_receive out srv) = Inr (srv', bk)" "c' = fold client_receive bk c1"
    using turn by (auto simp: sdo_turn_def split: sum.splits prod.splits)
  have "tx_node (fold server_receive out srv) = k"
    using srv by (induction out arbitrary: srv) (auto simp: server_receive_def split: prod.splits)
  then have own: "tx_node srv' = k" "\<forall>f \<in> set bk. fst f = CO_CAN_ID_SDO_SRV + k" using server_process_own [OF t(2)] by simp_all
  from node_turn [OF c k dt t(1) own(2), of build cf] show ?thesis
    using t(2,3) own(1) by (auto simp: net_turn_def)
qed

lemma net_run_sim:
  assumes "carries_out r y k c s fs os" and k: "k < 128" "sync_can_id y \<noteq> CO_CAN_ID_SDO_SRV + k"
    and "list_all (\<lambda>(dt, ds). dt < 65536) ts" "tx_node srv = k"
    and "sdo_run cf (map (\<lambda>(dt, ds). (y, dt, ds)) ts) (c, srv) = Inr (c', srv')"
  shows "\<exists>s' fs' os'. net_run build cf ts (s, srv, fs) = Inr ((s', srv', fs'), os')
     \<and> carries_out r y k c' s' fs' (os @ os') \<and> tx_node srv' = k"
  using assms(1,4,5,6)
proof (induction ts arbitrary: c s fs os srv)
  case Nil
  then show ?case by (simp add: net_run_def)
next
  case (Cons a ts)
  obtain dt ds where a: "a = (dt, ds)" by (cases a)
  obtain c1 srv1 where t: "sdo_turn cf (y, dt, ds) (c, srv) = Inr (c1, srv1)"
      "sdo_run cf (map (\<lambda>(dt, ds). (y, dt, ds)) ts) (c1, srv1) = Inr (c', srv')"
    using Cons.prems(4) a by (auto split: sum.splits)
  have dt: "dt < 65536" "list_all (\<lambda>(dt, ds). dt < 65536) ts" using Cons.prems(2) a by simp_all
  obtain s1 fs1 os1 where n: "net_turn build cf (dt, ds) (s, srv, fs) = Inr ((s1, srv1, fs1), os1)"
      "carries_out r y k c1 s1 fs1 (os @ os1)" "tx_node srv1 = k"
    using net_turn_sim [OF Cons.prems(1) k dt(1) Cons.prems(3) t(1)] by blast
  obtain s' fs' os2 where r: "net_run build cf ts (s1, srv1, fs1) = Inr ((s', srv', fs'), os2)"
      "carries_out r y k c' s' fs' ((os @ os1) @ os2)" "tx_node srv' = k"
    using Cons.IH [OF n(2) dt(2) n(3) t(2)] by blast
  then show ?case using n(1) a by (simp add: net_run_def)
qed


section \<open>A queued write is carried out\<close>

lemma idle_node_turn:
  assumes "quiet_node (parent s)" "client_idle (co_client (parent s))" "sdo_state (co_client (parent s)) = CO_SDO_ST_IDLE"
  shows "\<exists>n. co_node_step build dt cf s = Inr (s\<lparr>parent := n\<rparr>, []) \<and> co_client n = co_client (parent s)
    \<and> quiet_node n \<and> co_sync n = co_sync (parent s)"
proof -
  have "CO_SDOclient_process (co_sync (parent s)) (dt mod 65536) (co_client (parent s)) = Inr (co_client (parent s), [])"
    using assms(2,3) client_process_idle by (simp add: client_idle_def)
  from quiet_process [OF assms(1) this, of build cf] show ?thesis by (auto simp: co_node_step_def)
qed

lemma net_turn_quiet:
  "co_node_step build dt cf s = Inr (s\<lparr>parent := n\<rparr>, []) \<Longrightarrow> sm_co_SDO_process (s\<lparr>parent := n\<rparr>) = Inr (t, []) \<Longrightarrow>
   server_idle srv \<Longrightarrow> net_turn build cf (dt, ds) (s, srv, []) = Inr ((t, srv\<lparr>sdo_status := CO_SDO_RT_idle\<rparr>, []), [])"
  by (simp add: net_turn_def sm_co_process_def server_process_idle)

text \<open>Nothing is in hand and the queue is sound.\<close>

definition node_free :: "CO_SYNC \<Rightarrow> sm_co \<Rightarrow> bool" where
  "node_free y s \<longleftrightarrow> quiet_node (parent s) \<and> client_idle (co_client (parent s)) \<and> sdo_state (co_client (parent s)) = CO_SDO_ST_IDLE
     \<and> sdo_status (co_client (parent s)) = CO_SDO_RT_idle \<and> \<not> sdo_process s \<and> \<not> is_sdo_now s \<and> fifo_ok (sdo_queue s)
     \<and> co_sync (parent s) = y"

lemma sdo_run_append: "sdo_run cf (xs @ ys) cs = (case sdo_run cf xs cs of Inl f \<Rightarrow> Inl f | Inr cs \<Rightarrow> sdo_run cf ys cs)"
  by (induction xs arbitrary: cs) (auto split: sum.split)

lemma write_is_carried_out:
  assumes node: "quiet_node (parent s)" "client_idle (co_client (parent s))" "sdo_state (co_client (parent s)) = CO_SDO_ST_IDLE"
      "\<not> sdo_process s" "\<not> is_sdo_now s" "fifo_ok (sdo_queue s)" "fifo_items (sdo_queue s) = [r]"
    and r: "rq_rw r = SM_SDO_W" "rq_cb r = Some cb" "rq_node r = k" "rq_timeout r < 65536"
      "so_len (rq_obj r) = n" "0 < n" "p_data (rq_obj r) = Some d" "n \<le> length d"
    and y: "y = co_sync (parent s)" "sync_can_id y \<noteq> CO_CAN_ID_SDO_SRV + k"
    and srv: "server_idle srv" "names_obj srv (rq_index r) (rq_sub r) no" "k < 128" "tx_node srv = k" "rx_node srv = k"
      "allowed_timeout_ms srv < 65536"
    and tgt: "tgt = sub_at (srv_od srv) (no, rq_sub r)" "so_attr tgt AND ODA_SDO_W \<noteq> 0" "p_ext tgt = None" "p_temp_data tgt = None"
      "p_data tgt = Some old" "n \<le> so_len tgt" "so_len tgt \<le> length old" "so_len tgt < 65536"
    and ts: "list_all (in_time (start_request r (co_client (parent s))) srv) (map (\<lambda>(dt, ds). (y, dt, ds)) ts)"
      "length ts = transfer_turns n" and last: "dt < 65536"
  shows "\<exists>s1 w1 f1 o1 s' srv' o2 tx rx. net_run build cf (t1 # t2 # ts) (s, srv, []) = Inr ((s1, w1, f1), o1) \<and> answer_list o1 = []
    \<and> net_turn build cf (dt, ds) (s1, w1, f1) = Inr ((s', srv', []), o2)
    \<and> answer_list o2 = [Answer cb CO_SDO_RT_success tx rx (rq_arg r)]
    \<and> srv_od srv' = set_sub (no, rq_sub r) (tgt\<lparr>p_data := Some (take n d @ drop n old)\<rparr>) (srv_od srv)
    \<and> server_idle srv' \<and> tx_node srv' = k \<and> rx_node srv' = k \<and> allowed_timeout_ms srv' = allowed_timeout_ms srv
    \<and> node_free y s' \<and> trans_type (co_client (parent s')) = trans_type (co_client (parent s)) \<and> fifo_items (sdo_queue s') = []"
proof -
  let ?c = "co_client (parent s)" and ?srv = "srv\<lparr>sdo_status := CO_SDO_RT_idle\<rparr>" and ?w = "\<lambda>(dt, ds). (y, dt, ds)"
  let ?start = "CO_SDOclient_start_download k (rq_index r) (rq_sub r) (rq_obj r) (rq_timeout r) ?c"
  obtain da sa where t1: "t1 = (da, sa)" by (cases t1)
  obtain db sb where t2: "t2 = (db, sb)" by (cases t2)
  obtain q where q: "sm_fifo_pop (sdo_queue s) = Inr (Some r, q)" "fifo_ok q" "fifo_items q = []"
    using take_spec [OF node(6)] node(7) pop_spec [OF node(6)] by auto
  obtain m1 where m1: "co_node_step build da cf s = Inr (s\<lparr>parent := m1\<rparr>, [])" "co_client m1 = ?c" "quiet_node m1" "co_sync m1 = y"
    using idle_node_turn [OF node(1,2,3), of build da cf] y(1) by auto
  define s1 where "s1 = s\<lparr>parent := m1, sdo_queue := q, sub_obj := r, sdo_process := True, sdo_st := SDO_SEND_REQUEST\<rparr>"
  have "sm_co_SDO_process (s\<lparr>parent := m1\<rparr>) = Inr (s1, [])"
    using node(4,5) q(1) by (simp add: sm_co_SDO_process_def sm_sdo_pop_def s1_def)
  note turn1 = net_turn_quiet [OF m1(1) this srv(1), of sa]
  have srv1: "server_idle ?srv" using srv(1) by (simp add: server_idle_def)
  have s1: "quiet_node (parent s1)" "client_idle (co_client (parent s1))" "sdo_state (co_client (parent s1)) = CO_SDO_ST_IDLE"
    using m1 node(2,3) by (simp_all add: s1_def)
  obtain m2 where m2: "co_node_step build db cf s1 = Inr (s1\<lparr>parent := m2\<rparr>, [])" "co_client m2 = ?c" "quiet_node m2" "co_sync m2 = y"
    using idle_node_turn [OF s1, of build db cf] m1(2,4) by (auto simp: s1_def)
  define s2 where "s2 = s1\<lparr>parent := m2\<lparr>co_client := ?start\<rparr>, sdo_st := SDO_WAIT_RESULT\<rparr>"
  have rq: "rq_index r mod 65536 = rq_index r" using srv(2) by (simp add: names_obj_def)
  have st: "start_request r (CO_SDO_reset_status ?c) = ?start" "start_request r ?c = ?start"
    using r(1,3) rq by (simp_all add: start_request_def CO_SDO_reset_status_def CO_SDOclient_start_download_def client_start_def)
  have "sm_co_SDO_process (s1\<lparr>parent := m2\<rparr>) = Inr (s2, [])"
    using node(5) m2(2) st(1) by (simp add: sm_co_SDO_process_def s2_def s1_def on_client_def p_sdo_def)
  note turn2 = net_turn_quiet [OF m2(1) this srv1, of sb]
  have co: "carries_out r y k ?start s2 [] []"
    using m2 q(2,3) node(2,5)
    by (simp add: carries_out_def s2_def s1_def quiet_node_def fin_ok_def client_idle_def CO_SDOclient_start_download_def client_start_def
        ended_def answer_list_def)
  have srv2: "names_obj ?srv (rq_index r) (rq_sub r) no" "list_all (in_time ?start ?srv) (map ?w ts)"
    using srv(2) ts(1) st(2) by (simp_all add: names_obj_def in_time_def)
  have tsd: "list_all (\<lambda>(dt, ds). dt < 65536) ts"
    using ts(1) st(2) r(4) by (auto simp: list_all_iff in_time_def CO_SDOclient_start_download_def client_start_def)
  have "\<exists>c' s' cx wx. sdo_run cf (map ?w ts) (?start, ?srv) = Inr (c', s') \<and> sdo_status c' = CO_SDO_RT_success
    \<and> client_idle c' \<and> sdo_state c' = CO_SDO_ST_IDLE \<and> server_idle s'
    \<and> srv_od s' = set_sub (no, rq_sub r) (tgt\<lparr>p_data := Some (take n d @ drop n old)\<rparr>) (srv_od ?srv)
    \<and> sdo_run cf (butlast (map ?w ts)) (?start, ?srv) = Inr (cx, wx) \<and> sdo_state cx \<noteq> CO_SDO_ST_IDLE
    \<and> client_const ?start c' \<and> server_const ?srv s'"
    by (rule download_arrives [OF node(2) srv1 srv2(1) refl srv(3) _ _ r(4) _ srv2(2) _ r(5,6,7,8) _ tgt(2-8)])
      (use srv ts(2) tgt(1) in simp_all)
  then obtain c3 srv3 cx wx where run: "sdo_run cf (map ?w ts) (?start, ?srv) = Inr (c3, srv3)" "sdo_status c3 = CO_SDO_RT_success"
      "client_idle c3" "sdo_state c3 = CO_SDO_ST_IDLE" "server_idle srv3"
      "srv_od srv3 = set_sub (no, rq_sub r) (tgt\<lparr>p_data := Some (take n d @ drop n old)\<rparr>) (srv_od srv)"
      "sdo_run cf (butlast (map ?w ts)) (?start, ?srv) = Inr (cx, wx)" "sdo_state cx \<noteq> CO_SDO_ST_IDLE"
      "client_const ?start c3" "server_const ?srv srv3" by auto
  have ts1: "ts = butlast ts @ [last ts]" using ts(2) by (intro append_butlast_last_id [symmetric]) (auto simp: transfer_turns_def split: if_splits)
  have tsd1: "list_all (\<lambda>(dt, ds). dt < 65536) (butlast ts)" using tsd ts1 by (metis list_all_append)
  have runb: "sdo_run cf (map ?w (butlast ts)) (?start, ?srv) = Inr (cx, wx)" using run(7) by (simp add: map_butlast)
  obtain sx fx ox where nx: "net_run build cf (butlast ts) (s2, ?srv, []) = Inr ((sx, wx, fx), ox)" "carries_out r y k cx sx fx ox"
      "tx_node wx = k"
    using net_run_sim [OF co srv(3) y(2) tsd1 _ runb, of build] srv(4) by auto
  have live: "\<not> ended (sdo_status cx)" using nx(2) run(8) by (auto simp: carries_out_def fin_ok_def)
  obtain dl dk where tl: "last ts = (dl, dk)" by (cases "last ts")
  have "last ts \<in> set ts" using ts1 by (metis in_set_conv_decomp)
  then have dl: "dl < 65536" using tsd tl by (auto simp: list_all_iff)
  have "sdo_run cf (map ?w (butlast ts) @ [?w (last ts)]) (?start, ?srv) = Inr (c3, srv3)"
    using run(1) arg_cong [OF ts1, of "map ?w"] by simp
  then have tn: "sdo_turn cf (y, dl, dk) (cx, wx) = Inr (c3, srv3)" using runb tl by (simp add: sdo_run_append split: sum.splits)
  obtain s3 fs3 os3 where n3: "net_turn build cf (dl, dk) (sx, wx, fx) = Inr ((s3, srv3, fs3), os3)"
      "carries_out r y k c3 s3 fs3 (ox @ os3)" "tx_node srv3 = k" "sdo_process s3"
    using net_turn_sim [OF nx(2) srv(3) y(2) dl nx(3) tn, of build] live by auto
  have ix: "CO_SDOclient_process y dt c3 = Inr (c3, [])" using run(3,4) client_process_idle by (simp add: client_idle_def)
  obtain s4 os4 where n4: "sm_co_process build fs3 dt cf s3 = Inr (s4, os4)" "frames_of os4 = []"
      "carries_out r y k c3 s4 [] ((ox @ os3) @ os4)" "\<not> sdo_process s4"
    using node_turn [OF n3(2) srv(3) y(2) last ix, of "[]" build cf] run(2) by auto
  have "net_turn build cf (dt, ds) (s3, srv3, fs3) = Inr ((s4, srv3\<lparr>sdo_status := CO_SDO_RT_idle\<rparr>, []), os4)"
    using n4(1,2) server_process_idle [OF run(5), of ds cf] by (simp add: net_turn_def)
  moreover have "net_run build cf (t1 # t2 # ts) (s, srv, []) = Inr ((s3, srv3, fs3), ox @ os3)"
  proof -
    have "net_run build cf (butlast ts @ [last ts]) (s2, ?srv, []) = Inr ((s3, srv3, fs3), ox @ os3)"
      using nx(1) n3(1) tl by (simp add: net_run_def run_all_append)
    then show ?thesis using turn1 turn2 t1 t2 ts1 by (simp add: net_run_def)
  qed
  moreover have no: "answer_list (ox @ os3) = []" using n3(2,4) run(2) by (simp add: carries_out_def)
  moreover have "answer_list os4 = answer_of r c3" "fifo_items (sdo_queue s4) = []" "co_client (parent s4) = c3\<lparr>sdo_status := CO_SDO_RT_idle\<rparr>"
    using n4(3,4) run(2) no by (simp_all add: carries_out_def)
  moreover have "node_free y s4" using n4(3,4) run(2,3,4) by (simp add: carries_out_def node_free_def client_idle_def)
  moreover have "trans_type c3 = trans_type ?c"
    using run(9) by (simp add: client_const_def CO_SDOclient_start_download_def client_start_def)
  moreover have "server_idle (srv3\<lparr>sdo_status := CO_SDO_RT_idle\<rparr>)" using run(5) by (simp add: server_idle_def)
  moreover have "rx_node srv3 = k" "allowed_timeout_ms srv3 = allowed_timeout_ms srv" using run(10) srv(5) by (simp_all add: server_const_def)
  ultimately show ?thesis using n3(3) run(2,6) r(2)
    by (simp add: answer_of_def)
qed

text \<open>The calls up to the answer and the one that answers, as one run.\<close>

lemma write_summed:
  assumes "\<exists>s1 w1 f1 o1 s' srv' o2 tx rx. net_run build cf (ta # tb # ts) n = Inr ((s1, w1, f1), o1) \<and> answer_list o1 = []
    \<and> net_turn build cf (dt, ds) (s1, w1, f1) = Inr ((s', srv', []), o2)
    \<and> answer_list o2 = [Answer cb CO_SDO_RT_success tx rx a]
    \<and> srv_od srv' = od
    \<and> server_idle srv' \<and> tx_node srv' = k \<and> rx_node srv' = k \<and> allowed_timeout_ms srv' = al
    \<and> node_free y s' \<and> trans_type (co_client (parent s')) = tt \<and> fifo_items (sdo_queue s') = []"
  shows "\<exists>s' srv' fs out tx rx. net_run build cf (ta # tb # ts @ [(dt, ds)]) n = Inr ((s', srv', fs), out)
    \<and> answer_list out = [Answer cb CO_SDO_RT_success tx rx a] \<and> srv_od srv' = od
    \<and> fifo_items (sdo_queue s') = [] \<and> \<not> sdo_process s'"
proof -
  obtain s1 w1 f1 o1 s' srv' o2 tx rx where w: "net_run build cf (ta # tb # ts) n = Inr ((s1, w1, f1), o1)" "answer_list o1 = []"
      "net_turn build cf (dt, ds) (s1, w1, f1) = Inr ((s', srv', []), o2)" "answer_list o2 = [Answer cb CO_SDO_RT_success tx rx a]"
      "srv_od srv' = od" "node_free y s'" "fifo_items (sdo_queue s') = []"
    using assms by blast
  have "net_run build cf ((ta # tb # ts) @ [(dt, ds)]) n = Inr ((s', srv', []), o1 @ o2)"
    using w(1,3) by (simp only: net_run_def run_all_append) simp
  then show ?thesis using w by (simp add: node_free_def)
qed

text \<open>C6.
  A queued write is carried out. A node whose queue holds the one request \<open>r\<close>, to write \<open>n\<close> bytes of a writable object without
  extension, and a remote server that is idle: after \<open>transfer_turns n + 3\<close> calls of \<^verbatim>\<open>sm_co_process\<close> that are in time, the
  callback of the request has been called exactly once and with success, the remote dictionary differs from the old
  one exactly in those \<open>n\<close> bytes, and the queue is empty and the node free for the next request. The first call takes the
  request from the queue, the second starts the client, the last one answers.\<close>

theorem queued_write_is_done:
  assumes "quiet_node (parent s)" "client_idle (co_client (parent s))" "sdo_state (co_client (parent s)) = CO_SDO_ST_IDLE"
      "\<not> sdo_process s" "\<not> is_sdo_now s" "fifo_ok (sdo_queue s)" "fifo_items (sdo_queue s) = [r]"
    and "rq_rw r = SM_SDO_W" "rq_cb r = Some cb" "rq_node r = k" "rq_timeout r < 65536"
      "so_len (rq_obj r) = n" "0 < n" "p_data (rq_obj r) = Some d" "n \<le> length d"
    and "y = co_sync (parent s)" "sync_can_id y \<noteq> CO_CAN_ID_SDO_SRV + k"
    and "server_idle srv" "names_obj srv (rq_index r) (rq_sub r) no" "k < 128" "tx_node srv = k" "rx_node srv = k"
      "allowed_timeout_ms srv < 65536"
    and "tgt = sub_at (srv_od srv) (no, rq_sub r)" "so_attr tgt AND ODA_SDO_W \<noteq> 0" "p_ext tgt = None" "p_temp_data tgt = None"
      "p_data tgt = Some old" "n \<le> so_len tgt" "so_len tgt \<le> length old" "so_len tgt < 65536"
    and "list_all (in_time (start_request r (co_client (parent s))) srv) (map (\<lambda>(dt, ds). (y, dt, ds)) ts)"
      "length ts = transfer_turns n" and "dt < 65536"
  shows "\<exists>s' srv' fs out tx rx. net_run build cf (ta # tb # ts @ [(dt, ds)]) (s, srv, []) = Inr ((s', srv', fs), out)
    \<and> answer_list out = [Answer cb CO_SDO_RT_success tx rx (rq_arg r)]
    \<and> srv_od srv' = set_sub (no, rq_sub r) (tgt\<lparr>p_data := Some (take n d @ drop n old)\<rparr>) (srv_od srv)
    \<and> fifo_items (sdo_queue s') = [] \<and> \<not> sdo_process s'"
  by (rule write_summed [OF write_is_carried_out [OF assms]])

text \<open>An instance: the byte 30 for object 0x2180.2 of node 5, one call a millisecond.\<close>

definition example_write :: "sdo_request" where
  "example_write = mk_request SM_SDO_W ODA_SDO_W 0x2180 2 5 (Some [30]) 1 1000 (Some 7) 0"

definition example_offered :: "sm_co" where
  "example_offered = example_co\<lparr>sdo_queue := fifo_put example_write (sm_fifo_init True (example_request 0) 10 44)\<rparr>"

lemma example_offered_queue: "fifo_ok (sdo_queue example_offered)" "fifo_items (sdo_queue example_offered) = [example_write]"
  using push_spec [of "sm_fifo_init True (example_request 0) 10 44" example_write] fifo_init_ok [of 10 44 "example_request 0"]
  by (auto simp: example_offered_def fifo_put_def sm_fifo_init_def)

theorem queued_write_is_done_witness:
  "\<exists>s' srv' fs out tx rx. net_run (\<lambda>_ d. d) (CO_EXT_CONFIRM_success, 0)
       ((1, 1) # (1, 1) # replicate 2 (1, 1) @ [(1, 1)]) (example_offered, example_server, []) = Inr ((s', srv', fs), out)
    \<and> answer_list out = [Answer 7 CO_SDO_RT_success tx rx 0]
    \<and> srv_od srv' = set_sub (0, 2) ((sub_at (srv_od example_server) (0, 2))\<lparr>p_data := Some (take 1 [30] @ drop 1 (replicate 10 0))\<rparr>)
        (srv_od example_server)
    \<and> fifo_items (sdo_queue s') = [] \<and> \<not> sdo_process s'"
proof -
  have r: "rq_rw example_write = SM_SDO_W" "rq_cb example_write = Some 7" "rq_node example_write = 5" "rq_timeout example_write < 65536"
    "so_len (rq_obj example_write) = 1" "p_data (rq_obj example_write) = Some [30]" "rq_index example_write = 0x2180"
    "rq_sub example_write = 2" "rq_arg example_write = 0"
    by (simp_all add: example_write_def mk_request_def u16_of_int_def)
  have p: "parent example_offered = example_node" "\<not> sdo_process example_offered" "\<not> is_sdo_now example_offered"
    by (simp_all add: example_offered_def example_co_def)
  have q: "quiet_node example_node" "co_client example_node = example_client"
    by (simp_all add: quiet_node_def example_node_def example_idle)
  have time: "rq_timeout example_write = 1000" by (simp add: example_write_def mk_request_def u16_of_int_def)
  have turns: "list_all (in_time (start_request example_write example_client) example_server)
      (map (\<lambda>(dt, ds). (co_sync example_node, dt, ds)) (replicate 2 (1, 1)))"
    by (simp add: numeral_2_eq_2 in_time_def start_request_def r time CO_SDOclient_start_download_def client_start_def
        CO_SDOclient_is_in_sync_window_len_def example_client_def example_server_def)
  note done_ = queued_write_is_done [where s = example_offered and r = example_write and ts = "replicate 2 (1, 1)" and no = 0
      and srv = example_server and tgt = "sub_at (srv_od example_server) (0, 2)" and old = "replicate 10 0" and k = 5 and n = 1
      and d = "[30]" and dt = 1, unfolded p(1) r q(2)]
  show ?thesis
    by (rule done_ [OF q(1) example_idle(1) _ p(2,3) example_offered_queue refl refl refl _ refl _ refl _ refl _ example_idle(2)
          example_names _ _ _ _ _ _ _ _ _ _ _ _ turns]; simp add: example_defs example_node_def sub_at_def transfer_turns_def time)
qed

end
