(* ===== verification/Pmu_Uart_Laws.thy ===== *)
theory Pmu_Uart_Laws
  imports Pmu_Uart Co_Net
begin

text \<open>
  The console end to end: what a line does, up to the dictionary of the motor controller and back.
\<close>

section \<open>The buffer of the serial port\<close>

lemma get_data_ok:
  assumes "uart_ok m"
  shows "\<exists>r m'. uart_module_get_data (buff_size m) m = Inr (r, m') \<and> uart_ok m' \<and> buff_size m' = buff_size m
    \<and> (\<forall>s. r = Some s \<longrightarrow> length s < buff_size m)"
proof -
  obtain b where b: "m_buff m = Some b" "length b = buff_size m" "buff_index m < buff_size m"
    using assms by (auto simp: uart_ok_def)
  have "length (c_str (buff_index m) b) \<le> buff_index m"
    using length_takeWhile_le [of "\<lambda>c. c \<noteq> NUL" "take (buff_index m) b"] b by (simp add: c_str_def)
  then show ?thesis using assms b by (auto simp: uart_module_get_data_def copy_line_def uart_ok_def)
qed

lemma recv_keeps_size: "uart_module_recv_data_callback d m = Inr m' \<Longrightarrow> buff_size m' = buff_size m"
  by (auto simp: uart_module_recv_data_callback_def Let_def split: if_splits option.splits)

lemma recv_all_keeps_size: "uart_recv_all ds m = Inr m' \<Longrightarrow> buff_size m' = buff_size m"
  by (induction ds arbitrary: m) (auto split: sum.splits dest: recv_keeps_size)

text \<open>C32.
  Whatever bytes arrive, the receive interrupt writes inside the buffer of the module, and reading a line into an array
  of the same size neither faults nor gives a string that does not fit with its end.\<close>

theorem serial_stays_in_bounds:
  assumes "uart_ok m"
  shows "\<exists>m' r m''. uart_recv_all ds m = Inr m' \<and> uart_ok m' \<and> uart_module_get_data (buff_size m) m' = Inr (r, m'')
    \<and> uart_ok m'' \<and> (\<forall>s. r = Some s \<longrightarrow> length s < buff_size m)"
proof -
  obtain m' where m': "uart_recv_all ds m = Inr m'" "uart_ok m'" using recv_all_ok [OF assms] by blast
  then show ?thesis using get_data_ok [OF m'(2)] recv_all_keeps_size [OF m'(1)] by auto
qed

theorem serial_stays_in_bounds_witness:
  "\<exists>m' r m''. uart_recv_all (replicate 300 CHR ''n'') (uart_module_init (Some (replicate 100 CHR ''x'')) 100) = Inr m'
    \<and> uart_module_get_data 100 m' = Inr (r, m'') \<and> uart_ok m''"
  using serial_stays_in_bounds [of "uart_module_init (Some (replicate 100 CHR ''x'')) 100" "replicate 300 CHR ''n''"]
  by (auto simp: uart_ok_def uart_module_init_def)

section \<open>A line at the console\<close>

text \<open>The console waits for a line.\<close>

definition console_ready :: "sm_uart \<Rightarrow> bool" where
  "console_ready u \<longleftrightarrow> uart_ok (m_base u) \<and> buff_index (m_base u) = 0 \<and> buff_size (m_base u) = 100 \<and> \<not> uart_lock (m_base u)"

definition console_line :: "string \<Rightarrow> sm_uart \<Rightarrow> fault + sm_uart" where
  "console_line s u = (case uart_recv_all (s @ [BACKSLASH, CHR ''n'']) (m_base u) of Inl f \<Rightarrow> Inl f
     | Inr m \<Rightarrow> Inr (u\<lparr>m_base := m\<rparr>))"

definition pending_print :: "sm_uart \<Rightarrow> uart_msg list" where
  "pending_print u = (case m_cmd_current u of None \<Rightarrow> [] | Some w \<Rightarrow> [w])"

lemma line_is_parsed:
  assumes "console_ready u" "line_text s" "length s < 98"
  shows "\<exists>u'. console_line s u = Inr u' \<and>
    (\<exists>m. uart_ok m \<and> buff_index m = 0 \<and> buff_size m = 100 \<and> \<not> uart_lock m \<and>
     sm_uart_process pf u' = (case parse_command s of Inl f \<Rightarrow> Inl f
       | Inr r \<Rightarrow> and_then (Inr (u\<lparr>m_base := m, m_cmd_current := None, m_pause_poll := True\<rparr>, pending_print u))
            (run_command pf (case r of None \<Rightarrow> ([], []) | Some cd \<Rightarrow> cd))))"
proof -
  have u: "uart_ok (m_base u)" "buff_index (m_base u) = 0" "buff_size (m_base u) = 100" "\<not> uart_lock (m_base u)"
    using assms(1) by (simp_all add: console_ready_def)
  obtain m where m: "uart_recv_all (s @ [BACKSLASH, CHR ''n'']) (m_base u) = Inr m" "uart_ok m" "is_new_data m"
      "\<not> uart_lock m" "buff_size m = 100" "copy_line 100 m = Inr s"
    using recv_line [OF u(1,2) _ assms(2)] assms(3) u(3,4) by auto
  let ?m = "m\<lparr>is_new_data := False, buff_index := 0\<rparr>"
  have g: "uart_module_get_data 100 m = Inr (Some s, ?m)" using m(3,6) by (simp add: uart_module_get_data_def)
  have ok: "uart_ok ?m" using m(2) by (auto simp: uart_ok_def)
  have "sm_uart_process pf (u\<lparr>m_base := m\<rparr>) = (case parse_command s of Inl f \<Rightarrow> Inl f
       | Inr r \<Rightarrow> and_then (Inr (u\<lparr>m_base := ?m, m_cmd_current := None, m_pause_poll := True\<rparr>, pending_print u))
            (run_command pf (case r of None \<Rightarrow> ([], []) | Some cd \<Rightarrow> cd)))"
  proof (cases "m_cmd_current u")
    case None
    then show ?thesis using g
      by (cases u) (simp add: sm_uart_process_def pending_print_def and_then_def Let_def split: sum.splits)
  next
    case (Some w)
    then show ?thesis using g m(4)
      by (cases u) (simp add: sm_uart_process_def pending_print_def uart_print_def uart_module_write_def and_then_def Let_def split: sum.splits)
  qed
  then show ?thesis using m(1,4,5) ok by (intro exI [of _ "u\<lparr>m_base := m\<rparr>"] conjI) (auto simp: console_line_def intro!: exI [of _ ?m])
qed

lemma strtok_no_eq: "CHR ''='' \<notin> set s \<Longrightarrow> s \<noteq> [] \<Longrightarrow> strtok s = (Some s, [])"
proof -
  assume s: "CHR ''='' \<notin> set s" "s \<noteq> []"
  have d: "dropWhile (\<lambda>c. c = CHR ''='') s = s" using s by (cases s) auto
  have t: "takeWhile (\<lambda>c. c \<noteq> CHR ''='') s = s" using s by (auto simp: takeWhile_eq_all_conv)
  show ?thesis unfolding strtok_def d Let_def t using s(2) by simp
qed

lemma strtok_eq: "CHR ''='' \<notin> set s \<Longrightarrow> s \<noteq> [] \<Longrightarrow> strtok (s @ CHR ''='' # t) = (Some s, t)"
proof -
  assume s: "CHR ''='' \<notin> set s" "s \<noteq> []"
  have "dropWhile (\<lambda>c. c = CHR ''='') (s @ CHR ''='' # t) = s @ CHR ''='' # t" using s by (cases s) auto
  moreover have "takeWhile (\<lambda>c. c \<noteq> CHR ''='') (s @ CHR ''='' # t) = s" using s by (simp add: takeWhile_append)
  ultimately show ?thesis by (simp add: strtok_def)
qed

lemma strtok_Nil: "strtok [] = (None, [])"
  by (simp add: strtok_def)

definition trimmed :: "string \<Rightarrow> string" where
  "trimmed s = rev (dropWhile isspace (rev (dropWhile isspace s)))"

lemma trim_string_Some: "trim_string (Some s) = Inr (trimmed s)"
  by (simp add: trim_string_def trimmed_def)

text \<open>A console over the node of \<open>Core_Co_Laws\<close>.\<close>

definition example_config :: "cfg_cb ev_config" where
  "example_config = \<lparr>m_data_write = \<lparr>ibat_limit = replicate 4 0, uv_protect = replicate 4 0, sport_speed = 0, eco_speed = 0\<rparr>,
     m_data_config = \<lparr>purpose = 0, switch_config = 0,
       inspection_config = \<lparr>ibat_limit = replicate 4 0, uv_protect = replicate 4 0, sport_speed = 0, eco_speed = 0\<rparr>\<rparr>,
     m_cmd = \<lparr>cc_cmd = EV_CFG_READ, cc_cb = None, cc_data = Ptr_Null\<rparr>\<rparr>"

definition example_platform :: platform where
  "example_platform = \<lparr>pf_atof = \<lambda>_. replicate 4 0, pf_image = \<lambda>_. []\<rparr>"

definition example_console :: "sm_uart" where
  "example_console = sm_pmu_uart_create_default (Some (replicate 100 CHR ''x'')) True example_config example_co"

lemma example_console_ready: "console_ready example_console" "m_co example_console = example_co" "pending_print example_console = []"
  by (simp_all add: example_console_def console_ready_def sm_pmu_uart_create_default_def uart_module_init_def uart_ok_def pending_print_def)

lemma example_co_queue:
  "fifo_ok (sdo_queue example_co)" "fifo_items (sdo_queue example_co) = []" "fifo_length (sdo_queue example_co) = 11"
  using fifo_init_ok [of 10 44 "example_request 0"] by (simp_all add: example_co_def sm_fifo_init_def)

text \<open>
  A line without a value. The menus are opened by \<^verbatim>\<open>READ\<close>, \<^verbatim>\<open>WRITE\<close> and \<^verbatim>\<open>EXIT\<close>, as the idle message says, but every line
  that has no \<open>=\<close> and is not empty ends in the trimming of a null pointer: no menu can be opened.\<close>

theorem menu_command_faults:
  assumes "console_ready u" "line_text s" "length s < 98" "s \<noteq> []" "CHR ''='' \<notin> set s" "length (trimmed s) < 10"
  shows "\<exists>u'. console_line s u = Inr u' \<and> sm_uart_process pf u' = Inl Null_Deref"
proof -
  have "parse_command s = Inl Null_Deref"
    using assms(4-6) by (simp add: parse_command_def strtok_no_eq strtok_Nil trim_string_Some strcpy_def trim_string_def [of None])
  then show ?thesis using line_is_parsed [OF assms(1-3), of pf] by auto
qed

theorem menu_command_faults_witness:
  "\<exists>u'. console_line ''READ'' example_console = Inr u' \<and> sm_uart_process example_platform u' = Inl Null_Deref"
  by (rule menu_command_faults) (simp_all add: example_console_ready line_text_def trimmed_def isspace_def)

section \<open>Commands with a value\<close>

text \<open>The sub-index and the bytes of a command.\<close>

definition console_target :: "platform \<Rightarrow> string \<Rightarrow> string \<Rightarrow> (nat \<times> u8 list) option" where
  "console_target pf name t =
     (if name = ''UV'' then Some (5, pf_atof pf t)
      else if name = ''I_BAT'' then Some (4, pf_atof pf t)
      else if name = ''ECO'' then Some (3, [of_int (atoi t)])
      else if name = ''SPORT'' then Some (2, [of_int (atoi t)]) else None)"

lemma console_target_cases:
  assumes "console_target pf name t = Some (sub, xs)"
  obtains "name = ''UV''" "sub = 5" "xs = pf_atof pf t" | "name = ''I_BAT''" "sub = 4" "xs = pf_atof pf t"
  | "name = ''ECO''" "sub = 3" "xs = [of_int (atoi t)]" | "name = ''SPORT''" "sub = 2" "xs = [of_int (atoi t)]"
  using assms by (auto simp: console_target_def split: if_splits)

lemma issue_cmd_push:
  assumes "cfg_target c (store (m_ev_config u)) = Some (sub, xs)" "sm_sdo_push (cfg_request sub xs) (m_co u) = Inr (ok, co)"
  shows "\<exists>cfg. issue_cmd pf c cb v store u = Inr (u\<lparr>m_ev_config := cfg, m_co := co\<rparr>, [])
    \<and> cc_cb (m_cmd cfg) = Some cb \<and> cc_data (m_cmd cfg) = Ptr_Dead"
proof -
  have "sm_ev_config_co_set_cmd img \<lparr>cc_cmd = c, cc_cb = Some cb, cc_data = Ptr_Live v\<rparr> (store (m_ev_config u), m_co u)
      = Inr (0, (store (m_ev_config u))\<lparr>m_cmd := \<lparr>cc_cmd = c, cc_cb = Some cb, cc_data = Ptr_Live v\<rparr>\<rparr>, co)" for img
    by (rule set_cmd_push [OF _ assms(2)]) (use assms(1) in simp)
  then show ?thesis
    by (intro exI [of _ "(store (m_ev_config u))\<lparr>m_cmd := \<lparr>cc_cmd = c, cc_cb = Some cb, cc_data = Ptr_Dead\<rparr>\<rparr>"])
      (simp add: issue_cmd_def)
qed

lemma run_command_push:
  assumes "console_target pf name t = Some (sub, xs)" "sm_sdo_push (cfg_request sub xs) (m_co u) = Inr (ok, co)"
  shows "\<exists>cfg. run_command pf (name, t) u = Inr (u\<lparr>m_ev_config := cfg, m_co := co\<rparr>, [])
    \<and> cc_cb (m_cmd cfg) \<noteq> None \<and> cc_data (m_cmd cfg) = Ptr_Dead"
  using assms(1)
proof (cases rule: console_target_cases)
  case 1
  then show ?thesis
    using issue_cmd_push [of EV_CFG_UV_PROTECT "sm_ev_set_uv_protect xs" u sub xs ok co pf msg_cmd_write_uv_res_cb xs] assms(2)
    by (auto simp: run_command_def UART_CMD_def msg_idle_state_handler_def msg_cmd_write_uv_def sm_ev_set_uv_protect_def Let_def)
next
  case 2
  then show ?thesis
    using issue_cmd_push [of EV_CFG_IBAT_LIMIT "sm_ev_set_ibat_limit xs" u sub xs ok co pf msg_cmd_write_ibat_limit_res_cb xs] assms(2)
    by (auto simp: run_command_def UART_CMD_def msg_idle_state_handler_def msg_cmd_write_ibat_def sm_ev_set_ibat_limit_def Let_def)
next
  case 3
  then show ?thesis
    using issue_cmd_push [of EV_CFG_ECO_SPEED "sm_ev_set_eco_speed (of_int (atoi t))" u sub xs ok co pf msg_cmd_write_eco_sport_res_cb xs]
      assms(2)
    by (auto simp: run_command_def UART_CMD_def msg_idle_state_handler_def msg_cmd_write_eco_sport_def sm_ev_set_eco_speed_def Let_def)
next
  case 4
  then show ?thesis
    using issue_cmd_push [of EV_CFG_SPORT_SPEED "sm_ev_set_sport_speed (of_int (atoi t))" u sub xs ok co pf
        msg_cmd_write_speed_sport_res_cb xs] assms(2)
    by (auto simp: run_command_def UART_CMD_def msg_idle_state_handler_def msg_cmd_write_speed_sport_def sm_ev_set_sport_speed_def Let_def)
qed

lemma parse_value:
  assumes "console_target pf name t = Some target" "t = trimmed txt" "CHR ''='' \<notin> set txt" "txt \<noteq> []" "length t < 10"
  shows "parse_command (name @ CHR ''='' # txt) = Inr (Some (name, t))"
proof -
  obtain sub xs where "target = (sub, xs)" by (cases target)
  then have n: "console_target pf name t = Some (sub, xs)" using assms(1) by simp
  have "CHR ''='' \<notin> set name \<and> name \<noteq> [] \<and> trimmed name = name \<and> length name < 10"
    using n by (cases rule: console_target_cases) (simp_all add: trimmed_def isspace_def)
  then show ?thesis using assms(2-5)
    by (simp add: parse_command_def strtok_eq strtok_no_eq trim_string_Some strcpy_def)
qed

lemma value_is_queued:
  assumes "console_ready u" "console_target pf name (trimmed txt) = Some (sub, xs)"
    and "line_text txt" "CHR ''='' \<notin> set txt" "txt \<noteq> []" "length txt < 90" "length (trimmed txt) < 10"
    and "fifo_ok (sdo_queue (m_co u))" "length (fifo_items (sdo_queue (m_co u))) < fifo_length (sdo_queue (m_co u)) - 1"
  shows "\<exists>u' u'' q. console_line (name @ CHR ''='' # txt) u = Inr u' \<and> sm_uart_process pf u' = Inr (u'', pending_print u)
    \<and> console_ready u'' \<and> cc_cb (m_cmd (m_ev_config u'')) \<noteq> None \<and> cc_data (m_cmd (m_ev_config u'')) = Ptr_Dead
    \<and> m_co u'' = (m_co u)\<lparr>sdo_queue := q\<rparr> \<and> fifo_ok q
    \<and> fifo_items q = fifo_items (sdo_queue (m_co u)) @ [cfg_request sub xs]"
proof -
  obtain q where q: "sm_fifo_push (cfg_request sub xs) (sdo_queue (m_co u)) = Inr (True, q)" "fifo_ok q"
      "fifo_items q = fifo_items (sdo_queue (m_co u)) @ [cfg_request sub xs]"
    using push_spec [OF assms(8), of "cfg_request sub xs"] assms(9) by auto
  have push: "sm_sdo_push (cfg_request sub xs) (m_co u) = Inr (True, (m_co u)\<lparr>sdo_queue := q\<rparr>)" using q(1) by (simp add: sm_sdo_push_def)
  have name: "line_text name" "length name < 8"
    using assms(2) by (cases rule: console_target_cases; simp add: line_text_def)+
  have whole: "line_text (name @ CHR ''='' # txt)" "length (name @ CHR ''='' # txt) < 98"
    using assms(3,6) name by (simp_all add: line_text_def)
  have p: "parse_command (name @ CHR ''='' # txt) = Inr (Some (name, trimmed txt))"
    by (rule parse_value [OF assms(2) refl assms(4,5,7)])
  obtain u' m where u': "console_line (name @ CHR ''='' # txt) u = Inr u'" "uart_ok m" "buff_index m = 0" "buff_size m = 100"
      "\<not> uart_lock m" "sm_uart_process pf u' = and_then
         (Inr (u\<lparr>m_base := m, m_cmd_current := None, m_pause_poll := True\<rparr>, pending_print u)) (run_command pf (name, trimmed txt))"
    using line_is_parsed [OF assms(1) whole, of pf] p by auto
  obtain cfg where "run_command pf (name, trimmed txt) (u\<lparr>m_base := m, m_cmd_current := None, m_pause_poll := True\<rparr>)
      = Inr (u\<lparr>m_base := m, m_cmd_current := None, m_pause_poll := True, m_ev_config := cfg, m_co := (m_co u)\<lparr>sdo_queue := q\<rparr>\<rparr>, [])"
      "cc_cb (m_cmd cfg) \<noteq> None" "cc_data (m_cmd cfg) = Ptr_Dead"
    using run_command_push [OF assms(2), of "u\<lparr>m_base := m, m_cmd_current := None, m_pause_poll := True\<rparr>" True
        "(m_co u)\<lparr>sdo_queue := q\<rparr>"] push by auto
  then show ?thesis using u' q(2,3)
    by (intro exI [of _ u'] exI [of _ "u\<lparr>m_base := m, m_cmd_current := None, m_pause_poll := True, m_ev_config := cfg,
          m_co := (m_co u)\<lparr>sdo_queue := q\<rparr>\<rparr>"] exI [of _ q]) (simp add: console_ready_def and_then_def)
qed

text \<open>C9.
  A line \<^verbatim>\<open>NAME=VALUE\<close>, with blanks around the value or not, puts one write request in the queue of the CANopen core, after
  those that wait there: object 0x2180 of node 2, the sub-index of the name, the value as a byte (\<^verbatim>\<open>ECO\<close>, \<^verbatim>\<open>SPORT\<close>; modulo 256)
  or as a \<^verbatim>\<open>float\<close> (\<^verbatim>\<open>UV\<close>, \<^verbatim>\<open>I_BAT\<close>), timeout one second. The console is ready for the next line. The value has at most nine
  characters, the queue has room.\<close>

theorem console_value_is_queued:
  assumes "console_ready u" "console_target pf name (trimmed txt) = Some (sub, xs)"
    and "line_text txt" "CHR ''='' \<notin> set txt" "txt \<noteq> []" "length txt < 90" "length (trimmed txt) < 10"
    and "fifo_ok (sdo_queue (m_co u))" "length (fifo_items (sdo_queue (m_co u))) < fifo_length (sdo_queue (m_co u)) - 1"
  shows "\<exists>u' u''. console_line (name @ CHR ''='' # txt) u = Inr u' \<and> sm_uart_process pf u' = Inr (u'', pending_print u)
    \<and> console_ready u'' \<and> fifo_ok (sdo_queue (m_co u''))
    \<and> fifo_items (sdo_queue (m_co u'')) = fifo_items (sdo_queue (m_co u)) @
        [mk_request SM_SDO_W ODA_SDO_W 0x2180 sub 2 (Some xs) (int (length xs)) 1000 (Some CFG_SDO_CB) 0]"
  using value_is_queued [OF assms] by (auto simp: cfg_request_def)

lemma example_target: "console_target pf ''ECO'' (trimmed '' 300 '') = Some (3, [44])"
  by (simp add: console_target_def trimmed_def isspace_def atoi_def digits_def is_digit_def)

theorem console_value_is_queued_witness:
  "\<exists>u' u''. console_line ''ECO= 300 '' example_console = Inr u' \<and> sm_uart_process example_platform u' = Inr (u'', [])
    \<and> fifo_items (sdo_queue (m_co u'')) = [mk_request SM_SDO_W ODA_SDO_W 0x2180 3 2 (Some [44]) 1 1000 (Some 1) 0]"
  using console_value_is_queued [OF example_console_ready(1) example_target, of example_platform] example_co_queue
  by (auto simp: example_console_ready line_text_def trimmed_def isspace_def)

section \<open>From the console to the controller\<close>

text \<open>A node of the unit that is free and has no request.\<close>

definition co_free :: "sm_co \<Rightarrow> bool" where
  "co_free co \<longleftrightarrow> quiet_node (parent co) \<and> client_idle (co_client (parent co)) \<and> sdo_state (co_client (parent co)) = CO_SDO_ST_IDLE
     \<and> \<not> sdo_process co \<and> \<not> is_sdo_now co \<and> fifo_ok (sdo_queue co) \<and> fifo_items (sdo_queue co) = []
     \<and> 1 < fifo_length (sdo_queue co) \<and> sync_can_id (co_sync (parent co)) \<noteq> CO_CAN_ID_SDO_SRV + 2"

text \<open>The motor controller: an idle server of node 2 with a writable object of at least \<open>n\<close> bytes.\<close>

definition controller_ready :: "nat \<Rightarrow> nat \<Rightarrow> nat \<Rightarrow> u8 list \<Rightarrow> sdo_server \<Rightarrow> bool" where
  "controller_ready no sub n old srv \<longleftrightarrow> server_idle srv \<and> names_obj srv 0x2180 sub no \<and> tx_node srv = 2 \<and> rx_node srv = 2
     \<and> allowed_timeout_ms srv < 65536
     \<and> (let tgt = sub_at (srv_od srv) (no, sub) in so_attr tgt AND ODA_SDO_W \<noteq> 0 \<and> p_ext tgt = None \<and> p_temp_data tgt = None
          \<and> p_data tgt = Some old \<and> n \<le> so_len tgt \<and> so_len tgt \<le> length old \<and> so_len tgt < 65536)"

lemma cfg_request_fields:
  "length xs < 65536 \<Longrightarrow> so_len (rq_obj (cfg_request sub xs)) = length xs"
  "rq_rw (cfg_request sub xs) = SM_SDO_W" "rq_cb (cfg_request sub xs) = Some CFG_SDO_CB" "rq_node (cfg_request sub xs) = 2"
  "rq_timeout (cfg_request sub xs) = 1000" "p_data (rq_obj (cfg_request sub xs)) = Some xs" "rq_index (cfg_request sub xs) = 0x2180"
  "rq_sub (cfg_request sub xs) = sub" "rq_arg (cfg_request sub xs) = 0"
  by (simp_all add: cfg_request_def mk_request_def u16_of_int_def nat_mod_as_int)

lemma dead_answer_faults:
  assumes "cc_cb (m_cmd (m_ev_config u)) \<noteq> None" "cc_data (m_cmd (m_ev_config u)) = Ptr_Dead"
    and "st = CO_SDO_RT_success \<or> st = CO_SDO_RT_abort"
  shows "on_sdo_answer (Answer CFG_SDO_CB st tx rx arg) u = Inl Dangling"
  using assms by (auto simp: on_sdo_answer_def sm_bp_co_wrirte_sdo_cb_def console_answer_def read_ptr_def)

text \<open>C8.
  The whole way. With the queue empty and the motor controller idle, a line \<^verbatim>\<open>NAME=VALUE\<close>, the poll of the console and
  \<open>transfer_turns n + 3\<close> calls of \<^verbatim>\<open>sm_co_process\<close> in time write the value to the dictionary of the controller, and the core
  answers with success. That answer then reads the value through a pointer to a variable of a function that has
  returned: the message of success is printed from a dead variable.\<close>

theorem console_write_then_faults:
  assumes "console_ready u" "console_target pf name (trimmed txt) = Some (sub, xs)"
    and "line_text txt" "CHR ''='' \<notin> set txt" "txt \<noteq> []" "length txt < 90" "length (trimmed txt) < 10"
    and "co_free (m_co u)" "controller_ready no sub (length xs) old srv" "0 < length xs" "length xs < 65536"
    and "list_all (in_time (start_request (cfg_request sub xs) (co_client (parent (m_co u)))) srv)
           (map (\<lambda>(dt, ds). (co_sync (parent (m_co u)), dt, ds)) ts)" "length ts = transfer_turns (length xs)" "dt < 65536"
  shows "\<exists>u' u'' co srv' fs out a. console_line (name @ CHR ''='' # txt) u = Inr u' \<and> sm_uart_process pf u' = Inr (u'', pending_print u)
    \<and> net_run build cf (ta # tb # ts @ [(dt, ds)]) (m_co u'', srv, []) = Inr ((co, srv', fs), out)
    \<and> srv_od srv' = set_sub (no, sub) ((sub_at (srv_od srv) (no, sub))\<lparr>p_data := Some (xs @ drop (length xs) old)\<rparr>) (srv_od srv)
    \<and> answer_list out = [a] \<and> on_sdo_answer a (u''\<lparr>m_co := co\<rparr>) = Inl Dangling"
proof -
  have free: "quiet_node (parent (m_co u))" "client_idle (co_client (parent (m_co u)))" "sdo_state (co_client (parent (m_co u))) = CO_SDO_ST_IDLE"
      "\<not> sdo_process (m_co u)" "\<not> is_sdo_now (m_co u)" "fifo_ok (sdo_queue (m_co u))" "fifo_items (sdo_queue (m_co u)) = []"
      "1 < fifo_length (sdo_queue (m_co u))" "sync_can_id (co_sync (parent (m_co u))) \<noteq> CO_CAN_ID_SDO_SRV + 2"
    using assms(8) by (simp_all add: co_free_def)
  let ?tgt = "sub_at (srv_od srv) (no, sub)"
  have srv: "server_idle srv" "names_obj srv 0x2180 sub no" "tx_node srv = 2" "rx_node srv = 2" "allowed_timeout_ms srv < 65536"
      "so_attr ?tgt AND ODA_SDO_W \<noteq> 0" "p_ext ?tgt = None" "p_temp_data ?tgt = None" "p_data ?tgt = Some old"
      "length xs \<le> so_len ?tgt" "so_len ?tgt \<le> length old" "so_len ?tgt < 65536"
    using assms(9) by (simp_all add: controller_ready_def Let_def)
  obtain u' u'' q where u: "console_line (name @ CHR ''='' # txt) u = Inr u'" "sm_uart_process pf u' = Inr (u'', pending_print u)"
      "cc_cb (m_cmd (m_ev_config u'')) \<noteq> None" "cc_data (m_cmd (m_ev_config u'')) = Ptr_Dead"
      "m_co u'' = (m_co u)\<lparr>sdo_queue := q\<rparr>" "fifo_ok q" "fifo_items q = [cfg_request sub xs]"
    using value_is_queued [OF assms(1-7) free(6)] free(7,8) by auto
  have "\<exists>s' srv' fs out tx rx. net_run build cf (ta # tb # ts @ [(dt, ds)]) (m_co u'', srv, []) = Inr ((s', srv', fs), out)
    \<and> answer_list out = [Answer CFG_SDO_CB CO_SDO_RT_success tx rx (rq_arg (cfg_request sub xs))]
    \<and> srv_od srv' = set_sub (no, rq_sub (cfg_request sub xs)) (?tgt\<lparr>p_data := Some (take (length xs) xs @ drop (length xs) old)\<rparr>) (srv_od srv)
    \<and> fifo_items (sdo_queue s') = [] \<and> \<not> sdo_process s'"
    by (rule write_summed, rule write_is_carried_out [where tgt = ?tgt and k = 2 and y = "co_sync (parent (m_co u))"])
      (use u(5-7) free srv assms(10-14) in \<open>simp_all add: cfg_request_fields\<close>)
  then obtain co srv' fs out tx rx where n: "net_run build cf (ta # tb # ts @ [(dt, ds)]) (m_co u'', srv, []) = Inr ((co, srv', fs), out)"
      "answer_list out = [Answer CFG_SDO_CB CO_SDO_RT_success tx rx 0]"
      "srv_od srv' = set_sub (no, sub) (?tgt\<lparr>p_data := Some (xs @ drop (length xs) old)\<rparr>) (srv_od srv)"
    by (auto simp: cfg_request_fields)
  have "on_sdo_answer (Answer CFG_SDO_CB CO_SDO_RT_success tx rx 0) (u''\<lparr>m_co := co\<rparr>) = Inl Dangling"
    by (rule dead_answer_faults) (use u(3,4) in simp_all)
  then show ?thesis using u(1,2) n by blast
qed

definition example_controller :: "sdo_server" where
  "example_controller = example_server\<lparr>tx_node := 2, rx_node := 2,
     srv_od := \<lparr>od_number = 1, od_list = [\<lparr>obj_index = 0x2180, sub_number = 6, obj_subs =
       replicate 6 \<lparr>p_data = Some (replicate 4 0), so_attr = ODA_SDO_RW, so_len = 4, p_ext = None, p_temp_data = None\<rparr>\<rparr>]\<rparr>\<rparr>"

lemma example_sides: "co_free example_co" "controller_ready 0 3 1 (replicate 4 0) example_controller"
proof -
  have "quiet_node example_node" "co_client example_node = example_client"
    by (simp_all add: quiet_node_def example_node_def example_idle)
  moreover have "parent example_co = example_node" "\<not> sdo_process example_co" "\<not> is_sdo_now example_co" by (simp_all add: example_co_def)
  moreover have "sync_can_id (co_sync example_node) = 0x80" "sdo_state example_client = CO_SDO_ST_IDLE"
    by (simp_all add: example_node_def example_sync_def example_client_def)
  ultimately show "co_free example_co" using example_co_queue by (simp add: co_free_def example_idle)
  have "server_idle example_controller" using example_idle(2) by (simp add: example_controller_def server_idle_def)
  then show "controller_ready 0 3 1 (replicate 4 0) example_controller"
    by (simp add: controller_ready_def example_controller_def example_server_def names_obj_def od_ok_def sub_at_def)
qed

theorem console_write_then_faults_witness:
  "\<exists>u' u'' co srv' fs out a. console_line ''ECO=30'' example_console = Inr u' \<and> sm_uart_process example_platform u' = Inr (u'', [])
    \<and> net_run (\<lambda>_ d. d) (CO_EXT_CONFIRM_success, 0) ((1, 1) # (1, 1) # replicate 2 (1, 1) @ [(1, 1)]) (m_co u'', example_controller, [])
        = Inr ((co, srv', fs), out)
    \<and> srv_od srv' = set_sub (0, 3) ((sub_at (srv_od example_controller) (0, 3))\<lparr>p_data := Some ([30] @ drop 1 (replicate 4 0))\<rparr>)
        (srv_od example_controller)
    \<and> answer_list out = [a] \<and> on_sdo_answer a (u''\<lparr>m_co := co\<rparr>) = Inl Dangling"
proof -
  have target: "console_target pf ''ECO'' (trimmed ''30'') = Some (3, [30])" for pf
    by (simp add: console_target_def trimmed_def isspace_def atoi_def digits_def is_digit_def)
  have "co_client (parent example_co) = example_client" "\<And>a b. in_time (start_request (cfg_request 3 [30]) example_client) example_controller (y, 1, 1)" for y
    by (simp_all add: example_co_def example_node_def in_time_def start_request_def cfg_request_fields CO_SDOclient_start_download_def
        client_start_def CO_SDOclient_is_in_sync_window_len_def example_client_def example_controller_def example_server_def)
  then have turns: "list_all (in_time (start_request (cfg_request 3 [30]) (co_client (parent (m_co example_console)))) example_controller)
      (map (\<lambda>(dt, ds). (co_sync (parent (m_co example_console)), dt, ds)) (replicate 2 (1, 1)))"
    by (simp add: example_console_ready numeral_2_eq_2)
  show ?thesis
    using console_write_then_faults [where pf = example_platform, OF example_console_ready(1) target [where pf = example_platform] _ _ _ _ _ _ _ _ _ turns, of 0 "replicate 4 0" 1] example_sides
    by (simp add: example_console_ready line_text_def trimmed_def isspace_def transfer_turns_def)
qed

end
