(* ===== verification/Sched.thy ===== *)
theory Sched
  imports Elapsed_Timer
begin

text \<open>
  \<^verbatim>\<open>cores/sch/sm_core_sch.c\<close>: the cooperative scheduler, which runs in the second timer interrupt of \<^verbatim>\<open>src/hal_entry.c\<close>.
  A task function and its argument are numbers, the null function is \<open>None\<close>. What a task does to the scheduler that calls
  it is a parameter: the operations it performs, for a time, a function and an argument. The clock is read anew for each
  entry of the table and again after its call: \<open>clk (2 * i)\<close> and \<open>clk (2 * i + 1)\<close>.
\<close>

section \<open>State and operations\<close>

text \<open>An \<^verbatim>\<open>int32_t\<close> after an addition, as the compilers of the target wrap it.\<close>

definition s32 :: "int \<Rightarrow> int" where
  "s32 i = (i + 2 ^ 31) mod 2 ^ 32 - 2 ^ 31"

lemma s32_id: "- (2 ^ 31) \<le> i \<Longrightarrow> i < 2 ^ 31 \<Longrightarrow> s32 i = i"
  by (simp add: s32_def)

lemma s32_0 [simp]: "s32 0 = 0"
  by (simp add: s32_def)

record sch_entry =
  t_timeout :: elapsed_timer
  t_count :: int
  t_repeat :: int
  t_interval :: int
  t_fn :: "nat option"
  t_arg :: nat

type_synonym sch = "sch_entry list"

definition SM_SCH_TASK_MAX_SUPPORT :: nat where "SM_SCH_TASK_MAX_SUPPORT = 48"
definition SM_SCH_REPEAT_FOREVER :: int where "SM_SCH_REPEAT_FOREVER = 0xFFFF"

text \<open>Only the count and the argument of the first entry are set, once for each entry.\<close>

definition clear_task :: "sch_entry \<Rightarrow> sch_entry" where
  "clear_task e = e\<lparr>t_fn := None, t_interval := 0, t_repeat := 0\<rparr>"

definition sm_sch_init :: "sch \<Rightarrow> sch" where
  "sm_sch_init mem = (let es = map clear_task mem in es[0 := (es ! 0)\<lparr>t_count := 0, t_arg := 0\<rparr>])"

definition sm_sch_create_default :: "sch \<Rightarrow> sch" where
  "sm_sch_create_default g = sm_sch_init g"

definition sm_sch_create :: "sch option \<Rightarrow> sch option" where
  "sm_sch_create mem = map_option sm_sch_init mem"

definition sm_sch_free :: "bool \<Rightarrow> sch \<Rightarrow> int \<times> sch option" where
  "sm_sch_free is_default s = (if is_default then (-1, Some s) else (0, None))"

fun find_entry :: "(sch_entry \<Rightarrow> bool) \<Rightarrow> nat \<Rightarrow> sch \<Rightarrow> nat option" where
  "find_entry P i [] = None"
| "find_entry P i (e # es) = (if P e then Some i else find_entry P (Suc i) es)"

definition sm_sch_start_task :: "int \<Rightarrow> int \<Rightarrow> int \<Rightarrow> nat option \<Rightarrow> nat \<Rightarrow> sch \<Rightarrow> int \<times> sch" where
  "sm_sch_start_task now interval rep fn arg s =
     (case find_entry (\<lambda>e. t_fn e = fn \<and> t_arg e = arg) 0 s of
        Some i \<Rightarrow> (int i, s[i := (s ! i)\<lparr>t_interval := interval, t_repeat := rep, t_count := 0,
                              t_timeout := (t_timeout (s ! i))\<lparr>m_duration := interval\<rparr>\<rparr>])
      | None \<Rightarrow>
          (case find_entry (\<lambda>e. t_fn e = None) 0 s of
             None \<Rightarrow> (-1, s)
           | Some i \<Rightarrow> (int i, s[i := (s ! i)\<lparr>t_arg := arg, t_fn := fn, t_interval := interval, t_repeat := rep, t_count := 0,
                                   t_timeout := elapsed_timer_resetz now interval (t_timeout (s ! i))\<rparr>])))"

definition stop_task :: "sch_entry \<Rightarrow> sch_entry" where
  "stop_task e = e\<lparr>t_arg := 0, t_fn := None, t_interval := 0, t_repeat := 0, t_count := 0\<rparr>"

text \<open>A negative number is not refused: the entry before the table is written.\<close>

definition sm_sch_cancel_task :: "int \<Rightarrow> sch \<Rightarrow> fault + (int \<times> sch)" where
  "sm_sch_cancel_task k s =
     (if int SM_SCH_TASK_MAX_SUPPORT \<le> k then Inr (-1, s)
      else if k < 0 then Inl Out_Of_Bounds
      else Inr (0, s[nat k := stop_task (s ! nat k)]))"

definition sm_sch_cancel_taskz :: "nat option \<Rightarrow> sch \<Rightarrow> int \<times> sch" where
  "sm_sch_cancel_taskz fn s =
     (case fn of None \<Rightarrow> (-1, s) | Some _ \<Rightarrow> (0, map (\<lambda>e. if t_fn e = fn then stop_task e else e) s))"

text \<open>What a task may do to the scheduler.\<close>

datatype sch_op = Start_Task int int "nat option" nat | Cancel_Task int | Cancel_Taskz "nat option"

fun sch_exec :: "int \<Rightarrow> sch_op \<Rightarrow> sch \<Rightarrow> fault + sch" where
  "sch_exec now (Start_Task iv rep fn arg) s = Inr (snd (sm_sch_start_task now iv rep fn arg s))"
| "sch_exec now (Cancel_Task k) s = (case sm_sch_cancel_task k s of Inl f \<Rightarrow> Inl f | Inr (_, s) \<Rightarrow> Inr s)"
| "sch_exec now (Cancel_Taskz fn) s = Inr (snd (sm_sch_cancel_taskz fn s))"

fun sch_ops :: "int \<Rightarrow> sch_op list \<Rightarrow> sch \<Rightarrow> fault + sch" where
  "sch_ops now [] s = Inr s"
| "sch_ops now (op # ops) s = (case sch_exec now op s of Inl f \<Rightarrow> Inl f | Inr s \<Rightarrow> sch_ops now ops s)"

text \<open>The body of \<^verbatim>\<open>sm_sch_process\<close> for one entry: its test, the call, and what is read from the entry after the call.\<close>

definition task_due :: "int \<Rightarrow> sch_entry \<Rightarrow> bool" where
  "task_due now e \<longleftrightarrow> timed_out now (t_timeout e) \<and> t_fn e \<noteq> None"

definition after_call :: "int \<Rightarrow> sch_entry \<Rightarrow> sch_entry" where
  "after_call now e =
     (if t_count e < s32 (t_repeat e - 1) \<or> t_repeat e = SM_SCH_REPEAT_FOREVER
      then e\<lparr>t_count := s32 (t_count e + 1), t_timeout := elapsed_timer_reset now (t_timeout e)\<rparr>
      else e\<lparr>t_fn := None, t_arg := 0\<rparr>)"

type_synonym sch_tasks = "int \<Rightarrow> nat \<Rightarrow> nat \<Rightarrow> sch_op list"

definition sch_entry_step :: "sch_tasks \<Rightarrow> (nat \<Rightarrow> int) \<Rightarrow> nat \<Rightarrow> sch \<Rightarrow> (sch, nat \<times> nat) result" where
  "sch_entry_step tasks clk i s =
     (let e = s ! i in
      if \<not> task_due (clk (2 * i)) e then Inr (s, [])
      else let fn = the (t_fn e); now = clk (2 * i + 1) in
        (case sch_ops now (tasks now fn (t_arg e)) s of Inl f \<Rightarrow> Inl f
         | Inr s \<Rightarrow> Inr (s[i := after_call now (s ! i)], [(fn, t_arg e)])))"

definition sm_sch_process :: "sch_tasks \<Rightarrow> (nat \<Rightarrow> int) \<Rightarrow> sch \<Rightarrow> (sch, nat \<times> nat) result" where
  "sm_sch_process tasks clk s = run_all (sch_entry_step tasks clk) [0..<SM_SCH_TASK_MAX_SUPPORT] s"

section \<open>The table\<close>

text \<open>No task is in the table twice.\<close>

definition same_task :: "sch_entry \<Rightarrow> sch_entry \<Rightarrow> bool" where
  "same_task e e' \<longleftrightarrow> t_fn e \<noteq> None \<and> t_fn e = t_fn e' \<and> t_arg e = t_arg e'"

definition sch_ok :: "sch \<Rightarrow> bool" where
  "sch_ok s \<longleftrightarrow> length s = SM_SCH_TASK_MAX_SUPPORT \<and>
     (\<forall>i < SM_SCH_TASK_MAX_SUPPORT. \<forall>j < SM_SCH_TASK_MAX_SUPPORT. same_task (s ! i) (s ! j) \<longrightarrow> i = j)"

lemma sch_okD: "sch_ok s \<Longrightarrow> i < length s \<Longrightarrow> j < length s \<Longrightarrow> same_task (s ! i) (s ! j) \<Longrightarrow> i = j"
  by (simp add: sch_ok_def)

lemma same_task_sym: "same_task e e' \<Longrightarrow> same_task e' e"
  by (auto simp: same_task_def)

lemma sch_ok_length: "sch_ok s \<Longrightarrow> length s = SM_SCH_TASK_MAX_SUPPORT"
  by (simp add: sch_ok_def)

lemma find_entry_Some: "find_entry P i es = Some j \<Longrightarrow> i \<le> j \<and> j - i < length es \<and> P (es ! (j - i))"
  by (induction P i es rule: find_entry.induct) (auto split: if_splits simp: nth_Cons')

lemma find_entry_None: "find_entry P i es = None \<longleftrightarrow> (\<forall>e \<in> set es. \<not> P e)"
  by (induction P i es rule: find_entry.induct) auto

lemma find_entry_0: "find_entry P 0 es = Some j \<Longrightarrow> j < length es \<and> P (es ! j)"
  by (drule find_entry_Some) simp

lemma sch_ok_update:
  assumes "sch_ok s" "\<And>j. j < length s \<Longrightarrow> j \<noteq> i \<Longrightarrow> \<not> same_task e (s ! j)"
  shows "sch_ok (s[i := e])"
proof (cases "i < length s")
  case True
  have "same_task (s[i := e] ! k) (s[i := e] ! j) \<Longrightarrow> k = j" if "k < length s" "j < length s" for k j
    using assms(2) [of j] assms(2) [of k] sch_okD [OF assms(1) that] same_task_sym [of "s ! k" e] True that
    by (cases "k = i"; cases "j = i") (simp_all add: nth_list_update)
  then show ?thesis using sch_ok_length [OF assms(1)] by (simp add: sch_ok_def)
qed (simp add: list_update_beyond assms(1))

lemma sch_ok_free: "sch_ok s \<Longrightarrow> t_fn e = None \<Longrightarrow> sch_ok (s[i := e])"
  by (rule sch_ok_update) (simp_all add: same_task_def)

lemma sch_ok_same:
  assumes "sch_ok s" "i < length s" "t_fn e = t_fn (s ! i)" "t_arg e = t_arg (s ! i)"
  shows "sch_ok (s[i := e])"
  using assms(1)
proof (rule sch_ok_update)
  fix j
  assume j: "j < length s" "j \<noteq> i"
  show "\<not> same_task e (s ! j)" using sch_okD [OF assms(1,2) j(1)] j(2) assms(3,4) by (auto simp: same_task_def)
qed

lemma sch_start_ok:
  assumes "sch_ok s"
  shows "sch_ok (snd (sm_sch_start_task now iv rep fn arg s))"
proof (cases "find_entry (\<lambda>e. t_fn e = fn \<and> t_arg e = arg) 0 s")
  case None
  then have no: "\<And>j. j < length s \<Longrightarrow> \<not> (t_fn (s ! j) = fn \<and> t_arg (s ! j) = arg)"
    by (simp add: find_entry_None)
  show ?thesis
  proof (cases "find_entry (\<lambda>e. t_fn e = None) 0 s")
    case (Some i)
    have "sch_ok (s[i := e])" if "t_fn e = fn" "t_arg e = arg" for e
    proof (rule sch_ok_update [OF assms])
      fix j
      assume "j < length s"
      then show "\<not> same_task e (s ! j)" using no [of j] that by (auto simp: same_task_def)
    qed
    then show ?thesis using None Some by (simp add: sm_sch_start_task_def)
  qed (use None assms in \<open>simp add: sm_sch_start_task_def\<close>)
next
  case (Some i)
  then show ?thesis using find_entry_0 [OF Some] assms by (simp add: sm_sch_start_task_def sch_ok_same)
qed

lemma cancel_ok: "sch_ok s \<Longrightarrow> sm_sch_cancel_task k s = Inr (r, s') \<Longrightarrow> sch_ok s'"
  by (auto simp: sm_sch_cancel_task_def stop_task_def sch_ok_free split: if_splits)

lemma cancelz_ok: "sch_ok s \<Longrightarrow> sch_ok (snd (sm_sch_cancel_taskz fn s))"
  by (auto simp: sm_sch_cancel_taskz_def stop_task_def sch_ok_def same_task_def split: option.split)

lemma exec_ok: "sch_ok s \<Longrightarrow> sch_exec now op s = Inr s' \<Longrightarrow> sch_ok s'"
  by (cases op) (auto simp: sch_start_ok cancelz_ok split: sum.splits dest: cancel_ok)

lemma ops_ok: "sch_ok s \<Longrightarrow> sch_ops now ops s = Inr s' \<Longrightarrow> sch_ok s'"
  by (induction ops arbitrary: s) (auto split: sum.splits dest: exec_ok)

lemma after_call_ok: "sch_ok s \<Longrightarrow> i < SM_SCH_TASK_MAX_SUPPORT \<Longrightarrow> sch_ok (s[i := after_call now (s ! i)])"
  by (auto simp: after_call_def sch_ok_length intro: sch_ok_free sch_ok_same)

lemma entry_step_ok: "sch_ok s \<Longrightarrow> i < SM_SCH_TASK_MAX_SUPPORT \<Longrightarrow> ends_in sch_ok (sch_entry_step tasks clk i s)"
proof -
  assume s: "sch_ok s" and i: "i < SM_SCH_TASK_MAX_SUPPORT"
  let ?e = "s ! i"
  show ?thesis
  proof (cases "task_due (clk (2 * i)) ?e")
    case True
    then show ?thesis
      using ops_ok [OF s, of "clk (2 * i + 1)" "tasks (clk (2 * i + 1)) (the (t_fn ?e)) (t_arg ?e)"] after_call_ok [OF _ i]
      by (cases "sch_ops (clk (2 * i + 1)) (tasks (clk (2 * i + 1)) (the (t_fn ?e)) (t_arg ?e)) s")
        (simp_all add: sch_entry_step_def Let_def)
  qed (simp add: sch_entry_step_def s)
qed

lemma sch_process_ok: "sch_ok s \<Longrightarrow> ends_in sch_ok (sm_sch_process tasks clk s)"
  unfolding sm_sch_process_def by (rule ends_in_run_all) (auto intro: entry_step_ok)

lemma init_free: "length mem = SM_SCH_TASK_MAX_SUPPORT \<Longrightarrow> i < SM_SCH_TASK_MAX_SUPPORT \<Longrightarrow> t_fn (sm_sch_init mem ! i) = None"
  by (cases "i = 0") (simp_all add: sm_sch_init_def Let_def clear_task_def nth_list_update)

lemma init_ok: "length mem = SM_SCH_TASK_MAX_SUPPORT \<Longrightarrow> sch_ok (sm_sch_init mem)"
  unfolding sch_ok_def same_task_def by (auto simp: init_free) (simp add: sm_sch_init_def Let_def)

section \<open>Passes in which the tasks leave the scheduler alone\<close>

definition hands_off :: "sch_tasks \<Rightarrow> bool" where
  "hands_off tasks \<longleftrightarrow> (\<forall>t fn arg. tasks t fn arg = [])"

definition after_pass :: "(nat \<Rightarrow> int) \<Rightarrow> sch \<Rightarrow> nat \<Rightarrow> sch_entry" where
  "after_pass clk s i = (if task_due (clk (2 * i)) (s ! i) then after_call (clk (2 * i + 1)) (s ! i) else s ! i)"

definition task_of :: "sch \<Rightarrow> nat \<Rightarrow> nat \<times> nat" where
  "task_of s i = (the (t_fn (s ! i)), t_arg (s ! i))"

lemma hands_off_step:
  "tasks = (\<lambda>_ _ _. []) \<Longrightarrow> sch_entry_step tasks clk i s
     = Inr (s[i := after_pass clk s i], if task_due (clk (2 * i)) (s ! i) then [task_of s i] else [])"
  by (simp add: sch_entry_step_def Let_def after_pass_def task_of_def)

lemma hands_off_prefix:
  "tasks = (\<lambda>_ _ _. []) \<Longrightarrow> k \<le> n \<Longrightarrow> n \<le> length s \<Longrightarrow> run_all (sch_entry_step tasks clk) [k..<n] s
    = Inr (take k s @ map (after_pass clk s) [k..<n] @ drop n s, map (task_of s) [i\<leftarrow>[k..<n]. task_due (clk (2 * i)) (s ! i)])"
proof (induction "n - k" arbitrary: k s)
  case 0
  then show ?case by simp
next
  case (Suc m)
  then have k: "k < n" "m = n - Suc k" by simp_all
  let ?s = "s[k := after_pass clk s k]"
  have ih: "run_all (sch_entry_step tasks clk) [Suc k..<n] ?s = Inr (take (Suc k) ?s @ map (after_pass clk ?s) [Suc k..<n] @ drop n ?s,
      map (task_of ?s) [i\<leftarrow>[Suc k..<n]. task_due (clk (2 * i)) (?s ! i)])"
    using Suc.hyps(1) [OF k(2) Suc.prems(1)] k(1) Suc.prems(3) by simp
  have same: "map (after_pass clk ?s) [Suc k..<n] = map (after_pass clk s) [Suc k..<n]"
      "map (task_of ?s) [i\<leftarrow>[Suc k..<n]. task_due (clk (2 * i)) (?s ! i)] = map (task_of s) [i\<leftarrow>[Suc k..<n]. task_due (clk (2 * i)) (s ! i)]"
    by (auto simp: after_pass_def task_of_def intro!: map_cong filter_cong)
  have "take (Suc k) ?s = take k s @ [after_pass clk s k]" "drop n ?s = drop n s"
    using k(1) Suc.prems by (simp_all add: take_Suc_conv_app_nth)
  then show ?case using ih k(1) by (simp add: upt_conv_Cons hands_off_step [OF Suc.prems(1)] same)
qed

lemma hands_off_fun: "hands_off tasks \<Longrightarrow> tasks = (\<lambda>_ _ _. [])"
  by (intro ext) (simp add: hands_off_def)

text \<open>C13.
  One pass over a table of tasks that leave the scheduler alone calls exactly the tasks whose time has come, each once, in the
  order of the table, and updates exactly their entries.\<close>

theorem due_tasks_run_in_order:
  assumes "hands_off tasks" "length s = SM_SCH_TASK_MAX_SUPPORT"
  shows "sm_sch_process tasks clk s = Inr (map (after_pass clk s) [0..<SM_SCH_TASK_MAX_SUPPORT],
    map (task_of s) [i\<leftarrow>[0..<SM_SCH_TASK_MAX_SUPPORT]. timed_out (clk (2 * i)) (t_timeout (s ! i)) \<and> t_fn (s ! i) \<noteq> None])"
  using hands_off_prefix [OF hands_off_fun [OF assms(1)], of 0 SM_SCH_TASK_MAX_SUPPORT s clk] assms(2)
  by (simp add: sm_sch_process_def task_due_def)

lemma due_tasks_run_in_order_witness:
  "\<exists>s'. sm_sch_process (\<lambda>_ _ _. []) (\<lambda>_. 100)
     (map (\<lambda>i. \<lparr>t_timeout = \<lparr>m_duration = 10 * int i, m_start_time = 60\<rparr>, t_count = 0, t_repeat = 1, t_interval = 10 * int i,
        t_fn = if i < 10 then Some i else None, t_arg = 7\<rparr>) [0..<48]) = Inr (s', [(0, 7), (1, 7), (2, 7), (3, 7), (4, 7)])"
  (is "\<exists>s'. sm_sch_process _ _ ?s = _")
proof -
  have "map (task_of ?s) [i\<leftarrow>[0..<48]. timed_out 100 (t_timeout (?s ! i)) \<and> t_fn (?s ! i) \<noteq> None]
      = map (\<lambda>i. (the (if i < 10 then Some i else None), 7)) [i\<leftarrow>[0..<48]. i \<le> 4]"
    by (rule arg_cong2 [of _ _ _ _ map] map_cong filter_cong refl | simp add: task_of_def timed_out_iff cong: if_cong)+
  also have "[i\<leftarrow>[0..<48::nat]. i \<le> 4] = [0, 1, 2, 3, 4]" by (simp add: upt_rec)
  finally show ?thesis
    using due_tasks_run_in_order [of "\<lambda>_ _ _. []" ?s "\<lambda>_. 100"] by (simp add: hands_off_def SM_SCH_TASK_MAX_SUPPORT_def)
qed

end
