(* ===== verification/Sched_Laws.thy ===== *)
theory Sched_Laws
  imports Sched
begin

text \<open>
  The scheduler over many passes: how often a task runs, that a cancelled task is silent, and what happens to a task that
  starts itself again.
\<close>

definition sch_run :: "sch_tasks \<Rightarrow> (nat \<Rightarrow> int) list \<Rightarrow> sch \<Rightarrow> (sch, nat \<times> nat) result" where
  "sch_run tasks clks s = run_all (sm_sch_process tasks) clks s"

section \<open>How often a task runs\<close>

definition in_table :: "nat \<Rightarrow> nat \<Rightarrow> sch \<Rightarrow> bool" where
  "in_table fn arg s \<longleftrightarrow> (\<exists>e \<in> set s. t_fn e = Some fn \<and> t_arg e = arg)"

definition pass_state :: "(nat \<Rightarrow> int) \<Rightarrow> sch \<Rightarrow> sch" where
  "pass_state clk s = map (after_pass clk s) [0..<SM_SCH_TASK_MAX_SUPPORT]"

definition pass_calls :: "(nat \<Rightarrow> int) \<Rightarrow> sch \<Rightarrow> (nat \<times> nat) list" where
  "pass_calls clk s = map (task_of s) [i\<leftarrow>[0..<SM_SCH_TASK_MAX_SUPPORT]. task_due (clk (2 * i)) (s ! i)]"

lemma hands_off_pass:
  "hands_off tasks \<Longrightarrow> sch_ok s \<Longrightarrow> sm_sch_process tasks clk s = Inr (pass_state clk s, pass_calls clk s)"
  using hands_off_prefix [of tasks 0 SM_SCH_TASK_MAX_SUPPORT s clk] hands_off_fun [of tasks]
  by (simp add: sm_sch_process_def pass_state_def pass_calls_def sch_ok_length)

lemma pass_ok: "hands_off tasks \<Longrightarrow> sch_ok s \<Longrightarrow> sch_ok (pass_state clk s)"
  using sch_process_ok [of s tasks clk] by (simp add: hands_off_pass)

lemma pass_entry: "i < SM_SCH_TASK_MAX_SUPPORT \<Longrightarrow> pass_state clk s ! i = after_pass clk s i"
  by (simp add: pass_state_def)

lemma calls_filter:
  "count_list (pass_calls clk s) (fn, arg)
     = card {i. i < SM_SCH_TASK_MAX_SUPPORT \<and> task_due (clk (2 * i)) (s ! i) \<and> t_fn (s ! i) = Some fn \<and> t_arg (s ! i) = arg}"
proof -
  have "count_list (pass_calls clk s) (fn, arg)
      = length [i\<leftarrow>[0..<SM_SCH_TASK_MAX_SUPPORT]. task_due (clk (2 * i)) (s ! i) \<and> t_fn (s ! i) = Some fn \<and> t_arg (s ! i) = arg]"
    unfolding pass_calls_def count_list_eq_length_filter filter_map length_map filter_filter
    by (rule arg_cong [of _ _ length]) (auto simp: task_of_def task_due_def intro!: filter_cong)
  also have "\<dots> = card {i. i < SM_SCH_TASK_MAX_SUPPORT \<and> task_due (clk (2 * i)) (s ! i) \<and> t_fn (s ! i) = Some fn \<and> t_arg (s ! i) = arg}"
    unfolding length_filter_conv_card by (rule arg_cong [of _ _ card]) auto
  finally show ?thesis .
qed

lemma calls_once:
  assumes "sch_ok s" "i < SM_SCH_TASK_MAX_SUPPORT" "t_fn (s ! i) = Some fn" "t_arg (s ! i) = arg"
  shows "count_list (pass_calls clk s) (fn, arg) = (if task_due (clk (2 * i)) (s ! i) then 1 else 0)"
proof -
  have "j = i" if "j < SM_SCH_TASK_MAX_SUPPORT" "t_fn (s ! j) = Some fn" "t_arg (s ! j) = arg" for j
    using sch_okD [OF assms(1), of j i] assms that by (simp add: same_task_def sch_ok_length)
  then have "(i' < SM_SCH_TASK_MAX_SUPPORT \<and> task_due (clk (2 * i')) (s ! i') \<and> t_fn (s ! i') = Some fn \<and> t_arg (s ! i') = arg)
      \<longleftrightarrow> (i' = i \<and> task_due (clk (2 * i)) (s ! i))" for i'
    using assms(2-4) by blast
  then show ?thesis by (cases "task_due (clk (2 * i)) (s ! i)") (simp_all add: calls_filter)
qed

lemma in_table_nth: "sch_ok s \<Longrightarrow> in_table fn arg s \<longleftrightarrow> (\<exists>i < SM_SCH_TASK_MAX_SUPPORT. t_fn (s ! i) = Some fn \<and> t_arg (s ! i) = arg)"
  unfolding in_table_def by (auto simp: in_set_conv_nth sch_ok_length) (metis nth_mem sch_ok_length)

lemma after_pass_task:
  "t_fn (after_pass clk s i) = Some fn \<Longrightarrow> t_fn (s ! i) = Some fn \<and> t_arg (s ! i) = t_arg (after_pass clk s i)"
  by (auto simp: after_pass_def after_call_def split: if_splits)

lemma pass_absent:
  assumes "hands_off tasks" "sch_ok s" "\<not> in_table fn arg s"
  shows "count_list (pass_calls clk s) (fn, arg) = 0" "\<not> in_table fn arg (pass_state clk s)"
proof -
  have no: "\<not> (t_fn (s ! i) = Some fn \<and> t_arg (s ! i) = arg)" if "i < SM_SCH_TASK_MAX_SUPPORT" for i
    using assms(3) that by (simp add: in_table_nth [OF assms(2)])
  then have "{i. i < SM_SCH_TASK_MAX_SUPPORT \<and> task_due (clk (2 * i)) (s ! i) \<and> t_fn (s ! i) = Some fn \<and> t_arg (s ! i) = arg} = {}"
    by auto
  then show "count_list (pass_calls clk s) (fn, arg) = 0" by (simp add: calls_filter)
  show "\<not> in_table fn arg (pass_state clk s)"
    using no by (auto simp: in_table_nth [OF pass_ok [OF assms(1,2)]] pass_entry dest!: after_pass_task)
qed

text \<open>The passes come no closer than the interval of the entry after its last call; \<open>t\<close> is the time of that call.\<close>

fun all_due :: "nat \<Rightarrow> int \<Rightarrow> int \<Rightarrow> (nat \<Rightarrow> int) list \<Rightarrow> bool" where
  "all_due i d t [] = True"
| "all_due i d t (clk # clks) = (t + d \<le> clk (2 * i) \<and> all_due i d (clk (2 * i + 1)) clks)"

text \<open>A task that was started with \<open>rep\<close> repetitions runs in so many of \<open>k\<close> passes.\<close>

definition runs :: "int \<Rightarrow> nat \<Rightarrow> nat" where
  "runs rep k = (if rep = SM_SCH_REPEAT_FOREVER then k else min (nat (max 1 rep)) k)"

lemma run_absent:
  assumes "hands_off tasks" "sch_ok s" "\<not> in_table fn arg s"
  shows "\<exists>s' out. sch_run tasks clks s = Inr (s', out) \<and> count_list out (fn, arg) = 0"
  using assms(2,3)
proof (induction clks arbitrary: s)
  case (Cons clk clks)
  from Cons.IH [OF pass_ok [OF assms(1) Cons.prems(1)] pass_absent(2) [OF assms(1) Cons.prems]]
  obtain s' out where "sch_run tasks clks (pass_state clk s) = Inr (s', out)" "count_list out (fn, arg) = 0" by blast
  then show ?case using pass_absent(1) [OF assms(1) Cons.prems, of clk]
    by (simp add: sch_run_def hands_off_pass [OF assms(1) Cons.prems(1)])
qed (simp add: sch_run_def)

lemma run_counts:
  assumes "hands_off tasks" "sch_ok s" "i < SM_SCH_TASK_MAX_SUPPORT" "t_fn (s ! i) = Some fn" "t_arg (s ! i) = arg"
    and "t_repeat (s ! i) = rep" "rep \<noteq> SM_SCH_REPEAT_FOREVER \<Longrightarrow> 0 \<le> t_count (s ! i)"
      "rep \<noteq> SM_SCH_REPEAT_FOREVER \<Longrightarrow> t_count (s ! i) < max 1 rep" and rep: "- (2 ^ 31) < rep" "rep < 2 ^ 31"
    and "all_due i (m_duration (t_timeout (s ! i))) (m_start_time (t_timeout (s ! i))) clks"
  shows "\<exists>s' out. sch_run tasks clks s = Inr (s', out) \<and> count_list out (fn, arg)
    = (if rep = SM_SCH_REPEAT_FOREVER then length clks else min (nat (max 1 rep - t_count (s ! i))) (length clks))"
  using assms(2-8,11)
proof (induction clks arbitrary: s)
  case (Cons clk clks)
  let ?s = "pass_state clk s" and ?e = "s ! i"
  have r1: "s32 (rep - 1) = rep - 1" by (rule s32_id) (use rep in simp_all)
  have due: "task_due (clk (2 * i)) ?e" using Cons.prems(3,8) by (simp add: task_due_def timed_out_iff)
  have e: "?s ! i = after_call (clk (2 * i + 1)) ?e" using due by (simp add: pass_entry [OF Cons.prems(2)] after_pass_def)
  have one: "count_list (pass_calls clk s) (fn, arg) = 1" using calls_once [OF Cons.prems(1-4), of clk] due by simp
  note ok = pass_ok [OF assms(1) Cons.prems(1), of clk]
  show ?case
  proof (cases "t_count ?e < rep - 1 \<or> rep = SM_SCH_REPEAT_FOREVER")
    case True
    then have f: "t_fn (?s ! i) = Some fn" "t_arg (?s ! i) = arg" "t_repeat (?s ! i) = rep" "t_count (?s ! i) = s32 (t_count ?e + 1)"
        "t_timeout (?s ! i) = elapsed_timer_reset (clk (2 * i + 1)) (t_timeout ?e)"
      using Cons.prems(3,4,5) r1 by (auto simp: e after_call_def)
    have c: "t_count (?s ! i) = t_count ?e + 1" if "rep \<noteq> SM_SCH_REPEAT_FOREVER"
      unfolding f(4) by (rule s32_id) (use True Cons.prems(6) rep that in auto)
    have "rep \<noteq> SM_SCH_REPEAT_FOREVER \<Longrightarrow> 0 \<le> t_count (?s ! i)" "rep \<noteq> SM_SCH_REPEAT_FOREVER \<Longrightarrow> t_count (?s ! i) < max 1 rep"
        "all_due i (m_duration (t_timeout (?s ! i))) (m_start_time (t_timeout (?s ! i))) clks"
      using True Cons.prems(6,8) c f(5) by auto
    from Cons.IH [OF ok Cons.prems(2) f(1-3) this]
    obtain s' out where r: "sch_run tasks clks ?s = Inr (s', out)" "count_list out (fn, arg)
       = (if rep = SM_SCH_REPEAT_FOREVER then length clks else min (nat (max 1 rep - t_count (?s ! i))) (length clks))" by blast
    have "count_list (pass_calls clk s @ out) (fn, arg)
       = (if rep = SM_SCH_REPEAT_FOREVER then length (clk # clks) else min (nat (max 1 rep - t_count ?e)) (length (clk # clks)))"
    proof -
      have "nat (max 1 rep - t_count ?e) = Suc (nat (max 1 rep - t_count (?s ! i)))"
        if "rep \<noteq> SM_SCH_REPEAT_FOREVER"
        using True c Cons.prems(6) that by auto
      then show ?thesis using r(2) one by (cases "rep = SM_SCH_REPEAT_FOREVER") simp_all
    qed
    then show ?thesis using r(1) by (simp add: sch_run_def hands_off_pass [OF assms(1) Cons.prems(1)])
  next
    case False
    then have "t_fn (?s ! i) = None" using Cons.prems(5) r1 by (simp add: e after_call_def)
    have "\<not> in_table fn arg ?s"
    proof
      assume "in_table fn arg ?s"
      then obtain j where j: "j < SM_SCH_TASK_MAX_SUPPORT" "t_fn (?s ! j) = Some fn" "t_arg (?s ! j) = arg"
        by (auto simp: in_table_nth [OF ok])
      have "t_fn (s ! j) = Some fn" "t_arg (s ! j) = arg"
        using j(2,3) after_pass_task [of clk s j fn] by (simp_all add: pass_entry [OF j(1)])
      then have "i = j" using sch_okD [OF Cons.prems(1), of i j] Cons.prems(2-4) j(1) by (simp add: same_task_def sch_ok_length [OF Cons.prems(1)])
      then show False using j(2) \<open>t_fn (?s ! i) = None\<close> by simp
    qed
    from run_absent [OF assms(1) ok this]
    obtain s' out where r: "sch_run tasks clks ?s = Inr (s', out)" "count_list out (fn, arg) = 0" by blast
    have "t_count ?e = max 1 rep - 1" using False Cons.prems(6,7) by auto
    then have "count_list (pass_calls clk s @ out) (fn, arg)
       = (if rep = SM_SCH_REPEAT_FOREVER then length (clk # clks) else min (nat (max 1 rep - t_count ?e)) (length (clk # clks)))"
      using r(2) one False by auto
    then show ?thesis using r(1) by (simp add: sch_run_def hands_off_pass [OF assms(1) Cons.prems(1)])
  qed
qed (simp add: sch_run_def)

text \<open>C14.
  A task that is started for \<open>rep\<close> repetitions in a table with room runs, as long as the passes are an interval apart, in every
  pass when \<open>rep\<close> is 0xFFFF, and otherwise \<open>rep\<close> times (once for 0 and below) and never again: the number of its calls in
  \<open>k\<close> passes is \<open>runs rep k\<close>. \<open>rep\<close> is an \<^verbatim>\<open>int32_t\<close>, and not the least one, for which \<open>rep - 1\<close> overflows.\<close>

theorem task_runs_its_count:
  assumes "hands_off tasks" "sch_ok s" "\<not> in_table fn arg s" "\<exists>e \<in> set s. t_fn e = None"
    and "sm_sch_start_task now interval rep (Some fn) arg s = (i, s1)" "all_due (nat i) interval now clks"
      "- (2 ^ 31) < rep" "rep < 2 ^ 31"
  shows "0 \<le> i \<and> (\<exists>s' out. sch_run tasks clks s1 = Inr (s', out) \<and> count_list out (fn, arg) = runs rep (length clks))"
proof -
  have none: "find_entry (\<lambda>e. t_fn e = Some fn \<and> t_arg e = arg) 0 s = None"
    using assms(3) by (simp add: find_entry_None in_table_def)
  obtain k where k: "find_entry (\<lambda>e. t_fn e = None) 0 s = Some k"
    using assms(4) find_entry_None [of "\<lambda>e. t_fn e = None" 0 s] by auto
  let ?e = "(s ! k)\<lparr>t_arg := arg, t_fn := Some fn, t_interval := interval, t_repeat := rep, t_count := 0,
      t_timeout := elapsed_timer_resetz now interval (t_timeout (s ! k))\<rparr>"
  have s1: "i = int k" "s1 = s[k := ?e]" using assms(5) none k by (simp_all add: sm_sch_start_task_def)
  have kl: "k < SM_SCH_TASK_MAX_SUPPORT" "s1 ! k = ?e"
    using find_entry_0 [OF k] s1(2) by (simp_all add: sch_ok_length [OF assms(2)])
  have "sch_ok s1" using sch_start_ok [OF assms(2), of now interval rep "Some fn" arg] assms(5) by simp
  moreover have c: "t_count (s1 ! k) = 0" "0 < max 1 rep" by (simp_all add: kl(2))
  ultimately have "\<exists>s' out. sch_run tasks clks s1 = Inr (s', out) \<and> count_list out (fn, arg)
      = (if rep = SM_SCH_REPEAT_FOREVER then length clks else min (nat (max 1 rep - t_count (s1 ! k))) (length clks))"
    by (intro run_counts [OF assms(1) _ kl(1)]) (use assms(6-8) s1(1) in \<open>simp_all add: kl(2)\<close>)
  then show ?thesis using s1(1) by (cases "rep = SM_SCH_REPEAT_FOREVER") (simp_all add: runs_def c(1))
qed

definition example_table :: sch where
  "example_table = sm_sch_init (replicate SM_SCH_TASK_MAX_SUPPORT \<lparr>t_timeout = \<lparr>m_duration = 0, m_start_time = 0\<rparr>,
     t_count = 0, t_repeat = 0, t_interval = 0, t_fn = None, t_arg = 0\<rparr>)"

lemma example_table:
  "sch_ok example_table" "\<not> in_table fn arg example_table" "\<exists>e \<in> set example_table. t_fn e = None"
  "find_entry (\<lambda>e. t_fn e = Some fn \<and> t_arg e = arg) 0 example_table = None"
  "find_entry (\<lambda>e. t_fn e = None) 0 example_table = Some 0"
proof -
  let ?m = "replicate SM_SCH_TASK_MAX_SUPPORT \<lparr>t_timeout = \<lparr>m_duration = 0, m_start_time = 0\<rparr>,
     t_count = 0, t_repeat = 0, t_interval = 0, t_fn = None, t_arg = 0\<rparr>"
  show ok: "sch_ok example_table" unfolding example_table_def by (rule init_ok) simp
  have n: "t_fn (example_table ! i) = None" if "i < SM_SCH_TASK_MAX_SUPPORT" for i
    unfolding example_table_def by (rule init_free) (use that in simp_all)
  then have all: "\<forall>e \<in> set example_table. t_fn e = None" by (auto simp: in_set_conv_nth sch_ok_length [OF ok])
  then show "\<not> in_table fn arg example_table" by (auto simp: in_table_def)
  have "example_table \<noteq> []" using sch_ok_length [OF ok] by (auto simp: SM_SCH_TASK_MAX_SUPPORT_def)
  then have l: "example_table = example_table ! 0 # tl example_table" by (metis hd_Cons_tl hd_conv_nth)
  then show "\<exists>e \<in> set example_table. t_fn e = None" using all by (metis list.set_intros(1))
  show "find_entry (\<lambda>e. t_fn e = Some fn \<and> t_arg e = arg) 0 example_table = None" using all by (auto simp: find_entry_None)
  have "find_entry (\<lambda>e. t_fn e = None) 0 (example_table ! 0 # tl example_table) = Some 0"
    using n [of 0] by (simp add: SM_SCH_TASK_MAX_SUPPORT_def)
  then show "find_entry (\<lambda>e. t_fn e = None) 0 example_table = Some 0" using l by simp
qed

lemma task_runs_its_count_witness:
  "\<exists>s' out. sch_run (\<lambda>_ _ _. []) [\<lambda>_. 600, \<lambda>_. 1200, \<lambda>_. 1800, \<lambda>_. 2400]
      (snd (sm_sch_start_task 0 500 3 (Some 9) 4 example_table)) = Inr (s', out) \<and> count_list out (9, 4) = 3"
proof -
  obtain i s1 where s1: "sm_sch_start_task 0 500 3 (Some 9) 4 example_table = (i, s1)" by (rule prod.exhaust)
  have "i = 0" using s1 by (simp add: sm_sch_start_task_def example_table)
  then show ?thesis
    using task_runs_its_count [OF _ example_table(1-3) s1, of "\<lambda>_ _ _. []" "[\<lambda>_. 600, \<lambda>_. 1200, \<lambda>_. 1800, \<lambda>_. 2400]"] s1
    by (auto simp: hands_off_def runs_def SM_SCH_REPEAT_FOREVER_def numeral_3_eq_3)
qed

section \<open>Cancelled tasks\<close>

definition starts_task :: "nat \<Rightarrow> sch_tasks \<Rightarrow> bool" where
  "starts_task fn tasks \<longleftrightarrow> (\<exists>t f a iv rep arg. Start_Task iv rep (Some fn) arg \<in> set (tasks t f a))"

definition unlisted :: "nat \<Rightarrow> sch \<Rightarrow> bool" where
  "unlisted fn s \<longleftrightarrow> length s = SM_SCH_TASK_MAX_SUPPORT \<and> (\<forall>e \<in> set s. t_fn e \<noteq> Some fn)"

lemma unlisted_update: "unlisted fn s \<Longrightarrow> t_fn e \<noteq> Some fn \<Longrightarrow> unlisted fn (s[i := e])"
  using set_update_subset_insert [of s i e] by (auto simp: unlisted_def)

lemma unlisted_nth: "unlisted fn s \<Longrightarrow> i < SM_SCH_TASK_MAX_SUPPORT \<Longrightarrow> t_fn (s ! i) \<noteq> Some fn"
  by (simp add: unlisted_def)

lemma exec_unlisted:
  assumes "unlisted fn s" "sch_exec now op s = Inr s'" "\<And>iv rep arg. op \<noteq> Start_Task iv rep (Some fn) arg"
  shows "unlisted fn s'"
proof (cases op)
  case (Start_Task iv rep f arg)
  then have f: "f \<noteq> Some fn" using assms(3) by auto
  then show ?thesis using assms(1,2) Start_Task
    by (auto simp: sm_sch_start_task_def unlisted_def split: option.splits intro!: unlisted_update dest!: find_entry_0
        dest: set_update_subset_insert [THEN subsetD])
next
  case (Cancel_Task k)
  then show ?thesis using assms(1,2)
    by (auto simp: sm_sch_cancel_task_def stop_task_def split: if_splits intro!: unlisted_update)
next
  case (Cancel_Taskz f)
  then show ?thesis using assms(1,2) by (auto simp: sm_sch_cancel_taskz_def stop_task_def unlisted_def split: option.splits)
qed

lemma ops_unlisted:
  "unlisted fn s \<Longrightarrow> sch_ops now ops s = Inr s' \<Longrightarrow> (\<And>iv rep arg. Start_Task iv rep (Some fn) arg \<notin> set ops) \<Longrightarrow> unlisted fn s'"
proof (induction ops arbitrary: s)
  case (Cons op ops)
  obtain s1 where s1: "sch_exec now op s = Inr s1" "sch_ops now ops s1 = Inr s'"
    using Cons.prems(2) by (cases "sch_exec now op s") simp_all
  have "op \<noteq> Start_Task iv rep (Some fn) arg" for iv rep arg using Cons.prems(3) [of iv rep arg] by auto
  then have "unlisted fn s1" by (rule exec_unlisted [OF Cons.prems(1) s1(1)])
  then show ?case by (rule Cons.IH [OF _ s1(2)]) (use Cons.prems(3) in simp)
qed simp

lemma step_unlisted:
  assumes "\<not> starts_task fn tasks" "unlisted fn s" "i < SM_SCH_TASK_MAX_SUPPORT" "sch_entry_step tasks clk i s = Inr (s', cs)"
  shows "unlisted fn s' \<and> (\<forall>arg. (fn, arg) \<notin> set cs)"
proof (cases "task_due (clk (2 * i)) (s ! i)")
  case True
  let ?now = "clk (2 * i + 1)"
  let ?r = "sch_ops ?now (tasks ?now (the (t_fn (s ! i))) (t_arg (s ! i))) s"
  have step: "(case ?r of Inl f \<Rightarrow> Inl f | Inr s1 \<Rightarrow> Inr (s1[i := after_call ?now (s1 ! i)], [(the (t_fn (s ! i)), t_arg (s ! i))]))
      = Inr (s', cs)"
    using assms(4) True unfolding sch_entry_step_def Let_def by simp
  then obtain s1 where s1: "?r = Inr s1"
      "s' = s1[i := after_call ?now (s1 ! i)]" "cs = [(the (t_fn (s ! i)), t_arg (s ! i))]"
    by (cases ?r) simp_all
  have "unlisted fn s1" by (rule ops_unlisted [OF assms(2) s1(1)]) (use assms(1) in \<open>auto simp: starts_task_def\<close>)
  then have "unlisted fn s'" unfolding s1(2)
    by (rule unlisted_update) (use unlisted_nth [OF \<open>unlisted fn s1\<close> assms(3)] in \<open>simp add: after_call_def\<close>)
  moreover have "the (t_fn (s ! i)) \<noteq> fn" using unlisted_nth [OF assms(2,3)] True by (auto simp: task_due_def)
  ultimately show ?thesis by (simp add: s1(3))
qed (use assms in \<open>simp add: sch_entry_step_def\<close>)

lemma run_all_invar_out:
  assumes "\<And>e s s' cs. e \<in> set es \<Longrightarrow> P s \<Longrightarrow> f e s = Inr (s', cs) \<Longrightarrow> P s' \<and> (\<forall>c \<in> set cs. Q c)"
  shows "P s \<Longrightarrow> run_all f es s = Inr (s', cs) \<Longrightarrow> P s' \<and> (\<forall>c \<in> set cs. Q c)"
  using assms
proof (induction es arbitrary: s s' cs)
  case (Cons e es)
  obtain s1 c1 where 1: "f e s = Inr (s1, c1)" using Cons.prems(2) by (cases "f e s") auto
  obtain s2 c2 where 2: "run_all f es s1 = Inr (s2, c2)" using Cons.prems(2) 1 by (cases "run_all f es s1") auto
  have "P s1 \<and> (\<forall>c \<in> set c1. Q c)" by (rule Cons.prems(3) [OF _ Cons.prems(1) 1]) simp
  moreover from this have "P s2 \<and> (\<forall>c \<in> set c2. Q c)"
    by (intro Cons.IH [OF _ 2]) (simp, rule Cons.prems(3), simp_all)
  ultimately show ?case using Cons.prems(2) 1 2 by auto
qed simp

lemma pass_unlisted:
  "\<not> starts_task fn tasks \<Longrightarrow> unlisted fn s \<Longrightarrow> sm_sch_process tasks clk s = Inr (s', cs) \<Longrightarrow> unlisted fn s' \<and> (\<forall>c \<in> set cs. fst c \<noteq> fn)"
  unfolding sm_sch_process_def
  by (rule run_all_invar_out [where P = "unlisted fn"]) (auto dest: step_unlisted)

text \<open>
  Once a function has been cancelled, no pass calls it, whatever the other tasks do to the scheduler, as long as nothing starts
  it again; this includes the rest of the pass in which a task cancels it.\<close>

theorem cancelled_task_is_silent:
  assumes "length s = SM_SCH_TASK_MAX_SUPPORT" "sm_sch_cancel_taskz (Some fn) s = (r, s1)" "\<not> starts_task fn tasks"
    and "sch_run tasks clks s1 = Inr (s2, out)"
  shows "r = 0 \<and> (\<forall>arg. (fn, arg) \<notin> set out)"
proof -
  have "r = 0" "unlisted fn s1" using assms(1,2) by (auto simp: sm_sch_cancel_taskz_def unlisted_def stop_task_def)
  moreover from this have "unlisted fn s2 \<and> (\<forall>c \<in> set out. fst c \<noteq> fn)"
    using run_all_invar_out [of clks "unlisted fn" "sm_sch_process tasks" "\<lambda>c. fst c \<noteq> fn" s1 s2 out] assms(3,4)
    by (auto simp: sch_run_def dest: pass_unlisted)
  ultimately show ?thesis by auto
qed

section \<open>A task that starts itself again\<close>

text \<open>The task \<open>fn\<close> asks for one more call of itself each time it is called; the others leave the scheduler alone.\<close>

definition rearming :: "nat \<Rightarrow> nat \<Rightarrow> int \<Rightarrow> sch_tasks" where
  "rearming fn arg interval = (\<lambda>_ f a. if f = fn \<and> a = arg then [Start_Task interval 1 (Some fn) arg] else [])"

lemma find_entry_unique:
  assumes "sch_ok s" "i < SM_SCH_TASK_MAX_SUPPORT" "t_fn (s ! i) = Some fn" "t_arg (s ! i) = arg"
  shows "find_entry (\<lambda>e. t_fn e = Some fn \<and> t_arg e = arg) 0 s = Some i"
proof (cases "find_entry (\<lambda>e. t_fn e = Some fn \<and> t_arg e = arg) 0 s")
  case None
  then show ?thesis using assms nth_mem [of i s] by (auto simp: find_entry_None sch_ok_length)
next
  case (Some j)
  then show ?thesis using find_entry_0 [OF Some] sch_okD [OF assms(1), of j i] assms by (simp add: same_task_def sch_ok_length)
qed

lemma rearm_step:
  assumes "sch_ok s" "i < SM_SCH_TASK_MAX_SUPPORT" "t_fn (s ! i) = Some fn" "t_arg (s ! i) = arg" "task_due (clk (2 * i)) (s ! i)"
  shows "\<exists>e. sch_entry_step (rearming fn arg interval) clk i s = Inr (s[i := e], [(fn, arg)]) \<and> t_fn e = None"
  using assms sch_ok_length [OF assms(1)]
  by (simp add: sch_entry_step_def rearming_def sm_sch_start_task_def find_entry_unique [OF assms(1-4)] after_call_def Let_def
      SM_SCH_REPEAT_FOREVER_def) (intro exI conjI, rule refl, simp)

lemma rearm_other:
  assumes "sch_ok s" "j < SM_SCH_TASK_MAX_SUPPORT" "\<not> (t_fn (s ! j) = Some fn \<and> t_arg (s ! j) = arg)"
  shows "\<exists>e cs. sch_entry_step (rearming fn arg interval) clk j s = Inr (s[j := e], cs) \<and> sch_ok (s[j := e])
    \<and> \<not> (t_fn e = Some fn \<and> t_arg e = arg) \<and> (fn, arg) \<notin> set cs"
proof (cases "task_due (clk (2 * j)) (s ! j)")
  case True
  then obtain f where f: "t_fn (s ! j) = Some f" by (auto simp: task_due_def)
  then have n: "\<not> (f = fn \<and> t_arg (s ! j) = arg)" using assms(3) by simp
  then have "rearming fn arg interval t f (t_arg (s ! j)) = []" for t by (auto simp: rearming_def)
  then have "sch_entry_step (rearming fn arg interval) clk j s
      = Inr (s[j := after_call (clk (2 * j + 1)) (s ! j)], [(f, t_arg (s ! j))])"
    using True f by (simp add: sch_entry_step_def Let_def)
  moreover have "\<not> (t_fn (after_call now (s ! j)) = Some fn \<and> t_arg (after_call now (s ! j)) = arg)" for now
    using f n by (simp add: after_call_def)
  ultimately show ?thesis using after_call_ok [OF assms(1,2)] n by auto
next
  case False
  then show ?thesis using assms by (intro exI [of _ "s ! j"] exI [of _ "[]"]) (simp add: sch_entry_step_def)
qed

lemma rearm_silent:
  assumes "sch_ok s" "i < SM_SCH_TASK_MAX_SUPPORT" "\<not> in_table fn arg s"
  shows "\<exists>s' cs. sch_entry_step (rearming fn arg interval) clk i s = Inr (s', cs) \<and> sch_ok s' \<and> \<not> in_table fn arg s' \<and> (fn, arg) \<notin> set cs"
proof -
  have "\<not> (t_fn (s ! i) = Some fn \<and> t_arg (s ! i) = arg)" using assms(2,3) by (auto simp: in_table_nth [OF assms(1)])
  from rearm_other [OF assms(1,2) this, of interval clk]
  obtain e cs where e: "sch_entry_step (rearming fn arg interval) clk i s = Inr (s[i := e], cs)" "sch_ok (s[i := e])"
      "\<not> (t_fn e = Some fn \<and> t_arg e = arg)" "(fn, arg) \<notin> set cs" by blast
  have "\<not> in_table fn arg (s[i := e])"
    using assms(3) e(3) set_update_subset_insert [of s i e] unfolding in_table_def by blast
  then show ?thesis using e by blast
qed

lemma rearm_before:
  "sch_ok s \<Longrightarrow> i < SM_SCH_TASK_MAX_SUPPORT \<Longrightarrow> t_fn (s ! i) = Some fn \<Longrightarrow> t_arg (s ! i) = arg \<Longrightarrow>
   set js \<subseteq> {..<SM_SCH_TASK_MAX_SUPPORT} - {i} \<Longrightarrow>
   \<exists>s' cs. run_all (sch_entry_step (rearming fn arg interval) clk) js s = Inr (s', cs) \<and> sch_ok s' \<and> s' ! i = s ! i \<and> (fn, arg) \<notin> set cs"
proof (induction js arbitrary: s)
  case (Cons j js)
  have j: "j < SM_SCH_TASK_MAX_SUPPORT" "j \<noteq> i" using Cons.prems(5) by auto
  then have "\<not> (t_fn (s ! j) = Some fn \<and> t_arg (s ! j) = arg)"
    using sch_okD [OF Cons.prems(1), of j i] Cons.prems(2-4) by (auto simp: same_task_def sch_ok_length [OF Cons.prems(1)])
  from rearm_other [OF Cons.prems(1) j(1) this, of interval clk]
  obtain e c1 where 1: "sch_entry_step (rearming fn arg interval) clk j s = Inr (s[j := e], c1)" "sch_ok (s[j := e])" "(fn, arg) \<notin> set c1"
    by blast
  have i: "s[j := e] ! i = s ! i" using j(2) by simp
  show ?case using Cons.IH [OF 1(2) Cons.prems(2)] Cons.prems(3-5) 1 i by auto
qed simp

lemma rearm_absent:
  "sch_ok s \<Longrightarrow> \<not> in_table fn arg s \<Longrightarrow> set is \<subseteq> {..<SM_SCH_TASK_MAX_SUPPORT} \<Longrightarrow>
   \<exists>s' cs. run_all (sch_entry_step (rearming fn arg interval) clk) is s = Inr (s', cs) \<and> sch_ok s' \<and> \<not> in_table fn arg s' \<and> (fn, arg) \<notin> set cs"
proof (induction "is" arbitrary: s)
  case (Cons i "is")
  from rearm_silent [OF Cons.prems(1) _ Cons.prems(2), of i interval clk] Cons.prems(3)
  obtain s1 c1 where 1: "sch_entry_step (rearming fn arg interval) clk i s = Inr (s1, c1)" "sch_ok s1" "\<not> in_table fn arg s1"
      "(fn, arg) \<notin> set c1" by auto
  from Cons.IH [OF 1(2,3)] Cons.prems(3) 1 show ?case by auto
qed simp

lemma subset_upt: "set [m..<n] \<subseteq> {..<n}"
  by auto

lemma rearm_pass:
  assumes "sch_ok s" "i < SM_SCH_TASK_MAX_SUPPORT" "t_fn (s ! i) = Some fn" "t_arg (s ! i) = arg" "task_due (clk (2 * i)) (s ! i)"
  shows "\<exists>s' cs. sm_sch_process (rearming fn arg interval) clk s = Inr (s', cs) \<and> sch_ok s' \<and> \<not> in_table fn arg s'
    \<and> count_list cs (fn, arg) = 1"
proof -
  have up: "[0..<SM_SCH_TASK_MAX_SUPPORT] = [0..<i] @ i # [Suc i..<SM_SCH_TASK_MAX_SUPPORT]"
    using assms(2) by (metis le_add_same_cancel1 less_imp_add_positive less_imp_le_nat upt_add_eq_append upt_conv_Cons zero_le)
  let ?f = "sch_entry_step (rearming fn arg interval) clk"
  have sub: "set [0..<i] \<subseteq> {..<SM_SCH_TASK_MAX_SUPPORT} - {i}" using assms(2) by auto
  obtain s1 c1 where 1: "run_all ?f [0..<i] s = Inr (s1, c1)" "sch_ok s1" "s1 ! i = s ! i" "(fn, arg) \<notin> set c1"
    using rearm_before [OF assms(1-4) sub, of interval clk] by auto
  obtain e where e: "?f i s1 = Inr (s1[i := e], [(fn, arg)])" "t_fn e = None"
    using rearm_step [OF 1(2) assms(2), of fn arg clk interval] 1(3) assms(3-5) by auto
  have ok: "sch_ok (s1[i := e])" by (rule sch_ok_free [OF 1(2) e(2)])
  have "\<not> in_table fn arg (s1[i := e])"
  proof
    assume "in_table fn arg (s1[i := e])"
    then obtain j where j: "j < SM_SCH_TASK_MAX_SUPPORT" "t_fn (s1[i := e] ! j) = Some fn" "t_arg (s1[i := e] ! j) = arg"
      by (auto simp: in_table_nth [OF ok])
    then have "j \<noteq> i" using e(2) assms(2) by (auto simp: sch_ok_length [OF 1(2)])
    then show False using j sch_okD [OF 1(2), of j i] assms(2-4) 1(3) by (simp add: same_task_def sch_ok_length [OF 1(2)])
  qed
  from rearm_absent [OF ok this subset_upt, of interval clk "Suc i"]
  obtain s2 c2 where "run_all ?f [Suc i..<SM_SCH_TASK_MAX_SUPPORT] (s1[i := e]) = Inr (s2, c2)" "sch_ok s2" "\<not> in_table fn arg s2"
      "(fn, arg) \<notin> set c2" by auto
  then show ?thesis using 1 e(1) by (simp add: sm_sch_process_def up run_all_append count_notin)
qed

text \<open>
  A task that calls \<^verbatim>\<open>sm_sch_start_task\<close> for itself from its own call, for one more call after \<open>interval\<close>, is told the number
  of its entry, and is then removed from the table by the rest of its step: it runs once, and never again in any later pass.\<close>

theorem rearmed_task_is_lost:
  assumes "sch_ok s" "i < SM_SCH_TASK_MAX_SUPPORT" "t_fn (s ! i) = Some fn" "t_arg (s ! i) = arg"
    and "timed_out (clk (2 * i)) (t_timeout (s ! i))"
  shows "fst (sm_sch_start_task now interval 1 (Some fn) arg s) = int i \<and>
    (\<exists>s' out. sch_run (rearming fn arg interval) (clk # clks) s = Inr (s', out) \<and> count_list out (fn, arg) = 1 \<and> \<not> in_table fn arg s')"
proof -
  have later: "\<exists>s' out. sch_run (rearming fn arg interval) clks s = Inr (s', out) \<and> (fn, arg) \<notin> set out \<and> \<not> in_table fn arg s'"
    if "sch_ok s" "\<not> in_table fn arg s" for s
    using that
  proof (induction clks arbitrary: s)
    case (Cons c cs)
    obtain s1 c1 where 1: "sm_sch_process (rearming fn arg interval) c s = Inr (s1, c1)" "sch_ok s1" "\<not> in_table fn arg s1" "(fn, arg) \<notin> set c1"
      using rearm_absent [OF Cons.prems subset_upt, of interval c 0] by (auto simp: sm_sch_process_def)
    then show ?case using Cons.IH [OF 1(2,3)] by (auto simp: sch_run_def)
  qed (simp add: sch_run_def)
  have "task_due (clk (2 * i)) (s ! i)" using assms(3,5) by (simp add: task_due_def)
  from rearm_pass [where clk = clk and interval = interval, OF assms(1-4) this]
  obtain s1 c1 where 1: "sm_sch_process (rearming fn arg interval) clk s = Inr (s1, c1)" "sch_ok s1" "\<not> in_table fn arg s1"
      "count_list c1 (fn, arg) = 1" by auto
  moreover obtain s2 c2 where "sch_run (rearming fn arg interval) clks s1 = Inr (s2, c2)" "(fn, arg) \<notin> set c2" "\<not> in_table fn arg s2"
    using later [OF 1(2,3)] by auto
  ultimately have "\<exists>s' out. sch_run (rearming fn arg interval) (clk # clks) s = Inr (s', out) \<and> count_list out (fn, arg) = 1 \<and> \<not> in_table fn arg s'"
    by (simp add: sch_run_def count_notin)
  then show ?thesis by (simp add: sm_sch_start_task_def find_entry_unique [OF assms(1-4)])
qed

lemma rearmed_task_is_lost_witness:
  "let s = snd (sm_sch_start_task 0 500 1 (Some 9) 4 example_table) in
    fst (sm_sch_start_task 600 500 1 (Some 9) 4 s) = 0 \<and>
    (\<exists>s' out. sch_run (rearming 9 4 500) [\<lambda>_. 600, \<lambda>_. 1200, \<lambda>_. 1800] s = Inr (s', out) \<and> count_list out (9, 4) = 1)"
proof -
  let ?s = "snd (sm_sch_start_task 0 500 1 (Some 9) 4 example_table)"
  have l: "length example_table = 48" using sch_ok_length [OF example_table(1)] by (simp add: SM_SCH_TASK_MAX_SUPPORT_def)
  have e: "?s ! 0 = (example_table ! 0)\<lparr>t_arg := 4, t_fn := Some 9, t_interval := 500, t_repeat := 1, t_count := 0,
      t_timeout := elapsed_timer_resetz 0 500 (t_timeout (example_table ! 0))\<rparr>"
    using l by (simp add: sm_sch_start_task_def example_table)
  have "sch_ok ?s" by (rule sch_start_ok [OF example_table(1)])
  then show ?thesis
    using rearmed_task_is_lost [of ?s 0 9 4 "\<lambda>_. 600" 600 500 "[\<lambda>_. 1200, \<lambda>_. 1800]"] e
    by (auto simp: SM_SCH_TASK_MAX_SUPPORT_def timed_out_resetz Let_def)
qed

lemma run_all_total: "(\<And>e s. \<exists>r. f e s = Inr r) \<Longrightarrow> \<exists>s' cs. run_all f es s = Inr (s', cs)"
proof (induction es arbitrary: s)
  case (Cons e es)
  obtain s1 c1 where 1: "f e s = Inr (s1, c1)" using Cons.prems [of e s] by auto
  obtain s2 c2 where "run_all f es s1 = Inr (s2, c2)" using Cons.IH [OF Cons.prems] by blast
  then show ?case using 1 by simp
qed simp

lemma cancelled_task_is_silent_witness:
  "\<exists>s2 out. sch_run (\<lambda>_ f _. [Cancel_Taskz (Some f)]) [\<lambda>_. 600]
     (snd (sm_sch_cancel_taskz (Some 9) (snd (sm_sch_start_task 0 500 1 (Some 9) 4 example_table)))) = Inr (s2, out) \<and> (9, 4) \<notin> set out"
proof -
  let ?s = "snd (sm_sch_start_task 0 500 1 (Some 9) 4 example_table)" and ?t = "\<lambda>_ f _. [Cancel_Taskz (Some f)]"
  let ?c = "snd (sm_sch_cancel_taskz (Some 9) ?s)"
  have l: "length ?s = SM_SCH_TASK_MAX_SUPPORT" by (rule sch_ok_length [OF sch_start_ok [OF example_table(1)]])
  have "\<exists>r. sch_entry_step ?t clk i s = Inr r" for clk i s by (simp add: sch_entry_step_def Let_def)
  then have "\<exists>r. sm_sch_process ?t clk s = Inr r" for clk s
    using run_all_total [of "sch_entry_step ?t clk" "[0..<SM_SCH_TASK_MAX_SUPPORT]" s] by (auto simp: sm_sch_process_def)
  then obtain s2 out where r: "sch_run ?t [\<lambda>_. 600] ?c = Inr (s2, out)"
    using run_all_total [of "sm_sch_process ?t" "[\<lambda>_. 600]" ?c] by (auto simp: sch_run_def)
  have c: "sm_sch_cancel_taskz (Some 9) ?s = (0, ?c)" by (simp add: sm_sch_cancel_taskz_def)
  have "\<not> starts_task 9 ?t" by (simp add: starts_task_def)
  from cancelled_task_is_silent [OF l c this r] r show ?thesis by blast
qed

end
