(* ===== verification/Intel_Hex.thy ===== *)
theory Intel_Hex
  imports Prelude
begin

text \<open>
  \<^verbatim>\<open>utils/algorithms/sm_intel_hex.c\<close>: the decoding of the lines of an Intel-HEX file. Characters are bytes. The static buffer
  \<^verbatim>\<open>hex_data\<close>, to which every decoded record points, is passed and returned. The 16-bit index of \<^verbatim>\<open>string_to_hex\<close> is a natural
  number: it wraps only for a text of 65535 characters.
\<close>

section \<open>Digits\<close>

definition hex :: "u8 list" where
  "hex = [48, 49, 50, 51, 52, 53, 54, 55, 56, 57, 65, 66, 67, 68, 69, 70, 97, 98, 99, 100, 101, 102]"

definition byte_to_hex :: "u8 \<Rightarrow> u8" where
  "byte_to_hex byte =
     (let h = fold (\<lambda>i h. if byte = hex ! i then (if i < 10 then byte - 48 else if i < 16 then byte - 55 else byte - 87) else h)
                [0..<22] 0xff
      in if h = 0xff then byte else h)"

text \<open>A character that is no digit stands for itself. The character after the last one is read when the number is odd.\<close>

function hex_bytes :: "u8 list \<Rightarrow> nat \<Rightarrow> nat \<Rightarrow> fault + u8 list" where
  "hex_bytes txt len i =
     (if len \<le> i then Inr []
      else if length txt \<le> Suc i then Inl Out_Of_Bounds
      else let hi = byte_to_hex (txt ! i); lo = byte_to_hex (txt ! Suc i) in
        if hi = txt ! i then (case hex_bytes txt len (Suc i) of Inl f \<Rightarrow> Inl f | Inr bs \<Rightarrow> Inr (hi # bs))
        else (case hex_bytes txt len (i + 2) of Inl f \<Rightarrow> Inl f | Inr bs \<Rightarrow> Inr ((push_bit 4 hi OR lo) # bs)))"
  by pat_completeness auto
termination by (relation "measure (\<lambda>(txt, len, i). len - i)") auto

declare hex_bytes.simps [simp del]

definition string_to_hex :: "u8 list \<Rightarrow> nat \<Rightarrow> u8 list \<Rightarrow> fault + (nat \<times> u8 list)" where
  "string_to_hex txt len dest =
     (case hex_bytes txt len 0 of Inl f \<Rightarrow> Inl f
      | Inr bs \<Rightarrow> if length dest < length bs then Inl Out_Of_Bounds else Inr (length bs, overwrite bs dest))"

section \<open>Records\<close>

record intel_hex =
  byte_count :: u8
  hex_addr :: "u8 \<times> u8"
  record_type :: u8
  checksum :: u8

definition INTEL_HEX_Data :: u8 where "INTEL_HEX_Data = 0"
definition INTEL_HEX_EndFile :: u8 where "INTEL_HEX_EndFile = 1"
definition INTEL_HEX_Extended_Segment_Address :: u8 where "INTEL_HEX_Extended_Segment_Address = 2"
definition INTEL_HEX_Extended_Linear_Address :: u8 where "INTEL_HEX_Extended_Linear_Address = 4"

definition intel_hex_checksum :: "u8 list \<Rightarrow> nat \<Rightarrow> u8" where
  "intel_hex_checksum bytes len = NOT (fold (\<lambda>i crc. crc + bytes ! i) [1..<len - 1] 0) + 1"

text \<open>The result is \<open>None\<close> for the null pointer. More than 32 bytes of data leave \<^verbatim>\<open>hex_data\<close>.\<close>

definition intel_hex_process :: "u8 list \<Rightarrow> nat \<Rightarrow> u8 list \<Rightarrow> fault + (intel_hex option \<times> u8 list)" where
  "intel_hex_process bytes len hex_data =
     (if bytes ! 0 \<noteq> 58 then Inr (None, hex_data)
      else let n = unat (bytes ! 1); hex_data' = overwrite (take n (drop 5 bytes)) hex_data in
        if length hex_data < n \<or> length bytes \<le> 5 + n \<or> length bytes < len - 1 then Inl Out_Of_Bounds
        else if bytes ! (5 + n) \<noteq> intel_hex_checksum bytes len then Inr (None, hex_data')
        else Inr (Some \<lparr>byte_count = bytes ! 1, hex_addr = (bytes ! 2, bytes ! 3), record_type = bytes ! 4,
                        checksum = bytes ! (5 + n)\<rparr>, hex_data'))"

definition byte_to_half_word :: "u8 list \<Rightarrow> u16" where
  "byte_to_half_word src = push_bit 8 (ucast (src ! 0)) OR ucast (src ! 1)"

definition byte_to_word :: "u8 list \<Rightarrow> u32" where
  "byte_to_word src = fold (\<lambda>i r. r OR push_bit (8 * (3 - i)) (ucast (src ! i))) [0..<4] 0"

definition byte_to_word_cr :: "u8 list \<Rightarrow> u32" where
  "byte_to_word_cr src = fold (\<lambda>i r. r OR push_bit (8 * i) (ucast (src ! i))) [0..<4] 0"

section \<open>Writing records\<close>

text \<open>The other direction, as the format has it: two upper-case digits for a byte, the sum of all bytes is zero.\<close>

definition digit :: "u8 \<Rightarrow> u8" where
  "digit d = (if d < 10 then d + 48 else d + 55)"

definition two_digits :: "u8 \<Rightarrow> u8 list" where
  "two_digits b = [digit (drop_bit 4 b), digit (b AND 15)]"

definition record_bytes :: "u8 \<Rightarrow> u8 \<times> u8 \<Rightarrow> u8 list \<Rightarrow> u8 list" where
  "record_bytes ty addr xs = (let bs = [of_nat (length xs), fst addr, snd addr, ty] @ xs in bs @ [- sum_list bs])"

definition record_line :: "u8 \<Rightarrow> u8 \<times> u8 \<Rightarrow> u8 list \<Rightarrow> u8 list" where
  "record_line ty addr xs = 58 # concat (map two_digits (record_bytes ty addr xs))"

lemma u8_below: "(d :: u8) < of_nat n \<Longrightarrow> n < 256 \<Longrightarrow> d \<in> set (map of_nat [0..<n])"
proof -
  assume d: "d < of_nat n" "n < 256"
  then have "unat d < n" by (simp add: word_less_nat_alt unat_of_nat)
  then show ?thesis by (auto intro!: image_eqI [of _ _ "unat d"])
qed

lemma digit_back:
  assumes "(d :: u8) < 16"
  shows "byte_to_hex (digit d) = d \<and> digit d \<noteq> d \<and> digit d \<notin> {10, 13, 0xff}"
proof -
  have "\<forall>d \<in> set (map of_nat [0..<16] :: u8 list). byte_to_hex (digit d) = d \<and> digit d \<noteq> d \<and> digit d \<notin> {10, 13, 0xff}" by code_simp
  moreover have "d \<in> set (map of_nat [0..<16])" using u8_below [of d 16] assms by simp
  ultimately show ?thesis by blast
qed

lemma nibbles: "drop_bit 4 b < (16 :: u8)" "b AND 15 < (16 :: u8)" "push_bit 4 (drop_bit 4 b) OR (b AND 15) = (b :: u8)"
proof -
  have m: "(15 :: u8) = mask 4" by (simp add: mask_eq_exp_minus_1)
  have "unat b < 2 ^ LENGTH(8)" by (rule unsigned_less)
  moreover have "drop_bit 4 (unat b) = unat b div 16" by (simp add: drop_bit_eq_div)
  ultimately have "unat (drop_bit 4 b) < 16" by (simp add: unat_drop_bit_eq less_mult_imp_div_less)
  then show "drop_bit 4 b < 16" by (simp add: word_less_nat_alt)
  show "b AND 15 < 16" unfolding m using and_mask_less_size [of 4 b] by (simp add: word_size)
  show "push_bit 4 (drop_bit 4 b) OR (b AND 15) = b"
    unfolding m by (rule bit_word_eqI) (auto simp: bit_simps)
qed

text \<open>The two digits of a byte are read back.\<close>

lemma two_digits_read:
  assumes "i + 1 < length txt" "txt ! i = digit (drop_bit 4 b)" "txt ! Suc i = digit (b AND 15)" "i < len"
  shows "hex_bytes txt len i = (case hex_bytes txt len (i + 2) of Inl f \<Rightarrow> Inl f | Inr bs \<Rightarrow> Inr (b # bs))"
proof -
  have d: "byte_to_hex (digit (drop_bit 4 b)) = drop_bit 4 b" "byte_to_hex (digit (b AND 15)) = b AND 15"
      "drop_bit 4 b \<noteq> digit (drop_bit 4 b)"
    using digit_back [OF nibbles(1), of b] digit_back [OF nibbles(2), of b] by metis+
  then show ?thesis using assms nibbles(3) [of b] by (subst hex_bytes.simps) (simp add: Let_def split: sum.split)
qed

lemma length_two_digits [simp]: "length (two_digits b) = 2"
  by (simp add: two_digits_def)

lemma length_digits: "length (concat (map two_digits bs)) = 2 * length bs"
  by (induction bs) simp_all

lemma digits_read:
  "length pre + 2 * length bs \<le> len \<Longrightarrow> len = length pre + 2 * length bs \<Longrightarrow>
   hex_bytes (pre @ concat (map two_digits bs) @ post) len (length pre) = Inr bs"
proof (induction bs arbitrary: pre)
  case Nil
  then show ?case by (subst hex_bytes.simps) simp
next
  case (Cons b bs)
  let ?txt = "pre @ concat (map two_digits (b # bs)) @ post"
  have "hex_bytes ?txt len (length pre) = (case hex_bytes ?txt len (length pre + 2) of Inl f \<Rightarrow> Inl f | Inr bs \<Rightarrow> Inr (b # bs))"
    by (rule two_digits_read) (use Cons.prems in \<open>simp_all add: two_digits_def nth_append\<close>)
  moreover have "?txt = (pre @ two_digits b) @ concat (map two_digits bs) @ post" by simp
  then have "hex_bytes ?txt len (length pre + 2) = Inr bs"
    using Cons.IH [of "pre @ two_digits b"] Cons.prems by simp
  ultimately show ?case by simp
qed

lemma line_read:
  assumes "len = 1 + 2 * length bs" "bs \<noteq> []"
  shows "hex_bytes (58 # concat (map two_digits bs) @ post) len 0 = Inr (58 # bs)"
proof -
  have c: "byte_to_hex 58 = 58" by code_simp
  have "hex_bytes ([58] @ concat (map two_digits bs) @ post) len (length [58 :: u8]) = Inr bs"
    by (rule digits_read) (use assms in simp_all)
  then have r: "hex_bytes (58 # concat (map two_digits bs) @ post) len (Suc 0) = Inr bs" by simp
  have "Suc 0 < length (58 # concat (map two_digits bs) @ post)" using assms(2) by (cases bs) (simp_all add: two_digits_def)
  then show ?thesis using r assms(1) by (subst hex_bytes.simps) (simp add: Let_def c)
qed

section \<open>Checksums\<close>

lemma fold_sum: "fold (\<lambda>i crc. crc + bytes ! i) is (c :: u8) = c + (\<Sum>i\<leftarrow>is. bytes ! i)" for bytes :: "u8 list"
  by (induction "is" arbitrary: c) (simp_all add: add.assoc)

lemma sum_positions: "(\<Sum>i\<leftarrow>[0..<length bs]. bs ! i) = sum_list bs" for bs :: "u8 list"
  by (simp add: map_nth)

text \<open>The checksum of a text that starts with the colon, followed by \<open>bs\<close> and one more byte.\<close>

lemma checksum_of:
  assumes "length bytes \<ge> length bs + 1" "take (length bs) (drop 1 bytes) = bs" "len = length bs + 2"
  shows "intel_hex_checksum bytes len = - sum_list bs"
proof -
  have "(\<Sum>i\<leftarrow>[1..<len - 1]. bytes ! i) = (\<Sum>i\<leftarrow>[0..<length bs]. bytes ! Suc i)"
  proof -
    have "[1..<len - 1] = map Suc [0..<length bs]" using assms(3) by (simp only: map_Suc_upt) simp
    then show ?thesis by (simp only: map_map) (simp add: comp_def)
  qed
  also have "\<dots> = (\<Sum>i\<leftarrow>[0..<length bs]. bs ! i)"
  proof (rule arg_cong [of _ _ sum_list], rule map_cong)
    fix i
    assume "i \<in> set [0..<length bs]"
    then have "bs ! i = take (length bs) (drop 1 bytes) ! i" "i < length bs" using assms(2) by simp_all
    then show "bytes ! Suc i = bs ! i" using assms(1) by simp
  qed simp
  finally show ?thesis by (simp add: intel_hex_checksum_def fold_sum sum_positions minus_eq_not_plus_1)
qed

section \<open>A record is read back\<close>

lemma length_record [simp]: "length (record_bytes ty addr xs) = length xs + 5"
  by (simp add: record_bytes_def Let_def)

lemma record_processed:
  assumes "length xs < 33" "length hexd = 32" "length xs + 6 \<le> length arr"
  shows "\<exists>chk. intel_hex_process (overwrite (58 # record_bytes ty addr xs) arr) (length xs + 6) hexd
     = Inr (Some \<lparr>byte_count = of_nat (length xs), hex_addr = addr, record_type = ty, checksum = chk\<rparr>, overwrite xs hexd)"
proof -
  let ?b = "overwrite (58 # record_bytes ty addr xs) arr"
  let ?bs = "[of_nat (length xs), fst addr, snd addr, ty] @ xs"
  let ?c = "- sum_list ?bs"
  have b: "?b = 58 # of_nat (length xs) # fst addr # snd addr # ty # xs @ ?c # drop (length xs + 6) arr"
    by (simp add: overwrite_def record_bytes_def Let_def eval_nat_numeral)
  have n: "unat (of_nat (length xs) :: u8) = length xs" using assms(1) by (simp add: unat_of_nat)
  have "intel_hex_checksum ?b (length xs + 6) = ?c"
    by (rule checksum_of) (use assms(3) in \<open>simp_all add: b\<close>)
  moreover have "?b ! (5 + length xs) = ?c" "?b ! 1 = of_nat (length xs)" "?b ! 0 = 58" "?b ! 2 = fst addr" "?b ! 3 = snd addr" "?b ! 4 = ty"
      "take (length xs) (drop 5 ?b) = xs" "length ?b = length arr"
    using assms(3) by (simp_all add: b nth_append)
  ultimately show ?thesis using assms n by (simp add: intel_hex_process_def Let_def)
qed

lemma record_read:
  assumes "length xs \<le> 32" "length hexd = 32" "length xs + 6 \<le> length arr"
  shows "string_to_hex (record_line ty addr xs @ post) (length (record_line ty addr xs)) arr
      = Inr (length xs + 6, overwrite (58 # record_bytes ty addr xs) arr)"
    and "\<exists>chk. intel_hex_process (overwrite (58 # record_bytes ty addr xs) arr) (length xs + 6) hexd
      = Inr (Some \<lparr>byte_count = of_nat (length xs), hex_addr = addr, record_type = ty, checksum = chk\<rparr>, overwrite xs hexd)"
proof -
  have l: "length (record_line ty addr xs) = 1 + 2 * length (record_bytes ty addr xs)"
    by (simp add: record_line_def length_digits)
  have "record_bytes ty addr xs \<noteq> []" by (simp add: record_bytes_def Let_def)
  from line_read [OF l this, of post]
  show "string_to_hex (record_line ty addr xs @ post) (length (record_line ty addr xs)) arr
      = Inr (length xs + 6, overwrite (58 # record_bytes ty addr xs) arr)"
    using assms(3) by (simp add: string_to_hex_def record_line_def)
qed (rule record_processed, use assms in simp_all)

text \<open>C35.
  A record of at most 32 bytes that is written as a line of digits (with whatever behind it in the buffer) is read back by
  \<^verbatim>\<open>string_to_hex\<close> and \<^verbatim>\<open>intel_hex_process\<close>: its length, its address, its type, and its data at the start of \<^verbatim>\<open>hex_data\<close>.\<close>

theorem hex_record_roundtrip:
  assumes "length xs \<le> 32" "length hexd = 32" "length xs + 6 \<le> length arr"
  shows "\<exists>n bs chk. string_to_hex (record_line ty addr xs @ post) (length (record_line ty addr xs)) arr = Inr (n, bs)
    \<and> intel_hex_process bs n hexd
        = Inr (Some \<lparr>byte_count = of_nat (length xs), hex_addr = addr, record_type = ty, checksum = chk\<rparr>, overwrite xs hexd)"
  using record_read [OF assms, of ty addr] by auto

lemma hex_record_roundtrip_witness:
  "\<exists>n bs chk. string_to_hex (record_line 0 (0x12, 0x34) [1, 0xAB] @ [13, 10]) (length (record_line 0 (0x12, 0x34) [1, 0xAB])) (replicate 50 7) = Inr (n, bs)
    \<and> intel_hex_process bs n (replicate 32 0)
        = Inr (Some \<lparr>byte_count = 2, hex_addr = (0x12, 0x34), record_type = 0, checksum = chk\<rparr>, [1, 0xAB] @ replicate 30 0)"
  using hex_record_roundtrip [of "[1, 0xAB]" "replicate 32 0" "replicate 50 7" 0 "(0x12, 0x34)" "[13, 10]"]
  by (simp add: overwrite_def)

end
