(* ===== verification/Flash_Input.thy ===== *)
theory Flash_Input
  imports Intel_Hex Crc16
begin

text \<open>
  \<^verbatim>\<open>services/boot_master/boot-core/fw/sm_segment.c\<close>, \<^verbatim>\<open>sm_fw.h\<close> and \<^verbatim>\<open>boot-impl/input/sm_flash_boot_input.c\<close>: the segments of
  a firmware, its signature, and the source of an upgrade that reads an Intel-HEX file from a partition of the external flash.

  The partition is a list of bytes; a read that would leave it fails and leaves the buffer of the caller as it was, whose bytes
  are the parameter \<open>stale\<close>. Addresses are natural numbers: they wrap only behind the partition. A loop that does not end is the
  fault \<open>Halted\<close>.
\<close>

section \<open>Segments and signatures\<close>

definition SM_SEGMENT_FW_SIZE :: nat where "SM_SEGMENT_FW_SIZE = 1024"

text \<open>The signed 32-bit address is kept as a word.\<close>

record sm_segment =
  seg_addr :: u32
  seg_index :: int
  seg_size :: int
  seg_length :: nat
  seg_data :: "u8 list"
  seg_crc :: u16
  seg_last :: u8

record fw_signature =
  fw_version :: "u8 list"
  fw_addr :: u32
  fw_size :: u32
  fw_crc :: u16
  fw_offset :: int
  fw_valid :: u8

definition sm_seg_create :: sm_segment where
  "sm_seg_create = \<lparr>seg_addr = 0, seg_index = 0, seg_size = 0, seg_length = 0, seg_data = replicate SM_SEGMENT_FW_SIZE 0,
     seg_crc = 0, seg_last = 0\<rparr>"

definition sm_seg_set_info :: "int \<Rightarrow> u32 \<Rightarrow> int \<Rightarrow> u16 \<Rightarrow> sm_segment \<Rightarrow> sm_segment" where
  "sm_seg_set_info idx addr sz crc seg =
     seg\<lparr>seg_index := idx, seg_addr := addr, seg_crc := crc, seg_size := sz, seg_length := 0\<rparr>"

fun seg_fill :: "u8 list \<Rightarrow> sm_segment \<Rightarrow> fault + (nat option \<times> sm_segment)" where
  "seg_fill [] seg = Inr (None, seg)"
| "seg_fill (b # bs) seg =
     (if SM_SEGMENT_FW_SIZE \<le> seg_length seg then Inl Out_Of_Bounds
      else let seg' = seg\<lparr>seg_data := (seg_data seg)[seg_length seg := b], seg_length := seg_length seg + 1\<rparr> in
        if seg_size seg' < int (seg_length seg') then Inr (Some (length (b # bs)), seg') else seg_fill bs seg')"

definition sm_seg_fill_data :: "u8 list \<Rightarrow> sm_segment \<Rightarrow> fault + (nat \<times> sm_segment)" where
  "sm_seg_fill_data bs seg =
     (case seg_fill bs seg of Inl f \<Rightarrow> Inl f
      | Inr (r, seg) \<Rightarrow> Inr (case r of None \<Rightarrow> length bs | Some k \<Rightarrow> k, seg))"

definition sm_seg_set_last_segment :: "u8 \<Rightarrow> sm_segment \<Rightarrow> sm_segment" where
  "sm_seg_set_last_segment l seg = seg\<lparr>seg_last := l\<rparr>"

definition sm_seg_is_valid :: "sm_segment \<Rightarrow> bool" where
  "sm_seg_is_valid seg \<longleftrightarrow> seg_crc seg = sm_CRC_CalculateCRC16 (take (seg_length seg) (seg_data seg))"

definition sm_seg_is_full :: "sm_segment \<Rightarrow> bool" where
  "sm_seg_is_full seg \<longleftrightarrow> int (seg_length seg) = seg_size seg"

text \<open>The offset of the data is not copied.\<close>

definition sm_fw_signature_clone :: "fw_signature \<Rightarrow> fw_signature \<Rightarrow> fw_signature" where
  "sm_fw_signature_clone other self =
     self\<lparr>fw_version := fw_version other, fw_addr := fw_addr other, fw_size := fw_size other, fw_crc := fw_crc other,
          fw_valid := fw_valid other\<rparr>"

section \<open>The flash as a source\<close>

definition FLASH_EMPTY_DATA :: u8 where "FLASH_EMPTY_DATA = 0xFF"
definition FLASH_STORAGE_MAX_BUFFER :: nat where "FLASH_STORAGE_MAX_BUFFER = 50"

record flash_input =
  fi_sig :: fw_signature
  fi_addr :: nat
  fi_extra_count :: nat
  fi_extra :: "u8 list"
  fi_finish :: bool
  fi_hex :: "u8 list"

definition part_read :: "u8 list \<Rightarrow> nat \<Rightarrow> nat \<Rightarrow> u8 list \<Rightarrow> u8 list" where
  "part_read part off n stale =
     (if length part < off + n then stale else take n (drop off part))"

definition check_valid_flash_data :: "u8 list \<Rightarrow> bool" where
  "check_valid_flash_data buff = list_ex (\<lambda>b. b \<noteq> FLASH_EMPTY_DATA) buff"

definition get_one_line_data :: "u8 list \<Rightarrow> nat" where
  "get_one_line_data buff =
     (if buff ! 0 = 10 then 0
      else case List.find (\<lambda>i. buff ! i = 10) [1..<length buff] of Some i \<Rightarrow> i + 1 | None \<Rightarrow> length buff)"

text \<open>The length of the line and the buffer; \<open>None\<close> is the result -1.\<close>

definition flash_get_line :: "u8 list \<Rightarrow> u8 list \<Rightarrow> flash_input \<Rightarrow> (nat \<times> u8 list) option \<times> flash_input" where
  "flash_get_line part stale g =
     (let buff = part_read part (fi_addr g) FLASH_STORAGE_MAX_BUFFER stale in
      if \<not> check_valid_flash_data buff then (None, g)
      else let n = get_one_line_data buff in
        (Some (n, overwrite (take n buff) (replicate FLASH_STORAGE_MAX_BUFFER 0)), g\<lparr>fi_addr := fi_addr g + n\<rparr>))"

definition strip_line :: "nat \<Rightarrow> u8 list \<Rightarrow> fault + nat" where
  "strip_line n buff =
     (if n < 2 then Inl Out_Of_Bounds
      else if take 3 (drop (n - 2) buff) = [13, 10, 0] then Inr (n - 2)
      else if buff ! (n - 1) = 10 then Inr (n - 1) else Inr n)"

text \<open>What both loops do with a line: \<open>No_Line\<close> leaves the loop, \<open>Bad_Record\<close> the function.\<close>

datatype line_result = No_Line | Bad_Record | Record intel_hex

definition flash_next_record ::
  "u8 list \<Rightarrow> u8 list \<Rightarrow> flash_input \<Rightarrow> u8 list \<Rightarrow> fault + (line_result \<times> flash_input \<times> u8 list)" where
  "flash_next_record part stale g hex_buff =
     (case flash_get_line part stale g of
        (None, g) \<Rightarrow> Inr (No_Line, g, hex_buff)
      | (Some (n, buff), g) \<Rightarrow>
          if n = 0 \<or> FLASH_STORAGE_MAX_BUFFER \<le> n then Inr (No_Line, g, hex_buff)
          else (case strip_line n buff of Inl f \<Rightarrow> Inl f
                | Inr n \<Rightarrow>
                    (case string_to_hex buff n hex_buff of Inl f \<Rightarrow> Inl f
                     | Inr (k, hex_buff) \<Rightarrow>
                         (case intel_hex_process hex_buff k (fi_hex g) of Inl f \<Rightarrow> Inl f
                          | Inr (r, h) \<Rightarrow> Inr (case r of None \<Rightarrow> Bad_Record | Some r \<Rightarrow> Record r, g\<lparr>fi_hex := h\<rparr>, hex_buff)))))"

definition hex_addr_word :: "intel_hex \<Rightarrow> u32" where
  "hex_addr_word r = push_bit 8 (ucast (fst (hex_addr r))) OR ucast (snd (hex_addr r))"

definition hex_data_word :: "flash_input \<Rightarrow> u32" where
  "hex_data_word g = push_bit 8 (ucast (fi_hex g ! 0)) OR ucast (fi_hex g ! 1)"

definition set_base :: "u32 \<Rightarrow> flash_input \<Rightarrow> flash_input" where
  "set_base a g = (if fw_addr (fi_sig g) = 0 then g\<lparr>fi_sig := (fi_sig g)\<lparr>fw_addr := a\<rparr>\<rparr> else g)"

text \<open>The loop of \<^verbatim>\<open>sm_input_flash_init\<close>; the flag is false when it returns -1.\<close>

partial_function (option) flash_init_loop ::
  "u8 list \<Rightarrow> u8 list \<Rightarrow> flash_input \<Rightarrow> u8 list \<Rightarrow> (fault + (bool \<times> flash_input)) option" where
  "flash_init_loop part stale g hex_buff =
     (case flash_next_record part stale g hex_buff of
        Inl f \<Rightarrow> Some (Inl f)
      | Inr (l, g, hex_buff) \<Rightarrow>
          (case l of
             No_Line \<Rightarrow> Some (Inr (True, g))
           | Bad_Record \<Rightarrow> Some (Inr (False, g))
           | Record r \<Rightarrow>
               if record_type r = INTEL_HEX_Extended_Linear_Address
               then flash_init_loop part stale (set_base (push_bit 16 (hex_data_word g) + hex_addr_word r) g) hex_buff
               else if record_type r = INTEL_HEX_Extended_Segment_Address
               then flash_init_loop part stale (set_base (push_bit 4 (hex_data_word g) + hex_addr_word r) g) hex_buff
               else if record_type r = INTEL_HEX_Data
               then if fw_offset (fi_sig g) < 0
                    then Some (Inr (True, g\<lparr>fi_sig := (fi_sig g)\<lparr>fw_offset := uint (hex_addr_word r)\<rparr>\<rparr>))
                    else flash_init_loop part stale g hex_buff
               else if record_type r = INTEL_HEX_EndFile then Some (Inr (True, g))
               else flash_init_loop part stale g hex_buff))"

definition sm_input_flash_init :: "u8 list \<Rightarrow> u8 list \<Rightarrow> u8 list \<Rightarrow> flash_input \<Rightarrow> fault + (int \<times> flash_input)" where
  "sm_input_flash_init part stale hex_buff g =
     (case flash_init_loop part stale g hex_buff of
        None \<Rightarrow> Inl Halted
      | Some (Inl f) \<Rightarrow> Inl f
      | Some (Inr (False, g)) \<Rightarrow> Inr (-1, g)
      | Some (Inr (True, g)) \<Rightarrow>
          let s = fi_sig g in
          Inr (0, g\<lparr>fi_sig := s\<lparr>fw_valid := 0, fw_addr := fw_addr s + of_int (fw_offset s), fw_crc := CRC_16_INIT_VALUE\<rparr>, fi_addr := 0\<rparr>))"

definition sm_input_flash_free :: "flash_input \<Rightarrow> flash_input" where
  "sm_input_flash_free g =
     g\<lparr>fi_sig := (fi_sig g)\<lparr>fw_size := 0, fw_addr := 0, fw_crc := 0, fw_valid := 0, fw_offset := -1\<rparr>,
       fi_finish := False, fi_extra_count := 0, fi_extra := replicate 32 0\<rparr>"

definition sm_input_flash_get_fw_info :: "flash_input \<Rightarrow> fw_signature \<Rightarrow> fw_signature option" where
  "sm_input_flash_get_fw_info g fw = (if \<not> fi_finish g then None else Some (sm_fw_signature_clone (fi_sig g) fw))"

text \<open>
  The loop of \<^verbatim>\<open>sm_input_flash_get_seg_fw\<close>; \<open>buf\<close> is the filled part of \<^verbatim>\<open>seg_temp_buff\<close>. Data that go beyond its 1024 bytes are
  written behind it, so the rest of the function, which would save them for the next segment, is never reached with any.
\<close>

partial_function (option) flash_seg_loop ::
  "u8 list \<Rightarrow> u8 list \<Rightarrow> flash_input \<Rightarrow> u8 list \<Rightarrow> u8 list \<Rightarrow> (fault + (bool \<times> flash_input \<times> u8 list)) option" where
  "flash_seg_loop part stale g hex_buff buf =
     (if 1024 \<le> length buf then Some (Inr (True, g, buf))
      else case flash_next_record part stale g hex_buff of
        Inl f \<Rightarrow> Some (Inl f)
      | Inr (l, g, hex_buff) \<Rightarrow>
          (case l of
             No_Line \<Rightarrow> Some (Inr (True, g, buf))
           | Bad_Record \<Rightarrow> Some (Inr (False, g, buf))
           | Record r \<Rightarrow>
               if record_type r = INTEL_HEX_Data
               then let n = unat (byte_count r) in
                 if 1024 < length buf + n then Some (Inl Out_Of_Bounds)
                 else flash_seg_loop part stale g hex_buff (buf @ take n (fi_hex g))
               else if record_type r = INTEL_HEX_EndFile then Some (Inr (True, g\<lparr>fi_finish := True\<rparr>, buf))
               else flash_seg_loop part stale g hex_buff buf))"

definition sm_input_flash_get_seg_fw ::
  "u8 list \<Rightarrow> u8 list \<Rightarrow> u8 list \<Rightarrow> sm_segment \<Rightarrow> flash_input \<Rightarrow> fault + (int \<times> sm_segment \<times> flash_input)" where
  "sm_input_flash_get_seg_fw part stale hex_buff seg g =
     (let buf = (if 0 < fi_extra_count g then take (fi_extra_count g) (fi_extra g) else []) in
      case flash_seg_loop part stale (g\<lparr>fi_extra_count := 0\<rparr>) hex_buff buf of
        None \<Rightarrow> Inl Halted
      | Some (Inl f) \<Rightarrow> Inl f
      | Some (Inr (False, g, _)) \<Rightarrow> Inr (-1, seg, g)
      | Some (Inr (True, g, buf)) \<Rightarrow>
          let crc = sm_CRC_CalculateCRC16 buf; s = fi_sig g;
              g = g\<lparr>fi_sig := s\<lparr>fw_crc := sm_CRC_CalculateCRC16_init_value (fw_crc s) buf, fw_size := fw_size s + of_nat (length buf)\<rparr>\<rparr>;
              seg = sm_seg_set_info (seg_index seg) (fw_addr s + of_int (seg_index seg * 1024)) (int (length buf)) crc seg
          in (case sm_seg_fill_data buf seg of Inl f \<Rightarrow> Inl f
              | Inr (_, seg) \<Rightarrow> Inr (1, sm_seg_set_last_segment (if fi_finish g \<and> fi_extra_count g = 0 then 1 else 0) seg, g)))"

definition sm_get_flash_boot_input :: "flash_input \<Rightarrow> flash_input" where
  "sm_get_flash_boot_input g =
     g\<lparr>fi_sig := (fi_sig g)\<lparr>fw_size := 0, fw_addr := 0, fw_crc := 0, fw_valid := 0, fw_offset := -1\<rparr>, fi_addr := 0\<rparr>"

section \<open>A file in the flash\<close>

type_synonym hrec = "u8 \<times> (u8 \<times> u8) \<times> u8 list"

definition hline :: "hrec \<Rightarrow> u8 list" where
  "hline r = (case r of (ty, addr, xs) \<Rightarrow> record_line ty addr xs @ [13, 10])"

definition hfile :: "hrec list \<Rightarrow> u8 list" where
  "hfile rs = concat (map hline rs)"

text \<open>Lines that fit in the buffer, with a byte to spare: records of at most 18 bytes.\<close>

definition short_rec :: "hrec \<Rightarrow> bool" where
  "short_rec r \<longleftrightarrow> length (snd (snd r)) \<le> 18"

lemma length_line: "length (record_line ty addr xs) = 2 * length xs + 11"
  by (simp add: record_line_def length_digits)

lemma length_hline: "length (hline (ty, addr, xs)) = 2 * length xs + 13"
  by (simp add: hline_def length_line)

lemma no_newline: "10 \<notin> set (record_line ty addr xs)"
proof -
  have "10 \<notin> set (two_digits b)" for b
    using digit_back [OF nibbles(1), of b] digit_back [OF nibbles(2), of b] by (auto simp: two_digits_def)
  then show ?thesis by (auto simp: record_line_def)
qed

lemma get_line_file:
  assumes "part = pre @ hline r @ post" "fi_addr g = length pre" "short_rec r" "length pre + 50 \<le> length part"
  shows "flash_get_line part stale g = (Some (length (hline r), hline r @ replicate (50 - length (hline r)) 0),
    g\<lparr>fi_addr := length pre + length (hline r)\<rparr>)"
proof -
  obtain ty addr xs where r: "r = (ty, addr, xs)" by (rule prod_cases3)
  let ?n = "length (hline r)" and ?l = "record_line ty addr xs"
  have n: "?n = length ?l + 2" "?n < 50" using assms(3) by (simp_all add: r short_rec_def length_hline length_line)
  have "length part - length pre \<ge> 50" using assms(4) by simp
  then have w: "part_read part (length pre) 50 stale = hline r @ take (50 - ?n) post" (is "?b = _")
    using assms(1,4) n(2) by (simp add: part_read_def)
  have lb: "length ?b = 50" using assms(4) by (simp add: part_read_def)
  have h: "hline r = ?l @ [13, 10]" by (simp add: r hline_def)
  have no: "?b ! i \<noteq> 10" if "i \<le> length ?l" for i
  proof (cases "i < length ?l")
    case True
    then have "?l ! i \<noteq> 10" using no_newline [of ty addr xs] by (metis nth_mem)
    then show ?thesis using True by (simp add: w h nth_append)
  qed (use that in \<open>simp add: w h nth_append\<close>)
  have "?b ! 0 = 58" by (simp add: w h record_line_def)
  moreover from this have "check_valid_flash_data ?b"
    using lb nth_mem [of 0 ?b] by (auto simp: check_valid_flash_data_def list_ex_iff FLASH_EMPTY_DATA_def intro!: bexI [of _ "58 :: u8"])
  moreover have "List.find (\<lambda>i. ?b ! i = 10) [1..<length ?b] = Some (length ?l + 1)"
  proof -
    have "?b ! (length ?l + 1) = 10" by (simp add: w h nth_append)
    then show ?thesis unfolding find_Some_iff using no n lb
      by (intro exI [of _ "length ?l"]) auto
  qed
  ultimately have "get_one_line_data ?b = ?n" "check_valid_flash_data ?b" using n(1) by (simp_all add: get_one_line_data_def)
  moreover have "take ?n ?b = hline r" by (simp add: w)
  ultimately show ?thesis
    using n(2) lb by (simp add: flash_get_line_def Let_def assms(2) FLASH_STORAGE_MAX_BUFFER_def overwrite_def)
qed

lemma next_record:
  assumes "part = pre @ hline (ty, addr, xs) @ post" "fi_addr g = length pre" "length xs \<le> 18" "length pre + 50 \<le> length part"
    and "length hb = 50" "length (fi_hex g) = 32"
  shows "\<exists>chk hb'. flash_next_record part stale g hb
    = Inr (Record \<lparr>byte_count = of_nat (length xs), hex_addr = addr, record_type = ty, checksum = chk\<rparr>,
           g\<lparr>fi_addr := length pre + length (hline (ty, addr, xs)), fi_hex := overwrite xs (fi_hex g)\<rparr>, hb') \<and> length hb' = 50"
proof -
  let ?r = "(ty, addr, xs)"
  let ?n = "length (hline ?r)" and ?l = "record_line ty addr xs"
  have n: "?n = length ?l + 2" "?n < 50" using assms(3) by (simp_all add: length_hline length_line)
  have g: "flash_get_line part stale g = (Some (?n, hline ?r @ replicate (50 - ?n) 0), g\<lparr>fi_addr := length pre + ?n\<rparr>)"
    by (rule get_line_file [OF assms(1,2) _ assms(4)]) (simp add: short_rec_def assms(3))
  have b: "hline ?r @ replicate (50 - ?n) 0 = ?l @ [13, 10] @ replicate (50 - ?n) 0" by (simp add: hline_def)
  have "take 3 (drop (?n - 2) (?l @ [13, 10] @ replicate (50 - ?n) 0)) = [13, 10, 0 :: u8]"
    using n by (simp add: numeral_3_eq_3 take_Cons')
  then have st: "strip_line ?n (hline ?r @ replicate (50 - ?n) 0) = Inr (length ?l)" unfolding strip_line_def b using n by simp
  have xs: "length xs \<le> 32" "length xs + 6 \<le> length hb" using assms(3,5) by simp_all
  let ?hb = "overwrite (58 # record_bytes ty addr xs) hb"
  have s: "string_to_hex (hline ?r @ replicate (50 - ?n) 0) (length ?l) hb = Inr (length xs + 6, ?hb)"
    unfolding b by (rule record_read(1) [OF xs(1) assms(6) xs(2)])
  obtain chk where p: "intel_hex_process ?hb (length xs + 6) (fi_hex g)
      = Inr (Some \<lparr>byte_count = of_nat (length xs), hex_addr = addr, record_type = ty, checksum = chk\<rparr>, overwrite xs (fi_hex g))"
    using record_read(2) [OF xs(1) assms(6) xs(2)] by blast
  have "length ?hb = 50" using xs(2) assms(5) by (simp add: length_overwrite)
  then show ?thesis using n st s p
    by (simp add: flash_next_record_def g FLASH_STORAGE_MAX_BUFFER_def length_hline)
qed

section \<open>The segments of a file\<close>

definition is_data :: "hrec \<Rightarrow> bool" where
  "is_data r \<longleftrightarrow> fst r = INTEL_HEX_Data"

definition payload :: "hrec list \<Rightarrow> u8 list" where
  "payload rs = concat (map (\<lambda>r. snd (snd r)) (filter is_data rs))"

text \<open>No record of data crosses the end of a segment, of which \<open>k\<close> bytes are filled.\<close>

fun fits_segments :: "nat \<Rightarrow> hrec list \<Rightarrow> bool" where
  "fits_segments k [] = True"
| "fits_segments k (r # rs) =
     (if is_data r then k + length (snd (snd r)) \<le> 1024 \<and> fits_segments ((k + length (snd (snd r))) mod 1024) rs else fits_segments k rs)"

lemma payload_simps [simp]:
  "payload [] = []"
  "payload (r # rs) = (if is_data r then snd (snd r) @ payload rs else payload rs)"
  by (simp_all add: payload_def)

definition end_record :: hrec where
  "end_record = (INTEL_HEX_EndFile, (0, 0), [])"

text \<open>Where the source stands: the records \<open>rs\<close> and the end of the file are still to be read.\<close>

definition at_records :: "u8 list \<Rightarrow> hrec list \<Rightarrow> flash_input \<Rightarrow> bool" where
  "at_records part rs g \<longleftrightarrow> length (fi_hex g) = 32 \<and> \<not> fi_finish g \<and> fi_extra_count g = 0 \<and>
     (\<forall>r \<in> set rs. short_rec r \<and> fst r \<noteq> INTEL_HEX_EndFile) \<and>
     (\<exists>pre post. part = pre @ hfile (rs @ [end_record]) @ post \<and> 50 \<le> length post \<and> fi_addr g = length pre)"

lemma at_records_Cons:
  assumes "at_records part (r # rs) g" "length hb = 50"
  shows "\<exists>chk hb' g'. flash_next_record part stale g hb
      = Inr (Record \<lparr>byte_count = of_nat (length (snd (snd r))), hex_addr = fst (snd r), record_type = fst r, checksum = chk\<rparr>, g', hb')
    \<and> length hb' = 50 \<and> at_records part rs g' \<and> take (length (snd (snd r))) (fi_hex g') = snd (snd r) \<and> fi_sig g' = fi_sig g
    \<and> fi_hex g' = overwrite (snd (snd r)) (fi_hex g)"
proof -
  obtain ty addr xs where r: "r = (ty, addr, xs)" by (rule prod_cases3)
  obtain pre post where p: "part = pre @ hline r @ hfile (rs @ [end_record]) @ post" "50 \<le> length post" "fi_addr g = length pre"
    using assms(1) by (auto simp: at_records_def hfile_def)
  have xs: "length xs \<le> 18" "length (fi_hex g) = 32" using assms(1) by (auto simp: at_records_def r short_rec_def)
  have "length pre + 50 \<le> length part" using p(1,2) by simp
  from next_record [OF p(1) [unfolded r] p(3) xs(1) this assms(2) xs(2), of stale]
  obtain chk hb' where n: "flash_next_record part stale g hb
      = Inr (Record \<lparr>byte_count = of_nat (length xs), hex_addr = addr, record_type = ty, checksum = chk\<rparr>,
           g\<lparr>fi_addr := length pre + length (hline r), fi_hex := overwrite xs (fi_hex g)\<rparr>, hb')" "length hb' = 50"
    by (auto simp: r)
  let ?g = "g\<lparr>fi_addr := length pre + length (hline r), fi_hex := overwrite xs (fi_hex g)\<rparr>"
  have "\<exists>pre' post'. part = pre' @ hfile (rs @ [end_record]) @ post' \<and> 50 \<le> length post' \<and> fi_addr ?g = length pre'"
    by (rule exI [of _ "pre @ hline r"], rule exI [of _ post]) (use p(1,2) in simp)
  then have "at_records part rs ?g" using assms(1) xs by (simp add: at_records_def length_overwrite)
  then show ?thesis using n xs by (intro exI [of _ chk] exI [of _ hb'] exI [of _ ?g]) (simp add: r take_overwrite)
qed

lemma at_end:
  assumes "at_records part [] g" "length hb = 50"
  shows "\<exists>chk hb' h a. flash_next_record part stale g hb
      = Inr (Record \<lparr>byte_count = 0, hex_addr = (0, 0), record_type = INTEL_HEX_EndFile, checksum = chk\<rparr>, g\<lparr>fi_addr := a, fi_hex := h\<rparr>, hb')
    \<and> length h = 32"
proof -
  obtain pre post where p: "part = pre @ hline end_record @ post" "50 \<le> length post" "fi_addr g = length pre"
    using assms(1) by (auto simp: at_records_def hfile_def)
  have "length pre + 50 \<le> length part" "length (fi_hex g) = 32" using p(1,2) assms(1) by (simp_all add: at_records_def)
  from next_record [OF p(1) [unfolded end_record_def] p(3) _ this(1) assms(2) this(2), of stale]
  obtain chk hb' where "flash_next_record part stale g hb
      = Inr (Record \<lparr>byte_count = 0, hex_addr = (0, 0), record_type = INTEL_HEX_EndFile, checksum = chk\<rparr>,
         g\<lparr>fi_addr := length pre + length (hline (INTEL_HEX_EndFile, (0, 0), [])), fi_hex := overwrite [] (fi_hex g)\<rparr>, hb')"
    by auto
  moreover have "length (overwrite [] (fi_hex g)) = 32" using assms(1) by (simp add: at_records_def length_overwrite)
  ultimately show ?thesis by blast
qed

text \<open>The loop fills the segment from the records, or reads to the end of the file; \<open>k\<close> bytes are missing to a full one.\<close>

definition seg_done :: "u8 list \<Rightarrow> nat \<Rightarrow> u8 list \<Rightarrow> fw_signature \<Rightarrow> flash_input \<Rightarrow> bool" where
  "seg_done part k bs sig g \<longleftrightarrow> fi_sig g = sig \<and> fi_extra_count g = 0 \<and> length (fi_hex g) = 32
    \<and> (if length bs < k then fi_finish g
       else \<not> fi_finish g \<and> (\<exists>rs. at_records part rs g \<and> fits_segments 0 rs \<and> payload rs = drop k bs))"

lemma seg_done_append: "seg_done part (length xs + k) (xs @ bs) sig g = seg_done part k bs sig g"
proof -
  have "drop (length xs + k) (xs @ bs) = drop k bs" "length (xs @ bs) < length xs + k \<longleftrightarrow> length bs < k" by simp_all
  then show ?thesis unfolding seg_done_def by (simp only:)
qed

lemma seg_loop:
  assumes "at_records part rs g" "fits_segments (length buf) rs" "length buf < 1024" "length hb = 50"
  shows "\<exists>g'. flash_seg_loop part stale g hb buf = Some (Inr (True, g', buf @ take (1024 - length buf) (payload rs)))
    \<and> seg_done part (1024 - length buf) (payload rs) (fi_sig g) g'"
  using assms
proof (induction rs arbitrary: g buf hb)
  case Nil
  obtain chk hb' h a where n: "flash_next_record part stale g hb
      = Inr (Record \<lparr>byte_count = 0, hex_addr = (0, 0), record_type = INTEL_HEX_EndFile, checksum = chk\<rparr>, g\<lparr>fi_addr := a, fi_hex := h\<rparr>, hb')"
      "length h = 32" using at_end [OF Nil.prems(1,4)] by blast
  show ?case using n Nil.prems(1,3)
    by (subst flash_seg_loop.simps) (simp add: INTEL_HEX_EndFile_def INTEL_HEX_Data_def at_records_def seg_done_def)
next
  case (Cons r rs)
  obtain chk hb' g' where n: "flash_next_record part stale g hb
      = Inr (Record \<lparr>byte_count = of_nat (length (snd (snd r))), hex_addr = fst (snd r), record_type = fst r, checksum = chk\<rparr>, g', hb')"
      "length hb' = 50" "at_records part rs g'" "take (length (snd (snd r))) (fi_hex g') = snd (snd r)" "fi_sig g' = fi_sig g"
    using at_records_Cons [OF Cons.prems(1,4), of stale] by blast
  have ty: "fst r \<noteq> INTEL_HEX_EndFile" "length (snd (snd r)) \<le> 18" using Cons.prems(1) by (auto simp: at_records_def short_rec_def)
  note lt = Cons.prems(3)
  show ?case
  proof (cases "is_data r")
    case False
    then have "flash_seg_loop part stale g hb buf = flash_seg_loop part stale g' hb' buf"
      using n(1) ty lt by (subst flash_seg_loop.simps) (simp add: is_data_def)
    then show ?thesis using Cons.IH [OF n(3) _ lt n(2)] Cons.prems(2) False n(5) by simp
  next
    case True
    let ?xs = "snd (snd r)"
    have u: "unat (of_nat (length ?xs) :: u8) = length ?xs" using ty(2) by (simp add: unat_of_nat)
    have fit: "length buf + length ?xs \<le> 1024" "fits_segments ((length buf + length ?xs) mod 1024) rs" using Cons.prems(2) True by simp_all
    have step: "flash_seg_loop part stale g hb buf = flash_seg_loop part stale g' hb' (buf @ ?xs)"
      using n(1,4) True lt fit(1) u by (subst flash_seg_loop.simps) (simp add: is_data_def)
    show ?thesis
    proof (cases "length buf + length ?xs = 1024")
      case full: True
      have "flash_seg_loop part stale g' hb' (buf @ ?xs) = Some (Inr (True, g', buf @ ?xs))"
        using full by (subst flash_seg_loop.simps) simp
      moreover have "fits_segments 0 rs" using fit(2) full by simp
      moreover have k: "1024 - length buf = length ?xs" using full lt by simp
      moreover have "seg_done part (length ?xs) (?xs @ payload rs) (fi_sig g) g'"
        using n(3,5) fit(2) full by (auto simp: seg_done_def at_records_def)
      ultimately show ?thesis using step True by (simp add: k)
    next
      case False
      then have lt': "length (buf @ ?xs) < 1024" using fit(1) by simp
      then have "fits_segments (length (buf @ ?xs)) rs" using fit(2) by simp
      from Cons.IH [OF n(3) this lt' n(2)]
      obtain g2 where g2: "flash_seg_loop part stale g' hb' (buf @ ?xs) = Some (Inr (True, g2, (buf @ ?xs) @ take (1024 - length (buf @ ?xs)) (payload rs)))"
          "seg_done part (1024 - length (buf @ ?xs)) (payload rs) (fi_sig g') g2" by blast
      have k: "1024 - length buf = length ?xs + (1024 - length (buf @ ?xs))" using lt' by simp
      have "seg_done part (1024 - length buf) (?xs @ payload rs) (fi_sig g) g2" unfolding k seg_done_append
        using g2(2) n(5) by simp
      moreover have "take (1024 - length buf) (?xs @ payload rs) = ?xs @ take (1024 - length (buf @ ?xs)) (payload rs)"
        unfolding k by simp
      ultimately show ?thesis using step g2(1) True by simp
    qed
  qed
qed

section \<open>One segment after the other\<close>

lemma seg_fill_fits:
  "seg_length seg + length bs \<le> SM_SEGMENT_FW_SIZE \<Longrightarrow> int (seg_length seg + length bs) \<le> seg_size seg \<Longrightarrow>
   length (seg_data seg) = SM_SEGMENT_FW_SIZE \<Longrightarrow>
   seg_fill bs seg = Inr (None, seg\<lparr>seg_data := take (seg_length seg) (seg_data seg) @ bs @ drop (seg_length seg + length bs) (seg_data seg),
     seg_length := seg_length seg + length bs\<rparr>)"
proof (induction bs arbitrary: seg)
  case (Cons b bs)
  let ?seg = "seg\<lparr>seg_data := (seg_data seg)[seg_length seg := b], seg_length := Suc (seg_length seg)\<rparr>"
  have "seg_length seg < length (seg_data seg)" using Cons.prems by simp
  then have t: "take (Suc (seg_length seg)) ((seg_data seg)[seg_length seg := b]) = take (seg_length seg) (seg_data seg) @ [b]"
    by (simp add: take_Suc_conv_app_nth)
  show ?case using Cons.IH [of ?seg] Cons.prems t by (simp add: drop_update_cancel)
qed simp

definition content :: "sm_segment \<Rightarrow> u8 list" where
  "content seg = take (seg_length seg) (seg_data seg)"

text \<open>The checksum and the size of the image grow with each segment.\<close>

definition sig_after :: "u8 list \<Rightarrow> fw_signature \<Rightarrow> fw_signature" where
  "sig_after bs s = s\<lparr>fw_crc := sm_CRC_CalculateCRC16_init_value (fw_crc s) bs, fw_size := fw_size s + of_nat (length bs)\<rparr>"

lemma seg_from_loop:
  assumes "flash_seg_loop part stale (g\<lparr>fi_extra_count := 0\<rparr>) hb [] = Some (Inr (True, g1, bs))" "length bs \<le> 1024"
    and "fi_extra_count g = 0" "fi_extra_count g1 = 0" "length (seg_data seg) = SM_SEGMENT_FW_SIZE"
  shows "\<exists>seg'. sm_input_flash_get_seg_fw part stale hb seg g = Inr (1, seg', g1\<lparr>fi_sig := sig_after bs (fi_sig g1)\<rparr>)
    \<and> content seg' = bs \<and> length (seg_data seg') = SM_SEGMENT_FW_SIZE \<and> seg_index seg' = seg_index seg
    \<and> seg_addr seg' = fw_addr (fi_sig g1) + of_int (seg_index seg * 1024) \<and> sm_seg_is_valid seg'
    \<and> seg_last seg' = (if fi_finish g1 then 1 else 0) \<and> seg_length seg' = length (content seg') \<and> sm_seg_is_full seg'"
proof -
  let ?seg = "sm_seg_set_info (seg_index seg) (fw_addr (fi_sig g1) + of_int (seg_index seg * 1024)) (int (length bs)) (sm_CRC_CalculateCRC16 bs) seg"
  have "seg_fill bs ?seg = Inr (None, ?seg\<lparr>seg_data := bs @ drop (length bs) (seg_data seg), seg_length := length bs\<rparr>)"
    using seg_fill_fits [of ?seg bs] assms(2,5) by (simp add: sm_seg_set_info_def SM_SEGMENT_FW_SIZE_def)
  then show ?thesis using assms
    by (simp add: sm_input_flash_get_seg_fw_def Let_def sm_seg_fill_data_def)
      (simp add: content_def sm_seg_set_last_segment_def sm_seg_set_info_def sm_seg_is_valid_def sm_seg_is_full_def SM_SEGMENT_FW_SIZE_def sig_after_def)
qed

text \<open>The next segment of a file, and where it leaves the source.\<close>

lemma next_segment:
  assumes "at_records part rs g" "fits_segments 0 rs" "length hb = 50" "length (seg_data seg) = SM_SEGMENT_FW_SIZE"
  shows "\<exists>seg' g'. sm_input_flash_get_seg_fw part stale hb seg g = Inr (1, seg', g')
    \<and> content seg' = take 1024 (payload rs) \<and> length (seg_data seg') = SM_SEGMENT_FW_SIZE \<and> seg_index seg' = seg_index seg
    \<and> seg_addr seg' = fw_addr (fi_sig g) + of_int (seg_index seg * 1024) \<and> sm_seg_is_valid seg'
    \<and> fi_sig g' = sig_after (take 1024 (payload rs)) (fi_sig g) \<and> seg_length seg' = length (content seg') \<and> sm_seg_is_full seg'
    \<and> (if length (payload rs) < 1024 then seg_last seg' = 1 \<and> fi_finish g'
       else seg_last seg' = 0 \<and> (\<exists>rs'. at_records part rs' g' \<and> fits_segments 0 rs' \<and> payload rs' = drop 1024 (payload rs)))"
proof -
  have e: "fi_extra_count g = 0" using assms(1) by (simp add: at_records_def)
  then have g: "g\<lparr>fi_extra_count := 0\<rparr> = g" by simp
  obtain g1 where g1: "flash_seg_loop part stale g hb [] = Some (Inr (True, g1, take 1024 (payload rs)))"
      "seg_done part 1024 (payload rs) (fi_sig g) g1"
    using seg_loop [OF assms(1), of "[]" hb stale] assms(2,3) by auto
  have "length (take 1024 (payload rs)) \<le> 1024" "fi_extra_count g1 = 0" using g1(2) by (simp_all add: seg_done_def)
  from seg_from_loop [OF _ this(1) e this(2) assms(4), of part stale hb] g1(1)
  obtain seg' where s: "sm_input_flash_get_seg_fw part stale hb seg g
      = Inr (1, seg', g1\<lparr>fi_sig := sig_after (take 1024 (payload rs)) (fi_sig g1)\<rparr>)"
     "content seg' = take 1024 (payload rs)" "length (seg_data seg') = SM_SEGMENT_FW_SIZE" "seg_index seg' = seg_index seg"
     "seg_addr seg' = fw_addr (fi_sig g1) + of_int (seg_index seg * 1024)" "sm_seg_is_valid seg'"
     "seg_last seg' = (if fi_finish g1 then 1 else 0)" "seg_length seg' = length (content seg')" "sm_seg_is_full seg'"
    unfolding g by blast
  have "at_records part rs' (g1\<lparr>fi_sig := x\<rparr>) = at_records part rs' g1" for rs' x by (simp add: at_records_def)
  then show ?thesis using s g1(2)
    by (intro exI [of _ seg'] exI [of _ "g1\<lparr>fi_sig := sig_after (take 1024 (payload rs)) (fi_sig g1)\<rparr>"]) (auto simp: seg_done_def)
qed

fun read_segments :: "nat \<Rightarrow> u8 list \<Rightarrow> u8 list \<Rightarrow> u8 list \<Rightarrow> sm_segment \<Rightarrow> flash_input \<Rightarrow> fault + sm_segment list" where
  "read_segments 0 part stale hb seg g = Inr []"
| "read_segments (Suc n) part stale hb seg g =
     (case sm_input_flash_get_seg_fw part stale hb seg g of Inl f \<Rightarrow> Inl f
      | Inr (_, seg, g) \<Rightarrow>
          (case read_segments n part stale hb (seg\<lparr>seg_index := seg_index seg + 1\<rparr>) g of Inl f \<Rightarrow> Inl f
           | Inr segs \<Rightarrow> Inr (seg # segs)))"

text \<open>A segment of an image: its place, its checksum and whether it is the last one.\<close>

definition good_segment :: "u32 \<Rightarrow> int \<Rightarrow> bool \<Rightarrow> sm_segment \<Rightarrow> bool" where
  "good_segment base i l seg \<longleftrightarrow> seg_index seg = i \<and> seg_addr seg = base + of_int (i * 1024) \<and> sm_seg_is_valid seg
     \<and> (if l then seg_last seg = 1 \<and> length (content seg) < 1024 else seg_last seg = 0 \<and> length (content seg) = 1024)"

lemma image_cut:
  assumes "length (payload rs) = 1024 * n + m" "m < 1024" "at_records part rs g" "fits_segments 0 rs" "length hb = 50"
    and "length (seg_data seg) = SM_SEGMENT_FW_SIZE"
  shows "\<exists>segs. read_segments (Suc n) part stale hb seg g = Inr segs \<and> length segs = Suc n \<and> concat (map content segs) = payload rs
    \<and> (\<forall>i < Suc n. good_segment (fw_addr (fi_sig g)) (seg_index seg + int i) (i = n) (segs ! i))"
  using assms
proof (induction n arbitrary: rs g seg)
  case 0
  from next_segment [OF 0(3-6), of stale] 0(1,2)
  obtain seg' g' where "sm_input_flash_get_seg_fw part stale hb seg g = Inr (1, seg', g')" "content seg' = payload rs"
      "good_segment (fw_addr (fi_sig g)) (seg_index seg) True seg'" by (auto simp: good_segment_def)
  then show ?case by simp
next
  case (Suc n)
  have big: "\<not> length (payload rs) < 1024" using Suc.prems(1) by simp
  from next_segment [OF Suc.prems(3-6), of stale]
  obtain seg' g' rs' where s: "sm_input_flash_get_seg_fw part stale hb seg g = Inr (1, seg', g')" "content seg' = take 1024 (payload rs)"
      "good_segment (fw_addr (fi_sig g)) (seg_index seg) False seg'" "length (seg_data seg') = SM_SEGMENT_FW_SIZE"
      "seg_index seg' = seg_index seg" "fw_addr (fi_sig g') = fw_addr (fi_sig g)"
      "at_records part rs' g'" "fits_segments 0 rs'" "payload rs' = drop 1024 (payload rs)"
    using big by (auto simp: good_segment_def sig_after_def)
  let ?seg = "seg'\<lparr>seg_index := seg_index seg' + 1\<rparr>"
  have "length (payload rs') = 1024 * n + m" using s(9) Suc.prems(1) by simp
  from Suc.IH [OF this Suc.prems(2) s(7,8) Suc.prems(5), of ?seg] s(4)
  obtain segs where r: "read_segments (Suc n) part stale hb ?seg g' = Inr segs" "length segs = Suc n"
      "concat (map content segs) = payload rs'"
      "\<And>i. i < Suc n \<Longrightarrow> good_segment (fw_addr (fi_sig g)) (seg_index seg + 1 + int i) (i = n) (segs ! i)"
    by (auto simp: s(5,6))
  have "good_segment (fw_addr (fi_sig g)) (seg_index seg + int i) (i = Suc n) ((seg' # segs) ! i)" if "i < Suc (Suc n)" for i
  proof (cases i)
    case (Suc j)
    then show ?thesis using r(4) [of j] that by (simp add: algebra_simps)
  qed (use s(3) in simp)
  moreover have "concat (map content (seg' # segs)) = payload rs" using r(3) s(2,9) by simp
  ultimately show ?case using s(1) r(1,2) by (intro exI [of _ "seg' # segs"]) simp
qed

text \<open>C5.
  The source reads the file to its end. From a file of records of at most 18 bytes, none of which crosses a multiple of 1024
  bytes, the calls of \<^verbatim>\<open>sm_input_flash_get_seg_fw\<close> return the bytes of all data records in order, in segments of 1024 bytes
  with the right address, index and checksum; the last one, shorter and possibly empty, and only it is marked as the last.\<close>

theorem flash_image_is_cut:
  assumes "at_records part rs g" "fits_segments 0 rs" "length hb = 50" "length (seg_data seg) = SM_SEGMENT_FW_SIZE" "seg_index seg = 0"
    and "n = length (payload rs) div 1024"
  shows "\<exists>segs. read_segments (n + 1) part stale hb seg g = Inr segs \<and> length segs = n + 1 \<and> concat (map content segs) = payload rs
    \<and> (\<forall>i < n + 1. good_segment (fw_addr (fi_sig g)) (int i) (i = n) (segs ! i))"
  using image_cut [of rs n "length (payload rs) mod 1024", OF _ _ assms(1-4), of stale] assms(5,6) by simp

text \<open>C39.
  A data record that crosses the end of a segment is copied to the stack behind the array of 1024 bytes: the code that would
  keep the rest for the next segment comes after the overflow.\<close>

theorem crossing_record_overflows:
  assumes "at_records part (rs @ r # rs') g" "length (payload rs) < 1024" "is_data r"
    and "1024 < length (payload rs) + length (snd (snd r))" "length hb = 50"
  shows "sm_input_flash_get_seg_fw part stale hb seg g = Inl Out_Of_Bounds"
proof -
  have "flash_seg_loop part stale g hb buf = Some (Inl Out_Of_Bounds)"
    if "at_records part (rs @ r # rs') g" "length buf + length (payload rs) < 1024"
      "1024 < length buf + length (payload rs) + length (snd (snd r))" "length hb = 50" for buf g hb rs
    using that
  proof (induction rs arbitrary: g buf hb)
    case Nil
    obtain chk hb' g' where n: "flash_next_record part stale g hb
      = Inr (Record \<lparr>byte_count = of_nat (length (snd (snd r))), hex_addr = fst (snd r), record_type = fst r, checksum = chk\<rparr>, g', hb')"
      using at_records_Cons [OF _ Nil.prems(4), of part r rs' g stale] Nil.prems(1) by auto
    have "length (snd (snd r)) \<le> 18" using Nil.prems(1) by (simp add: at_records_def short_rec_def)
    then have "unat (of_nat (length (snd (snd r))) :: u8) = length (snd (snd r))" by (simp add: unat_of_nat)
    then show ?case using n assms(3) Nil.prems(2,3) by (subst flash_seg_loop.simps) (simp add: is_data_def)
  next
    case (Cons q rs)
    obtain chk hb' g' where n: "flash_next_record part stale g hb
      = Inr (Record \<lparr>byte_count = of_nat (length (snd (snd q))), hex_addr = fst (snd q), record_type = fst q, checksum = chk\<rparr>, g', hb')"
      "length hb' = 50" "at_records part (rs @ r # rs') g'" "take (length (snd (snd q))) (fi_hex g') = snd (snd q)"
      using at_records_Cons [OF _ Cons.prems(4), of part q "rs @ r # rs'" g stale] Cons.prems(1) by auto
    have q: "length (snd (snd q)) \<le> 18" "fst q \<noteq> INTEL_HEX_EndFile" using Cons.prems(1) by (simp_all add: at_records_def short_rec_def)
    then have u: "unat (of_nat (length (snd (snd q))) :: u8) = length (snd (snd q))" by (simp add: unat_of_nat)
    show ?case
    proof (cases "is_data q")
      case True
      have "flash_seg_loop part stale g hb buf = flash_seg_loop part stale g' hb' (buf @ snd (snd q))"
        using n(1,4) True u Cons.prems(2) by (subst flash_seg_loop.simps) (simp add: is_data_def)
      then show ?thesis using Cons.IH [OF n(3) _ _ n(2), of "buf @ snd (snd q)"] Cons.prems(2,3) True by (simp add: add.assoc)
    next
      case False
      have "flash_seg_loop part stale g hb buf = flash_seg_loop part stale g' hb' buf"
        using n(1) False q(2) Cons.prems(2) by (subst flash_seg_loop.simps) (simp add: is_data_def)
      then show ?thesis using Cons.IH [OF n(3) _ _ n(2), of buf] Cons.prems(2,3) False by simp
    qed
  qed
  from this [of rs g "[]" hb] have "flash_seg_loop part stale g hb [] = Some (Inl Out_Of_Bounds)" using assms by simp
  moreover have "fi_extra_count g = 0" using assms(1) by (simp add: at_records_def)
  then have "fi_extra_count g = 0 \<and> g\<lparr>fi_extra_count := 0\<rparr> = g" by simp
  ultimately show ?thesis by (simp add: sm_input_flash_get_seg_fw_def Let_def)
qed

section \<open>The start of a file\<close>

text \<open>
  A file that starts with an address record and a data record: \<^verbatim>\<open>sm_input_flash_init\<close> finds the address of the image and leaves
  the source at the start.
\<close>

lemma flash_init_finds_base:
  assumes "at_records part (r1 # r2 # rs) g" "fi_addr g = 0" "fw_addr (fi_sig g) = 0" "fw_offset (fi_sig g) < 0" "length hb = 50"
    and "r1 = (INTEL_HEX_Extended_Linear_Address, (0, 0), [hi, lo])" "r2 = (INTEL_HEX_Data, a, xs)"
  shows "\<exists>g'. sm_input_flash_init part stale hb g = Inr (0, g') \<and> at_records part (r1 # r2 # rs) g'
    \<and> fw_addr (fi_sig g') = push_bit 16 (push_bit 8 (ucast hi) OR ucast lo) + (push_bit 8 (ucast (fst a)) OR ucast (snd a))
    \<and> fw_size (fi_sig g') = fw_size (fi_sig g) \<and> fw_crc (fi_sig g') = CRC_16_INIT_VALUE \<and> fw_version (fi_sig g') = fw_version (fi_sig g)"
proof -
  let ?base = "push_bit 16 (push_bit 8 (ucast hi) OR ucast lo) :: u32"
  obtain chk hb' g1 where 1: "flash_next_record part stale g hb
      = Inr (Record \<lparr>byte_count = 2, hex_addr = (0, 0), record_type = INTEL_HEX_Extended_Linear_Address, checksum = chk\<rparr>, g1, hb')"
      "length hb' = 50" "at_records part (r2 # rs) g1" "fi_sig g1 = fi_sig g" "fi_hex g1 = overwrite [hi, lo] (fi_hex g)"
    using at_records_Cons [OF assms(1,5), of stale] by (auto simp: assms(6) numeral_2_eq_2)
  have w: "hex_data_word g1 = push_bit 8 (ucast hi) OR ucast lo" by (simp add: hex_data_word_def 1(5) overwrite_def)
  let ?g1 = "set_base ?base g1"
  have "at_records part (r2 # rs) ?g1" using 1(3) by (simp add: at_records_def set_base_def)
  from at_records_Cons [OF this 1(2), of stale]
  obtain chk2 hb2 g2 where 2: "flash_next_record part stale ?g1 hb'
      = Inr (Record \<lparr>byte_count = of_nat (length xs), hex_addr = a, record_type = INTEL_HEX_Data, checksum = chk2\<rparr>, g2, hb2)"
      "at_records part rs g2" "fi_sig g2 = fi_sig ?g1" by (auto simp: assms(7))
  have sig: "fi_sig ?g1 = (fi_sig g)\<lparr>fw_addr := ?base\<rparr>" using assms(3) 1(4) by (simp add: set_base_def)
  let ?r = "\<lparr>byte_count = of_nat (length xs), hex_addr = a, record_type = INTEL_HEX_Data, checksum = chk2\<rparr>"
  let ?g2 = "g2\<lparr>fi_sig := (fi_sig g2)\<lparr>fw_offset := uint (hex_addr_word ?r)\<rparr>\<rparr>"
  have types: "INTEL_HEX_Data \<noteq> INTEL_HEX_Extended_Linear_Address" "INTEL_HEX_Data \<noteq> INTEL_HEX_Extended_Segment_Address"
    by (simp_all add: INTEL_HEX_Data_def INTEL_HEX_Extended_Linear_Address_def INTEL_HEX_Extended_Segment_Address_def)
  have "flash_init_loop part stale ?g1 hb' = Some (Inr (True, ?g2))"
    using 2(1,3) assms(4) sig types by (subst flash_init_loop.simps) simp
  moreover have "flash_init_loop part stale g hb = flash_init_loop part stale ?g1 hb'"
    using 1(1) w by (subst flash_init_loop.simps) (simp add: hex_addr_word_def)
  ultimately have l: "flash_init_loop part stale g hb = Some (Inr (True, ?g2))" by simp
  let ?g' = "?g2\<lparr>fi_sig := (fi_sig ?g2)\<lparr>fw_valid := 0, fw_addr := fw_addr (fi_sig ?g2) + of_int (fw_offset (fi_sig ?g2)),
      fw_crc := CRC_16_INIT_VALUE\<rparr>, fi_addr := 0\<rparr>"
  have "sm_input_flash_init part stale hb g = Inr (0, ?g')" by (simp add: sm_input_flash_init_def l Let_def)
  moreover have "at_records part (r1 # r2 # rs) ?g'" using assms(1,2) 2(2) by (simp add: at_records_def)
  ultimately show ?thesis using 2(3) sig by (intro exI [of _ ?g']) (simp add: hex_addr_word_def)
qed

section \<open>Examples\<close>

definition example_source :: flash_input where
  "example_source = \<lparr>fi_sig = \<lparr>fw_version = [1, 0, 2], fw_addr = 0x20000, fw_size = 0, fw_crc = CRC_16_INIT_VALUE, fw_offset = 0,
     fw_valid = 0\<rparr>, fi_addr = 0, fi_extra_count = 0, fi_extra = replicate 32 0, fi_finish = False, fi_hex = replicate 32 0\<rparr>"

definition example_part :: "hrec list \<Rightarrow> u8 list" where
  "example_part rs = hfile (rs @ [end_record]) @ replicate 50 0xFF"

lemma example_at: "(\<forall>r \<in> set rs. short_rec r \<and> fst r \<noteq> INTEL_HEX_EndFile) \<Longrightarrow> at_records (example_part rs) rs example_source"
  unfolding at_records_def example_part_def
  by (intro conjI exI [of _ "[]"] exI [of _ "replicate 50 0xFF"]) (simp_all add: example_source_def)

lemma flash_image_is_cut_witness:
  "\<exists>seg. read_segments 1 (example_part [(0, (0, 0), [1, 2, 3])]) [] (replicate 50 0) sm_seg_create example_source = Inr [seg]
    \<and> content seg = [1, 2, 3] \<and> good_segment 0x20000 0 True seg"
proof -
  let ?rs = "[(0, (0, 0), [1, 2, 3])] :: hrec list"
  have at: "at_records (example_part ?rs) ?rs example_source"
    by (rule example_at) (simp add: short_rec_def INTEL_HEX_EndFile_def)
  have "\<exists>segs. read_segments (0 + 1) (example_part ?rs) [] (replicate 50 0) sm_seg_create example_source = Inr segs
      \<and> length segs = 0 + 1 \<and> concat (map content segs) = payload ?rs
      \<and> (\<forall>i < 0 + 1. good_segment (fw_addr (fi_sig example_source)) (int i) (i = 0) (segs ! i))"
    by (rule flash_image_is_cut [OF at]) (simp_all add: is_data_def INTEL_HEX_Data_def sm_seg_create_def)
  then obtain segs where "read_segments 1 (example_part ?rs) [] (replicate 50 0) sm_seg_create example_source = Inr segs"
      "length segs = 1" "concat (map content segs) = [1, 2, 3]" "good_segment 0x20000 0 True (segs ! 0)"
    by (auto simp: is_data_def INTEL_HEX_Data_def example_source_def)
  then show ?thesis by (cases segs) auto
qed

lemma crossing_record_overflows_witness:
  "sm_input_flash_get_seg_fw (example_part (replicate 63 (0, (0, 0), replicate 16 7) @ [(0, (0, 0), replicate 17 7)])) []
     (replicate 50 0) sm_seg_create example_source = Inl Out_Of_Bounds"
proof -
  let ?rs = "replicate 63 (0, (0, 0), replicate 16 7) :: hrec list" and ?r = "(0, (0, 0), replicate 17 7) :: hrec"
  have at: "at_records (example_part (?rs @ [?r])) (?rs @ [?r]) example_source"
    by (rule example_at) (auto simp: short_rec_def INTEL_HEX_EndFile_def)
  have "payload (replicate k r) = concat (replicate k (snd (snd r)))" if "is_data r" for k r
    using that by (induction k) simp_all
  then have "length (payload ?rs) = 1008" by (simp add: is_data_def INTEL_HEX_Data_def length_concat sum_list_replicate)
  then show ?thesis using crossing_record_overflows [OF at, of "replicate 50 0" "[]" sm_seg_create]
    by (simp add: is_data_def INTEL_HEX_Data_def)
qed

end
