(* ===== verification/Boot_Slave.thy ===== *)
theory Boot_Slave
  imports Flash_Input Elapsed_Timer
begin

text \<open>
  \<^verbatim>\<open>services/boot_master/boot-core/sm_boot_slave.c\<close> and \<^verbatim>\<open>sm_boot_master.c\<close>: the upgrade of one device, from a source of segments
  (input) to a device (output), and the table of the upgrades under way.

  Inputs and outputs are structures of function pointers: here a record of functions on a state \<open>'w\<close> of the two sides. A
  function of the output may call back while it runs; it returns the events it has raised, in order, and they are handled when
  it returns, since no function of the slave runs in between. What \<^verbatim>\<open>reg_event_callback\<close> has stored in the output is kept with
  the slave. The output is handed the segment as a value; the code hands over a pointer to the one segment of the slave.
\<close>

datatype SM_BOOT_SLAVE_EVENT = SM_BOOT_SLAVE_CONFIRM_READY | SM_BOOT_SLAVE_CONFIRM_FW_INFO | SM_BOOT_SLAVE_CONFIRM_SEG
  | SM_BOOT_SLAVE_CONFIRM_FINISH_DOWNLOAD | SM_BOOT_SLAVE_CONFIRM_ABORT

datatype SM_BOOT_SLAVE_STATE = SM_BOOT_SLAVE_STATE_IDLE | SM_BOOT_SLAVE_STATE_REQUEST_UPGRADE | SM_BOOT_SLAVE_STATE_SEND_FW_INFO
  | SM_BOOT_SLAVE_STATE_SEND_SEG | SM_BOOT_SLAVE_STATE_FINISH_DOWNLOAD | SM_BOOT_SLAVE_STATE_ABORT

datatype boot_handler = Slave_Ready | Slave_Fw_Info | Slave_Seg | Slave_Finish | Slave_Abort

type_synonym boot_raise = "SM_BOOT_SLAVE_EVENT \<times> u8"

type_synonym boot_table = "SM_BOOT_SLAVE_EVENT \<Rightarrow> boot_handler option"

record 'w boot_if =
  in_init :: "'w \<Rightarrow> fault + 'w"
  in_free :: "'w \<Rightarrow> fault + 'w"
  in_info :: "'w \<Rightarrow> fw_signature \<Rightarrow> fault + (fw_signature option \<times> 'w)"
  in_seg :: "sm_segment \<Rightarrow> 'w \<Rightarrow> fault + (int \<times> sm_segment \<times> 'w)"
  in_completed :: "(int \<Rightarrow> 'w \<Rightarrow> fault + 'w) option"
  in_process :: "('w \<Rightarrow> fault + 'w) option"
  out_init :: "'w \<Rightarrow> fault + 'w"
  out_free :: "'w \<Rightarrow> fault + 'w"
  out_request :: "int \<Rightarrow> 'w \<Rightarrow> fault + (boot_raise list \<times> 'w)"
  out_set_info :: "fw_signature \<Rightarrow> 'w \<Rightarrow> fault + (boot_raise list \<times> 'w)"
  out_set_seg :: "sm_segment \<Rightarrow> 'w \<Rightarrow> fault + (int \<times> boot_raise list \<times> 'w)"
  out_process :: "(int \<Rightarrow> 'w \<Rightarrow> fault + (boot_raise list \<times> 'w)) option"
  out_events :: "'w \<Rightarrow> boot_table"
  out_set_events :: "boot_table \<Rightarrow> 'w \<Rightarrow> 'w"

record boot_slave =
  bs_id :: int
  bs_segment :: sm_segment
  bs_waiting :: bool
  bs_sig :: fw_signature
  bs_state :: SM_BOOT_SLAVE_STATE
  bs_timeout :: elapsed_timer
  bs_repeat :: u8
  bs_finish_cb :: bool
  bs_abort_cb :: bool
  bs_regs :: boot_table

definition SM_BOOT_SLAVE_REQUEST_UPGRADE_PERIOD :: int where "SM_BOOT_SLAVE_REQUEST_UPGRADE_PERIOD = 2500"
definition SM_BOOT_SLAVE_WAITING_CONFIRM_FW_INFO_TIMEOUT :: int where "SM_BOOT_SLAVE_WAITING_CONFIRM_FW_INFO_TIMEOUT = 5000"
definition SM_BOOT_SLAVE_WAITING_CONFIRM_SEG_TIMEOUT :: int where "SM_BOOT_SLAVE_WAITING_CONFIRM_SEG_TIMEOUT = 20000"
definition SM_BOOT_SLAVE_WAITING_FULL_SEGMENT_TIMEOUT :: int where "SM_BOOT_SLAVE_WAITING_FULL_SEGMENT_TIMEOUT = 10000"
definition SM_BOOT_SLAVE_REPEAT_MAX :: u8 where "SM_BOOT_SLAVE_REPEAT_MAX = 5"

section \<open>The callbacks of the output\<close>

definition on_ready :: "int \<Rightarrow> u8 \<Rightarrow> boot_slave \<Rightarrow> boot_slave" where
  "on_ready now d s =
     (if d \<noteq> 0 then s\<lparr>bs_repeat := 0, bs_state := SM_BOOT_SLAVE_STATE_SEND_SEG,
         bs_timeout := elapsed_timer_resetz now SM_BOOT_SLAVE_WAITING_FULL_SEGMENT_TIMEOUT (bs_timeout s)\<rparr> else s)"

definition on_fw_info :: "u8 \<Rightarrow> boot_slave \<Rightarrow> boot_slave" where
  "on_fw_info d s =
     (if d \<noteq> 0 then s\<lparr>bs_state := SM_BOOT_SLAVE_STATE_FINISH_DOWNLOAD\<rparr> else s\<lparr>bs_timeout := elapsed_timer_pass (bs_timeout s)\<rparr>)"

definition on_seg :: "int \<Rightarrow> 'w boot_if \<Rightarrow> u8 \<Rightarrow> boot_slave \<times> 'w \<Rightarrow> fault + (boot_slave \<times> 'w)" where
  "on_seg now io d = (\<lambda>(s, w).
     if d \<noteq> 0 then
       bind (case in_completed io of None \<Rightarrow> Inr w | Some f \<Rightarrow> f (seg_index (bs_segment s)) w) (\<lambda>w.
         let seg = bs_segment s; s = s\<lparr>bs_segment := seg\<lparr>seg_index := seg_index seg + 1\<rparr>\<rparr> in
         if seg_last seg \<noteq> 0
         then Inr (s\<lparr>bs_state := SM_BOOT_SLAVE_STATE_SEND_FW_INFO, bs_timeout := elapsed_timer_pass (bs_timeout s),
                     bs_waiting := False, bs_repeat := 0\<rparr>, w)
         else Inr (s\<lparr>bs_repeat := 0, bs_timeout := elapsed_timer_reset now (bs_timeout s), bs_waiting := False\<rparr>, w))
     else Inr (s\<lparr>bs_waiting := False\<rparr>, w))"

definition on_finish :: "boot_slave \<Rightarrow> boot_slave" where
  "on_finish s = s\<lparr>bs_state := SM_BOOT_SLAVE_STATE_FINISH_DOWNLOAD\<rparr>"

definition on_abort :: "boot_slave \<Rightarrow> boot_slave" where
  "on_abort s = s\<lparr>bs_state := SM_BOOT_SLAVE_STATE_ABORT\<rparr>"

text \<open>The output calls what is registered for the event; the null pointer if nothing is.\<close>

definition raise_event :: "int \<Rightarrow> 'w boot_if \<Rightarrow> boot_raise \<Rightarrow> boot_slave \<times> 'w \<Rightarrow> fault + (boot_slave \<times> 'w)" where
  "raise_event now io r sw =
     (case bs_regs (fst sw) (fst r) of
        None \<Rightarrow> Inl Null_Deref
      | Some Slave_Ready \<Rightarrow> Inr (on_ready now (snd r) (fst sw), snd sw)
      | Some Slave_Fw_Info \<Rightarrow> Inr (on_fw_info (snd r) (fst sw), snd sw)
      | Some Slave_Seg \<Rightarrow> on_seg now io (snd r) sw
      | Some Slave_Finish \<Rightarrow> Inr (on_finish (fst sw), snd sw)
      | Some Slave_Abort \<Rightarrow> Inr (on_abort (fst sw), snd sw))"

fun raise_all :: "int \<Rightarrow> 'w boot_if \<Rightarrow> boot_raise list \<Rightarrow> boot_slave \<times> 'w \<Rightarrow> fault + (boot_slave \<times> 'w)" where
  "raise_all now io [] sw = Inr sw"
| "raise_all now io (r # rs) sw = bind (raise_event now io r sw) (raise_all now io rs)"

section \<open>Creation\<close>

text \<open>
  The functions that create a slave write its handlers into the table \<^verbatim>\<open>m_events\<close> of the output, which keeps what the slaves
  before have written. \<^verbatim>\<open>sm_boot_slave_create\<close> writes the handler of an abort over that of the end of a download and leaves the entry
  of an abort as it is. \<open>junk\<close> is the memory that \<^verbatim>\<open>malloc\<close> returns, of which the callbacks and the signature are not set. \<open>bs_regs\<close> is the table
  as the slave has left it: the output calls its entries for this slave. Of two slaves that use one output at the same time the
  later one would take over the events of both; the upgrade service runs one slave at a time, and the model follows it in that.
\<close>

definition create_regs :: "boot_table \<Rightarrow> boot_table" where
  "create_regs g = g(SM_BOOT_SLAVE_CONFIRM_READY := Some Slave_Ready, SM_BOOT_SLAVE_CONFIRM_FW_INFO := Some Slave_Fw_Info,
     SM_BOOT_SLAVE_CONFIRM_SEG := Some Slave_Seg, SM_BOOT_SLAVE_CONFIRM_FINISH_DOWNLOAD := Some Slave_Finish,
     SM_BOOT_SLAVE_CONFIRM_FINISH_DOWNLOAD := Some Slave_Abort)"

definition sm_boot_slave_create :: "int \<Rightarrow> 'w boot_if \<Rightarrow> int \<Rightarrow> boot_slave option \<Rightarrow> 'w \<Rightarrow> fault + (boot_slave option \<times> 'w)" where
  "sm_boot_slave_create now io sid junk w =
     (if sid < 0 then Inr (None, w)
      else case junk of None \<Rightarrow> Inr (None, w)
      | Some s \<Rightarrow> bind (in_init io w) (\<lambda>w. bind (out_init io w) (\<lambda>w.
          Inr (Some (s\<lparr>bs_segment := sm_seg_create, bs_id := sid, bs_state := SM_BOOT_SLAVE_STATE_IDLE,
                 bs_timeout := elapsed_timer_resetz now 0 (bs_timeout s), bs_repeat := 0, bs_waiting := False,
                 bs_regs := create_regs (out_events io w)\<rparr>), out_set_events io (create_regs (out_events io w)) w))))"

definition default_regs :: "boot_table \<Rightarrow> boot_table" where
  "default_regs g = g(SM_BOOT_SLAVE_CONFIRM_READY := Some Slave_Ready, SM_BOOT_SLAVE_CONFIRM_FW_INFO := Some Slave_Fw_Info,
     SM_BOOT_SLAVE_CONFIRM_SEG := Some Slave_Seg, SM_BOOT_SLAVE_CONFIRM_FINISH_DOWNLOAD := Some Slave_Finish,
     SM_BOOT_SLAVE_CONFIRM_ABORT := Some Slave_Abort)"

definition sm_boot_slave_create_default :: "'w boot_if \<Rightarrow> int \<Rightarrow> boot_slave \<Rightarrow> 'w \<Rightarrow> fault + (boot_slave \<times> 'w)" where
  "sm_boot_slave_create_default io sid g w =
     bind (in_init io w) (\<lambda>w. bind (out_init io w) (\<lambda>w.
       Inr (g\<lparr>bs_segment := sm_seg_create, bs_id := sid, bs_regs := default_regs (out_events io w)\<rparr>,
         out_set_events io (default_regs (out_events io w)) w)))"

definition sm_boot_slave_destroy :: "'w boot_if \<Rightarrow> 'w \<Rightarrow> fault + 'w" where
  "sm_boot_slave_destroy io w = bind (in_free io w) (out_free io)"

definition sm_boot_slave_reg_event :: "SM_BOOT_SLAVE_EVENT \<Rightarrow> boot_slave \<Rightarrow> boot_slave" where
  "sm_boot_slave_reg_event ev s =
     (case ev of SM_BOOT_SLAVE_CONFIRM_FINISH_DOWNLOAD \<Rightarrow> s\<lparr>bs_finish_cb := True\<rparr>
      | SM_BOOT_SLAVE_CONFIRM_ABORT \<Rightarrow> s\<lparr>bs_abort_cb := True\<rparr> | _ \<Rightarrow> s)"

section \<open>The step of a slave\<close>

datatype boot_note = Download_Finished | Download_Aborted

definition request_step :: "int \<Rightarrow> 'w boot_if \<Rightarrow> boot_slave \<times> 'w \<Rightarrow> fault + (boot_slave \<times> 'w)" where
  "request_step now io = (\<lambda>(s, w).
     if \<not> timed_out now (bs_timeout s) then Inr (s, w)
     else let s = s\<lparr>bs_repeat := bs_repeat s + 1\<rparr> in
       bind (out_request io (bs_id s) w) (\<lambda>(rs, w).
       bind (raise_all now io rs (s, w)) (\<lambda>(s, w).
         let s = (if SM_BOOT_SLAVE_REPEAT_MAX \<le> bs_repeat s then s\<lparr>bs_state := SM_BOOT_SLAVE_STATE_ABORT\<rparr> else s) in
         Inr (s\<lparr>bs_timeout := elapsed_timer_resetz now SM_BOOT_SLAVE_REQUEST_UPGRADE_PERIOD (bs_timeout s)\<rparr>, w))))"

text \<open>The local variable that receives the signature is not set before; \<open>sig0\<close> is what it holds.\<close>

definition fw_info_step :: "int \<Rightarrow> fw_signature \<Rightarrow> 'w boot_if \<Rightarrow> boot_slave \<times> 'w \<Rightarrow> fault + (boot_slave \<times> 'w)" where
  "fw_info_step now sig0 io = (\<lambda>(s, w).
     if \<not> timed_out now (bs_timeout s) then Inr (s, w)
     else let s = s\<lparr>bs_timeout := elapsed_timer_resetz now SM_BOOT_SLAVE_WAITING_CONFIRM_FW_INFO_TIMEOUT (bs_timeout s),
                    bs_repeat := bs_repeat s + 1\<rparr>;
              s = (if SM_BOOT_SLAVE_REPEAT_MAX \<le> bs_repeat s then s\<lparr>bs_state := SM_BOOT_SLAVE_STATE_ABORT\<rparr> else s) in
       bind (in_info io w sig0) (\<lambda>(r, w). case r of
           None \<Rightarrow> Inr (s, w)
         | Some sig \<Rightarrow> let s = s\<lparr>bs_sig := sm_fw_signature_clone sig (bs_sig s)\<rparr> in
             bind (out_set_info io (bs_sig s) w) (\<lambda>(rs, w). raise_all now io rs (s, w))))"

definition hand_over :: "int \<Rightarrow> 'w boot_if \<Rightarrow> boot_slave \<times> 'w \<Rightarrow> fault + (boot_slave \<times> 'w)" where
  "hand_over now io = (\<lambda>(s, w).
     let s = s\<lparr>bs_waiting := True, bs_timeout := elapsed_timer_resetz now SM_BOOT_SLAVE_WAITING_CONFIRM_SEG_TIMEOUT (bs_timeout s),
               bs_repeat := bs_repeat s + 1\<rparr> in
     bind (out_set_seg io (bs_segment s) w) (\<lambda>(r, rs, w).
     bind (raise_all now io rs (s, w)) (\<lambda>(s, w).
       Inr (if 0 \<le> r \<and> SM_BOOT_SLAVE_REPEAT_MAX \<le> bs_repeat s then s\<lparr>bs_state := SM_BOOT_SLAVE_STATE_ABORT\<rparr> else s, w))))"

definition send_seg_step :: "int \<Rightarrow> 'w boot_if \<Rightarrow> boot_slave \<times> 'w \<Rightarrow> fault + (boot_slave \<times> 'w)" where
  "send_seg_step now io = (\<lambda>(s, w).
     if \<not> bs_waiting s then
       (if bs_repeat s = 0 then
          bind (in_seg io (bs_segment s) w) (\<lambda>(r, seg, w).
            let s = s\<lparr>bs_segment := seg\<rparr> in
            if r < 0 then Inr (s\<lparr>bs_state := SM_BOOT_SLAVE_STATE_ABORT\<rparr>, w)
            else if r = 0 then Inr (s, w) else hand_over now io (s, w))
        else hand_over now io (s, w))
     else if timed_out now (bs_timeout s)
     then Inr (s\<lparr>bs_state := SM_BOOT_SLAVE_STATE_ABORT, bs_timeout := elapsed_timer_reset now (bs_timeout s)\<rparr>, w)
     else Inr (s, w))"

definition slave_switch :: "int \<Rightarrow> fw_signature \<Rightarrow> 'w boot_if \<Rightarrow> boot_slave \<times> 'w \<Rightarrow> (boot_slave \<times> 'w, boot_note) result" where
  "slave_switch now sig0 io sw =
     (let quiet = map_sum id (\<lambda>sw. (sw, [])) in
      case bs_state (fst sw) of
        SM_BOOT_SLAVE_STATE_IDLE \<Rightarrow> Inr ((fst sw\<lparr>bs_state := SM_BOOT_SLAVE_STATE_REQUEST_UPGRADE\<rparr>, snd sw), [])
      | SM_BOOT_SLAVE_STATE_REQUEST_UPGRADE \<Rightarrow> quiet (request_step now io sw)
      | SM_BOOT_SLAVE_STATE_SEND_FW_INFO \<Rightarrow> quiet (fw_info_step now sig0 io sw)
      | SM_BOOT_SLAVE_STATE_SEND_SEG \<Rightarrow> quiet (send_seg_step now io sw)
      | SM_BOOT_SLAVE_STATE_FINISH_DOWNLOAD \<Rightarrow> Inr (sw, if bs_finish_cb (fst sw) then [Download_Finished] else [])
      | SM_BOOT_SLAVE_STATE_ABORT \<Rightarrow> Inr (sw, if bs_abort_cb (fst sw) then [Download_Aborted] else []))"

definition slave_poll :: "int \<Rightarrow> 'w boot_if \<Rightarrow> boot_slave \<times> 'w \<Rightarrow> fault + (boot_slave \<times> 'w)" where
  "slave_poll now io = (\<lambda>(s, w).
     bind (case in_process io of None \<Rightarrow> Inr w | Some f \<Rightarrow> f w) (\<lambda>w.
     bind (case out_process io of None \<Rightarrow> Inr ([], w) | Some f \<Rightarrow> f now w) (\<lambda>(rs, w). raise_all now io rs (s, w))))"

definition sm_boot_slave_process ::
  "int \<Rightarrow> fw_signature \<Rightarrow> 'w boot_if \<Rightarrow> boot_slave \<times> 'w \<Rightarrow> (boot_slave \<times> 'w, boot_note) result" where
  "sm_boot_slave_process now sig0 io sw = bind (slave_poll now io sw) (slave_switch now sig0 io)"

section \<open>The master\<close>

text \<open>A slave with the interfaces it uses, by number.\<close>

record boot_master =
  bm_number :: int
  bm_slaves :: "(boot_slave \<times> nat) option list"
  bm_cb :: bool

definition SM_BOOT_SLAVE_MAX_SUPPORT :: nat where "SM_BOOT_SLAVE_MAX_SUPPORT = 10"

definition sm_boot_master_create :: "bool \<Rightarrow> boot_master" where
  "sm_boot_master_create cb = \<lparr>bm_number = 0, bm_slaves = replicate SM_BOOT_SLAVE_MAX_SUPPORT None, bm_cb = cb\<rparr>"

definition slot_id :: "(boot_slave \<times> nat) option \<Rightarrow> int" where
  "slot_id sl = (case sl of None \<Rightarrow> -1 | Some (s, _) \<Rightarrow> bs_id s)"

definition find_slot :: "((boot_slave \<times> nat) option \<Rightarrow> bool) \<Rightarrow> boot_master \<Rightarrow> nat option" where
  "find_slot P m = List.find (\<lambda>i. P (bm_slaves m ! i)) [0..<SM_BOOT_SLAVE_MAX_SUPPORT]"

text \<open>The interfaces of a slave are exchanged; the new output has no callback of this slave.\<close>

definition sm_boot_slave_update_if :: "nat \<Rightarrow> boot_slave \<times> nat \<Rightarrow> boot_slave \<times> nat" where
  "sm_boot_slave_update_if k' = (\<lambda>(s, k). (if k' = k then s else s\<lparr>bs_regs := \<lambda>_. None\<rparr>, k'))"

text \<open>A full table does not take the slave that was created for it; the answer is 0 all the same.\<close>

definition sm_boot_master_add_slave ::
  "int \<Rightarrow> (nat \<Rightarrow> 'w boot_if) \<Rightarrow> int \<Rightarrow> nat \<Rightarrow> boot_slave option \<Rightarrow> boot_master \<times> 'w \<Rightarrow> fault + (int \<times> boot_master \<times> 'w)" where
  "sm_boot_master_add_slave now ifs sid k junk = (\<lambda>(m, w).
     case find_slot (\<lambda>sl. sl \<noteq> None \<and> slot_id sl = sid) m of
       Some i \<Rightarrow> Inr (0, m\<lparr>bm_slaves := (bm_slaves m)[i := map_option (sm_boot_slave_update_if k) (bm_slaves m ! i)]\<rparr>, w)
     | None \<Rightarrow>
         bind (sm_boot_slave_create now (ifs k) sid junk w) (\<lambda>(sl, w). case sl of
             None \<Rightarrow> Inr (-1, m, w)
           | Some s \<Rightarrow>
               (case find_slot (\<lambda>sl. sl = None) m of
                  None \<Rightarrow> Inr (0, m, w)
                | Some i \<Rightarrow>
                    Inr (0, m\<lparr>bm_slaves := (bm_slaves m)[i := Some (sm_boot_slave_reg_event SM_BOOT_SLAVE_CONFIRM_ABORT
                               (sm_boot_slave_reg_event SM_BOOT_SLAVE_CONFIRM_FINISH_DOWNLOAD s), k)],
                             bm_number := bm_number m + 1\<rparr>, w))))"

definition sm_boot_master_remove_slave :: "(nat \<Rightarrow> 'w boot_if) \<Rightarrow> int \<Rightarrow> boot_master \<times> 'w \<Rightarrow> fault + (int \<times> boot_master \<times> 'w)" where
  "sm_boot_master_remove_slave ifs sid = (\<lambda>(m, w).
     case find_slot (\<lambda>sl. slot_id sl = sid) m of
       None \<Rightarrow> Inr (-1, m, w)
     | Some i \<Rightarrow>
         bind (case bm_slaves m ! i of None \<Rightarrow> Inr w | Some (_, k) \<Rightarrow> sm_boot_slave_destroy (ifs k) w) (\<lambda>w.
           Inr (0, m\<lparr>bm_slaves := (bm_slaves m)[i := None], bm_number := bm_number m - 1\<rparr>, w)))"

text \<open>The callback of the application: the result and the number of the slave.\<close>

type_synonym master_note = "int \<times> int"

definition on_note :: "(nat \<Rightarrow> 'w boot_if) \<Rightarrow> int \<Rightarrow> boot_note \<Rightarrow> boot_master \<times> 'w \<Rightarrow> (boot_master \<times> 'w, master_note) result" where
  "on_note ifs sid n mw =
     bind (sm_boot_master_remove_slave ifs sid mw) (\<lambda>(_, m', w').
       Inr ((m', w'), if bm_cb (fst mw) then [(case n of Download_Finished \<Rightarrow> 0 | Download_Aborted \<Rightarrow> -1, sid)] else []))"

definition slot_step :: "int \<Rightarrow> fw_signature \<Rightarrow> (nat \<Rightarrow> 'w boot_if) \<Rightarrow> nat \<Rightarrow> boot_master \<times> 'w \<Rightarrow> (boot_master \<times> 'w, master_note) result" where
  "slot_step now sig0 ifs i = (\<lambda>(m, w).
     case bm_slaves m ! i of
       None \<Rightarrow> Inr ((m, w), [])
     | Some (s, k) \<Rightarrow>
         bind (sm_boot_slave_process now sig0 (ifs k) (s, w)) (\<lambda>((s, w), ns).
           run_all (on_note ifs (bs_id s)) ns (m\<lparr>bm_slaves := (bm_slaves m)[i := Some (s, k)]\<rparr>, w)))"

definition sm_boot_master_process :: "int \<Rightarrow> fw_signature \<Rightarrow> (nat \<Rightarrow> 'w boot_if) \<Rightarrow> boot_master \<times> 'w \<Rightarrow> (boot_master \<times> 'w, master_note) result" where
  "sm_boot_master_process now sig0 ifs mw =
     (if bm_number (fst mw) = 0 then Inr (mw, []) else run_all (slot_step now sig0 ifs) [0..<SM_BOOT_SLAVE_MAX_SUPPORT] mw)"

end
