(* ===== verification/Boot_Output.thy ===== *)
theory Boot_Output
  imports Boot_Slave Core_Co
begin

text \<open>
  \<^verbatim>\<open>services/boot_master/boot-impl/output/sm_canopen_boot_output.c\<close>: the side of an upgrade that writes a segment to a device,
  as three objects of its dictionary one after the other, through the SDO client of a node.

  There is one output, a global; the node is the one of \<^verbatim>\<open>Core_Co\<close>. What the output registers at the node is called with the
  result of each write: \<^verbatim>\<open>sm_boot_canopen_callback\<close>, number \<open>BOOT_SDO_CB\<close>; what the device writes to the dictionary of
  the node is passed to \<^verbatim>\<open>sm_boot_canopen_response_state_handle\<close>. Both return the events they raise.
\<close>

datatype CANOPEN_UPGRADE_PROCESS_STATE = UPGRADE_STATE_IDLE | UPGRADE_STATE_REQUEST_UPGRADE | UPGRADE_STATE_SEND_FW_INFO
  | UPGRADE_STATE_SEND_SEG | UPGRADE_STATE_NUMBER

definition CANOPEN_SEND_FW_SIZE_STEP :: int where "CANOPEN_SEND_FW_SIZE_STEP = 0"
definition CANOPEN_SEND_FW_CRC_STEP :: int where "CANOPEN_SEND_FW_CRC_STEP = 1"
definition CANOPEN_SEND_FW_VERSION_STEP :: int where "CANOPEN_SEND_FW_VERSION_STEP = 2"
definition CANOPEN_SEND_SEG_ADDR_STEP :: int where "CANOPEN_SEND_SEG_ADDR_STEP = 0"
definition CANOPEN_SEND_SEG_DATA_STEP :: int where "CANOPEN_SEND_SEG_DATA_STEP = 1"
definition CANOPEN_SEND_SEG_CRC_STEP :: int where "CANOPEN_SEND_SEG_CRC_STEP = 2"
definition BOOT_ST_LOADING_SERVER :: u8 where "BOOT_ST_LOADING_SERVER = 2"
definition PERIOD_REQUEST_UPGRADE_TIME :: int where "PERIOD_REQUEST_UPGRADE_TIME = 50"
definition WAIT_DEV_PREPARE_UPGRADE :: int where "WAIT_DEV_PREPARE_UPGRADE = 1000"

abbreviation (input) "SDO_BOOTLOADER_INDEX \<equiv> 0x2001 :: nat"
abbreviation (input) "SDO_BOOTLOADER_FW_VERSION_SUB_INDEX \<equiv> 0 :: nat"
abbreviation (input) "SDO_BOOTLOADER_FW_SIZE_SUB_INDEX \<equiv> 1 :: nat"
abbreviation (input) "SDO_BOOTLOADER_FW_CRC_SUB_INDEX \<equiv> 2 :: nat"
abbreviation (input) "SDO_BOOTLOADER_SEG_ADDR_SUB_INDEX \<equiv> 3 :: nat"
abbreviation (input) "SDO_BOOTLOADER_SEG_DATA_SUB_INDEX \<equiv> 4 :: nat"
abbreviation (input) "SDO_BOOTLOADER_SEG_CRC_SUB_INDEX \<equiv> 5 :: nat"
abbreviation (input) "SDO_BOOTLOADER_BOOT_EXT_REQ_SUB_INDEX \<equiv> 7 :: nat"
abbreviation (input) "BOOT_MASTER_NODE_ID \<equiv> 3 :: nat"
abbreviation (input) "BOOT_SDO_CB \<equiv> 2 :: nat"

record co_output =
  co_src_node :: int
  co_sig :: "fw_signature option"
  co_segment :: "sm_segment option"
  co_state :: CANOPEN_UPGRADE_PROCESS_STATE
  co_step :: int
  co_timer :: elapsed_timer
  co_request :: u8
  co_wait :: bool

type_synonym output_node = "co_output \<times> sm_co"

section \<open>Writes to the device\<close>

text \<open>The bytes of a field in memory, lowest first.\<close>

definition u16_mem :: "u16 \<Rightarrow> u8 list" where
  "u16_mem x = [ucast x, ucast (drop_bit 8 x)]"

definition u32_mem :: "u32 \<Rightarrow> u8 list" where
  "u32_mem x = [ucast x, ucast (drop_bit 8 x), ucast (drop_bit 16 x), ucast (drop_bit 24 x)]"

definition boot_write :: "nat \<Rightarrow> u8 list \<Rightarrow> int \<Rightarrow> int \<Rightarrow> output_node \<Rightarrow> fault + output_node" where
  "boot_write sub xs len tmo = (\<lambda>(u, co).
     bind (sm_co_sdo_client_send SDO_BOOTLOADER_INDEX sub (nat (co_src_node u)) (Some xs) len tmo (Some BOOT_SDO_CB) 0 co)
       (\<lambda>(_, co). Inr (u\<lparr>co_wait := True\<rparr>, co)))"

text \<open>The guard of the functions that write: the client is idle, it is their turn and nothing is waited for.\<close>

definition may_write :: "int \<Rightarrow> output_node \<Rightarrow> bool" where
  "may_write step = (\<lambda>(u, co). \<not> sm_co_sdo_is_busy co \<and> co_step u = step \<and> \<not> co_wait u)"

definition with_sig :: "(fw_signature \<Rightarrow> output_node \<Rightarrow> fault + output_node) \<Rightarrow> output_node \<Rightarrow> fault + output_node" where
  "with_sig f uc = (case co_sig (fst uc) of None \<Rightarrow> Inl Null_Deref | Some s \<Rightarrow> f s uc)"

definition with_seg :: "(sm_segment \<Rightarrow> output_node \<Rightarrow> fault + output_node) \<Rightarrow> output_node \<Rightarrow> fault + output_node" where
  "with_seg f uc = (case co_segment (fst uc) of None \<Rightarrow> Inl Null_Deref | Some s \<Rightarrow> f s uc)"

definition sm_boot_canopen_send_fw_version :: "output_node \<Rightarrow> fault + output_node" where
  "sm_boot_canopen_send_fw_version uc =
     (if may_write CANOPEN_SEND_FW_VERSION_STEP uc
      then with_sig (\<lambda>s. boot_write SDO_BOOTLOADER_FW_VERSION_SUB_INDEX (fw_version s) 3 1000) uc else Inr uc)"

definition sm_boot_canopen_send_fw_size :: "output_node \<Rightarrow> fault + output_node" where
  "sm_boot_canopen_send_fw_size uc =
     (if may_write CANOPEN_SEND_FW_SIZE_STEP uc
      then with_sig (\<lambda>s. boot_write SDO_BOOTLOADER_FW_SIZE_SUB_INDEX (u32_mem (fw_size s)) 4 1000) uc else Inr uc)"

definition sm_boot_canopen_send_fw_crc :: "output_node \<Rightarrow> fault + output_node" where
  "sm_boot_canopen_send_fw_crc uc =
     (if may_write CANOPEN_SEND_FW_CRC_STEP uc
      then with_sig (\<lambda>s. boot_write SDO_BOOTLOADER_FW_CRC_SUB_INDEX (u16_mem (fw_crc s)) 2 1000) uc else Inr uc)"

definition sm_boot_canopen_send_seg_addr :: "output_node \<Rightarrow> fault + output_node" where
  "sm_boot_canopen_send_seg_addr uc =
     (if may_write CANOPEN_SEND_SEG_ADDR_STEP uc
      then with_seg (\<lambda>s. boot_write SDO_BOOTLOADER_SEG_ADDR_SUB_INDEX (u32_mem (seg_addr s)) 4 1000) uc else Inr uc)"

definition sm_boot_canopen_send_seg_data :: "output_node \<Rightarrow> fault + output_node" where
  "sm_boot_canopen_send_seg_data uc =
     (if may_write CANOPEN_SEND_SEG_DATA_STEP uc
      then with_seg (\<lambda>s. boot_write SDO_BOOTLOADER_SEG_DATA_SUB_INDEX (seg_data s) (int (seg_length s)) 5000) uc else Inr uc)"

definition sm_boot_canopen_send_seg_crc :: "output_node \<Rightarrow> fault + output_node" where
  "sm_boot_canopen_send_seg_crc uc =
     (if may_write CANOPEN_SEND_SEG_CRC_STEP uc
      then with_seg (\<lambda>s. boot_write SDO_BOOTLOADER_SEG_CRC_SUB_INDEX (u16_mem (seg_crc s)) 2 5000) uc else Inr uc)"

definition sm_boot_canopen_send_request_upgrade :: "output_node \<Rightarrow> fault + output_node" where
  "sm_boot_canopen_send_request_upgrade uc =
     (if sm_co_sdo_is_busy (snd uc) \<or> co_wait (fst uc) then Inr uc
      else boot_write SDO_BOOTLOADER_BOOT_EXT_REQ_SUB_INDEX [co_request (fst uc)] 1 PERIOD_REQUEST_UPGRADE_TIME uc)"

section \<open>The answers\<close>

definition sm_boot_canopen_callback :: "int \<Rightarrow> CO_SDO_return_t \<Rightarrow> co_output \<Rightarrow> boot_raise list \<times> co_output" where
  "sm_boot_canopen_callback now st u =
     (let u = u\<lparr>co_wait := False\<rparr> in
      if st = CO_SDO_RT_abort then
        (if co_step u < 0 then ([], u)
         else (case co_state u of UPGRADE_STATE_SEND_SEG \<Rightarrow> [(SM_BOOT_SLAVE_CONFIRM_SEG, 0)]
               | UPGRADE_STATE_SEND_FW_INFO \<Rightarrow> [(SM_BOOT_SLAVE_CONFIRM_FW_INFO, 0)] | _ \<Rightarrow> [], u\<lparr>co_step := -1\<rparr>))
      else if st = CO_SDO_RT_success then
        (let u = (if co_state u \<noteq> UPGRADE_STATE_REQUEST_UPGRADE then u\<lparr>co_step := co_step u + 1\<rparr>
                  else u\<lparr>co_timer := elapsed_timer_resetz now WAIT_DEV_PREPARE_UPGRADE (co_timer u)\<rparr>) in
         if 3 \<le> co_step u \<and> co_state u = UPGRADE_STATE_SEND_FW_INFO
         then ([(SM_BOOT_SLAVE_CONFIRM_FW_INFO, 1)], u\<lparr>co_step := -1\<rparr>) else ([], u))
      else ([], u))"

definition sm_boot_canopen_response_state_handle :: "u8 \<Rightarrow> co_output \<Rightarrow> boot_raise list \<times> co_output" where
  "sm_boot_canopen_response_state_handle st u =
     (if st = BOOT_ST_LOADING_SERVER \<and> co_state u = UPGRADE_STATE_SEND_SEG then
        (if 2 \<le> co_step u then ([(SM_BOOT_SLAVE_CONFIRM_SEG, 1)], u\<lparr>co_step := -1\<rparr>) else ([], u))
      else if co_state u = UPGRADE_STATE_REQUEST_UPGRADE
      then ([(SM_BOOT_SLAVE_CONFIRM_READY, 1)], u\<lparr>co_state := UPGRADE_STATE_IDLE\<rparr>)
      else ([], u))"

section \<open>The operations of the output\<close>

text \<open>The end of both branches that write: a negative step becomes the first one when the client is idle.\<close>

definition restart_step :: "output_node \<Rightarrow> output_node" where
  "restart_step = (\<lambda>(u, co). (if co_step u < 0 \<and> \<not> sm_co_sdo_is_busy co then u\<lparr>co_step := 0\<rparr> else u, co))"

definition sm_boot_canopen_process :: "int \<Rightarrow> output_node \<Rightarrow> fault + output_node" where
  "sm_boot_canopen_process now uc =
     (case co_state (fst uc) of
        UPGRADE_STATE_IDLE \<Rightarrow> Inr uc
      | UPGRADE_STATE_REQUEST_UPGRADE \<Rightarrow>
          if timed_out now (co_timer (fst uc))
          then bind (sm_boot_canopen_send_request_upgrade uc)
            (\<lambda>(u, co). Inr (u\<lparr>co_timer := elapsed_timer_resetz now PERIOD_REQUEST_UPGRADE_TIME (co_timer u)\<rparr>, co))
          else Inr uc
      | UPGRADE_STATE_SEND_FW_INFO \<Rightarrow>
          map_sum id restart_step
            (if co_step (fst uc) = CANOPEN_SEND_FW_SIZE_STEP then sm_boot_canopen_send_fw_size uc
             else if co_step (fst uc) = CANOPEN_SEND_FW_CRC_STEP then sm_boot_canopen_send_fw_crc uc
             else if co_step (fst uc) = CANOPEN_SEND_FW_VERSION_STEP then sm_boot_canopen_send_fw_version uc else Inr uc)
      | UPGRADE_STATE_SEND_SEG \<Rightarrow>
          map_sum id restart_step
            (if co_step (fst uc) = CANOPEN_SEND_SEG_ADDR_STEP then sm_boot_canopen_send_seg_addr uc
             else if co_step (fst uc) = CANOPEN_SEND_SEG_DATA_STEP then sm_boot_canopen_send_seg_data uc
             else if co_step (fst uc) = CANOPEN_SEND_SEG_CRC_STEP then sm_boot_canopen_send_seg_crc uc else Inr uc)
      | UPGRADE_STATE_NUMBER \<Rightarrow> Inr (fst uc\<lparr>co_state := UPGRADE_STATE_IDLE\<rparr>, snd uc))"

definition sm_boot_canopen_free :: "co_output \<Rightarrow> co_output" where
  "sm_boot_canopen_free u =
     u\<lparr>co_step := -1, co_state := UPGRADE_STATE_IDLE, co_src_node := -1, co_segment := None, co_sig := None\<rparr>"

text \<open>An output that is in use for another node refuses; the slave does not look at the result.\<close>

definition sm_boot_canopen_request_upgrade :: "int \<Rightarrow> co_output \<Rightarrow> int \<times> co_output" where
  "sm_boot_canopen_request_upgrade node u =
     (if 0 \<le> co_src_node u \<and> co_src_node u \<noteq> node then (-1, u)
      else (0, u\<lparr>co_src_node := node, co_state := UPGRADE_STATE_REQUEST_UPGRADE\<rparr>))"

definition sm_boot_canopen_set_fw_info :: "fw_signature \<Rightarrow> co_output \<Rightarrow> int \<times> co_output" where
  "sm_boot_canopen_set_fw_info sig u =
     (if co_src_node u < 0 then (-1, u)
      else (0, u\<lparr>co_sig := Some sig, co_state := UPGRADE_STATE_SEND_FW_INFO, co_step := -1\<rparr>))"

definition sm_boot_canopen_set_seg_fw :: "sm_segment \<Rightarrow> co_output \<Rightarrow> int \<times> co_output" where
  "sm_boot_canopen_set_seg_fw seg u =
     (if co_src_node u < 0 then (-1, u)
      else (0, u\<lparr>co_segment := Some seg, co_state := UPGRADE_STATE_SEND_SEG, co_step := -1\<rparr>))"

definition sm_get_co_boot_output :: "int \<Rightarrow> output_node \<Rightarrow> output_node" where
  "sm_get_co_boot_output now = (\<lambda>(u, co).
     (u\<lparr>co_step := -1, co_state := UPGRADE_STATE_IDLE, co_src_node := -1, co_segment := None, co_sig := None, co_wait := False,
        co_timer := elapsed_timer_resetz now PERIOD_REQUEST_UPGRADE_TIME (co_timer u)\<rparr>,
      sm_co_set_node_id BOOT_MASTER_NODE_ID co))"

end
