(* ===== verification/Boot_Net.thy ===== *)
theory Boot_Net
  imports Boot_Output Co_Net
begin

text \<open>
  The CANopen output of an upgrade on the bus: the output, the node with its queue and its SDO client, and the SDO server of the
  device, all of them code of the repository (\<open>Boot_Output\<close>, \<open>Core_Co\<close>, \<open>Sdo_Server\<close>). A turn is a call of the output, a
  turn of \<open>Co_Net\<close>, and the calls of \<^verbatim>\<open>sm_boot_canopen_callback\<close> for the answers of the node.
\<close>

section \<open>A turn\<close>

fun output_answers :: "int \<Rightarrow> co_out list \<Rightarrow> co_output \<Rightarrow> boot_raise list \<times> co_output" where
  "output_answers now [] u = ([], u)"
| "output_answers now (Can_Frame f # os) u = output_answers now os u"
| "output_answers now (Answer cb st tx rx arg # os) u =
     (if cb = BOOT_SDO_CB
      then (let (rs, u) = sm_boot_canopen_callback now st u; (rs', u) = output_answers now os u in (rs @ rs', u))
      else output_answers now os u)"

type_synonym boot_net = "co_output \<times> net"

definition boot_turn :: "builders \<Rightarrow> confirm \<Rightarrow> int \<times> nat \<times> nat \<Rightarrow> boot_net \<Rightarrow> (boot_net, boot_raise) result" where
  "boot_turn build cf = (\<lambda>(now, t) (u, s, srv, fs).
     bind (sm_boot_canopen_process now (u, s)) (\<lambda>(u, s).
     bind (net_turn build cf t (s, srv, fs)) (\<lambda>(n, out).
       let (rs, u) = output_answers now out u in Inr ((u, n), rs))))"

lemma output_answers_list: "output_answers now os u = output_answers now (answer_list os) u"
  by (induction now os u rule: output_answers.induct) (simp_all add: answer_list_def split: prod.split)

text \<open>The output does nothing while it waits.\<close>

definition in_write :: "co_output \<Rightarrow> bool" where
  "in_write u \<longleftrightarrow> co_state u = UPGRADE_STATE_SEND_SEG \<and> co_wait u \<and> 0 \<le> co_step u"

lemmas seg_steps = CANOPEN_SEND_SEG_ADDR_STEP_def CANOPEN_SEND_SEG_DATA_STEP_def CANOPEN_SEND_SEG_CRC_STEP_def

lemmas seg_sends = sm_boot_canopen_send_seg_addr_def sm_boot_canopen_send_seg_data_def sm_boot_canopen_send_seg_crc_def
  may_write_def with_seg_def

lemma process_waits: "in_write u \<Longrightarrow> sm_boot_canopen_process now (u, s) = Inr (u, s)"
  by (simp add: in_write_def sm_boot_canopen_process_def seg_sends restart_step_def)

lemma run_waits:
  assumes "in_write u" "net_run build cf (map snd ts) n = Inr (n', os)" "answer_list os = []"
  shows "run_all (boot_turn build cf) ts (u, n) = Inr ((u, n'), [])"
  using assms(2,3)
proof (induction ts arbitrary: n os)
  case Nil
  then show ?case by (simp add: net_run_def)
next
  case (Cons t ts)
  obtain n1 o1 o2 where n1: "net_turn build cf (snd t) n = Inr (n1, o1)" "net_run build cf (map snd ts) n1 = Inr (n', o2)" "os = o1 @ o2"
    using Cons.prems(1) by (auto simp: net_run_def and_then_def split: sum.splits)
  then have no: "answer_list o1 = []" "answer_list o2 = []" using Cons.prems(2) by simp_all
  have "boot_turn build cf t (u, n) = Inr ((u, n1), [])"
    using n1(1) process_waits [OF assms(1)] no(1) output_answers_list [of "fst t" o1 u]
    by (cases t; cases n) (simp add: boot_turn_def)
  then show ?case using Cons.IH [OF n1(2) no(2)] by simp
qed

section \<open>The queue of the node\<close>

lemma recv_queue: "sdo_queue (fold sm_co_can_if_recv_impl fs s) = sdo_queue s"
  by (induction fs arbitrary: s) (simp_all add: sm_co_can_if_recv_impl_def)

lemma process_length:
  assumes "sm_co_process build fs dt cf s = Inr (s', os)" "fifo_ok (sdo_queue s)"
  shows "fifo_ok (sdo_queue s') \<and> fifo_length (sdo_queue s') = fifo_length (sdo_queue s)"
proof -
  obtain s1 o1 o2 where s1: "co_node_step build dt cf (fold sm_co_can_if_recv_impl fs s) = Inr (s1, o1)" "sm_co_SDO_process s1 = Inr (s', o2)"
    using assms(1) by (auto simp: sm_co_process_def and_then_def split: sum.splits)
  have q: "sdo_queue s1 = sdo_queue s" using s1(1) recv_queue by (auto simp: co_node_step_def split: sum.splits)
  have "fifo_ok (sdo_queue s1)" using q assms(2) by simp
  from take_spec [OF this] pop_spec [OF this] show ?thesis
    using s1(2) assms(2) unfolding q [symmetric]
    by (auto simp: sm_co_SDO_process_def sm_sdo_pop_def on_client_def
        split: if_splits SDO_PROCESS_STATE.splits list.splits sum.splits option.splits)
qed

lemma net_length:
  assumes "net_run build cf ts (s, srv, fs) = Inr ((s', srv', fs'), os)" "fifo_ok (sdo_queue s)"
  shows "fifo_length (sdo_queue s') = fifo_length (sdo_queue s)"
  using assms
proof (induction ts arbitrary: s srv fs os)
  case (Cons t ts)
  obtain s1 srv1 fs1 o1 o2 where n: "net_turn build cf t (s, srv, fs) = Inr ((s1, srv1, fs1), o1)"
      "net_run build cf ts (s1, srv1, fs1) = Inr ((s', srv', fs'), o2)"
    using Cons.prems(1) by (auto simp: net_run_def and_then_def split: sum.splits)
  obtain o3 where "sm_co_process build fs (fst t) cf s = Inr (s1, o3)"
    using n(1) by (cases t) (auto simp: net_turn_def split: sum.splits prod.splits)
  from process_length [OF this Cons.prems(2)] show ?case using Cons.IH [OF n(2)] by simp
qed (simp add: net_run_def)

section \<open>The objects of the device\<close>

definition put_bytes :: "nat \<times> nat \<Rightarrow> u8 list \<Rightarrow> CO_OD \<Rightarrow> CO_OD" where
  "put_bytes k xs od =
     set_sub k ((sub_at od k)\<lparr>p_data := map_option (\<lambda>old. xs @ drop (length xs) old) (p_data (sub_at od k))\<rparr>) od"

definition takes_bytes :: "CO_OD \<Rightarrow> nat \<times> nat \<Rightarrow> nat \<Rightarrow> bool" where
  "takes_bytes od k n \<longleftrightarrow> so_attr (sub_at od k) AND ODA_SDO_W \<noteq> 0 \<and> p_ext (sub_at od k) = None \<and> p_temp_data (sub_at od k) = None
     \<and> n \<le> so_len (sub_at od k) \<and> so_len (sub_at od k) < 65536
     \<and> (case p_data (sub_at od k) of None \<Rightarrow> False | Some old \<Rightarrow> so_len (sub_at od k) \<le> length old)"

lemma sub_at_put: "j \<noteq> j' \<Longrightarrow> sub_at (put_bytes (no, j) xs od) (no, j') = sub_at od (no, j')"
  by (cases "no < length (od_list od)") (auto simp: put_bytes_def set_sub_def sub_at_def linorder_not_less list_update_beyond)

lemma takes_put: "j \<noteq> j' \<Longrightarrow> takes_bytes (put_bytes (no, j) xs od) (no, j') n = takes_bytes od (no, j') n"
  by (simp add: takes_bytes_def sub_at_put split: option.split)

lemma position_map: "position P (map f xs) = position (\<lambda>x. P (f x)) xs"
  by (induction xs) auto

lemma names_put:
  assumes "names_obj srv idx sub no" "srv_od srv' = put_bytes (no, j) xs (srv_od srv)"
  shows "names_obj srv' idx sub no"
proof -
  let ?od = "srv_od srv" and ?od' = "srv_od srv'"
  have no: "no < length (od_list ?od)" using assms(1) position_Some by (auto simp: names_obj_def)
  have l: "map obj_index (od_list ?od') = map obj_index (od_list ?od)" "map sub_number (od_list ?od') = map sub_number (od_list ?od)"
      "map (\<lambda>x. length (obj_subs x)) (od_list ?od') = map (\<lambda>x. length (obj_subs x)) (od_list ?od)" "od_number ?od' = od_number ?od"
    using no by (simp_all add: assms(2) put_bytes_def set_sub_def list_eq_iff_nth_eq nth_list_update)
  have len: "length (od_list ?od') = length (od_list ?od)" using l(1) by (metis length_map)
  have el: "obj_index (od_list ?od' ! i) = obj_index (od_list ?od ! i)" "sub_number (od_list ?od' ! i) = sub_number (od_list ?od ! i)"
      "length (obj_subs (od_list ?od' ! i)) = length (obj_subs (od_list ?od ! i))" if "i < length (od_list ?od)" for i
    using that l len by (metis nth_map)+
  have ok: "od_ok ?od" using assms(1) by (simp add: names_obj_def)
  have "sub_number x \<le> length (obj_subs x)" if x: "x \<in> set (od_list ?od')" for x
  proof -
    obtain i where i: "i < length (od_list ?od)" "x = od_list ?od' ! i" using x len by (auto simp: in_set_conv_nth)
    then have "sub_number (od_list ?od ! i) \<le> length (obj_subs (od_list ?od ! i))" using ok by (simp add: od_ok_def)
    then show ?thesis using el [OF i(1)] i(2) by simp
  qed
  then have "od_ok ?od'" using ok l(1,4) len by (simp add: od_ok_def)
  moreover have "position (\<lambda>obj. obj_index obj = idx) (od_list ?od') = position (\<lambda>obj. obj_index obj = idx) (od_list ?od)"
    using l(1) position_map [of "\<lambda>i. i = idx" obj_index] by metis
  ultimately show ?thesis using assms(1) el(2) [OF no] by (simp add: names_obj_def)
qed

section \<open>One write\<close>

text \<open>The output, the node and the device between two writes.\<close>

definition net_free :: "CO_SYNC \<Rightarrow> nat \<Rightarrow> nat \<Rightarrow> net \<Rightarrow> bool" where
  "net_free y k tmo = (\<lambda>(s, srv, fs). node_free y s \<and> fifo_items (sdo_queue s) = [] \<and> fifo_length (sdo_queue s) = 11
     \<and> trans_type (co_client (parent s)) = 0 \<and> fs = []
     \<and> server_idle srv \<and> tx_node srv = k \<and> rx_node srv = k \<and> allowed_timeout_ms srv = tmo)"

definition seg_write :: "sm_segment \<Rightarrow> nat \<Rightarrow> nat \<times> u8 list \<times> int \<times> int" where
  "seg_write s j = (if j = 0 then (3, u32_mem (seg_addr s), 4, 1000) else if j = 1 then (4, seg_data s, int (seg_length s), 5000)
     else (5, u16_mem (seg_crc s), 2, 5000))"

lemma not_busy: "node_free y s \<Longrightarrow> \<not> sm_co_sdo_is_busy s"
  by (simp add: node_free_def sm_co_sdo_is_busy_def)

lemma process_sends:
  assumes u: "co_state u = UPGRADE_STATE_SEND_SEG" "co_segment u = Some seg" "co_step u = int j" "j < 3" "\<not> co_wait u" "co_src_node u = int k"
    and s: "net_free y k' tmo (s, srv, fs)" and w: "seg_write seg j = (sub, xs, len, tmo1)"
  shows "\<exists>q. sm_boot_canopen_process now (u, s) = Inr (u\<lparr>co_wait := True\<rparr>, s\<lparr>sdo_queue := q\<rparr>) \<and> fifo_ok q \<and> fifo_length q = 11
    \<and> fifo_items q = [mk_request SM_SDO_W ODA_SDO_W SDO_BOOTLOADER_INDEX sub k (Some xs) len tmo1 (Some BOOT_SDO_CB) 0]"
proof -
  let ?r = "mk_request SM_SDO_W ODA_SDO_W SDO_BOOTLOADER_INDEX sub k (Some xs) len tmo1 (Some BOOT_SDO_CB) 0"
  have f: "node_free y s" "fifo_items (sdo_queue s) = []" "fifo_length (sdo_queue s) = 11" using s by (simp_all add: net_free_def)
  then obtain q where q: "sm_fifo_push ?r (sdo_queue s) = Inr (True, q)" "fifo_ok q" "fifo_items q = [?r]" "fifo_length q = 11"
    using push_spec [of "sdo_queue s" ?r] by (auto simp: node_free_def)
  have "boot_write sub xs len tmo1 (u, s) = Inr (u\<lparr>co_wait := True\<rparr>, s\<lparr>sdo_queue := q\<rparr>)"
    using u(6) q(1) by (simp add: boot_write_def sm_co_sdo_client_send_def sm_sdo_push_def)
  then have b: "(case seg_write seg j of (sub, xs, len, tmo1) \<Rightarrow> boot_write sub xs len tmo1 (u, s)) = Inr (u\<lparr>co_wait := True\<rparr>, s\<lparr>sdo_queue := q\<rparr>)"
    by (simp add: w)
  consider "j = 0" | "j = 1" | "j = 2" using u(4) by linarith
  then have "sm_boot_canopen_process now (u, s) = Inr (u\<lparr>co_wait := True\<rparr>, s\<lparr>sdo_queue := q\<rparr>)"
    by cases (use u(1-3,5) b not_busy [OF f(1)] in
      \<open>simp_all add: sm_boot_canopen_process_def seg_sends seg_steps seg_write_def restart_step_def\<close>)
  then show ?thesis using q by blast
qed

text \<open>The turns are in time for the timeouts of the output, one second at least, and of the device.\<close>

definition turns_ok :: "nat \<Rightarrow> (int \<times> nat \<times> nat) list \<Rightarrow> bool" where
  "turns_ok tmo ts \<longleftrightarrow> list_all (\<lambda>(now, dt, ds). dt < 1000 \<and> ds < tmo) ts"

lemma write_stage:
  assumes u: "co_state u = UPGRADE_STATE_SEND_SEG" "co_segment u = Some seg" "co_step u = int j" "j < 3" "\<not> co_wait u" "co_src_node u = int k"
    and n: "net_free y k tmo (s, srv, [])" "k < 128" "tmo < 65536" "sync_can_id y \<noteq> CO_CAN_ID_SDO_SRV + k"
    and w: "seg_write seg j = (sub, xs, int m, tmo1)" "1000 \<le> tmo1" "tmo1 < 65536" "0 < m" "m \<le> length xs" "m < 65536"
    and obj: "names_obj srv SDO_BOOTLOADER_INDEX sub no" "takes_bytes (srv_od srv) (no, sub) m"
    and ts: "turns_ok tmo ts" "length ts = transfer_turns m + 3"
  shows "\<exists>s' srv'. run_all (boot_turn build cf) ts (u, s, srv, []) = Inr ((u\<lparr>co_step := int j + 1\<rparr>, s', srv', []), [])
    \<and> net_free y k tmo (s', srv', []) \<and> srv_od srv' = put_bytes (no, sub) (take m xs) (srv_od srv)"
proof -
  let ?r = "mk_request SM_SDO_W ODA_SDO_W SDO_BOOTLOADER_INDEX sub k (Some xs) (int m) tmo1 (Some BOOT_SDO_CB) 0"
  let ?u = "u\<lparr>co_wait := True\<rparr>" and ?tgt = "sub_at (srv_od srv) (no, sub)"
  have f: "node_free y s" "trans_type (co_client (parent s)) = 0" "server_idle srv" "tx_node srv = k" "rx_node srv = k" "allowed_timeout_ms srv = tmo"
    using n(1) by (simp_all add: net_free_def)
  have node: "quiet_node (parent s)" "client_idle (co_client (parent s))" "sdo_state (co_client (parent s)) = CO_SDO_ST_IDLE"
      "\<not> sdo_process s" "\<not> is_sdo_now s" "y = co_sync (parent s)" using f(1) by (simp_all add: node_free_def)
  obtain q where q: "sm_boot_canopen_process now (u, s) = Inr (?u, s\<lparr>sdo_queue := q\<rparr>)" "fifo_ok q" "fifo_length q = 11" "fifo_items q = [?r]" for now
  proof -
    obtain q where "sm_boot_canopen_process 0 (u, s) = Inr (?u, s\<lparr>sdo_queue := q\<rparr>)" "fifo_ok q" "fifo_length q = 11" "fifo_items q = [?r]"
      using process_sends [OF u n(1) w(1), of 0] by blast
    moreover have "sm_boot_canopen_process now (u, s) = sm_boot_canopen_process 0 (u, s)" for now
      using u(1) by (simp add: sm_boot_canopen_process_def)
    ultimately show ?thesis using that by metis
  qed
  have rq: "rq_rw ?r = SM_SDO_W" "rq_cb ?r = Some BOOT_SDO_CB" "rq_node ?r = k" "rq_timeout ?r = nat tmo1" "rq_index ?r = SDO_BOOTLOADER_INDEX"
      "rq_sub ?r = sub" "so_len (rq_obj ?r) = m" "p_data (rq_obj ?r) = Some xs" "rq_arg ?r = 0"
    using w by (simp_all add: mk_request_def u16_of_int_def)
  obtain old where old: "so_attr ?tgt AND ODA_SDO_W \<noteq> 0" "p_ext ?tgt = None" "p_temp_data ?tgt = None" "p_data ?tgt = Some old"
      "m \<le> so_len ?tgt" "so_len ?tgt \<le> length old" "so_len ?tgt < 65536"
    using obj(2) by (auto simp: takes_bytes_def split: option.splits)
  obtain na t1 nb t2 ts' nc tl where d: "ts = (na, t1) # (nb, t2) # ts' @ [(nc, tl)]" "length ts' = transfer_turns m"
  proof -
    obtain a b r where r: "ts = a # b # r" "length r = transfer_turns m + 1" using ts(2) by (auto simp: length_Suc_conv eval_nat_numeral)
    then have "r = butlast r @ [last r]" by (intro append_butlast_last_id [symmetric]) auto
    then show ?thesis using r that [of "fst a" "snd a" "fst b" "snd b" "butlast r" "fst (last r)" "snd (last r)"] by simp
  qed
  let ?ts = "map snd ts'"
  obtain dt ds where tl: "tl = (dt, ds)" by (cases tl)
  have time: "dt < 1000" "list_all (\<lambda>(dt, ds). dt < 1000 \<and> ds < tmo) ?ts"
    using ts(1) d(1) tl by (auto simp: turns_ok_def list_all_iff)
  have it: "list_all (in_time (start_request ?r (co_client (parent s))) srv) (map (\<lambda>(dt, ds). (y, dt, ds)) ?ts)"
    using time(2) w(2) rq f(2,6)
    by (auto simp: list_all_iff in_time_def start_request_def CO_SDOclient_start_download_def client_start_def
        CO_SDOclient_is_in_sync_window_len_def)
  have "\<exists>s1 w1 f1 o1 s' srv' o2 tx rx. net_run build cf (t1 # t2 # ?ts) (s\<lparr>sdo_queue := q\<rparr>, srv, []) = Inr ((s1, w1, f1), o1) \<and> answer_list o1 = []
    \<and> net_turn build cf (dt, ds) (s1, w1, f1) = Inr ((s', srv', []), o2) \<and> answer_list o2 = [Answer BOOT_SDO_CB CO_SDO_RT_success tx rx 0]
    \<and> srv_od srv' = set_sub (no, sub) (?tgt\<lparr>p_data := Some (take m xs @ drop m old)\<rparr>) (srv_od srv)
    \<and> server_idle srv' \<and> tx_node srv' = k \<and> rx_node srv' = k \<and> allowed_timeout_ms srv' = allowed_timeout_ms srv
    \<and> node_free y s' \<and> trans_type (co_client (parent s')) = trans_type (co_client (parent s)) \<and> fifo_items (sdo_queue s') = []"
    using write_is_carried_out [where s = "s\<lparr>sdo_queue := q\<rparr>" and r = ?r and cb = BOOT_SDO_CB and k = k and n = m and d = xs and y = y and srv = srv
        and no = no and tgt = ?tgt and old = old and ts = ?ts and dt = dt and ds = ds and ?t1.0 = t1 and ?t2.0 = t2 and build = build and cf = cf]
      node q f rq n(2-4) w(2-5) obj(1) old it time(1) d(2) by simp
  then obtain s1 w1 f1 o1 s' srv' o2 tx rx where c: "net_run build cf (t1 # t2 # ?ts) (s\<lparr>sdo_queue := q\<rparr>, srv, []) = Inr ((s1, w1, f1), o1)"
      "answer_list o1 = []" "net_turn build cf (dt, ds) (s1, w1, f1) = Inr ((s', srv', []), o2)"
      "answer_list o2 = [Answer BOOT_SDO_CB CO_SDO_RT_success tx rx 0]"
      "srv_od srv' = set_sub (no, sub) (?tgt\<lparr>p_data := Some (take m xs @ drop m old)\<rparr>) (srv_od srv)"
      "server_idle srv'" "tx_node srv' = k" "rx_node srv' = k" "allowed_timeout_ms srv' = tmo" "node_free y s'"
      "trans_type (co_client (parent s')) = 0" "fifo_items (sdo_queue s') = []"
    using f(2,6) by auto
  have wr: "in_write ?u" using u by (simp add: in_write_def)
  have first: "boot_turn build cf (now, t) (u, s, srv, []) = boot_turn build cf (now, t) (?u, s\<lparr>sdo_queue := q\<rparr>, srv, [])" for now t
    by (simp add: boot_turn_def q(1) process_waits [OF wr])
  have "run_all (boot_turn build cf) ((na, t1) # (nb, t2) # ts') (u, s, srv, [])
      = run_all (boot_turn build cf) ((na, t1) # (nb, t2) # ts') (?u, s\<lparr>sdo_queue := q\<rparr>, srv, [])" by (simp add: first)
  also have "\<dots> = Inr ((?u, s1, w1, f1), [])" by (rule run_waits [OF wr _ c(2)]) (use c(1) in simp)
  finally have r1: "run_all (boot_turn build cf) ((na, t1) # (nb, t2) # ts') (u, s, srv, []) = Inr ((?u, s1, w1, f1), [])" .
  have cb: "sm_boot_canopen_callback nc CO_SDO_RT_success ?u = ([], u\<lparr>co_step := int j + 1\<rparr>)"
  proof -
    have "u\<lparr>co_wait := False\<rparr> = u" using u(5) by (cases u) simp
    then have "?u\<lparr>co_wait := False\<rparr> = u" by simp
    then show ?thesis using u(1,3) by (simp add: sm_boot_canopen_callback_def)
  qed
  have "boot_turn build cf (nc, dt, ds) (?u, s1, w1, f1) = Inr ((u\<lparr>co_step := int j + 1\<rparr>, s', srv', []), [])"
    using c(3,4) cb output_answers_list [of nc o2 ?u] by (simp add: boot_turn_def process_waits [OF wr])
  then have "run_all (boot_turn build cf) (((na, t1) # (nb, t2) # ts') @ [(nc, tl)]) (u, s, srv, []) = Inr ((u\<lparr>co_step := int j + 1\<rparr>, s', srv', []), [])"
    using r1 by (simp only: run_all_append) (simp add: tl)
  moreover have "fifo_length (sdo_queue s') = 11"
  proof -
    have "net_run build cf ((t1 # t2 # ?ts) @ [(dt, ds)]) (s\<lparr>sdo_queue := q\<rparr>, srv, []) = Inr ((s', srv', []), o1 @ o2)"
      using c(1,3) by (simp only: net_run_def run_all_append) simp
    from net_length [OF this] show ?thesis using q(2,3) by simp
  qed
  moreover have "put_bytes (no, sub) (take m xs) (srv_od srv) = srv_od srv'" using c(5) old(4) w(5) by (simp add: put_bytes_def)
  ultimately show ?thesis using c(6-12) d(1) by (simp add: net_free_def)
qed

section \<open>A segment\<close>

lemma restart_turn:
  assumes "co_state u = UPGRADE_STATE_SEND_SEG" "co_step u = -1" "net_free y k tmo (s, srv, [])"
  shows "\<exists>s'. boot_turn build cf t (u, s, srv, []) = Inr ((u\<lparr>co_step := 0\<rparr>, s', srv\<lparr>sdo_status := CO_SDO_RT_idle\<rparr>, []), [])
    \<and> net_free y k tmo (s', srv\<lparr>sdo_status := CO_SDO_RT_idle\<rparr>, [])"
proof -
  obtain now dt ds where t: "t = (now, dt, ds)" by (cases t)
  have f: "node_free y s" "fifo_items (sdo_queue s) = []" "server_idle srv" using assms(3) by (simp_all add: net_free_def)
  have n: "quiet_node (parent s)" "client_idle (co_client (parent s))" "sdo_state (co_client (parent s)) = CO_SDO_ST_IDLE" "fifo_ok (sdo_queue s)"
      "\<not> sdo_process s" "\<not> is_sdo_now s" "co_sync (parent s) = y" using f(1) by (simp_all add: node_free_def)
  obtain m where m: "co_node_step build dt cf s = Inr (s\<lparr>parent := m\<rparr>, [])" "co_client m = co_client (parent s)" "quiet_node m"
      "co_sync m = y" using idle_node_turn [OF n(1-3), of build dt cf] n(7) by auto
  have "sm_fifo_pop (sdo_queue s) = Inr (None, sdo_queue s)" using take_spec [OF n(4)] f(2) pop_spec [OF n(4)] by simp
  then have "sm_co_SDO_process (s\<lparr>parent := m\<rparr>) = Inr (s\<lparr>parent := m\<rparr>, [])" using n(5,6) by (simp add: sm_co_SDO_process_def sm_sdo_pop_def)
  from net_turn_quiet [OF m(1) this f(3), of ds]
  have "boot_turn build cf t (u, s, srv, []) = Inr ((u\<lparr>co_step := 0\<rparr>, s\<lparr>parent := m\<rparr>, srv\<lparr>sdo_status := CO_SDO_RT_idle\<rparr>, []), [])"
    using assms(1,2) not_busy [OF f(1)] by (simp add: boot_turn_def t sm_boot_canopen_process_def seg_steps restart_step_def)
  moreover have "net_free y k tmo (s\<lparr>parent := m\<rparr>, srv\<lparr>sdo_status := CO_SDO_RT_idle\<rparr>, [])"
    using assms(3) m by (simp add: net_free_def node_free_def server_idle_def)
  ultimately show ?thesis by blast
qed

lemma length_mem [simp]: "length (u16_mem x) = 2" "length (u32_mem z) = 4"
  by (simp_all add: u16_mem_def u32_mem_def)

lemma turns_ok_append [simp]: "turns_ok tmo (xs @ ys) \<longleftrightarrow> turns_ok tmo xs \<and> turns_ok tmo ys"
  by (simp add: turns_ok_def)

text \<open>C2.
  A segment reaches the device. When the CANopen output has been given a segment (\<^verbatim>\<open>sm_boot_canopen_set_seg_fw\<close>), the node is free, and
  the device answers through an SDO server of the library with the objects 3, 4 and 5 of index 0x2001, then after
  \<open>transfer_turns n + 14\<close> turns in time, \<open>n\<close> being the length of the segment, the three objects hold the address, the data and the checksum of
  the segment, written one after the other, and no other byte of the dictionary of the device has changed. The output has raised
  nothing meanwhile, the node is free again, and the report of the device that it is loading is passed to the slave as the confirmation of
  the segment.\<close>

theorem segment_is_written:
  assumes "co_state u = UPGRADE_STATE_SEND_SEG" "co_segment u = Some seg" "co_step u = -1" "\<not> co_wait u" "co_src_node u = int k"
    and "net_free y k tmo (s, srv, [])" "k < 128" "tmo < 65536" "sync_can_id y \<noteq> CO_CAN_ID_SDO_SRV + k"
    and "0 < seg_length seg" "seg_length seg \<le> length (seg_data seg)" "seg_length seg < 65536"
    and "names_obj srv SDO_BOOTLOADER_INDEX 3 no" "names_obj srv SDO_BOOTLOADER_INDEX 4 no" "names_obj srv SDO_BOOTLOADER_INDEX 5 no"
    and "takes_bytes (srv_od srv) (no, 3) 4" "takes_bytes (srv_od srv) (no, 4) (seg_length seg)" "takes_bytes (srv_od srv) (no, 5) 2"
    and "turns_ok tmo ts" "length ts = transfer_turns (seg_length seg) + 14"
  shows "\<exists>u' s' srv'. run_all (boot_turn build cf) ts (u, s, srv, []) = Inr ((u', s', srv', []), [])
    \<and> srv_od srv' = put_bytes (no, 5) (u16_mem (seg_crc seg)) (put_bytes (no, 4) (take (seg_length seg) (seg_data seg))
        (put_bytes (no, 3) (u32_mem (seg_addr seg)) (srv_od srv)))
    \<and> net_free y k tmo (s', srv', []) \<and> u' = u\<lparr>co_step := 3\<rparr>
    \<and> sm_boot_canopen_response_state_handle BOOT_ST_LOADING_SERVER u' = ([(SM_BOOT_SLAVE_CONFIRM_SEG, 1)], u'\<lparr>co_step := -1\<rparr>)"
proof -
  let ?n = "seg_length seg" and ?run = "run_all (boot_turn build cf)"
  obtain t r where r: "ts = t # r" "length r = 5 + (transfer_turns ?n + 3) + 5" using assms(20) by (cases ts) auto
  define a where "a = take 5 r"
  define b where "b = take (transfer_turns ?n + 3) (drop 5 r)"
  define c where "c = drop (transfer_turns ?n + 3) (drop 5 r)"
  have tt: "transfer_turns 4 = 2" "transfer_turns 2 = 2" by (simp_all add: transfer_turns_def)
  have "r = a @ b @ c" unfolding a_def b_def c_def by (simp only: append_take_drop_id)
  moreover have "length a = transfer_turns 4 + 3" "length b = transfer_turns ?n + 3" "length c = transfer_turns 2 + 3"
    using r(2) by (simp_all add: a_def b_def c_def tt)
  ultimately have split: "r = a @ b @ c" "length a = transfer_turns 4 + 3" "length b = transfer_turns ?n + 3" "length c = transfer_turns 2 + 3"
    by simp_all
  have ok: "turns_ok tmo a" "turns_ok tmo b" "turns_ok tmo c"
    using assms(19) r(1) split(1) turns_ok_append by (simp_all add: turns_ok_def)
  let ?srv0 = "srv\<lparr>sdo_status := CO_SDO_RT_idle\<rparr>" and ?u0 = "u\<lparr>co_step := 0\<rparr>" and ?u1 = "u\<lparr>co_step := 1\<rparr>" and ?u2 = "u\<lparr>co_step := 2\<rparr>"
  obtain s0 where s0: "boot_turn build cf t (u, s, srv, []) = Inr ((?u0, s0, ?srv0, []), [])" "net_free y k tmo (s0, ?srv0, [])"
    using restart_turn [OF assms(1,3,6), of build cf t] by blast
  have nm: "names_obj ?srv0 SDO_BOOTLOADER_INDEX 3 no" using assms(13) by (simp add: names_obj_def)
  obtain s1 srv1 where s1: "?run a (?u0, s0, ?srv0, []) = Inr ((?u1, s1, srv1, []), [])" "net_free y k tmo (s1, srv1, [])"
      "srv_od srv1 = put_bytes (no, 3) (u32_mem (seg_addr seg)) (srv_od srv)"
    using write_stage [of ?u0 seg 0 k y tmo s0 ?srv0 3 "u32_mem (seg_addr seg)" 4 1000 no a build cf] assms(1,2,4,5,7-9,16) s0(2) nm ok(1) split(2)
    by (auto simp: seg_write_def)
  have n1: "names_obj srv1 SDO_BOOTLOADER_INDEX 4 no" by (rule names_put [OF assms(14) s1(3)])
  obtain s2 srv2 where s2: "?run b (?u1, s1, srv1, []) = Inr ((?u2, s2, srv2, []), [])" "net_free y k tmo (s2, srv2, [])"
      "srv_od srv2 = put_bytes (no, 4) (take ?n (seg_data seg)) (srv_od srv1)"
    using write_stage [of ?u1 seg 1 k y tmo s1 srv1 4 "seg_data seg" ?n 5000 no b build cf] assms(1,2,4,5,7-12,17) s1(2,3) n1 ok(2) split(3)
    by (auto simp: seg_write_def takes_put)
  have n2: "names_obj srv2 SDO_BOOTLOADER_INDEX 5 no" by (rule names_put [OF names_put [OF assms(15) s1(3)] s2(3)])
  obtain s3 srv3 where s3: "?run c (?u2, s2, srv2, []) = Inr ((u\<lparr>co_step := 3\<rparr>, s3, srv3, []), [])" "net_free y k tmo (s3, srv3, [])"
      "srv_od srv3 = put_bytes (no, 5) (u16_mem (seg_crc seg)) (srv_od srv2)"
    using write_stage [of ?u2 seg 2 k y tmo s2 srv2 5 "u16_mem (seg_crc seg)" 2 5000 no c build cf] assms(1,2,4,5,7-9,18) s2(2,3) s1(3) n2 ok(3) split(4)
    by (auto simp: seg_write_def takes_put)
  have "?run ts (u, s, srv, []) = Inr ((u\<lparr>co_step := 3\<rparr>, s3, srv3, []), [])"
    using s0(1) s1(1) s2(1) s3(1) by (simp add: r(1) split(1) run_all_append)
  moreover have "sm_boot_canopen_response_state_handle BOOT_ST_LOADING_SERVER (u\<lparr>co_step := 3\<rparr>)
      = ([(SM_BOOT_SLAVE_CONFIRM_SEG, 1)], u\<lparr>co_step := 3\<rparr>\<lparr>co_step := -1\<rparr>)"
    using assms(1) by (simp add: sm_boot_canopen_response_state_handle_def)
  ultimately show ?thesis using s1(3) s2(3) s3(2,3) by (intro exI [of _ "u\<lparr>co_step := 3\<rparr>"] exI [of _ s3] exI [of _ srv3]) simp
qed

text \<open>A device with the nine objects of the boot loader, node 5, and a segment of three bytes.\<close>

definition example_loader :: sdo_server where
  "example_loader = example_server\<lparr>srv_od := \<lparr>od_number = 1, od_list = [\<lparr>obj_index = 0x2001, sub_number = 9, obj_subs =
     replicate 9 \<lparr>p_data = Some (replicate 16 0), so_attr = ODA_SDO_RW, so_len = 16, p_ext = None, p_temp_data = None\<rparr>\<rparr>]\<rparr>\<rparr>"

definition example_seg :: sm_segment where
  "example_seg = \<lparr>seg_addr = 0x08004000, seg_index = 0, seg_size = 3, seg_length = 3, seg_data = [1, 2, 3], seg_crc = 0xABCD, seg_last = 0\<rparr>"

definition example_boot_output :: co_output where
  "example_boot_output = \<lparr>co_src_node = 5, co_sig = None, co_segment = Some example_seg, co_state = UPGRADE_STATE_SEND_SEG, co_step = -1,
     co_timer = \<lparr>m_duration = 0, m_start_time = 0\<rparr>, co_request = 0, co_wait = False\<rparr>"

theorem segment_is_written_witness:
  "\<exists>u' s' srv'. run_all (boot_turn (\<lambda>_ d. d) (CO_EXT_CONFIRM_success, 0)) (replicate 16 (0, 1, 1)) (example_boot_output, example_co, example_loader, [])
      = Inr ((u', s', srv', []), [])
    \<and> srv_od srv' = put_bytes (0, 5) [0xCD, 0xAB] (put_bytes (0, 4) [1, 2, 3] (put_bytes (0, 3) [0, 0x40, 0, 8] (srv_od example_loader)))"
proof -
  have s: "net_free (co_sync example_node) 5 100 (example_co, example_loader, [])"
    using example_idle fifo_init_ok [of 10 44 "example_request 0"]
    by (simp add: net_free_def node_free_def example_co_def quiet_node_def example_node_def sm_fifo_init_def fifo_items_def
        example_loader_def server_idle_def example_defs)
  have nm: "names_obj example_loader SDO_BOOTLOADER_INDEX j 0" if "j < 9" for j
    using that by (simp add: names_obj_def od_ok_def example_loader_def)
  have tk: "takes_bytes (srv_od example_loader) (0, j) m" if "j < 9" "m \<le> 16" for j m
    using that by (simp add: takes_bytes_def example_loader_def sub_at_def)
  have u: "co_state example_boot_output = UPGRADE_STATE_SEND_SEG" "co_segment example_boot_output = Some example_seg"
      "co_step example_boot_output = -1" "\<not> co_wait example_boot_output" "co_src_node example_boot_output = int 5"
    by (simp_all add: example_boot_output_def)
  have y: "sync_can_id (co_sync example_node) \<noteq> CO_CAN_ID_SDO_SRV + 5" by (simp add: example_node_def example_sync_def)
  have l: "seg_length example_seg = 3" "seg_data example_seg = [1, 2, 3]" by (simp_all add: example_seg_def)
  have m: "u16_mem (seg_crc example_seg) = [0xCD, 0xAB]" "u32_mem (seg_addr example_seg) = [0, 0x40, 0, 8]" "take 3 (seg_data example_seg) = [1, 2, 3]"
    by (simp_all add: example_seg_def u16_mem_def u32_mem_def)
  have ts: "turns_ok 100 (replicate 16 (0, 1, 1))" "length (replicate 16 (0 :: int, 1 :: nat, 1 :: nat)) = transfer_turns (seg_length example_seg) + 14"
    by (simp_all add: turns_ok_def transfer_turns_def l list_all_length)
  from segment_is_written [OF u s _ _ y _ _ _ nm nm nm tk tk tk ts, of "\<lambda>_ d. d" "(CO_EXT_CONFIRM_success, 0)"]
  show ?thesis by (simp add: l m) blast
qed

end
