(* ===== verification/Vector.thy ===== *)
theory Vector
  imports Ring
begin

text \<open>
  \<^verbatim>\<open>utils/containers/sm_vector.c\<close>: an array of items of one size with a count. The memory is a list of slots, a pointer to an
  item the number of its slot, a result that is copied to the caller an option (\<open>None\<close> is the result -1). The size of an item
  times a count is below \<open>2 ^ 32\<close>, the width of \<^verbatim>\<open>size_t\<close> on the target; with no item the last one is before the array.
\<close>

record 'a sm_vector =
  v_memory :: "'a list"
  v_max :: nat
  v_count :: nat

text \<open>The memory is what \<^verbatim>\<open>malloc\<close> returns, \<open>None\<close> a null pointer.\<close>

definition sm_vector_create :: "nat \<Rightarrow> 'a list option \<Rightarrow> 'a sm_vector option" where
  "sm_vector_create cap mem = (case mem of None \<Rightarrow> None | Some m \<Rightarrow> Some \<lparr>v_memory = m, v_max = cap, v_count = 0\<rparr>)"

definition sm_vector_push_back :: "'a \<Rightarrow> 'a sm_vector \<Rightarrow> int \<times> 'a sm_vector" where
  "sm_vector_push_back x v =
     (if v_max v \<le> v_count v then (-1, v)
      else (0, v\<lparr>v_memory := (v_memory v)[v_count v := x], v_count := v_count v + 1\<rparr>))"

definition sm_vector_push_font :: "'a \<Rightarrow> 'a sm_vector \<Rightarrow> int \<times> 'a sm_vector" where
  "sm_vector_push_font x v =
     (if v_max v \<le> v_count v then (-1, v)
      else (0, v\<lparr>v_memory := overwrite (x # take (v_count v) (v_memory v)) (v_memory v), v_count := v_count v + 1\<rparr>))"

definition sm_vector_get_size :: "'a sm_vector \<Rightarrow> nat" where
  "sm_vector_get_size v = v_count v"

definition sm_vector_is_full :: "'a sm_vector \<Rightarrow> bool" where
  "sm_vector_is_full v \<longleftrightarrow> v_max v \<le> v_count v"

definition sm_vector_get_item :: "nat \<Rightarrow> 'a sm_vector \<Rightarrow> nat option" where
  "sm_vector_get_item i v = (if v_count v = 0 \<or> v_count v \<le> i then None else Some i)"

definition sm_vector_copy_item :: "nat \<Rightarrow> 'a sm_vector \<Rightarrow> 'a option" where
  "sm_vector_copy_item i v = (if v_count v = 0 \<or> v_count v \<le> i then None else Some (v_memory v ! i))"

definition sm_vector_get_font :: "'a sm_vector \<Rightarrow> nat option" where
  "sm_vector_get_font v = (if v_count v = 0 then None else Some 0)"

definition sm_vector_get_back :: "'a sm_vector \<Rightarrow> nat option" where
  "sm_vector_get_back v = (if v_count v = 0 then None else Some (v_count v - 1))"

definition sm_vector_copy_front :: "'a sm_vector \<Rightarrow> 'a option" where
  "sm_vector_copy_front v = (if v_count v = 0 then None else Some (v_memory v ! 0))"

definition sm_vector_copy_last :: "'a sm_vector \<Rightarrow> 'a option" where
  "sm_vector_copy_last v = (if v_count v = 0 then None else Some (v_memory v ! (v_count v - 1)))"

text \<open>The items behind \<open>i\<close> are moved to \<open>i\<close>; the slot of the last one keeps its content.\<close>

definition shift_left :: "nat \<Rightarrow> nat \<Rightarrow> 'a list \<Rightarrow> 'a list" where
  "shift_left i n m = take i m @ take n (drop (i + 1) m) @ drop (i + n) m"

definition sm_vector_erase_item_by_index :: "nat \<Rightarrow> 'a sm_vector \<Rightarrow> int \<times> 'a sm_vector" where
  "sm_vector_erase_item_by_index i v =
     (if v_count v \<le> i \<or> v_count v = 0 then (-1, v)
      else if i = v_count v - 1 then (0, v\<lparr>v_count := v_count v - 1\<rparr>)
      else (0, v\<lparr>v_memory := shift_left i (v_count v - i - 1) (v_memory v), v_count := v_count v - 1\<rparr>))"

definition sm_vector_erase_item :: "int \<Rightarrow> 'a sm_vector \<Rightarrow> int \<times> 'a sm_vector" where
  "sm_vector_erase_item p v =
     (let last = int (v_count v) - 1 in
      if p < 0 \<or> last < p then (-1, v)
      else if p = last then (0, v\<lparr>v_count := v_count v - 1\<rparr>)
      else (0, v\<lparr>v_memory := shift_left (nat p) (nat (last - p)) (v_memory v), v_count := v_count v - 1\<rparr>))"

section \<open>The content of a vector\<close>

definition vec_ok :: "'a sm_vector \<Rightarrow> bool" where
  "vec_ok v \<longleftrightarrow> length (v_memory v) = v_max v \<and> v_count v \<le> v_max v"

definition vec_items :: "'a sm_vector \<Rightarrow> 'a list" where
  "vec_items v = take (v_count v) (v_memory v)"

definition remove_nth :: "nat \<Rightarrow> 'a list \<Rightarrow> 'a list" where
  "remove_nth i xs = take i xs @ drop (i + 1) xs"

lemma length_items: "vec_ok v \<Longrightarrow> length (vec_items v) = v_count v"
  by (simp add: vec_ok_def vec_items_def)

lemma nth_items: "vec_ok v \<Longrightarrow> i < v_count v \<Longrightarrow> vec_items v ! i = v_memory v ! i"
  by (simp add: vec_items_def)

lemma create_vec: "length m = cap \<Longrightarrow> \<exists>v. sm_vector_create cap (Some m) = Some v \<and> vec_ok v \<and> vec_items v = [] \<and> v_max v = cap"
  by (simp add: sm_vector_create_def vec_ok_def vec_items_def)

lemma push_back_vec:
  assumes "vec_ok v" "v_count v < v_max v" "sm_vector_push_back x v = (r, v')"
  shows "r = 0 \<and> vec_ok v' \<and> vec_items v' = vec_items v @ [x] \<and> v_max v' = v_max v"
  using assms by (auto simp: sm_vector_push_back_def vec_ok_def vec_items_def take_Suc_conv_app_nth)

lemma push_font_vec:
  assumes "vec_ok v" "v_count v < v_max v" "sm_vector_push_font x v = (r, v')"
  shows "r = 0 \<and> vec_ok v' \<and> vec_items v' = x # vec_items v \<and> v_max v' = v_max v"
  using assms by (auto simp: sm_vector_push_font_def vec_ok_def vec_items_def overwrite_def)

lemma push_full: "sm_vector_is_full v \<Longrightarrow> sm_vector_push_back x v = (-1, v) \<and> sm_vector_push_font x v = (-1, v)"
  by (simp add: sm_vector_is_full_def sm_vector_push_back_def sm_vector_push_font_def)

lemma length_shift: "i + n < length m \<Longrightarrow> length (shift_left i n m) = length m"
  by (auto simp: shift_left_def min_def)

lemma take_shift: "i + n < length m \<Longrightarrow> take (i + n) (shift_left i n m) = remove_nth i (take (i + n + 1) m)"
  by (simp add: shift_left_def remove_nth_def drop_take min_def) arith

lemma erase_index_vec:
  assumes "vec_ok v" "i < v_count v" "sm_vector_erase_item_by_index i v = (r, v')"
  shows "r = 0 \<and> vec_ok v' \<and> vec_items v' = remove_nth i (vec_items v) \<and> v_max v' = v_max v"
proof (cases "i = v_count v - 1")
  case True
  then show ?thesis using assms by (auto simp: sm_vector_erase_item_by_index_def vec_ok_def vec_items_def remove_nth_def)
next
  case False
  have "i + (v_count v - i - 1) < length (v_memory v)" "i + (v_count v - i - 1) = v_count v - 1" "v_count v - 1 + 1 = v_count v"
    using assms(1,2) by (auto simp: vec_ok_def)
  from length_shift [OF this(1)] take_shift [OF this(1), unfolded this(2,3)] show ?thesis
    using assms False by (auto simp: sm_vector_erase_item_by_index_def vec_ok_def vec_items_def)
qed

text \<open>The two ways to erase an item are the same.\<close>

lemma erase_item_index: "i < v_count v \<Longrightarrow> sm_vector_erase_item (int i) v = sm_vector_erase_item_by_index i v"
  by (auto simp: sm_vector_erase_item_def sm_vector_erase_item_by_index_def Let_def nat_diff_distrib of_nat_diff)

section \<open>A vector as a queue\<close>

text \<open>Items are appended and the first one is taken: the contract of \<open>bounded_queue\<close>.\<close>

definition vec_push :: "'a \<Rightarrow> 'a sm_vector \<Rightarrow> 'a sm_vector" where
  "vec_push x v = snd (sm_vector_push_back x v)"

definition vec_pop :: "'a sm_vector \<Rightarrow> ('a \<times> 'a sm_vector) option" where
  "vec_pop v = map_option (\<lambda>x. (x, snd (sm_vector_erase_item_by_index 0 v))) (sm_vector_copy_front v)"

interpretation vq: bounded_queue vec_push vec_pop vec_items v_max vec_ok
proof
  fix q :: "'a sm_vector" and x :: 'a
  assume ok: "vec_ok q"
  obtain r v' where p: "sm_vector_push_back x q = (r, v')" by fastforce
  show "length (vec_items q) < v_max q \<Longrightarrow> vec_items (vec_push x q) = vec_items q @ [x]"
    and "length (vec_items q) < v_max q \<Longrightarrow> vec_ok (vec_push x q)"
    using push_back_vec [OF ok _ p] length_items [OF ok] p by (simp_all add: vec_push_def)
  show "v_max (vec_push x q) = v_max q" by (simp add: vec_push_def sm_vector_push_back_def)
  show "vec_pop q = None \<longleftrightarrow> vec_items q = []"
    using length_items [OF ok] by (auto simp: vec_pop_def sm_vector_copy_front_def)
  fix q'
  assume pop: "vec_pop q = Some (x, q')"
  then have c: "0 < v_count q" "x = v_memory q ! 0" "q' = snd (sm_vector_erase_item_by_index 0 q)"
    by (auto simp: vec_pop_def sm_vector_copy_front_def split: if_splits)
  obtain r' where "sm_vector_erase_item_by_index 0 q = (r', q')" using c(3) by (metis prod.collapse)
  from erase_index_vec [OF ok c(1) this] nth_items [OF ok c(1)] length_items [OF ok] c(1,2)
  show "vec_items q = x # vec_items q' \<and> vec_ok q' \<and> v_max q' = v_max q"
    by (cases "vec_items q") (simp_all add: remove_nth_def)
qed

text \<open>A vector is a list: items are added at its end or its front, or refused when there is no room and nothing else changes; an item is
  erased, by its index or by a pointer to it, and the others keep their order; the accesses return what is in the list.\<close>

lemma vector_is_a_list:
  assumes "vec_ok v"
  shows "sm_vector_push_back x v = (if length (vec_items v) < v_max v then (0, vec_push x v) else (-1, v))"
    and "length (vec_items v) < v_max v \<Longrightarrow> vec_items (vec_push x v) = vec_items v @ [x]"
    and "length (vec_items v) < v_max v \<Longrightarrow> vec_items (snd (sm_vector_push_font x v)) = x # vec_items v"
    and "i < length (vec_items v) \<Longrightarrow> vec_items (snd (sm_vector_erase_item (int i) v)) = remove_nth i (vec_items v)
      \<and> sm_vector_erase_item_by_index i v = sm_vector_erase_item (int i) v \<and> sm_vector_copy_item i v = Some (vec_items v ! i)"
    and "length (vec_items v) \<le> i \<Longrightarrow> sm_vector_erase_item (int i) v = (-1, v)
      \<and> sm_vector_erase_item_by_index i v = (-1, v) \<and> sm_vector_copy_item i v = None"
proof -
  show "sm_vector_push_back x v = (if length (vec_items v) < v_max v then (0, vec_push x v) else (-1, v))"
    using length_items [OF assms] by (simp add: vec_push_def sm_vector_push_back_def)
  show "length (vec_items v) < v_max v \<Longrightarrow> vec_items (vec_push x v) = vec_items v @ [x]" by (rule vq.items_push [OF assms])
  show "length (vec_items v) < v_max v \<Longrightarrow> vec_items (snd (sm_vector_push_font x v)) = x # vec_items v"
    using push_font_vec [OF assms] length_items [OF assms] by (metis prod.collapse)
  show "i < length (vec_items v) \<Longrightarrow> vec_items (snd (sm_vector_erase_item (int i) v)) = remove_nth i (vec_items v)
      \<and> sm_vector_erase_item_by_index i v = sm_vector_erase_item (int i) v \<and> sm_vector_copy_item i v = Some (vec_items v ! i)"
    using erase_index_vec [OF assms, of i] erase_item_index [of i v] nth_items [OF assms, of i] length_items [OF assms]
    by (auto simp: sm_vector_copy_item_def) (metis prod.collapse)
  show "length (vec_items v) \<le> i \<Longrightarrow> sm_vector_erase_item (int i) v = (-1, v)
      \<and> sm_vector_erase_item_by_index i v = (-1, v) \<and> sm_vector_copy_item i v = None"
    using length_items [OF assms] by (simp add: sm_vector_erase_item_def sm_vector_erase_item_by_index_def sm_vector_copy_item_def)
qed

end
