(* ===== verification/Boot_Laws.thy ===== *)
theory Boot_Laws
  imports Boot_Slave
begin

text \<open>
  Runs of a slave: its calls one after the other, over any input and output.
\<close>

section \<open>Runs of a slave\<close>

definition slave_run :: "fw_signature \<Rightarrow> 'w boot_if \<Rightarrow> int list \<Rightarrow> boot_slave \<times> 'w \<Rightarrow> (boot_slave \<times> 'w, boot_note) result" where
  "slave_run sig0 io ts sw = run_all (\<lambda>t. sm_boot_slave_process t sig0 io) ts sw"

lemma slave_run_Nil [simp]: "slave_run sig0 io [] sw = Inr (sw, [])"
  by (simp add: slave_run_def)

lemma slave_run_Cons: "slave_run sig0 io (t # ts) sw = and_then (sm_boot_slave_process t sig0 io sw) (slave_run sig0 io ts)"
  by (simp add: slave_run_def and_then_def split: sum.split)

lemma slave_run_step:
  "sm_boot_slave_process t sig0 io sw = Inr (sw', []) \<Longrightarrow> slave_run sig0 io (t # ts) sw = slave_run sig0 io ts sw'"
  by (cases "slave_run sig0 io ts sw'") (auto simp: slave_run_Cons)

text \<open>Calls that come at most \<open>d\<close> after one another, the first one at most \<open>d\<close> after \<open>t\<close>.\<close>

fun steady :: "int \<Rightarrow> int \<Rightarrow> int list \<Rightarrow> bool" where
  "steady d t [] = True"
| "steady d t (u # us) = (t \<le> u \<and> u \<le> t + d \<and> steady d u us)"

text \<open>The callbacks that the upgrade needs.\<close>

definition registered :: "boot_slave \<Rightarrow> bool" where
  "registered s \<longleftrightarrow> bs_regs s SM_BOOT_SLAVE_CONFIRM_READY = Some Slave_Ready \<and> bs_regs s SM_BOOT_SLAVE_CONFIRM_FW_INFO = Some Slave_Fw_Info
     \<and> bs_regs s SM_BOOT_SLAVE_CONFIRM_SEG = Some Slave_Seg \<and> bs_finish_cb s"

end
