(* ===== verification/Boot_Table.thy ===== *)
theory Boot_Table
  imports Boot_Laws
begin

text \<open>
  The table of the boot master: which slaves it holds after any sequence of calls, and what happens when it is full.
\<close>

section \<open>A slave keeps its number\<close>

definition has_id :: "int \<Rightarrow> fault + (boot_slave \<times> 'w) \<Rightarrow> bool" where
  "has_id i r = (case r of Inl _ \<Rightarrow> True | Inr (s, _) \<Rightarrow> bs_id s = i)"

lemma has_id_simps [simp]: "has_id i (Inl e)" "has_id i (Inr (s, w)) \<longleftrightarrow> bs_id s = i"
  by (simp_all add: has_id_def)

lemma has_id_bind: "(\<And>a. r = Inr a \<Longrightarrow> has_id i (f a)) \<Longrightarrow> has_id i (bind r f)"
  by (cases r) simp_all

lemma has_id_bindI: "has_id i r \<Longrightarrow> (\<And>s w. bs_id s = i \<Longrightarrow> has_id i (f (s, w))) \<Longrightarrow> has_id i (bind r f)"
  by (cases r) auto

lemma raise_event_id: "bs_id (fst sw) = i \<Longrightarrow> has_id i (raise_event now io r sw)"
  by (cases sw)
    (auto simp: raise_event_def on_ready_def on_fw_info_def on_finish_def on_abort_def on_seg_def Let_def intro!: has_id_bind
      split: option.split boot_handler.split)

lemma raise_all_id: "bs_id (fst sw) = i \<Longrightarrow> has_id i (raise_all now io rs sw)"
proof (induction rs arbitrary: sw)
  case Nil
  then show ?case by (cases sw) simp
next
  case (Cons r rs)
  then show ?case by (simp add: has_id_bindI [OF raise_event_id])
qed

lemma raise_allD: "raise_all now io rs (s, w) = Inr (s', w') \<Longrightarrow> bs_id s' = bs_id s"
  using raise_all_id [of "(s, w)" "bs_id s" now io rs] by simp

lemma hand_over_id: "bs_id s = i \<Longrightarrow> has_id i (hand_over now io (s, w))"
  by (auto simp: hand_over_def Let_def intro!: has_id_bind dest!: raise_allD)

lemma send_seg_id: "bs_id s = i \<Longrightarrow> has_id i (send_seg_step now io (s, w))"
  by (auto simp: send_seg_step_def Let_def intro!: has_id_bind hand_over_id)

lemma request_id: "bs_id s = i \<Longrightarrow> has_id i (request_step now io (s, w))"
  by (auto simp: request_step_def Let_def intro!: has_id_bind dest!: raise_allD)

lemma fw_info_id: "bs_id s = i \<Longrightarrow> has_id i (fw_info_step now sig0 io (s, w))"
  by (auto simp: fw_info_step_def Let_def intro!: has_id_bind raise_all_id split: option.split)

lemma process_id:
  assumes "sm_boot_slave_process now sig0 io (s, w) = Inr ((s', w'), ns)"
  shows "bs_id s' = bs_id s"
proof -
  obtain s1 w1 where p: "slave_poll now io (s, w) = Inr (s1, w1)" "slave_switch now sig0 io (s1, w1) = Inr ((s', w'), ns)"
    using assms by (cases "slave_poll now io (s, w)") (auto simp: sm_boot_slave_process_def)
  have "has_id (bs_id s) (slave_poll now io (s, w))"
    by (auto simp: slave_poll_def intro!: has_id_bind raise_all_id)
  then have 1: "bs_id s1 = bs_id s" by (simp add: p(1))
  have q: "has_id (bs_id s1) (request_step now io (s1, w1))" "has_id (bs_id s1) (fw_info_step now sig0 io (s1, w1))"
      "has_id (bs_id s1) (send_seg_step now io (s1, w1))" by (simp_all add: request_id fw_info_id send_seg_id)
  have "bs_id s' = bs_id s1"
    using p(2) q by (cases "bs_state s1")
      (auto simp: slave_switch_def Let_def has_id_def map_sum_def split: sum.splits if_splits)
  then show ?thesis using 1 by simp
qed

section \<open>The table\<close>

definition used :: "(boot_slave \<times> nat) option list \<Rightarrow> nat" where
  "used ls = length (filter (\<lambda>sl. sl \<noteq> None) ls)"

definition ids :: "(boot_slave \<times> nat) option list \<Rightarrow> int list" where
  "ids ls = map (\<lambda>sl. bs_id (fst (the sl))) (filter (\<lambda>sl. sl \<noteq> None) ls)"

text \<open>Ten places, as many slaves as counted, numbered differently and not below 0.\<close>

definition master_ok :: "boot_master \<Rightarrow> bool" where
  "master_ok m \<longleftrightarrow> length (bm_slaves m) = SM_BOOT_SLAVE_MAX_SUPPORT \<and> bm_number m = int (used (bm_slaves m))
     \<and> distinct (ids (bm_slaves m)) \<and> (\<forall>n \<in> set (ids (bm_slaves m)). 0 \<le> n)"

lemma ids_upd:
  "i < length ls \<Longrightarrow> ids (ls[i := x]) = ids (take i ls) @ (case x of None \<Rightarrow> [] | Some (s, k) \<Rightarrow> [bs_id s]) @ ids (drop (Suc i) ls)"
  by (simp add: upd_conv_take_nth_drop ids_def split: option.split)

lemma ids_split:
  "i < length ls \<Longrightarrow> ids ls = ids (take i ls) @ (case ls ! i of None \<Rightarrow> [] | Some (s, k) \<Rightarrow> [bs_id s]) @ ids (drop (Suc i) ls)"
  using ids_upd [of i ls "ls ! i"] by simp

lemma used_upd:
  assumes "i < length ls"
  shows "used (ls[i := x]) + (if ls ! i = None then 0 else 1) = used ls + (if x = None then 0 else 1)"
proof -
  have "used l = length (ids l)" for l by (simp add: used_def ids_def)
  then show ?thesis using arg_cong [OF ids_upd [OF assms, of x], of length] arg_cong [OF ids_split [OF assms], of length]
    by (auto split: option.splits)
qed

lemma find_slot_Some:
  "find_slot P m = Some i \<Longrightarrow> length (bm_slaves m) = SM_BOOT_SLAVE_MAX_SUPPORT \<Longrightarrow> i < length (bm_slaves m) \<and> P (bm_slaves m ! i)"
  unfolding find_slot_def find_Some_iff by auto

lemma find_slot_None:
  "find_slot P m = None \<Longrightarrow> length (bm_slaves m) = SM_BOOT_SLAVE_MAX_SUPPORT \<Longrightarrow> sl \<in> set (bm_slaves m) \<Longrightarrow> \<not> P sl"
  unfolding find_slot_def find_None_iff by (auto simp: in_set_conv_nth)

lemma in_ids: "n \<in> set (ids ls) \<longleftrightarrow> (\<exists>s k. Some (s, k) \<in> set ls \<and> bs_id s = n)"
  by (force simp: ids_def)

lemma create_id: "sm_boot_slave_create now io sid junk w = Inr (Some s, w') \<Longrightarrow> bs_id s = sid \<and> 0 \<le> sid"
  by (cases junk; cases "in_init io w") (auto simp: sm_boot_slave_create_def bind_def split: if_splits sum.splits)

lemma add_ok:
  assumes "master_ok m" "sm_boot_master_add_slave now ifs sid k junk (m, w) = Inr (r, m', w')"
  shows "master_ok m'"
proof -
  have m: "length (bm_slaves m) = SM_BOOT_SLAVE_MAX_SUPPORT" "bm_number m = int (used (bm_slaves m))" "distinct (ids (bm_slaves m))"
      "\<And>n. n \<in> set (ids (bm_slaves m)) \<Longrightarrow> 0 \<le> n" using assms(1) by (simp_all add: master_ok_def)
  show ?thesis
  proof (cases "find_slot (\<lambda>sl. sl \<noteq> None \<and> slot_id sl = sid) m")
    case (Some i)
    note f = find_slot_Some [OF Some m(1)]
    then obtain s k0 where sl: "bm_slaves m ! i = Some (s, k0)" by auto
    obtain s' where u: "sm_boot_slave_update_if k (s, k0) = (s', k)" "bs_id s' = bs_id s"
      by (simp add: sm_boot_slave_update_if_def)
    have m': "m' = m\<lparr>bm_slaves := (bm_slaves m)[i := Some (s', k)]\<rparr>"
      using assms(2) Some sl u(1) by (simp add: sm_boot_master_add_slave_def)
    have "ids (bm_slaves m') = ids (bm_slaves m)" using ids_upd [of i "bm_slaves m" "Some (s', k)"] ids_split [of i "bm_slaves m"] f sl u(2) m' by simp
    moreover have "used (bm_slaves m') = used (bm_slaves m)" using used_upd [of i "bm_slaves m" "Some (s', k)"] f sl m' by simp
    ultimately show ?thesis using assms(1) m' by (simp add: master_ok_def)
  next
    case None
    then have no: "sid \<notin> set (ids (bm_slaves m))" using find_slot_None [OF None m(1)] by (fastforce simp: in_ids slot_id_def)
    obtain sl w1 where c: "sm_boot_slave_create now (ifs k) sid junk w = Inr (sl, w1)"
      using assms(2) None by (cases "sm_boot_slave_create now (ifs k) sid junk w") (auto simp: sm_boot_master_add_slave_def)
    show ?thesis
    proof (cases "sl = None \<or> find_slot (\<lambda>sl. sl = None) m = None")
      case True
      then have "m' = m" using assms(2) None c by (auto simp: sm_boot_master_add_slave_def split: option.splits)
      then show ?thesis using assms(1) by simp
    next
      case False
      then obtain s i where s: "sl = Some s" "find_slot (\<lambda>sl. sl = None) m = Some i" by auto
      note f = find_slot_Some [OF s(2) m(1)]
      have id: "bs_id s = sid" "0 \<le> sid" using create_id [OF c [unfolded s(1)]] by simp_all
      define s2 where "s2 = sm_boot_slave_reg_event SM_BOOT_SLAVE_CONFIRM_ABORT (sm_boot_slave_reg_event SM_BOOT_SLAVE_CONFIRM_FINISH_DOWNLOAD s)"
      have id2: "bs_id s2 = sid" by (simp add: s2_def sm_boot_slave_reg_event_def id(1))
      have m': "m' = m\<lparr>bm_slaves := (bm_slaves m)[i := Some (s2, k)], bm_number := bm_number m + 1\<rparr>"
        using assms(2) None c s by (simp add: sm_boot_master_add_slave_def s2_def)
      have e: "ids (bm_slaves m') = ids (take i (bm_slaves m)) @ [sid] @ ids (drop (Suc i) (bm_slaves m))"
        using ids_upd [of i "bm_slaves m" "Some (s2, k)"] f id2 m' by simp
      have "ids (bm_slaves m) = ids (take i (bm_slaves m)) @ ids (drop (Suc i) (bm_slaves m))"
        using ids_split [of i "bm_slaves m"] f by simp
      then have "distinct (ids (bm_slaves m'))" "\<forall>n \<in> set (ids (bm_slaves m')). 0 \<le> n"
        using m(3,4) no id(2) by (auto simp: e)
      moreover have "used (bm_slaves m') = used (bm_slaves m) + 1" using used_upd [of i "bm_slaves m" "Some (s2, k)"] f m' by simp
      ultimately show ?thesis using m(1,2) m' by (simp add: master_ok_def)
    qed
  qed
qed

lemma remove_ok:
  assumes "master_ok m" "sm_boot_master_remove_slave ifs sid (m, w) = Inr (r, m', w')" "0 \<le> sid"
  shows "master_ok m'"
proof (cases "find_slot (\<lambda>sl. slot_id sl = sid) m")
  case None
  then show ?thesis using assms(1,2) by (simp add: sm_boot_master_remove_slave_def)
next
  case (Some i)
  have m: "length (bm_slaves m) = SM_BOOT_SLAVE_MAX_SUPPORT" "bm_number m = int (used (bm_slaves m))" "distinct (ids (bm_slaves m))"
      "\<forall>n \<in> set (ids (bm_slaves m)). 0 \<le> n" using assms(1) by (simp_all add: master_ok_def)
  note f = find_slot_Some [OF Some m(1)]
  then obtain s k where sl: "bm_slaves m ! i = Some (s, k)" using assms(3) by (cases "bm_slaves m ! i") (auto simp: slot_id_def)
  have m': "m' = m\<lparr>bm_slaves := (bm_slaves m)[i := None], bm_number := bm_number m - 1\<rparr>"
    using assms(2) Some sl by (cases "sm_boot_slave_destroy (ifs k) w") (auto simp: sm_boot_master_remove_slave_def)
  have e: "ids (bm_slaves m') = ids (take i (bm_slaves m)) @ ids (drop (Suc i) (bm_slaves m))"
    using ids_upd [of i "bm_slaves m" None] f m' by simp
  have "ids (bm_slaves m) = ids (take i (bm_slaves m)) @ [bs_id s] @ ids (drop (Suc i) (bm_slaves m))"
    using ids_split [of i "bm_slaves m"] f sl by simp
  then have "distinct (ids (bm_slaves m'))" "\<forall>n \<in> set (ids (bm_slaves m')). 0 \<le> n" using m(3,4) by (auto simp: e)
  moreover have u: "used (bm_slaves m) = used (bm_slaves m') + 1" using used_upd [of i "bm_slaves m" None] f sl m' by simp
  have "bm_number m' = bm_number m - 1" "length (bm_slaves m') = length (bm_slaves m)" using m' by simp_all
  ultimately show ?thesis using m(1,2) unfolding master_ok_def u by simp
qed

section \<open>Runs of the master\<close>

datatype table_call = Call_Add int int nat "boot_slave option" | Call_Remove int | Call_Process int fw_signature

fun table_exec :: "(nat \<Rightarrow> 'w boot_if) \<Rightarrow> table_call \<Rightarrow> boot_master \<times> 'w \<Rightarrow> (boot_master \<times> 'w, master_note) result" where
  "table_exec ifs (Call_Add now sid k junk) mw = map_sum id (\<lambda>(_, m, w). ((m, w), [])) (sm_boot_master_add_slave now ifs sid k junk mw)"
| "table_exec ifs (Call_Remove sid) mw = map_sum id (\<lambda>(_, m, w). ((m, w), [])) (sm_boot_master_remove_slave ifs sid mw)"
| "table_exec ifs (Call_Process now sig0) mw = sm_boot_master_process now sig0 ifs mw"

lemma on_note_ok:
  assumes "master_ok (fst mw)" "0 \<le> sid"
  shows "ends_in (\<lambda>mw. master_ok (fst mw)) (on_note ifs sid n mw)"
proof (cases "sm_boot_master_remove_slave ifs sid mw")
  case (Inr p)
  then obtain r m' w' where p: "sm_boot_master_remove_slave ifs sid (fst mw, snd mw) = Inr (r, m', w')" by (cases p) simp
  then show ?thesis using remove_ok [OF assms(1) p assms(2)] by (simp add: on_note_def)
qed (simp add: on_note_def)

lemma slot_step_ok:
  assumes "master_ok m" "i < SM_BOOT_SLAVE_MAX_SUPPORT"
  shows "ends_in (\<lambda>mw. master_ok (fst mw)) (slot_step now sig0 ifs i (m, w))"
proof (cases "bm_slaves m ! i")
  case (Some sl)
  obtain s k where sl: "bm_slaves m ! i = Some (s, k)" using Some by (cases sl) simp
  have len: "i < length (bm_slaves m)" using assms by (simp add: master_ok_def)
  show ?thesis
  proof (cases "sm_boot_slave_process now sig0 (ifs k) (s, w)")
    case (Inr p)
    then obtain s' w' ns where p: "sm_boot_slave_process now sig0 (ifs k) (s, w) = Inr ((s', w'), ns)" by (metis prod_cases3 prod.collapse)
    have id: "bs_id s' = bs_id s" by (rule process_id [OF p])
    let ?m = "m\<lparr>bm_slaves := (bm_slaves m)[i := Some (s', k)]\<rparr>"
    have "ids (bm_slaves ?m) = ids (bm_slaves m)" using ids_upd [OF len, of "Some (s', k)"] ids_split [OF len] sl id by simp
    moreover have "used (bm_slaves ?m) = used (bm_slaves m)" using used_upd [OF len, of "Some (s', k)"] sl by simp
    ultimately have ok: "master_ok ?m" using assms(1) by (simp add: master_ok_def)
    have "bs_id s \<in> set (ids (bm_slaves m))" using ids_split [OF len] sl by simp
    then have "0 \<le> bs_id s'" using assms(1) id by (simp add: master_ok_def)
    then have "ends_in (\<lambda>mw. master_ok (fst mw)) (run_all (on_note ifs (bs_id s')) ns (?m, w'))"
      by (intro ends_in_run_all on_note_ok) (simp_all add: ok)
    then show ?thesis using sl p by (simp add: slot_step_def)
  qed (use sl in \<open>simp add: slot_step_def\<close>)
qed (use assms(1) in \<open>simp add: slot_step_def\<close>)

lemma table_exec_ok:
  assumes "master_ok (fst mw)" "\<And>sid. c = Call_Remove sid \<Longrightarrow> 0 \<le> sid"
  shows "ends_in (\<lambda>mw. master_ok (fst mw)) (table_exec ifs c mw)"
proof (cases c)
  case (Call_Add now sid k junk)
  then show ?thesis using add_ok [OF assms(1), of now ifs sid k junk "snd mw"]
    by (cases "sm_boot_master_add_slave now ifs sid k junk mw") auto
next
  case (Call_Remove sid)
  then show ?thesis using remove_ok [OF assms(1), of ifs sid "snd mw"] assms(2)
    by (cases "sm_boot_master_remove_slave ifs sid mw") auto
next
  case (Call_Process now sig0)
  have "ends_in (\<lambda>mw. master_ok (fst mw)) (run_all (slot_step now sig0 ifs) [0..<SM_BOOT_SLAVE_MAX_SUPPORT] mw)"
  proof (rule ends_in_run_all [where P = "\<lambda>mw. master_ok (fst mw)"], rule assms(1))
    fix i and mw :: "boot_master \<times> 'a"
    assume "i \<in> set [0..<SM_BOOT_SLAVE_MAX_SUPPORT]" "master_ok (fst mw)"
    then show "ends_in (\<lambda>mw. master_ok (fst mw)) (slot_step now sig0 ifs i mw)" using slot_step_ok [of "fst mw" i now sig0 ifs "snd mw"] by simp
  qed
  then show ?thesis using Call_Process assms(1) by (cases mw) (simp add: sm_boot_master_process_def)
qed

lemma master_created_ok: "master_ok (sm_boot_master_create cb)"
  by (simp add: master_ok_def sm_boot_master_create_def used_def ids_def)

lemma same_slot:
  assumes "master_ok m" "i < 10" "j < 10" "bm_slaves m ! i \<noteq> None" "slot_id (bm_slaves m ! i) = slot_id (bm_slaves m ! j)"
  shows "i = j"
proof -
  have len: "length (bm_slaves m) = 10" "distinct (ids (bm_slaves m))" "\<forall>n \<in> set (ids (bm_slaves m)). 0 \<le> n"
    using assms(1) by (simp_all add: master_ok_def SM_BOOT_SLAVE_MAX_SUPPORT_def)
  obtain s k where si: "bm_slaves m ! i = Some (s, k)" using assms(4) by auto
  have "0 \<le> bs_id s" using len(1,3) si assms(2) nth_mem [of i "bm_slaves m"] by (force simp: in_ids)
  then obtain s' k' where sj: "bm_slaves m ! j = Some (s', k')" "bs_id s' = bs_id s"
    using assms(5) si by (cases "bm_slaves m ! j") (auto simp: slot_id_def)
  have False if "i < j" "j < length ls" "distinct (ids ls)" "ls ! i = Some (s, k)" "ls ! j = Some (s', k')" "bs_id s' = bs_id s" for i j s k s' k' ls
  proof -
    have "j - Suc i < length (drop (Suc i) ls)" "drop (Suc i) ls ! (j - Suc i) = ls ! j" using that(1,2) by auto
    then have "Some (s', k') \<in> set (drop (Suc i) ls)" using that(5) by (metis nth_mem)
    then have "bs_id s' \<in> set (ids (drop (Suc i) ls))" by (auto simp: in_ids)
    then show False using that(3,4,6) ids_split [of i ls] that(1,2) by simp
  qed
  from this [of i j "bm_slaves m" s k s' k'] this [of j i "bm_slaves m" s' k' s k] show ?thesis
    using len si sj assms(2,3) by (metis linorder_neqE_nat)
qed

text \<open>C16.
  Whatever is called, slaves added, removed and processed, with callbacks that remove a slave while the table is walked through:
  the number of upgrades under way is the number of places in use, and no two slaves have the same number, as long as no negative
  number is removed.\<close>

theorem boot_table_is_consistent:
  assumes "run_all (table_exec ifs) cs (sm_boot_master_create cb, w) = Inr ((m, w'), out)" "\<And>sid. Call_Remove sid \<in> set cs \<Longrightarrow> 0 \<le> sid"
  shows "length (bm_slaves m) = 10 \<and> bm_number m = int (length (filter (\<lambda>sl. sl \<noteq> None) (bm_slaves m)))
    \<and> (\<forall>i < 10. \<forall>j < 10. bm_slaves m ! i \<noteq> None \<and> slot_id (bm_slaves m ! i) = slot_id (bm_slaves m ! j) \<longrightarrow> i = j)"
proof -
  have "ends_in (\<lambda>mw. master_ok (fst mw)) (run_all (table_exec ifs) cs (sm_boot_master_create cb, w))"
  proof (rule ends_in_run_all [where P = "\<lambda>mw. master_ok (fst mw)"])
    fix c and mw :: "boot_master \<times> 'a"
    assume "c \<in> set cs" "master_ok (fst mw)"
    then show "ends_in (\<lambda>mw. master_ok (fst mw)) (table_exec ifs c mw)" using assms(2) by (intro table_exec_ok) auto
  qed (simp add: master_created_ok)
  then have ok: "master_ok m" using assms(1) by simp
  have "i = j" if "i < 10" "j < 10" "bm_slaves m ! i \<noteq> None" "slot_id (bm_slaves m ! i) = slot_id (bm_slaves m ! j)" for i j
    by (rule same_slot [OF ok that])
  then show ?thesis using ok by (auto simp: master_ok_def SM_BOOT_SLAVE_MAX_SUPPORT_def used_def)
qed

section \<open>Failures\<close>

text \<open>
  An eleventh upgrade is answered like an accepted one, but is never run: the slave is created, its input and output are
  initialised, and the table stays as it was.\<close>

theorem full_table_loses_the_slave:
  assumes "master_ok m" "bm_number m = 10" "\<forall>i < 10. slot_id (bm_slaves m ! i) \<noteq> sid"
    and "sm_boot_slave_create now (ifs k) sid junk w = Inr (Some s, w')"
  shows "sm_boot_master_add_slave now ifs sid k junk (m, w) = Inr (0, m, w')"
proof -
  have m: "length (bm_slaves m) = 10" "used (bm_slaves m) = 10"
    using assms(1,2) by (simp_all add: master_ok_def SM_BOOT_SLAVE_MAX_SUPPORT_def)
  then have all: "sl \<noteq> None" if "sl \<in> set (bm_slaves m)" for sl
    using length_filter_less [OF that, of "\<lambda>sl. sl \<noteq> None"] by (auto simp: used_def)
  have "find_slot (\<lambda>sl. sl = None) m = None" "find_slot (\<lambda>sl. sl \<noteq> None \<and> slot_id sl = sid) m = None"
    unfolding find_slot_def find_None_iff using all assms(3) m(1) by (auto simp: SM_BOOT_SLAVE_MAX_SUPPORT_def)
  then show ?thesis using assms(4) by (simp add: sm_boot_master_add_slave_def)
qed

text \<open>A device that does not answer: the output takes requests and raises nothing.\<close>

definition never_answers :: "('w \<Rightarrow> 'w) \<Rightarrow> 'w boot_if \<Rightarrow> bool" where
  "never_answers f io \<longleftrightarrow> in_process io = None \<and> out_process io = None \<and> (\<forall>n w. out_request io n w = Inr ([], f w))"

lemma silent_poll: "never_answers f io \<Longrightarrow> slave_poll now io (s, w) = Inr (s, w)"
  by (simp add: never_answers_def slave_poll_def)

lemma aborted_run:
  assumes "never_answers f io" "bs_state s = SM_BOOT_SLAVE_STATE_ABORT" "bs_abort_cb s"
  shows "\<exists>out. slave_run sig0 io ts (s, w) = Inr ((s, w), out) \<and> (ts \<noteq> [] \<longrightarrow> Download_Aborted \<in> set out)"
proof (induction ts)
  case (Cons t ts)
  have "sm_boot_slave_process t sig0 io (s, w) = Inr ((s, w), [Download_Aborted])"
    using assms(2,3) by (simp add: sm_boot_slave_process_def silent_poll [OF assms(1)] slave_switch_def)
  then show ?case using Cons.IH by (auto simp: slave_run_Cons)
qed simp

text \<open>\<open>k\<close> requests have been sent, the last one at \<open>tk\<close>.\<close>

lemma requests_run:
  assumes "never_answers f io" "0 \<le> d"
  shows "bs_state s = SM_BOOT_SLAVE_STATE_REQUEST_UPGRADE \<Longrightarrow> bs_abort_cb s \<Longrightarrow> bs_repeat s = of_nat k \<Longrightarrow> 1 \<le> k \<Longrightarrow> k < 5 \<Longrightarrow>
    bs_timeout s = \<lparr>m_duration = 2500, m_start_time = tk\<rparr> \<Longrightarrow> t < tk + 2500 \<Longrightarrow> steady d t ts \<Longrightarrow>
    tk + int (5 - k) * (2500 + d) \<le> last (t # ts) \<Longrightarrow>
    \<exists>s' out. slave_run sig0 io ts (s, w) = Inr ((s', (f ^^ (5 - k)) w), out) \<and> Download_Aborted \<in> set out"
proof (induction ts arbitrary: t s k tk w)
  case Nil
  have "1 * (2500 + d) \<le> int (5 - k) * (2500 + d)" using Nil.prems(5) assms(2) by (intro mult_right_mono) simp_all
  moreover have "tk + int (5 - k) * (2500 + d) \<le> t" using Nil.prems(9) by (simp only: last.simps refl if_True)
  ultimately have "tk + 1 * (2500 + d) \<le> t" by (rule order_trans [OF add_left_mono])
  then have False using Nil.prems(7) assms(2) by simp
  then show ?case ..
next
  case (Cons u us)
  have u: "t \<le> u" "u \<le> t + d" "steady d u us" "last (t # u # us) = last (u # us)" using Cons.prems(8) by simp_all
  have poll: "sm_boot_slave_process u sig0 io (s, w) = map_sum id (\<lambda>sw. (sw, [])) (request_step u io (s, w))"
    using Cons.prems(1) by (simp add: sm_boot_slave_process_def silent_poll [OF assms(1)] slave_switch_def)
  show ?case
  proof (cases "u < tk + 2500")
    case True
    then have "sm_boot_slave_process u sig0 io (s, w) = Inr ((s, w), [])"
      using Cons.prems(6) by (simp add: poll request_step_def timed_out_iff)
    then show ?thesis using Cons.IH [OF Cons.prems(1-6) True u(3)] Cons.prems(9) u(4) by (simp add: slave_run_step)
  next
    case False
    have n: "unat (bs_repeat s + 1) = k + 1" using Cons.prems(3,5) by (simp add: unat_word_ariths unat_of_nat)
    then have max: "SM_BOOT_SLAVE_REPEAT_MAX \<le> bs_repeat s + 1 \<longleftrightarrow> k = 4"
      using Cons.prems(5) by (auto simp: SM_BOOT_SLAVE_REPEAT_MAX_def word_le_nat_alt)
    let ?s = "s\<lparr>bs_repeat := bs_repeat s + 1, bs_state := (if k = 4 then SM_BOOT_SLAVE_STATE_ABORT else bs_state s),
        bs_timeout := \<lparr>m_duration = 2500, m_start_time = u\<rparr>\<rparr>"
    have st: "sm_boot_slave_process u sig0 io (s, w) = Inr ((?s, f w), [])"
      using Cons.prems(6) False assms(1) max
      by (simp add: poll request_step_def timed_out_iff never_answers_def Let_def SM_BOOT_SLAVE_REQUEST_UPGRADE_PERIOD_def elapsed_timer_resetz_def)
    have le: "u + int (4 - k) * (2500 + d) \<le> last (u # us)"
    proof -
      have "int (5 - k) * (2500 + d) = (2500 + d) + int (4 - k) * (2500 + d)" using Cons.prems(5) by (simp add: of_nat_diff algebra_simps)
      then show ?thesis using Cons.prems(7,9) u(2,4) by linarith
    qed
    show ?thesis
    proof (cases "k = 4")
      case True
      then have "us \<noteq> []" using Cons.prems(7,9) u(2) assms(2) by auto
      moreover have "bs_state ?s = SM_BOOT_SLAVE_STATE_ABORT" "bs_abort_cb ?s" using True Cons.prems(2) by simp_all
      ultimately obtain out where "slave_run sig0 io us (?s, f w) = Inr ((?s, f w), out)" "Download_Aborted \<in> set out"
        using aborted_run [OF assms(1), of ?s sig0 us "f w"] by blast
      then show ?thesis using st True by (simp add: slave_run_step)
    next
      case False
      then have k: "1 \<le> k + 1" "k + 1 < 5" "5 - k = Suc (4 - k)" using Cons.prems(5) by simp_all
      have "bs_repeat ?s = of_nat (k + 1)" using Cons.prems(3) by (simp add: add.commute)
      from Cons.IH [of ?s "k + 1" u u "f w"] this k(1,2) Cons.prems(1,2) False u(3) le
      have "\<exists>s' out. slave_run sig0 io us (?s, f w) = Inr ((s', (f ^^ (4 - k)) (f w)), out) \<and> Download_Aborted \<in> set out" by simp
      then show ?thesis using st k(3) by (simp add: slave_run_step funpow_swap1)
    qed
  qed
qed

text \<open>C15.
  An upgrade of a device that never answers ends: after exactly five requests, in at most ten seconds and six times the
  period at which the slave is processed, the slave reports that it has aborted.\<close>

theorem silent_device_is_given_up:
  assumes "never_answers f io" "0 \<le> d" "bs_state s = SM_BOOT_SLAVE_STATE_IDLE" "bs_abort_cb s" "bs_repeat s = 0" "timed_out t (bs_timeout s)"
    and "steady d t ts" "t + 10000 + 6 * d \<le> last (t # ts)" "3 \<le> length ts"
  shows "\<exists>s' out. slave_run sig0 io ts (s, w) = Inr ((s', (f ^^ 5) w), out) \<and> Download_Aborted \<in> set out"
proof -
  obtain ta tb us where ts: "ts = ta # tb # us" "us \<noteq> []" using assms(9) by (cases ts; cases "tl ts"; cases "tl (tl ts)") auto
  have times: "t \<le> ta" "ta \<le> t + d" "ta \<le> tb" "tb \<le> ta + d" "steady d tb us" "last (t # ts) = last (tb # us)"
    using assms(7) by (simp_all add: ts)
  let ?sa = "s\<lparr>bs_state := SM_BOOT_SLAVE_STATE_REQUEST_UPGRADE\<rparr>"
  have a: "sm_boot_slave_process ta sig0 io (s, w) = Inr ((?sa, w), [])"
    using assms(3) by (simp add: sm_boot_slave_process_def silent_poll [OF assms(1)] slave_switch_def)
  let ?sb = "?sa\<lparr>bs_repeat := 1, bs_timeout := \<lparr>m_duration = 2500, m_start_time = tb\<rparr>\<rparr>"
  have over: "timed_out tb (bs_timeout s)" using assms(6) timed_out_mono [of t "bs_timeout s" tb] times(1,3) by simp
  have "\<not> SM_BOOT_SLAVE_REPEAT_MAX \<le> 1" by (simp add: SM_BOOT_SLAVE_REPEAT_MAX_def word_le_nat_alt)
  then have b: "sm_boot_slave_process tb sig0 io (?sa, w) = Inr ((?sb, f w), [])"
    using over assms(1,5)
    by (simp add: sm_boot_slave_process_def silent_poll [OF assms(1)] slave_switch_def request_step_def never_answers_def Let_def
        SM_BOOT_SLAVE_REQUEST_UPGRADE_PERIOD_def elapsed_timer_resetz_def)
  have "tb + int (5 - 1) * (2500 + d) \<le> last (tb # us)" using assms(8) times by simp
  from requests_run [OF assms(1,2), of ?sb 1 tb tb us sig0 "f w"] this assms(4) times(5)
  have "\<exists>s' out. slave_run sig0 io us (?sb, f w) = Inr ((s', (f ^^ (5 - 1)) (f w)), out) \<and> Download_Aborted \<in> set out" by simp
  moreover have "(f ^^ (5 - 1)) (f w) = (f ^^ 5) w" by (simp add: funpow_swap1 eval_nat_numeral)
  ultimately show ?thesis using a b by (simp add: ts slave_run_step)
qed

section \<open>Instances\<close>

text \<open>An output that counts the requests it is given and never answers.\<close>

definition deaf_if :: "nat boot_if" where
  "deaf_if = \<lparr>in_init = Inr, in_free = Inr, in_info = \<lambda>w fw. Inr (None, w), in_seg = \<lambda>seg w. Inr (0, seg, w), in_completed = None,
     in_process = None, out_init = Inr, out_free = Inr, out_request = \<lambda>n w. Inr ([], Suc w), out_set_info = \<lambda>sig w. Inr ([], w),
     out_set_seg = \<lambda>seg w. Inr (0, [], w), out_process = None, out_events = \<lambda>_ _. None, out_set_events = \<lambda>_ w. w\<rparr>"

definition blank_slave :: boot_slave where
  "blank_slave = \<lparr>bs_id = 0, bs_segment = sm_seg_create, bs_waiting = False,
     bs_sig = \<lparr>fw_version = [0, 0, 0], fw_addr = 0, fw_size = 0, fw_crc = 0, fw_offset = 0, fw_valid = 0\<rparr>,
     bs_state = SM_BOOT_SLAVE_STATE_IDLE, bs_timeout = \<lparr>m_duration = 0, m_start_time = 0\<rparr>, bs_repeat = 0, bs_finish_cb = False,
     bs_abort_cb = False, bs_regs = create_regs (\<lambda>_. None)\<rparr>"

lemma created_blank: "0 \<le> sid \<Longrightarrow> sm_boot_slave_create 0 deaf_if sid (Some blank_slave) w = Inr (Some (blank_slave\<lparr>bs_id := sid\<rparr>), w)"
  by (simp add: sm_boot_slave_create_def deaf_if_def blank_slave_def elapsed_timer_resetz_def)

lemma silent_device_is_given_up_witness:
  "\<exists>s' out. slave_run (bs_sig blank_slave) deaf_if [0, 0, 2500, 5000, 7500, 10000, 12500, 15000, 17500, 20000, 22500, 25000]
     (blank_slave\<lparr>bs_abort_cb := True\<rparr>, 0) = Inr ((s', 5), out) \<and> Download_Aborted \<in> set out"
proof -
  have "\<exists>s' out. slave_run (bs_sig blank_slave) deaf_if [0, 0, 2500, 5000, 7500, 10000, 12500, 15000, 17500, 20000, 22500, 25000]
     (blank_slave\<lparr>bs_abort_cb := True\<rparr>, 0) = Inr ((s', (Suc ^^ 5) 0), out) \<and> Download_Aborted \<in> set out"
    by (rule silent_device_is_given_up [where d = 2500 and t = 0]) (simp_all add: never_answers_def deaf_if_def blank_slave_def timed_out_iff)
  then show ?thesis by (simp add: eval_nat_numeral)
qed

text \<open>A table of ten slaves, numbered from 0.\<close>

definition full_table :: boot_master where
  "full_table = \<lparr>bm_number = 10, bm_slaves = map (\<lambda>i. Some (blank_slave\<lparr>bs_id := int i\<rparr>, 0)) [0..<10], bm_cb = True\<rparr>"

lemma full_table_ok: "master_ok full_table"
  by (simp add: master_ok_def full_table_def used_def ids_def SM_BOOT_SLAVE_MAX_SUPPORT_def o_def distinct_map inj_on_def)

lemma full_table_loses_the_slave_witness:
  "sm_boot_master_add_slave 0 (\<lambda>_. deaf_if) 10 0 (Some blank_slave) (full_table, 0) = Inr (0, full_table, 0)"
proof (rule full_table_loses_the_slave [OF full_table_ok])
  show "\<forall>i<10. slot_id (bm_slaves full_table ! i) \<noteq> 10" by (simp add: full_table_def slot_id_def del: upt.simps)
  show "sm_boot_slave_create 0 deaf_if 10 (Some blank_slave) 0 = Inr (Some (blank_slave\<lparr>bs_id := 10\<rparr>), 0)" by (rule created_blank) simp
qed (simp add: full_table_def)

lemma boot_table_is_consistent_witness:
  "\<exists>m w' out. run_all (table_exec (\<lambda>_. deaf_if)) [Call_Add 0 4 0 (Some blank_slave), Call_Process 0 (bs_sig blank_slave), Call_Remove 4]
      (sm_boot_master_create True, 0) = Inr ((m, w'), out) \<and> length (bm_slaves m) = 10 \<and> bm_number m = 0"
proof -
  let ?cs = "[Call_Add 0 4 0 (Some blank_slave), Call_Process 0 (bs_sig blank_slave), Call_Remove 4]"
  let ?s = "blank_slave\<lparr>bs_id := 4, bs_finish_cb := True, bs_abort_cb := True\<rparr>"
  let ?m = "\<lambda>s. \<lparr>bm_number = 1, bm_slaves = Some (s, 0) # replicate 9 None, bm_cb = True\<rparr>"
  have ten: "[0..<SM_BOOT_SLAVE_MAX_SUPPORT] = [0, 1, 2, 3, 4, 5, 6, 7, 8, 9]" by (simp add: SM_BOOT_SLAVE_MAX_SUPPORT_def upt_rec)
  have nine: "replicate 9 None = [None, None, None, None, None, None, None, None, None]" by (simp add: eval_nat_numeral)
  have add: "sm_boot_master_add_slave 0 (\<lambda>_. deaf_if) 4 0 (Some blank_slave) (sm_boot_master_create True, 0) = Inr (0, ?m ?s, 0)"
    by (simp add: sm_boot_master_add_slave_def created_blank find_slot_def ten sm_boot_master_create_def SM_BOOT_SLAVE_MAX_SUPPORT_def
        sm_boot_slave_reg_event_def eval_nat_numeral)
  let ?t = "?s\<lparr>bs_state := SM_BOOT_SLAVE_STATE_REQUEST_UPGRADE\<rparr>"
  have p: "sm_boot_slave_process 0 (bs_sig blank_slave) deaf_if (?s, 0) = Inr ((?t, 0), [])"
    by (simp add: sm_boot_slave_process_def slave_poll_def slave_switch_def deaf_if_def blank_slave_def)
  have process: "sm_boot_master_process 0 (bs_sig blank_slave) (\<lambda>_. deaf_if) (?m ?s, 0) = Inr ((?m ?t, 0), [])"
    by (simp add: sm_boot_master_process_def slot_step_def p ten nine)
  have remove: "sm_boot_master_remove_slave (\<lambda>_. deaf_if) 4 (?m ?t, 0) = Inr (0, \<lparr>bm_number = 0, bm_slaves = replicate 10 None, bm_cb = True\<rparr>, 0)"
    by (simp add: sm_boot_master_remove_slave_def find_slot_def ten slot_id_def sm_boot_slave_destroy_def deaf_if_def eval_nat_numeral)
  have "\<exists>m. run_all (table_exec (\<lambda>_. deaf_if)) ?cs (sm_boot_master_create True, 0) = Inr ((m, 0), []) \<and> bm_slaves m = replicate 10 None"
    by (simp add: add process remove)
  then obtain m where m: "run_all (table_exec (\<lambda>_. deaf_if)) ?cs (sm_boot_master_create True, 0) = Inr ((m, 0), [])" "bm_slaves m = replicate 10 None"
    by blast
  have "length (bm_slaves m) = 10 \<and> bm_number m = int (length (filter (\<lambda>sl. sl \<noteq> None) (bm_slaves m)))"
    using boot_table_is_consistent [OF m(1)] by simp
  then show ?thesis using m by simp
qed

end
