(* ===== verification/Upgrading.thy ===== *)
theory Upgrading
  imports Vector Boot_Table
begin

text \<open>
  \<^verbatim>\<open>services/ev_upgrade/sv_upgrading/sm_sv_upgrading.c\<close>: the queue of devices to be upgraded. A device waits until its condition
  holds, is rebooted, and is then a slave of a boot master of its own, one device at a time.

  \<open>'w\<close> is the state of the two sides of an upgrade and of the application. The interface of a device is a record of functions
  on it, as are inputs and outputs; they do not call the service. The callbacks of the application are notes, in order; those
  that the code does not test are \<open>us_on_rebooted\<close>. A pointer to a device is its slot in the vector, and \<open>junk\<close> the memory of
  the slave that is created. A request always has an interface.
\<close>

section \<open>State\<close>

definition SM_SV_BOOT_MAX_DEV_SUPPORT :: nat where "SM_SV_BOOT_MAX_DEV_SUPPORT = 64"
definition SM_SV_BOOT_WAITING_ONLINE_TIMEOUT :: int where "SM_SV_BOOT_WAITING_ONLINE_TIMEOUT = 45000"
definition SM_SV_BOOT_REBOOT_DEV_TIMEOUT :: int where "SM_SV_BOOT_REBOOT_DEV_TIMEOUT = 10000"

datatype SM_SV_BOOT_MASTER_INPUT_TYPE = SM_SV_BOOT_MASTER_INPUT_NONE | SM_SV_BOOT_MASTER_INPUT_FILE
  | SM_SV_BOOT_MASTER_INPUT_FLASH | SM_SV_BOOT_MASTER_INPUT_TYPE_NUMBER

datatype SM_SV_BOOT_MASTER_OUTPUT_TYPE = SM_SV_BOOT_MASTER_OUTPUT_NONE | SM_SV_BOOT_MASTER_OUTPUT_CANOPEN
  | SM_SV_BOOT_MASTER_OUTPUT_FLASH | SM_SV_BOOT_MASTER_OUTPUT_TYPE_NUMBER

definition SM_SV_BOOT_MASTER_ERR_NONE :: int where "SM_SV_BOOT_MASTER_ERR_NONE = 0"
definition SM_SV_BOOT_MASTER_ERR_INTERNAL :: int where "SM_SV_BOOT_MASTER_ERR_INTERNAL = -1"
definition SM_SV_BOOT_MASTER_ERR_TIMEOUT :: int where "SM_SV_BOOT_MASTER_ERR_TIMEOUT = -2"
definition SM_SV_BOOT_MASTER_ERR_REBOOT :: int where "SM_SV_BOOT_MASTER_ERR_REBOOT = -3"
definition SM_SV_BOOT_MASTER_ERR_DOWNLOAD :: int where "SM_SV_BOOT_MASTER_ERR_DOWNLOAD = -4"
definition SM_SV_BOOT_MASTER_ERR_NOT_SUPPORT :: int where "SM_SV_BOOT_MASTER_ERR_NOT_SUPPORT = -5"

datatype UPGRADING_DEVICE_STATE = UPGRADING_DEV_WAITING_ONLINE | UPGRADING_DEV_WAITING_REBOOT | UPGRADING_DEV_UPGRADING

record 'w dev_if =
  di_reboot :: "(u8 \<Rightarrow> int \<Rightarrow> 'w \<Rightarrow> fault + (int \<times> 'w)) option"
  di_rebooted :: "(u8 \<Rightarrow> 'w \<Rightarrow> bool) option"
  di_condition :: "u8 \<Rightarrow> 'w \<Rightarrow> bool"

record 'w upgrade_request =
  ur_boot_id :: u8
  ur_network_id :: u8
  ur_if :: "'w dev_if"
  ur_input_type :: SM_SV_BOOT_MASTER_INPUT_TYPE
  ur_output_type :: SM_SV_BOOT_MASTER_OUTPUT_TYPE
  ur_flash_in :: "nat option"
  ur_flash_out :: "nat option"
  ur_storage :: "nat option"

record 'w upgrade_dev =
  ud_info :: "'w upgrade_request"
  ud_timeout :: elapsed_timer
  ud_state :: UPGRADING_DEVICE_STATE

record 'w upgrade_sv =
  us_devs :: "'w upgrade_dev sm_vector"
  us_current :: "nat option"
  us_master :: boot_master
  us_on_rebooted :: bool
  us_on_upgraded :: bool
  us_on_finish :: bool

text \<open>The result of an upgrade is an \<^verbatim>\<open>int\<close> that the callback takes as a \<^verbatim>\<open>uint8_t\<close>.\<close>

datatype upgrade_note = On_Rebooted u8 bool | On_Upgraded u8 u8 | On_Finish

text \<open>
  What the service takes from the inputs and outputs: the source over a partition (null without one), the two outputs, and the
  functions of the pairs of an input and an output, which are numbered 0 for CANopen and 1 for flash.
\<close>

record 'w upgrade_env =
  ue_ifs :: "nat \<Rightarrow> 'w boot_if"
  ue_flash_input :: "nat option \<Rightarrow> 'w \<Rightarrow> bool \<times> 'w"
  ue_co_output :: "'w \<Rightarrow> bool \<times> 'w"
  ue_flash_output :: "nat option \<Rightarrow> nat option \<Rightarrow> 'w \<Rightarrow> bool \<times> 'w"

section \<open>Operations\<close>

definition sm_sv_boot_master_create :: "bool \<Rightarrow> bool \<Rightarrow> bool \<Rightarrow> 'w upgrade_dev list option \<Rightarrow> 'w upgrade_sv option" where
  "sm_sv_boot_master_create cr cu cf mem =
     map_option (\<lambda>v. \<lparr>us_devs = v, us_current = None, us_master = sm_boot_master_create True, us_on_rebooted = cr,
       us_on_upgraded = cu, us_on_finish = cf\<rparr>) (sm_vector_create SM_SV_BOOT_MAX_DEV_SUPPORT mem)"

definition new_dev :: "int \<Rightarrow> 'w upgrade_request \<Rightarrow> 'w upgrade_dev" where
  "new_dev now info = \<lparr>ud_info = info, ud_timeout = \<lparr>m_duration = SM_SV_BOOT_WAITING_ONLINE_TIMEOUT, m_start_time = now\<rparr>,
     ud_state = UPGRADING_DEV_WAITING_ONLINE\<rparr>"

definition sm_sv_boot_master_request_upgrade :: "int \<Rightarrow> 'w upgrade_request \<Rightarrow> 'w upgrade_sv \<Rightarrow> int \<times> 'w upgrade_sv" where
  "sm_sv_boot_master_request_upgrade now info sv =
     (if sm_vector_is_full (us_devs sv) then (-1, sv)
      else let (r, v) = sm_vector_push_back (new_dev now info) (us_devs sv) in
        if r < 0 then (-1, sv) else (0, sv\<lparr>us_devs := v\<rparr>))"

text \<open>The device in a slot, and an assignment through a pointer to it.\<close>

definition dev_at :: "nat \<Rightarrow> 'w upgrade_sv \<Rightarrow> 'w upgrade_dev" where
  "dev_at i sv = v_memory (us_devs sv) ! i"

definition put_dev :: "nat \<Rightarrow> 'w upgrade_dev \<Rightarrow> 'w upgrade_sv \<Rightarrow> 'w upgrade_sv" where
  "put_dev i d sv = sv\<lparr>us_devs := (us_devs sv)\<lparr>v_memory := (v_memory (us_devs sv))[i := d]\<rparr>\<rparr>"

definition wait_again :: "int \<Rightarrow> 'w upgrade_dev \<Rightarrow> 'w upgrade_dev" where
  "wait_again now d = d\<lparr>ud_timeout := elapsed_timer_resetz now SM_SV_BOOT_WAITING_ONLINE_TIMEOUT (ud_timeout d),
     ud_state := UPGRADING_DEV_WAITING_ONLINE\<rparr>"

definition map_vec :: "('a \<Rightarrow> 'a) \<Rightarrow> 'a sm_vector \<Rightarrow> 'a sm_vector" where
  "map_vec f v = v\<lparr>v_memory := overwrite (map f (take (v_count v) (v_memory v))) (v_memory v)\<rparr>"

definition notify_upgraded :: "'w upgrade_sv \<Rightarrow> 'w upgrade_dev \<Rightarrow> int \<Rightarrow> upgrade_note list" where
  "notify_upgraded sv d err = (if us_on_upgraded sv then [On_Upgraded (ur_network_id (ud_info d)) (of_int err)] else [])"

definition notify_finish :: "'w upgrade_sv \<Rightarrow> upgrade_note list" where
  "notify_finish sv = (if us_on_finish sv then [On_Finish] else [])"

definition notify_rebooted :: "'w upgrade_sv \<Rightarrow> 'w upgrade_dev \<Rightarrow> bool \<Rightarrow> fault + upgrade_note list" where
  "notify_rebooted sv d b = (if us_on_rebooted sv then Inr [On_Rebooted (ur_network_id (ud_info d)) b] else Inl Null_Deref)"

definition sm_sv_boot_reset_upgrading_dev :: "int \<Rightarrow> int \<Rightarrow> 'w upgrade_sv \<Rightarrow> 'w upgrade_sv \<times> upgrade_note list" where
  "sm_sv_boot_reset_upgrading_dev now err sv =
     (case us_current sv of None \<Rightarrow> (sv, [])
      | Some i \<Rightarrow>
          let ns = notify_upgraded sv (dev_at i sv) err;
              v = snd (sm_vector_erase_item (int i) (us_devs sv))
          in if sm_vector_get_size v = 0 then (sv\<lparr>us_devs := v, us_current := None\<rparr>, ns @ notify_finish sv)
             else (sv\<lparr>us_devs := map_vec (wait_again now) v, us_current := None\<rparr>, ns))"

definition boot_master_event_callback :: "int \<Rightarrow> master_note \<Rightarrow> 'w upgrade_sv \<Rightarrow> fault + ('w upgrade_sv \<times> upgrade_note list)" where
  "boot_master_event_callback now = (\<lambda>(err, sid) sv.
     if err = 0 then Inr (sm_sv_boot_reset_upgrading_dev now SM_SV_BOOT_MASTER_ERR_NONE sv)
     else if us_current sv = None then Inl Null_Deref
     else Inr (sm_sv_boot_reset_upgrading_dev now SM_SV_BOOT_MASTER_ERR_DOWNLOAD sv))"

text \<open>The input and the output of a request; the first component is false for the types that are not supported.\<close>

definition boot_input :: "'w upgrade_env \<Rightarrow> 'w upgrade_request \<Rightarrow> 'w \<Rightarrow> bool \<times> bool \<times> 'w" where
  "boot_input env info w =
     (case ur_input_type info of
        SM_SV_BOOT_MASTER_INPUT_FLASH \<Rightarrow> (True, ue_flash_input env (ur_flash_in info) w)
      | _ \<Rightarrow> (False, False, w))"

definition boot_output :: "'w upgrade_env \<Rightarrow> 'w upgrade_request \<Rightarrow> 'w \<Rightarrow> bool \<times> nat \<times> bool \<times> 'w" where
  "boot_output env info w =
     (case ur_output_type info of
        SM_SV_BOOT_MASTER_OUTPUT_CANOPEN \<Rightarrow> (True, 0, ue_co_output env w)
      | SM_SV_BOOT_MASTER_OUTPUT_FLASH \<Rightarrow> (True, 1, ue_flash_output env (ur_flash_out info) (ur_storage info) w)
      | _ \<Rightarrow> (False, 0, False, w))"

definition fail_dev :: "int \<Rightarrow> int \<Rightarrow> 'w upgrade_sv \<times> 'w \<Rightarrow> ('w upgrade_sv \<times> 'w, upgrade_note) result" where
  "fail_dev now err = (\<lambda>(sv, w). case sm_sv_boot_reset_upgrading_dev now err sv of (sv, ns) \<Rightarrow> Inr ((sv, w), ns))"

definition sm_sv_boot_start_upgrading_dev ::
  "'w upgrade_env \<Rightarrow> int \<Rightarrow> boot_slave option \<Rightarrow> 'w upgrade_sv \<times> 'w \<Rightarrow> ('w upgrade_sv \<times> 'w, upgrade_note) result" where
  "sm_sv_boot_start_upgrading_dev env now junk = (\<lambda>(sv, w).
     case us_current sv of None \<Rightarrow> Inl Null_Deref
     | Some i \<Rightarrow>
         let d = dev_at i sv; info = ud_info d in
         case boot_input env info w of (known, inp, w) \<Rightarrow>
         if \<not> known then fail_dev now SM_SV_BOOT_MASTER_ERR_NOT_SUPPORT (sv, w)
         else case boot_output env info w of (known, k, out, w) \<Rightarrow>
         if \<not> known then fail_dev now SM_SV_BOOT_MASTER_ERR_NOT_SUPPORT (sv, w)
         else if \<not> out \<or> \<not> inp then fail_dev now SM_SV_BOOT_MASTER_ERR_INTERNAL (sv, w)
         else bind (sm_boot_master_add_slave now (ue_ifs env) (uint (ur_boot_id info)) k junk (us_master sv, w)) (\<lambda>(r, m, w).
           let sv = sv\<lparr>us_master := m\<rparr> in
           if r < 0
           then bind (out_free (ue_ifs env k) w) (\<lambda>w. bind (in_free (ue_ifs env k) w) (\<lambda>w.
             fail_dev now SM_SV_BOOT_MASTER_ERR_INTERNAL (sv, w)))
           else Inr ((put_dev i (d\<lparr>ud_state := UPGRADING_DEV_UPGRADING, ud_timeout := elapsed_timer_reset now (ud_timeout d)\<rparr>) sv, w), [])))"

definition sm_sv_boot_prepare_upgrading_dev ::
  "'w upgrade_env \<Rightarrow> int \<Rightarrow> boot_slave option \<Rightarrow> 'w upgrade_sv \<times> 'w \<Rightarrow> ('w upgrade_sv \<times> 'w, upgrade_note) result" where
  "sm_sv_boot_prepare_upgrading_dev env now junk = (\<lambda>(sv, w).
     case us_current sv of None \<Rightarrow> Inr ((sv, w), [])
     | Some i \<Rightarrow>
         let d = dev_at i sv; io = ur_if (ud_info d); n = ur_network_id (ud_info d) in
         case di_reboot io of
           None \<Rightarrow> sm_sv_boot_start_upgrading_dev env now junk (put_dev i (d\<lparr>ud_state := UPGRADING_DEV_UPGRADING\<rparr>) sv, w)
         | Some reboot \<Rightarrow>
             bind (reboot n SM_SV_BOOT_REBOOT_DEV_TIMEOUT w) (\<lambda>(r, w).
               if r < 0
               then bind (notify_rebooted sv d False) (\<lambda>ns. and_then (Inr ((sv, w), ns)) (fail_dev now SM_SV_BOOT_MASTER_ERR_REBOOT))
               else case di_rebooted io of
                 None \<Rightarrow> bind (notify_rebooted sv d True) (\<lambda>ns.
                   and_then (Inr ((put_dev i (d\<lparr>ud_state := UPGRADING_DEV_UPGRADING\<rparr>) sv, w), ns)) (sm_sv_boot_start_upgrading_dev env now junk))
               | Some _ \<Rightarrow>
                   Inr ((put_dev i (d\<lparr>ud_timeout := elapsed_timer_resetz now SM_SV_BOOT_REBOOT_DEV_TIMEOUT (ud_timeout d),
                                    ud_state := UPGRADING_DEV_WAITING_REBOOT\<rparr>) sv, w), [])))"

text \<open>The loop over the devices; the flag tells that the function returns from it.\<close>

fun pick_dev ::
  "'w upgrade_env \<Rightarrow> int \<Rightarrow> boot_slave option \<Rightarrow> nat list \<Rightarrow> 'w upgrade_sv \<times> 'w \<Rightarrow> (bool \<times> 'w upgrade_sv \<times> 'w, upgrade_note) result" where
  "pick_dev env now junk [] svw = Inr ((False, svw), [])"
| "pick_dev env now junk (i # is) (sv, w) =
     (let d = dev_at i sv in
      if ud_state d = UPGRADING_DEV_WAITING_ONLINE \<and> timed_out now (ud_timeout d)
      then let v = snd (sm_vector_erase_item (int i) (us_devs sv)) in
        Inr ((True, sv\<lparr>us_devs := v\<rparr>, w),
          notify_upgraded sv d SM_SV_BOOT_MASTER_ERR_TIMEOUT @ (if sm_vector_get_size v = 0 then notify_finish sv else []))
      else if di_condition (ur_if (ud_info d)) (ur_network_id (ud_info d)) w
      then map_sum id (\<lambda>(svw, ns). ((True, svw), ns)) (sm_sv_boot_prepare_upgrading_dev env now junk (sv\<lparr>us_current := Some i\<rparr>, w))
      else pick_dev env now junk is (sv, w))"

definition await_reboot ::
  "'w upgrade_env \<Rightarrow> int \<Rightarrow> boot_slave option \<Rightarrow> nat \<Rightarrow> 'w upgrade_sv \<times> 'w \<Rightarrow> (bool \<times> 'w upgrade_sv \<times> 'w, upgrade_note) result" where
  "await_reboot env now junk i = (\<lambda>(sv, w).
     let d = dev_at i sv in
     if timed_out now (ud_timeout d)
     then map_sum id (\<lambda>(svw, ns). ((True, svw), ns))
       (bind (notify_rebooted sv d False) (\<lambda>ns. and_then (Inr ((sv, w), ns)) (fail_dev now SM_SV_BOOT_MASTER_ERR_REBOOT)))
     else case di_rebooted (ur_if (ud_info d)) of None \<Rightarrow> Inl Null_Deref
     | Some rebooted \<Rightarrow>
         if rebooted (ur_network_id (ud_info d)) w
         then map_sum id (\<lambda>(svw, ns). ((False, svw), ns))
           (bind (notify_rebooted sv d True) (\<lambda>ns. and_then (Inr ((sv, w), ns)) (sm_sv_boot_start_upgrading_dev env now junk)))
         else Inr ((False, sv, w), []))"

definition run_master ::
  "'w upgrade_env \<Rightarrow> int \<Rightarrow> fw_signature \<Rightarrow> 'w upgrade_sv \<times> 'w \<Rightarrow> ('w upgrade_sv \<times> 'w, upgrade_note) result" where
  "run_master env now sig0 = (\<lambda>(sv, w).
     bind (sm_boot_master_process now sig0 (ue_ifs env) (us_master sv, w)) (\<lambda>((m, w), ns).
       map_sum id (\<lambda>(sv, ns). ((sv, w), ns)) (run_all (boot_master_event_callback now) ns (sv\<lparr>us_master := m\<rparr>))))"

text \<open>What is done for the device that is under way; its state is read through the old pointer.\<close>

definition run_current ::
  "'w upgrade_env \<Rightarrow> int \<Rightarrow> fw_signature \<Rightarrow> boot_slave option \<Rightarrow> 'w upgrade_sv \<times> 'w \<Rightarrow> ('w upgrade_sv \<times> 'w, upgrade_note) result" where
  "run_current env now sig0 junk = (\<lambda>(sv, w).
     case us_current sv of None \<Rightarrow> Inr ((sv, w), [])
     | Some i \<Rightarrow>
         and_then (if ud_state (dev_at i sv) = UPGRADING_DEV_WAITING_REBOOT then await_reboot env now junk i (sv, w) else Inr ((False, sv, w), []))
           (\<lambda>(done, sv, w). if done \<or> ud_state (dev_at i sv) \<noteq> UPGRADING_DEV_UPGRADING then Inr ((sv, w), []) else run_master env now sig0 (sv, w)))"

definition sm_sv_boot_master_process ::
  "'w upgrade_env \<Rightarrow> int \<Rightarrow> fw_signature \<Rightarrow> boot_slave option \<Rightarrow> 'w upgrade_sv \<times> 'w \<Rightarrow> ('w upgrade_sv \<times> 'w, upgrade_note) result" where
  "sm_sv_boot_master_process env now sig0 junk = (\<lambda>(sv, w).
     and_then (if 0 < sm_vector_get_size (us_devs sv) \<and> us_current sv = None
               then pick_dev env now junk [0..<sm_vector_get_size (us_devs sv)] (sv, w) else Inr ((False, sv, w), []))
       (\<lambda>(done, svw). if done then Inr (svw, []) else run_current env now sig0 junk svw))"

end
