(* ===== verification/Upgrading_Laws.thy ===== *)
theory Upgrading_Laws
  imports Upgrading "HOL-Library.Multiset"
begin

text \<open>
  The queue of upgrades: what holds of it after every call, that each device it accepts is reported exactly once, and that a
  device that never comes online is given up.
\<close>

section \<open>The boot master of the service\<close>

definition master_free :: "boot_master \<Rightarrow> bool" where
  "master_free m \<longleftrightarrow> m = sm_boot_master_create True"

definition master_runs :: "int \<Rightarrow> boot_master \<Rightarrow> bool" where
  "master_runs sid m \<longleftrightarrow> (\<exists>s k. m = \<lparr>bm_number = 1, bm_slaves = (replicate 10 None)[0 := Some (s, k)], bm_cb = True\<rparr> \<and> bs_id s = sid)"

lemma free_simps: "master_free m \<Longrightarrow> m = \<lparr>bm_number = 0, bm_slaves = replicate 10 None, bm_cb = True\<rparr>"
  by (simp add: master_free_def sm_boot_master_create_def SM_BOOT_SLAVE_MAX_SUPPORT_def)

lemma slots_10: "[0..<SM_BOOT_SLAVE_MAX_SUPPORT] = 0 # [1..<10]"
  by (simp add: SM_BOOT_SLAVE_MAX_SUPPORT_def upt_conv_Cons)

lemma find_first: "P (bm_slaves m ! 0) \<Longrightarrow> find_slot P m = Some 0"
  by (simp add: find_slot_def slots_10)

lemma no_slot: "master_free m \<Longrightarrow> find_slot (\<lambda>sl. sl \<noteq> None \<and> Q sl) m = None"
  by (drule free_simps) (auto simp: find_slot_def find_None_iff SM_BOOT_SLAVE_MAX_SUPPORT_def)

lemma add_to_free:
  assumes "master_free m" "sm_boot_master_add_slave now ifs sid k junk (m, w) = Inr (r, m', w')"
  shows "if r < 0 then m' = m else r = 0 \<and> master_runs sid m'"
proof -
  note m = free_simps [OF assms(1)]
  note n = no_slot [OF assms(1), of "\<lambda>sl. slot_id sl = sid"]
  obtain sl w1 where c: "sm_boot_slave_create now (ifs k) sid junk w = Inr (sl, w1)"
    using assms(2) n by (cases "sm_boot_slave_create now (ifs k) sid junk w") (auto simp: sm_boot_master_add_slave_def simp del: not_None_eq)
  have f: "find_slot (\<lambda>sl. sl = None) m = Some 0" by (rule find_first) (simp add: m)
  show ?thesis
  proof (cases sl)
    case None
    then show ?thesis using assms(2) c n by (auto simp: sm_boot_master_add_slave_def simp del: not_None_eq)
  next
    case (Some s)
    have "bs_id s = sid" using create_id [OF c [unfolded Some]] by simp
    moreover have "r = 0" "m' = m\<lparr>bm_slaves := (bm_slaves m)[0 := Some (sm_boot_slave_reg_event SM_BOOT_SLAVE_CONFIRM_ABORT
        (sm_boot_slave_reg_event SM_BOOT_SLAVE_CONFIRM_FINISH_DOWNLOAD s), k)], bm_number := bm_number m + 1\<rparr>"
      using assms(2) c n Some f by (auto simp: sm_boot_master_add_slave_def simp del: not_None_eq)
    ultimately show ?thesis by (auto simp: m master_runs_def sm_boot_slave_reg_event_def)
  qed
qed

lemma empty_slots:
  "(\<And>i. i \<in> set is \<Longrightarrow> bm_slaves m ! i = None) \<Longrightarrow> run_all (slot_step now sig0 ifs) is (m, w) = Inr ((m, w), [])"
  by (induction "is") (simp_all add: slot_step_def)

lemma slave_notes:
  assumes "sm_boot_slave_process now sig0 io sw = Inr (sw', ns)"
  shows "ns = [] \<or> (\<exists>n. ns = [n])"
proof -
  obtain sw1 where "slave_switch now sig0 io sw1 = Inr (sw', ns)"
    using assms by (cases "slave_poll now io sw") (auto simp: sm_boot_slave_process_def)
  then show ?thesis
    by (cases "bs_state (fst sw1)") (auto simp: slave_switch_def Let_def map_sum_def split: sum.splits if_splits)
qed

text \<open>While the slave is at work nothing is reported; its end is reported once and the master is free again.\<close>

lemma process_one:
  assumes "master_runs sid m" "0 \<le> sid" "sm_boot_master_process now sig0 ifs (m, w) = Inr ((m', w'), ns)"
  shows "(ns = [] \<and> master_runs sid m') \<or> ((\<exists>r. ns = [(r, sid)]) \<and> master_free m')"
proof -
  obtain s k where m: "m = \<lparr>bm_number = 1, bm_slaves = (replicate 10 None)[0 := Some (s, k)], bm_cb = True\<rparr>" "bs_id s = sid"
    using assms(1) by (auto simp: master_runs_def)
  have run: "and_then (slot_step now sig0 ifs 0 (m, w)) (run_all (slot_step now sig0 ifs) [1..<10]) = Inr ((m', w'), ns)"
    using assms(3) by (simp add: sm_boot_master_process_def m(1) slots_10)
  have slot: "bm_slaves m ! 0 = Some (s, k)" by (simp add: m(1))
  obtain s1 w1 ns1 where p: "sm_boot_slave_process now sig0 (ifs k) (s, w) = Inr ((s1, w1), ns1)"
    using run slot by (cases "sm_boot_slave_process now sig0 (ifs k) (s, w)") (auto simp: slot_step_def)
  have id: "bs_id s1 = sid" using process_id [OF p] m(2) by simp
  let ?m = "\<lparr>bm_number = 1, bm_slaves = (replicate 10 None)[0 := Some (s1, k)], bm_cb = True\<rparr>"
  have m1: "m\<lparr>bm_slaves := (bm_slaves m)[0 := Some (s1, k)]\<rparr> = ?m" by (simp add: m(1))
  have rest: "run_all (slot_step now sig0 ifs) [1..<10] (x, v) = Inr ((x, v), [])"
    if "bm_slaves x = (replicate 10 None)[0 := sl]" for x sl v
    by (rule empty_slots) (use that in \<open>auto simp: nth_list_update\<close>)
  consider "ns1 = []" | n where "ns1 = [n]" using slave_notes [OF p] by blast
  then show ?thesis
  proof cases
    case 1
    then have "slot_step now sig0 ifs 0 (m, w) = Inr ((?m, w1), [])" by (simp add: slot_step_def slot p m1)
    moreover have "master_runs sid ?m" using id unfolding master_runs_def by blast
    ultimately show ?thesis using run rest [of ?m "Some (s1, k)" w1] by simp
  next
    case 2
    have "find_slot (\<lambda>sl. slot_id sl = sid) ?m = Some 0" by (rule find_first) (simp add: slot_id_def id)
    moreover obtain w2 where d: "sm_boot_slave_destroy (ifs k) w1 = Inr w2"
      using run 2 calculation
      by (cases "sm_boot_slave_destroy (ifs k) w1") (auto simp: slot_step_def slot p m1 id on_note_def sm_boot_master_remove_slave_def)
    ultimately have "slot_step now sig0 ifs 0 (m, w)
        = Inr ((\<lparr>bm_number = 0, bm_slaves = replicate 10 None, bm_cb = True\<rparr>, w2), [(case n of Download_Finished \<Rightarrow> 0 | Download_Aborted \<Rightarrow> -1, sid)])"
      using 2 by (simp add: slot_step_def slot p m1 id on_note_def sm_boot_master_remove_slave_def numeral_eq_Suc)
    then have "m' = \<lparr>bm_number = 0, bm_slaves = replicate 10 None, bm_cb = True\<rparr>" "\<exists>r. ns = [(r, sid)]"
      using run rest [of "\<lparr>bm_number = 0, bm_slaves = replicate 10 None, bm_cb = True\<rparr>" None w2] by (auto simp: numeral_eq_Suc)
    then show ?thesis by (simp add: master_free_def sm_boot_master_create_def SM_BOOT_SLAVE_MAX_SUPPORT_def)
  qed
qed

section \<open>The invariant\<close>

definition waits_online :: "'w upgrade_dev \<Rightarrow> bool" where
  "waits_online d \<longleftrightarrow> ud_state d = UPGRADING_DEV_WAITING_ONLINE"

definition queue_ok :: "'w upgrade_sv \<Rightarrow> bool" where
  "queue_ok sv \<longleftrightarrow> vec_ok (us_devs sv) \<and> v_max (us_devs sv) = SM_SV_BOOT_MAX_DEV_SUPPORT
     \<and> (\<forall>i < v_count (us_devs sv). us_current sv \<noteq> Some i \<longrightarrow> waits_online (dev_at i sv))"

text \<open>A device has been chosen and the boot master is free.\<close>

definition chosen :: "nat \<Rightarrow> 'w upgrade_sv \<Rightarrow> bool" where
  "chosen i sv \<longleftrightarrow> queue_ok sv \<and> us_current sv = Some i \<and> i < v_count (us_devs sv) \<and> master_free (us_master sv)"

definition sv_inv :: "'w upgrade_sv \<Rightarrow> bool" where
  "sv_inv sv \<longleftrightarrow> queue_ok sv \<and> (case us_current sv of
       None \<Rightarrow> master_free (us_master sv)
     | Some i \<Rightarrow> i < v_count (us_devs sv) \<and>
         (ud_state (dev_at i sv) = UPGRADING_DEV_WAITING_REBOOT \<and> master_free (us_master sv)
          \<or> ud_state (dev_at i sv) = UPGRADING_DEV_UPGRADING \<and> master_runs (uint (ur_boot_id (ud_info (dev_at i sv)))) (us_master sv)))"

section \<open>What is reported\<close>

fun reported :: "upgrade_note list \<Rightarrow> u8 list" where
  "reported [] = []"
| "reported (On_Upgraded n e # ns) = n # reported ns"
| "reported (On_Rebooted n b # ns) = reported ns"
| "reported (On_Finish # ns) = reported ns"

lemma reported_append [simp]: "reported (xs @ ys) = reported xs @ reported ys"
  by (induction xs rule: reported.induct) simp_all

definition dev_ids :: "'w upgrade_sv \<Rightarrow> u8 list" where
  "dev_ids sv = map (\<lambda>d. ur_network_id (ud_info d)) (vec_items (us_devs sv))"

definition same_cbs :: "'w upgrade_sv \<Rightarrow> 'w upgrade_sv \<Rightarrow> bool" where
  "same_cbs sv sv' \<longleftrightarrow> us_on_upgraded sv' = us_on_upgraded sv \<and> us_on_rebooted sv' = us_on_rebooted sv \<and> us_on_finish sv' = us_on_finish sv"

definition conserves :: "'w upgrade_sv \<Rightarrow> upgrade_note list \<Rightarrow> 'w upgrade_sv \<Rightarrow> bool" where
  "conserves sv ns sv' \<longleftrightarrow> same_cbs sv sv' \<and> (us_on_upgraded sv \<longrightarrow> mset (dev_ids sv) = mset (reported ns) + mset (dev_ids sv'))"

lemma conserves_trans: "conserves sv ns sv' \<Longrightarrow> conserves sv' ns' sv'' \<Longrightarrow> conserves sv (ns @ ns') sv''"
  by (auto simp: conserves_def same_cbs_def)

lemma conserves_refl [simp]: "conserves sv [] sv"
  by (simp add: conserves_def same_cbs_def)

definition keeps :: "'w upgrade_sv \<Rightarrow> (('w upgrade_sv \<times> 'w), upgrade_note) result \<Rightarrow> bool" where
  "keeps sv r = (case r of Inl _ \<Rightarrow> True | Inr ((sv', w'), ns) \<Rightarrow> sv_inv sv' \<and> conserves sv ns sv')"

lemma keeps_simps [simp]: "keeps sv (Inl e)" "keeps sv (Inr ((sv', w'), ns)) \<longleftrightarrow> sv_inv sv' \<and> conserves sv ns sv'"
  by (simp_all add: keeps_def)

lemma keeps_bind: "(\<And>a. r = Inr a \<Longrightarrow> keeps sv (f a)) \<Longrightarrow> keeps sv (bind r f)"
  by (cases r) simp_all

lemma keeps_after:
  assumes "conserves sv ns sv'" "keeps sv' (f (sv', w))"
  shows "keeps sv (and_then (Inr ((sv', w), ns)) f)"
  using assms by (cases "f (sv', w)") (auto intro: conserves_trans)

lemma remove_mset:
  assumes "i < length xs"
  shows "mset (map f xs) = {#f (xs ! i)#} + mset (map f (remove_nth i xs))"
proof -
  have "xs = take i xs @ xs ! i # drop (i + 1) xs" using id_take_nth_drop [OF assms] by simp
  then have "mset (map f xs) = mset (map f (take i xs @ xs ! i # drop (i + 1) xs))" by simp
  then show ?thesis by (simp add: remove_nth_def)
qed

lemma erase_facts:
  assumes "vec_ok v" "i < v_count v"
  shows "vec_ok (snd (sm_vector_erase_item (int i) v))" "v_max (snd (sm_vector_erase_item (int i) v)) = v_max v"
    "vec_items (snd (sm_vector_erase_item (int i) v)) = remove_nth i (vec_items v)"
  using erase_index_vec [OF assms] erase_item_index [OF assms(2)] by (metis prod.collapse)+

lemma map_vec_facts:
  assumes "vec_ok v"
  shows "vec_ok (map_vec f v)" "v_max (map_vec f v) = v_max v" "v_count (map_vec f v) = v_count v"
    "vec_items (map_vec f v) = map f (vec_items v)"
proof -
  have "length (map f (take (v_count v) (v_memory v))) = v_count v" using assms by (simp add: vec_ok_def)
  then show "vec_items (map_vec f v) = map f (vec_items v)"
    by (simp add: map_vec_def vec_items_def overwrite_def)
qed (use assms in \<open>simp_all add: map_vec_def vec_ok_def overwrite_def\<close>)

lemma dev_at_items: "queue_ok sv \<Longrightarrow> i < v_count (us_devs sv) \<Longrightarrow> dev_at i sv = vec_items (us_devs sv) ! i"
  by (simp add: dev_at_def nth_items queue_ok_def)

lemma in_remove_nth: "x \<in> set (remove_nth i xs) \<Longrightarrow> \<exists>j < length xs. j \<noteq> i \<and> x = xs ! j"
  unfolding remove_nth_def set_append
  by (auto simp: in_set_conv_nth) (metis less_diff_conv less_irrefl_nat add.commute nth_drop less_add_Suc1 Suc_leI add_Suc)

lemma waiting_items:
  assumes "vec_ok v" "v_max v = SM_SV_BOOT_MAX_DEV_SUPPORT" "\<And>d. d \<in> set (vec_items v) \<Longrightarrow> waits_online d"
  shows "queue_ok (sv\<lparr>us_devs := v, us_current := None\<rparr>)"
proof -
  have "waits_online (v_memory v ! i)" if "i < v_count v" for i
    using assms(3) [of "vec_items v ! i"] nth_items [OF assms(1) that] length_items [OF assms(1)] that by (metis nth_mem)
  then show ?thesis using assms(1,2) by (simp add: queue_ok_def dev_at_def)
qed

section \<open>The steps\<close>

lemma reset_ok:
  assumes "chosen i sv" "sm_sv_boot_reset_upgrading_dev now err sv = (sv', ns)"
  shows "sv_inv sv' \<and> conserves sv ns sv'"
proof -
  have c: "us_current sv = Some i" "i < v_count (us_devs sv)" "vec_ok (us_devs sv)" "v_max (us_devs sv) = SM_SV_BOOT_MAX_DEV_SUPPORT"
      "master_free (us_master sv)" "queue_ok sv" using assms(1) by (simp_all add: chosen_def queue_ok_def)
  define v where "v = snd (sm_vector_erase_item (int i) (us_devs sv))"
  note e = erase_facts [OF c(3,2), folded v_def]
  note mv = map_vec_facts [OF e(1), of "wait_again now"]
  let ?v = "if v_count v = 0 then v else map_vec (wait_again now) v"
  have sv': "sv' = sv\<lparr>us_devs := ?v, us_current := None\<rparr>"
      "ns = notify_upgraded sv (dev_at i sv) err @ (if v_count v = 0 then notify_finish sv else [])"
    using assms(2) c(1) by (auto simp: sm_sv_boot_reset_upgrading_dev_def sm_vector_get_size_def Let_def split: if_splits simp flip: v_def)
  have empty: "v_count v = 0 \<Longrightarrow> vec_items v = []" by (simp add: vec_items_def)
  have "queue_ok (sv\<lparr>us_devs := ?v, us_current := None\<rparr>)"
    by (rule waiting_items) (use e mv c(4) empty in \<open>auto simp: waits_online_def wait_again_def split: if_splits\<close>)
  then have "sv_inv sv'" using c(5) by (simp add: sv'(1) sv_inv_def)
  moreover have "dev_ids sv' = map (\<lambda>d. ur_network_id (ud_info d)) (remove_nth i (vec_items (us_devs sv)))"
    using e(3) mv(4) by (simp add: sv'(1) dev_ids_def wait_again_def comp_def)
  moreover have "reported (notify_finish sv) = []" by (simp add: notify_finish_def)
  moreover have "us_on_upgraded sv \<Longrightarrow> mset (dev_ids sv) = {#ur_network_id (ud_info (dev_at i sv))#}
      + mset (map (\<lambda>d. ur_network_id (ud_info d)) (remove_nth i (vec_items (us_devs sv))))"
    unfolding dev_ids_def dev_at_items [OF c(6,2)] by (rule remove_mset) (simp add: length_items c(2,3))
  ultimately show ?thesis by (simp add: conserves_def same_cbs_def sv' notify_upgraded_def)
qed

lemma fail_keeps: "chosen i sv \<Longrightarrow> keeps sv (fail_dev now err (sv, w))"
  using reset_ok [of i sv now err] by (simp add: fail_dev_def split: prod.split)

text \<open>The device under way may be changed in all but what it is.\<close>

lemma put_chosen:
  assumes "chosen i sv" "ud_info d = ud_info (dev_at i sv)"
  shows "chosen i (put_dev i d sv)" "conserves sv [] (put_dev i d sv)" "dev_at i (put_dev i d sv) = d"
    "us_master (put_dev i d sv) = us_master sv" "us_current (put_dev i d sv) = Some i"
proof -
  have c: "us_current sv = Some i" "i < v_count (us_devs sv)" "vec_ok (us_devs sv)" "queue_ok sv" "i < length (v_memory (us_devs sv))"
    using assms(1) by (auto simp: chosen_def queue_ok_def vec_ok_def)
  then show "dev_at i (put_dev i d sv) = d" by (simp add: dev_at_def put_dev_def)
  show "chosen i (put_dev i d sv)"
    using assms(1) c by (auto simp: chosen_def queue_ok_def put_dev_def vec_ok_def dev_at_def)
  have "vec_items (us_devs (put_dev i d sv)) = (vec_items (us_devs sv))[i := d]"
    by (simp add: put_dev_def vec_items_def take_update_swap)
  moreover have "map (\<lambda>d. ur_network_id (ud_info d)) (vec_items (us_devs sv)) ! i = ur_network_id (ud_info d)"
    using assms(2) dev_at_items [OF c(4,2)] c(2,3) by (simp add: length_items)
  ultimately have "dev_ids (put_dev i d sv) = dev_ids sv"
    by (simp add: dev_ids_def map_update) (metis list_update_id)
  then show "conserves sv [] (put_dev i d sv)" by (simp add: conserves_def same_cbs_def put_dev_def)
  show "us_master (put_dev i d sv) = us_master sv" "us_current (put_dev i d sv) = Some i" using c(1) by (simp_all add: put_dev_def)
qed

lemma chosen_states:
  assumes "chosen i sv" "ud_state (dev_at i sv) = UPGRADING_DEV_WAITING_REBOOT"
  shows "sv_inv sv"
  using assms by (simp add: chosen_def sv_inv_def)

lemma start_keeps:
  assumes "chosen i sv"
  shows "keeps sv (sm_sv_boot_start_upgrading_dev env now junk (sv, w))"
proof -
  let ?d = "dev_at i sv" and ?info = "ud_info (dev_at i sv)"
  have cur: "us_current sv = Some i" "master_free (us_master sv)" using assms by (simp_all add: chosen_def)
  obtain kin inp w1 where i: "boot_input env ?info w = (kin, inp, w1)" by (metis prod_cases3)
  obtain kout k out w2 where o: "boot_output env ?info w1 = (kout, k, out, w2)" by (metis prod_cases4)
  show ?thesis
  proof (cases "kin \<and> kout \<and> out \<and> inp")
    case False
    then show ?thesis using fail_keeps [OF assms] by (auto simp: sm_sv_boot_start_upgrading_dev_def cur(1) i o Let_def)
  next
    case True
    have "keeps sv (bind (sm_boot_master_add_slave now (ue_ifs env) (uint (ur_boot_id ?info)) k junk (us_master sv, w2)) (\<lambda>(r, m, w).
           let sv = sv\<lparr>us_master := m\<rparr> in
           if r < 0
           then bind (out_free (ue_ifs env k) w) (\<lambda>w. bind (in_free (ue_ifs env k) w) (\<lambda>w.
             fail_dev now SM_SV_BOOT_MASTER_ERR_INTERNAL (sv, w)))
           else Inr ((put_dev i (?d\<lparr>ud_state := UPGRADING_DEV_UPGRADING, ud_timeout := elapsed_timer_reset now (ud_timeout ?d)\<rparr>) sv, w), [])))"
    proof (rule keeps_bind)
      fix a
      assume a: "sm_boot_master_add_slave now (ue_ifs env) (uint (ur_boot_id ?info)) k junk (us_master sv, w2) = Inr a"
      obtain r m w3 where "a = (r, m, w3)" by (metis prod_cases3)
      note a = a [unfolded this] and ra = this
      from add_to_free [OF cur(2) a] have m: "if r < 0 then m = us_master sv else r = 0 \<and> master_runs (uint (ur_boot_id ?info)) m" .
      let ?d' = "?d\<lparr>ud_state := UPGRADING_DEV_UPGRADING, ud_timeout := elapsed_timer_reset now (ud_timeout ?d)\<rparr>"
      show "keeps sv ((\<lambda>(r, m, w).
           let sv = sv\<lparr>us_master := m\<rparr> in
           if r < 0
           then bind (out_free (ue_ifs env k) w) (\<lambda>w. bind (in_free (ue_ifs env k) w) (\<lambda>w.
             fail_dev now SM_SV_BOOT_MASTER_ERR_INTERNAL (sv, w)))
           else Inr ((put_dev i ?d' sv, w), [])) a)"
      proof (cases "r < 0")
        case True
        then show ?thesis using m fail_keeps [OF assms] by (auto simp: ra intro!: keeps_bind)
      next
        case False
        note p = put_chosen [OF assms, of ?d']
        have "put_dev i ?d' (sv\<lparr>us_master := m\<rparr>) = (put_dev i ?d' sv)\<lparr>us_master := m\<rparr>" by (simp add: put_dev_def)
        moreover have "sv_inv ((put_dev i ?d' sv)\<lparr>us_master := m\<rparr>)"
          using p(1,3) m False by (simp add: sv_inv_def chosen_def queue_ok_def dev_at_def)
        moreover have "conserves sv [] ((put_dev i ?d' sv)\<lparr>us_master := m\<rparr>)"
          using p(2) by (simp add: conserves_def same_cbs_def dev_ids_def)
        ultimately show ?thesis using False by (simp add: ra)
      qed
    qed
    then show ?thesis using True by (simp add: sm_sv_boot_start_upgrading_dev_def cur(1) i o Let_def)
  qed
qed

lemma keeps_mono: "conserves sv [] sv' \<Longrightarrow> keeps sv' r \<Longrightarrow> keeps sv r"
  by (auto simp: keeps_def conserves_def same_cbs_def split: sum.splits prod.splits)

text \<open>The note that a device has been rebooted changes nothing.\<close>

lemma rebooted_keeps:
  assumes "conserves sv [] sv'" "keeps sv' (f (sv', w))"
  shows "keeps sv (bind (notify_rebooted sv d b) (\<lambda>ns. and_then (Inr ((sv', w), ns)) f))"
proof (cases "notify_rebooted sv d b")
  case (Inr ns)
  then have "conserves sv ns sv'" using assms(1) by (auto simp: notify_rebooted_def conserves_def split: if_splits)
  then show ?thesis using keeps_after [where f = f, OF _ assms(2)] Inr by (simp del: and_then_simps)
qed simp

lemma prepare_keeps:
  assumes "chosen i sv"
  shows "keeps sv (sm_sv_boot_prepare_upgrading_dev env now junk (sv, w))"
proof -
  let ?d = "dev_at i sv" and ?io = "ur_if (ud_info (dev_at i sv))" and ?n = "ur_network_id (ud_info (dev_at i sv))"
  have cur: "us_current sv = Some i" using assms by (simp add: chosen_def)
  note up = put_chosen [OF assms, of "?d\<lparr>ud_state := UPGRADING_DEV_UPGRADING\<rparr>"]
  show ?thesis
  proof (cases "di_reboot ?io")
    case None
    then show ?thesis using keeps_mono [OF up(2) start_keeps [OF up(1)]] by (simp add: sm_sv_boot_prepare_upgrading_dev_def cur)
  next
    case (Some reboot)
    show ?thesis
    proof (cases "reboot ?n SM_SV_BOOT_REBOOT_DEV_TIMEOUT w")
      case (Inr rw)
      obtain r w1 where rw: "reboot ?n SM_SV_BOOT_REBOOT_DEV_TIMEOUT w = Inr (r, w1)" using Inr by (cases rw) simp
      show ?thesis
      proof (cases "r < 0")
        case True
        show ?thesis
          using True Some rw rebooted_keeps [where f = "fail_dev now SM_SV_BOOT_MASTER_ERR_REBOOT", OF conserves_refl fail_keeps [OF assms]]
          by (simp add: sm_sv_boot_prepare_upgrading_dev_def cur del: and_then_simps)
      next
        case False
        show ?thesis
        proof (cases "di_rebooted ?io")
          case None
          then show ?thesis
            using False Some rw rebooted_keeps [where f = "sm_sv_boot_start_upgrading_dev env now junk", OF up(2) start_keeps [OF up(1)]]
            by (simp add: sm_sv_boot_prepare_upgrading_dev_def cur Let_def del: and_then_simps)
        next
          case (Some _)
          note wr = put_chosen [OF assms, of "?d\<lparr>ud_timeout := elapsed_timer_resetz now SM_SV_BOOT_REBOOT_DEV_TIMEOUT (ud_timeout ?d),
              ud_state := UPGRADING_DEV_WAITING_REBOOT\<rparr>"]
          then show ?thesis
            using False Some \<open>di_reboot ?io = Some reboot\<close> rw chosen_states [OF wr(1)]
            by (simp add: sm_sv_boot_prepare_upgrading_dev_def cur Let_def)
        qed
      qed
    qed (use Some cur in \<open>simp add: sm_sv_boot_prepare_upgrading_dev_def\<close>)
  qed
qed

lemma find_chosen:
  assumes "queue_ok sv" "us_current sv = None" "master_free (us_master sv)" "i < v_count (us_devs sv)"
  shows "chosen i (sv\<lparr>us_current := Some i\<rparr>)" "conserves sv [] (sv\<lparr>us_current := Some i\<rparr>)"
  using assms by (auto simp: chosen_def queue_ok_def dev_at_def conserves_def same_cbs_def dev_ids_def)

definition keeps_flag :: "'w upgrade_sv \<Rightarrow> ((bool \<times> 'w upgrade_sv \<times> 'w), upgrade_note) result \<Rightarrow> bool" where
  "keeps_flag sv r = keeps sv (map_sum id (\<lambda>((_, svw), ns). (svw, ns)) r)"

lemma keeps_flag_simps [simp]:
  "keeps_flag sv (Inl e)" "keeps_flag sv (Inr ((b, sv', w'), ns)) \<longleftrightarrow> sv_inv sv' \<and> conserves sv ns sv'"
  by (simp_all add: keeps_flag_def)

lemma keeps_flag_map: "keeps_flag sv (map_sum id (\<lambda>(svw, ns). ((b, svw), ns)) r) \<longleftrightarrow> keeps sv r"
  by (cases r) (auto simp: keeps_flag_def)

lemma pick_keeps:
  assumes "sv_inv sv" "us_current sv = None" "\<And>i. i \<in> set is \<Longrightarrow> i < v_count (us_devs sv)"
  shows "keeps_flag sv (pick_dev env now junk is (sv, w))"
  using assms(3)
proof (induction "is")
  case Nil
  then show ?case using assms(1) by simp
next
  case (Cons i "is")
  have q: "queue_ok sv" "master_free (us_master sv)" using assms(1,2) by (simp_all add: sv_inv_def)
  have i: "i < v_count (us_devs sv)" using Cons.prems by simp
  let ?d = "dev_at i sv" and ?v = "snd (sm_vector_erase_item (int i) (us_devs sv))"
  show ?case
  proof (cases "ud_state ?d = UPGRADING_DEV_WAITING_ONLINE \<and> timed_out now (ud_timeout ?d)")
    case True
    have v: "vec_ok (us_devs sv)" "v_max (us_devs sv) = SM_SV_BOOT_MAX_DEV_SUPPORT" using q(1) by (simp_all add: queue_ok_def)
    note e = erase_facts [OF v(1) i]
    have all: "waits_online x" if "x \<in> set (vec_items (us_devs sv))" for x
      using that q(1) assms(2) length_items [OF v(1)] dev_at_items [OF q(1)] by (auto simp: queue_ok_def in_set_conv_nth)
    have "set (vec_items ?v) \<subseteq> set (vec_items (us_devs sv))"
      unfolding e(3) remove_nth_def by (auto dest: in_set_takeD in_set_dropD)
    then have "queue_ok (sv\<lparr>us_devs := ?v, us_current := None\<rparr>)" using e v(2) all by (intro waiting_items) auto
    then have "sv_inv (sv\<lparr>us_devs := ?v\<rparr>)" using q(2) assms(2) by (simp add: sv_inv_def queue_ok_def dev_at_def)
    moreover have "us_on_upgraded sv \<Longrightarrow> mset (dev_ids sv) = {#ur_network_id (ud_info ?d)#} + mset (dev_ids (sv\<lparr>us_devs := ?v\<rparr>))"
      using remove_mset [of i "vec_items (us_devs sv)" "\<lambda>d. ur_network_id (ud_info d)"] dev_at_items [OF q(1) i] i
      by (simp add: dev_ids_def e(3) length_items v(1))
    ultimately show ?thesis using True
      by (simp add: Let_def conserves_def same_cbs_def notify_upgraded_def notify_finish_def)
  next
    case False
    note f = find_chosen [OF q(1) assms(2) q(2) i]
    show ?thesis
    proof (cases "di_condition (ur_if (ud_info ?d)) (ur_network_id (ud_info ?d)) w")
      case True
      then show ?thesis using False keeps_mono [OF f(2) prepare_keeps [OF f(1)]] by (auto simp: Let_def keeps_flag_map)
    next
      case no: False
      then show ?thesis using False Cons by (auto simp: Let_def)
    qed
  qed
qed

lemma waits_reboot_chosen:
  assumes "sv_inv sv" "us_current sv = Some i" "ud_state (dev_at i sv) = UPGRADING_DEV_WAITING_REBOOT"
  shows "chosen i sv"
  using assms by (simp add: sv_inv_def chosen_def)

lemma await_keeps:
  assumes "sv_inv sv" "chosen i sv"
  shows "keeps_flag sv (await_reboot env now junk i (sv, w))"
proof -
  note f = rebooted_keeps [where f = "fail_dev now SM_SV_BOOT_MASTER_ERR_REBOOT", OF conserves_refl fail_keeps [OF assms(2)]]
  note s = rebooted_keeps [where f = "sm_sv_boot_start_upgrading_dev env now junk", OF conserves_refl start_keeps [OF assms(2)]]
  show ?thesis using assms(1)
    by (auto simp: await_reboot_def Let_def keeps_flag_map f s simp del: and_then_simps split: option.split)
qed

lemma master_keeps:
  assumes "sv_inv sv" "us_current sv = Some i" "ud_state (dev_at i sv) = UPGRADING_DEV_UPGRADING"
  shows "keeps sv (run_master env now sig0 (sv, w))"
proof (cases "sm_boot_master_process now sig0 (ue_ifs env) (us_master sv, w)")
  case (Inr p)
  obtain m w' ns where p: "sm_boot_master_process now sig0 (ue_ifs env) (us_master sv, w) = Inr ((m, w'), ns)"
    using Inr by (cases p) (metis prod.collapse)
  let ?id = "uint (ur_boot_id (ud_info (dev_at i sv)))" and ?sv = "sv\<lparr>us_master := m\<rparr>"
  have q: "queue_ok sv" "i < v_count (us_devs sv)" "master_runs ?id (us_master sv)" using assms by (simp_all add: sv_inv_def)
  have c0: "conserves sv [] ?sv" by (simp add: conserves_def same_cbs_def dev_ids_def)
  consider "ns = []" "master_runs ?id m" | r where "ns = [(r, ?id)]" "master_free m" using process_one [OF q(3) _ p] by auto
  then show ?thesis
  proof cases
    case 1
    then have "sv_inv ?sv" using q assms(2,3) by (simp add: sv_inv_def queue_ok_def dev_at_def)
    then show ?thesis using 1 p c0 by (simp add: run_master_def)
  next
    case 2
    then have ch: "chosen i ?sv" using q assms(2) by (simp add: chosen_def queue_ok_def dev_at_def)
    obtain err where cb: "boot_master_event_callback now (r, ?id) ?sv = Inr (sm_sv_boot_reset_upgrading_dev now err ?sv)"
      using ch by (cases "r = 0") (simp_all add: boot_master_event_callback_def chosen_def)
    obtain sv' ns' where re: "sm_sv_boot_reset_upgrading_dev now err ?sv = (sv', ns')" by fastforce
    have "keeps sv (map_sum id (\<lambda>(sv, ns). ((sv, w'), ns)) (boot_master_event_callback now (r, ?id) ?sv))"
      using reset_ok [OF ch re] conserves_trans [OF c0] by (simp add: cb re)
    moreover have "run_all (boot_master_event_callback now) ns ?sv = boot_master_event_callback now (r, ?id) ?sv"
      using 2(1) by (cases "boot_master_event_callback now (r, ?id) ?sv") (auto simp: and_then_def)
    ultimately show ?thesis using p by (simp add: run_master_def)
  qed
qed (simp add: run_master_def)

text \<open>What follows a step that may have returned.\<close>

lemma keeps_flag_then:
  assumes "keeps_flag sv r" "\<And>b sv' w' ns. r = Inr ((b, sv', w'), ns) \<Longrightarrow> sv_inv sv' \<Longrightarrow> keeps sv' (f (b, sv', w'))"
  shows "keeps sv (and_then r f)"
proof (cases r)
  case (Inr p)
  obtain b sv' w' ns where p: "r = Inr ((b, sv', w'), ns)" using Inr by (metis prod_cases3 prod.collapse)
  then have "sv_inv sv'" "conserves sv ns sv'" using assms(1) by simp_all
  then show ?thesis using assms(2) [OF p] p by (cases "f (b, sv', w')") (auto intro: conserves_trans)
qed simp

text \<open>The slot of a device that has been erased is never read as one that is being upgraded.\<close>

lemma reset_slot:
  assumes "chosen i sv" "ud_state (dev_at i sv) \<noteq> UPGRADING_DEV_UPGRADING" "sm_sv_boot_reset_upgrading_dev now err sv = (sv', ns)"
  shows "ud_state (dev_at i sv') \<noteq> UPGRADING_DEV_UPGRADING"
proof -
  have c: "us_current sv = Some i" "i < v_count (us_devs sv)" "vec_ok (us_devs sv)" using assms(1) by (simp_all add: chosen_def queue_ok_def)
  define v where "v = snd (sm_vector_erase_item (int i) (us_devs sv))"
  note e = erase_facts [OF c(3,2), folded v_def]
  have cnt: "v_count v = v_count (us_devs sv) - 1"
    using length_items [OF e(1)] e(3) c(2) by (simp add: remove_nth_def length_items [OF c(3)])
  have sv': "us_devs sv' = (if v_count v = 0 then v else map_vec (wait_again now) v)"
    using assms(3) c(1) by (auto simp: sm_sv_boot_reset_upgrading_dev_def sm_vector_get_size_def Let_def split: if_splits simp flip: v_def)
  show ?thesis
  proof (cases "i = v_count v")
    case True
    then have "v_memory v = v_memory (us_devs sv)"
      using c(2) cnt unfolding v_def erase_item_index [OF c(2)] by (simp add: sm_vector_erase_item_by_index_def)
    moreover have "length (v_memory v) \<le> v_count v \<or> v_memory (map_vec (wait_again now) v) ! i = v_memory v ! i"
      using e(1) True by (auto simp: map_vec_def overwrite_def nth_append vec_ok_def)
    moreover have "v_count v < length (v_memory v)" using calculation(1) c(2,3) True by (simp add: vec_ok_def)
    ultimately show ?thesis using assms(2) sv' by (auto simp: dev_at_def)
  next
    case False
    then have i: "i < v_count v" using c(2) cnt by linarith
    have "v_memory (map_vec (wait_again now) v) ! i = wait_again now (v_memory v ! i)"
      using i e(1) by (simp add: map_vec_def overwrite_def nth_append vec_ok_def)
    then show ?thesis using i sv' by (simp add: dev_at_def wait_again_def)
  qed
qed

definition slot_free :: "nat \<Rightarrow> 'w upgrade_sv \<Rightarrow> bool" where
  "slot_free i sv \<longleftrightarrow> us_current sv = Some i \<or> ud_state (dev_at i sv) \<noteq> UPGRADING_DEV_UPGRADING"

lemma fail_slot:
  assumes "chosen i sv" "ud_state (dev_at i sv) \<noteq> UPGRADING_DEV_UPGRADING"
  shows "ends_in (\<lambda>(sv, _). slot_free i sv) (fail_dev now err (sv, w))"
  using reset_slot [OF assms] by (auto simp: fail_dev_def slot_free_def split: prod.split)

lemma ends_in_bind: "(\<And>a. r = Inr a \<Longrightarrow> ends_in P (f a)) \<Longrightarrow> ends_in P (bind r f)"
  by (cases r) simp_all

lemma start_slot:
  assumes "chosen i sv" "ud_state (dev_at i sv) \<noteq> UPGRADING_DEV_UPGRADING"
  shows "ends_in (\<lambda>(sv, _). slot_free i sv) (sm_sv_boot_start_upgrading_dev env now junk (sv, w))"
proof -
  have cur: "us_current sv = Some i" using assms(1) by (simp add: chosen_def)
  have fail: "ends_in (\<lambda>(sv, _). slot_free i sv) (fail_dev now err (sv\<lparr>us_master := m\<rparr>, w))" if "master_free m" for err m w
    by (rule fail_slot) (use assms that in \<open>simp_all add: chosen_def queue_ok_def dev_at_def\<close>)
  have "master_free (us_master sv)" using assms(1) by (simp add: chosen_def)
  then show ?thesis
    using fail_slot [OF assms] cur
    by (auto simp: sm_sv_boot_start_upgrading_dev_def Let_def slot_free_def put_dev_def
        intro!: ends_in_bind fail dest!: add_to_free split: prod.split if_splits)
qed

lemma await_slot:
  assumes "chosen i sv" "ud_state (dev_at i sv) \<noteq> UPGRADING_DEV_UPGRADING" "await_reboot env now junk i (sv, w) = Inr ((False, sv', w'), ns)"
  shows "slot_free i sv'"
proof -
  have "ends_in (\<lambda>(sv, _). slot_free i sv) (and_then (Inr ((sv, w), ms)) (sm_sv_boot_start_upgrading_dev env now junk))" for ms
    by (rule ends_in_and_then [where P = "\<lambda>x. x = (sv, w)"]) (use start_slot [OF assms(1,2)] in auto)
  then have st: "and_then (Inr ((sv, w), ms)) (sm_sv_boot_start_upgrading_dev env now junk) = Inr ((sv', w'), ns') \<Longrightarrow> slot_free i sv'" for ms ns'
    by (metis (no_types, lifting) ends_in_simps(2) prod.case)
  show ?thesis
    using assms(2,3) st
    by (auto simp: await_reboot_def Let_def slot_free_def notify_rebooted_def map_sum_def simp del: and_then_simps
        split: if_splits option.splits sum.splits)
qed

lemma current_keeps:
  assumes "sv_inv sv"
  shows "keeps sv (run_current env now sig0 junk (sv, w))"
proof (cases "us_current sv")
  case None
  then show ?thesis using assms by (simp add: run_current_def)
next
  case (Some i)
  let ?r = "if ud_state (dev_at i sv) = UPGRADING_DEV_WAITING_REBOOT then await_reboot env now junk i (sv, w) else Inr ((False, sv, w), [])"
  show ?thesis
    unfolding run_current_def prod.case Some option.case
  proof (rule keeps_flag_then)
    show "keeps_flag sv ?r"
      using assms Some by (auto intro: await_keeps waits_reboot_chosen)
  next
    fix b sv' w' ns
    assume r: "?r = Inr ((b, sv', w'), ns)" and inv: "sv_inv sv'"
    show "keeps sv' ((\<lambda>(done, sv, w). if done \<or> ud_state (dev_at i sv) \<noteq> UPGRADING_DEV_UPGRADING then Inr ((sv, w), [])
        else run_master env now sig0 (sv, w)) (b, sv', w'))"
    proof (cases "b \<or> ud_state (dev_at i sv') \<noteq> UPGRADING_DEV_UPGRADING")
      case False
      then have "us_current sv' = Some i"
        using r await_slot [OF waits_reboot_chosen [OF assms Some], of env now junk w sv' w' ns] Some
        by (auto simp: slot_free_def split: if_splits)
      then show ?thesis using False master_keeps [OF inv] by simp
    qed (use inv in auto)
  qed
qed

lemma sv_process_keeps:
  assumes "sv_inv sv"
  shows "keeps sv (sm_sv_boot_master_process env now sig0 junk (sv, w))"
  unfolding sm_sv_boot_master_process_def prod.case
proof (rule keeps_flag_then)
  show "keeps_flag sv (if 0 < sm_vector_get_size (us_devs sv) \<and> us_current sv = None
      then pick_dev env now junk [0..<sm_vector_get_size (us_devs sv)] (sv, w) else Inr ((False, sv, w), []))"
    using assms by (auto simp: sm_vector_get_size_def intro: pick_keeps)
qed (use current_keeps in auto)

section \<open>Runs\<close>

text \<open>Requests and turns, in any order. What is seen of them: whether a request was accepted, and the callbacks.\<close>

datatype 'w upgrade_call = Ask int "'w upgrade_request" | Turn int fw_signature "boot_slave option"

datatype upgrade_seen = Accepted u8 | Refused u8 | Told upgrade_note

definition sv_call ::
  "'w upgrade_env \<Rightarrow> 'w upgrade_call \<Rightarrow> 'w upgrade_sv \<times> 'w \<Rightarrow> ('w upgrade_sv \<times> 'w, upgrade_seen) result" where
  "sv_call env c = (\<lambda>(sv, w). case c of
     Ask now info \<Rightarrow> (case sm_sv_boot_master_request_upgrade now info sv of
       (r, sv) \<Rightarrow> Inr ((sv, w), [if r < 0 then Refused (ur_network_id info) else Accepted (ur_network_id info)]))
   | Turn now sig0 junk \<Rightarrow> map_sum id (\<lambda>(svw, ns). (svw, map Told ns)) (sm_sv_boot_master_process env now sig0 junk (sv, w)))"

definition accepted :: "upgrade_seen list \<Rightarrow> u8 list" where
  "accepted xs = concat (map (\<lambda>x. case x of Accepted n \<Rightarrow> [n] | _ \<Rightarrow> []) xs)"

definition told :: "upgrade_seen list \<Rightarrow> upgrade_note list" where
  "told xs = concat (map (\<lambda>x. case x of Told n \<Rightarrow> [n] | _ \<Rightarrow> []) xs)"

lemma seen_simps [simp]:
  "accepted [] = []" "told [] = []" "accepted (xs @ ys) = accepted xs @ accepted ys" "told (xs @ ys) = told xs @ told ys"
  "accepted (map Told ns) = []" "told (map Told ns) = ns"
  by (simp_all add: accepted_def told_def comp_def)

lemma ask_keeps:
  assumes "sv_inv sv" "sm_sv_boot_master_request_upgrade now info sv = (r, sv')"
  shows "sv_inv sv' \<and> same_cbs sv sv' \<and> dev_ids sv' = dev_ids sv @ (if r < 0 then [] else [ur_network_id info])
    \<and> (r < 0 \<longleftrightarrow> length (dev_ids sv) = SM_SV_BOOT_MAX_DEV_SUPPORT)"
proof -
  have v: "vec_ok (us_devs sv)" "v_max (us_devs sv) = SM_SV_BOOT_MAX_DEV_SUPPORT" using assms(1) by (simp_all add: sv_inv_def queue_ok_def)
  have len: "length (dev_ids sv) = v_count (us_devs sv)" by (simp add: dev_ids_def length_items v(1))
  have le: "v_count (us_devs sv) \<le> SM_SV_BOOT_MAX_DEV_SUPPORT" using v by (simp add: vec_ok_def)
  show ?thesis
  proof (cases "v_count (us_devs sv) < v_max (us_devs sv)")
    case False
    then show ?thesis using assms le len v(2) by (simp add: sm_sv_boot_master_request_upgrade_def sm_vector_is_full_def same_cbs_def)
  next
    case True
    obtain r' v' where p: "sm_vector_push_back (new_dev now info) (us_devs sv) = (r', v')" by fastforce
    note q = push_back_vec [OF v(1) True p]
    have sv': "r = 0" "sv' = sv\<lparr>us_devs := v'\<rparr>"
      using assms(2) True p q by (simp_all add: sm_sv_boot_master_request_upgrade_def sm_vector_is_full_def)
    have cnt: "v_count v' = v_count (us_devs sv) + 1" using q length_items [of v'] length_items [OF v(1)] by simp
    have at: "dev_at j sv' = (if j < v_count (us_devs sv) then dev_at j sv else new_dev now info)" if "j < v_count v'" for j
      using q that nth_items [of v' j] nth_items [OF v(1), of j] length_items [OF v(1)] cnt
      by (auto simp: sv'(2) dev_at_def nth_append)
    have new: "waits_online (new_dev now info)" by (simp add: new_dev_def waits_online_def)
    have f: "us_devs sv' = v'" "us_current sv' = us_current sv" "us_master sv' = us_master sv" by (simp_all add: sv'(2))
    have "queue_ok sv'" using assms(1) at q v(2) cnt new by (auto simp: sv_inv_def queue_ok_def f)
    then have "sv_inv sv'" using assms(1) at cnt by (auto simp: sv_inv_def f split: option.splits)
    moreover have "dev_ids sv' = dev_ids sv @ [ur_network_id info]" using q by (simp add: dev_ids_def sv'(2) new_dev_def)
    ultimately show ?thesis using sv' True len v(2) by (simp add: same_cbs_def)
  qed
qed

lemma call_conserves:
  assumes "sv_inv sv" "sv_call env c (sv, w) = Inr ((sv', w'), out)"
  shows "sv_inv sv' \<and> same_cbs sv sv'
    \<and> (us_on_upgraded sv \<longrightarrow> mset (accepted out) + mset (dev_ids sv) = mset (reported (told out)) + mset (dev_ids sv'))"
proof (cases c)
  case (Ask now info)
  obtain r sv1 where r: "sm_sv_boot_master_request_upgrade now info sv = (r, sv1)" by fastforce
  then have "sv' = sv1" "out = [if r < 0 then Refused (ur_network_id info) else Accepted (ur_network_id info)]"
    using assms(2) Ask by (simp_all add: sv_call_def)
  then show ?thesis using ask_keeps [OF assms(1) r] by (auto simp: accepted_def told_def)
next
  case (Turn now sig0 junk)
  then obtain ns where ns: "sm_sv_boot_master_process env now sig0 junk (sv, w) = Inr ((sv', w'), ns)" "out = map Told ns"
    using assms(2) by (cases "sm_sv_boot_master_process env now sig0 junk (sv, w)") (auto simp: sv_call_def)
  have "sv_inv sv' \<and> conserves sv ns sv'" using sv_process_keeps [OF assms(1), of env now sig0 junk w] ns(1) by simp
  then show ?thesis using ns(2) by (simp add: conserves_def)
qed

lemma mset_step: "a + s = r + s1 \<Longrightarrow> b + s1 = r' + s' \<Longrightarrow> a + b + s = r + r' + s'" for a :: "'a multiset"
proof -
  assume 1: "a + s = r + s1" and 2: "b + s1 = r' + s'"
  have "a + b + s = b + (a + s)" by (simp add: ac_simps)
  also have "\<dots> = r + (b + s1)" by (simp add: 1 ac_simps)
  finally show ?thesis by (simp add: 2 ac_simps)
qed

lemma run_conserves:
  "sv_inv sv \<Longrightarrow> run_all (sv_call env) cs (sv, w) = Inr ((sv', w'), out) \<Longrightarrow>
    sv_inv sv' \<and> same_cbs sv sv'
    \<and> (us_on_upgraded sv \<longrightarrow> mset (accepted out) + mset (dev_ids sv) = mset (reported (told out)) + mset (dev_ids sv'))"
proof (induction cs arbitrary: sv w out)
  case Nil
  then show ?case by (simp add: same_cbs_def)
next
  case (Cons c cs)
  obtain sv1 w1 o1 where c: "sv_call env c (sv, w) = Inr ((sv1, w1), o1)"
    using Cons.prems(2) by (cases "sv_call env c (sv, w)") auto
  obtain o2 where r: "run_all (sv_call env) cs (sv1, w1) = Inr ((sv', w'), o2)" "out = o1 @ o2"
    using Cons.prems(2) c by (cases "run_all (sv_call env) cs (sv1, w1)") auto
  note one = call_conserves [OF Cons.prems(1) c]
  have "sv_inv sv1" using one by simp
  note rest = Cons.IH [OF this r(1)]
  from one rest show ?case by (auto simp: same_cbs_def r(2) intro: mset_step)
qed

lemma created_inv:
  assumes "sm_sv_boot_master_create cr cu cf mem = Some sv" "\<And>m. mem = Some m \<Longrightarrow> length m = SM_SV_BOOT_MAX_DEV_SUPPORT"
  shows "sv_inv sv \<and> us_on_upgraded sv = cu \<and> dev_ids sv = []"
  using assms
  by (cases mem) (auto simp: sm_sv_boot_master_create_def sm_vector_create_def sv_inv_def queue_ok_def vec_ok_def master_free_def
    dev_ids_def vec_items_def)

text \<open>C7.
  Whatever is requested and however the turns fall, with devices that fail, time out or cannot be rebooted: the devices whose
  upgrade was accepted are those that have been reported, each as often as it was accepted, and those that are still in the queue.
  At most one of these is not waiting, and the boot master holds a slave exactly for the one that is being upgraded.\<close>

theorem each_device_is_reported_once:
  assumes "sm_sv_boot_master_create cr True cf (Some mem) = Some sv0" "length mem = 64"
    and "run_all (sv_call env) cs (sv0, w0) = Inr ((sv, w), out)"
  shows "mset (accepted out) = mset (reported (told out)) + mset (dev_ids sv) \<and> length (dev_ids sv) \<le> 64
    \<and> (\<forall>i < length (dev_ids sv). us_current sv = Some i \<or> ud_state (dev_at i sv) = UPGRADING_DEV_WAITING_ONLINE)
    \<and> bm_number (us_master sv) = (if \<exists>i. us_current sv = Some i \<and> ud_state (dev_at i sv) = UPGRADING_DEV_UPGRADING then 1 else 0)"
proof -
  have "sv_inv sv0 \<and> us_on_upgraded sv0 = True \<and> dev_ids sv0 = []"
    by (rule created_inv [OF assms(1)]) (use assms(2) in \<open>simp add: SM_SV_BOOT_MAX_DEV_SUPPORT_def\<close>)
  then have r: "sv_inv sv" "mset (accepted out) = mset (reported (told out)) + mset (dev_ids sv)"
    using run_conserves [OF _ assms(3)] by auto
  have q: "vec_ok (us_devs sv)" "v_max (us_devs sv) = 64" using r(1) by (simp_all add: sv_inv_def queue_ok_def SM_SV_BOOT_MAX_DEV_SUPPORT_def)
  then have "length (dev_ids sv) = v_count (us_devs sv)" "v_count (us_devs sv) \<le> 64" by (simp_all add: dev_ids_def length_items vec_ok_def)
  then show ?thesis using r
    by (auto simp: sv_inv_def queue_ok_def waits_online_def master_free_def sm_boot_master_create_def master_runs_def split: option.splits)
qed

section \<open>A device that never comes online\<close>

definition never_online :: "'w upgrade_dev \<Rightarrow> bool" where
  "never_online d \<longleftrightarrow> waits_online d \<and> (\<forall>n w. \<not> di_condition (ur_if (ud_info d)) n w)"

text \<open>The devices of the queue, with no upgrade under way, and all of them given up at \<open>T\<close> at the latest.\<close>

definition all_offline :: "int \<Rightarrow> 'w upgrade_sv \<Rightarrow> bool" where
  "all_offline T sv \<longleftrightarrow> vec_ok (us_devs sv) \<and> us_current sv = None
     \<and> (\<forall>d \<in> set (vec_items (us_devs sv)). never_online d \<and> timed_out T (ud_timeout d))"

lemma pick_offline:
  assumes "all_offline T sv" "set is \<subseteq> {..< v_count (us_devs sv)}"
  shows "pick_dev env now junk is (sv, w) =
    (case List.find (\<lambda>i. timed_out now (ud_timeout (dev_at i sv))) is of
       None \<Rightarrow> Inr ((False, sv, w), [])
     | Some i \<Rightarrow> let v = snd (sm_vector_erase_item (int i) (us_devs sv)) in Inr ((True, sv\<lparr>us_devs := v\<rparr>, w),
         notify_upgraded sv (dev_at i sv) SM_SV_BOOT_MASTER_ERR_TIMEOUT @ (if sm_vector_get_size v = 0 then notify_finish sv else [])))"
  using assms(2)
proof (induction "is")
  case (Cons i "is")
  have "dev_at i sv \<in> set (vec_items (us_devs sv))"
    using assms(1) Cons.prems nth_items [of "us_devs sv" i] length_items [of "us_devs sv"]
    by (simp add: all_offline_def dev_at_def) (metis nth_mem)
  then have "never_online (dev_at i sv)" using assms(1) by (simp add: all_offline_def)
  then show ?case using Cons by (auto simp: never_online_def waits_online_def Let_def)
qed simp

lemma turn_offline:
  assumes "all_offline T sv" "us_on_upgraded sv" "us_on_finish sv"
  shows "\<exists>sv' ns. sm_sv_boot_master_process env now sig0 junk (sv, w) = Inr ((sv', w), ns) \<and> all_offline T sv' \<and> same_cbs sv sv'
    \<and> (if ns = [] then sv' = sv else \<exists>i < length (dev_ids sv). dev_ids sv' = remove_nth i (dev_ids sv)
         \<and> ns = On_Upgraded (dev_ids sv ! i) (of_int SM_SV_BOOT_MASTER_ERR_TIMEOUT) # (if length (dev_ids sv) = 1 then [On_Finish] else []))
    \<and> (T \<le> now \<and> dev_ids sv \<noteq> [] \<longrightarrow> ns \<noteq> [])"
proof -
  have v: "vec_ok (us_devs sv)" "us_current sv = None" using assms(1) by (simp_all add: all_offline_def)
  let ?is = "[0..<v_count (us_devs sv)]"
  have len: "length (dev_ids sv) = v_count (us_devs sv)" by (simp add: dev_ids_def length_items v(1))
  have run: "sm_sv_boot_master_process env now sig0 junk (sv, w) =
      and_then (pick_dev env now junk ?is (sv, w)) (\<lambda>(done, svw). if done then Inr (svw, []) else run_current env now sig0 junk svw)"
    using v(2) by (cases "v_count (us_devs sv) = 0") (simp_all add: sm_sv_boot_master_process_def sm_vector_get_size_def)
  have pick: "pick_dev env now junk ?is (sv, w) =
    (case List.find (\<lambda>i. timed_out now (ud_timeout (dev_at i sv))) ?is of
       None \<Rightarrow> Inr ((False, sv, w), [])
     | Some i \<Rightarrow> let v = snd (sm_vector_erase_item (int i) (us_devs sv)) in Inr ((True, sv\<lparr>us_devs := v\<rparr>, w),
         notify_upgraded sv (dev_at i sv) SM_SV_BOOT_MASTER_ERR_TIMEOUT @ (if sm_vector_get_size v = 0 then notify_finish sv else [])))"
    by (rule pick_offline [OF assms(1)]) auto
  show ?thesis
  proof (cases "List.find (\<lambda>i. timed_out now (ud_timeout (dev_at i sv))) ?is")
    case None
    then have none: "\<not> timed_out now (ud_timeout (dev_at i sv))" if "i < v_count (us_devs sv)" for i using that by (auto simp: find_None_iff)
    have "\<not> (T \<le> now \<and> dev_ids sv \<noteq> [])"
    proof
      assume a: "T \<le> now \<and> dev_ids sv \<noteq> []"
      then have n: "0 < v_count (us_devs sv)" by (metis len length_greater_0_conv)
      then have "dev_at 0 sv \<in> set (vec_items (us_devs sv))"
        using nth_items [OF v(1), of 0] length_items [OF v(1)] by (metis dev_at_def nth_mem)
      then show False using assms(1) none [OF n] timed_out_mono a by (auto simp: all_offline_def)
    qed
    then show ?thesis using None assms(1) v(2) by (simp add: run pick run_current_def same_cbs_def)
  next
    case (Some i)
    then have i: "i < v_count (us_devs sv)" by (auto simp: find_Some_iff)
    note e = erase_facts [OF v(1) i]
    let ?v = "snd (sm_vector_erase_item (int i) (us_devs sv))"
    have "set (vec_items ?v) \<subseteq> set (vec_items (us_devs sv))" unfolding e(3) remove_nth_def by (auto dest: in_set_takeD in_set_dropD)
    then have off: "all_offline T (sv\<lparr>us_devs := ?v\<rparr>)" using assms(1) e(1) by (auto simp: all_offline_def)
    have cnt: "v_count ?v = v_count (us_devs sv) - 1"
      using length_items [OF e(1)] e(3) i by (simp add: remove_nth_def length_items [OF v(1)])
    have ids: "dev_ids (sv\<lparr>us_devs := ?v\<rparr>) = remove_nth i (dev_ids sv)"
      by (simp add: dev_ids_def e(3) remove_nth_def take_map drop_map)
    have "dev_ids sv ! i = ur_network_id (ud_info (dev_at i sv))"
      using i nth_items [OF v(1) i] by (simp add: dev_ids_def dev_at_def length_items v(1))
    then show ?thesis using Some assms(2,3) off ids cnt i len
      by (intro exI [of _ "sv\<lparr>us_devs := ?v\<rparr>"])
        (auto simp: run pick Let_def notify_upgraded_def notify_finish_def sm_vector_get_size_def same_cbs_def)
  qed
qed

definition sv_turns :: "'w upgrade_env \<Rightarrow> fw_signature \<Rightarrow> boot_slave option \<Rightarrow> int list \<Rightarrow> 'w upgrade_sv \<times> 'w \<Rightarrow> ('w upgrade_sv \<times> 'w, upgrade_note) result" where
  "sv_turns env sig0 junk ts = run_all (\<lambda>t. sm_sv_boot_master_process env t sig0 junk) ts"

lemma sv_turns_Cons:
  "sm_sv_boot_master_process env t sig0 junk svw = Inr (svw', ns) \<Longrightarrow> sv_turns env sig0 junk us svw' = Inr (svw'', ns') \<Longrightarrow>
    sv_turns env sig0 junk (t # us) svw = Inr (svw'', ns @ ns')"
  by (simp add: sv_turns_def)

lemma empty_turns:
  assumes "us_current sv = None" "v_count (us_devs sv) = 0"
  shows "sv_turns env sig0 junk ts (sv, w) = Inr ((sv, w), [])"
proof (induction ts)
  case (Cons t ts)
  have "sm_sv_boot_master_process env t sig0 junk (sv, w) = Inr ((sv, w), [])"
    using assms by (simp add: sm_sv_boot_master_process_def sm_vector_get_size_def run_current_def)
  from sv_turns_Cons [OF this Cons.IH] show ?case by simp
qed (simp add: sv_turns_def)

lemma offline_run:
  "all_offline T sv \<Longrightarrow> us_on_upgraded sv \<Longrightarrow> us_on_finish sv \<Longrightarrow> dev_ids sv \<noteq> [] \<Longrightarrow>
    length (dev_ids sv) \<le> length (filter (\<lambda>t. T \<le> t) ts) \<Longrightarrow>
    \<exists>sv' ids. sv_turns env sig0 junk ts (sv, w) = Inr ((sv', w), map (\<lambda>n. On_Upgraded n 254) ids @ [On_Finish])
      \<and> mset ids = mset (dev_ids sv) \<and> dev_ids sv' = []"
proof (induction ts arbitrary: sv)
  case (Cons t ts)
  obtain sv1 ns where s: "sm_sv_boot_master_process env t sig0 junk (sv, w) = Inr ((sv1, w), ns)" "all_offline T sv1" "same_cbs sv sv1"
      "if ns = [] then sv1 = sv else \<exists>i < length (dev_ids sv). dev_ids sv1 = remove_nth i (dev_ids sv)
         \<and> ns = On_Upgraded (dev_ids sv ! i) (of_int SM_SV_BOOT_MASTER_ERR_TIMEOUT) # (if length (dev_ids sv) = 1 then [On_Finish] else [])"
      "T \<le> t \<and> dev_ids sv \<noteq> [] \<longrightarrow> ns \<noteq> []"
    using turn_offline [OF Cons.prems(1-3)] by blast
  have cbs: "us_on_upgraded sv1" "us_on_finish sv1" using s(3) Cons.prems(2,3) by (simp_all add: same_cbs_def)
  show ?case
  proof (cases "ns = []")
    case True
    then have "sv1 = sv" "\<not> T \<le> t" using s(4,5) Cons.prems(4) by simp_all
    then obtain sv' ids where "sv_turns env sig0 junk ts (sv1, w) = Inr ((sv', w), map (\<lambda>n. On_Upgraded n 254) ids @ [On_Finish])"
        "mset ids = mset (dev_ids sv)" "dev_ids sv' = []"
      using Cons.IH [OF Cons.prems(1-4)] Cons.prems(5) by auto
    then show ?thesis using sv_turns_Cons [OF s(1)] True by fastforce
  next
    case False
    then obtain i where i: "i < length (dev_ids sv)" "dev_ids sv1 = remove_nth i (dev_ids sv)"
        "ns = On_Upgraded (dev_ids sv ! i) 254 # (if length (dev_ids sv) = 1 then [On_Finish] else [])"
      using s(4) by (auto simp: SM_SV_BOOT_MASTER_ERR_TIMEOUT_def)
    have m: "mset (dev_ids sv) = {#dev_ids sv ! i#} + mset (dev_ids sv1)"
      using remove_mset [OF i(1), of "\<lambda>x. x"] i(2) by simp
    then have len: "length (dev_ids sv) = length (dev_ids sv1) + 1" by (metis add.commute size_add_mset size_mset union_mset_add_mset_left add_mset_add_single Suc_eq_plus1)
    show ?thesis
    proof (cases "dev_ids sv1 = []")
      case True
      have "us_current sv1 = None" "v_count (us_devs sv1) = 0"
        using s(2) True length_items [of "us_devs sv1"] by (simp_all add: all_offline_def dev_ids_def)
      note r = sv_turns_Cons [OF s(1) empty_turns [OF this]]
      obtain x where x: "dev_ids sv = [x]" using len True by (cases "dev_ids sv") auto
      then have "ns = map (\<lambda>n. On_Upgraded n 254) [x] @ [On_Finish]" using i(1,3) by simp
      then show ?thesis using r x True by (intro exI [of _ sv1] exI [of _ "[x]"]) simp
    next
      case more: False
      have "length (dev_ids sv1) \<le> length (filter (\<lambda>t. T \<le> t) ts)" using Cons.prems(5) len by (simp split: if_splits)
      from Cons.IH [OF s(2) cbs more this]
      obtain sv' ids where r: "sv_turns env sig0 junk ts (sv1, w) = Inr ((sv', w), map (\<lambda>n. On_Upgraded n 254) ids @ [On_Finish])"
          "mset ids = mset (dev_ids sv1)" "dev_ids sv' = []" by blast
      have "length (dev_ids sv) \<noteq> 1" using len more by simp
      then show ?thesis using sv_turns_Cons [OF s(1) r(1)] r(2,3) i(3) m
        by (intro exI [of _ sv'] exI [of _ "dev_ids sv ! i # ids"]) simp
    qed
  qed
qed simp

text \<open>C17.
  Devices that never come online do not stay in the queue: after their time is over each turn gives one of them up, with the error
  of a timeout (-2, which the callback takes as 254), and the end of the process is reported once, after the last of them.\<close>

theorem offline_devices_are_given_up:
  assumes "all_offline T sv" "us_on_upgraded sv" "us_on_finish sv" "dev_ids sv \<noteq> []"
    and "length (dev_ids sv) \<le> length (filter (\<lambda>t. T \<le> t) ts)"
  shows "\<exists>sv' ids. sv_turns env sig0 junk ts (sv, w) = Inr ((sv', w), map (\<lambda>n. On_Upgraded n 254) ids @ [On_Finish])
      \<and> mset ids = mset (dev_ids sv) \<and> dev_ids sv' = []"
  by (rule offline_run [OF assms])

section \<open>Examples\<close>

definition example_env :: "unit upgrade_env" where
  "example_env = \<lparr>ue_ifs = \<lambda>_. \<lparr>in_init = Inr, in_free = Inr, in_info = \<lambda>w _. Inr (None, w), in_seg = \<lambda>seg w. Inr (0, seg, w),
       in_completed = None, in_process = None, out_init = Inr, out_free = Inr, out_request = \<lambda>_ w. Inr ([], w),
       out_set_info = \<lambda>_ w. Inr ([], w), out_set_seg = \<lambda>_ w. Inr (0, [], w), out_process = None,
       out_events = \<lambda>_ _. None, out_set_events = \<lambda>_ w. w\<rparr>,
     ue_flash_input = \<lambda>p w. (p \<noteq> None, w), ue_co_output = \<lambda>w. (True, w), ue_flash_output = \<lambda>p _ w. (p \<noteq> None, w)\<rparr>"

definition example_request :: "u8 \<Rightarrow> bool \<Rightarrow> unit upgrade_request" where
  "example_request n b = \<lparr>ur_boot_id = 4, ur_network_id = n, ur_if = \<lparr>di_reboot = None, di_rebooted = None, di_condition = \<lambda>_ _. b\<rparr>,
     ur_input_type = SM_SV_BOOT_MASTER_INPUT_FILE, ur_output_type = SM_SV_BOOT_MASTER_OUTPUT_CANOPEN,
     ur_flash_in = None, ur_flash_out = None, ur_storage = None\<rparr>"

definition example_sv :: "unit upgrade_dev list \<Rightarrow> unit upgrade_sv" where
  "example_sv ds = \<lparr>us_devs = \<lparr>v_memory = ds @ replicate (64 - length ds) (new_dev 0 (example_request 0 False)), v_max = 64, v_count = length ds\<rparr>,
     us_current = None, us_master = sm_boot_master_create True, us_on_rebooted = True, us_on_upgraded = True, us_on_finish = True\<rparr>"

lemma each_device_is_reported_once_witness:
  "\<exists>sv out. run_all (sv_call example_env) [Ask 0 (example_request 5 True), Ask 0 (example_request 6 False), Turn 1 undefined None]
       (example_sv [], ()) = Inr ((sv, ()), out)
     \<and> out = [Accepted 5, Accepted 6, Told (On_Upgraded 5 251)] \<and> mset (accepted out) = mset (reported (told out)) + mset (dev_ids sv)"
proof -
  obtain sv out where r: "run_all (sv_call example_env) [Ask 0 (example_request 5 True), Ask 0 (example_request 6 False), Turn 1 undefined None]
       (example_sv [], ()) = Inr ((sv, ()), out)" "out = [Accepted 5, Accepted 6, Told (On_Upgraded 5 251)]"
    by (simp add: sv_call_def example_sv_def sm_sv_boot_master_request_upgrade_def sm_vector_is_full_def sm_vector_push_back_def new_dev_def
        sm_sv_boot_master_process_def sm_vector_get_size_def upt_conv_Cons dev_at_def timed_out_iff example_request_def
        SM_SV_BOOT_WAITING_ONLINE_TIMEOUT_def sm_sv_boot_prepare_upgrading_dev_def sm_sv_boot_start_upgrading_dev_def put_dev_def boot_input_def
        fail_dev_def sm_sv_boot_reset_upgrading_dev_def notify_upgraded_def sm_vector_erase_item_def Let_def SM_SV_BOOT_MASTER_ERR_NOT_SUPPORT_def)
  have "sm_sv_boot_master_create True True True (Some (v_memory (us_devs (example_sv [])))) = Some (example_sv [])"
    by (simp add: sm_sv_boot_master_create_def sm_vector_create_def example_sv_def SM_SV_BOOT_MAX_DEV_SUPPORT_def)
  from each_device_is_reported_once [OF this _ r(1)] show ?thesis using r by (simp add: example_sv_def)
qed

lemma offline_devices_are_given_up_witness:
  "\<exists>sv' ids. sv_turns example_env undefined None [100, 45000, 45010] (example_sv [new_dev 0 (example_request 5 False), new_dev 0 (example_request 6 False)], ())
      = Inr ((sv', ()), map (\<lambda>n. On_Upgraded n 254) ids @ [On_Finish]) \<and> mset ids = {#5, 6#} \<and> dev_ids sv' = []"
  using offline_devices_are_given_up [of 45000 "example_sv [new_dev 0 (example_request 5 False), new_dev 0 (example_request 6 False)]"
      "[100, 45000, 45010]" example_env undefined None "()"]
  by (simp add: all_offline_def example_sv_def vec_ok_def vec_items_def never_online_def waits_online_def new_dev_def example_request_def
      timed_out_iff SM_SV_BOOT_WAITING_ONLINE_TIMEOUT_def dev_ids_def)

end
