(* ===== verification/Flash_Source.thy ===== *)
theory Flash_Source
  imports Flash_Input Boot_Slave
begin

text \<open>
  The flash as a source, segment by segment: what it has given after \<open>n\<close> segments of an image, and the segment it gives next.
\<close>

definition source_at :: "u8 list \<Rightarrow> u32 \<Rightarrow> u8 list \<Rightarrow> u8 list \<Rightarrow> nat \<Rightarrow> flash_input \<Rightarrow> bool" where
  "source_at part base ver img n g \<longleftrightarrow>
     fw_addr (fi_sig g) = base \<and> fw_version (fi_sig g) = ver
     \<and> fw_size (fi_sig g) = of_nat (length (take (1024 * n) img))
     \<and> fw_crc (fi_sig g) = sm_CRC_CalculateCRC16_init_value CRC_16_INIT_VALUE (take (1024 * n) img)
     \<and> (if length img < 1024 * n then fi_finish g
        else \<exists>rs. at_records part rs g \<and> fits_segments 0 rs \<and> payload rs = drop (1024 * n) img)"

lemma last_piece:
  fixes n q r :: nat
  assumes "n \<le> q" "r < 1024"
  shows "1024 * q + r - 1024 * n < 1024 \<longleftrightarrow> n = q" "1024 * q + r < 1024 * (n + 1) \<longleftrightarrow> n = q"
proof -
  obtain d where "q = n + d" using assms(1) le_Suc_ex by blast
  then show "1024 * q + r - 1024 * n < 1024 \<longleftrightarrow> n = q" "1024 * q + r < 1024 * (n + 1) \<longleftrightarrow> n = q"
    using assms(2) by (cases d; simp)+
qed

lemma source_step:
  assumes "source_at part base ver img n g" "n \<le> length img div 1024" "length hb = 50"
    and "length (seg_data seg) = SM_SEGMENT_FW_SIZE" "seg_index seg = int n"
  shows "\<exists>seg' g'. sm_input_flash_get_seg_fw part stale hb seg g = Inr (1, seg', g')
    \<and> content seg' = take 1024 (drop (1024 * n) img) \<and> seg_addr seg' = base + of_int (int n * 1024) \<and> sm_seg_is_valid seg'
    \<and> seg_length seg' = length (content seg') \<and> sm_seg_is_full seg' \<and> length (seg_data seg') = SM_SEGMENT_FW_SIZE
    \<and> seg_index seg' = seg_index seg \<and> (seg_last seg' \<noteq> 0 \<longleftrightarrow> n = length img div 1024) \<and> source_at part base ver img (n + 1) g'"
proof -
  obtain q r where q: "length img = 1024 * q + r" "r < 1024" "length img div 1024 = q"
    by (metis mult_div_mod_eq mod_less_divisor zero_less_numeral)
  have nq: "n \<le> q" using assms(2) q(3) by simp
  have "1024 * n \<le> length img" using q(1) nq by simp
  then obtain rs where rs: "at_records part rs g" "fits_segments 0 rs" "payload rs = drop (1024 * n) img"
    using assms(1) by (auto simp: source_at_def)
  from next_segment [OF rs(1,2) assms(3,4), of stale]
  obtain seg' g' where s: "sm_input_flash_get_seg_fw part stale hb seg g = Inr (1, seg', g')"
      "content seg' = take 1024 (payload rs)" "length (seg_data seg') = SM_SEGMENT_FW_SIZE" "seg_index seg' = seg_index seg"
      "seg_addr seg' = fw_addr (fi_sig g) + of_int (seg_index seg * 1024)" "sm_seg_is_valid seg'"
      "fi_sig g' = sig_after (take 1024 (payload rs)) (fi_sig g)" "seg_length seg' = length (content seg')" "sm_seg_is_full seg'"
      "if length (payload rs) < 1024 then seg_last seg' = 1 \<and> fi_finish g'
       else seg_last seg' = 0 \<and> (\<exists>rs'. at_records part rs' g' \<and> fits_segments 0 rs' \<and> payload rs' = drop 1024 (payload rs))"
    by blast
  have len: "length (payload rs) = length img - 1024 * n" by (simp add: rs(3))
  have last: "length (payload rs) < 1024 \<longleftrightarrow> n = q" using last_piece(1) [OF nq q(2)] len q(1) by simp
  have more: "length img < 1024 * (n + 1) \<longleftrightarrow> n = q" using last_piece(2) [OF nq q(2)] q(1) by simp
  have split: "take (1024 * (n + 1)) img = take (1024 * n) img @ take 1024 (payload rs)"
    using take_add [of "1024 * n" 1024 img] by (simp add: rs(3) algebra_simps)
  have sig: "fw_addr (fi_sig g) = base" "fw_version (fi_sig g) = ver" "fw_size (fi_sig g) = of_nat (length (take (1024 * n) img))"
      "fw_crc (fi_sig g) = sm_CRC_CalculateCRC16_init_value CRC_16_INIT_VALUE (take (1024 * n) img)"
    using assms(1) by (simp_all only: source_at_def)
  have "seg_last seg' \<noteq> 0 \<longleftrightarrow> n = length img div 1024" using s(10) last q(3) by (auto split: if_splits)
  moreover have "source_at part base ver img (n + 1) g'"
    unfolding source_at_def more split
  proof (intro conjI)
    show "fw_size (fi_sig g') = of_nat (length (take (1024 * n) img @ take 1024 (payload rs)))"
      unfolding length_append of_nat_add using s(7) sig(3) by (simp add: sig_after_def)
    show "fw_crc (fi_sig g') = sm_CRC_CalculateCRC16_init_value CRC_16_INIT_VALUE (take (1024 * n) img @ take 1024 (payload rs))"
      using s(7) sig(4) by (simp add: sig_after_def frame_split_fold)
    have "drop 1024 (payload rs) = drop (1024 * (n + 1)) img" by (simp add: rs(3) algebra_simps)
    then show "if n = q then fi_finish g' else \<exists>rs. at_records part rs g' \<and> fits_segments 0 rs \<and> payload rs = drop (1024 * (n + 1)) img"
      using s(10) last by (auto split: if_splits)
  qed (use s(7) sig(1,2) in \<open>simp_all add: sig_after_def\<close>)
  ultimately show ?thesis using s(1-4,6,8,9) s(5) sig(1) assms(5) rs(3) by metis
qed

section \<open>The start of a file\<close>

text \<open>A file that begins with an address record and a data record, and a source that has not been opened.\<close>

definition file_start :: "u8 list \<Rightarrow> hrec list \<Rightarrow> u32 \<Rightarrow> flash_input \<Rightarrow> bool" where
  "file_start part rs base g \<longleftrightarrow>
     at_records part rs g \<and> fi_addr g = 0 \<and> fw_addr (fi_sig g) = 0 \<and> fw_offset (fi_sig g) < 0 \<and> fw_size (fi_sig g) = 0
     \<and> (\<exists>hi lo a xs rest. rs = (INTEL_HEX_Extended_Linear_Address, (0, 0), [hi, lo]) # (INTEL_HEX_Data, a, xs) # rest
          \<and> base = push_bit 16 (push_bit 8 (ucast hi) OR ucast lo) + (push_bit 8 (ucast (fst a)) OR ucast (snd a)))"

lemma init_source:
  assumes "file_start part rs base g" "fits_segments 0 rs" "length hb = 50"
  shows "\<exists>g'. sm_input_flash_init part stale hb g = Inr (0, g') \<and> source_at part base (fw_version (fi_sig g)) (payload rs) 0 g'"
proof -
  obtain hi lo a xs rest where rs: "rs = (INTEL_HEX_Extended_Linear_Address, (0, 0), [hi, lo]) # (INTEL_HEX_Data, a, xs) # rest"
      "base = push_bit 16 (push_bit 8 (ucast hi) OR ucast lo) + (push_bit 8 (ucast (fst a)) OR ucast (snd a))"
    using assms(1) by (auto simp: file_start_def)
  note st = assms(1) [unfolded file_start_def]
  have st': "at_records part ((INTEL_HEX_Extended_Linear_Address, (0, 0), [hi, lo]) # (INTEL_HEX_Data, a, xs) # rest) g"
      "fi_addr g = 0" "fw_addr (fi_sig g) = 0" "fw_offset (fi_sig g) < 0" using st rs(1) by simp_all
  obtain g' where g: "sm_input_flash_init part stale hb g = Inr (0, g')" "at_records part rs g'" "fw_addr (fi_sig g') = base"
      "fw_size (fi_sig g') = fw_size (fi_sig g)" "fw_crc (fi_sig g') = CRC_16_INIT_VALUE" "fw_version (fi_sig g') = fw_version (fi_sig g)"
    using flash_init_finds_base [OF st' assms(3) refl refl, of stale] unfolding rs by blast
  then have "source_at part base (fw_version (fi_sig g)) (payload rs) 0 g'"
    using st assms(2) by (auto simp: source_at_def sm_CRC_CalculateCRC16_init_value_def)
  then show ?thesis using g(1) by blast
qed

text \<open>A file of three bytes at 0x20000.\<close>

definition example_records :: "hrec list" where
  "example_records = [(INTEL_HEX_Extended_Linear_Address, (0, 0), [0, 2]), (INTEL_HEX_Data, (0, 0), [1, 2, 3])]"

definition example_opened :: flash_input where
  "example_opened = example_source\<lparr>fi_sig := (fi_sig example_source)\<lparr>fw_addr := 0, fw_offset := -1\<rparr>\<rparr>"

lemma example_payload: "payload example_records = [1, 2, 3]" "fits_segments 0 example_records"
  by (simp_all add: example_records_def is_data_def INTEL_HEX_Data_def INTEL_HEX_Extended_Linear_Address_def)

lemma example_short: "\<forall>r \<in> set example_records. short_rec r \<and> fst r \<noteq> INTEL_HEX_EndFile"
  by (simp add: example_records_def short_rec_def INTEL_HEX_EndFile_def INTEL_HEX_Data_def INTEL_HEX_Extended_Linear_Address_def)

lemma example_file: "file_start (example_part example_records) example_records 0x20000 example_opened"
proof -
  have "at_records (example_part example_records) example_records example_source" by (rule example_at [OF example_short])
  then have "at_records (example_part example_records) example_records example_opened" by (simp add: at_records_def example_opened_def)
  moreover have "(0x20000 :: u32) = push_bit 16 (push_bit 8 (ucast (0 :: u8)) OR ucast (2 :: u8)) + (push_bit 8 (ucast (0 :: u8)) OR ucast (0 :: u8))"
    by simp
  moreover have "fi_addr example_opened = 0 \<and> fw_addr (fi_sig example_opened) = 0 \<and> fw_offset (fi_sig example_opened) < 0
      \<and> fw_size (fi_sig example_opened) = 0" by (simp add: example_opened_def example_source_def)
  ultimately show ?thesis unfolding file_start_def example_records_def by (metis fst_conv snd_conv)
qed

definition example_slave :: boot_slave where
  "example_slave = \<lparr>bs_id = 0, bs_segment = sm_seg_create, bs_waiting = False, bs_sig = fi_sig example_source,
     bs_state = SM_BOOT_SLAVE_STATE_IDLE, bs_timeout = \<lparr>m_duration = 0, m_start_time = 0\<rparr>, bs_repeat = 0, bs_finish_cb = False,
     bs_abort_cb = False, bs_regs = create_regs (\<lambda>_. None)\<rparr>"

end
