(* ===== verification/Ex_Flash.thy ===== *)
theory Ex_Flash
  imports Prelude
begin

text \<open>
  \<^verbatim>\<open>common/modules/ex_flash_module/sm_ex_flash_storage.c\<close>: the external flash and its partitions, over a table of functions of
  the chip, and the virtual chip of \<^verbatim>\<open>interface/sm_ex_flash_storage_virtual_flash_interface.c\<close>.

  \<open>'f\<close> is the state of the chip. Addresses and lengths are 32-bit words, and wrap as they do in the code. A read returns the
  bytes it has copied, or \<open>None\<close> for the result -1, which leaves the buffer of the caller as it was.
\<close>

section \<open>The chip\<close>

record 'f flash_proc =
  fp_open :: "'f \<Rightarrow> int \<times> 'f"
  fp_write :: "u32 \<Rightarrow> u8 list \<Rightarrow> 'f \<Rightarrow> fault + (int \<times> 'f)"
  fp_read :: "u32 \<Rightarrow> u32 \<Rightarrow> 'f \<Rightarrow> fault + u8 list option"
  fp_erase_pages :: "u32 \<Rightarrow> 'f \<Rightarrow> fault + (int \<times> 'f)"
  fp_erase_full :: "'f \<Rightarrow> fault + (int \<times> 'f)"
  fp_page_count :: "'f \<Rightarrow> u32"
  fp_page_size :: "'f \<Rightarrow> u32"
  fp_close :: "'f \<Rightarrow> int \<times> 'f"

text \<open>The bytes of an array from \<open>a\<close> on are replaced, those behind them are kept.\<close>

definition write_at :: "nat \<Rightarrow> 'a list \<Rightarrow> 'a list \<Rightarrow> 'a list" where
  "write_at a xs m = take a m @ xs @ drop (a + length xs) m"

definition bytes_at :: "nat \<Rightarrow> nat \<Rightarrow> 'a list \<Rightarrow> 'a list" where
  "bytes_at a n m = take n (drop a m)"

section \<open>The virtual chip\<close>

definition PAGE_SIZE :: u32 where "PAGE_SIZE = 4 * 1024"
definition PAGE_COUNT :: u32 where "PAGE_COUNT = 512"
definition EMPTY_VALUE :: u8 where "EMPTY_VALUE = 0"

record virtual_flash =
  vf_page_size :: u32
  vf_page_count :: u32
  vf_buff :: "u8 list"

definition sm_ex_flash_storage_file_open :: "virtual_flash \<Rightarrow> int \<times> virtual_flash" where
  "sm_ex_flash_storage_file_open f = (0, f)"

definition sm_ex_flash_storage_file_write_bytes :: "u32 \<Rightarrow> u8 list \<Rightarrow> virtual_flash \<Rightarrow> fault + (int \<times> virtual_flash)" where
  "sm_ex_flash_storage_file_write_bytes addr xs f =
     (if vf_page_size f * vf_page_count f < addr + of_nat (length xs) then Inr (-1, f)
      else if length (vf_buff f) < unat addr + length xs then Inl Out_Of_Bounds
      else Inr (0, f\<lparr>vf_buff := write_at (unat addr) xs (vf_buff f)\<rparr>))"

definition sm_ex_flash_storage_file_read_bytes :: "u32 \<Rightarrow> u32 \<Rightarrow> virtual_flash \<Rightarrow> fault + u8 list option" where
  "sm_ex_flash_storage_file_read_bytes addr n f =
     (if vf_page_size f * vf_page_count f < addr + n then Inr None
      else if length (vf_buff f) < unat addr + unat n then Inl Out_Of_Bounds
      else Inr (Some (bytes_at (unat addr) (unat n) (vf_buff f))))"

definition sm_ex_flash_storage_file_erase_pages :: "u32 \<Rightarrow> virtual_flash \<Rightarrow> fault + (int \<times> virtual_flash)" where
  "sm_ex_flash_storage_file_erase_pages page f =
     (let a = unat (page * vf_page_size f); n = unat (vf_page_size f) in
      if length (vf_buff f) < a + n then Inl Out_Of_Bounds
      else Inr (0, f\<lparr>vf_buff := write_at a (replicate n EMPTY_VALUE) (vf_buff f)\<rparr>))"

definition sm_ex_flash_storage_file_erase_full :: "virtual_flash \<Rightarrow> fault + (int \<times> virtual_flash)" where
  "sm_ex_flash_storage_file_erase_full f =
     (let n = unat (vf_page_size f * vf_page_count f) in
      if length (vf_buff f) < n then Inl Out_Of_Bounds
      else Inr (0, f\<lparr>vf_buff := write_at 0 (replicate n EMPTY_VALUE) (vf_buff f)\<rparr>))"

definition sm_ex_flash_storage_file_get_page_count :: "virtual_flash \<Rightarrow> u32" where
  "sm_ex_flash_storage_file_get_page_count f = vf_page_count f"

definition sm_ex_flash_storage_file_get_page_size :: "virtual_flash \<Rightarrow> u32" where
  "sm_ex_flash_storage_file_get_page_size f = vf_page_size f"

definition sm_ex_flash_storage_file_close :: "virtual_flash \<Rightarrow> int \<times> virtual_flash" where
  "sm_ex_flash_storage_file_close f = (0, f)"

definition g_file_if :: "virtual_flash flash_proc" where
  "g_file_if = \<lparr>fp_open = sm_ex_flash_storage_file_open, fp_write = sm_ex_flash_storage_file_write_bytes,
     fp_read = sm_ex_flash_storage_file_read_bytes, fp_erase_pages = sm_ex_flash_storage_file_erase_pages,
     fp_erase_full = sm_ex_flash_storage_file_erase_full, fp_page_count = sm_ex_flash_storage_file_get_page_count,
     fp_page_size = sm_ex_flash_storage_file_get_page_size, fp_close = sm_ex_flash_storage_file_close\<rparr>"

definition sm_sv_ex_flash_storage_get_virtual_flash_proc :: "virtual_flash \<Rightarrow> virtual_flash flash_proc \<times> virtual_flash" where
  "sm_sv_ex_flash_storage_get_virtual_flash_proc f = (g_file_if, f\<lparr>vf_page_size := PAGE_SIZE, vf_page_count := PAGE_COUNT\<rparr>)"

section \<open>The storage\<close>

record 'f flash_storage =
  fs_proc :: "'f flash_proc"
  fs_page_size :: u32
  fs_page_count :: u32
  fs_total_size :: u32

definition sm_flash_storage_create_default :: "'f flash_proc \<Rightarrow> 'f flash_storage \<Rightarrow> 'f flash_storage" where
  "sm_flash_storage_create_default proc st = st\<lparr>fs_proc := proc\<rparr>"

definition sm_ex_flash_storage_init :: "'f flash_storage \<Rightarrow> 'f \<Rightarrow> int \<times> 'f flash_storage \<times> 'f" where
  "sm_ex_flash_storage_init st f =
     (case fp_open (fs_proc st) f of (r, f) \<Rightarrow>
        if r < 0 then (-1, st, f)
        else let ps = fp_page_size (fs_proc st) f; pc = fp_page_count (fs_proc st) f
          in (0, st\<lparr>fs_page_size := ps, fs_page_count := pc, fs_total_size := ps * pc\<rparr>, f))"

definition sm_ex_flash_erase_full :: "'f flash_storage \<Rightarrow> 'f \<Rightarrow> fault + (int \<times> 'f)" where
  "sm_ex_flash_erase_full st f = fp_erase_full (fs_proc st) f"

definition sm_ex_flash_storage_get_total_size :: "'f flash_storage \<Rightarrow> u32" where
  "sm_ex_flash_storage_get_total_size st = fs_total_size st"

definition sm_ex_flash_storage_read :: "'f flash_storage \<Rightarrow> u32 \<Rightarrow> u32 \<Rightarrow> 'f \<Rightarrow> fault + u8 list option" where
  "sm_ex_flash_storage_read st addr n f = fp_read (fs_proc st) addr n f"

definition sm_ex_flash_storage_write :: "'f flash_storage \<Rightarrow> u32 \<Rightarrow> u8 list \<Rightarrow> 'f \<Rightarrow> fault + (int \<times> 'f)" where
  "sm_ex_flash_storage_write st addr xs f = fp_write (fs_proc st) addr xs f"

text \<open>The loop over the pages: those that start in the range are erased, and the result is not looked at.\<close>

fun erase_loop :: "'f flash_storage \<Rightarrow> u32 \<Rightarrow> u32 \<Rightarrow> nat list \<Rightarrow> 'f \<Rightarrow> fault + 'f" where
  "erase_loop st addr stop [] f = Inr f"
| "erase_loop st addr stop (i # is) f =
     (let cur = of_nat i * fs_page_size st in
      if addr \<le> cur \<and> cur < stop
      then (case fp_erase_pages (fs_proc st) (of_nat i) f of Inl e \<Rightarrow> Inl e | Inr (_, f) \<Rightarrow> erase_loop st addr stop is f)
      else erase_loop st addr stop is f)"

definition sm_ex_flash_storage_erase :: "'f flash_storage \<Rightarrow> u32 \<Rightarrow> u32 \<Rightarrow> 'f \<Rightarrow> fault + (int \<times> 'f)" where
  "sm_ex_flash_storage_erase st addr n f =
     (if fs_total_size st < addr + n then Inr (-1, f)
      else map_sum id (\<lambda>f. (0, f)) (erase_loop st addr (addr + n) [0..<unat (fs_page_count st)] f))"

section \<open>Partitions\<close>

record flash_part =
  pt_addr :: u32
  pt_size :: u32

definition sm_ex_flash_storage_create_partition :: "u32 \<Rightarrow> u32 \<Rightarrow> flash_part" where
  "sm_ex_flash_storage_create_partition start n = \<lparr>pt_addr = start, pt_size = n\<rparr>"

definition sm_ex_flash_storage_erase_full_partition :: "'f flash_storage \<Rightarrow> flash_part option \<Rightarrow> 'f \<Rightarrow> fault + (int \<times> 'f)" where
  "sm_ex_flash_storage_erase_full_partition st p f =
     (case p of None \<Rightarrow> Inr (-1, f) | Some p \<Rightarrow> sm_ex_flash_storage_erase st (pt_addr p) (pt_size p) f)"

definition sm_ex_flash_storage_erase_partition :: "'f flash_storage \<Rightarrow> flash_part option \<Rightarrow> u32 \<Rightarrow> u32 \<Rightarrow> 'f \<Rightarrow> fault + (int \<times> 'f)" where
  "sm_ex_flash_storage_erase_partition st p off n f =
     (case p of None \<Rightarrow> Inr (-1, f)
      | Some p \<Rightarrow> if pt_size p < off + n then Inr (-1, f) else sm_ex_flash_storage_erase st (pt_addr p + off) n f)"

definition sm_ex_flash_storage_partition_write ::
  "'f flash_storage \<Rightarrow> flash_part option \<Rightarrow> u32 \<Rightarrow> u8 list \<Rightarrow> 'f \<Rightarrow> fault + (int \<times> 'f)" where
  "sm_ex_flash_storage_partition_write st p off xs f =
     (case p of None \<Rightarrow> Inr (-1, f)
      | Some p \<Rightarrow> if pt_size p < off + of_nat (length xs) then Inr (-1, f) else sm_ex_flash_storage_write st (pt_addr p + off) xs f)"

definition sm_ex_flash_storage_partition_read :: "'f flash_storage \<Rightarrow> flash_part option \<Rightarrow> u32 \<Rightarrow> u32 \<Rightarrow> 'f \<Rightarrow> fault + u8 list option" where
  "sm_ex_flash_storage_partition_read st p off n f =
     (case p of None \<Rightarrow> Inr None
      | Some p \<Rightarrow> if pt_size p < off + n then Inr None else sm_ex_flash_storage_read st (pt_addr p + off) n f)"

section \<open>Bytes in an array\<close>

lemma length_write_at [simp]: "a + length xs \<le> length m \<Longrightarrow> length (write_at a xs m) = length m"
  by (simp add: write_at_def)

lemma nth_write_at:
  "a + length xs \<le> length m \<Longrightarrow> i < length m \<Longrightarrow>
    write_at a xs m ! i = (if a \<le> i \<and> i < a + length xs then xs ! (i - a) else m ! i)"
  by (auto simp: write_at_def nth_append)

lemma nth_write_blank:
  "a + n \<le> length m \<Longrightarrow> i < length m \<Longrightarrow> write_at a (replicate n b) m ! i = (if a \<le> i \<and> i < a + n then b else m ! i)"
  using nth_write_at [of a "replicate n b" m i] by auto

lemma write_at_Nil [simp]: "write_at a [] m = m"
  by (simp add: write_at_def)

lemma length_bytes_at [simp]: "a + n \<le> length m \<Longrightarrow> length (bytes_at a n m) = n"
  by (simp add: bytes_at_def)

lemma nth_bytes_at [simp]: "a + n \<le> length m \<Longrightarrow> i < n \<Longrightarrow> bytes_at a n m ! i = m ! (a + i)"
  by (simp add: bytes_at_def)

lemma bytes_at_eqI: "a + n \<le> length m \<Longrightarrow> length xs = n \<Longrightarrow> (\<And>i. i < n \<Longrightarrow> m ! (a + i) = xs ! i) \<Longrightarrow> bytes_at a n m = xs"
  by (rule nth_equalityI) simp_all

lemma bytes_at_write_at: "a + length xs \<le> length m \<Longrightarrow> bytes_at a (length xs) (write_at a xs m) = xs"
  by (simp add: bytes_at_def write_at_def)

lemma bytes_at_bytes_at: "a + n \<le> l \<Longrightarrow> bytes_at a n (bytes_at b l m) = bytes_at (b + a) n m"
  by (simp add: bytes_at_def drop_take min_def add.commute)

lemma bytes_at_other:
  assumes "a + length xs \<le> length m" "b + n \<le> length m" "a + length xs \<le> b \<or> b + n \<le> a"
  shows "bytes_at b n (write_at a xs m) = bytes_at b n m"
  using assms by (intro bytes_at_eqI) (auto simp: nth_write_at)

lemma unat_u32: "n < 2 ^ 32 \<Longrightarrow> unat (of_nat n :: u32) = n"
  by (simp add: unat_of_nat)

lemma unat_add_le: "unat a + unat b \<le> n \<Longrightarrow> n < 2 ^ 32 \<Longrightarrow> unat (a + b) = unat a + unat b" for a b :: u32
  by (simp add: unat_word_ariths)

end
