(* ===== verification/Ex_Flash_Laws.thy ===== *)
theory Ex_Flash_Laws
  imports Ex_Flash
begin

text \<open>
  What the partitions of the flash guarantee. The chip is the locale \<open>flash_chip\<close>, with the laws of a NOR flash: erased cells can
  be written, pages are erased as a whole; the virtual chip of the code is an instance.
\<close>

definition part_inside :: "nat \<Rightarrow> flash_part \<Rightarrow> bool" where
  "part_inside n p \<longleftrightarrow> unat (pt_addr p) + unat (pt_size p) \<le> n"

definition part_aligned :: "nat \<Rightarrow> flash_part \<Rightarrow> bool" where
  "part_aligned psize p \<longleftrightarrow> psize dvd unat (pt_addr p) \<and> psize dvd unat (pt_size p)"

definition mounted :: "'f flash_proc \<Rightarrow> nat \<Rightarrow> nat \<Rightarrow> 'f flash_storage \<Rightarrow> bool" where
  "mounted proc psize pcount st \<longleftrightarrow> fs_proc st = proc \<and> fs_page_size st = of_nat psize \<and> fs_page_count st = of_nat pcount
     \<and> fs_total_size st = of_nat (psize * pcount)"

text \<open>The page of a cell starts in the range.\<close>

definition page_in :: "nat \<Rightarrow> nat \<Rightarrow> nat \<Rightarrow> nat \<Rightarrow> bool" where
  "page_in psize a n j \<longleftrightarrow> a \<le> j div psize * psize \<and> j div psize * psize < a + n"

lemma page_in_aligned:
  assumes "psize dvd a" "psize dvd n" "0 < psize"
  shows "page_in psize a n j \<longleftrightarrow> a \<le> j \<and> j < a + n"
proof -
  obtain k m where k: "a = psize * k" "n = psize * m" using assms(1,2) unfolding dvd_def by blast
  have "a \<le> j div psize * psize \<longleftrightarrow> k \<le> j div psize" using assms(3) by (simp add: k mult.commute)
  also have "\<dots> \<longleftrightarrow> a \<le> j" using assms(3) by (simp add: k less_eq_div_iff_mult_less_eq mult.commute)
  finally have 1: "a \<le> j div psize * psize \<longleftrightarrow> a \<le> j" .
  have an: "a + n = (k + m) * psize" by (simp add: k algebra_simps)
  have "j div psize * psize < a + n \<longleftrightarrow> j div psize < k + m" unfolding an using assms(3) by simp
  also have "\<dots> \<longleftrightarrow> j < a + n" unfolding an using assms(3) by (simp add: div_less_iff_less_mult)
  finally show ?thesis using 1 by (simp add: page_in_def)
qed

locale flash_chip =
  fixes proc :: "'f flash_proc"
    and cells :: "'f \<Rightarrow> u8 list"
    and blank :: u8
    and psize pcount :: nat
    and ok :: "'f \<Rightarrow> bool"
  assumes sizes: "0 < psize" "psize * pcount < 2 ^ 32"
    and cells_length: "ok f \<Longrightarrow> length (cells f) = psize * pcount"
    and chip_open: "ok f \<Longrightarrow> \<exists>r f'. fp_open proc f = (r, f') \<and> 0 \<le> r \<and> ok f' \<and> cells f' = cells f"
    and chip_sizes: "ok f \<Longrightarrow> fp_page_size proc f = of_nat psize \<and> fp_page_count proc f = of_nat pcount"
    and chip_read: "ok f \<Longrightarrow> unat a + unat n \<le> psize * pcount \<Longrightarrow> fp_read proc a n f = Inr (Some (bytes_at (unat a) (unat n) (cells f)))"
    and chip_write: "ok f \<Longrightarrow> unat a + length xs \<le> psize * pcount \<Longrightarrow> (\<forall>i < length xs. cells f ! (unat a + i) = blank) \<Longrightarrow>
      \<exists>f'. fp_write proc a xs f = Inr (0, f') \<and> ok f' \<and> cells f' = write_at (unat a) xs (cells f)"
    and chip_erase: "ok f \<Longrightarrow> unat p < pcount \<Longrightarrow>
      \<exists>f'. fp_erase_pages proc p f = Inr (0, f') \<and> ok f' \<and> cells f' = write_at (unat p * psize) (replicate psize blank) (cells f)"
begin

lemma page_words:
  assumes "i < pcount"
  shows "unat (of_nat i :: u32) = i" "unat (of_nat i * of_nat psize :: u32) = i * psize" "i * psize + psize \<le> psize * pcount"
proof -
  have le: "(i + 1) * psize \<le> pcount * psize" using assms by (intro mult_le_mono1) simp
  then show b: "i * psize + psize \<le> psize * pcount" by (simp add: mult.commute)
  then have "i * psize < 2 ^ 32" using sizes by linarith
  then show "unat (of_nat i * of_nat psize :: u32) = i * psize" using unat_u32 [of "i * psize"] by simp
  have "i \<le> i * psize" using sizes(1) by simp
  then have "i < 2 ^ 32" using \<open>i * psize < 2 ^ 32\<close> by linarith
  then show "unat (of_nat i :: u32) = i" by (simp add: unat_u32)
qed

lemma init_mounts:
  assumes "ok f"
  shows "\<exists>st' f'. sm_ex_flash_storage_init (sm_flash_storage_create_default proc st) f = (0, st', f') \<and> mounted proc psize pcount st'
    \<and> ok f' \<and> cells f' = cells f"
proof -
  obtain r f' where "fp_open proc f = (r, f')" "0 \<le> r" "ok f'" "cells f' = cells f" using chip_open [OF assms] by blast
  then show ?thesis using chip_sizes [of f']
    by (simp add: sm_ex_flash_storage_init_def sm_flash_storage_create_default_def mounted_def Let_def)
qed

lemma erase_loop_spec:
  assumes "mounted proc psize pcount st"
  shows "ok f \<Longrightarrow> set is \<subseteq> {..<pcount} \<Longrightarrow> \<exists>f'. erase_loop st addr stop is f = Inr f' \<and> ok f'
    \<and> (\<forall>j < psize * pcount. cells f' ! j = (if j div psize \<in> set is \<and> unat addr \<le> j div psize * psize \<and> j div psize * psize < unat stop
         then blank else cells f ! j))"
proof (induction "is" arbitrary: f)
  case (Cons i "is")
  have st: "fs_page_size st = of_nat psize" "fs_proc st = proc" using assms by (simp_all add: mounted_def)
  have i: "i < pcount" using Cons.prems(2) by simp
  note pw = page_words [OF i]
  have sub: "set is \<subseteq> {..<pcount}" using Cons.prems(2) by simp
  show ?case
  proof (cases "unat addr \<le> i * psize \<and> i * psize < unat stop")
    case False
    then have "erase_loop st addr stop (i # is) f = erase_loop st addr stop is f"
      by (auto simp: st(1) Let_def word_le_nat_alt word_less_nat_alt pw(2))
    then show ?thesis using Cons.IH [OF Cons.prems(1) sub] False by auto
  next
    case True
    then have c: "addr \<le> of_nat i * fs_page_size st \<and> of_nat i * fs_page_size st < stop"
      by (simp add: st(1) word_le_nat_alt word_less_nat_alt pw(2))
    obtain f1 where f1: "fp_erase_pages proc (of_nat i) f = Inr (0, f1)" "ok f1"
        "cells f1 = write_at (i * psize) (replicate psize blank) (cells f)"
      using chip_erase [OF Cons.prems(1), of "of_nat i"] i pw(1) by auto
    obtain f' where f': "erase_loop st addr stop is f1 = Inr f'" "ok f'"
        "\<forall>j < psize * pcount. cells f' ! j = (if j div psize \<in> set is \<and> unat addr \<le> j div psize * psize \<and> j div psize * psize < unat stop
         then blank else cells f1 ! j)"
      using Cons.IH [OF f1(2) sub] by blast
    have "cells f1 ! j = (if j div psize = i then blank else cells f ! j)" if "j < psize * pcount" for j
    proof -
      have "i * psize \<le> j \<and> j < i * psize + psize \<longleftrightarrow> j div psize = i"
        using sizes(1) by (metis add.commute div_nat_eqI dividend_less_times_div div_times_less_eq_dividend mult.commute mult_Suc)
      then show ?thesis using nth_write_blank [of "i * psize" psize "cells f" j blank] that pw(3) cells_length [OF Cons.prems(1)]
        by (auto simp: f1(3))
    qed
    then have "\<forall>j < psize * pcount. cells f' ! j = (if j div psize \<in> set (i # is) \<and> unat addr \<le> j div psize * psize
        \<and> j div psize * psize < unat stop then blank else cells f ! j)"
      using f'(3) True by auto
    moreover have "erase_loop st addr stop (i # is) f = Inr f'" using c f1(1) f'(1) by (simp add: st(2))
    ultimately show ?thesis using f'(2) by blast
  qed
qed auto

lemma erase_spec:
  assumes "mounted proc psize pcount st" "ok f" "unat a + unat n \<le> psize * pcount"
  shows "\<exists>f'. sm_ex_flash_storage_erase st a n f = Inr (0, f') \<and> ok f'
    \<and> (\<forall>j < psize * pcount. cells f' ! j = (if page_in psize (unat a) (unat n) j then blank else cells f ! j))"
proof -
  have stop: "unat (a + n) = unat a + unat n" using assms(3) sizes(2) by (rule unat_add_le)
  have "pcount \<le> psize * pcount" using sizes(1) by simp
  then have "pcount < 2 ^ 32" using sizes(2) by linarith
  then have p: "unat (fs_page_count st) = pcount" using assms(1) by (simp add: mounted_def unat_u32)
  have le: "\<not> fs_total_size st < a + n"
    using assms(1,3) sizes(2) stop by (simp add: mounted_def word_less_nat_alt unat_u32 del: of_nat_mult)
  have "set [0..<pcount] \<subseteq> {..<pcount}" by auto
  from erase_loop_spec [OF assms(1,2) this, of a "a + n"]
  obtain f' where f': "erase_loop st a (a + n) [0..<pcount] f = Inr f'" "ok f'"
      "\<forall>j < psize * pcount. cells f' ! j = (if j div psize \<in> set [0..<pcount] \<and> unat a \<le> j div psize * psize \<and> j div psize * psize < unat (a + n)
         then blank else cells f ! j)" by blast
  have "j div psize \<in> set [0..<pcount]" if "j < psize * pcount" for j
    using that sizes(1) by (simp add: div_less_iff_less_mult mult.commute)
  then show ?thesis using f' p le stop by (auto simp: sm_ex_flash_storage_erase_def page_in_def)
qed

lemma part_erase:
  assumes "mounted proc psize pcount st" "ok f" "part_inside (psize * pcount) p" "part_aligned psize p"
  shows "\<exists>f'. sm_ex_flash_storage_erase_full_partition st (Some p) f = Inr (0, f') \<and> ok f'
    \<and> cells f' = write_at (unat (pt_addr p)) (replicate (unat (pt_size p)) blank) (cells f)"
proof -
  have in_: "unat (pt_addr p) + unat (pt_size p) \<le> psize * pcount" using assms(3) by (simp add: part_inside_def)
  obtain f' where f': "sm_ex_flash_storage_erase st (pt_addr p) (pt_size p) f = Inr (0, f')" "ok f'"
      "\<forall>j < psize * pcount. cells f' ! j = (if page_in psize (unat (pt_addr p)) (unat (pt_size p)) j then blank else cells f ! j)"
    using erase_spec [OF assms(1,2) in_] by blast
  have "cells f' = write_at (unat (pt_addr p)) (replicate (unat (pt_size p)) blank) (cells f)"
    using f'(3) assms(4) sizes(1) in_
    by (intro nth_equalityI) (auto simp: cells_length [OF f'(2)] cells_length [OF assms(2)] nth_write_at page_in_aligned part_aligned_def)
  then show ?thesis using f'(1,2) by (simp add: sm_ex_flash_storage_erase_full_partition_def)
qed

lemma part_offset:
  assumes "part_inside (psize * pcount) p" "unat off + n \<le> unat (pt_size p)"
  shows "unat (pt_addr p + off) = unat (pt_addr p) + unat off" "unat (pt_addr p) + unat off + n \<le> psize * pcount"
    "\<not> pt_size p < off + of_nat n" "n < 2 ^ 32"
proof -
  show b: "unat (pt_addr p) + unat off + n \<le> psize * pcount" using assms by (simp add: part_inside_def)
  then show "unat (pt_addr p + off) = unat (pt_addr p) + unat off" using sizes(2) by (intro unat_add_le [of _ _ "psize * pcount"]) auto
  show n: "n < 2 ^ 32" using b sizes(2) by linarith
  have "unat off + n < 2 ^ 32" using b sizes(2) by linarith
  then have "unat (off + of_nat n) = unat off + n" using n by (simp add: unat_word_ariths unat_u32)
  then show "\<not> pt_size p < off + of_nat n" using assms(2) by (simp add: word_less_nat_alt)
qed

lemma part_write:
  assumes "mounted proc psize pcount st" "ok f" "part_inside (psize * pcount) p" "unat off + length xs \<le> unat (pt_size p)"
    and "bytes_at (unat (pt_addr p) + unat off) (length xs) (cells f) = replicate (length xs) blank"
  shows "\<exists>f'. sm_ex_flash_storage_partition_write st (Some p) off xs f = Inr (0, f') \<and> ok f'
    \<and> cells f' = write_at (unat (pt_addr p) + unat off) xs (cells f)"
proof -
  note o = part_offset [OF assms(3,4)]
  have st: "fs_proc st = proc" using assms(1) by (simp add: mounted_def)
  have "\<forall>i < length xs. cells f ! (unat (pt_addr p + off) + i) = blank"
  proof (intro allI impI)
    fix i
    assume "i < length xs"
    then show "cells f ! (unat (pt_addr p + off) + i) = blank"
      using arg_cong [OF assms(5), of "\<lambda>ys. ys ! i"] o(2) by (simp add: o(1) cells_length [OF assms(2)])
  qed
  from chip_write [OF assms(2) _ this] o(1,2)
  obtain f' where "fp_write proc (pt_addr p + off) xs f = Inr (0, f')" "ok f'"
      "cells f' = write_at (unat (pt_addr p) + unat off) xs (cells f)" by auto
  then show ?thesis using o(3) by (simp add: sm_ex_flash_storage_partition_write_def sm_ex_flash_storage_write_def st)
qed

lemma part_write_refused:
  assumes "unat (pt_size p) < unat off + length xs" "unat off + length xs < 2 ^ 32"
  shows "sm_ex_flash_storage_partition_write st (Some p) off xs f = Inr (-1, f)"
proof -
  have "unat (off + of_nat (length xs)) = unat off + length xs" using assms(2) by (simp add: unat_word_ariths unat_u32)
  then show ?thesis using assms(1) by (simp add: sm_ex_flash_storage_partition_write_def word_less_nat_alt)
qed

lemma part_read:
  assumes "mounted proc psize pcount st" "ok f" "part_inside (psize * pcount) p" "unat off + n \<le> unat (pt_size p)"
  shows "sm_ex_flash_storage_partition_read st (Some p) off (of_nat n) f = Inr (Some (bytes_at (unat (pt_addr p) + unat off) n (cells f)))"
proof -
  note o = part_offset [OF assms(3,4)]
  have st: "fs_proc st = proc" using assms(1) by (simp add: mounted_def)
  have "unat (of_nat n :: u32) = n" using o(4) by (simp add: unat_u32)
  then show ?thesis using chip_read [OF assms(2), of "pt_addr p + off" "of_nat n"] o
    by (simp add: sm_ex_flash_storage_partition_read_def sm_ex_flash_storage_read_def st)
qed

end

section \<open>The virtual chip\<close>

definition vf_ok :: "virtual_flash \<Rightarrow> bool" where
  "vf_ok f \<longleftrightarrow> vf_page_size f = PAGE_SIZE \<and> vf_page_count f = PAGE_COUNT \<and> length (vf_buff f) = 4096 * 512"

lemma unat_add_small: "unat a + n \<le> 2097152 \<Longrightarrow> unat (a + of_nat n) = unat a + n" for a :: u32
  by (simp add: unat_word_ariths unat_of_nat)

interpretation virtual_chip: flash_chip g_file_if vf_buff EMPTY_VALUE 4096 512 vf_ok
proof
  fix f :: virtual_flash and a n p :: u32 and xs :: "u8 list"
  assume ok: "vf_ok f"
  show "length (vf_buff f) = 4096 * 512" using ok by (simp add: vf_ok_def)
  show "\<exists>r f'. fp_open g_file_if f = (r, f') \<and> 0 \<le> r \<and> vf_ok f' \<and> vf_buff f' = vf_buff f"
    using ok by (simp add: g_file_if_def sm_ex_flash_storage_file_open_def)
  show "fp_page_size g_file_if f = of_nat 4096 \<and> fp_page_count g_file_if f = of_nat 512"
    using ok by (simp add: g_file_if_def sm_ex_flash_storage_file_get_page_size_def sm_ex_flash_storage_file_get_page_count_def
      vf_ok_def PAGE_SIZE_def PAGE_COUNT_def)
  show "fp_read g_file_if a n f = Inr (Some (bytes_at (unat a) (unat n) (vf_buff f)))" if "unat a + unat n \<le> 4096 * 512"
  proof -
    have "unat (a + n) = unat a + unat n" using unat_add_small [of a "unat n"] that by simp
    then show ?thesis using ok that
      by (simp add: g_file_if_def sm_ex_flash_storage_file_read_bytes_def vf_ok_def PAGE_SIZE_def PAGE_COUNT_def word_less_nat_alt)
  qed
  show "\<exists>f'. fp_write g_file_if a xs f = Inr (0, f') \<and> vf_ok f' \<and> vf_buff f' = write_at (unat a) xs (vf_buff f)"
    if "unat a + length xs \<le> 4096 * 512"
  proof -
    have "unat (a + of_nat (length xs)) = unat a + length xs" using unat_add_small that by simp
    then show ?thesis using ok that
      by (simp add: g_file_if_def sm_ex_flash_storage_file_write_bytes_def vf_ok_def PAGE_SIZE_def PAGE_COUNT_def word_less_nat_alt)
  qed
  show "\<exists>f'. fp_erase_pages g_file_if p f = Inr (0, f') \<and> vf_ok f' \<and> vf_buff f' = write_at (unat p * 4096) (replicate 4096 EMPTY_VALUE) (vf_buff f)"
    if "unat p < 512"
  proof -
    have "unat (p * 4096) = unat p * 4096" using that by (simp add: unat_word_ariths)
    then show ?thesis using ok that
      by (simp add: g_file_if_def sm_ex_flash_storage_file_erase_pages_def vf_ok_def PAGE_SIZE_def PAGE_COUNT_def)
  qed
qed simp_all

section \<open>Properties of partitions\<close>

definition vf_mounted :: "virtual_flash flash_storage \<Rightarrow> bool" where
  "vf_mounted st \<longleftrightarrow> mounted g_file_if 4096 512 st"

text \<open>C34.
  A partition that consists of whole pages: after it has been erased and bytes have been written in it, they are read back; the
  rest of the partition is empty, and no byte outside of it has changed.\<close>

theorem partition_roundtrip:
  assumes "vf_ok f" "vf_mounted st" "part_inside 2097152 p" "part_aligned 4096 p" "unat off + length xs \<le> unat (pt_size p)"
  shows "\<exists>f1 f2. sm_ex_flash_storage_erase_full_partition st (Some p) f = Inr (0, f1)
    \<and> sm_ex_flash_storage_partition_write st (Some p) off xs f1 = Inr (0, f2)
    \<and> sm_ex_flash_storage_partition_read st (Some p) off (of_nat (length xs)) f2 = Inr (Some xs)
    \<and> (\<forall>j < 2097152. vf_buff f2 ! j = (let a = unat (pt_addr p); i = j - a in
         if j < a \<or> a + unat (pt_size p) \<le> j then vf_buff f ! j
         else if unat off \<le> i \<and> i < unat off + length xs then xs ! (i - unat off) else EMPTY_VALUE))"
proof -
  let ?a = "unat (pt_addr p)" and ?n = "unat (pt_size p)"
  have m: "mounted g_file_if 4096 512 st" using assms(2) by (simp add: vf_mounted_def)
  have in_: "part_inside (4096 * 512) p" using assms(3) by simp
  have le: "?a + ?n \<le> 2097152" using assms(3) by (simp add: part_inside_def)
  obtain f1 where f1: "sm_ex_flash_storage_erase_full_partition st (Some p) f = Inr (0, f1)" "vf_ok f1"
      "vf_buff f1 = write_at ?a (replicate ?n EMPTY_VALUE) (vf_buff f)"
    using virtual_chip.part_erase [OF m assms(1) in_ assms(4)] by blast
  have len: "length (vf_buff f) = 2097152" "length (vf_buff f1) = 2097152"
    using assms(1) f1(2) by (simp_all add: vf_ok_def)
  have "bytes_at (?a + unat off) (length xs) (vf_buff f1) = replicate (length xs) EMPTY_VALUE"
    using assms(5) le len by (intro bytes_at_eqI) (simp_all add: f1(3) nth_write_blank)
  from virtual_chip.part_write [OF m f1(2) in_ assms(5) this]
  obtain f2 where f2: "sm_ex_flash_storage_partition_write st (Some p) off xs f1 = Inr (0, f2)" "vf_ok f2"
      "vf_buff f2 = write_at (?a + unat off) xs (vf_buff f1)" by blast
  have "sm_ex_flash_storage_partition_read st (Some p) off (of_nat (length xs)) f2 = Inr (Some xs)"
    using virtual_chip.part_read [OF m f2(2) in_ assms(5)] assms(5) le len by (simp add: f2(3) bytes_at_write_at)
  moreover have "vf_buff f2 ! j = (let i = j - ?a in
         if j < ?a \<or> ?a + ?n \<le> j then vf_buff f ! j
         else if unat off \<le> i \<and> i < unat off + length xs then xs ! (i - unat off) else EMPTY_VALUE)" if "j < 2097152" for j
    using that assms(5) le len unfolding f2(3) by (auto simp: nth_write_at f1(3) nth_write_blank Let_def)
  ultimately show ?thesis using f1(1) f2(1) by (simp add: Let_def)
qed

text \<open>
  A partition that does not end with a page: erasing it erases the rest of its last page too, that is the start of the partition
  behind it. If it does not start with a page, its first bytes are not erased.\<close>

theorem unaligned_partition_spoils_its_neighbour:
  assumes "vf_ok f" "vf_mounted st" "part_inside 2097152 p" "0 < unat (pt_size p)"
  shows "\<exists>f1. sm_ex_flash_storage_erase_full_partition st (Some p) f = Inr (0, f1)
    \<and> (\<forall>j < 2097152. vf_buff f1 ! j = (if page_in 4096 (unat (pt_addr p)) (unat (pt_size p)) j then EMPTY_VALUE else vf_buff f ! j))
    \<and> (unat (pt_addr p) mod 4096 \<noteq> 0 \<longrightarrow> vf_buff f1 ! unat (pt_addr p) = vf_buff f ! unat (pt_addr p))
    \<and> (let e = unat (pt_addr p) + unat (pt_size p) in
       unat (pt_addr p) mod 4096 = 0 \<and> e mod 4096 \<noteq> 0 \<longrightarrow> e < 2097152 \<and> vf_buff f1 ! e = EMPTY_VALUE)"
proof -
  let ?a = "unat (pt_addr p)" and ?n = "unat (pt_size p)"
  have m: "mounted g_file_if 4096 512 st" using assms(2) by (simp add: vf_mounted_def)
  have le: "?a + ?n \<le> 4096 * 512" using assms(3) by (simp add: part_inside_def)
  obtain f1 where f1: "sm_ex_flash_storage_erase st (pt_addr p) (pt_size p) f = Inr (0, f1)"
      "\<forall>j < 4096 * 512. vf_buff f1 ! j = (if page_in 4096 ?a ?n j then EMPTY_VALUE else vf_buff f ! j)"
    using virtual_chip.erase_spec [OF m assms(1) le] by blast
  have "?a div 4096 * 4096 < ?a" if "?a mod 4096 \<noteq> 0" using that by (metis div_mult_mod_eq less_add_same_cancel1 bot_nat_0.not_eq_extremum)
  then have 1: "?a mod 4096 \<noteq> 0 \<Longrightarrow> \<not> page_in 4096 ?a ?n ?a" by (auto simp: page_in_def)
  have 2: "?a + ?n < 2097152 \<and> page_in 4096 ?a ?n (?a + ?n)" if "?a mod 4096 = 0" "(?a + ?n) mod 4096 \<noteq> 0"
  proof -
    have "(?a + ?n) div 4096 * 4096 < ?a + ?n"
      using that(2) by (metis div_mult_mod_eq less_add_same_cancel1 bot_nat_0.not_eq_extremum)
    moreover have "?a \<le> (?a + ?n) div 4096 * 4096"
    proof -
      have "?a = ?a div 4096 * 4096" using that(1) by (simp add: mod_0_imp_dvd)
      also have "\<dots> \<le> (?a + ?n) div 4096 * 4096" by (intro mult_le_mono1 div_le_mono) simp
      finally show ?thesis .
    qed
    moreover have "?a + ?n \<noteq> 2097152" using that(2) by auto
    ultimately show ?thesis using le by (simp add: page_in_def)
  qed
  have "?a < 2097152" using le assms(4) by simp
  then have A: "vf_buff f1 ! ?a = vf_buff f ! ?a" if "?a mod 4096 \<noteq> 0" using f1(2) 1 [OF that] by simp
  have B: "?a + ?n < 2097152 \<and> vf_buff f1 ! (?a + ?n) = EMPTY_VALUE" if "?a mod 4096 = 0 \<and> (?a + ?n) mod 4096 \<noteq> 0"
    using f1(2) 2 that by simp
  have C: "\<forall>j < 2097152. vf_buff f1 ! j = (if page_in 4096 ?a ?n j then EMPTY_VALUE else vf_buff f ! j)" using f1(2) by simp
  have D: "sm_ex_flash_storage_erase_full_partition st (Some p) f = Inr (0, f1)"
    using f1(1) by (simp add: sm_ex_flash_storage_erase_full_partition_def)
  show ?thesis unfolding Let_def
    by (intro exI [of _ f1] conjI impI) (rule D, rule C, erule A, drule B, erule conjunct1, drule B, erule conjunct2)
qed

text \<open>C40.
  The test of the bounds of a partition wraps around: with an offset just below \<open>2 ^ 32\<close> and a length that brings the sum back to
  a small number, a read returns, and a write changes, bytes that lie before the partition.\<close>

theorem wrapped_offset_leaves_partition:
  assumes "vf_ok f" "vf_mounted st" "part_inside 2097152 p" "0 < k" "k \<le> pt_addr p" "unat k \<le> length xs" "length xs \<le> unat k + unat (pt_size p)"
  shows "sm_ex_flash_storage_partition_read st (Some p) (- k) (of_nat (length xs)) f
      = Inr (Some (bytes_at (unat (pt_addr p) - unat k) (length xs) (vf_buff f)))
    \<and> sm_ex_flash_storage_partition_write st (Some p) (- k) xs f
      = Inr (0, f\<lparr>vf_buff := write_at (unat (pt_addr p) - unat k) xs (vf_buff f)\<rparr>)"
proof -
  let ?a = "unat (pt_addr p)" and ?n = "length xs"
  have le: "?a + unat (pt_size p) \<le> 2097152" using assms(3) by (simp add: part_inside_def)
  have k: "unat k \<le> ?a" using assms(5) by (simp add: word_le_nat_alt)
  have n: "?n \<le> 2097152" "unat (of_nat ?n :: u32) = ?n" using assms(7) le k by (simp_all add: unat_of_nat)
  have kn: "k \<le> of_nat ?n" using assms(6) n(2) by (simp add: word_le_nat_alt)
  have "unat (- k + of_nat ?n) = ?n - unat k" using unat_sub [OF kn] n(2) by simp
  then have 1: "\<not> pt_size p < - k + of_nat ?n" using assms(7) by (simp add: word_less_nat_alt)
  have a: "unat (pt_addr p + - k) = ?a - unat k" using unat_sub [OF assms(5)] by simp
  have e: "unat (pt_addr p + - k + of_nat ?n) = ?a - unat k + ?n"
    using unat_add_small [of "pt_addr p + - k" ?n] a k assms(7) le by simp
  have len: "length (vf_buff f) = 2097152" "vf_page_size f * vf_page_count f = 2097152"
    using assms(1) by (simp_all add: vf_ok_def PAGE_SIZE_def PAGE_COUNT_def)
  have st: "fs_proc st = g_file_if" using assms(2) by (simp add: vf_mounted_def mounted_def)
  have 2: "?a - unat k + ?n \<le> 2097152" using k assms(7) le by linarith
  show ?thesis
    using 1 2 a e n(2) len
    by (simp add: sm_ex_flash_storage_partition_read_def sm_ex_flash_storage_partition_write_def sm_ex_flash_storage_read_def
        sm_ex_flash_storage_write_def st g_file_if_def sm_ex_flash_storage_file_read_bytes_def sm_ex_flash_storage_file_write_bytes_def
        word_less_nat_alt)
qed

section \<open>Examples\<close>

definition example_chip :: virtual_flash where
  "example_chip = \<lparr>vf_page_size = PAGE_SIZE, vf_page_count = PAGE_COUNT, vf_buff = replicate (4096 * 512) 7\<rparr>"

definition example_storage :: "virtual_flash flash_storage" where
  "example_storage = \<lparr>fs_proc = g_file_if, fs_page_size = 4096, fs_page_count = 512, fs_total_size = 2097152\<rparr>"

lemma example_chip_ok: "vf_ok example_chip" "vf_mounted example_storage"
  unfolding vf_ok_def example_chip_def vf_mounted_def mounted_def example_storage_def by simp_all

lemma partition_roundtrip_witness:
  "\<exists>f1 f2. sm_ex_flash_storage_erase_full_partition example_storage (Some \<lparr>pt_addr = 4096, pt_size = 8192\<rparr>) example_chip = Inr (0, f1)
    \<and> sm_ex_flash_storage_partition_write example_storage (Some \<lparr>pt_addr = 4096, pt_size = 8192\<rparr>) 5 [1, 2, 3] f1 = Inr (0, f2)
    \<and> sm_ex_flash_storage_partition_read example_storage (Some \<lparr>pt_addr = 4096, pt_size = 8192\<rparr>) 5 3 f2 = Inr (Some [1, 2, 3])"
  using partition_roundtrip [OF example_chip_ok, of "\<lparr>pt_addr = 4096, pt_size = 8192\<rparr>" 5 "[1, 2, 3]"]
  by (auto simp: part_inside_def part_aligned_def)

lemma unaligned_partition_spoils_its_neighbour_witness:
  "\<exists>f1. sm_ex_flash_storage_erase_full_partition example_storage (Some \<lparr>pt_addr = 4096, pt_size = 5000\<rparr>) example_chip = Inr (0, f1)
    \<and> vf_buff f1 ! 9096 = EMPTY_VALUE"
  using unaligned_partition_spoils_its_neighbour [OF example_chip_ok, of "\<lparr>pt_addr = 4096, pt_size = 5000\<rparr>"]
  by (auto simp: part_inside_def)

lemma wrapped_offset_leaves_partition_witness:
  "sm_ex_flash_storage_partition_write example_storage (Some \<lparr>pt_addr = 4096, pt_size = 4096\<rparr>) (- 1) [9, 9] example_chip
    = Inr (0, example_chip\<lparr>vf_buff := write_at 4095 [9, 9] (vf_buff example_chip)\<rparr>)"
  using wrapped_offset_leaves_partition [OF example_chip_ok, of "\<lparr>pt_addr = 4096, pt_size = 4096\<rparr>" 1 "[9, 9]"]
  by (simp add: part_inside_def word_le_nat_alt)

end
