(* ===== verification/Flash_Output.thy ===== *)
theory Flash_Output
  imports Flash_Source Boot_Laws Ex_Flash_Laws
begin

text \<open>
  \<^verbatim>\<open>services/boot_master/boot-impl/output/sm_flash_boot_output.c\<close>: the output of an upgrade that writes the image to a partition
  of the external flash.

  The output calls the handler of a segment before it writes the segment, and writes to the place that the index of the segment
  then tells. The handler is that of the slave, which has counted the index up (\<open>on_seg\<close>); the index that is read is one more
  than that of the segment handed over. The function that stores the signature belongs to the application.
\<close>

record flash_output =
  fo_crc :: u16
  fo_size :: u32
  fo_index :: int
  fo_part :: "flash_part option"
  fo_storage :: "(fw_signature \<Rightarrow> int) option"
  fo_events :: boot_table

definition sm_output_flash_init :: "'f flash_storage \<Rightarrow> flash_output \<times> 'f \<Rightarrow> fault + (flash_output \<times> 'f)" where
  "sm_output_flash_init st = (\<lambda>(u, f). bind (sm_ex_flash_storage_erase_full_partition st (fo_part u) f) (\<lambda>(_, f). Inr (u, f)))"

definition sm_output_flash_free :: "flash_output \<Rightarrow> flash_output" where
  "sm_output_flash_free u = u\<lparr>fo_index := -1, fo_part := None, fo_size := 0, fo_crc := CRC_16_INIT_VALUE, fo_storage := None\<rparr>"

definition sm_output_flash_request_upgrade :: "int \<Rightarrow> flash_output \<Rightarrow> boot_raise list \<times> flash_output" where
  "sm_output_flash_request_upgrade src u = ([(SM_BOOT_SLAVE_CONFIRM_READY, 1)], u)"

definition sm_output_flash_set_fw_info :: "fw_signature \<Rightarrow> flash_output \<Rightarrow> boot_raise list \<times> flash_output" where
  "sm_output_flash_set_fw_info sig u =
     ([(SM_BOOT_SLAVE_CONFIRM_FW_INFO,
        if fw_crc sig = fo_crc u \<and> fw_size sig = fo_size u \<and> (case fo_storage u of None \<Rightarrow> True | Some store \<Rightarrow> 0 \<le> store sig)
        then 1 else 0)], u)"

text \<open>A segment whose size is more than its data is read behind its array; the result of the write is not looked at.\<close>

definition sm_output_flash_set_seg_fw ::
  "'f flash_storage \<Rightarrow> sm_segment \<Rightarrow> flash_output \<times> 'f \<Rightarrow> fault + (int \<times> boot_raise list \<times> flash_output \<times> 'f)" where
  "sm_output_flash_set_seg_fw st seg = (\<lambda>(u, f).
     let index = seg_index seg + 1; ok = [(SM_BOOT_SLAVE_CONFIRM_SEG, 1)] in
     if fo_index u < index
     then if seg_size seg < 0 \<or> int (length (seg_data seg)) < seg_size seg then Inl Out_Of_Bounds
       else let xs = take (nat (seg_size seg)) (seg_data seg) in
         bind (sm_ex_flash_storage_partition_write st (fo_part u) (of_int ((index - 1) * int SM_SEGMENT_FW_SIZE)) xs f) (\<lambda>(_, f).
           Inr (int (seg_length seg), ok, u\<lparr>fo_index := index, fo_crc := sm_CRC_CalculateCRC16_init_value (fo_crc u) xs,
                                          fo_size := fo_size u + of_int (seg_size seg)\<rparr>, f))
     else Inr (int (seg_length seg), ok, u, f))"

definition sm_get_flash_boot_output ::
  "'f flash_storage \<Rightarrow> flash_part option \<Rightarrow> (fw_signature \<Rightarrow> int) option \<Rightarrow> flash_output \<times> 'f \<Rightarrow> fault + (bool \<times> flash_output \<times> 'f)" where
  "sm_get_flash_boot_output st p store = (\<lambda>(u, f).
     if p = None then Inr (False, u, f)
     else bind (sm_ex_flash_storage_erase_full_partition st p f) (\<lambda>(_, f).
       Inr (True, u\<lparr>fo_index := -1, fo_part := p, fo_size := 0, fo_crc := CRC_16_INIT_VALUE, fo_storage := store\<rparr>, f)))"

section \<open>From one partition to another\<close>

record 'f copy_world =
  cw_in :: flash_input
  cw_out :: flash_output
  cw_chip :: 'f

text \<open>The bytes of a partition, which \<open>Flash_Input\<close> works on.\<close>

definition part_bytes :: "'f flash_storage \<Rightarrow> flash_part \<Rightarrow> 'f \<Rightarrow> u8 list" where
  "part_bytes st p f = (case sm_ex_flash_storage_partition_read st (Some p) 0 (pt_size p) f of Inr (Some xs) \<Rightarrow> xs | _ \<Rightarrow> [])"

definition flash_to_flash :: "'f flash_storage \<Rightarrow> flash_part \<Rightarrow> u8 list \<Rightarrow> u8 list \<Rightarrow> 'f copy_world boot_if" where
  "flash_to_flash st p stale hb =
     \<lparr>in_init = \<lambda>w. bind (sm_input_flash_init (part_bytes st p (cw_chip w)) stale hb (cw_in w)) (\<lambda>(_, g). Inr (w\<lparr>cw_in := g\<rparr>)),
      in_free = \<lambda>w. Inr (w\<lparr>cw_in := sm_input_flash_free (cw_in w)\<rparr>),
      in_info = \<lambda>w fw. Inr (sm_input_flash_get_fw_info (cw_in w) fw, w),
      in_seg = \<lambda>seg w. bind (sm_input_flash_get_seg_fw (part_bytes st p (cw_chip w)) stale hb seg (cw_in w))
        (\<lambda>(r, seg, g). Inr (r, seg, w\<lparr>cw_in := g\<rparr>)),
      in_completed = None, in_process = None,
      out_init = \<lambda>w. bind (sm_output_flash_init st (cw_out w, cw_chip w)) (\<lambda>(u, f). Inr (w\<lparr>cw_out := u, cw_chip := f\<rparr>)),
      out_free = \<lambda>w. Inr (w\<lparr>cw_out := sm_output_flash_free (cw_out w)\<rparr>),
      out_request = \<lambda>n w. (case sm_output_flash_request_upgrade n (cw_out w) of (rs, u) \<Rightarrow> Inr (rs, w\<lparr>cw_out := u\<rparr>)),
      out_set_info = \<lambda>sig w. (case sm_output_flash_set_fw_info sig (cw_out w) of (rs, u) \<Rightarrow> Inr (rs, w\<lparr>cw_out := u\<rparr>)),
      out_set_seg = \<lambda>seg w. bind (sm_output_flash_set_seg_fw st seg (cw_out w, cw_chip w))
        (\<lambda>(r, rs, u, f). Inr (r, rs, w\<lparr>cw_out := u, cw_chip := f\<rparr>)),
      out_process = None, out_events = \<lambda>w. fo_events (cw_out w), out_set_events = \<lambda>g w. w\<lparr>cw_out := (cw_out w)\<lparr>fo_events := g\<rparr>\<rparr>\<rparr>"

section \<open>Where a copy stands\<close>

text \<open>
  What has been written after \<open>n\<close> segments to a partition of \<open>room\<close> bytes: all of the image so far, or the whole segments of an
  image that does not fit.
\<close>

definition copied :: "nat \<Rightarrow> u8 list \<Rightarrow> nat \<Rightarrow> u8 list" where
  "copied room img n = take (if length img \<le> room then 1024 * n else min (1024 * n) (1024 * (room div 1024))) img"

lemma copied_simps: "copied room img 0 = []"
  "length img \<le> room \<Longrightarrow> length img \<le> 1024 * n \<Longrightarrow> copied room img n = img"
  by (simp_all add: copied_def)

text \<open>The next segment is written behind what is there, or refused.\<close>

lemma copied_Suc:
  assumes "1024 * n \<le> length img"
  defines "xs \<equiv> take 1024 (drop (1024 * n) img)"
  shows "if 1024 * n + length xs \<le> room then copied room img (n + 1) = copied room img n @ xs \<and> length (copied room img n) = 1024 * n
    else copied room img (n + 1) = copied room img n"
    and "length (copied room img n) \<le> room"
proof -
  have le: "1024 * (room div 1024) \<le> room" by simp
  show "length (copied room img n) \<le> room" using le by (auto simp: copied_def intro: le_trans [OF min.cobounded2])
  have add: "take (1024 * (n + 1)) img = take (1024 * n) img @ xs"
    using take_add [of "1024 * n" 1024 img] by (simp add: xs_def algebra_simps)
  show "if 1024 * n + length xs \<le> room then copied room img (n + 1) = copied room img n @ xs \<and> length (copied room img n) = 1024 * n
    else copied room img (n + 1) = copied room img n"
  proof (cases "length img \<le> room")
    case True
    then have "1024 * n + length xs \<le> room" using assms(1) by (simp add: xs_def)
    then show ?thesis using True add assms(1) by (simp add: copied_def)
  next
    case False
    show ?thesis
    proof (cases "1024 * (n + 1) \<le> room")
      case fits: True
      then have "n + 1 \<le> room div 1024" by (simp add: less_eq_div_iff_mult_less_eq)
      then have "1024 * (n + 1) \<le> 1024 * (room div 1024)" by (rule mult_le_mono2)
      moreover have "1024 * n + length xs \<le> room" using fits by (simp add: xs_def)
      ultimately show ?thesis using False add assms(1) by (simp add: copied_def min_def)
    next
      case no: False
      then have "room div 1024 < n + 1" by (simp add: div_less_iff_less_mult mult.commute)
      then have min: "min (1024 * (n + 1)) (1024 * (room div 1024)) = 1024 * (room div 1024)"
          "min (1024 * n) (1024 * (room div 1024)) = 1024 * (room div 1024)" by simp_all
      have "\<not> 1024 * n + length xs \<le> room" using False no by (simp add: xs_def)
      then show ?thesis using False unfolding copied_def min by simp
    qed
  qed
qed

context flash_chip
begin

lemma bytes_of_part:
  assumes "mounted proc psize pcount st" "ok f" "part_inside (psize * pcount) p"
  shows "part_bytes st p f = bytes_at (unat (pt_addr p)) (unat (pt_size p)) (cells f)"
  using part_read [OF assms, of 0 "unat (pt_size p)"] by (simp add: part_bytes_def)

text \<open>Each read of the source is a read of these bytes.\<close>

lemma read_is_part_read:
  assumes "mounted proc psize pcount st" "ok f" "part_inside (psize * pcount) p" "off + n < 2 ^ 32"
  shows "map_sum id (\<lambda>r. case r of None \<Rightarrow> stale | Some xs \<Rightarrow> xs) (sm_ex_flash_storage_partition_read st (Some p) (of_nat off) (of_nat n) f)
    = Inr (part_read (part_bytes st p f) off n stale)"
proof -
  have w: "unat (of_nat off :: u32) = off" "unat (of_nat n :: u32) = n" using assms(4) by (simp_all add: unat_u32)
  have len: "length (part_bytes st p f) = unat (pt_size p)"
    using assms(3) by (simp add: bytes_of_part [OF assms(1-3)] part_inside_def cells_length [OF assms(2)])
  show ?thesis
  proof (cases "off + n \<le> unat (pt_size p)")
    case True
    then show ?thesis
      using part_read [OF assms(1-3), of "of_nat off" n] w len
      by (simp add: part_read_def bytes_of_part [OF assms(1-3)] bytes_at_bytes_at flip: bytes_at_def)
  next
    case False
    have "unat (of_nat off + of_nat n :: u32) = off + n" using unat_u32 [OF assms(4)] by simp
    then have "pt_size p < of_nat off + of_nat n" using False by (simp add: word_less_nat_alt)
    then show ?thesis using False len by (simp add: sm_ex_flash_storage_partition_read_def part_read_def)
  qed
qed

end

end
