(* ===== verification/Flash_Copy.thy ===== *)
theory Flash_Copy
  imports Flash_Output
begin

text \<open>
  An upgrade from one partition of the flash to another: the slave, the source and the flash output together, over any chip with
  the laws of \<open>flash_chip\<close>, and its instance over the virtual chip. A partition that is too small for the image is reported as a
  success.
\<close>

definition disjoint_parts :: "flash_part \<Rightarrow> flash_part \<Rightarrow> bool" where
  "disjoint_parts p q \<longleftrightarrow> unat (pt_addr p) + unat (pt_size p) \<le> unat (pt_addr q) \<or> unat (pt_addr q) + unat (pt_size q) \<le> unat (pt_addr p)"

text \<open>What the output knows after \<open>n\<close> segments.\<close>

definition output_at :: "flash_part \<Rightarrow> u8 list \<Rightarrow> nat \<Rightarrow> flash_output \<Rightarrow> bool" where
  "output_at q img n u \<longleftrightarrow> fo_part u = Some q \<and> fo_index u < int n + 1
     \<and> fo_crc u = sm_CRC_CalculateCRC16_init_value CRC_16_INIT_VALUE (take (1024 * n) img)
     \<and> fo_size u = of_nat (length (take (1024 * n) img))
     \<and> (case fo_storage u of None \<Rightarrow> True | Some store \<Rightarrow> \<forall>sig. 0 \<le> store sig)"

text \<open>The content of a partition of \<open>room\<close> bytes.\<close>

definition filled :: "nat \<Rightarrow> u8 \<Rightarrow> u8 list \<Rightarrow> nat \<Rightarrow> u8 list" where
  "filled room blank img n = copied room img n @ replicate (room - length (copied room img n)) blank"

lemma copied_le: "length (copied room img n) \<le> room"
  by (auto simp: copied_def intro: le_trans [OF min.cobounded2])

lemma length_filled [simp]: "length (filled room blank img n) = room"
  using copied_le [of room img n] by (simp add: filled_def)

lemma write_filled:
  assumes "1024 * n + length xs \<le> room" "copied room img (n + 1) = copied room img n @ xs" "length (copied room img n) = 1024 * n"
    and "a + room \<le> length m"
  shows "write_at (a + 1024 * n) xs (write_at a (filled room blank img n) m) = write_at a (filled room blank img (n + 1)) m"
    and "bytes_at (a + 1024 * n) (length xs) (write_at a (filled room blank img n) m) = replicate (length xs) blank"
  using assms by (auto simp: write_at_def bytes_at_def filled_def take_append drop_append min_def)

text \<open>An output that confirms a segment while it takes it.\<close>

lemma hand_over_confirmed:
  assumes "out_set_seg io (bs_segment s) w = Inr (r, [(SM_BOOT_SLAVE_CONFIRM_SEG, 1)], w')" "in_completed io = None" "registered s"
  shows "\<exists>s'. hand_over t io (s, w) = Inr (s', w') \<and> registered s' \<and> \<not> bs_waiting s' \<and> bs_repeat s' = 0
    \<and> bs_segment s' = (bs_segment s)\<lparr>seg_index := seg_index (bs_segment s) + 1\<rparr>
    \<and> (if seg_last (bs_segment s) \<noteq> 0 then bs_state s' = SM_BOOT_SLAVE_STATE_SEND_FW_INFO \<and> bs_timeout s' = \<lparr>m_duration = 0, m_start_time = t\<rparr>
       else bs_state s' = bs_state s)"
proof -
  have "\<not> SM_BOOT_SLAVE_REPEAT_MAX \<le> 0" by (simp add: SM_BOOT_SLAVE_REPEAT_MAX_def word_le_nat_alt)
  then show ?thesis using assms
    by (simp add: hand_over_def raise_event_def registered_def on_seg_def Let_def elapsed_timer_resetz_def elapsed_timer_pass_def)
qed

context flash_chip
begin

definition copy_at ::
  "u8 list \<Rightarrow> flash_part \<Rightarrow> flash_part \<Rightarrow> u32 \<Rightarrow> u8 list \<Rightarrow> u8 list \<Rightarrow> u8 list \<Rightarrow> nat \<Rightarrow> 'f copy_world \<Rightarrow> bool" where
  "copy_at part p q base ver img cells0 n w \<longleftrightarrow> source_at part base ver img n (cw_in w) \<and> ok (cw_chip w)
     \<and> bytes_at (unat (pt_addr p)) (unat (pt_size p)) (cells (cw_chip w)) = part \<and> output_at q img n (cw_out w)
     \<and> length cells0 = psize * pcount
     \<and> cells (cw_chip w) = write_at (unat (pt_addr q)) (filled (unat (pt_size q)) blank img n) cells0"

lemma copy_write:
  assumes "mounted proc psize pcount st" "part_inside (psize * pcount) p" "part_inside (psize * pcount) q" "disjoint_parts p q"
    and "copy_at part p q base ver img cells0 n w" "1024 * n \<le> length img" "xs = take 1024 (drop (1024 * n) img)" "length img < 2 ^ 31"
  shows "\<exists>r f'. sm_ex_flash_storage_partition_write st (Some q) (of_int (int n * int SM_SEGMENT_FW_SIZE)) xs (cw_chip w) = Inr (r, f')
    \<and> ok f' \<and> cells f' = write_at (unat (pt_addr q)) (filled (unat (pt_size q)) blank img (n + 1)) cells0
    \<and> bytes_at (unat (pt_addr p)) (unat (pt_size p)) (cells f') = part"
proof -
  let ?a = "unat (pt_addr q)" and ?room = "unat (pt_size q)" and ?f = "cw_chip w"
  define off :: u32 where "off = of_int (int n * int SM_SEGMENT_FW_SIZE)"
  note c = assms(5) [unfolded copy_at_def]
  have cells: "ok ?f" "cells ?f = write_at ?a (filled ?room blank img n) cells0" using c by blast+
  have in_: "?a + ?room \<le> length cells0" using assms(3) c by (simp add: part_inside_def)
  have off: "unat off = 1024 * n"
  proof -
    have "1024 * n < 2 ^ 32" using assms(6,8) by simp
    moreover have "off = of_nat (1024 * n)" by (simp add: off_def SM_SEGMENT_FW_SIZE_def)
    ultimately show ?thesis using unat_u32 by metis
  qed
  have len: "length xs \<le> 1024" using assms(7) by simp
  have step: "if 1024 * n + length xs \<le> ?room then copied ?room img (n + 1) = copied ?room img n @ xs \<and> length (copied ?room img n) = 1024 * n
      else copied ?room img (n + 1) = copied ?room img n"
    using copied_Suc(1) [OF assms(6)] assms(7) by blast
  have other: "bytes_at (unat (pt_addr p)) (unat (pt_size p)) (write_at ?a (filled ?room blank img k) cells0)
      = bytes_at (unat (pt_addr p)) (unat (pt_size p)) cells0" for k
    by (rule bytes_at_other) (use assms(2,4) c in_ in \<open>auto simp: part_inside_def disjoint_parts_def\<close>)
  have "bytes_at (unat (pt_addr p)) (unat (pt_size p)) (cells ?f) = part" using c by blast
  then have part: "bytes_at (unat (pt_addr p)) (unat (pt_size p)) (write_at ?a (filled ?room blank img k) cells0) = part" for k
    unfolding cells(2) other .
  show ?thesis
    unfolding off_def [symmetric]
  proof (cases "1024 * n + length xs \<le> ?room")
    case True
    then have cp: "copied ?room img (n + 1) = copied ?room img n @ xs" "length (copied ?room img n) = 1024 * n" using step by simp_all
    note wf = write_filled [OF True cp in_, of blank]
    have "unat off + length xs \<le> ?room" using True by (simp only: off)
    moreover have "bytes_at (?a + unat off) (length xs) (cells ?f) = replicate (length xs) blank" unfolding off cells(2) by (rule wf(2))
    ultimately obtain f' where f': "sm_ex_flash_storage_partition_write st (Some q) off xs ?f = Inr (0, f')"
        "ok f'" "cells f' = write_at (?a + unat off) xs (cells ?f)"
      using part_write [OF assms(1) cells(1) assms(3)] by blast
    have "cells f' = write_at ?a (filled ?room blank img (n + 1)) cells0" unfolding f'(3) off cells(2) by (rule wf(1))
    then show "\<exists>r f'. sm_ex_flash_storage_partition_write st (Some q) off xs ?f = Inr (r, f') \<and> ok f'
        \<and> cells f' = write_at ?a (filled ?room blank img (n + 1)) cells0 \<and> bytes_at (unat (pt_addr p)) (unat (pt_size p)) (cells f') = part"
      using f'(1,2) part by metis
  next
    case False
    have "1024 * n + length xs < 2 ^ 32" using assms(6,8) len by simp
    then have "sm_ex_flash_storage_partition_write st (Some q) off xs ?f = Inr (-1, ?f)"
      using False by (intro part_write_refused) (simp_all only: off not_le)
    moreover have "filled ?room blank img (n + 1) = filled ?room blank img n" using step False by (simp add: filled_def)
    ultimately show "\<exists>r f'. sm_ex_flash_storage_partition_write st (Some q) off xs ?f = Inr (r, f') \<and> ok f'
        \<and> cells f' = write_at ?a (filled ?room blank img (n + 1)) cells0 \<and> bytes_at (unat (pt_addr p)) (unat (pt_size p)) (cells f') = part"
      using cells part by metis
  qed
qed

text \<open>The slave between two segments.\<close>

definition gives :: "int \<Rightarrow> nat \<Rightarrow> boot_slave \<Rightarrow> bool" where
  "gives t n s \<longleftrightarrow> bs_state s = SM_BOOT_SLAVE_STATE_SEND_SEG \<and> \<not> bs_waiting s \<and> bs_repeat s = 0 \<and> registered s
     \<and> length (seg_data (bs_segment s)) = SM_SEGMENT_FW_SIZE \<and> seg_index (bs_segment s) = int n"

definition tells :: "int \<Rightarrow> boot_slave \<Rightarrow> bool" where
  "tells t s \<longleftrightarrow> bs_state s = SM_BOOT_SLAVE_STATE_SEND_FW_INFO \<and> bs_repeat s = 0 \<and> registered s
     \<and> bs_timeout s = \<lparr>m_duration = 0, m_start_time = t\<rparr>"

lemma quiet_poll: "slave_poll t (flash_to_flash st p stale hb) (s, w) = Inr (s, w)"
  by (simp add: slave_poll_def flash_to_flash_def)

lemma copy_step:
  assumes "mounted proc psize pcount st" "part_inside (psize * pcount) p" "part_inside (psize * pcount) q" "disjoint_parts p q"
    and "copy_at part p q base ver img cells0 n w" "n \<le> length img div 1024" "length img < 2 ^ 31" "length hb = 50" "gives t0 n s"
  shows "\<exists>s' w'. sm_boot_slave_process t sig0 (flash_to_flash st p stale hb) (s, w) = Inr ((s', w'), [])
    \<and> copy_at part p q base ver img cells0 (n + 1) w' \<and> (if n = length img div 1024 then tells t s' else gives t (n + 1) s')"
proof -
  let ?io = "flash_to_flash st p stale hb"
  note c = assms(5) [unfolded copy_at_def] and g = assms(9) [unfolded gives_def]
  have le: "1024 * n \<le> length img" using assms(6) by (metis div_times_less_eq_dividend le_trans mult.commute mult_le_mono2)
  have "ok (cw_chip w)" "bytes_at (unat (pt_addr p)) (unat (pt_size p)) (cells (cw_chip w)) = part" using c by blast+
  then have part: "part_bytes st p (cw_chip w) = part" by (simp only: bytes_of_part [OF assms(1) _ assms(2)])
  obtain seg g' where s: "sm_input_flash_get_seg_fw part stale hb (bs_segment s) (cw_in w) = Inr (1, seg, g')"
      "content seg = take 1024 (drop (1024 * n) img)" "seg_length seg = length (content seg)" "sm_seg_is_full seg"
      "length (seg_data seg) = SM_SEGMENT_FW_SIZE" "seg_index seg = int n" "seg_last seg \<noteq> 0 \<longleftrightarrow> n = length img div 1024"
      "source_at part base ver img (n + 1) g'"
    using source_step [OF _ assms(6,8), of part base ver "cw_in w" "bs_segment s" stale] c g by auto
  let ?xs = "content seg"
  have z: "seg_size seg = int (seg_length seg)" using s(4) by (simp add: sm_seg_is_full_def)
  have sz: "seg_size seg = int (length ?xs)" "take (nat (seg_size seg)) (seg_data seg) = ?xs" "length ?xs \<le> 1024"
    by (simp only: z s(3), simp add: z content_def, simp add: s(2))
  obtain r f' where f': "sm_ex_flash_storage_partition_write st (Some q) (of_int (int n * int SM_SEGMENT_FW_SIZE)) ?xs (cw_chip w) = Inr (r, f')"
      "ok f'" "cells f' = write_at (unat (pt_addr q)) (filled (unat (pt_size q)) blank img (n + 1)) cells0"
      "bytes_at (unat (pt_addr p)) (unat (pt_size p)) (cells f') = part"
    using copy_write [OF assms(1-5) le s(2) assms(7)] by blast
  let ?u = "(cw_out w)\<lparr>fo_index := int n + 1, fo_crc := sm_CRC_CalculateCRC16_init_value (fo_crc (cw_out w)) ?xs,
      fo_size := fo_size (cw_out w) + of_nat (length ?xs)\<rparr>"
  let ?w = "w\<lparr>cw_in := g', cw_out := ?u, cw_chip := f'\<rparr>"
  have out: "output_at q img n (cw_out w)" using c by simp
  have set: "sm_output_flash_set_seg_fw st seg (cw_out w, cw_chip w) = Inr (int (length ?xs), [(SM_BOOT_SLAVE_CONFIRM_SEG, 1)], ?u, f')"
    using out f'(1) sz s(5,6) s(3) by (simp add: sm_output_flash_set_seg_fw_def output_at_def Let_def SM_SEGMENT_FW_SIZE_def)
  have split: "take (1024 * (n + 1)) img = take (1024 * n) img @ ?xs"
    using take_add [of "1024 * n" 1024 img] s(2) by (simp add: algebra_simps)
  have "output_at q img (n + 1) ?u"
    using out unfolding output_at_def split length_append of_nat_add by (simp add: frame_split_fold)
  then have copied: "copy_at part p q base ver img cells0 (n + 1) ?w" using c f' s(8) unfolding copy_at_def by simp
  let ?w1 = "w\<lparr>cw_in := g'\<rparr>" and ?s = "s\<lparr>bs_segment := seg\<rparr>"
  have "in_seg ?io (bs_segment s) w = Inr (1, seg, ?w1)" by (simp add: flash_to_flash_def part s(1))
  then have send: "send_seg_step t ?io (s, w) = hand_over t ?io (?s, ?w1)" using g by (simp add: send_seg_step_def)
  have "out_set_seg ?io (bs_segment ?s) ?w1 = Inr (int (length ?xs), [(SM_BOOT_SLAVE_CONFIRM_SEG, 1)], ?w)"
    by (simp add: flash_to_flash_def set)
  moreover have "in_completed ?io = None" "registered ?s" using g by (simp_all add: flash_to_flash_def registered_def)
  ultimately obtain s' where s': "hand_over t ?io (?s, ?w1) = Inr (s', ?w)" "registered s'" "\<not> bs_waiting s'" "bs_repeat s' = 0"
      "bs_segment s' = seg\<lparr>seg_index := seg_index seg + 1\<rparr>"
      "if seg_last seg \<noteq> 0 then bs_state s' = SM_BOOT_SLAVE_STATE_SEND_FW_INFO \<and> bs_timeout s' = \<lparr>m_duration = 0, m_start_time = t\<rparr>
       else bs_state s' = bs_state s"
    using hand_over_confirmed [of ?io ?s ?w1 "int (length ?xs)" ?w t] by auto
  have next_: "if n = length img div 1024 then tells t s' else gives t (n + 1) s'"
    using s'(2-6) s(5-7) g by (auto simp: tells_def gives_def)
  have "bs_state s = SM_BOOT_SLAVE_STATE_SEND_SEG" using g by simp
  then have "sm_boot_slave_process t sig0 ?io (s, w) = Inr ((s', ?w), [])"
    using send s'(1) by (simp add: sm_boot_slave_process_def quiet_poll slave_switch_def Let_def)
  then show ?thesis using copied next_ by blast
qed

lemma copy_run:
  assumes "mounted proc psize pcount st" "part_inside (psize * pcount) p" "part_inside (psize * pcount) q" "disjoint_parts p q"
    and "length img < 2 ^ 31" "length hb = 50"
  shows "copy_at part p q base ver img cells0 n w \<Longrightarrow> gives t0 n s \<Longrightarrow> n + length ts = length img div 1024 + 1 \<Longrightarrow> ts \<noteq> [] \<Longrightarrow>
    \<exists>s' w'. slave_run sig0 (flash_to_flash st p stale hb) ts (s, w) = Inr ((s', w'), [])
      \<and> copy_at part p q base ver img cells0 (length img div 1024 + 1) w' \<and> tells (last ts) s'"
proof (induction ts arbitrary: n w s t0)
  case (Cons t ts)
  have n: "n \<le> length img div 1024" using Cons.prems(3) by simp
  obtain s1 w1 where 1: "sm_boot_slave_process t sig0 (flash_to_flash st p stale hb) (s, w) = Inr ((s1, w1), [])"
      "copy_at part p q base ver img cells0 (n + 1) w1" "if n = length img div 1024 then tells t s1 else gives t (n + 1) s1"
    using copy_step [OF assms(1-4) Cons.prems(1) n assms(5,6) Cons.prems(2)] by blast
  show ?case
  proof (cases "ts = []")
    case True
    then show ?thesis using 1 Cons.prems(3) by (simp add: slave_run_step)
  next
    case False
    then have "n \<noteq> length img div 1024" "n + 1 + length ts = length img div 1024 + 1" using Cons.prems(3) by auto
    then have "gives t (n + 1) s1" using 1(3) by simp
    from Cons.IH [OF 1(2) this _ False] Cons.prems(3) False show ?thesis by (simp add: slave_run_step [OF 1(1)])
  qed
qed simp

text \<open>The signature agrees with what has been taken, and the slave is done.\<close>

lemma copy_ends:
  assumes "copy_at part p q base ver img cells0 (length img div 1024 + 1) w" "tells t0 s" "t0 \<le> t"
  shows "\<exists>s'. slave_run sig0 (flash_to_flash st p stale hb) [t, u] (s, w) = Inr ((s', w), if bs_finish_cb s then [Download_Finished] else [])"
proof -
  let ?io = "flash_to_flash st p stale hb"
  note c = assms(1) [unfolded copy_at_def] and tl = assms(2) [unfolded tells_def]
  have big: "length img < 1024 * (length img div 1024 + 1)" by (simp add: dividend_less_times_div)
  then have "fi_finish (cw_in w)" using c unfolding source_at_def by (simp only: if_True)
  then have info: "in_info ?io w sig0 = Inr (Some (sm_fw_signature_clone (fi_sig (cw_in w)) sig0), w)"
    by (simp add: flash_to_flash_def sm_input_flash_get_fw_info_def)
  let ?sig = "sm_fw_signature_clone (sm_fw_signature_clone (fi_sig (cw_in w)) sig0) (bs_sig s)"
  have src: "fw_crc (fi_sig (cw_in w)) = fo_crc (cw_out w)" "fw_size (fi_sig (cw_in w)) = fo_size (cw_out w)"
    using c by (simp_all only: source_at_def output_at_def)
  have store: "case fo_storage (cw_out w) of None \<Rightarrow> True | Some store \<Rightarrow> 0 \<le> store ?sig"
  proof (cases "fo_storage (cw_out w)")
    case (Some store)
    have "case fo_storage (cw_out w) of None \<Rightarrow> True | Some store \<Rightarrow> \<forall>sig. 0 \<le> store sig" using c unfolding output_at_def by blast
    then show ?thesis using Some by simp
  qed simp
  have clone: "fw_crc ?sig = fw_crc (fi_sig (cw_in w))" "fw_size ?sig = fw_size (fi_sig (cw_in w))"
    by (simp_all add: sm_fw_signature_clone_def)
  have "sm_output_flash_set_fw_info ?sig (cw_out w) = ([(SM_BOOT_SLAVE_CONFIRM_FW_INFO, 1)], cw_out w)"
    unfolding sm_output_flash_set_fw_info_def clone src using store by simp
  then have out: "out_set_info ?io ?sig w = Inr ([(SM_BOOT_SLAVE_CONFIRM_FW_INFO, 1)], w)" by (simp add: flash_to_flash_def)
  have over: "timed_out t (bs_timeout s)" using tl assms(3) by (simp add: timed_out_iff)
  have max: "\<not> SM_BOOT_SLAVE_REPEAT_MAX \<le> 1" by (simp add: SM_BOOT_SLAVE_REPEAT_MAX_def word_le_nat_alt)
  let ?s = "s\<lparr>bs_timeout := elapsed_timer_resetz t SM_BOOT_SLAVE_WAITING_CONFIRM_FW_INFO_TIMEOUT (bs_timeout s), bs_repeat := 1, bs_sig := ?sig,
      bs_state := SM_BOOT_SLAVE_STATE_FINISH_DOWNLOAD\<rparr>"
  have "fw_info_step t sig0 ?io (s, w) = Inr (?s, w)"
    using tl over info out max by (simp add: fw_info_step_def raise_event_def registered_def on_fw_info_def Let_def)
  then have 1: "sm_boot_slave_process t sig0 ?io (s, w) = Inr ((?s, w), [])"
    using tl by (simp add: sm_boot_slave_process_def quiet_poll slave_switch_def)
  have 2: "sm_boot_slave_process u sig0 ?io (?s, w) = Inr ((?s, w), if bs_finish_cb s then [Download_Finished] else [])"
    by (simp add: sm_boot_slave_process_def quiet_poll slave_switch_def)
  show ?thesis unfolding slave_run_step [OF 1] by (simp add: slave_run_Cons 2)
qed

text \<open>The first two calls: the output is ready at once.\<close>

lemma copy_begins:
  assumes "bs_state s = SM_BOOT_SLAVE_STATE_IDLE" "registered s" "timed_out u (bs_timeout s)" "bs_repeat s = 0" "\<not> bs_waiting s"
    and "bs_segment s = sm_seg_create"
  shows "\<exists>s'. slave_run sig0 (flash_to_flash st p stale hb) [t, u] (s, w) = Inr ((s', w), []) \<and> gives u 0 s' \<and> bs_finish_cb s' = bs_finish_cb s"
proof -
  let ?io = "flash_to_flash st p stale hb" and ?s = "s\<lparr>bs_state := SM_BOOT_SLAVE_STATE_REQUEST_UPGRADE\<rparr>"
  have 1: "sm_boot_slave_process t sig0 ?io (s, w) = Inr ((?s, w), [])"
    using assms(1) by (simp add: sm_boot_slave_process_def quiet_poll slave_switch_def)
  let ?s2 = "s\<lparr>bs_repeat := 0, bs_state := SM_BOOT_SLAVE_STATE_SEND_SEG,
      bs_timeout := elapsed_timer_resetz u SM_BOOT_SLAVE_REQUEST_UPGRADE_PERIOD (elapsed_timer_resetz u SM_BOOT_SLAVE_WAITING_FULL_SEGMENT_TIMEOUT (bs_timeout s))\<rparr>"
  have "\<not> SM_BOOT_SLAVE_REPEAT_MAX \<le> 0" by (simp add: SM_BOOT_SLAVE_REPEAT_MAX_def word_le_nat_alt)
  moreover have "out_request ?io n w = Inr ([(SM_BOOT_SLAVE_CONFIRM_READY, 1)], w)" for n
    by (simp add: flash_to_flash_def sm_output_flash_request_upgrade_def)
  ultimately have "request_step u ?io (?s, w) = Inr (?s2, w)"
    using assms(2-4) by (simp add: request_step_def raise_event_def registered_def on_ready_def Let_def elapsed_timer_resetz_def)
  then have 2: "sm_boot_slave_process u sig0 ?io (?s, w) = Inr ((?s2, w), [])"
    by (simp add: sm_boot_slave_process_def quiet_poll slave_switch_def)
  have "gives u 0 ?s2" using assms(2,5,6) by (simp add: gives_def registered_def sm_seg_create_def)
  then show ?thesis unfolding slave_run_step [OF 1] slave_run_step [OF 2] by simp
qed

lemma ends_of_list: "length xs = m + 4 \<Longrightarrow> \<exists>a b us c d. xs = [a, b] @ us @ [c, d] \<and> length us = m"
proof -
  assume len: "length xs = m + 4"
  obtain a b ys where xs: "xs = a # b # ys" using len by (cases xs; cases "tl xs") auto
  obtain c d where cd: "drop m ys = [c, d]" using len xs length_drop [of m ys] by (cases "drop m ys"; cases "tl (drop m ys)") auto
  have "ys = take m ys @ [c, d]" by (metis append_take_drop_id cd)
  then have "xs = [a, b] @ take m ys @ [c, d]" by (simp add: xs)
  moreover have "length (take m ys) = m" using len xs by simp
  ultimately show ?thesis by blast
qed

lemma erase_twice: "a + n \<le> length m \<Longrightarrow> write_at a (replicate n b) (write_at a (replicate n b) m) = write_at a (replicate n b) m"
  by (simp add: write_at_def)

lemma copy_created:
  assumes "mounted proc psize pcount st" "part_inside (psize * pcount) p" "part_inside (psize * pcount) q" "disjoint_parts p q" "part_aligned psize q"
    and "ok f" "file_start (part_bytes st p f) rs base g" "fits_segments 0 rs" "length hb = 50" "0 \<le> sid"
    and "case store of None \<Rightarrow> True | Some store \<Rightarrow> \<forall>sig. 0 \<le> store sig"
  shows "\<exists>u1 f1 s w1. sm_get_flash_boot_output st (Some q) store (u, f) = Inr (True, u1, f1)
    \<and> sm_boot_slave_create t (flash_to_flash st p stale hb) sid (Some junk) \<lparr>cw_in = g, cw_out = u1, cw_chip = f1\<rparr> = Inr (Some s, w1)
    \<and> copy_at (part_bytes st p f) p q base (fw_version (fi_sig g)) (payload rs) (cells f) 0 w1
    \<and> bs_state s = SM_BOOT_SLAVE_STATE_IDLE \<and> bs_regs s = create_regs (fo_events u1) \<and> bs_timeout s = \<lparr>m_duration = 0, m_start_time = t\<rparr>
    \<and> bs_repeat s = 0 \<and> \<not> bs_waiting s \<and> bs_segment s = sm_seg_create"
proof -
  let ?a = "unat (pt_addr q)" and ?n = "unat (pt_size q)" and ?io = "flash_to_flash st p stale hb" and ?part = "part_bytes st p f"
  let ?m = "write_at ?a (replicate ?n blank) (cells f)"
  obtain f1 where f1: "sm_ex_flash_storage_erase_full_partition st (Some q) f = Inr (0, f1)" "ok f1" "cells f1 = ?m"
    using part_erase [OF assms(1,6,3,5)] by blast
  obtain f2 where f2: "sm_ex_flash_storage_erase_full_partition st (Some q) f1 = Inr (0, f2)" "ok f2"
      "cells f2 = write_at ?a (replicate ?n blank) (cells f1)"
    using part_erase [OF assms(1) f1(2) assms(3,5)] by blast
  have len: "length (cells f) = psize * pcount" by (rule cells_length [OF assms(6)])
  have in_: "?a + ?n \<le> length (cells f)" using assms(3) len by (simp add: part_inside_def)
  have m2: "cells f2 = ?m" unfolding f2(3) f1(3) by (rule erase_twice [OF in_])
  have "bytes_at (unat (pt_addr p)) (unat (pt_size p)) ?m = bytes_at (unat (pt_addr p)) (unat (pt_size p)) (cells f)"
    by (rule bytes_at_other) (use assms(2,4) in_ len in \<open>auto simp: part_inside_def disjoint_parts_def\<close>)
  then have part: "bytes_at (unat (pt_addr p)) (unat (pt_size p)) ?m = ?part" by (simp add: bytes_of_part [OF assms(1,6,2)])
  then have part1: "part_bytes st p f1 = ?part" by (simp add: bytes_of_part [OF assms(1) f1(2) assms(2)] f1(3))
  obtain g' where g': "sm_input_flash_init ?part stale hb g = Inr (0, g')" "source_at ?part base (fw_version (fi_sig g)) (payload rs) 0 g'"
    using init_source [OF assms(7-9)] by blast
  let ?u = "u\<lparr>fo_index := -1, fo_part := Some q, fo_size := 0, fo_crc := CRC_16_INIT_VALUE, fo_storage := store\<rparr>"
  let ?w = "\<lparr>cw_in = g', cw_out = ?u, cw_chip = f2\<rparr>"
  have "sm_get_flash_boot_output st (Some q) store (u, f) = Inr (True, ?u, f1)" by (simp add: sm_get_flash_boot_output_def f1(1))
  moreover have "in_init ?io \<lparr>cw_in = g, cw_out = ?u, cw_chip = f1\<rparr> = Inr \<lparr>cw_in = g', cw_out = ?u, cw_chip = f1\<rparr>"
    by (simp add: flash_to_flash_def part1 g'(1))
  moreover have "out_init ?io \<lparr>cw_in = g', cw_out = ?u, cw_chip = f1\<rparr> = Inr ?w"
    by (simp add: flash_to_flash_def sm_output_flash_init_def f2(1))
  moreover have "output_at q (payload rs) 0 ?u" using assms(11) by (simp add: output_at_def sm_CRC_CalculateCRC16_init_value_def)
  then have "copy_at ?part p q base (fw_version (fi_sig g)) (payload rs) (cells f) 0 ?w"
    using g'(2) f2(2) m2 part len by (simp add: copy_at_def filled_def copied_simps)
  moreover have "copy_at part p q base ver img cs n (out_set_events ?io regs w) = copy_at part p q base ver img cs n w"
    for part base ver img cs n regs w by (simp add: copy_at_def output_at_def flash_to_flash_def)
  moreover have "out_events ?io ?w = fo_events u" by (simp add: flash_to_flash_def)
  ultimately show ?thesis using assms(10) by (simp add: sm_boot_slave_create_def elapsed_timer_resetz_def)
qed

lemma copy_all:
  assumes "mounted proc psize pcount st" "part_inside (psize * pcount) p" "part_inside (psize * pcount) q" "disjoint_parts p q" "part_aligned psize q"
    and "ok f" "file_start (part_bytes st p f) rs base g" "fits_segments 0 rs" "length hb = 50" "0 \<le> sid"
    and "case store of None \<Rightarrow> True | Some store \<Rightarrow> \<forall>sig. 0 \<le> store sig"
    and "length (payload rs) < 2 ^ 31" "sorted (t # ts)" "length ts = length (payload rs) div 1024 + 5"
  shows "\<exists>u1 f1 s w1 s' w2. sm_get_flash_boot_output st (Some q) store (u, f) = Inr (True, u1, f1)
    \<and> sm_boot_slave_create t (flash_to_flash st p stale hb) sid (Some junk) \<lparr>cw_in = g, cw_out = u1, cw_chip = f1\<rparr> = Inr (Some s, w1)
    \<and> slave_run sig0 (flash_to_flash st p stale hb) ts (sm_boot_slave_reg_event SM_BOOT_SLAVE_CONFIRM_FINISH_DOWNLOAD s, w1)
        = Inr ((s', w2), [Download_Finished])
    \<and> cells (cw_chip w2) = write_at (unat (pt_addr q)) (filled (unat (pt_size q)) blank (payload rs) (length (payload rs) div 1024 + 1)) (cells f)"
proof -
  let ?io = "flash_to_flash st p stale hb" and ?img = "payload rs" and ?part = "part_bytes st p f"
  obtain u1 f1 s w1 where c: "sm_get_flash_boot_output st (Some q) store (u, f) = Inr (True, u1, f1)"
      "sm_boot_slave_create t ?io sid (Some junk) \<lparr>cw_in = g, cw_out = u1, cw_chip = f1\<rparr> = Inr (Some s, w1)"
      "copy_at ?part p q base (fw_version (fi_sig g)) ?img (cells f) 0 w1"
      "bs_state s = SM_BOOT_SLAVE_STATE_IDLE" "bs_regs s = create_regs (fo_events u1)" "bs_timeout s = \<lparr>m_duration = 0, m_start_time = t\<rparr>"
      "bs_repeat s = 0" "\<not> bs_waiting s" "bs_segment s = sm_seg_create"
    using copy_created [OF assms(1-11), of u t stale junk] by blast
  let ?s = "sm_boot_slave_reg_event SM_BOOT_SLAVE_CONFIRM_FINISH_DOWNLOAD s"
  have s: "?s = s\<lparr>bs_finish_cb := True\<rparr>" by (simp add: sm_boot_slave_reg_event_def)
  obtain ta tb us tc td where ts: "ts = [ta, tb] @ us @ [tc, td]" and us: "length us = length ?img div 1024 + 1"
    using ends_of_list [of ts "length ?img div 1024 + 1"] assms(14) by auto
  have times: "t \<le> tb" "last us \<le> tc"
  proof -
    have "us \<noteq> []" using us by auto
    then have "last us \<in> set us" by simp
    then show "t \<le> tb" "last us \<le> tc" using assms(13) unfolding ts by (auto simp: sorted_append)
  qed
  have reg: "registered ?s" using c(5) by (simp add: s registered_def create_regs_def)
  obtain s1 where 1: "slave_run sig0 ?io [ta, tb] (?s, w1) = Inr ((s1, w1), [])" "gives tb 0 s1"
    using copy_begins [of ?s tb sig0 st p stale hb ta w1] c(4-9) reg times(1) by (auto simp: s timed_out_iff)
  have "us \<noteq> []" "0 + length us = length ?img div 1024 + 1" using us by auto
  from copy_run [OF assms(1-4,12,9) c(3) 1(2) this(2,1), of sig0 stale]
  obtain s2 w2 where 2: "slave_run sig0 ?io us (s1, w1) = Inr ((s2, w2), [])"
      "copy_at ?part p q base (fw_version (fi_sig g)) ?img (cells f) (length ?img div 1024 + 1) w2" "tells (last us) s2" by blast
  have "bs_finish_cb s2" using 2(3) by (simp add: tells_def registered_def)
  then obtain s3 where 3: "slave_run sig0 ?io [tc, td] (s2, w2) = Inr ((s3, w2), [Download_Finished])"
    using copy_ends [OF 2(2,3) times(2), of sig0 st stale hb td] by auto
  have "slave_run sig0 ?io ts (?s, w1) = Inr ((s3, w2), [Download_Finished])"
    unfolding ts slave_run_def run_all_append using 1(1) 2(1) 3 by (simp only: slave_run_def and_then_simps sum.case prod.case append_Nil)
  then show ?thesis using c(1,2) 2(2) unfolding copy_at_def by blast
qed

end

section \<open>The virtual chip\<close>

text \<open>C1.
  An upgrade from the flash to the flash. The Intel-HEX file in one partition has records that do not cross a segment; the other
  partition consists of whole pages, is apart from the first and has room for the image. The calls of the slave, at any times,
  end with success after one for each segment and four more; then the partition holds the bytes of the image, and no other byte
  of the flash has changed.\<close>

theorem flash_copy_copies_the_image:
  assumes "vf_ok f" "vf_mounted st" "part_inside 2097152 p" "part_inside 2097152 q" "disjoint_parts p q" "part_aligned 4096 q"
    and "file_start (part_bytes st p f) rs base g" "fits_segments 0 rs" "length hb = 50" "0 \<le> sid"
    and "length (payload rs) \<le> unat (pt_size q)" "sorted (t # ts)" "length ts = length (payload rs) div 1024 + 5"
  shows "\<exists>u1 f1 s w1 s' w2. sm_get_flash_boot_output st (Some q) None (u, f) = Inr (True, u1, f1)
    \<and> sm_boot_slave_create t (flash_to_flash st p stale hb) sid (Some junk) \<lparr>cw_in = g, cw_out = u1, cw_chip = f1\<rparr> = Inr (Some s, w1)
    \<and> slave_run sig0 (flash_to_flash st p stale hb) ts (sm_boot_slave_reg_event SM_BOOT_SLAVE_CONFIRM_FINISH_DOWNLOAD s, w1)
        = Inr ((s', w2), [Download_Finished])
    \<and> vf_buff (cw_chip w2) = write_at (unat (pt_addr q))
        (payload rs @ replicate (unat (pt_size q) - length (payload rs)) EMPTY_VALUE) (vf_buff f)"
proof -
  have m: "mounted g_file_if 4096 512 st" "part_inside (4096 * 512) p" "part_inside (4096 * 512) q"
    using assms(2-4) by (simp_all add: vf_mounted_def)
  have "length (payload rs) < 2 ^ 31" using assms(4,11) by (simp add: part_inside_def)
  from virtual_chip.copy_all [OF m assms(5,6,1,7-10) _ this assms(12,13), of None u stale junk sig0]
  show ?thesis using assms(11) dividend_less_times_div [of 1024 "length (payload rs)"] by (simp add: filled_def copied_simps(2))
qed

text \<open>C38.
  The partition has no room for the image. The segments that do not fit are refused, which nobody notices: the upgrade is
  reported as a success, with the size and the checksum of the whole image, and the partition holds the beginning of it.\<close>

theorem oversized_image_is_reported_as_copied:
  assumes "vf_ok f" "vf_mounted st" "part_inside 2097152 p" "part_inside 2097152 q" "disjoint_parts p q" "part_aligned 4096 q"
    and "file_start (part_bytes st p f) rs base g" "fits_segments 0 rs" "length hb = 50" "0 \<le> sid"
    and "unat (pt_size q) < length (payload rs)" "length (payload rs) < 2 ^ 31" "sorted (t # ts)" "length ts = length (payload rs) div 1024 + 5"
  shows "\<exists>u1 f1 s w1 s' w2. sm_get_flash_boot_output st (Some q) None (u, f) = Inr (True, u1, f1)
    \<and> sm_boot_slave_create t (flash_to_flash st p stale hb) sid (Some junk) \<lparr>cw_in = g, cw_out = u1, cw_chip = f1\<rparr> = Inr (Some s, w1)
    \<and> slave_run sig0 (flash_to_flash st p stale hb) ts (sm_boot_slave_reg_event SM_BOOT_SLAVE_CONFIRM_FINISH_DOWNLOAD s, w1)
        = Inr ((s', w2), [Download_Finished])
    \<and> vf_buff (cw_chip w2) = write_at (unat (pt_addr q)) (take (unat (pt_size q)) (payload rs)) (vf_buff f)"
proof -
  have m: "mounted g_file_if 4096 512 st" "part_inside (4096 * 512) p" "part_inside (4096 * 512) q"
    using assms(2-4) by (simp_all add: vf_mounted_def)
  let ?n = "unat (pt_size q)"
  have "4096 dvd ?n" using assms(6) by (simp add: part_aligned_def)
  then obtain k where k: "?n = 4096 * k" by (rule dvdE)
  have dv: "1024 * (?n div 1024) = ?n" unfolding k by simp
  have "?n < 1024 * (length (payload rs) div 1024 + 1)" using assms(11) dividend_less_times_div [of 1024 "length (payload rs)"] by simp
  then have "filled ?n EMPTY_VALUE (payload rs) (length (payload rs) div 1024 + 1) = take ?n (payload rs)"
    using assms(11) dv by (simp add: filled_def copied_def min_def)
  then show ?thesis using virtual_chip.copy_all [OF m assms(5,6,1,7-10) _ assms(12-14), of None u stale junk sig0] by simp
qed

section \<open>An example\<close>

definition example_flash :: virtual_flash where
  "example_flash = example_chip\<lparr>vf_buff := example_part example_records @ replicate (4096 * 512 - 99) 7\<rparr>"

abbreviation example_from :: flash_part where "example_from \<equiv> \<lparr>pt_addr = 0, pt_size = 99\<rparr>"

definition example_output :: flash_output where
  "example_output = \<lparr>fo_crc = 0, fo_size = 0, fo_index = 0, fo_part = None, fo_storage = None, fo_events = \<lambda>_. None\<rparr>"

lemma length_example_part: "length (example_part example_records) = 99"
  by (simp add: example_part_def example_records_def hfile_def end_record_def length_hline)

lemma example_flash_ok: "vf_ok example_flash"
  using length_example_part unfolding vf_ok_def example_flash_def example_chip_def by simp

lemma example_bytes: "part_bytes example_storage example_from example_flash = example_part example_records"
proof -
  have "mounted g_file_if 4096 512 example_storage" using example_chip_ok(2) by (simp add: vf_mounted_def)
  from virtual_chip.bytes_of_part [OF this example_flash_ok, of example_from] show ?thesis
    using length_example_part by (simp add: part_inside_def bytes_at_def example_flash_def)
qed

lemma example_starts: "file_start (part_bytes example_storage example_from example_flash) example_records 0x20000 example_opened"
  unfolding example_bytes by (rule example_file)

lemma flash_copy_copies_the_image_witness:
  "\<exists>u1 f1 s w1 s' w2. sm_get_flash_boot_output example_storage (Some \<lparr>pt_addr = 4096, pt_size = 4096\<rparr>) None (example_output, example_flash)
      = Inr (True, u1, f1)
    \<and> sm_boot_slave_create 0 (flash_to_flash example_storage example_from [] (replicate 50 0)) 1 (Some example_slave)
        \<lparr>cw_in = example_opened, cw_out = u1, cw_chip = f1\<rparr> = Inr (Some s, w1)
    \<and> slave_run (fi_sig example_source) (flash_to_flash example_storage example_from [] (replicate 50 0)) [1, 2, 3, 4, 5]
        (sm_boot_slave_reg_event SM_BOOT_SLAVE_CONFIRM_FINISH_DOWNLOAD s, w1) = Inr ((s', w2), [Download_Finished])
    \<and> vf_buff (cw_chip w2) = write_at 4096 ([1, 2, 3] @ replicate 4093 EMPTY_VALUE) (vf_buff example_flash)"
  using flash_copy_copies_the_image [OF example_flash_ok example_chip_ok(2) _ _ _ _ example_starts, of "\<lparr>pt_addr = 4096, pt_size = 4096\<rparr>"
      "replicate 50 0" 1 0 "[1, 2, 3, 4, 5]" example_output "[]" example_slave "fi_sig example_source"]
  by (simp add: part_inside_def disjoint_parts_def part_aligned_def example_payload)

lemma oversized_image_is_reported_as_copied_witness:
  "\<exists>u1 f1 s w1 s' w2. sm_get_flash_boot_output example_storage (Some \<lparr>pt_addr = 4096, pt_size = 0\<rparr>) None (example_output, example_flash)
      = Inr (True, u1, f1)
    \<and> sm_boot_slave_create 0 (flash_to_flash example_storage example_from [] (replicate 50 0)) 1 (Some example_slave)
        \<lparr>cw_in = example_opened, cw_out = u1, cw_chip = f1\<rparr> = Inr (Some s, w1)
    \<and> slave_run (fi_sig example_source) (flash_to_flash example_storage example_from [] (replicate 50 0)) [1, 2, 3, 4, 5]
        (sm_boot_slave_reg_event SM_BOOT_SLAVE_CONFIRM_FINISH_DOWNLOAD s, w1) = Inr ((s', w2), [Download_Finished])
    \<and> vf_buff (cw_chip w2) = write_at 4096 [] (vf_buff example_flash)"
  using oversized_image_is_reported_as_copied [OF example_flash_ok example_chip_ok(2) _ _ _ _ example_starts, of "\<lparr>pt_addr = 4096, pt_size = 0\<rparr>"
      "replicate 50 0" 1 0 "[1, 2, 3, 4, 5]" example_output "[]" example_slave "fi_sig example_source"]
  by (simp add: part_inside_def disjoint_parts_def part_aligned_def example_payload)

end
