(* ===== verification/Ev_Upgrade.thy ===== *)
theory Ev_Upgrade
  imports Upgrading Core_Co
begin

text \<open>
  \<^verbatim>\<open>services/ev_upgrade/sm_sv_ev_upgrade.c\<close>: the upgrade of the devices of the vehicle. A device on the bus is rebooted by an SDO
  write; before a battery pack or the motor controller is upgraded the power unit is told so, and told again afterwards, and the
  application hears of the result when that last write has been answered.

  \<open>'x\<close> is the state of the inputs and outputs. The service below and this one share a world: the CANopen core, the flag and the
  device under way. The callbacks that the upgrade service makes during a step only log or touch the queue of the core, the device
  under way and its result, which nothing that follows them in the step reads; they are run after it, in order. The pause
  (\<^verbatim>\<open>delayMs\<close>) before the last write is time that passes.
\<close>

section \<open>State\<close>

definition BP_ID_DEFAULT :: u8 where "BP_ID_DEFAULT = 4"
definition BP_ID_OFFSET :: u8 where "BP_ID_OFFSET = 5"
definition MC_CANOPEN_ID :: u8 where "MC_CANOPEN_ID = 2"
definition PMU_CANOPEN_ID :: u8 where "PMU_CANOPEN_ID = 1"
definition HMI_CANOPEN_ID :: u8 where "HMI_CANOPEN_ID = 8"
definition PMU_OTA_STT_ENABLE :: u8 where "PMU_OTA_STT_ENABLE = 2"
definition PMU_OTA_STT_DISABLE :: u8 where "PMU_OTA_STT_DISABLE = 0"
definition SM_DEVICE_BP_BOOT_INDEX :: nat where "SM_DEVICE_BP_BOOT_INDEX = 0x2001"
definition SN_DEVICE_BP_REBOOT_SUB_INDEX :: nat where "SN_DEVICE_BP_REBOOT_SUB_INDEX = 7"
definition SM_DEVICE_HMI_BOOT_INDEX :: nat where "SM_DEVICE_HMI_BOOT_INDEX = 0x2801"
definition SM_DEVICE_HMI_REBOOT_SUB_INDEX :: nat where "SM_DEVICE_HMI_REBOOT_SUB_INDEX = 0"
definition SM_DEVICE_PMU_BOOT_INDEX :: nat where "SM_DEVICE_PMU_BOOT_INDEX = 0x2300"
definition SM_DEVICE_PMU_REBOOT_SUB_INDEX :: nat where "SM_DEVICE_PMU_REBOOT_SUB_INDEX = 1"
definition SM_DEVICE_MC_BOOT_INDEX :: nat where "SM_DEVICE_MC_BOOT_INDEX = 0x2200"
definition SM_DEVICE_MC_REBOOT_SUB_INDEX :: nat where "SM_DEVICE_MC_REBOOT_SUB_INDEX = 0"

text \<open>The three callbacks of SDO requests, as numbers.\<close>

definition ENABLE_CB :: nat where "ENABLE_CB = 1"
definition DISABLE_CB :: nat where "DISABLE_CB = 2"
definition REBOOT_CB :: nat where "REBOOT_CB = 3"

record 'x ev_world =
  ew_co :: sm_co
  ew_rebooted :: bool
  ew_dev :: u8
  ew_err :: u8
  ew_rest :: 'x

text \<open>Which callbacks of the application are not null.\<close>

record ev_upgrade_callback =
  on_upgrade_dev :: bool
  on_finish_process :: bool

record 'x ev_upgrade =
  eu_sv :: "'x ev_world upgrade_sv option"
  eu_cb :: "ev_upgrade_callback option"
  eu_world :: "'x ev_world"

datatype ev_note = Upgrade_Dev u8 int | Finish_Process

section \<open>Requests over the bus\<close>

definition ev_send :: "nat \<Rightarrow> nat \<Rightarrow> u8 \<Rightarrow> u8 \<Rightarrow> nat \<Rightarrow> 'x ev_world \<Rightarrow> fault + 'x ev_world" where
  "ev_send idx sub node v cb w =
     bind (sm_co_sdo_client_send idx sub (unat node) (Some [v]) 1 1000 (Some cb) 0 (ew_co w)) (\<lambda>(_, co). Inr (w\<lparr>ew_co := co\<rparr>))"

definition sm_sv_ev_upgrade_set_pmu_ota_status :: "u8 \<Rightarrow> 'x ev_world \<Rightarrow> fault + 'x ev_world" where
  "sm_sv_ev_upgrade_set_pmu_ota_status stt =
     ev_send SM_DEVICE_MC_BOOT_INDEX SM_DEVICE_MC_REBOOT_SUB_INDEX PMU_CANOPEN_ID stt (if stt = PMU_OTA_STT_ENABLE then ENABLE_CB else DISABLE_CB)"

definition is_pack_id :: "u8 \<Rightarrow> bool" where
  "is_pack_id n \<longleftrightarrow> n = BP_ID_OFFSET \<or> n = BP_ID_OFFSET + 1 \<or> n = BP_ID_OFFSET + 2"

definition sm_sv_ev_upgrade_canopen_reboot_dev_if :: "u8 \<Rightarrow> int \<Rightarrow> 'x ev_world \<Rightarrow> fault + (int \<times> 'x ev_world)" where
  "sm_sv_ev_upgrade_canopen_reboot_dev_if n timeout w =
     (let w = w\<lparr>ew_rebooted := False, ew_dev := n\<rparr>;
          reboot = (\<lambda>idx sub w. bind (ev_send idx sub n 1 REBOOT_CB w) (\<lambda>w. Inr (1, w))) in
      if is_pack_id n
      then bind (sm_sv_ev_upgrade_set_pmu_ota_status PMU_OTA_STT_ENABLE w) (reboot SM_DEVICE_BP_BOOT_INDEX SN_DEVICE_BP_REBOOT_SUB_INDEX)
      else if n = MC_CANOPEN_ID then bind (sm_sv_ev_upgrade_set_pmu_ota_status PMU_OTA_STT_ENABLE w) (\<lambda>w. Inr (1, w))
      else if n = PMU_CANOPEN_ID then reboot SM_DEVICE_PMU_BOOT_INDEX SM_DEVICE_PMU_REBOOT_SUB_INDEX w
      else if n = HMI_CANOPEN_ID then reboot SM_DEVICE_HMI_BOOT_INDEX SM_DEVICE_HMI_REBOOT_SUB_INDEX w
      else Inr (-1, w))"

definition m_dev_canopen_output_control_if :: "'x ev_world dev_if" where
  "m_dev_canopen_output_control_if = \<lparr>di_reboot = Some sm_sv_ev_upgrade_canopen_reboot_dev_if, di_rebooted = Some (\<lambda>_ w. ew_rebooted w),
     di_condition = \<lambda>_ _. True\<rparr>"

definition m_dev_flash_output_control_if :: "'x ev_world dev_if" where
  "m_dev_flash_output_control_if = \<lparr>di_reboot = Some (\<lambda>_ _ w. Inr (1, w)), di_rebooted = Some (\<lambda>_ _. True), di_condition = \<lambda>_ _. True\<rparr>"

section \<open>Callbacks\<close>

definition tell_app :: "ev_upgrade_callback option \<Rightarrow> u8 \<Rightarrow> u8 \<Rightarrow> ev_note list" where
  "tell_app cb dev err = (case cb of None \<Rightarrow> []
     | Some c \<Rightarrow> (if on_upgrade_dev c then [Upgrade_Dev dev (uint err)] else []) @ (if on_finish_process c then [Finish_Process] else []))"

definition resume_bus :: "co_profile \<Rightarrow> 'x ev_world \<Rightarrow> 'x ev_world" where
  "resume_bus pr w = w\<lparr>ew_co := sm_co_enable_sync_mode pr (sm_co_set_node_id (unat HMI_CANOPEN_ID) (ew_co w))\<rparr>"

definition sm_sv_ev_enable_pmu_ota_stt_canopen_callback :: "CO_SDO_return_t \<Rightarrow> 'x ev_world \<Rightarrow> 'x ev_world" where
  "sm_sv_ev_enable_pmu_ota_stt_canopen_callback st w = (if ew_dev w = MC_CANOPEN_ID then w\<lparr>ew_rebooted := True\<rparr> else w)"

definition sm_sv_ev_disable_pmu_ota_stt_canopen_callback ::
  "co_profile \<Rightarrow> CO_SDO_return_t \<Rightarrow> ev_upgrade_callback option \<Rightarrow> 'x ev_world \<Rightarrow> 'x ev_world \<times> ev_note list" where
  "sm_sv_ev_disable_pmu_ota_stt_canopen_callback pr st cb w = (resume_bus pr w, tell_app cb (ew_dev w) (ew_err w))"

definition sm_sv_ev_upgrade_canopen_reboot_if_dev_callback :: "CO_SDO_return_t \<Rightarrow> 'x ev_world \<Rightarrow> 'x ev_world" where
  "sm_sv_ev_upgrade_canopen_reboot_if_dev_callback st w = w\<lparr>ew_rebooted := True\<rparr>"

text \<open>An answer of the core, by the number of its callback.\<close>

definition on_sdo :: "co_profile \<Rightarrow> nat \<Rightarrow> CO_SDO_return_t \<Rightarrow> 'x ev_upgrade \<Rightarrow> 'x ev_upgrade \<times> ev_note list" where
  "on_sdo pr cb st u =
     (if cb = ENABLE_CB then (u\<lparr>eu_world := sm_sv_ev_enable_pmu_ota_stt_canopen_callback st (eu_world u)\<rparr>, [])
      else if cb = DISABLE_CB
      then (case sm_sv_ev_disable_pmu_ota_stt_canopen_callback pr st (eu_cb u) (eu_world u) of (w, ns) \<Rightarrow> (u\<lparr>eu_world := w\<rparr>, ns))
      else if cb = REBOOT_CB then (u\<lparr>eu_world := sm_sv_ev_upgrade_canopen_reboot_if_dev_callback st (eu_world u)\<rparr>, [])
      else (u, []))"

definition sm_sv_ev_upgrade_on_dev_upgraded_callback ::
  "co_profile \<Rightarrow> ev_upgrade_callback option \<Rightarrow> u8 \<Rightarrow> u8 \<Rightarrow> 'x ev_world \<Rightarrow> ('x ev_world, ev_note) result" where
  "sm_sv_ev_upgrade_on_dev_upgraded_callback pr cb dev err w =
     (if is_pack_id dev \<or> dev = MC_CANOPEN_ID
      then bind (sm_sv_ev_upgrade_set_pmu_ota_status PMU_OTA_STT_DISABLE (w\<lparr>ew_dev := dev, ew_err := err\<rparr>)) (\<lambda>w. Inr (w, []))
      else Inr (resume_bus pr w, tell_app cb dev err))"

fun on_upgrade_note ::
  "co_profile \<Rightarrow> ev_upgrade_callback option \<Rightarrow> upgrade_note \<Rightarrow> 'x ev_world \<Rightarrow> ('x ev_world, ev_note) result" where
  "on_upgrade_note pr cb (On_Rebooted dev b) w = Inr (w, [])"
| "on_upgrade_note pr cb (On_Upgraded dev err) w = sm_sv_ev_upgrade_on_dev_upgraded_callback pr cb dev err w"
| "on_upgrade_note pr cb On_Finish w = Inr (w, [])"

section \<open>Operations\<close>

text \<open>\<open>ok\<close> and \<open>mem\<close> are what the allocations of the upgrade service return.\<close>

definition sm_sv_ev_upgrade_create_default ::
  "bool \<Rightarrow> 'x ev_world upgrade_dev list option \<Rightarrow> sm_co option \<Rightarrow> 'x ev_upgrade \<Rightarrow> 'x ev_upgrade option" where
  "sm_sv_ev_upgrade_create_default ok mem co u =
     (case co of None \<Rightarrow> None
      | Some c \<Rightarrow> Some (u\<lparr>eu_sv := (if ok then sm_sv_boot_master_create True True True mem else None), eu_world := (eu_world u)\<lparr>ew_co := c\<rparr>\<rparr>))"

definition sm_sv_ev_upgrade_set_callback :: "ev_upgrade_callback option \<Rightarrow> 'x ev_upgrade \<Rightarrow> 'x ev_upgrade" where
  "sm_sv_ev_upgrade_set_callback cb u = u\<lparr>eu_cb := cb\<rparr>"

definition sm_sv_ev_upgrade_process ::
  "co_profile \<Rightarrow> 'x ev_world upgrade_env \<Rightarrow> int \<Rightarrow> fw_signature \<Rightarrow> boot_slave option \<Rightarrow> 'x ev_upgrade \<Rightarrow> (int \<times> 'x ev_upgrade, ev_note) result" where
  "sm_sv_ev_upgrade_process pr env now sig0 junk u =
     (case eu_sv u of None \<Rightarrow> Inr ((-1, u), [])
      | Some sv \<Rightarrow>
          bind (sm_sv_boot_master_process env now sig0 junk (sv, eu_world u)) (\<lambda>((sv, w), ns).
            map_sum id (\<lambda>(w, os). ((0, u\<lparr>eu_sv := Some sv, eu_world := w\<rparr>), os)) (run_all (on_upgrade_note pr (eu_cb u)) ns w)))"

definition ev_request :: "u8 \<Rightarrow> u8 \<Rightarrow> nat option \<Rightarrow> 'x ev_world upgrade_request" where
  "ev_request boot net flash_in = \<lparr>ur_boot_id = boot, ur_network_id = net, ur_if = m_dev_canopen_output_control_if,
     ur_input_type = SM_SV_BOOT_MASTER_INPUT_FLASH, ur_output_type = SM_SV_BOOT_MASTER_OUTPUT_CANOPEN,
     ur_flash_in = flash_in, ur_flash_out = None, ur_storage = None\<rparr>"

text \<open>A device is asked for; \<open>quiet\<close> tells whether the SYNC of the node is stopped first.\<close>

definition ask_upgrade :: "int \<Rightarrow> bool \<Rightarrow> 'x ev_world upgrade_request \<Rightarrow> 'x ev_upgrade \<Rightarrow> int \<times> 'x ev_upgrade" where
  "ask_upgrade now quiet req u =
     (case eu_sv u of None \<Rightarrow> (-1, u)
      | Some sv \<Rightarrow>
          let w = (if quiet then (eu_world u)\<lparr>ew_co := sm_co_disable_sync_mode (ew_co (eu_world u))\<rparr> else eu_world u)
          in case sm_sv_boot_master_request_upgrade now req sv of (r, sv) \<Rightarrow> (r, u\<lparr>eu_sv := Some sv, eu_world := w\<rparr>))"

definition sm_sv_ev_upgrade_bp :: "int \<Rightarrow> u8 \<Rightarrow> nat option \<Rightarrow> 'x ev_upgrade \<Rightarrow> int \<times> 'x ev_upgrade" where
  "sm_sv_ev_upgrade_bp now bp flash_in u =
     (if 3 \<le> bp then (-1, u) else ask_upgrade now True (ev_request BP_ID_DEFAULT (BP_ID_OFFSET + bp) flash_in) u)"

definition sm_sv_ev_upgrade_pmu :: "int \<Rightarrow> nat option \<Rightarrow> 'x ev_upgrade \<Rightarrow> int \<times> 'x ev_upgrade" where
  "sm_sv_ev_upgrade_pmu now flash_in = ask_upgrade now True (ev_request PMU_CANOPEN_ID PMU_CANOPEN_ID flash_in)"

definition sm_sv_ev_upgrade_mc :: "int \<Rightarrow> nat option \<Rightarrow> 'x ev_upgrade \<Rightarrow> int \<times> 'x ev_upgrade" where
  "sm_sv_ev_upgrade_mc now flash_in = ask_upgrade now True (ev_request MC_CANOPEN_ID MC_CANOPEN_ID flash_in)"

definition sm_sv_ev_upgrade_hmi :: "int \<Rightarrow> nat option \<Rightarrow> nat option \<Rightarrow> nat option \<Rightarrow> 'x ev_upgrade \<Rightarrow> int \<times> 'x ev_upgrade" where
  "sm_sv_ev_upgrade_hmi now flash_in flash_out store =
     ask_upgrade now False ((ev_request HMI_CANOPEN_ID HMI_CANOPEN_ID flash_in)\<lparr>ur_if := m_dev_flash_output_control_if,
       ur_output_type := SM_SV_BOOT_MASTER_OUTPUT_FLASH, ur_flash_out := flash_out, ur_storage := store\<rparr>)"

end
