(* ===== verification/Ev_Upgrade_Laws.thy ===== *)
theory Ev_Upgrade_Laws
  imports Ev_Upgrade Upgrading_Laws Core_Co_Laws
begin

text \<open>
  The requests of an upgrade over the bus: what a battery pack is sent before its upgrade, and which pack a result is told for.
\<close>

definition has_room :: "nat \<Rightarrow> sm_co \<Rightarrow> bool" where
  "has_room n co \<longleftrightarrow> fifo_ok (sdo_queue co) \<and> fifo_length (sdo_queue co) = 11 \<and> length (fifo_items (sdo_queue co)) + n \<le> 10"

definition ev_req :: "nat \<Rightarrow> nat \<Rightarrow> u8 \<Rightarrow> u8 \<Rightarrow> nat \<Rightarrow> sdo_request" where
  "ev_req idx sub node v cb = mk_request SM_SDO_W ODA_SDO_W idx sub (unat node) (Some [v]) 1 1000 (Some cb) 0"

text \<open>The write to the power unit, and the one that reboots a pack.\<close>

definition pmu_req :: "u8 \<Rightarrow> sdo_request" where
  "pmu_req stt = ev_req 0x2200 0 PMU_CANOPEN_ID stt (if stt = PMU_OTA_STT_ENABLE then ENABLE_CB else DISABLE_CB)"

definition pack_req :: "u8 \<Rightarrow> sdo_request" where
  "pack_req n = ev_req 0x2001 7 n 1 REBOOT_CB"

lemma ev_send_room:
  assumes "has_room (Suc n) (ew_co w)"
  shows "\<exists>co. ev_send idx sub node v cb w = Inr (w\<lparr>ew_co := co\<rparr>) \<and> has_room n co
    \<and> fifo_items (sdo_queue co) = fifo_items (sdo_queue (ew_co w)) @ [ev_req idx sub node v cb] \<and> parent co = parent (ew_co w)"
proof -
  obtain q where q: "sm_fifo_push (ev_req idx sub node v cb) (sdo_queue (ew_co w)) = Inr (True, q)" "fifo_ok q"
      "fifo_items q = fifo_items (sdo_queue (ew_co w)) @ [ev_req idx sub node v cb]" "fifo_length q = 11"
    using push_spec [of "sdo_queue (ew_co w)" "ev_req idx sub node v cb"] assms by (auto simp: has_room_def)
  then show ?thesis using assms
    by (intro exI [of _ "(ew_co w)\<lparr>sdo_queue := q\<rparr>"])
      (simp add: ev_send_def sm_co_sdo_client_send_def sm_sdo_push_def has_room_def flip: ev_req_def)
qed

lemma pmu_status_room:
  assumes "has_room (Suc n) (ew_co w)"
  shows "\<exists>co. sm_sv_ev_upgrade_set_pmu_ota_status stt w = Inr (w\<lparr>ew_co := co\<rparr>) \<and> has_room n co
    \<and> fifo_items (sdo_queue co) = fifo_items (sdo_queue (ew_co w)) @ [pmu_req stt] \<and> parent co = parent (ew_co w)"
  using ev_send_room [OF assms]
  by (simp add: sm_sv_ev_upgrade_set_pmu_ota_status_def pmu_req_def SM_DEVICE_MC_BOOT_INDEX_def SM_DEVICE_MC_REBOOT_SUB_INDEX_def)

lemma reboot_pack:
  assumes "is_pack_id b" "has_room (n + 2) (ew_co w)"
  shows "\<exists>co. sm_sv_ev_upgrade_canopen_reboot_dev_if b tmo w = Inr (1, w\<lparr>ew_rebooted := False, ew_dev := b, ew_co := co\<rparr>) \<and> has_room n co
    \<and> fifo_items (sdo_queue co) = fifo_items (sdo_queue (ew_co w)) @ [pmu_req PMU_OTA_STT_ENABLE, pack_req b] \<and> parent co = parent (ew_co w)"
proof -
  let ?w = "w\<lparr>ew_rebooted := False, ew_dev := b\<rparr>"
  have r: "has_room (Suc (Suc n)) (ew_co ?w)" using assms(2) by simp
  obtain c1 where 1: "sm_sv_ev_upgrade_set_pmu_ota_status PMU_OTA_STT_ENABLE ?w = Inr (?w\<lparr>ew_co := c1\<rparr>)" "has_room (Suc n) c1"
      "fifo_items (sdo_queue c1) = fifo_items (sdo_queue (ew_co w)) @ [pmu_req PMU_OTA_STT_ENABLE]" "parent c1 = parent (ew_co w)"
    using pmu_status_room [OF r, of PMU_OTA_STT_ENABLE] by auto
  have r1: "has_room (Suc n) (ew_co (?w\<lparr>ew_co := c1\<rparr>))" using 1(2) by simp
  obtain c2 where 2: "ev_send 0x2001 7 b 1 REBOOT_CB (?w\<lparr>ew_co := c1\<rparr>) = Inr (?w\<lparr>ew_co := c1\<rparr>\<lparr>ew_co := c2\<rparr>)" "has_room n c2"
      "fifo_items (sdo_queue c2) = fifo_items (sdo_queue c1) @ [pack_req b]" "parent c2 = parent c1"
    using ev_send_room [OF r1, of "0x2001" 7 b 1 REBOOT_CB] by (auto simp: pack_req_def)
  have "sm_sv_ev_upgrade_canopen_reboot_dev_if b tmo w = Inr (1, ?w\<lparr>ew_co := c2\<rparr>)"
    using 1(1) 2(1) assms(1)
    by (simp add: sm_sv_ev_upgrade_canopen_reboot_dev_if_def SM_DEVICE_BP_BOOT_INDEX_def SN_DEVICE_BP_REBOOT_SUB_INDEX_def)
  then show ?thesis using 1 2 by auto
qed

lemma below_3: "bp < (3 :: u8) \<Longrightarrow> bp = 0 \<or> bp = 1 \<or> bp = 2"
proof -
  assume "bp < 3"
  then have "unat bp < 3" by (simp add: word_less_nat_alt)
  then have "unat bp = unat (0 :: u8) \<or> unat bp = unat (1 :: u8) \<or> unat bp = unat (2 :: u8)" by auto
  then show ?thesis by (simp only: word_unat_eq_iff)
qed

text \<open>A pack is the next device: it waits and its time is not over.\<close>

definition next_pack :: "int \<Rightarrow> u8 \<Rightarrow> 'x ev_world upgrade_sv \<Rightarrow> bool" where
  "next_pack now b sv \<longleftrightarrow> is_pack_id b \<and> us_current sv = None \<and> 0 < v_count (us_devs sv) \<and> vec_ok (us_devs sv) \<and> ud_state (dev_at 0 sv) = UPGRADING_DEV_WAITING_ONLINE
     \<and> \<not> timed_out now (ud_timeout (dev_at 0 sv)) \<and> ur_if (ud_info (dev_at 0 sv)) = m_dev_canopen_output_control_if
     \<and> ur_network_id (ud_info (dev_at 0 sv)) = b"

lemma pick_pack:
  assumes "next_pack now b sv" "has_room (n + 2) (ew_co w)"
  shows "\<exists>co sv'. sm_sv_boot_master_process env now sig0 junk (sv, w) = Inr ((sv', w\<lparr>ew_rebooted := False, ew_dev := b, ew_co := co\<rparr>), [])
    \<and> has_room n co \<and> fifo_items (sdo_queue co) = fifo_items (sdo_queue (ew_co w)) @ [pmu_req PMU_OTA_STT_ENABLE, pack_req b]
    \<and> parent co = parent (ew_co w) \<and> us_current sv' = Some 0 \<and> ud_state (dev_at 0 sv') = UPGRADING_DEV_WAITING_REBOOT
    \<and> ud_timeout (dev_at 0 sv') = \<lparr>m_duration = 10000, m_start_time = now\<rparr> \<and> ud_info (dev_at 0 sv') = ud_info (dev_at 0 sv)"
proof -
  have s: "is_pack_id b" "us_current sv = None" "0 < v_count (us_devs sv)" "vec_ok (us_devs sv)" "ud_state (dev_at 0 sv) = UPGRADING_DEV_WAITING_ONLINE"
      "\<not> timed_out now (ud_timeout (dev_at 0 sv))" "ur_if (ud_info (dev_at 0 sv)) = m_dev_canopen_output_control_if"
      "ur_network_id (ud_info (dev_at 0 sv)) = b"
    using assms(1) by (auto simp: next_pack_def)
  obtain co where co: "sm_sv_ev_upgrade_canopen_reboot_dev_if b SM_SV_BOOT_REBOOT_DEV_TIMEOUT w
        = Inr (1, w\<lparr>ew_rebooted := False, ew_dev := b, ew_co := co\<rparr>)" "has_room n co"
      "fifo_items (sdo_queue co) = fifo_items (sdo_queue (ew_co w)) @ [pmu_req PMU_OTA_STT_ENABLE, pack_req b]" "parent co = parent (ew_co w)"
    using reboot_pack [OF s(1) assms(2)] by blast
  let ?d = "(dev_at 0 sv)\<lparr>ud_timeout := \<lparr>m_duration = 10000, m_start_time = now\<rparr>, ud_state := UPGRADING_DEV_WAITING_REBOOT\<rparr>"
  let ?sv = "put_dev 0 ?d (sv\<lparr>us_current := Some 0\<rparr>)"
  have tm: "x\<lparr>m_duration := 10000, m_start_time := now\<rparr> = \<lparr>m_duration = 10000, m_start_time = now\<rparr>" for x :: elapsed_timer by simp
  have at: "dev_at 0 (sv\<lparr>us_current := Some 0\<rparr>) = dev_at 0 sv" by (simp add: dev_at_def)
  have "sm_sv_boot_prepare_upgrading_dev env now junk (sv\<lparr>us_current := Some 0\<rparr>, w)
      = Inr ((?sv, w\<lparr>ew_rebooted := False, ew_dev := b, ew_co := co\<rparr>), [])"
    using s(7,8) co(1)
    by (simp add: sm_sv_boot_prepare_upgrading_dev_def at m_dev_canopen_output_control_if_def Let_def elapsed_timer_resetz_def tm
        SM_SV_BOOT_REBOOT_DEV_TIMEOUT_def)
  then have "pick_dev env now junk [0..<v_count (us_devs sv)] (sv, w)
      = Inr ((True, ?sv, w\<lparr>ew_rebooted := False, ew_dev := b, ew_co := co\<rparr>), [])"
    using s by (simp add: upt_conv_Cons m_dev_canopen_output_control_if_def Let_def)
  then have p: "sm_sv_boot_master_process env now sig0 junk (sv, w) = Inr ((?sv, w\<lparr>ew_rebooted := False, ew_dev := b, ew_co := co\<rparr>), [])"
    using s(2,3) by (simp add: sm_sv_boot_master_process_def sm_vector_get_size_def)
  have "0 < length (v_memory (us_devs sv))" using s(3,4) by (auto simp: vec_ok_def)
  then have "dev_at 0 ?sv = ?d" "us_current ?sv = Some 0" by (simp_all add: dev_at_def put_dev_def)
  then show ?thesis using p co(2-4) by (intro exI [of _ co] exI [of _ ?sv]) simp
qed

text \<open>The waiting pack is told to reboot; the answer of the pack, a refusal too, counts as the reboot.\<close>

lemma request_is_next:
  assumes "vec_ok (us_devs sv)" "v_count (us_devs sv) = 0" "v_max (us_devs sv) = 64" "us_current sv = None" "is_pack_id b" "now < t + 45000"
  shows "\<exists>sv'. sm_sv_boot_master_request_upgrade t (ev_request k b p) sv = (0, sv') \<and> next_pack now b sv'
    \<and> ud_info (dev_at 0 sv') = ev_request k b p"
proof -
  let ?v = "(us_devs sv)\<lparr>v_memory := (v_memory (us_devs sv))[0 := new_dev t (ev_request k b p)], v_count := 1\<rparr>"
  have "sm_sv_boot_master_request_upgrade t (ev_request k b p) sv = (0, sv\<lparr>us_devs := ?v\<rparr>)"
    using assms(2,3) by (simp add: sm_sv_boot_master_request_upgrade_def sm_vector_is_full_def sm_vector_push_back_def)
  moreover have "length (v_memory (us_devs sv)) = 64" using assms(1,3) by (simp add: vec_ok_def)
  ultimately show ?thesis using assms
    by (simp add: next_pack_def vec_ok_def dev_at_def new_dev_def ev_request_def timed_out_iff SM_SV_BOOT_WAITING_ONLINE_TIMEOUT_def)
qed

text \<open>C18.
  The application asks for the upgrade of a battery pack while no other is asked for. The next step sends the power unit to its
  upgrade state, and then the reboot to the pack, and waits for ten seconds; the SYNC of the node has been stopped. Any answer
  to the reboot, also that it was refused or timed out, is taken for the reboot of the pack.\<close>

theorem pack_is_rebooted_first:
  assumes "eu_sv u = Some sv" "vec_ok (us_devs sv)" "v_count (us_devs sv) = 0" "v_max (us_devs sv) = 64" "us_current sv = None"
    and "has_room 2 (ew_co (eu_world u))" "bp < 3" "now < t + 45000"
  shows "\<exists>u1 u2 sv2. sm_sv_ev_upgrade_bp t bp (Some p) u = (0, u1) \<and> sm_sv_ev_upgrade_process pr env now sig0 junk u1 = Inr ((0, u2), [])
    \<and> fifo_items (sdo_queue (ew_co (eu_world u2)))
        = fifo_items (sdo_queue (ew_co (eu_world u))) @ [pmu_req PMU_OTA_STT_ENABLE, pack_req (BP_ID_OFFSET + bp)]
    \<and> parent (ew_co (eu_world u2)) = CO_disable_sync_mode (parent (ew_co (eu_world u)))
    \<and> eu_sv u2 = Some sv2 \<and> us_current sv2 = Some 0 \<and> ud_state (dev_at 0 sv2) = UPGRADING_DEV_WAITING_REBOOT
    \<and> ud_timeout (dev_at 0 sv2) = \<lparr>m_duration = 10000, m_start_time = now\<rparr> \<and> \<not> ew_rebooted (eu_world u2)
    \<and> (\<forall>st. ew_rebooted (eu_world (fst (on_sdo pr REBOOT_CB st u2))))"
proof -
  let ?b = "BP_ID_OFFSET + bp" and ?w = "(eu_world u)\<lparr>ew_co := sm_co_disable_sync_mode (ew_co (eu_world u))\<rparr>"
  have "bp = 0 \<or> bp = 1 \<or> bp = 2" using assms(7) by (rule below_3)
  then have b: "is_pack_id ?b" by (auto simp: is_pack_id_def BP_ID_OFFSET_def)
  obtain sv1 where r: "sm_sv_boot_master_request_upgrade t (ev_request BP_ID_DEFAULT ?b (Some p)) sv = (0, sv1)" "next_pack now ?b sv1"
    using request_is_next [OF assms(2-5) b assms(8)] by blast
  let ?u1 = "u\<lparr>eu_sv := Some sv1, eu_world := ?w\<rparr>"
  have 1: "sm_sv_ev_upgrade_bp t bp (Some p) u = (0, ?u1)"
    using assms(1,7) r(1) by (simp add: sm_sv_ev_upgrade_bp_def ask_upgrade_def Let_def not_le)
  have "has_room (0 + 2) (ew_co ?w)" using assms(6) by (simp add: has_room_def sm_co_disable_sync_mode_def)
  from pick_pack [OF r(2) this, of env sig0 junk]
  obtain co sv2 where 2: "sm_sv_boot_master_process env now sig0 junk (sv1, ?w) = Inr ((sv2, ?w\<lparr>ew_rebooted := False, ew_dev := ?b, ew_co := co\<rparr>), [])"
      "fifo_items (sdo_queue co) = fifo_items (sdo_queue (ew_co ?w)) @ [pmu_req PMU_OTA_STT_ENABLE, pack_req ?b]" "parent co = parent (ew_co ?w)"
      "us_current sv2 = Some 0" "ud_state (dev_at 0 sv2) = UPGRADING_DEV_WAITING_REBOOT"
      "ud_timeout (dev_at 0 sv2) = \<lparr>m_duration = 10000, m_start_time = now\<rparr>" by blast
  let ?u2 = "?u1\<lparr>eu_sv := Some sv2, eu_world := ?w\<lparr>ew_rebooted := False, ew_dev := ?b, ew_co := co\<rparr>\<rparr>"
  have 3: "sm_sv_ev_upgrade_process pr env now sig0 junk ?u1 = Inr ((0, ?u2), [])" using 2(1) by (simp add: sm_sv_ev_upgrade_process_def)
  have "ew_rebooted (eu_world (fst (on_sdo pr REBOOT_CB st ?u2)))" for st
    by (simp add: on_sdo_def REBOOT_CB_def ENABLE_CB_def DISABLE_CB_def sm_sv_ev_upgrade_canopen_reboot_if_dev_callback_def)
  then show ?thesis using 1 3 2(2-6)
    by (intro exI [of _ ?u1] exI [of _ ?u2] exI [of _ sv2]) (simp add: sm_co_disable_sync_mode_def)
qed

text \<open>
  Two battery packs are to be upgraded. The first one ends with the result \<open>e\<close>, in whatever way, and the second is taken up at
  the next call, before the power unit has answered. When it answers, the application is told \<open>e\<close> for the second pack, whose
  upgrade has just begun, and that the process is over; it is told nothing for the first.\<close>

theorem result_is_told_for_the_next_pack:
  assumes "eu_sv u = Some sv" "eu_cb u = Some \<lparr>on_upgrade_dev = True, on_finish_process = True\<rparr>"
    and "sm_sv_boot_master_process env t1 sig0 junk (sv, eu_world u) = Inr ((sv1, w1), [On_Upgraded a e])" "is_pack_id a"
    and "next_pack t2 b sv1" "has_room 3 (ew_co w1)"
  shows "\<exists>u1 u2 u3. sm_sv_ev_upgrade_process pr env t1 sig0 junk u = Inr ((0, u1), []) \<and> sm_sv_ev_upgrade_process pr env t2 sig0 junk u1 = Inr ((0, u2), [])
    \<and> fifo_items (sdo_queue (ew_co (eu_world u2)))
        = fifo_items (sdo_queue (ew_co w1)) @ [pmu_req PMU_OTA_STT_DISABLE, pmu_req PMU_OTA_STT_ENABLE, pack_req b]
    \<and> on_sdo pr DISABLE_CB st u2 = (u3, [Upgrade_Dev b (uint e), Finish_Process])"
proof -
  have "has_room (Suc 2) (ew_co (w1\<lparr>ew_dev := a, ew_err := e\<rparr>))" using assms(6) by (simp add: numeral_3_eq_3)
  from pmu_status_room [OF this, of PMU_OTA_STT_DISABLE]
  obtain c1 where 1: "sm_sv_ev_upgrade_set_pmu_ota_status PMU_OTA_STT_DISABLE (w1\<lparr>ew_dev := a, ew_err := e\<rparr>) = Inr (w1\<lparr>ew_dev := a, ew_err := e, ew_co := c1\<rparr>)"
      "has_room 2 c1" "fifo_items (sdo_queue c1) = fifo_items (sdo_queue (ew_co w1)) @ [pmu_req PMU_OTA_STT_DISABLE]" by auto
  let ?w = "w1\<lparr>ew_dev := a, ew_err := e, ew_co := c1\<rparr>"
  let ?u1 = "u\<lparr>eu_sv := Some sv1, eu_world := ?w\<rparr>"
  have p1: "sm_sv_ev_upgrade_process pr env t1 sig0 junk u = Inr ((0, ?u1), [])"
    using assms(1,3,4) 1(1) by (simp add: sm_sv_ev_upgrade_process_def sm_sv_ev_upgrade_on_dev_upgraded_callback_def)
  have "has_room (0 + 2) (ew_co ?w)" using 1(2) by (simp add: numeral_2_eq_2)
  from pick_pack [OF assms(5) this, of env sig0 junk]
  obtain co sv2 where 2: "sm_sv_boot_master_process env t2 sig0 junk (sv1, ?w) = Inr ((sv2, ?w\<lparr>ew_rebooted := False, ew_dev := b, ew_co := co\<rparr>), [])"
      "fifo_items (sdo_queue co) = fifo_items (sdo_queue (ew_co ?w)) @ [pmu_req PMU_OTA_STT_ENABLE, pack_req b]" by blast
  let ?u2 = "?u1\<lparr>eu_sv := Some sv2, eu_world := ?w\<lparr>ew_rebooted := False, ew_dev := b, ew_co := co\<rparr>\<rparr>"
  have p2: "sm_sv_ev_upgrade_process pr env t2 sig0 junk ?u1 = Inr ((0, ?u2), [])" using 2(1) by (simp add: sm_sv_ev_upgrade_process_def)
  obtain u3 where "on_sdo pr DISABLE_CB st ?u2 = (u3, [Upgrade_Dev b (uint e), Finish_Process])"
    using assms(2) by (simp add: on_sdo_def DISABLE_CB_def ENABLE_CB_def sm_sv_ev_disable_pmu_ota_stt_canopen_callback_def tell_app_def)
  then show ?thesis using p1 p2 2(2) 1(3) by (intro exI [of _ ?u1] exI [of _ ?u2] exI [of _ u3]) simp
qed

section \<open>Examples\<close>

definition example_pack :: "int \<Rightarrow> u8 \<Rightarrow> unit ev_world upgrade_dev" where
  "example_pack t n = new_dev t (ev_request BP_ID_DEFAULT n None)"

definition example_sv_of :: "unit ev_world upgrade_dev list \<Rightarrow> unit ev_world upgrade_sv" where
  "example_sv_of ds = \<lparr>us_devs = \<lparr>v_memory = ds @ replicate (64 - length ds) (example_pack 0 5), v_max = 64, v_count = length ds\<rparr>,
     us_current = None, us_master = sm_boot_master_create True, us_on_rebooted = True, us_on_upgraded = True, us_on_finish = True\<rparr>"

definition example_ev :: "unit ev_world upgrade_dev list \<Rightarrow> unit ev_upgrade" where
  "example_ev ds = \<lparr>eu_sv = Some (example_sv_of ds), eu_cb = Some \<lparr>on_upgrade_dev = True, on_finish_process = True\<rparr>,
     eu_world = \<lparr>ew_co = example_co, ew_rebooted = False, ew_dev = 0, ew_err = 0, ew_rest = ()\<rparr>\<rparr>"

lemma example_room: "n \<le> 10 \<Longrightarrow> has_room n example_co"
  using fifo_init_ok [of 10 44 "example_request 0"] by (simp add: has_room_def example_co_def sm_fifo_init_def)

lemma pack_is_rebooted_first_witness:
  "\<forall>pr env sig0 junk. \<exists>u1 u2. sm_sv_ev_upgrade_bp 0 1 (Some 7) (example_ev []) = (0, u1)
    \<and> sm_sv_ev_upgrade_process pr env 10 sig0 junk u1 = Inr ((0, u2), [])
    \<and> fifo_items (sdo_queue (ew_co (eu_world u2)))
        = fifo_items (sdo_queue example_co) @ [pmu_req PMU_OTA_STT_ENABLE, pack_req (BP_ID_OFFSET + 1)]"
proof (intro allI)
  fix pr env sig0 junk
  show "\<exists>u1 u2. sm_sv_ev_upgrade_bp 0 1 (Some 7) (example_ev []) = (0, u1)
    \<and> sm_sv_ev_upgrade_process pr env 10 sig0 junk u1 = Inr ((0, u2), [])
    \<and> fifo_items (sdo_queue (ew_co (eu_world u2)))
        = fifo_items (sdo_queue example_co) @ [pmu_req PMU_OTA_STT_ENABLE, pack_req (BP_ID_OFFSET + 1)]"
    using pack_is_rebooted_first [of "example_ev []" "example_sv_of []" 1 10 0 7 pr env sig0 junk] example_room [of 2]
    by (auto simp: example_ev_def example_sv_of_def vec_ok_def)
qed

text \<open>The first pack is given up because it was asked for 45 seconds ago.\<close>

lemma result_is_told_for_the_next_pack_witness:
  "\<forall>pr env sig0 junk st. \<exists>u1 u2 u3. sm_sv_ev_upgrade_process pr env 45000 sig0 junk (example_ev [example_pack 0 5, example_pack 100 6]) = Inr ((0, u1), [])
    \<and> sm_sv_ev_upgrade_process pr env 45010 sig0 junk u1 = Inr ((0, u2), [])
    \<and> on_sdo pr DISABLE_CB st u2 = (u3, [Upgrade_Dev 6 254, Finish_Process])"
proof (intro allI)
  fix pr env sig0 junk st
  let ?u = "example_ev [example_pack 0 5, example_pack 100 6]" and ?sv = "example_sv_of [example_pack 0 5, example_pack 100 6]"
  let ?sv1 = "?sv\<lparr>us_devs := snd (sm_vector_erase_item 0 (us_devs ?sv))\<rparr>"
  have "sm_sv_boot_master_process env 45000 sig0 junk (?sv, eu_world ?u) = Inr ((?sv1, eu_world ?u), [On_Upgraded 5 254])"
    by (simp add: sm_sv_boot_master_process_def example_sv_of_def sm_vector_get_size_def upt_conv_Cons dev_at_def example_pack_def new_dev_def
        timed_out_iff SM_SV_BOOT_WAITING_ONLINE_TIMEOUT_def notify_upgraded_def sm_vector_erase_item_def Let_def ev_request_def
        SM_SV_BOOT_MASTER_ERR_TIMEOUT_def)
  moreover have "next_pack 45010 6 ?sv1"
    by (simp add: next_pack_def example_sv_of_def sm_vector_erase_item_def Let_def shift_left_def dev_at_def vec_ok_def example_pack_def new_dev_def
        timed_out_iff SM_SV_BOOT_WAITING_ONLINE_TIMEOUT_def ev_request_def is_pack_id_def BP_ID_OFFSET_def)
  moreover have "eu_sv ?u = Some ?sv" "eu_cb ?u = Some \<lparr>on_upgrade_dev = True, on_finish_process = True\<rparr>" "is_pack_id 5"
      "has_room 3 (ew_co (eu_world ?u))"
    using example_room [of 3] by (simp_all add: example_ev_def is_pack_id_def BP_ID_OFFSET_def)
  ultimately show "\<exists>u1 u2 u3. sm_sv_ev_upgrade_process pr env 45000 sig0 junk ?u = Inr ((0, u1), [])
    \<and> sm_sv_ev_upgrade_process pr env 45010 sig0 junk u1 = Inr ((0, u2), [])
    \<and> on_sdo pr DISABLE_CB st u2 = (u3, [Upgrade_Dev 6 254, Finish_Process])"
    using result_is_told_for_the_next_pack [of ?u ?sv env 45000 sig0 junk ?sv1 "eu_world ?u" 5 254 45010 6 pr st] by auto
qed

end
