(* ===== verification/Io_Service.thy ===== *)
theory Io_Service
  imports Elapsed_Timer
begin

text \<open>
  \<^verbatim>\<open>services/ev_io/sm_sv_io.c\<close>: the digital inputs and outputs of the unit. An input is taken over when it has been the same
  for the time of the debounce; an output is forced, blinks, or follows a switch.

  Callbacks and the functions that drive the pins are numbers; what is called is a list of \<open>io_out\<close>. What the pins read is an
  argument, \<open>raw i\<close> for the input \<open>i\<close>; \<open>beh\<close> gives the effect of a function that an output with a switch would call.
\<close>

section \<open>State\<close>

definition SM_SV_IO_DEACTIVATE :: u8 where "SM_SV_IO_DEACTIVATE = 0"
definition SM_SV_IO_ACTIVATE :: u8 where "SM_SV_IO_ACTIVATE = 1"
definition SM_SV_IO_DEBOUNCE_TIME_DEFAULT :: int where "SM_SV_IO_DEBOUNCE_TIME_DEFAULT = 100"
definition SM_SV_IO_BLINK_DURATION_DEFAULT :: int where "SM_SV_IO_BLINK_DURATION_DEFAULT = 500"
definition SM_SV_IO_BLINK_REPEAT_TIME_FOREVER :: int where "SM_SV_IO_BLINK_REPEAT_TIME_FOREVER = -1"
definition IN_12V_DET :: nat where "IN_12V_DET = 0"
definition IN_NUMBER :: nat where "IN_NUMBER = 1"
definition OUT_12V_ACT :: nat where "OUT_12V_ACT = 0"
definition OUT_NUMBER :: nat where "OUT_NUMBER = 1"
definition BT_NUMBER :: nat where "BT_NUMBER = 2"
definition SM_SV_IO_EVENT_12V_DET_CHANGED :: u8 where "SM_SV_IO_EVENT_12V_DET_CHANGED = 0"
definition SM_SV_IO_EVENT_ACTIVE_12V_CHANGED :: u8 where "SM_SV_IO_EVENT_ACTIVE_12V_CHANGED = 1"
definition SM_SV_IO_EVENT_NUMBER :: u8 where "SM_SV_IO_EVENT_NUMBER = 3"

datatype OP_STATE = OP_STATE_NORMAL | OP_STATE_DEFAULT | OP_STATE_FORCE | OP_STATE_FORCE_BLINK

record sm_input =
  in_if :: "nat option"
  in_enable :: u8
  in_real_state :: u8
  in_debounce_value :: u8
  in_debounce_time :: elapsed_timer
  in_event :: u8
  in_cb :: "nat option"

record sm_output =
  out_if :: "nat option"
  out_behavior :: "nat option"
  out_sw :: "nat option"
  out_state :: u8
  out_enable :: u8
  out_op_state :: OP_STATE
  out_force_value :: u8
  out_repeat :: int
  out_blink_count :: int
  out_duration :: elapsed_timer
  out_event :: u8
  out_cb :: "nat option"

record io_bt =
  bt_event :: u8
  bt_cb :: "nat option"

record sm_sv_io_if =
  in_12v_det_fn :: "nat option"
  out_actice_12V_fn :: "nat option"

record sm_sv_io =
  io_if :: "sm_sv_io_if option"
  io_input :: "sm_input list"
  io_output :: "sm_output list"
  io_button :: "io_bt list"

text \<open>A pin is driven; a callback is told an event and a value.\<close>

datatype io_out = Drive nat u8 | Io_Event nat u8 u8

section \<open>Inputs\<close>

definition tell :: "nat option \<Rightarrow> u8 \<Rightarrow> u8 \<Rightarrow> io_out list" where
  "tell cb event v = (case cb of None \<Rightarrow> [] | Some c \<Rightarrow> [Io_Event c event v])"

definition debounce :: "int \<Rightarrow> u8 \<Rightarrow> sm_input \<Rightarrow> sm_input" where
  "debounce now current i =
     (if current \<noteq> in_debounce_value i
      then i\<lparr>in_debounce_value := current, in_debounce_time := elapsed_timer_reset now (in_debounce_time i)\<rparr> else i)"

definition input_step :: "int \<Rightarrow> (nat \<Rightarrow> int) \<Rightarrow> sm_input \<Rightarrow> sm_input \<times> io_out list" where
  "input_step now raw i =
     (case in_if i of
        Some p \<Rightarrow>
          if in_enable i = 0 then (i, [])
          else let i = debounce now (word_of_int (raw p)) i in
            if timed_out now (in_debounce_time i) \<and> in_debounce_value i \<noteq> in_real_state i
            then (i\<lparr>in_real_state := in_debounce_value i\<rparr>, tell (in_cb i) (in_event i) (in_debounce_value i))
            else (i, [])
      | None \<Rightarrow> (i, []))"

definition sm_io_input_process :: "int \<Rightarrow> (nat \<Rightarrow> int) \<Rightarrow> sm_sv_io \<Rightarrow> sm_sv_io \<times> io_out list" where
  "sm_io_input_process now raw io =
     (let rs = map (input_step now raw) (io_input io) in (io\<lparr>io_input := map fst rs\<rparr>, concat (map snd rs)))"

section \<open>Outputs\<close>

definition drive :: "sm_output \<Rightarrow> u8 \<Rightarrow> io_out list" where
  "drive u v = (case out_if u of None \<Rightarrow> [] | Some p \<Rightarrow> [Drive p v])"

definition sm_output_reset :: "int \<Rightarrow> sm_output \<Rightarrow> sm_output \<times> io_out list" where
  "sm_output_reset now u =
     (u\<lparr>out_state := SM_SV_IO_DEACTIVATE, out_repeat := SM_SV_IO_BLINK_REPEAT_TIME_FOREVER, out_blink_count := 0,
        out_duration := elapsed_timer_resetz now SM_SV_IO_BLINK_DURATION_DEFAULT (out_duration u)\<rparr>,
      drive u SM_SV_IO_DEACTIVATE
        @ (if out_state u \<noteq> SM_SV_IO_DEACTIVATE then tell (out_cb u) (out_event u) SM_SV_IO_DEACTIVATE else []))"

definition sm_output_blink :: "int \<Rightarrow> sm_output \<Rightarrow> sm_output \<times> io_out list" where
  "sm_output_blink now u =
     (if timed_out now (out_duration u) \<and> (out_repeat u = SM_SV_IO_BLINK_REPEAT_TIME_FOREVER \<or> out_blink_count u \<le> out_repeat u)
      then let v = (if out_state u = 0 then 1 else 0) in
        (u\<lparr>out_state := v, out_blink_count := out_blink_count u + 1, out_duration := elapsed_timer_reset now (out_duration u)\<rparr>,
         drive u v @ tell (out_cb u) (out_event u) v)
      else (u, []))"

definition output_step ::
  "(nat \<Rightarrow> int \<Rightarrow> sm_output \<Rightarrow> sm_output \<times> io_out list) \<Rightarrow> int \<Rightarrow> sm_input list \<Rightarrow> sm_output \<Rightarrow> (sm_output, io_out) result" where
  "output_step beh now ins u =
     (if out_enable u = 0 \<or> out_if u = None then Inr (u, [])
      else case out_op_state u of
        OP_STATE_FORCE \<Rightarrow>
          if out_force_value u \<noteq> out_state u
          then Inr (u\<lparr>out_state := out_force_value u\<rparr>, drive u (out_force_value u) @ tell (out_cb u) (out_event u) (out_force_value u))
          else Inr (u, [])
      | OP_STATE_FORCE_BLINK \<Rightarrow>
          (case sm_output_blink now u of (u, os) \<Rightarrow>
             if 0 < out_repeat u \<and> out_repeat u \<le> out_blink_count u
             then (case sm_output_reset now u of (u, os') \<Rightarrow> Inr (u\<lparr>out_op_state := OP_STATE_NORMAL\<rparr>, os @ os'))
             else Inr (u, os))
      | OP_STATE_NORMAL \<Rightarrow>
          (case out_sw u of None \<Rightarrow> Inl Null_Deref
           | Some j \<Rightarrow>
               if length ins \<le> j then Inl Out_Of_Bounds
               else if in_real_state (ins ! j) = SM_SV_IO_ACTIVATE
               then (case out_behavior u of None \<Rightarrow> Inl Null_Deref | Some b \<Rightarrow> Inr (beh b now u))
               else if out_state u \<noteq> SM_SV_IO_DEACTIVATE
               then Inr (u\<lparr>out_state := SM_SV_IO_DEACTIVATE, out_blink_count := 0\<rparr>, drive u SM_SV_IO_DEACTIVATE)
               else Inr (u, []))
      | OP_STATE_DEFAULT \<Rightarrow> Inr (u, []))"

fun outputs_step ::
  "(nat \<Rightarrow> int \<Rightarrow> sm_output \<Rightarrow> sm_output \<times> io_out list) \<Rightarrow> int \<Rightarrow> sm_input list \<Rightarrow> sm_output list \<Rightarrow> (sm_output list, io_out) result" where
  "outputs_step beh now ins [] = Inr ([], [])"
| "outputs_step beh now ins (u # us) =
     and_then (output_step beh now ins u) (\<lambda>u. map_sum id (\<lambda>(us, os). (u # us, os)) (outputs_step beh now ins us))"

definition sm_io_output_process ::
  "(nat \<Rightarrow> int \<Rightarrow> sm_output \<Rightarrow> sm_output \<times> io_out list) \<Rightarrow> int \<Rightarrow> sm_sv_io \<Rightarrow> (sm_sv_io, io_out) result" where
  "sm_io_output_process beh now io =
     map_sum id (\<lambda>(us, os). (io\<lparr>io_output := us\<rparr>, os)) (outputs_step beh now (io_input io) (io_output io))"

definition sm_sv_io_process ::
  "(nat \<Rightarrow> int \<Rightarrow> sm_output \<Rightarrow> sm_output \<times> io_out list) \<Rightarrow> int \<Rightarrow> (nat \<Rightarrow> int) \<Rightarrow> sm_sv_io \<Rightarrow> (sm_sv_io, io_out) result" where
  "sm_sv_io_process beh now raw io = and_then (Inr (sm_io_input_process now raw io)) (sm_io_output_process beh now)"

section \<open>Creation\<close>

definition sm_sv_input_create :: "int \<Rightarrow> sm_sv_io_if \<Rightarrow> sm_input list \<Rightarrow> sm_input list" where
  "sm_sv_input_create now f ins =
     (let ins = map (\<lambda>i. i\<lparr>in_real_state := SM_SV_IO_DEACTIVATE, in_debounce_value := SM_SV_IO_DEACTIVATE, in_cb := None, in_if := None,
        in_event := SM_SV_IO_EVENT_NUMBER, in_enable := 1,
        in_debounce_time := elapsed_timer_resetz now SM_SV_IO_DEBOUNCE_TIME_DEFAULT (in_debounce_time i)\<rparr>) ins
      in ins[IN_12V_DET := (ins ! IN_12V_DET)\<lparr>in_if := in_12v_det_fn f\<rparr>])"

definition sm_sv_output_create :: "int \<Rightarrow> sm_sv_io_if \<Rightarrow> sm_output list \<Rightarrow> sm_output list" where
  "sm_sv_output_create now f us =
     (let us = map (\<lambda>u. u\<lparr>out_state := SM_SV_IO_DEACTIVATE, out_op_state := OP_STATE_NORMAL, out_cb := None,
        out_event := SM_SV_IO_EVENT_NUMBER, out_if := None, out_enable := 1, out_repeat := SM_SV_IO_BLINK_REPEAT_TIME_FOREVER,
        out_force_value := SM_SV_IO_DEACTIVATE,
        out_duration := elapsed_timer_resetz now SM_SV_IO_BLINK_DURATION_DEFAULT (out_duration u)\<rparr>) us
      in us[OUT_12V_ACT := (us ! OUT_12V_ACT)\<lparr>out_if := out_actice_12V_fn f, out_op_state := OP_STATE_FORCE\<rparr>])"

text \<open>The static state of the service, all zero, and its creation over what is there.\<close>

definition g_io :: sm_sv_io where
  "g_io = (let t = \<lparr>m_duration = 0, m_start_time = 0\<rparr> in
     \<lparr>io_if = None,
      io_input = replicate IN_NUMBER \<lparr>in_if = None, in_enable = 0, in_real_state = 0, in_debounce_value = 0, in_debounce_time = t,
        in_event = 0, in_cb = None\<rparr>,
      io_output = replicate OUT_NUMBER \<lparr>out_if = None, out_behavior = None, out_sw = None, out_state = 0, out_enable = 0,
        out_op_state = OP_STATE_NORMAL, out_force_value = 0, out_repeat = 0, out_blink_count = 0, out_duration = t, out_event = 0,
        out_cb = None\<rparr>,
      io_button = replicate BT_NUMBER \<lparr>bt_event = 0, bt_cb = None\<rparr>\<rparr>)"

definition sm_sv_io_create :: "int \<Rightarrow> sm_sv_io_if option \<Rightarrow> sm_sv_io \<Rightarrow> sm_sv_io option" where
  "sm_sv_io_create now f io =
     (case f of None \<Rightarrow> None
      | Some f \<Rightarrow> Some (io\<lparr>io_if := Some f, io_input := sm_sv_input_create now f (io_input io),
                            io_output := sm_sv_output_create now f (io_output io)\<rparr>))"

definition sm_sv_io_destroy :: "sm_sv_io \<Rightarrow> int \<times> sm_sv_io" where
  "sm_sv_io_destroy io = (0, io\<lparr>io_if := None\<rparr>)"

section \<open>Requests\<close>

text \<open>The callback for the output is stored with a button.\<close>

definition sm_sv_io_reg_event :: "u8 \<Rightarrow> nat option \<Rightarrow> sm_sv_io \<Rightarrow> int \<times> sm_sv_io" where
  "sm_sv_io_reg_event event cb io =
     (if event = SM_SV_IO_EVENT_12V_DET_CHANGED
      then (0, io\<lparr>io_input := (io_input io)[IN_12V_DET := (io_input io ! IN_12V_DET)\<lparr>in_event := SM_SV_IO_EVENT_12V_DET_CHANGED, in_cb := cb\<rparr>]\<rparr>)
      else if event = SM_SV_IO_EVENT_ACTIVE_12V_CHANGED
      then (0, io\<lparr>io_button := (io_button io)[OUT_12V_ACT := \<lparr>bt_event = SM_SV_IO_EVENT_ACTIVE_12V_CHANGED, bt_cb = cb\<rparr>]\<rparr>)
      else (-1, io))"

definition sm_sv_io_set_if :: "sm_sv_io_if option \<Rightarrow> sm_sv_io \<Rightarrow> int \<times> sm_sv_io" where
  "sm_sv_io_set_if f io = (if f = None then (-1, io) else (0, io\<lparr>io_if := f\<rparr>))"

definition sm_sv_io_get_io_sw_state :: "u8 \<Rightarrow> sm_sv_io \<Rightarrow> int" where
  "sm_sv_io_get_io_sw_state i io = (if unat i = IN_12V_DET then uint (in_real_state (io_input io ! IN_12V_DET)) else -1)"

definition sm_sv_io_get_state :: "u8 \<Rightarrow> sm_sv_io \<Rightarrow> int" where
  "sm_sv_io_get_state i io = (if IN_NUMBER \<le> unat i then -1 else uint (in_real_state (io_input io ! unat i)))"

text \<open>The number of an output is not checked.\<close>

definition on_output :: "int \<Rightarrow> u8 \<Rightarrow> (sm_output \<Rightarrow> sm_output) \<Rightarrow> sm_sv_io \<Rightarrow> (sm_sv_io, io_out) result" where
  "on_output now k g io =
     (if OUT_NUMBER \<le> unat k then Inl Out_Of_Bounds
      else case sm_output_reset now (io_output io ! unat k) of (u, os) \<Rightarrow> Inr (io\<lparr>io_output := (io_output io)[unat k := g u]\<rparr>, os))"

definition sm_sv_io_enable :: "int \<Rightarrow> u8 \<Rightarrow> u8 \<Rightarrow> sm_sv_io \<Rightarrow> (sm_sv_io, io_out) result" where
  "sm_sv_io_enable now k enable = on_output now k (\<lambda>u. u\<lparr>out_enable := enable\<rparr>)"

definition sm_sv_io_force :: "int \<Rightarrow> u8 \<Rightarrow> u8 \<Rightarrow> sm_sv_io \<Rightarrow> (sm_sv_io, io_out) result" where
  "sm_sv_io_force now k v = on_output now k (\<lambda>u. u\<lparr>out_op_state := OP_STATE_FORCE, out_force_value := v\<rparr>)"

definition sm_sv_io_release :: "int \<Rightarrow> u8 \<Rightarrow> sm_sv_io \<Rightarrow> (sm_sv_io, io_out) result" where
  "sm_sv_io_release now k = on_output now k (\<lambda>u. u\<lparr>out_op_state := OP_STATE_NORMAL, out_force_value := SM_SV_IO_DEACTIVATE\<rparr>)"

definition sm_sv_io_blink :: "int \<Rightarrow> u8 \<Rightarrow> int \<Rightarrow> int \<Rightarrow> sm_sv_io \<Rightarrow> (sm_sv_io, io_out) result" where
  "sm_sv_io_blink now k n dur =
     on_output now k (\<lambda>u. u\<lparr>out_op_state := OP_STATE_FORCE_BLINK, out_repeat := n, out_duration := elapsed_timer_resetz now dur (out_duration u)\<rparr>)"

definition sm_sv_io_cancel_blink :: "int \<Rightarrow> u8 \<Rightarrow> sm_sv_io \<Rightarrow> (sm_sv_io, io_out) result" where
  "sm_sv_io_cancel_blink now k = on_output now k (\<lambda>u. u\<lparr>out_op_state := OP_STATE_NORMAL\<rparr>)"

end
