(* ===== verification/Io_Laws.thy ===== *)
theory Io_Laws
  imports Io_Service
begin

text \<open>
  What the inputs and outputs guarantee: an input is reported when, and only when, it was the same for the time of the debounce;
  an output that is to blink does so and then stops the unit.
\<close>

section \<open>The service after its creation\<close>

text \<open>One input and one output that is forced to be off; the callback of the input is \<open>cb\<close>.\<close>

definition io_ready :: "nat \<Rightarrow> nat \<Rightarrow> nat option \<Rightarrow> sm_sv_io \<Rightarrow> bool" where
  "io_ready p q cb io \<longleftrightarrow> (\<exists>i u. io_input io = [i] \<and> io_output io = [u]
     \<and> in_if i = Some p \<and> in_enable i = 1 \<and> in_cb i = cb \<and> (cb \<noteq> None \<longrightarrow> in_event i = SM_SV_IO_EVENT_12V_DET_CHANGED) \<and> m_duration (in_debounce_time i) = 100
     \<and> out_if u = Some q \<and> out_enable u = 1 \<and> out_sw u = None \<and> out_cb u = None)"

definition output_off :: "sm_sv_io \<Rightarrow> bool" where
  "output_off io \<longleftrightarrow> (\<exists>u. io_output io = [u] \<and> out_op_state u = OP_STATE_FORCE \<and> out_force_value u = 0 \<and> out_state u = 0)"

lemma created_ready:
  assumes "sm_sv_io_create now (Some \<lparr>in_12v_det_fn = Some p, out_actice_12V_fn = Some q\<rparr>) g_io = Some io"
  shows "io_ready p q None io" "output_off io" "in_real_state (io_input io ! 0) = 0" "in_debounce_value (io_input io ! 0) = 0"
    "io_ready p q (Some c) (snd (sm_sv_io_reg_event SM_SV_IO_EVENT_12V_DET_CHANGED (Some c) io))"
    "output_off (snd (sm_sv_io_reg_event SM_SV_IO_EVENT_12V_DET_CHANGED (Some c) io))"
    "in_real_state (io_input (snd (sm_sv_io_reg_event SM_SV_IO_EVENT_12V_DET_CHANGED (Some c) io)) ! 0) = 0"
    "in_debounce_value (io_input (snd (sm_sv_io_reg_event SM_SV_IO_EVENT_12V_DET_CHANGED (Some c) io)) ! 0) = 0"
  using assms
  by (auto simp: sm_sv_io_create_def g_io_def sm_sv_input_create_def sm_sv_output_create_def io_ready_def output_off_def Let_def IN_NUMBER_def
      OUT_NUMBER_def IN_12V_DET_def OUT_12V_ACT_def sm_sv_io_reg_event_def SM_SV_IO_DEBOUNCE_TIME_DEFAULT_def SM_SV_IO_DEACTIVATE_def)

lemma process_input:
  assumes "io_ready p q cb io" "output_off io"
    and "input_step now raw (io_input io ! 0) = (i, os)"
  shows "sm_sv_io_process beh now raw io = Inr (io\<lparr>io_input := [i]\<rparr>, os)"
  using assms by (auto simp: io_ready_def output_off_def sm_sv_io_process_def sm_io_input_process_def sm_io_output_process_def Let_def output_step_def)

section \<open>The debounce\<close>

text \<open>Calls at given times with what the pin reads: after each one the state of the input, and what was called.\<close>

fun io_calls ::
  "(nat \<Rightarrow> int \<Rightarrow> sm_output \<Rightarrow> sm_output \<times> io_out list) \<Rightarrow> (int \<times> u8) list \<Rightarrow> sm_sv_io \<Rightarrow> fault + (int \<times> io_out list) list" where
  "io_calls beh [] io = Inr []"
| "io_calls beh ((t, v) # xs) io = (case sm_sv_io_process beh t (\<lambda>_. uint v) io of Inl e \<Rightarrow> Inl e
     | Inr (io, os) \<Rightarrow> map_sum id ((#) (sm_sv_io_get_state 0 io, os)) (io_calls beh xs io))"

text \<open>The pin has read \<open>v\<close> for at least 100 ms at the call \<open>k\<close>.\<close>

definition settled :: "(int \<times> u8) list \<Rightarrow> nat \<Rightarrow> u8 \<Rightarrow> bool" where
  "settled xs k v \<longleftrightarrow> (\<exists>j \<le> k. fst (xs ! j) + 100 \<le> fst (xs ! k) \<and> (\<forall>i. j \<le> i \<and> i \<le> k \<longrightarrow> snd (xs ! i) = v))"

text \<open>The input after \<open>k\<close> calls: the value of the last one, and when the pin began to read it.\<close>

definition watched :: "(int \<times> u8) list \<Rightarrow> nat \<Rightarrow> sm_input \<Rightarrow> bool" where
  "watched xs k i \<longleftrightarrow> (if k = 0 then in_debounce_value i = 0 \<and> in_real_state i = 0
     else \<exists>j < k. (\<forall>n. j \<le> n \<and> n < k \<longrightarrow> snd (xs ! n) = in_debounce_value i)
       \<and> (j = 0 \<and> in_debounce_value i = 0 \<and> in_real_state i = 0
          \<or> m_start_time (in_debounce_time i) = fst (xs ! j) \<and> (0 < j \<longrightarrow> snd (xs ! (j - 1)) \<noteq> in_debounce_value i)))"

definition after_call_k :: "(int \<times> u8) list \<Rightarrow> nat \<Rightarrow> u8 \<Rightarrow> u8 \<Rightarrow> bool" where
  "after_call_k xs k before v \<longleftrightarrow> (\<forall>w. settled xs k w \<longrightarrow> v = w) \<and> ((\<nexists>w. settled xs k w) \<longrightarrow> v = before)"

lemma debounce_simps:
  "in_debounce_value (debounce now v i) = v" "in_real_state (debounce now v i) = in_real_state i" "in_cb (debounce now v i) = in_cb i"
  "in_event (debounce now v i) = in_event i" "in_if (debounce now v i) = in_if i" "in_enable (debounce now v i) = in_enable i"
  "m_duration (in_debounce_time (debounce now v i)) = m_duration (in_debounce_time i)"
  by (simp_all add: debounce_def)

lemma sorted_fst: "sorted (map fst xs) \<Longrightarrow> i \<le> j \<Longrightarrow> j < length xs \<Longrightarrow> fst (xs ! i) \<le> fst (xs ! j)"
  by (metis (no_types, lifting) length_map nth_map order_le_less_trans sorted_nth_mono)

lemma watched_step:
  assumes "watched xs k i" "k < length xs" "sorted (map fst xs)" "m_duration (in_debounce_time i) = 100" "in_if i = Some p" "in_enable i = 1"
    and "input_step (fst (xs ! k)) (\<lambda>_. uint (snd (xs ! k))) i = (i', os)"
  shows "watched xs (k + 1) i'" "after_call_k xs k (in_real_state i) (in_real_state i')"
    "os = (if in_real_state i' \<noteq> in_real_state i then tell (in_cb i) (in_event i) (in_real_state i') else [])"
    "in_if i' = in_if i" "in_enable i' = in_enable i" "in_cb i' = in_cb i" "in_event i' = in_event i"
    "m_duration (in_debounce_time i') = 100"
proof -
  let ?v = "snd (xs ! k)" and ?t = "fst (xs ! k)" and ?deb = "in_debounce_value i" and ?s = "m_start_time (in_debounce_time i)"
  have step: "(i', os) = (let d = debounce ?t ?v i in if timed_out ?t (in_debounce_time d) \<and> ?v \<noteq> in_real_state i
      then (d\<lparr>in_real_state := ?v\<rparr>, tell (in_cb i) (in_event i) ?v) else (d, []))"
    using assms(5-7) by (auto simp: input_step_def debounce_simps Let_def split: if_splits)
  then show "in_if i' = in_if i" "in_enable i' = in_enable i" "in_cb i' = in_cb i" "in_event i' = in_event i"
      "m_duration (in_debounce_time i') = 100"
      "os = (if in_real_state i' \<noteq> in_real_state i then tell (in_cb i) (in_event i) (in_real_state i') else [])"
    using assms(4) by (auto simp: debounce_simps Let_def split: if_splits)
  have settled_v: "w = ?v" if "settled xs k w" for w using that by (auto simp: settled_def)
  show "watched xs (k + 1) i'" "after_call_k xs k (in_real_state i) (in_real_state i')"
  proof (atomize (full), cases "?v = ?deb")
    case False
    then have i': "i' = debounce ?t ?v i" using step assms(4) by (simp add: debounce_def Let_def timer_simps)
    then have f: "in_debounce_value i' = ?v" "in_real_state i' = in_real_state i" "m_start_time (in_debounce_time i') = ?t"
      using False by (simp_all add: debounce_def)
    have before: "0 < k \<Longrightarrow> snd (xs ! (k - 1)) = ?deb" using assms(1) by (auto simp: watched_def)
    have no: "\<not> settled xs k w" for w
    proof
      assume s: "settled xs k w"
      then obtain j where j: "j \<le> k" "fst (xs ! j) + 100 \<le> ?t" "\<forall>n. j \<le> n \<and> n \<le> k \<longrightarrow> snd (xs ! n) = w" by (auto simp: settled_def)
      then have "j < k" by (metis add_le_same_cancel1 le_neq_implies_less not_numeral_le_zero)
      then have "snd (xs ! (k - 1)) = w" using j(3) by simp
      then show False using before \<open>j < k\<close> settled_v [OF s] False by simp
    qed
    have "watched xs (k + 1) i'" unfolding watched_def f using before False
      by (auto intro!: exI [of _ k] simp: not_less_eq dest: le_antisym)
    then show "watched xs (k + 1) i' \<and> after_call_k xs k (in_real_state i) (in_real_state i')"
      using no f(2) by (simp add: after_call_k_def)
  next
    case True
    have i': "i' = (if ?s + 100 \<le> ?t \<and> ?deb \<noteq> in_real_state i then i\<lparr>in_real_state := ?deb\<rparr> else i)"
      using step True assms(4) by (simp add: debounce_def Let_def timed_out_iff split: if_splits)
    show "watched xs (k + 1) i' \<and> after_call_k xs k (in_real_state i) (in_real_state i')"
    proof (cases "k = 0")
      case k: True
      then have z: "?deb = 0" "in_real_state i = 0" using assms(1) by (simp_all add: watched_def)
      then have "i' = i" using i' by simp
      then show ?thesis using k z True settled_v by (auto simp: watched_def after_call_k_def)
    next
      case False
      then obtain j where j: "j < k" "\<forall>n. j \<le> n \<and> n < k \<longrightarrow> snd (xs ! n) = ?deb"
          "j = 0 \<and> ?deb = 0 \<and> in_real_state i = 0 \<or> ?s = fst (xs ! j) \<and> (0 < j \<longrightarrow> snd (xs ! (j - 1)) \<noteq> ?deb)"
        using assms(1) by (auto simp: watched_def)
      have all: "\<forall>n. j \<le> n \<and> n < k + 1 \<longrightarrow> snd (xs ! n) = ?deb" using j(2) True by (auto simp: less_Suc_eq)
      have "watched xs (k + 1) i'" unfolding watched_def using j(1,3) all by (auto simp: i' intro!: exI [of _ j])
      moreover have "after_call_k xs k (in_real_state i) (in_real_state i')"
      proof (cases "?deb = in_real_state i")
        case same: True
        then show ?thesis using settled_v True by (simp add: i' after_call_k_def)
      next
        case differ: False
        then have s: "?s = fst (xs ! j)" "0 < j \<longrightarrow> snd (xs ! (j - 1)) \<noteq> ?deb" using j(3) by auto
        have "settled xs k w \<longleftrightarrow> w = ?deb \<and> ?s + 100 \<le> ?t" for w
        proof
          assume w: "settled xs k w"
          then obtain m where m: "m \<le> k" "fst (xs ! m) + 100 \<le> ?t" "\<forall>n. m \<le> n \<and> n \<le> k \<longrightarrow> snd (xs ! n) = w" by (auto simp: settled_def)
          have wd: "w = ?deb" using settled_v [OF w] True by simp
          have "j \<le> m"
          proof (rule ccontr)
            assume "\<not> j \<le> m"
            then have "m \<le> j - 1 \<and> j - 1 \<le> k" "0 < j" using j(1) by linarith+
            then have "snd (xs ! (j - 1)) = w" using m(3) by blast
            then show False using s(2) wd \<open>0 < j\<close> by simp
          qed
          then have "fst (xs ! j) \<le> fst (xs ! m)" using sorted_fst [OF assms(3)] m(1) assms(2) by simp
          then show "w = ?deb \<and> ?s + 100 \<le> ?t" using m(2) wd s(1) by simp
        next
          assume "w = ?deb \<and> ?s + 100 \<le> ?t"
          then show "settled xs k w" using all j(1) s(1) unfolding settled_def by (auto intro!: exI [of _ j])
        qed
        then show ?thesis using differ by (simp add: i' after_call_k_def)
      qed
      ultimately show ?thesis by simp
    qed
  qed
qed

lemma calls_debounced:
  assumes "sorted (map fst xs)"
  shows "watched xs k (io_input io ! 0) \<Longrightarrow> io_ready p q (Some c) io \<Longrightarrow> output_off io \<Longrightarrow> k \<le> length xs \<Longrightarrow>
    \<exists>rs. io_calls beh (drop k xs) io = Inr rs \<and> length rs = length xs - k
      \<and> (\<forall>n < length xs - k. \<exists>b v. uint b = (if n = 0 then sm_sv_io_get_state 0 io else fst (rs ! (n - 1))) \<and> after_call_k xs (k + n) b v
           \<and> rs ! n = (uint v, if v \<noteq> b then [Io_Event c SM_SV_IO_EVENT_12V_DET_CHANGED v] else []))"
proof (induction "length xs - k" arbitrary: k io)
  case 0
  then show ?case by simp
next
  case (Suc d)
  then have k: "k < length xs" "d = length xs - (k + 1)" by simp_all
  obtain i u where r: "io_input io = [i]" "in_if i = Some p" "in_enable i = 1" "in_cb i = Some c" "in_event i = SM_SV_IO_EVENT_12V_DET_CHANGED"
      "m_duration (in_debounce_time i) = 100" using Suc.prems(2) by (auto simp: io_ready_def)
  obtain i' os where s: "input_step (fst (xs ! k)) (\<lambda>_. uint (snd (xs ! k))) i = (i', os)" by fastforce
  note w = watched_step [OF _ k(1) assms r(6) r(2,3) s]
  have wi: "watched xs k i" using Suc.prems(1) r(1) by simp
  let ?io = "io\<lparr>io_input := [i']\<rparr>"
  have p: "sm_sv_io_process beh (fst (xs ! k)) (\<lambda>_. uint (snd (xs ! k))) io = Inr (?io, os)"
    by (rule process_input [OF Suc.prems(2,3)]) (simp add: r(1) s)
  have ready: "io_ready p q (Some c) ?io" "output_off ?io" "watched xs (k + 1) (io_input ?io ! 0)"
    using Suc.prems(2,3) w [OF wi] r by (auto simp: io_ready_def output_off_def)
  obtain rs where rs: "io_calls beh (drop (k + 1) xs) ?io = Inr rs" "length rs = length xs - (k + 1)"
      "\<forall>n < length xs - (k + 1). \<exists>b v. uint b = (if n = 0 then sm_sv_io_get_state 0 ?io else fst (rs ! (n - 1))) \<and> after_call_k xs (k + 1 + n) b v
         \<and> rs ! n = (uint v, if v \<noteq> b then [Io_Event c SM_SV_IO_EVENT_12V_DET_CHANGED v] else [])"
    using Suc.hyps(1) [OF k(2) ready(3,1,2)] k(1) by auto
  have get: "sm_sv_io_get_state 0 ?io = uint (in_real_state i')" "sm_sv_io_get_state 0 io = uint (in_real_state i)"
    by (simp_all add: sm_sv_io_get_state_def IN_NUMBER_def r(1))
  let ?r = "(uint (in_real_state i'), os)"
  have run: "io_calls beh (drop k xs) io = Inr (?r # rs)"
    using rs(1) p get(1) k(1) by (cases "xs ! k") (simp add: Cons_nth_drop_Suc [symmetric])
  have os: "os = (if in_real_state i' \<noteq> in_real_state i then [Io_Event c SM_SV_IO_EVENT_12V_DET_CHANGED (in_real_state i')] else [])"
    using w(3) [OF wi] r(4,5) by (simp add: tell_def)
  have "\<exists>b v. uint b = (if n = 0 then sm_sv_io_get_state 0 io else fst ((?r # rs) ! (n - 1))) \<and> after_call_k xs (k + n) b v
         \<and> (?r # rs) ! n = (uint v, if v \<noteq> b then [Io_Event c SM_SV_IO_EVENT_12V_DET_CHANGED v] else [])" if n: "n < length xs - k" for n
  proof (cases n)
    case 0
    then show ?thesis using w(2) [OF wi] os get(2) by (intro exI [of _ "in_real_state i"] exI [of _ "in_real_state i'"]) simp
  next
    case (Suc m)
    then have "m < length xs - (k + 1)" using n by simp
    then obtain b v where "uint b = (if m = 0 then sm_sv_io_get_state 0 ?io else fst (rs ! (m - 1)))" "after_call_k xs (k + 1 + m) b v"
        "rs ! m = (uint v, if v \<noteq> b then [Io_Event c SM_SV_IO_EVENT_12V_DET_CHANGED v] else [])" using rs(3) by blast
    then show ?thesis using Suc get(1) by (intro exI [of _ b] exI [of _ v]) (cases m; simp)
  qed
  then show ?case using run rs(2) k by (intro exI [of _ "?r # rs"]) auto
qed

text \<open>
  After its creation the service is called at any times and the pin reads anything. The state of the input after a call is the
  value that the pin has read for the last 100 ms, and if there is none what it was before; the callback is told the new value
  at a call that changes it, and nothing at any other.\<close>

theorem input_is_debounced:
  assumes "sm_sv_io_create t0 (Some \<lparr>in_12v_det_fn = Some p, out_actice_12V_fn = Some q\<rparr>) g_io = Some io0"
    and "sm_sv_io_reg_event SM_SV_IO_EVENT_12V_DET_CHANGED (Some c) io0 = (r, io)" "sorted (map fst xs)"
  shows "\<exists>rs. io_calls beh xs io = Inr rs \<and> length rs = length xs
    \<and> (\<forall>n < length xs. \<exists>b v. uint b = (if n = 0 then 0 else fst (rs ! (n - 1)))
         \<and> (\<forall>w. settled xs n w \<longrightarrow> v = w) \<and> ((\<nexists>w. settled xs n w) \<longrightarrow> v = b)
         \<and> rs ! n = (uint v, if v \<noteq> b then [Io_Event c SM_SV_IO_EVENT_12V_DET_CHANGED v] else []))"
proof -
  note start = created_ready(5-8) [OF assms(1), of c, unfolded assms(2) snd_conv]
  have "watched xs 0 (io_input io ! 0)" using start(3,4) by (simp add: watched_def)
  moreover have "sm_sv_io_get_state 0 io = 0" using start(3) by (simp add: sm_sv_io_get_state_def IN_NUMBER_def)
  ultimately show ?thesis
    using calls_debounced [OF assms(3) _ start(1,2) le0, where beh = beh, unfolded drop_0 diff_zero add_0 after_call_k_def conj_assoc]
    by (simp only:)
qed

section \<open>Blinking\<close>

definition blinking :: "nat \<Rightarrow> nat \<Rightarrow> int \<Rightarrow> int \<Rightarrow> sm_sv_io \<Rightarrow> bool" where
  "blinking n j dur t io \<longleftrightarrow> (\<exists>u. io_output io = [u] \<and> out_op_state u = OP_STATE_FORCE_BLINK \<and> out_repeat u = int n
     \<and> out_blink_count u = int j \<and> out_state u = (if even j then 0 else 1) \<and> out_duration u = \<lparr>m_duration = dur, m_start_time = t\<rparr>)"

definition blink_value :: "nat \<Rightarrow> u8" where
  "blink_value j = (if even j then 1 else 0)"

text \<open>What the output drives at the calls from the toggle \<open>j\<close> on.\<close>

definition blink_drives :: "nat \<Rightarrow> nat \<Rightarrow> nat \<Rightarrow> io_out list" where
  "blink_drives q j n = map (\<lambda>k. Drive q (blink_value k)) [j..<n] @ [Drive q 0]"

lemma quiet_input:
  assumes "io_ready p q None io"
  shows "snd (sm_io_input_process now raw io) = []" "io_ready p q None (fst (sm_io_input_process now raw io))"
    "io_output (fst (sm_io_input_process now raw io)) = io_output io"
  using assms
  by (auto simp: io_ready_def sm_io_input_process_def input_step_def debounce_def Let_def tell_def)

lemma quiet_input_process:
  assumes "io_ready p q None io"
  shows "sm_sv_io_process beh now raw io = sm_io_output_process beh now (fst (sm_io_input_process now raw io))"
proof (cases "sm_io_input_process now raw io")
  case (Pair a b)
  then have "b = []" using quiet_input(1) [OF assms, of now raw] by simp
  then show ?thesis using Pair by (cases "sm_io_output_process beh now a") (auto simp: sm_sv_io_process_def)
qed

lemma blink_step:
  assumes "io_ready p q None io" "blinking n j dur t io" "j < n" "t + dur \<le> now"
  shows "\<exists>io'. sm_sv_io_process beh now raw io = Inr (io', Drive q (blink_value j) # (if j + 1 = n then [Drive q 0] else []))
    \<and> io_ready p q None io' \<and> (if j + 1 = n then (\<exists>u. io_output io' = [u] \<and> out_op_state u = OP_STATE_NORMAL) else blinking n (j + 1) dur now io')"
proof -
  let ?io = "fst (sm_io_input_process now raw io)"
  note p = quiet_input_process [OF assms(1), of beh now raw]
  have r: "io_ready p q None ?io" "blinking n j dur t ?io"
    using quiet_input(2,3) [OF assms(1)] assms(2) by (auto simp: blinking_def)
  then obtain i u where u: "io_input ?io = [i]" "io_output ?io = [u]" "out_if u = Some q" "out_enable u = 1" "out_sw u = None" "out_cb u = None"
      "out_op_state u = OP_STATE_FORCE_BLINK" "out_repeat u = int n" "out_blink_count u = int j" "out_state u = (if even j then 0 else 1)"
      "out_duration u = \<lparr>m_duration = dur, m_start_time = t\<rparr>"
    by (auto simp: io_ready_def blinking_def)
  let ?u = "u\<lparr>out_state := blink_value j, out_blink_count := int (j + 1), out_duration := \<lparr>m_duration = dur, m_start_time = now\<rparr>\<rparr>"
  have b: "sm_output_blink now u = (?u, [Drive q (blink_value j)])"
    using u assms(3,4) by (simp add: sm_output_blink_def Let_def timed_out_iff drive_def tell_def elapsed_timer_reset_def blink_value_def)
  let ?u' = "if j + 1 = n then (fst (sm_output_reset now ?u))\<lparr>out_op_state := OP_STATE_NORMAL\<rparr> else ?u"
  have st: "output_step beh now (io_input ?io) u = Inr (?u', Drive q (blink_value j) # (if j + 1 = n then [Drive q 0] else []))"
    using u assms(3) b by (auto simp: output_step_def sm_output_reset_def drive_def tell_def SM_SV_IO_DEACTIVATE_def)
  have "sm_io_output_process beh now ?io
      = Inr (?io\<lparr>io_output := [?u']\<rparr>, Drive q (blink_value j) # (if j + 1 = n then [Drive q 0] else []))"
    by (simp only: sm_io_output_process_def u(2) outputs_step.simps st and_then_simps sum.case prod.case map_sum.simps) simp
  moreover have "io_ready p q None (?io\<lparr>io_output := [?u']\<rparr>)"
    using r(1) u by (auto simp: io_ready_def sm_output_reset_def)
  moreover have "if j + 1 = n then (\<exists>v. io_output (?io\<lparr>io_output := [?u']\<rparr>) = [v] \<and> out_op_state v = OP_STATE_NORMAL)
      else blinking n (j + 1) dur now (?io\<lparr>io_output := [?u']\<rparr>)"
    using u by (simp add: blinking_def blink_value_def)
  ultimately show ?thesis unfolding p by blast
qed

lemma blink_run:
  assumes "length ts = n - j" "\<forall>k < length ts. (t # ts) ! k + dur \<le> ts ! k" "j < n"
    and "io_ready p q None io" "blinking n j dur t io"
  shows "\<exists>io'. run_all (\<lambda>now. sm_sv_io_process beh now raw) ts io = Inr (io', blink_drives q j n)
    \<and> io_ready p q None io' \<and> (\<exists>u. io_output io' = [u] \<and> out_op_state u = OP_STATE_NORMAL)"
  using assms
proof (induction ts arbitrary: j t io)
  case (Cons t1 ts)
  have due: "t + dur \<le> t1" "\<forall>k < length ts. (t1 # ts) ! k + dur \<le> ts ! k" using Cons.prems(2) by auto
  obtain io1 where 1: "sm_sv_io_process beh t1 raw io = Inr (io1, Drive q (blink_value j) # (if j + 1 = n then [Drive q 0] else []))"
      "io_ready p q None io1" "if j + 1 = n then (\<exists>u. io_output io1 = [u] \<and> out_op_state u = OP_STATE_NORMAL) else blinking n (j + 1) dur t1 io1"
    using blink_step [OF Cons.prems(4,5,3) due(1)] by blast
  show ?case
  proof (cases "j + 1 = n")
    case True
    then have "length ts = 0" using Cons.prems(1) by auto
    then have "ts = []" by simp
    moreover have "[j..<n] = [j]" using True by (simp add: upt_rec)
    ultimately show ?thesis using 1 True by (simp add: blink_drives_def)
  next
    case False
    then have "j + 1 < n" "length ts = n - (j + 1)" "blinking n (j + 1) dur t1 io1" using Cons.prems(1,3) 1(3) by auto
    from Cons.IH [OF this(2) due(2) this(1) 1(2) this(3)] obtain io' where
        io': "run_all (\<lambda>now. sm_sv_io_process beh now raw) ts io1 = Inr (io', blink_drives q (j + 1) n)"
        "io_ready p q None io'" "\<exists>u. io_output io' = [u] \<and> out_op_state u = OP_STATE_NORMAL" by blast
    have "Drive q (blink_value j) # blink_drives q (j + 1) n = blink_drives q j n"
      using Cons.prems(3) by (simp add: blink_drives_def upt_conv_Cons)
    then show ?thesis using io' 1(1) False by simp
  qed
qed simp

lemma normal_faults:
  assumes "io_ready p q None io" "\<exists>u. io_output io = [u] \<and> out_op_state u = OP_STATE_NORMAL"
  shows "sm_sv_io_process beh now raw io = Inl Null_Deref"
proof -
  let ?io = "fst (sm_io_input_process now raw io)"
  note p = quiet_input_process [OF assms(1), of beh now raw]
  obtain i u where "io_input ?io = [i]" "io_output ?io = [u]" "out_if u = Some q" "out_enable u = 1" "out_sw u = None"
      "out_op_state u = OP_STATE_NORMAL"
    using quiet_input(2,3) [OF assms(1), of now raw] assms(2) by (auto simp: io_ready_def)
  then show ?thesis unfolding p by (simp add: sm_io_output_process_def output_step_def)
qed

text \<open>
  An output that is to blink \<open>n\<close> times, with calls that come after each other by the duration at least: the output changes at
  each of the next \<open>n\<close> calls, is then switched off, and the call after that reads the switch of the output, which no function
  has ever set.\<close>

theorem finite_blink_stops_the_unit:
  assumes "sm_sv_io_create t0 (Some \<lparr>in_12v_det_fn = Some p, out_actice_12V_fn = Some q\<rparr>) g_io = Some io0"
    and "0 < n" "length ts = n" "\<forall>k < n. (t # ts) ! k + dur \<le> ts ! k"
  shows "\<exists>io1 io2. sm_sv_io_blink t 0 (int n) dur io0 = Inr (io1, [Drive q 0])
    \<and> run_all (\<lambda>now. sm_sv_io_process beh now raw) ts io1 = Inr (io2, map (\<lambda>k. Drive q (if even k then 1 else 0)) [0..<n] @ [Drive q 0])
    \<and> sm_sv_io_process beh now raw io2 = Inl Null_Deref"
proof -
  note start = created_ready(1,2) [OF assms(1)]
  obtain i u where u: "io_input io0 = [i]" "io_output io0 = [u]" "out_if u = Some q" "out_cb u = None" "out_state u = 0"
    using start by (auto simp: io_ready_def output_off_def)
  let ?u = "(fst (sm_output_reset t u))\<lparr>out_op_state := OP_STATE_FORCE_BLINK, out_repeat := int n,
      out_duration := elapsed_timer_resetz t dur (out_duration (fst (sm_output_reset t u)))\<rparr>"
  have b: "sm_sv_io_blink t 0 (int n) dur io0 = Inr (io0\<lparr>io_output := [?u]\<rparr>, [Drive q 0])"
    using u by (simp add: sm_sv_io_blink_def on_output_def OUT_NUMBER_def sm_output_reset_def drive_def SM_SV_IO_DEACTIVATE_def)
  have "io_ready p q None (io0\<lparr>io_output := [?u]\<rparr>)" "blinking n 0 dur t (io0\<lparr>io_output := [?u]\<rparr>)"
    using start(1) u by (auto simp: io_ready_def blinking_def sm_output_reset_def elapsed_timer_resetz_def SM_SV_IO_DEACTIVATE_def)
  from blink_run [OF _ _ assms(2) this, of ts beh raw] assms(3,4) obtain io2 where
      "run_all (\<lambda>now. sm_sv_io_process beh now raw) ts (io0\<lparr>io_output := [?u]\<rparr>) = Inr (io2, blink_drives q 0 n)"
      "io_ready p q None io2" "\<exists>u. io_output io2 = [u] \<and> out_op_state u = OP_STATE_NORMAL" by auto
  then show ?thesis using b normal_faults by (auto simp: blink_drives_def blink_value_def)
qed

section \<open>Examples\<close>

definition example_pins :: sm_sv_io_if where
  "example_pins = \<lparr>in_12v_det_fn = Some 3, out_actice_12V_fn = Some 4\<rparr>"

lemma example_created: "\<exists>io0. sm_sv_io_create 0 (Some \<lparr>in_12v_det_fn = Some 3, out_actice_12V_fn = Some 4\<rparr>) g_io = Some io0"
  by (simp add: sm_sv_io_create_def)

lemma input_is_debounced_witness:
  "\<exists>io0 io rs. sm_sv_io_create 0 (Some example_pins) g_io = Some io0
    \<and> sm_sv_io_reg_event SM_SV_IO_EVENT_12V_DET_CHANGED (Some 9) io0 = (0, io)
    \<and> io_calls (\<lambda>_ _ u. (u, [])) [(0, 1), (100, 1)] io = Inr rs
    \<and> rs ! 0 = (0, []) \<and> rs ! 1 = (1, [Io_Event 9 SM_SV_IO_EVENT_12V_DET_CHANGED 1])"
proof -
  obtain io0 where c: "sm_sv_io_create 0 (Some \<lparr>in_12v_det_fn = Some 3, out_actice_12V_fn = Some 4\<rparr>) g_io = Some io0" using example_created by blast
  obtain io where r: "sm_sv_io_reg_event SM_SV_IO_EVENT_12V_DET_CHANGED (Some 9) io0 = (0, io)" by (simp add: sm_sv_io_reg_event_def)
  let ?xs = "[(0, 1), (100, 1)] :: (int \<times> u8) list"
  obtain rs where rs: "io_calls (\<lambda>_ _ u. (u, [])) ?xs io = Inr rs"
      "\<forall>n < length ?xs. \<exists>b v. uint b = (if n = 0 then 0 else fst (rs ! (n - 1)))
         \<and> (\<forall>w. settled ?xs n w \<longrightarrow> v = w) \<and> ((\<nexists>w. settled ?xs n w) \<longrightarrow> v = b)
         \<and> rs ! n = (uint v, if v \<noteq> b then [Io_Event 9 SM_SV_IO_EVENT_12V_DET_CHANGED v] else [])"
    using input_is_debounced [OF c r, of ?xs "\<lambda>_ _ u. (u, [])"] by auto
  have s: "\<not> settled ?xs 0 w" "settled ?xs 1 1" for w
    by (simp_all add: settled_def) (rule exI [of _ 0], auto simp: nth_Cons')
  have "0 < length ?xs" "1 < length ?xs" by simp_all
  note step = rs(2) [rule_format, OF this(1)] rs(2) [rule_format, OF this(2)]
  from step(1) s(1) obtain b where "uint b = (if (0 :: nat) = 0 then 0 else fst (rs ! (0 - 1)))"
      "rs ! 0 = (uint b, if b \<noteq> b then [Io_Event 9 SM_SV_IO_EVENT_12V_DET_CHANGED b] else [])" by blast
  then have 0: "rs ! 0 = (0, [])" by simp
  from step(2) s(2) obtain b v where 1: "uint b = (if (1 :: nat) = 0 then 0 else fst (rs ! (1 - 1)))" "v = 1"
      "rs ! 1 = (uint v, if v \<noteq> b then [Io_Event 9 SM_SV_IO_EVENT_12V_DET_CHANGED v] else [])" by blast
  then have "uint b = uint (0 :: u8)" using 0 by simp
  then have "b = 0" by (simp only: word_uint_eq_iff)
  then have "rs ! 1 = (1, [Io_Event 9 SM_SV_IO_EVENT_12V_DET_CHANGED 1])" using 1(2,3) by simp
  then show ?thesis using c r rs(1) 0 unfolding example_pins_def by blast
qed

lemma finite_blink_stops_the_unit_witness:
  "\<exists>io0 io1 io2. sm_sv_io_create 0 (Some example_pins) g_io = Some io0
    \<and> sm_sv_io_blink 0 0 2 500 io0 = Inr (io1, [Drive 4 0])
    \<and> run_all (\<lambda>now. sm_sv_io_process (\<lambda>_ _ u. (u, [])) now (\<lambda>_. 1)) [500, 1000] io1 = Inr (io2, [Drive 4 1, Drive 4 0, Drive 4 0])
    \<and> sm_sv_io_process (\<lambda>_ _ u. (u, [])) 1001 (\<lambda>_. 1) io2 = Inl Null_Deref"
proof -
  obtain io0 where c: "sm_sv_io_create 0 (Some \<lparr>in_12v_det_fn = Some 3, out_actice_12V_fn = Some 4\<rparr>) g_io = Some io0" using example_created by blast
  have "\<forall>k < 2. (0 # [500, 1000 :: int]) ! k + 500 \<le> [500, 1000] ! k" by (simp add: less_Suc_eq numeral_2_eq_2)
  with finite_blink_stops_the_unit [OF c, of 2 "[500, 1000]" 0 500 "\<lambda>_ _ u. (u, [])" "\<lambda>_. 1" 1001]
  show ?thesis using c unfolding example_pins_def by (auto simp: upt_rec numeral_2_eq_2)
qed

end
