(* ===== verification/Stm.thy ===== *)
theory Stm
  imports Prelude
begin

text \<open>
  \<^verbatim>\<open>cores/stm/sm_stm.c\<close>: a state machine with a table of transitions and one event at a time. A state has functions for its
  entry, its exit and its steps; an entry of the table has a function that returns the next state.

  \<open>'fn\<close> stands for the functions, \<open>call\<close> for what they do to the machine and to the rest of the program, \<open>'w\<close>. The argument of
  all functions of a machine is the application. A state is its place in the array. \<^verbatim>\<open>sm_stm_set_event\<close> and
  \<^verbatim>\<open>sm_stm_set_current_state\<close> always work on the default instance, the one modelled here.
\<close>

definition SM_STM_STATE_NUMBER_SUPPORT :: int where "SM_STM_STATE_NUMBER_SUPPORT = 12"
definition SM_STM_EVENT_NUMBER_SUPPORT :: int where "SM_STM_EVENT_NUMBER_SUPPORT = 20"

record 'fn sm_stm_state =
  ss_state :: int
  ss_entry :: "'fn option"
  ss_process :: "'fn option"
  ss_exit :: "'fn option"

record 'fn sm_stm_event =
  se_id :: int
  se_handler :: "'fn option"

record 'fn sm_stm =
  stm_current :: "nat option"
  stm_states :: "'fn sm_stm_state list"
  stm_transitions :: "'fn sm_stm_event list list"
  stm_state_number :: int
  stm_event :: int
  stm_event_pre :: int
  stm_event_number :: int

section \<open>Set-up\<close>

text \<open>The default instance keeps the transitions it has; another one clears them.\<close>

definition blank_state :: "int \<Rightarrow> 'fn sm_stm_state" where
  "blank_state k = \<lparr>ss_state = k, ss_entry = None, ss_process = None, ss_exit = None\<rparr>"

definition sm_stm_create_default :: "int \<Rightarrow> int \<Rightarrow> 'fn sm_stm \<Rightarrow> fault + 'fn sm_stm" where
  "sm_stm_create_default sn en st =
     (if SM_STM_STATE_NUMBER_SUPPORT < sn then Inl Out_Of_Bounds
      else Inr (st\<lparr>stm_state_number := sn, stm_current := None, stm_event := 0, stm_event_pre := 0, stm_event_number := en,
                   stm_states := replicate (nat sn) (blank_state 0) @ drop (nat sn) (stm_states st)\<rparr>))"

definition sm_stm_create :: "int \<Rightarrow> int \<Rightarrow> 'fn sm_stm \<Rightarrow> fault + 'fn sm_stm" where
  "sm_stm_create sn en st =
     (if SM_STM_STATE_NUMBER_SUPPORT < sn then Inl Out_Of_Bounds
      else Inr (st\<lparr>stm_state_number := sn, stm_current := None, stm_event := 0, stm_event_pre := 0, stm_event_number := en,
                   stm_states := replicate (nat sn) (blank_state sn) @ drop (nat sn) (stm_states st),
                   stm_transitions := replicate 12 (replicate 20 \<lparr>se_id = SM_STM_EVENT_NUMBER_SUPPORT, se_handler = None\<rparr>)\<rparr>))"

definition bad_index :: "int \<Rightarrow> int \<Rightarrow> bool" where
  "bad_index n k \<longleftrightarrow> k < 0 \<or> n \<le> k"

definition sm_stm_add_state :: "'fn sm_stm_state option \<Rightarrow> 'fn sm_stm \<Rightarrow> fault + (int \<times> 'fn sm_stm)" where
  "sm_stm_add_state s st =
     (case s of None \<Rightarrow> Inr (-1, st)
      | Some s \<Rightarrow>
          if stm_state_number st \<le> ss_state s then Inr (-1, st)
          else if bad_index SM_STM_STATE_NUMBER_SUPPORT (ss_state s) then Inl Out_Of_Bounds
          else Inr (0, st\<lparr>stm_states := (stm_states st)[nat (ss_state s) := s]\<rparr>))"

definition sm_stm_config_transition :: "int \<Rightarrow> 'fn sm_stm_event \<Rightarrow> 'fn sm_stm \<Rightarrow> fault + (int \<times> 'fn sm_stm)" where
  "sm_stm_config_transition s e st =
     (if stm_state_number st \<le> s \<or> stm_event_number st \<le> se_id e then Inr (-1, st)
      else if bad_index SM_STM_STATE_NUMBER_SUPPORT s \<or> bad_index SM_STM_EVENT_NUMBER_SUPPORT (se_id e) then Inl Out_Of_Bounds
      else Inr (0, st\<lparr>stm_transitions := (stm_transitions st)[nat s := (stm_transitions st ! nat s)[nat (se_id e) := e]]\<rparr>))"

definition sm_stm_remove_state :: "int \<Rightarrow> 'fn sm_stm \<Rightarrow> fault + (int \<times> 'fn sm_stm)" where
  "sm_stm_remove_state s st =
     (if stm_state_number st \<le> s then Inr (-1, st)
      else if bad_index SM_STM_STATE_NUMBER_SUPPORT s then Inl Out_Of_Bounds
      else Inr (0, st\<lparr>stm_states := (stm_states st)[nat s := blank_state SM_STM_STATE_NUMBER_SUPPORT]\<rparr>))"

section \<open>Operation\<close>

definition sm_stm_set_event :: "int \<Rightarrow> 'fn sm_stm \<Rightarrow> 'fn sm_stm" where
  "sm_stm_set_event e st = st\<lparr>stm_event_pre := stm_event st, stm_event := e\<rparr>"

definition sm_stm_set_current_state :: "int \<Rightarrow> 'fn sm_stm \<Rightarrow> fault + 'fn sm_stm" where
  "sm_stm_set_current_state s st =
     (if bad_index SM_STM_STATE_NUMBER_SUPPORT s then Inl Out_Of_Bounds else Inr (st\<lparr>stm_current := Some (nat s)\<rparr>))"

definition sm_stm_get_current_state :: "'fn sm_stm \<Rightarrow> fault + int" where
  "sm_stm_get_current_state st = (case stm_current st of None \<Rightarrow> Inl Null_Deref | Some c \<Rightarrow> Inr (ss_state (stm_states st ! c)))"

type_synonym ('fn, 'w) stm_call = "'fn \<Rightarrow> 'fn sm_stm \<times> 'w \<Rightarrow> fault + (int \<times> 'fn sm_stm \<times> 'w)"

definition call_opt :: "('fn, 'w) stm_call \<Rightarrow> 'fn option \<Rightarrow> 'fn sm_stm \<times> 'w \<Rightarrow> fault + ('fn sm_stm \<times> 'w)" where
  "call_opt call f sw = (case f of None \<Rightarrow> Inr sw | Some f \<Rightarrow> bind (call f sw) (\<lambda>(_, sw). Inr sw))"

definition stm_handler :: "int \<Rightarrow> int \<Rightarrow> 'fn sm_stm \<Rightarrow> 'fn option" where
  "stm_handler s e st = se_handler (stm_transitions st ! nat s ! nat e)"

text \<open>The transition for the event: exit, handler, entry. What the functions set as an event is overwritten at the end.\<close>

definition stm_transit :: "('fn, 'w) stm_call \<Rightarrow> nat \<Rightarrow> 'fn sm_stm \<times> 'w \<Rightarrow> fault + ('fn sm_stm \<times> 'w)" where
  "stm_transit call c = (\<lambda>(st, w).
     let s = ss_state (stm_states st ! c); e = stm_event st in
     if bad_index SM_STM_STATE_NUMBER_SUPPORT s \<or> bad_index SM_STM_EVENT_NUMBER_SUPPORT e then Inl Out_Of_Bounds
     else bind
       (if stm_handler s e st = None then Inr (st, w)
        else bind (call_opt call (ss_exit (stm_states st ! c)) (st, w)) (\<lambda>(st, w).
          case stm_handler s e st of None \<Rightarrow> Inl Null_Deref
          | Some h \<Rightarrow> bind (call h (st, w)) (\<lambda>(s', st, w).
              if bad_index SM_STM_STATE_NUMBER_SUPPORT s' then Inl Out_Of_Bounds
              else call_opt call (ss_entry (stm_states st ! nat s')) (st\<lparr>stm_current := Some (nat s')\<rparr>, w))))
       (\<lambda>(st, w). Inr (st\<lparr>stm_event := SM_STM_EVENT_NUMBER_SUPPORT\<rparr>, w)))"

definition sm_stm_process :: "('fn, 'w) stm_call \<Rightarrow> 'fn sm_stm \<times> 'w \<Rightarrow> fault + (int \<times> 'fn sm_stm \<times> 'w)" where
  "sm_stm_process call = (\<lambda>(st, w).
     case stm_current st of None \<Rightarrow> Inr (-1, st, w)
     | Some c \<Rightarrow>
         bind (if stm_event st < stm_event_number st then stm_transit call c (st, w) else Inr (st, w)) (\<lambda>(st, w).
           case stm_current st of None \<Rightarrow> Inl Null_Deref
           | Some c \<Rightarrow> bind (call_opt call (ss_process (stm_states st ! c)) (st, w)) (\<lambda>sw. Inr (0, sw))))"

end
