(* ===== verification/Pmu_Stm.thy ===== *)
theory Pmu_Stm
  imports Stm Sv_Pms
begin

text \<open>
  \<^verbatim>\<open>apps/pmu/sm_pmu_stm.c\<close>: the states of the power unit. The functions of the states work on the battery service (the number of
  connected packs, the pause of the retain discharge), the charger and the discharger; the key is read from the inputs.

  \<^verbatim>\<open>sm_sv_discharger_set_sw_state\<close> is called with the address of the pointer to the discharger, which does no harm: it
  only tests its argument and changes the one discharger there is.
\<close>

section \<open>States and events\<close>

abbreviation (input) PMU_STM_STARTUP :: int where "PMU_STM_STARTUP \<equiv> 0"
abbreviation (input) PMU_STM_STARTING :: int where "PMU_STM_STARTING \<equiv> 1"
abbreviation (input) PMU_STM_IDLE :: int where "PMU_STM_IDLE \<equiv> 2"
abbreviation (input) PMU_STM_RUNNING :: int where "PMU_STM_RUNNING \<equiv> 3"
abbreviation (input) PMU_STM_CHARGING :: int where "PMU_STM_CHARGING \<equiv> 4"
abbreviation (input) PMU_STM_POWER_LIMIT :: int where "PMU_STM_POWER_LIMIT \<equiv> 5"
abbreviation (input) PMU_STM_SLEEP :: int where "PMU_STM_SLEEP \<equiv> 6"
abbreviation (input) PMU_STM_UPGRADING :: int where "PMU_STM_UPGRADING \<equiv> 7"
abbreviation (input) PMU_STM_NUMBER :: int where "PMU_STM_NUMBER \<equiv> 8"

abbreviation (input) PMU_STM_EVENT_INTERNAL :: int where "PMU_STM_EVENT_INTERNAL \<equiv> 0"
abbreviation (input) PMU_STM_EVENT_TURN_ON_KEY :: int where "PMU_STM_EVENT_TURN_ON_KEY \<equiv> 1"
abbreviation (input) PMU_STM_EVENT_TURN_OFF_KEY :: int where "PMU_STM_EVENT_TURN_OFF_KEY \<equiv> 2"
abbreviation (input) PMU_STM_EVENT_FIRST_BP_ASSIGNED :: int where "PMU_STM_EVENT_FIRST_BP_ASSIGNED \<equiv> 3"
abbreviation (input) PMU_STM_EVENT_ENTER_IDLE :: int where "PMU_STM_EVENT_ENTER_IDLE \<equiv> 4"
abbreviation (input) PMU_STM_EVENT_ENTER_STARTING :: int where "PMU_STM_EVENT_ENTER_STARTING \<equiv> 5"
abbreviation (input) PMU_STM_EVENT_ENTER_RUNNING_MODE :: int where "PMU_STM_EVENT_ENTER_RUNNING_MODE \<equiv> 6"
abbreviation (input) PMU_STM_EVENT_ENTER_POWER_LIMIT_MODE :: int where "PMU_STM_EVENT_ENTER_POWER_LIMIT_MODE \<equiv> 7"
abbreviation (input) PMU_STM_EVENT_PLUG_CHARGER :: int where "PMU_STM_EVENT_PLUG_CHARGER \<equiv> 8"
abbreviation (input) PMU_STM_EVENT_UNPLUG_CHARGER :: int where "PMU_STM_EVENT_UNPLUG_CHARGER \<equiv> 9"
abbreviation (input) PMU_STM_EVENT_CHARGER_FULL :: int where "PMU_STM_EVENT_CHARGER_FULL \<equiv> 10"
abbreviation (input) PMU_STM_EVENT_TIMEOUT :: int where "PMU_STM_EVENT_TIMEOUT \<equiv> 11"
abbreviation (input) PMU_STM_EVENT_MOTOR_STOP :: int where "PMU_STM_EVENT_MOTOR_STOP \<equiv> 12"
abbreviation (input) PMU_STM_EVENT_ENTER_UPGRADING_MODE :: int where "PMU_STM_EVENT_ENTER_UPGRADING_MODE \<equiv> 13"
abbreviation (input) PMU_STM_EVENT_EXIT_UPGRADING_MODE :: int where "PMU_STM_EVENT_EXIT_UPGRADING_MODE \<equiv> 14"
abbreviation (input) PMU_EVENT_NUMBER :: int where "PMU_EVENT_NUMBER \<equiv> 15"

definition TIMOUT_TO_SLEEP_MODE :: int where "TIMOUT_TO_SLEEP_MODE = 7200000"
definition UPGRADING_STATE_TIMEOUT :: int where "UPGRADING_STATE_TIMEOUT = 120000"

text \<open>The functions of the states, by the number of the state, and the handlers of the events.\<close>

datatype pmu_handler = Enter_Startting | Sleep_Key_On | Key_Off | First_Bp_Assigned | Enter_Running_Mode | Enter_Power_Limit_Mode | Enter_Idle
  | Plug_Charge | Unplug_Charge | Charge_Full | Motor_Stop | Timeout_Elapsed | Enter_Upgrading_Mode | Exit_Upgrading_Mode

datatype pmu_fn = Entry int | Process int | Exit int | Handler pmu_handler

record 'c pmu_world =
  pw_timeout :: elapsed_timer
  pw_key :: bool
  pw_bp :: "'c sm_sv_bp"
  pw_charger :: charger
  pw_discharger :: discharger

type_synonym 'c pmu = "pmu_fn sm_stm \<times> 'c pmu_world"

section \<open>The functions of the states\<close>

definition sm_pmu_stm_starting_proc :: "'c pmu \<Rightarrow> fault + 'c pmu" where
  "sm_pmu_stm_starting_proc = (\<lambda>(st, w).
     let n = sm_sv_bp_get_bp_numbs_assign (pw_bp w); plugged = sm_sv_charger_is_charging (pw_charger w) in
     if 0 < n \<and> plugged then bind (sm_stm_set_current_state PMU_STM_CHARGING st) (\<lambda>st. Inr (st, w))
     else if 0 < n \<and> \<not> plugged then bind (sm_stm_set_current_state PMU_STM_IDLE st) (\<lambda>st. Inr (st, w))
     else Inr (st, w))"

definition on_retain :: "(sm_bp_retain \<Rightarrow> int \<times> sm_bp_retain) \<Rightarrow> 'c pmu_world \<Rightarrow> 'c pmu_world" where
  "on_retain g w = w\<lparr>pw_bp := (pw_bp w)\<lparr>sv_retain := snd (g (sv_retain (pw_bp w)))\<rparr>\<rparr>"

definition sm_pmu_stm_idle_entry :: "int \<Rightarrow> 'c pmu \<Rightarrow> 'c pmu" where
  "sm_pmu_stm_idle_entry now = (\<lambda>(st, w).
     (st, on_retain sm_bp_retain_pause (w\<lparr>pw_timeout := elapsed_timer_resetz now TIMOUT_TO_SLEEP_MODE (pw_timeout w)\<rparr>)))"

definition sm_pmu_stm_idle_proc :: "int \<Rightarrow> 'c pmu \<Rightarrow> 'c pmu" where
  "sm_pmu_stm_idle_proc now = (\<lambda>(st, w).
     let w = (if pw_key w then w\<lparr>pw_timeout := elapsed_timer_resetz now TIMOUT_TO_SLEEP_MODE (pw_timeout w)\<rparr> else w) in
     if timed_out now (pw_timeout w) then (sm_stm_set_event PMU_STM_EVENT_TIMEOUT st, w) else (st, w))"

definition sm_pmu_stm_idle_exit :: "'c pmu \<Rightarrow> 'c pmu" where
  "sm_pmu_stm_idle_exit = (\<lambda>(st, w). (st, on_retain sm_bp_retain_resume w))"

definition sm_pmu_stm_power_limit_entry :: "'c pmu \<Rightarrow> 'c pmu" where
  "sm_pmu_stm_power_limit_entry = (\<lambda>(st, w). (st, w\<lparr>pw_discharger := sm_sv_discharger_set_sw_state False (pw_discharger w)\<rparr>))"

definition sm_pmu_stm_power_limit_exit :: "'c pmu \<Rightarrow> 'c pmu" where
  "sm_pmu_stm_power_limit_exit = (\<lambda>(st, w). (st, w\<lparr>pw_discharger := sm_sv_discharger_set_sw_state True (pw_discharger w)\<rparr>))"

definition sm_pmu_stm_upgrading_entry :: "int \<Rightarrow> 'c pmu \<Rightarrow> 'c pmu" where
  "sm_pmu_stm_upgrading_entry now = (\<lambda>(st, w). (st, w\<lparr>pw_timeout := elapsed_timer_resetz now UPGRADING_STATE_TIMEOUT (pw_timeout w)\<rparr>))"

definition sm_pmu_stm_upgrading_proc :: "int \<Rightarrow> 'c pmu \<Rightarrow> 'c pmu" where
  "sm_pmu_stm_upgrading_proc now = (\<lambda>(st, w).
     if timed_out now (pw_timeout w) then (sm_stm_set_event PMU_STM_EVENT_EXIT_UPGRADING_MODE st, w) else (st, w))"

text \<open>The state a handler returns.\<close>

fun pmu_handler_target :: "pmu_handler \<Rightarrow> int" where
  "pmu_handler_target Enter_Startting = PMU_STM_STARTING"
| "pmu_handler_target Sleep_Key_On = PMU_STM_IDLE"
| "pmu_handler_target Key_Off = PMU_STM_IDLE"
| "pmu_handler_target First_Bp_Assigned = PMU_STM_IDLE"
| "pmu_handler_target Enter_Running_Mode = PMU_STM_RUNNING"
| "pmu_handler_target Enter_Power_Limit_Mode = PMU_STM_POWER_LIMIT"
| "pmu_handler_target Enter_Idle = PMU_STM_IDLE"
| "pmu_handler_target Plug_Charge = PMU_STM_CHARGING"
| "pmu_handler_target Unplug_Charge = PMU_STM_IDLE"
| "pmu_handler_target Charge_Full = PMU_STM_IDLE"
| "pmu_handler_target Motor_Stop = PMU_STM_IDLE"
| "pmu_handler_target Timeout_Elapsed = PMU_STM_SLEEP"
| "pmu_handler_target Enter_Upgrading_Mode = PMU_STM_UPGRADING"
| "pmu_handler_target Exit_Upgrading_Mode = PMU_STM_IDLE"

text \<open>The functions that are not listed return at once.\<close>

definition pmu_call :: "int \<Rightarrow> (pmu_fn, 'c pmu_world) stm_call" where
  "pmu_call now f sw =
     (case f of
        Handler h \<Rightarrow> Inr (pmu_handler_target h, sw)
      | Entry s \<Rightarrow> Inr (0, if s = PMU_STM_IDLE then sm_pmu_stm_idle_entry now sw
          else if s = PMU_STM_POWER_LIMIT then sm_pmu_stm_power_limit_entry sw
          else if s = PMU_STM_UPGRADING then sm_pmu_stm_upgrading_entry now sw else sw)
      | Process s \<Rightarrow>
          if s = PMU_STM_STARTING then bind (sm_pmu_stm_starting_proc sw) (\<lambda>sw. Inr (0, sw))
          else Inr (0, if s = PMU_STM_IDLE then sm_pmu_stm_idle_proc now sw
            else if s = PMU_STM_UPGRADING then sm_pmu_stm_upgrading_proc now sw else sw)
      | Exit s \<Rightarrow> Inr (0, if s = PMU_STM_IDLE then sm_pmu_stm_idle_exit sw
          else if s = PMU_STM_POWER_LIMIT then sm_pmu_stm_power_limit_exit sw else sw))"

definition sm_pmu_app_stm_proc :: "int \<Rightarrow> 'c pmu \<Rightarrow> fault + 'c pmu" where
  "sm_pmu_app_stm_proc now sw = bind (sm_stm_process (pmu_call now) sw) (\<lambda>(_, sw). Inr sw)"

section \<open>Configuration\<close>

definition pmu_add :: "int \<Rightarrow> pmu_fn sm_stm \<Rightarrow> fault + pmu_fn sm_stm" where
  "pmu_add s st = bind (sm_stm_add_state (Some \<lparr>ss_state = s, ss_entry = Some (Entry s), ss_process = Some (Process s),
     ss_exit = Some (Exit s)\<rparr>) st) (\<lambda>(_, st). Inr st)"

fun pmu_on :: "int \<Rightarrow> (int \<times> pmu_handler) list \<Rightarrow> pmu_fn sm_stm \<Rightarrow> fault + pmu_fn sm_stm" where
  "pmu_on s [] st = Inr st"
| "pmu_on s ((e, h) # es) st =
     bind (sm_stm_config_transition s \<lparr>se_id = e, se_handler = Some (Handler h)\<rparr> st) (\<lambda>(_, st). pmu_on s es st)"

definition sm_pmu_stm_startup_config :: "pmu_fn sm_stm \<Rightarrow> fault + pmu_fn sm_stm" where
  "sm_pmu_stm_startup_config st = bind (pmu_add PMU_STM_STARTUP st) (pmu_on PMU_STM_STARTUP
    [(PMU_STM_EVENT_ENTER_STARTING, Enter_Startting)])"

definition sm_pmu_stm_starting_config :: "pmu_fn sm_stm \<Rightarrow> fault + pmu_fn sm_stm" where
  "sm_pmu_stm_starting_config st = bind (pmu_add PMU_STM_STARTING st) (pmu_on PMU_STM_STARTING
    [(PMU_STM_EVENT_FIRST_BP_ASSIGNED, First_Bp_Assigned)])"

definition sm_pmu_stm_idle_config :: "pmu_fn sm_stm \<Rightarrow> fault + pmu_fn sm_stm" where
  "sm_pmu_stm_idle_config st = bind (pmu_on PMU_STM_IDLE
    [(PMU_STM_EVENT_PLUG_CHARGER, Plug_Charge), (PMU_STM_EVENT_ENTER_RUNNING_MODE, Enter_Running_Mode),
     (PMU_STM_EVENT_ENTER_POWER_LIMIT_MODE, Enter_Power_Limit_Mode), (PMU_STM_EVENT_TIMEOUT, Timeout_Elapsed)] st) (pmu_add PMU_STM_IDLE)"

definition sm_pmu_stm_running_config :: "pmu_fn sm_stm \<Rightarrow> fault + pmu_fn sm_stm" where
  "sm_pmu_stm_running_config st = bind (pmu_add PMU_STM_RUNNING st) (pmu_on PMU_STM_RUNNING
    [(PMU_STM_EVENT_MOTOR_STOP, Motor_Stop), (PMU_STM_EVENT_ENTER_IDLE, Enter_Idle),
     (PMU_STM_EVENT_TURN_OFF_KEY, Key_Off), (PMU_STM_EVENT_ENTER_POWER_LIMIT_MODE, Enter_Power_Limit_Mode),
     (PMU_STM_EVENT_ENTER_UPGRADING_MODE, Enter_Upgrading_Mode)])"

definition sm_pmu_stm_power_limit_config :: "pmu_fn sm_stm \<Rightarrow> fault + pmu_fn sm_stm" where
  "sm_pmu_stm_power_limit_config st = bind (pmu_add PMU_STM_POWER_LIMIT st) (pmu_on PMU_STM_POWER_LIMIT
    [(PMU_STM_EVENT_MOTOR_STOP, Motor_Stop), (PMU_STM_EVENT_ENTER_IDLE, Enter_Idle),
     (PMU_STM_EVENT_TURN_OFF_KEY, Key_Off), (PMU_STM_EVENT_ENTER_RUNNING_MODE, Enter_Running_Mode),
     (PMU_STM_EVENT_ENTER_UPGRADING_MODE, Enter_Upgrading_Mode)])"

definition sm_pmu_stm_charging_config :: "pmu_fn sm_stm \<Rightarrow> fault + pmu_fn sm_stm" where
  "sm_pmu_stm_charging_config st = bind (pmu_on PMU_STM_CHARGING
    [(PMU_STM_EVENT_UNPLUG_CHARGER, Unplug_Charge), (PMU_STM_EVENT_CHARGER_FULL, Charge_Full),
     (PMU_STM_EVENT_ENTER_UPGRADING_MODE, Enter_Upgrading_Mode)] st) (pmu_add PMU_STM_CHARGING)"

definition sm_pmu_stm_upgrading_config :: "pmu_fn sm_stm \<Rightarrow> fault + pmu_fn sm_stm" where
  "sm_pmu_stm_upgrading_config st = bind (pmu_add PMU_STM_UPGRADING st) (pmu_on PMU_STM_UPGRADING
    [(PMU_STM_EVENT_EXIT_UPGRADING_MODE, Exit_Upgrading_Mode)])"

definition sm_pmu_stm_sleep_config :: "pmu_fn sm_stm \<Rightarrow> fault + pmu_fn sm_stm" where
  "sm_pmu_stm_sleep_config st = bind (pmu_add PMU_STM_SLEEP st) (pmu_on PMU_STM_SLEEP
    [(PMU_STM_EVENT_TURN_ON_KEY, Sleep_Key_On), (PMU_STM_EVENT_ENTER_UPGRADING_MODE, Enter_Upgrading_Mode),
     (PMU_STM_EVENT_PLUG_CHARGER, Plug_Charge)])"

definition sm_pmu_app_stm_init :: "int \<Rightarrow> 'c pmu \<Rightarrow> fault + 'c pmu" where
  "sm_pmu_app_stm_init now = (\<lambda>(st, w).
     bind (sm_pmu_stm_startup_config st) (\<lambda>st. bind (sm_pmu_stm_starting_config st) (\<lambda>st. bind (sm_pmu_stm_idle_config st) (\<lambda>st.
     bind (sm_pmu_stm_running_config st) (\<lambda>st. bind (sm_pmu_stm_power_limit_config st) (\<lambda>st. bind (sm_pmu_stm_charging_config st) (\<lambda>st.
     bind (sm_pmu_stm_upgrading_config st) (\<lambda>st. bind (sm_pmu_stm_sleep_config st) (\<lambda>st.
     bind (sm_stm_set_current_state PMU_STM_STARTUP st) (\<lambda>st.
       Inr (st, w\<lparr>pw_timeout := elapsed_timer_resetz now TIMOUT_TO_SLEEP_MODE (pw_timeout w)\<rparr>)))))))))))"

end
