(* ===== verification/Pmu_Stm_Laws.thy ===== *)
theory Pmu_Stm_Laws
  imports Pmu_Stm
begin

text \<open>
  The states of the power unit as a diagram: every step is one of its edges, the discharger is limited exactly in one state, and
  an idle unit falls asleep.
\<close>

section \<open>The configured machine\<close>

text \<open>The edges: state, event, next state.\<close>

definition pmu_edge :: "int \<Rightarrow> int \<Rightarrow> int option" where
  "pmu_edge s e = map_of
     [((PMU_STM_STARTUP, PMU_STM_EVENT_ENTER_STARTING), PMU_STM_STARTING),
      ((PMU_STM_STARTING, PMU_STM_EVENT_FIRST_BP_ASSIGNED), PMU_STM_IDLE),
      ((PMU_STM_IDLE, PMU_STM_EVENT_PLUG_CHARGER), PMU_STM_CHARGING),
      ((PMU_STM_IDLE, PMU_STM_EVENT_ENTER_RUNNING_MODE), PMU_STM_RUNNING),
      ((PMU_STM_IDLE, PMU_STM_EVENT_ENTER_POWER_LIMIT_MODE), PMU_STM_POWER_LIMIT),
      ((PMU_STM_IDLE, PMU_STM_EVENT_TIMEOUT), PMU_STM_SLEEP),
      ((PMU_STM_RUNNING, PMU_STM_EVENT_MOTOR_STOP), PMU_STM_IDLE),
      ((PMU_STM_RUNNING, PMU_STM_EVENT_ENTER_IDLE), PMU_STM_IDLE),
      ((PMU_STM_RUNNING, PMU_STM_EVENT_TURN_OFF_KEY), PMU_STM_IDLE),
      ((PMU_STM_RUNNING, PMU_STM_EVENT_ENTER_POWER_LIMIT_MODE), PMU_STM_POWER_LIMIT),
      ((PMU_STM_RUNNING, PMU_STM_EVENT_ENTER_UPGRADING_MODE), PMU_STM_UPGRADING),
      ((PMU_STM_POWER_LIMIT, PMU_STM_EVENT_MOTOR_STOP), PMU_STM_IDLE),
      ((PMU_STM_POWER_LIMIT, PMU_STM_EVENT_ENTER_IDLE), PMU_STM_IDLE),
      ((PMU_STM_POWER_LIMIT, PMU_STM_EVENT_TURN_OFF_KEY), PMU_STM_IDLE),
      ((PMU_STM_POWER_LIMIT, PMU_STM_EVENT_ENTER_RUNNING_MODE), PMU_STM_RUNNING),
      ((PMU_STM_POWER_LIMIT, PMU_STM_EVENT_ENTER_UPGRADING_MODE), PMU_STM_UPGRADING),
      ((PMU_STM_CHARGING, PMU_STM_EVENT_UNPLUG_CHARGER), PMU_STM_IDLE),
      ((PMU_STM_CHARGING, PMU_STM_EVENT_CHARGER_FULL), PMU_STM_IDLE),
      ((PMU_STM_CHARGING, PMU_STM_EVENT_ENTER_UPGRADING_MODE), PMU_STM_UPGRADING),
      ((PMU_STM_UPGRADING, PMU_STM_EVENT_EXIT_UPGRADING_MODE), PMU_STM_IDLE),
      ((PMU_STM_SLEEP, PMU_STM_EVENT_TURN_ON_KEY), PMU_STM_IDLE),
      ((PMU_STM_SLEEP, PMU_STM_EVENT_ENTER_UPGRADING_MODE), PMU_STM_UPGRADING),
      ((PMU_STM_SLEEP, PMU_STM_EVENT_PLUG_CHARGER), PMU_STM_CHARGING)] (s, e)"

definition table_edge :: "int \<Rightarrow> int \<Rightarrow> pmu_fn sm_stm \<Rightarrow> int option" where
  "table_edge s e st = (case stm_handler s e st of Some (Handler h) \<Rightarrow> Some (pmu_handler_target h) | _ \<Rightarrow> None)"

definition configured :: "pmu_fn sm_stm \<Rightarrow> bool" where
  "configured st \<longleftrightarrow> stm_state_number st = 8 \<and> stm_event_number st = 15
     \<and> list_all (\<lambda>s. stm_states st ! s = \<lparr>ss_state = int s, ss_entry = Some (Entry (int s)), ss_process = Some (Process (int s)), ss_exit = Some (Exit (int s))\<rparr>) [0..<8]
     \<and> list_all (\<lambda>s. list_all (\<lambda>e. (stm_handler (int s) (int e) st = None) = (pmu_edge (int s) (int e) = None)
          \<and> table_edge (int s) (int e) st = pmu_edge (int s) (int e)) [0..<15]) [0..<8]"

text \<open>The default instance before anything was done to it.\<close>

definition g_stm_default :: "pmu_fn sm_stm" where
  "g_stm_default = \<lparr>stm_current = None, stm_states = replicate 12 (blank_state 0),
     stm_transitions = replicate 12 (replicate 20 \<lparr>se_id = 0, se_handler = None\<rparr>), stm_state_number = 0, stm_event = 0, stm_event_pre = 0,
     stm_event_number = 0\<rparr>"

definition pmu_started :: "int \<Rightarrow> 'c pmu_world \<Rightarrow> fault + 'c pmu" where
  "pmu_started now w = bind (sm_stm_create_default PMU_STM_NUMBER PMU_EVENT_NUMBER g_stm_default) (\<lambda>st. sm_pmu_app_stm_init now (st, w))"

lemmas config_defs = sm_stm_create_default_def g_stm_default_def SM_STM_STATE_NUMBER_SUPPORT_def sm_pmu_app_stm_init_def
  sm_pmu_stm_startup_config_def sm_pmu_stm_starting_config_def sm_pmu_stm_idle_config_def sm_pmu_stm_running_config_def
  sm_pmu_stm_power_limit_config_def sm_pmu_stm_charging_config_def sm_pmu_stm_upgrading_config_def sm_pmu_stm_sleep_config_def
  pmu_add_def sm_stm_add_state_def bad_index_def sm_stm_config_transition_def SM_STM_EVENT_NUMBER_SUPPORT_def sm_stm_set_current_state_def

lemma started:
  "\<exists>st. pmu_started now w = Inr (st, w\<lparr>pw_timeout := elapsed_timer_resetz now TIMOUT_TO_SLEEP_MODE (pw_timeout w)\<rparr>) \<and> configured st
    \<and> stm_current st = Some 0 \<and> stm_event st = 0"
  by (simp add: pmu_started_def config_defs numeral_eq_Suc configured_def upt_rec stm_handler_def table_edge_def pmu_edge_def)

lemma configured_upd [simp]:
  "configured (st\<lparr>stm_current := c\<rparr>) = configured st" "configured (st\<lparr>stm_event := e\<rparr>) = configured st"
  "configured (st\<lparr>stm_event_pre := e\<rparr>) = configured st"
  by (simp_all add: configured_def stm_handler_def table_edge_def)

lemma configured_state:
  assumes "configured st" "c < 8"
  shows "stm_states st ! c = \<lparr>ss_state = int c, ss_entry = Some (Entry (int c)), ss_process = Some (Process (int c)), ss_exit = Some (Exit (int c))\<rparr>"
proof -
  have "c \<in> set [0..<8]" using assms(2) by simp
  then show ?thesis using assms(1) unfolding configured_def list_all_iff by blast
qed

lemma configured_handler:
  assumes "configured st" "c < 8" "0 \<le> e" "e < 15"
  shows "case pmu_edge (int c) e of None \<Rightarrow> stm_handler (int c) e st = None
    | Some s \<Rightarrow> \<exists>h. stm_handler (int c) e st = Some (Handler h) \<and> pmu_handler_target h = s"
proof -
  have "c \<in> set [0..<8]" "nat e \<in> set [0..<15]" using assms(2-4) by auto
  then have "(stm_handler (int c) (int (nat e)) st = None) = (pmu_edge (int c) (int (nat e)) = None)"
      "table_edge (int c) (int (nat e)) st = pmu_edge (int c) (int (nat e))"
    using assms(1) unfolding configured_def list_all_iff by blast+
  then have "(stm_handler (int c) e st = None) = (pmu_edge (int c) e = None)" "table_edge (int c) e st = pmu_edge (int c) e"
    using assms(3) by simp_all
  then show ?thesis by (auto simp: table_edge_def split: option.splits pmu_fn.splits)
qed

lemma edge_range: "pmu_edge s e = Some s' \<Longrightarrow> 0 \<le> s' \<and> s' < 8 \<and> s' \<noteq> s"
  by (auto simp: pmu_edge_def split: if_splits)

section \<open>A step\<close>

definition pmu_leave :: "int \<Rightarrow> 'c pmu_world \<Rightarrow> 'c pmu_world" where
  "pmu_leave s w = (if s = PMU_STM_IDLE then on_retain sm_bp_retain_resume w
     else if s = PMU_STM_POWER_LIMIT then w\<lparr>pw_discharger := sm_sv_discharger_set_sw_state True (pw_discharger w)\<rparr> else w)"

definition pmu_enter :: "int \<Rightarrow> int \<Rightarrow> 'c pmu_world \<Rightarrow> 'c pmu_world" where
  "pmu_enter now s w =
     (if s = PMU_STM_IDLE then on_retain sm_bp_retain_pause (w\<lparr>pw_timeout := elapsed_timer_resetz now TIMOUT_TO_SLEEP_MODE (pw_timeout w)\<rparr>)
      else if s = PMU_STM_POWER_LIMIT then w\<lparr>pw_discharger := sm_sv_discharger_set_sw_state False (pw_discharger w)\<rparr>
      else if s = PMU_STM_UPGRADING then w\<lparr>pw_timeout := elapsed_timer_resetz now UPGRADING_STATE_TIMEOUT (pw_timeout w)\<rparr> else w)"

definition after_event :: "int \<Rightarrow> int \<Rightarrow> int" where
  "after_event s e = (if e < 15 then case pmu_edge s e of Some s' \<Rightarrow> s' | None \<Rightarrow> s else s)"

definition after_starting :: "int \<Rightarrow> 'c pmu_world \<Rightarrow> int" where
  "after_starting s w = (if s = PMU_STM_STARTING \<and> 0 < sm_sv_bp_get_bp_numbs_assign (pw_bp w)
     then (if sm_sv_charger_is_charging (pw_charger w) then PMU_STM_CHARGING else PMU_STM_IDLE) else s)"

text \<open>The event of the last call is gone after the next one; the step of a state may raise one.\<close>

definition stay :: "int \<Rightarrow> int \<Rightarrow> 'c pmu \<Rightarrow> 'c pmu" where
  "stay now s sw = (if s = PMU_STM_IDLE then sm_pmu_stm_idle_proc now sw else if s = PMU_STM_UPGRADING then sm_pmu_stm_upgrading_proc now sw else sw)"

lemma transit:
  assumes "configured st" "c < 8" "0 \<le> stm_event st" "stm_event st < 15"
  shows "stm_transit (pmu_call now) c (st, w) = Inr (let s = after_event (int c) (stm_event st) in
    (st\<lparr>stm_current := (if s = int c then stm_current st else Some (nat s)), stm_event := 20\<rparr>, if s = int c then w else pmu_enter now s (pmu_leave (int c) w)))"
proof -
  note s = configured_state [OF assms(1,2)] and h = configured_handler [OF assms]
  have ok: "\<not> bad_index SM_STM_STATE_NUMBER_SUPPORT (int c)" "\<not> bad_index SM_STM_EVENT_NUMBER_SUPPORT (stm_event st)"
    using assms(2-4) by (simp_all add: bad_index_def SM_STM_STATE_NUMBER_SUPPORT_def SM_STM_EVENT_NUMBER_SUPPORT_def)
  show ?thesis
  proof (cases "pmu_edge (int c) (stm_event st)")
    case None
    then show ?thesis using h s ok assms(4)
      by (simp add: stm_transit_def Let_def after_event_def SM_STM_EVENT_NUMBER_SUPPORT_def)
  next
    case (Some s')
    then obtain hd where hd: "stm_handler (int c) (stm_event st) st = Some (Handler hd)" "pmu_handler_target hd = s'" using h by auto
    have r: "0 \<le> s'" "s' < 8" "s' \<noteq> int c" using edge_range [OF Some] by auto
    then have n: "nat s' < 8" "int (nat s') = s'" by auto
    have ok': "\<not> bad_index SM_STM_STATE_NUMBER_SUPPORT s'" using r by (simp add: bad_index_def SM_STM_STATE_NUMBER_SUPPORT_def)
    have en: "stm_states st ! nat s' = \<lparr>ss_state = s', ss_entry = Some (Entry s'), ss_process = Some (Process s'), ss_exit = Some (Exit s')\<rparr>"
      using configured_state [OF assms(1) n(1)] n(2) by simp
    have ex: "pmu_call now (Exit (int c)) (st, w) = Inr (0, st, pmu_leave (int c) w)"
      by (simp add: pmu_call_def pmu_leave_def sm_pmu_stm_idle_exit_def sm_pmu_stm_power_limit_exit_def)
    have ent: "pmu_call now (Entry s') (st', v) = Inr (0, st', pmu_enter now s' v)" for st' :: "pmu_fn sm_stm" and v :: "'a pmu_world"
      by (simp add: pmu_call_def pmu_enter_def sm_pmu_stm_idle_entry_def sm_pmu_stm_power_limit_entry_def sm_pmu_stm_upgrading_entry_def)
    have go: "pmu_call now (Handler hd) sw = Inr (s', sw)" for sw :: "'a pmu" by (simp add: pmu_call_def hd(2))
    show ?thesis using s ok ok' hd(1) r(3) Some assms(4)
      by (simp add: stm_transit_def Let_def call_opt_def ex go en ent after_event_def SM_STM_EVENT_NUMBER_SUPPORT_def)
  qed
qed

lemma process_starting:
  "pmu_call now (Process PMU_STM_STARTING) (st, w) = Inr (0, (if after_starting 1 w = 1 then st else st\<lparr>stm_current := Some (nat (after_starting 1 w))\<rparr>), w)"
proof (cases "0 < sm_sv_bp_get_bp_numbs_assign (pw_bp w)")
  case True
  then show ?thesis
    by (cases "sm_sv_charger_is_charging (pw_charger w)")
      (simp_all add: pmu_call_def sm_pmu_stm_starting_proc_def after_starting_def sm_stm_set_current_state_def bad_index_def SM_STM_STATE_NUMBER_SUPPORT_def)
next
  case False
  then show ?thesis by (simp add: pmu_call_def sm_pmu_stm_starting_proc_def after_starting_def Let_def)
qed

lemma process_other:
  assumes "s \<noteq> PMU_STM_STARTING"
  shows "pmu_call now (Process s) sw = Inr (0, stay now s sw)"
  using assms by (simp add: pmu_call_def stay_def)

definition pmu_next :: "int \<Rightarrow> int \<Rightarrow> 'c pmu_world \<Rightarrow> int" where
  "pmu_next s e w = after_starting (after_event s e) w"

lemma numbs_retain [simp]:
  "sm_sv_bp_get_bp_numbs_assign (sv\<lparr>sv_retain := r\<rparr>) = sm_sv_bp_get_bp_numbs_assign sv"
  by (simp add: sm_sv_bp_get_bp_numbs_assign_def)

lemma on_retain_keeps [simp]:
  "sm_sv_bp_get_bp_numbs_assign (pw_bp (on_retain g w)) = sm_sv_bp_get_bp_numbs_assign (pw_bp w)"
  "pw_charger (on_retain g w) = pw_charger w" "pw_discharger (on_retain g w) = pw_discharger w" "pw_key (on_retain g w) = pw_key w"
  "pw_timeout (on_retain g w) = pw_timeout w"
  by (simp_all add: on_retain_def)

lemma leave_keeps [simp]:
  "sm_sv_bp_get_bp_numbs_assign (pw_bp (pmu_leave s w)) = sm_sv_bp_get_bp_numbs_assign (pw_bp w)"
  "pw_charger (pmu_leave s w) = pw_charger w"
  by (simp_all only: pmu_leave_def split: if_split) simp_all

lemma enter_keeps [simp]:
  "sm_sv_bp_get_bp_numbs_assign (pw_bp (pmu_enter now s w)) = sm_sv_bp_get_bp_numbs_assign (pw_bp w)"
  "pw_charger (pmu_enter now s w) = pw_charger w"
  by (simp_all only: pmu_enter_def split: if_split) simp_all

lemma world_same [simp]:
  "after_starting s (pmu_enter now a (pmu_leave b w)) = after_starting s w"
  by (simp add: after_starting_def)

lemma pmu_step:
  fixes w :: "'c pmu_world" and now :: int
  assumes "configured st" "stm_current st = Some c" "c < 8" "0 \<le> stm_event st"
  defines "s1 \<equiv> after_event (int c) (stm_event st)"
  defines "w1 \<equiv> if s1 = int c then w else pmu_enter now s1 (pmu_leave (int c) w)"
  defines "st1 \<equiv> (if stm_event st < 15 then st\<lparr>stm_current := Some (nat s1), stm_event := 20\<rparr> else st)"
  shows "sm_pmu_app_stm_proc now (st, w) = Inr (if s1 = PMU_STM_STARTING then (st1\<lparr>stm_current := Some (nat (pmu_next (int c) (stm_event st) w))\<rparr>, w1)
    else stay now s1 (st1, w1))"
    and "0 \<le> s1" "s1 < 8" "stm_current st1 = Some (nat s1)" "configured st1"
proof -
  have r: "0 \<le> s1 \<and> s1 < 8"
    using assms(3) edge_range [of "int c" "stm_event st"] by (auto simp: s1_def after_event_def split: option.split)
  then show s1: "0 \<le> s1" "s1 < 8" by auto
  show cur: "stm_current st1 = Some (nat s1)" using assms(2) by (simp add: st1_def s1_def after_event_def)
  show cf: "configured st1" using assms(1) by (simp add: st1_def)
  have num: "stm_event_number st = 15" using assms(1) by (simp add: configured_def)
  have tr: "(if stm_event st < stm_event_number st then stm_transit (pmu_call now) c (st, w) else Inr (st, w)) = Inr (st1, w1)"
  proof (cases "stm_event st < 15")
    case True
    have "(if s1 = int c then stm_current st else Some (nat s1)) = Some (nat s1)" using assms(2) by simp
    then show ?thesis using transit [OF assms(1,3,4) True, of now w] True num by (simp add: Let_def st1_def w1_def flip: s1_def)
  next
    case False
    then have "s1 = int c" by (simp add: s1_def after_event_def)
    then show ?thesis using False num by (simp add: st1_def w1_def)
  qed
  have n: "nat s1 < 8" "int (nat s1) = s1" using s1 by auto
  have pr: "ss_process (stm_states st1 ! nat s1) = Some (Process s1)" using configured_state [OF cf n(1)] n(2) by simp
  have ws: "after_starting 1 w1 = after_starting 1 w" by (simp add: w1_def)
  have upd: "st1\<lparr>stm_current := Some (nat s1)\<rparr> = st1" using cur by simp
  show "sm_pmu_app_stm_proc now (st, w) = Inr (if s1 = PMU_STM_STARTING then (st1\<lparr>stm_current := Some (nat (pmu_next (int c) (stm_event st) w))\<rparr>, w1)
    else stay now s1 (st1, w1))"
  proof (cases "s1 = PMU_STM_STARTING")
    case True
    have nx: "pmu_next (int c) (stm_event st) w = after_starting 1 w" using True by (simp add: pmu_next_def s1_def)
    have "(if after_starting 1 w = 1 then st1 else st1\<lparr>stm_current := Some (nat (after_starting 1 w))\<rparr>)
        = st1\<lparr>stm_current := Some (nat (after_starting 1 w))\<rparr>" using upd True by auto
    then show ?thesis
      using True assms(2) tr cur pr ws process_starting [of now st1 w1] by (simp add: sm_pmu_app_stm_proc_def sm_stm_process_def call_opt_def nx)
  next
    case False
    then show ?thesis
      using assms(2) tr cur pr process_other [OF False, of now "(st1, w1)"] by (simp add: sm_pmu_app_stm_proc_def sm_stm_process_def call_opt_def split: prod.split)
  qed
qed

section \<open>Runs\<close>

text \<open>
  Between two calls of the machine the rest of the program raises events and changes what the functions of the states look at. The
  limit of the discharger is left alone by \<open>Sees\<close>.
\<close>

datatype 'c pmu_op = Raise nat | Call int | Sees bool "'c sm_sv_bp" charger discharger

fun pmu_do :: "'c pmu_op \<Rightarrow> 'c pmu \<Rightarrow> fault + 'c pmu" where
  "pmu_do (Raise e) (st, w) = Inr (sm_stm_set_event (int e) st, w)"
| "pmu_do (Call now) sw = sm_pmu_app_stm_proc now sw"
| "pmu_do (Sees key bp chg dis) (st, w) = Inr (st, w\<lparr>pw_key := key, pw_bp := bp, pw_charger := chg,
     pw_discharger := dis\<lparr>dis_paused_sw := dis_paused_sw (pw_discharger w)\<rparr>\<rparr>)"

fun pmu_run :: "'c pmu_op list \<Rightarrow> 'c pmu \<Rightarrow> fault + 'c pmu" where
  "pmu_run [] sw = Inr sw"
| "pmu_run (p # ps) sw = bind (pmu_do p sw) (pmu_run ps)"

definition pmu_inv :: "nat \<Rightarrow> 'c pmu \<Rightarrow> bool" where
  "pmu_inv c = (\<lambda>(st, w). configured st \<and> stm_current st = Some c \<and> c < 8 \<and> 0 \<le> stm_event st
     \<and> dis_paused_sw (pw_discharger w) = (int c = PMU_STM_POWER_LIMIT))"

lemma set_event_fields [simp]:
  "configured (sm_stm_set_event e st) = configured st" "stm_current (sm_stm_set_event e st) = stm_current st"
  "stm_event (sm_stm_set_event e st) = e"
  by (simp_all add: sm_stm_set_event_def)

lemma stay_keeps:
  assumes "pmu_inv c sw"
  shows "pmu_inv c (stay now s sw)"
proof -
  obtain st w where sw: "sw = (st, w)" by (cases sw)
  consider "s = PMU_STM_IDLE" | "s = PMU_STM_UPGRADING" | "s \<noteq> PMU_STM_IDLE" "s \<noteq> PMU_STM_UPGRADING" by blast
  then show ?thesis
  proof cases
    case 1
    then show ?thesis using assms by (cases "pw_key w") (simp_all add: sw stay_def sm_pmu_stm_idle_proc_def Let_def pmu_inv_def)
  next
    case 2
    then show ?thesis using assms by (simp add: sw stay_def sm_pmu_stm_upgrading_proc_def pmu_inv_def)
  next
    case 3
    then show ?thesis using assms by (simp add: stay_def)
  qed
qed

lemma limit_entered:
  assumes "s \<noteq> s'" "dis_paused_sw (pw_discharger w) = (s = PMU_STM_POWER_LIMIT)"
  shows "dis_paused_sw (pw_discharger (pmu_enter now s' (pmu_leave s w))) = (s' = PMU_STM_POWER_LIMIT)"
  using assms by (cases "s = PMU_STM_POWER_LIMIT"; cases "s' = PMU_STM_POWER_LIMIT"; cases "s = PMU_STM_IDLE"; cases "s' = PMU_STM_IDLE";
      cases "s' = PMU_STM_UPGRADING") (simp_all add: pmu_enter_def pmu_leave_def sm_sv_discharger_set_sw_state_def)

lemma pmu_next_range:
  assumes "0 \<le> s" "s < 8"
  shows "0 \<le> pmu_next s e w \<and> pmu_next s e w < 8"
  using assms edge_range [of s e] by (auto simp: pmu_next_def after_event_def after_starting_def split: option.split)

lemma pmu_next_limit:
  assumes "after_event s e = PMU_STM_STARTING"
  shows "pmu_next s e w \<noteq> PMU_STM_POWER_LIMIT"
  using assms by (simp add: pmu_next_def after_starting_def)

lemma call_keeps:
  assumes "pmu_inv c (st, w)"
  shows "\<exists>sw. sm_pmu_app_stm_proc now (st, w) = Inr sw \<and> pmu_inv (nat (pmu_next (int c) (stm_event st) w)) sw"
proof -
  have i: "configured st" "stm_current st = Some c" "c < 8" "0 \<le> stm_event st" "dis_paused_sw (pw_discharger w) = (int c = PMU_STM_POWER_LIMIT)"
    using assms by (auto simp: pmu_inv_def)
  define s1 where "s1 = after_event (int c) (stm_event st)"
  define w1 where "w1 = (if s1 = int c then w else pmu_enter now s1 (pmu_leave (int c) w))"
  define st1 where "st1 = (if stm_event st < 15 then st\<lparr>stm_current := Some (nat s1), stm_event := 20\<rparr> else st)"
  note step = pmu_step(1) [OF i(1-4), where now = now and w = w, folded s1_def, folded w1_def st1_def]
    pmu_step(2-5) [OF i(1-4), folded s1_def, folded st1_def]
  have lim: "dis_paused_sw (pw_discharger w1) = (s1 = PMU_STM_POWER_LIMIT)"
    using limit_entered [OF _ i(5), of s1 now] i(5) by (auto simp: w1_def)
  have ev: "0 \<le> stm_event st1" using i(4) by (simp add: st1_def)
  have inv: "pmu_inv (nat s1) (st1, w1)" using step lim ev by (simp add: pmu_inv_def)
  show ?thesis
  proof (cases "s1 = PMU_STM_STARTING")
    case True
    have r: "0 \<le> pmu_next (int c) (stm_event st) w" "pmu_next (int c) (stm_event st) w < 8" using pmu_next_range [of "int c"] i(3) by auto
    have "pmu_next (int c) (stm_event st) w \<noteq> PMU_STM_POWER_LIMIT" using pmu_next_limit True by (simp add: s1_def)
    then have "pmu_inv (nat (pmu_next (int c) (stm_event st) w)) (st1\<lparr>stm_current := Some (nat (pmu_next (int c) (stm_event st) w))\<rparr>, w1)"
      using inv r True lim by (simp add: pmu_inv_def)
    then show ?thesis using step True by auto
  next
    case False
    have "pmu_next (int c) (stm_event st) w = s1" using False by (simp add: pmu_next_def after_starting_def s1_def)
    then show ?thesis using step False stay_keeps [OF inv] by auto
  qed
qed

lemma do_keeps:
  assumes "pmu_inv c sw"
  shows "\<exists>c' sw'. pmu_do p sw = Inr sw' \<and> pmu_inv c' sw'"
proof -
  obtain st w where sw: "sw = (st, w)" by (cases sw)
  show ?thesis
  proof (cases p)
    case (Raise e)
    then have "pmu_inv c (sm_stm_set_event (int e) st, w)" using assms by (simp add: sw pmu_inv_def)
    then show ?thesis using Raise sw by auto
  next
    case (Call now)
    then show ?thesis using call_keeps [of c st w now] assms sw by auto
  next
    case (Sees key bp chg dis)
    then show ?thesis using assms sw by (auto simp: pmu_inv_def)
  qed
qed

lemma run_keeps:
  "pmu_inv c sw \<Longrightarrow> \<exists>c' sw'. pmu_run ps sw = Inr sw' \<and> pmu_inv c' sw'"
proof (induction ps arbitrary: c sw)
  case Nil
  then show ?case by auto
next
  case (Cons p ps)
  from do_keeps [OF Cons.prems] obtain c' sw' where "pmu_do p sw = Inr sw'" "pmu_inv c' sw'" by blast
  then show ?case using Cons.IH [of c' sw'] by simp
qed

lemma started_inv:
  assumes "\<not> dis_paused_sw (pw_discharger w)"
  obtains st where "pmu_started now w = Inr (st, w\<lparr>pw_timeout := elapsed_timer_resetz now TIMOUT_TO_SLEEP_MODE (pw_timeout w)\<rparr>)"
    and "pmu_inv 0 (st, w\<lparr>pw_timeout := elapsed_timer_resetz now TIMOUT_TO_SLEEP_MODE (pw_timeout w)\<rparr>)" and "stm_event st = 0"
  using started [of now w] assms that by (auto simp: pmu_inv_def)

section \<open>What runs do\<close>

lemma startup_call:
  assumes "pmu_inv 0 (st, w)" "stm_event st \<noteq> PMU_STM_EVENT_ENTER_STARTING"
  shows "\<exists>st'. sm_pmu_app_stm_proc now (st, w) = Inr (st', w) \<and> pmu_inv 0 (st', w) \<and> stm_event st' \<noteq> PMU_STM_EVENT_ENTER_STARTING"
proof -
  have i: "configured st" "stm_current st = Some 0" "0 \<le> stm_event st" "\<not> dis_paused_sw (pw_discharger w)" using assms(1) by (auto simp: pmu_inv_def)
  have a: "after_event 0 (stm_event st) = 0" using assms(2) by (simp add: after_event_def pmu_edge_def)
  have st: "(if stm_event st < 15 then st\<lparr>stm_current := Some 0, stm_event := 20\<rparr> else st) = (if stm_event st < 15 then st\<lparr>stm_event := 20\<rparr> else st)"
    using i(2) by simp
  show ?thesis
    using pmu_step(1) [OF i(1,2) _ i(3), of now w] i assms(2) a by (simp add: stay_def pmu_inv_def)
qed

lemma startup_run:
  "pmu_inv 0 (st, w) \<Longrightarrow> stm_event st \<noteq> 5 \<Longrightarrow> Raise 5 \<notin> set ps \<Longrightarrow>
    \<exists>st' w'. pmu_run ps (st, w) = Inr (st', w') \<and> stm_current st' = Some 0 \<and> pw_timeout w' = pw_timeout w"
proof (induction ps arbitrary: st w)
  case Nil
  then show ?case by (simp add: pmu_inv_def)
next
  case (Cons p ps)
  have "\<exists>st' w'. pmu_do p (st, w) = Inr (st', w') \<and> pmu_inv 0 (st', w') \<and> stm_event st' \<noteq> 5 \<and> pw_timeout w' = pw_timeout w"
  proof (cases p)
    case (Raise e)
    then have "int e \<noteq> 5" using Cons.prems(3) by auto
    then show ?thesis using Raise Cons.prems(1) by (simp add: pmu_inv_def)
  next
    case (Call now)
    then show ?thesis using startup_call [OF Cons.prems(1,2), of now] by auto
  next
    case (Sees key bp chg dis)
    then show ?thesis using Cons.prems(1,2) by (simp add: pmu_inv_def)
  qed
  then obtain st' w' where d: "pmu_do p (st, w) = Inr (st', w')" "pmu_inv 0 (st', w')" "stm_event st' \<noteq> 5" "pw_timeout w' = pw_timeout w" by blast
  have "Raise 5 \<notin> set ps" using Cons.prems(3) by simp
  then show ?case using Cons.IH [OF d(2,3)] d(1,4) by simp
qed

lemma into_idle:
  assumes "pmu_inv 3 (st, w)" "\<not> pw_key w"
  shows "sm_pmu_app_stm_proc t0 (sm_stm_set_event PMU_STM_EVENT_TURN_OFF_KEY st, w)
    = Inr (sm_stm_set_event PMU_STM_EVENT_TURN_OFF_KEY st\<lparr>stm_current := Some 2, stm_event := 20\<rparr>, pmu_enter t0 PMU_STM_IDLE w)"
proof -
  let ?st = "sm_stm_set_event PMU_STM_EVENT_TURN_OFF_KEY st"
  have i: "configured ?st" "stm_current ?st = Some 3" using assms(1) by (auto simp: pmu_inv_def)
  have a: "after_event 3 2 = 2" by (simp add: after_event_def pmu_edge_def)
  have l: "pmu_leave 3 w = w" by (simp add: pmu_leave_def)
  have t: "\<not> timed_out t0 (elapsed_timer_resetz t0 TIMOUT_TO_SLEEP_MODE x)" for x
    by (simp add: timer_simps TIMOUT_TO_SLEEP_MODE_def)
  show ?thesis using pmu_step(1) [OF i, of t0 w] assms(2)
    by (simp add: a l stay_def sm_pmu_stm_idle_proc_def pmu_enter_def t)
qed

lemma idle_waits:
  assumes "pmu_inv 2 (st, w)" "stm_event st = 20" "\<not> pw_key w"
  shows "sm_pmu_app_stm_proc now (st, w) = Inr (if timed_out now (pw_timeout w) then sm_stm_set_event PMU_STM_EVENT_TIMEOUT st else st, w)"
proof -
  have i: "configured st" "stm_current st = Some 2" "0 \<le> stm_event st" using assms(1,2) by (auto simp: pmu_inv_def)
  have a: "after_event 2 20 = 2" by (simp add: after_event_def)
  show ?thesis using pmu_step(1) [OF i(1,2) _ i(3), of now w] assms(2,3)
    by (simp add: a stay_def sm_pmu_stm_idle_proc_def)
qed

lemma idle_waits_long:
  assumes "pmu_inv 2 (st, w)" "stm_event st = 20" "\<not> pw_key w" "\<forall>t \<in> set ts. \<not> timed_out t (pw_timeout w)"
  shows "pmu_run (map Call ts) (st, w) = Inr (st, w)"
  using assms(4) by (induction ts) (simp_all add: idle_waits [OF assms(1-3)])

lemma into_sleep:
  assumes "pmu_inv 2 (st, w)" "stm_event st = PMU_STM_EVENT_TIMEOUT"
  shows "sm_pmu_app_stm_proc now (st, w) = Inr (st\<lparr>stm_current := Some 6, stm_event := 20\<rparr>, on_retain sm_bp_retain_resume w)"
proof -
  have i: "configured st" "stm_current st = Some 2" "0 \<le> stm_event st" using assms(1,2) by (auto simp: pmu_inv_def)
  have a: "after_event 2 11 = 6" by (simp add: after_event_def pmu_edge_def)
  show ?thesis using pmu_step(1) [OF i(1,2) _ i(3), of now w] assms(2)
    by (simp add: a stay_def pmu_enter_def pmu_leave_def)
qed

lemma run_append: "pmu_run (ps @ qs) sw = bind (pmu_run ps sw) (pmu_run qs)"
  by (induction ps arbitrary: sw) (auto simp: bind_def split: sum.split)

section \<open>The states of the unit\<close>

text \<open>What happens to the unit after its machine is created and configured.\<close>

definition pmu_history :: "int \<Rightarrow> 'c pmu_op list \<Rightarrow> 'c pmu_world \<Rightarrow> fault + 'c pmu" where
  "pmu_history now ps w = bind (pmu_started now w) (pmu_run ps)"

lemma history_keeps:
  assumes "\<not> dis_paused_sw (pw_discharger w)"
  shows "\<exists>c sw. pmu_history now ps w = Inr sw \<and> pmu_inv c sw"
proof -
  obtain st where "pmu_started now w = Inr (st, w\<lparr>pw_timeout := elapsed_timer_resetz now TIMOUT_TO_SLEEP_MODE (pw_timeout w)\<rparr>)"
      "pmu_inv 0 (st, w\<lparr>pw_timeout := elapsed_timer_resetz now TIMOUT_TO_SLEEP_MODE (pw_timeout w)\<rparr>)"
    using started_inv [OF assms] by metis
  then show ?thesis using run_keeps [of 0 _ ps] by (auto simp: pmu_history_def)
qed

text \<open>
  The unit moves by its diagram. After its creation, whatever events are raised, whatever the packs, the charger and the key do and
  however often the machine is called, nothing faults, the unit is in one of its eight states, and the next call moves it to the state that the
  diagram (\<open>pmu_edge\<close>, with the jump out of the state STARTING when a pack is connected) gives for the last event. The
  discharger is switched off by software exactly in the state POWER_LIMIT, as long as no other part of the program sets that switch.\<close>

theorem pmu_moves_by_the_diagram:
  assumes "\<not> dis_paused_sw (pw_discharger w)"
  shows "\<exists>st' w' c. pmu_history now ps w = Inr (st', w') \<and> stm_current st' = Some c \<and> c < 8
    \<and> (dis_paused_sw (pw_discharger w') \<longleftrightarrow> int c = PMU_STM_POWER_LIMIT)
    \<and> (\<forall>t. \<exists>st2 w2. sm_pmu_app_stm_proc t (st', w') = Inr (st2, w2)
         \<and> stm_current st2 = Some (nat (pmu_next (int c) (stm_event st') w'))
         \<and> (dis_paused_sw (pw_discharger w2) \<longleftrightarrow> pmu_next (int c) (stm_event st') w' = PMU_STM_POWER_LIMIT))"
proof -
  obtain c st' w' where h: "pmu_history now ps w = Inr (st', w')" "pmu_inv c (st', w')" using history_keeps [OF assms, of now ps] by auto
  have "0 \<le> pmu_next (int c) (stm_event st') w'" using pmu_next_range [of "int c" "stm_event st'" w'] h(2) by (simp add: pmu_inv_def)
  then have "\<exists>st2 w2. sm_pmu_app_stm_proc t (st', w') = Inr (st2, w2)
         \<and> stm_current st2 = Some (nat (pmu_next (int c) (stm_event st') w'))
         \<and> (dis_paused_sw (pw_discharger w2) \<longleftrightarrow> pmu_next (int c) (stm_event st') w' = PMU_STM_POWER_LIMIT)" for t
    using call_keeps [OF h(2), of t] by (auto simp: pmu_inv_def)
  then show ?thesis using h by (intro exI [of _ st'] exI [of _ w'] exI [of _ c]) (simp add: pmu_inv_def)
qed

definition example_unit :: "string pmu_world" where
  "example_unit = \<lparr>pw_timeout = \<lparr>m_duration = 0, m_start_time = 0\<rparr>, pw_key = False, pw_bp = sv_example, pw_charger = g_charger_default,
     pw_discharger = g_discharger\<rparr>"

lemma example_unit: "\<not> dis_paused_sw (pw_discharger example_unit)"
  by (simp add: example_unit_def g_discharger_def)

theorem pmu_moves_by_the_diagram_witness:
  "\<exists>st' w' c. pmu_history 0 [Raise 5, Call 100, Raise 3, Call 200] example_unit = Inr (st', w') \<and> stm_current st' = Some c \<and> c < 8"
  using pmu_moves_by_the_diagram [OF example_unit, of 0 "[Raise 5, Call 100, Raise 3, Call 200]"] by blast

text \<open>
  As long as nobody raises the event ENTER_STARTING the unit stays in the state STARTUP, whatever other events are raised and whatever is
  plugged in. No function of the repository raises it: its number is used where the machine is configured (\<^verbatim>\<open>sm_pmu_stm.c\<close>, line 87) and
  declared, nowhere else.\<close>

theorem startup_is_never_left:
  assumes "\<not> dis_paused_sw (pw_discharger w)" "Raise 5 \<notin> set ps"
  shows "\<exists>st' w'. pmu_history now ps w = Inr (st', w') \<and> stm_current st' = Some 0"
proof -
  obtain st where st: "pmu_started now w = Inr (st, w\<lparr>pw_timeout := elapsed_timer_resetz now TIMOUT_TO_SLEEP_MODE (pw_timeout w)\<rparr>)"
      "pmu_inv 0 (st, w\<lparr>pw_timeout := elapsed_timer_resetz now TIMOUT_TO_SLEEP_MODE (pw_timeout w)\<rparr>)" "stm_event st = 0"
    using started_inv [OF assms(1)] by metis
  then show ?thesis using startup_run [OF st(2) _ assms(2)] by (auto simp: pmu_history_def)
qed

theorem startup_is_never_left_witness:
  "\<exists>st' w'. pmu_history 0 [Raise 1, Call 100, Raise 8, Call 200, Raise 13, Call 300] example_unit = Inr (st', w') \<and> stm_current st' = Some 0"
  by (rule startup_is_never_left [OF example_unit]) simp

text \<open>
  A running unit whose key is turned off goes to the state IDLE with the next call and pauses the retain discharge; it stays there for
  all calls of the next two hours, if nothing happens, and the second call after them has it asleep and the retain discharge resumed.\<close>

theorem idle_unit_falls_asleep:
  assumes "\<not> dis_paused_sw (pw_discharger w)" "pmu_history now ps w = Inr (st, w1)" "stm_current st = Some 3" "\<not> pw_key w1"
    and "\<forall>t \<in> set ts. t < t0 + 7200000" "t0 + 7200000 \<le> t1"
  shows "\<exists>st2 w2. pmu_run (Raise 2 # Call t0 # map Call ts) (st, w1) = Inr (st2, w2) \<and> stm_current st2 = Some 2
      \<and> rt_paused (sv_retain (pw_bp w2))
    \<and> (\<exists>st3 w3. pmu_run [Call t1, Call t2] (st2, w2) = Inr (st3, w3) \<and> stm_current st3 = Some 6
      \<and> \<not> rt_paused (sv_retain (pw_bp w3)))"
proof -
  have inv: "pmu_inv 3 (st, w1)" using history_keeps [OF assms(1), of now ps] assms(2,3) by (auto simp: pmu_inv_def)
  let ?st = "sm_stm_set_event PMU_STM_EVENT_TURN_OFF_KEY st\<lparr>stm_current := Some 2, stm_event := 20\<rparr>" and ?w = "pmu_enter t0 PMU_STM_IDLE w1"
  have k: "\<not> pw_key ?w" "timed_out t (pw_timeout ?w) = (t0 + 7200000 \<le> t)" for t
    using assms(4) by (simp_all add: pmu_enter_def timer_simps TIMOUT_TO_SLEEP_MODE_def)
  have i: "pmu_inv 2 (?st, ?w)" using inv by (simp add: pmu_inv_def pmu_enter_def)
  have a: "pmu_run (Raise 2 # Call t0 # map Call ts) (st, w1) = Inr (?st, ?w)"
  proof -
    have "\<forall>t \<in> set ts. \<not> timed_out t (pw_timeout ?w)" using assms(5) k(2) by auto
    from idle_waits_long [OF i _ k(1) this] show ?thesis using into_idle [OF inv assms(4), of t0] by simp
  qed
  have b: "sm_pmu_app_stm_proc t1 (?st, ?w) = Inr (sm_stm_set_event PMU_STM_EVENT_TIMEOUT ?st, ?w)"
    using idle_waits [OF i _ k(1), of t1] k(2) assms(6) by simp
  have "pmu_inv 2 (sm_stm_set_event PMU_STM_EVENT_TIMEOUT ?st, ?w)" using i by (simp add: pmu_inv_def)
  from into_sleep [OF this, of t2] have c: "sm_pmu_app_stm_proc t2 (sm_stm_set_event PMU_STM_EVENT_TIMEOUT ?st, ?w)
      = Inr (sm_stm_set_event PMU_STM_EVENT_TIMEOUT ?st\<lparr>stm_current := Some 6, stm_event := 20\<rparr>, on_retain sm_bp_retain_resume ?w)" by simp
  show ?thesis
    by (intro exI [of _ ?st] exI [of _ ?w] conjI
        exI [of _ "sm_stm_set_event PMU_STM_EVENT_TIMEOUT ?st\<lparr>stm_current := Some 6, stm_event := 20\<rparr>"] exI [of _ "on_retain sm_bp_retain_resume ?w"])
      (use a b c in \<open>simp_all add: pmu_enter_def on_retain_def sm_bp_retain_pause_def sm_bp_retain_resume_def\<close>)
qed

theorem idle_unit_falls_asleep_witness:
  "\<exists>st w1 st2 w2 st3 w3. pmu_history 0 [Raise 5, Call 1, Raise 3, Call 2, Raise 6, Call 3] example_unit = Inr (st, w1)
    \<and> pmu_run [Raise 2, Call 1000, Call 7000000] (st, w1) = Inr (st2, w2) \<and> stm_current st2 = Some 2 \<and> rt_paused (sv_retain (pw_bp w2))
    \<and> pmu_run [Call 7201000, Call 7201100] (st2, w2) = Inr (st3, w3) \<and> stm_current st3 = Some 6 \<and> \<not> rt_paused (sv_retain (pw_bp w3))"
proof -
  have "case pmu_history 0 [Raise 5, Call 1, Raise 3, Call 2, Raise 6, Call 3] example_unit of Inl _ \<Rightarrow> False
    | Inr (st, w) \<Rightarrow> stm_current st = Some 3 \<and> \<not> pw_key w" by code_simp
  then obtain st w1 where h: "pmu_history 0 [Raise 5, Call 1, Raise 3, Call 2, Raise 6, Call 3] example_unit = Inr (st, w1)"
      "stm_current st = Some 3" "\<not> pw_key w1" by (auto split: sum.splits)
  from idle_unit_falls_asleep [OF example_unit h, of "[7000000]" 1000 7201000 7201100] h(1) show ?thesis by fastforce
qed

end
