(* ===== verification/Spec2Isabelle.thy ===== *)
theory Spec2Isabelle
  imports Host_Proto Elapsed_Timer Sv_Pms_Laws Sdo_Safety Pmu_Uart_Laws Sched_Laws Boot_Net Upgrading_Laws Flash_Copy
    Ev_Upgrade_Laws Io_Laws Pmu_Stm_Laws
begin

text \<open>
  The firmware of the power-management unit of an electric vehicle, as far as it is a program: the C code under
  \<^verbatim>\<open>src/ev-sdk\<close>. The definitions of the components translate the functions and structures there, or named pieces of them (the manifest gives the lines
  of each); paths below are relative to that directory. The other definitions serve the theorems: runs and turns, which put translated
  functions together in the order in which the program or the bus calls them, predicates on states, and example states. Each theory opens with a text of its own.

  \<^bold>\<open>How the parts fit together.\<close> The unit talks CANopen to battery packs, chargers and motor controllers. The CANopen
  library (\<^verbatim>\<open>libs/canopen\<close>) gives a node with an SDO server, an SDO client, a SYNC object and transmit PDOs; the core
  (\<^verbatim>\<open>cores/inc\<close>) queues requests of the application for the one SDO client and calls them back. The battery service
  (\<^verbatim>\<open>services/bp_management\<close>) keeps the state of the packs from their PDOs, authenticates packs that are plugged in and
  sends them commands; the PMS service (\<^verbatim>\<open>services/pms\<close>, \<^verbatim>\<open>services/charger\<close>) decides which pack discharges or is charged,
  and moves the load with a controller of its own. The host protocol (\<^verbatim>\<open>libs/host\<close>) frames commands on a serial line. The
  console (\<^verbatim>\<open>apps/pmu\<close>) takes text lines from another one and writes settings to a motor controller through the core.
  The application is run by the scheduler (\<^verbatim>\<open>cores/sch\<close>). A device is upgraded by the boot master
  (\<^verbatim>\<open>services/boot_master\<close>), a table of slaves: each takes an image, segment by segment, from an input (here the flash
  with an Intel-HEX text, \<^verbatim>\<open>utils/algorithms\<close>) and gives it to an output (the CANopen node or a partition of the flash,
  \<^verbatim>\<open>common/modules/ex_flash_module\<close>). The upgrade service (\<^verbatim>\<open>services/ev_upgrade\<close>) queues the
  devices, reboots them over the bus and upgrades one at a time. The input service (\<^verbatim>\<open>services/ev_io\<close>) debounces a pin and drives another one; a state machine (\<^verbatim>\<open>cores/stm\<close>) holds the states of
  the unit.

  \<^bold>\<open>The conventions of the model.\<close> State is a record that is passed and returned. A C function that can run into undefined
  behaviour (a null or dangling pointer, an index outside an array, an object used as another) or stop for good returns
  \<open>fault + \<dots>\<close>, with one constructor of \<open>fault\<close> for each; what it does to its surroundings (frames sent, callbacks called)
  is a list that is returned with the new state (\<open>result\<close>, \<open>and_then\<close>, \<open>run_all\<close> of \<open>Prelude\<close>). Integers of a fixed width are
  words or numbers with the wrap-around written out; single-precision numbers are rationals, rounded after each operation.
  Function pointers are numbers, or parameters when they are called for a value; the time is an argument. Loops are structural recursion or have a termination proof; the search
  \<open>od_search_in\<close> counts its passes, and the two loops over a text in flash, which need not end, are partial functions
  (\<open>None\<close> when they do not), shown to return on every text of whole records.

  \<^bold>\<open>Theories and sources.\<close>
  \<^item> \<open>Prelude\<close>: faults, results, arrays, the interface \<open>event_machine\<close> with its induction over events. \<open>Ring\<close>: the arithmetic of
    ring buffers and the interface \<open>bounded_queue\<close>, interpreted on the three rings of the program.
  \<^item> \<open>Elapsed_Timer\<close> (\<^verbatim>\<open>utils/timing/sm_elapsed_timer.h\<close>), \<open>Crc16\<close> (\<^verbatim>\<open>utils/algorithms/sm_crc.c\<close>), \<open>Fifo\<close>
    (\<^verbatim>\<open>utils/containers/sm_fifo.c\<close>), \<open>Host_Proto\<close> (\<^verbatim>\<open>libs/host/sm_host.c\<close>).
  \<^item> \<open>Co_Sdo\<close>, \<open>Sdo_Client\<close>, \<open>Object_Dict\<close>, \<open>Sdo_Server\<close>, \<open>Tpdo\<close>, \<open>Co_Node\<close> (\<^verbatim>\<open>libs/canopen\<close>: \<^verbatim>\<open>CO_SDO\<close>, \<^verbatim>\<open>CO_SYNC\<close>, \<^verbatim>\<open>CO_SDOclient\<close>,
    \<^verbatim>\<open>CO_OD\<close>, \<^verbatim>\<open>CO_SDOserver\<close>, \<^verbatim>\<open>CO_PDO\<close>, \<^verbatim>\<open>CO_TPDO\<close>, \<^verbatim>\<open>CO\<close>) and \<open>Core_Co\<close> (\<^verbatim>\<open>cores/inc/sm_core_co.c\<close>).
  \<^item> \<open>Bp_Types\<close>, \<open>Bp_Co\<close>, \<open>Bp_Retain\<close>, \<open>Bp_Auth\<close>, \<open>Sv_Bp\<close> (\<^verbatim>\<open>services/bp_management\<close>, \<^verbatim>\<open>common/ev_data/sm_bp_data.h\<close>).
  \<^item> \<open>Pms_Ctl\<close>, \<open>Pms_Est\<close>, \<open>Charger\<close>, \<open>Discharger\<close>, \<open>Sv_Pms\<close> (\<^verbatim>\<open>services/pms\<close>, \<^verbatim>\<open>services/charger\<close>).
  \<^item> \<open>Stm\<close> (\<^verbatim>\<open>cores/stm/sm_stm.c\<close>), \<open>Pmu_Stm\<close> (\<^verbatim>\<open>apps/pmu/sm_pmu_stm.c\<close>), \<open>Io_Service\<close> (\<^verbatim>\<open>services/ev_io/sm_sv_io.c\<close>).
  \<^item> \<open>Uart_Module\<close> (\<^verbatim>\<open>common/uart_module\<close>), \<open>Config_Co\<close> (\<^verbatim>\<open>apps/pmu/sm_ev_config_co.c\<close>), \<open>Pmu_Uart\<close> (\<^verbatim>\<open>apps/pmu/sm_pmu_uart.c\<close> and
    the interrupts of \<^verbatim>\<open>src/hal_entry.c\<close>).
  \<^item> \<open>Sched\<close> (\<^verbatim>\<open>cores/sch/sm_core_sch.c\<close>), \<open>Intel_Hex\<close> (\<^verbatim>\<open>utils/algorithms/sm_intel_hex.c\<close>).
  \<^item> \<open>Flash_Input\<close>, \<open>Boot_Slave\<close>, \<open>Boot_Output\<close> (\<^verbatim>\<open>services/boot_master\<close>: \<^verbatim>\<open>sm_segment\<close>, \<^verbatim>\<open>sm_flash_boot_input\<close>, \<^verbatim>\<open>sm_boot_slave\<close>,
    \<^verbatim>\<open>sm_boot_master\<close>, \<^verbatim>\<open>sm_canopen_boot_output\<close>) and \<open>Flash_Output\<close> (\<^verbatim>\<open>sm_flash_boot_output\<close>).
  \<^item> \<open>Ex_Flash\<close> (\<^verbatim>\<open>common/modules/ex_flash_module\<close>: \<^verbatim>\<open>sm_ex_flash_storage\<close> and the virtual chip), \<open>Vector\<close>
    (\<^verbatim>\<open>utils/containers/sm_vector.c\<close>), \<open>Upgrading\<close> (\<^verbatim>\<open>services/ev_upgrade/sv_upgrading\<close>),
    \<open>Ev_Upgrade\<close> (\<^verbatim>\<open>services/ev_upgrade/sm_sv_ev_upgrade.c\<close>).

  \<^bold>\<open>What is shown.\<close>
  \<^item> Containers: \<open>Ring\<close>, \<open>Fifo\<close> refine a bounded list; the search of the object dictionary equals a linear search and ends
    within \<open>N\<close> passes for \<open>2 ^ N\<close> entries; the two CRC routines agree and the residue detects a wrong CRC.
  \<^item> \<open>Sdo_Laws\<close>, \<open>Sdo_Upload_Laws\<close>: client and server over a bus; a write changes exactly the bytes it names, a read returns
    them, in \<open>transfer_turns n\<close> turns. \<open>Sdo_Safety\<close>: a server whose objects have their data in memory does not leave its
    buffers, on any sequence of frames of eight bytes, as long as none but an abort names an index above the last entry and no abort
    arrives while an extension is to confirm a write; what happens on each of the excluded inputs.
  \<^item> \<open>Core_Co_Laws\<close>, \<open>Co_Net\<close>: requests are answered once and in order; a queued write is carried out by the remote node
    and answered with success: the simulation of the bare transfer by the node with its queue.
  \<^item> \<open>Bp_Auth\<close>, \<open>Sv_Bp_Laws\<close>: an undisturbed handshake ends with the pack authenticated; one that is started during the read
    of another pack's serial number succeeds with that number; commands are first in, first out; silent packs are
    disconnected; the invariant of the service holds after all events that do not fault.
  \<^item> \<open>Pms_Ctl_Laws\<close>, \<open>Charger_Laws\<close>, \<open>Sv_Pms_Laws\<close>: the controller follows its diagram, answers each request at most once,
    what a success and an expired timer mean; the step of the service, estimation included, does not fault while no pack is forced and
    the charger voltage is below its maximum. \<open>Pms_Est_Laws\<close>: the estimation is total on present data, and what it makes of empty packs.
  \<^item> \<open>Pmu_Uart_Laws\<close>: from a line at the console, through the queue of the core, to the dictionary of the motor controller
    and the answer.
  \<^item> \<open>Sched_Laws\<close>: which tasks a pass calls, how often, and which it forgets.
  \<^item> \<open>Pmu_Stm_Laws\<close>: the unit moves by its diagram; \<open>Io_Laws\<close>: the input is debounced.
  \<^item> \<open>Boot_Net\<close>: a segment goes through the CANopen output, the queue, the SDO client and the bus into the dictionary of the
    SDO server of a device. \<open>Boot_Laws\<close>: runs of a slave.
    \<open>Boot_Table\<close>: the table of the master, and the upgrades that do not end well.
  \<^item> \<open>Ex_Flash_Laws\<close>: the interface \<open>flash_chip\<close>, what its partitions guarantee over any such chip, and its interpretation on the
    virtual chip. \<open>Flash_Source\<close>: the flash as a source, segment by segment. \<open>Flash_Copy\<close>: an upgrade from one partition to
    another, over any chip.
  \<^item> \<open>Upgrading_Laws\<close>: the queue of the upgrade service neither loses nor repeats a device. \<open>Ev_Upgrade_Laws\<close>: how a pack is rebooted and
    the results are told.
  \<^item> Where the code fails, the theorem says so: every statement with a \<open>fault\<close> in its conclusion, and the theorems about
    requests that are never answered or answered for another one.

  \<^bold>\<open>Assumptions.\<close> Each function runs to its end before the next one starts (interrupts only append received bytes or frames).
  The data, shadow and temporary buffers of one sub-object are distinct arrays; the buffer of an SDO request is a value of
  the request. What a confirmation function, a PDO builder or a callback of the application does is a parameter.
  The functions of a device to be upgraded do not call the upgrade service.
  Of the firmware of a device that is upgraded over the bus only its SDO server is here, which is the library's; the theorem on the
  CANopen output is about one segment that is not empty (an SDO write of no bytes announces four). A slave keeps its view of the handlers in the table of its output, which is right for one slave at a time.

  \<^bold>\<open>Not modelled.\<close> Board support, generated configuration and vendor code (\<^verbatim>\<open>src/ra\<close>, \<^verbatim>\<open>ra_gen\<close>, \<^verbatim>\<open>ra_cfg\<close>), third-party
  libraries (littlefs, nanoMODBUS, Paho MQTT, json) and the drivers: input and output, or not this program's code. The services for
  telematics, display and Bluetooth, the handlers of the unit for its pins and protection, the sources and outputs of the boot master
  over Modbus, RS-485 and files, the flash chips other than the virtual one, the flash storage of the object dictionary, and the
  emergency and NMT objects are left to later work, belong to other boards or stand on foreign code; the manifest lists them with a reason each.
\<close>

end
